(* ===== verification/HousePrelude.thy ===== *)
theory HousePrelude
  imports Complex_Main "HOL-Library.Word"
begin

section \<open>Shared vocabulary of the housing model\<close>

text \<open>
  The types every component uses (32-bit unsigned ids, yards as reals), the model of
  \<open>std::map\<close> as an association list sorted by key (\<open>sm_find\<close>, \<open>sm_put\<close>, \<open>sm_erase\<close>; iteration is
  the list itself, so it visits the keys in ascending order as the C++ container does), a map of
  maps, and three interfaces that several components share: a row store and the table behind it
  (\<open>row_store\<close>, \<open>mirror\<close>) and the "one past the highest" numbering of a house's rows
  (\<open>numbering\<close>).
\<close>

type_synonym u32 = "32 word"

type_synonym yards = real

type_synonym 'a res = "string + 'a"

named_theorems step_defs \<open>definitions a step of the model unfolds to\<close>

lemma u32_less_succ: "(t::u32) + 1 \<noteq> 0 \<Longrightarrow> t < t + 1"
proof -
  assume nz: "t + 1 \<noteq> 0"
  have "unat (t + 1) = (unat t + 1) mod 2 ^ 32" by (simp add: unat_word_ariths)
  moreover have "unat t < 2 ^ 32" using unsigned_less [of t] by simp
  moreover have "unat (t + 1) \<noteq> 0" using nz by (simp add: unat_eq_0)
  ultimately have "unat (t + 1) = unat t + 1" by (cases "unat t + 1 = 2 ^ 32") auto
  then show "t < t + 1" by (simp add: word_less_nat_alt)
qed

lemma u32_succ:
  fixes n m :: u32
  assumes "n < m"
  shows "n + 1 \<noteq> 0" and "n < n + 1" and "unat (n + 1) = unat n + 1"
proof -
  have "unat n < unat m" using assms by (simp add: word_less_nat_alt)
  moreover have "unat m < 2 ^ 32" using unsigned_less [of m] by simp
  ultimately have "unat n + 1 < 2 ^ 32" by linarith
  then show u: "unat (n + 1) = unat n + 1" by (simp add: unat_word_ariths)
  show "n + 1 \<noteq> 0"
  proof
    assume "n + 1 = 0"
    with u show False by simp
  qed
  then show "n < n + 1" by (rule u32_less_succ)
qed

subsection \<open>std::map\<close>

type_synonym ('k, 'v) smap = "('k \<times> 'v) list"

abbreviation sm_find :: "('k, 'v) smap \<Rightarrow> 'k \<Rightarrow> 'v option" where
  "sm_find m k \<equiv> map_of m k"

fun sm_put :: "'k::linorder \<Rightarrow> 'v \<Rightarrow> ('k, 'v) smap \<Rightarrow> ('k, 'v) smap" where
  "sm_put k v [] = [(k, v)]"
| "sm_put k v (p # m) =
     (if k = fst p then (k, v) # m
      else if k < fst p then (k, v) # p # m
      else p # sm_put k v m)"

definition sm_erase :: "'k \<Rightarrow> ('k, 'v) smap \<Rightarrow> ('k, 'v) smap" where
  "sm_erase k m = filter (\<lambda>p. fst p \<noteq> k) m"

definition sm_keys :: "('k, 'v) smap \<Rightarrow> 'k list" where
  "sm_keys m = map fst m"

definition sm_has :: "('k, 'v) smap \<Rightarrow> 'k \<Rightarrow> bool" where
  "sm_has m k = (sm_find m k \<noteq> None)"

definition sm_ok :: "('k::linorder, 'v) smap \<Rightarrow> bool" where
  "sm_ok m = sorted_wrt (<) (map fst m)"

lemma sm_find_put [simp]: "sm_find (sm_put k v m) j = (if j = k then Some v else sm_find m j)"
  by (induction m) auto

lemma sm_find_erase [simp]: "sm_find (sm_erase k m) j = (if j = k then None else sm_find m j)"
  unfolding sm_erase_def by (induction m) auto

lemma sm_has_put [simp]: "sm_has (sm_put k v m) j \<longleftrightarrow> j = k \<or> sm_has m j"
  by (simp add: sm_has_def)

lemma sm_has_erase [simp]: "sm_has (sm_erase k m) j \<longleftrightarrow> j \<noteq> k \<and> sm_has m j"
  by (simp add: sm_has_def)

lemma sm_keys_put [simp]: "set (sm_keys (sm_put k v m)) = insert k (set (sm_keys m))"
  unfolding sm_keys_def by (induction m) auto

lemma sm_keys_erase [simp]: "set (sm_keys (sm_erase k m)) = set (sm_keys m) - {k}"
  unfolding sm_keys_def sm_erase_def by auto

lemma sm_has_keys: "sm_has m k \<longleftrightarrow> k \<in> set (sm_keys m)"
  unfolding sm_has_def sm_keys_def by (metis domIff dom_map_of_conv_image_fst set_map)

lemma sm_ok_Nil [simp]: "sm_ok []"
  by (simp add: sm_ok_def)

lemma sm_ok_put [simp]: "sm_ok m \<Longrightarrow> sm_ok (sm_put k v m)"
proof (induction m)
  case Nil
  then show ?case by (simp add: sm_ok_def)
next
  case (Cons p m)
  from Cons.prems have tl: "sm_ok m" and hd: "\<forall>x \<in> set (map fst m). fst p < x"
    by (auto simp: sm_ok_def)
  from Cons.IH [OF tl] have "sm_ok (sm_put k v m)" .
  moreover have "set (map fst (sm_put k v m)) = insert k (set (map fst m))"
    using sm_keys_put [of k v m] by (simp add: sm_keys_def)
  ultimately show ?case
    using Cons.prems hd by (auto simp: sm_ok_def)
qed

lemma sm_ok_erase [simp]: "sm_ok m \<Longrightarrow> sm_ok (sm_erase k m)"
  unfolding sm_ok_def sm_erase_def by (induction m) auto

lemma sm_ok_distinct: "sm_ok m \<Longrightarrow> distinct (map fst m)"
  unfolding sm_ok_def by (induction m) auto

lemma sm_find_in: "sm_ok m \<Longrightarrow> sm_find m k = Some v \<longleftrightarrow> (k, v) \<in> set m"
  by (simp add: sm_ok_distinct)

lemma sm_erase_absent: "sm_find m k = None \<Longrightarrow> sm_erase k m = m"
  unfolding sm_erase_def by (induction m) (auto split: if_splits)

lemma length_sm_put:
  assumes "sm_has m k" and "sm_ok m"
  shows "length (sm_put k v m) = length m"
proof -
  have "set (map fst (sm_put k v m)) = set (map fst m)"
    using assms sm_keys_put [of k v m] sm_has_keys [of m k] by (auto simp: sm_keys_def)
  moreover have "distinct (map fst m)" and "distinct (map fst (sm_put k v m))"
    using assms by (auto intro: sm_ok_distinct)
  ultimately show ?thesis
    using distinct_card [of "map fst m"] distinct_card [of "map fst (sm_put k v m)"] by simp
qed

lemma length_sm_put_fresh: "\<not> sm_has m k \<Longrightarrow> length (sm_put k v m) = Suc (length m)"
  by (induction m) (auto simp: sm_has_def split: if_splits)

text \<open>\<open>SELECT MAX(id)\<close> over the rows of a table, 0 when it has none.\<close>

definition sm_max_key :: "(u32, 'v) smap \<Rightarrow> u32" where
  "sm_max_key m = (if m = [] then 0 else fst (last m))"

lemma sm_put_last: "\<forall>i \<in> set (map fst m). i < k \<Longrightarrow> sm_put k v m = m @ [(k, v)]"
  by (induction m) (auto dest: order.asym)

lemma sm_find_key: "sm_find m k = Some v \<Longrightarrow> k \<in> set (map fst m)"
  by (force dest: map_of_SomeD)

lemma sm_ok_eqI: "sm_ok m \<Longrightarrow> sm_ok n \<Longrightarrow> sm_find m = sm_find n \<Longrightarrow> m = n"
proof (induction m arbitrary: n)
  case Nil
  then show ?case
    by (cases n) (auto simp: fun_eq_iff split: if_splits)
next
  case (Cons p m)
  obtain k v where p: "p = (k, v)" by (cases p)
  from Cons.prems(3) have "sm_find n k = Some v" by (metis p map_of_Cons_code(2) fst_conv)
  then obtain q n' where n: "n = q # n'" by (cases n) auto
  have lo: "\<forall>j \<in> set (map fst m). k < j" "\<forall>j \<in> set (map fst n'). fst q < j" "sm_ok m" "sm_ok n'"
    using Cons.prems(1,2) by (auto simp: sm_ok_def p n)
  have same: "sm_find (p # m) j = sm_find (q # n') j" for j
    using fun_cong [OF Cons.prems(3), of j] unfolding n .
  have "fst q = k"
  proof (rule ccontr)
    assume ne: "fst q \<noteq> k"
    have "sm_find n' k = Some v" using same [of k] ne by (cases q) (simp add: p)
    then have "fst q < k" using lo(2) sm_find_key by fastforce
    moreover have "sm_find m (fst q) = Some (snd q)"
      using same [of "fst q"] ne by (cases q) (auto simp: p)
    then have "k < fst q" using lo(1) sm_find_key by fastforce
    ultimately show False by simp
  qed
  moreover from this have "snd q = v" using same [of k] by (cases q) (simp add: p)
  ultimately have q: "q = p" by (cases q) (simp add: p)
  have "sm_find m = sm_find n'"
  proof
    fix j
    show "sm_find m j = sm_find n' j"
    proof (cases "j = k")
      case True
      have "sm_find m k = None" "sm_find n' k = None"
        using lo q by (force simp: p map_of_eq_None_iff)+
      with True show ?thesis by simp
    next
      case False
      then show ?thesis using same [of j] by (simp add: q p)
    qed
  qed
  with Cons.IH [OF lo(3,4)] show ?case by (simp add: n q)
qed

subsection \<open>A map of maps\<close>

text \<open>
  \<open>std::map<K, std::map<J, V>>\<close> as the code uses it: \<open>nm_at\<close> is \<open>find\<close> on the outer map followed by
  \<open>find\<close> on the inner one, and \<open>nm_set\<close> is \<open>m[k][j] = v\<close>, which creates the outer entry.
\<close>

definition nm_row :: "('k, ('j, 'v) smap) smap \<Rightarrow> 'k \<Rightarrow> ('j, 'v) smap" where
  "nm_row m k = (case sm_find m k of None \<Rightarrow> [] | Some r \<Rightarrow> r)"

definition nm_at :: "('k, ('j, 'v) smap) smap \<Rightarrow> 'k \<times> 'j \<Rightarrow> 'v option" where
  "nm_at m kj = sm_find (nm_row m (fst kj)) (snd kj)"

definition nm_set ::
  "'k::linorder \<times> 'j::linorder \<Rightarrow> 'v \<Rightarrow> ('k, ('j, 'v) smap) smap \<Rightarrow> ('k, ('j, 'v) smap) smap" where
  "nm_set kj v m = sm_put (fst kj) (sm_put (snd kj) v (nm_row m (fst kj))) m"

definition nm_del ::
  "'k::linorder \<times> 'j \<Rightarrow> ('k, ('j, 'v) smap) smap \<Rightarrow> ('k, ('j, 'v) smap) smap" where
  "nm_del kj m = sm_put (fst kj) (sm_erase (snd kj) (nm_row m (fst kj))) m"

lemma nm_row_put [simp]: "nm_row (sm_put k r m) j = (if j = k then r else nm_row m j)"
  by (simp add: nm_row_def)

lemma nm_at_set [simp]: "nm_at (nm_set kj v m) ij = (if ij = kj then Some v else nm_at m ij)"
  by (cases ij; cases kj) (simp add: nm_at_def nm_set_def)

lemma nm_at_del [simp]: "nm_at (nm_del kj m) ij = (if ij = kj then None else nm_at m ij)"
  by (cases ij; cases kj) (simp add: nm_at_def nm_del_def)

lemma nm_row_set [simp]:
  "nm_row (nm_set kj v m) k = (if k = fst kj then sm_put (snd kj) v (nm_row m k) else nm_row m k)"
  by (simp add: nm_set_def)

lemma nm_row_del [simp]:
  "nm_row (nm_del kj m) k = (if k = fst kj then sm_erase (snd kj) (nm_row m k) else nm_row m k)"
  by (simp add: nm_del_def)

lemma nm_at_None_row: "nm_row m k = [] \<Longrightarrow> nm_at m (k, j) = None"
  by (simp add: nm_at_def)

subsection \<open>Interface: rows in memory and the table behind them\<close>

text \<open>
  Housing keeps its rows in memory and writes every change through to a table. \<open>row_store\<close> is what
  both sides promise; \<open>mirror\<close> pairs them, and its lemmas say that a change made to both keeps the
  two in agreement. A component interprets it on its own map and its own table.
\<close>

locale row_store =
  fixes look :: "'s \<Rightarrow> 'k \<Rightarrow> 'v option"
    and store :: "'k \<Rightarrow> 'v \<Rightarrow> 's \<Rightarrow> 's"
    and drop :: "'k \<Rightarrow> 's \<Rightarrow> 's"
  assumes look_store: "look (store k v s) j = (if j = k then Some v else look s j)"
    and look_drop: "look (drop k s) j = (if j = k then None else look s j)"
begin

lemma look_store_same: "look (store k v s) k = Some v"
  by (simp add: look_store)

lemma look_store_other: "j \<noteq> k \<Longrightarrow> look (store k v s) j = look s j"
  by (simp add: look_store)

lemma store_store: "look (store k v (store k w s)) = look (store k v s)"
  by (rule ext) (simp add: look_store)

lemma drop_store: "look s k = None \<Longrightarrow> look (drop k (store k v s)) = look s"
  by (rule ext) (simp add: look_store look_drop)

end

locale mirror =
  mem: row_store mlook mstore mdrop + tab: row_store tlook tstore tdrop
  for mlook :: "'m \<Rightarrow> 'k \<Rightarrow> 'v option"
    and mstore :: "'k \<Rightarrow> 'v \<Rightarrow> 'm \<Rightarrow> 'm"
    and mdrop :: "'k \<Rightarrow> 'm \<Rightarrow> 'm"
    and tlook :: "'t \<Rightarrow> 'k \<Rightarrow> 'v option"
    and tstore :: "'k \<Rightarrow> 'v \<Rightarrow> 't \<Rightarrow> 't"
    and tdrop :: "'k \<Rightarrow> 't \<Rightarrow> 't"
begin

lemma agree_store: "mlook m = tlook t \<Longrightarrow> mlook (mstore k v m) = tlook (tstore k v t)"
  by (rule ext) (simp add: mem.look_store tab.look_store)

lemma agree_drop: "mlook m = tlook t \<Longrightarrow> mlook (mdrop k m) = tlook (tdrop k t)"
  by (rule ext) (simp add: mem.look_drop tab.look_drop)

lemma agree_move:
  "mlook m = tlook t \<Longrightarrow>
   mlook (mstore j v (mdrop k m)) = tlook (tstore j v (tdrop j (tdrop k t)))"
  by (rule ext) (simp add: mem.look_drop tab.look_drop mem.look_store tab.look_store)

lemma agree_swap:
  "mlook m = tlook t \<Longrightarrow> j \<noteq> k \<Longrightarrow>
   mlook (mstore j v (mstore k w m)) = tlook (tstore k w (tstore j v (tdrop j (tdrop k t))))"
  by (rule ext) (simp add: mem.look_store tab.look_store tab.look_drop)

end

interpretation smap_rows: row_store sm_find sm_put sm_erase
  by unfold_locales simp_all

interpretation nested_rows: row_store nm_at nm_set nm_del
  by unfold_locales simp_all

text \<open>A nested map in memory over a flat table keyed by the pair: storage squares and settings.\<close>

definition tab_put :: "'k \<times> 'j \<Rightarrow> 'v \<Rightarrow> (('k \<times> 'j) \<times> 'v) list \<Rightarrow> (('k \<times> 'j) \<times> 'v) list" where
  "tab_put kj v t = (kj, v) # filter (\<lambda>p. fst p \<noteq> kj) t"

definition tab_del :: "'k \<times> 'j \<Rightarrow> (('k \<times> 'j) \<times> 'v) list \<Rightarrow> (('k \<times> 'j) \<times> 'v) list" where
  "tab_del kj t = filter (\<lambda>p. fst p \<noteq> kj) t"

lemma map_of_filter_key: "map_of (filter (\<lambda>p. fst p \<noteq> k) t) j = (if j = k then None else map_of t j)"
  by (induction t) auto

interpretation nested_mirror: mirror nm_at nm_set nm_del map_of tab_put tab_del
  by unfold_locales (auto simp: tab_put_def tab_del_def map_of_filter_key)

interpretation flat_mirror: mirror sm_find sm_put sm_erase sm_find sm_put sm_erase
  by unfold_locales

end
