(* ===== verification/HouseTypes.thy ===== *)
theory HouseTypes
  imports HousePrelude "HOL-Library.List_Lexorder" "HOL-Library.Char_ord"
begin

section \<open>Data of the housing manager\<close>

text \<open>
  The constants, enums and structs of Housing/HouseMgr.h, the member variables of \<open>HouseMgr\<close> as the
  record \<open>HouseMgr\<close>, the \<open>tw_char\<close> tables it writes through to (\<open>tables\<close>), the part of
  \<open>Player\<close> that housing reads (\<open>player\<close>), and the answers of the rest of the server (\<open>server\<close>:
  template lookups, the clock, whether a map is loaded, whether a teleport was accepted), which are
  a parameter of every operation. Floats are reals. An \<open>ObjectGuid\<close> of a player is its low guid,
  with 0 the empty guid. What an operation sends to the world and not to the tables (chat lines,
  spawns, teleports) is appended to \<open>trace\<close> in program order.
\<close>

subsection \<open>Constants\<close>

definition HOUSE_MAP_ID :: u32 where "HOUSE_MAP_ID = 28"
definition HOUSE_GO_GUID_MIN :: u32 where "HOUSE_GO_GUID_MIN = 8000000"
definition HOUSE_GO_GUID_MAX :: u32 where "HOUSE_GO_GUID_MAX = 12000000"
definition HOUSE_MAX_OBJECTS :: u32 where "HOUSE_MAX_OBJECTS = 100"
definition HOUSE_CRITTER_GUID_MIN :: u32 where "HOUSE_CRITTER_GUID_MIN = 8000000"
definition HOUSE_CRITTER_GUID_MAX :: u32 where "HOUSE_CRITTER_GUID_MAX = 8100000"
definition HOUSE_MAX_CRITTERS :: u32 where "HOUSE_MAX_CRITTERS = 10"
definition HOUSE_CRITTER_WANDER_MAX :: yards where "HOUSE_CRITTER_WANDER_MAX = 20"
definition HOUSE_CRITTER_REACH :: yards where "HOUSE_CRITTER_REACH = 10"
definition HOUSE_CRITTER_WALK_TICKS :: u32 where "HOUSE_CRITTER_WALK_TICKS = 40"
definition HOUSE_CRITTER_WALK_ARRIVED :: yards where "HOUSE_CRITTER_WALK_ARRIVED = 3/2"
definition HOUSE_CRITTER_NAME_MAX :: nat where "HOUSE_CRITTER_NAME_MAX = 24"
definition HOUSE_STORAGE_MAX :: u32 where "HOUSE_STORAGE_MAX = 1000"
definition HOUSE_PLACE_DISTANCE :: yards where "HOUSE_PLACE_DISTANCE = 2"
definition HOUSE_PLACE_DISTANCE_MAX :: yards where "HOUSE_PLACE_DISTANCE_MAX = 40"
definition HOUSE_PLACE_HEIGHT_MAX :: yards where "HOUSE_PLACE_HEIGHT_MAX = 20"
definition HOUSE_PLACE_LIFT :: yards where "HOUSE_PLACE_LIFT = 1/40"
definition HOUSE_MAX_NUDGE :: yards where "HOUSE_MAX_NUDGE = 100"
definition HOUSE_GROUP_MAX :: nat where "HOUSE_GROUP_MAX = 40"
definition HOUSE_PORTAL_PLACE_DISTANCE :: yards where "HOUSE_PORTAL_PLACE_DISTANCE = 3"
definition HOUSE_PORTAL_NEAR :: yards where "HOUSE_PORTAL_NEAR = 5"
definition HOUSE_EXIT_OFFSET :: yards where "HOUSE_EXIT_OFFSET = 4"
definition HOUSE_ARRIVE_LIFT :: yards where "HOUSE_ARRIVE_LIFT = 2"
definition HOUSE_ENTRY_X :: yards where "HOUSE_ENTRY_X = 15801"
definition HOUSE_ENTRY_Y :: yards where "HOUSE_ENTRY_Y = 16394"
definition HOUSE_ENTRY_Z :: yards where "HOUSE_ENTRY_Z = 0"
definition HOUSE_ENTRY_O :: yards where "HOUSE_ENTRY_O = 0"
definition HOUSE_FALL_WATCH :: u32 where "HOUSE_FALL_WATCH = 10000"
definition HOUSE_FALL_PLANE_Z :: yards where "HOUSE_FALL_PLANE_Z = 1"
definition HOUSE_FALL_MIN_FLOOR :: yards where "HOUSE_FALL_MIN_FLOOR = 2"
definition HOUSE_FALL_RADIUS :: yards where "HOUSE_FALL_RADIUS = 10"
definition HOUSE_NUDGE_LIFT :: yards where "HOUSE_NUDGE_LIFT = 1/20"
definition HOUSE_EDIT_INTERVAL :: u32 where "HOUSE_EDIT_INTERVAL = 500"
definition HOUSE_HOME_PORTAL_SPELL :: u32 where "HOUSE_HOME_PORTAL_SPELL = 63000"
definition HOUSE_PORTAL_GUID_MIN :: u32 where "HOUSE_PORTAL_GUID_MIN = HOUSE_GO_GUID_MAX - 1000"
definition HOUSE_PORTAL_GUID_MAX :: u32 where "HOUSE_PORTAL_GUID_MAX = HOUSE_GO_GUID_MAX - 1"
definition HOUSE_PORTAL_MAX_ID :: u32 where "HOUSE_PORTAL_MAX_ID = 999"
definition HOUSE_SETTING_GLOBAL_ACCOUNT :: u32 where "HOUSE_SETTING_GLOBAL_ACCOUNT = 0"
definition HOUSE_TEMPLATE_ACCOUNT_MAX :: u32 where "HOUSE_TEMPLATE_ACCOUNT_MAX = 0xFFFFFFFE"
definition HOUSE_TEMPLATE_ACCOUNT_MIN :: u32 where "HOUSE_TEMPLATE_ACCOUNT_MIN = 0xFFFF0000"
definition HOUSE_KNOCK_SECONDS :: nat where "HOUSE_KNOCK_SECONDS = 30"
definition HOUSE_KNOCK_TOUCH_MS :: u32 where "HOUSE_KNOCK_TOUCH_MS = 1000"
definition HOUSE_MARK_HIDE_RANGE :: yards where "HOUSE_MARK_HIDE_RANGE = 7"
definition HOUSE_SELECT_MARK_ENTRY :: u32 where "HOUSE_SELECT_MARK_ENTRY = 2000836"
definition HOUSE_CHALK_MARK_LIFT :: yards where "HOUSE_CHALK_MARK_LIFT = 0"
definition HOUSE_SELECT_MARK_LIFT :: yards where "HOUSE_SELECT_MARK_LIFT = 1"
definition PORTAL_COOLDOWN_SEC :: nat where "PORTAL_COOLDOWN_SEC = 5"
definition SEC_DEVELOPER :: nat where "SEC_DEVELOPER = 3"
definition HOUSE_RESET_TIME :: nat where "HOUSE_RESET_TIME = 4102444800"

lemmas house_consts =
  HOUSE_MAP_ID_def HOUSE_GO_GUID_MIN_def HOUSE_GO_GUID_MAX_def HOUSE_MAX_OBJECTS_def
  HOUSE_CRITTER_GUID_MIN_def HOUSE_CRITTER_GUID_MAX_def HOUSE_MAX_CRITTERS_def
  HOUSE_CRITTER_WANDER_MAX_def HOUSE_CRITTER_REACH_def HOUSE_CRITTER_WALK_TICKS_def
  HOUSE_CRITTER_WALK_ARRIVED_def HOUSE_CRITTER_NAME_MAX_def HOUSE_STORAGE_MAX_def
  HOUSE_PLACE_DISTANCE_def HOUSE_PLACE_DISTANCE_MAX_def HOUSE_PLACE_HEIGHT_MAX_def
  HOUSE_PLACE_LIFT_def HOUSE_MAX_NUDGE_def HOUSE_GROUP_MAX_def HOUSE_PORTAL_PLACE_DISTANCE_def
  HOUSE_PORTAL_NEAR_def HOUSE_EXIT_OFFSET_def HOUSE_ARRIVE_LIFT_def HOUSE_ENTRY_X_def
  HOUSE_ENTRY_Y_def HOUSE_ENTRY_Z_def HOUSE_ENTRY_O_def HOUSE_FALL_WATCH_def
  HOUSE_FALL_PLANE_Z_def HOUSE_FALL_MIN_FLOOR_def HOUSE_FALL_RADIUS_def HOUSE_NUDGE_LIFT_def
  HOUSE_EDIT_INTERVAL_def HOUSE_HOME_PORTAL_SPELL_def HOUSE_PORTAL_GUID_MIN_def
  HOUSE_PORTAL_GUID_MAX_def HOUSE_PORTAL_MAX_ID_def HOUSE_SETTING_GLOBAL_ACCOUNT_def
  HOUSE_TEMPLATE_ACCOUNT_MAX_def HOUSE_TEMPLATE_ACCOUNT_MIN_def HOUSE_KNOCK_SECONDS_def
  HOUSE_MARK_HIDE_RANGE_def HOUSE_SELECT_MARK_LIFT_def HOUSE_SELECT_MARK_ENTRY_def
  HOUSE_CHALK_MARK_LIFT_def
  HOUSE_KNOCK_TOUCH_MS_def PORTAL_COOLDOWN_SEC_def SEC_DEVELOPER_def HOUSE_RESET_TIME_def

subsection \<open>Structs\<close>

datatype HouseObjectSource = HOUSE_SOURCE_PLAYER | HOUSE_SOURCE_TEMPLATE

record HouseObject =
  o_guid :: u32
  o_houseId :: u32
  o_slot :: u32
  o_groupNo :: u32
  o_goEntry :: u32
  o_itemEntry :: u32
  o_x :: yards
  o_y :: yards
  o_z :: yards
  o_o :: yards
  o_rot :: "yards \<times> yards \<times> yards \<times> yards"
  o_scale :: yards
  o_source :: HouseObjectSource

record HouseCritter =
  c_guid :: u32
  c_houseId :: u32
  c_slot :: u32
  c_entry :: u32
  c_itemEntry :: u32
  c_customName :: string
  c_x :: yards
  c_y :: yards
  c_z :: yards
  c_o :: yards
  c_wander :: yards

definition IsHouseFabric :: "HouseObject \<Rightarrow> bool" where
  "IsHouseFabric ob = (o_source ob = HOUSE_SOURCE_TEMPLATE)"

record FurnitureItem =
  fi_goEntry :: u32
  fi_scale :: yards
  fi_category :: string

record CritterItem =
  ci_critterEntry :: u32
  ci_wander :: yards

record HouseCritterWalk =
  w_instanceId :: u32
  w_entry :: u32
  w_x :: yards
  w_y :: yards
  w_z :: yards
  w_wander :: yards
  w_ticks :: u32

datatype HouseStepKind = HOUSE_STEP_MOVE | HOUSE_STEP_TURN | HOUSE_STEP_SIZE

record HouseEdit =
  e_houseId :: u32
  e_stepMove :: yards
  e_stepTurn :: yards
  e_stepSize :: yards
  e_all :: bool
  e_wanted :: "(u32, unit) smap"
  e_marked :: "(u32, unit) smap"

record HouseArrival =
  a_instanceId :: u32
  a_ticks :: u32
  a_x :: yards
  a_y :: yards
  a_floorZ :: yards
  a_watchTicks :: u32

record HouseStorageStack =
  st_slot :: u32
  st_itemEntry :: u32
  st_count :: u32

record HousePortal =
  p_id :: u32
  p_map :: u32
  p_x :: yards
  p_y :: yards
  p_z :: yards
  p_o :: yards
  p_name :: string
  p_templateId :: u32

record HouseExit =
  x_set :: bool
  x_x :: yards
  x_y :: yards
  x_z :: yards
  x_o :: yards

record HouseTemplate =
  t_id :: u32
  t_name :: string
  t_houseId :: u32
  t_exit :: HouseExit
  t_savedAt :: nat
  t_objects :: "HouseObject list"

record House =
  h_id :: u32
  h_accountId :: u32
  h_portalId :: u32
  h_instanceId :: u32
  h_name :: string
  h_objects :: "u32 list"
  h_critters :: "u32 list"
  h_templateId :: u32
  h_authorsTemplate :: u32
  h_exit :: HouseExit

record HousePartyHost =
  ph_leaderGuid :: u32
  ph_leaderAccount :: u32
  ph_houseId :: u32
  ph_leaderName :: string

record HouseKnock =
  k_houseId :: u32
  k_portalId :: u32
  k_expires :: nat
  k_answered :: bool

record HouseKnockTouch =
  kt_portalGuid :: u32
  kt_lastSeen :: u32

record HouseReturn =
  r_viaAccount :: u32
  r_hostGuid :: u32
  r_mapId :: u32
  r_instanceId :: u32
  r_x :: yards
  r_y :: yards
  r_z :: yards
  r_o :: yards

record HouseHomePortal =
  hp_goGuid :: u32
  hp_ownerGuid :: u32
  hp_mapId :: u32
  hp_instanceId :: u32

record ChalkMark =
  m_houseId :: u32
  m_x :: yards
  m_y :: yards
  m_z :: yards

end
