(* ===== verification/HouseState.thy ===== *)
theory HouseState
  imports HouseTypes
begin

section \<open>State, tables, players and the rest of the server\<close>

text \<open>
  \<open>HouseMgr\<close> holds the member variables of the class of that name; \<open>tables\<close> holds the rows of the
  \<open>tw_char\<close> tables, and each statement the code issues is a function of them (\<open>sql_...\<close>); \<open>pexec\<close> runs
  one statement (the statements take effect in program order: the four asynchronous workers of the
  real database are not modelled). \<open>server\<close> is what housing asks of code outside it.
\<close>

record group =
  g_leader :: u32
  g_leaderName :: string
  g_members :: "u32 list"

record player =
  pl_guid :: u32
  pl_name :: string
  pl_session :: bool
  pl_account :: u32
  pl_security :: nat
  pl_bot :: bool
  pl_inWorld :: bool
  pl_mapId :: u32
  pl_instanceId :: u32
  pl_combat :: bool
  pl_taxi :: bool
  pl_teleporting :: bool
  pl_x :: yards
  pl_y :: yards
  pl_z :: yards
  pl_o :: yards
  pl_forced :: u32
  pl_bags :: "u32 \<Rightarrow> nat"
  pl_group :: "group option"
  pl_spells :: "u32 list"

record go_info =
  gi_name :: string
  gi_size :: yards
  gi_displayId :: u32

record creature_info =
  cr_name :: string
  cr_critter :: bool

text \<open>A living animal as the map has it.\<close>

record animal =
  an_inWorld :: bool
  an_x :: yards
  an_y :: yards
  an_z :: yards
  an_o :: yards

record server =
  sv_now :: nat
  sv_nowMs :: u32
  sv_item :: "u32 \<Rightarrow> string option"
  sv_go :: "u32 \<Rightarrow> go_info option"
  sv_display :: "u32 \<Rightarrow> bool"
  sv_creature :: "u32 \<Rightarrow> creature_info option"
  sv_mapEntry :: bool
  sv_canStore :: "player \<Rightarrow> u32 \<Rightarrow> bool"
  sv_store :: "player \<Rightarrow> u32 \<Rightarrow> bool"
  sv_accountOfName :: "string \<Rightarrow> u32"
  sv_accountOfGuid :: "u32 \<Rightarrow> u32"
  sv_findPlayer :: "u32 \<Rightarrow> player option"
  sv_findByName :: "string \<Rightarrow> player option"
  sv_sessionPlayer :: "u32 \<Rightarrow> player option"
  sv_teleport :: "player \<Rightarrow> u32 \<Rightarrow> bool"
  sv_persist :: "u32 \<Rightarrow> bool"
  sv_copy :: "u32 \<Rightarrow> u32 \<Rightarrow> bool"
  sv_mapKind :: "u32 \<Rightarrow> bool option"
  sv_bound :: "player \<Rightarrow> u32 \<Rightarrow> u32 option"
  sv_goBack :: "u32 \<Rightarrow> (u32 \<times> yards \<times> yards \<times> yards \<times> yards) option"
  sv_grid :: "u32 \<Rightarrow> yards \<Rightarrow> yards \<Rightarrow> bool"
  sv_newGo :: "u32 \<Rightarrow> u32"
  sv_goStands :: "u32 \<Rightarrow> bool"
  sv_battleground :: "player \<Rightarrow> bool"
  sv_transport :: "player \<Rightarrow> bool"
  sv_invasion :: "player \<Rightarrow> bool"
  sv_nameOfGuid :: "u32 \<Rightarrow> string option"
  sv_normalName :: "string \<Rightarrow> string option"
  sv_loggingOut :: "player \<Rightarrow> bool"
  sv_destMap :: "player \<Rightarrow> u32"
  sv_newInstance :: u32
  sv_loaded :: "u32 \<Rightarrow> bool"
  sv_cell :: "yards \<Rightarrow> yards \<Rightarrow> bool"
  sv_spawned :: "u32 \<Rightarrow> bool"
  sv_summon :: "u32 \<Rightarrow> bool"
  sv_sizeFactor :: yards
  sv_animal :: "u32 \<Rightarrow> animal option"
  sv_animalSize :: "u32 \<Rightarrow> yards"
  sv_animalReach :: "u32 \<Rightarrow> yards"
  sv_firstTempGo :: u32
  sv_firstTempCreature :: u32
  sv_reserveCreature :: u32
  sv_players :: "player list"

subsection \<open>Tables\<close>

record HouseRow =
  hr_account :: u32
  hr_instance :: u32
  hr_name :: string
  hr_exit :: HouseExit
  hr_portal :: u32
  hr_template :: u32

record TemplateRow =
  tr_name :: string
  tr_house :: u32
  tr_exit :: HouseExit
  tr_savedAt :: nat

record tables =
  tb_house :: "(u32, HouseRow) smap"
  tb_nextHouse :: u32
  tb_object :: "(u32, HouseObject) smap"
  tb_critter :: "(u32, HouseCritter) smap"
  tb_storage :: "((u32 \<times> u32) \<times> u32) list"
  tb_setting :: "((u32 \<times> u32) \<times> u32) list"
  tb_template :: "(u32, TemplateRow) smap"
  tb_nextTemplate :: u32
  tb_templateObject :: "(u32 \<times> HouseObject) list"
  tb_portal :: "(u32, HousePortal) smap"
  tb_nextPortal :: u32
  tb_return :: "(u32, HouseReturn) smap"
  tb_instance :: "(u32, nat) smap"

definition no_exit :: HouseExit where
  "no_exit = \<lparr>x_set = False, x_x = 0, x_y = 0, x_z = 0, x_o = 0\<rparr>"

text \<open>An update of the row with this primary key, and of no row when there is none.\<close>

definition sm_update :: "'k::linorder \<Rightarrow> ('v \<Rightarrow> 'v) \<Rightarrow> ('k, 'v) smap \<Rightarrow> ('k, 'v) smap" where
  "sm_update k f m = (case sm_find m k of None \<Rightarrow> m | Some v \<Rightarrow> sm_put k (f v) m)"

lemma sm_find_update [simp]:
  "sm_find (sm_update k f m) j = (if j = k then map_option f (sm_find m k) else sm_find m j)"
  by (auto simp: sm_update_def split: option.splits)

definition sql_replace_storage :: "u32 \<Rightarrow> u32 \<Rightarrow> u32 \<Rightarrow> tables \<Rightarrow> tables" where
  "sql_replace_storage a s i t =
     t\<lparr>tb_storage := tab_put (a, s) i (tb_storage t)\<rparr>"

definition sql_delete_storage :: "u32 \<Rightarrow> u32 \<Rightarrow> tables \<Rightarrow> tables" where
  "sql_delete_storage a s t =
     t\<lparr>tb_storage := tab_del (a, s) (tb_storage t)\<rparr>"

definition sql_replace_setting :: "u32 \<Rightarrow> u32 \<Rightarrow> u32 \<Rightarrow> tables \<Rightarrow> tables" where
  "sql_replace_setting a s v t =
     t\<lparr>tb_setting := tab_put (a, s) v (tb_setting t)\<rparr>"

definition sql_insert_object :: "HouseObject \<Rightarrow> tables \<Rightarrow> tables" where
  "sql_insert_object ob t =
     t\<lparr>tb_object := sm_put (o_guid ob) ob (tb_object t)\<rparr>"

definition sql_update_object_place :: "u32 \<Rightarrow> yards \<Rightarrow> yards \<Rightarrow> yards \<Rightarrow> yards \<Rightarrow> yards \<Rightarrow> tables \<Rightarrow> tables" where
  "sql_update_object_place g x y z o' sc t =
     t\<lparr>tb_object := sm_update g (\<lambda>ob. ob\<lparr>o_x := x, o_y := y, o_z := z, o_o := o', o_scale := sc\<rparr>)
                     (tb_object t)\<rparr>"

definition sql_update_object_slot :: "u32 \<Rightarrow> u32 \<Rightarrow> tables \<Rightarrow> tables" where
  "sql_update_object_slot g n t =
     t\<lparr>tb_object := sm_update g (\<lambda>ob. ob\<lparr>o_slot := n\<rparr>) (tb_object t)\<rparr>"

definition sql_update_object_group :: "u32 \<Rightarrow> u32 \<Rightarrow> tables \<Rightarrow> tables" where
  "sql_update_object_group g n t =
     t\<lparr>tb_object := sm_update g (\<lambda>ob. ob\<lparr>o_groupNo := n\<rparr>) (tb_object t)\<rparr>"

definition sql_delete_object :: "u32 \<Rightarrow> tables \<Rightarrow> tables" where
  "sql_delete_object g t =
     t\<lparr>tb_object := sm_erase g (tb_object t)\<rparr>"

definition sql_insert_critter :: "HouseCritter \<Rightarrow> tables \<Rightarrow> tables" where
  "sql_insert_critter c t =
     t\<lparr>tb_critter := sm_put (c_guid c) c (tb_critter t)\<rparr>"

definition sql_update_critter_place :: "u32 \<Rightarrow> yards \<Rightarrow> yards \<Rightarrow> yards \<Rightarrow> yards \<Rightarrow> yards \<Rightarrow> tables \<Rightarrow> tables" where
  "sql_update_critter_place g x y z o' w t =
     t\<lparr>tb_critter := sm_update g (\<lambda>c. c\<lparr>c_x := x, c_y := y, c_z := z, c_o := o', c_wander := w\<rparr>)
                      (tb_critter t)\<rparr>"

definition sql_update_critter_name :: "u32 \<Rightarrow> string \<Rightarrow> tables \<Rightarrow> tables" where
  "sql_update_critter_name g n t =
     t\<lparr>tb_critter := sm_update g (\<lambda>c. c\<lparr>c_customName := n\<rparr>) (tb_critter t)\<rparr>"

definition sql_update_critter_slot :: "u32 \<Rightarrow> u32 \<Rightarrow> tables \<Rightarrow> tables" where
  "sql_update_critter_slot g n t =
     t\<lparr>tb_critter := sm_update g (\<lambda>c. c\<lparr>c_slot := n\<rparr>) (tb_critter t)\<rparr>"

definition sql_delete_critter :: "u32 \<Rightarrow> tables \<Rightarrow> tables" where
  "sql_delete_critter g t =
     t\<lparr>tb_critter := sm_erase g (tb_critter t)\<rparr>"

definition sql_insert_house :: "u32 \<Rightarrow> tables \<Rightarrow> tables" where
  "sql_insert_house a t =
     (if \<exists>r \<in> set (tb_house t). hr_account (snd r) = a then t
      else t\<lparr>tb_house := sm_put (tb_nextHouse t)
                \<lparr>hr_account = a, hr_instance = 0, hr_name = [], hr_exit = no_exit,
                 hr_portal = 0, hr_template = 0\<rparr> (tb_house t),
             tb_nextHouse := tb_nextHouse t + 1\<rparr>)"

definition sql_update_house_instance :: "u32 \<Rightarrow> u32 \<Rightarrow> tables \<Rightarrow> tables" where
  "sql_update_house_instance h i t =
     t\<lparr>tb_house := sm_update h (\<lambda>r. r\<lparr>hr_instance := i\<rparr>) (tb_house t)\<rparr>"

definition sql_update_house_exit :: "u32 \<Rightarrow> HouseExit \<Rightarrow> u32 \<Rightarrow> tables \<Rightarrow> tables" where
  "sql_update_house_exit h e tpl t =
     t\<lparr>tb_house := sm_update h (\<lambda>r. r\<lparr>hr_exit := e, hr_template := tpl\<rparr>) (tb_house t)\<rparr>"

definition sql_update_house_way_out :: "u32 \<Rightarrow> HouseExit \<Rightarrow> tables \<Rightarrow> tables" where
  "sql_update_house_way_out h e t =
     t\<lparr>tb_house := sm_update h (\<lambda>r. r\<lparr>hr_exit := e\<rparr>) (tb_house t)\<rparr>"

definition sql_update_house_portal :: "u32 \<Rightarrow> u32 \<Rightarrow> tables \<Rightarrow> tables" where
  "sql_update_house_portal h p t =
     t\<lparr>tb_house := sm_update h (\<lambda>r. r\<lparr>hr_portal := p\<rparr>) (tb_house t)\<rparr>"

definition sql_clear_house_portal :: "u32 \<Rightarrow> tables \<Rightarrow> tables" where
  "sql_clear_house_portal p t =
     t\<lparr>tb_house := map (\<lambda>(k, r). (k, if hr_portal r = p then r\<lparr>hr_portal := 0\<rparr> else r))
                     (tb_house t)\<rparr>"

definition sql_delete_house :: "u32 \<Rightarrow> tables \<Rightarrow> tables" where
  "sql_delete_house h t =
     t\<lparr>tb_house := sm_erase h (tb_house t)\<rparr>"

definition sql_insert_template :: "string \<Rightarrow> tables \<Rightarrow> tables" where
  "sql_insert_template n t =
     (if \<exists>r \<in> set (tb_template t). tr_name (snd r) = n then t
      else t\<lparr>tb_template := sm_put (tb_nextTemplate t)
                \<lparr>tr_name = n, tr_house = 0, tr_exit = no_exit, tr_savedAt = 0\<rparr> (tb_template t),
             tb_nextTemplate := tb_nextTemplate t + 1\<rparr>)"

definition sql_update_template_house :: "u32 \<Rightarrow> u32 \<Rightarrow> tables \<Rightarrow> tables" where
  "sql_update_template_house i h t =
     t\<lparr>tb_template := sm_update i (\<lambda>r. r\<lparr>tr_house := h\<rparr>) (tb_template t)\<rparr>"

definition sql_update_template_saved :: "u32 \<Rightarrow> HouseExit \<Rightarrow> nat \<Rightarrow> tables \<Rightarrow> tables" where
  "sql_update_template_saved i e n t =
     t\<lparr>tb_template := sm_update i (\<lambda>r. r\<lparr>tr_exit := e, tr_savedAt := n\<rparr>) (tb_template t)\<rparr>"

definition sql_delete_template_row :: "u32 \<Rightarrow> tables \<Rightarrow> tables" where
  "sql_delete_template_row i t =
     t\<lparr>tb_template := sm_erase i (tb_template t)\<rparr>"

definition sql_delete_template_objects :: "u32 \<Rightarrow> tables \<Rightarrow> tables" where
  "sql_delete_template_objects i t =
     t\<lparr>tb_templateObject := filter (\<lambda>r. fst r \<noteq> i) (tb_templateObject t)\<rparr>"

definition sql_insert_template_object :: "u32 \<Rightarrow> HouseObject \<Rightarrow> tables \<Rightarrow> tables" where
  "sql_insert_template_object i ob t =
     t\<lparr>tb_templateObject := tb_templateObject t @ [(i, ob)]\<rparr>"

definition sql_insert_portal :: "HousePortal \<Rightarrow> tables \<Rightarrow> tables" where
  "sql_insert_portal p t =
     t\<lparr>tb_portal := sm_put (tb_nextPortal t) (p\<lparr>p_id := tb_nextPortal t\<rparr>) (tb_portal t),
       tb_nextPortal := tb_nextPortal t + 1\<rparr>"

definition sql_update_portal_place :: "u32 \<Rightarrow> u32 \<Rightarrow> yards \<Rightarrow> yards \<Rightarrow> yards \<Rightarrow> yards \<Rightarrow> tables \<Rightarrow> tables" where
  "sql_update_portal_place i m x y z o' t =
     t\<lparr>tb_portal := sm_update i (\<lambda>p. p\<lparr>p_map := m, p_x := x, p_y := y, p_z := z, p_o := o'\<rparr>)
                     (tb_portal t)\<rparr>"

definition sql_update_portal_template :: "u32 \<Rightarrow> u32 \<Rightarrow> tables \<Rightarrow> tables" where
  "sql_update_portal_template i tpl t =
     t\<lparr>tb_portal := sm_update i (\<lambda>p. p\<lparr>p_templateId := tpl\<rparr>) (tb_portal t)\<rparr>"

definition sql_delete_portal :: "u32 \<Rightarrow> tables \<Rightarrow> tables" where
  "sql_delete_portal i t =
     t\<lparr>tb_portal := sm_erase i (tb_portal t)\<rparr>"

definition sql_replace_return :: "u32 \<Rightarrow> HouseReturn \<Rightarrow> tables \<Rightarrow> tables" where
  "sql_replace_return g r t =
     t\<lparr>tb_return := sm_put g r (tb_return t)\<rparr>"

definition sql_delete_return :: "u32 \<Rightarrow> tables \<Rightarrow> tables" where
  "sql_delete_return g t =
     t\<lparr>tb_return := sm_erase g (tb_return t)\<rparr>"

definition sql_replace_instance :: "u32 \<Rightarrow> nat \<Rightarrow> tables \<Rightarrow> tables" where
  "sql_replace_instance i r t =
     t\<lparr>tb_instance := sm_put i r (tb_instance t)\<rparr>"

definition sql_delete_instance :: "u32 \<Rightarrow> tables \<Rightarrow> tables" where
  "sql_delete_instance i t =
     t\<lparr>tb_instance := sm_erase i (tb_instance t)\<rparr>"

lemmas sql_defs =
  sql_replace_storage_def sql_delete_storage_def sql_replace_setting_def sql_insert_object_def
  sql_update_object_place_def sql_update_object_slot_def sql_update_object_group_def sql_delete_object_def
  sql_insert_critter_def sql_update_critter_place_def sql_update_critter_name_def sql_update_critter_slot_def
  sql_delete_critter_def sql_insert_house_def sql_update_house_instance_def sql_update_house_exit_def
  sql_update_house_way_out_def sql_update_house_portal_def sql_clear_house_portal_def sql_delete_house_def sql_insert_template_def
  sql_update_template_house_def sql_update_template_saved_def sql_delete_template_row_def sql_delete_template_objects_def
  sql_insert_template_object_def sql_insert_portal_def sql_update_portal_place_def sql_update_portal_template_def
  sql_delete_portal_def sql_replace_return_def sql_delete_return_def sql_replace_instance_def
  sql_delete_instance_def

subsection \<open>What an operation does to the world\<close>

datatype object_effect =
    RegisterObject u32 HouseObject
  | UnregisterObject u32 u32
  | SpawnObject u32 u32
  | DespawnObject u32
  | ReplaceObject u32 bool bool bool
  | SetScale u32 yards
  | Flash u32
  | SummonGlow u32 yards yards yards yards
  | DespawnGlow u32

datatype critter_effect =
    RegisterCritter u32 HouseCritter
  | UnregisterCritter u32 u32
  | SpawnCritter u32 u32
  | DespawnCritter u32
  | WalkCritter u32
  | SettleCritter u32 yards
  | PetNameStamp u32
  | CritterTeleport u32 yards yards yards
  | PatCritterEffect u32 u32

datatype player_effect =
    Say string
  | Addon string string
  | GiveItem u32
  | Bind u32
  | Teleport u32 yards yards yards yards bool
  | NearTeleport yards yards yards yards
  | Homebind
  | Announce
  | HeartBeat u32 yards yards yards yards
  | Learn u32

datatype door_effect =
    SummonExit u32 u32 yards yards yards yards
  | DespawnExit u32 u32
  | RegisterPortal u32 HousePortal
  | SpawnPortal u32
  | DespawnPortal u32
  | UnregisterPortal u32
  | DespawnPortalMark u32 u32
  | SummonHomePortal u32 u32 u32

datatype effect =
    OnObject object_effect
  | OnCritter critter_effect
  | OnPlayer u32 player_effect
  | OnDoor door_effect

record HouseMgr =
  m_enabled :: bool
  m_nextObjectGuid :: u32
  m_nextCritterGuid :: u32
  m_houses :: "(u32, House) smap"
  m_houseByAccount :: "(u32, u32) smap"
  m_houseByInstance :: "(u32, u32) smap"
  m_storage :: "(u32, (u32, u32) smap) smap"
  m_settings :: "(u32, (u32, u32) smap) smap"
  m_objects :: "(u32, HouseObject) smap"
  m_critters :: "(u32, HouseCritter) smap"
  m_critterBeats :: "(u32, u32) smap"
  m_critterPatted :: "(u32, nat) smap"
  m_critterWalks :: "(u32, HouseCritterWalk) smap"
  m_furnitureItems :: "(u32, FurnitureItem) smap"
  m_furnitureCategories :: "string list"
  m_critterItems :: "(u32, CritterItem) smap"
  m_houseTemplates :: "(u32, HouseTemplate) smap"
  m_templateByName :: "(string, u32) smap"
  m_editing :: "(u32, HouseEdit) smap"
  m_selected :: "(u32, u32) smap"
  m_selectMarkers :: "(u32, unit) smap"
  m_selectLift :: yards
  m_marks :: "(u32, ChalkMark) smap"
  m_markMarkers :: "(u32, unit) smap"
  m_portals :: "(u32, HousePortal) smap"
  m_enteredBy :: "(u32, u32) smap"
  m_returns :: "(u32, HouseReturn) smap"
  m_homePortals :: "(u32, HouseHomePortal) smap"
  m_staffVisits :: "(u32, unit) smap"
  m_arrivals :: "(u32, HouseArrival) smap"
  m_partyOffer :: "(u32, u32) smap"
  m_knocks :: "(u32, HouseKnock) smap"
  m_knockTouch :: "(u32, HouseKnockTouch) smap"
  m_portalCooldown :: "(u32, nat) smap"
  m_exitPortals :: "(u32, u32) smap"
  m_markHide :: yards
  m_db :: tables
  m_trace :: "effect list"

definition pexec :: "(tables \<Rightarrow> tables) \<Rightarrow> HouseMgr \<Rightarrow> HouseMgr" where
  "pexec q s = s\<lparr>m_db := q (m_db s)\<rparr>"

definition emit :: "effect \<Rightarrow> HouseMgr \<Rightarrow> HouseMgr" where
  "emit e s = s\<lparr>m_trace := m_trace s @ [e]\<rparr>"

definition say :: "player \<Rightarrow> string \<Rightarrow> HouseMgr \<Rightarrow> HouseMgr" where
  "say pl msg s = emit (OnPlayer (pl_guid pl) (Say msg)) s"


text \<open>The manager as its constructor leaves it, over the tables of a fresh install.\<close>

definition fresh_tables :: tables where
  "fresh_tables =
     \<lparr>tb_house = [], tb_nextHouse = 1, tb_object = [], tb_critter = [], tb_storage = [],
      tb_setting = [], tb_template = [], tb_nextTemplate = 1, tb_templateObject = [],
      tb_portal = [], tb_nextPortal = 1, tb_return = [], tb_instance = []\<rparr>"

definition new_HouseMgr :: "tables \<Rightarrow> HouseMgr" where
  "new_HouseMgr db =
     \<lparr>m_enabled = False, m_nextObjectGuid = HOUSE_GO_GUID_MIN, m_nextCritterGuid = 0,
      m_houses = [], m_houseByAccount = [], m_houseByInstance = [], m_storage = [],
      m_settings = [], m_objects = [], m_critters = [], m_critterBeats = [],
      m_critterPatted = [], m_critterWalks = [], m_furnitureItems = [],
      m_furnitureCategories = [], m_critterItems = [], m_houseTemplates = [],
      m_templateByName = [], m_editing = [], m_selected = [], m_selectMarkers = [],
      m_selectLift = HOUSE_SELECT_MARK_LIFT, m_marks = [], m_markMarkers = [], m_portals = [],
      m_enteredBy = [], m_returns = [], m_homePortals = [], m_staffVisits = [],
      m_arrivals = [], m_partyOffer = [], m_knocks = [], m_knockTouch = [],
      m_portalCooldown = [], m_exitPortals = [], m_markHide = HOUSE_MARK_HIDE_RANGE,
      m_db = db, m_trace = []\<rparr>"

text \<open>A server that answers every question plainly, and a player standing in the world: the concrete
  inputs at which the properties are instantiated.\<close>

definition plain_server :: server where
  "plain_server =
     \<lparr>sv_now = 1000, sv_nowMs = 5000, sv_item = (\<lambda>_. Some ''Crate''),
      sv_go = (\<lambda>_. Some \<lparr>gi_name = ''Chair'', gi_size = 1, gi_displayId = 10\<rparr>),
      sv_display = (\<lambda>_. True),
      sv_creature = (\<lambda>_. Some \<lparr>cr_name = ''Rabbit'', cr_critter = True\<rparr>), sv_mapEntry = True,
      sv_canStore = (\<lambda>_ _. True), sv_store = (\<lambda>_ _. True), sv_accountOfName = (\<lambda>_. 0),
      sv_accountOfGuid = (\<lambda>_. 0), sv_findPlayer = (\<lambda>_. None), sv_findByName = (\<lambda>_. None),
      sv_sessionPlayer = (\<lambda>_. None), sv_teleport = (\<lambda>_ _. True), sv_persist = (\<lambda>_. True),
      sv_copy = (\<lambda>_ _. True), sv_mapKind = (\<lambda>_. Some False),
      sv_bound = (\<lambda>_ _. None), sv_goBack = (\<lambda>_. None), sv_grid = (\<lambda>_ _ _. True),
      sv_newGo = (\<lambda>_. 77), sv_goStands = (\<lambda>_. False), sv_battleground = (\<lambda>_. False),
      sv_transport = (\<lambda>_. False), sv_invasion = (\<lambda>_. False), sv_nameOfGuid = (\<lambda>_. None),
      sv_normalName = Some, sv_loggingOut = (\<lambda>_. False), sv_destMap = (\<lambda>_. 0), sv_newInstance = 50, sv_loaded = (\<lambda>_. True),
      sv_cell = (\<lambda>_ _. True), sv_spawned = (\<lambda>_. False),
      sv_summon = (\<lambda>_. True), sv_sizeFactor = 0,
      sv_animal = (\<lambda>_. None), sv_animalSize = (\<lambda>_. 0), sv_animalReach = (\<lambda>_. 0),
      sv_firstTempGo = 12100000, sv_firstTempCreature = 8200000, sv_reserveCreature = 300000,
      sv_players = []\<rparr>"

definition plain_player :: player where
  "plain_player =
     \<lparr>pl_guid = 1, pl_name = ''Ann'', pl_session = True, pl_account = 7, pl_security = 0,
      pl_bot = False, pl_inWorld = True, pl_mapId = HOUSE_MAP_ID, pl_instanceId = 50,
      pl_combat = False, pl_taxi = False, pl_teleporting = False, pl_x = 0, pl_y = 0, pl_z = 0,
      pl_o = 0, pl_forced = 0, pl_bags = (\<lambda>_. 0), pl_group = None, pl_spells = []\<rparr>"

definition plain_house :: House where
  "plain_house =
     \<lparr>h_id = 3, h_accountId = 7, h_portalId = 0, h_instanceId = 50, h_name = [], h_objects = [],
      h_critters = [], h_templateId = 0, h_authorsTemplate = 0, h_exit = no_exit\<rparr>"

definition plain_mgr :: HouseMgr where
  "plain_mgr =
     (new_HouseMgr fresh_tables)
       \<lparr>m_enabled := True, m_houses := [(3, plain_house)], m_houseByAccount := [(7, 3)],
        m_houseByInstance := [(50, 3)],
        m_furnitureItems := [(900, \<lparr>fi_goEntry = 500, fi_scale = 1, fi_category = ''Seats''\<rparr>)]\<rparr>"

lemma plain_mgr_simps [simp]:
  "m_enabled plain_mgr = True"
  "m_nextObjectGuid plain_mgr = HOUSE_GO_GUID_MIN"
  "m_nextCritterGuid plain_mgr = 0"
  "m_houses plain_mgr = [(3, plain_house)]"
  "m_houseByAccount plain_mgr = [(7, 3)]"
  "m_houseByInstance plain_mgr = [(50, 3)]"
  "m_storage plain_mgr = []"
  "m_settings plain_mgr = []"
  "m_objects plain_mgr = []"
  "m_critters plain_mgr = []"
  "m_critterBeats plain_mgr = []"
  "m_critterPatted plain_mgr = []"
  "m_critterWalks plain_mgr = []"
  "m_furnitureItems plain_mgr = [(900, \<lparr>fi_goEntry = 500, fi_scale = 1, fi_category = ''Seats''\<rparr>)]"
  "m_furnitureCategories plain_mgr = []"
  "m_critterItems plain_mgr = []"
  "m_houseTemplates plain_mgr = []"
  "m_templateByName plain_mgr = []"
  "m_editing plain_mgr = []"
  "m_selected plain_mgr = []"
  "m_selectMarkers plain_mgr = []"
  "m_selectLift plain_mgr = HOUSE_SELECT_MARK_LIFT"
  "m_marks plain_mgr = []"
  "m_markMarkers plain_mgr = []"
  "m_portals plain_mgr = []"
  "m_enteredBy plain_mgr = []"
  "m_returns plain_mgr = []"
  "m_homePortals plain_mgr = []"
  "m_staffVisits plain_mgr = []"
  "m_arrivals plain_mgr = []"
  "m_partyOffer plain_mgr = []"
  "m_knocks plain_mgr = []"
  "m_knockTouch plain_mgr = []"
  "m_portalCooldown plain_mgr = []"
  "m_exitPortals plain_mgr = []"
  "m_markHide plain_mgr = HOUSE_MARK_HIDE_RANGE"
  "m_db plain_mgr = fresh_tables"
  "m_trace plain_mgr = []"
  by (simp_all add: plain_mgr_def new_HouseMgr_def)

lemma plain_server_simps [simp]:
  "sv_now plain_server = 1000"
  "sv_nowMs plain_server = 5000"
  "sv_item plain_server = (\<lambda>_. Some ''Crate'')"
  "sv_go plain_server = (\<lambda>_. Some \<lparr>gi_name = ''Chair'', gi_size = 1, gi_displayId = 10\<rparr>)"
  "sv_display plain_server = (\<lambda>_. True)"
  "sv_creature plain_server = (\<lambda>_. Some \<lparr>cr_name = ''Rabbit'', cr_critter = True\<rparr>)"
  "sv_mapEntry plain_server = True"
  "sv_canStore plain_server = (\<lambda>_ _. True)"
  "sv_store plain_server = (\<lambda>_ _. True)"
  "sv_accountOfName plain_server = (\<lambda>_. 0)"
  "sv_accountOfGuid plain_server = (\<lambda>_. 0)"
  "sv_findPlayer plain_server = (\<lambda>_. None)"
  "sv_findByName plain_server = (\<lambda>_. None)"
  "sv_sessionPlayer plain_server = (\<lambda>_. None)"
  "sv_teleport plain_server = (\<lambda>_ _. True)"
  "sv_persist plain_server = (\<lambda>_. True)"
  "sv_copy plain_server = (\<lambda>_ _. True)"
  "sv_mapKind plain_server = (\<lambda>_. Some False)"
  "sv_bound plain_server = (\<lambda>_ _. None)"
  "sv_goBack plain_server = (\<lambda>_. None)"
  "sv_grid plain_server = (\<lambda>_ _ _. True)"
  "sv_newGo plain_server = (\<lambda>_. 77)"
  "sv_goStands plain_server = (\<lambda>_. False)"
  "sv_battleground plain_server = (\<lambda>_. False)"
  "sv_transport plain_server = (\<lambda>_. False)"
  "sv_invasion plain_server = (\<lambda>_. False)"
  "sv_nameOfGuid plain_server = (\<lambda>_. None)"
  "sv_normalName plain_server = Some"
  "sv_loggingOut plain_server = (\<lambda>_. False)"
  "sv_destMap plain_server = (\<lambda>_. 0)"
  "sv_newInstance plain_server = 50"
  "sv_loaded plain_server = (\<lambda>_. True)"
  "sv_cell plain_server = (\<lambda>_ _. True)"
  "sv_spawned plain_server = (\<lambda>_. False)"
  "sv_summon plain_server = (\<lambda>_. True)"
  "sv_sizeFactor plain_server = 0"
  "sv_animal plain_server = (\<lambda>_. None)"
  "sv_animalSize plain_server = (\<lambda>_. 0)"
  "sv_animalReach plain_server = (\<lambda>_. 0)"
  "sv_firstTempGo plain_server = 12100000"
  "sv_firstTempCreature plain_server = 8200000"
  "sv_reserveCreature plain_server = 300000"
  "sv_players plain_server = []"
  by (simp_all add: plain_server_def)

lemma plain_player_simps [simp]:
  "pl_guid plain_player = 1"
  "pl_name plain_player = ''Ann''"
  "pl_session plain_player = True"
  "pl_account plain_player = 7"
  "pl_security plain_player = 0"
  "pl_bot plain_player = False"
  "pl_inWorld plain_player = True"
  "pl_mapId plain_player = HOUSE_MAP_ID"
  "pl_instanceId plain_player = 50"
  "pl_combat plain_player = False"
  "pl_taxi plain_player = False"
  "pl_teleporting plain_player = False"
  "pl_x plain_player = 0"
  "pl_y plain_player = 0"
  "pl_z plain_player = 0"
  "pl_o plain_player = 0"
  "pl_forced plain_player = 0"
  "pl_bags plain_player = (\<lambda>_. 0)"
  "pl_group plain_player = None"
  "pl_spells plain_player = []"
  by (simp_all add: plain_player_def)

lemma plain_house_simps [simp]:
  "h_id plain_house = 3"
  "h_accountId plain_house = 7"
  "h_portalId plain_house = 0"
  "h_instanceId plain_house = 50"
  "h_name plain_house = []"
  "h_objects plain_house = []"
  "h_critters plain_house = []"
  "h_templateId plain_house = 0"
  "h_authorsTemplate plain_house = 0"
  "h_exit plain_house = no_exit"
  by (simp_all add: plain_house_def)

lemma fresh_tables_simps [simp]:
  "tb_house fresh_tables = []"
  "tb_nextHouse fresh_tables = 1"
  "tb_object fresh_tables = []"
  "tb_critter fresh_tables = []"
  "tb_storage fresh_tables = []"
  "tb_setting fresh_tables = []"
  "tb_template fresh_tables = []"
  "tb_nextTemplate fresh_tables = 1"
  "tb_templateObject fresh_tables = []"
  "tb_portal fresh_tables = []"
  "tb_nextPortal fresh_tables = 1"
  "tb_return fresh_tables = []"
  "tb_instance fresh_tables = []"
  by (simp_all add: fresh_tables_def)

definition plain_object :: HouseObject where
  "plain_object =
     \<lparr>o_guid = 8000000, o_houseId = 3, o_slot = 1, o_groupNo = 0, o_goEntry = 500,
      o_itemEntry = 900, o_x = 1, o_y = 1, o_z = 0, o_o = 0, o_rot = (0, 0, 0, 1), o_scale = 1,
      o_source = HOUSE_SOURCE_PLAYER\<rparr>"

lemma plain_object_simps [simp]:
  "o_guid plain_object = 8000000" "o_houseId plain_object = 3" "o_slot plain_object = 1"
  "o_groupNo plain_object = 0" "o_goEntry plain_object = 500" "o_itemEntry plain_object = 900"
  "o_x plain_object = 1" "o_y plain_object = 1" "o_z plain_object = 0" "o_o plain_object = 0"
  "o_scale plain_object = 1" "o_source plain_object = HOUSE_SOURCE_PLAYER"
  by (simp_all add: plain_object_def)

definition furnished_house :: House where
  "furnished_house = plain_house\<lparr>h_objects := [8000000]\<rparr>"

lemma furnished_house_simps [simp]:
  "h_id furnished_house = 3" "h_accountId furnished_house = 7" "h_portalId furnished_house = 0"
  "h_instanceId furnished_house = 50" "h_objects furnished_house = [8000000]"
  "h_critters furnished_house = []" "h_templateId furnished_house = 0"
  "h_authorsTemplate furnished_house = 0" "h_exit furnished_house = no_exit"
  by (simp_all add: furnished_house_def)

definition furnished_mgr :: HouseMgr where
  "furnished_mgr =
     plain_mgr\<lparr>m_houses := [(3, furnished_house)], m_objects := [(8000000, plain_object)],
               m_nextObjectGuid := 8000001,
               m_db := fresh_tables\<lparr>tb_object := [(8000000, plain_object)]\<rparr>\<rparr>"

end
