(* ===== verification/HouseSettings.thy ===== *)
theory HouseSettings
  imports HouseState
begin

section \<open>Per-account settings\<close>

text \<open>
  The table \<open>HOUSE_SETTINGS\<close> of Housing/HouseMgr.cpp and the functions that read it: names and
  labels, the parsing of a typed setting and a typed value, the read of a setting with its default,
  and the load from \<open>house_setting\<close>. A \<open>HouseSetting\<close> is its underlying integer, because every
  function checks it against \<open>HOUSE_SETTING_MAX\<close>. The write, which also redraws the selection glow,
  is in the theory of the markers.
\<close>

type_synonym HouseSetting = u32

definition HOUSE_SETTING_RETIRED_PLACING :: HouseSetting where "HOUSE_SETTING_RETIRED_PLACING = 0"
definition HOUSE_SETTING_GLOW :: HouseSetting where "HOUSE_SETTING_GLOW = 1"
definition HOUSE_SETTING_WALK_IN :: HouseSetting where "HOUSE_SETTING_WALK_IN = 2"
definition HOUSE_SETTING_ARRIVE_PING :: HouseSetting where "HOUSE_SETTING_ARRIVE_PING = 3"
definition HOUSE_SETTING_LOCKED :: HouseSetting where "HOUSE_SETTING_LOCKED = 4"
definition HOUSE_SETTING_MAX :: HouseSetting where "HOUSE_SETTING_MAX = 5"

lemmas setting_consts =
  HOUSE_SETTING_RETIRED_PLACING_def HOUSE_SETTING_GLOW_def HOUSE_SETTING_WALK_IN_def
  HOUSE_SETTING_ARRIVE_PING_def HOUSE_SETTING_LOCKED_def HOUSE_SETTING_MAX_def

record HouseSettingInfo =
  i_name :: "string option"
  i_title :: "string option"
  i_defValue :: u32
  i_global :: bool
  i_minValue :: u32
  i_maxValue :: u32

definition HOUSE_SETTINGS :: "HouseSettingInfo list" where
  "HOUSE_SETTINGS =
     [\<lparr>i_name = None, i_title = None,
        i_defValue = 1, i_global = False, i_minValue = 0, i_maxValue = 1\<rparr>,
      \<lparr>i_name = Some ''glow'', i_title = Some ''Selection glow'',
        i_defValue = 1, i_global = False, i_minValue = 0, i_maxValue = 1\<rparr>,
      \<lparr>i_name = Some ''walk_through_portals'', i_title = Some ''Walk through portals'',
        i_defValue = 1, i_global = False, i_minValue = 0, i_maxValue = 1\<rparr>,
      \<lparr>i_name = Some ''arrival_ping_ms'', i_title = Some ''Arrival ping delay'',
        i_defValue = 3000, i_global = True, i_minValue = 500, i_maxValue = 30000\<rparr>,
      \<lparr>i_name = Some ''locked'', i_title = Some ''Door locked'',
        i_defValue = 0, i_global = False, i_minValue = 0, i_maxValue = 1\<rparr>]"

definition setting_info :: "HouseSetting \<Rightarrow> HouseSettingInfo" where
  "setting_info setting = HOUSE_SETTINGS ! unat setting"

definition SettingIsBoolean :: "HouseSetting \<Rightarrow> bool" where
  "SettingIsBoolean setting \<longleftrightarrow>
     setting \<ge> HOUSE_SETTING_MAX \<or> i_maxValue (setting_info setting) \<le> 1"

definition WordIsPrefixOf :: "string \<Rightarrow> string \<Rightarrow> bool" where
  "WordIsPrefixOf word whole \<longleftrightarrow>
     word \<noteq> [] \<and> length whole \<ge> length word \<and> take (length word) whole = word"

definition IsSettingLive :: "HouseSetting \<Rightarrow> bool" where
  "IsSettingLive setting \<longleftrightarrow>
     setting < HOUSE_SETTING_MAX \<and> i_name (setting_info setting) \<noteq> None"

definition SettingName :: "HouseSetting \<Rightarrow> string" where
  "SettingName setting =
     (if IsSettingLive setting then the (i_name (setting_info setting)) else [])"

definition SettingTitle :: "HouseSetting \<Rightarrow> string" where
  "SettingTitle setting =
     (if IsSettingLive setting then the (i_title (setting_info setting)) else [])"

subsection \<open>Numbers as text\<close>

fun dec_nat :: "nat \<Rightarrow> string" where
  "dec_nat n = (if n < 10 then [char_of (48 + n)] else dec_nat (n div 10) @ [char_of (48 + n mod 10)])"

declare dec_nat.simps [simp del]

definition to_string :: "u32 \<Rightarrow> string" where
  "to_string v = dec_nat (unat v)"

definition is_digit :: "char \<Rightarrow> bool" where
  "is_digit ch \<longleftrightarrow> 48 \<le> (of_char ch :: nat) \<and> (of_char ch :: nat) \<le> 57"

definition digits_value :: "string \<Rightarrow> nat" where
  "digits_value w = foldl (\<lambda>acc ch. acc * 10 + (of_char ch - 48)) 0 w"

text \<open>
  \<open>uint32(atoi(s))\<close> on a string of digits, as the C library of the server's platform (64-bit glibc)
  computes it: \<open>strtol\<close> saturates at \<open>LONG_MAX\<close> and the result is truncated to \<open>int\<close>.
\<close>

definition atoi_u32 :: "string \<Rightarrow> u32" where
  "atoi_u32 w = of_nat (min (digits_value w) (2 ^ 63 - 1))"

subsection \<open>The functions of the manager\<close>

definition ArrivePingTicks :: "u32 \<Rightarrow> u32" where
  "ArrivePingTicks ms =
     (let ticks = (ms + HOUSE_EDIT_INTERVAL - 1) div HOUSE_EDIT_INTERVAL
      in if ticks \<noteq> 0 then ticks else 1)"

definition SettingLabel :: "HouseSetting \<Rightarrow> u32 \<Rightarrow> string" where
  "SettingLabel setting value =
     (if SettingIsBoolean setting then (if value \<noteq> 0 then ''on'' else ''off'')
      else
        let real = ArrivePingTicks value * HOUSE_EDIT_INTERVAL
        in if setting = HOUSE_SETTING_ARRIVE_PING \<and> real \<noteq> value
           then to_string value @ ''ms ('' @ to_string real @ ''ms in practice)''
           else to_string value @ ''ms'')"

definition SettingHint :: "HouseSetting \<Rightarrow> string" where
  "SettingHint setting =
     (if setting = HOUSE_SETTING_GLOW
      then ''off: no shimmer on the object you have selected''
      else if setting = HOUSE_SETTING_WALK_IN
      then ''off: use the gear's Go home or Leave instead''
      else if setting = HOUSE_SETTING_LOCKED
      then ''off: your party walks straight in''
      else if setting = HOUSE_SETTING_ARRIVE_PING
      then ''raise it if arrivals cannot see who is already indoors''
      else [])"

definition SettingNote :: "HouseSetting \<Rightarrow> u32 \<Rightarrow> string" where
  "SettingNote setting value = []"

definition SettingIsGlobal :: "HouseSetting \<Rightarrow> bool" where
  "SettingIsGlobal setting \<longleftrightarrow>
     setting < HOUSE_SETTING_MAX \<and> i_global (setting_info setting)"

fun setting_scan :: "string \<Rightarrow> HouseSetting list \<Rightarrow> HouseSetting option" where
  "setting_scan word [] = None"
| "setting_scan word (i # rest) =
     (if \<not> IsSettingLive i then setting_scan word rest
      else if WordIsPrefixOf word (the (i_name (setting_info i))) then Some i
      else setting_scan word rest)"

definition SettingFromWord :: "string \<Rightarrow> HouseSetting option" where
  "SettingFromWord word = setting_scan word (map of_nat [0..<unat HOUSE_SETTING_MAX])"

definition SettingValueFromWord :: "HouseSetting \<Rightarrow> string \<Rightarrow> u32 option" where
  "SettingValueFromWord setting word =
     (if setting \<ge> HOUSE_SETTING_MAX then None
      else if \<not> SettingIsBoolean setting then
        (if word = [] \<or> (\<exists>ch \<in> set word. \<not> is_digit ch) then None
         else
           let n = atoi_u32 word
           in if n < i_minValue (setting_info setting) \<or> n > i_maxValue (setting_info setting)
              then None else Some n)
      else if word = ''on'' \<or> word = ''yes'' \<or> word = ''1'' then Some 1
      else if word = ''off'' \<or> word = ''no'' \<or> word = ''0'' then Some 0
      else None)"

definition load_setting_row ::
  "(u32 \<times> u32) \<times> u32 \<Rightarrow> (u32, (u32, u32) smap) smap \<Rightarrow> (u32, (u32, u32) smap) smap" where
  "load_setting_row row m =
     (let setting = snd (fst row)
      in if setting \<ge> HOUSE_SETTING_MAX then m else nm_set (fst (fst row), setting) (snd row) m)"

definition LoadSettings :: "HouseMgr \<Rightarrow> HouseMgr" where
  "LoadSettings s = s\<lparr>m_settings := fold load_setting_row (tb_setting (m_db s)) []\<rparr>"

definition GetSettingAccount :: "HouseMgr \<Rightarrow> u32 \<Rightarrow> HouseSetting \<Rightarrow> u32" where
  "GetSettingAccount s accountId setting =
     (if setting \<ge> HOUSE_SETTING_MAX then 0
      else case nm_at (m_settings s) (accountId, setting) of
             Some v \<Rightarrow> v
           | None \<Rightarrow> i_defValue (setting_info setting))"

definition GetSetting :: "HouseMgr \<Rightarrow> player option \<Rightarrow> HouseSetting \<Rightarrow> u32" where
  "GetSetting s pl setting =
     (if SettingIsGlobal setting
      then GetSettingAccount s HOUSE_SETTING_GLOBAL_ACCOUNT setting
      else case pl of
             None \<Rightarrow> if setting < HOUSE_SETTING_MAX then i_defValue (setting_info setting) else 0
           | Some p \<Rightarrow>
               if \<not> pl_session p
               then if setting < HOUSE_SETTING_MAX then i_defValue (setting_info setting) else 0
               else GetSettingAccount s (pl_account p) setting)"

subsection \<open>The table\<close>

lemma setting_below_max:
  "setting < HOUSE_SETTING_MAX \<longleftrightarrow> setting = 0 \<or> setting = 1 \<or> setting = 2 \<or> setting = 3 \<or> setting = 4"
  by (auto simp: setting_consts word_less_nat_alt word_unat_eq_iff)

lemma setting_info_simps [simp]:
  "setting_info 0 = HOUSE_SETTINGS ! 0" "setting_info 1 = HOUSE_SETTINGS ! 1"
  "setting_info 2 = HOUSE_SETTINGS ! 2" "setting_info 3 = HOUSE_SETTINGS ! 3"
  "setting_info 4 = HOUSE_SETTINGS ! 4"
  by (simp_all add: setting_info_def)

lemma setting_upt: "map of_nat [0..<unat HOUSE_SETTING_MAX] = ([0, 1, 2, 3, 4] :: HouseSetting list)"
  by (simp add: setting_consts upt_rec)

lemma setting_live_iff:
  "IsSettingLive setting \<longleftrightarrow> setting = 1 \<or> setting = 2 \<or> setting = 3 \<or> setting = 4"
  unfolding IsSettingLive_def setting_below_max by (auto simp: HOUSE_SETTINGS_def)

lemma setting_boolean_iff: "SettingIsBoolean setting \<longleftrightarrow> setting \<noteq> 3"
proof (cases "setting < HOUSE_SETTING_MAX")
  case True
  then show ?thesis
    unfolding setting_below_max SettingIsBoolean_def
    by (auto simp: HOUSE_SETTINGS_def setting_consts word_le_nat_alt)
next
  case False
  then show ?thesis by (auto simp: SettingIsBoolean_def setting_consts)
qed

lemma setting_global_iff: "SettingIsGlobal setting \<longleftrightarrow> setting = 3"
  unfolding SettingIsGlobal_def setting_below_max by (auto simp: HOUSE_SETTINGS_def)

lemma prefix_Cons:
  "WordIsPrefixOf (ch # w) (dh # v) \<longleftrightarrow> ch = dh \<and> length w \<le> length v \<and> take (length w) v = w"
  by (auto simp: WordIsPrefixOf_def)

subsection \<open>Decimal text and its value\<close>

lemma digits_value_snoc: "digits_value (w @ [ch]) = digits_value w * 10 + (of_char ch - 48)"
  by (simp add: digits_value_def)

lemma of_char_digit: "d < 10 \<Longrightarrow> (of_char (char_of (48 + d)) :: nat) = 48 + d"
  by (simp add: of_char_of)

lemma digits_value_dec: "digits_value (dec_nat n) = n"
proof (induction n rule: dec_nat.induct)
  case (1 n)
  show ?case
  proof (cases "n < 10")
    case True
    then show ?thesis
      using of_char_digit [of n] by (simp add: dec_nat.simps [of n] digits_value_def)
  next
    case False
    with 1 have "digits_value (dec_nat (n div 10)) = n div 10" by simp
    with False show ?thesis
      using of_char_digit [of "n mod 10"]
      by (simp add: dec_nat.simps [of n] digits_value_snoc)
  qed
qed

lemma dec_nat_digits: "\<forall>ch \<in> set (dec_nat n). is_digit ch"
proof (induction n rule: dec_nat.induct)
  case (1 n)
  have d: "is_digit (char_of (48 + d))" if "d < 10" for d :: nat
    using of_char_digit [OF that] that by (simp add: is_digit_def)
  show ?case
  proof (cases "n < 10")
    case True
    then show ?thesis using d by (simp add: dec_nat.simps [of n])
  next
    case False
    with 1 d [of "n mod 10"] show ?thesis by (auto simp: dec_nat.simps [of n])
  qed
qed

lemma dec_nat_nonempty: "dec_nat n \<noteq> []"
  by (subst dec_nat.simps) simp

lemma atoi_to_string: "atoi_u32 (to_string v) = v"
proof -
  have "unat v < 2 ^ 32"
    using unsigned_less [of v] by simp
  then show ?thesis
    by (simp add: atoi_u32_def to_string_def digits_value_dec)
qed

subsection \<open>Properties\<close>

text \<open>
  A typed prefix names a setting exactly when the setting is live and the word is a nonempty
  prefix of its name: the retired slot is never matched, and no word names two settings, so the
  scan order cannot decide which setting a player changes.
\<close>

theorem setting_word_unambiguous:
  "SettingFromWord w = Some i \<longleftrightarrow> IsSettingLive i \<and> WordIsPrefixOf w (SettingName i)"
proof (cases w)
  case Nil
  then show ?thesis
    by (simp add: SettingFromWord_def setting_upt setting_live_iff WordIsPrefixOf_def)
next
  case (Cons ch v)
  then show ?thesis
    by (auto simp: SettingFromWord_def setting_upt setting_live_iff SettingName_def
        HOUSE_SETTINGS_def prefix_Cons)
qed

text \<open>
  Whatever word a player types, a value it is accepted as lies within the range the table
  gives for that setting, so no setting can be stored outside its bounds.
\<close>

theorem setting_value_in_range:
  assumes "SettingValueFromWord i w = Some v"
  shows "i_minValue (setting_info i) \<le> v \<and> v \<le> i_maxValue (setting_info i)"
proof -
  have "i < HOUSE_SETTING_MAX"
    using assms by (auto simp: SettingValueFromWord_def split: if_splits)
  moreover have "i_minValue (setting_info i) = 0 \<and> i_maxValue (setting_info i) = 1"
    if "SettingIsBoolean i" "i < HOUSE_SETTING_MAX"
    using that unfolding setting_below_max setting_boolean_iff by (auto simp: HOUSE_SETTINGS_def)
  ultimately show ?thesis
    using assms by (auto simp: SettingValueFromWord_def Let_def not_less split: if_splits)
qed

theorem setting_value_in_range_witness:
  "SettingValueFromWord 3 ''2900'' = Some 2900 \<and> i_minValue (setting_info 3) \<le> (2900 :: u32)
   \<and> (2900 :: u32) \<le> i_maxValue (setting_info 3)"
proof -
  have h: "SettingValueFromWord 3 ''2900'' = Some 2900"
    by (simp add: SettingValueFromWord_def setting_consts setting_boolean_iff is_digit_def
        atoi_u32_def digits_value_def HOUSE_SETTINGS_def)
  show ?thesis
    using h setting_value_in_range [OF h] by simp
qed

text \<open>
  The decimal text of any number in the arrival ping's range is accepted and read back as
  that number.
\<close>

theorem setting_value_roundtrip:
  assumes "500 \<le> n" and "n \<le> 30000"
  shows "SettingValueFromWord HOUSE_SETTING_ARRIVE_PING (to_string n) = Some n"
  using assms dec_nat_digits [of "unat n"] dec_nat_nonempty [of "unat n"]
  by (auto simp: SettingValueFromWord_def setting_consts setting_boolean_iff atoi_to_string Let_def
      HOUSE_SETTINGS_def to_string_def [symmetric])

theorem setting_value_roundtrip_witness:
  "SettingValueFromWord HOUSE_SETTING_ARRIVE_PING (to_string 2900) = Some 2900"
  by (rule setting_value_roundtrip) simp_all

text \<open>
  A number far outside the range is not always refused: \<open>4294968296\<close> is accepted as 1000,
  because the text is converted by \<open>atoi\<close>, which keeps the low 32 bits, before it is compared.
\<close>

theorem setting_value_word_wraps:
  "SettingValueFromWord HOUSE_SETTING_ARRIVE_PING ''4294968296'' = Some 1000"
  by (simp add: SettingValueFromWord_def setting_consts setting_boolean_iff is_digit_def
      atoi_u32_def digits_value_def HOUSE_SETTINGS_def)

text \<open>
  The delay in instance ticks is never zero, covers the delay asked for, and is the smallest
  such number of ticks: it rounds up, and only the last tick can be partly unused.
\<close>

theorem arrive_ping_ticks_bounds:
  assumes "unat ms \<le> 2 ^ 32 - 500"
  shows "unat (ArrivePingTicks ms) = max 1 ((unat ms + 499) div 500)
       \<and> unat ms \<le> unat (ArrivePingTicks ms) * 500"
proof -
  have less: "unat ms + unat (499 :: u32) < 2 ^ LENGTH(32)"
    using assms by simp
  have "unat (499 :: u32) = 499" by simp
  moreover have "ms + 500 - 1 = ms + 499" by simp
  ultimately have "unat (ms + 500 - 1) = unat ms + 499"
    using unat_add_lem [of ms 499] less by metis
  then have ticks: "unat ((ms + 500 - 1) div 500) = (unat ms + 499) div 500"
    by (simp add: unat_div)
  have "(ms + 500 - 1) div 500 = 0 \<longleftrightarrow> (unat ms + 499) div 500 = 0"
    by (simp only: ticks [symmetric] unat_eq_zero)
  then have "unat (ArrivePingTicks ms) = max 1 ((unat ms + 499) div 500)"
    using ticks by (auto simp: ArrivePingTicks_def house_consts Let_def)
  then show ?thesis by auto
qed

theorem arrive_ping_ticks_bounds_witness:
  "unat (2900 :: u32) \<le> 2 ^ 32 - 500 \<and> unat (ArrivePingTicks 2900) = 6"
proof -
  have h: "unat (2900 :: u32) \<le> 2 ^ 32 - 500" by simp
  show ?thesis using h arrive_ping_ticks_bounds [OF h] by simp
qed

end
