(* ===== verification/HouseLookup.thy ===== *)
theory HouseLookup
  imports HouseSettings
begin

section \<open>Finding a house and asking who may change it\<close>

text \<open>
  The lookups of \<open>HouseMgr\<close> (house by id, account, instance, and the house a player stands in), the
  ownership question \<open>CanEditHouse\<close> and the gate \<open>CheckOwner\<close> that every rearranging operation goes
  through, the counts and numbers computed from a house's rows (\<open>CountPlayerObjects\<close>, \<open>AllocateSlot\<close>,
  \<open>AllocateGroupNo\<close>, \<open>AllocateCritterSlot\<close>), the id counters, and the question which entrance is a
  house's door. A \<open>Player*\<close> that a function compares with null is a \<open>player option\<close>; a function that
  dereferences it at once takes a \<open>player\<close>.
\<close>

definition GetHouseById :: "HouseMgr \<Rightarrow> u32 \<Rightarrow> House option" where
  "GetHouseById s i = sm_find (m_houses s) i"

definition GetHouseByAccount :: "HouseMgr \<Rightarrow> u32 \<Rightarrow> House option" where
  "GetHouseByAccount s accountId =
     (case sm_find (m_houseByAccount s) accountId of None \<Rightarrow> None | Some i \<Rightarrow> GetHouseById s i)"

definition GetHouseByInstance :: "HouseMgr \<Rightarrow> u32 \<Rightarrow> House option" where
  "GetHouseByInstance s instanceId =
     (case sm_find (m_houseByInstance s) instanceId of None \<Rightarrow> None | Some i \<Rightarrow> GetHouseById s i)"

definition GetHouseAt :: "HouseMgr \<Rightarrow> player option \<Rightarrow> House option" where
  "GetHouseAt s pl =
     (case pl of
        None \<Rightarrow> None
      | Some p \<Rightarrow>
          if \<not> pl_inWorld p \<or> pl_mapId p \<noteq> HOUSE_MAP_ID then None
          else GetHouseByInstance s (pl_instanceId p))"

definition GetObject :: "HouseMgr \<Rightarrow> u32 \<Rightarrow> HouseObject option" where
  "GetObject s guid = sm_find (m_objects s) guid"

definition GetCritter :: "HouseMgr \<Rightarrow> u32 \<Rightarrow> HouseCritter option" where
  "GetCritter s guid = sm_find (m_critters s) guid"

definition GetObjects :: "HouseMgr \<Rightarrow> u32 \<Rightarrow> HouseObject list" where
  "GetObjects s houseId =
     (case GetHouseById s houseId of
        None \<Rightarrow> []
      | Some h \<Rightarrow> List.map_filter (GetObject s) (h_objects h))"

definition GetCritters :: "HouseMgr \<Rightarrow> u32 \<Rightarrow> HouseCritter list" where
  "GetCritters s houseId =
     (case GetHouseById s houseId of
        None \<Rightarrow> []
      | Some h \<Rightarrow> List.map_filter (GetCritter s) (h_critters h))"

text \<open>Writing a house back through the pointer the code holds.\<close>

definition put_house :: "House \<Rightarrow> HouseMgr \<Rightarrow> HouseMgr" where
  "put_house h s = s\<lparr>m_houses := sm_put (h_id h) h (m_houses s)\<rparr>"

subsection \<open>Who may change a house\<close>

definition CanEditHouse :: "player option \<Rightarrow> House \<Rightarrow> bool" where
  "CanEditHouse pl house =
     (case pl of
        None \<Rightarrow> False
      | Some p \<Rightarrow>
          h_accountId house = pl_account p
          \<or> (h_authorsTemplate house \<noteq> 0 \<and> pl_security p \<ge> SEC_DEVELOPER))"

definition CheckOwner :: "HouseMgr \<Rightarrow> player option \<Rightarrow> House res" where
  "CheckOwner s pl =
     (case GetHouseAt s pl of
        None \<Rightarrow> Inl ''You are not in a house.''
      | Some house \<Rightarrow>
          if \<not> CanEditHouse pl house then Inl ''This is not your house.'' else Inr house)"

definition GetAuthoredTemplateAt :: "HouseMgr \<Rightarrow> player option \<Rightarrow> House res" where
  "GetAuthoredTemplateAt s pl =
     (case CheckOwner s pl of
        Inl e \<Rightarrow> Inl e
      | Inr house \<Rightarrow>
          if h_authorsTemplate house = 0
          then Inl ''The way out is part of the house, not the furniture. It is placed in the template.''
          else Inr house)"

text \<open>
  \<open>Resolve\<close>: the object, if it is in the house the player stands in and theirs to rearrange. The
  pointer's target is its guid in \<open>m_objects\<close>.
\<close>

definition Resolve :: "HouseMgr \<Rightarrow> player option \<Rightarrow> u32 \<Rightarrow> (House \<times> HouseObject) res" where
  "Resolve s pl guid =
     (case CheckOwner s pl of
        Inl e \<Rightarrow> Inl e
      | Inr house \<Rightarrow>
          (case sm_find (m_objects s) guid of
             None \<Rightarrow> Inl ''That object is not in this house.''
           | Some ob \<Rightarrow>
               if o_houseId ob \<noteq> h_id house then Inl ''That object is not in this house.''
               else if IsHouseFabric ob then Inl ''That came with the house.''
               else Inr (house, ob)))"

subsection \<open>Counting and numbering\<close>

text \<open>The loops over a house's rows, as folds with the loop's counter as the accumulator.\<close>

definition CountPlayerObjects :: "HouseMgr \<Rightarrow> House \<Rightarrow> u32" where
  "CountPlayerObjects s house =
     fold (\<lambda>guid count.
             case sm_find (m_objects s) guid of
               None \<Rightarrow> count
             | Some ob \<Rightarrow> if o_source ob = HOUSE_SOURCE_PLAYER then count + 1 else count)
          (h_objects house) 0"

definition CountCritters :: "House \<Rightarrow> u32" where
  "CountCritters house = of_nat (length (h_critters house))"

definition highest_in :: "('v \<Rightarrow> u32) \<Rightarrow> (u32, 'v) smap \<Rightarrow> u32 list \<Rightarrow> u32" where
  "highest_in num rows guids =
     fold (\<lambda>guid highest.
             case sm_find rows guid of
               None \<Rightarrow> highest
             | Some v \<Rightarrow> if num v > highest then num v else highest)
          guids 0"

definition AllocateSlot :: "HouseMgr \<Rightarrow> House \<Rightarrow> u32" where
  "AllocateSlot s house = highest_in o_slot (m_objects s) (h_objects house) + 1"

definition AllocateGroupNo :: "HouseMgr \<Rightarrow> House \<Rightarrow> u32" where
  "AllocateGroupNo s house = highest_in o_groupNo (m_objects s) (h_objects house) + 1"

definition AllocateCritterSlot :: "HouseMgr \<Rightarrow> House \<Rightarrow> u32" where
  "AllocateCritterSlot s house = highest_in c_slot (m_critters s) (h_critters house) + 1"

definition ResolveObjectRef :: "HouseMgr \<Rightarrow> House \<Rightarrow> u32 \<Rightarrow> u32" where
  "ResolveObjectRef s house typed =
     (if typed = 0 then 0
      else if typed \<ge> HOUSE_GO_GUID_MIN then typed
      else case find (\<lambda>guid. case sm_find (m_objects s) guid of
                               None \<Rightarrow> False | Some ob \<Rightarrow> o_slot ob = typed) (h_objects house) of
             None \<Rightarrow> 0
           | Some guid \<Rightarrow> guid)"

definition AllocateObjectGuid :: "HouseMgr \<Rightarrow> HouseMgr \<times> u32" where
  "AllocateObjectGuid s =
     (if m_nextObjectGuid s \<ge> HOUSE_GO_GUID_MAX then (s, 0)
      else (s\<lparr>m_nextObjectGuid := m_nextObjectGuid s + 1\<rparr>, m_nextObjectGuid s))"

definition AllocateCritterGuid :: "HouseMgr \<Rightarrow> HouseMgr \<times> u32" where
  "AllocateCritterGuid s =
     (if m_nextCritterGuid s = 0 \<or> m_nextCritterGuid s \<ge> HOUSE_CRITTER_GUID_MAX then (s, 0)
      else (s\<lparr>m_nextCritterGuid := m_nextCritterGuid s + 1\<rparr>, m_nextCritterGuid s))"

subsection \<open>Doors\<close>

definition GetPortal :: "HouseMgr \<Rightarrow> u32 \<Rightarrow> HousePortal option" where
  "GetPortal s i = sm_find (m_portals s) i"

definition GetTemplate :: "HouseMgr \<Rightarrow> u32 \<Rightarrow> HouseTemplate option" where
  "GetTemplate s i = sm_find (m_houseTemplates s) i"

definition IsHomePortalOf :: "House \<Rightarrow> HousePortal \<Rightarrow> bool" where
  "IsHomePortalOf house portal \<longleftrightarrow>
     (h_portalId house \<noteq> 0 \<and> h_portalId house = p_id portal)
     \<or> (h_templateId house \<noteq> 0 \<and> p_templateId portal = h_templateId house)"

definition IsHomePortal :: "HouseMgr \<Rightarrow> House \<Rightarrow> u32 \<Rightarrow> bool" where
  "IsHomePortal s house portalId =
     (case GetPortal s portalId of None \<Rightarrow> False | Some p \<Rightarrow> IsHomePortalOf house p)"

definition GetHomePortal :: "HouseMgr \<Rightarrow> House \<Rightarrow> HousePortal option" where
  "GetHomePortal s house =
     (case GetPortal s (h_portalId house) of
        Some p \<Rightarrow>
          if IsHomePortalOf house p then Some p
          else if h_templateId house = 0 then None
          else find (\<lambda>q. p_templateId q = h_templateId house) (map snd (m_portals s))
      | None \<Rightarrow>
          if h_templateId house = 0 then None
          else find (\<lambda>q. p_templateId q = h_templateId house) (map snd (m_portals s)))"

definition PortalIdFromGuid :: "u32 \<Rightarrow> u32" where
  "PortalIdFromGuid lowGuid =
     (if lowGuid > HOUSE_PORTAL_GUID_MIN \<and> lowGuid \<le> HOUSE_PORTAL_GUID_MAX
      then lowGuid - HOUSE_PORTAL_GUID_MIN else 0)"

definition portal_guid :: "u32 \<Rightarrow> u32" where
  "portal_guid i = HOUSE_PORTAL_GUID_MIN + i"

subsection \<open>Distances\<close>

text \<open>\<open>WorldObject::IsWithinDist3d\<close>, \<open>IsWithinDist2d\<close> and \<open>GetDistance\<close>, with the object's own size
  factor added to the reach.\<close>

definition IsWithinDist3d :: "server \<Rightarrow> player \<Rightarrow> yards \<Rightarrow> yards \<Rightarrow> yards \<Rightarrow> yards \<Rightarrow> bool" where
  "IsWithinDist3d sv p x y z reach \<longleftrightarrow>
     (let dx = pl_x p - x; dy = pl_y p - y; dz = pl_z p - z; maxdist = reach + sv_sizeFactor sv
      in dx * dx + dy * dy + dz * dz < maxdist * maxdist)"

definition IsWithinDist2d :: "server \<Rightarrow> player \<Rightarrow> yards \<Rightarrow> yards \<Rightarrow> yards \<Rightarrow> bool" where
  "IsWithinDist2d sv p x y reach \<longleftrightarrow>
     (let dx = pl_x p - x; dy = pl_y p - y; maxdist = reach + sv_sizeFactor sv
      in dx * dx + dy * dy < maxdist * maxdist)"

definition GetDistance :: "server \<Rightarrow> player \<Rightarrow> yards \<Rightarrow> yards \<Rightarrow> yards \<Rightarrow> yards" where
  "GetDistance sv p x y z =
     (let dx = pl_x p - x; dy = pl_y p - y; dz = pl_z p - z;
          d = sqrt (dx * dx + dy * dy + dz * dz) - sv_sizeFactor sv
      in if d > 0 then d else 0)"

subsection \<open>Facts about the lookups\<close>

lemma CheckOwner_Inr:
  "CheckOwner s pl = Inr house \<longleftrightarrow> GetHouseAt s pl = Some house \<and> CanEditHouse pl house"
  by (auto simp: CheckOwner_def split: option.splits if_splits)

lemma CanEditHouse_Some:
  "CanEditHouse pl house \<Longrightarrow> \<exists>p. pl = Some p"
  by (auto simp: CanEditHouse_def split: option.splits)

lemma Resolve_Inr:
  "Resolve s pl guid = Inr (house, ob) \<longleftrightarrow>
     CheckOwner s pl = Inr house \<and> sm_find (m_objects s) guid = Some ob
     \<and> o_houseId ob = h_id house \<and> \<not> IsHouseFabric ob"
  by (auto simp: Resolve_def split: option.splits sum.splits if_splits)

lemma GetHouseAt_instance:
  "GetHouseAt s pl = Some house \<Longrightarrow>
   \<exists>p. pl = Some p \<and> pl_mapId p = HOUSE_MAP_ID \<and> pl_inWorld p
       \<and> GetHouseByInstance s (pl_instanceId p) = Some house"
  by (auto simp: GetHouseAt_def split: option.splits if_splits)

definition is_player_object :: "HouseMgr \<Rightarrow> u32 \<Rightarrow> bool" where
  "is_player_object s guid =
     (case sm_find (m_objects s) guid of
        None \<Rightarrow> False | Some ob \<Rightarrow> o_source ob = HOUSE_SOURCE_PLAYER)"

lemma fold_count: "fold (\<lambda>x c. if P x then c + 1 else c) xs (c :: u32) = c + of_nat (length (filter P xs))"
  by (induction xs arbitrary: c) auto

lemma CountPlayerObjects_eq:
  "CountPlayerObjects s house = of_nat (length (filter (is_player_object s) (h_objects house)))"
proof -
  have "(\<lambda>guid count. case sm_find (m_objects s) guid of None \<Rightarrow> count
           | Some ob \<Rightarrow> if o_source ob = HOUSE_SOURCE_PLAYER then count + 1 else count)
        = (\<lambda>guid count :: u32. if is_player_object s guid then count + 1 else count)"
    by (intro ext) (simp add: is_player_object_def split: option.splits)
  then show ?thesis
    using fold_count [of "is_player_object s" "h_objects house" 0]
    unfolding CountPlayerObjects_def by simp
qed

subsection \<open>Interface: numbering the rows of a house\<close>

text \<open>
  Furniture slots, group numbers and critter slots are all "one past the highest in use". The
  interface is the allocator and the number of a row; what it promises is that the number given is
  positive and in use nowhere in the house, as long as the highest number is not the last one.
\<close>

lemma highest_in_start:
  "h \<le> fold (\<lambda>guid highest. case sm_find rows guid of None \<Rightarrow> highest
             | Some v \<Rightarrow> if num v > highest then num v else highest) guids (h :: u32)"
  by (induction guids arbitrary: h) (auto split: option.splits intro: order_trans less_imp_le)

lemma highest_in_ge:
  "guid \<in> set guids \<Longrightarrow> sm_find rows guid = Some v \<Longrightarrow> num v \<le> highest_in num rows guids"
proof -
  have "num v \<le> fold (\<lambda>guid highest. case sm_find rows guid of None \<Rightarrow> highest
          | Some v \<Rightarrow> if num v > highest then num v else highest) guids (h :: u32)"
    if "guid \<in> set guids" "sm_find rows guid = Some v" for h
    using that
  proof (induction guids arbitrary: h)
    case Nil
    then show ?case by simp
  next
    case (Cons g guids)
    show ?case
    proof (cases "g = guid")
      case True
      have "num v \<le> (if num v > h then num v else h)" by auto
      also have "\<dots> \<le> fold (\<lambda>guid highest. case sm_find rows guid of None \<Rightarrow> highest
          | Some v \<Rightarrow> if num v > highest then num v else highest) guids (if num v > h then num v else h)"
        by (rule highest_in_start)
      finally show ?thesis using True Cons.prems(2) by simp
    next
      case False
      with Cons show ?thesis by simp
    qed
  qed
  then show "guid \<in> set guids \<Longrightarrow> sm_find rows guid = Some v \<Longrightarrow> num v \<le> highest_in num rows guids"
    by (simp add: highest_in_def)
qed

locale numbering =
  fixes rows :: "'s \<Rightarrow> (u32, 'v) smap"
    and members :: "House \<Rightarrow> u32 list"
    and num :: "'v \<Rightarrow> u32"
    and alloc :: "'s \<Rightarrow> House \<Rightarrow> u32"
  assumes alloc_past: "alloc s h = highest_in num (rows s) (members h) + 1"
begin

lemma alloc_above:
  assumes "guid \<in> set (members h)" and "sm_find (rows s) guid = Some v" and "alloc s h \<noteq> 0"
  shows "num v < alloc s h"
proof -
  let ?top = "highest_in num (rows s) (members h)"
  have "num v \<le> ?top"
    using assms(1,2) by (rule highest_in_ge)
  moreover have "?top < ?top + 1"
    using assms(3) unfolding alloc_past by (rule u32_less_succ)
  ultimately show ?thesis
    unfolding alloc_past by simp
qed

lemma alloc_fresh:
  assumes "alloc s h \<noteq> 0" and "guid \<in> set (members h)" and "sm_find (rows s) guid = Some v"
  shows "num v \<noteq> alloc s h"
  using alloc_above [OF assms(2,3,1)] by simp

end

interpretation object_slots: numbering m_objects h_objects o_slot AllocateSlot
  by unfold_locales (simp add: AllocateSlot_def)

interpretation group_numbers: numbering m_objects h_objects o_groupNo AllocateGroupNo
  by unfold_locales (simp add: AllocateGroupNo_def)

interpretation critter_slots: numbering m_critters h_critters c_slot AllocateCritterSlot
  by unfold_locales (simp add: AllocateCritterSlot_def)

end
