(* ===== verification/HouseNames.thy ===== *)
theory HouseNames
  imports HouseLookup
begin

section \<open>What a piece of furniture is called\<close>

text \<open>
  \<open>ObjectDisplayName\<close> turns a model path into words, \<open>PieceName\<close> prefers the item's own name, and
  \<open>ObjectLabel\<close> adds the house number. The character tests and the two loops (the seams inside a
  run-together word, the title-casing) are the code's own, character by character.
\<close>

definition IsUpperAscii :: "char \<Rightarrow> bool" where
  "IsUpperAscii c \<longleftrightarrow> CHR ''A'' \<le> c \<and> c \<le> CHR ''Z''"

definition IsLowerAscii :: "char \<Rightarrow> bool" where
  "IsLowerAscii c \<longleftrightarrow> CHR ''a'' \<le> c \<and> c \<le> CHR ''z''"

definition IsDigitAscii :: "char \<Rightarrow> bool" where
  "IsDigitAscii c \<longleftrightarrow> CHR ''0'' \<le> c \<and> c \<le> CHR ''9''"

definition IsAlphaAscii :: "char \<Rightarrow> bool" where
  "IsAlphaAscii c \<longleftrightarrow> IsUpperAscii c \<or> IsLowerAscii c"

definition lower_char :: "char \<Rightarrow> char" where
  "lower_char c = (if IsUpperAscii c then char_of (of_char c + (32 :: nat)) else c)"

definition LowerAscii :: "string \<Rightarrow> string" where
  "LowerAscii v = map lower_char v"

text \<open>What follows the last character satisfying \<open>P\<close>, and what precedes it.\<close>

definition after_last :: "(char \<Rightarrow> bool) \<Rightarrow> string \<Rightarrow> string option" where
  "after_last P v = (if \<exists>c \<in> set v. P c then Some (rev (takeWhile (\<lambda>c. \<not> P c) (rev v))) else None)"

definition before_last :: "(char \<Rightarrow> bool) \<Rightarrow> string \<Rightarrow> string" where
  "before_last P v = (if \<exists>c \<in> set v. P c then rev (tl (dropWhile (\<lambda>c. \<not> P c) (rev v))) else v)"

definition trim_right :: "(char \<Rightarrow> bool) \<Rightarrow> string \<Rightarrow> string" where
  "trim_right P v = rev (dropWhile P (rev v))"

definition is_model_path :: "string \<Rightarrow> bool" where
  "is_model_path raw =
     (let tail = trim_right (\<lambda>c. c = CHR '' '' \<or> c = CHR 0x09) raw
      in (case after_last (\<lambda>c. c = CHR ''.'') tail of
            None \<Rightarrow> False
          | Some ext \<Rightarrow> LowerAscii ext \<in> {''mdx'', ''wmo'', ''m2''})
         \<or> LowerAscii (take 6 tail) = ''world '')"

definition model_leaf :: "string \<Rightarrow> string" where
  "model_leaf raw =
     (let leaf = (case after_last (\<lambda>c. c \<in> {CHR '' '', CHR 0x09, CHR 0x5C, CHR ''/''}) raw of
                    None \<Rightarrow> raw | Some l \<Rightarrow> l)
      in before_last (\<lambda>c. c = CHR ''.'') leaf)"

definition is_seam :: "char \<Rightarrow> char \<Rightarrow> bool" where
  "is_seam prev c \<longleftrightarrow>
     (IsLowerAscii prev \<or> IsDigitAscii prev) \<and> IsUpperAscii c
     \<or> IsAlphaAscii prev \<and> IsDigitAscii c
     \<or> IsDigitAscii prev \<and> IsAlphaAscii c"

fun space_out :: "char option \<Rightarrow> string \<Rightarrow> string \<Rightarrow> string" where
  "space_out prev spaced [] = spaced"
| "space_out prev spaced (c # leaf) =
     (if c = CHR ''_'' \<or> c = CHR ''-''
      then space_out (Some c)
             (if spaced \<noteq> [] \<and> last spaced \<noteq> CHR '' '' then spaced @ '' '' else spaced) leaf
      else
        space_out (Some c)
          ((case prev of
              None \<Rightarrow> spaced
            | Some p \<Rightarrow>
                if spaced \<noteq> [] \<and> last spaced \<noteq> CHR '' '' \<and> is_seam p c then spaced @ '' '' else spaced)
           @ [c]) leaf)"

definition title_word :: "string \<Rightarrow> string" where
  "title_word word =
     (if \<not> list_ex IsUpperAscii word \<or> \<not> list_ex IsLowerAscii word
      then (case LowerAscii word of
              [] \<Rightarrow> []
            | c # w \<Rightarrow> (if IsLowerAscii c then char_of (of_char c - (32 :: nat)) else c) # w)
      else word)"

fun title_words :: "string \<Rightarrow> string \<Rightarrow> string" where
  "title_words out [] = out"
| "title_words out (c # spaced) =
     title_words
       ((if out \<noteq> [] then out @ '' '' else out)
        @ title_word (takeWhile (\<lambda>c. c \<noteq> CHR '' '') (c # spaced)))
       (drop (length (takeWhile (\<lambda>c. c \<noteq> CHR '' '') (c # spaced)) + 1) (c # spaced))"

definition display_name :: "string \<Rightarrow> string" where
  "display_name raw =
     (if \<not> is_model_path raw then raw
      else
        let spaced = trim_right (\<lambda>c. c = CHR '' '') (space_out None [] (model_leaf raw))
        in if spaced = [] then raw else title_words [] spaced)"

definition ObjectDisplayName :: "server \<Rightarrow> u32 \<Rightarrow> string" where
  "ObjectDisplayName sv goEntry =
     (case sv_go sv goEntry of
        None \<Rightarrow> ''Something''
      | Some info \<Rightarrow> if gi_name info = [] then ''Something'' else display_name (gi_name info))"

definition PieceName :: "server \<Rightarrow> HouseObject \<Rightarrow> string" where
  "PieceName sv ob =
     (if o_itemEntry ob \<noteq> 0
      then (case sv_item sv (o_itemEntry ob) of
              Some name \<Rightarrow> if name \<noteq> [] then name else ObjectDisplayName sv (o_goEntry ob)
            | None \<Rightarrow> ObjectDisplayName sv (o_goEntry ob))
      else ObjectDisplayName sv (o_goEntry ob))"

definition ObjectLabel :: "server \<Rightarrow> HouseMgr \<Rightarrow> u32 \<Rightarrow> string" where
  "ObjectLabel sv s objectGuid =
     (case GetObject s objectGuid of
        None \<Rightarrow> ''that object''
      | Some ob \<Rightarrow> PieceName sv ob @ '' ('' @ to_string (o_slot ob) @ '')'')"

lemma title_words_nonempty: "out \<noteq> [] \<Longrightarrow> title_words out spaced \<noteq> []"
  by (induction out spaced rule: title_words.induct) auto

lemma title_word_Nil [simp]: "title_word w = [] \<longleftrightarrow> w = []"
  by (cases w) (auto simp: title_word_def LowerAscii_def)

text \<open>The spaced text never starts with a blank, so its first word is not empty.\<close>

lemma space_out_hd:
  "spaced \<noteq> [] \<and> hd spaced \<noteq> CHR '' '' \<or> spaced = [] \<Longrightarrow> CHR '' '' \<notin> set leaf \<Longrightarrow>
   space_out prev spaced leaf = [] \<or> hd (space_out prev spaced leaf) \<noteq> CHR '' ''"
  by (induction prev spaced leaf rule: space_out.induct) (auto split: option.splits)

lemma model_leaf_blank: "CHR '' '' \<notin> set (model_leaf raw)"
proof -
  have "CHR '' '' \<notin> set l" if "after_last (\<lambda>c. c \<in> {CHR '' '', CHR 0x09, CHR 0x5C, CHR ''/''}) raw = Some l" for l
    using that by (auto simp: after_last_def split: if_splits dest: set_takeWhileD)
  moreover have "CHR '' '' \<notin> set raw" if "after_last (\<lambda>c. c \<in> {CHR '' '', CHR 0x09, CHR 0x5C, CHR ''/''}) raw = None"
    using that by (auto simp: after_last_def split: if_splits)
  moreover have "set (before_last P l) \<subseteq> set l" for P l
    by (auto simp: before_last_def dest!: list.set_sel(2) [rotated] set_dropWhileD split: if_splits)
  ultimately show ?thesis
    by (fastforce simp: model_leaf_def Let_def split: option.splits)
qed

lemma trim_right_hd: "trim_right P v \<noteq> [] \<Longrightarrow> hd (trim_right P v) = hd v"
  unfolding trim_right_def
  by (metis append_is_Nil_conv hd_append2 rev_append rev_is_Nil_conv rev_rev_ident takeWhile_dropWhile_id)

text \<open>
  every piece of furniture has something to call it by: whatever the template's row holds, the
  name shown is not empty, and a name somebody authored (not a model path) is shown as it is.
\<close>
theorem display_name_usable:
  "ObjectDisplayName sv goEntry \<noteq> []
   \<and> (case sv_go sv goEntry of
        None \<Rightarrow> True
      | Some info \<Rightarrow> gi_name info = [] \<or> is_model_path (gi_name info)
                     \<or> ObjectDisplayName sv goEntry = gi_name info)"
proof -
  have "title_words [] v \<noteq> []" if "v \<noteq> []" "hd v \<noteq> CHR '' ''" for v
    using that by (cases v) (auto intro!: title_words_nonempty)
  moreover have "hd (trim_right (\<lambda>c. c = CHR '' '') (space_out None [] (model_leaf raw))) \<noteq> CHR '' ''"
    if "trim_right (\<lambda>c. c = CHR '' '') (space_out None [] (model_leaf raw)) \<noteq> []" for raw
    using trim_right_hd [OF that] space_out_hd [of "[]" "model_leaf raw" None] model_leaf_blank that
    by (auto simp: trim_right_def)
  ultimately have "display_name raw \<noteq> []" if "raw \<noteq> []" for raw
    using that by (auto simp: display_name_def Let_def)
  then show ?thesis
    by (auto simp: ObjectDisplayName_def display_name_def split: option.splits)
qed

lemma display_name_example:
  "display_name (''World'' @ [CHR 0x5C] @ ''BE_Table_Large01.mdx'') = ''Be Table Large 01''"
  by code_simp

end
