(* ===== verification/HouseMarks.thy ===== *)
theory HouseMarks
  imports HouseNames
begin

section \<open>The selected object and the chalk mark\<close>

text \<open>
  The two per-player choices that name a target: the object a bare command acts on
  (\<open>m_selected\<close>) and the spot the next placement lands on (\<open>m_marks\<close>), each checked again on every
  read, and the glow that shows each (\<open>m_selectMarkers\<close>, \<open>m_markMarkers\<close>). Also \<open>GroupMembers\<close>,
  which the selection's blink reads, and \<open>SetSetting\<close>, which redraws the glow. The functions here
  return at once for a null \<open>Player*\<close>; the model starts after that check. A player's map is there
  when the player is in the world; a glow that already expired is deleted to no effect.
\<close>

subsection \<open>Groups, as they are read\<close>

definition GroupMembers :: "HouseMgr \<Rightarrow> HouseObject \<Rightarrow> HouseObject list" where
  "GroupMembers s ob =
     (case sm_find (m_objects s) (o_guid ob) of
        None \<Rightarrow> []
      | Some self \<Rightarrow>
          (case GetHouseById s (o_houseId ob) of
             None \<Rightarrow> [self]
           | Some house \<Rightarrow>
               if o_groupNo ob = 0 \<or> IsHouseFabric ob then [self]
               else self # filter (\<lambda>m. o_groupNo m = o_groupNo ob \<and> \<not> IsHouseFabric m)
                             (List.map_filter (sm_find (m_objects s))
                                (filter (\<lambda>guid. guid \<noteq> o_guid ob) (h_objects house)))))"

definition GroupSize :: "HouseMgr \<Rightarrow> u32 \<Rightarrow> u32" where
  "GroupSize s guid =
     (case GetObject s guid of None \<Rightarrow> 0 | Some ob \<Rightarrow> of_nat (length (GroupMembers s ob)))"

subsection \<open>Selecting\<close>

definition GetSelectedObject :: "HouseMgr \<Rightarrow> player \<Rightarrow> HouseMgr \<times> u32" where
  "GetSelectedObject s p =
     (case sm_find (m_selected s) (pl_guid p) of
        None \<Rightarrow> (s, 0)
      | Some guid \<Rightarrow>
          (case (GetHouseAt s (Some p), GetObject s guid) of
             (Some here, Some ob) \<Rightarrow>
               if o_houseId ob \<noteq> h_id here \<or> IsHouseFabric ob
               then (s\<lparr>m_selected := sm_erase (pl_guid p) (m_selected s)\<rparr>, 0)
               else (s, guid)
           | _ \<Rightarrow> (s\<lparr>m_selected := sm_erase (pl_guid p) (m_selected s)\<rparr>, 0)))"

definition FlashObject :: "server \<Rightarrow> player \<Rightarrow> u32 \<Rightarrow> HouseMgr \<Rightarrow> HouseMgr" where
  "FlashObject sv p objectGuid s =
     (if objectGuid = 0 \<or> GetObject s objectGuid = None \<or> \<not> pl_inWorld p \<or> \<not> sv_spawned sv objectGuid
      then s else emit (OnObject (Flash objectGuid)) s)"

definition DespawnSelectionMarker :: "player \<Rightarrow> HouseMgr \<Rightarrow> HouseMgr" where
  "DespawnSelectionMarker p s =
     (if sm_find (m_selectMarkers s) (pl_guid p) = None then s
      else
        (if pl_inWorld p then emit (OnObject (DespawnGlow (pl_guid p))) else (\<lambda>s. s))
          (s\<lparr>m_selectMarkers := sm_erase (pl_guid p) (m_selectMarkers s)\<rparr>))"

definition RefreshSelectionMarker :: "server \<Rightarrow> player \<Rightarrow> HouseMgr \<Rightarrow> HouseMgr" where
  "RefreshSelectionMarker sv p s =
     (if \<not> m_enabled s then s
      else
        let s1 = DespawnSelectionMarker p s
        in if GetSetting s1 (Some p) HOUSE_SETTING_GLOW = 0 then s1
           else (case GetSelectedObject s1 p of (s2, selected) \<Rightarrow>
             if selected = 0 then s2
             else (case GetObject s2 selected of
                     None \<Rightarrow> s2
                   | Some ob \<Rightarrow>
                       if \<not> pl_inWorld p \<or> \<not> sv_cell sv (o_x ob) (o_y ob) then s2
                       else if \<not> sv_summon sv HOUSE_SELECT_MARK_ENTRY then s2
                       else emit (OnObject (SummonGlow (pl_guid p) (o_x ob) (o_y ob)
                                    (o_z ob + m_selectLift s2) (o_o ob)))
                              (s2\<lparr>m_selectMarkers :=
                                    sm_put (pl_guid p) () (m_selectMarkers s2)\<rparr>))))"

definition SelectObject :: "server \<Rightarrow> HouseMgr \<Rightarrow> player \<Rightarrow> u32 \<Rightarrow> HouseMgr \<times> unit res" where
  "SelectObject sv s p objectGuid =
     (case GetHouseAt s (Some p) of
        None \<Rightarrow> (s, Inl ''You are not in a house.'')
      | Some here \<Rightarrow>
          (case GetObject s objectGuid of
             None \<Rightarrow> (s, Inl ''Nothing in this house has that id. .house object list shows them.'')
           | Some ob \<Rightarrow>
               if o_houseId ob \<noteq> h_id here
               then (s, Inl ''Nothing in this house has that id. .house object list shows them.'')
               else if IsHouseFabric ob then (s, Inl ''That came with the house.'')
               else (case GetSelectedObject s p of (s1, previous) \<Rightarrow>
                 let s2 = s1\<lparr>m_selected := sm_put (pl_guid p) objectGuid (m_selected s1)\<rparr>;
                     s3 = (if previous \<noteq> 0 \<and> previous \<noteq> objectGuid
                           then FlashObject sv p previous s2 else s2);
                     s4 = fold (\<lambda>m. FlashObject sv p (o_guid m)) (GroupMembers s3 ob) s3
                 in (RefreshSelectionMarker sv p s4, Inr ()))))"

definition ClearSelection :: "player \<Rightarrow> HouseMgr \<Rightarrow> HouseMgr" where
  "ClearSelection p s =
     DespawnSelectionMarker p (s\<lparr>m_selected := sm_erase (pl_guid p) (m_selected s)\<rparr>)"

definition SetSetting :: "server \<Rightarrow> player \<Rightarrow> HouseSetting \<Rightarrow> u32 \<Rightarrow> HouseMgr \<Rightarrow> HouseMgr" where
  "SetSetting sv p setting value s =
     (if \<not> pl_session p \<or> setting \<ge> HOUSE_SETTING_MAX then s
      else
        let account = (if SettingIsGlobal setting then HOUSE_SETTING_GLOBAL_ACCOUNT else pl_account p);
            s1 = s\<lparr>m_settings := nm_set (account, setting) value (m_settings s)\<rparr>
        in RefreshSelectionMarker sv p (pexec (sql_replace_setting account setting value) s1))"

subsection \<open>The chalk mark\<close>

definition CheckMarkPoint :: "server \<Rightarrow> player \<Rightarrow> yards \<times> yards \<times> yards \<Rightarrow> unit res" where
  "CheckMarkPoint sv p spot =
     (case spot of (x, y, z) \<Rightarrow>
        if \<not> IsWithinDist3d sv p x y z HOUSE_PLACE_DISTANCE_MAX
        then Inl ''That is too far away to chalk.''
        else if \<bar>z - pl_z p\<bar> > HOUSE_PLACE_HEIGHT_MAX then Inl ''Aim closer to the ground.''
        else Inr ())"

definition DespawnMarkMarker :: "player \<Rightarrow> HouseMgr \<Rightarrow> HouseMgr" where
  "DespawnMarkMarker p s =
     (if sm_find (m_markMarkers s) (pl_guid p) = None then s
      else
        (if pl_inWorld p then emit (OnObject (DespawnGlow (pl_guid p))) else (\<lambda>s. s))
          (s\<lparr>m_markMarkers := sm_erase (pl_guid p) (m_markMarkers s)\<rparr>))"

definition GetMark :: "HouseMgr \<Rightarrow> player \<Rightarrow> HouseMgr \<times> (yards \<times> yards \<times> yards) option" where
  "GetMark s p =
     (case sm_find (m_marks s) (pl_guid p) of
        None \<Rightarrow> (s, None)
      | Some m \<Rightarrow>
          (case GetHouseAt s (Some p) of
             Some here \<Rightarrow>
               if h_id here \<noteq> m_houseId m
               then (DespawnMarkMarker p (s\<lparr>m_marks := sm_erase (pl_guid p) (m_marks s)\<rparr>), None)
               else (s, Some (m_x m, m_y m, m_z m))
           | None \<Rightarrow>
               (DespawnMarkMarker p (s\<lparr>m_marks := sm_erase (pl_guid p) (m_marks s)\<rparr>), None)))"

definition RefreshMarkMarker :: "server \<Rightarrow> player \<Rightarrow> HouseMgr \<Rightarrow> HouseMgr" where
  "RefreshMarkMarker sv p s =
     (if \<not> m_enabled s then s
      else (case GetMark (DespawnMarkMarker p s) p of
              (s1, None) \<Rightarrow> s1
            | (s1, Some (x, y, z)) \<Rightarrow>
                if \<not> pl_inWorld p \<or> \<not> sv_cell sv x y then s1
                else if \<not> sv_summon sv HOUSE_SELECT_MARK_ENTRY then s1
                else emit (OnObject (SummonGlow (pl_guid p) x y (z + HOUSE_CHALK_MARK_LIFT) 0))
                       (s1\<lparr>m_markMarkers := sm_put (pl_guid p) () (m_markMarkers s1)\<rparr>)))"

definition SetMark ::
  "server \<Rightarrow> HouseMgr \<Rightarrow> player \<Rightarrow> (yards \<times> yards \<times> yards) option \<Rightarrow> HouseMgr \<times> unit res" where
  "SetMark sv s p spot =
     (if \<not> m_enabled s then (s, Inl ''Housing is not available.'')
      else case CheckOwner s (Some p) of
        Inl e \<Rightarrow> (s, Inl e)
      | Inr house \<Rightarrow>
          (case spot of
             None \<Rightarrow> (s, Inl (''Your client did not send a spot. Quit the game, delete WDB'' @ [CHR 0x5C]
                           @ ''itemcache.wdb, and start it again.''))
           | Some (x, y, z) \<Rightarrow>
               (case CheckMarkPoint sv p (x, y, z) of
                  Inl e \<Rightarrow> (s, Inl e)
                | Inr _ \<Rightarrow>
                    (RefreshMarkMarker sv p
                       (s\<lparr>m_marks := sm_put (pl_guid p)
                            \<lparr>m_houseId = h_id house, m_x = x, m_y = y, m_z = z\<rparr> (m_marks s)\<rparr>),
                     Inr ()))))"

definition ClearMark :: "player \<Rightarrow> HouseMgr \<Rightarrow> HouseMgr" where
  "ClearMark p s = DespawnMarkMarker p (s\<lparr>m_marks := sm_erase (pl_guid p) (m_marks s)\<rparr>)"

definition HouseUseChalk ::
  "server \<Rightarrow> HouseMgr \<Rightarrow> player \<Rightarrow> bool \<Rightarrow> yards \<times> yards \<times> yards \<Rightarrow> HouseMgr \<times> bool" where
  "HouseUseChalk sv s p haveSpot spot =
     (case SetMark sv s p (if haveSpot then Some spot else None) of
        (s', Inl e) \<Rightarrow> (say p e s', False)
      | (s', Inr _) \<Rightarrow> (say p ''Chalk mark set. The next thing you place lands on it.'' s', True))"

subsection \<open>What the glow, the blink and the choices leave alone\<close>

text \<open>
  \<open>core\<close> forgets the per-player choices, their glows and the effects; a function that keeps the core
  changes nothing of the houses, the rows, the shelves or the tables. \<open>core_fields\<close> turns an
  equation of cores into one for each field that is kept.
\<close>

definition core :: "HouseMgr \<Rightarrow> HouseMgr" where
  "core s = s\<lparr>m_selected := [], m_selectMarkers := [], m_marks := [], m_markMarkers := [],
              m_editing := [], m_trace := []\<rparr>"

lemma core_fields:
  assumes "core s = core t"
  shows "m_enabled s = m_enabled t"
    and "m_nextObjectGuid s = m_nextObjectGuid t"
    and "m_nextCritterGuid s = m_nextCritterGuid t"
    and "m_houses s = m_houses t"
    and "m_houseByAccount s = m_houseByAccount t"
    and "m_houseByInstance s = m_houseByInstance t"
    and "m_storage s = m_storage t"
    and "m_settings s = m_settings t"
    and "m_objects s = m_objects t"
    and "m_critters s = m_critters t"
    and "m_critterBeats s = m_critterBeats t"
    and "m_critterPatted s = m_critterPatted t"
    and "m_critterWalks s = m_critterWalks t"
    and "m_furnitureItems s = m_furnitureItems t"
    and "m_furnitureCategories s = m_furnitureCategories t"
    and "m_critterItems s = m_critterItems t"
    and "m_houseTemplates s = m_houseTemplates t"
    and "m_templateByName s = m_templateByName t"
    and "m_selectLift s = m_selectLift t"
    and "m_portals s = m_portals t"
    and "m_enteredBy s = m_enteredBy t"
    and "m_returns s = m_returns t"
    and "m_homePortals s = m_homePortals t"
    and "m_staffVisits s = m_staffVisits t"
    and "m_arrivals s = m_arrivals t"
    and "m_partyOffer s = m_partyOffer t"
    and "m_knocks s = m_knocks t"
    and "m_knockTouch s = m_knockTouch t"
    and "m_portalCooldown s = m_portalCooldown t"
    and "m_exitPortals s = m_exitPortals t"
    and "m_markHide s = m_markHide t"
    and "m_db s = m_db t"
proof -
  show "m_enabled s = m_enabled t" using arg_cong [OF assms, of m_enabled] by (simp add: core_def)
  show "m_nextObjectGuid s = m_nextObjectGuid t" using arg_cong [OF assms, of m_nextObjectGuid] by (simp add: core_def)
  show "m_nextCritterGuid s = m_nextCritterGuid t" using arg_cong [OF assms, of m_nextCritterGuid] by (simp add: core_def)
  show "m_houses s = m_houses t" using arg_cong [OF assms, of m_houses] by (simp add: core_def)
  show "m_houseByAccount s = m_houseByAccount t" using arg_cong [OF assms, of m_houseByAccount] by (simp add: core_def)
  show "m_houseByInstance s = m_houseByInstance t" using arg_cong [OF assms, of m_houseByInstance] by (simp add: core_def)
  show "m_storage s = m_storage t" using arg_cong [OF assms, of m_storage] by (simp add: core_def)
  show "m_settings s = m_settings t" using arg_cong [OF assms, of m_settings] by (simp add: core_def)
  show "m_objects s = m_objects t" using arg_cong [OF assms, of m_objects] by (simp add: core_def)
  show "m_critters s = m_critters t" using arg_cong [OF assms, of m_critters] by (simp add: core_def)
  show "m_critterBeats s = m_critterBeats t" using arg_cong [OF assms, of m_critterBeats] by (simp add: core_def)
  show "m_critterPatted s = m_critterPatted t" using arg_cong [OF assms, of m_critterPatted] by (simp add: core_def)
  show "m_critterWalks s = m_critterWalks t" using arg_cong [OF assms, of m_critterWalks] by (simp add: core_def)
  show "m_furnitureItems s = m_furnitureItems t" using arg_cong [OF assms, of m_furnitureItems] by (simp add: core_def)
  show "m_furnitureCategories s = m_furnitureCategories t" using arg_cong [OF assms, of m_furnitureCategories] by (simp add: core_def)
  show "m_critterItems s = m_critterItems t" using arg_cong [OF assms, of m_critterItems] by (simp add: core_def)
  show "m_houseTemplates s = m_houseTemplates t" using arg_cong [OF assms, of m_houseTemplates] by (simp add: core_def)
  show "m_templateByName s = m_templateByName t" using arg_cong [OF assms, of m_templateByName] by (simp add: core_def)
  show "m_selectLift s = m_selectLift t" using arg_cong [OF assms, of m_selectLift] by (simp add: core_def)
  show "m_portals s = m_portals t" using arg_cong [OF assms, of m_portals] by (simp add: core_def)
  show "m_enteredBy s = m_enteredBy t" using arg_cong [OF assms, of m_enteredBy] by (simp add: core_def)
  show "m_returns s = m_returns t" using arg_cong [OF assms, of m_returns] by (simp add: core_def)
  show "m_homePortals s = m_homePortals t" using arg_cong [OF assms, of m_homePortals] by (simp add: core_def)
  show "m_staffVisits s = m_staffVisits t" using arg_cong [OF assms, of m_staffVisits] by (simp add: core_def)
  show "m_arrivals s = m_arrivals t" using arg_cong [OF assms, of m_arrivals] by (simp add: core_def)
  show "m_partyOffer s = m_partyOffer t" using arg_cong [OF assms, of m_partyOffer] by (simp add: core_def)
  show "m_knocks s = m_knocks t" using arg_cong [OF assms, of m_knocks] by (simp add: core_def)
  show "m_knockTouch s = m_knockTouch t" using arg_cong [OF assms, of m_knockTouch] by (simp add: core_def)
  show "m_portalCooldown s = m_portalCooldown t" using arg_cong [OF assms, of m_portalCooldown] by (simp add: core_def)
  show "m_exitPortals s = m_exitPortals t" using arg_cong [OF assms, of m_exitPortals] by (simp add: core_def)
  show "m_markHide s = m_markHide t" using arg_cong [OF assms, of m_markHide] by (simp add: core_def)
  show "m_db s = m_db t" using arg_cong [OF assms, of m_db] by (simp add: core_def)
qed

lemma core_emit [simp]: "core (emit e s) = core s"
  by (simp add: core_def emit_def)

lemma core_say [simp]: "core (say p msg s) = core s"
  by (simp add: say_def)

lemma core_choices [simp]:
  "core (s\<lparr>m_selected := a\<rparr>) = core s"
  "core (s\<lparr>m_selectMarkers := b\<rparr>) = core s"
  "core (s\<lparr>m_marks := c\<rparr>) = core s"
  "core (s\<lparr>m_markMarkers := b\<rparr>) = core s"
  "core (s\<lparr>m_editing := d\<rparr>) = core s"
  by (simp_all add: core_def)

lemma core_GetSelectedObject [simp]: "core (fst (GetSelectedObject s p)) = core s"
  by (simp add: GetSelectedObject_def split: option.splits)

lemma core_FlashObject [simp]: "core (FlashObject sv p g s) = core s"
  by (simp add: FlashObject_def)

lemma core_DespawnSelectionMarker [simp]: "core (DespawnSelectionMarker p s) = core s"
  by (simp add: DespawnSelectionMarker_def)

lemma core_RefreshSelectionMarker [simp]: "core (RefreshSelectionMarker sv p s) = core s"
proof -
  obtain s2 g where g: "GetSelectedObject (DespawnSelectionMarker p s) p = (s2, g)"
    by (metis prod.collapse)
  then have "core s2 = core s"
    using core_GetSelectedObject [of "DespawnSelectionMarker p s" p] by simp
  then show ?thesis
    by (simp add: RefreshSelectionMarker_def Let_def g split: option.splits)
qed

lemma core_ClearSelection [simp]: "core (ClearSelection p s) = core s"
  by (simp add: ClearSelection_def)

lemma core_DespawnMarkMarker [simp]: "core (DespawnMarkMarker p s) = core s"
  by (simp add: DespawnMarkMarker_def)

lemma core_GetMark [simp]: "core (fst (GetMark s p)) = core s"
  by (simp add: GetMark_def split: option.splits)

lemma core_ClearMark [simp]: "core (ClearMark p s) = core s"
  by (simp add: ClearMark_def)

lemma core_RefreshMarkMarker [simp]: "core (RefreshMarkMarker sv p s) = core s"
proof -
  obtain s1 r where g: "GetMark (DespawnMarkMarker p s) p = (s1, r)" by (metis prod.collapse)
  then have "core s1 = core s" using core_GetMark [of "DespawnMarkMarker p s" p] by simp
  then show ?thesis
    by (simp add: RefreshMarkMarker_def g split: option.splits prod.splits)
qed

lemma core_flash_fold [simp]: "core (fold (\<lambda>m. FlashObject sv p (f m)) ms s) = core s"
  by (induction ms arbitrary: s) simp_all

lemmas emit_fields [simp] = core_fields [OF core_emit]
lemmas say_fields [simp] = core_fields [OF core_say]
lemmas FlashObject_fields [simp] = core_fields [OF core_FlashObject]
lemmas GetSelectedObject_fields [simp] = core_fields [OF core_GetSelectedObject]
lemmas GetMark_fields [simp] = core_fields [OF core_GetMark]
lemmas ClearMark_fields [simp] = core_fields [OF core_ClearMark]
lemmas ClearSelection_fields [simp] = core_fields [OF core_ClearSelection]
lemmas RefreshSelectionMarker_fields [simp] = core_fields [OF core_RefreshSelectionMarker]
lemmas RefreshMarkMarker_fields [simp] = core_fields [OF core_RefreshMarkMarker]
lemmas DespawnSelectionMarker_fields [simp] = core_fields [OF core_DespawnSelectionMarker]
lemmas DespawnMarkMarker_fields [simp] = core_fields [OF core_DespawnMarkMarker]

text \<open>The lookups read the core only.\<close>

lemma lookups_core:
  assumes "core s = core t"
  shows "GetHouseById s = GetHouseById t" and "GetHouseAt s = GetHouseAt t"
    and "CheckOwner s = CheckOwner t" and "GetObject s = GetObject t"
    and "GetObjects s = GetObjects t" and "GroupMembers s = GroupMembers t"
    and "GetSetting s = GetSetting t" and "CountPlayerObjects s = CountPlayerObjects t"
    and "AllocateSlot s = AllocateSlot t" and "Resolve s = Resolve t"
proof -
  show 1: "GetHouseById s = GetHouseById t"
    by (intro ext) (unfold GetHouseById_def core_fields [OF assms], rule refl)
  have 0: "GetHouseByInstance s = GetHouseByInstance t"
    by (intro ext) (unfold GetHouseByInstance_def 1 core_fields [OF assms], rule refl)
  show 2: "GetHouseAt s = GetHouseAt t"
    by (intro ext) (unfold GetHouseAt_def 0, rule refl)
  show 3: "CheckOwner s = CheckOwner t" by (intro ext) (unfold CheckOwner_def 2, rule refl)
  show 4: "GetObject s = GetObject t" by (intro ext) (unfold GetObject_def core_fields [OF assms], rule refl)
  show "GetObjects s = GetObjects t" by (intro ext) (unfold GetObjects_def 1 4, rule refl)
  show "GroupMembers s = GroupMembers t"
    by (intro ext) (unfold GroupMembers_def 1 core_fields [OF assms], rule refl)
  show "GetSetting s = GetSetting t"
    by (intro ext) (unfold GetSetting_def GetSettingAccount_def core_fields [OF assms], rule refl)
  show "CountPlayerObjects s = CountPlayerObjects t"
    by (intro ext) (unfold CountPlayerObjects_def core_fields [OF assms], rule refl)
  show "AllocateSlot s = AllocateSlot t"
    by (intro ext) (unfold AllocateSlot_def core_fields [OF assms], rule refl)
  show "Resolve s = Resolve t"
    by (intro ext) (unfold Resolve_def 3 core_fields [OF assms], rule refl)
qed

subsection \<open>Properties\<close>

text \<open>
  a selection is only ever what its owner may act on now: what \<open>GetSelectedObject\<close> answers is a
  piece of furniture of the house the player stands in that did not come with the house; otherwise
  it answers 0 and forgets the choice, so the stale one cannot come back.
\<close>
theorem selection_valid_on_read:
  "case GetSelectedObject s p of (s', g) \<Rightarrow>
     if g = 0 then sm_find (m_selected s) (pl_guid p) \<noteq> Some 0 \<longrightarrow> sm_find (m_selected s') (pl_guid p) = None
     else s' = s \<and> (\<exists>here ob. GetHouseAt s (Some p) = Some here \<and> GetObject s g = Some ob
                            \<and> o_houseId ob = h_id here \<and> \<not> IsHouseFabric ob)"
  by (auto simp: GetSelectedObject_def split: option.splits)

theorem selection_valid_on_read_witness:
  "sm_find (m_selected (fst (GetSelectedObject (plain_mgr\<lparr>m_selected := [(1, 5)]\<rparr>) plain_player))) 1 = None"
proof -
  have "snd (GetSelectedObject (plain_mgr\<lparr>m_selected := [(1, 5)]\<rparr>) plain_player) = 0"
    by (simp add: GetSelectedObject_def GetObject_def split: option.splits)
  then show ?thesis
    using selection_valid_on_read [of "plain_mgr\<lparr>m_selected := [(1, 5)]\<rparr>" plain_player]
    by (simp split: prod.splits)
qed

text \<open>
  the chalk mark belongs to one house: \<open>GetMark\<close> answers a spot only in the house it was chalked
  in, and asking anywhere else destroys it, so it does not come back on returning home.
\<close>
theorem mark_scoped_to_house:
  "case GetMark s p of
     (s', Some spot) \<Rightarrow> s' = s \<and> (\<exists>here m. GetHouseAt s (Some p) = Some here
        \<and> sm_find (m_marks s) (pl_guid p) = Some m \<and> m_houseId m = h_id here
        \<and> spot = (m_x m, m_y m, m_z m))
   | (s', None) \<Rightarrow> sm_find (m_marks s') (pl_guid p) = None"
  by (auto simp: GetMark_def DespawnMarkMarker_def emit_def split: option.splits)


subsection \<open>A setting is saved\<close>

definition settings_inv :: "HouseMgr \<Rightarrow> bool" where
  "settings_inv s \<longleftrightarrow>
     nm_at (m_settings s) = map_of (tb_setting (m_db s)) \<and> distinct (map fst (tb_setting (m_db s)))
     \<and> (\<forall>r \<in> set (tb_setting (m_db s)). snd (fst r) < HOUSE_SETTING_MAX)"

lemma fold_load_settings:
  assumes "distinct (map fst t)" and "\<forall>r \<in> set t. snd (fst r) < HOUSE_SETTING_MAX"
  shows "nm_at (fold load_setting_row t m) k = (case map_of t k of None \<Rightarrow> nm_at m k | Some v \<Rightarrow> Some v)"
  using assms
proof (induction t arbitrary: m)
  case (Cons r t)
  obtain a j v where r: "r = ((a, j), v)" by (metis prod.collapse)
  have "nm_at (fold load_setting_row t (nm_set (a, j) v m)) k
        = (case map_of t k of None \<Rightarrow> nm_at (nm_set (a, j) v m) k | Some v \<Rightarrow> Some v)"
    using Cons by simp
  moreover have "map_of t (a, j) = None" using Cons.prems r by (simp add: map_of_eq_None_iff)
  moreover have "load_setting_row r m = nm_set (a, j) v m"
    using Cons.prems r by (auto simp: load_setting_row_def Let_def)
  ultimately show ?case using r by (auto split: option.splits)
qed simp

lemma settings_load: "settings_inv s \<Longrightarrow> nm_at (m_settings (LoadSettings s)) = nm_at (m_settings s)"
  using fold_load_settings [of "tb_setting (m_db s)" "[]"]
  by (intro ext) (auto simp: LoadSettings_def settings_inv_def nm_at_def nm_row_def split: option.splits)

lemma settings_inv_set:
  assumes "settings_inv s" and "j < HOUSE_SETTING_MAX"
  shows "settings_inv (pexec (sql_replace_setting a j v) (s\<lparr>m_settings := nm_set (a, j) v (m_settings s)\<rparr>))"
  using assms nested_mirror.agree_store [of "m_settings s" "tb_setting (m_db s)" "(a, j)" v]
  by (auto simp: settings_inv_def pexec_def sql_replace_setting_def tab_put_def distinct_map_filter)

lemma SetSetting_core:
  "pl_session p \<Longrightarrow> setting < HOUSE_SETTING_MAX \<Longrightarrow>
   core (SetSetting sv p setting v s) =
   core (pexec (sql_replace_setting
           (if SettingIsGlobal setting then HOUSE_SETTING_GLOBAL_ACCOUNT else pl_account p) setting v)
         (s\<lparr>m_settings := nm_set
           (if SettingIsGlobal setting then HOUSE_SETTING_GLOBAL_ACCOUNT else pl_account p, setting) v
           (m_settings s)\<rparr>))"
  by (auto simp: SetSetting_def Let_def)

text \<open>
  what a player sets is what the server answers, at once and after a restart; a global setting is
  answered to everybody, and every other setting of every account stays as it was.
\<close>
theorem setting_survives_restart:
  assumes "settings_inv s" and "pl_session p" and "setting < HOUSE_SETTING_MAX"
  shows "settings_inv (SetSetting sv p setting v s)
    \<and> GetSetting (SetSetting sv p setting v s) (Some p) setting = v
    \<and> GetSetting (LoadSettings (SetSetting sv p setting v s)) (Some p) setting = v
    \<and> (SettingIsGlobal setting \<longrightarrow> (\<forall>q. GetSetting (SetSetting sv p setting v s) q setting = v))
    \<and> (\<forall>a j. (a, j) \<noteq> (if SettingIsGlobal setting then HOUSE_SETTING_GLOBAL_ACCOUNT else pl_account p, setting)
             \<longrightarrow> GetSettingAccount (SetSetting sv p setting v s) a j = GetSettingAccount s a j)"
proof -
  let ?a = "if SettingIsGlobal setting then HOUSE_SETTING_GLOBAL_ACCOUNT else pl_account p"
  let ?s = "SetSetting sv p setting v s"
  note f = core_fields [OF SetSetting_core [OF assms(2,3), of sv v s]]
  have inv: "settings_inv ?s"
    using settings_inv_set [OF assms(1,3), of ?a v] unfolding settings_inv_def f .
  have at: "nm_at (m_settings ?s) = (nm_at (m_settings s))((?a, setting) \<mapsto> v)"
    by (simp add: f pexec_def fun_eq_iff)
  have here: "GetSetting t q setting = v"
    if "nm_at (m_settings t) (?a, setting) = Some v" "SettingIsGlobal setting \<or> q = Some p" for t q
    using that assms(2,3) by (auto simp: GetSetting_def GetSettingAccount_def)
  show ?thesis
    using inv here at settings_load [OF inv]
    by (auto simp: GetSettingAccount_def)
qed

theorem setting_survives_restart_witness:
  "GetSetting (LoadSettings (SetSetting plain_server plain_player HOUSE_SETTING_GLOW 0 plain_mgr))
     (Some plain_player) HOUSE_SETTING_GLOW = 0"
proof -
  have "settings_inv plain_mgr" by (simp add: settings_inv_def nm_at_def nm_row_def fun_eq_iff)
  then show ?thesis
    using setting_survives_restart [of plain_mgr plain_player HOUSE_SETTING_GLOW plain_server 0]
    by (simp add: setting_consts)
qed

end
