(* ===== verification/HouseEditing.thy ===== *)
theory HouseEditing
  imports HouseMarks
begin

section \<open>Edit sessions\<close>

text \<open>
  The sessions of Housing/HouseHandle.cpp: which objects a player's client has been told are
  clickable (\<open>e_marked\<close>) and which ones should be (\<open>e_wanted\<close>), for one object or for the whole house
  (\<open>e_all\<close>), and \<open>Reconcile\<close>, the one place that brings the first in line with the second. The
  gossip pages themselves are not modelled.
\<close>

definition IsEditing :: "HouseMgr \<Rightarrow> player \<Rightarrow> bool" where
  "IsEditing s p = sm_has (m_editing s) (pl_guid p)"

definition IsEditingAll :: "HouseMgr \<Rightarrow> player \<Rightarrow> bool" where
  "IsEditingAll s p = (case sm_find (m_editing s) (pl_guid p) of None \<Rightarrow> False | Some e \<Rightarrow> e_all e)"

definition InEditSession :: "HouseMgr \<Rightarrow> player \<Rightarrow> u32 \<Rightarrow> bool" where
  "InEditSession s p objectGuid =
     (case sm_find (m_editing s) (pl_guid p) of None \<Rightarrow> False | Some e \<Rightarrow> sm_has (e_wanted e) objectGuid)"

definition new_session :: HouseEdit where
  "new_session = \<lparr>e_houseId = 0, e_stepMove = 1, e_stepTurn = 15, e_stepSize = 10, e_all = False,
                  e_wanted = [], e_marked = []\<rparr>"

subsection \<open>Steps\<close>

definition STEPS :: "HouseStepKind \<Rightarrow> yards list" where
  "STEPS kind =
     (case kind of
        HOUSE_STEP_MOVE \<Rightarrow> [1/10, 1/4, 1/2, 1, 2, 5]
      | HOUSE_STEP_TURN \<Rightarrow> [1, 3, 5, 15, 45]
      | HOUSE_STEP_SIZE \<Rightarrow> [5, 10, 50, 100])"

definition session_step :: "HouseStepKind \<Rightarrow> HouseEdit \<Rightarrow> yards" where
  "session_step kind e =
     (case kind of HOUSE_STEP_TURN \<Rightarrow> e_stepTurn e | HOUSE_STEP_SIZE \<Rightarrow> e_stepSize e
      | HOUSE_STEP_MOVE \<Rightarrow> e_stepMove e)"

definition set_session_step :: "HouseStepKind \<Rightarrow> yards \<Rightarrow> HouseEdit \<Rightarrow> HouseEdit" where
  "set_session_step kind v e =
     (case kind of HOUSE_STEP_TURN \<Rightarrow> e\<lparr>e_stepTurn := v\<rparr> | HOUSE_STEP_SIZE \<Rightarrow> e\<lparr>e_stepSize := v\<rparr>
      | HOUSE_STEP_MOVE \<Rightarrow> e\<lparr>e_stepMove := v\<rparr>)"

definition GetEditStep :: "HouseMgr \<Rightarrow> player \<Rightarrow> HouseStepKind \<Rightarrow> yards" where
  "GetEditStep s p kind =
     (case sm_find (m_editing s) (pl_guid p) of
        None \<Rightarrow> (case kind of HOUSE_STEP_TURN \<Rightarrow> 15 | HOUSE_STEP_SIZE \<Rightarrow> 10 | HOUSE_STEP_MOVE \<Rightarrow> 1)
      | Some e \<Rightarrow> session_step kind e)"

fun next_step :: "yards \<Rightarrow> yards list \<Rightarrow> yards list \<Rightarrow> yards" where
  "next_step cur values [] = hd values"
| "next_step cur values (v # rest) =
     (if v = cur then (case rest of [] \<Rightarrow> hd values | w # _ \<Rightarrow> w) else next_step cur values rest)"

definition CycleEditStep :: "player \<Rightarrow> HouseStepKind \<Rightarrow> HouseMgr \<Rightarrow> HouseMgr" where
  "CycleEditStep p kind s =
     (case sm_find (m_editing s) (pl_guid p) of
        None \<Rightarrow> s
      | Some e \<Rightarrow>
          s\<lparr>m_editing := sm_put (pl_guid p)
              (set_session_step kind (next_step (session_step kind e) (STEPS kind) (STEPS kind)) e)
              (m_editing s)\<rparr>)"

subsection \<open>Reconcile and what ends in it\<close>

definition wanted_now :: "HouseMgr \<Rightarrow> HouseEdit \<Rightarrow> (u32, unit) smap" where
  "wanted_now s e =
     (if e_all e
      then fold (\<lambda>ob w. if IsHouseFabric ob then w else sm_put (o_guid ob) () w)
             (GetObjects s (e_houseId e)) []
      else e_wanted e)"

text \<open>The two passes: each carries the state and the marked set.\<close>

fun unmark_step ::
  "server \<Rightarrow> player \<Rightarrow> (u32, unit) smap \<Rightarrow> u32 \<Rightarrow> HouseMgr \<times> (u32, unit) smap
   \<Rightarrow> HouseMgr \<times> (u32, unit) smap" where
  "unmark_step sv p wanted g (s, marked) =
     (if sm_has wanted g then (s, marked) else (FlashObject sv p g s, sm_erase g marked))"

fun mark_step ::
  "server \<Rightarrow> player \<Rightarrow> u32 \<Rightarrow> HouseMgr \<times> (u32, unit) smap \<Rightarrow> HouseMgr \<times> (u32, unit) smap" where
  "mark_step sv p g (s, marked) =
     (if sm_has marked g \<or> GetObject s g = None then (s, marked)
      else (FlashObject sv p g s, sm_put g () marked))"

definition unmark_pass ::
  "server \<Rightarrow> player \<Rightarrow> (u32, unit) smap \<Rightarrow> HouseMgr \<times> (u32, unit) smap \<Rightarrow> HouseMgr \<times> (u32, unit) smap" where
  "unmark_pass sv p wanted sm = fold (unmark_step sv p wanted) (sm_keys (snd sm)) sm"

definition mark_pass ::
  "server \<Rightarrow> player \<Rightarrow> (u32, unit) smap \<Rightarrow> HouseMgr \<times> (u32, unit) smap \<Rightarrow> HouseMgr \<times> (u32, unit) smap" where
  "mark_pass sv p wanted sm = fold (mark_step sv p) (sm_keys wanted) sm"

definition Reconcile :: "server \<Rightarrow> player \<Rightarrow> HouseMgr \<Rightarrow> HouseMgr" where
  "Reconcile sv p s =
     (case sm_find (m_editing s) (pl_guid p) of
        None \<Rightarrow> s
      | Some e \<Rightarrow>
          let wanted = wanted_now s e
          in case mark_pass sv p wanted (unmark_pass sv p wanted (s, e_marked e)) of
               (s', marked) \<Rightarrow>
                 s'\<lparr>m_editing := sm_put (pl_guid p) (e\<lparr>e_wanted := wanted, e_marked := marked\<rparr>)
                      (m_editing s')\<rparr>)"

definition AddToEdit :: "server \<Rightarrow> player \<Rightarrow> u32 \<Rightarrow> HouseMgr \<Rightarrow> HouseMgr" where
  "AddToEdit sv p objectGuid s =
     (case GetObject s objectGuid of
        None \<Rightarrow> s
      | Some ob \<Rightarrow>
          let e = (case sm_find (m_editing s) (pl_guid p) of None \<Rightarrow> new_session | Some e \<Rightarrow> e);
              e1 = (if e_houseId e = 0 then e\<lparr>e_houseId := o_houseId ob\<rparr> else e);
              e2 = e1\<lparr>e_wanted := sm_put objectGuid () (e_wanted e1)\<rparr>
          in Reconcile sv p (s\<lparr>m_editing := sm_put (pl_guid p) e2 (m_editing s)\<rparr>))"

definition DropFromEdit :: "server \<Rightarrow> player \<Rightarrow> u32 \<Rightarrow> HouseMgr \<Rightarrow> HouseMgr" where
  "DropFromEdit sv p objectGuid s =
     (case sm_find (m_editing s) (pl_guid p) of
        None \<Rightarrow> s
      | Some e \<Rightarrow>
          let s1 = Reconcile sv p (s\<lparr>m_editing := sm_put (pl_guid p)
                     (e\<lparr>e_wanted := sm_erase objectGuid (e_wanted e)\<rparr>) (m_editing s)\<rparr>)
          in case sm_find (m_editing s1) (pl_guid p) of
               None \<Rightarrow> s1
             | Some e1 \<Rightarrow>
                 if \<not> e_all e1 \<and> e_wanted e1 = []
                 then s1\<lparr>m_editing := sm_erase (pl_guid p) (m_editing s1)\<rparr> else s1)"

definition UpdateEditSessions :: "server \<Rightarrow> player list \<Rightarrow> HouseMgr \<Rightarrow> HouseMgr" where
  "UpdateEditSessions sv players s = (if m_editing s = [] then s else fold (Reconcile sv) players s)"

definition ClearEdit :: "server \<Rightarrow> player \<Rightarrow> HouseMgr \<Rightarrow> HouseMgr" where
  "ClearEdit sv p s =
     (case sm_find (m_editing s) (pl_guid p) of
        None \<Rightarrow> s
      | Some e \<Rightarrow>
          fold (FlashObject sv p) (sm_keys (e_marked e))
            (s\<lparr>m_editing := sm_erase (pl_guid p) (m_editing s)\<rparr>))"

definition SetEditMode :: "server \<Rightarrow> HouseMgr \<Rightarrow> player \<Rightarrow> bool \<Rightarrow> HouseMgr \<times> unit res" where
  "SetEditMode sv s p on =
     (case GetHouseAt s (Some p) of
        None \<Rightarrow> (s, Inl ''You are not in a house.'')
      | Some house \<Rightarrow>
          if \<not> CanEditHouse (Some p) house then (s, Inl ''This is not your house.'')
          else
            let s1 = ClearEdit sv p s
            in if \<not> on then (ClearSelection p s1, Inr ())
               else
                 let objects = GetObjects s1 (h_id house);
                     mine = filter (\<lambda>ob. \<not> IsHouseFabric ob) objects
                 in if mine = []
                    then (s1, Inl (if objects = [] then ''There is nothing here to edit.''
                      else ''Everything here came with the house. Place something of your own first.''))
                    else
                      (Reconcile sv p
                         (s1\<lparr>m_editing := sm_put (pl_guid p)
                            (new_session\<lparr>e_houseId := h_id house, e_all := True,
                              e_wanted := fold (\<lambda>ob w. sm_put (o_guid ob) () w) mine []\<rparr>)
                            (m_editing s1)\<rparr>),
                       Inr ()))"

subsection \<open>The passes\<close>

lemma FlashObject_editing [simp]: "m_editing (FlashObject sv p g s) = m_editing s"
  by (simp add: FlashObject_def emit_def)

lemma FlashObject_lookup [simp]: "GetObject (FlashObject sv p g s) = GetObject s"
  by (rule lookups_core) simp

text \<open>A pass changes the core and the sessions not at all, and the marked set as it should.\<close>

lemma passes_frame:
  assumes "core (fst sm) = core s \<and> m_editing (fst sm) = m_editing s"
  shows "core (fst (fold (unmark_step sv p wanted) ks sm)) = core s
       \<and> m_editing (fst (fold (unmark_step sv p wanted) ks sm)) = m_editing s"
    and "core (fst (fold (mark_step sv p) ks sm)) = core s
       \<and> m_editing (fst (fold (mark_step sv p) ks sm)) = m_editing s"
proof -
  have u: "core (fst (unmark_step sv p wanted g sm)) = core (fst sm)
         \<and> m_editing (fst (unmark_step sv p wanted g sm)) = m_editing (fst sm)" for g sm
    by (cases sm) simp
  have m: "core (fst (mark_step sv p g sm)) = core (fst sm)
         \<and> m_editing (fst (mark_step sv p g sm)) = m_editing (fst sm)" for g sm
    by (cases sm) simp
  show "core (fst (fold (unmark_step sv p wanted) ks sm)) = core s
       \<and> m_editing (fst (fold (unmark_step sv p wanted) ks sm)) = m_editing s"
    using assms by (induction ks arbitrary: sm) (simp_all add: u)
  show "core (fst (fold (mark_step sv p) ks sm)) = core s
       \<and> m_editing (fst (fold (mark_step sv p) ks sm)) = m_editing s"
    using assms by (induction ks arbitrary: sm) (simp_all add: m)
qed

lemma unmark_fold:
  "sm_has (snd (fold (unmark_step sv p wanted) ks (s, m))) g
   \<longleftrightarrow> sm_has m g \<and> (g \<in> set ks \<longrightarrow> sm_has wanted g)"
  by (induction ks arbitrary: s m) auto

lemma mark_fold:
  "sm_has (snd (fold (mark_step sv p) ks (s, m))) g
   \<longleftrightarrow> sm_has m g \<or> g \<in> set ks \<and> GetObject s g \<noteq> None"
  by (induction ks arbitrary: s m) auto

lemma Reconcile_cases:
  assumes "sm_find (m_editing s) (pl_guid p) = Some e"
  obtains s' marked where "core s' = core s" and "m_editing s' = m_editing s"
    and "Reconcile sv p s = s'\<lparr>m_editing := sm_put (pl_guid p)
           (e\<lparr>e_wanted := wanted_now s e, e_marked := marked\<rparr>) (m_editing s)\<rparr>"
    and "\<And>g. sm_has marked g \<longleftrightarrow> sm_has (wanted_now s e) g \<and> (sm_has (e_marked e) g \<or> GetObject s g \<noteq> None)"
proof -
  let ?w = "wanted_now s e"
  obtain s1 m1 where u: "unmark_pass sv p ?w (s, e_marked e) = (s1, m1)" by (metis prod.collapse)
  obtain s2 m2 where m: "mark_pass sv p ?w (s1, m1) = (s2, m2)" by (metis prod.collapse)
  have 1: "core s1 = core s" "m_editing s1 = m_editing s"
    using passes_frame(1) [of "(s, e_marked e)" s sv p ?w "sm_keys (e_marked e)"] u
    by (simp_all add: unmark_pass_def)
  have 2: "core s2 = core s" "m_editing s2 = m_editing s"
    using passes_frame(2) [of "(s1, m1)" s sv p "sm_keys ?w"] m 1 by (simp_all add: mark_pass_def)
  have "GetObject s1 = GetObject s" by (rule lookups_core) (rule 1)
  then have "sm_has m2 g \<longleftrightarrow> sm_has ?w g \<and> (sm_has (e_marked e) g \<or> GetObject s g \<noteq> None)" for g
    using unmark_fold [of sv p ?w "sm_keys (e_marked e)" s "e_marked e" g]
      mark_fold [of sv p "sm_keys ?w" s1 m1 g] u m
    by (auto simp: unmark_pass_def mark_pass_def sm_has_keys [symmetric])
  moreover have "Reconcile sv p s = s2\<lparr>m_editing := sm_put (pl_guid p)
           (e\<lparr>e_wanted := ?w, e_marked := m2\<rparr>) (m_editing s)\<rparr>"
    using assms u m 2 by (simp add: Reconcile_def Let_def)
  ultimately show ?thesis using that 2 by blast
qed

lemma core_Reconcile [simp]: "core (Reconcile sv p s) = core s"
proof (cases "sm_find (m_editing s) (pl_guid p)")
  case None
  then show ?thesis by (simp add: Reconcile_def)
next
  case (Some e)
  then show ?thesis by (rule Reconcile_cases [of s p e sv]) simp
qed

lemma core_AddToEdit [simp]: "core (AddToEdit sv p g s) = core s"
  by (simp add: AddToEdit_def Let_def split: option.splits)

lemma core_DropFromEdit [simp]: "core (DropFromEdit sv p g s) = core s"
proof (cases "sm_find (m_editing s) (pl_guid p)")
  case None
  then show ?thesis by (simp add: DropFromEdit_def)
next
  case (Some e)
  define s1 where "s1 = Reconcile sv p (s\<lparr>m_editing := sm_put (pl_guid p)
                     (e\<lparr>e_wanted := sm_erase g (e_wanted e)\<rparr>) (m_editing s)\<rparr>)"
  have "core s1 = core s" by (simp add: s1_def)
  then show ?thesis
    unfolding DropFromEdit_def Some option.case Let_def s1_def [symmetric]
    by (simp split: option.split)
qed

lemma core_ClearEdit [simp]: "core (ClearEdit sv p s) = core s"
  using core_flash_fold [of sv p "\<lambda>g. g"]
  by (cases "sm_find (m_editing s) (pl_guid p)") (simp_all add: ClearEdit_def)

lemma core_SetEditMode [simp]: "core (fst (SetEditMode sv s p on)) = core s"
  by (simp add: SetEditMode_def Let_def split: option.splits)

lemma core_UpdateEditSessions [simp]: "core (UpdateEditSessions sv ps s) = core s"
proof -
  have "core (fold (Reconcile sv) ps s) = core s" by (induction ps arbitrary: s) simp_all
  then show ?thesis by (simp add: UpdateEditSessions_def)
qed

lemmas Reconcile_fields [simp] = core_fields [OF core_Reconcile]
lemmas AddToEdit_fields [simp] = core_fields [OF core_AddToEdit]
lemmas DropFromEdit_fields [simp] = core_fields [OF core_DropFromEdit]

lemma wanted_now_core: "core s = core t \<Longrightarrow> wanted_now s e = wanted_now t e"
  unfolding wanted_now_def using lookups_core(5) [of s t] by simp

subsection \<open>Properties\<close>

text \<open>A session is settled when what the client was told is what the session wants.\<close>

definition settled :: "HouseMgr \<Rightarrow> player \<Rightarrow> bool" where
  "settled s p \<longleftrightarrow>
     (case sm_find (m_editing s) (pl_guid p) of
        None \<Rightarrow> True
      | Some e \<Rightarrow>
          list_all (\<lambda>g. sm_has (e_wanted e) g) (sm_keys (e_marked e))
          \<and> list_all (\<lambda>g. sm_has (e_marked e) g \<or> GetObject s g = None) (sm_keys (e_wanted e)))"

lemma Reconcile_settled: "settled (Reconcile sv p s) p"
proof (cases "sm_find (m_editing s) (pl_guid p)")
  case None
  then show ?thesis by (simp add: settled_def Reconcile_def)
next
  case (Some e)
  then show ?thesis
  proof (rule Reconcile_cases [of s p e sv])
    fix s' marked
    assume c: "core s' = core s" "m_editing s' = m_editing s"
      "Reconcile sv p s = s'\<lparr>m_editing := sm_put (pl_guid p)
           (e\<lparr>e_wanted := wanted_now s e, e_marked := marked\<rparr>) (m_editing s)\<rparr>"
      "\<And>g. sm_has marked g \<longleftrightarrow> sm_has (wanted_now s e) g \<and> (sm_has (e_marked e) g \<or> GetObject s g \<noteq> None)"
    have "GetObject (Reconcile sv p s) = GetObject s" by (rule lookups_core) simp
    with c show ?thesis by (auto simp: settled_def list_all_iff sm_has_keys [symmetric])
  qed
qed

text \<open>
  after anything that changes a session, the client has been told exactly what the session holds:
  everything marked is wanted, and everything wanted that still exists is marked.
\<close>
theorem edit_sessions_settle:
  "settled (Reconcile sv p s) p \<and> (GetObject s g \<noteq> None \<longrightarrow> settled (AddToEdit sv p g s) p)
   \<and> settled (DropFromEdit sv p g s) p \<and> \<not> IsEditing (ClearEdit sv p s) p
   \<and> (snd (SetEditMode sv s p True) = Inr () \<longrightarrow> settled (fst (SetEditMode sv s p True)) p)"
proof (intro conjI impI)
  show "settled (Reconcile sv p s) p" by (rule Reconcile_settled)
  show "settled (AddToEdit sv p g s) p" if "GetObject s g \<noteq> None"
    using that by (auto simp: AddToEdit_def Let_def Reconcile_settled)
  show "settled (DropFromEdit sv p g s) p"
  proof (cases "sm_find (m_editing s) (pl_guid p)")
    case None
    then show ?thesis by (simp add: DropFromEdit_def settled_def)
  next
    case (Some e)
    then show ?thesis
      using Reconcile_settled [of sv p "s\<lparr>m_editing := sm_put (pl_guid p)
                     (e\<lparr>e_wanted := sm_erase g (e_wanted e)\<rparr>) (m_editing s)\<rparr>"]
      by (auto simp: DropFromEdit_def Let_def settled_def split: option.splits)
  qed
  have "m_editing (fold (FlashObject sv p) ks t) = m_editing t" for ks t
    by (induction ks arbitrary: t) simp_all
  then show "\<not> IsEditing (ClearEdit sv p s) p"
    by (simp add: IsEditing_def ClearEdit_def sm_has_def split: option.splits)
  show "settled (fst (SetEditMode sv s p True)) p" if "snd (SetEditMode sv s p True) = Inr ()"
    using that by (auto simp: SetEditMode_def Let_def Reconcile_settled split: option.splits if_splits)
qed

theorem edit_sessions_settle_witness:
  "settled (AddToEdit plain_server plain_player 8000000 furnished_mgr) plain_player"
  using edit_sessions_settle [of plain_server plain_player furnished_mgr 8000000]
  by (simp add: GetObject_def furnished_mgr_def)

end
