(* ===== verification/HouseStorage.thy ===== *)
theory HouseStorage
  imports HouseLookup
begin

section \<open>Furniture storage\<close>

text \<open>
  One account's crates: a shelf of numbered squares, each holding an item entry, kept in
  \<open>m_storage\<close> and written through to \<open>house_storage\<close>. The operations of Housing/HouseMgr.cpp from
  \<open>LoadStorage\<close> to \<open>CanPlaceFurniture\<close>: who may use the shelf, putting a crate away, taking one out,
  moving one, and the rescue of a house's furniture before it is torn down with its forecast.
  Bags are the number of each item the player carries (\<open>pl_bags\<close>): \<open>DestroyItemCount\<close> of one takes
  one away and \<open>StoreNewItem\<close> of one adds one.
\<close>

subsection \<open>The catalogues\<close>

definition load_furniture_row ::
  "server \<Rightarrow> u32 \<times> FurnitureItem \<Rightarrow> HouseMgr \<Rightarrow> HouseMgr" where
  "load_furniture_row sv row s =
     (case row of (itemEntry, fi) \<Rightarrow>
        if sv_item sv itemEntry = None then s
        else if sv_go sv (fi_goEntry fi) = None then s
        else
          let cats = m_furnitureCategories s;
              cats' = (if fi_category fi \<noteq> [] \<and> fi_category fi \<notin> set cats
                       then cats @ [fi_category fi] else cats)
          in s\<lparr>m_furnitureCategories := cats',
               m_furnitureItems := sm_put itemEntry fi (m_furnitureItems s)\<rparr>)"

definition LoadFurnitureItems ::
  "server \<Rightarrow> (u32 \<times> FurnitureItem) list \<Rightarrow> HouseMgr \<Rightarrow> HouseMgr" where
  "LoadFurnitureItems sv rows s =
     fold (load_furniture_row sv) rows (s\<lparr>m_furnitureItems := [], m_furnitureCategories := []\<rparr>)"

definition FurnitureItemsIn :: "HouseMgr \<Rightarrow> string \<Rightarrow> (u32, unit) smap \<Rightarrow> (u32, unit) smap" where
  "FurnitureItemsIn s category out =
     fold (\<lambda>row out. if fi_category (snd row) = category then sm_put (fst row) () out else out)
          (m_furnitureItems s) out"

definition IsFurnitureItem :: "HouseMgr \<Rightarrow> u32 \<Rightarrow> bool" where
  "IsFurnitureItem s itemEntry = sm_has (m_furnitureItems s) itemEntry"

definition IsCritterItem :: "HouseMgr \<Rightarrow> u32 \<Rightarrow> bool" where
  "IsCritterItem s itemEntry = sm_has (m_critterItems s) itemEntry"

definition IsStorableItem :: "HouseMgr \<Rightarrow> u32 \<Rightarrow> bool" where
  "IsStorableItem s itemEntry \<longleftrightarrow> IsFurnitureItem s itemEntry \<or> IsCritterItem s itemEntry"

definition CanPlaceFurniture :: "HouseMgr \<Rightarrow> player option \<Rightarrow> unit res" where
  "CanPlaceFurniture s pl =
     (case CheckOwner s pl of
        Inl e \<Rightarrow> Inl e
      | Inr house \<Rightarrow>
          if CountPlayerObjects s house \<ge> HOUSE_MAX_OBJECTS
          then Inl ''Your house is full. Remove something first.''
          else Inr ())"

subsection \<open>Reading the shelf\<close>

definition load_storage_row ::
  "(u32 \<times> u32) \<times> u32 \<Rightarrow> (u32, (u32, u32) smap) smap \<Rightarrow> (u32, (u32, u32) smap) smap" where
  "load_storage_row row m =
     (case row of ((account, slot), itemEntry) \<Rightarrow>
        if slot = 0 \<or> slot > HOUSE_STORAGE_MAX then m else nm_set (account, slot) itemEntry m)"

definition LoadStorage :: "HouseMgr \<Rightarrow> HouseMgr" where
  "LoadStorage s = s\<lparr>m_storage := fold load_storage_row (tb_storage (m_db s)) []\<rparr>"

definition add_to_stack :: "u32 \<times> u32 \<Rightarrow> HouseStorageStack list \<Rightarrow> HouseStorageStack list" where
  "add_to_stack row out =
     (if snd row = 0 then out
      else if \<exists>k \<in> set out. st_itemEntry k = snd row
      then map (\<lambda>k. if st_itemEntry k = snd row then k\<lparr>st_count := st_count k + 1\<rparr> else k) out
      else out @ [\<lparr>st_slot = fst row, st_itemEntry = snd row, st_count = 1\<rparr>])"

definition GetStorageStacks :: "HouseMgr \<Rightarrow> player option \<Rightarrow> HouseStorageStack list" where
  "GetStorageStacks s pl =
     (case pl of
        None \<Rightarrow> []
      | Some p \<Rightarrow>
          if \<not> pl_session p then []
          else (case sm_find (m_storage s) (pl_account p) of
                  None \<Rightarrow> []
                | Some shelf \<Rightarrow> fold add_to_stack shelf []))"

definition GetStorageCount :: "HouseMgr \<Rightarrow> player option \<Rightarrow> u32" where
  "GetStorageCount s pl =
     (case pl of
        None \<Rightarrow> 0
      | Some p \<Rightarrow>
          if \<not> pl_session p then 0
          else (case sm_find (m_storage s) (pl_account p) of
                  None \<Rightarrow> 0
                | Some shelf \<Rightarrow> fold (\<lambda>row n. if snd row \<noteq> 0 then n + 1 else n) shelf 0))"

definition GetStorageAt :: "HouseMgr \<Rightarrow> player option \<Rightarrow> u32 \<Rightarrow> u32" where
  "GetStorageAt s pl slot =
     (case pl of
        None \<Rightarrow> 0
      | Some p \<Rightarrow>
          if \<not> pl_session p \<or> slot = 0 then 0
          else (case sm_find (m_storage s) (pl_account p) of
                  None \<Rightarrow> 0
                | Some shelf \<Rightarrow> (case sm_find shelf slot of None \<Rightarrow> 0 | Some i \<Rightarrow> i)))"

subsection \<open>Who may use it\<close>

definition AtOwnHomeDoor :: "server \<Rightarrow> HouseMgr \<Rightarrow> player option \<Rightarrow> bool" where
  "AtOwnHomeDoor sv s pl =
     (case pl of
        None \<Rightarrow> False
      | Some p \<Rightarrow>
          if \<not> m_enabled s \<or> \<not> pl_session p then False
          else (case GetHouseByAccount s (pl_account p) of
                  None \<Rightarrow> False
                | Some house \<Rightarrow>
                    list_ex (\<lambda>door. p_map door = pl_mapId p \<and> IsHomePortalOf house door
                                    \<and> IsWithinDist3d sv p (p_x door) (p_y door) (p_z door)
                                        (m_markHide s))
                            (map snd (m_portals s))))"

definition StorageAllowed :: "server \<Rightarrow> HouseMgr \<Rightarrow> player option \<Rightarrow> unit res" where
  "StorageAllowed sv s pl =
     (if AtOwnHomeDoor sv s pl then Inr ()
      else case CheckOwner s pl of
             Inr _ \<Rightarrow> Inr ()
           | Inl e \<Rightarrow>
               (case GetHouseAt s pl of
                  Some _ \<Rightarrow> Inl e
                | None \<Rightarrow>
                    Inl ''Your furniture storage is inside your house, or at your front door.''))"

subsection \<open>Putting crates away and taking them out\<close>

text \<open>The walk to the first free square, starting at \<open>slot\<close>; past the backstop when there is none.\<close>

function next_free :: "(u32, u32) smap \<Rightarrow> u32 \<Rightarrow> u32" where
  "next_free shelf slot =
     (if slot \<le> HOUSE_STORAGE_MAX \<and> sm_has shelf slot then next_free shelf (slot + 1) else slot)"
  by pat_completeness auto

lemma unat_succ_below:
  assumes "slot \<le> HOUSE_STORAGE_MAX"
  shows "unat (slot + 1) = unat slot + 1" and "unat slot \<le> 1000"
proof -
  show "unat slot \<le> 1000"
    using assms by (simp add: HOUSE_STORAGE_MAX_def word_le_nat_alt)
  then show "unat (slot + 1) = unat slot + 1"
    by (simp add: unat_word_ariths)
qed

termination next_free
  by (relation "measure (\<lambda>(_, slot). 1001 - unat slot)")
     (auto simp: unat_succ_below(1) less_Suc_eq_le dest: unat_succ_below(2))

declare next_free.simps [simp del]

text \<open>
  \<open>m_storage[accountId]\<close> makes an empty shelf when there is none; \<open>put_square\<close> writes one square in
  memory and in the table.
\<close>

definition open_shelf :: "u32 \<Rightarrow> HouseMgr \<Rightarrow> HouseMgr" where
  "open_shelf accountId s =
     s\<lparr>m_storage := sm_put accountId (nm_row (m_storage s) accountId) (m_storage s)\<rparr>"

definition put_square :: "u32 \<Rightarrow> u32 \<Rightarrow> u32 \<Rightarrow> HouseMgr \<Rightarrow> HouseMgr" where
  "put_square accountId slot itemEntry s =
     pexec (sql_replace_storage accountId slot itemEntry)
       (s\<lparr>m_storage := nm_set (accountId, slot) itemEntry (m_storage s)\<rparr>)"

definition StorageDeposit ::
  "server \<Rightarrow> HouseMgr \<Rightarrow> player \<Rightarrow> u32 \<Rightarrow> u32 \<Rightarrow> HouseMgr \<times> player \<times> unit res" where
  "StorageDeposit sv s player itemEntry slot =
     (case StorageAllowed sv s (Some player) of
        Inl e \<Rightarrow> (s, player, Inl e)
      | Inr _ \<Rightarrow>
          if \<not> IsStorableItem s itemEntry
          then (s, player, Inl ''Only furniture and pets go in there.'')
          else if pl_bags player itemEntry = 0
          then (s, player, Inl ''You are not carrying that.'')
          else
            let accountId = pl_account player;
                s1 = open_shelf accountId s;
                shelf = nm_row (m_storage s1) accountId;
                square = (if slot = 0 then next_free shelf 1 else slot)
            in if slot > HOUSE_STORAGE_MAX
               then (s1, player, Inl ''There is no such square.'')
               else if slot = 0 \<and> square > HOUSE_STORAGE_MAX
               then (s1, player, Inl ''Your furniture storage cannot hold any more.'')
               else if slot \<noteq> 0 \<and> sm_has shelf slot
               then (s1, player, Inl ''There is already something in that square.'')
               else
                 (put_square accountId square itemEntry s1,
                  player\<lparr>pl_bags := (pl_bags player)(itemEntry := pl_bags player itemEntry - 1)\<rparr>,
                  Inr ()))"

text \<open>The inner loop of \<open>StorageDepositAll\<close>: \<open>have\<close> copies of one entry; the flag is \<open>full\<close>.\<close>

fun deposit_copies ::
  "server \<Rightarrow> u32 \<Rightarrow> nat \<Rightarrow> HouseMgr \<times> player \<times> u32 \<Rightarrow> HouseMgr \<times> player \<times> u32 \<times> bool" where
  "deposit_copies sv entry 0 (s, player, moved) = (s, player, moved, False)"
| "deposit_copies sv entry (Suc have) (s, player, moved) =
     (case StorageDeposit sv s player entry 0 of
        (s', player', Inl _) \<Rightarrow> (s', player', moved, True)
      | (s', player', Inr _) \<Rightarrow> deposit_copies sv entry have (s', player', moved + 1))"

fun deposit_entries ::
  "server \<Rightarrow> u32 list \<Rightarrow> HouseMgr \<times> player \<times> u32 \<Rightarrow> HouseMgr \<times> player \<times> u32 \<times> bool" where
  "deposit_entries sv [] (s, player, moved) = (s, player, moved, False)"
| "deposit_entries sv (entry # entries) (s, player, moved) =
     (case deposit_copies sv entry (pl_bags player entry) (s, player, moved) of
        (s', player', moved', True) \<Rightarrow> (s', player', moved', True)
      | (s', player', moved', False) \<Rightarrow> deposit_entries sv entries (s', player', moved'))"

definition storable_entries :: "HouseMgr \<Rightarrow> u32 list" where
  "storable_entries s = sm_keys (m_furnitureItems s) @ sm_keys (m_critterItems s)"

definition StorageDepositAll ::
  "server \<Rightarrow> HouseMgr \<Rightarrow> player \<Rightarrow> HouseMgr \<times> player \<times> u32 res" where
  "StorageDepositAll sv s player =
     (case StorageAllowed sv s (Some player) of
        Inl e \<Rightarrow> (s, player, Inl e)
      | Inr _ \<Rightarrow>
          (case deposit_entries sv (storable_entries s) (s, player, 0) of
             (s', player', moved, full) \<Rightarrow>
               if moved = 0
               then (s', player',
                     Inl (if full then ''Your furniture storage is full.''
                          else ''You are not carrying anything that goes in there.''))
               else (s', player', Inr moved)))"

definition StorageWithdraw ::
  "server \<Rightarrow> HouseMgr \<Rightarrow> player \<Rightarrow> u32 \<Rightarrow> HouseMgr \<times> player \<times> unit res" where
  "StorageWithdraw sv s player slot =
     (case StorageAllowed sv s (Some player) of
        Inl e \<Rightarrow> (s, player, Inl e)
      | Inr _ \<Rightarrow>
          (case sm_find (m_storage s) (pl_account player) of
             None \<Rightarrow> (s, player, Inl ''There is nothing in your storage.'')
           | Some shelf \<Rightarrow>
               (case sm_find shelf slot of
                  None \<Rightarrow> (s, player, Inl ''That square is empty.'')
                | Some itemEntry \<Rightarrow>
                    if \<not> sv_canStore sv player itemEntry
                    then (s, player, Inl ''Your bags are full.'')
                    else if \<not> sv_store sv player itemEntry
                    then (s, player, Inl ''Could not put that in your bags.'')
                    else
                      (pexec (sql_delete_storage (pl_account player) slot)
                         (s\<lparr>m_storage := nm_del (pl_account player, slot) (m_storage s)\<rparr>),
                       player\<lparr>pl_bags := (pl_bags player)(itemEntry := pl_bags player itemEntry + 1)\<rparr>,
                       Inr ()))))"

definition StorageMove ::
  "server \<Rightarrow> HouseMgr \<Rightarrow> player \<Rightarrow> u32 \<Rightarrow> u32 \<Rightarrow> HouseMgr \<times> unit res" where
  "StorageMove sv s player from to =
     (case StorageAllowed sv s (Some player) of
        Inl e \<Rightarrow> (s, Inl e)
      | Inr _ \<Rightarrow>
          if from = 0 \<or> from > HOUSE_STORAGE_MAX \<or> to = 0 \<or> to > HOUSE_STORAGE_MAX
          then (s, Inl ''There is no such square.'')
          else if from = to then (s, Inr ())
          else
            let a = pl_account player
            in case sm_find (m_storage s) a of
                 None \<Rightarrow> (s, Inl ''There is nothing in your storage.'')
               | Some shelf \<Rightarrow>
                   (case sm_find shelf from of
                      None \<Rightarrow> (s, Inl ''That square is empty.'')
                    | Some moving \<Rightarrow>
                        (case sm_find shelf to of
                           Some displaced \<Rightarrow>
                             (pexec (sql_replace_storage a from displaced)
                               (pexec (sql_replace_storage a to moving)
                                 (pexec (sql_delete_storage a to)
                                   (pexec (sql_delete_storage a from)
                                     (s\<lparr>m_storage := nm_set (a, to) moving
                                          (nm_set (a, from) displaced (m_storage s))\<rparr>)))),
                              Inr ())
                         | None \<Rightarrow>
                             (pexec (sql_replace_storage a to moving)
                               (pexec (sql_delete_storage a to)
                                 (pexec (sql_delete_storage a from)
                                   (s\<lparr>m_storage := nm_set (a, to) moving
                                        (nm_del (a, from) (m_storage s))\<rparr>))),
                              Inr ()))))"

subsection \<open>Packing a house up\<close>

text \<open>
  The forecast \<open>CountStowable\<close> and the rescue \<open>StowHouseFurniture\<close> each have one loop over the
  objects and one over the critters with the same body; the body is \<open>count_crate\<close> and \<open>stow_crate\<close>,
  and what a row puts in them is its item entry.
\<close>

definition crate_of_object :: "HouseMgr \<Rightarrow> u32 \<Rightarrow> u32 option" where
  "crate_of_object s guid =
     (case sm_find (m_objects s) guid of
        None \<Rightarrow> None
      | Some ob \<Rightarrow> if IsHouseFabric ob then None else Some (o_itemEntry ob))"

definition crate_of_critter :: "HouseMgr \<Rightarrow> u32 \<Rightarrow> u32 option" where
  "crate_of_critter s guid =
     (case sm_find (m_critters s) guid of None \<Rightarrow> None | Some c \<Rightarrow> Some (c_itemEntry c))"

fun count_crate :: "u32 option \<Rightarrow> u32 \<times> u32 \<times> u32 \<times> u32 \<Rightarrow> u32 \<times> u32 \<times> u32 \<times> u32" where
  "count_crate None acc = acc"
| "count_crate (Some itemEntry) (free, savable, noRoom, noItem) =
     (if itemEntry = 0 then (free, savable, noRoom, noItem + 1)
      else if free \<noteq> 0 then (free - 1, savable + 1, noRoom, noItem)
      else (free, savable, noRoom + 1, noItem))"

definition CountStowable :: "HouseMgr \<Rightarrow> House \<Rightarrow> u32 \<times> u32 \<times> u32" where
  "CountStowable s house =
     (let used = length (nm_row (m_storage s) (h_accountId house));
          free = (if used \<ge> unat HOUSE_STORAGE_MAX then 0 else HOUSE_STORAGE_MAX - of_nat used);
          acc = fold (\<lambda>guid. count_crate (crate_of_object s guid)) (h_objects house) (free, 0, 0, 0)
      in snd (fold (\<lambda>guid. count_crate (crate_of_critter s guid)) (h_critters house) acc))"

definition StowForecast :: "HouseMgr \<Rightarrow> House \<Rightarrow> string" where
  "StowForecast s house =
     (case CountStowable s house of (savable, noRoom, noItem) \<Rightarrow>
        if savable = 0 \<and> noRoom = 0 \<and> noItem = 0 then []
        else
          (if savable \<noteq> 0
           then to_string savable @ (if savable = 1 then '' piece goes'' else '' pieces go'')
                @ '' to your furniture storage''
           else ''Nothing can go to your furniture storage'')
          @ (if noRoom \<noteq> 0
             then ''; '' @ to_string noRoom @ '' will not fit and ''
                  @ (if noRoom = 1 then ''is'' else ''are'') @ '' lost''
             else [])
          @ (if noItem \<noteq> 0
             then ''; '' @ to_string noItem
                  @ '' came from the catalogue rather than a crate and cannot be packed''
             else [])
          @ ''.'')"

fun stow_crate ::
  "u32 \<Rightarrow> u32 option \<Rightarrow> HouseMgr \<times> u32 \<times> u32 \<times> u32 \<Rightarrow> HouseMgr \<times> u32 \<times> u32 \<times> u32" where
  "stow_crate accountId None acc = acc"
| "stow_crate accountId (Some itemEntry) (s, next, stowed, lost) =
     (if itemEntry = 0 then (s, next, stowed, lost + 1)
      else
        let square = next_free (nm_row (m_storage s) accountId) next
        in if square > HOUSE_STORAGE_MAX then (s, square, stowed, lost + 1)
           else (put_square accountId square itemEntry s, square + 1, stowed + 1, lost))"

definition StowHouseFurniture :: "HouseMgr \<Rightarrow> House \<Rightarrow> HouseMgr \<times> u32 \<times> u32" where
  "StowHouseFurniture s house =
     (let a = h_accountId house;
          acc = fold (\<lambda>guid. stow_crate a (crate_of_object s guid)) (h_objects house)
                     (open_shelf a s, 1, 0, 0)
      in case fold (\<lambda>guid. stow_crate a (crate_of_critter s guid)) (h_critters house) acc of
           (s', _, stowed, lost) \<Rightarrow> (s', stowed, lost))"

definition ReportStowResult :: "player option \<Rightarrow> u32 \<Rightarrow> u32 \<Rightarrow> HouseMgr \<Rightarrow> HouseMgr" where
  "ReportStowResult pl stowed lost s =
     (case pl of
        None \<Rightarrow> s
      | Some p \<Rightarrow>
          if stowed = 0 \<and> lost = 0 then s
          else if stowed \<noteq> 0 \<and> lost \<noteq> 0
          then say p (to_string stowed @ '' pieces went to your furniture storage; ''
                      @ to_string lost @ '' could not be saved.'') s
          else if stowed \<noteq> 0
          then say p (to_string stowed @ '' pieces went to your furniture storage.'') s
          else say p (to_string lost @ '' pieces could not be saved.'') s)"


subsection \<open>The walk to a free square\<close>

lemma next_free_step:
  "slot \<le> HOUSE_STORAGE_MAX \<Longrightarrow> sm_has shelf slot \<Longrightarrow>
   next_free shelf slot = next_free shelf (slot + 1)"
  by (subst next_free.simps) simp

lemma next_free_stop:
  "\<not> (slot \<le> HOUSE_STORAGE_MAX \<and> sm_has shelf slot) \<Longrightarrow> next_free shelf slot = slot"
  by (subst next_free.simps) (simp only: if_False)

lemma next_free_ge: "n \<le> next_free shelf n"
proof (induction shelf n rule: next_free.induct)
  case (1 shelf slot)
  show ?case
  proof (cases "slot \<le> HOUSE_STORAGE_MAX \<and> sm_has shelf slot")
    case True
    then have "slot + 1 \<le> next_free shelf (slot + 1)" using "1.IH" by blast
    moreover have "slot \<le> slot + 1"
      using True unat_succ_below(1) [of slot] by (simp add: word_le_nat_alt)
    ultimately show ?thesis
      using True next_free_step by (metis order_trans)
  next
    case False
    then have "next_free shelf slot = slot" by (rule next_free_stop)
    then show ?thesis by simp
  qed
qed

lemma next_free_vacant: "next_free shelf n \<le> HOUSE_STORAGE_MAX \<Longrightarrow> \<not> sm_has shelf (next_free shelf n)"
proof (induction shelf n rule: next_free.induct)
  case (1 shelf slot)
  then show ?case
    by (subst (asm) (2) next_free.simps, subst next_free.simps) (auto split: if_splits)
qed

lemma next_free_least: "n \<le> k \<Longrightarrow> k < next_free shelf n \<Longrightarrow> sm_has shelf k \<and> k \<le> HOUSE_STORAGE_MAX"
proof (induction shelf n rule: next_free.induct)
  case (1 shelf slot)
  show ?case
  proof (cases "slot \<le> HOUSE_STORAGE_MAX \<and> sm_has shelf slot")
    case True
    then have step: "next_free shelf slot = next_free shelf (slot + 1)"
      using next_free_step by blast
    show ?thesis
    proof (cases "k = slot")
      case False
      with 1(2) True have "slot + 1 \<le> k"
        using unat_succ_below(1) [of slot] by (simp add: word_le_nat_alt word_less_nat_alt
            word_unat_eq_iff)
      with 1 True step show ?thesis by simp
    qed (use True in simp)
  next
    case False
    then have "next_free shelf slot = slot" by (rule next_free_stop)
    with 1(2,3) show ?thesis by simp
  qed
qed

subsection \<open>Invariant of the shelves\<close>

text \<open>
  \<open>storage_inv\<close>: every shelf lists its squares in order, within 1 to the backstop; the table has one
  row per square and agrees with memory on every square of every account.
\<close>

definition shelf_ok :: "(u32, u32) smap \<Rightarrow> bool" where
  "shelf_ok shelf \<longleftrightarrow>
     sm_ok shelf \<and> list_all (\<lambda>r. fst r \<noteq> 0 \<and> fst r \<le> HOUSE_STORAGE_MAX) shelf"

definition storage_inv :: "HouseMgr \<Rightarrow> bool" where
  "storage_inv s \<longleftrightarrow>
     (\<forall>a. shelf_ok (nm_row (m_storage s) a))
     \<and> nm_at (m_storage s) = map_of (tb_storage (m_db s))"

lemma shelf_ok_has: "shelf_ok shelf \<Longrightarrow> sm_has shelf k \<Longrightarrow> k \<noteq> 0 \<and> k \<le> HOUSE_STORAGE_MAX"
  by (auto simp: shelf_ok_def sm_has_def list_all_iff dest!: map_of_SomeD)

lemma shelf_ok_iff:
  "shelf_ok shelf \<longleftrightarrow> sm_ok shelf \<and> (\<forall>k. sm_has shelf k \<longrightarrow> k \<noteq> 0 \<and> k \<le> HOUSE_STORAGE_MAX)"
proof
  assume ok: "sm_ok shelf \<and> (\<forall>k. sm_has shelf k \<longrightarrow> k \<noteq> 0 \<and> k \<le> HOUSE_STORAGE_MAX)"
  have "sm_has shelf (fst r)" if "r \<in> set shelf" for r
    using that unfolding sm_has_keys sm_keys_def by simp
  with ok show "shelf_ok shelf" unfolding shelf_ok_def list_all_iff by blast
next
  assume ok: "shelf_ok shelf"
  then have "sm_ok shelf" by (simp add: shelf_ok_def)
  with ok shelf_ok_has show
    "sm_ok shelf \<and> (\<forall>k. sm_has shelf k \<longrightarrow> k \<noteq> 0 \<and> k \<le> HOUSE_STORAGE_MAX)" by blast
qed

lemma shelf_ok_put:
  "shelf_ok shelf \<Longrightarrow> k \<noteq> 0 \<Longrightarrow> k \<le> HOUSE_STORAGE_MAX \<Longrightarrow> shelf_ok (sm_put k v shelf)"
  by (auto simp: shelf_ok_iff)

lemma shelf_ok_erase: "shelf_ok shelf \<Longrightarrow> shelf_ok (sm_erase k shelf)"
  by (auto simp: shelf_ok_iff)

lemma nm_row_open [simp]: "nm_row (m_storage (open_shelf a s)) b = nm_row (m_storage s) b"
  by (simp add: open_shelf_def)

lemma open_shelf_db [simp]: "m_db (open_shelf a s) = m_db s"
  by (simp add: open_shelf_def)

lemma nm_at_open [simp]: "nm_at (m_storage (open_shelf a s)) = nm_at (m_storage s)"
  by (rule ext) (simp add: nm_at_def)

lemma storage_inv_open: "storage_inv s \<Longrightarrow> storage_inv (open_shelf a s)"
  by (simp add: storage_inv_def)

lemma put_square_storage [simp]:
  "m_storage (put_square a k i s) = nm_set (a, k) i (m_storage s)"
  "tb_storage (m_db (put_square a k i s)) = tab_put (a, k) i (tb_storage (m_db s))"
  by (simp_all add: put_square_def pexec_def sql_replace_storage_def)

lemma storage_inv_put:
  assumes "storage_inv s" and "k \<noteq> 0" and "k \<le> HOUSE_STORAGE_MAX"
  shows "storage_inv (put_square a k i s)"
  using assms nested_mirror.agree_store [of "m_storage s" "tb_storage (m_db s)" "(a, k)" i]
  by (auto simp: storage_inv_def shelf_ok_put)

lemma storage_inv_take:
  assumes "storage_inv s"
  shows "storage_inv (pexec (sql_delete_storage a k) (s\<lparr>m_storage := nm_del (a, k) (m_storage s)\<rparr>))"
  using assms nested_mirror.agree_drop [of "m_storage s" "tb_storage (m_db s)" "(a, k)"]
  by (auto simp: storage_inv_def shelf_ok_erase pexec_def sql_delete_storage_def)

lemma next_free_pos: "next_free shelf 1 \<noteq> 0"
  using next_free_ge [of 1 shelf] by (auto simp: word_le_nat_alt)

text \<open>What a deposit does, success or not, in terms of the shelf.\<close>

lemma StorageDeposit_cases:
  obtains (refused) e s1 where "StorageDeposit sv s p i slot = (s1, p, Inl e)"
      and "s1 = s \<or> s1 = open_shelf (pl_account p) s"
  | (accepted) square where "StorageDeposit sv s p i slot =
       (put_square (pl_account p) square i (open_shelf (pl_account p) s),
        p\<lparr>pl_bags := (pl_bags p)(i := pl_bags p i - 1)\<rparr>, Inr ())"
      and "StorageAllowed sv s (Some p) = Inr ()" and "IsStorableItem s i"
      and "pl_bags p i \<noteq> 0"
      and "square = (if slot = 0 then next_free (nm_row (m_storage s) (pl_account p)) 1 else slot)"
      and "square \<noteq> 0" and "square \<le> HOUSE_STORAGE_MAX"
      and "\<not> sm_has (nm_row (m_storage s) (pl_account p)) square"
proof (cases "StorageAllowed sv s (Some p)")
  case (Inl e)
  then show ?thesis by (intro refused [of s e]) (simp_all add: StorageDeposit_def)
next
  case (Inr u)
  let ?shelf = "nm_row (m_storage s) (pl_account p)"
  let ?sq = "if slot = 0 then next_free ?shelf 1 else slot"
  consider "\<not> IsStorableItem s i" | "IsStorableItem s i" "pl_bags p i = 0"
    | "IsStorableItem s i" "pl_bags p i \<noteq> 0" "?sq > HOUSE_STORAGE_MAX \<or> slot \<noteq> 0 \<and> sm_has ?shelf slot"
    | "IsStorableItem s i" "pl_bags p i \<noteq> 0" "?sq \<le> HOUSE_STORAGE_MAX" "\<not> (slot \<noteq> 0 \<and> sm_has ?shelf slot)"
    by fastforce
  then show ?thesis
  proof cases
    case 1
    then show ?thesis using Inr by (intro refused [of s]) (auto simp: StorageDeposit_def)
  next
    case 2
    then show ?thesis using Inr by (intro refused [of s]) (auto simp: StorageDeposit_def)
  next
    case 3
    have "\<exists>e. StorageDeposit sv s p i slot = (open_shelf (pl_account p) s, p, Inl e)"
      using 3 Inr by (auto simp: StorageDeposit_def Let_def split: if_splits)
    then show ?thesis using refused by blast
  next
    case 4
    define sq where "sq = ?sq"
    have vac: "\<not> sm_has ?shelf sq"
      using 4(3,4) next_free_vacant [of ?shelf 1] by (simp add: sq_def split: if_splits)
    have ns: "\<not> slot > HOUSE_STORAGE_MAX"
      using 4(3) by (cases "slot = 0") auto
    have eq: "StorageDeposit sv s p i slot =
       (put_square (pl_account p) sq i (open_shelf (pl_account p) s),
        p\<lparr>pl_bags := (pl_bags p)(i := pl_bags p i - 1)\<rparr>, Inr ())"
      using 4(1,2) Inr ns 4(3,4)
      by (cases "slot = 0") (simp_all add: StorageDeposit_def Let_def sq_def not_less)
    have nz: "sq \<noteq> 0" using next_free_pos by (simp add: sq_def)
    have al: "StorageAllowed sv s (Some p) = Inr ()" using Inr by simp
    have le: "sq \<le> HOUSE_STORAGE_MAX" using 4(3) by (simp add: sq_def)
    show ?thesis
      by (rule accepted [OF eq al 4(1,2) sq_def nz le vac])
  qed
qed

lemma StorageDeposit_inv: "storage_inv s \<Longrightarrow> storage_inv (fst (StorageDeposit sv s p i slot))"
  by (cases rule: StorageDeposit_cases [of sv s p i slot])
     (auto intro: storage_inv_put storage_inv_open)


lemma deposit_copies_inv:
  "storage_inv s \<Longrightarrow> storage_inv (fst (deposit_copies sv i n (s, p, c)))"
proof (induction n arbitrary: s p c)
  case (Suc n)
  obtain s1 p1 r where d: "StorageDeposit sv s p i 0 = (s1, p1, r)" by (metis prod_cases3)
  have "storage_inv s1" using StorageDeposit_inv [OF Suc.prems, of sv p i 0] d by simp
  then show ?case using Suc.IH d by (cases r) auto
qed simp

lemma deposit_entries_inv:
  "storage_inv s \<Longrightarrow> storage_inv (fst (deposit_entries sv es (s, p, c)))"
proof (induction es arbitrary: s p c)
  case (Cons i es)
  obtain s1 p1 c1 full where d: "deposit_copies sv i (pl_bags p i) (s, p, c) = (s1, p1, c1, full)"
    by (metis prod_cases4)
  have "storage_inv s1" using deposit_copies_inv [OF Cons.prems, of sv i "pl_bags p i" p c] d by simp
  then show ?case using Cons.IH d by (cases full) auto
qed simp

lemma StorageDepositAll_inv: "storage_inv s \<Longrightarrow> storage_inv (fst (StorageDepositAll sv s p))"
  using deposit_entries_inv [of s sv "storable_entries s" p 0]
  by (auto simp: StorageDepositAll_def split: sum.splits prod.splits)

lemma StorageWithdraw_cases:
  obtains (refused) e where "StorageWithdraw sv s p k = (s, p, Inl e)"
  | (accepted) i where "StorageWithdraw sv s p k =
       (pexec (sql_delete_storage (pl_account p) k)
          (s\<lparr>m_storage := nm_del (pl_account p, k) (m_storage s)\<rparr>),
        p\<lparr>pl_bags := (pl_bags p)(i := pl_bags p i + 1)\<rparr>, Inr ())"
      and "nm_at (m_storage s) (pl_account p, k) = Some i"
      and "sv_canStore sv p i" and "StorageAllowed sv s (Some p) = Inr ()"
proof (cases "\<exists>e. StorageWithdraw sv s p k = (s, p, Inl e)")
  case True
  then show ?thesis using refused by blast
next
  case False
  then show ?thesis
    by (intro accepted [of "the (nm_at (m_storage s) (pl_account p, k))"])
       (auto simp: StorageWithdraw_def nm_at_def nm_row_def split: sum.splits option.splits if_splits)
qed

lemma StorageWithdraw_inv: "storage_inv s \<Longrightarrow> storage_inv (fst (StorageWithdraw sv s p k))"
  by (cases rule: StorageWithdraw_cases [of sv s p k]) (auto intro: storage_inv_take)

text \<open>What a move does to the squares: the crate at \<open>from\<close> and what stood at \<open>to\<close> change places.\<close>

definition swap_squares :: "'k \<Rightarrow> 'k \<Rightarrow> ('k \<Rightarrow> 'v option) \<Rightarrow> 'k \<Rightarrow> 'v option" where
  "swap_squares j k m = m(j := m k, k := m j)"

lemma StorageMove_cases:
  obtains (refused) e where "StorageMove sv s p from to = (s, Inl e)"
  | (same) "StorageMove sv s p from to = (s, Inr ())" and "from = to"
  | (swapped) i j s' where "StorageMove sv s p from to = (s', Inr ())" and "from \<noteq> to"
      and "from \<noteq> 0" and "from \<le> HOUSE_STORAGE_MAX" and "to \<noteq> 0" and "to \<le> HOUSE_STORAGE_MAX"
      and "nm_at (m_storage s) (pl_account p, from) = Some i"
      and "nm_at (m_storage s) (pl_account p, to) = Some j"
      and "m_storage s' = nm_set (pl_account p, to) i (nm_set (pl_account p, from) j (m_storage s))"
      and "tb_storage (m_db s') = tab_put (pl_account p, from) j (tab_put (pl_account p, to) i
             (tab_del (pl_account p, to) (tab_del (pl_account p, from) (tb_storage (m_db s)))))"
  | (moved) i s' where "StorageMove sv s p from to = (s', Inr ())" and "from \<noteq> to"
      and "from \<noteq> 0" and "from \<le> HOUSE_STORAGE_MAX" and "to \<noteq> 0" and "to \<le> HOUSE_STORAGE_MAX"
      and "nm_at (m_storage s) (pl_account p, from) = Some i"
      and "nm_at (m_storage s) (pl_account p, to) = None"
      and "m_storage s' = nm_set (pl_account p, to) i (nm_del (pl_account p, from) (m_storage s))"
      and "tb_storage (m_db s') = tab_put (pl_account p, to) i
             (tab_del (pl_account p, to) (tab_del (pl_account p, from) (tb_storage (m_db s))))"
proof (cases "\<exists>e. StorageMove sv s p from to = (s, Inl e)")
  case True
  then show ?thesis using refused by blast
next
  case False
  then obtain u where ok: "StorageAllowed sv s (Some p) = Inr u"
    by (cases "StorageAllowed sv s (Some p)") (auto simp: StorageMove_def)
  have rng: "from \<noteq> 0" "from \<le> HOUSE_STORAGE_MAX" "to \<noteq> 0" "to \<le> HOUSE_STORAGE_MAX"
    using False ok by (auto simp: StorageMove_def split: if_splits)
  then have big: "\<not> HOUSE_STORAGE_MAX < from" "\<not> HOUSE_STORAGE_MAX < to" by simp_all
  show ?thesis
  proof (cases "from = to")
    case True
    then show ?thesis using ok rng by (intro same) (auto simp: StorageMove_def)
  next
    case ne: False
    obtain shelf i where sh: "sm_find (m_storage s) (pl_account p) = Some shelf" "sm_find shelf from = Some i"
      using False ok ne rng by (auto simp: StorageMove_def Let_def split: if_splits option.splits)
    show ?thesis
    proof (cases "sm_find shelf to")
      case None
      then show ?thesis
        using ok ne rng big sh
        by (intro moved [of "fst (StorageMove sv s p from to)" i])
           (simp_all add: StorageMove_def Let_def nm_at_def nm_row_def pexec_def
              sql_delete_storage_def sql_replace_storage_def)
    next
      case (Some j)
      then show ?thesis
        using ok ne rng big sh
        by (intro swapped [of "fst (StorageMove sv s p from to)" i j])
           (simp_all add: StorageMove_def Let_def nm_at_def nm_row_def pexec_def
              sql_delete_storage_def sql_replace_storage_def)
    qed
  qed
qed

lemma StorageMove_inv:
  assumes "storage_inv s"
  shows "storage_inv (fst (StorageMove sv s p from to))"
proof (cases rule: StorageMove_cases [of sv s p "from" to])
  case (swapped i j s')
  have "nm_at (m_storage s') = map_of (tb_storage (m_db s'))"
    unfolding swapped
    by (rule nested_mirror.agree_swap) (use assms swapped in \<open>auto simp: storage_inv_def\<close>)
  then show ?thesis
    using assms swapped by (auto simp: storage_inv_def shelf_ok_put)
next
  case (moved i s')
  have "nm_at (m_storage s') = map_of (tb_storage (m_db s'))"
    unfolding moved
    by (rule nested_mirror.agree_move) (use assms in \<open>simp add: storage_inv_def\<close>)
  then show ?thesis
    using assms moved by (auto simp: storage_inv_def shelf_ok_put shelf_ok_erase)
qed (use assms in auto)

lemma stow_crate_inv:
  "storage_inv s \<Longrightarrow> n \<noteq> 0 \<Longrightarrow> stow_crate a ci (s, n, c, l) = (s', n', c', l') \<Longrightarrow>
   storage_inv s' \<and> n' \<noteq> 0"
proof (cases ci)
  case (Some i)
  assume inv: "storage_inv s" and n: "n \<noteq> 0" and st: "stow_crate a ci (s, n, c, l) = (s', n', c', l')"
  let ?sq = "next_free (nm_row (m_storage s) a) n"
  have sq: "?sq \<noteq> 0"
    using n next_free_ge [of n "nm_row (m_storage s) a"] by auto
  show ?thesis
  proof (cases "i = 0 \<or> ?sq > HOUSE_STORAGE_MAX")
    case True
    then have "s' = s \<and> (n' = n \<or> n' = ?sq)" using st Some by (auto simp: Let_def split: if_splits)
    then show ?thesis using inv n sq by auto
  next
    case False
    then have le: "?sq \<le> HOUSE_STORAGE_MAX" by (simp add: not_less)
    then have "?sq + 1 \<noteq> 0"
      using unat_succ_below(1) [of ?sq] by (metis add_is_0 one_neq_zero unat_0)
    then show ?thesis using False inv st sq le Some storage_inv_put by (auto simp: Let_def)
  qed
qed auto

lemma stow_fold_inv:
  "storage_inv s \<Longrightarrow> n \<noteq> 0 \<Longrightarrow>
   fold (\<lambda>g. stow_crate a (f g)) gs (s, n, c, l) = (s', n', c', l') \<Longrightarrow> storage_inv s' \<and> n' \<noteq> 0"
proof (induction gs arbitrary: s n c l)
  case (Cons g gs)
  obtain s1 n1 c1 l1 where st: "stow_crate a (f g) (s, n, c, l) = (s1, n1, c1, l1)"
    by (metis prod_cases4)
  have "storage_inv s1" and "n1 \<noteq> 0"
    using stow_crate_inv [OF Cons.prems(1,2) st] by simp_all
  then show ?case
    using Cons.IH [of s1 n1 c1 l1] Cons.prems(3) st by simp
qed simp

lemma StowHouseFurniture_inv:
  assumes "storage_inv s"
  shows "storage_inv (fst (StowHouseFurniture s house))"
proof -
  let ?a = "h_accountId house"
  obtain s1 n1 c1 l1 where f: "fold (\<lambda>g. stow_crate ?a (crate_of_object s g)) (h_objects house)
      (open_shelf ?a s, 1, 0, 0) = (s1, n1, c1, l1)"
    by (metis prod_cases4)
  obtain s2 n2 c2 l2 where g: "fold (\<lambda>g. stow_crate ?a (crate_of_critter s g)) (h_critters house)
      (s1, n1, c1, l1) = (s2, n2, c2, l2)"
    by (metis prod_cases4)
  from stow_fold_inv [OF storage_inv_open [OF assms] _ f] have "storage_inv s1 \<and> n1 \<noteq> 0" by simp
  with stow_fold_inv [OF _ _ g] have "storage_inv s2" by blast
  with f g show ?thesis by (simp add: StowHouseFurniture_def Let_def)
qed


subsection \<open>The forecast and the rescue take the same steps\<close>

definition vacant :: "(u32, u32) smap \<Rightarrow> u32 \<Rightarrow> u32 set" where
  "vacant shelf n = {k. n \<le> k \<and> k \<le> HOUSE_STORAGE_MAX \<and> \<not> sm_has shelf k}"

lemma vacant_next_free: "vacant shelf (next_free shelf n) = vacant shelf n"
  unfolding vacant_def
  using next_free_ge [of n shelf] next_free_least [of n _ shelf]
  by (metis (no_types, lifting) linorder_not_le order_trans)

lemma vacant_past: "n > HOUSE_STORAGE_MAX \<Longrightarrow> vacant shelf n = {}"
  by (auto simp: vacant_def)

lemma card_vacant_put:
  assumes "sq \<le> HOUSE_STORAGE_MAX" and "\<not> sm_has shelf sq"
  shows "card (vacant shelf sq) = Suc (card (vacant (sm_put sq i shelf) (sq + 1)))"
proof -
  have succ: "sq + 1 \<le> k \<longleftrightarrow> sq < k" for k
    using unat_succ_below(1) [OF assms(1)] by (simp add: word_le_nat_alt word_less_nat_alt Suc_le_eq)
  have "vacant shelf sq = insert sq (vacant (sm_put sq i shelf) (sq + 1))"
    unfolding vacant_def succ using assms by auto
  moreover have "sq \<notin> vacant (sm_put sq i shelf) (sq + 1)"
    by (simp add: vacant_def)
  ultimately show ?thesis by simp
qed

lemma card_vacant_all:
  assumes "shelf_ok shelf"
  shows "card (vacant shelf 1) + length shelf = 1000"
proof -
  let ?sq = "{k :: u32. 1 \<le> k \<and> k \<le> HOUSE_STORAGE_MAX}"
  have img: "unat ` ?sq = {1..1000}"
  proof (intro set_eqI iffI)
    fix n
    assume "n \<in> {1..1000::nat}"
    then have n: "1 \<le> n" "n \<le> 1000" by simp_all
    then have "n < 2 ^ 32" by simp
    then have un: "unat (of_nat n :: u32) = n" unfolding unat_of_nat by simp
    have "unat (1 :: u32) \<le> unat (of_nat n :: u32)" "unat (of_nat n :: u32) \<le> unat HOUSE_STORAGE_MAX"
      unfolding un HOUSE_STORAGE_MAX_def using n by simp_all
    then have "of_nat n \<in> ?sq"
      unfolding word_le_nat_alt mem_Collect_eq by blast
    then have "unat (of_nat n :: u32) \<in> unat ` ?sq" by (rule imageI)
    then show "n \<in> unat ` ?sq" unfolding un .
  next
    fix n
    assume "n \<in> unat ` ?sq"
    then show "n \<in> {1..1000}" by (force simp: HOUSE_STORAGE_MAX_def word_le_nat_alt)
  qed
  have "inj_on unat ?sq"
    by (rule inj_onI) (simp only: word_unat_eq_iff)
  then have "card ?sq = 1000"
    using card_image [of unat ?sq] img by simp
  moreover have "sm_ok shelf" using assms by (simp add: shelf_ok_def)
  then have "card (set (sm_keys shelf)) = length shelf"
    using distinct_card [OF sm_ok_distinct] by (simp add: sm_keys_def)
  moreover have "1 \<le> k" if "k \<noteq> 0" for k :: u32
    using that by (simp add: word_le_nat_alt Suc_le_eq unat_gt_0)
  then have sub: "set (sm_keys shelf) \<subseteq> ?sq"
    using shelf_ok_has [OF assms] unfolding sm_has_keys by blast
  moreover have "vacant shelf 1 = ?sq - set (sm_keys shelf)"
    unfolding vacant_def sm_has_keys by blast
  then have "card (vacant shelf 1) = card ?sq - card (set (sm_keys shelf))"
    using card_Diff_subset [OF _ sub] by simp
  moreover have "card (set (sm_keys shelf)) \<le> card ?sq"
    by (rule card_mono [OF _ sub]) simp
  ultimately show ?thesis by linarith
qed

text \<open>The two loops in step: the free squares left are the vacant ones from \<open>next\<close> on.\<close>

fun in_step ::
  "u32 \<Rightarrow> u32 \<times> u32 \<times> u32 \<times> u32 \<Rightarrow> HouseMgr \<times> u32 \<times> u32 \<times> u32 \<Rightarrow> bool" where
  "in_step a (free, savable, noRoom, noItem) (s, n, stowed, lost) \<longleftrightarrow>
     unat free = card (vacant (nm_row (m_storage s) a) n)
     \<and> stowed = savable \<and> lost = noRoom + noItem"

lemma in_step_crate:
  assumes "in_step a (free, sv, nr, ni) (s, n, st, l)"
  shows "in_step a (count_crate ci (free, sv, nr, ni)) (stow_crate a ci (s, n, st, l))"
proof (cases ci)
  case (Some i)
  let ?shelf = "nm_row (m_storage s) a"
  let ?sq = "next_free ?shelf n"
  have free: "unat free = card (vacant ?shelf ?sq)"
    using assms by (simp add: vacant_next_free)
  show ?thesis
  proof (cases "i = 0")
    case False
    show ?thesis
    proof (cases "?sq > HOUSE_STORAGE_MAX")
      case True
      then have "free = 0" using free by (simp add: vacant_past unat_eq_0)
      then show ?thesis using assms False True Some by (simp add: vacant_next_free Let_def)
    next
      case le: False
      then have "?sq \<le> HOUSE_STORAGE_MAX" by (simp add: not_less)
      then have "unat free = Suc (card (vacant (sm_put ?sq i ?shelf) (?sq + 1)))"
        using free card_vacant_put [of ?sq ?shelf i] next_free_vacant [of ?shelf n] by simp
      moreover from this have "free \<noteq> 0" by auto
      moreover from this have "unat (free - 1) = unat free - 1" by (rule unat_minus_one)
      ultimately show ?thesis using assms False le Some by (simp add: Let_def)
    qed
  qed (use assms Some in simp)
qed (use assms in simp)

lemma in_step_fold:
  "in_step a x y \<Longrightarrow> in_step a (fold (\<lambda>g. count_crate (f g)) gs x) (fold (\<lambda>g. stow_crate a (f g)) gs y)"
proof (induction gs arbitrary: x y)
  case (Cons g gs)
  have "in_step a (count_crate (f g) x) (stow_crate a (f g) y)"
    using Cons.prems in_step_crate by (cases x; cases y) fastforce
  from Cons.IH [OF this] show ?case by simp
qed simp

text \<open>
  the confirm page tells the truth. What \<open>CountStowable\<close> forecasts is what
  \<open>StowHouseFurniture\<close> then does: as many crates are stowed as were forecast to go, and what is lost
  is exactly what had no room plus what never was a crate.
\<close>
theorem stow_forecast_exact:
  assumes "shelf_ok (nm_row (m_storage s) (h_accountId house))"
    and "CountStowable s house = (savable, noRoom, noItem)"
    and "StowHouseFurniture s house = (s', stowed, lost)"
  shows "stowed = savable \<and> lost = noRoom + noItem"
proof -
  let ?a = "h_accountId house"
  let ?shelf = "nm_row (m_storage s) ?a"
  define free where
    "free = (if length ?shelf \<ge> unat HOUSE_STORAGE_MAX then 0
             else HOUSE_STORAGE_MAX - of_nat (length ?shelf))"
  have "unat free = card (vacant ?shelf 1)"
  proof -
    have total: "card (vacant ?shelf 1) + length ?shelf = 1000"
      by (rule card_vacant_all [OF assms(1)])
    show ?thesis
    proof (cases "length ?shelf \<ge> 1000")
      case True
      with total have "card (vacant ?shelf 1) = 0" by linarith
      then show ?thesis using True by (simp add: free_def HOUSE_STORAGE_MAX_def)
    next
      case False
      then have "unat free = 1000 - length ?shelf"
        by (simp add: free_def HOUSE_STORAGE_MAX_def unat_sub_if' unat_of_nat)
      with total show ?thesis by linarith
    qed
  qed
  then have start: "in_step ?a (free, 0, 0, 0) (open_shelf ?a s, 1, 0, 0)" by simp
  obtain free' sv' nr' ni' where count: "fold (\<lambda>g. count_crate (crate_of_critter s g)) (h_critters house)
      (fold (\<lambda>g. count_crate (crate_of_object s g)) (h_objects house) (free, 0, 0, 0))
      = (free', sv', nr', ni')"
    by (metis prod_cases4)
  note end_ = in_step_fold [OF in_step_fold [OF start, of "crate_of_object s" "h_objects house"],
      of "crate_of_critter s" "h_critters house"]
  show ?thesis
    using end_ assms(2,3) count
    by (auto simp: CountStowable_def StowHouseFurniture_def Let_def free_def [symmetric]
        split: prod.splits)
qed

theorem stow_forecast_exact_witness:
  "snd (StowHouseFurniture furnished_mgr furnished_house) = (1, 0)"
proof -
  obtain s' stowed lost where st: "StowHouseFurniture furnished_mgr furnished_house = (s', stowed, lost)"
    by (metis prod_cases3)
  have "shelf_ok (nm_row (m_storage furnished_mgr) (h_accountId furnished_house))"
    by (simp add: furnished_mgr_def shelf_ok_def nm_row_def)
  moreover have "CountStowable furnished_mgr furnished_house = (1, 0, 0)"
    by (simp add: CountStowable_def furnished_mgr_def crate_of_object_def IsHouseFabric_def
        nm_row_def HOUSE_STORAGE_MAX_def)
  ultimately show ?thesis
    using stow_forecast_exact [OF _ _ st] st by auto
qed

subsection \<open>Properties of the shelf\<close>

text \<open>
  memory and table agree, square by square, after every storage operation, whatever it answers,
  and every shelf keeps its squares between 1 and the backstop.
\<close>
theorem storage_write_through:
  assumes "storage_inv s"
  shows "storage_inv (fst (StorageDeposit sv s p i k)) \<and> storage_inv (fst (StorageDepositAll sv s p))
       \<and> storage_inv (fst (StorageWithdraw sv s p k)) \<and> storage_inv (fst (StorageMove sv s p k k'))
       \<and> storage_inv (fst (StowHouseFurniture s house))"
  using assms
  by (simp add: StorageDeposit_inv StorageDepositAll_inv StorageWithdraw_inv StorageMove_inv
      StowHouseFurniture_inv)

lemma plain_storage_inv: "storage_inv plain_mgr"
  by (auto simp: storage_inv_def nm_row_def nm_at_def shelf_ok_def)

theorem storage_write_through_witness:
  "storage_inv (fst (StorageDeposit plain_server plain_mgr
                       (plain_player\<lparr>pl_bags := (\<lambda>_. 1)\<rparr>) 900 0))"
  using storage_write_through [OF plain_storage_inv, of plain_server
      "plain_player\<lparr>pl_bags := (\<lambda>_. 1)\<rparr>" 900 0 0 plain_house] by blast

lemma fold_load_storage:
  assumes "distinct (map fst t)" and "\<forall>r \<in> set t. snd (fst r) \<noteq> 0 \<and> snd (fst r) \<le> HOUSE_STORAGE_MAX"
  shows "nm_at (fold load_storage_row t m) k = (case map_of t k of None \<Rightarrow> nm_at m k | Some i \<Rightarrow> Some i)"
  using assms
proof (induction t arbitrary: m)
  case (Cons r t)
  obtain a j i where r: "r = ((a, j), i)" by (metis prod.collapse)
  have "nm_at (fold load_storage_row t (nm_set (a, j) i m)) k
        = (case map_of t k of None \<Rightarrow> nm_at (nm_set (a, j) i m) k | Some i \<Rightarrow> Some i)"
    using Cons by simp
  moreover have "(a, j) \<notin> fst ` set t" using Cons.prems r by simp
  then have "map_of t (a, j) = None" by (simp add: map_of_eq_None_iff)
  moreover have "load_storage_row r m = nm_set (a, j) i m"
    using Cons.prems r by (auto simp: load_storage_row_def)
  ultimately show ?case
    using r by (auto split: option.splits)
qed simp

text \<open>
  a restart loses nothing and invents nothing: \<open>LoadStorage\<close> on the tables the running server
  wrote gives back every square of every account as it stood in memory.
\<close>
theorem storage_survives_restart:
  assumes "storage_inv s" and "distinct (map fst (tb_storage (m_db s)))"
  shows "nm_at (m_storage (LoadStorage s)) = nm_at (m_storage s)"
proof -
  have "snd (fst r) \<noteq> 0 \<and> snd (fst r) \<le> HOUSE_STORAGE_MAX" if "r \<in> set (tb_storage (m_db s))" for r
  proof -
    obtain a j i where r: "r = ((a, j), i)" by (metis prod.collapse)
    with that assms have "nm_at (m_storage s) (a, j) = Some i"
      by (simp add: storage_inv_def)
    then have "sm_has (nm_row (m_storage s) a) j" by (simp add: nm_at_def sm_has_def)
    moreover have "shelf_ok (nm_row (m_storage s) a)" using assms by (simp add: storage_inv_def)
    ultimately show ?thesis using shelf_ok_has r by simp
  qed
  then show ?thesis
    using fold_load_storage [OF assms(2), of "[]"] assms(1)
    by (intro ext) (auto simp: LoadStorage_def storage_inv_def nm_at_def nm_row_def split: option.splits)
qed

theorem storage_survives_restart_witness:
  "nm_at (m_storage (LoadStorage (put_square 7 1 900 plain_mgr)))
   = nm_at (m_storage (put_square 7 1 900 plain_mgr))"
  by (rule storage_survives_restart, rule storage_inv_put [OF plain_storage_inv])
     (simp_all add: HOUSE_STORAGE_MAX_def tab_put_def)

definition shelf_count :: "(u32, u32) smap \<Rightarrow> u32 \<Rightarrow> nat" where
  "shelf_count shelf i = length (filter (\<lambda>r. snd r = i) shelf)"

lemma shelf_count_put:
  "\<not> sm_has shelf k \<Longrightarrow> shelf_count (sm_put k v shelf) i = shelf_count shelf i + (if v = i then 1 else 0)"
  by (induction shelf) (auto simp: shelf_count_def sm_has_def split: if_splits)

lemma shelf_count_erase:
  "sm_ok shelf \<Longrightarrow> sm_find shelf k = Some v \<Longrightarrow>
   shelf_count shelf i = shelf_count (sm_erase k shelf) i + (if v = i then 1 else 0)"
proof (induction shelf)
  case (Cons r shelf)
  have ok: "sm_ok shelf" using Cons.prems(1) by (simp add: sm_ok_def)
  show ?case
  proof (cases "fst r = k")
    case True
    then have "sm_find shelf k = None"
      using Cons.prems(1) by (auto simp: sm_ok_def map_of_eq_None_iff)
    then have "sm_erase k (r # shelf) = shelf"
      using True sm_erase_absent [of shelf k] by (simp add: sm_erase_def)
    with True Cons.prems(2) show ?thesis by (auto simp: shelf_count_def)
  next
    case False
    then show ?thesis using Cons.IH [OF ok] Cons.prems(2) by (auto simp: shelf_count_def sm_erase_def)
  qed
qed simp

text \<open>What an account owns of an item: the ones in the bags and the ones on its shelf.\<close>

definition crates_owned :: "HouseMgr \<Rightarrow> player \<Rightarrow> u32 \<Rightarrow> nat" where
  "crates_owned s p i = pl_bags p i + shelf_count (nm_row (m_storage s) (pl_account p)) i"

text \<open>
  C26: putting away and taking out never duplicate or destroy a crate: for every item, the number in
  the bags plus the number on the shelf is the same before and after, on success and on every
  refusal, and no other account's shelf changes.
\<close>
theorem crates_conserved:
  assumes "storage_inv s"
  shows "(case StorageDeposit sv s p i k of (s', p', r) \<Rightarrow>
            (\<forall>j. crates_owned s' p' j = crates_owned s p j)
            \<and> (\<forall>a. a \<noteq> pl_account p \<longrightarrow> nm_row (m_storage s') a = nm_row (m_storage s) a))
       \<and> (case StorageWithdraw sv s p k of (s', p', r) \<Rightarrow>
            (\<forall>j. crates_owned s' p' j = crates_owned s p j)
            \<and> (\<forall>a. a \<noteq> pl_account p \<longrightarrow> nm_row (m_storage s') a = nm_row (m_storage s) a))"
proof (intro conjI)
  show "case StorageDeposit sv s p i k of (s', p', r) \<Rightarrow>
            (\<forall>j. crates_owned s' p' j = crates_owned s p j)
            \<and> (\<forall>a. a \<noteq> pl_account p \<longrightarrow> nm_row (m_storage s') a = nm_row (m_storage s) a)"
    by (cases rule: StorageDeposit_cases [of sv s p i k])
       (auto simp: crates_owned_def shelf_count_put)
next
  have ok: "sm_ok (nm_row (m_storage s) (pl_account p))"
    using assms by (simp add: storage_inv_def shelf_ok_def)
  show "case StorageWithdraw sv s p k of (s', p', r) \<Rightarrow>
            (\<forall>j. crates_owned s' p' j = crates_owned s p j)
            \<and> (\<forall>a. a \<noteq> pl_account p \<longrightarrow> nm_row (m_storage s') a = nm_row (m_storage s) a)"
  proof (cases rule: StorageWithdraw_cases [of sv s p k])
    case (accepted i')
    then have "shelf_count (nm_row (m_storage s) (pl_account p)) j
       = shelf_count (sm_erase k (nm_row (m_storage s) (pl_account p))) j + (if i' = j then 1 else 0)" for j
      using shelf_count_erase [OF ok] by (simp add: nm_at_def)
    with accepted show ?thesis
      by (auto simp: crates_owned_def pexec_def)
  qed simp
qed

theorem crates_conserved_witness:
  "crates_owned (fst (StorageDeposit plain_server plain_mgr
       (plain_player\<lparr>pl_bags := (\<lambda>_. 1)\<rparr>) 900 0))
     (fst (snd (StorageDeposit plain_server plain_mgr (plain_player\<lparr>pl_bags := (\<lambda>_. 1)\<rparr>) 900 0))) 900
   = crates_owned plain_mgr (plain_player\<lparr>pl_bags := (\<lambda>_. 1)\<rparr>) 900"
  using crates_conserved [OF plain_storage_inv, where sv = plain_server and i = 900 and k = 0
      and p = "plain_player\<lparr>pl_bags := (\<lambda>_. 1)\<rparr>"]
  by (auto split: prod.splits)

text \<open>
  a crate put away without naming a square goes to the lowest free one, and nothing else on the
  shelf moves; a named square is used only when it is free.
\<close>
theorem deposit_lowest_free:
  assumes "StorageDeposit sv s p i k = (s', p', Inr ())"
  shows "\<exists>square. nm_at (m_storage s') = (nm_at (m_storage s))((pl_account p, square) \<mapsto> i)
    \<and> nm_at (m_storage s) (pl_account p, square) = None
    \<and> 0 < square \<and> square \<le> HOUSE_STORAGE_MAX
    \<and> (if k \<noteq> 0 then square = k
       else \<forall>j. 0 < j \<and> j < square \<longrightarrow> nm_at (m_storage s) (pl_account p, j) \<noteq> None)"
proof (cases rule: StorageDeposit_cases [of sv s p i k])
  case (accepted square)
  have "0 < j \<Longrightarrow> 1 \<le> j" for j :: u32
    by (simp add: word_le_nat_alt word_less_nat_alt Suc_le_eq)
  then have "if k \<noteq> 0 then square = k
       else \<forall>j. 0 < j \<and> j < square \<longrightarrow> nm_at (m_storage s) (pl_account p, j) \<noteq> None"
    using accepted(5) next_free_least [of 1 _ "nm_row (m_storage s) (pl_account p)"]
    by (auto simp: nm_at_def sm_has_def)
  moreover have "nm_at (m_storage s') = (nm_at (m_storage s))((pl_account p, square) \<mapsto> i)"
    using assms accepted(1) by (auto simp: fun_eq_iff)
  moreover have "0 < square" using accepted(6) by (simp add: word_neq_0_conv)
  ultimately show ?thesis
    using accepted(7,8) by (intro exI [of _ square]) (simp add: nm_at_def sm_has_def)
qed (use assms in simp)

lemma plain_allowed:
  "StorageAllowed plain_server plain_mgr (Some (plain_player\<lparr>pl_bags := b\<rparr>)) = Inr ()"
  by (simp add: StorageAllowed_def AtOwnHomeDoor_def CheckOwner_def GetHouseAt_def CanEditHouse_def
      GetHouseByInstance_def GetHouseById_def GetHouseByAccount_def)

lemma plain_deposit:
  "StorageDeposit plain_server plain_mgr (plain_player\<lparr>pl_bags := (\<lambda>_. 1)\<rparr>) 900 0
   = (put_square 7 1 900 (open_shelf 7 plain_mgr),
      plain_player\<lparr>pl_bags := (\<lambda>_. 1)(900 := 0)\<rparr>, Inr ())"
  by (simp add: StorageDeposit_def plain_allowed IsStorableItem_def IsFurnitureItem_def sm_has_def
      next_free_stop HOUSE_STORAGE_MAX_def nm_row_def open_shelf_def Let_def)

theorem deposit_lowest_free_witness:
  "nm_at (m_storage plain_mgr) (7, 1) = None \<and>
   (\<exists>square. nm_at (m_storage (put_square 7 1 900 (open_shelf 7 plain_mgr)))
      = (nm_at (m_storage plain_mgr))((7, square) \<mapsto> 900))"
  using deposit_lowest_free [OF plain_deposit]
  by (auto simp: nm_at_def nm_row_def)

text \<open>What the gate reads does not change when crates move.\<close>

lemma StorageAllowed_put [simp]:
  "StorageAllowed sv (put_square a k i s) = StorageAllowed sv s"
  "StorageAllowed sv (open_shelf a s) = StorageAllowed sv s"
  by (simp_all add: fun_eq_iff StorageAllowed_def AtOwnHomeDoor_def CheckOwner_def GetHouseAt_def
      GetHouseByInstance_def GetHouseById_def GetHouseByAccount_def put_square_def pexec_def
      open_shelf_def split: option.splits)

lemma gates_bags [simp]:
  "GetHouseAt s (Some (p\<lparr>pl_bags := b\<rparr>)) = GetHouseAt s (Some p)"
  "CanEditHouse (Some (p\<lparr>pl_bags := b\<rparr>)) house = CanEditHouse (Some p) house"
  "CheckOwner s (Some (p\<lparr>pl_bags := b\<rparr>)) = CheckOwner s (Some p)"
  "AtOwnHomeDoor sv s (Some (p\<lparr>pl_bags := b\<rparr>)) = AtOwnHomeDoor sv s (Some p)"
  by (simp_all add: AtOwnHomeDoor_def CheckOwner_def GetHouseAt_def CanEditHouse_def
      IsWithinDist3d_def cong: option.case_cong)

lemma StorageAllowed_bags [simp]:
  "StorageAllowed sv s (Some (p\<lparr>pl_bags := b\<rparr>)) = StorageAllowed sv s (Some p)"
  by (simp add: StorageAllowed_def cong: option.case_cong split: sum.splits)

lemma IsStorableItem_put [simp]:
  "IsStorableItem (put_square a k i s) = IsStorableItem s"
  "IsStorableItem (open_shelf a s) = IsStorableItem s"
  by (simp_all add: fun_eq_iff IsStorableItem_def IsFurnitureItem_def IsCritterItem_def
      put_square_def pexec_def open_shelf_def)

definition shelf_full :: "HouseMgr \<Rightarrow> u32 \<Rightarrow> bool" where
  "shelf_full s a \<longleftrightarrow> (\<forall>k. 0 < k \<and> k \<le> HOUSE_STORAGE_MAX \<longrightarrow> nm_at (m_storage s) (a, k) \<noteq> None)"

lemma deposit_refused_full:
  assumes "StorageAllowed sv s (Some p) = Inr ()" and "IsStorableItem s i" and "pl_bags p i \<noteq> 0"
    and "StorageDeposit sv s p i 0 = (s', p', Inl e)"
  shows "shelf_full s' (pl_account p) \<and> p' = p"
proof -
  let ?shelf = "nm_row (m_storage s) (pl_account p)"
  have *: "next_free ?shelf 1 > HOUSE_STORAGE_MAX \<and> s' = open_shelf (pl_account p) s \<and> p' = p"
    using assms by (auto simp: StorageDeposit_def Let_def split: if_splits)
  have "sm_has ?shelf k" if "0 < k" "k \<le> HOUSE_STORAGE_MAX" for k
  proof -
    have "1 \<le> k" using that by (simp add: word_le_nat_alt word_less_nat_alt Suc_le_eq)
    moreover have "k < next_free ?shelf 1" using that * by (auto intro: le_less_trans)
    ultimately show ?thesis using next_free_least by blast
  qed
  with * show ?thesis by (simp add: shelf_full_def nm_at_def sm_has_def)
qed

definition ready :: "server \<Rightarrow> HouseMgr \<Rightarrow> player \<Rightarrow> (u32 \<Rightarrow> bool) \<Rightarrow> u32 \<Rightarrow> bool" where
  "ready sv s p storable a \<longleftrightarrow>
     StorageAllowed sv s (Some p) = Inr () \<and> IsStorableItem s = storable \<and> pl_account p = a"

lemma deposit_copies_done:
  assumes "ready sv s p storable a" and "storable i" and "pl_bags p i = n"
    and "deposit_copies sv i n (s, p, c) = (s', p', c', full)"
  shows "ready sv s' p' storable a \<and> (\<forall>j. pl_bags p' j \<le> pl_bags p j)
         \<and> (if full then shelf_full s' a else pl_bags p' i = 0)"
  using assms
proof (induction n arbitrary: s p c)
  case (Suc n)
  have al: "StorageAllowed sv s (Some p) = Inr ()" and st: "IsStorableItem s i"
    using Suc.prems by (auto simp: ready_def)
  show ?case
  proof (cases rule: StorageDeposit_cases [of sv s p i 0])
    case (refused e s1)
    then have "s' = s1 \<and> p' = p \<and> full" using Suc.prems(4) by simp
    with refused deposit_refused_full [OF al st _ refused(1)] Suc.prems show ?thesis
      by (auto simp: ready_def)
  next
    case (accepted square)
    let ?s1 = "put_square (pl_account p) square i (open_shelf (pl_account p) s)"
    let ?p1 = "p\<lparr>pl_bags := (pl_bags p)(i := pl_bags p i - 1)\<rparr>"
    have rd: "ready sv ?s1 ?p1 storable a"
      using Suc.prems(1) by (simp add: ready_def)
    have run: "deposit_copies sv i n (?s1, ?p1, c + 1) = (s', p', c', full)"
      using Suc.prems(4) accepted(1) by simp
    have "pl_bags ?p1 i = n" using Suc.prems(3) by simp
    have le_diff: "pl_bags ?p1 j \<le> pl_bags p j" for j by simp
    from Suc.IH [OF rd Suc.prems(2) \<open>pl_bags ?p1 i = n\<close> run] show ?thesis
      using le_diff by (blast intro: order_trans)
  qed
qed (auto simp: ready_def)

lemma deposit_entries_done:
  assumes "ready sv s p storable a" and "\<forall>i \<in> set es. storable i"
    and "deposit_entries sv es (s, p, c) = (s', p', c', full)"
  shows "if full then shelf_full s' a
         else (\<forall>i \<in> set es. pl_bags p' i = 0) \<and> (\<forall>j. pl_bags p' j \<le> pl_bags p j)"
  using assms
proof (induction es arbitrary: s p c)
  case (Cons i es)
  obtain s1 p1 c1 f1 where d: "deposit_copies sv i (pl_bags p i) (s, p, c) = (s1, p1, c1, f1)"
    by (metis prod_cases4)
  have 1: "ready sv s1 p1 storable a \<and> (\<forall>j. pl_bags p1 j \<le> pl_bags p j)
         \<and> (if f1 then shelf_full s1 a else pl_bags p1 i = 0)"
    using deposit_copies_done [OF Cons.prems(1) _ refl d] Cons.prems(2) by simp
  show ?case
  proof (cases f1)
    case True
    then show ?thesis using 1 d Cons.prems(3) by simp
  next
    case False
    then have "deposit_entries sv es (s1, p1, c1) = (s', p', c', full)"
      using d Cons.prems(3) by simp
    from Cons.IH [OF _ _ this] 1 Cons.prems(2) False show ?thesis
      by (auto split: if_splits intro: order_trans) (metis le_zero_eq)+
  qed
qed simp

text \<open>
  "put it all away" means all of it: when the command is allowed, afterwards the bags hold no
  crate of either catalogue, unless every square of the shelf is taken.
\<close>
theorem deposit_all_complete:
  assumes "StorageAllowed sv s (Some p) = Inr ()"
    and "StorageDepositAll sv s p = (s', p', r)"
  shows "shelf_full s' (pl_account p) \<or> (\<forall>i. IsStorableItem s i \<longrightarrow> pl_bags p' i = 0)"
proof -
  obtain s1 p1 c full where d: "deposit_entries sv (storable_entries s) (s, p, 0) = (s1, p1, c, full)"
    by (metis prod_cases4)
  have "s' = s1 \<and> p' = p1"
    using assms d by (auto simp: StorageDepositAll_def split: if_splits)
  moreover have "IsStorableItem s i \<longleftrightarrow> i \<in> set (storable_entries s)" for i
    by (simp add: IsStorableItem_def IsFurnitureItem_def IsCritterItem_def sm_has_keys
        storable_entries_def)
  ultimately show ?thesis
    using deposit_entries_done [OF _ _ d, of "IsStorableItem s" "pl_account p"] assms(1)
    by (auto simp: ready_def split: if_splits)
qed

theorem deposit_all_complete_witness:
  "shelf_full (fst (StorageDepositAll plain_server plain_mgr
       (plain_player\<lparr>pl_bags := (\<lambda>_. 3)\<rparr>))) 7
   \<or> pl_bags (fst (snd (StorageDepositAll plain_server plain_mgr
       (plain_player\<lparr>pl_bags := (\<lambda>_. 3)\<rparr>)))) 900 = 0"
  using deposit_all_complete [OF plain_allowed [of "\<lambda>_. 3"],
      of "fst (StorageDepositAll plain_server plain_mgr (plain_player\<lparr>pl_bags := (\<lambda>_. 3)\<rparr>))"
         "fst (snd (StorageDepositAll plain_server plain_mgr (plain_player\<lparr>pl_bags := (\<lambda>_. 3)\<rparr>)))"
         "snd (snd (StorageDepositAll plain_server plain_mgr (plain_player\<lparr>pl_bags := (\<lambda>_. 3)\<rparr>)))"]
  by (auto simp: IsStorableItem_def IsFurnitureItem_def sm_has_def)

text \<open>
  a move is the swap of two squares and nothing more: the abstract shelf after a move that
  succeeded is the one before with the two squares exchanged (an empty target is exchanged too),
  and a refused move changes nothing.
\<close>
theorem storage_move_swaps:
  "case StorageMove sv s p from to of
     (s', Inl e) \<Rightarrow> s' = s
   | (s', Inr u) \<Rightarrow>
       nm_at (m_storage s') = swap_squares (pl_account p, from) (pl_account p, to) (nm_at (m_storage s))"
  by (cases rule: StorageMove_cases [of sv s p "from" to])
     (auto simp: swap_squares_def fun_eq_iff)

subsection \<open>The window's list\<close>

fun stack_of :: "HouseStorageStack list \<Rightarrow> u32 \<Rightarrow> u32" where
  "stack_of [] i = 0"
| "stack_of (k # out) i = (if st_itemEntry k = i then st_count k else stack_of out i)"

lemma stack_of_bump:
  "stack_of (map (\<lambda>k. if st_itemEntry k = e then k\<lparr>st_count := st_count k + 1\<rparr> else k) out) i
   = stack_of out i + (if e = i \<and> (\<exists>k \<in> set out. st_itemEntry k = e) then 1 else 0)"
  by (induction out) auto

lemma stack_of_snoc:
  "\<forall>k \<in> set out. st_itemEntry k \<noteq> st_itemEntry n \<Longrightarrow>
   stack_of (out @ [n]) i = stack_of out i + (if st_itemEntry n = i then st_count n else 0)"
  by (induction out) auto

lemma stack_of_add:
  "i \<noteq> 0 \<Longrightarrow> stack_of (add_to_stack r out) i = stack_of out i + (if snd r = i then 1 else 0)"
  by (auto simp: add_to_stack_def stack_of_bump stack_of_snoc)

lemma kinds_add:
  "map st_itemEntry (add_to_stack r out)
   = (if snd r = 0 \<or> snd r \<in> set (map st_itemEntry out) then map st_itemEntry out
      else map st_itemEntry out @ [snd r])"
proof -
  have "map st_itemEntry (map (\<lambda>k. if st_itemEntry k = snd r then k\<lparr>st_count := st_count k + 1\<rparr> else k) out)
        = map st_itemEntry out"
    by (induction out) auto
  then show ?thesis by (force simp: add_to_stack_def simp del: map_map)
qed

definition stacks_of_rows :: "(u32, u32) smap \<Rightarrow> HouseStorageStack list \<Rightarrow> bool" where
  "stacks_of_rows rows out \<longleftrightarrow>
     distinct (map st_itemEntry out)
     \<and> set (map st_itemEntry out) = snd ` set rows - {0}
     \<and> (\<forall>k \<in> set out. (st_slot k, st_itemEntry k) \<in> set rows)
     \<and> (\<forall>i. i \<noteq> 0 \<longrightarrow> stack_of out i = of_nat (shelf_count rows i))"

lemma stacks_of_rows_step:
  assumes "stacks_of_rows rows out"
  shows "stacks_of_rows (rows @ [r]) (add_to_stack r out)"
proof -
  have d: "distinct (map st_itemEntry out)" using assms by (simp add: stacks_of_rows_def)
  have "distinct (map st_itemEntry (add_to_stack r out))"
    using d by (simp only: kinds_add) (simp add: image_iff)
  moreover have "set (map st_itemEntry out) = snd ` set rows - {0}"
    using assms by (simp add: stacks_of_rows_def)
  then have "set (map st_itemEntry (add_to_stack r out)) = snd ` set (rows @ [r]) - {0}"
    by (simp only: kinds_add split: if_splits) auto
  moreover have "\<forall>k \<in> set (add_to_stack r out). (st_slot k, st_itemEntry k) \<in> set (rows @ [r])"
    using assms by (auto simp: stacks_of_rows_def add_to_stack_def)
  moreover have "\<forall>i. i \<noteq> 0 \<longrightarrow> stack_of (add_to_stack r out) i = of_nat (shelf_count (rows @ [r]) i)"
    using assms by (auto simp: stacks_of_rows_def stack_of_add shelf_count_def)
  ultimately show ?thesis by (simp add: stacks_of_rows_def)
qed

lemma stacks_of_rows_fold:
  "stacks_of_rows done' out \<Longrightarrow> stacks_of_rows (done' @ rows) (fold add_to_stack rows out)"
proof (induction rows arbitrary: done' out)
  case (Cons r rows)
  show ?case using Cons.IH [OF stacks_of_rows_step [OF Cons.prems, of r]] by simp
qed simp

text \<open>
  the window agrees with the shelf: \<open>GetStorageStacks\<close> lists each kind once and only the kinds
  some square holds, each stack counts the squares holding its kind, and taking the square a stack
  names takes a crate of that kind.
\<close>
theorem storage_stacks_match_shelf:
  assumes "storage_inv s" and "pl_session p"
  shows "distinct (map st_itemEntry (GetStorageStacks s (Some p)))
    \<and> (\<forall>k \<in> set (GetStorageStacks s (Some p)).
         GetStorageAt s (Some p) (st_slot k) = st_itemEntry k
         \<and> st_count k = of_nat (shelf_count (nm_row (m_storage s) (pl_account p)) (st_itemEntry k)))
    \<and> (\<forall>r \<in> set (nm_row (m_storage s) (pl_account p)). snd r \<noteq> 0 \<longrightarrow>
         (\<exists>k \<in> set (GetStorageStacks s (Some p)). st_itemEntry k = snd r))"
proof -
  let ?shelf = "nm_row (m_storage s) (pl_account p)"
  let ?out = "GetStorageStacks s (Some p)"
  have ok: "shelf_ok ?shelf" using assms(1) by (simp add: storage_inv_def)
  have out: "?out = fold add_to_stack ?shelf []"
    using assms(2) by (auto simp: GetStorageStacks_def nm_row_def split: option.splits)
  have "stacks_of_rows [] []" by (simp add: stacks_of_rows_def shelf_count_def)
  from stacks_of_rows_fold [OF this, of ?shelf] have st: "stacks_of_rows ?shelf ?out"
    using out by simp
  have cnt: "st_count k = stack_of xs (st_itemEntry k)"
    if "distinct (map st_itemEntry xs)" "k \<in> set xs" for k xs
    using that by (induction xs) force+
  have at: "GetStorageAt s (Some p) (st_slot k) = st_itemEntry k" if "k \<in> set ?out" for k
  proof -
    have row: "(st_slot k, st_itemEntry k) \<in> set ?shelf"
      using st that by (simp add: stacks_of_rows_def)
    then have "sm_find ?shelf (st_slot k) = Some (st_itemEntry k)"
      using ok sm_find_in [of ?shelf] unfolding shelf_ok_def by blast
    moreover have "st_slot k \<noteq> 0"
      using ok row by (auto simp: shelf_ok_def list_all_iff)
    ultimately show ?thesis
      using assms(2) by (auto simp: GetStorageAt_def nm_row_def split: option.splits)
  qed
  have ne: "st_itemEntry k \<noteq> 0" if "k \<in> set ?out" for k
    using st that unfolding stacks_of_rows_def by fastforce
  have "st_count k = of_nat (shelf_count ?shelf (st_itemEntry k))" if "k \<in> set ?out" for k
    using st that cnt [of ?out k] ne [OF that] by (simp add: stacks_of_rows_def)
  moreover have "\<exists>k \<in> set ?out. st_itemEntry k = snd r" if "r \<in> set ?shelf" "snd r \<noteq> 0" for r
  proof -
    have "snd r \<in> set (map st_itemEntry ?out)" using st that by (simp add: stacks_of_rows_def)
    then show ?thesis by auto
  qed
  moreover have "distinct (map st_itemEntry ?out)" using st by (simp add: stacks_of_rows_def)
  ultimately show ?thesis using at by blast
qed

theorem storage_stacks_match_shelf_witness:
  "distinct (map st_itemEntry (GetStorageStacks (put_square 7 1 900 plain_mgr) (Some plain_player)))
   \<and> (\<exists>k \<in> set (GetStorageStacks (put_square 7 1 900 plain_mgr) (Some plain_player)). st_itemEntry k = 900)"
proof -
  have row: "(1, 900) \<in> set (nm_row (m_storage (put_square 7 1 900 plain_mgr)) (pl_account plain_player))"
    by (simp add: put_square_def nm_row_def nm_set_def pexec_def)
  show ?thesis
    using storage_stacks_match_shelf [OF storage_inv_put [OF plain_storage_inv], of 1 plain_player 7 900] row
    by (force simp: HOUSE_STORAGE_MAX_def)
qed

end
