(* ===== verification/HouseObjects.thy ===== *)
theory HouseObjects
  imports HouseEditing HouseStorage
begin

section \<open>Placing, moving and picking up furniture\<close>

text \<open>
  The operations on \<open>house_object\<close> rows of Housing/HouseMgr.cpp, from \<open>RegisterObjectWithMap\<close> to
  \<open>ClearHouse\<close>, with the map-coordinate guard and the orientation arithmetic of Maps/GridDefines.h
  and Maps/MapManager.h they rest on. Coordinates are reals: rounding, infinities and NaN are not
  modelled. A pointer to a row is its guid. Every operation ends in an answer, \<open>Inl\<close> with the error
  text or \<open>Inr\<close>.
\<close>

subsection \<open>Coordinates\<close>

definition M_PI :: yards where "M_PI = 884279719003555 / 281474976710656"

definition M_PI_F :: yards where "M_PI_F = 13176795 / 4194304"

definition MAP_HALFSIZE :: yards where "MAP_HALFSIZE = 53333333 / 100000 * 64 / 2"

definition fmod :: "yards \<Rightarrow> yards \<Rightarrow> yards" where
  "fmod a b = a - b * of_int \<lfloor>a / b\<rfloor>"

definition NormalizeOrientation :: "yards \<Rightarrow> yards" where
  "NormalizeOrientation a =
     (if a < 0 then - fmod (a * -1) (2 * M_PI_F) + 2 * M_PI_F else fmod a (2 * M_PI_F))"

definition IsValidMapCoord :: "yards \<Rightarrow> yards \<Rightarrow> yards \<Rightarrow> yards \<Rightarrow> bool" where
  "IsValidMapCoord x y z a \<longleftrightarrow>
     \<bar>x\<bar> \<le> MAP_HALFSIZE - 1/2 \<and> \<bar>y\<bar> \<le> MAP_HALFSIZE - 1/2 \<and> \<bar>z\<bar> \<le> 400000 \<and> \<bar>a\<bar> \<le> 4 * M_PI"

subsection \<open>Putting a row into the world\<close>

definition RegisterObjectWithMap :: "u32 \<Rightarrow> HouseObject \<Rightarrow> HouseMgr \<Rightarrow> HouseMgr" where
  "RegisterObjectWithMap instanceId ob s = emit (OnObject (RegisterObject instanceId ob)) s"

definition SpawnObjectNow :: "server \<Rightarrow> u32 \<Rightarrow> HouseObject \<Rightarrow> HouseMgr \<Rightarrow> HouseMgr" where
  "SpawnObjectNow sv instanceId ob s =
     (if \<not> sv_cell sv (o_x ob) (o_y ob) then s
      else emit (OnObject (SpawnObject instanceId (o_guid ob))) s)"

definition PlaceAheadOfPlayer :: "player \<Rightarrow> yards \<Rightarrow> yards \<times> yards \<times> yards" where
  "PlaceAheadOfPlayer p distance =
     (pl_x p + cos (pl_o p) * distance, pl_y p + sin (pl_o p) * distance, pl_z p)"

definition PlaceAtPoint ::
  "server \<Rightarrow> player \<Rightarrow> yards \<times> yards \<times> yards \<Rightarrow> (yards \<times> yards \<times> yards) res" where
  "PlaceAtPoint sv p spot =
     (case spot of (x, y, z) \<Rightarrow>
        if \<not> IsWithinDist3d sv p x y z HOUSE_PLACE_DISTANCE_MAX then Inl ''That is too far away.''
        else if \<bar>z - pl_z p\<bar> > HOUSE_PLACE_HEIGHT_MAX then Inl ''Aim closer to the ground.''
        else Inr (x, y, z))"

definition clamp_distance :: "yards \<Rightarrow> yards" where
  "clamp_distance d =
     (if d < 0 then 0 else if d > HOUSE_PLACE_DISTANCE_MAX then HOUSE_PLACE_DISTANCE_MAX else d)"

definition finish_place ::
  "server \<Rightarrow> HouseMgr \<Rightarrow> player \<Rightarrow> House \<Rightarrow> HouseObject \<Rightarrow> bool \<Rightarrow> HouseMgr" where
  "finish_place sv s p house ob usedMark =
     (let s1 = pexec (sql_insert_object ob) s;
          s2 = (if o_scale ob > 0 then emit (OnObject (SetScale (o_guid ob) (o_scale ob))) s1 else s1);
          s3 = s2\<lparr>m_objects := sm_put (o_guid ob) ob (m_objects s2)\<rparr>;
          s4 = put_house (house\<lparr>h_objects := h_objects house @ [o_guid ob]\<rparr>) s3;
          s5 = SpawnObjectNow sv (pl_instanceId p) ob (RegisterObjectWithMap (pl_instanceId p) ob s4);
          s6 = s5\<lparr>m_selected := sm_put (pl_guid p) (o_guid ob) (m_selected s5)\<rparr>;
          s7 = RefreshSelectionMarker sv p (AddToEdit sv p (o_guid ob) s6)
      in if usedMark then ClearMark p s7 else s7)"

definition PlaceObject ::
  "server \<Rightarrow> HouseMgr \<Rightarrow> player \<Rightarrow> u32 \<Rightarrow> yards \<Rightarrow> u32 \<Rightarrow> yards \<Rightarrow> (yards \<times> yards \<times> yards) option
   \<Rightarrow> HouseMgr \<times> unit res" where
  "PlaceObject sv s p goEntry distance itemEntry scale spot =
     (case CheckOwner s (Some p) of
        Inl e \<Rightarrow> (s, Inl e)
      | Inr house \<Rightarrow>
          if CountPlayerObjects s house \<ge> HOUSE_MAX_OBJECTS
          then (s, Inl ''Your house is full. Remove something first.'')
          else (case sv_go sv goEntry of
            None \<Rightarrow> (s, Inl ''There is no object with that id.'')
          | Some info \<Rightarrow>
              if gi_displayId info \<noteq> 0 \<and> \<not> sv_display sv (gi_displayId info)
              then (s, Inl ''That object has no model and would be invisible.'')
              else
                let (s1, mark) = (case spot of None \<Rightarrow> GetMark s p | Some _ \<Rightarrow> (s, None));
                    usedMark = (mark \<noteq> None);
                    aim = (case spot of None \<Rightarrow> mark | Some _ \<Rightarrow> spot);
                    place = (case aim of
                               Some a \<Rightarrow> PlaceAtPoint sv p a
                             | None \<Rightarrow> Inr (PlaceAheadOfPlayer p (clamp_distance distance)))
                in case place of
                     Inl e \<Rightarrow> (s1, Inl e)
                   | Inr (x, y, z) \<Rightarrow>
                       (case AllocateObjectGuid s1 of (s2, guid) \<Rightarrow>
                          if guid = 0 then (s2, Inl ''Out of furniture ids.'')
                          else
                            let ob = \<lparr>o_guid = guid, o_houseId = h_id house,
                                      o_slot = AllocateSlot s2 house, o_groupNo = 0,
                                      o_goEntry = goEntry, o_itemEntry = itemEntry,
                                      o_x = x, o_y = y, o_z = z + HOUSE_PLACE_LIFT,
                                      o_o = NormalizeOrientation (pl_o p + M_PI_F),
                                      o_rot = (0, 0, 0, 0), o_scale = scale,
                                      o_source = HOUSE_SOURCE_PLAYER\<rparr>
                            in (finish_place sv s2 p house ob usedMark, Inr ()))))"

definition UseFurnitureItem :: "server \<Rightarrow> HouseMgr \<Rightarrow> player \<Rightarrow> u32 \<Rightarrow> HouseMgr \<times> unit res" where
  "UseFurnitureItem sv s p itemEntry =
     (case sm_find (m_furnitureItems s) itemEntry of
        None \<Rightarrow> (s, Inl ''That is not furniture.'')
      | Some fi \<Rightarrow>
          PlaceObject sv s p (fi_goEntry fi) HOUSE_PLACE_DISTANCE itemEntry (fi_scale fi) None)"

subsection \<open>Rearranging\<close>

record Placement =
  q_guid :: u32
  q_x :: yards
  q_y :: yards
  q_z :: yards
  q_o :: yards
  q_scale :: yards

definition placed :: "Placement \<Rightarrow> HouseObject \<Rightarrow> HouseObject" where
  "placed q ob =
     ob\<lparr>o_x := q_x q, o_y := q_y q, o_z := q_z q, o_o := NormalizeOrientation (q_o q),
        o_scale := (if q_scale q > 0 \<and> q_scale q \<noteq> o_scale ob then q_scale q else o_scale ob)\<rparr>"

definition ApplyPlacement :: "server \<Rightarrow> player \<Rightarrow> Placement \<Rightarrow> HouseMgr \<Rightarrow> HouseMgr" where
  "ApplyPlacement sv p q s =
     (case sm_find (m_objects s) (q_guid q) of
        None \<Rightarrow> s
      | Some ob \<Rightarrow>
          let moved = (q_x q \<noteq> o_x ob \<or> q_y q \<noteq> o_y ob \<or> q_z q \<noteq> o_z ob);
              turned = (NormalizeOrientation (q_o q) \<noteq> o_o ob);
              resized = (q_scale q > 0 \<and> q_scale q \<noteq> o_scale ob);
              ob' = placed q ob
          in if \<not> moved \<and> \<not> turned \<and> \<not> resized then s
             else
               let s1 = (if moved then emit (OnObject (UnregisterObject (pl_instanceId p) (o_guid ob))) s else s);
                   s2 = s1\<lparr>m_objects := sm_put (q_guid q) ob' (m_objects s1)\<rparr>;
                   s3 = (if moved then RegisterObjectWithMap (pl_instanceId p) ob' s2 else s2);
                   s4 = pexec (sql_update_object_place (o_guid ob) (o_x ob') (o_y ob') (o_z ob') (o_o ob')
                                 (o_scale ob')) s3;
                   s5 = (if resized then emit (OnObject (SetScale (o_guid ob) (o_scale ob'))) s4 else s4)
               in if sv_spawned sv (o_guid ob)
                  then emit (OnObject (ReplaceObject (o_guid ob) moved turned resized)) s5
                  else if resized then SpawnObjectNow sv (pl_instanceId p) ob' s5 else s5)"

definition PlaceAll :: "server \<Rightarrow> player \<Rightarrow> Placement list \<Rightarrow> HouseMgr \<Rightarrow> HouseMgr \<times> unit res" where
  "PlaceAll sv p qs s =
     (if list_ex (\<lambda>q. \<not> IsValidMapCoord (q_x q) (q_y q) (q_z q) (q_o q)) qs
      then (s, Inl (if length qs > 1 then ''Too far for one of the pieces.'' else ''Too far.''))
      else (fold (ApplyPlacement sv p) qs s, Inr ()))"

definition finish_placements ::
  "server \<Rightarrow> HouseMgr \<Rightarrow> player \<Rightarrow> Placement list \<Rightarrow> HouseMgr \<times> unit res" where
  "finish_placements sv s p qs =
     (case PlaceAll sv p qs s of
        (s', Inl e) \<Rightarrow> (s', Inl e)
      | (s', Inr _) \<Rightarrow> (RefreshSelectionMarker sv p s', Inr ()))"

definition shift_placement :: "yards \<Rightarrow> yards \<Rightarrow> yards \<Rightarrow> HouseObject \<Rightarrow> Placement" where
  "shift_placement dx dy dz m =
     \<lparr>q_guid = o_guid m, q_x = o_x m + dx, q_y = o_y m + dy, q_z = o_z m + dz, q_o = o_o m, q_scale = 0\<rparr>"

definition DragObject :: "server \<Rightarrow> HouseMgr \<Rightarrow> player \<Rightarrow> u32 \<Rightarrow> HouseMgr \<times> unit res" where
  "DragObject sv s p guid =
     (case Resolve s (Some p) guid of
        Inl e \<Rightarrow> (s, Inl e)
      | Inr (house, ob) \<Rightarrow>
          finish_placements sv s p
            (map (shift_placement (pl_x p - o_x ob) (pl_y p - o_y ob) (pl_z p + HOUSE_PLACE_LIFT - o_z ob))
               (GroupMembers s ob)))"

definition OffsetObject ::
  "server \<Rightarrow> HouseMgr \<Rightarrow> player \<Rightarrow> u32 \<Rightarrow> yards \<Rightarrow> yards \<Rightarrow> yards \<Rightarrow> HouseMgr \<times> unit res" where
  "OffsetObject sv s p guid dx dy dz =
     (case Resolve s (Some p) guid of
        Inl e \<Rightarrow> (s, Inl e)
      | Inr (house, ob) \<Rightarrow>
          if \<bar>dx\<bar> > HOUSE_MAX_NUDGE \<or> \<bar>dy\<bar> > HOUSE_MAX_NUDGE \<or> \<bar>dz\<bar> > HOUSE_MAX_NUDGE
          then (s, Inl ''Too far.'')
          else finish_placements sv s p (map (shift_placement dx dy dz) (GroupMembers s ob)))"

definition swing_placement :: "HouseObject \<Rightarrow> yards \<Rightarrow> HouseObject \<Rightarrow> Placement" where
  "swing_placement ob theta m =
     (let rx = o_x m - o_x ob; ry = o_y m - o_y ob; c = cos theta; sn = sin theta
      in \<lparr>q_guid = o_guid m, q_x = o_x ob + rx * c - ry * sn, q_y = o_y ob + rx * sn + ry * c,
          q_z = o_z m, q_o = o_o m + theta, q_scale = 0\<rparr>)"

definition TurnObject ::
  "server \<Rightarrow> HouseMgr \<Rightarrow> player \<Rightarrow> u32 \<Rightarrow> yards \<Rightarrow> bool \<Rightarrow> HouseMgr \<times> unit res" where
  "TurnObject sv s p guid degrees faceMe =
     (case Resolve s (Some p) guid of
        Inl e \<Rightarrow> (s, Inl e)
      | Inr (house, ob) \<Rightarrow>
          let start = (if faceMe then pl_o p else o_o ob);
              theta = start + degrees * (M_PI_F / 180) - o_o ob
          in finish_placements sv s p (map (swing_placement ob theta) (GroupMembers s ob)))"

definition base_size :: "server \<Rightarrow> HouseObject \<Rightarrow> yards" where
  "base_size sv m =
     (case sv_go sv (o_goEntry m) of
        None \<Rightarrow> 1 | Some info \<Rightarrow> if gi_size info > 0 then gi_size info else 1)"

definition current_size :: "server \<Rightarrow> HouseObject \<Rightarrow> yards" where
  "current_size sv m = (if o_scale m > 0 then o_scale m else base_size sv m)"

fun scale_placements ::
  "server \<Rightarrow> HouseObject \<Rightarrow> yards \<Rightarrow> yards \<Rightarrow> HouseObject list \<Rightarrow> Placement list res" where
  "scale_placements sv ob f wanted [] = Inr []"
| "scale_placements sv ob f wanted (m # ms) =
     (let mWanted = current_size sv m * f
      in if o_guid m = o_guid ob
         then map_sum id (\<lambda>qs. \<lparr>q_guid = o_guid m, q_x = o_x m, q_y = o_y m, q_z = o_z m, q_o = o_o m,
                                q_scale = wanted\<rparr> # qs)
                (scale_placements sv ob f wanted ms)
         else if mWanted < 1/10 then Inl ''Too small for one of the pieces.''
         else if mWanted > 50 then Inl ''Too big for one of the pieces.''
         else map_sum id (\<lambda>qs. \<lparr>q_guid = o_guid m, q_x = o_x ob + (o_x m - o_x ob) * f,
                                q_y = o_y ob + (o_y m - o_y ob) * f, q_z = o_z ob + (o_z m - o_z ob) * f,
                                q_o = o_o m, q_scale = mWanted\<rparr> # qs)
                (scale_placements sv ob f wanted ms))"

definition clamp_scale :: "yards \<Rightarrow> yards" where
  "clamp_scale w = (if w < 1/10 then 1/10 else if w > 50 then 50 else w)"

definition ScaleObject ::
  "server \<Rightarrow> HouseMgr \<Rightarrow> player \<Rightarrow> u32 \<Rightarrow> yards \<Rightarrow> bool \<Rightarrow> HouseMgr \<times> unit res" where
  "ScaleObject sv s p guid factor relative =
     (case Resolve s (Some p) guid of
        Inl e \<Rightarrow> (s, Inl e)
      | Inr (house, ob) \<Rightarrow>
          let base = base_size sv ob;
              current = current_size sv ob;
              wanted = clamp_scale (if relative then current * factor else base * factor)
          in case scale_placements sv ob (wanted / current) wanted (GroupMembers s ob) of
               Inl e \<Rightarrow> (s, Inl e)
             | Inr qs \<Rightarrow> finish_placements sv s p qs)"

subsection \<open>Taking furniture out\<close>

definition PurgeObject :: "server \<Rightarrow> u32 \<Rightarrow> u32 \<Rightarrow> HouseMgr \<Rightarrow> HouseMgr" where
  "PurgeObject sv houseId guid s =
     (case (sm_find (m_objects s) guid, GetHouseById s houseId) of
        (Some ob, Some house) \<Rightarrow>
          let s1 = (if sv_loaded sv (h_instanceId house)
                    then emit (OnObject (UnregisterObject (h_instanceId house) guid))
                           (emit (OnObject (DespawnObject guid)) s)
                    else s);
              s2 = pexec (sql_delete_object guid) s1;
              s3 = put_house (house\<lparr>h_objects := filter (\<lambda>g. g \<noteq> guid) (h_objects house)\<rparr>) s2
          in s3\<lparr>m_objects := sm_erase guid (m_objects s3)\<rparr>
      | _ \<Rightarrow> s)"

definition RemoveObject :: "server \<Rightarrow> HouseMgr \<Rightarrow> player \<Rightarrow> u32 \<Rightarrow> HouseMgr \<times> player \<times> u32 res" where
  "RemoveObject sv s p guid =
     (case CheckOwner s (Some p) of
        Inl e \<Rightarrow> (s, p, Inl e)
      | Inr house \<Rightarrow>
          (case sm_find (m_objects s) guid of
             None \<Rightarrow> (s, p, Inl ''That object is not in this house.'')
           | Some ob \<Rightarrow>
               if o_houseId ob \<noteq> h_id house then (s, p, Inl ''That object is not in this house.'')
               else if IsHouseFabric ob then (s, p, Inl ''That came with the house.'')
               else
                 let itemEntry = o_itemEntry ob
                 in if itemEntry \<noteq> 0 \<and> \<not> sv_canStore sv p itemEntry
                    then (s, p, Inl ''Your bags are full.'')
                    else if itemEntry \<noteq> 0 \<and> \<not> sv_store sv p itemEntry
                    then (s, p, Inl ''Could not put that in your bags.'')
                    else
                      let p' = (if itemEntry \<noteq> 0
                                then p\<lparr>pl_bags := (pl_bags p)(itemEntry := pl_bags p itemEntry + 1)\<rparr>
                                else p)
                      in (RefreshSelectionMarker sv p'
                            (PurgeObject sv (h_id house) guid (DropFromEdit sv p' guid s)),
                          p', Inr itemEntry)))"

fun clear_objects ::
  "server \<Rightarrow> u32 list \<Rightarrow> HouseMgr \<times> player \<times> u32 \<times> u32 \<times> u32 \<Rightarrow> HouseMgr \<times> player \<times> u32 \<times> u32 \<times> u32" where
  "clear_objects sv [] acc = acc"
| "clear_objects sv (guid # doomed) (s, p, removed, kept, noRoom) =
     (case RemoveObject sv s p guid of
        (s', p', Inr _) \<Rightarrow> clear_objects sv doomed (s', p', removed + 1, kept, noRoom)
      | (s', p', Inl why) \<Rightarrow>
          if why = ''Your bags are full.'' then clear_objects sv doomed (s', p', removed, kept, noRoom + 1)
          else clear_objects sv doomed (s', p', removed, kept + 1, noRoom))"

definition ClearHouse :: "server \<Rightarrow> HouseMgr \<Rightarrow> player \<Rightarrow> HouseMgr \<times> player \<times> (u32 \<times> u32 \<times> u32) res" where
  "ClearHouse sv s p =
     (case CheckOwner s (Some p) of
        Inl e \<Rightarrow> (s, p, Inl e)
      | Inr house \<Rightarrow>
          (case clear_objects sv (h_objects house) (s, p, 0, 0, 0) of
             (s', p', counts) \<Rightarrow> (s', p', Inr counts)))"

subsection \<open>Groups\<close>

definition write_group :: "server \<Rightarrow> player \<Rightarrow> u32 \<Rightarrow> u32 \<Rightarrow> HouseMgr \<Rightarrow> HouseMgr" where
  "write_group sv p target guid s =
     (case sm_find (m_objects s) guid of
        None \<Rightarrow> s
      | Some m \<Rightarrow>
          FlashObject sv p guid
            (if o_groupNo m \<noteq> target
             then pexec (sql_update_object_group guid target)
                    (s\<lparr>m_objects := sm_put guid (m\<lparr>o_groupNo := target\<rparr>) (m_objects s)\<rparr>)
             else s))"

definition JoinGroup :: "server \<Rightarrow> HouseMgr \<Rightarrow> player \<Rightarrow> u32 \<Rightarrow> u32 \<Rightarrow> HouseMgr \<times> unit res" where
  "JoinGroup sv s p guid withGuid =
     (if guid = withGuid then (s, Inl ''Choose a different piece to group with.'')
      else case Resolve s (Some p) guid of
        Inl e \<Rightarrow> (s, Inl e)
      | Inr (house, ob) \<Rightarrow>
          (case Resolve s (Some p) withGuid of
             Inl e \<Rightarrow> (s, Inl e)
           | Inr (_, partner) \<Rightarrow>
               let mine = GroupMembers s ob; theirs = GroupMembers s partner
               in if withGuid \<in> set (map o_guid mine)
                  then (s, Inl ''Those are already grouped.'')
                  else if length mine + length theirs > HOUSE_GROUP_MAX
                  then (s, Inl (''A group holds at most '' @ dec_nat HOUSE_GROUP_MAX @ '' pieces.''))
                  else
                    let target = (if length theirs > 1 then o_groupNo partner
                                  else if length mine > 1 then o_groupNo ob
                                  else AllocateGroupNo s house)
                    in (RefreshSelectionMarker sv p
                          (fold (write_group sv p target) (map o_guid (mine @ theirs)) s),
                        Inr ())))"

definition ungroup :: "u32 \<Rightarrow> HouseMgr \<Rightarrow> HouseMgr" where
  "ungroup guid s =
     (case sm_find (m_objects s) guid of
        None \<Rightarrow> s
      | Some m \<Rightarrow> pexec (sql_update_object_group guid 0)
                    (s\<lparr>m_objects := sm_put guid (m\<lparr>o_groupNo := 0\<rparr>) (m_objects s)\<rparr>))"

definition LeaveGroup :: "server \<Rightarrow> HouseMgr \<Rightarrow> player \<Rightarrow> u32 \<Rightarrow> HouseMgr \<times> unit res" where
  "LeaveGroup sv s p guid =
     (case Resolve s (Some p) guid of
        Inl e \<Rightarrow> (s, Inl e)
      | Inr (house, ob) \<Rightarrow>
          let members = GroupMembers s ob
          in if length members < 2
             then (s, Inl (ObjectLabel sv s guid @ '' is not in a group.''))
             else
               let release = (if length members = 2 then 2 else 1 :: nat)
               in (RefreshSelectionMarker sv p
                     (FlashObject sv p guid (fold ungroup (map o_guid (take release members)) s)),
                   Inr ()))"


subsection \<open>How the core moves through the operations\<close>

lemma core_updates:
  "core (s\<lparr>m_objects := a\<rparr>) = (core s)\<lparr>m_objects := a\<rparr>"
  "core (s\<lparr>m_houses := b\<rparr>) = (core s)\<lparr>m_houses := b\<rparr>"
  "core (s\<lparr>m_db := d\<rparr>) = (core s)\<lparr>m_db := d\<rparr>"
  "core (s\<lparr>m_nextObjectGuid := n\<rparr>) = (core s)\<lparr>m_nextObjectGuid := n\<rparr>"
  by (simp_all add: core_def)

lemma core_selectors:
  "m_objects (core s) = m_objects s" "m_houses (core s) = m_houses s" "m_db (core s) = m_db s"
  "m_nextObjectGuid (core s) = m_nextObjectGuid s"
  by (simp_all add: core_def)

text \<open>
  \<open>shell\<close> forgets the object rows as well; \<open>rows_changed f\<close> says that a step rewrote the rows by \<open>f\<close>,
  in memory and in the table alike, and left everything else of the core as it was.
\<close>

definition shell :: "HouseMgr \<Rightarrow> HouseMgr" where
  "shell s = (core s)\<lparr>m_objects := [], m_db := (m_db s)\<lparr>tb_object := []\<rparr>\<rparr>"

definition mirrored :: "HouseMgr \<Rightarrow> bool" where
  "mirrored s \<longleftrightarrow> sm_find (m_objects s) = sm_find (tb_object (m_db s))"

definition rows_changed :: "(u32 \<Rightarrow> HouseObject \<Rightarrow> HouseObject) \<Rightarrow> HouseMgr \<Rightarrow> HouseMgr \<Rightarrow> bool" where
  "rows_changed f s s' \<longleftrightarrow>
     shell s' = shell s
     \<and> sm_find (m_objects s') = (\<lambda>g. map_option (f g) (sm_find (m_objects s) g))
     \<and> (mirrored s \<longrightarrow> mirrored s')"

lemma shell_core:
  assumes "core s = core t"
  shows "shell s = shell t" and "mirrored s = mirrored t" and "m_objects s = m_objects t"
  using assms by (simp_all add: shell_def mirrored_def core_fields [OF assms])

lemma shell_fields:
  assumes "shell s = shell t"
  shows "m_houses s = m_houses t" and "m_nextObjectGuid s = m_nextObjectGuid t"
    and "m_houseByInstance s = m_houseByInstance t" and "m_critters s = m_critters t"
    and "m_storage s = m_storage t" and "m_enabled s = m_enabled t"
proof -
  show "m_houses s = m_houses t" using arg_cong [OF assms, of m_houses] by (simp add: shell_def core_def)
  show "m_nextObjectGuid s = m_nextObjectGuid t"
    using arg_cong [OF assms, of m_nextObjectGuid] by (simp add: shell_def core_def)
  show "m_houseByInstance s = m_houseByInstance t"
    using arg_cong [OF assms, of m_houseByInstance] by (simp add: shell_def core_def)
  show "m_critters s = m_critters t" using arg_cong [OF assms, of m_critters] by (simp add: shell_def core_def)
  show "m_storage s = m_storage t" using arg_cong [OF assms, of m_storage] by (simp add: shell_def core_def)
  show "m_enabled s = m_enabled t" using arg_cong [OF assms, of m_enabled] by (simp add: shell_def core_def)
qed

lemma rows_changed_refl: "core s' = core s \<Longrightarrow> rows_changed (\<lambda>g ob. ob) s s'"
  using shell_core [of s' s] by (simp add: rows_changed_def option.map_ident)

lemma rows_changed_trans:
  assumes "rows_changed f s t" and "rows_changed h t u"
  shows "rows_changed (\<lambda>g. h g \<circ> f g) s u"
  using assms by (auto simp: rows_changed_def option.map_comp comp_def)

lemma rows_changed_core: "rows_changed f s t \<Longrightarrow> core u = core t \<Longrightarrow> rows_changed f s u"
  using shell_core [of u t] by (simp add: rows_changed_def)

text \<open>Rows filed under their own id, the part of the invariant a single step needs.\<close>

definition keyed :: "HouseMgr \<Rightarrow> bool" where
  "keyed s \<longleftrightarrow> (\<forall>g ob. sm_find (m_objects s) g = Some ob \<longrightarrow> o_guid ob = g)"

lemma keyed_changed:
  "keyed s \<Longrightarrow> rows_changed f s t \<Longrightarrow> (\<And>g ob. o_guid (f g ob) = o_guid ob) \<Longrightarrow> keyed t"
  by (auto simp: keyed_def rows_changed_def)

lemma rows_changed_fold:
  assumes "\<And>q s. keyed s \<Longrightarrow> rows_changed (f q) s (step q s)"
    and "\<And>q g ob. o_guid (f q g ob) = o_guid ob" and "keyed s"
  shows "rows_changed (\<lambda>g. fold (\<lambda>q. f q g) qs) s (fold step qs s)"
  using assms(3)
proof (induction qs arbitrary: s)
  case Nil
  then show ?case using rows_changed_refl [of s s] by (simp add: id_def)
next
  case (Cons q qs)
  have ch: "rows_changed (f q) s (step q s)" using assms(1) Cons.prems .
  have "keyed (step q s)" using keyed_changed [OF Cons.prems ch] assms(2) by blast
  from rows_changed_trans [OF ch Cons.IH [OF this]] show ?case by (simp add: comp_def)
qed

text \<open>One row rewritten in memory and in the table.\<close>

lemma rows_changed_one:
  assumes "sm_find (m_objects s) k = Some ob" and "ob' = f ob"
    and "core t = core (pexec upd (s\<lparr>m_objects := sm_put k ob' (m_objects s)\<rparr>))"
    and "upd (m_db s) = (m_db s)\<lparr>tb_object := sm_update k f (tb_object (m_db s))\<rparr>"
  shows "rows_changed (\<lambda>g. if g = k then f else (\<lambda>ob. ob)) s t"
proof -
  note c = core_fields [OF assms(3)]
  have "shell t = shell s"
    using assms(3,4) by (simp add: shell_def c pexec_def core_updates)
  moreover have "sm_find (m_objects t) = (\<lambda>g. map_option (if g = k then f else (\<lambda>ob. ob)) (sm_find (m_objects s) g))"
    using assms(1,2) by (auto simp: c pexec_def fun_eq_iff option.map_ident)
  moreover have "mirrored t" if "mirrored s"
    using that assms by (auto simp: mirrored_def c pexec_def fun_eq_iff)
  ultimately show ?thesis by (simp add: rows_changed_def)
qed

subsection \<open>The invariant of the rows\<close>

text \<open>
  \<open>objects_inv\<close>: every row is filed under its own id, below the next id to be given out, and listed by
  the house it names; every house lists each of its rows once and only rows that exist and name it;
  the table holds the same rows.
\<close>

definition objects_inv :: "HouseMgr \<Rightarrow> bool" where
  "objects_inv s \<longleftrightarrow>
     (\<forall>g ob. sm_find (m_objects s) g = Some ob \<longrightarrow>
        o_guid ob = g \<and> g \<noteq> 0 \<and> g < m_nextObjectGuid s
        \<and> (\<exists>h. sm_find (m_houses s) (o_houseId ob) = Some h \<and> g \<in> set (h_objects h)))
     \<and> (\<forall>i h. sm_find (m_houses s) i = Some h \<longrightarrow>
        h_id h = i \<and> distinct (h_objects h)
        \<and> (\<forall>g \<in> set (h_objects h). \<exists>ob. sm_find (m_objects s) g = Some ob \<and> o_houseId ob = i))
     \<and> mirrored s \<and> HOUSE_GO_GUID_MIN \<le> m_nextObjectGuid s"

lemma objects_inv_row:
  "objects_inv s \<Longrightarrow> sm_find (m_objects s) g = Some ob \<Longrightarrow>
   o_guid ob = g \<and> g \<noteq> 0 \<and> g < m_nextObjectGuid s
   \<and> (\<exists>h. sm_find (m_houses s) (o_houseId ob) = Some h \<and> g \<in> set (h_objects h))"
  by (auto simp: objects_inv_def)

lemma objects_inv_house:
  "objects_inv s \<Longrightarrow> sm_find (m_houses s) i = Some h \<Longrightarrow>
   h_id h = i \<and> distinct (h_objects h)
   \<and> (\<forall>g \<in> set (h_objects h). \<exists>ob. sm_find (m_objects s) g = Some ob \<and> o_houseId ob = i)"
  by (auto simp: objects_inv_def)

lemma objects_inv_core: "objects_inv s \<Longrightarrow> core t = core s \<Longrightarrow> objects_inv t"
  using rows_changed_refl [of t s] core_fields(2,4) [of t s]
  by (simp add: objects_inv_def shell_core(2,3) [of t s])

lemma objects_inv_rows:
  assumes inv: "objects_inv s" and ch: "rows_changed f s t"
    and keep: "\<And>g ob. o_guid (f g ob) = o_guid ob \<and> o_houseId (f g ob) = o_houseId ob"
  shows "objects_inv t"
proof -
  have sh: "shell t = shell s" and fnd: "sm_find (m_objects t) = (\<lambda>g. map_option (f g) (sm_find (m_objects s) g))"
    and mi: "mirrored t" and lo: "HOUSE_GO_GUID_MIN \<le> m_nextObjectGuid s"
    using inv ch by (auto simp: rows_changed_def objects_inv_def)
  note h = shell_fields [OF sh]
  show ?thesis
    unfolding objects_inv_def fnd h
  proof (intro conjI allI impI mi lo)
    fix g ob
    assume "map_option (f g) (sm_find (m_objects s) g) = Some ob"
    then obtain ob0 where "sm_find (m_objects s) g = Some ob0" "ob = f g ob0" by auto
    with objects_inv_row [OF inv, of g ob0] keep show "o_guid ob = g" and "g \<noteq> 0" and "g < m_nextObjectGuid s"
      and "\<exists>h. sm_find (m_houses s) (o_houseId ob) = Some h \<and> g \<in> set (h_objects h)"
      by auto
  next
    fix i h
    assume "sm_find (m_houses s) i = Some h"
    from objects_inv_house [OF inv this] keep show "h_id h = i" and "distinct (h_objects h)"
      and "\<forall>g \<in> set (h_objects h). \<exists>ob. map_option (f g) (sm_find (m_objects s) g) = Some ob \<and> o_houseId ob = i"
      by fastforce+
  qed
qed


lemma objects_inv_keyed: "objects_inv s \<Longrightarrow> keyed s"
  by (simp add: keyed_def objects_inv_def)

subsection \<open>Rearranging, row by row\<close>

lemma placed_keeps [simp]:
  "o_guid (placed q ob) = o_guid ob" "o_houseId (placed q ob) = o_houseId ob"
  "o_slot (placed q ob) = o_slot ob" "o_groupNo (placed q ob) = o_groupNo ob"
  "o_source (placed q ob) = o_source ob" "o_itemEntry (placed q ob) = o_itemEntry ob"
  "o_goEntry (placed q ob) = o_goEntry ob"
  by (simp_all add: placed_def)

lemma core_Register [simp]: "core (RegisterObjectWithMap i ob s) = core s"
  by (simp add: RegisterObjectWithMap_def)

lemma core_Spawn [simp]: "core (SpawnObjectNow sv i ob s) = core s"
  by (simp add: SpawnObjectNow_def)

lemmas Register_fields [simp] = core_fields [OF core_Register]
lemmas Spawn_fields [simp] = core_fields [OF core_Spawn]

lemma core_pexec: "core (pexec u s) = pexec u (core s)"
  by (simp add: pexec_def core_updates core_selectors)

lemma ApplyPlacement_rows:
  assumes "keyed s"
  shows "rows_changed (\<lambda>g. if g = q_guid q then placed q else (\<lambda>ob. ob)) s (ApplyPlacement sv p q s)"
proof (cases "sm_find (m_objects s) (q_guid q)")
  case None
  then have "ApplyPlacement sv p q s = s" by (simp add: ApplyPlacement_def)
  moreover have "rows_changed (\<lambda>g. if g = q_guid q then placed q else (\<lambda>ob. ob)) s s"
    using None by (auto simp: rows_changed_def fun_eq_iff option.map_ident)
  ultimately show ?thesis by simp
next
  case (Some ob)
  have key: "o_guid ob = q_guid q" using assms Some by (simp add: keyed_def)
  show ?thesis
  proof (cases "placed q ob = ob")
    case True
    then have "o_x ob = q_x q" "o_y ob = q_y q" "o_z ob = q_z q" "o_o ob = NormalizeOrientation (q_o q)"
      "\<not> (q_scale q > 0 \<and> q_scale q \<noteq> o_scale ob)"
      by (auto simp: placed_def dest: arg_cong [of _ _ o_x] arg_cong [of _ _ o_y] arg_cong [of _ _ o_z]
          arg_cong [of _ _ o_o] arg_cong [of _ _ o_scale] split: if_splits)
    then have "ApplyPlacement sv p q s = s"
      using Some by (simp add: ApplyPlacement_def Let_def)
    moreover have "rows_changed (\<lambda>g. if g = q_guid q then placed q else (\<lambda>ob. ob)) s s"
      using Some True by (auto simp: rows_changed_def fun_eq_iff option.map_ident)
    ultimately show ?thesis by simp
  next
    case False
    let ?u = "sql_update_object_place (q_guid q) (q_x q) (q_y q) (q_z q) (NormalizeOrientation (q_o q))
                (o_scale (placed q ob))"
    have ch: "\<not> (\<not> (q_x q \<noteq> o_x ob \<or> q_y q \<noteq> o_y ob \<or> q_z q \<noteq> o_z ob)
                 \<and> \<not> NormalizeOrientation (q_o q) \<noteq> o_o ob \<and> \<not> (q_scale q > 0 \<and> q_scale q \<noteq> o_scale ob))"
      using False by (cases ob) (auto simp: placed_def split: if_splits)
    have fields: "o_x (placed q ob) = q_x q" "o_y (placed q ob) = q_y q" "o_z (placed q ob) = q_z q"
      "o_o (placed q ob) = NormalizeOrientation (q_o q)"
      by (simp_all add: placed_def)
    have core: "core (ApplyPlacement sv p q s)
      = core (pexec ?u (s\<lparr>m_objects := sm_put (q_guid q) (placed q ob) (m_objects s)\<rparr>))"
      unfolding ApplyPlacement_def Some option.case Let_def if_not_P [OF ch] fields key
      by (simp add: core_pexec core_updates)
    define f where "f = (\<lambda>r :: HouseObject. r\<lparr>o_x := q_x q, o_y := q_y q, o_z := q_z q,
        o_o := NormalizeOrientation (q_o q), o_scale := o_scale (placed q ob)\<rparr>)"
    have "rows_changed (\<lambda>g. if g = q_guid q then f else (\<lambda>ob. ob)) s (ApplyPlacement sv p q s)"
      by (rule rows_changed_one [OF Some _ core])
         (simp_all add: f_def placed_def sql_update_object_place_def)
    moreover have "f ob = placed q ob" by (simp add: f_def placed_def)
    ultimately show ?thesis
      using Some by (auto simp: rows_changed_def fun_eq_iff)
  qed
qed

text \<open>A list of placements with distinct ids, each row taking its own.\<close>

lemma fold_placed:
  "distinct (map q_guid qs) \<Longrightarrow>
   fold (\<lambda>q. if g = q_guid q then placed q else (\<lambda>ob. ob)) qs
   = (case find (\<lambda>q. q_guid q = g) qs of None \<Rightarrow> (\<lambda>ob. ob) | Some q \<Rightarrow> placed q)"
proof (induction qs)
  case (Cons q qs)
  have "q_guid x \<noteq> q_guid q" if "x \<in> set qs" for x
  proof
    assume eq: "q_guid x = q_guid q"
    from imageI [OF that, of q_guid] have "q_guid q \<in> q_guid ` set qs" unfolding eq .
    with Cons.prems show False by simp
  qed
  then have "find (\<lambda>q. q_guid q = g) qs = None" if "g = q_guid q"
    using that by (auto simp: find_None_iff)
  then show ?case using Cons by (auto simp: comp_def id_def)
qed (simp add: id_def)

lemma finish_placements_rows:
  assumes "keyed s" and "distinct (map q_guid qs)" and "finish_placements sv s p qs = (s', Inr ())"
  shows "rows_changed (\<lambda>g. case find (\<lambda>q. q_guid q = g) qs of None \<Rightarrow> (\<lambda>ob. ob) | Some q \<Rightarrow> placed q) s s'"
proof -
  have s': "s' = RefreshSelectionMarker sv p (fold (ApplyPlacement sv p) qs s)"
    using assms(3) by (auto simp: finish_placements_def PlaceAll_def split: if_splits)
  have "rows_changed (\<lambda>g. fold (\<lambda>q. if g = q_guid q then placed q else (\<lambda>ob. ob)) qs) s
          (fold (ApplyPlacement sv p) qs s)"
    by (rule rows_changed_fold [OF ApplyPlacement_rows _ assms(1)]) auto
  then show ?thesis
    unfolding s' fold_placed [OF assms(2)] by (rule rows_changed_core) simp
qed

lemma finish_placements_refused: "finish_placements sv s p qs = (s', Inl e) \<Longrightarrow> s' = s"
  by (auto simp: finish_placements_def PlaceAll_def split: if_splits)


subsection \<open>Who moves along\<close>

lemma find_SomeD: "find P xs = Some x \<Longrightarrow> x \<in> set xs \<and> P x"
  by (induction xs) (auto split: if_splits)

lemma map_filter_rows:
  "set (List.map_filter f gs) = {m. \<exists>g \<in> set gs. f g = Some m}"
  by (induction gs) (auto simp: List.map_filter_simps split: option.splits)

lemma distinct_map_filter_key:
  assumes "distinct gs" and "\<And>g m. g \<in> set gs \<Longrightarrow> f g = Some m \<Longrightarrow> key m = g"
  shows "distinct (map key (List.map_filter f gs)) \<and> set (map key (List.map_filter f gs)) \<subseteq> set gs"
  using assms
proof (induction gs)
  case (Cons g gs)
  then have "distinct (map key (List.map_filter f gs)) \<and> set (map key (List.map_filter f gs)) \<subseteq> set gs"
    by simp
  moreover have "key a = g \<and> g \<notin> set gs" if "f g = Some a" for a
    using Cons.prems that by simp
  ultimately show ?case
    by (cases "f g") (fastforce simp: List.map_filter_simps)+
qed (simp add: List.map_filter_simps)

lemma distinct_map_filter_list: "distinct (map f xs) \<Longrightarrow> distinct (map f (filter P xs))"
  by (induction xs) auto

lemma GroupMembers_facts:
  assumes inv: "objects_inv s" and ob: "sm_find (m_objects s) guid = Some ob"
  shows "distinct (map o_guid (GroupMembers s ob))"
    and "hd (GroupMembers s ob) = ob" and "GroupMembers s ob \<noteq> []"
    and "m \<in> set (GroupMembers s ob) \<longleftrightarrow>
           m = ob \<or> (o_groupNo ob \<noteq> 0 \<and> \<not> IsHouseFabric ob
             \<and> sm_find (m_objects s) (o_guid m) = Some m \<and> o_houseId m = o_houseId ob
             \<and> o_groupNo m = o_groupNo ob \<and> \<not> IsHouseFabric m)"
proof -
  have key: "o_guid ob = guid" and self: "sm_find (m_objects s) (o_guid ob) = Some ob"
    using objects_inv_row [OF inv ob] ob by auto
  obtain h where h: "sm_find (m_houses s) (o_houseId ob) = Some h"
    using objects_inv_row [OF inv ob] by blast
  let ?others = "List.map_filter (sm_find (m_objects s)) (filter (\<lambda>g. g \<noteq> o_guid ob) (h_objects h))"
  have keys: "o_guid m = g" if "sm_find (m_objects s) g = Some m" for g m
    using objects_inv_row [OF inv that] by blast
  have gm: "GroupMembers s ob = (if o_groupNo ob = 0 \<or> IsHouseFabric ob then [ob]
      else ob # filter (\<lambda>m. o_groupNo m = o_groupNo ob \<and> \<not> IsHouseFabric m) ?others)"
    using self h by (simp add: GroupMembers_def GetHouseById_def)
  have "distinct (filter (\<lambda>g. g \<noteq> o_guid ob) (h_objects h))"
    using objects_inv_house [OF inv h] by simp
  from distinct_map_filter_key [OF this, of "sm_find (m_objects s)" o_guid] keys
  have dist: "distinct (map o_guid ?others)" and sub: "o_guid ob \<notin> set (map o_guid ?others)"
    by auto
  show "distinct (map o_guid (GroupMembers s ob))"
    using distinct_map_filter_list [OF dist] sub by (auto simp: gm)
  show "hd (GroupMembers s ob) = ob" and "GroupMembers s ob \<noteq> []" by (simp_all add: gm)
  have "m \<in> set ?others \<longleftrightarrow> sm_find (m_objects s) (o_guid m) = Some m \<and> o_houseId m = o_houseId ob \<and> o_guid m \<noteq> o_guid ob"
  proof
    assume "m \<in> set ?others"
    then obtain g where g: "g \<in> set (h_objects h)" "g \<noteq> o_guid ob" "sm_find (m_objects s) g = Some m"
      by (auto simp: map_filter_rows)
    then show "sm_find (m_objects s) (o_guid m) = Some m \<and> o_houseId m = o_houseId ob \<and> o_guid m \<noteq> o_guid ob"
      using keys objects_inv_house [OF inv h] by auto
  next
    assume m: "sm_find (m_objects s) (o_guid m) = Some m \<and> o_houseId m = o_houseId ob \<and> o_guid m \<noteq> o_guid ob"
    then have "o_guid m \<in> set (h_objects h)" using objects_inv_row [OF inv, of "o_guid m" m] h by auto
    with m show "m \<in> set ?others" by (auto simp: map_filter_rows)
  qed
  then show "m \<in> set (GroupMembers s ob) \<longleftrightarrow>
           m = ob \<or> (o_groupNo ob \<noteq> 0 \<and> \<not> IsHouseFabric ob
             \<and> sm_find (m_objects s) (o_guid m) = Some m \<and> o_houseId m = o_houseId ob
             \<and> o_groupNo m = o_groupNo ob \<and> \<not> IsHouseFabric m)"
    using self by (auto simp: gm)
qed

lemma member_row:
  assumes inv: "objects_inv s" and ob: "sm_find (m_objects s) guid = Some ob"
    and m: "m \<in> set (GroupMembers s ob)"
  shows "sm_find (m_objects s) (o_guid m) = Some m" and "o_houseId m = o_houseId ob"
proof -
  have "sm_find (m_objects s) (o_guid ob) = Some ob" using objects_inv_row [OF inv ob] ob by simp
  then show "sm_find (m_objects s) (o_guid m) = Some m" and "o_houseId m = o_houseId ob"
    using m unfolding GroupMembers_facts(4) [OF inv ob] by blast+
qed

text \<open>The rows after a rearrangement: every member of the group takes its placement, nobody else moves.\<close>

definition group_takes :: "(HouseObject \<Rightarrow> Placement) \<Rightarrow> HouseMgr \<Rightarrow> HouseObject \<Rightarrow> HouseMgr \<Rightarrow> bool" where
  "group_takes place s ob s' \<longleftrightarrow>
     sm_find (m_objects s') =
       (\<lambda>g. map_option (\<lambda>m. if m \<in> set (GroupMembers s ob) then placed (place m) m else m)
               (sm_find (m_objects s) g))"

lemma finish_placements_group:
  assumes inv: "objects_inv s" and ob: "sm_find (m_objects s) guid = Some ob"
    and place: "\<And>m. q_guid (place m) = o_guid m"
    and run: "finish_placements sv s p (map place (GroupMembers s ob)) = (s', Inr ())"
  shows "objects_inv s' \<and> group_takes place s ob s'"
proof -
  let ?ms = "GroupMembers s ob"
  have guids: "map q_guid (map place ?ms) = map o_guid ?ms" by (simp add: place)
  have dist: "distinct (map q_guid (map place ?ms))"
    unfolding guids by (rule GroupMembers_facts(1) [OF inv ob])
  define f where "f = (\<lambda>g. case find (\<lambda>q. q_guid q = g) (map place ?ms) of None \<Rightarrow> (\<lambda>ob. ob) | Some q \<Rightarrow> placed q)"
  have ch: "rows_changed f s s'"
    unfolding f_def by (rule finish_placements_rows [OF objects_inv_keyed [OF inv] dist run])
  have inv': "objects_inv s'"
    by (rule objects_inv_rows [OF inv ch]) (auto simp: f_def split: option.splits)
  have row: "f g m = (if m \<in> set ?ms then placed (place m) m else m)"
    if "sm_find (m_objects s) g = Some m" for g m
  proof (cases "m \<in> set ?ms")
    case True
    have "o_guid m = g" using objects_inv_row [OF inv that] by blast
    then have "find (\<lambda>q. q_guid q = g) (map place ?ms) \<noteq> None"
      using True place unfolding find_None_iff by auto
    then obtain q where q: "find (\<lambda>q. q_guid q = g) (map place ?ms) = Some q" by auto
    from find_SomeD [OF q] obtain m' where m': "m' \<in> set ?ms" "q = place m'" and "q_guid q = g"
      unfolding set_map by blast
    then have "o_guid m' = g" unfolding m'(2) place by simp
    with member_row(1) [OF inv ob m'(1)] that have "m' = m" by simp
    with q m' True show ?thesis by (simp add: f_def)
  next
    case False
    have "find (\<lambda>q. q_guid q = g) (map place ?ms) = None"
    proof (rule ccontr)
      assume "find (\<lambda>q. q_guid q = g) (map place ?ms) \<noteq> None"
      then obtain q where "find (\<lambda>q. q_guid q = g) (map place ?ms) = Some q" by blast
      from find_SomeD [OF this] obtain m' where m': "m' \<in> set ?ms" "q_guid (place m') = g"
        unfolding set_map by blast
      then have "o_guid m' = g" unfolding place by simp
      with member_row(1) [OF inv ob m'(1)] that have "m' = m" by simp
      with m' False show False by simp
    qed
    with False show ?thesis by (simp add: f_def)
  qed
  have "sm_find (m_objects s') = (\<lambda>g. map_option (f g) (sm_find (m_objects s) g))"
    using ch by (simp add: rows_changed_def)
  then have "group_takes place s ob s'"
    unfolding group_takes_def using row by (auto simp: fun_eq_iff intro!: option.map_cong)
  with inv' show ?thesis by blast
qed

subsection \<open>Properties of the rearranging\<close>

lemma placed_shift:
  "placed (shift_placement dx dy dz m) m
   = m\<lparr>o_x := o_x m + dx, o_y := o_y m + dy, o_z := o_z m + dz, o_o := NormalizeOrientation (o_o m)\<rparr>"
  by (simp add: placed_def shift_placement_def)

text \<open>
  a nudge moves a group as one piece: the answer is either a refusal that changes nothing, or every
  member of the clicked piece's group has moved by exactly the offset, in memory and in the table, and
  no other row of any house has changed.
\<close>
theorem offset_moves_group:
  assumes "objects_inv s"
  shows "case OffsetObject sv s p guid dx dy dz of
     (s', Inl e) \<Rightarrow> s' = s
   | (s', Inr u) \<Rightarrow> objects_inv s' \<and> (\<exists>house ob. Resolve s (Some p) guid = Inr (house, ob) \<and>
       sm_find (m_objects s') =
         (\<lambda>g. map_option (\<lambda>m. if m \<in> set (GroupMembers s ob)
            then m\<lparr>o_x := o_x m + dx, o_y := o_y m + dy, o_z := o_z m + dz,
                   o_o := NormalizeOrientation (o_o m)\<rparr> else m) (sm_find (m_objects s) g)))"
proof (cases "OffsetObject sv s p guid dx dy dz")
  case (Pair s' r)
  show ?thesis
  proof (cases r)
    case (Inl e)
    then have "s' = s"
      using Pair finish_placements_refused
      by (auto simp: OffsetObject_def split: sum.splits if_splits)
    then show ?thesis using Pair Inl by simp
  next
    case (Inr u)
    then obtain house ob where res: "Resolve s (Some p) guid = Inr (house, ob)"
      and run: "finish_placements sv s p (map (shift_placement dx dy dz) (GroupMembers s ob)) = (s', Inr ())"
      using Pair by (auto simp: OffsetObject_def split: sum.splits if_splits)
    have ob: "sm_find (m_objects s) guid = Some ob" using res by (simp add: Resolve_Inr)
    have "objects_inv s' \<and> group_takes (shift_placement dx dy dz) s ob s'"
      by (rule finish_placements_group [OF assms ob _ run]) (simp add: shift_placement_def)
    then show ?thesis
      using res Pair Inr unfolding group_takes_def placed_shift by auto
  qed
qed

lemma furnished_inv: "objects_inv furnished_mgr"
  by (auto simp: objects_inv_def furnished_mgr_def mirrored_def HOUSE_GO_GUID_MIN_def split: if_splits)

lemma furnished_resolve: "Resolve furnished_mgr (Some plain_player) 8000000 = Inr (furnished_house, plain_object)"
  by (simp add: Resolve_Inr CheckOwner_def GetHouseAt_def GetHouseByInstance_def GetHouseById_def
      CanEditHouse_def furnished_mgr_def IsHouseFabric_def)

lemma furnished_group: "GroupMembers furnished_mgr plain_object = [plain_object]"
  by (simp add: GroupMembers_def furnished_mgr_def GetHouseById_def)

theorem offset_moves_group_witness:
  "map_option o_x (sm_find (m_objects (fst (OffsetObject plain_server furnished_mgr plain_player 8000000 2 0 0)))
     8000000) = Some 3"
proof -
  have "\<not> IsValidMapCoord 3 1 0 0 \<longleftrightarrow> False"
    by (simp add: IsValidMapCoord_def MAP_HALFSIZE_def M_PI_def)
  then have "snd (OffsetObject plain_server furnished_mgr plain_player 8000000 2 0 0) = Inr ()"
    by (simp add: OffsetObject_def furnished_resolve furnished_group HOUSE_MAX_NUDGE_def
        finish_placements_def PlaceAll_def shift_placement_def)
  then show ?thesis
    using offset_moves_group [OF furnished_inv, where sv = plain_server and p = plain_player and guid = 8000000
        and dx = 2 and dy = 0 and dz = 0] furnished_group
    by (auto simp: furnished_resolve split: prod.splits) (simp_all add: furnished_mgr_def)
qed

text \<open>
  a drag brings the piece to the player's feet, a hair off the floor, and its group with it: every
  member keeps its place relative to the piece.
\<close>
theorem drag_brings_group:
  assumes "objects_inv s"
  shows "case DragObject sv s p guid of
     (s', Inl e) \<Rightarrow> s' = s
   | (s', Inr u) \<Rightarrow> objects_inv s' \<and> (\<exists>house ob ob'. Resolve s (Some p) guid = Inr (house, ob)
       \<and> sm_find (m_objects s') guid = Some ob'
       \<and> o_x ob' = pl_x p \<and> o_y ob' = pl_y p \<and> o_z ob' = pl_z p + HOUSE_PLACE_LIFT
       \<and> (\<forall>m \<in> set (GroupMembers s ob). \<exists>m'. sm_find (m_objects s') (o_guid m) = Some m'
            \<and> o_x m' - o_x ob' = o_x m - o_x ob \<and> o_y m' - o_y ob' = o_y m - o_y ob
            \<and> o_z m' - o_z ob' = o_z m - o_z ob))"
proof (cases "DragObject sv s p guid")
  case (Pair s' r)
  show ?thesis
  proof (cases r)
    case (Inl e)
    then have "s' = s"
      using Pair finish_placements_refused by (auto simp: DragObject_def split: sum.splits)
    then show ?thesis using Pair Inl by simp
  next
    case (Inr u)
    then obtain house ob where res: "Resolve s (Some p) guid = Inr (house, ob)"
      and run: "finish_placements sv s p (map (shift_placement (pl_x p - o_x ob) (pl_y p - o_y ob)
                  (pl_z p + HOUSE_PLACE_LIFT - o_z ob)) (GroupMembers s ob)) = (s', Inr ())"
      using Pair by (auto simp: DragObject_def split: sum.splits)
    let ?f = "shift_placement (pl_x p - o_x ob) (pl_y p - o_y ob) (pl_z p + HOUSE_PLACE_LIFT - o_z ob)"
    have ob: "sm_find (m_objects s) guid = Some ob" using res by (simp add: Resolve_Inr)
    have g: "objects_inv s' \<and> group_takes ?f s ob s'"
      by (rule finish_placements_group [OF assms ob _ run]) (simp add: shift_placement_def)
    have row: "sm_find (m_objects s') (o_guid m) = Some (placed (?f m) m)"
      if "m \<in> set (GroupMembers s ob)" for m
      using g member_row(1) [OF assms ob that] that by (simp add: group_takes_def)
    have "ob \<in> set (GroupMembers s ob)" and "o_guid ob = guid"
      using GroupMembers_facts(4) [OF assms ob, of ob] objects_inv_row [OF assms ob] by auto
    with row [of ob] have self: "sm_find (m_objects s') guid = Some (placed (?f ob) ob)" by simp
    show ?thesis
      using Pair Inr res g self row by (fastforce simp: placed_def shift_placement_def)
  qed
qed

theorem drag_brings_group_witness:
  "map_option o_z (sm_find (m_objects (fst (DragObject plain_server furnished_mgr plain_player 8000000)))
     8000000) = Some HOUSE_PLACE_LIFT"
proof -
  have "\<not> IsValidMapCoord 0 0 HOUSE_PLACE_LIFT 0 \<longleftrightarrow> False"
    by (simp add: IsValidMapCoord_def MAP_HALFSIZE_def M_PI_def HOUSE_PLACE_LIFT_def)
  then have "snd (DragObject plain_server furnished_mgr plain_player 8000000) = Inr ()"
    by (simp add: DragObject_def furnished_resolve furnished_group
        finish_placements_def PlaceAll_def shift_placement_def)
  then show ?thesis
    using drag_brings_group [OF furnished_inv, where sv = plain_server and p = plain_player and guid = 8000000]
    by (auto simp: furnished_resolve split: prod.splits)
qed


lemma placed_swing:
  "o_x (placed (swing_placement ob t m) m) = o_x ob + (o_x m - o_x ob) * cos t - (o_y m - o_y ob) * sin t"
  "o_y (placed (swing_placement ob t m) m) = o_y ob + (o_x m - o_x ob) * sin t + (o_y m - o_y ob) * cos t"
  "o_z (placed (swing_placement ob t m) m) = o_z m"
  "o_o (placed (swing_placement ob t m) m) = NormalizeOrientation (o_o m + t)"
  by (simp_all add: placed_def swing_placement_def Let_def)

lemma rotation_keeps_distance:
  fixes a b c d t :: real
  shows "((a * cos t - b * sin t) - (c * cos t - d * sin t))\<^sup>2 + ((a * sin t + b * cos t) - (c * sin t + d * cos t))\<^sup>2
       = (a - c)\<^sup>2 + (b - d)\<^sup>2"
proof -
  have "((a * cos t - b * sin t) - (c * cos t - d * sin t))\<^sup>2 + ((a * sin t + b * cos t) - (c * sin t + d * cos t))\<^sup>2
      = ((a - c)\<^sup>2 + (b - d)\<^sup>2) * ((cos t)\<^sup>2 + (sin t)\<^sup>2)"
    by algebra
  then show ?thesis by simp
qed

text \<open>
  a turn swings the group around the clicked piece as a rigid body: the piece stays where it is,
  every member keeps its height and its distance on the floor to every other, "face me" leaves the
  piece at the player's orientation plus the angle, and a refusal changes nothing.
\<close>
theorem turn_swings_group:
  assumes "objects_inv s"
  shows "case TurnObject sv s p guid degrees faceMe of
     (s', Inl e) \<Rightarrow> s' = s
   | (s', Inr u) \<Rightarrow> objects_inv s' \<and> (\<exists>house ob ob'. Resolve s (Some p) guid = Inr (house, ob)
       \<and> sm_find (m_objects s') guid = Some ob' \<and> o_x ob' = o_x ob \<and> o_y ob' = o_y ob
       \<and> (faceMe \<longrightarrow> o_o ob' = NormalizeOrientation (pl_o p + degrees * (M_PI_F / 180)))
       \<and> (\<forall>m \<in> set (GroupMembers s ob). \<forall>n \<in> set (GroupMembers s ob). \<exists>m' n'.
            sm_find (m_objects s') (o_guid m) = Some m' \<and> sm_find (m_objects s') (o_guid n) = Some n'
            \<and> o_z m' = o_z m
            \<and> (o_x m' - o_x n')\<^sup>2 + (o_y m' - o_y n')\<^sup>2 = (o_x m - o_x n)\<^sup>2 + (o_y m - o_y n)\<^sup>2))"
proof (cases "TurnObject sv s p guid degrees faceMe")
  case (Pair s' r)
  show ?thesis
  proof (cases r)
    case (Inl e)
    then have "s' = s"
      using Pair finish_placements_refused by (auto simp: TurnObject_def Let_def split: sum.splits)
    then show ?thesis using Pair Inl by simp
  next
    case (Inr u)
    then obtain house ob where res: "Resolve s (Some p) guid = Inr (house, ob)"
      and run: "finish_placements sv s p (map (swing_placement ob
         ((if faceMe then pl_o p else o_o ob) + degrees * (M_PI_F / 180) - o_o ob)) (GroupMembers s ob)) = (s', Inr ())"
      using Pair by (auto simp: TurnObject_def Let_def split: sum.splits)
    define t where "t = (if faceMe then pl_o p else o_o ob) + degrees * (M_PI_F / 180) - o_o ob"
    let ?f = "swing_placement ob t"
    have ob: "sm_find (m_objects s) guid = Some ob" using res by (simp add: Resolve_Inr)
    have g: "objects_inv s' \<and> group_takes ?f s ob s'"
      by (rule finish_placements_group [OF assms ob _ run [folded t_def]]) (simp add: swing_placement_def Let_def)
    have row: "sm_find (m_objects s') (o_guid m) = Some (placed (?f m) m)"
      if "m \<in> set (GroupMembers s ob)" for m
      using g member_row(1) [OF assms ob that] that by (simp add: group_takes_def)
    have "ob \<in> set (GroupMembers s ob)" and "o_guid ob = guid"
      using GroupMembers_facts(4) [OF assms ob, of ob] objects_inv_row [OF assms ob] by auto
    with row [of ob] have self: "sm_find (m_objects s') guid = Some (placed (?f ob) ob)" by simp
    have dist: "(o_x (placed (?f m) m) - o_x (placed (?f n) n))\<^sup>2 + (o_y (placed (?f m) m) - o_y (placed (?f n) n))\<^sup>2
          = (o_x m - o_x n)\<^sup>2 + (o_y m - o_y n)\<^sup>2" for m n
      using rotation_keeps_distance [of "o_x m - o_x ob" t "o_y m - o_y ob" "o_x n - o_x ob" "o_y n - o_y ob"]
      by (simp add: placed_swing algebra_simps)
    have face: "faceMe \<longrightarrow> o_o (placed (?f ob) ob) = NormalizeOrientation (pl_o p + degrees * (M_PI_F / 180))"
      by (simp add: placed_swing t_def)
    show ?thesis
      using Pair Inr res g self face dist row placed_swing [of ob t]
      by (intro case_prodI2) (auto intro!: exI [of _ "placed (?f ob) ob"])
  qed
qed

theorem turn_swings_group_witness:
  "map_option o_o (sm_find (m_objects (fst (TurnObject plain_server furnished_mgr plain_player 8000000 0 True)))
     8000000) = Some (NormalizeOrientation 0)"
proof -
  have "\<not> IsValidMapCoord 1 1 0 0 \<longleftrightarrow> False"
    by (simp add: IsValidMapCoord_def MAP_HALFSIZE_def M_PI_def)
  then have "snd (TurnObject plain_server furnished_mgr plain_player 8000000 0 True) = Inr ()"
    by (simp add: TurnObject_def furnished_resolve furnished_group
        finish_placements_def PlaceAll_def swing_placement_def Let_def)
  then show ?thesis
    using turn_swings_group [OF furnished_inv, where sv = plain_server and p = plain_player
        and guid = 8000000 and degrees = 0 and faceMe = True]
    by (auto simp: furnished_resolve split: prod.splits)
qed

definition scale_placement :: "server \<Rightarrow> HouseObject \<Rightarrow> yards \<Rightarrow> yards \<Rightarrow> HouseObject \<Rightarrow> Placement" where
  "scale_placement sv ob f wanted m =
     (if o_guid m = o_guid ob
      then \<lparr>q_guid = o_guid m, q_x = o_x m, q_y = o_y m, q_z = o_z m, q_o = o_o m, q_scale = wanted\<rparr>
      else \<lparr>q_guid = o_guid m, q_x = o_x ob + (o_x m - o_x ob) * f, q_y = o_y ob + (o_y m - o_y ob) * f,
            q_z = o_z ob + (o_z m - o_z ob) * f, q_o = o_o m, q_scale = current_size sv m * f\<rparr>)"

lemma scale_placements_map:
  "scale_placements sv ob f wanted ms = Inr qs \<Longrightarrow>
   qs = map (scale_placement sv ob f wanted) ms
   \<and> (\<forall>m \<in> set ms. o_guid m \<noteq> o_guid ob \<longrightarrow> 1/10 \<le> current_size sv m * f \<and> current_size sv m * f \<le> 50)"
proof (induction ms arbitrary: qs)
  case (Cons m ms)
  then obtain qs' where q: "scale_placements sv ob f wanted ms = Inr qs'"
    by (cases "scale_placements sv ob f wanted ms") (auto simp: Let_def split: if_splits)
  from Cons.IH [OF q] Cons.prems q show ?case
    by (auto simp: Let_def scale_placement_def not_less split: if_splits)
qed simp

text \<open>
  a group scales as a set: with one factor for all, every member's size and its gap to the clicked
  piece, height included, is multiplied by it; every size ends between 0.1 and 50; a member that would
  leave that range, like any other refusal, changes nothing.
\<close>
theorem scale_keeps_proportions:
  assumes "objects_inv s"
  shows "case ScaleObject sv s p guid factor relative of
     (s', Inl e) \<Rightarrow> s' = s
   | (s', Inr u) \<Rightarrow> objects_inv s' \<and> (\<exists>house ob f. Resolve s (Some p) guid = Inr (house, ob) \<and> 0 < f
       \<and> (\<forall>m \<in> set (GroupMembers s ob). \<exists>m'. sm_find (m_objects s') (o_guid m) = Some m'
            \<and> o_scale m' = current_size sv m * f \<and> 1/10 \<le> o_scale m' \<and> o_scale m' \<le> 50
            \<and> o_x m' - o_x ob = (o_x m - o_x ob) * f \<and> o_y m' - o_y ob = (o_y m - o_y ob) * f
            \<and> o_z m' - o_z ob = (o_z m - o_z ob) * f))"
proof (cases "ScaleObject sv s p guid factor relative")
  case (Pair s' r)
  show ?thesis
  proof (cases r)
    case (Inl e)
    then have "s' = s"
      using Pair finish_placements_refused by (auto simp: ScaleObject_def Let_def split: sum.splits)
    then show ?thesis using Pair Inl by simp
  next
    case (Inr u)
    then obtain house ob where res: "Resolve s (Some p) guid = Inr (house, ob)"
      using Pair by (auto simp: ScaleObject_def split: sum.splits)
    define wanted where "wanted = clamp_scale (if relative then current_size sv ob * factor
                                               else base_size sv ob * factor)"
    define f where "f = wanted / current_size sv ob"
    obtain qs where qs: "scale_placements sv ob f wanted (GroupMembers s ob) = Inr qs"
      and run0: "finish_placements sv s p qs = (s', Inr ())"
      using Pair Inr res by (auto simp: ScaleObject_def Let_def f_def wanted_def split: sum.splits)
    let ?f = "scale_placement sv ob f wanted"
    have run: "finish_placements sv s p (map ?f (GroupMembers s ob)) = (s', Inr ())"
      and lim: "\<And>m. m \<in> set (GroupMembers s ob) \<Longrightarrow> o_guid m \<noteq> o_guid ob \<Longrightarrow>
                 1/10 \<le> current_size sv m * f \<and> current_size sv m * f \<le> 50"
      using scale_placements_map [OF qs] run0 by auto
    have w: "1/10 \<le> wanted" "wanted \<le> 50" by (auto simp: wanted_def clamp_scale_def)
    have pos: "current_size sv m > 0" for m
      by (auto simp: current_size_def base_size_def split: option.splits)
    have c: "current_size sv ob > 0" by (rule pos)
    then have "current_size sv ob \<noteq> 0" by linarith
    then have f: "0 < f" "current_size sv ob * f = wanted"
      using w c by (simp_all add: f_def)
    have ob: "sm_find (m_objects s) guid = Some ob" using res by (simp add: Resolve_Inr)
    have g: "objects_inv s' \<and> group_takes ?f s ob s'"
      by (rule finish_placements_group [OF assms ob _ run]) (simp add: scale_placement_def)
    have "\<exists>m'. sm_find (m_objects s') (o_guid m) = Some m'
            \<and> o_scale m' = current_size sv m * f \<and> 1/10 \<le> o_scale m' \<and> o_scale m' \<le> 50
            \<and> o_x m' - o_x ob = (o_x m - o_x ob) * f \<and> o_y m' - o_y ob = (o_y m - o_y ob) * f
            \<and> o_z m' - o_z ob = (o_z m - o_z ob) * f" if m: "m \<in> set (GroupMembers s ob)" for m
    proof -
      have row: "sm_find (m_objects s') (o_guid m) = Some (placed (?f m) m)"
        using g member_row(1) [OF assms ob m] m by (simp add: group_takes_def)
      show ?thesis
      proof (cases "o_guid m = o_guid ob")
        case True
        then have "m = ob" using member_row(1) [OF assms ob m] objects_inv_row [OF assms ob] ob by simp
        then show ?thesis
          using row w f by (intro exI [of _ "placed (?f m) m"]) (simp add: placed_def scale_placement_def)
      next
        case False
        have "0 < current_size sv m * f" using lim [OF m False] by linarith
        then show ?thesis
          using row False lim [OF m False]
          by (intro exI [of _ "placed (?f m) m"]) (simp add: placed_def scale_placement_def)
      qed
    qed
    then show ?thesis using Pair Inr res g f by auto
  qed
qed

theorem scale_keeps_proportions_witness:
  "map_option o_scale (sm_find (m_objects (fst (ScaleObject plain_server furnished_mgr plain_player 8000000 1 True)))
     8000000) \<noteq> None"
proof -
  have "\<not> IsValidMapCoord 1 1 0 0 \<longleftrightarrow> False"
    by (simp add: IsValidMapCoord_def MAP_HALFSIZE_def M_PI_def)
  then have "snd (ScaleObject plain_server furnished_mgr plain_player 8000000 1 True) = Inr ()"
    by (simp add: ScaleObject_def furnished_resolve furnished_group current_size_def base_size_def
        finish_placements_def PlaceAll_def clamp_scale_def Let_def)
  then show ?thesis
    using scale_keeps_proportions [OF furnished_inv, where sv = plain_server and p = plain_player
        and guid = 8000000 and factor = 1 and relative = True]
    by (auto simp: furnished_resolve furnished_group split: prod.splits)
qed

subsection \<open>Placing a new piece\<close>

lemma marks_kept [simp]:
  "m_marks (emit e s) = m_marks s" "m_marks (FlashObject sv p g s) = m_marks s"
  "m_marks (fst (GetSelectedObject s p)) = m_marks s"
  "m_marks (DespawnSelectionMarker p s) = m_marks s"
  "m_marks (RegisterObjectWithMap i ob s) = m_marks s" "m_marks (SpawnObjectNow sv i ob s) = m_marks s"
  "m_marks (pexec u s) = m_marks s" "m_marks (put_house h s) = m_marks s"
  by (simp_all add: emit_def FlashObject_def GetSelectedObject_def DespawnSelectionMarker_def
      RegisterObjectWithMap_def SpawnObjectNow_def pexec_def put_house_def split: option.splits)

lemma marks_RefreshSelectionMarker [simp]: "m_marks (RefreshSelectionMarker sv p s) = m_marks s"
proof -
  obtain s2 g where g: "GetSelectedObject (DespawnSelectionMarker p s) p = (s2, g)"
    by (metis prod.collapse)
  then have "m_marks s2 = m_marks s"
    using marks_kept(3) [of "DespawnSelectionMarker p s" p] by simp
  then show ?thesis by (simp add: RefreshSelectionMarker_def Let_def g split: option.splits)
qed

lemma marks_passes [simp]:
  "m_marks (fst (fold (unmark_step sv p w) ks sm)) = m_marks (fst sm)"
  "m_marks (fst (fold (mark_step sv p) ks sm)) = m_marks (fst sm)"
proof -
  have "m_marks (fst (unmark_step sv p w g sm)) = m_marks (fst sm)"
    "m_marks (fst (mark_step sv p g sm)) = m_marks (fst sm)" for g sm
    by (cases sm, simp)+
  then show "m_marks (fst (fold (unmark_step sv p w) ks sm)) = m_marks (fst sm)"
    "m_marks (fst (fold (mark_step sv p) ks sm)) = m_marks (fst sm)"
    by (induction ks arbitrary: sm) simp_all
qed

lemma marks_Reconcile [simp]: "m_marks (Reconcile sv p s) = m_marks s"
proof (cases "sm_find (m_editing s) (pl_guid p)")
  case (Some e)
  obtain s2 m2 where "mark_pass sv p (wanted_now s e) (unmark_pass sv p (wanted_now s e) (s, e_marked e)) = (s2, m2)"
    by (metis prod.collapse)
  moreover from arg_cong [OF this, of "\<lambda>r. m_marks (fst r)"] have "m_marks s2 = m_marks s"
    by (simp add: mark_pass_def unmark_pass_def)
  ultimately show ?thesis using Some by (simp add: Reconcile_def Let_def)
qed (simp add: Reconcile_def)

lemma marks_AddToEdit [simp]: "m_marks (AddToEdit sv p g s) = m_marks s"
  by (simp add: AddToEdit_def Let_def split: option.splits)

lemma core_put_house: "core (put_house h s) = put_house h (core s)"
  by (simp add: put_house_def core_updates core_selectors)

text \<open>The new row in memory, in its house and in the table.\<close>

definition insert_row :: "House \<Rightarrow> HouseObject \<Rightarrow> HouseMgr \<Rightarrow> HouseMgr" where
  "insert_row house ob s =
     put_house (house\<lparr>h_objects := h_objects house @ [o_guid ob]\<rparr>)
       (pexec (sql_insert_object ob)
         (s\<lparr>m_objects := sm_put (o_guid ob) ob (m_objects s), m_nextObjectGuid := o_guid ob + 1\<rparr>))"

lemma finish_place_core:
  assumes "m_nextObjectGuid s = o_guid ob + 1"
  shows "core (finish_place sv s p house ob used) = core (insert_row house ob s)"
proof -
  have "core (finish_place sv s p house ob used) =
      put_house (house\<lparr>h_objects := h_objects house @ [o_guid ob]\<rparr>)
        ((pexec (sql_insert_object ob) (core s))\<lparr>m_objects := sm_put (o_guid ob) ob (m_objects s)\<rparr>)"
    unfolding finish_place_def Let_def
    by (simp add: core_put_house core_updates core_selectors core_pexec pexec_def)
  also have "\<dots> = core (insert_row house ob s)"
    unfolding insert_row_def core_put_house core_pexec core_updates
    by (rule HouseMgr.equality) (simp_all add: put_house_def pexec_def core_def assms)
  finally show ?thesis .
qed

lemma finish_place_marks:
  "m_marks (finish_place sv s p house ob used) = (if used then sm_erase (pl_guid p) (m_marks s) else m_marks s)"
  by (simp add: finish_place_def Let_def ClearMark_def DespawnMarkMarker_def)

lemma core_of_update: "core s1 = core s \<Longrightarrow> core (insert_row house ob s1) = core (insert_row house ob s)"
  by (simp add: insert_row_def core_put_house core_pexec core_updates core_fields(3) [of s1 s]
      shell_core(3) [of s1 s])

definition new_row :: "player \<Rightarrow> House \<Rightarrow> u32 \<Rightarrow> u32 \<Rightarrow> yards \<times> yards \<times> yards \<Rightarrow> u32 \<Rightarrow> yards \<Rightarrow> u32 \<Rightarrow> HouseObject" where
  "new_row p house guid goEntry xyz itemEntry scale slot =
     (case xyz of (x, y, z) \<Rightarrow>
        \<lparr>o_guid = guid, o_houseId = h_id house, o_slot = slot, o_groupNo = 0, o_goEntry = goEntry,
         o_itemEntry = itemEntry, o_x = x, o_y = y, o_z = z + HOUSE_PLACE_LIFT,
         o_o = NormalizeOrientation (pl_o p + M_PI_F), o_rot = (0, 0, 0, 0), o_scale = scale,
         o_source = HOUSE_SOURCE_PLAYER\<rparr>)"

text \<open>Where the piece is aimed, and the state after the mark was read.\<close>

definition aim_of :: "HouseMgr \<Rightarrow> player \<Rightarrow> (yards \<times> yards \<times> yards) option \<Rightarrow> HouseMgr \<times> (yards \<times> yards \<times> yards) option" where
  "aim_of s p spot = (case spot of None \<Rightarrow> GetMark s p | Some a \<Rightarrow> (s, Some a))"

lemma PlaceObject_cases:
  assumes "m_nextObjectGuid s \<noteq> 0"
  obtains (refused) e s1 where "PlaceObject sv s p goEntry distance itemEntry scale spot = (s1, Inl e)"
      and "s1 = s \<or> s1 = fst (aim_of s p spot)"
  | (accepted) house s1 xyz where "CheckOwner s (Some p) = Inr house"
      and "CountPlayerObjects s house < HOUSE_MAX_OBJECTS"
      and "s1 = fst (aim_of s p spot)" and "m_nextObjectGuid s < HOUSE_GO_GUID_MAX"
      and "m_nextObjectGuid s \<noteq> 0"
      and "(case snd (aim_of s p spot) of Some a \<Rightarrow> PlaceAtPoint sv p a = Inr xyz
            | None \<Rightarrow> xyz = PlaceAheadOfPlayer p (clamp_distance distance))"
      and "PlaceObject sv s p goEntry distance itemEntry scale spot =
             (finish_place sv (s1\<lparr>m_nextObjectGuid := m_nextObjectGuid s + 1\<rparr>) p house
                (new_row p house (m_nextObjectGuid s) goEntry xyz itemEntry scale (AllocateSlot s house))
                (spot = None \<and> snd (aim_of s p spot) \<noteq> None), Inr ())"
proof -
  obtain s1 aim where am: "aim_of s p spot = (s1, aim)" by (metis prod.collapse)
  have c1: "core s1 = core s"
    using am core_GetMark [of s p] by (cases spot) (simp_all add: aim_of_def)
  note next1 = core_fields(2) [OF c1]
  have slot1: "AllocateSlot (s1\<lparr>m_nextObjectGuid := n\<rparr>) = AllocateSlot s" for n
    using shell_core(3) [OF c1] by (simp add: fun_eq_iff AllocateSlot_def)
  define place where "place = (case aim of Some a \<Rightarrow> PlaceAtPoint sv p a
                     | None \<Rightarrow> Inr (PlaceAheadOfPlayer p (clamp_distance distance)))"
  have body: "(let (s1', mark) = (case spot of None \<Rightarrow> GetMark s p | Some _ \<Rightarrow> (s, None));
                    usedMark = (mark \<noteq> None);
                    aim' = (case spot of None \<Rightarrow> mark | Some _ \<Rightarrow> spot);
                    place = (case aim' of
                               Some a \<Rightarrow> PlaceAtPoint sv p a
                             | None \<Rightarrow> Inr (PlaceAheadOfPlayer p (clamp_distance distance)))
                in F s1' usedMark place) = F s1 (spot = None \<and> aim \<noteq> None) place" for F :: "HouseMgr \<Rightarrow> bool \<Rightarrow> _ \<Rightarrow> HouseMgr \<times> unit res"
    using am by (auto simp: aim_of_def place_def Let_def split: option.splits prod.splits)
  show ?thesis
  proof (cases "CheckOwner s (Some p)")
    case (Inl e)
    then show ?thesis by (intro refused [of s e]) (simp_all add: PlaceObject_def)
  next
    case (Inr house)
    show ?thesis
    proof (cases "CountPlayerObjects s house \<ge> HOUSE_MAX_OBJECTS \<or> sv_go sv goEntry = None
        \<or> (\<exists>info. sv_go sv goEntry = Some info \<and> gi_displayId info \<noteq> 0 \<and> \<not> sv_display sv (gi_displayId info))")
      case True
      then have "\<exists>e. PlaceObject sv s p goEntry distance itemEntry scale spot = (s, Inl e)"
        using Inr by (auto simp: PlaceObject_def split: option.splits)
      then show ?thesis using refused by blast
    next
      case ok: False
      then obtain info where info: "sv_go sv goEntry = Some info" by auto
      with ok have disp: "\<not> (gi_displayId info \<noteq> 0 \<and> \<not> sv_display sv (gi_displayId info))" by auto
      have cnt: "\<not> CountPlayerObjects s house \<ge> HOUSE_MAX_OBJECTS" using ok by blast
      have eq: "PlaceObject sv s p goEntry distance itemEntry scale spot =
         (case place of Inl e \<Rightarrow> (s1, Inl e)
          | Inr (x, y, z) \<Rightarrow>
              (case AllocateObjectGuid s1 of (s2, guid) \<Rightarrow>
                 if guid = 0 then (s2, Inl ''Out of furniture ids.'')
                 else
                   let ob = \<lparr>o_guid = guid, o_houseId = h_id house, o_slot = AllocateSlot s2 house, o_groupNo = 0,
                             o_goEntry = goEntry, o_itemEntry = itemEntry, o_x = x, o_y = y,
                             o_z = z + HOUSE_PLACE_LIFT, o_o = NormalizeOrientation (pl_o p + M_PI_F),
                             o_rot = (0, 0, 0, 0), o_scale = scale, o_source = HOUSE_SOURCE_PLAYER\<rparr>
                   in (finish_place sv s2 p house ob (spot = None \<and> aim \<noteq> None), Inr ())))"
        unfolding PlaceObject_def Inr sum.case info option.case if_not_P [OF disp] if_not_P [OF cnt]
        by (rule body)
      show ?thesis
      proof (cases place)
        case (Inl e)
        then show ?thesis using eq am by (intro refused [of s1 e]) simp_all
      next
        case pl: (Inr xyz)
        show ?thesis
        proof (cases "m_nextObjectGuid s \<ge> HOUSE_GO_GUID_MAX")
          case True
          then have "AllocateObjectGuid s1 = (s1, 0)" by (simp add: AllocateObjectGuid_def next1)
          then have "PlaceObject sv s p goEntry distance itemEntry scale spot
              = (s1, Inl ''Out of furniture ids.'')"
            using eq pl by (cases xyz) simp
          then show ?thesis using refused am by simp
        next
          case lt: False
          then have al: "AllocateObjectGuid s1 = (s1\<lparr>m_nextObjectGuid := m_nextObjectGuid s + 1\<rparr>, m_nextObjectGuid s)"
            by (simp add: AllocateObjectGuid_def next1)
          have "PlaceObject sv s p goEntry distance itemEntry scale spot =
             (finish_place sv (s1\<lparr>m_nextObjectGuid := m_nextObjectGuid s + 1\<rparr>) p house
                (new_row p house (m_nextObjectGuid s) goEntry xyz itemEntry scale (AllocateSlot s house))
                (spot = None \<and> snd (aim_of s p spot) \<noteq> None), Inr ())"
            using eq pl al lt am assms by (cases xyz) (simp add: new_row_def slot1)
          then show ?thesis
            using Inr cnt am lt pl assms
            by (intro accepted [of house s1 xyz]) (auto simp: place_def not_le split: option.splits)
        qed
      qed
    qed
  qed
qed


lemma objects_inv_bounds: "objects_inv s \<Longrightarrow> m_nextObjectGuid s \<noteq> 0"
  by (auto simp: objects_inv_def HOUSE_GO_GUID_MIN_def word_le_nat_alt)

lemma insert_row_fields:
  "m_objects (insert_row house ob s) = sm_put (o_guid ob) ob (m_objects s)"
  "m_houses (insert_row house ob s) =
     sm_put (h_id house) (house\<lparr>h_objects := h_objects house @ [o_guid ob]\<rparr>) (m_houses s)"
  "m_nextObjectGuid (insert_row house ob s) = o_guid ob + 1"
  "tb_object (m_db (insert_row house ob s)) = sm_put (o_guid ob) ob (tb_object (m_db s))"
  by (simp_all add: insert_row_def put_house_def pexec_def sql_insert_object_def)

lemma GetHouseAt_found:
  "objects_inv s \<Longrightarrow> GetHouseAt s pl = Some house \<Longrightarrow> sm_find (m_houses s) (h_id house) = Some house"
  using objects_inv_house
  by (fastforce simp: GetHouseAt_def GetHouseByInstance_def GetHouseById_def split: option.splits if_splits)

lemma insert_row_inv:
  assumes inv: "objects_inv s" and h: "sm_find (m_houses s) (h_id house) = Some house"
    and ob: "o_guid ob = m_nextObjectGuid s" "o_houseId ob = h_id house"
    and lt: "m_nextObjectGuid s < HOUSE_GO_GUID_MAX"
  shows "objects_inv (insert_row house ob s)"
proof -
  have fresh: "sm_find (m_objects s) (o_guid ob) = None"
    using objects_inv_row [OF inv] ob by (cases "sm_find (m_objects s) (o_guid ob)") auto
  have up: "m_nextObjectGuid s < m_nextObjectGuid s + 1" by (rule u32_succ(2) [OF lt])
  have notin: "o_guid ob \<notin> set (h_objects house)"
    using objects_inv_house [OF inv h] fresh by auto
  show ?thesis
    unfolding objects_inv_def insert_row_fields mirrored_def
  proof (intro conjI allI impI)
    fix g r
    assume r: "sm_find (sm_put (o_guid ob) ob (m_objects s)) g = Some r"
    show "o_guid r = g" and "g \<noteq> 0" and "g < o_guid ob + 1"
      and "\<exists>h. sm_find (sm_put (h_id house) (house\<lparr>h_objects := h_objects house @ [o_guid ob]\<rparr>) (m_houses s))
               (o_houseId r) = Some h \<and> g \<in> set (h_objects h)"
      using r ob up objects_inv_row [OF inv, of g r] objects_inv_bounds [OF inv] h
      by (auto split: if_splits intro: less_trans)
  next
    fix i h'
    assume h': "sm_find (sm_put (h_id house) (house\<lparr>h_objects := h_objects house @ [o_guid ob]\<rparr>) (m_houses s)) i = Some h'"
    show "h_id h' = i" and "distinct (h_objects h')"
      and "\<forall>g \<in> set (h_objects h'). \<exists>r. sm_find (sm_put (o_guid ob) ob (m_objects s)) g = Some r \<and> o_houseId r = i"
      using h' ob notin fresh objects_inv_house [OF inv h] objects_inv_house [OF inv, of i h']
      by (auto split: if_splits)
  next
    show "sm_find (sm_put (o_guid ob) ob (m_objects s)) = sm_find (sm_put (o_guid ob) ob (tb_object (m_db s)))"
      using inv by (auto simp: objects_inv_def mirrored_def fun_eq_iff)
    show "HOUSE_GO_GUID_MIN \<le> o_guid ob + 1"
      using inv up ob by (auto simp: objects_inv_def)
  qed
qed


lemma aim_core: "core (fst (aim_of s p spot)) = core s"
  by (cases spot) (simp_all add: aim_of_def)

lemma CheckOwner_house:
  assumes "objects_inv s" and "CheckOwner s (Some p) = Inr house"
  shows "sm_find (m_houses s) (h_id house) = Some house"
  using assms GetHouseAt_found unfolding CheckOwner_Inr by blast

lemma placed_core:
  assumes "s1 = fst (aim_of s p spot)"
  shows "core (finish_place sv (s1\<lparr>m_nextObjectGuid := m_nextObjectGuid s + 1\<rparr>) p house
           (new_row p house (m_nextObjectGuid s) goEntry xyz itemEntry scale slot) used)
       = core (insert_row house (new_row p house (m_nextObjectGuid s) goEntry xyz itemEntry scale slot) s)"
proof -
  let ?ob = "new_row p house (m_nextObjectGuid s) goEntry xyz itemEntry scale slot"
  let ?s1 = "s1\<lparr>m_nextObjectGuid := m_nextObjectGuid s + 1\<rparr>"
  have g: "o_guid ?ob = m_nextObjectGuid s" by (cases xyz) (simp add: new_row_def)
  have "core (finish_place sv ?s1 p house ?ob used) = core (insert_row house ?ob ?s1)"
    by (rule finish_place_core) (simp add: g)
  also have "insert_row house ?ob ?s1 = insert_row house ?ob s1"
    by (simp add: insert_row_def put_house_def pexec_def)
  also have "core (insert_row house ?ob s1) = core (insert_row house ?ob s)"
    by (rule core_of_update) (simp add: assms aim_core)
  finally show ?thesis .
qed

lemma count_after_insert:
  assumes inv: "objects_inv s" and h: "sm_find (m_houses s) (h_id house) = Some house"
    and ob: "o_guid ob = m_nextObjectGuid s" "o_source ob = HOUSE_SOURCE_PLAYER"
    and t: "core t = core (insert_row house ob s)"
  shows "CountPlayerObjects t (house\<lparr>h_objects := h_objects house @ [o_guid ob]\<rparr>) = CountPlayerObjects s house + 1"
proof -
  have m: "m_objects t = sm_put (o_guid ob) ob (m_objects s)"
    using shell_core(3) [OF t] by (simp add: insert_row_fields)
  have "sm_find (m_objects s) (o_guid ob) = None"
    using objects_inv_row [OF inv] ob by (cases "sm_find (m_objects s) (o_guid ob)") auto
  then have "o_guid ob \<notin> set (h_objects house)" using objects_inv_house [OF inv h] by auto
  then have "filter (is_player_object t) (h_objects house) = filter (is_player_object s) (h_objects house)"
    by (intro filter_cong) (auto simp: is_player_object_def m)
  moreover have "is_player_object t (o_guid ob)" by (simp add: is_player_object_def m ob)
  ultimately show ?thesis by (simp add: CountPlayerObjects_eq)
qed

text \<open>
  C2: placing furniture. A refusal leaves every house, row, shelf and table exactly as it was. A
  success happens only in a house the player may edit and only below the cap of a hundred pieces; it
  adds one row, under an id never used before, to memory, house and table alike; the house then holds
  one player object more, at most a hundred; and the new piece's number is used by no other piece of
  the house.
\<close>
theorem place_object_adds_one_row:
  assumes "objects_inv s"
  shows "case PlaceObject sv s p goEntry distance itemEntry scale spot of
     (s', Inl e) \<Rightarrow> core s' = core s
   | (s', Inr u) \<Rightarrow> objects_inv s' \<and> (\<exists>house ob. CheckOwner s (Some p) = Inr house
       \<and> sm_find (m_objects s) (o_guid ob) = None
       \<and> sm_find (m_objects s') = (sm_find (m_objects s))(o_guid ob \<mapsto> ob)
       \<and> o_houseId ob = h_id house \<and> o_itemEntry ob = itemEntry \<and> o_source ob = HOUSE_SOURCE_PLAYER
       \<and> sm_find (m_houses s') (h_id house) = Some (house\<lparr>h_objects := h_objects house @ [o_guid ob]\<rparr>)
       \<and> CountPlayerObjects s' (house\<lparr>h_objects := h_objects house @ [o_guid ob]\<rparr>) = CountPlayerObjects s house + 1
       \<and> CountPlayerObjects s' (house\<lparr>h_objects := h_objects house @ [o_guid ob]\<rparr>) \<le> HOUSE_MAX_OBJECTS
       \<and> (o_slot ob \<noteq> 0 \<longrightarrow> (\<forall>g \<in> set (h_objects house). \<forall>m. sm_find (m_objects s) g = Some m \<longrightarrow> o_slot m \<noteq> o_slot ob)))"
using objects_inv_bounds [OF assms]
proof (cases rule: PlaceObject_cases [consumes 1, of s sv p goEntry distance itemEntry scale spot])
  case (refused e s1)
  then have "core s1 = core s" using aim_core [of s p spot] by auto
  with refused show ?thesis by simp
next
  case (accepted house s1 xyz)
  let ?ob = "new_row p house (m_nextObjectGuid s) goEntry xyz itemEntry scale (AllocateSlot s house)"
  let ?s' = "finish_place sv (s1\<lparr>m_nextObjectGuid := m_nextObjectGuid s + 1\<rparr>) p house ?ob
                (spot = None \<and> snd (aim_of s p spot) \<noteq> None)"
  have ob: "o_guid ?ob = m_nextObjectGuid s" "o_houseId ?ob = h_id house" "o_itemEntry ?ob = itemEntry"
    "o_source ?ob = HOUSE_SOURCE_PLAYER" "o_slot ?ob = AllocateSlot s house"
    by (cases xyz, simp add: new_row_def)+
  have h: "sm_find (m_houses s) (h_id house) = Some house" by (rule CheckOwner_house [OF assms accepted(1)])
  have core: "core ?s' = core (insert_row house ?ob s)" by (rule placed_core [OF accepted(3)])
  have inv': "objects_inv ?s'"
    by (rule objects_inv_core [OF insert_row_inv [OF assms h ob(1,2) accepted(4)] core])
  have count: "CountPlayerObjects ?s' (house\<lparr>h_objects := h_objects house @ [o_guid ?ob]\<rparr>)
        = CountPlayerObjects s house + 1"
    by (rule count_after_insert [OF assms h ob(1,4) core])
  have "CountPlayerObjects s house + 1 \<le> HOUSE_MAX_OBJECTS"
    using u32_succ(3) [OF accepted(2)] accepted(2) by (simp add: word_le_nat_alt word_less_nat_alt)
  then have "CountPlayerObjects ?s' (house\<lparr>h_objects := h_objects house @ [o_guid ?ob]\<rparr>) \<le> HOUSE_MAX_OBJECTS"
    unfolding count .
  moreover have "sm_find (m_objects s) (o_guid ?ob) = None"
    using objects_inv_row [OF assms] ob(1) by (cases "sm_find (m_objects s) (o_guid ?ob)") auto
  moreover have "sm_find (m_objects ?s') = (sm_find (m_objects s))(o_guid ?ob \<mapsto> ?ob)"
    using shell_core(3) [OF core] by (simp add: insert_row_fields fun_eq_iff)
  moreover have "sm_find (m_houses ?s') (h_id house) = Some (house\<lparr>h_objects := h_objects house @ [o_guid ?ob]\<rparr>)"
    using core_fields(4) [OF core] by (simp add: insert_row_fields)
  moreover have "\<forall>g \<in> set (h_objects house). \<forall>m. sm_find (m_objects s) g = Some m \<longrightarrow> o_slot m \<noteq> o_slot ?ob"
    if "o_slot ?ob \<noteq> 0"
    using that object_slots.alloc_fresh unfolding ob by blast
  ultimately show ?thesis
    unfolding accepted(7) prod.case sum.case
    using accepted(1) inv' count ob(2-4)
    by (intro conjI exI [of _ house] exI [of _ ?ob] impI) (assumption | blast)+
qed

lemma plain_mgr_inv: "objects_inv plain_mgr"
  by (auto simp: objects_inv_def mirrored_def split: if_splits)

lemma plain_owner: "CheckOwner plain_mgr (Some plain_player) = Inr plain_house"
  by (simp add: CheckOwner_Inr GetHouseAt_def GetHouseByInstance_def GetHouseById_def CanEditHouse_def)

lemma plain_place:
  "snd (PlaceObject plain_server plain_mgr plain_player 500 2 900 1 None) = Inr ()"
  by (simp add: PlaceObject_def plain_owner CountPlayerObjects_def HOUSE_MAX_OBJECTS_def GetMark_def
      AllocateObjectGuid_def HOUSE_GO_GUID_MIN_def HOUSE_GO_GUID_MAX_def PlaceAheadOfPlayer_def Let_def)

theorem place_object_adds_one_row_witness:
  "objects_inv (fst (PlaceObject plain_server plain_mgr plain_player 500 2 900 1 None))"
  using place_object_adds_one_row [OF plain_mgr_inv, where sv = plain_server and p = plain_player
      and goEntry = 500 and distance = 2 and itemEntry = 900 and scale = 1 and spot = None] plain_place
  by (auto split: prod.splits)

text \<open>
  the chalk is spent by the placement that uses it and by nothing else: with a live mark, a refused
  placement leaves it standing, a placement with its own point leaves it standing, and a placement
  without one lands on the mark and takes it up.
\<close>
theorem mark_spent_by_its_placement:
  assumes "objects_inv s" and "GetMark s p = (s, Some (x, y, z))"
  shows "case PlaceObject sv s p goEntry distance itemEntry scale spot of
     (s', Inl e) \<Rightarrow> m_marks s' = m_marks s
   | (s', Inr u) \<Rightarrow>
       (if spot = None then sm_find (m_marks s') (pl_guid p) = None else m_marks s' = m_marks s)
       \<and> (\<exists>ob. sm_find (m_objects s') (m_nextObjectGuid s) = Some ob
            \<and> (o_x ob, o_y ob, o_z ob - HOUSE_PLACE_LIFT) = (case spot of None \<Rightarrow> (x, y, z) | Some a \<Rightarrow> a))"
proof -
  have aim: "aim_of s p spot = (s, case spot of None \<Rightarrow> Some (x, y, z) | Some a \<Rightarrow> Some a)"
    using assms(2) by (simp add: aim_of_def split: option.splits)
  have pt: "xyz = a" if "PlaceAtPoint sv p a = Inr xyz" for a xyz
    using that by (auto simp: PlaceAtPoint_def split: prod.splits if_splits)
  show ?thesis
    using objects_inv_bounds [OF assms(1)]
  proof (cases rule: PlaceObject_cases [consumes 1, of s sv p goEntry distance itemEntry scale spot])
    case (refused e s1)
    then show ?thesis using aim by auto
  next
    case (accepted house s1 xyz)
    have xyz: "xyz = (case spot of None \<Rightarrow> (x, y, z) | Some a \<Rightarrow> a)"
      using accepted(6) aim by (cases spot) (auto dest: pt simp del: split_paired_All)
    let ?ob = "new_row p house (m_nextObjectGuid s) goEntry xyz itemEntry scale (AllocateSlot s house)"
    have "o_guid ?ob = m_nextObjectGuid s" and coords: "(o_x ?ob, o_y ?ob, o_z ?ob - HOUSE_PLACE_LIFT) = xyz"
      by (cases xyz, simp add: new_row_def)+
    moreover note shell_core(3) [OF placed_core [OF accepted(3), where sv = sv and house = house and goEntry = goEntry
        and xyz = xyz and itemEntry = itemEntry and scale = scale and slot = "AllocateSlot s house"
        and used = "spot = None \<and> snd (aim_of s p spot) \<noteq> None"]]
    ultimately show ?thesis
      using accepted(3,7) aim xyz
      by (auto simp: finish_place_marks insert_row_fields split: option.splits)
  qed
qed

theorem mark_spent_by_its_placement_witness:
  "sm_find (m_marks (fst (PlaceObject plain_server
      (plain_mgr\<lparr>m_marks := [(1, \<lparr>m_houseId = 3, m_x = 1, m_y = 2, m_z = 0\<rparr>)]\<rparr>) plain_player 500 2 900 1 None))) 1 = None"
proof -
  let ?s = "plain_mgr\<lparr>m_marks := [(1, \<lparr>m_houseId = 3, m_x = 1, m_y = 2, m_z = 0\<rparr>)]\<rparr>"
  have core: "core ?s = core plain_mgr" by simp
  have at: "GetHouseAt ?s (Some plain_player) = Some plain_house"
    by (simp add: GetHouseAt_def GetHouseByInstance_def GetHouseById_def)
  have inv: "objects_inv ?s" by (rule objects_inv_core [OF plain_mgr_inv core])
  have mark: "GetMark ?s plain_player = (?s, Some (1, 2, 0))"
    by (simp add: GetMark_def at)
  have own: "CheckOwner ?s (Some plain_player) = Inr plain_house"
    using lookups_core(3) [OF core] plain_owner by simp
  have "snd (PlaceObject plain_server ?s plain_player 500 2 900 1 None) = Inr ()"
    by (simp add: PlaceObject_def own mark CountPlayerObjects_def HOUSE_MAX_OBJECTS_def
        AllocateObjectGuid_def HOUSE_GO_GUID_MIN_def HOUSE_GO_GUID_MAX_def PlaceAtPoint_def
        IsWithinDist3d_def HOUSE_PLACE_DISTANCE_MAX_def HOUSE_PLACE_HEIGHT_MAX_def Let_def)
  then show ?thesis
    using mark_spent_by_its_placement [OF inv mark, where sv = plain_server and goEntry = 500
        and distance = 2 and itemEntry = 900 and scale = 1 and spot = None]
    by (auto split: prod.splits)
qed

subsection \<open>Staying on the map\<close>

definition row_on_map :: "HouseObject \<Rightarrow> bool" where
  "row_on_map ob = IsValidMapCoord (o_x ob) (o_y ob) (o_z ob) (o_o ob)"

definition rows_on_map :: "HouseMgr \<Rightarrow> bool" where
  "rows_on_map s \<longleftrightarrow> (\<forall>g ob. sm_find (m_objects s) g = Some ob \<longrightarrow> row_on_map ob)"

lemma fmod_bounds: "0 < b \<Longrightarrow> 0 \<le> fmod a b \<and> fmod a b < b"
proof -
  assume b: "0 < b"
  show ?thesis
    using floor_divide_lower [OF b, of a] floor_divide_upper [OF b, of a] by (simp add: fmod_def algebra_simps)
qed

lemma NormalizeOrientation_bounds:
  "0 \<le> NormalizeOrientation a" "NormalizeOrientation a \<le> 2 * M_PI_F"
  using fmod_bounds [of "2 * M_PI_F" a] fmod_bounds [of "2 * M_PI_F" "a * -1"]
  by (auto simp: NormalizeOrientation_def M_PI_F_def)

lemma NormalizeOrientation_valid: "\<bar>NormalizeOrientation a\<bar> \<le> 4 * M_PI"
  using NormalizeOrientation_bounds [of a] by (simp add: M_PI_F_def M_PI_def)

lemma finish_placements_on_map:
  assumes "objects_inv s" and "sm_find (m_objects s) guid = Some ob"
    and "\<And>m. q_guid (place m) = o_guid m" and "rows_on_map s"
    and "finish_placements sv s p (map place (GroupMembers s ob)) = (s', Inr ())"
  shows "rows_on_map s'"
proof -
  have "IsValidMapCoord (q_x (place m)) (q_y (place m)) (q_z (place m)) (q_o (place m))"
    if "m \<in> set (GroupMembers s ob)" for m
    using assms(5) that
    by (auto simp: finish_placements_def PlaceAll_def list_ex_iff split: if_splits)
  then have "row_on_map (placed (place m) m)" if "m \<in> set (GroupMembers s ob)" for m
    using that NormalizeOrientation_valid [of "q_o (place m)"]
    by (simp add: row_on_map_def IsValidMapCoord_def placed_def)
  moreover have "group_takes place s ob s'"
    using finish_placements_group [OF assms(1,2,3,5)] by blast
  ultimately show ?thesis
    using assms(4) by (auto simp: rows_on_map_def group_takes_def)
qed

text \<open>
  no rearrangement puts a piece off the map: if every row is at a coordinate the map can hold, it
  still is after any drag, nudge, turn or resize, of one piece or of a group, whatever the command
  asked for (an off-map row takes the server down when its grid loads).
\<close>
theorem rearranging_stays_on_map:
  assumes "objects_inv s" and "rows_on_map s"
  shows "rows_on_map (fst (DragObject sv s p guid)) \<and> rows_on_map (fst (OffsetObject sv s p guid dx dy dz))
       \<and> rows_on_map (fst (TurnObject sv s p guid degrees faceMe))
       \<and> rows_on_map (fst (ScaleObject sv s p guid factor relative))"
proof (cases "Resolve s (Some p) guid")
  case (Inl e)
  then show ?thesis
    using assms by (simp add: DragObject_def OffsetObject_def TurnObject_def ScaleObject_def)
next
  case (Inr ho)
  obtain house ob where ho: "ho = (house, ob)" by (metis prod.collapse)
  have ob: "sm_find (m_objects s) guid = Some ob" using Inr ho by (simp add: Resolve_Inr)
  have fin: "rows_on_map (fst (finish_placements sv s p (map place (GroupMembers s ob))))"
    if "\<And>m. q_guid (place m) = o_guid m" for place
  proof (cases "finish_placements sv s p (map place (GroupMembers s ob))")
    case (Pair s' r)
    show ?thesis
    proof (cases r)
      case (Inl e)
      then have "s' = s" using Pair finish_placements_refused by blast
      then show ?thesis using Pair assms(2) by simp
    next
      case (Inr u)
      then show ?thesis using Pair finish_placements_on_map [OF assms(1) ob that assms(2)] by simp
    qed
  qed
  have "rows_on_map (fst (ScaleObject sv s p guid factor relative))"
  proof (cases "scale_placements sv ob (clamp_scale (if relative then current_size sv ob * factor
        else base_size sv ob * factor) / current_size sv ob) (clamp_scale (if relative then
        current_size sv ob * factor else base_size sv ob * factor)) (GroupMembers s ob)")
    case (Inl e)
    then show ?thesis using \<open>Resolve s (Some p) guid = Inr ho\<close> ho assms(2) by (simp add: ScaleObject_def Let_def)
  next
    case (Inr qs)
    then show ?thesis
      using \<open>Resolve s (Some p) guid = Inr ho\<close> ho scale_placements_map [OF Inr]
        fin [of "scale_placement sv ob (clamp_scale (if relative then current_size sv ob * factor
          else base_size sv ob * factor) / current_size sv ob) (clamp_scale (if relative then
          current_size sv ob * factor else base_size sv ob * factor))"]
      by (simp add: ScaleObject_def Let_def scale_placement_def [abs_def])
  qed
  then show ?thesis
    using Inr ho fin assms(2)
    by (simp add: DragObject_def OffsetObject_def TurnObject_def Let_def shift_placement_def swing_placement_def)
qed

theorem rearranging_stays_on_map_witness:
  "rows_on_map (fst (OffsetObject plain_server furnished_mgr plain_player 8000000 90 0 0))"
proof -
  have "rows_on_map furnished_mgr"
    by (simp add: rows_on_map_def furnished_mgr_def row_on_map_def IsValidMapCoord_def MAP_HALFSIZE_def M_PI_def)
  from rearranging_stays_on_map [OF furnished_inv this] show ?thesis by blast
qed

text \<open>
  a fresh placement has no such guard: a player standing by the edge of the map, where a nudge of
  the placed piece to the same spot would be refused, can put a row off the map.
\<close>
theorem place_object_can_leave_map:
  "\<exists>s' ob. PlaceObject plain_server plain_mgr (plain_player\<lparr>pl_x := 17066\<rparr>) 500 2 900 1 None = (s', Inr ())
     \<and> sm_find (m_objects s') 8000000 = Some ob \<and> \<not> row_on_map ob"
proof -
  let ?p = "plain_player\<lparr>pl_x := 17066\<rparr>"
  have own: "CheckOwner plain_mgr (Some ?p) = Inr plain_house"
    by (simp add: CheckOwner_Inr GetHouseAt_def GetHouseByInstance_def GetHouseById_def CanEditHouse_def)
  define ob where "ob = new_row ?p plain_house 8000000 500 (17068, 0, 0) 900 1 (AllocateSlot plain_mgr plain_house)"
  have "PlaceObject plain_server plain_mgr ?p 500 2 900 1 None
     = (finish_place plain_server (plain_mgr\<lparr>m_nextObjectGuid := 8000001\<rparr>) ?p plain_house ob False, Inr ())"
    by (simp add: PlaceObject_def own CountPlayerObjects_def HOUSE_MAX_OBJECTS_def GetMark_def
        AllocateObjectGuid_def HOUSE_GO_GUID_MIN_def HOUSE_GO_GUID_MAX_def PlaceAheadOfPlayer_def
        clamp_distance_def HOUSE_PLACE_DISTANCE_MAX_def Let_def ob_def new_row_def AllocateSlot_def
        highest_in_def)
  moreover have "core (finish_place plain_server (plain_mgr\<lparr>m_nextObjectGuid := 8000001\<rparr>) ?p plain_house ob False)
      = core (insert_row plain_house ob (plain_mgr\<lparr>m_nextObjectGuid := 8000001\<rparr>))"
    by (rule finish_place_core) (simp add: ob_def new_row_def)
  from shell_core(3) [OF this]
  have "sm_find (m_objects (finish_place plain_server (plain_mgr\<lparr>m_nextObjectGuid := 8000001\<rparr>) ?p plain_house ob False))
          8000000 = Some ob"
    by (simp add: insert_row_fields ob_def new_row_def)
  moreover have "\<not> row_on_map ob"
    by (simp add: row_on_map_def ob_def new_row_def IsValidMapCoord_def MAP_HALFSIZE_def)
  ultimately show ?thesis by blast
qed

subsection \<open>Taking a piece out\<close>

text \<open>The row gone from memory, from its house and from the table.\<close>

definition delete_row :: "House \<Rightarrow> u32 \<Rightarrow> HouseMgr \<Rightarrow> HouseMgr" where
  "delete_row house guid s =
     put_house (house\<lparr>h_objects := filter (\<lambda>g. g \<noteq> guid) (h_objects house)\<rparr>)
       (pexec (sql_delete_object guid) (s\<lparr>m_objects := sm_erase guid (m_objects s)\<rparr>))"

lemma delete_row_fields:
  "m_objects (delete_row house guid s) = sm_erase guid (m_objects s)"
  "m_houses (delete_row house guid s) =
     sm_put (h_id house) (house\<lparr>h_objects := filter (\<lambda>g. g \<noteq> guid) (h_objects house)\<rparr>) (m_houses s)"
  "m_nextObjectGuid (delete_row house guid s) = m_nextObjectGuid s"
  "m_houseByInstance (delete_row house guid s) = m_houseByInstance s"
  "tb_object (m_db (delete_row house guid s)) = sm_erase guid (tb_object (m_db s))"
  by (simp_all add: delete_row_def put_house_def pexec_def sql_delete_object_def)

lemma PurgeObject_core:
  assumes "sm_find (m_objects s) guid = Some ob" and "sm_find (m_houses s) i = Some house"
  shows "core (PurgeObject sv i guid s) = core (delete_row house guid s)"
  using assms
  by (simp add: PurgeObject_def GetHouseById_def delete_row_def Let_def core_put_house core_updates
      core_pexec pexec_def put_house_def core_selectors)

lemma core_of_delete: "core t = core s \<Longrightarrow> core (delete_row house guid t) = core (delete_row house guid s)"
  by (simp add: delete_row_def core_put_house core_pexec core_updates shell_core(3) [of t s])

lemma delete_row_inv:
  assumes inv: "objects_inv s" and h: "sm_find (m_houses s) (h_id house) = Some house"
    and ob: "sm_find (m_objects s) guid = Some ob" "o_houseId ob = h_id house"
  shows "objects_inv (delete_row house guid s)"
  unfolding objects_inv_def delete_row_fields mirrored_def
proof (intro conjI allI impI)
  fix g r
  assume "sm_find (sm_erase guid (m_objects s)) g = Some r"
  then have r: "g \<noteq> guid" "sm_find (m_objects s) g = Some r" by (auto split: if_splits)
  then show "o_guid r = g" and "g \<noteq> 0" and "g < m_nextObjectGuid s"
    and "\<exists>h. sm_find (sm_put (h_id house) (house\<lparr>h_objects := filter (\<lambda>g. g \<noteq> guid) (h_objects house)\<rparr>) (m_houses s))
             (o_houseId r) = Some h \<and> g \<in> set (h_objects h)"
    using objects_inv_row [OF inv r(2)] h by auto
next
  fix i h'
  assume h': "sm_find (sm_put (h_id house) (house\<lparr>h_objects := filter (\<lambda>g. g \<noteq> guid) (h_objects house)\<rparr>) (m_houses s)) i = Some h'"
  have other: "g \<noteq> guid" if "sm_find (m_houses s) i = Some h'" "i \<noteq> h_id house" "g \<in> set (h_objects h')" for g
    using objects_inv_house [OF inv that(1)] that(2,3) ob by auto
  show "h_id h' = i" and "distinct (h_objects h')"
    and "\<forall>g \<in> set (h_objects h'). \<exists>r. sm_find (sm_erase guid (m_objects s)) g = Some r \<and> o_houseId r = i"
    using h' objects_inv_house [OF inv h] objects_inv_house [OF inv, of i h'] other
    by (auto split: if_splits)
next
  show "sm_find (sm_erase guid (m_objects s)) = sm_find (sm_erase guid (tb_object (m_db s)))"
    using inv by (auto simp: objects_inv_def mirrored_def fun_eq_iff)
  show "HOUSE_GO_GUID_MIN \<le> m_nextObjectGuid s" using inv by (simp add: objects_inv_def)
qed

lemma RemoveObject_cases:
  obtains (refused) e where "RemoveObject sv s p guid = (s, p, Inl e)"
  | (accepted) house ob p' s' where "CheckOwner s (Some p) = Inr house"
      and "sm_find (m_objects s) guid = Some ob" and "o_houseId ob = h_id house" and "\<not> IsHouseFabric ob"
      and "RemoveObject sv s p guid = (s', p', Inr (o_itemEntry ob))"
      and "p' = (if o_itemEntry ob \<noteq> 0
                 then p\<lparr>pl_bags := (pl_bags p)(o_itemEntry ob := pl_bags p (o_itemEntry ob) + 1)\<rparr> else p)"
      and "s' = RefreshSelectionMarker sv p' (PurgeObject sv (h_id house) guid (DropFromEdit sv p' guid s))"
proof (cases "\<exists>e. RemoveObject sv s p guid = (s, p, Inl e)")
  case True
  then show ?thesis using refused by blast
next
  case False
  obtain house where own: "CheckOwner s (Some p) = Inr house"
    using False by (cases "CheckOwner s (Some p)") (auto simp: RemoveObject_def)
  obtain ob where ob: "sm_find (m_objects s) guid = Some ob"
    using False own by (cases "sm_find (m_objects s) guid") (auto simp: RemoveObject_def)
  have c: "o_houseId ob = h_id house" "\<not> IsHouseFabric ob"
    "\<not> (o_itemEntry ob \<noteq> 0 \<and> \<not> sv_canStore sv p (o_itemEntry ob))"
    "\<not> (o_itemEntry ob \<noteq> 0 \<and> \<not> sv_store sv p (o_itemEntry ob))"
    using False own ob by (auto simp: RemoveObject_def Let_def split: if_splits)
  then have n: "\<not> o_houseId ob \<noteq> h_id house" by simp
  show ?thesis
    by (rule accepted [OF own ob c(1,2) _ refl refl])
       (simp only: RemoveObject_def own sum.case ob option.case if_not_P [OF n] if_not_P [OF c(2)]
          Let_def if_not_P [OF c(3)] if_not_P [OF c(4)])
qed

lemma RemoveObject_core:
  assumes "objects_inv s" and "CheckOwner s (Some p) = Inr house" and "sm_find (m_objects s) guid = Some ob"
  shows "core (RefreshSelectionMarker sv q (PurgeObject sv (h_id house) guid (DropFromEdit sv q guid s)))
         = core (delete_row house guid s)"
proof -
  let ?t = "DropFromEdit sv q guid s"
  have t: "core ?t = core s" by simp
  have "sm_find (m_objects ?t) guid = Some ob" using assms(3) by simp
  moreover have "sm_find (m_houses ?t) (h_id house) = Some house"
    using CheckOwner_house [OF assms(1,2)] by simp
  ultimately have "core (PurgeObject sv (h_id house) guid ?t) = core (delete_row house guid ?t)"
    by (rule PurgeObject_core)
  then show ?thesis using core_of_delete [OF t] by simp
qed

lemma selected_after:
  assumes "GetObject s g = None" and "g \<noteq> 0"
  shows "snd (GetSelectedObject s p) \<noteq> g"
  using assms by (auto simp: GetSelectedObject_def split: option.splits)

text \<open>
  picking a piece up gives its item back or does nothing. A refusal leaves state and bags exactly as
  they were. A success takes out one row, the one named, of the house the player may edit, never one
  that came with the house; the row's item is in the bags; and the piece is no longer anybody's
  selection there.
\<close>
theorem remove_returns_item:
  assumes "objects_inv s"
  shows "case RemoveObject sv s p guid of
     (s', p', Inl e) \<Rightarrow> s' = s \<and> p' = p
   | (s', p', Inr item) \<Rightarrow> objects_inv s' \<and> (\<exists>house ob. CheckOwner s (Some p) = Inr house
       \<and> sm_find (m_objects s) guid = Some ob \<and> o_houseId ob = h_id house \<and> \<not> IsHouseFabric ob
       \<and> item = o_itemEntry ob
       \<and> sm_find (m_objects s') = (sm_find (m_objects s))(guid := None)
       \<and> (\<forall>i. pl_bags p' i = pl_bags p i + (if i = item \<and> item \<noteq> 0 then 1 else 0))
       \<and> (\<forall>q. snd (GetSelectedObject s' q) \<noteq> guid))"
proof (cases rule: RemoveObject_cases [of sv s p guid])
  case (refused e)
  then show ?thesis by simp
next
  case (accepted house ob p' s')
  have h: "sm_find (m_houses s) (h_id house) = Some house" by (rule CheckOwner_house [OF assms accepted(1)])
  have core: "core s' = core (delete_row house guid s)"
    unfolding accepted(7) by (rule RemoveObject_core [OF assms accepted(1,2)])
  have inv': "objects_inv s'"
    by (rule objects_inv_core [OF delete_row_inv [OF assms h accepted(2,3)] core])
  have rows: "sm_find (m_objects s') = (sm_find (m_objects s))(guid := None)"
    using shell_core(3) [OF core] by (simp add: delete_row_fields fun_eq_iff)
  have "GetObject s' guid = None" by (simp add: GetObject_def rows)
  moreover have "guid \<noteq> 0" using objects_inv_row [OF assms accepted(2)] by blast
  ultimately have "snd (GetSelectedObject s' q) \<noteq> guid" for q by (rule selected_after)
  then show ?thesis
    using accepted inv' rows by auto
qed

theorem remove_returns_item_witness:
  "pl_bags (fst (snd (RemoveObject plain_server furnished_mgr plain_player 8000000))) 900 = 1"
proof -
  have own: "CheckOwner furnished_mgr (Some plain_player) = Inr furnished_house"
    using furnished_resolve by (simp add: Resolve_Inr)
  have "snd (snd (RemoveObject plain_server furnished_mgr plain_player 8000000)) = Inr 900"
    by (simp add: RemoveObject_def own) (simp add: furnished_mgr_def IsHouseFabric_def Let_def)
  then show ?thesis
    using remove_returns_item [OF furnished_inv, where sv = plain_server and p = plain_player and guid = 8000000]
    by (auto simp: own split: prod.splits)
qed

subsection \<open>Clearing the house\<close>

text \<open>What any number of removals by one player keeps: the rows outside the house, and its fabric.\<close>

definition cleared_from :: "HouseMgr \<Rightarrow> player \<Rightarrow> u32 \<Rightarrow> HouseMgr \<Rightarrow> player \<Rightarrow> bool" where
  "cleared_from s0 p0 i s p \<longleftrightarrow>
     objects_inv s
     \<and> m_houseByInstance s = m_houseByInstance s0
     \<and> pl_instanceId p = pl_instanceId p0
     \<and> (\<forall>g ob. sm_find (m_objects s0) g = Some ob \<longrightarrow> IsHouseFabric ob \<or> o_houseId ob \<noteq> i \<longrightarrow>
              sm_find (m_objects s) g = Some ob)
     \<and> (\<forall>g ob. sm_find (m_objects s) g = Some ob \<longrightarrow> sm_find (m_objects s0) g = Some ob)"

lemma owner_instance:
  assumes "objects_inv s" and "CheckOwner s (Some p) = Inr house"
  shows "sm_find (m_houseByInstance s) (pl_instanceId p) = Some (h_id house)"
proof -
  obtain j where j: "sm_find (m_houseByInstance s) (pl_instanceId p) = Some j" "sm_find (m_houses s) j = Some house"
    using assms(2)
    by (auto simp: CheckOwner_Inr GetHouseAt_def GetHouseByInstance_def GetHouseById_def
        split: option.splits if_splits)
  with objects_inv_house [OF assms(1)] show ?thesis by auto
qed

lemma cleared_step:
  assumes "cleared_from s0 p0 i s p" and "sm_find (m_houseByInstance s0) (pl_instanceId p0) = Some i"
    and "RemoveObject sv s p guid = (s', p', r)"
  shows "cleared_from s0 p0 i s' p'"
proof (cases rule: RemoveObject_cases [of sv s p guid])
  case (refused e)
  then show ?thesis using assms by simp
next
  case (accepted house ob q t)
  have inv: "objects_inv s" and idx: "m_houseByInstance s = m_houseByInstance s0"
    and ins: "pl_instanceId p = pl_instanceId p0"
    and keep: "\<And>g ob. sm_find (m_objects s0) g = Some ob \<Longrightarrow> IsHouseFabric ob \<or> o_houseId ob \<noteq> i \<Longrightarrow>
              sm_find (m_objects s) g = Some ob"
    and old: "\<And>g ob. sm_find (m_objects s) g = Some ob \<Longrightarrow> sm_find (m_objects s0) g = Some ob"
    using assms(1) unfolding cleared_from_def by blast+
  have eq: "s' = t" "p' = q" using assms(3) accepted(5) by auto
  have core: "core t = core (delete_row house guid s)"
    unfolding accepted(7) by (rule RemoveObject_core [OF inv accepted(1,2)])
  have house: "h_id house = i"
    using owner_instance [OF inv accepted(1)] assms(2) by (simp add: idx ins)
  have rows: "sm_find (m_objects t) = (sm_find (m_objects s))(guid := None)"
    using shell_core(3) [OF core] by (simp add: delete_row_fields fun_eq_iff)
  have "objects_inv t"
    by (rule objects_inv_core [OF delete_row_inv [OF inv CheckOwner_house [OF inv accepted(1)] accepted(2,3)] core])
  moreover have "m_houseByInstance t = m_houseByInstance s0"
    using core_fields(6) [OF core] by (simp add: delete_row_fields idx)
  moreover have "pl_instanceId q = pl_instanceId p0" unfolding accepted(6) by (simp add: ins)
  moreover have "sm_find (m_objects t) g = Some m"
    if "sm_find (m_objects s0) g = Some m" "IsHouseFabric m \<or> o_houseId m \<noteq> i" for g m
  proof -
    have "sm_find (m_objects s) g = Some m" by (rule keep [OF that])
    moreover from this have "g \<noteq> guid" using that(2) accepted(2-4) house by auto
    ultimately show ?thesis by (simp add: rows)
  qed
  moreover have "sm_find (m_objects s0) g = Some m" if "sm_find (m_objects t) g = Some m" for g m
    using that old by (simp add: rows split: if_splits)
  ultimately show ?thesis
    unfolding eq cleared_from_def by blast
qed

lemma clear_objects_done:
  assumes "cleared_from s0 p0 i s p" and "sm_find (m_houseByInstance s0) (pl_instanceId p0) = Some i"
    and "clear_objects sv gs (s, p, r, k, n) = (s', p', r', k', n')"
  shows "cleared_from s0 p0 i s' p' \<and> r' + k' + n' = r + k + n + of_nat (length gs)"
  using assms(1,3)
proof (induction gs arbitrary: s p r k n)
  case (Cons g gs)
  obtain s1 p1 ans where rm: "RemoveObject sv s p g = (s1, p1, ans)" by (metis prod_cases3)
  have c1: "cleared_from s0 p0 i s1 p1" by (rule cleared_step [OF Cons.prems(1) assms(2) rm])
  show ?case
  proof (cases ans)
    case (Inl why)
    show ?thesis
    proof (cases "why = ''Your bags are full.''")
      case True
      then show ?thesis using Cons.IH [OF c1, of r k "n + 1"] Cons.prems(2) rm Inl by simp
    next
      case False
      then show ?thesis using Cons.IH [OF c1, of r "k + 1" n] Cons.prems(2) rm Inl by simp
    qed
  next
    case (Inr it)
    then show ?thesis using Cons.IH [OF c1, of "r + 1" k n] Cons.prems(2) rm by simp
  qed
qed simp

text \<open>
  clearing a house takes only what the player put there: every piece that came with the house and
  every piece of every other house is still there, unchanged; nothing new appears; the three counts of
  the answer add up to the pieces the house held; and the rows stay consistent with the table.
\<close>
theorem clear_house_keeps_fabric:
  assumes "objects_inv s" and "CheckOwner s (Some p) = Inr house"
    and "ClearHouse sv s p = (s', p', Inr (removed, kept, noRoom))"
  shows "objects_inv s'
    \<and> (\<forall>g ob. sm_find (m_objects s) g = Some ob \<longrightarrow> IsHouseFabric ob \<or> o_houseId ob \<noteq> h_id house \<longrightarrow>
          sm_find (m_objects s') g = Some ob)
    \<and> (\<forall>g ob. sm_find (m_objects s') g = Some ob \<longrightarrow> sm_find (m_objects s) g = Some ob)
    \<and> removed + kept + noRoom = of_nat (length (h_objects house))"
proof -
  have run: "clear_objects sv (h_objects house) (s, p, 0, 0, 0) = (s', p', removed, kept, noRoom)"
    using assms(2,3) by (auto simp: ClearHouse_def split: prod.splits)
  have start: "cleared_from s p (h_id house) s p" using assms(1) unfolding cleared_from_def by blast
  show ?thesis
    using clear_objects_done [OF start owner_instance [OF assms(1,2)] run]
    unfolding cleared_from_def add_0 by blast
qed

theorem clear_house_keeps_fabric_witness:
  "\<exists>s' p' removed kept noRoom.
     ClearHouse plain_server furnished_mgr plain_player = (s', p', Inr (removed, kept, noRoom))
     \<and> removed + kept + noRoom = 1"
proof -
  have own: "CheckOwner furnished_mgr (Some plain_player) = Inr furnished_house"
    using furnished_resolve by (simp add: Resolve_Inr)
  obtain s' p' removed kept noRoom
    where run: "ClearHouse plain_server furnished_mgr plain_player = (s', p', Inr (removed, kept, noRoom))"
    using that by (cases "clear_objects plain_server (h_objects furnished_house) (furnished_mgr, plain_player, 0, 0, 0)")
      (simp add: ClearHouse_def own)
  from clear_house_keeps_fabric [OF furnished_inv own run] run show ?thesis by auto
qed

subsection \<open>Joining and leaving a group\<close>

definition set_group :: "u32 \<Rightarrow> HouseObject \<Rightarrow> HouseObject" where
  "set_group n ob = ob\<lparr>o_groupNo := n\<rparr>"

lemma set_group_keeps [simp]:
  "o_guid (set_group n ob) = o_guid ob" "o_houseId (set_group n ob) = o_houseId ob"
  "o_groupNo (set_group n ob) = n" "IsHouseFabric (set_group n ob) = IsHouseFabric ob"
  "set_group n (set_group m ob) = set_group n ob"
  by (simp_all add: set_group_def IsHouseFabric_def)

lemma set_group_same: "o_groupNo ob = n \<Longrightarrow> set_group n ob = ob"
  by (cases ob) (auto simp: set_group_def)

lemma set_group_row:
  assumes "sm_find (m_objects s) g = Some m"
    and "core t = core (pexec (sql_update_object_group g n)
          (s\<lparr>m_objects := sm_put g (m\<lparr>o_groupNo := n\<rparr>) (m_objects s)\<rparr>))"
  shows "rows_changed (\<lambda>k. if k = g then set_group n else (\<lambda>ob. ob)) s t"
  by (rule rows_changed_one [OF assms(1) _ assms(2)])
     (simp_all add: set_group_def [abs_def] sql_update_object_group_def)

lemma rows_changed_nothing:
  assumes "core t = core s" and "\<And>g ob. sm_find (m_objects s) g = Some ob \<Longrightarrow> f g ob = ob"
  shows "rows_changed f s t"
proof -
  have "map_option (f g) (sm_find (m_objects s) g) = sm_find (m_objects s) g" for g
    using assms(2) [of g] by (cases "sm_find (m_objects s) g") simp_all
  then show ?thesis
    using shell_core [OF assms(1)] by (simp add: rows_changed_def)
qed

lemma write_group_rows:
  "rows_changed (\<lambda>k. if k = g then set_group n else (\<lambda>ob. ob)) s (write_group sv p n g s)"
proof (cases "sm_find (m_objects s) g")
  case None
  then show ?thesis by (intro rows_changed_nothing) (auto simp: write_group_def)
next
  case (Some m)
  show ?thesis
  proof (cases "o_groupNo m = n")
    case True
    then show ?thesis
      using Some by (intro rows_changed_nothing) (auto simp: write_group_def set_group_same)
  next
    case False
    then show ?thesis
      using Some by (intro set_group_row [OF Some]) (simp add: write_group_def)
  qed
qed

lemma ungroup_rows: "rows_changed (\<lambda>k. if k = g then set_group 0 else (\<lambda>ob. ob)) s (ungroup g s)"
proof (cases "sm_find (m_objects s) g")
  case None
  then show ?thesis by (intro rows_changed_nothing) (auto simp: ungroup_def)
next
  case (Some m)
  then show ?thesis by (intro set_group_row [OF Some]) (simp add: ungroup_def)
qed

lemma fold_set_group:
  "fold (\<lambda>g. if k = g then set_group n else (\<lambda>ob. ob)) gs ob = (if k \<in> set gs then set_group n ob else ob)"
  by (induction gs arbitrary: ob) auto

lemma regroup_rows:
  assumes "keyed s" and "\<And>g s. rows_changed (\<lambda>k. if k = g then set_group n else (\<lambda>ob. ob)) s (step g s)"
  shows "rows_changed (\<lambda>k ob. if k \<in> set gs then set_group n ob else ob) s (fold step gs s)"
proof -
  have "rows_changed (\<lambda>k. fold (\<lambda>g. if k = g then set_group n else (\<lambda>ob. ob)) gs) s (fold step gs s)"
    by (rule rows_changed_fold [OF assms(2) _ assms(1)]) auto
  moreover have "(\<lambda>k. fold (\<lambda>g. if k = g then set_group n else (\<lambda>ob. ob)) gs)
      = (\<lambda>k ob. if k \<in> set gs then set_group n ob else ob)"
    by (intro ext) (rule fold_set_group)
  ultimately show ?thesis by simp
qed

text \<open>Who is in the group of a piece, by id: \<open>GroupMembers\<close> on a consistent state.\<close>

lemma members_by_row:
  assumes "objects_inv s" and "sm_find (m_objects s) guid = Some ob" and "o_groupNo ob \<noteq> 0"
    and "\<not> IsHouseFabric ob"
  shows "g \<in> set (map o_guid (GroupMembers s ob)) \<longleftrightarrow>
     (\<exists>m. sm_find (m_objects s) g = Some m \<and> o_houseId m = o_houseId ob \<and> o_groupNo m = o_groupNo ob
          \<and> \<not> IsHouseFabric m)"
proof -
  have self: "sm_find (m_objects s) (o_guid ob) = Some ob"
    using objects_inv_row [OF assms(1,2)] assms(2) by simp
  have mem: "m \<in> set (GroupMembers s ob) \<longleftrightarrow> sm_find (m_objects s) (o_guid m) = Some m \<and> o_houseId m = o_houseId ob
             \<and> o_groupNo m = o_groupNo ob \<and> \<not> IsHouseFabric m" for m
    using GroupMembers_facts(4) [OF assms(1,2), of m] assms(3,4) self by auto
  have "o_guid m = g" if "sm_find (m_objects s) g = Some m" for m
    using objects_inv_row [OF assms(1) that] by blast
  then show ?thesis using mem by (auto simp: image_iff)
qed

lemma member_own:
  assumes "objects_inv s" and "sm_find (m_objects s) guid = Some ob" and "\<not> IsHouseFabric ob"
    and "m \<in> set (GroupMembers s ob)"
  shows "sm_find (m_objects s) (o_guid m) = Some m \<and> o_houseId m = o_houseId ob \<and> \<not> IsHouseFabric m"
  using member_row [OF assms(1,2,4)] assms(3,4) GroupMembers_facts(4) [OF assms(1,2), of m] by auto

lemma lone_member:
  assumes "objects_inv s" and "sm_find (m_objects s) guid = Some ob" and "o_groupNo ob = 0"
  shows "GroupMembers s ob = [ob]"
proof -
  have "o_guid ob = guid" using objects_inv_row [OF assms(1,2)] by blast
  then show ?thesis using assms(2,3) by (simp add: GroupMembers_def split: option.splits)
qed

text \<open>
  joining merges two groups into exactly one: afterwards the group of the clicked piece is what was
  its group and its partner's together, nobody else of the house (a stray row with an old number
  included) is swept in, and no coordinate changes. A refusal changes nothing.
\<close>
theorem join_merges_groups:
  assumes "objects_inv s"
  shows "case JoinGroup sv s p guid withGuid of
     (s', Inl e) \<Rightarrow> s' = s
   | (s', Inr u) \<Rightarrow> objects_inv s' \<and> (\<exists>house ob partner ob'.
        Resolve s (Some p) guid = Inr (house, ob) \<and> Resolve s (Some p) withGuid = Inr (house, partner)
        \<and> sm_find (m_objects s') guid = Some ob'
        \<and> (AllocateGroupNo s house \<noteq> 0 \<longrightarrow>
             set (map o_guid (GroupMembers s' ob'))
             = set (map o_guid (GroupMembers s ob)) \<union> set (map o_guid (GroupMembers s partner)))
        \<and> length (GroupMembers s ob) + length (GroupMembers s partner) \<le> HOUSE_GROUP_MAX
        \<and> (\<exists>n. \<forall>g. sm_find (m_objects s') g = sm_find (m_objects s) g
              \<or> sm_find (m_objects s') g = map_option (set_group n) (sm_find (m_objects s) g)))"
proof (cases "JoinGroup sv s p guid withGuid")
  case (Pair s' r)
  show ?thesis
  proof (cases r)
    case (Inl e)
    then show ?thesis
      using Pair by (auto simp: JoinGroup_def Let_def split: sum.splits if_splits)
  next
    case (Inr u)
    then have ne: "guid \<noteq> withGuid" using Pair by (auto simp: JoinGroup_def)
    obtain house ob house2 partner where res: "Resolve s (Some p) guid = Inr (house, ob)"
      "Resolve s (Some p) withGuid = Inr (house2, partner)"
      using Pair Inr by (auto simp: JoinGroup_def split: sum.splits if_splits)
    then have hh: "house2 = house" by (simp add: Resolve_Inr)
    let ?mine = "GroupMembers s ob"
    let ?theirs = "GroupMembers s partner"
    define n where "n = (if length ?theirs > 1 then o_groupNo partner
                         else if length ?mine > 1 then o_groupNo ob else AllocateGroupNo s house)"
    let ?gs = "map o_guid (?mine @ ?theirs)"
    have notin: "withGuid \<notin> set (map o_guid ?mine)" and max: "length ?mine + length ?theirs \<le> HOUSE_GROUP_MAX"
      and s': "s' = RefreshSelectionMarker sv p (fold (write_group sv p n) ?gs s)"
      using Pair Inr res ne by (auto simp: JoinGroup_def Let_def n_def split: if_splits)
    have ob: "sm_find (m_objects s) guid = Some ob" "\<not> IsHouseFabric ob" "o_houseId ob = h_id house"
      and pa: "sm_find (m_objects s) withGuid = Some partner" "\<not> IsHouseFabric partner" "o_houseId partner = h_id house"
      and own: "CheckOwner s (Some p) = Inr house"
      using res hh by (simp_all add: Resolve_Inr)
    have h: "sm_find (m_houses s) (h_id house) = Some house" by (rule CheckOwner_house [OF assms own])
    define f where "f = (\<lambda>k ob. if k \<in> set ?gs then set_group n ob else ob)"
    have "rows_changed f s (fold (write_group sv p n) ?gs s)"
      unfolding f_def by (rule regroup_rows [OF objects_inv_keyed [OF assms] write_group_rows])
    then have ch: "rows_changed f s s'" unfolding s' by (rule rows_changed_core) simp
    have inv': "objects_inv s'" by (rule objects_inv_rows [OF assms ch]) (auto simp: f_def)
    have rows: "sm_find (m_objects s') g = map_option (f g) (sm_find (m_objects s) g)" for g
      using ch by (simp add: rows_changed_def)
    have self: "guid \<in> set ?gs" and pself: "withGuid \<in> set ?gs"
      using GroupMembers_facts(4) [OF assms ob(1), of ob] GroupMembers_facts(4) [OF assms pa(1), of partner]
        objects_inv_row [OF assms ob(1)] objects_inv_row [OF assms pa(1)] by force+
    have row: "sm_find (m_objects s') guid = Some (set_group n ob)"
      using rows [of guid] ob(1) self by (simp add: f_def)
    have gs_row: "\<exists>m. sm_find (m_objects s) g = Some m \<and> o_houseId m = h_id house \<and> \<not> IsHouseFabric m"
      if g: "g \<in> set ?gs" for g
    proof -
      from g obtain m where m: "m \<in> set (?mine @ ?theirs)" "o_guid m = g" unfolding set_map by blast
      have "sm_find (m_objects s) (o_guid m) = Some m \<and> o_houseId m = h_id house \<and> \<not> IsHouseFabric m"
        using m(1) member_own [OF assms ob(1,2)] member_own [OF assms pa(1,2)] ob(3) pa(3)
        unfolding set_append by auto
      then show ?thesis using m(2) by blast
    qed
    have only: "g \<in> set ?gs" if m: "sm_find (m_objects s) g = Some m" "o_houseId m = h_id house" "\<not> IsHouseFabric m"
      "o_groupNo m = n" and nz: "AllocateGroupNo s house \<noteq> 0" for g m
    proof (cases "length ?theirs > 1")
      case True
      then have "o_groupNo partner \<noteq> 0" using lone_member [OF assms pa(1)] by auto
      then have "g \<in> set (map o_guid ?theirs)"
        using members_by_row [OF assms pa(1) _ pa(2), of g] m True pa by (auto simp: n_def)
      then show ?thesis by simp
    next
      case 1: False
      show ?thesis
      proof (cases "length ?mine > 1")
        case True
        then have "o_groupNo ob \<noteq> 0" using lone_member [OF assms ob(1)] by auto
        then have "g \<in> set (map o_guid ?mine)"
          using members_by_row [OF assms ob(1) _ ob(2), of g] m True 1 ob by (auto simp: n_def)
        then show ?thesis by simp
      next
        case False
        have "g \<in> set (h_objects house)" using objects_inv_row [OF assms m(1)] m(2) h by auto
        then have "o_groupNo m \<noteq> AllocateGroupNo s house"
          using group_numbers.alloc_fresh [OF nz] m(1) by blast
        then show ?thesis using m(4) 1 False by (simp add: n_def)
      qed
    qed
    have n0: "n \<noteq> 0" if nz: "AllocateGroupNo s house \<noteq> 0"
      using nz lone_member [OF assms ob(1)] lone_member [OF assms pa(1)] by (auto simp: n_def)
    have merged: "set (map o_guid (GroupMembers s' (set_group n ob))) = set ?gs"
      if nz: "AllocateGroupNo s house \<noteq> 0"
    proof (rule set_eqI)
      fix g
      have "g \<in> set (map o_guid (GroupMembers s' (set_group n ob))) \<longleftrightarrow>
        (\<exists>m. sm_find (m_objects s') g = Some m \<and> o_houseId m = h_id house \<and> o_groupNo m = n \<and> \<not> IsHouseFabric m)"
        using members_by_row [OF inv' row] n0 [OF nz] ob by simp
      also have "\<dots> \<longleftrightarrow> g \<in> set ?gs"
        using gs_row [of g] only [of g, OF _ _ _ _ nz] by (auto simp: rows f_def split: if_splits)
      finally show "g \<in> set (map o_guid (GroupMembers s' (set_group n ob))) \<longleftrightarrow> g \<in> set ?gs" .
    qed
    have change: "sm_find (m_objects s') g = sm_find (m_objects s) g
              \<or> sm_find (m_objects s') g = map_option (set_group n) (sm_find (m_objects s) g)" for g
      by (cases "g \<in> set ?gs") (simp_all add: rows f_def option.map_ident)
    show ?thesis
      unfolding Pair Inr prod.case sum.case
      using inv' res hh row merged max change by (intro conjI) (assumption | force)+
  qed
qed


definition second_object :: HouseObject where
  "second_object = plain_object\<lparr>o_guid := 8000001, o_slot := 2, o_x := 5\<rparr>"

lemma second_guid: "o_guid second_object = 8000001"
  by (simp add: second_object_def)

definition paired_mgr :: HouseMgr where
  "paired_mgr =
     plain_mgr\<lparr>m_houses := [(3, plain_house\<lparr>h_objects := [8000000, 8000001]\<rparr>)],
               m_objects := [(8000000, plain_object), (8000001, second_object)],
               m_nextObjectGuid := 8000002,
               m_db := fresh_tables\<lparr>tb_object := [(8000000, plain_object), (8000001, second_object)]\<rparr>\<rparr>"

lemma paired_inv: "objects_inv paired_mgr"
  by (auto simp: objects_inv_def paired_mgr_def second_object_def mirrored_def HOUSE_GO_GUID_MIN_def
      split: if_splits)

lemma paired_resolve:
  "Resolve paired_mgr (Some plain_player) 8000000 = Inr (plain_house\<lparr>h_objects := [8000000, 8000001]\<rparr>, plain_object)"
  "Resolve paired_mgr (Some plain_player) 8000001 = Inr (plain_house\<lparr>h_objects := [8000000, 8000001]\<rparr>, second_object)"
  by (simp_all add: Resolve_Inr CheckOwner_def GetHouseAt_def GetHouseByInstance_def GetHouseById_def
      CanEditHouse_def paired_mgr_def IsHouseFabric_def second_object_def)

lemma paired_groups: "GroupMembers paired_mgr plain_object = [plain_object]"
  "GroupMembers paired_mgr second_object = [second_object]"
  by (simp_all add: GroupMembers_def paired_mgr_def GetHouseById_def second_object_def)

theorem join_merges_groups_witness:
  "\<exists>ob'. sm_find (m_objects (fst (JoinGroup plain_server paired_mgr plain_player 8000000 8000001))) 8000000 = Some ob'
     \<and> set (map o_guid (GroupMembers (fst (JoinGroup plain_server paired_mgr plain_player 8000000 8000001)) ob'))
       = {8000000, 8000001}"
proof -
  have "snd (JoinGroup plain_server paired_mgr plain_player 8000000 8000001) = Inr ()"
    by (simp add: JoinGroup_def paired_resolve paired_groups second_guid HOUSE_GROUP_MAX_def Let_def)
  moreover have "AllocateGroupNo paired_mgr (plain_house\<lparr>h_objects := [8000000, 8000001]\<rparr>) \<noteq> 0"
    by (simp add: AllocateGroupNo_def highest_in_def paired_mgr_def second_object_def)
  ultimately show ?thesis
    using join_merges_groups [OF paired_inv, where sv = plain_server and p = plain_player
        and guid = 8000000 and withGuid = 8000001]
    by (auto simp: paired_resolve paired_groups second_guid split: prod.splits)
qed

text \<open>
  leaving a group takes out one piece and keeps the rest together: the piece stands alone, and the
  group of every other member is the old group without it (of a pair, the other piece stands alone
  too). A refusal changes nothing.
\<close>
theorem leave_keeps_the_rest:
  assumes "objects_inv s"
  shows "case LeaveGroup sv s p guid of
     (s', Inl e) \<Rightarrow> s' = s
   | (s', Inr u) \<Rightarrow> objects_inv s' \<and> (\<exists>house ob ob'. Resolve s (Some p) guid = Inr (house, ob)
        \<and> sm_find (m_objects s') guid = Some ob' \<and> GroupMembers s' ob' = [ob']
        \<and> (\<forall>m \<in> set (GroupMembers s ob). o_guid m \<noteq> guid \<longrightarrow>
             (\<exists>m'. sm_find (m_objects s') (o_guid m) = Some m'
                 \<and> set (map o_guid (GroupMembers s' m')) = set (map o_guid (GroupMembers s ob)) - {guid})))"
proof (cases "LeaveGroup sv s p guid")
  case (Pair s' r)
  show ?thesis
  proof (cases r)
    case (Inl e)
    then show ?thesis using Pair by (auto simp: LeaveGroup_def Let_def split: sum.splits if_splits)
  next
    case (Inr u)
    obtain house ob where res: "Resolve s (Some p) guid = Inr (house, ob)"
      using Pair Inr by (auto simp: LeaveGroup_def split: sum.splits)
    let ?ms = "GroupMembers s ob"
    define k where "k = (if length ?ms = 2 then 2 else 1 :: nat)"
    let ?gs = "map o_guid (take k ?ms)"
    have two: "length ?ms \<ge> 2"
      and s': "s' = RefreshSelectionMarker sv p (FlashObject sv p guid (fold ungroup ?gs s))"
      using Pair Inr res by (auto simp: LeaveGroup_def Let_def k_def split: if_splits)
    have ob: "sm_find (m_objects s) guid = Some ob" "\<not> IsHouseFabric ob" using res by (simp_all add: Resolve_Inr)
    have key: "o_guid ob = guid" using objects_inv_row [OF assms ob(1)] by blast
    have grp: "o_groupNo ob \<noteq> 0" using lone_member [OF assms ob(1)] two by auto
    obtain rest where ms: "?ms = ob # rest"
      using GroupMembers_facts(2,3) [OF assms ob(1)] by (metis list.exhaust_sel)
    have rest: "guid \<notin> set (map o_guid rest)"
      using GroupMembers_facts(1) [OF assms ob(1)] key by (simp add: ms)
    define f where "f = (\<lambda>g ob. if g \<in> set ?gs then set_group 0 ob else ob)"
    have "rows_changed f s (fold ungroup ?gs s)"
      unfolding f_def by (rule regroup_rows [OF objects_inv_keyed [OF assms] ungroup_rows])
    then have ch: "rows_changed f s s'" unfolding s' by (rule rows_changed_core) simp
    have inv': "objects_inv s'" by (rule objects_inv_rows [OF assms ch]) (auto simp: f_def)
    have rows: "sm_find (m_objects s') g = map_option (f g) (sm_find (m_objects s) g)" for g
      using ch by (simp add: rows_changed_def)
    have first: "guid \<in> set ?gs" using key by (simp add: ms k_def)
    then have row: "sm_find (m_objects s') guid = Some (set_group 0 ob)" by (simp add: rows ob f_def)
    then have alone: "GroupMembers s' (set_group 0 ob) = [set_group 0 ob]" by (rule lone_member [OF inv']) simp
    have others: "\<exists>m'. sm_find (m_objects s') (o_guid m) = Some m'
        \<and> set (map o_guid (GroupMembers s' m')) = set (map o_guid ?ms) - {guid}"
      if m: "m \<in> set ?ms" "o_guid m \<noteq> guid" for m
    proof (cases "length ?ms = 2")
      case True
      then have "rest = [m]" using m key by (auto simp: ms length_Suc_conv)
      then have "o_guid m \<in> set ?gs" and sets: "set (map o_guid ?ms) - {guid} = {o_guid m}"
        using True rest key m(2) by (auto simp: ms k_def)
      then have "sm_find (m_objects s') (o_guid m) = Some (set_group 0 m)"
        using member_own [OF assms ob m(1)] by (simp add: rows f_def)
      moreover from this have "GroupMembers s' (set_group 0 m) = [set_group 0 m]"
        by (rule lone_member [OF inv']) simp
      ultimately show ?thesis using sets by simp
    next
      case False
      then have gs: "set ?gs = {guid}" using key by (simp add: ms k_def)
      have own: "sm_find (m_objects s) (o_guid m) = Some m \<and> o_houseId m = o_houseId ob \<and> \<not> IsHouseFabric m"
        by (rule member_own [OF assms ob m(1)])
      have mg: "o_groupNo m = o_groupNo ob"
        using members_by_row [OF assms ob(1) grp ob(2), of "o_guid m"] m(1) own by auto
      have mrow: "sm_find (m_objects s') (o_guid m) = Some m" using own m(2) gs by (simp add: rows f_def)
      have "g \<in> set (map o_guid (GroupMembers s' m)) \<longleftrightarrow> g \<in> set (map o_guid ?ms) - {guid}" for g
      proof -
        have "g \<in> set (map o_guid (GroupMembers s' m)) \<longleftrightarrow>
          (\<exists>r. sm_find (m_objects s') g = Some r \<and> o_houseId r = o_houseId ob \<and> o_groupNo r = o_groupNo ob
               \<and> \<not> IsHouseFabric r)"
          using members_by_row [OF inv' mrow] grp own mg by simp
        also have "\<dots> \<longleftrightarrow> g \<noteq> guid \<and> g \<in> set (map o_guid ?ms)"
          unfolding members_by_row [OF assms ob(1) grp ob(2)]
          using grp ob gs by (cases "g = guid") (auto simp: rows f_def)
        finally show ?thesis by auto
      qed
      then show ?thesis using mrow by blast
    qed
    show ?thesis
      unfolding Pair Inr prod.case sum.case
      using inv' res row alone others by blast
  qed
qed

theorem leave_keeps_the_rest_witness:
  "fst (LeaveGroup plain_server furnished_mgr plain_player 8000000) = furnished_mgr"
proof -
  have "\<exists>e. snd (LeaveGroup plain_server furnished_mgr plain_player 8000000) = Inl e"
    by (simp add: LeaveGroup_def furnished_resolve furnished_group)
  then show ?thesis
    using leave_keeps_the_rest [OF furnished_inv, where sv = plain_server and p = plain_player and guid = 8000000]
    by (auto split: prod.splits)
qed

end
