(* ===== verification/HouseDoors.thy ===== *)
theory HouseDoors
  imports HouseObjects
begin

section \<open>Entrances out in the world and the way out of a house\<close>

text \<open>
  Housing/HousePortal.cpp, from \<open>LoadPortals\<close> to \<open>ClearExitPortal\<close>: the \<open>house_portal\<close> rows, the
  object each one is in the world (its guid is computed from its id), which house calls a door home,
  and where the way out of a house and the spot of arrival are. A database that does not answer is not
  modelled: \<open>SELECT MAX(id)\<close> always has a row. The grid data of a door exists from the moment it is
  placed or loaded, so taking a door down is always the removal of an object and of its data. The
  gears beside the doors are effects only.
\<close>

definition HOUSE_PORTAL_RANGE :: yards where "HOUSE_PORTAL_RANGE = 2"
definition HOUSE_EXIT_ENTRY :: u32 where "HOUSE_EXIT_ENTRY = 100012"

subsection \<open>The rows\<close>

definition load_portal_row :: "u32 \<times> HousePortal \<Rightarrow> HouseMgr \<Rightarrow> HouseMgr" where
  "load_portal_row r s =
     (let p = snd r\<lparr>p_id := fst r\<rparr>;
          p' = (if p_templateId p \<noteq> 0 \<and> GetTemplate s (p_templateId p) = None
                then p\<lparr>p_templateId := 0\<rparr> else p)
      in if p_id p' = 0 \<or> p_id p' > HOUSE_PORTAL_MAX_ID then s
         else s\<lparr>m_portals := sm_put (p_id p') p' (m_portals s)\<rparr>)"

definition LoadPortals :: "HouseMgr \<Rightarrow> HouseMgr" where
  "LoadPortals s = fold load_portal_row (tb_portal (m_db s)) (s\<lparr>m_portals := []\<rparr>)"

definition GetPortals :: "HouseMgr \<Rightarrow> HousePortal list" where
  "GetPortals s = map snd (m_portals s)"

definition nearer :: "player \<Rightarrow> HousePortal \<Rightarrow> (HousePortal \<times> yards) option \<Rightarrow> (HousePortal \<times> yards) option" where
  "nearer pl p best =
     (if p_map p \<noteq> pl_mapId pl then best
      else
        let dx = p_x p - pl_x pl; dy = p_y p - pl_y pl; dz = p_z p - pl_z pl;
            d = dx * dx + dy * dy + dz * dz
        in case best of
             None \<Rightarrow> Some (p, d)
           | Some (b, bestDist) \<Rightarrow> if d < bestDist then Some (p, d) else best)"

definition GetNearestPortal :: "HouseMgr \<Rightarrow> player option \<Rightarrow> HousePortal option" where
  "GetNearestPortal s player =
     (case player of
        None \<Rightarrow> None
      | Some pl \<Rightarrow> map_option fst (fold (\<lambda>r. nearer pl (snd r)) (m_portals s) None))"

definition GetPortalNear :: "server \<Rightarrow> HouseMgr \<Rightarrow> player option \<Rightarrow> HousePortal option" where
  "GetPortalNear sv s player =
     (case player of
        None \<Rightarrow> None
      | Some pl \<Rightarrow>
          (case GetNearestPortal s player of
             None \<Rightarrow> None
           | Some p \<Rightarrow>
               if GetDistance sv pl (p_x p) (p_y p) (p_z p) \<le> HOUSE_PORTAL_NEAR then Some p else None))"

subsection \<open>The object a door is in the world\<close>

definition SpawnPortalObject :: "server \<Rightarrow> HousePortal \<Rightarrow> HouseMgr \<Rightarrow> HouseMgr" where
  "SpawnPortalObject sv p s =
     (if \<not> m_enabled s \<or> p_id p = 0 then s
      else
        let guid = HOUSE_PORTAL_GUID_MIN + p_id p;
            s1 = emit (OnDoor (RegisterPortal guid p)) s
        in if \<not> sv_grid sv (p_map p) (p_x p) (p_y p) then s1
           else emit (OnDoor (SpawnPortal guid)) s1)"

definition DespawnPortalObject :: "HousePortal \<Rightarrow> HouseMgr \<Rightarrow> HouseMgr" where
  "DespawnPortalObject p s =
     (let guid = HOUSE_PORTAL_GUID_MIN + p_id p
      in emit (OnDoor (UnregisterPortal guid)) (emit (OnDoor (DespawnPortal guid)) s))"

definition DespawnPortalMarker :: "u32 \<Rightarrow> u32 \<Rightarrow> HouseMgr \<Rightarrow> HouseMgr" where
  "DespawnPortalMarker portalId mapId s = emit (OnDoor (DespawnPortalMark portalId mapId)) s"

definition SpawnPortals :: "server \<Rightarrow> HouseMgr \<Rightarrow> HouseMgr" where
  "SpawnPortals sv s =
     (if \<not> m_enabled s then s
      else fold (\<lambda>r. SpawnPortalObject sv (snd r)) (m_portals s) s)"

subsection \<open>Placing, moving, removing and binding a door\<close>

text \<open>Ahead of the player and facing back at them; and the grace time after placing one.\<close>

definition portal_ahead :: "player \<Rightarrow> HousePortal \<Rightarrow> HousePortal" where
  "portal_ahead pl p =
     p\<lparr>p_map := pl_mapId pl,
       p_x := pl_x pl + cos (pl_o pl) * HOUSE_PORTAL_PLACE_DISTANCE,
       p_y := pl_y pl + sin (pl_o pl) * HOUSE_PORTAL_PLACE_DISTANCE,
       p_z := pl_z pl, p_o := pl_o pl + M_PI_F\<rparr>"

definition arm_cooldown :: "server \<Rightarrow> player \<Rightarrow> HouseMgr \<Rightarrow> HouseMgr" where
  "arm_cooldown sv pl s =
     s\<lparr>m_portalCooldown := sm_put (pl_guid pl) (sv_now sv + PORTAL_COOLDOWN_SEC) (m_portalCooldown s)\<rparr>"

definition AddPortal ::
  "server \<Rightarrow> HouseMgr \<Rightarrow> player \<Rightarrow> string \<Rightarrow> u32 \<Rightarrow> HouseMgr \<times> u32 res" where
  "AddPortal sv s pl name templateId =
     (if \<not> m_enabled s then (s, Inl ''Housing is not available on this server.'')
      else if pl_mapId pl = HOUSE_MAP_ID
      then (s, Inl ''An entrance has to be out in the world, not inside a house.'')
      else if length (m_portals s) \<ge> unat HOUSE_PORTAL_MAX_ID
      then (s, Inl ''There is no room for another entrance.'')
      else if templateId \<noteq> 0 \<and> GetTemplate s templateId = None
      then (s, Inl ''There is no template with that id.'')
      else
        let p = portal_ahead pl \<lparr>p_id = 0, p_map = 0, p_x = 0, p_y = 0, p_z = 0, p_o = 0,
                                 p_name = name, p_templateId = templateId\<rparr>;
            s1 = pexec (sql_insert_portal p) s;
            i = sm_max_key (tb_portal (m_db s1))
        in if i = 0 \<or> i > HOUSE_PORTAL_MAX_ID
           then (s1, Inl ''There is no room for another entrance.'')
           else
             let p' = p\<lparr>p_id := i\<rparr>;
                 s2 = SpawnPortalObject sv p' (s1\<lparr>m_portals := sm_put i p' (m_portals s1)\<rparr>)
             in (arm_cooldown sv pl s2, Inr i))"

definition MovePortal :: "server \<Rightarrow> HouseMgr \<Rightarrow> player \<Rightarrow> u32 \<Rightarrow> HouseMgr \<times> unit res" where
  "MovePortal sv s pl i =
     (if \<not> m_enabled s then (s, Inl ''Housing is not available on this server.'')
      else if pl_mapId pl = HOUSE_MAP_ID
      then (s, Inl ''An entrance has to be out in the world, not inside a house.'')
      else
        case sm_find (m_portals s) i of
          None \<Rightarrow> (s, Inl ''There is no entrance with that id.'')
        | Some p \<Rightarrow>
            let s1 = DespawnPortalObject p (DespawnPortalMarker i (p_map p) s);
                p' = portal_ahead pl p;
                s2 = s1\<lparr>m_portals := sm_put i p' (m_portals s1)\<rparr>;
                s3 = pexec (sql_update_portal_place (p_id p') (p_map p') (p_x p') (p_y p') (p_z p') (p_o p')) s2;
                s4 = SpawnPortalObject sv p' s3
            in (arm_cooldown sv pl s4, Inr ()))"

definition RemovePortal :: "HouseMgr \<Rightarrow> u32 \<Rightarrow> HouseMgr \<times> unit res" where
  "RemovePortal s i =
     (case sm_find (m_portals s) i of
        None \<Rightarrow> (s, Inl ''There is no entrance with that id.'')
      | Some p \<Rightarrow>
          let s1 = DespawnPortalObject p (DespawnPortalMarker i (p_map p) s);
              s2 = s1\<lparr>m_portals := sm_erase i (m_portals s1)\<rparr>;
              s3 = pexec (sql_clear_house_portal i) (pexec (sql_delete_portal i) s2)
          in (s3\<lparr>m_houses := map (\<lambda>(k, h). (k, if h_portalId h = i then h\<lparr>h_portalId := 0\<rparr> else h))
                              (m_houses s3)\<rparr>, Inr ()))"

definition SetHomePortal :: "HouseMgr \<Rightarrow> player \<Rightarrow> u32 \<Rightarrow> HouseMgr \<times> unit res" where
  "SetHomePortal s pl portalId =
     (if portalId \<noteq> 0 \<and> GetPortal s portalId = None then (s, Inl ''There is no entrance with that id.'')
      else
        case GetHouseByAccount s (pl_account pl) of
          None \<Rightarrow> (s, Inl ''You have no home yet. Claim one at an entrance first.'')
        | Some house \<Rightarrow>
            (pexec (sql_update_house_portal (h_id house) portalId)
               (put_house (house\<lparr>h_portalId := portalId\<rparr>) s), Inr ()))"

definition SetPortalTemplate :: "HouseMgr \<Rightarrow> u32 \<Rightarrow> u32 \<Rightarrow> HouseMgr \<times> unit res" where
  "SetPortalTemplate s portalId templateId =
     (case sm_find (m_portals s) portalId of
        None \<Rightarrow> (s, Inl ''There is no entrance with that id.'')
      | Some p \<Rightarrow>
          if templateId \<noteq> 0 \<and> GetTemplate s templateId = None
          then (s, Inl ''There is no template with that id.'')
          else (pexec (sql_update_portal_template portalId templateId)
                 (s\<lparr>m_portals := sm_put portalId (p\<lparr>p_templateId := templateId\<rparr>) (m_portals s)\<rparr>), Inr ()))"

subsection \<open>The way out of a house\<close>

definition GetExitPosition :: "House \<Rightarrow> yards \<times> yards \<times> yards \<times> yards" where
  "GetExitPosition house =
     (if x_set (h_exit house)
      then (x_x (h_exit house), x_y (h_exit house), x_z (h_exit house), x_o (h_exit house))
      else (HOUSE_ENTRY_X - cos HOUSE_ENTRY_O * HOUSE_EXIT_OFFSET,
            HOUSE_ENTRY_Y - sin HOUSE_ENTRY_O * HOUSE_EXIT_OFFSET, HOUSE_ENTRY_Z, HOUSE_ENTRY_O))"

definition GetArrivalPosition :: "House \<Rightarrow> yards \<times> yards \<times> yards \<times> yards" where
  "GetArrivalPosition house =
     (case GetExitPosition house of (ex, ey, ez, eo) \<Rightarrow>
        (ex + cos eo * HOUSE_EXIT_OFFSET, ey + sin eo * HOUSE_EXIT_OFFSET, ez + HOUSE_ARRIVE_LIFT, eo))"

definition UpdateExitPortal :: "server \<Rightarrow> HouseMgr \<Rightarrow> u32 \<Rightarrow> HouseMgr" where
  "UpdateExitPortal sv s instanceId =
     (if \<not> m_enabled s then s
      else
        case GetHouseByInstance s instanceId of
          None \<Rightarrow> s
        | Some house \<Rightarrow>
            let known = (case sm_find (m_exitPortals s) instanceId of None \<Rightarrow> 0 | Some g \<Rightarrow> g);
                s1 = s\<lparr>m_exitPortals := sm_put instanceId known (m_exitPortals s)\<rparr>
            in if known \<noteq> 0 \<and> sv_goStands sv known then s1
               else
                 (case GetExitPosition house of (x, y, z, o') \<Rightarrow>
                    if sv_newGo sv HOUSE_EXIT_ENTRY = 0 then s1
                    else
                      emit (OnDoor (SummonExit instanceId (sv_newGo sv HOUSE_EXIT_ENTRY) x y z o'))
                        (s1\<lparr>m_exitPortals := sm_put instanceId (sv_newGo sv HOUSE_EXIT_ENTRY)
                                              (m_exitPortals s1)\<rparr>)))"

definition DespawnExitPortal :: "server \<Rightarrow> u32 \<Rightarrow> HouseMgr \<Rightarrow> HouseMgr" where
  "DespawnExitPortal sv instanceId s =
     (case sm_find (m_exitPortals s) instanceId of
        None \<Rightarrow> s
      | Some g \<Rightarrow>
          let s1 = (if g \<noteq> 0 \<and> sv_goStands sv g then emit (OnDoor (DespawnExit instanceId g)) s else s)
          in s1\<lparr>m_exitPortals := sm_erase instanceId (m_exitPortals s1)\<rparr>)"

definition SetExitPortal :: "server \<Rightarrow> HouseMgr \<Rightarrow> player \<Rightarrow> HouseMgr \<times> unit res" where
  "SetExitPortal sv s pl =
     (if \<not> m_enabled s then (s, Inl ''Housing is not available on this server.'')
      else
        case GetAuthoredTemplateAt s (Some pl) of
          Inl e \<Rightarrow> (s, Inl e)
        | Inr house \<Rightarrow>
            let e = \<lparr>x_set = True,
                     x_x = pl_x pl + cos (pl_o pl) * HOUSE_PORTAL_PLACE_DISTANCE,
                     x_y = pl_y pl + sin (pl_o pl) * HOUSE_PORTAL_PLACE_DISTANCE,
                     x_z = pl_z pl, x_o = pl_o pl + M_PI_F\<rparr>;
                s1 = put_house (house\<lparr>h_exit := e\<rparr>) s;
                s2 = pexec (sql_update_house_way_out (h_id house) e) s1;
                s3 = DespawnExitPortal sv (pl_instanceId pl) s2
            in (arm_cooldown sv pl s3, Inr ()))"

definition ClearExitPortal :: "server \<Rightarrow> HouseMgr \<Rightarrow> player \<Rightarrow> HouseMgr \<times> unit res" where
  "ClearExitPortal sv s pl =
     (case GetAuthoredTemplateAt s (Some pl) of
        Inl e \<Rightarrow> (s, Inl e)
      | Inr house \<Rightarrow>
          if \<not> x_set (h_exit house)
          then (s, Inl ''This template's way out is already where it started.'')
          else
            let s1 = put_house (house\<lparr>h_exit := no_exit\<rparr>) s;
                s2 = pexec (sql_update_house_way_out (h_id house) no_exit) s1
            in (DespawnExitPortal sv (pl_instanceId pl) s2, Inr ()))"

subsection \<open>The rows in memory and in the table\<close>

definition portals_inv :: "HouseMgr \<Rightarrow> bool" where
  "portals_inv s \<longleftrightarrow>
     sm_ok (m_portals s) \<and> sm_ok (tb_portal (m_db s))
     \<and> (\<forall>i p. sm_find (m_portals s) i = Some p \<longrightarrow>
          p_id p = i \<and> 0 < i \<and> i \<le> HOUSE_PORTAL_MAX_ID
          \<and> (p_templateId p = 0 \<or> GetTemplate s (p_templateId p) \<noteq> None))
     \<and> (\<forall>i. 0 < i \<and> i \<le> HOUSE_PORTAL_MAX_ID \<longrightarrow> sm_find (tb_portal (m_db s)) i = sm_find (m_portals s) i)
     \<and> 0 < tb_nextPortal (m_db s)
     \<and> (\<forall>i \<in> set (map fst (tb_portal (m_db s))). i < tb_nextPortal (m_db s))"

lemma portals_invD:
  assumes "portals_inv s" and "sm_find (m_portals s) i = Some p"
  shows "p_id p = i" and "0 < i" and "i \<le> HOUSE_PORTAL_MAX_ID"
    and "sm_find (tb_portal (m_db s)) i = Some p"
  using assms unfolding portals_inv_def by auto

lemma portals_inv_cong:
  assumes "m_portals s = m_portals t" and "m_db s = m_db t" and "m_houseTemplates s = m_houseTemplates t"
  shows "portals_inv s = portals_inv t"
  using assms by (simp add: portals_inv_def GetTemplate_def)

definition healed :: "HouseMgr \<Rightarrow> u32 \<Rightarrow> HousePortal \<Rightarrow> HousePortal" where
  "healed s i p =
     (if p_templateId p \<noteq> 0 \<and> GetTemplate s (p_templateId p) = None
      then p\<lparr>p_id := i, p_templateId := 0\<rparr> else p\<lparr>p_id := i\<rparr>)"

lemma load_portal_rows:
  "distinct (map fst rows) \<Longrightarrow>
   m_houseTemplates (fold load_portal_row rows s) = m_houseTemplates s
   \<and> (sm_ok (m_portals s) \<longrightarrow> sm_ok (m_portals (fold load_portal_row rows s)))
   \<and> sm_find (m_portals (fold load_portal_row rows s)) i =
       (case map_of rows i of
          None \<Rightarrow> sm_find (m_portals s) i
        | Some p \<Rightarrow> if i = 0 \<or> i > HOUSE_PORTAL_MAX_ID then sm_find (m_portals s) i else Some (healed s i p))"
proof (induction rows arbitrary: s)
  case Nil
  then show ?case by simp
next
  case (Cons r rows)
  obtain k q where r: "r = (k, q)" by (cases r)
  have fresh: "map_of rows k = None"
    using Cons.prems by (simp add: r map_of_eq_None_iff)
  have row: "m_houseTemplates (load_portal_row r s) = m_houseTemplates s"
    "sm_ok (m_portals s) \<Longrightarrow> sm_ok (m_portals (load_portal_row r s))"
    "sm_find (m_portals (load_portal_row r s)) j =
       (if j = k \<and> k \<noteq> 0 \<and> \<not> HOUSE_PORTAL_MAX_ID < k then Some (healed s k q) else sm_find (m_portals s) j)" for j
    by (simp_all add: load_portal_row_def r Let_def healed_def)
  have same: "healed (load_portal_row r s) = healed s"
    using row(1) by (simp add: healed_def [abs_def] GetTemplate_def)
  have "distinct (map fst rows)" using Cons.prems by simp
  from Cons.IH [OF this, of "load_portal_row r s"] show ?case
    using row(1,2) row(3) [of i] fresh
    by (cases "i = k") (auto simp: r same [unfolded r] split: option.splits)
qed

lemma LoadPortals_find:
  assumes "sm_ok (tb_portal (m_db s))"
  shows "sm_find (m_portals (LoadPortals s)) i =
     (case sm_find (tb_portal (m_db s)) i of
        None \<Rightarrow> None
      | Some p \<Rightarrow> if i = 0 \<or> i > HOUSE_PORTAL_MAX_ID then None else Some (healed s i p))"
    and "sm_ok (m_portals (LoadPortals s))"
proof -
  have "healed (s\<lparr>m_portals := []\<rparr>) = healed s"
    by (simp add: healed_def [abs_def] GetTemplate_def)
  then show "sm_find (m_portals (LoadPortals s)) i =
     (case sm_find (tb_portal (m_db s)) i of
        None \<Rightarrow> None
      | Some p \<Rightarrow> if i = 0 \<or> i > HOUSE_PORTAL_MAX_ID then None else Some (healed s i p))"
    using load_portal_rows [OF sm_ok_distinct [OF assms], of "s\<lparr>m_portals := []\<rparr>" i]
    by (simp add: LoadPortals_def split: option.splits)
  show "sm_ok (m_portals (LoadPortals s))"
    using load_portal_rows [OF sm_ok_distinct [OF assms], of "s\<lparr>m_portals := []\<rparr>" i]
    by (simp add: LoadPortals_def)
qed

lemma LoadPortals_same:
  assumes "portals_inv s"
  shows "m_portals (LoadPortals s) = m_portals s"
proof (rule sm_ok_eqI)
  have ok: "sm_ok (tb_portal (m_db s))" "sm_ok (m_portals s)"
    using assms by (simp_all add: portals_inv_def)
  then show "sm_ok (m_portals (LoadPortals s))" "sm_ok (m_portals s)"
    using LoadPortals_find(2) by blast+
  show "sm_find (m_portals (LoadPortals s)) = sm_find (m_portals s)"
  proof
    fix i
    show "sm_find (m_portals (LoadPortals s)) i = sm_find (m_portals s) i"
    proof (cases "0 < i \<and> i \<le> HOUSE_PORTAL_MAX_ID")
      case True
      then have row: "sm_find (tb_portal (m_db s)) i = sm_find (m_portals s) i"
        using assms by (simp add: portals_inv_def)
      show ?thesis
      proof (cases "sm_find (m_portals s) i")
        case None
        then show ?thesis using row by (simp add: LoadPortals_find(1) [OF ok(1)])
      next
        case (Some p)
        then have "healed s i p = p"
          using assms unfolding portals_inv_def healed_def by auto
        with Some row True show ?thesis
          by (auto simp: LoadPortals_find(1) [OF ok(1)] not_less)
      qed
    next
      case False
      have "sm_find (m_portals s) i = None"
        using False portals_invD(2,3) [OF assms] by (cases "sm_find (m_portals s) i") auto
      moreover have "sm_find (m_portals (LoadPortals s)) i = None"
        using False by (auto simp: LoadPortals_find(1) [OF ok(1)] word_gt_0 split: option.splits)
      ultimately show ?thesis by simp
    qed
  qed
qed

lemma SpawnPortalObject_core [simp]: "core (SpawnPortalObject sv p s) = core s"
  by (simp add: SpawnPortalObject_def Let_def)

lemma DespawnPortalObject_core [simp]: "core (DespawnPortalObject p s) = core s"
  by (simp add: DespawnPortalObject_def Let_def)

lemma DespawnPortalMarker_core [simp]: "core (DespawnPortalMarker i m s) = core s"
  by (simp add: DespawnPortalMarker_def)

lemmas SpawnPortalObject_fields [simp] = core_fields [OF SpawnPortalObject_core]
lemmas DespawnPortalObject_fields [simp] = core_fields [OF DespawnPortalObject_core]
lemmas DespawnPortalMarker_fields [simp] = core_fields [OF DespawnPortalMarker_core]

lemma arm_cooldown_fields [simp]:
  "m_portals (arm_cooldown sv p s) = m_portals s" "m_db (arm_cooldown sv p s) = m_db s"
  "m_houseTemplates (arm_cooldown sv p s) = m_houseTemplates s" "m_houses (arm_cooldown sv p s) = m_houses s"
  by (simp_all add: arm_cooldown_def)

text \<open>Writing one row to both, and taking one out of both.\<close>

lemma portals_inv_write:
  assumes "portals_inv s" and "sm_find (m_portals s) i = Some q"
    and "m_portals t = sm_put i p (m_portals s)"
    and "tb_portal (m_db t) = sm_put i p (tb_portal (m_db s))"
    and "tb_nextPortal (m_db t) = tb_nextPortal (m_db s)"
    and "m_houseTemplates t = m_houseTemplates s"
    and "p_id p = i" and "p_templateId p = 0 \<or> GetTemplate s (p_templateId p) \<noteq> None"
  shows "portals_inv t"
proof -
  have "i \<in> set (map fst (tb_portal (m_db s)))"
    using portals_invD(4) [OF assms(1,2)] sm_find_key by fast
  then have keys: "set (map fst (sm_put i p (tb_portal (m_db s)))) = set (map fst (tb_portal (m_db s)))"
    using sm_keys_put [of i p "tb_portal (m_db s)"] by (auto simp: sm_keys_def)
  show ?thesis
    using assms portals_invD [OF assms(1,2)] keys
    by (auto simp: portals_inv_def GetTemplate_def)
qed

lemma portals_inv_erase:
  assumes "portals_inv s" and "m_portals t = sm_erase i (m_portals s)"
    and "tb_portal (m_db t) = sm_erase i (tb_portal (m_db s))"
    and "tb_nextPortal (m_db t) = tb_nextPortal (m_db s)"
    and "m_houseTemplates t = m_houseTemplates s"
  shows "portals_inv t"
  using assms sm_keys_erase [of i "tb_portal (m_db s)"]
  by (auto simp: portals_inv_def GetTemplate_def sm_keys_def)

text \<open>The insert: the key the table chose is above every key it has, so \<open>MAX(id)\<close> names the new row.\<close>

lemma insert_portal_row:
  assumes "portals_inv s" and "q = p\<lparr>p_id := tb_nextPortal (m_db s)\<rparr>"
  shows "sm_put (tb_nextPortal (m_db s)) q (tb_portal (m_db s))
           = tb_portal (m_db s) @ [(tb_nextPortal (m_db s), q)]"
    and "sm_max_key (sm_put (tb_nextPortal (m_db s)) q (tb_portal (m_db s))) = tb_nextPortal (m_db s)"
proof -
  show grow: "sm_put (tb_nextPortal (m_db s)) q (tb_portal (m_db s))
           = tb_portal (m_db s) @ [(tb_nextPortal (m_db s), q)]"
    using assms(1) by (intro sm_put_last) (simp add: portals_inv_def)
  show "sm_max_key (sm_put (tb_nextPortal (m_db s)) q (tb_portal (m_db s))) = tb_nextPortal (m_db s)"
    by (simp add: grow sm_max_key_def)
qed

lemma portals_inv_insert:
  assumes inv: "portals_inv s" and lt: "tb_nextPortal (m_db s) < 2 ^ 32 - 1"
    and q: "q = p\<lparr>p_id := tb_nextPortal (m_db s)\<rparr>"
    and tab: "tb_portal (m_db t) = sm_put (tb_nextPortal (m_db s)) q (tb_portal (m_db s))"
    and nxt: "tb_nextPortal (m_db t) = tb_nextPortal (m_db s) + 1"
    and tpl: "m_houseTemplates t = m_houseTemplates s"
    and mem: "m_portals t = (if tb_nextPortal (m_db s) \<le> HOUSE_PORTAL_MAX_ID
                 then sm_put (tb_nextPortal (m_db s)) q (m_portals s) else m_portals s)"
    and bound: "p_templateId p = 0 \<or> GetTemplate s (p_templateId p) \<noteq> None"
  shows "portals_inv t"
proof -
  let ?n = "tb_nextPortal (m_db s)"
  have succ: "?n < ?n + 1" using u32_succ(2) [OF lt] .
  have keys: "set (map fst (tb_portal (m_db t))) = insert ?n (set (map fst (tb_portal (m_db s))))"
    using sm_keys_put [of ?n q "tb_portal (m_db s)"] by (simp add: sm_keys_def tab)
  have same: "GetTemplate t = GetTemplate s" by (rule ext) (simp add: GetTemplate_def tpl)
  have n0: "0 < ?n" using inv by (simp add: portals_inv_def)
  have "\<forall>i \<in> set (map fst (tb_portal (m_db t))). i < tb_nextPortal (m_db t)"
    using inv succ unfolding keys nxt portals_inv_def by (auto intro: less_trans [OF _ succ])
  moreover have "0 < tb_nextPortal (m_db t)"
    using succ unfolding nxt by (metis word_not_simps(1) word_neq_0_conv)
  moreover have "sm_ok (m_portals t)" "sm_ok (tb_portal (m_db t))"
    using inv by (simp_all add: portals_inv_def mem tab)
  moreover have "p_id r = i \<and> 0 < i \<and> i \<le> HOUSE_PORTAL_MAX_ID
                 \<and> (p_templateId r = 0 \<or> GetTemplate t (p_templateId r) \<noteq> None)"
    if "sm_find (m_portals t) i = Some r" for i r
  proof (cases "i = ?n \<and> ?n \<le> HOUSE_PORTAL_MAX_ID")
    case True
    then have "r = q" using that by (simp add: mem)
    then show ?thesis using True n0 bound by (simp add: q same)
  next
    case False
    then have "sm_find (m_portals s) i = Some r" using that by (auto simp: mem split: if_splits)
    then show ?thesis using inv same unfolding portals_inv_def by simp
  qed
  moreover have "sm_find (tb_portal (m_db t)) i = sm_find (m_portals t) i"
    if "0 < i" "i \<le> HOUSE_PORTAL_MAX_ID" for i
  proof -
    have "sm_find (tb_portal (m_db s)) i = sm_find (m_portals s) i"
      using that inv by (simp add: portals_inv_def)
    then show ?thesis using that by (auto simp: mem tab)
  qed
  ultimately show ?thesis unfolding portals_inv_def by blast
qed

lemma AddPortal_inv:
  assumes inv: "portals_inv s" and lt: "tb_nextPortal (m_db s) < 2 ^ 32 - 1"
  shows "portals_inv (fst (AddPortal sv s pl name templateId))"
proof (cases "m_enabled s \<and> pl_mapId pl \<noteq> HOUSE_MAP_ID \<and> \<not> length (m_portals s) \<ge> unat HOUSE_PORTAL_MAX_ID
              \<and> \<not> (templateId \<noteq> 0 \<and> GetTemplate s templateId = None)")
  case False
  then show ?thesis using inv by (auto simp: AddPortal_def)
next
  case True
  define p where "p = portal_ahead pl \<lparr>p_id = 0, p_map = 0, p_x = 0, p_y = 0, p_z = 0, p_o = 0,
                                       p_name = name, p_templateId = templateId\<rparr>"
  let ?n = "tb_nextPortal (m_db s)" and ?t = "fst (AddPortal sv s pl name templateId)"
  have tid: "p_templateId p = 0 \<or> GetTemplate s (p_templateId p) \<noteq> None"
    using True by (auto simp: p_def portal_ahead_def)
  have n0: "?n \<noteq> 0" using inv by (simp add: portals_inv_def word_gt_0)
  note max = insert_portal_row(2) [OF inv refl, of p]
  have run: "?t = (if ?n > HOUSE_PORTAL_MAX_ID then pexec (sql_insert_portal p) s
      else arm_cooldown sv pl (SpawnPortalObject sv (p\<lparr>p_id := ?n\<rparr>)
        (pexec (sql_insert_portal p) s\<lparr>m_portals := sm_put ?n (p\<lparr>p_id := ?n\<rparr>) (m_portals s)\<rparr>)))"
    using True n0 max unfolding AddPortal_def Let_def p_def [symmetric]
    by (cases "templateId = 0") (auto simp: pexec_def sql_insert_portal_def)
  show ?thesis
    by (rule portals_inv_insert [OF inv lt refl _ _ _ _ tid])
       (auto simp: run pexec_def sql_insert_portal_def)
qed

lemma MovePortal_inv:
  assumes "portals_inv s"
  shows "portals_inv (fst (MovePortal sv s pl i))"
proof (cases "sm_find (m_portals s) i")
  case None
  then show ?thesis using assms by (simp add: MovePortal_def)
next
  case (Some p)
  note row = portals_invD [OF assms Some]
  have tid: "p_templateId p = 0 \<or> GetTemplate s (p_templateId p) \<noteq> None"
    using assms Some by (simp add: portals_inv_def)
  have upd: "sm_update i (\<lambda>p. p\<lparr>p_map := a, p_x := b, p_y := c, p_z := d, p_o := e\<rparr>) (tb_portal (m_db s))
      = sm_put i (p\<lparr>p_map := a, p_x := b, p_y := c, p_z := d, p_o := e\<rparr>) (tb_portal (m_db s))" for a b c d e
    using row(4) by (simp add: sm_update_def)
  show ?thesis
  proof (cases "m_enabled s \<and> pl_mapId pl \<noteq> HOUSE_MAP_ID")
    case False
    then show ?thesis using assms by (auto simp: MovePortal_def)
  next
    case True
    show ?thesis
      by (rule portals_inv_write [OF assms Some, where p = "portal_ahead pl p"])
         (use True Some row(1) tid upd in
           \<open>simp_all add: MovePortal_def Let_def pexec_def sql_update_portal_place_def portal_ahead_def\<close>)
  qed
qed

lemma RemovePortal_inv:
  assumes "portals_inv s"
  shows "portals_inv (fst (RemovePortal s i))"
proof (cases "sm_find (m_portals s) i")
  case None
  then show ?thesis using assms by (simp add: RemovePortal_def)
next
  case (Some p)
  show ?thesis
    by (rule portals_inv_erase [OF assms, where i = i])
       (simp_all add: RemovePortal_def Some Let_def pexec_def sql_delete_portal_def sql_clear_house_portal_def)
qed

lemma SetPortalTemplate_inv:
  assumes "portals_inv s"
  shows "portals_inv (fst (SetPortalTemplate s i templateId))"
proof (cases "sm_find (m_portals s) i")
  case None
  then show ?thesis using assms by (simp add: SetPortalTemplate_def)
next
  case (Some p)
  note row = portals_invD [OF assms Some]
  show ?thesis
  proof (cases "templateId \<noteq> 0 \<and> GetTemplate s templateId = None")
    case True
    then show ?thesis using assms by (simp add: SetPortalTemplate_def Some)
  next
    case False
    have upd: "sm_update i (\<lambda>p. p\<lparr>p_templateId := templateId\<rparr>) (tb_portal (m_db s))
      = sm_put i (p\<lparr>p_templateId := templateId\<rparr>) (tb_portal (m_db s))"
      using row(4) by (simp add: sm_update_def)
    have run: "fst (SetPortalTemplate s i templateId) = pexec (sql_update_portal_template i templateId)
                 (s\<lparr>m_portals := sm_put i (p\<lparr>p_templateId := templateId\<rparr>) (m_portals s)\<rparr>)"
      using False Some by (auto simp: SetPortalTemplate_def)
    show ?thesis
      unfolding run
      by (rule portals_inv_write [OF assms Some, where p = "p\<lparr>p_templateId := templateId\<rparr>"])
         (use False row(1) upd in \<open>auto simp: pexec_def sql_update_portal_template_def\<close>)
  qed
qed

lemma portals_inv_fresh [simp]: "portals_inv plain_mgr"
  by (simp add: portals_inv_def)

text \<open>
  the doors in memory are the doors in the table: placing, moving, removing and re-binding a door
  keep every entrance at an id between 1 and 999, equal to its row in \<open>house_portal\<close>, and bound to no
  template or to one that exists; and a restart reads back exactly the doors the running server had.
\<close>
theorem doors_survive_restart:
  assumes "portals_inv s" and "tb_nextPortal (m_db s) < 2 ^ 32 - 1"
  shows "portals_inv (fst (AddPortal sv s pl name templateId))
    \<and> portals_inv (fst (MovePortal sv s pl i)) \<and> portals_inv (fst (RemovePortal s i))
    \<and> portals_inv (fst (SetPortalTemplate s i templateId)) \<and> m_portals (LoadPortals s) = m_portals s"
  using AddPortal_inv [OF assms] MovePortal_inv [OF assms(1)] RemovePortal_inv [OF assms(1)]
    SetPortalTemplate_inv [OF assms(1)] LoadPortals_same [OF assms(1)] by blast

definition outdoors :: player where
  "outdoors = plain_player\<lparr>pl_mapId := 0\<rparr>"

theorem doors_survive_restart_witness:
  "portals_inv (fst (AddPortal plain_server plain_mgr outdoors ''inn'' 0))
   \<and> snd (AddPortal plain_server plain_mgr outdoors ''inn'' 0) = Inr 1"
  using doors_survive_restart [of plain_mgr plain_server outdoors "''inn''" 0 0]
  by (simp add: AddPortal_def Let_def outdoors_def pexec_def sql_insert_portal_def sm_max_key_def
        HOUSE_MAP_ID_def HOUSE_PORTAL_MAX_ID_def)

subsection \<open>A door that is gone\<close>

lemma map_of_map_values: "map_of (map (\<lambda>(k, v). (k, f v)) m) i = map_option f (map_of m i)"
  by (induction m) auto

text \<open>
  a removed door is forgotten everywhere: afterwards no door has its id, neither in memory nor in
  the table; no house, in memory or in the table, calls it home; and nothing else about any house has
  changed. A removal that is refused (there is no such door) changes nothing.
\<close>
theorem removed_door_forgotten:
  assumes "i \<noteq> 0"
  shows "case RemovePortal s i of
     (s', Inl e) \<Rightarrow> s' = s \<and> GetPortal s i = None
   | (s', Inr u) \<Rightarrow> GetPortal s' i = None \<and> sm_find (tb_portal (m_db s')) i = None
       \<and> (\<forall>k. sm_find (m_houses s') k =
                map_option (\<lambda>h. if h_portalId h = i then h\<lparr>h_portalId := 0\<rparr> else h) (sm_find (m_houses s) k))
       \<and> (\<forall>k. sm_find (tb_house (m_db s')) k =
                map_option (\<lambda>r. if hr_portal r = i then r\<lparr>hr_portal := 0\<rparr> else r) (sm_find (tb_house (m_db s)) k))
       \<and> (\<forall>house. h_templateId house = 0 \<longrightarrow> \<not> IsHomePortal s' house i)"
proof (cases "sm_find (m_portals s) i")
  case None
  then show ?thesis by (simp add: RemovePortal_def GetPortal_def)
next
  case (Some p)
  show ?thesis
    by (simp add: RemovePortal_def Some Let_def GetPortal_def IsHomePortal_def pexec_def sql_delete_portal_def
          sql_clear_house_portal_def map_of_map_values
          map_of_map_values [where f = "\<lambda>h. if h_portalId h = i then h\<lparr>h_portalId := 0\<rparr> else h"]
          map_of_map_values [where f = "\<lambda>r. if hr_portal r = i then r\<lparr>hr_portal := 0\<rparr> else r"])
qed

definition one_door :: HousePortal where
  "one_door = \<lparr>p_id = 4, p_map = 0, p_x = 5, p_y = 6, p_z = 7, p_o = 0, p_name = ''inn'', p_templateId = 0\<rparr>"

definition door_mgr :: HouseMgr where
  "door_mgr = plain_mgr\<lparr>m_houses := [(3, plain_house\<lparr>h_portalId := 4\<rparr>)], m_portals := [(4, one_door)],
                        m_db := fresh_tables\<lparr>tb_portal := [(4, one_door)], tb_nextPortal := 5\<rparr>\<rparr>"

theorem removed_door_forgotten_witness:
  "GetPortal (fst (RemovePortal door_mgr 4)) 4 = None
   \<and> (\<exists>h. sm_find (m_houses (fst (RemovePortal door_mgr 4))) 3 = Some h \<and> h_portalId h = 0)"
proof -
  have ok: "\<exists>s'. RemovePortal door_mgr 4 = (s', Inr ())"
    by (simp add: RemovePortal_def door_mgr_def Let_def)
  then obtain s' where run: "RemovePortal door_mgr 4 = (s', Inr ())" by blast
  have "sm_find (m_houses door_mgr) 3 = Some (plain_house\<lparr>h_portalId := 4\<rparr>)"
    by (simp add: door_mgr_def)
  then show ?thesis
    using removed_door_forgotten [of 4 door_mgr] run by simp
qed

subsection \<open>Which door is home, and where one arrives\<close>

text \<open>
  the home door is found when there is one: \<open>GetHomePortal\<close> answers a door the house is at home
  behind, and it answers none only when there is none in the world.
\<close>
theorem home_door_found:
  assumes "portals_inv s"
  shows "case GetHomePortal s house of
     Some p \<Rightarrow> GetPortal s (p_id p) = Some p \<and> IsHomePortal s house (p_id p)
   | None \<Rightarrow> \<not> (\<exists>i. IsHomePortal s house i)"
proof -
  have ids: "p_id p = i" if "sm_find (m_portals s) i = Some p" for i p
    using portals_invD(1) [OF assms that] .
  have row: "sm_find (m_portals s) (p_id p) = Some p" if mem: "p \<in> snd ` set (m_portals s)" for p
  proof -
    obtain i where "(i, p) \<in> set (m_portals s)" using mem by force
    then have "sm_find (m_portals s) i = Some p"
      using assms sm_find_in [of "m_portals s" i p] by (simp add: portals_inv_def)
    then show ?thesis using ids by metis
  qed
  have none: "\<not> IsHomePortal s house i"
    if "\<forall>p. GetPortal s (h_portalId house) = Some p \<longrightarrow> \<not> IsHomePortalOf house p"
      "h_templateId house = 0 \<or> (\<forall>p \<in> snd ` set (m_portals s). p_templateId p \<noteq> h_templateId house)" for i
  proof
    assume "IsHomePortal s house i"
    then obtain p where p: "sm_find (m_portals s) i = Some p" "IsHomePortalOf house p"
      by (auto simp: IsHomePortal_def GetPortal_def split: option.splits)
    have "p \<in> snd ` set (m_portals s)" using p(1) map_of_SomeD by force
    then show False
      using that p ids [OF p(1)] by (auto simp: IsHomePortalOf_def GetPortal_def)
  qed
  have hit: "p \<in> snd ` set (m_portals s) \<and> p_templateId p = h_templateId house"
    if "find (\<lambda>q. p_templateId q = h_templateId house) (map snd (m_portals s)) = Some p" for p
    using that by (auto simp: find_Some_iff)
  have miss: "\<forall>p \<in> snd ` set (m_portals s). p_templateId p \<noteq> h_templateId house"
    if "find (\<lambda>q. p_templateId q = h_templateId house) (map snd (m_portals s)) = None"
    using that by (auto simp: find_None_iff)
  show ?thesis
  proof (cases "GetHomePortal s house")
    case None
    then have "(\<forall>p. GetPortal s (h_portalId house) = Some p \<longrightarrow> \<not> IsHomePortalOf house p)
        \<and> (h_templateId house = 0 \<or> (\<forall>p \<in> snd ` set (m_portals s). p_templateId p \<noteq> h_templateId house))"
      using miss by (auto simp: GetHomePortal_def split: option.splits if_splits)
    then show ?thesis using None none by auto
  next
    case (Some p)
    then have "(GetPortal s (h_portalId house) = Some p \<and> IsHomePortalOf house p)
      \<or> (h_templateId house \<noteq> 0 \<and> find (\<lambda>q. p_templateId q = h_templateId house) (map snd (m_portals s)) = Some p)"
      by (auto simp: GetHomePortal_def split: option.splits if_splits)
    then have "sm_find (m_portals s) (p_id p) = Some p \<and> IsHomePortalOf house p"
    proof
      assume a: "GetPortal s (h_portalId house) = Some p \<and> IsHomePortalOf house p"
      then have "p_id p = h_portalId house" using ids by (simp add: GetPortal_def)
      then show ?thesis using a by (simp add: GetPortal_def)
    next
      assume b: "h_templateId house \<noteq> 0 \<and> find (\<lambda>q. p_templateId q = h_templateId house) (map snd (m_portals s)) = Some p"
      then have "p \<in> snd ` set (m_portals s)" "p_templateId p = h_templateId house" using hit by blast+
      then show ?thesis using row b by (simp add: IsHomePortalOf_def)
    qed
    then show ?thesis using Some by (simp add: GetPortal_def IsHomePortal_def)
  qed
qed

text \<open>
  nobody bounces: wherever the way out of a house was put, the spot of arrival is four yards from
  it, farther than the two yards at which a portal takes a player, and faces away from it; and a house
  with no way out of its own is entered at the default entry point, two yards up.
\<close>
theorem arrival_clear_of_the_ring:
  "(case GetExitPosition house of (ex, ey, ez, eo) \<Rightarrow>
     case GetArrivalPosition house of (ax, ay, az, ao) \<Rightarrow>
       (ax - ex)\<^sup>2 + (ay - ey)\<^sup>2 = HOUSE_EXIT_OFFSET\<^sup>2 \<and> HOUSE_PORTAL_RANGE < HOUSE_EXIT_OFFSET
       \<and> az = ez + HOUSE_ARRIVE_LIFT \<and> ao = eo)
   \<and> (x_set (h_exit house) \<or>
      GetArrivalPosition house = (HOUSE_ENTRY_X, HOUSE_ENTRY_Y, HOUSE_ENTRY_Z + HOUSE_ARRIVE_LIFT, HOUSE_ENTRY_O))"
proof -
  have circle: "(cos a * r)\<^sup>2 + (sin a * r)\<^sup>2 = r\<^sup>2" for a r :: real
    by (simp add: power_mult_distrib flip: distrib_right)
  have "HOUSE_PORTAL_RANGE < HOUSE_EXIT_OFFSET"
    by (simp add: HOUSE_PORTAL_RANGE_def HOUSE_EXIT_OFFSET_def)
  then show ?thesis
    using circle by (auto simp: GetExitPosition_def GetArrivalPosition_def split: prod.splits)
qed

subsection \<open>A guid names a door\<close>

text \<open>
  a click on a door says which door: the guid of every entrance's object is turned back into the
  entrance's id, different entrances have different guids, and nothing below the block of doors, where
  furniture starts, is taken for a door.
\<close>
theorem door_guid_names_door:
  assumes "portals_inv s" and "GetPortal s i = Some p" and "GetPortal s j = Some q"
  shows "PortalIdFromGuid (HOUSE_PORTAL_GUID_MIN + p_id p) = i
    \<and> (HOUSE_PORTAL_GUID_MIN + p_id p = HOUSE_PORTAL_GUID_MIN + p_id q \<longrightarrow> p = q)
    \<and> (g \<le> HOUSE_PORTAL_GUID_MIN \<longrightarrow> PortalIdFromGuid g = 0)"
proof -
  note row = portals_invD [OF assms(1) assms(2) [unfolded GetPortal_def]]
  note row' = portals_invD [OF assms(1) assms(3) [unfolded GetPortal_def]]
  have "unat i \<le> 999" using row(3) by (simp add: HOUSE_PORTAL_MAX_ID_def word_le_nat_alt)
  then have "unat (HOUSE_PORTAL_GUID_MIN + i) = unat HOUSE_PORTAL_GUID_MIN + unat i"
    by (simp add: HOUSE_PORTAL_GUID_MIN_def HOUSE_GO_GUID_MAX_def unat_word_ariths)
  then have "PortalIdFromGuid (HOUSE_PORTAL_GUID_MIN + i) = i"
    using row(2,3)
    by (simp add: PortalIdFromGuid_def word_less_nat_alt word_le_nat_alt HOUSE_PORTAL_GUID_MIN_def
        HOUSE_PORTAL_GUID_MAX_def HOUSE_GO_GUID_MAX_def HOUSE_PORTAL_MAX_ID_def)
  moreover have "PortalIdFromGuid g = 0" if "g \<le> HOUSE_PORTAL_GUID_MIN"
    using that leD by (auto simp: PortalIdFromGuid_def)
  moreover have "p = q" if "p_id p = p_id q"
    using that row(1) row'(1) assms(2,3) by simp
  ultimately show ?thesis using row(1) by simp
qed

theorem door_guid_names_door_witness:
  "PortalIdFromGuid (HOUSE_PORTAL_GUID_MIN + 4) = 4"
proof -
  have "portals_inv door_mgr"
    by (simp add: portals_inv_def door_mgr_def one_door_def GetTemplate_def HOUSE_PORTAL_MAX_ID_def sm_ok_def)
  moreover have "GetPortal door_mgr 4 = Some one_door" by (simp add: GetPortal_def door_mgr_def)
  ultimately show ?thesis
    using door_guid_names_door [of door_mgr 4 one_door 4 one_door 0] by (simp add: one_door_def)
qed

text \<open>
  the blocks overlap: furniture ids are handed out up to the very top of the range, doors included,
  so a piece placed after enough others is taken for a door.
\<close>
theorem furniture_guid_names_a_door:
  "\<exists>s g. AllocateObjectGuid (plain_mgr\<lparr>m_nextObjectGuid := 11999001\<rparr>) = (s, g) \<and> PortalIdFromGuid g = 1"
  by (simp add: AllocateObjectGuid_def PortalIdFromGuid_def HOUSE_GO_GUID_MAX_def HOUSE_PORTAL_GUID_MIN_def
      HOUSE_PORTAL_GUID_MAX_def)

theorem home_door_found_witness:
  "GetHomePortal door_mgr (plain_house\<lparr>h_portalId := 4\<rparr>) = Some one_door
   \<and> IsHomePortal door_mgr (plain_house\<lparr>h_portalId := 4\<rparr>) 4"
proof -
  have "portals_inv door_mgr"
    by (simp add: portals_inv_def door_mgr_def one_door_def GetTemplate_def HOUSE_PORTAL_MAX_ID_def sm_ok_def)
  moreover have "GetHomePortal door_mgr (plain_house\<lparr>h_portalId := 4\<rparr>) = Some one_door"
    by (simp add: GetHomePortal_def GetPortal_def door_mgr_def IsHomePortalOf_def one_door_def)
  ultimately show ?thesis
    using home_door_found [of door_mgr "plain_house\<lparr>h_portalId := 4\<rparr>"] by (simp add: one_door_def)
qed

end
