(* ===== verification/HouseVisits.thy ===== *)
theory HouseVisits
  imports HouseDoors
begin

section \<open>Going home, visiting, knocking, and the way back out\<close>

text \<open>
  The trips: Housing/HouseMgr.cpp from \<open>CreateHouse\<close> to \<open>VisitPartyLeaderHouse\<close>, and
  Housing/HousePortal.cpp from \<open>CheckPortal\<close> to \<open>TeachHomePortal\<close> with \<open>EvictLapsedVisitors\<close>. A trip
  answers \<open>Inr ()\<close> when it was made and \<open>Inl\<close> with the error text when it was not; an empty text is a
  refusal that says nothing (\<open>error\<close> is empty when the caller passes it in). The traveller is returned
  as they are after the call: a trip changes the instance they are forced into, the teleport itself is
  an effect. A \<open>Player*\<close> another call looks up (a house's owner, a visitor) is a value of that moment.
  Whether a teleport is accepted, and which dungeon copy a character is bound to, are answers of
  \<open>server\<close>.
\<close>

definition HOUSE_HOME_PORTAL_ENTRY :: u32 where "HOUSE_HOME_PORTAL_ENTRY = 100015"

definition getMSTimeDiff :: "u32 \<Rightarrow> u32 \<Rightarrow> u32" where
  "getMSTimeDiff oldMSTime newMSTime =
     (if oldMSTime > newMSTime
      then min (0xFFFFFFFF - oldMSTime + newMSTime) (oldMSTime - newMSTime)
      else newMSTime - oldMSTime)"

subsection \<open>A house and its copy of the map\<close>

definition CreateHouse :: "u32 \<Rightarrow> HouseMgr \<Rightarrow> HouseMgr \<times> House option" where
  "CreateHouse accountId s =
     (let s1 = pexec (sql_insert_house accountId) s
      in case find (\<lambda>r. hr_account (snd r) = accountId) (tb_house (m_db s1)) of
           None \<Rightarrow> (s1, None)
         | Some (i, row) \<Rightarrow>
             let h = \<lparr>h_id = i, h_accountId = accountId, h_portalId = 0, h_instanceId = 0, h_name = [],
                      h_objects = [], h_critters = [], h_templateId = 0, h_authorsTemplate = 0,
                      h_exit = no_exit\<rparr>;
                 s2 = s1\<lparr>m_houses := sm_put i h (m_houses s1),
                         m_houseByAccount := sm_put accountId i (m_houseByAccount s1)\<rparr>
             in (s2, GetHouseById s2 i))"

definition PrepareInstance :: "server \<Rightarrow> House \<Rightarrow> HouseMgr \<Rightarrow> HouseMgr \<times> House \<times> bool" where
  "PrepareInstance sv house s =
     (if \<not> sv_mapEntry sv then (s, house, False)
      else if h_instanceId house = 0 then
        let i = sv_newInstance sv;
            house' = house\<lparr>h_instanceId := i\<rparr>;
            s1 = put_house house' s;
            s2 = pexec (sql_replace_instance i HOUSE_RESET_TIME) s1;
            s3 = pexec (sql_update_house_instance (h_id house') i) s2;
            s4 = s3\<lparr>m_houseByInstance := sm_put i (h_id house') (m_houseByInstance s3)\<rparr>
        in (s4, house', sv_persist sv i)
      else (s, house, sv_persist sv (h_instanceId house)))"

definition force_map_change :: "player \<Rightarrow> House \<Rightarrow> bool" where
  "force_map_change p house \<longleftrightarrow> pl_mapId p = HOUSE_MAP_ID \<and> pl_instanceId p \<noteq> h_instanceId house"

definition teleport_to :: "player \<Rightarrow> u32 \<Rightarrow> yards \<times> yards \<times> yards \<times> yards \<Rightarrow> bool \<Rightarrow> HouseMgr \<Rightarrow> HouseMgr" where
  "teleport_to p m spot force s =
     (case spot of (x, y, z, o') \<Rightarrow> emit (OnPlayer (pl_guid p) (Teleport m x y z o' force)) s)"

definition SendPlayerHome :: "server \<Rightarrow> HouseMgr \<Rightarrow> player \<Rightarrow> HouseMgr \<times> player \<times> unit res" where
  "SendPlayerHome sv s p =
     (if \<not> m_enabled s then (s, p, Inl ''Housing is not available on this server.'')
      else if pl_combat p then (s, p, Inl ''You cannot go home while in combat.'')
      else
        case GetHouseByAccount s (pl_account p) of
          None \<Rightarrow> (s, p, Inl ''You do not have a home yet. Find an entrance portal and claim one.'')
        | Some house \<Rightarrow>
            (case PrepareInstance sv house s of
               (s1, house', ok) \<Rightarrow>
                 if \<not> ok \<or> \<not> sv_copy sv HOUSE_MAP_ID (h_instanceId house')
                 then (s1, p, Inl ''Could not prepare your house.'')
                 else
                   let p1 = p\<lparr>pl_forced := 0\<rparr>;
                       s2 = emit (OnPlayer (pl_guid p) (Bind (h_instanceId house'))) s1
                   in if \<not> sv_teleport sv p1 HOUSE_MAP_ID then (s2, p1, Inl [])
                      else (teleport_to p1 HOUSE_MAP_ID (GetArrivalPosition house')
                              (force_map_change p1 house') s2, p1, Inr ())))"

definition EnterHouseAsVisitor ::
  "server \<Rightarrow> HouseMgr \<Rightarrow> player \<Rightarrow> House \<Rightarrow> HouseMgr \<times> player \<times> unit res" where
  "EnterHouseAsVisitor sv s p house =
     (case PrepareInstance sv house s of
        (s1, house', ok) \<Rightarrow>
          if \<not> ok then (s1, p, Inl ''Could not open their house.'')
          else
            let p1 = p\<lparr>pl_forced := h_instanceId house'\<rparr>
            in if \<not> sv_teleport sv p1 HOUSE_MAP_ID
               then (s1, p1\<lparr>pl_forced := 0\<rparr>, Inl ''Could not travel there.'')
               else (teleport_to p1 HOUSE_MAP_ID (GetArrivalPosition house')
                       (force_map_change p1 house') s1, p1, Inr ()))"

subsection \<open>The party is the invitation\<close>

definition GetPartyLeader :: "server \<Rightarrow> HouseMgr \<Rightarrow> player \<Rightarrow> HousePartyHost option" where
  "GetPartyLeader sv s p =
     (if \<not> m_enabled s then None
      else
        case pl_group p of
          None \<Rightarrow> None
        | Some grp \<Rightarrow>
            let leaderGuid = g_leader grp; leaderAccount = sv_accountOfGuid sv leaderGuid
            in if leaderGuid = 0 \<or> leaderGuid = pl_guid p then None
               else if leaderAccount = 0 then None
               else if leaderAccount = pl_account p then None
               else
                 case GetHouseByAccount s leaderAccount of
                   None \<Rightarrow> None
                 | Some house \<Rightarrow>
                     Some \<lparr>ph_leaderGuid = leaderGuid, ph_leaderAccount = leaderAccount,
                           ph_houseId = h_id house, ph_leaderName = g_leaderName grp\<rparr>)"

definition GetPartyLeaderHouse :: "server \<Rightarrow> HouseMgr \<Rightarrow> player \<Rightarrow> u32 \<Rightarrow> HousePartyHost option" where
  "GetPartyLeaderHouse sv s p portalId =
     (if portalId = 0 then None
      else
        case GetPartyLeader sv s p of
          None \<Rightarrow> None
        | Some host \<Rightarrow>
            (case GetHouseById s (ph_houseId host) of
               None \<Rightarrow> None
             | Some house \<Rightarrow> if \<not> IsHomePortal s house portalId then None else Some host))"

definition SetPartyOffer :: "player \<Rightarrow> u32 \<Rightarrow> HouseMgr \<Rightarrow> HouseMgr" where
  "SetPartyOffer p leaderGuid s =
     (if leaderGuid = 0 then s\<lparr>m_partyOffer := sm_erase (pl_guid p) (m_partyOffer s)\<rparr>
      else s\<lparr>m_partyOffer := sm_put (pl_guid p) leaderGuid (m_partyOffer s)\<rparr>)"

definition TakePartyOffer :: "player \<Rightarrow> HouseMgr \<Rightarrow> HouseMgr \<times> u32" where
  "TakePartyOffer p s =
     (case sm_find (m_partyOffer s) (pl_guid p) of
        None \<Rightarrow> (s, 0)
      | Some guid \<Rightarrow> (s\<lparr>m_partyOffer := sm_erase (pl_guid p) (m_partyOffer s)\<rparr>, guid))"

subsection \<open>The return point of a Portal Home trip\<close>

definition SaveReturn :: "u32 \<Rightarrow> HouseReturn \<Rightarrow> HouseMgr \<Rightarrow> HouseMgr" where
  "SaveReturn guid back s =
     pexec (sql_replace_return guid back) (s\<lparr>m_returns := sm_put guid back (m_returns s)\<rparr>)"

definition DropReturn :: "u32 \<Rightarrow> HouseMgr \<Rightarrow> HouseMgr" where
  "DropReturn guid s =
     pexec (sql_delete_return guid) (s\<lparr>m_returns := sm_erase guid (m_returns s)\<rparr>)"

definition LoadReturns :: "HouseMgr \<Rightarrow> HouseMgr" where
  "LoadReturns s =
     fold (\<lambda>r s. s\<lparr>m_returns := sm_put (fst r) (snd r) (m_returns s)\<rparr>) (tb_return (m_db s)) (s\<lparr>m_returns := []\<rparr>)"

definition RememberEntrance :: "player \<Rightarrow> u32 \<Rightarrow> HouseMgr \<Rightarrow> HouseMgr" where
  "RememberEntrance p portalId s =
     (if portalId = 0 then s
      else
        let s1 = s\<lparr>m_enteredBy := sm_put (pl_guid p) portalId (m_enteredBy s),
                   m_staffVisits := sm_erase (pl_guid p) (m_staffVisits s)\<rparr>
        in if sm_has (m_returns s1) (pl_guid p) then DropReturn (pl_guid p) s1 else s1)"

subsection \<open>The lock and the knock\<close>

definition IsLocked :: "HouseMgr \<Rightarrow> House \<Rightarrow> bool" where
  "IsLocked s house \<longleftrightarrow> GetSettingAccount s (h_accountId house) HOUSE_SETTING_LOCKED \<noteq> 0"

definition sweep_knocks :: "server \<Rightarrow> HouseMgr \<Rightarrow> HouseMgr" where
  "sweep_knocks sv s = s\<lparr>m_knocks := filter (\<lambda>r. \<not> k_expires (snd r) \<le> sv_now sv) (m_knocks s)\<rparr>"

definition raise_knock ::
  "server \<Rightarrow> player \<Rightarrow> House \<Rightarrow> HousePartyHost \<Rightarrow> u32 \<Rightarrow> HouseMgr \<Rightarrow> HouseMgr \<times> unit res" where
  "raise_knock sv visitor house host portalId s =
     (case sv_findPlayer sv (ph_leaderGuid host) of
        None \<Rightarrow> (s, Inl ''Nobody is home.'')
      | Some owner \<Rightarrow>
          if \<not> pl_inWorld owner \<or> \<not> pl_session owner then (s, Inl ''Nobody is home.'')
          else
            let knock = \<lparr>k_houseId = h_id house, k_portalId = portalId,
                         k_expires = sv_now sv + HOUSE_KNOCK_SECONDS,
                         k_answered = (case sm_find (m_knocks s) (pl_guid visitor) of
                                         None \<Rightarrow> False | Some old \<Rightarrow> k_answered old)\<rparr>;
                s1 = s\<lparr>m_knocks := sm_put (pl_guid visitor) knock (m_knocks s)\<rparr>;
                s2 = emit (OnPlayer (pl_guid owner) (Addon ''CHOUSE'' (''K '' @ pl_name visitor))) s1;
                s3 = say owner (pl_name visitor @ '' knocks at your door.'') s2;
                s4 = say visitor (''You knock on '' @ ph_leaderName host @ CHR 0x27 # ''s door.'') s3
            in (s4, Inl []))"

definition Knock ::
  "server \<Rightarrow> HouseMgr \<Rightarrow> player \<Rightarrow> House \<Rightarrow> HousePartyHost \<Rightarrow> u32 \<Rightarrow> HouseMgr \<times> unit res" where
  "Knock sv s visitor house host portalId =
     (let s1 = sweep_knocks sv s
      in case sm_find (m_knocks s1) (pl_guid visitor) of
           None \<Rightarrow> raise_knock sv visitor house host portalId s1
         | Some pending \<Rightarrow>
             if k_houseId pending = h_id house
             then (s1, Inl (if k_answered pending then ''Wait a moment before you knock again.''
                            else ''You have knocked. Wait for '' @ ph_leaderName host @ ''.''))
             else raise_knock sv visitor house host portalId s1)"

definition AnswerKnock ::
  "server \<Rightarrow> HouseMgr \<Rightarrow> player \<Rightarrow> string \<Rightarrow> bool \<Rightarrow> HouseMgr \<times> player option \<times> unit res" where
  "AnswerKnock sv s owner visitorName admit =
     (if \<not> m_enabled s \<or> \<not> pl_session owner then (s, None, Inl [])
      else
        case GetHouseByAccount s (pl_account owner) of
          None \<Rightarrow> (s, None, Inl ''You do not have a house.'')
        | Some house \<Rightarrow>
            (case Option.bind (sv_normalName sv visitorName) (sv_findByName sv) of
               None \<Rightarrow> (s, None, Inl ''Nobody by that name is at your door.'')
             | Some visitor \<Rightarrow>
                 (case sm_find (m_knocks s) (pl_guid visitor) of
                    None \<Rightarrow> (s, Some visitor, Inl ''Nobody by that name is at your door.'')
                  | Some knock \<Rightarrow>
                      if k_houseId knock \<noteq> h_id house \<or> k_answered knock \<or> k_expires knock \<le> sv_now sv
                      then (s, Some visitor, Inl ''Nobody by that name is at your door.'')
                      else if \<not> admit then
                        let s1 = s\<lparr>m_knocks := sm_put (pl_guid visitor) (knock\<lparr>k_answered := True\<rparr>) (m_knocks s)\<rparr>;
                            s2 = say visitor (pl_name owner @ '' does not let you in.'') s1;
                            s3 = say owner (''You turn '' @ pl_name visitor @ '' away.'') s2
                        in (s3, Some visitor, Inr ())
                      else
                        let s1 = s\<lparr>m_knocks := sm_erase (pl_guid visitor) (m_knocks s)\<rparr>
                        in if (case GetPartyLeader sv s1 visitor of
                                 None \<Rightarrow> True | Some host \<Rightarrow> ph_leaderAccount host \<noteq> h_accountId house)
                           then (s1, Some visitor, Inl (pl_name visitor @ '' is not in your party any more.''))
                           else if pl_combat visitor \<or> pl_taxi visitor \<or> pl_teleporting visitor
                           then (s1, Some visitor, Inl (pl_name visitor @ '' cannot travel right now.''))
                           else
                             case EnterHouseAsVisitor sv s1 visitor house of
                               (s2, visitor', Inl travelError) \<Rightarrow>
                                 (s2, Some visitor', Inl (pl_name visitor @ '' could not come in.''))
                             | (s2, visitor', Inr _) \<Rightarrow>
                                 (say visitor' (pl_name owner @ '' lets you in.'')
                                    (if k_portalId knock \<noteq> 0 then RememberEntrance visitor' (k_portalId knock) s2
                                     else s2), Some visitor', Inr ()))))"

subsection \<open>Visiting\<close>

definition LookUpAccount :: "server \<Rightarrow> string \<Rightarrow> u32 res" where
  "LookUpAccount sv name =
     (let accountId = sv_accountOfName sv name
      in if accountId = 0 then Inl ''No character by that name.'' else Inr accountId)"

definition VisitHouse :: "server \<Rightarrow> HouseMgr \<Rightarrow> player \<Rightarrow> string \<Rightarrow> HouseMgr \<times> player \<times> unit res" where
  "VisitHouse sv s p ownerName =
     (if \<not> m_enabled s then (s, p, Inl ''Housing is not available on this server.'')
      else if pl_combat p then (s, p, Inl ''You cannot travel while in combat.'')
      else
        case LookUpAccount sv ownerName of
          Inl e \<Rightarrow> (s, p, Inl e)
        | Inr ownerAccount \<Rightarrow>
            if ownerAccount = pl_account p then SendPlayerHome sv s p
            else
              case GetHouseByAccount s ownerAccount of
                None \<Rightarrow> (s, p, Inl ''They do not have a house.'')
              | Some house \<Rightarrow>
                  let host = GetPartyLeader sv s p;
                      following = (case host of None \<Rightarrow> False | Some h \<Rightarrow> ph_leaderAccount h = ownerAccount);
                      staff = (pl_security p \<ge> SEC_DEVELOPER)
                  in if \<not> following \<and> \<not> staff
                     then (s, p, Inl ''Join their party and they can take you home with them.'')
                     else if following \<and> IsLocked s house
                     then (case Knock sv s p house (the host) 0 of (s1, r) \<Rightarrow> (s1, p, r))
                     else
                       case EnterHouseAsVisitor sv s p house of
                         (s1, p1, Inl e) \<Rightarrow> (s1, p1, Inl e)
                       | (s1, p1, Inr _) \<Rightarrow>
                           if staff \<and> \<not> following
                           then (s1\<lparr>m_staffVisits := sm_put (pl_guid p1) () (m_staffVisits s1)\<rparr>, p1, Inr ())
                           else (s1\<lparr>m_staffVisits := sm_erase (pl_guid p1) (m_staffVisits s1)\<rparr>, p1, Inr ()))"

definition VisitPartyLeaderHouse ::
  "server \<Rightarrow> HouseMgr \<Rightarrow> player \<Rightarrow> u32 \<Rightarrow> u32 \<Rightarrow> HouseMgr \<times> player \<times> unit res" where
  "VisitPartyLeaderHouse sv s p expectedLeader portalId =
     (if \<not> m_enabled s then (s, p, Inl ''Housing is not available on this server.'')
      else if pl_combat p then (s, p, Inl ''You cannot travel while in combat.'')
      else
        case GetPartyLeaderHouse sv s p portalId of
          None \<Rightarrow> (s, p, Inl ''Your party leader's home is not here any more.'')
        | Some host \<Rightarrow>
            if expectedLeader \<noteq> 0 \<and> expectedLeader \<noteq> ph_leaderGuid host
            then (s, p, Inl ''Your party has a different leader now. Right-click the door again.'')
            else
              case GetHouseById s (ph_houseId host) of
                None \<Rightarrow> (s, p, Inl ''Your party leader's home is not here any more.'')
              | Some house \<Rightarrow>
                  if IsLocked s house
                  then (case Knock sv s p house host portalId of (s1, r) \<Rightarrow> (s1, p, r))
                  else
                    case EnterHouseAsVisitor sv s p house of
                      (s1, p1, Inl e) \<Rightarrow> (s1, p1, Inl e)
                    | (s1, p1, Inr _) \<Rightarrow> (RememberEntrance p1 portalId s1, p1, Inr ()))"

subsection \<open>The way out\<close>

definition SendPlayerBack :: "server \<Rightarrow> HouseMgr \<Rightarrow> player \<Rightarrow> HouseReturn \<Rightarrow> HouseMgr \<times> unit res" where
  "SendPlayerBack sv s p back =
     (let spot = (r_mapId back, r_x back, r_y back, r_z back, r_o back);
          go = (\<lambda>(m, x, y, z, o') why.
                  if \<not> sv_teleport sv p m then (s, Inl ''The way back is closed. Try again soon.'')
                  else
                    let s1 = teleport_to p m (x, y, z, o') False s
                    in (case why of None \<Rightarrow> s1 | Some w \<Rightarrow> say p w s1, Inr ()))
      in case sv_mapKind sv (r_mapId back) of
           None \<Rightarrow> (s, Inl [])
         | Some False \<Rightarrow> go spot None
         | Some True \<Rightarrow>
             if sv_bound sv p (r_mapId back) = Some (r_instanceId back) then go spot None
             else
               case sv_goBack sv (r_mapId back) of
                 None \<Rightarrow> (s, Inl [])
               | Some entrance \<Rightarrow>
                   go entrance
                     (Some (if sv_copy sv (r_mapId back) (r_instanceId back)
                            then ''You are no longer in that party. You are at the dungeon entrance.''
                            else ''That dungeon has reset. You are at its entrance.'')))"

definition door_spot :: "HousePortal \<Rightarrow> yards \<times> yards \<times> yards \<times> yards" where
  "door_spot p =
     (p_x p + cos (p_o p) * HOUSE_PORTAL_PLACE_DISTANCE, p_y p + sin (p_o p) * HOUSE_PORTAL_PLACE_DISTANCE,
      p_z p, p_o p)"

definition own_home_door :: "HouseMgr \<Rightarrow> player \<Rightarrow> HousePortal option" where
  "own_home_door s p = Option.bind (GetHouseByAccount s (pl_account p)) (GetHomePortal s)"

definition leave_by_door :: "server \<Rightarrow> HouseMgr \<Rightarrow> player \<Rightarrow> HouseMgr \<times> unit res" where
  "leave_by_door sv s p =
     (let used = Option.bind (sm_find (m_enteredBy s) (pl_guid p)) (GetPortal s)
      in case (case used of Some d \<Rightarrow> Some d | None \<Rightarrow> own_home_door s p) of
           None \<Rightarrow>
             (let s1 = emit (OnPlayer (pl_guid p) Homebind) s
              in (s1\<lparr>m_enteredBy := sm_erase (pl_guid p) (m_enteredBy s1)\<rparr>, Inr ()))
         | Some d \<Rightarrow>
             if \<not> sv_teleport sv p (p_map d) then (s, Inl ''Could not send you back.'')
             else
               let s1 = arm_cooldown sv p (teleport_to p (p_map d) (door_spot d) False s)
               in (s1\<lparr>m_enteredBy := sm_erase (pl_guid p) (m_enteredBy s1)\<rparr>, Inr ()))"

definition SendPlayerToPortal :: "server \<Rightarrow> HouseMgr \<Rightarrow> player \<Rightarrow> HouseMgr \<times> unit res" where
  "SendPlayerToPortal sv s p =
     (if pl_combat p then (s, Inl ''You cannot leave while in combat.'')
      else
        case sm_find (m_returns s) (pl_guid p) of
          None \<Rightarrow> leave_by_door sv s p
        | Some back \<Rightarrow>
            (case SendPlayerBack sv s p back of
               (s1, Inr _) \<Rightarrow> (DropReturn (pl_guid p) s1, Inr ())
             | (s1, Inl e) \<Rightarrow>
                 if e \<noteq> [] then (s1, Inl e)
                 else leave_by_door sv (DropReturn (pl_guid p) s1) p))"

definition login_door :: "server \<Rightarrow> HouseMgr \<Rightarrow> player \<Rightarrow> u32 \<Rightarrow> HouseMgr \<times> (u32 \<times> yards \<times> yards \<times> yards \<times> yards) option" where
  "login_door sv s p instanceId =
     (let used = Option.bind (sm_find (m_enteredBy s) (pl_guid p)) (GetPortal s);
          there = (case used of
                     Some d \<Rightarrow> Some d
                   | None \<Rightarrow> if instanceId = 0 then None
                             else Option.bind (GetHouseByInstance s instanceId) (GetHomePortal s));
          s1 = s\<lparr>m_enteredBy := sm_erase (pl_guid p) (m_enteredBy s)\<rparr>
      in case (case there of Some d \<Rightarrow> Some d | None \<Rightarrow> own_home_door s p) of
           None \<Rightarrow> (s1, None)
         | Some d \<Rightarrow>
             (case door_spot d of
                (x, y, z, o') \<Rightarrow> (arm_cooldown sv p s1, Some (p_map d, x, y, z, o'))))"

definition GetLoginExit ::
  "server \<Rightarrow> HouseMgr \<Rightarrow> player \<Rightarrow> u32 \<Rightarrow> HouseMgr \<times> (u32 \<times> yards \<times> yards \<times> yards \<times> yards) option" where
  "GetLoginExit sv s p instanceId =
     (case sm_find (m_returns s) (pl_guid p) of
        None \<Rightarrow> login_door sv s p instanceId
      | Some back \<Rightarrow>
          let s1 = DropReturn (pl_guid p) s;
              forget = (\<lambda>s. s\<lparr>m_enteredBy := sm_erase (pl_guid p) (m_enteredBy s)\<rparr>)
          in case sv_mapKind sv (r_mapId back) of
               None \<Rightarrow> login_door sv s1 p instanceId
             | Some dungeon \<Rightarrow>
                 if \<not> dungeon \<or> sv_bound sv p (r_mapId back) = Some (r_instanceId back)
                 then (forget s1, Some (r_mapId back, r_x back, r_y back, r_z back, r_o back))
                 else
                   case sv_goBack sv (r_mapId back) of
                     Some entrance \<Rightarrow> (forget s1, Some entrance)
                   | None \<Rightarrow> login_door sv s1 p instanceId)"

subsection \<open>Portal Home\<close>

definition home_portal_refusal :: "server \<Rightarrow> HouseMgr \<Rightarrow> player \<Rightarrow> string option" where
  "home_portal_refusal sv s p =
     (if \<not> m_enabled s then Some ''Housing is not available on this server.''
      else if GetHouseByAccount s (pl_account p) = None
      then Some ''You do not have a home yet. Find an entrance portal and claim one.''
      else if pl_mapId p = HOUSE_MAP_ID then Some ''You are already in a house.''
      else if sv_battleground sv p then Some ''You cannot open a portal home here.''
      else if sv_transport sv p \<or> pl_taxi p then Some ''You cannot open a portal home while travelling.''
      else if sv_invasion sv p then Some ''You cannot open a portal home during an invasion.''
      else None)"

definition CanOpenHomePortal :: "server \<Rightarrow> HouseMgr \<Rightarrow> player \<Rightarrow> bool \<Rightarrow> HouseMgr \<times> bool" where
  "CanOpenHomePortal sv s p aloud =
     (case home_portal_refusal sv s p of
        None \<Rightarrow> (s, True)
      | Some why \<Rightarrow> (if aloud then say p why s else s, False))"

definition OpenHomePortal :: "server \<Rightarrow> HouseMgr \<Rightarrow> player \<Rightarrow> HouseMgr" where
  "OpenHomePortal sv s p =
     (case CanOpenHomePortal sv s p True of
        (s1, False) \<Rightarrow> s1
      | (s1, True) \<Rightarrow>
          let go = sv_newGo sv HOUSE_HOME_PORTAL_ENTRY
          in if go = 0 then say p ''The portal would not open.'' s1
             else
               let s2 = emit (OnDoor (SummonHomePortal go (pl_mapId p) (pl_instanceId p))) s1
               in s2\<lparr>m_homePortals :=
                       sm_put (pl_account p)
                         \<lparr>hp_goGuid = go, hp_ownerGuid = pl_guid p, hp_mapId = pl_mapId p,
                          hp_instanceId = pl_instanceId p\<rparr> (m_homePortals s2)\<rparr>)"

definition back_here :: "player \<Rightarrow> u32 \<Rightarrow> u32 \<Rightarrow> HouseReturn" where
  "back_here p accountId host =
     \<lparr>r_viaAccount = accountId, r_hostGuid = host, r_mapId = pl_mapId p, r_instanceId = pl_instanceId p,
      r_x = pl_x p, r_y = pl_y p, r_z = pl_z p, r_o = pl_o p\<rparr>"

definition UseHomePortal :: "server \<Rightarrow> HouseMgr \<Rightarrow> player \<Rightarrow> u32 \<Rightarrow> HouseMgr \<times> player" where
  "UseHomePortal sv s p go =
     (if \<not> m_enabled s then (s, p)
      else
        case find (\<lambda>r. hp_goGuid (snd r) = go) (m_homePortals s) of
          None \<Rightarrow> (say p ''This portal leads nowhere now.'' s, p)
        | Some (accountId, open') \<Rightarrow>
            if pl_combat p then (say p ''You cannot go through while in combat.'' s, p)
            else
              case GetHouseByAccount s accountId of
                None \<Rightarrow> (say p ''This portal leads nowhere now.'' s, p)
              | Some house \<Rightarrow>
                  let owner = (pl_account p = accountId);
                      host = sv_findPlayer sv (hp_ownerGuid open');
                      welcome = (host \<noteq> None \<and>
                                 (case pl_group p of None \<Rightarrow> False
                                  | Some g \<Rightarrow> hp_ownerGuid open' \<in> set (g_members g)))
                  in if \<not> owner \<and> \<not> welcome
                     then (say p (''This portal is for ''
                                  @ (case host of None \<Rightarrow> ''its owner'' | Some h \<Rightarrow> pl_name h)
                                  @ CHR 0x27 # ''s party.'') s, p)
                     else
                       case (if owner then SendPlayerHome sv s p else EnterHouseAsVisitor sv s p house) of
                         (s1, p1, Inl e) \<Rightarrow> (if e = [] then s1 else say p1 e s1, p1)
                       | (s1, p1, Inr _) \<Rightarrow>
                           let s2 = SaveReturn (pl_guid p1) (back_here p accountId (hp_ownerGuid open')) s1
                           in (s2\<lparr>m_enteredBy := sm_erase (pl_guid p1) (m_enteredBy s2),
                                  m_staffVisits := sm_erase (pl_guid p1) (m_staffVisits s2)\<rparr>, p1))"

definition CloseHomePortal :: "player \<Rightarrow> HouseMgr \<Rightarrow> HouseMgr" where
  "CloseHomePortal p s =
     (if \<not> pl_session p then s
      else
        case sm_find (m_homePortals s) (pl_account p) of
          None \<Rightarrow> s
        | Some open' \<Rightarrow>
            if hp_ownerGuid open' = pl_guid p
            then s\<lparr>m_homePortals := sm_erase (pl_account p) (m_homePortals s)\<rparr> else s)"

definition IsHomePortalOpen :: "HouseMgr \<Rightarrow> u32 \<Rightarrow> bool" where
  "IsHomePortalOpen s go \<longleftrightarrow> find (\<lambda>r. hp_goGuid (snd r) = go) (m_homePortals s) \<noteq> None"

definition IsPortalGuest :: "server \<Rightarrow> HouseMgr \<Rightarrow> player \<Rightarrow> House \<Rightarrow> bool" where
  "IsPortalGuest sv s guest house =
     (case sm_find (m_returns s) (pl_guid guest) of
        None \<Rightarrow> False
      | Some ret \<Rightarrow>
          if r_viaAccount ret \<noteq> h_accountId house then False
          else
            case pl_group guest of
              None \<Rightarrow> False
            | Some grp \<Rightarrow>
                (case sv_sessionPlayer sv (h_accountId house) of
                   None \<Rightarrow> False
                 | Some owner \<Rightarrow> pl_inWorld owner \<and> pl_guid owner \<in> set (g_members grp)))"

definition ForgetReturn :: "server \<Rightarrow> player \<Rightarrow> HouseMgr \<Rightarrow> HouseMgr" where
  "ForgetReturn sv p s =
     (if pl_mapId p \<noteq> HOUSE_MAP_ID then s
      else if sv_loggingOut sv p then s
      else if sv_destMap sv p = HOUSE_MAP_ID then s
      else
        let s1 = s\<lparr>m_staffVisits := sm_erase (pl_guid p) (m_staffVisits s)\<rparr>
        in if \<not> sm_has (m_returns s1) (pl_guid p) then s1 else DropReturn (pl_guid p) s1)"

definition TeachHomePortal :: "HouseMgr \<Rightarrow> player \<Rightarrow> HouseMgr \<times> player" where
  "TeachHomePortal s p =
     (if \<not> m_enabled s \<or> HOUSE_HOME_PORTAL_SPELL \<in> set (pl_spells p) then (s, p)
      else if pl_bot p then (s, p)
      else if GetHouseByAccount s (pl_account p) = None then (s, p)
      else (emit (OnPlayer (pl_guid p) (Learn HOUSE_HOME_PORTAL_SPELL)) s,
            p\<lparr>pl_spells := pl_spells p @ [HOUSE_HOME_PORTAL_SPELL]\<rparr>))"

subsection \<open>Showing visitors out\<close>

definition may_stay :: "server \<Rightarrow> HouseMgr \<Rightarrow> House \<Rightarrow> player \<Rightarrow> bool" where
  "may_stay sv s house p \<longleftrightarrow>
     \<not> pl_session p
     \<or> pl_account p = h_accountId house
     \<or> pl_forced p \<noteq> h_instanceId house
     \<or> sm_has (m_staffVisits s) (pl_guid p)
     \<or> (case GetPartyLeader sv s p of None \<Rightarrow> False | Some host \<Rightarrow> ph_leaderAccount host = h_accountId house)
     \<or> IsPortalGuest sv s p house"

definition evict_one :: "server \<Rightarrow> House \<Rightarrow> player \<Rightarrow> HouseMgr \<Rightarrow> HouseMgr \<times> player" where
  "evict_one sv house p s =
     (if pl_combat p then (s, p)
      else
        let host = (case sm_find (m_returns s) (pl_guid p) of
                      None \<Rightarrow> []
                    | Some ret \<Rightarrow>
                        if sv_sessionPlayer sv (h_accountId house) \<noteq> None then []
                        else case sv_nameOfGuid sv (r_hostGuid ret) of None \<Rightarrow> [] | Some n \<Rightarrow> n)
        in case SendPlayerToPortal sv s p of
             (s1, Inl _) \<Rightarrow> (s1, p)
           | (s1, Inr _) \<Rightarrow>
               (say p (if host \<noteq> [] then host @ '' has logged out. The visit is over.''
                       else ''The party has broken up, and the visit with it.'') s1,
                p\<lparr>pl_forced := 0\<rparr>))"

text \<open>The players on the map are given, and given back in the same order, as each one is afterwards.\<close>

fun evict_each :: "server \<Rightarrow> House \<Rightarrow> (player \<times> bool) list \<Rightarrow> HouseMgr \<Rightarrow> HouseMgr \<times> player list" where
  "evict_each sv house [] s = (s, [])"
| "evict_each sv house ((p, leaving) # ps) s =
     (case (if leaving then evict_one sv house p s else (s, p)) of
        (s1, p1) \<Rightarrow> (case evict_each sv house ps s1 of (s2, ps2) \<Rightarrow> (s2, p1 # ps2)))"

definition EvictLapsedVisitors :: "server \<Rightarrow> HouseMgr \<Rightarrow> u32 \<Rightarrow> player list \<Rightarrow> HouseMgr \<times> player list" where
  "EvictLapsedVisitors sv s instanceId players =
     (if \<not> m_enabled s then (s, players)
      else
        case GetHouseByInstance s instanceId of
          None \<Rightarrow> (s, players)
        | Some house \<Rightarrow>
            if h_authorsTemplate house \<noteq> 0 then (s, players)
            else evict_each sv house (map (\<lambda>p. (p, \<not> may_stay sv s house p)) players) s)"

subsection \<open>Walking through a portal\<close>

text \<open>What one player standing in the ring sets off.\<close>

definition walk_out :: "server \<Rightarrow> player \<Rightarrow> HouseMgr \<Rightarrow> HouseMgr \<times> player" where
  "walk_out sv p s =
     (case SendPlayerToPortal sv s p of
        (s1, Inl e) \<Rightarrow> (if e = [] then s1 else say p e s1, p)
      | (s1, Inr _) \<Rightarrow> (s1, p))"

definition walk_in :: "server \<Rightarrow> u32 \<Rightarrow> player \<Rightarrow> HouseMgr \<Rightarrow> HouseMgr \<times> player" where
  "walk_in sv portalGuid p s =
     (let portalId = PortalIdFromGuid portalGuid;
          house = GetHouseByAccount s (pl_account p)
      in case GetPartyLeaderHouse sv s p portalId of
           Some host \<Rightarrow>
             (let locked = (case GetHouseById s (ph_houseId host) of None \<Rightarrow> False | Some h \<Rightarrow> IsLocked s h);
                  s1 = (if locked
                        then s\<lparr>m_knockTouch := sm_put (pl_guid p)
                                 \<lparr>kt_portalGuid = portalGuid, kt_lastSeen = sv_nowMs sv\<rparr> (m_knockTouch s)\<rparr>
                        else s)
              in case VisitPartyLeaderHouse sv s1 p 0 portalId of
                   (s2, p2, Inr _) \<Rightarrow>
                     (say p2 (''You follow your party into '' @ ph_leaderName host @ CHR 0x27 # ''s home.'') s2, p2)
                 | (s2, p2, Inl e) \<Rightarrow> (if e = [] then s2 else say p2 e s2, p2))
         | None \<Rightarrow>
             (case house of
                None \<Rightarrow> (say p ''This home is available. Right-click the gear to claim it.'' s, p)
              | Some h \<Rightarrow>
                  if IsHomePortal s h portalId then
                    (case SendPlayerHome sv (RememberEntrance p portalId s) p of
                       (s2, p2, Inl e) \<Rightarrow> (if e = [] then s2 else say p2 e s2, p2)
                     | (s2, p2, Inr _) \<Rightarrow> (s2, p2))
                  else
                    (say p ''This is not your door. Right-click the gear to go home, or to move here.'' s, p)))"

definition cross_portal :: "server \<Rightarrow> u32 \<Rightarrow> bool \<Rightarrow> player \<Rightarrow> HouseMgr \<Rightarrow> HouseMgr \<times> player" where
  "cross_portal sv portalGuid leaving p s =
     (if (case sm_find (m_portalCooldown s) (pl_guid p) of None \<Rightarrow> False | Some t \<Rightarrow> t > sv_now sv) then (s, p)
      else
        case (if leaving then walk_out sv p s else walk_in sv portalGuid p s) of
          (s1, p1) \<Rightarrow> (arm_cooldown sv p1 s1, p1))"

definition step_in_ring ::
  "server \<Rightarrow> u32 \<Rightarrow> bool \<Rightarrow> player \<Rightarrow> HouseMgr \<Rightarrow> HouseMgr \<times> player" where
  "step_in_ring sv portalGuid leaving p s =
     (if \<not> pl_inWorld p \<or> pl_taxi p \<or> pl_teleporting p then (s, p)
      else if pl_bot p then (s, p)
      else if GetSetting s (Some p) HOUSE_SETTING_WALK_IN = 0 then (s, p)
      else
        case sm_find (m_knockTouch s) (pl_guid p) of
          None \<Rightarrow> cross_portal sv portalGuid leaving p s
        | Some t \<Rightarrow>
            if kt_portalGuid t \<noteq> portalGuid then cross_portal sv portalGuid leaving p s
            else if getMSTimeDiff (kt_lastSeen t) (sv_nowMs sv) \<le> HOUSE_KNOCK_TOUCH_MS
            then (s\<lparr>m_knockTouch := sm_put (pl_guid p) (t\<lparr>kt_lastSeen := sv_nowMs sv\<rparr>) (m_knockTouch s)\<rparr>, p)
            else cross_portal sv portalGuid leaving p
                   (s\<lparr>m_knockTouch := sm_erase (pl_guid p) (m_knockTouch s)\<rparr>))"

fun step_each :: "server \<Rightarrow> u32 \<Rightarrow> bool \<Rightarrow> player list \<Rightarrow> HouseMgr \<Rightarrow> HouseMgr \<times> player list" where
  "step_each sv portalGuid leaving [] s = (s, [])"
| "step_each sv portalGuid leaving (p # ps) s =
     (case step_in_ring sv portalGuid leaving p s of
        (s1, p1) \<Rightarrow> (case step_each sv portalGuid leaving ps s1 of (s2, ps2) \<Rightarrow> (s2, p1 # ps2)))"

definition sweep_ring :: "server \<Rightarrow> u32 \<Rightarrow> HouseMgr \<Rightarrow> HouseMgr" where
  "sweep_ring sv portalGuid s =
     s\<lparr>m_portalCooldown := filter (\<lambda>r. \<not> snd r \<le> sv_now sv) (m_portalCooldown s),
       m_knockTouch :=
         filter (\<lambda>r. \<not> (kt_portalGuid (snd r) = portalGuid
                        \<and> getMSTimeDiff (kt_lastSeen (snd r)) (sv_nowMs sv) > HOUSE_KNOCK_TOUCH_MS))
           (m_knockTouch s)\<rparr>"

definition CheckPortal ::
  "server \<Rightarrow> HouseMgr \<Rightarrow> u32 \<Rightarrow> bool \<Rightarrow> player list \<Rightarrow> HouseMgr \<times> player list" where
  "CheckPortal sv s portalGuid leaving players =
     (if \<not> m_enabled s then (s, players)
      else
        case step_each sv portalGuid leaving players s of
          (s1, players1) \<Rightarrow> (sweep_ring sv portalGuid s1, players1))"

subsection \<open>Nobody is inside who was not let in\<close>

definition copy_of :: "server \<Rightarrow> House \<Rightarrow> u32" where
  "copy_of sv house = (if h_instanceId house = 0 then sv_newInstance sv else h_instanceId house)"

definition following :: "server \<Rightarrow> HouseMgr \<Rightarrow> player \<Rightarrow> u32 \<Rightarrow> bool" where
  "following sv s p accountId \<longleftrightarrow>
     (\<exists>host. GetPartyLeader sv s p = Some host \<and> ph_leaderAccount host = accountId)"

lemma PrepareInstance_copy:
  "PrepareInstance sv house s = (s', house', ok) \<Longrightarrow> ok \<Longrightarrow> h_instanceId house' = copy_of sv house"
  by (auto simp: PrepareInstance_def copy_of_def Let_def split: if_splits)

lemma EnterHouseAsVisitor_cases:
  assumes "EnterHouseAsVisitor sv s p house = (s', p', r)"
  obtains (refused) e where "r = Inl e" "pl_forced p' = pl_forced p \<or> pl_forced p' = 0"
  | (entered) "r = Inr ()" "p' = p\<lparr>pl_forced := copy_of sv house\<rparr>" "sv_teleport sv p' HOUSE_MAP_ID"
proof -
  obtain s1 h ok where prep: "PrepareInstance sv house s = (s1, h, ok)" by (metis prod.collapse)
  show ?thesis
  proof (cases "ok \<and> sv_teleport sv (p\<lparr>pl_forced := h_instanceId h\<rparr>) HOUSE_MAP_ID")
    case True
    then have "r = Inr ()" "p' = p\<lparr>pl_forced := copy_of sv house\<rparr>" "sv_teleport sv p' HOUSE_MAP_ID"
      using assms PrepareInstance_copy [OF prep] by (auto simp: EnterHouseAsVisitor_def prep Let_def)
    then show ?thesis by (rule entered)
  next
    case False
    then have "\<exists>e. r = Inl e" "pl_forced p' = pl_forced p \<or> pl_forced p' = 0"
      using assms by (auto simp: EnterHouseAsVisitor_def prep Let_def split: if_splits)
    then show ?thesis using refused by blast
  qed
qed

lemma Knock_refuses: "\<exists>e. snd (Knock sv s v house host i) = Inl e"
  by (simp add: Knock_def raise_knock_def Let_def split: option.splits)

lemma SendPlayerHome_forced:
  "SendPlayerHome sv s p = (s', p', r) \<Longrightarrow> pl_forced p' = pl_forced p \<or> pl_forced p' = 0"
  by (auto simp: SendPlayerHome_def Let_def split: option.splits if_splits prod.splits)

lemma GetPartyLeader_house:
  "GetPartyLeader sv s p = Some host \<Longrightarrow>
   \<exists>house. GetHouseByAccount s (ph_leaderAccount host) = Some house \<and> ph_houseId host = h_id house"
  by (auto simp: GetPartyLeader_def Let_def split: option.splits if_splits)

lemma VisitHouse_let_in:
  "case VisitHouse sv s p name of
      (s', p', Inl e) \<Rightarrow> pl_forced p' = pl_forced p \<or> pl_forced p' = 0
    | (s', p', Inr u) \<Rightarrow>
        sv_accountOfName sv name = pl_account p \<or>
        (\<exists>house. GetHouseByAccount s (sv_accountOfName sv name) = Some house
            \<and> p' = p\<lparr>pl_forced := copy_of sv house\<rparr>
            \<and> (if following sv s p (sv_accountOfName sv name) then \<not> IsLocked s house
               else pl_security p \<ge> SEC_DEVELOPER))"
proof (cases "m_enabled s \<and> \<not> pl_combat p \<and> sv_accountOfName sv name \<noteq> 0")
  case False
  then show ?thesis by (auto simp: VisitHouse_def LookUpAccount_def)
next
  case go: True
  let ?a = "sv_accountOfName sv name"
  have fol: "(case GetPartyLeader sv s p of None \<Rightarrow> False | Some h \<Rightarrow> ph_leaderAccount h = ?a) = following sv s p ?a"
    by (simp add: following_def split: option.splits)
  show ?thesis
  proof (cases "?a = pl_account p")
    case True
    then have run: "VisitHouse sv s p name = SendPlayerHome sv s p"
      using go by (simp add: VisitHouse_def LookUpAccount_def)
    obtain s1 p1 r where r: "SendPlayerHome sv s p = (s1, p1, r)" by (metis prod.collapse)
    show ?thesis using SendPlayerHome_forced [OF r] True by (simp add: run r split: sum.splits)
  next
    case foreign: False
    show ?thesis
    proof (cases "GetHouseByAccount s ?a")
      case None
      then show ?thesis using go foreign by (simp add: VisitHouse_def LookUpAccount_def)
    next
      case (Some house)
      obtain k kr where k: "Knock sv s p house (the (GetPartyLeader sv s p)) 0 = (k, kr)" by (metis prod.collapse)
      then obtain ke where kr: "kr = Inl ke" using Knock_refuses [of sv s p house] by (metis snd_conv)
      obtain s1 p1 r where e: "EnterHouseAsVisitor sv s p house = (s1, p1, r)" by (metis prod.collapse)
      have run: "VisitHouse sv s p name =
          (if \<not> following sv s p ?a \<and> \<not> pl_security p \<ge> SEC_DEVELOPER
           then (s, p, Inl ''Join their party and they can take you home with them.'')
           else if following sv s p ?a \<and> IsLocked s house then (k, p, kr)
           else case r of Inl e \<Rightarrow> (s1, p1, Inl e)
                | Inr _ \<Rightarrow> if pl_security p \<ge> SEC_DEVELOPER \<and> \<not> following sv s p ?a
                    then (s1\<lparr>m_staffVisits := sm_put (pl_guid p1) () (m_staffVisits s1)\<rparr>, p1, Inr ())
                    else (s1\<lparr>m_staffVisits := sm_erase (pl_guid p1) (m_staffVisits s1)\<rparr>, p1, Inr ()))"
        using go foreign Some
        by (simp add: VisitHouse_def LookUpAccount_def fol k e Let_def split: sum.splits)
      show ?thesis
        using e
      proof (cases rule: EnterHouseAsVisitor_cases)
        case (refused x)
        then show ?thesis using Some by (simp add: run kr)
      next
        case entered
        then show ?thesis using Some by (simp add: run kr)
      qed
    qed
  qed
qed

lemma VisitPartyLeaderHouse_let_in:
  "case VisitPartyLeaderHouse sv s p leader i of
      (s', p', Inl e) \<Rightarrow> pl_forced p' = pl_forced p \<or> pl_forced p' = 0
    | (s', p', Inr u) \<Rightarrow>
        (\<exists>host house. GetPartyLeader sv s p = Some host \<and> (leader = 0 \<or> leader = ph_leaderGuid host)
            \<and> GetHouseById s (ph_houseId host) = Some house \<and> IsHomePortal s house i
            \<and> \<not> IsLocked s house \<and> p' = p\<lparr>pl_forced := copy_of sv house\<rparr>)"
proof (cases "GetPartyLeaderHouse sv s p i")
  case None
  then show ?thesis by (simp add: VisitPartyLeaderHouse_def)
next
  case (Some host)
  then obtain house where h: "GetPartyLeader sv s p = Some host" "GetHouseById s (ph_houseId host) = Some house"
      "IsHomePortal s house i"
    by (auto simp: GetPartyLeaderHouse_def split: option.splits if_splits)
  obtain k kr where k: "Knock sv s p house host i = (k, kr)" by (metis prod.collapse)
  then obtain ke where kr: "kr = Inl ke" using Knock_refuses [of sv s p house host i] by auto
  obtain s1 p1 r where e: "EnterHouseAsVisitor sv s p house = (s1, p1, r)" by (metis prod.collapse)
  show ?thesis
    using e
  proof (cases rule: EnterHouseAsVisitor_cases)
    case (refused x)
    then show ?thesis using Some h by (simp add: VisitPartyLeaderHouse_def k kr e)
  next
    case entered
    then show ?thesis using Some h by (simp add: VisitPartyLeaderHouse_def k kr e)
  qed
qed


subsection \<open>The lock and the knock\<close>

lemma map_of_filter_value:
  assumes "distinct (map fst m)"
  shows "map_of (filter (\<lambda>r. Q (snd r)) m) k
    = (case map_of m k of None \<Rightarrow> None | Some v \<Rightarrow> if Q v then Some v else None)"
  using assms
proof (induction m)
  case Nil
  then show ?case by simp
next
  case (Cons r m)
  have "fst r \<notin> fst ` set m" using Cons.prems by simp
  then have "map_of m (fst r) = None" by (simp add: map_of_eq_None_iff)
  then show ?case using Cons by (auto split: option.splits)
qed

lemma swept_knock:
  "sm_ok (m_knocks s) \<Longrightarrow> sm_find (m_knocks (sweep_knocks sv s)) g
    = (case sm_find (m_knocks s) g of None \<Rightarrow> None | Some k \<Rightarrow> if k_expires k \<le> sv_now sv then None else Some k)"
  unfolding sweep_knocks_def
  using map_of_filter_value [OF sm_ok_distinct, of "m_knocks s" "\<lambda>k. \<not> k_expires k \<le> sv_now sv" g]
  by (auto split: option.splits)

lemma sweep_knocks_fields [simp]:
  "m_trace (sweep_knocks sv s) = m_trace s" "m_enabled (sweep_knocks sv s) = m_enabled s"
  "m_houses (sweep_knocks sv s) = m_houses s" "m_houseByAccount (sweep_knocks sv s) = m_houseByAccount s"
  by (simp_all add: sweep_knocks_def)

text \<open>
  a knock only asks. It never lets anybody in; while a knock of the same visitor at the same house
  is younger than half a minute, answered or not, nothing is sent to anybody; otherwise the owner, if
  online, gets exactly one popup and one line, the visitor one line, and the knock on record is for this
  house and this door and can be answered for half a minute.
\<close>
theorem knock_only_asks:
  assumes "sm_ok (m_knocks s)"
  shows "case Knock sv s v house host i of (s', r) \<Rightarrow>
     (\<exists>e. r = Inl e) \<and> m_houses s' = m_houses s
     \<and> (if \<exists>k. sm_find (m_knocks s) (pl_guid v) = Some k \<and> sv_now sv < k_expires k \<and> k_houseId k = h_id house
        then m_trace s' = m_trace s
        else (case sv_findPlayer sv (ph_leaderGuid host) of
            Some owner \<Rightarrow>
              if pl_inWorld owner \<and> pl_session owner then
                m_trace s' = m_trace s @
                  [OnPlayer (pl_guid owner) (Addon ''CHOUSE'' (''K '' @ pl_name v)),
                   OnPlayer (pl_guid owner) (Say (pl_name v @ '' knocks at your door.'')),
                   OnPlayer (pl_guid v) (Say (''You knock on '' @ ph_leaderName host @ CHR 0x27 # ''s door.''))]
                \<and> (\<exists>k. sm_find (m_knocks s') (pl_guid v) = Some k \<and> k_houseId k = h_id house
                     \<and> k_portalId k = i \<and> k_expires k = sv_now sv + HOUSE_KNOCK_SECONDS)
              else r = Inl ''Nobody is home.'' \<and> m_trace s' = m_trace s
          | None \<Rightarrow> r = Inl ''Nobody is home.'' \<and> m_trace s' = m_trace s))"
  using swept_knock [OF assms, of sv "pl_guid v"]
  by (auto simp: Knock_def raise_knock_def Let_def emit_def say_def not_le split: option.splits if_splits)

definition ann :: player where
  "ann = plain_player\<lparr>pl_group := Some \<lparr>g_leader = 1, g_leaderName = ''Ann'', g_members = [1, 2]\<rparr>\<rparr>"

definition bob :: player where
  "bob = plain_player\<lparr>pl_guid := 2, pl_name := ''Bob'', pl_account := 8, pl_mapId := 0,
           pl_group := Some \<lparr>g_leader = 1, g_leaderName = ''Ann'', g_members = [1, 2]\<rparr>\<rparr>"

definition busy_server :: server where
  "busy_server = plain_server\<lparr>sv_findPlayer := (\<lambda>g. if g = 1 then Some ann else None),
     sv_findByName := (\<lambda>n. if n = ''Bob'' then Some bob else None),
     sv_accountOfGuid := (\<lambda>g. if g = 1 then 7 else 0)\<rparr>"

definition ann_host :: HousePartyHost where
  "ann_host = \<lparr>ph_leaderGuid = 1, ph_leaderAccount = 7, ph_houseId = 3, ph_leaderName = ''Ann''\<rparr>"

lemmas guests = ann_def bob_def busy_server_def ann_host_def

theorem knock_only_asks_witness:
  "\<exists>k. sm_find (m_knocks (fst (Knock busy_server plain_mgr bob plain_house ann_host 4))) 2 = Some k
     \<and> k_portalId k = 4 \<and> k_expires k = 1030"
proof -
  have "sm_ok (m_knocks plain_mgr)" by simp
  from knock_only_asks [OF this, where sv = busy_server and v = bob and house = plain_house and host = ann_host and i = 4] show ?thesis
    by (auto simp: guests HOUSE_KNOCK_SECONDS_def split: prod.splits)
qed

lemma knocks_PrepareInstance: "PrepareInstance sv house s = (s', h, ok) \<Longrightarrow> m_knocks s' = m_knocks s"
  by (auto simp: PrepareInstance_def Let_def put_house_def pexec_def split: if_splits)

lemma knocks_EnterHouseAsVisitor: "EnterHouseAsVisitor sv s p house = (s', r) \<Longrightarrow> m_knocks s' = m_knocks s"
  by (auto simp: EnterHouseAsVisitor_def Let_def teleport_to_def dest: knocks_PrepareInstance
      split: if_splits prod.splits)

lemma knocks_RememberEntrance [simp]: "m_knocks (RememberEntrance p i s) = m_knocks s"
  by (simp add: RememberEntrance_def Let_def DropReturn_def pexec_def)

lemma GetHouseByAccount_knocks [simp]: "GetHouseByAccount (s\<lparr>m_knocks := k\<rparr>) a = GetHouseByAccount s a"
  by (simp add: GetHouseByAccount_def GetHouseById_def split: option.split)

lemma GetPartyLeader_knocks [simp]: "GetPartyLeader sv (s\<lparr>m_knocks := k\<rparr>) p = GetPartyLeader sv s p"
  by (simp add: GetPartyLeader_def Let_def split: option.split)

lemma AnswerKnock_some:
  assumes "AnswerKnock sv s owner name admit = (s', v', Inr ())"
  obtains v house knock where "Option.bind (sv_normalName sv name) (sv_findByName sv) = Some v"
    "GetHouseByAccount s (pl_account owner) = Some house" "sm_find (m_knocks s) (pl_guid v) = Some knock"
    "k_houseId knock = h_id house" "\<not> k_answered knock" "sv_now sv < k_expires knock"
    "m_enabled s" "pl_session owner"
proof -
  have live: "m_enabled s" "pl_session owner"
    using assms by (auto simp: AnswerKnock_def split: if_splits)
  then obtain house where h: "GetHouseByAccount s (pl_account owner) = Some house"
    using assms by (cases "GetHouseByAccount s (pl_account owner)") (auto simp: AnswerKnock_def)
  then obtain v where v: "Option.bind (sv_normalName sv name) (sv_findByName sv) = Some v"
    using assms live
    by (cases "Option.bind (sv_normalName sv name) (sv_findByName sv)") (auto simp: AnswerKnock_def)
  then obtain knock where k: "sm_find (m_knocks s) (pl_guid v) = Some knock"
    using assms live h by (cases "sm_find (m_knocks s) (pl_guid v)") (auto simp: AnswerKnock_def)
  have "\<not> (k_houseId knock \<noteq> h_id house \<or> k_answered knock \<or> k_expires knock \<le> sv_now sv)"
  proof (rule ccontr)
    assume "\<not> \<not> (k_houseId knock \<noteq> h_id house \<or> k_answered knock \<or> k_expires knock \<le> sv_now sv)"
    then show False using assms live h v k by (auto simp: AnswerKnock_def)
  qed
  then show ?thesis using that [OF v h k _ _ _ live] by (simp add: not_le)
qed

text \<open>
  only a yes opens a locked door, and only once. When the owner's answer lets somebody in, that
  visitor had a knock on record, at this owner's house, unanswered and not yet expired; they are in a
  party led by this owner and free to travel; they are now in the house's copy; and the knock is used
  up. A no keeps the knock on record, answered, so it cannot be answered again.
\<close>
theorem admitted_visitor_knocked:
  assumes "AnswerKnock sv s owner name admit = (s', Some v', Inr ())"
  shows "\<exists>v house knock. Option.bind (sv_normalName sv name) (sv_findByName sv) = Some v
     \<and> GetHouseByAccount s (pl_account owner) = Some house
     \<and> sm_find (m_knocks s) (pl_guid v) = Some knock
     \<and> k_houseId knock = h_id house \<and> \<not> k_answered knock \<and> sv_now sv < k_expires knock
     \<and> (if admit then v' = v\<lparr>pl_forced := copy_of sv house\<rparr> \<and> \<not> pl_combat v \<and> \<not> pl_taxi v \<and> \<not> pl_teleporting v
            \<and> (\<exists>host. GetPartyLeader sv s v = Some host \<and> ph_leaderAccount host = h_accountId house)
            \<and> sm_find (m_knocks s') (pl_guid v) = None
        else v' = v \<and> sm_find (m_knocks s') (pl_guid v) = Some (knock\<lparr>k_answered := True\<rparr>))"
proof -
  obtain v house knock where look: "Option.bind (sv_normalName sv name) (sv_findByName sv) = Some v"
      "GetHouseByAccount s (pl_account owner) = Some house" "sm_find (m_knocks s) (pl_guid v) = Some knock"
    and ok: "k_houseId knock = h_id house" "\<not> k_answered knock" "sv_now sv < k_expires knock"
      "m_enabled s" "pl_session owner"
    using AnswerKnock_some [OF assms] by blast
  have live: "\<not> (k_houseId knock \<noteq> h_id house \<or> k_answered knock \<or> k_expires knock \<le> sv_now sv)"
    using ok by simp
  have "if admit then v' = v\<lparr>pl_forced := copy_of sv house\<rparr> \<and> \<not> pl_combat v \<and> \<not> pl_taxi v \<and> \<not> pl_teleporting v
            \<and> (\<exists>host. GetPartyLeader sv s v = Some host \<and> ph_leaderAccount host = h_accountId house)
            \<and> sm_find (m_knocks s') (pl_guid v) = None
        else v' = v \<and> sm_find (m_knocks s') (pl_guid v) = Some (knock\<lparr>k_answered := True\<rparr>)"
  proof (cases admit)
    case False
    then show ?thesis
      using assms look live ok by (auto simp: AnswerKnock_def Let_def)
  next
    case True
    let ?s = "s\<lparr>m_knocks := sm_erase (pl_guid v) (m_knocks s)\<rparr>"
    have host: "\<exists>host. GetPartyLeader sv s v = Some host \<and> ph_leaderAccount host = h_accountId house"
      and free: "\<not> (pl_combat v \<or> pl_taxi v \<or> pl_teleporting v)"
      using assms look live ok True
      by (auto simp: AnswerKnock_def Let_def split: option.splits if_splits)
    obtain s2 p2 r where e: "EnterHouseAsVisitor sv ?s v house = (s2, p2, r)" by (metis prod.collapse)
    note kn = knocks_EnterHouseAsVisitor [OF e]
    show ?thesis
      using e
    proof (cases rule: EnterHouseAsVisitor_cases)
      case (refused x)
      then show ?thesis
        using assms look live ok True host free e by (auto simp: AnswerKnock_def Let_def)
    next
      case entered
      then show ?thesis
        using assms look live ok True host free e kn by (auto simp: AnswerKnock_def Let_def)
    qed
  qed
  with look ok show ?thesis by blast
qed

theorem admitted_visitor_knocked_witness:
  "\<exists>s' v'. AnswerKnock busy_server
       (plain_mgr\<lparr>m_knocks := [(2, \<lparr>k_houseId = 3, k_portalId = 0, k_expires = 1030, k_answered = False\<rparr>)]\<rparr>)
       ann ''Bob'' True = (s', Some v', Inr ()) \<and> pl_forced v' = 50 \<and> sm_find (m_knocks s') 2 = None"
proof -
  let ?s = "plain_mgr\<lparr>m_knocks := [(2, \<lparr>k_houseId = 3, k_portalId = 0, k_expires = 1030, k_answered = False\<rparr>)]\<rparr>"
  have lead: "GetPartyLeader busy_server ?s bob = Some ann_host"
    by (simp add: GetPartyLeader_def guests GetHouseByAccount_def GetHouseById_def)
  obtain s' v' where run: "AnswerKnock busy_server ?s ann ''Bob'' True = (s', Some v', Inr ())"
    using lead
    by (auto simp: AnswerKnock_def guests GetHouseByAccount_def GetHouseById_def Let_def EnterHouseAsVisitor_def
        PrepareInstance_def)
  from admitted_visitor_knocked [OF run] run show ?thesis
    by (auto simp: guests GetHouseByAccount_def GetHouseById_def copy_of_def)
qed

text \<open>
  C38: a visitor turned away at one house who knocks at another within the half minute cannot be let in
  there: the row is reused with its old answer, so the owner gets the popup, but every answer to it is
  "nobody by that name is at your door".
\<close>
theorem knock_after_denial_is_dead:
  assumes "sm_ok (m_knocks s)" and "sm_find (m_knocks s) (pl_guid v) = Some old"
    and "sv_now sv < k_expires old" and "k_answered old" and "k_houseId old \<noteq> h_id house"
    and "sv_findPlayer sv (ph_leaderGuid host) = Some owner" and "pl_inWorld owner" and "pl_session owner"
    and "GetHouseByAccount s (pl_account owner) = Some house" and "m_enabled s"
    and "Option.bind (sv_normalName sv' name) (sv_findByName sv') = Some v"
  shows "OnPlayer (pl_guid owner) (Addon ''CHOUSE'' (''K '' @ pl_name v))
           \<in> set (m_trace (fst (Knock sv s v house host i)))
    \<and> AnswerKnock sv' (fst (Knock sv s v house host i)) owner name admit
        = (fst (Knock sv s v house host i), Some v, Inl ''Nobody by that name is at your door.'')"
proof -
  let ?s = "fst (Knock sv s v house host i)"
  have old: "sm_find (m_knocks (sweep_knocks sv s)) (pl_guid v) = Some old"
    using swept_knock [OF assms(1), of sv "pl_guid v"] assms(2,3) by simp
  have row: "\<exists>k. sm_find (m_knocks ?s) (pl_guid v) = Some k \<and> k_answered k"
    and popup: "OnPlayer (pl_guid owner) (Addon ''CHOUSE'' (''K '' @ pl_name v)) \<in> set (m_trace ?s)"
    and same: "m_enabled ?s" "GetHouseByAccount ?s (pl_account owner) = Some house"
    using old assms
    by (simp_all add: Knock_def raise_knock_def Let_def emit_def say_def GetHouseByAccount_def GetHouseById_def
        split: option.splits)
  from row obtain k where "sm_find (m_knocks ?s) (pl_guid v) = Some k" "k_answered k" by blast
  then have "AnswerKnock sv' ?s owner name admit = (?s, Some v, Inl ''Nobody by that name is at your door.'')"
    using same assms by (simp add: AnswerKnock_def)
  with popup show ?thesis by simp
qed

theorem knock_after_denial_is_dead_witness:
  "snd (snd (AnswerKnock busy_server
     (fst (Knock busy_server
        (plain_mgr\<lparr>m_knocks := [(2, \<lparr>k_houseId = 9, k_portalId = 0, k_expires = 1020, k_answered = True\<rparr>)]\<rparr>)
        bob plain_house ann_host 0)) ann ''Bob'' True)) = Inl ''Nobody by that name is at your door.''"
  using knock_after_denial_is_dead [where sv = busy_server and sv' = busy_server and v = bob and house = plain_house
      and s = "plain_mgr\<lparr>m_knocks := [(2, \<lparr>k_houseId = 9, k_portalId = 0, k_expires = 1020, k_answered = True\<rparr>)]\<rparr>"
      and old = "\<lparr>k_houseId = 9, k_portalId = 0, k_expires = 1020, k_answered = True\<rparr>"
      and host = ann_host and owner = ann and name = "''Bob''" and i = 0 and admit = True]
  by (simp add: guests GetHouseByAccount_def GetHouseById_def sm_ok_def)

subsection \<open>Nobody is shut in, and nobody overstays\<close>

lemma leave_by_door_opens:
  assumes "\<And>m. sv_teleport sv p m"
  shows "snd (leave_by_door sv s p) = Inr ()"
  using assms by (simp add: leave_by_door_def Let_def split: option.splits)

lemma SendPlayerBack_opens:
  assumes "\<And>m. sv_teleport sv p m"
  shows "snd (SendPlayerBack sv s p b) = Inr () \<or> snd (SendPlayerBack sv s p b) = Inl []"
  using assms by (simp add: SendPlayerBack_def Let_def split: option.splits bool.splits)

lemma SendPlayerToPortal_opens:
  assumes "\<And>m. sv_teleport sv p m" and "\<not> pl_combat p"
  shows "snd (SendPlayerToPortal sv s p) = Inr ()"
proof (cases "sm_find (m_returns s) (pl_guid p)")
  case None
  then show ?thesis using assms(2) leave_by_door_opens [OF assms(1)] by (simp add: SendPlayerToPortal_def)
next
  case (Some b)
  obtain s1 r where "SendPlayerBack sv s p b = (s1, r)" by (metis prod.collapse)
  then show ?thesis
    using SendPlayerBack_opens [OF assms(1), of s b] assms(2) Some leave_by_door_opens [OF assms(1)]
    by (auto simp: SendPlayerToPortal_def)
qed

lemma evict_one_cases:
  assumes "evict_one sv house p s = (s', p')"
  shows "p' = p\<lparr>pl_forced := 0\<rparr> \<or> (p' = p \<and> (pl_combat p \<or> (\<exists>m. \<not> sv_teleport sv p m)))"
proof (cases "pl_combat p \<or> (\<exists>m. \<not> sv_teleport sv p m)")
  case True
  have "p' = p \<or> p' = p\<lparr>pl_forced := 0\<rparr>"
    using assms by (simp add: evict_one_def Let_def split: if_splits prod.splits sum.splits)
  with True show ?thesis by blast
next
  case False
  obtain s1 r where out: "SendPlayerToPortal sv s p = (s1, r)" by (metis prod.collapse)
  then have "r = Inr ()" using SendPlayerToPortal_opens [of sv p s] False by simp
  then show ?thesis
    using assms False out by (auto simp: evict_one_def Let_def)
qed

lemma evict_each_cases:
  "evict_each sv house ps s = (s', qs) \<Longrightarrow>
   list_all2 (\<lambda>(p, leaving) q. if leaving
       then q = p\<lparr>pl_forced := 0\<rparr> \<or> (q = p \<and> (pl_combat p \<or> (\<exists>m. \<not> sv_teleport sv p m)))
       else q = p) ps qs"
proof (induction sv house ps s arbitrary: s' qs rule: evict_each.induct)
  case (1 sv house s)
  then show ?case by simp
next
  case (2 sv house p leaving ps s)
  obtain s1 p1 where one: "(if leaving then evict_one sv house p s else (s, p)) = (s1, p1)"
    by (metis prod.collapse)
  obtain s2 qs' where rest: "evict_each sv house ps s1 = (s2, qs')" by (metis prod.collapse)
  have "qs = p1 # qs'" using "2.prems" one rest by simp
  moreover have "if leaving then p1 = p\<lparr>pl_forced := 0\<rparr> \<or> (p1 = p \<and> (pl_combat p \<or> (\<exists>m. \<not> sv_teleport sv p m)))
       else p1 = p"
    using one evict_one_cases [of sv house p s] by (auto split: if_splits)
  ultimately show ?case using "2.IH" [OF one [symmetric] rest] by simp
qed



end
