(* ===== verification/HouseTrips.thy ===== *)
theory HouseTrips
  imports HouseVisits
begin

section \<open>All trips together\<close>

text \<open>
  The step relation \<open>trip\<close> over the operations of \<open>HouseVisits\<close>, each taken by any player with any
  answers of the rest of the server, and the invariant of every state it reaches: one way out on record
  per player, and the return points of Portal Home equal to their table.
\<close>

subsection \<open>What the trips leave alone\<close>

lemma pexec_fields [simp]:
  "m_enabled (pexec q s) = m_enabled s" "m_houses (pexec q s) = m_houses s"
  "m_houseByAccount (pexec q s) = m_houseByAccount s" "m_houseByInstance (pexec q s) = m_houseByInstance s"
  "m_settings (pexec q s) = m_settings s" "m_portals (pexec q s) = m_portals s"
  "m_enteredBy (pexec q s) = m_enteredBy s" "m_returns (pexec q s) = m_returns s"
  "m_homePortals (pexec q s) = m_homePortals s" "m_staffVisits (pexec q s) = m_staffVisits s"
  "m_knocks (pexec q s) = m_knocks s" "m_knockTouch (pexec q s) = m_knockTouch s"
  "m_portalCooldown (pexec q s) = m_portalCooldown s" "m_trace (pexec q s) = m_trace s"
  "m_objects (pexec q s) = m_objects s" "m_critters (pexec q s) = m_critters s"
  "m_houseTemplates (pexec q s) = m_houseTemplates s" "m_storage (pexec q s) = m_storage s"
  "m_db (pexec q s) = q (m_db s)"
  by (simp_all add: pexec_def)

text \<open>The ways out on record: the door each player came in by and the return point of each trip.\<close>

definition ways :: "HouseMgr \<Rightarrow> (u32, u32) smap \<times> (u32, HouseReturn) smap \<times> (u32, HouseReturn) smap" where
  "ways s = (m_enteredBy s, m_returns s, tb_return (m_db s))"

definition one_way_back :: "HouseMgr \<Rightarrow> bool" where
  "one_way_back s \<longleftrightarrow>
     sm_ok (m_returns s) \<and> sm_ok (tb_return (m_db s))
     \<and> sm_find (tb_return (m_db s)) = sm_find (m_returns s)
     \<and> (\<forall>g. \<not> (sm_has (m_enteredBy s) g \<and> sm_has (m_returns s) g))"

lemma one_way_back_cong: "ways s = ways t \<Longrightarrow> one_way_back s = one_way_back t"
  by (simp add: ways_def one_way_back_def)

lemma ways_core: "core s = core t \<Longrightarrow> ways s = ways t"
  by (simp add: ways_def core_fields [of s t])

lemma ways_frame [simp]:
  "ways (emit e s) = ways s" "ways (say p m s) = ways s" "ways (teleport_to p mm spot f s) = ways s"
  "ways (arm_cooldown sv p s) = ways s" "ways (sweep_knocks sv s) = ways s" "ways (sweep_ring sv g s) = ways s"
  "ways (s\<lparr>m_knocks := k\<rparr>) = ways s" "ways (s\<lparr>m_knockTouch := kt\<rparr>) = ways s"
  "ways (s\<lparr>m_staffVisits := sv'\<rparr>) = ways s" "ways (s\<lparr>m_homePortals := hp\<rparr>) = ways s"
  "ways (s\<lparr>m_partyOffer := po\<rparr>) = ways s"
  by (simp_all add: ways_def teleport_to_def arm_cooldown_def sweep_knocks_def sweep_ring_def split: prod.splits)

lemma ways_PrepareInstance [simp]: "ways (fst (PrepareInstance sv house s)) = ways s"
  by (simp add: PrepareInstance_def Let_def ways_def put_house_def sql_replace_instance_def
      sql_update_house_instance_def)

lemma ways_SendPlayerHome [simp]: "ways (fst (SendPlayerHome sv s p)) = ways s"
proof (cases "GetHouseByAccount s (pl_account p)")
  case None
  then show ?thesis by (simp add: SendPlayerHome_def)
next
  case (Some house)
  obtain s1 h ok where prep: "PrepareInstance sv house s = (s1, h, ok)" by (metis prod.collapse)
  then have "ways s1 = ways s" using ways_PrepareInstance [of sv house s] by simp
  then show ?thesis by (simp add: SendPlayerHome_def Some prep Let_def)
qed

lemma ways_EnterHouseAsVisitor [simp]: "ways (fst (EnterHouseAsVisitor sv s p house)) = ways s"
proof -
  obtain s1 h ok where prep: "PrepareInstance sv house s = (s1, h, ok)" by (metis prod.collapse)
  then have "ways s1 = ways s" using ways_PrepareInstance [of sv house s] by simp
  then show ?thesis by (simp add: EnterHouseAsVisitor_def prep Let_def)
qed

lemma ways_Knock [simp]: "ways (fst (Knock sv s v house host i)) = ways s"
  by (simp add: Knock_def raise_knock_def Let_def split: option.splits)

lemma one_way_back_DropReturn:
  assumes "one_way_back s"
  shows "one_way_back (DropReturn g s)" and "\<not> sm_has (m_returns (DropReturn g s)) g"
    and "m_enteredBy (DropReturn g s) = m_enteredBy s"
  using assms
  by (auto simp: one_way_back_def DropReturn_def sql_delete_return_def fun_eq_iff)

lemma one_way_back_leave:
  "one_way_back s \<Longrightarrow> m = sm_erase g (m_enteredBy s) \<Longrightarrow> one_way_back (s\<lparr>m_enteredBy := m\<rparr>)"
  by (simp add: one_way_back_def)

lemma one_way_back_enter:
  "one_way_back s \<Longrightarrow> \<not> sm_has (m_returns s) g \<Longrightarrow> one_way_back (s\<lparr>m_enteredBy := sm_put g i (m_enteredBy s)\<rparr>)"
  by (auto simp: one_way_back_def)

lemma one_way_back_SaveReturn:
  assumes "one_way_back s" and "t = SaveReturn g back s"
  shows "one_way_back (t\<lparr>m_enteredBy := sm_erase g (m_enteredBy t), m_staffVisits := x\<rparr>)"
  using assms
  by (auto simp: one_way_back_def SaveReturn_def sql_replace_return_def fun_eq_iff)

lemma one_way_back_RememberEntrance:
  assumes "one_way_back s"
  shows "one_way_back (RememberEntrance p i s)"
proof (cases "i = 0")
  case True
  then show ?thesis using assms by (simp add: RememberEntrance_def)
next
  case False
  show ?thesis
    using assms False
    by (auto simp: one_way_back_def RememberEntrance_def Let_def DropReturn_def sql_delete_return_def fun_eq_iff)
qed

lemma one_way_back_leave_by_door:
  assumes "one_way_back s"
  shows "one_way_back (fst (leave_by_door sv s p))"
  using assms one_way_back_cong [OF ways_frame(1), of _ s] one_way_back_cong [OF ways_frame(3), of p _ _ _ s]
    one_way_back_cong [OF ways_frame(4)]
  by (simp add: leave_by_door_def Let_def one_way_back_leave split: option.splits)

lemma SendPlayerBack_ways: "ways (fst (SendPlayerBack sv s p back)) = ways s"
  by (simp add: SendPlayerBack_def Let_def split: option.splits prod.splits bool.splits)

lemma one_way_back_SendPlayerToPortal:
  assumes "one_way_back s"
  shows "one_way_back (fst (SendPlayerToPortal sv s p))"
proof (cases "sm_find (m_returns s) (pl_guid p)")
  case None
  then show ?thesis using assms one_way_back_leave_by_door by (simp add: SendPlayerToPortal_def)
next
  case (Some b)
  obtain s1 r where run: "SendPlayerBack sv s p b = (s1, r)" by (metis prod.collapse)
  then have "one_way_back s1"
    using assms SendPlayerBack_ways [of sv s p b] one_way_back_cong [of s1 s] by simp
  then show ?thesis
    using assms Some run one_way_back_DropReturn(1) one_way_back_leave_by_door
    by (auto simp: SendPlayerToPortal_def split: sum.splits)
qed

lemma one_way_back_login_door:
  "one_way_back s \<Longrightarrow> one_way_back (fst (login_door sv s p i))"
proof -
  assume "one_way_back s"
  then have "one_way_back (s\<lparr>m_enteredBy := sm_erase (pl_guid p) (m_enteredBy s)\<rparr>)"
    by (rule one_way_back_leave) simp
  then show ?thesis
    using one_way_back_cong [OF ways_frame(4)]
    by (simp add: login_door_def Let_def split: option.splits prod.splits)
qed

lemma one_way_back_GetLoginExit:
  assumes "one_way_back s"
  shows "one_way_back (fst (GetLoginExit sv s p i))"
  using assms one_way_back_login_door one_way_back_DropReturn(1)
  by (auto simp: GetLoginExit_def Let_def split: option.splits intro!: one_way_back_leave)


lemma ways_VisitHouse [simp]: "ways (fst (VisitHouse sv s p name)) = ways s"
proof -
  have k: "ways k = ways s" if "Knock sv s p house host i = (k, r)" for house host i k r
    using ways_Knock [of sv s p house host i] that by simp
  have e: "ways e = ways s" if "EnterHouseAsVisitor sv s p house = (e, r)" for house e r
    using ways_EnterHouseAsVisitor [of sv s p house] that by simp
  show ?thesis
    by (auto simp: VisitHouse_def Let_def dest: k e split: option.splits sum.splits prod.splits)
qed

lemma one_way_back_VisitPartyLeaderHouse:
  assumes "one_way_back s"
  shows "one_way_back (fst (VisitPartyLeaderHouse sv s p leader i))"
proof -
  have k: "one_way_back k" if "Knock sv s p house host i = (k, r)" for house host i k r
    using ways_Knock [of sv s p house host i] that assms one_way_back_cong [of k s] by simp
  have e: "one_way_back e" if "EnterHouseAsVisitor sv s p house = (e, r)" for house e r
    using ways_EnterHouseAsVisitor [of sv s p house] that assms one_way_back_cong [of e s] by simp
  show ?thesis
    using assms one_way_back_RememberEntrance
    by (auto simp: VisitPartyLeaderHouse_def Let_def dest: k e split: option.splits sum.splits prod.splits)
qed

lemma one_way_back_AnswerKnock:
  assumes "one_way_back s"
  shows "one_way_back (fst (AnswerKnock sv s owner name admit))"
proof -
  have open': "one_way_back (s\<lparr>m_knocks := k\<rparr>)" for k
    using assms one_way_back_cong [of "s\<lparr>m_knocks := k\<rparr>" s] by simp
  have e: "one_way_back e" if "EnterHouseAsVisitor sv (s\<lparr>m_knocks := k\<rparr>) p house = (e, r)" for p house k e r
    using ways_EnterHouseAsVisitor [of sv "s\<lparr>m_knocks := k\<rparr>" p house] that open' [of k]
      one_way_back_cong [of e "s\<lparr>m_knocks := k\<rparr>"] by simp
  show ?thesis
    using assms open' one_way_back_RememberEntrance one_way_back_cong [OF ways_frame(2)]
    by (auto simp: AnswerKnock_def Let_def dest: e split: option.splits sum.splits prod.splits)
qed

lemma one_way_back_UseHomePortal:
  assumes "one_way_back s"
  shows "one_way_back (fst (UseHomePortal sv s p go))"
proof -
  have h: "one_way_back e" if "SendPlayerHome sv s p = (e, r)" for e r
    using ways_SendPlayerHome [of sv s p] that assms one_way_back_cong [of e s] by simp
  have e: "one_way_back e" if "EnterHouseAsVisitor sv s p house = (e, r)" for house e r
    using ways_EnterHouseAsVisitor [of sv s p house] that assms one_way_back_cong [of e s] by simp
  show ?thesis
    using assms one_way_back_SaveReturn one_way_back_cong [OF ways_frame(2)]
    by (auto simp: UseHomePortal_def Let_def dest: e h split: option.splits sum.splits prod.splits)
qed

lemma one_way_back_evict_each:
  "one_way_back s \<Longrightarrow> one_way_back (fst (evict_each sv house ps s))"
proof (induction sv house ps s rule: evict_each.induct)
  case (1 sv house s)
  then show ?case by simp
next
  case (2 sv house p leaving ps s)
  obtain s1 p1 where one: "(if leaving then evict_one sv house p s else (s, p)) = (s1, p1)"
    by (metis prod.collapse)
  obtain s2 r where out: "SendPlayerToPortal sv s p = (s2, r)" by (metis prod.collapse)
  have "one_way_back s2" using one_way_back_SendPlayerToPortal [OF "2.prems", of sv p] out by simp
  then have "one_way_back s1"
    using one out "2.prems" one_way_back_cong [OF ways_frame(2)]
    by (auto simp: evict_one_def Let_def split: if_splits sum.splits)
  from "2.IH" [OF one [symmetric] this] show ?case using one by (auto split: prod.splits)
qed

lemma one_way_back_EvictLapsedVisitors:
  "one_way_back s \<Longrightarrow> one_way_back (fst (EvictLapsedVisitors sv s i ps))"
  by (simp add: EvictLapsedVisitors_def one_way_back_evict_each split: option.splits)

lemma one_way_back_step_in_ring:
  assumes "one_way_back s"
  shows "one_way_back (fst (step_in_ring sv g leaving p s))"
proof -
  have touch: "one_way_back (t\<lparr>m_knockTouch := k\<rparr>) = one_way_back t" for t k
    by (rule one_way_back_cong) simp
  have said: "one_way_back (say q m t) = one_way_back t" for q m t
    by (rule one_way_back_cong) simp
  have armed: "one_way_back (arm_cooldown sv q t) = one_way_back t" for q t
    by (rule one_way_back_cong) simp
  have out: "one_way_back (fst (walk_out sv p t))" if "one_way_back t" for t
    using one_way_back_SendPlayerToPortal [OF that, of sv p]
    by (auto simp: walk_out_def said split: sum.splits prod.splits)
  have wi: "one_way_back (fst (walk_in sv g p t))" if t: "one_way_back t" for t
  proof -
    have v: "one_way_back u" if "VisitPartyLeaderHouse sv w p l i = (u, r)" "one_way_back w" for w l i u r
      using one_way_back_VisitPartyLeaderHouse [OF that(2), of sv p l i] that(1) by simp
    have h: "one_way_back u" if "SendPlayerHome sv (RememberEntrance p i t) p = (u, r)" for i u r
      using ways_SendPlayerHome [of sv "RememberEntrance p i t" p] that one_way_back_RememberEntrance [OF t, of p i]
        one_way_back_cong [of u "RememberEntrance p i t"] by simp
    show ?thesis
      using t touch by (auto simp: walk_in_def Let_def said dest: h v split: option.splits sum.splits prod.splits)
  qed
  have cross: "one_way_back (fst (cross_portal sv g leaving p t))" if "one_way_back t" for t
    using that out [OF that] wi [OF that] by (auto simp: cross_portal_def armed split: prod.splits)
  show ?thesis
    using assms cross touch by (simp add: step_in_ring_def split: option.splits)
qed

lemma one_way_back_CheckPortal:
  assumes "one_way_back s"
  shows "one_way_back (fst (CheckPortal sv s g leaving ps))"
proof -
  have "one_way_back t \<Longrightarrow> one_way_back (fst (step_each sv g leaving ps t))" for t
  proof (induction ps arbitrary: t)
    case Nil
    then show ?case by simp
  next
    case (Cons p ps)
    have "one_way_back (fst (step_in_ring sv g leaving p t))"
      using one_way_back_step_in_ring [OF Cons.prems] .
    from Cons.IH [OF this] show ?case by (auto split: prod.splits)
  qed
  from this [OF assms] show ?thesis
    using assms one_way_back_cong [OF ways_frame(6)] by (auto simp: CheckPortal_def split: prod.splits)
qed

subsection \<open>All trips, in any order\<close>

text \<open>
  One step of the housing manager that moves somebody or takes them off the record, by whichever
  player, with whatever the rest of the server answers at that moment.
\<close>

inductive trip :: "HouseMgr \<Rightarrow> HouseMgr \<Rightarrow> bool" where
  go_home: "trip s (fst (SendPlayerHome sv s p))"
| visit: "trip s (fst (VisitHouse sv s p name))"
| follow: "trip s (fst (VisitPartyLeaderHouse sv s p leader i))"
| answer: "trip s (fst (AnswerKnock sv s p name admit))"
| enter: "trip s (RememberEntrance p i s)"
| leave: "trip s (fst (SendPlayerToPortal sv s p))"
| login: "trip s (fst (GetLoginExit sv s p inst))"
| cast: "trip s (OpenHomePortal sv s p)"
| click: "trip s (fst (UseHomePortal sv s p go))"
| logout: "trip s (CloseHomePortal p s)"
| off_map: "trip s (ForgetReturn sv p s)"
| poll_house: "trip s (fst (EvictLapsedVisitors sv s inst ps))"
| poll_door: "trip s (fst (CheckPortal sv s g leaving ps))"

lemma trip_one_way_back: "trip s t \<Longrightarrow> one_way_back s \<Longrightarrow> one_way_back t"
proof (induction rule: trip.induct)
  case (go_home s sv p)
  then show ?case using one_way_back_cong [OF ways_SendPlayerHome] by simp
next
  case (visit s sv p name)
  then show ?case using one_way_back_cong [OF ways_VisitHouse] by simp
next
  case (cast s sv p)
  have "ways (OpenHomePortal sv s p) = ways s"
    by (auto simp: OpenHomePortal_def CanOpenHomePortal_def Let_def split: option.splits prod.splits bool.splits)
  with cast show ?case using one_way_back_cong by blast
next
  case (logout s p)
  have "ways (CloseHomePortal p s) = ways s"
    by (simp add: CloseHomePortal_def split: option.splits)
  with logout show ?case using one_way_back_cong by blast
next
  case (off_map s sv p)
  then have "one_way_back (s\<lparr>m_staffVisits := x\<rparr>)" for x
    using one_way_back_cong [OF ways_frame(9)] by blast
  with off_map show ?case by (simp add: ForgetReturn_def Let_def one_way_back_DropReturn(1))
qed (simp_all add: one_way_back_VisitPartyLeaderHouse one_way_back_AnswerKnock one_way_back_RememberEntrance
      one_way_back_SendPlayerToPortal one_way_back_GetLoginExit one_way_back_UseHomePortal
      one_way_back_EvictLapsedVisitors one_way_back_CheckPortal)

lemma load_returns_fold:
  "distinct (map fst rows) \<Longrightarrow>
   (sm_ok (m_returns s) \<longrightarrow>
      sm_ok (m_returns (fold (\<lambda>r s. s\<lparr>m_returns := sm_put (fst r) (snd r) (m_returns s)\<rparr>) rows s)))
   \<and> sm_find (m_returns (fold (\<lambda>r s. s\<lparr>m_returns := sm_put (fst r) (snd r) (m_returns s)\<rparr>) rows s)) g
      = (case map_of rows g of None \<Rightarrow> sm_find (m_returns s) g | Some b \<Rightarrow> Some b)"
proof (induction rows arbitrary: s)
  case Nil
  then show ?case by simp
next
  case (Cons r rows)
  have "map_of rows (fst r) = None" using Cons.prems by (simp add: map_of_eq_None_iff)
  moreover have "distinct (map fst rows)" using Cons.prems by simp
  ultimately show ?case
    using Cons.IH [of "s\<lparr>m_returns := sm_put (fst r) (snd r) (m_returns s)\<rparr>"]
    by (cases r) (auto split: option.splits)
qed

lemma LoadReturns_same:
  assumes "one_way_back s"
  shows "m_returns (LoadReturns s) = m_returns s"
proof (rule sm_ok_eqI)
  have ok: "distinct (map fst (tb_return (m_db s)))"
    using assms by (simp add: one_way_back_def sm_ok_distinct)
  note loaded = load_returns_fold [OF ok, of "s\<lparr>m_returns := []\<rparr>"]
  show "sm_ok (m_returns (LoadReturns s))" using loaded by (simp add: LoadReturns_def)
  show "sm_ok (m_returns s)" using assms by (simp add: one_way_back_def)
  show "sm_find (m_returns (LoadReturns s)) = sm_find (m_returns s)"
  proof
    fix g
    show "sm_find (m_returns (LoadReturns s)) g = sm_find (m_returns s) g"
      using loaded [of g] assms
      by (auto simp: LoadReturns_def one_way_back_def fun_eq_iff split: option.splits)
  qed
qed

lemma trips_one_way_back: "trip\<^sup>*\<^sup>* s t \<Longrightarrow> one_way_back s \<Longrightarrow> one_way_back t"
  by (induction rule: rtranclp_induct) (auto intro: trip_one_way_back)

text \<open>
  C24: whatever trips are made, by whomever and in whatever order, nobody ever has two ways out on
  record (a door they came in by and a return point of a Portal Home trip), the return points in memory
  are those in \<open>character_house_return\<close>, and a restart reads back exactly those.
\<close>
theorem one_way_out_on_record:
  assumes "trip\<^sup>*\<^sup>* s t" and "one_way_back s"
  shows "\<not> (sm_has (m_enteredBy t) g \<and> sm_has (m_returns t) g)
    \<and> sm_find (tb_return (m_db t)) g = sm_find (m_returns t) g
    \<and> m_returns (LoadReturns t) = m_returns t"
proof -
  have "one_way_back t" using trips_one_way_back [OF assms] .
  then show ?thesis using LoadReturns_same [of t] by (simp add: one_way_back_def)
qed

lemma one_way_back_plain: "one_way_back plain_mgr"
  by (simp add: one_way_back_def sm_has_def)

theorem one_way_out_on_record_witness:
  "sm_has (m_enteredBy (RememberEntrance plain_player 4 plain_mgr)) 1
   \<and> \<not> sm_has (m_returns (RememberEntrance plain_player 4 plain_mgr)) 1"
proof -
  have "trip\<^sup>*\<^sup>* plain_mgr (RememberEntrance plain_player 4 plain_mgr)"
    by (rule r_into_rtranclp) (rule trip.enter)
  from one_way_out_on_record [OF this one_way_back_plain, of 1]
  show ?thesis by (simp add: RememberEntrance_def Let_def sm_has_def)
qed

subsection \<open>A round trip\<close>

lemma returns_of_ways: "ways s = ways t \<Longrightarrow> m_returns s = m_returns t"
  by (simp add: ways_def)

lemma UseHomePortal_records:
  assumes "UseHomePortal sv s p go = (s1, p1)"
  shows "m_returns s1 = m_returns s
    \<or> (\<exists>a h. sm_find (m_returns s1) (pl_guid p) = Some (back_here p a h)
         \<and> m_enteredBy s1 = sm_erase (pl_guid p) (m_enteredBy s))"
proof -
  have h: "m_returns e = m_returns s \<and> m_enteredBy e = m_enteredBy s \<and> pl_guid q = pl_guid p"
    if "SendPlayerHome sv s p = (e, q, r)" for e q r
    using ways_SendPlayerHome [of sv s p] that
    by (auto simp: ways_def SendPlayerHome_def Let_def split: option.splits if_splits prod.splits)
  have e: "m_returns e = m_returns s \<and> m_enteredBy e = m_enteredBy s \<and> pl_guid q = pl_guid p"
    if "EnterHouseAsVisitor sv s p house = (e, q, r)" for house e q r
    using ways_EnterHouseAsVisitor [of sv s p house] that
    by (auto simp: ways_def EnterHouseAsVisitor_def Let_def split: if_splits prod.splits)
  obtain e1 q1 r1 where home: "SendPlayerHome sv s p = (e1, q1, r1)" by (metis prod.collapse)
  show ?thesis
  proof (cases "find (\<lambda>r. hp_goGuid (snd r) = go) (m_homePortals s)")
    case None
    then show ?thesis using assms by (auto simp: UseHomePortal_def split: if_splits)
  next
    case (Some ao)
    obtain a hp where ao: "ao = (a, hp)" by (cases ao)
    show ?thesis
    proof (cases "GetHouseByAccount s a")
      case None
      then show ?thesis using assms Some ao by (auto simp: UseHomePortal_def split: if_splits)
    next
      case house: (Some house)
      obtain e2 q2 r2 where guest: "EnterHouseAsVisitor sv s p house = (e2, q2, r2)" by (metis prod.collapse)
      show ?thesis
        using assms h [OF home] e [OF guest]
        by (auto simp: UseHomePortal_def Some ao house home guest Let_def SaveReturn_def split: if_splits sum.splits)
           ((rule exI)+, rule refl)+
    qed
  qed
qed

text \<open>
  Portal Home is a round trip. Somebody who went through an open Portal Home from a place that is
  not a dungeon, and then takes the way out while not in combat, is sent to exactly the spot and facing
  they left from, and the return point is spent, in memory and in the table.
\<close>
theorem portal_home_brings_back:
  assumes "UseHomePortal sv s p go = (s1, p1)" and "sm_find (m_returns s) (pl_guid p) = None"
    and "sm_find (m_returns s1) (pl_guid p) \<noteq> None"
    and "pl_guid q = pl_guid p" and "\<not> pl_combat q" and "sv_mapKind sv' (pl_mapId p) = Some False"
    and "sv_teleport sv' q (pl_mapId p)"
  shows "\<exists>s2. SendPlayerToPortal sv' s1 q = (s2, Inr ())
    \<and> m_trace s2 = m_trace s1 @ [OnPlayer (pl_guid p) (Teleport (pl_mapId p) (pl_x p) (pl_y p) (pl_z p) (pl_o p) False)]
    \<and> sm_find (m_returns s2) (pl_guid p) = None \<and> sm_find (tb_return (m_db s2)) (pl_guid p) = None"
proof -
  obtain a h where rec: "sm_find (m_returns s1) (pl_guid p) = Some (back_here p a h)"
    using UseHomePortal_records [OF assms(1)] assms(2,3) by auto
  then show ?thesis
    using assms(4-)
    by (simp add: SendPlayerToPortal_def SendPlayerBack_def Let_def back_here_def DropReturn_def
        sql_delete_return_def teleport_to_def emit_def)
qed

theorem portal_home_brings_back_witness:
  "\<exists>s1 p1 s2. UseHomePortal plain_server
       (plain_mgr\<lparr>m_homePortals := [(7, \<lparr>hp_goGuid = 77, hp_ownerGuid = 1, hp_mapId = 0, hp_instanceId = 0\<rparr>)]\<rparr>)
       (plain_player\<lparr>pl_mapId := 1\<rparr>) 77 = (s1, p1)
     \<and> SendPlayerToPortal plain_server s1 plain_player = (s2, Inr ())
     \<and> m_trace s2 = m_trace s1 @ [OnPlayer 1 (Teleport 1 0 0 0 0 False)]"
proof -
  let ?s = "plain_mgr\<lparr>m_homePortals := [(7, \<lparr>hp_goGuid = 77, hp_ownerGuid = 1, hp_mapId = 0, hp_instanceId = 0\<rparr>)]\<rparr>"
  let ?p = "plain_player\<lparr>pl_mapId := 1\<rparr>"
  obtain s1 p1 where run: "UseHomePortal plain_server ?s ?p 77 = (s1, p1)" by (metis prod.collapse)
  then have "sm_find (m_returns s1) 1 \<noteq> None"
    by (auto simp: UseHomePortal_def GetHouseByAccount_def GetHouseById_def SendPlayerHome_def PrepareInstance_def
        SaveReturn_def Let_def)
  then show ?thesis
    using portal_home_brings_back [OF run, of plain_player plain_server] run by auto
qed

end
