(* ===== verification/HouseRows.thy ===== *)
theory HouseRows
  imports HouseObjects
begin

section \<open>Rows filed under houses\<close>

text \<open>
  Furniture (\<open>house_object\<close>) and animals (\<open>house_critter\<close>) are kept the same way: a map of rows by id,
  and in every house the list of the ids that are its own. \<open>rows_inv\<close> says that the two agree. The
  locale \<open>house_rows\<close> is what the lemmas ask of a kind of row (that rewriting the list of a house
  rewrites nothing else they look at); it is interpreted for furniture and for animals.
\<close>

definition rows_inv ::
  "('v \<Rightarrow> u32) \<Rightarrow> ('v \<Rightarrow> u32) \<Rightarrow> (House \<Rightarrow> u32 list) \<Rightarrow> (u32, House) smap \<Rightarrow> (u32, 'v) smap \<Rightarrow> u32 \<Rightarrow> bool" where
  "rows_inv key home listed houses rows limit \<longleftrightarrow>
     (\<forall>g v. sm_find rows g = Some v \<longrightarrow>
        key v = g \<and> g \<noteq> 0 \<and> g < limit \<and> (\<exists>h. sm_find houses (home v) = Some h \<and> g \<in> set (listed h)))
     \<and> (\<forall>i h. sm_find houses i = Some h \<longrightarrow>
        h_id h = i \<and> distinct (listed h)
        \<and> (\<forall>g \<in> set (listed h). \<exists>v. sm_find rows g = Some v \<and> home v = i))"

lemma rows_inv_row:
  "rows_inv key home listed houses rows limit \<Longrightarrow> sm_find rows g = Some v \<Longrightarrow>
   key v = g \<and> g \<noteq> 0 \<and> g < limit \<and> (\<exists>h. sm_find houses (home v) = Some h \<and> g \<in> set (listed h))"
  by (simp add: rows_inv_def)

lemma rows_inv_house:
  "rows_inv key home listed houses rows limit \<Longrightarrow> sm_find houses i = Some h \<Longrightarrow>
   h_id h = i \<and> distinct (listed h) \<and> (\<forall>g \<in> set (listed h). \<exists>v. sm_find rows g = Some v \<and> home v = i)"
  by (simp add: rows_inv_def)

lemma rows_invI:
  assumes "\<And>g v. sm_find rows g = Some v \<Longrightarrow>
      key v = g \<and> g \<noteq> 0 \<and> g < limit \<and> (\<exists>h. sm_find houses (home v) = Some h \<and> g \<in> set (listed h))"
    and "\<And>i h. sm_find houses i = Some h \<Longrightarrow>
      h_id h = i \<and> distinct (listed h) \<and> (\<forall>g \<in> set (listed h). \<exists>v. sm_find rows g = Some v \<and> home v = i)"
  shows "rows_inv key home listed houses rows limit"
  unfolding rows_inv_def using assms by blast

lemma rows_inv_fresh: "rows_inv key home listed houses rows limit \<Longrightarrow> sm_find rows limit = None"
  using rows_inv_row [of key home listed houses rows limit limit] by (cases "sm_find rows limit") auto

lemma rows_inv_listed_once:
  assumes "rows_inv key home listed houses rows limit"
    and "sm_find houses i = Some h" and "sm_find houses j = Some k" and "g \<in> set (listed h)" and "g \<in> set (listed k)"
  shows "i = j"
  using rows_inv_house [OF assms(1,2)] rows_inv_house [OF assms(1,3)] assms(4,5) by fastforce

text \<open>Changing something else about a house, and houses that come and go with no rows.\<close>

lemma rows_inv_keep_house:
  assumes "rows_inv key home listed houses rows limit"
    and "sm_find houses i = Some h" and "h_id h' = i" and "listed h' = listed h"
  shows "rows_inv key home listed (sm_put i h' houses) rows limit"
proof (rule rows_invI)
  fix g v
  assume "sm_find rows g = Some v"
  from rows_inv_row [OF assms(1) this] assms(2-)
  show "key v = g \<and> g \<noteq> 0 \<and> g < limit
      \<and> (\<exists>h. sm_find (sm_put i h' houses) (home v) = Some h \<and> g \<in> set (listed h))"
    by auto
next
  fix j k
  assume "sm_find (sm_put i h' houses) j = Some k"
  then show "h_id k = j \<and> distinct (listed k) \<and> (\<forall>g \<in> set (listed k). \<exists>v. sm_find rows g = Some v \<and> home v = j)"
    using rows_inv_house [OF assms(1), of j] assms(2-) by (auto split: if_splits)
qed

lemma rows_inv_new_house:
  assumes "rows_inv key home listed houses rows limit"
    and "sm_find houses i = None" and "h_id h = i" and "listed h = []"
  shows "rows_inv key home listed (sm_put i h houses) rows limit"
proof (rule rows_invI)
  fix g v
  assume "sm_find rows g = Some v"
  from rows_inv_row [OF assms(1) this] assms(2)
  show "key v = g \<and> g \<noteq> 0 \<and> g < limit
      \<and> (\<exists>k. sm_find (sm_put i h houses) (home v) = Some k \<and> g \<in> set (listed k))"
    by auto
next
  fix j k
  assume "sm_find (sm_put i h houses) j = Some k"
  then show "h_id k = j \<and> distinct (listed k) \<and> (\<forall>g \<in> set (listed k). \<exists>v. sm_find rows g = Some v \<and> home v = j)"
    using rows_inv_house [OF assms(1), of j] assms(3,4) by (auto split: if_splits)
qed

lemma rows_inv_lose_house:
  assumes "rows_inv key home listed houses rows limit" and "sm_find houses i = Some h" and "listed h = []"
  shows "rows_inv key home listed (sm_erase i houses) rows limit"
proof (rule rows_invI)
  fix g v
  assume "sm_find rows g = Some v"
  from rows_inv_row [OF assms(1) this] assms(2,3)
  show "key v = g \<and> g \<noteq> 0 \<and> g < limit
      \<and> (\<exists>k. sm_find (sm_erase i houses) (home v) = Some k \<and> g \<in> set (listed k))"
    by auto
next
  fix j k
  assume "sm_find (sm_erase i houses) j = Some k"
  then show "h_id k = j \<and> distinct (listed k) \<and> (\<forall>g \<in> set (listed k). \<exists>v. sm_find rows g = Some v \<and> home v = j)"
    using rows_inv_house [OF assms(1), of j] by (auto split: if_splits)
qed

lemma rows_inv_rewrite:
  assumes "rows_inv key home listed houses rows limit" and "sm_find rows g = Some v"
    and "key v' = key v" and "home v' = home v"
  shows "rows_inv key home listed houses (sm_put g v' rows) limit"
proof (rule rows_invI)
  fix j w
  assume "sm_find (sm_put g v' rows) j = Some w"
  then show "key w = j \<and> j \<noteq> 0 \<and> j < limit \<and> (\<exists>h. sm_find houses (home w) = Some h \<and> j \<in> set (listed h))"
    using rows_inv_row [OF assms(1), of j] assms(2-) by (auto split: if_splits)
next
  fix i h
  assume "sm_find houses i = Some h"
  from rows_inv_house [OF assms(1) this] assms(2,4)
  show "h_id h = i \<and> distinct (listed h)
      \<and> (\<forall>j \<in> set (listed h). \<exists>w. sm_find (sm_put g v' rows) j = Some w \<and> home w = i)"
    by fastforce
qed

subsection \<open>The list of a house grows and shrinks with the rows\<close>

locale house_rows =
  fixes key home :: "'v \<Rightarrow> u32" and listed :: "House \<Rightarrow> u32 list" and relist :: "u32 list \<Rightarrow> House \<Rightarrow> House"
  assumes listed_relist: "listed (relist gs h) = gs" and id_relist: "h_id (relist gs h) = h_id h"
begin

lemma add_row:
  assumes inv: "rows_inv key home listed houses rows n" and h: "sm_find houses (home v) = Some h"
    and v: "key v = n" "n \<noteq> 0" "n < n'"
  shows "rows_inv key home listed (sm_put (home v) (relist (listed h @ [n]) h) houses) (sm_put n v rows) n'"
proof (rule rows_invI)
  fix g w
  assume row: "sm_find (sm_put n v rows) g = Some w"
  show "key w = g \<and> g \<noteq> 0 \<and> g < n'
      \<and> (\<exists>k. sm_find (sm_put (home v) (relist (listed h @ [n]) h) houses) (home w) = Some k \<and> g \<in> set (listed k))"
  proof (cases "g = n")
    case True
    then show ?thesis using row v by (auto simp: listed_relist)
  next
    case False
    then have "sm_find rows g = Some w" using row by simp
    from rows_inv_row [OF inv this] h v(3) show ?thesis by (auto simp: listed_relist)
  qed
next
  fix i k
  assume k: "sm_find (sm_put (home v) (relist (listed h @ [n]) h) houses) i = Some k"
  note old = rows_inv_house [OF inv h] and fresh = rows_inv_fresh [OF inv]
  show "h_id k = i \<and> distinct (listed k)
      \<and> (\<forall>g \<in> set (listed k). \<exists>w. sm_find (sm_put n v rows) g = Some w \<and> home w = i)"
  proof (cases "i = home v")
    case True
    moreover have "n \<notin> set (listed h)" using old fresh by fastforce
    ultimately show ?thesis using k old by (auto simp: listed_relist id_relist)
  next
    case False
    then have "sm_find houses i = Some k" using k by simp
    from rows_inv_house [OF inv this] fresh show ?thesis by fastforce
  qed
qed

lemma drop_row:
  assumes inv: "rows_inv key home listed houses rows n" and h: "sm_find houses (home v) = Some h"
    and v: "sm_find rows g = Some v"
  shows "rows_inv key home listed (sm_put (home v) (relist (filter (\<lambda>x. x \<noteq> g) (listed h)) h) houses)
           (sm_erase g rows) n"
proof (rule rows_invI)
  fix j w
  assume row: "sm_find (sm_erase g rows) j = Some w"
  then have "sm_find rows j = Some w" and "j \<noteq> g" by (auto split: if_splits)
  with rows_inv_row [OF inv this(1)] h
  show "key w = j \<and> j \<noteq> 0 \<and> j < n
      \<and> (\<exists>k. sm_find (sm_put (home v) (relist (filter (\<lambda>x. x \<noteq> g) (listed h)) h) houses) (home w) = Some k
           \<and> j \<in> set (listed k))"
    by (auto simp: listed_relist)
next
  fix i k
  assume k: "sm_find (sm_put (home v) (relist (filter (\<lambda>x. x \<noteq> g) (listed h)) h) houses) i = Some k"
  show "h_id k = i \<and> distinct (listed k)
      \<and> (\<forall>j \<in> set (listed k). \<exists>w. sm_find (sm_erase g rows) j = Some w \<and> home w = i)"
  proof (cases "i = home v")
    case True
    then show ?thesis using k rows_inv_house [OF inv h] by (auto simp: listed_relist id_relist)
  next
    case False
    then have i: "sm_find houses i = Some k" using k by simp
    have "g \<notin> set (listed k)" using rows_inv_house [OF inv i] v False by fastforce
    then show ?thesis using rows_inv_house [OF inv i] by auto
  qed
qed

end

interpretation object_rows: house_rows o_guid o_houseId h_objects "\<lambda>gs h. h\<lparr>h_objects := gs\<rparr>"
  by unfold_locales simp_all

interpretation critter_rows: house_rows c_guid c_houseId h_critters "\<lambda>gs h. h\<lparr>h_critters := gs\<rparr>"
  by unfold_locales simp_all

lemma objects_inv_rows_inv:
  "objects_inv s \<longleftrightarrow>
     rows_inv o_guid o_houseId h_objects (m_houses s) (m_objects s) (m_nextObjectGuid s)
     \<and> mirrored s \<and> HOUSE_GO_GUID_MIN \<le> m_nextObjectGuid s"
  by (simp only: objects_inv_def rows_inv_def conj_assoc)

text \<open>
  The same for the animals. When critters are switched off (\<open>m_nextCritterGuid\<close> is 0) no row is in
  memory, whatever the table holds.
\<close>

definition critters_inv :: "HouseMgr \<Rightarrow> bool" where
  "critters_inv s \<longleftrightarrow>
     rows_inv c_guid c_houseId h_critters (m_houses s) (m_critters s) (m_nextCritterGuid s)
     \<and> (m_nextCritterGuid s \<noteq> 0 \<longrightarrow> sm_find (m_critters s) = sm_find (tb_critter (m_db s)))"

lemma critters_inv_core:
  assumes "critters_inv s" and "core t = core s"
  shows "critters_inv t"
  using assms(1) by (simp add: critters_inv_def core_fields [OF assms(2)])

end
