(* ===== verification/HouseCritters.thy ===== *)
theory HouseCritters
  imports HouseRows HouseNames
begin

section \<open>Animals in the house\<close>

text \<open>
  Housing/HouseCritter.cpp up to its menu, and the two functions of HouseMgr.cpp through which a crate
  is used (\<open>HouseFurnitureShouldCast\<close>, \<open>HouseUseFurnitureItem\<close>). What the map knows of a living animal
  is \<open>sv_animal\<close>; walking, turning and the like are effects. \<open>player->GetMap()\<close> is never null for a
  player in a house. The looks an animal is given when the core loads it (\<open>DressCritter\<close>) are flags of
  the core's own object and are not modelled.
\<close>

definition IsCritter :: "creature_info option \<Rightarrow> bool" where
  "IsCritter info = (case info of None \<Rightarrow> False | Some i \<Rightarrow> cr_critter i)"

definition clamp_wander :: "yards \<Rightarrow> yards" where
  "clamp_wander w = (if w < 0 then 0 else if w > HOUSE_CRITTER_WANDER_MAX then HOUSE_CRITTER_WANDER_MAX else w)"

subsection \<open>Putting an animal into the world\<close>

definition RegisterCritterWithMap :: "u32 \<Rightarrow> HouseCritter \<Rightarrow> HouseMgr \<Rightarrow> HouseMgr" where
  "RegisterCritterWithMap instanceId c s = emit (OnCritter (RegisterCritter instanceId c)) s"

definition SpawnCritterNow :: "server \<Rightarrow> u32 \<Rightarrow> HouseCritter \<Rightarrow> HouseMgr \<Rightarrow> HouseMgr" where
  "SpawnCritterNow sv instanceId c s =
     (if \<not> sv_cell sv (c_x c) (c_y c) then s
      else emit (OnCritter (SpawnCritter instanceId (c_guid c))) s)"

definition ArmCritterBeat :: "u32 \<Rightarrow> HouseMgr \<Rightarrow> HouseMgr" where
  "ArmCritterBeat instanceId s =
     (let ticks = ArrivePingTicks (GetSettingAccount s HOUSE_SETTING_GLOBAL_ACCOUNT HOUSE_SETTING_ARRIVE_PING)
      in s\<lparr>m_critterBeats := sm_put instanceId (if ticks \<noteq> 0 then ticks else 1) (m_critterBeats s)\<rparr>)"

subsection \<open>Names\<close>

definition usable_char :: "char \<Rightarrow> bool" where
  "usable_char ch \<longleftrightarrow>
     \<not> ((of_char ch :: nat) < 32 \<or> (of_char ch :: nat) = 127) \<and> \<not> (ch = CHR ''|'' \<or> ch = CHR '':'')"

definition CleanCritterName :: "string \<Rightarrow> string" where
  "CleanCritterName name =
     (let out = trim_right (\<lambda>c. c = CHR '' '') (dropWhile (\<lambda>c. c = CHR '' '') (filter usable_char name))
      in if length out > HOUSE_CRITTER_NAME_MAX then take HOUSE_CRITTER_NAME_MAX out else out)"

definition NameCritter :: "server \<Rightarrow> HouseMgr \<Rightarrow> player \<Rightarrow> u32 \<Rightarrow> string \<Rightarrow> HouseMgr \<times> unit res" where
  "NameCritter sv s p guid name =
     (case CheckOwner s (Some p) of
        Inl e \<Rightarrow> (s, Inl e)
      | Inr house \<Rightarrow>
          (case sm_find (m_critters s) guid of
             None \<Rightarrow> (s, Inl ''That animal is not in this house.'')
           | Some c \<Rightarrow>
               if c_houseId c \<noteq> h_id house then (s, Inl ''That animal is not in this house.'')
               else let clean = CleanCritterName name
                    in if clean = [] then (s, Inl ''That is not a name.'')
                       else
                         let s1 = pexec (sql_update_critter_name guid clean)
                                    (s\<lparr>m_critters := sm_put guid (c\<lparr>c_customName := clean\<rparr>) (m_critters s)\<rparr>)
                         in (if sv_animal sv guid \<noteq> None then emit (OnCritter (PetNameStamp guid)) s1 else s1,
                             Inr ())))"

definition HouseCritterPetName :: "HouseMgr \<Rightarrow> u32 \<Rightarrow> string option" where
  "HouseCritterPetName s guid =
     (case GetCritter s guid of
        None \<Rightarrow> None
      | Some c \<Rightarrow> if c_customName c = [] then None else Some (c_customName c))"

definition CritterName :: "server \<Rightarrow> u32 \<Rightarrow> string" where
  "CritterName sv entry = (case sv_creature sv entry of None \<Rightarrow> ''Something'' | Some info \<Rightarrow> cr_name info)"

definition CritterShortName :: "server \<Rightarrow> HouseMgr \<Rightarrow> u32 \<Rightarrow> string" where
  "CritterShortName sv s guid =
     (case GetCritter s guid of
        None \<Rightarrow> ''Something''
      | Some c \<Rightarrow> if c_customName c = [] then CritterName sv (c_entry c) else c_customName c)"

definition CritterLabel :: "server \<Rightarrow> HouseMgr \<Rightarrow> u32 \<Rightarrow> string" where
  "CritterLabel sv s guid =
     (case GetCritter s guid of
        None \<Rightarrow> ''Something''
      | Some c \<Rightarrow> CritterShortName sv s guid @ '' ('' @ to_string (c_slot c) @ '')'')"

subsection \<open>Which animal\<close>

definition closer_critter :: "server \<Rightarrow> HouseMgr \<Rightarrow> player \<Rightarrow> u32 \<Rightarrow> u32 \<times> yards \<Rightarrow> u32 \<times> yards" where
  "closer_critter sv s p guid acc =
     (case acc of (best, bestDist) \<Rightarrow>
        (case sm_find (m_critters s) guid of
           None \<Rightarrow> (best, bestDist)
         | Some c \<Rightarrow>
             let d = GetDistance sv p (c_x c) (c_y c) (c_z c)
             in if d \<le> bestDist then (guid, d) else (best, bestDist)))"

definition FindCritter :: "server \<Rightarrow> HouseMgr \<Rightarrow> player \<Rightarrow> u32 \<Rightarrow> u32" where
  "FindCritter sv s p typed =
     (case GetHouseAt s (Some p) of
        None \<Rightarrow> 0
      | Some house \<Rightarrow>
          if typed \<ge> HOUSE_CRITTER_GUID_MIN then
            (case sm_find (m_critters s) typed of
               None \<Rightarrow> 0 | Some c \<Rightarrow> if c_houseId c = h_id house then typed else 0)
          else if typed \<noteq> 0 then
            (case find (\<lambda>guid. case sm_find (m_critters s) guid of
                                 None \<Rightarrow> False | Some c \<Rightarrow> c_slot c = typed) (h_critters house) of
               None \<Rightarrow> 0 | Some guid \<Rightarrow> guid)
          else fst (fold (closer_critter sv s p) (h_critters house) (0, HOUSE_CRITTER_REACH)))"

subsection \<open>Placing, moving, removing\<close>

definition finish_critter :: "server \<Rightarrow> HouseMgr \<Rightarrow> player \<Rightarrow> House \<Rightarrow> HouseCritter \<Rightarrow> bool \<Rightarrow> HouseMgr" where
  "finish_critter sv s p house c usedMark =
     (let s1 = pexec (sql_insert_critter c) s;
          s2 = s1\<lparr>m_critters := sm_put (c_guid c) c (m_critters s1)\<rparr>;
          s3 = put_house (house\<lparr>h_critters := h_critters house @ [c_guid c]\<rparr>) s2;
          s4 = SpawnCritterNow sv (pl_instanceId p) c (RegisterCritterWithMap (pl_instanceId p) c s3);
          s5 = ArmCritterBeat (pl_instanceId p) s4
      in if usedMark then ClearMark p s5 else s5)"

definition mark_in_reach :: "server \<Rightarrow> player \<Rightarrow> (yards \<times> yards \<times> yards) option \<Rightarrow> (yards \<times> yards \<times> yards) option" where
  "mark_in_reach sv p mark =
     (case mark of
        None \<Rightarrow> None
      | Some (x, y, z) \<Rightarrow> if IsWithinDist3d sv p x y z HOUSE_PLACE_DISTANCE_MAX then Some (x, y, z) else None)"

definition PlaceCritter ::
  "server \<Rightarrow> HouseMgr \<Rightarrow> player \<Rightarrow> u32 \<Rightarrow> yards \<Rightarrow> u32 \<Rightarrow> HouseMgr \<times> unit res" where
  "PlaceCritter sv s p entry wander itemEntry =
     (case CheckOwner s (Some p) of
        Inl e \<Rightarrow> (s, Inl e)
      | Inr house \<Rightarrow>
          if m_nextCritterGuid s = 0 then (s, Inl ''Critters are not available on this server.'')
          else if CountCritters house \<ge> HOUSE_MAX_CRITTERS
          then (s, Inl ''Your house is full of animals. Send one away first.'')
          else if itemEntry = 0 \<and> pl_security p < SEC_DEVELOPER
          then (s, Inl ''Animals come in crates. Critterkeeper Wren sells them.'')
          else if sv_creature sv entry = None then (s, Inl ''There is no creature with that id.'')
          else if \<not> IsCritter (sv_creature sv entry) \<and> pl_security p < SEC_DEVELOPER
          then (s, Inl ''That is not a critter.'')
          else
            (case GetMark s p of (s1, mark) \<Rightarrow>
               let aim = mark_in_reach sv p mark;
                   (x, y, z) = (case aim of Some spot \<Rightarrow> spot | None \<Rightarrow> (pl_x p, pl_y p, pl_z p))
               in (case AllocateCritterGuid s1 of (s2, guid) \<Rightarrow>
                     if guid = 0 then (s2, Inl ''Out of critter ids.'')
                     else
                       let c = \<lparr>c_guid = guid, c_houseId = h_id house, c_slot = AllocateCritterSlot s2 house,
                                c_entry = entry, c_itemEntry = itemEntry, c_customName = [],
                                c_x = x, c_y = y, c_z = z, c_o = pl_o p, c_wander = clamp_wander wander\<rparr>
                       in (finish_critter sv s2 p house c (aim \<noteq> None), Inr ()))))"

definition PurgeCritter :: "server \<Rightarrow> u32 \<Rightarrow> u32 \<Rightarrow> HouseMgr \<Rightarrow> HouseMgr" where
  "PurgeCritter sv houseId guid s =
     (case (sm_find (m_critters s) guid, GetHouseById s houseId) of
        (Some c, Some house) \<Rightarrow>
          let s1 = (if sv_loaded sv (h_instanceId house)
                    then emit (OnCritter (UnregisterCritter (h_instanceId house) guid))
                           (if sv_animal sv guid \<noteq> None then emit (OnCritter (DespawnCritter guid)) s else s)
                    else s);
              s2 = pexec (sql_delete_critter guid) s1;
              s3 = put_house (house\<lparr>h_critters := filter (\<lambda>g. g \<noteq> guid) (h_critters house)\<rparr>) s2
          in s3\<lparr>m_critters := sm_erase guid (m_critters s3)\<rparr>
      | _ \<Rightarrow> s)"

definition PurgeCritters :: "server \<Rightarrow> u32 \<Rightarrow> HouseMgr \<Rightarrow> HouseMgr" where
  "PurgeCritters sv houseId s =
     (case GetHouseById s houseId of
        None \<Rightarrow> s | Some house \<Rightarrow> fold (PurgeCritter sv houseId) (h_critters house) s)"

definition RemoveCritter :: "server \<Rightarrow> HouseMgr \<Rightarrow> player \<Rightarrow> u32 \<Rightarrow> HouseMgr \<times> player \<times> u32 res" where
  "RemoveCritter sv s p guid =
     (case CheckOwner s (Some p) of
        Inl e \<Rightarrow> (s, p, Inl e)
      | Inr house \<Rightarrow>
          (case sm_find (m_critters s) guid of
             None \<Rightarrow> (s, p, Inl ''That animal is not in this house.'')
           | Some c \<Rightarrow>
               if c_houseId c \<noteq> h_id house then (s, p, Inl ''That animal is not in this house.'')
               else
                 let itemEntry = c_itemEntry c
                 in if itemEntry \<noteq> 0 \<and> \<not> sv_canStore sv p itemEntry then (s, p, Inl ''Your bags are full.'')
                    else if itemEntry \<noteq> 0 \<and> \<not> sv_store sv p itemEntry
                    then (s, p, Inl ''Could not put that in your bags.'')
                    else
                      (PurgeCritter sv (h_id house) guid s,
                       if itemEntry \<noteq> 0
                       then p\<lparr>pl_bags := (pl_bags p)(itemEntry := pl_bags p itemEntry + 1)\<rparr> else p,
                       Inr itemEntry)))"

definition StartCritterWalk :: "u32 \<Rightarrow> HouseCritter \<Rightarrow> HouseMgr \<Rightarrow> HouseMgr" where
  "StartCritterWalk instanceId c s =
     emit (OnCritter (WalkCritter (c_guid c)))
       (s\<lparr>m_critterWalks := sm_put (c_guid c)
            \<lparr>w_instanceId = instanceId, w_entry = c_entry c, w_x = c_x c, w_y = c_y c, w_z = c_z c,
             w_wander = c_wander c, w_ticks = HOUSE_CRITTER_WALK_TICKS\<rparr> (m_critterWalks s)\<rparr>)"

definition moved_critter :: "player \<Rightarrow> bool \<Rightarrow> bool \<Rightarrow> yards \<Rightarrow> HouseCritter \<Rightarrow> HouseCritter" where
  "moved_critter p drag setWander wander c =
     (let c1 = (if drag then c\<lparr>c_x := pl_x p, c_y := pl_y p, c_z := pl_z p, c_o := pl_o p\<rparr> else c)
      in if setWander then c1\<lparr>c_wander := clamp_wander wander\<rparr> else c1)"

definition MoveCritter ::
  "server \<Rightarrow> HouseMgr \<Rightarrow> player \<Rightarrow> u32 \<Rightarrow> bool \<Rightarrow> bool \<Rightarrow> yards \<Rightarrow> HouseMgr \<times> unit res" where
  "MoveCritter sv s p guid drag setWander wander =
     (case CheckOwner s (Some p) of
        Inl e \<Rightarrow> (s, Inl e)
      | Inr house \<Rightarrow>
          (case sm_find (m_critters s) guid of
             None \<Rightarrow> (s, Inl ''That animal is not in this house.'')
           | Some c \<Rightarrow>
               if c_houseId c \<noteq> h_id house then (s, Inl ''That animal is not in this house.'')
               else
                 let c' = moved_critter p drag setWander wander c;
                     s1 = emit (OnCritter (UnregisterCritter (pl_instanceId p) guid)) s;
                     s2 = pexec (sql_update_critter_place guid (c_x c') (c_y c') (c_z c') (c_o c') (c_wander c'))
                            (s1\<lparr>m_critters := sm_put guid c' (m_critters s1)\<rparr>);
                     s3 = RegisterCritterWithMap (pl_instanceId p) c' s2
                 in (if sv_animal sv guid = None then SpawnCritterNow sv (pl_instanceId p) c' s3
                     else if drag then StartCritterWalk (pl_instanceId p) c' s3
                     else emit (OnCritter (SettleCritter guid (c_wander c'))) s3,
                     Inr ())))"

subsection \<open>A called animal walks over\<close>

definition animal_near :: "server \<Rightarrow> u32 \<Rightarrow> animal \<Rightarrow> yards \<Rightarrow> yards \<Rightarrow> yards \<Rightarrow> yards \<Rightarrow> bool" where
  "animal_near sv guid an x y z reach \<longleftrightarrow>
     (let dx = an_x an - x; dy = an_y an - y; dz = an_z an - z; maxdist = reach + sv_animalSize sv guid
      in dx * dx + dy * dy + dz * dz < maxdist * maxdist)"

definition run_walk :: "server \<Rightarrow> u32 \<Rightarrow> u32 \<times> HouseCritterWalk \<Rightarrow> HouseMgr \<Rightarrow> HouseMgr" where
  "run_walk sv instanceId row s =
     (case row of (guid, w) \<Rightarrow>
        if w_instanceId w \<noteq> instanceId then s
        else
          let gone = s\<lparr>m_critterWalks := sm_erase guid (m_critterWalks s)\<rparr>
          in case sv_animal sv guid of
               None \<Rightarrow> gone
             | Some an \<Rightarrow>
                 if \<not> an_inWorld an then gone
                 else
                   let arrived = animal_near sv guid an (w_x w) (w_y w) (w_z w) HOUSE_CRITTER_WALK_ARRIVED;
                       gaveUp = (w_ticks w = 0)
                   in if \<not> arrived \<and> \<not> gaveUp
                      then s\<lparr>m_critterWalks := sm_put guid (w\<lparr>w_ticks := w_ticks w - 1\<rparr>) (m_critterWalks s)\<rparr>
                      else emit (OnCritter (SettleCritter guid (w_wander w)))
                             (if arrived then gone
                              else emit (OnCritter (CritterTeleport guid (w_x w) (w_y w) (w_z w))) gone))"

definition RunCritterWalks :: "server \<Rightarrow> u32 \<Rightarrow> HouseMgr \<Rightarrow> HouseMgr" where
  "RunCritterWalks sv instanceId s =
     (if \<not> m_enabled s \<or> m_critterWalks s = [] then s
      else fold (run_walk sv instanceId) (m_critterWalks s) s)"

subsection \<open>Crates\<close>

definition load_critter_item :: "server \<Rightarrow> u32 \<times> CritterItem \<Rightarrow> HouseMgr \<Rightarrow> HouseMgr" where
  "load_critter_item sv row s =
     (case row of (itemEntry, ci) \<Rightarrow>
        if sv_item sv itemEntry = None then s
        else if sv_creature sv (ci_critterEntry ci) = None then s
        else s\<lparr>m_critterItems :=
                 sm_put itemEntry (ci\<lparr>ci_wander := clamp_wander (ci_wander ci)\<rparr>) (m_critterItems s)\<rparr>)"

definition LoadCritterItems :: "server \<Rightarrow> (u32 \<times> CritterItem) list \<Rightarrow> HouseMgr \<Rightarrow> HouseMgr" where
  "LoadCritterItems sv rows s = fold (load_critter_item sv) rows (s\<lparr>m_critterItems := []\<rparr>)"

definition CanPlaceCritter :: "HouseMgr \<Rightarrow> player \<Rightarrow> unit res" where
  "CanPlaceCritter s p =
     (case CheckOwner s (Some p) of
        Inl e \<Rightarrow> Inl e
      | Inr house \<Rightarrow>
          if m_nextCritterGuid s = 0 then Inl ''Critters are not available on this server.''
          else if CountCritters house \<ge> HOUSE_MAX_CRITTERS
          then Inl ''Your house is full of animals. Send one away first.''
          else Inr ())"

definition UseCritterItem :: "server \<Rightarrow> HouseMgr \<Rightarrow> player \<Rightarrow> u32 \<Rightarrow> HouseMgr \<times> unit res" where
  "UseCritterItem sv s p itemEntry =
     (case sm_find (m_critterItems s) itemEntry of
        None \<Rightarrow> (s, Inl ''There is nothing in that crate.'')
      | Some ci \<Rightarrow> PlaceCritter sv s p (ci_critterEntry ci) (ci_wander ci) itemEntry)"

definition HouseUseFurnitureItem :: "server \<Rightarrow> HouseMgr \<Rightarrow> player \<Rightarrow> u32 \<Rightarrow> HouseMgr \<times> bool" where
  "HouseUseFurnitureItem sv s p itemEntry =
     (case (if IsCritterItem s itemEntry then UseCritterItem sv s p itemEntry
            else UseFurnitureItem sv s p itemEntry) of
        (s', Inl e) \<Rightarrow> (say p e s', False)
      | (s', Inr _) \<Rightarrow> (s', True))"

definition HouseFurnitureShouldCast :: "HouseMgr \<Rightarrow> player \<Rightarrow> u32 \<Rightarrow> HouseMgr \<times> bool" where
  "HouseFurnitureShouldCast s p itemEntry =
     (case (if IsCritterItem s itemEntry then CanPlaceCritter s p
            else if \<not> IsFurnitureItem s itemEntry then Inl ''That is not furniture.''
            else CanPlaceFurniture s (Some p)) of
        Inl e \<Rightarrow> (say p e s, False)
      | Inr _ \<Rightarrow> (s, True))"

subsection \<open>Patting\<close>

definition HOUSE_CRITTER_PAT_COOLDOWN :: nat where "HOUSE_CRITTER_PAT_COOLDOWN = 3"

definition INTERACTION_DISTANCE :: yards where "INTERACTION_DISTANCE = 5"

definition PatCritter :: "server \<Rightarrow> player \<Rightarrow> u32 \<Rightarrow> animal \<Rightarrow> HouseMgr \<Rightarrow> HouseMgr" where
  "PatCritter sv p guid an s =
     (let dx = pl_x p - an_x an; dy = pl_y p - an_y an; dz = pl_z p - an_z an;
          maxdist = INTERACTION_DISTANCE + sv_animalReach sv guid
      in if \<not> an_inWorld an then s
         else if \<not> dx * dx + dy * dy + dz * dz < maxdist * maxdist then s
         else if (case sm_find (m_critterPatted s) guid of None \<Rightarrow> False | Some t \<Rightarrow> t > sv_now sv) then s
         else emit (OnCritter (PatCritterEffect guid (pl_guid p)))
                (s\<lparr>m_critterPatted := sm_put guid (sv_now sv + HOUSE_CRITTER_PAT_COOLDOWN) (m_critterPatted s)\<rparr>))"

definition HouseCritterEmote :: "server \<Rightarrow> player \<Rightarrow> u32 \<Rightarrow> u32 \<Rightarrow> HouseMgr \<Rightarrow> HouseMgr" where
  "HouseCritterEmote sv p guid textEmote s =
     (if guid < HOUSE_CRITTER_GUID_MIN \<or> guid > HOUSE_CRITTER_GUID_MAX then s
      else if textEmote \<notin> {364, 225, 111, 58} then s
      else case GetCritter s guid of
        None \<Rightarrow> s
      | Some c \<Rightarrow> (case sv_animal sv guid of None \<Rightarrow> s | Some an \<Rightarrow> PatCritter sv p guid an s))"

subsection \<open>Loading\<close>

definition load_critter_row :: "server \<Rightarrow> u32 \<times> HouseCritter \<Rightarrow> HouseMgr \<Rightarrow> HouseMgr" where
  "load_critter_row sv row s =
     (case row of (guid, c) \<Rightarrow>
        (case GetHouseById s (c_houseId c) of
           None \<Rightarrow> s
         | Some house \<Rightarrow>
             if sv_creature sv (c_entry c) = None then s
             else
               let s1 = put_house (house\<lparr>h_critters := h_critters house @ [guid]\<rparr>)
                          (s\<lparr>m_critters := sm_put guid c (m_critters s)\<rparr>)
               in if guid \<ge> m_nextCritterGuid s1 then s1\<lparr>m_nextCritterGuid := guid + 1\<rparr> else s1))"

definition number_critter :: "u32 \<Rightarrow> u32 \<Rightarrow> HouseMgr \<Rightarrow> HouseMgr" where
  "number_critter houseId guid s =
     (case (sm_find (m_critters s) guid, GetHouseById s houseId) of
        (Some c, Some house) \<Rightarrow>
          if c_slot c \<noteq> 0 then s
          else let n = AllocateCritterSlot s house
               in pexec (sql_update_critter_slot guid n)
                    (s\<lparr>m_critters := sm_put guid (c\<lparr>c_slot := n\<rparr>) (m_critters s)\<rparr>)
      | _ \<Rightarrow> s)"

definition number_critters :: "u32 \<times> House \<Rightarrow> HouseMgr \<Rightarrow> HouseMgr" where
  "number_critters row s = fold (number_critter (fst row)) (h_critters (snd row)) s"

definition LoadCritters :: "server \<Rightarrow> HouseMgr \<Rightarrow> HouseMgr" where
  "LoadCritters sv s =
     (let firstTemp = sv_firstTempCreature sv; reserve = sv_reserveCreature sv;
          firstStatic = (if firstTemp > reserve then firstTemp - reserve else 0)
      in if firstTemp \<le> HOUSE_CRITTER_GUID_MAX \<or> firstStatic \<ge> HOUSE_CRITTER_GUID_MIN
         then s\<lparr>m_critters := [], m_nextCritterGuid := 0\<rparr>
         else
           let s1 = fold (load_critter_row sv) (tb_critter (m_db s))
                      (s\<lparr>m_critters := [], m_nextCritterGuid := HOUSE_CRITTER_GUID_MIN\<rparr>);
               s2 = fold number_critters (m_houses s1) s1;
               maxId = sm_max_key (tb_critter (m_db s2))
           in if tb_critter (m_db s2) \<noteq> [] \<and> maxId \<ge> m_nextCritterGuid s2
              then s2\<lparr>m_nextCritterGuid := maxId + 1\<rparr> else s2)"

subsection \<open>Placing adds one row\<close>

lemma core_RegisterCritter [simp]: "core (RegisterCritterWithMap i c s) = core s"
  by (simp add: RegisterCritterWithMap_def)

lemma core_SpawnCritter [simp]: "core (SpawnCritterNow sv i c s) = core s"
  by (simp add: SpawnCritterNow_def)

lemmas RegisterCritter_fields [simp] = core_fields [OF core_RegisterCritter]
lemmas SpawnCritter_fields [simp] = core_fields [OF core_SpawnCritter]

lemma finish_critter_fields:
  "m_critters (finish_critter sv s p house c used) = sm_put (c_guid c) c (m_critters s)"
  "m_houses (finish_critter sv s p house c used)
     = sm_put (h_id house) (house\<lparr>h_critters := h_critters house @ [c_guid c]\<rparr>) (m_houses s)"
  "m_db (finish_critter sv s p house c used) = sql_insert_critter c (m_db s)"
  "m_nextCritterGuid (finish_critter sv s p house c used) = m_nextCritterGuid s"
  "m_objects (finish_critter sv s p house c used) = m_objects s"
  "m_nextObjectGuid (finish_critter sv s p house c used) = m_nextObjectGuid s"
  by (simp_all add: finish_critter_def Let_def pexec_def put_house_def ArmCritterBeat_def)

definition new_critter ::
  "player \<Rightarrow> House \<Rightarrow> u32 \<Rightarrow> u32 \<Rightarrow> u32 \<Rightarrow> u32 \<Rightarrow> yards \<Rightarrow> yards \<times> yards \<times> yards \<Rightarrow> HouseCritter" where
  "new_critter p house guid slot entry itemEntry wander spot =
     (case spot of (x, y, z) \<Rightarrow>
        \<lparr>c_guid = guid, c_houseId = h_id house, c_slot = slot, c_entry = entry, c_itemEntry = itemEntry,
         c_customName = [], c_x = x, c_y = y, c_z = z, c_o = pl_o p, c_wander = clamp_wander wander\<rparr>)"

lemma new_critter_fields [simp]:
  "c_guid (new_critter p house guid slot entry itemEntry wander spot) = guid"
  "c_houseId (new_critter p house guid slot entry itemEntry wander spot) = h_id house"
  "c_slot (new_critter p house guid slot entry itemEntry wander spot) = slot"
  "c_entry (new_critter p house guid slot entry itemEntry wander spot) = entry"
  "c_itemEntry (new_critter p house guid slot entry itemEntry wander spot) = itemEntry"
  "c_wander (new_critter p house guid slot entry itemEntry wander spot) = clamp_wander wander"
  by (cases spot, simp add: new_critter_def)+

lemma PlaceCritter_cases:
  obtains (refused) e s1 where "PlaceCritter sv s p entry wander itemEntry = (s1, Inl e)" and "core s1 = core s"
  | (accepted) house s1 spot used where
      "CheckOwner s (Some p) = Inr house" and "m_nextCritterGuid s \<noteq> 0"
      and "m_nextCritterGuid s < HOUSE_CRITTER_GUID_MAX" and "CountCritters house < HOUSE_MAX_CRITTERS"
      and "itemEntry \<noteq> 0 \<or> SEC_DEVELOPER \<le> pl_security p" and "sv_creature sv entry \<noteq> None"
      and "IsCritter (sv_creature sv entry) \<or> SEC_DEVELOPER \<le> pl_security p"
      and "core s1 = core s"
      and "PlaceCritter sv s p entry wander itemEntry
        = (finish_critter sv (s1\<lparr>m_nextCritterGuid := m_nextCritterGuid s + 1\<rparr>) p house
             (new_critter p house (m_nextCritterGuid s) (AllocateCritterSlot s house) entry itemEntry wander spot)
             used, Inr ())"
proof (cases "PlaceCritter sv s p entry wander itemEntry")
  case (Pair t r)
  obtain s1 mark where mark: "GetMark s p = (s1, mark)" by (metis prod.collapse)
  have core: "core s1 = core s" using core_GetMark [of s p] mark by simp
  note same = core_fields [OF core]
  have slot: "AllocateCritterSlot (s1\<lparr>m_nextCritterGuid := n\<rparr>) h = AllocateCritterSlot s h" for n h
    by (simp add: AllocateCritterSlot_def same)
  let ?spot = "case mark_in_reach sv p mark of Some spot \<Rightarrow> spot | None \<Rightarrow> (pl_x p, pl_y p, pl_z p)"
  show ?thesis
  proof (cases "\<exists>house. CheckOwner s (Some p) = Inr house \<and> m_nextCritterGuid s \<noteq> 0
      \<and> m_nextCritterGuid s < HOUSE_CRITTER_GUID_MAX \<and> CountCritters house < HOUSE_MAX_CRITTERS
      \<and> (itemEntry \<noteq> 0 \<or> SEC_DEVELOPER \<le> pl_security p) \<and> sv_creature sv entry \<noteq> None
      \<and> (IsCritter (sv_creature sv entry) \<or> SEC_DEVELOPER \<le> pl_security p)")
    case True
    then obtain house where ok: "CheckOwner s (Some p) = Inr house" "m_nextCritterGuid s \<noteq> 0"
      "m_nextCritterGuid s < HOUSE_CRITTER_GUID_MAX" "CountCritters house < HOUSE_MAX_CRITTERS"
      "itemEntry \<noteq> 0 \<or> SEC_DEVELOPER \<le> pl_security p" "sv_creature sv entry \<noteq> None"
      "IsCritter (sv_creature sv entry) \<or> SEC_DEVELOPER \<le> pl_security p"
      by blast
    have "PlaceCritter sv s p entry wander itemEntry
        = (finish_critter sv (s1\<lparr>m_nextCritterGuid := m_nextCritterGuid s + 1\<rparr>) p house
             (new_critter p house (m_nextCritterGuid s) (AllocateCritterSlot s house) entry itemEntry wander ?spot)
             (mark_in_reach sv p mark \<noteq> None), Inr ())"
      using ok by (auto simp: PlaceCritter_def mark AllocateCritterGuid_def same not_le slot new_critter_def Let_def
          split: prod.split)
    then show ?thesis by (rule accepted [OF ok core])
  next
    case False
    then obtain e where "r = Inl e" and "core t = core s"
      using Pair core
      by (auto simp: PlaceCritter_def mark AllocateCritterGuid_def same not_le Let_def
          split: sum.splits if_splits prod.splits)
    then show ?thesis using Pair refused [of t e] by simp
  qed
qed

lemma critter_limit: "(n :: u32) < HOUSE_CRITTER_GUID_MAX \<Longrightarrow> n < n + 1"
  by (rule u32_less_succ) (auto simp: HOUSE_CRITTER_GUID_MAX_def word_less_nat_alt unat_word_ariths
      dest!: arg_cong [of _ _ unat])

lemma critters_inv_house:
  "critters_inv s \<Longrightarrow> sm_find (m_houses s) i = Some h \<Longrightarrow> h_id h = i"
  unfolding critters_inv_def using rows_inv_house by blast

lemma CheckOwner_found:
  assumes "critters_inv s" and "CheckOwner s (Some p) = Inr house"
  shows "sm_find (m_houses s) (h_id house) = Some house"
proof -
  have "GetHouseAt s (Some p) = Some house" using assms(2) by (simp add: CheckOwner_Inr)
  then obtain i where i: "sm_find (m_houses s) i = Some house"
    by (auto simp: GetHouseAt_def GetHouseByInstance_def GetHouseById_def split: if_splits option.splits)
  with critters_inv_house [OF assms(1) i] show ?thesis by simp
qed

text \<open>
  placing an animal. A refusal leaves every house, row and table as it was. A success happens only
  in a house the player may edit, below the cap of ten, and out of a crate unless the player is staff;
  it adds one row, under an id never used before, to memory, house and table alike, with a number no
  other animal of the house has and a roaming radius between nothing and the cap.
\<close>
theorem place_critter_adds_one_row:
  assumes "critters_inv s"
  shows "case PlaceCritter sv s p entry wander itemEntry of
     (s', Inl e) \<Rightarrow> core s' = core s
   | (s', Inr u) \<Rightarrow> critters_inv s' \<and> (\<exists>house c. CheckOwner s (Some p) = Inr house
       \<and> CountCritters house < HOUSE_MAX_CRITTERS \<and> (itemEntry = 0 \<longrightarrow> SEC_DEVELOPER \<le> pl_security p)
       \<and> sm_find (m_critters s) (c_guid c) = None
       \<and> sm_find (m_critters s') = (sm_find (m_critters s))(c_guid c \<mapsto> c)
       \<and> sm_find (tb_critter (m_db s')) = (sm_find (tb_critter (m_db s)))(c_guid c \<mapsto> c)
       \<and> sm_find (m_houses s') = (sm_find (m_houses s))
           (h_id house \<mapsto> house\<lparr>h_critters := h_critters house @ [c_guid c]\<rparr>)
       \<and> c_houseId c = h_id house \<and> c_entry c = entry \<and> c_itemEntry c = itemEntry
       \<and> 0 \<le> c_wander c \<and> c_wander c \<le> HOUSE_CRITTER_WANDER_MAX
       \<and> (c_slot c \<noteq> 0 \<longrightarrow> (\<forall>g \<in> set (h_critters house). \<forall>d. sm_find (m_critters s) g = Some d \<longrightarrow> c_slot d \<noteq> c_slot c)))"
proof (cases rule: PlaceCritter_cases [of sv s p entry wander itemEntry])
  case (refused e s1)
  then show ?thesis by simp
next
  case (accepted house s1 spot used)
  let ?n = "m_nextCritterGuid s"
  let ?c = "new_critter p house ?n (AllocateCritterSlot s house) entry itemEntry wander spot"
  let ?s' = "finish_critter sv (s1\<lparr>m_nextCritterGuid := ?n + 1\<rparr>) p house ?c used"
  note same = core_fields [OF accepted(8)]
  have h: "sm_find (m_houses s) (h_id house) = Some house" by (rule CheckOwner_found [OF assms accepted(1)])
  have rows: "rows_inv c_guid c_houseId h_critters (m_houses s) (m_critters s) ?n"
    and table: "sm_find (m_critters s) = sm_find (tb_critter (m_db s))"
    using assms accepted(2) by (simp_all add: critters_inv_def)
  have f: "m_critters ?s' = sm_put ?n ?c (m_critters s)"
    "m_houses ?s' = sm_put (h_id house) (house\<lparr>h_critters := h_critters house @ [?n]\<rparr>) (m_houses s)"
    "m_db ?s' = sql_insert_critter ?c (m_db s)" "m_nextCritterGuid ?s' = ?n + 1"
    by (simp_all add: finish_critter_fields same)
  have "rows_inv c_guid c_houseId h_critters (m_houses ?s') (m_critters ?s') (?n + 1)"
    unfolding f using critter_rows.add_row [OF rows, of ?c house "?n + 1"] h accepted(2) critter_limit [OF accepted(3)]
    by simp
  moreover have "sm_find (m_critters ?s') = sm_find (tb_critter (m_db ?s'))"
    unfolding f sql_insert_critter_def using table by (simp add: fun_eq_iff)
  ultimately have inv': "critters_inv ?s'" unfolding critters_inv_def f(4) by simp
  have fresh: "c_slot ?c \<noteq> 0 \<longrightarrow>
      (\<forall>g \<in> set (h_critters house). \<forall>d. sm_find (m_critters s) g = Some d \<longrightarrow> c_slot d \<noteq> c_slot ?c)"
    using critter_slots.alloc_fresh [of s house] by simp
  have "sm_find (m_critters s) (c_guid ?c) = None" using rows_inv_fresh [OF rows] by simp
  moreover have "sm_find (m_critters ?s') = (sm_find (m_critters s))(c_guid ?c \<mapsto> ?c)"
    unfolding f by (simp add: fun_eq_iff)
  moreover have "sm_find (tb_critter (m_db ?s')) = (sm_find (tb_critter (m_db s)))(c_guid ?c \<mapsto> ?c)"
    unfolding f sql_insert_critter_def by (simp add: fun_eq_iff)
  moreover have "sm_find (m_houses ?s') = (sm_find (m_houses s))
       (h_id house \<mapsto> house\<lparr>h_critters := h_critters house @ [c_guid ?c]\<rparr>)"
    unfolding f by (simp add: fun_eq_iff)
  moreover have "0 \<le> c_wander ?c" and "c_wander ?c \<le> HOUSE_CRITTER_WANDER_MAX"
    by (simp_all add: clamp_wander_def HOUSE_CRITTER_WANDER_MAX_def)
  moreover have "itemEntry = 0 \<longrightarrow> SEC_DEVELOPER \<le> pl_security p" using accepted(5) by blast
  ultimately show ?thesis
    unfolding accepted(9) prod.case sum.case
    using accepted(1,4) inv' fresh new_critter_fields(2,4,5)
    by (intro conjI exI [of _ house] exI [of _ ?c]) assumption+
qed

subsection \<open>Removing and moving\<close>

lemma PurgeCritter_run:
  assumes "critters_inv s" and "sm_find (m_critters s) guid = Some c" and "m_nextCritterGuid s \<noteq> 0"
  shows "\<exists>house. sm_find (m_houses s) (c_houseId c) = Some house
    \<and> m_critters (PurgeCritter sv (c_houseId c) guid s) = sm_erase guid (m_critters s)
    \<and> m_houses (PurgeCritter sv (c_houseId c) guid s)
        = sm_put (c_houseId c) (house\<lparr>h_critters := filter (\<lambda>g. g \<noteq> guid) (h_critters house)\<rparr>) (m_houses s)
    \<and> m_db (PurgeCritter sv (c_houseId c) guid s) = sql_delete_critter guid (m_db s)
    \<and> m_nextCritterGuid (PurgeCritter sv (c_houseId c) guid s) = m_nextCritterGuid s
    \<and> critters_inv (PurgeCritter sv (c_houseId c) guid s)"
proof -
  let ?s' = "PurgeCritter sv (c_houseId c) guid s"
  have rows: "rows_inv c_guid c_houseId h_critters (m_houses s) (m_critters s) (m_nextCritterGuid s)"
    and table: "sm_find (m_critters s) = sm_find (tb_critter (m_db s))"
    using assms by (simp_all add: critters_inv_def)
  obtain house where h: "sm_find (m_houses s) (c_houseId c) = Some house"
    using rows_inv_row [OF rows assms(2)] by blast
  have id: "h_id house = c_houseId c" using rows_inv_house [OF rows h] by blast
  have f: "m_critters ?s' = sm_erase guid (m_critters s)"
    "m_houses ?s' = sm_put (c_houseId c) (house\<lparr>h_critters := filter (\<lambda>g. g \<noteq> guid) (h_critters house)\<rparr>) (m_houses s)"
    "m_db ?s' = sql_delete_critter guid (m_db s)" "m_nextCritterGuid ?s' = m_nextCritterGuid s"
    using id by (simp_all add: PurgeCritter_def assms(2) h GetHouseById_def Let_def pexec_def put_house_def)
  have "rows_inv c_guid c_houseId h_critters (m_houses ?s') (m_critters ?s') (m_nextCritterGuid s)"
    unfolding f by (rule critter_rows.drop_row [OF rows h assms(2)])
  moreover have "sm_find (m_critters ?s') = sm_find (tb_critter (m_db ?s'))"
    unfolding f sql_delete_critter_def using table by (simp add: fun_eq_iff)
  ultimately have "critters_inv ?s'" unfolding critters_inv_def f(4) by simp
  with h f show ?thesis by blast
qed

definition with_crate :: "player \<Rightarrow> u32 \<Rightarrow> player" where
  "with_crate p item = (if item = 0 then p else p\<lparr>pl_bags := (pl_bags p)(item := pl_bags p item + 1)\<rparr>)"

lemma RemoveCritter_cases:
  obtains (refused) e where "RemoveCritter sv s p guid = (s, p, Inl e)"
  | (accepted) house c p' where
      "CheckOwner s (Some p) = Inr house" and "sm_find (m_critters s) guid = Some c"
      and "c_houseId c = h_id house" and "p' = with_crate p (c_itemEntry c)"
      and "RemoveCritter sv s p guid = (PurgeCritter sv (h_id house) guid s, p', Inr (c_itemEntry c))"
proof (cases "CheckOwner s (Some p)")
  case (Inl e)
  then show ?thesis using refused by (simp add: RemoveCritter_def)
next
  case own: (Inr house)
  show ?thesis
  proof (cases "sm_find (m_critters s) guid")
    case None
    then show ?thesis using refused own by (simp add: RemoveCritter_def)
  next
    case (Some c)
    show ?thesis
    proof (cases "c_houseId c = h_id house
        \<and> (c_itemEntry c = 0 \<or> (sv_canStore sv p (c_itemEntry c) \<and> sv_store sv p (c_itemEntry c)))")
      case True
      then show ?thesis
        by (intro accepted [OF own Some _ refl]) (auto simp: RemoveCritter_def own Some Let_def with_crate_def)
    next
      case False
      then have "\<exists>e. RemoveCritter sv s p guid = (s, p, Inl e)"
        by (auto simp: RemoveCritter_def own Some Let_def)
      then show ?thesis using refused by blast
    qed
  qed
qed

text \<open>
  sending an animal away. A refusal (full bags among them) changes nothing at all. A success takes
  out exactly the animal named, which stood in this house, from memory, house and table alike, and puts
  its crate, if it came out of one, into the bags: one more of that item and nothing else.
\<close>
theorem remove_critter_returns_crate:
  assumes "critters_inv s" and "m_nextCritterGuid s \<noteq> 0"
  shows "case RemoveCritter sv s p guid of
     (s', p', Inl e) \<Rightarrow> s' = s \<and> p' = p
   | (s', p', Inr item) \<Rightarrow> critters_inv s' \<and> (\<exists>house c. CheckOwner s (Some p) = Inr house
       \<and> sm_find (m_critters s) guid = Some c \<and> c_houseId c = h_id house \<and> item = c_itemEntry c
       \<and> sm_find (m_critters s') = (sm_find (m_critters s))(guid := None)
       \<and> sm_find (tb_critter (m_db s')) = (sm_find (tb_critter (m_db s)))(guid := None)
       \<and> sm_find (m_houses s') (h_id house)
           = Some (house\<lparr>h_critters := filter (\<lambda>g. g \<noteq> guid) (h_critters house)\<rparr>)
       \<and> p' = with_crate p item)"
proof (cases rule: RemoveCritter_cases [of sv s p guid])
  case (refused e)
  then show ?thesis by simp
next
  case (accepted house c p')
  let ?s' = "PurgeCritter sv (h_id house) guid s"
  have h: "sm_find (m_houses s) (h_id house) = Some house" by (rule CheckOwner_found [OF assms(1) accepted(1)])
  have purged: "m_critters ?s' = sm_erase guid (m_critters s)" "m_db ?s' = sql_delete_critter guid (m_db s)"
    "m_houses ?s' = sm_put (h_id house) (house\<lparr>h_critters := filter (\<lambda>g. g \<noteq> guid) (h_critters house)\<rparr>) (m_houses s)"
    "critters_inv ?s'"
    using PurgeCritter_run [OF assms(1) accepted(2) assms(2), of sv] h unfolding accepted(3) by auto
  have "sm_find (m_critters ?s') = (sm_find (m_critters s))(guid := None)"
    and "sm_find (tb_critter (m_db ?s')) = (sm_find (tb_critter (m_db s)))(guid := None)"
    and "sm_find (m_houses ?s') (h_id house) = Some (house\<lparr>h_critters := filter (\<lambda>g. g \<noteq> guid) (h_critters house)\<rparr>)"
    by (simp_all add: purged sql_delete_critter_def fun_eq_iff)
  then show ?thesis
    unfolding accepted(5) prod.case sum.case
    using accepted(1-4) purged(4) by (intro conjI exI [of _ house] exI [of _ c]) (assumption | rule refl)+
qed

definition rabbit :: HouseCritter where
  "rabbit = \<lparr>c_guid = 8000000, c_houseId = 3, c_slot = 1, c_entry = 721, c_itemEntry = 901,
             c_customName = [], c_x = 0, c_y = 0, c_z = 0, c_o = 0, c_wander = 2\<rparr>"

definition rabbit_mgr :: HouseMgr where
  "rabbit_mgr =
     plain_mgr\<lparr>m_houses := [(3, plain_house\<lparr>h_critters := [8000000]\<rparr>)], m_critters := [(8000000, rabbit)],
               m_nextCritterGuid := 8000001,
               m_critterItems := [(901, \<lparr>ci_critterEntry = 721, ci_wander = 2\<rparr>)],
               m_db := fresh_tables\<lparr>tb_critter := [(8000000, rabbit)]\<rparr>\<rparr>"

lemma rabbit_simps [simp]:
  "c_guid rabbit = 8000000" "c_houseId rabbit = 3" "c_slot rabbit = 1" "c_itemEntry rabbit = 901"
  "c_wander rabbit = 2" "c_entry rabbit = 721" "c_customName rabbit = []"
  by (simp_all add: rabbit_def)

lemma rabbit_mgr_simps [simp]:
  "m_enabled rabbit_mgr" "m_nextCritterGuid rabbit_mgr = 8000001"
  "m_houses rabbit_mgr = [(3, plain_house\<lparr>h_critters := [8000000]\<rparr>)]"
  "m_houseByInstance rabbit_mgr = [(50, 3)]" "m_critters rabbit_mgr = [(8000000, rabbit)]"
  "m_marks rabbit_mgr = []" "m_critterWalks rabbit_mgr = []" "m_settings rabbit_mgr = []"
  "m_critterItems rabbit_mgr = [(901, \<lparr>ci_critterEntry = 721, ci_wander = 2\<rparr>)]"
  by (simp_all add: rabbit_mgr_def)

lemma rabbit_inv: "critters_inv rabbit_mgr"
  unfolding critters_inv_def rabbit_mgr_simps
  by (intro conjI rows_invI) (auto simp: rabbit_mgr_def split: if_splits)

lemma rabbit_owner: "CheckOwner rabbit_mgr (Some plain_player) = Inr (plain_house\<lparr>h_critters := [8000000]\<rparr>)"
  by (simp add: CheckOwner_Inr GetHouseAt_def GetHouseByInstance_def GetHouseById_def CanEditHouse_def)

theorem remove_critter_returns_crate_witness:
  "case RemoveCritter plain_server rabbit_mgr plain_player 8000000 of
     (s', p', r) \<Rightarrow> r = Inr 901 \<and> pl_bags p' 901 = 1 \<and> sm_find (m_critters s') 8000000 = None"
proof -
  have "snd (snd (RemoveCritter plain_server rabbit_mgr plain_player 8000000)) = Inr 901"
    by (simp add: RemoveCritter_def rabbit_owner Let_def)
  then show ?thesis
    using remove_critter_returns_crate [OF rabbit_inv, where sv = plain_server and p = plain_player and guid = 8000000]
    by (auto simp: with_crate_def split: prod.splits)
qed

theorem place_critter_adds_one_row_witness:
  "\<exists>s'. PlaceCritter plain_server rabbit_mgr plain_player 721 99 901 = (s', Inr ()) \<and> critters_inv s'"
proof -
  have "snd (PlaceCritter plain_server rabbit_mgr plain_player 721 99 901) = Inr ()"
    by (simp add: PlaceCritter_def rabbit_owner CountCritters_def HOUSE_MAX_CRITTERS_def IsCritter_def GetMark_def
        AllocateCritterGuid_def HOUSE_CRITTER_GUID_MAX_def mark_in_reach_def Let_def word_le_nat_alt)
  then show ?thesis
    using place_critter_adds_one_row [OF rabbit_inv, where sv = plain_server and p = plain_player and entry = 721
        and wander = 99 and itemEntry = 901]
    by (auto split: prod.splits)
qed

text \<open>
  calling an animal over, or changing how far it roams, rewrites that one row: its place when it is
  called, its radius, brought into range, when that is set, in memory and in the table alike; no other
  animal's row changes, and neither does any house.
\<close>
theorem move_critter_rewrites_one_row:
  assumes "critters_inv s" and "m_nextCritterGuid s \<noteq> 0"
  shows "case MoveCritter sv s p guid drag setWander wander of
     (s', Inl e) \<Rightarrow> s' = s
   | (s', Inr u) \<Rightarrow> critters_inv s' \<and> m_houses s' = m_houses s \<and> (\<exists>c c'. sm_find (m_critters s) guid = Some c
       \<and> sm_find (m_critters s') = (sm_find (m_critters s))(guid \<mapsto> c')
       \<and> sm_find (tb_critter (m_db s')) = (sm_find (tb_critter (m_db s)))(guid \<mapsto> c')
       \<and> (c_x c', c_y c', c_z c', c_o c')
           = (if drag then (pl_x p, pl_y p, pl_z p, pl_o p) else (c_x c, c_y c, c_z c, c_o c))
       \<and> c_wander c' = (if setWander then max 0 (min wander HOUSE_CRITTER_WANDER_MAX) else c_wander c)
       \<and> c_slot c' = c_slot c \<and> c_itemEntry c' = c_itemEntry c \<and> c_customName c' = c_customName c)"
proof (cases "MoveCritter sv s p guid drag setWander wander")
  case (Pair s' r)
  show ?thesis
  proof (cases r)
    case (Inl e)
    then have "s' = s"
      using Pair by (auto simp: MoveCritter_def Let_def split: sum.splits option.splits if_splits)
    then show ?thesis using Pair Inl by simp
  next
    case (Inr u)
    let ?c' = "\<lambda>c. moved_critter p drag setWander wander c"
    let ?q = "\<lambda>c. sql_update_critter_place guid (c_x (?c' c)) (c_y (?c' c)) (c_z (?c' c)) (c_o (?c' c)) (c_wander (?c' c))"
    from Inr obtain c where c: "sm_find (m_critters s) guid = Some c"
      and f: "m_critters s' = sm_put guid (?c' c) (m_critters s)" "m_houses s' = m_houses s"
        "m_db s' = ?q c (m_db s)" "m_nextCritterGuid s' = m_nextCritterGuid s"
      using Pair
      by (auto simp: MoveCritter_def Let_def pexec_def StartCritterWalk_def split: sum.splits option.splits if_splits)
    have rows: "rows_inv c_guid c_houseId h_critters (m_houses s) (m_critters s) (m_nextCritterGuid s)"
      and table: "sm_find (m_critters s) = sm_find (tb_critter (m_db s))"
      using assms by (simp_all add: critters_inv_def)
    have keep: "c_guid (?c' c) = c_guid c" "c_houseId (?c' c) = c_houseId c" "c_slot (?c' c) = c_slot c"
      "c_itemEntry (?c' c) = c_itemEntry c" "c_customName (?c' c) = c_customName c"
      and where_to: "(c_x (?c' c), c_y (?c' c), c_z (?c' c), c_o (?c' c))
           = (if drag then (pl_x p, pl_y p, pl_z p, pl_o p) else (c_x c, c_y c, c_z c, c_o c))"
      and roam: "c_wander (?c' c) = (if setWander then max 0 (min wander HOUSE_CRITTER_WANDER_MAX) else c_wander c)"
      by (simp_all add: moved_critter_def Let_def clamp_wander_def HOUSE_CRITTER_WANDER_MAX_def)
    have same: "c\<lparr>c_x := c_x (?c' c), c_y := c_y (?c' c), c_z := c_z (?c' c), c_o := c_o (?c' c),
        c_wander := c_wander (?c' c)\<rparr> = ?c' c"
      by (cases c) (simp add: moved_critter_def Let_def)
    have row: "sm_find (m_critters s') = (sm_find (m_critters s))(guid \<mapsto> ?c' c)"
      by (simp add: f fun_eq_iff)
    have trow: "sm_find (tb_critter (m_db s')) = (sm_find (tb_critter (m_db s)))(guid \<mapsto> ?c' c)"
      using c same unfolding f sql_update_critter_place_def table by (simp add: fun_eq_iff)
    have "critters_inv s'"
      unfolding critters_inv_def f(2,4) row trow table
      using rows_inv_rewrite [OF rows c keep(1,2)] by (simp add: f(1))
    then show ?thesis
      using Pair Inr f(2) c row trow where_to roam keep(3-5) by auto
  qed
qed

theorem move_critter_rewrites_one_row_witness:
  "\<exists>s'. MoveCritter plain_server rabbit_mgr plain_player 8000000 True True 99 = (s', Inr ())
     \<and> map_option c_wander (sm_find (m_critters s') 8000000) = Some HOUSE_CRITTER_WANDER_MAX"
proof -
  have "snd (MoveCritter plain_server rabbit_mgr plain_player 8000000 True True 99) = Inr ()"
    by (simp add: MoveCritter_def rabbit_owner Let_def)
  then show ?thesis
    using move_critter_rewrites_one_row [OF rabbit_inv, where sv = plain_server and p = plain_player
        and guid = 8000000 and drag = True and setWander = True and wander = 99]
    by (auto split: prod.splits simp: HOUSE_CRITTER_WANDER_MAX_def)
qed

subsection \<open>Names are safe to show\<close>

lemma trim_right_subset: "set (trim_right P v) \<subseteq> set v"
  unfolding trim_right_def using set_dropWhileD by fastforce

lemma trim_right_empty: "trim_right P v = [] \<longleftrightarrow> (\<forall>c \<in> set v. P c)"
  by (simp add: trim_right_def dropWhile_eq_Nil_conv)

lemma trim_right_front: "trim_right P (dropWhile P v) = [] \<longleftrightarrow> dropWhile P v = []"
proof
  assume "trim_right P (dropWhile P v) = []"
  then have all: "\<forall>c \<in> set (dropWhile P v). P c" by (simp add: trim_right_empty)
  show "dropWhile P v = []"
  proof (rule ccontr)
    assume ne: "dropWhile P v \<noteq> []"
    from all hd_in_set [OF ne] have "P (hd (dropWhile P v))" by blast
    with hd_dropWhile [OF ne] show False by blast
  qed
next
  assume "dropWhile P v = []"
  then show "trim_right P (dropWhile P v) = []" by (simp only: trim_right_def rev.simps dropWhile.simps)
qed

lemma take_hd: "n \<noteq> 0 \<Longrightarrow> hd (take n v) = hd v"
  by (cases v; cases n) auto

lemma clean_name:
  "length (CleanCritterName raw) \<le> HOUSE_CRITTER_NAME_MAX"
  "set (CleanCritterName raw) \<subseteq> set raw \<inter> Collect usable_char"
  "CleanCritterName raw \<noteq> [] \<Longrightarrow> hd (CleanCritterName raw) \<noteq> CHR '' ''"
  "CleanCritterName raw = [] \<longleftrightarrow> filter (\<lambda>c. usable_char c \<and> c \<noteq> CHR '' '') raw = []"
proof -
  let ?blank = "\<lambda>c. c = CHR '' ''"
  define out where "out = trim_right ?blank (dropWhile ?blank (filter usable_char raw))"
  have clean: "CleanCritterName raw = take HOUSE_CRITTER_NAME_MAX out"
    by (simp add: CleanCritterName_def out_def Let_def)
  have pos: "HOUSE_CRITTER_NAME_MAX \<noteq> 0" by (simp add: HOUSE_CRITTER_NAME_MAX_def)
  have "set out \<subseteq> set (dropWhile ?blank (filter usable_char raw))"
    unfolding out_def by (rule trim_right_subset)
  also have "\<dots> \<subseteq> set (filter usable_char raw)" using set_dropWhileD by fast
  finally have sub: "set out \<subseteq> set raw \<inter> Collect usable_char" by auto
  show "length (CleanCritterName raw) \<le> HOUSE_CRITTER_NAME_MAX" by (simp add: clean)
  show "set (CleanCritterName raw) \<subseteq> set raw \<inter> Collect usable_char"
    using sub set_take_subset [of HOUSE_CRITTER_NAME_MAX out] unfolding clean by blast
  show "hd (CleanCritterName raw) \<noteq> CHR '' ''" if "CleanCritterName raw \<noteq> []"
  proof -
    have ne: "out \<noteq> []" using that clean by auto
    then have front: "dropWhile ?blank (filter usable_char raw) \<noteq> []"
      unfolding out_def trim_right_front .
    have "hd (CleanCritterName raw) = hd out" unfolding clean by (rule take_hd [OF pos])
    also have "hd out = hd (dropWhile ?blank (filter usable_char raw))"
      using ne unfolding out_def by (rule trim_right_hd)
    finally show ?thesis using hd_dropWhile [OF front] by simp
  qed
  have "out = [] \<longleftrightarrow> dropWhile ?blank (filter usable_char raw) = []"
    unfolding out_def by (rule trim_right_front)
  also have "\<dots> \<longleftrightarrow> (\<forall>c \<in> set (filter usable_char raw). ?blank c)"
    by (rule dropWhile_eq_Nil_conv)
  also have "\<dots> \<longleftrightarrow> filter (\<lambda>c. usable_char c \<and> c \<noteq> CHR '' '') raw = []"
    by (auto simp: filter_empty_conv)
  finally show "CleanCritterName raw = [] \<longleftrightarrow> filter (\<lambda>c. usable_char c \<and> c \<noteq> CHR '' '') raw = []"
    using pos by (simp add: clean)
qed

text \<open>
  a name that reaches the client is safe to show: an animal is renamed only with what is left of the
  typed name, at most 24 characters, none of them a control byte, a bar or a colon, the first no blank;
  the name is refused exactly when nothing but blanks is left; the client's pet name query and the
  table then give that very name, and no other animal's row has changed.
\<close>
theorem named_animal_is_safe:
  assumes "critters_inv s" and "m_nextCritterGuid s \<noteq> 0"
  shows "case NameCritter sv s p guid raw of
     (s', Inl e) \<Rightarrow> s' = s \<and> (e = ''That is not a name.'' \<longrightarrow> filter (\<lambda>c. usable_char c \<and> c \<noteq> CHR '' '') raw = [])
   | (s', Inr u) \<Rightarrow> critters_inv s' \<and> (\<exists>c n. sm_find (m_critters s) guid = Some c \<and> n = CleanCritterName raw
       \<and> n \<noteq> [] \<and> length n \<le> HOUSE_CRITTER_NAME_MAX \<and> set n \<subseteq> Collect usable_char \<and> hd n \<noteq> CHR '' ''
       \<and> HouseCritterPetName s' guid = Some n
       \<and> sm_find (m_critters s') = (sm_find (m_critters s))(guid \<mapsto> c\<lparr>c_customName := n\<rparr>)
       \<and> sm_find (tb_critter (m_db s')) = (sm_find (tb_critter (m_db s)))(guid \<mapsto> c\<lparr>c_customName := n\<rparr>))"
proof (cases "NameCritter sv s p guid raw")
  case (Pair s' r)
  show ?thesis
  proof (cases r)
    case (Inl e)
    then have "s' = s \<and> (e = ''That is not a name.'' \<longrightarrow> CleanCritterName raw = [])"
      using Pair by (auto simp: NameCritter_def CheckOwner_def Let_def split: sum.splits option.splits if_splits)
    then show ?thesis using Pair Inl clean_name(4) [of raw] by simp
  next
    case (Inr u)
    let ?n = "CleanCritterName raw"
    from Inr obtain c where c: "sm_find (m_critters s) guid = Some c" and n: "?n \<noteq> []"
      and f: "m_critters s' = sm_put guid (c\<lparr>c_customName := ?n\<rparr>) (m_critters s)"
        "m_houses s' = m_houses s" "m_db s' = sql_update_critter_name guid ?n (m_db s)"
        "m_nextCritterGuid s' = m_nextCritterGuid s"
      using Pair
      by (auto simp: NameCritter_def Let_def pexec_def split: sum.splits option.splits if_splits)
    have rows: "rows_inv c_guid c_houseId h_critters (m_houses s) (m_critters s) (m_nextCritterGuid s)"
      and table: "sm_find (m_critters s) = sm_find (tb_critter (m_db s))"
      using assms by (simp_all add: critters_inv_def)
    have row: "sm_find (m_critters s') = (sm_find (m_critters s))(guid \<mapsto> c\<lparr>c_customName := ?n\<rparr>)"
      by (simp add: f fun_eq_iff)
    have trow: "sm_find (tb_critter (m_db s')) = (sm_find (tb_critter (m_db s)))(guid \<mapsto> c\<lparr>c_customName := ?n\<rparr>)"
      using c unfolding f sql_update_critter_name_def table by (simp add: fun_eq_iff)
    have inv': "critters_inv s'"
      unfolding critters_inv_def f(2,4) row trow table
      using rows_inv_rewrite [OF rows c, of "c\<lparr>c_customName := ?n\<rparr>"] by (simp add: f(1))
    have "HouseCritterPetName s' guid = Some ?n"
      using n by (simp add: HouseCritterPetName_def GetCritter_def row)
    then show ?thesis
      unfolding Pair Inr prod.case sum.case
      using inv' c n clean_name(1-3) [of raw] row trow
      by (intro conjI exI [of _ c] exI [of _ ?n]) (assumption | rule refl | blast)+
  qed
qed

theorem named_animal_is_safe_witness:
  "\<exists>s'. NameCritter plain_server rabbit_mgr plain_player 8000000 '' |Bram:ble '' = (s', Inr ())
     \<and> HouseCritterPetName s' 8000000 = Some ''Bramble''"
proof -
  have clean: "CleanCritterName '' |Bram:ble '' = ''Bramble''"
    by (simp add: CleanCritterName_def usable_char_def trim_right_def HOUSE_CRITTER_NAME_MAX_def of_char_def)
  then have "snd (NameCritter plain_server rabbit_mgr plain_player 8000000 '' |Bram:ble '') = Inr ()"
    by (simp add: NameCritter_def rabbit_owner Let_def)
  then show ?thesis
    using named_animal_is_safe [OF rabbit_inv, where sv = plain_server and p = plain_player
        and guid = 8000000 and raw = "'' |Bram:ble ''"] clean
    by (auto split: prod.splits)
qed

subsection \<open>The answer before the cast\<close>

text \<open>
  the check made before a crate's cast agrees with the placement at its end, message included, for
  every crate of the catalogue whose creature is a critter: the cast is let through exactly when the
  animal then comes out. For a creature that is no critter the check lets the cast through and the
  placement refuses.
\<close>
theorem crate_cast_forecast:
  assumes "sm_find (m_critterItems s) item = Some ci" and "item \<noteq> 0"
    and "sv_creature sv (ci_critterEntry ci) \<noteq> None" and "m_nextCritterGuid s < HOUSE_CRITTER_GUID_MAX"
  shows "case HouseFurnitureShouldCast s p item of (s1, cast) \<Rightarrow>
    case HouseUseFurnitureItem sv s p item of (s2, done) \<Rightarrow>
      done = (cast \<and> (IsCritter (sv_creature sv (ci_critterEntry ci)) \<or> SEC_DEVELOPER \<le> pl_security p))
      \<and> (if cast then s1 = s else s1 = s2)"
proof -
  have crate: "IsCritterItem s item" using assms(1) by (simp add: IsCritterItem_def sm_has_def)
  obtain s1 mark where mark: "GetMark s p = (s1, mark)" by (metis prod.collapse)
  have "m_nextCritterGuid s1 = m_nextCritterGuid s" using core_fields(3) [OF core_GetMark [of s p]] mark by simp
  then show ?thesis
    using assms
    by (cases "CheckOwner s (Some p)")
       (auto simp: HouseFurnitureShouldCast_def HouseUseFurnitureItem_def crate UseCritterItem_def PlaceCritter_def
          CanPlaceCritter_def mark AllocateCritterGuid_def not_le Let_def split: prod.split)
qed

theorem crate_cast_forecast_witness:
  "snd (HouseFurnitureShouldCast rabbit_mgr plain_player 901)
   \<and> snd (HouseUseFurnitureItem plain_server rabbit_mgr plain_player 901)"
proof -
  have cast: "HouseFurnitureShouldCast rabbit_mgr plain_player 901 = (rabbit_mgr, True)"
    by (simp add: HouseFurnitureShouldCast_def IsCritterItem_def sm_has_def CanPlaceCritter_def rabbit_owner
        CountCritters_def HOUSE_MAX_CRITTERS_def word_le_nat_alt)
  then show ?thesis
    using crate_cast_forecast [of rabbit_mgr 901 "\<lparr>ci_critterEntry = 721, ci_wander = 2\<rparr>" plain_server plain_player]
    by (auto simp: HOUSE_CRITTER_GUID_MAX_def IsCritter_def split: prod.splits)
qed

text \<open>
  the catalogue is loaded without asking whether its creatures are critters, so a crate can cast its
  bar to the end and then be refused.
\<close>
theorem crate_cast_wasted:
  "\<exists>sv s. s = LoadCritterItems sv [(901, \<lparr>ci_critterEntry = 721, ci_wander = 2\<rparr>)] rabbit_mgr
     \<and> HouseFurnitureShouldCast s plain_player 901 = (s, True)
     \<and> UseCritterItem sv s plain_player 901 = (s, Inl ''That is not a critter.'')"
proof -
  let ?sv = "plain_server\<lparr>sv_creature := \<lambda>_. Some \<lparr>cr_name = ''Cow'', cr_critter = False\<rparr>\<rparr>"
  let ?s = "LoadCritterItems ?sv [(901, \<lparr>ci_critterEntry = 721, ci_wander = 2\<rparr>)] rabbit_mgr"
  have s: "?s = rabbit_mgr\<lparr>m_critterItems := [(901, \<lparr>ci_critterEntry = 721, ci_wander = 2\<rparr>)]\<rparr>"
    by (simp add: LoadCritterItems_def load_critter_item_def clamp_wander_def HOUSE_CRITTER_WANDER_MAX_def)
  have own: "CheckOwner ?s (Some plain_player) = Inr (plain_house\<lparr>h_critters := [8000000]\<rparr>)"
    unfolding s by (simp add: CheckOwner_Inr GetHouseAt_def GetHouseByInstance_def GetHouseById_def CanEditHouse_def)
  have cast: "HouseFurnitureShouldCast ?s plain_player 901 = (?s, True)"
    using own unfolding s by (simp add: HouseFurnitureShouldCast_def IsCritterItem_def sm_has_def CanPlaceCritter_def
        CountCritters_def HOUSE_MAX_CRITTERS_def word_le_nat_alt)
  have "UseCritterItem ?sv ?s plain_player 901 = (?s, Inl ''That is not a critter.'')"
    using own unfolding s by (simp add: UseCritterItem_def PlaceCritter_def CountCritters_def HOUSE_MAX_CRITTERS_def
        IsCritter_def SEC_DEVELOPER_def word_le_nat_alt)
  with cast show ?thesis by blast
qed

end
