(* ===== verification/HouseWalks.thy ===== *)
theory HouseWalks
  imports HouseCritters
begin

section \<open>Called animals walk over\<close>

text \<open>
  \<open>RunCritterWalks\<close> polls the orders \<open>MoveCritter\<close> gave. This theory shows that an order ends: within
  \<open>HOUSE_CRITTER_WALK_TICKS + 1\<close> polls, each with its own answers from the rest of the server.
\<close>

subsection \<open>A called animal gets there\<close>

text \<open>What one poll makes of one order, and of all the orders together.\<close>

definition walk_after :: "server \<Rightarrow> u32 \<Rightarrow> u32 \<Rightarrow> HouseCritterWalk \<Rightarrow> HouseCritterWalk option" where
  "walk_after sv instanceId guid w =
     (if w_instanceId w \<noteq> instanceId then Some w
      else case sv_animal sv guid of
             None \<Rightarrow> None
           | Some an \<Rightarrow>
               if \<not> an_inWorld an \<or> animal_near sv guid an (w_x w) (w_y w) (w_z w) HOUSE_CRITTER_WALK_ARRIVED
                  \<or> w_ticks w = 0 then None
               else Some (w\<lparr>w_ticks := w_ticks w - 1\<rparr>))"

lemma run_walk_keeps:
  "m_enabled (run_walk sv i row s) = m_enabled s"
  "sm_ok (m_critterWalks s) \<Longrightarrow> sm_ok (m_critterWalks (run_walk sv i row s))"
  "set (m_trace s) \<subseteq> set (m_trace (run_walk sv i row s))"
  "k \<noteq> fst row \<Longrightarrow> sm_find (m_critterWalks (run_walk sv i row s)) k = sm_find (m_critterWalks s) k"
  by (auto simp: run_walk_def emit_def Let_def split: prod.split option.split)

lemma run_walk_own:
  "sm_find (m_critterWalks s) guid = Some w \<Longrightarrow>
   sm_find (m_critterWalks (run_walk sv i (guid, w) s)) guid = walk_after sv i guid w"
  by (simp add: run_walk_def walk_after_def emit_def Let_def split: option.split)

lemma fold_run_walk:
  assumes "distinct (map fst rows)" and "sm_ok (m_critterWalks s)"
    and "\<And>g w. (g, w) \<in> set rows \<Longrightarrow> sm_find (m_critterWalks s) g = Some w"
  shows "m_enabled (fold (run_walk sv i) rows s) = m_enabled s
    \<and> sm_ok (m_critterWalks (fold (run_walk sv i) rows s))
    \<and> set (m_trace s) \<subseteq> set (m_trace (fold (run_walk sv i) rows s))
    \<and> sm_find (m_critterWalks (fold (run_walk sv i) rows s)) k
        = (case map_of rows k of None \<Rightarrow> sm_find (m_critterWalks s) k | Some w \<Rightarrow> walk_after sv i k w)"
  using assms
proof (induction rows arbitrary: s)
  case Nil
  then show ?case by simp
next
  case (Cons row rows)
  obtain g w where row: "row = (g, w)" by (cases row)
  let ?t = "run_walk sv i row s"
  have own: "sm_find (m_critterWalks s) g = Some w" using Cons.prems(3) row by simp
  have kept: "sm_find (m_critterWalks ?t) g' = Some w'" if "(g', w') \<in> set rows" for g' w'
  proof -
    have "g' \<noteq> fst row" using that Cons.prems(1) by (auto simp: rev_image_eqI)
    then show ?thesis using run_walk_keeps(4) Cons.prems(3) that by simp
  qed
  have "distinct (map fst rows)" and fresh: "map_of rows g = None"
    using Cons.prems(1) row by (auto simp: map_of_eq_None_iff)
  from Cons.IH [OF this(1) run_walk_keeps(2) [OF Cons.prems(2)] kept] fresh run_walk_own [OF own]
  show ?case
    using run_walk_keeps(1,3,4) [where sv = sv and i = i and row = row and s = s] row by (auto split: option.splits)
qed

lemma RunCritterWalks_step:
  assumes "sm_ok (m_critterWalks s)" and "m_enabled s"
  shows "m_enabled (RunCritterWalks sv i s)" and "sm_ok (m_critterWalks (RunCritterWalks sv i s))"
    and "set (m_trace s) \<subseteq> set (m_trace (RunCritterWalks sv i s))"
    and "sm_find (m_critterWalks (RunCritterWalks sv i s)) k
      = Option.bind (sm_find (m_critterWalks s) k) (walk_after sv i k)"
proof -
  have rows: "sm_find (m_critterWalks s) g = Some w" if "(g, w) \<in> set (m_critterWalks s)" for g w
    using that sm_find_in [OF assms(1)] by blast
  note all = fold_run_walk [OF sm_ok_distinct [OF assms(1)] assms(1) rows, where sv = sv and i = i and k = k]
  show "m_enabled (RunCritterWalks sv i s)" and "sm_ok (m_critterWalks (RunCritterWalks sv i s))"
    and "set (m_trace s) \<subseteq> set (m_trace (RunCritterWalks sv i s))"
    using all assms by (auto simp: RunCritterWalks_def)
  have "sm_find (m_critterWalks s) k = map_of (m_critterWalks s) k" by simp
  then show "sm_find (m_critterWalks (RunCritterWalks sv i s)) k
      = Option.bind (sm_find (m_critterWalks s) k) (walk_after sv i k)"
    using all assms(2) by (auto simp: RunCritterWalks_def split: option.splits)
qed

text \<open>The animal stands where it was called to, or is gone.\<close>

definition there_or_gone :: "u32 \<Rightarrow> HouseCritterWalk \<Rightarrow> server \<Rightarrow> bool" where
  "there_or_gone guid w sv =
     (case sv_animal sv guid of
        None \<Rightarrow> True
      | Some an \<Rightarrow> \<not> an_inWorld an \<or> animal_near sv guid an (w_x w) (w_y w) (w_z w) HOUSE_CRITTER_WALK_ARRIVED)"

lemma run_walk_puts:
  assumes "sm_find (m_critterWalks s) guid = Some w" and "w_instanceId w = i" and "w_ticks w = 0"
    and "\<not> there_or_gone guid w sv"
  shows "OnCritter (CritterTeleport guid (w_x w) (w_y w) (w_z w)) \<in> set (m_trace (run_walk sv i (guid, w) s))"
  using assms by (auto simp: run_walk_def there_or_gone_def emit_def Let_def split: option.splits)

lemma fold_run_walk_puts:
  assumes "distinct (map fst rows)" and "sm_ok (m_critterWalks s)"
    and "\<And>g w. (g, w) \<in> set rows \<Longrightarrow> sm_find (m_critterWalks s) g = Some w"
    and "(guid, w) \<in> set rows" and "w_instanceId w = i" and "w_ticks w = 0" and "\<not> there_or_gone guid w sv"
  shows "OnCritter (CritterTeleport guid (w_x w) (w_y w) (w_z w)) \<in> set (m_trace (fold (run_walk sv i) rows s))"
  using assms(1-4)
proof (induction rows arbitrary: s)
  case Nil
  then show ?case by simp
next
  case (Cons row rows)
  let ?t = "run_walk sv i row s"
  have kept: "sm_find (m_critterWalks ?t) g' = Some w'" if "(g', w') \<in> set rows" for g' w'
  proof -
    have "g' \<noteq> fst row" using that Cons.prems(1) by (auto simp: rev_image_eqI)
    then show ?thesis using run_walk_keeps(4) Cons.prems(3) that by simp
  qed
  have dist: "distinct (map fst rows)" using Cons.prems(1) by simp
  have ok: "sm_ok (m_critterWalks ?t)" by (rule run_walk_keeps(2) [OF Cons.prems(2)])
  show ?case
  proof (cases "row = (guid, w)")
    case True
    have "OnCritter (CritterTeleport guid (w_x w) (w_y w) (w_z w)) \<in> set (m_trace ?t)"
      unfolding True using Cons.prems(3) True assms(5-7) by (intro run_walk_puts) auto
    moreover have "set (m_trace ?t) \<subseteq> set (m_trace (fold (run_walk sv i) rows ?t))"
      using fold_run_walk [OF dist ok kept] by blast
    ultimately show ?thesis by auto
  next
    case False
    then have "(guid, w) \<in> set rows" using Cons.prems(4) by simp
    from Cons.IH [OF dist ok kept this] show ?thesis by simp
  qed
qed

lemma walk_ends:
  assumes "sm_ok (m_critterWalks s)" and "m_enabled s" and "sm_find (m_critterWalks s) guid = Some w"
    and "w_instanceId w = i" and "unat (w_ticks w) < length svs"
  shows "sm_find (m_critterWalks (fold (\<lambda>sv. RunCritterWalks sv i) svs s)) guid = None
    \<and> (list_ex (there_or_gone guid w) svs
       \<or> OnCritter (CritterTeleport guid (w_x w) (w_y w) (w_z w))
           \<in> set (m_trace (fold (\<lambda>sv. RunCritterWalks sv i) svs s)))"
  using assms
proof (induction svs arbitrary: s w)
  case Nil
  then show ?case by simp
next
  case (Cons sv svs)
  let ?t = "RunCritterWalks sv i s"
  note step = RunCritterWalks_step [OF Cons.prems(1,2), where sv = sv and i = i]
  have calm: "sm_find (m_critterWalks (fold (\<lambda>sv. RunCritterWalks sv i) ss u)) guid = None
      \<and> set (m_trace u) \<subseteq> set (m_trace (fold (\<lambda>sv. RunCritterWalks sv i) ss u))"
    if "sm_ok (m_critterWalks u)" "m_enabled u" "sm_find (m_critterWalks u) guid = None" for ss u
    using that
  proof (induction ss arbitrary: u)
    case (Cons v ss)
    note st = RunCritterWalks_step [OF Cons.prems(1,2), where sv = v and i = i]
    from Cons.IH [OF st(2,1)] st(3,4) Cons.prems(3) show ?case by fastforce
  qed simp
  show ?case
  proof (cases "walk_after sv i guid w")
    case None
    then have none: "sm_find (m_critterWalks ?t) guid = None" using step(4) Cons.prems(3) by simp
    note rest = calm [OF step(2,1) none, of svs]
    show ?thesis
    proof (cases "there_or_gone guid w sv")
      case True
      then show ?thesis using rest by simp
    next
      case False
      then have ticks: "w_ticks w = 0"
        using None Cons.prems(4)
        by (auto simp: walk_after_def there_or_gone_def split: option.splits if_splits)
      have rows: "sm_find (m_critterWalks s) g = Some v" if "(g, v) \<in> set (m_critterWalks s)" for g v
        using that sm_find_in [OF Cons.prems(1)] by blast
      have mem: "(guid, w) \<in> set (m_critterWalks s)" using Cons.prems(3) sm_find_in [OF Cons.prems(1)] by blast
      then have "?t = fold (run_walk sv i) (m_critterWalks s) s"
        using Cons.prems(2) by (auto simp: RunCritterWalks_def)
      with fold_run_walk_puts [OF sm_ok_distinct [OF Cons.prems(1)] Cons.prems(1) rows mem Cons.prems(4) ticks False]
      have "OnCritter (CritterTeleport guid (w_x w) (w_y w) (w_z w)) \<in> set (m_trace ?t)" by simp
      with rest show ?thesis by auto
    qed
  next
    case (Some w')
    then have w': "w' = w\<lparr>w_ticks := w_ticks w - 1\<rparr>" and pos: "w_ticks w \<noteq> 0"
      using Cons.prems(4) by (auto simp: walk_after_def split: option.splits if_splits)
    have "unat (w_ticks w - 1) = unat (w_ticks w) - 1" using pos by (simp add: unat_minus_one)
    then have "unat (w_ticks w') < length svs" using Cons.prems(5) pos w' unat_eq_zero [of "w_ticks w"] by simp
    moreover have "sm_find (m_critterWalks ?t) guid = Some w'" using step(4) Cons.prems(3) Some by simp
    moreover have "w_instanceId w' = i" using w' Cons.prems(4) by simp
    moreover have "there_or_gone guid w' = there_or_gone guid w" by (simp add: there_or_gone_def w' fun_eq_iff split: option.split)
    ultimately show ?thesis using Cons.IH [OF step(2,1)] w' by auto
  qed
qed

text \<open>
  C35: a called animal gets there. After the owner has called an animal that is alive on the map, 41
  polls of the house are enough: the order is closed, and by then some poll has found the animal within
  reach of the spot or gone, or it has been put on the very spot the owner stood on; whatever the rest
  of the server did to it in between.
\<close>
theorem called_animal_settles:
  assumes "MoveCritter sv s p guid True setWander wander = (s1, Inr ())" and "sv_animal sv guid \<noteq> None"
    and "sm_ok (m_critterWalks s)" and "m_enabled s" and "critters_inv s"
    and "unat HOUSE_CRITTER_WALK_TICKS < length svs"
  shows "\<exists>w. sm_find (m_critterWalks s1) guid = Some w \<and> (w_x w, w_y w, w_z w) = (pl_x p, pl_y p, pl_z p)
    \<and> sm_find (m_critterWalks (fold (\<lambda>sv. RunCritterWalks sv (pl_instanceId p)) svs s1)) guid = None
    \<and> (list_ex (there_or_gone guid w) svs
       \<or> OnCritter (CritterTeleport guid (pl_x p) (pl_y p) (pl_z p))
           \<in> set (m_trace (fold (\<lambda>sv. RunCritterWalks sv (pl_instanceId p)) svs s1)))"
proof -
  obtain house where own: "CheckOwner s (Some p) = Inr house"
    using assms(1) by (cases "CheckOwner s (Some p)") (simp_all add: MoveCritter_def)
  have "sm_find (m_critters s) guid \<noteq> None"
  proof
    assume "sm_find (m_critters s) guid = None"
    with assms(1) own show False by (simp add: MoveCritter_def)
  qed
  then obtain c where c: "sm_find (m_critters s) guid = Some c" by blast
  have "rows_inv c_guid c_houseId h_critters (m_houses s) (m_critters s) (m_nextCritterGuid s)"
    using assms(5) by (simp add: critters_inv_def)
  from rows_inv_row [OF this c] have key: "c_guid c = guid" by blast
  let ?c' = "moved_critter p True setWander wander c"
  let ?w = "\<lparr>w_instanceId = pl_instanceId p, w_entry = c_entry ?c', w_x = pl_x p, w_y = pl_y p, w_z = pl_z p,
             w_wander = c_wander ?c', w_ticks = HOUSE_CRITTER_WALK_TICKS\<rparr>"
  have place: "c_guid ?c' = guid" "c_x ?c' = pl_x p" "c_y ?c' = pl_y p" "c_z ?c' = pl_z p"
    by (simp_all add: moved_critter_def Let_def key)
  have here: "c_houseId c = h_id house"
  proof (rule ccontr)
    assume "c_houseId c \<noteq> h_id house"
    with assms(1) own c show False by (simp add: MoveCritter_def)
  qed
  have run: "s1 = fst (MoveCritter sv s p guid True setWander wander)" using assms(1) by simp
  have walk: "m_critterWalks s1 = sm_put guid ?w (m_critterWalks s)" and on: "m_enabled s1"
    unfolding run using assms(4)
    by (simp_all add: MoveCritter_def own c here StartCritterWalk_def Let_def place pexec_def assms(2) del: not_None_eq)
  have "sm_find (m_critterWalks s1) guid = Some ?w" and "sm_ok (m_critterWalks s1)"
    using assms(3) by (simp_all add: walk)
  from walk_ends [OF this(2) on this(1) _ , of "pl_instanceId p" svs] this(1) assms(6)
  show ?thesis by (intro exI [of _ ?w]) simp
qed

theorem called_animal_settles_witness:
  "\<exists>s1. MoveCritter (plain_server\<lparr>sv_animal := \<lambda>_. Some \<lparr>an_inWorld = True, an_x = 90, an_y = 0, an_z = 0, an_o = 0\<rparr>\<rparr>)
       rabbit_mgr plain_player 8000000 True False 0 = (s1, Inr ())
     \<and> sm_find (m_critterWalks (fold (\<lambda>sv. RunCritterWalks sv 50) (replicate 41 plain_server) s1)) 8000000 = None"
proof -
  let ?sv = "plain_server\<lparr>sv_animal := \<lambda>_. Some \<lparr>an_inWorld = True, an_x = 90, an_y = 0, an_z = 0, an_o = 0\<rparr>\<rparr>"
  obtain s1 r where run: "MoveCritter ?sv rabbit_mgr plain_player 8000000 True False 0 = (s1, r)"
    by (metis prod.collapse)
  have "snd (MoveCritter ?sv rabbit_mgr plain_player 8000000 True False 0) = Inr ()"
    by (simp add: MoveCritter_def rabbit_owner Let_def)
  then have ok: "r = Inr ()" using run by simp
  show ?thesis
    using called_animal_settles [OF run [unfolded ok], of "replicate 41 plain_server"] run ok rabbit_inv
    by (auto simp: HOUSE_CRITTER_WALK_TICKS_def)
qed

end
