(* ===== verification/HouseTemplates.thy ===== *)
theory HouseTemplates
  imports HouseCritters HouseVisits
begin

section \<open>House templates, claiming and moving\<close>

text \<open>
  Housing/HouseMgr.cpp from \<open>NormalizeTemplateName\<close> to \<open>MoveHouseTo\<close>, and \<open>OnHouseMapCreated\<close>. A
  template is an authored house of a synthetic account and a frozen list of its pieces; claiming,
  moving and resetting a house stamp that list into it. \<open>House&\<close> arguments are house ids. The
  character set of the database and its case-insensitive collation are not modelled: a row is found by
  the very name that was inserted.
\<close>

definition NormalizeTemplateName :: "string \<Rightarrow> string" where
  "NormalizeTemplateName name = map lower_char name"

definition GetTemplateByName :: "HouseMgr \<Rightarrow> string \<Rightarrow> HouseTemplate option" where
  "GetTemplateByName s name =
     (case sm_find (m_templateByName s) (NormalizeTemplateName name) of
        None \<Rightarrow> None | Some i \<Rightarrow> GetTemplate s i)"

definition GetTemplates :: "HouseMgr \<Rightarrow> HouseTemplate list" where
  "GetTemplates s = map snd (m_houseTemplates s)"

subsection \<open>Loading\<close>

text \<open>The columns of \<open>house_template_object\<close>; the rest of a \<open>HouseObject\<close> starts at its default.\<close>

definition frozen_columns :: "HouseObject \<Rightarrow> HouseObject" where
  "frozen_columns ob =
     ob\<lparr>o_guid := 0, o_houseId := 0, o_slot := 0, o_groupNo := 0, o_itemEntry := 0,
        o_source := HOUSE_SOURCE_TEMPLATE\<rparr>"

definition load_template_row :: "u32 \<times> TemplateRow \<Rightarrow> HouseMgr \<Rightarrow> HouseMgr" where
  "load_template_row row s =
     (case row of (i, r) \<Rightarrow>
        let t = \<lparr>t_id = i, t_name = NormalizeTemplateName (tr_name r), t_houseId = tr_house r,
                 t_exit = tr_exit r, t_savedAt = tr_savedAt r, t_objects = []\<rparr>;
            s1 = (case GetHouseById s (t_houseId t) of
                    None \<Rightarrow> s | Some authoring \<Rightarrow> put_house (authoring\<lparr>h_authorsTemplate := i\<rparr>) s)
        in s1\<lparr>m_templateByName := sm_put (t_name t) i (m_templateByName s1),
              m_houseTemplates := sm_put i t (m_houseTemplates s1)\<rparr>)"

definition load_template_object :: "u32 \<times> HouseObject \<Rightarrow> HouseMgr \<Rightarrow> HouseMgr" where
  "load_template_object row s =
     (case sm_find (m_houseTemplates s) (fst row) of
        None \<Rightarrow> s
      | Some t \<Rightarrow> s\<lparr>m_houseTemplates :=
                      sm_put (fst row) (t\<lparr>t_objects := t_objects t @ [frozen_columns (snd row)]\<rparr>)
                        (m_houseTemplates s)\<rparr>)"

definition LoadTemplates :: "HouseMgr \<Rightarrow> HouseMgr" where
  "LoadTemplates s =
     (let s1 = fold load_template_row (tb_template (m_db s))
                 (s\<lparr>m_houseTemplates := [], m_templateByName := []\<rparr>)
      in fold load_template_object (tb_templateObject (m_db s1)) s1)"

subsection \<open>Authoring\<close>

definition GotoTemplate :: "server \<Rightarrow> HouseMgr \<Rightarrow> player \<Rightarrow> u32 \<Rightarrow> HouseMgr \<times> player \<times> unit res" where
  "GotoTemplate sv s dev i =
     (if \<not> m_enabled s then (s, dev, Inl ''Housing is not available on this server.'')
      else case GetTemplate s i of
        None \<Rightarrow> (s, dev, Inl ''There is no template with that id.'')
      | Some tpl \<Rightarrow>
          (case GetHouseById s (t_houseId tpl) of
             None \<Rightarrow> (s, dev, Inl ''This template lost its authoring house; it can stamp, but not be visited.'')
           | Some house \<Rightarrow>
               if pl_combat dev then (s, dev, Inl ''You cannot travel while in combat.'')
               else
                 (case PrepareInstance sv house s of
                    (s1, house', ok) \<Rightarrow>
                      if \<not> ok then (s1, dev, Inl ''Could not open the template.'')
                      else
                        let dev1 = dev\<lparr>pl_forced := h_instanceId house'\<rparr>
                        in if \<not> sv_teleport sv dev1 HOUSE_MAP_ID
                           then (s1, dev1\<lparr>pl_forced := 0\<rparr>, Inl ''Could not travel there.'')
                           else (teleport_to dev1 HOUSE_MAP_ID (GetArrivalPosition house')
                                   (force_map_change dev1 house') s1, dev1, Inr ()))))"

definition CreateTemplate :: "server \<Rightarrow> HouseMgr \<Rightarrow> player \<Rightarrow> string \<Rightarrow> HouseMgr \<times> player \<times> unit res" where
  "CreateTemplate sv s dev rawName =
     (if \<not> m_enabled s then (s, dev, Inl ''Housing is not available on this server.'')
      else
        let name = NormalizeTemplateName rawName
        in if name = [] \<or> length name > 48
           then (s, dev, Inl ''Template names are one word, up to 48 characters.'')
           else if sm_has (m_templateByName s) name
           then (s, dev, Inl ''There is already a template called that.'')
           else
             let s1 = pexec (sql_insert_template name) s;
                 i = (case find (\<lambda>r. tr_name (snd r) = name) (tb_template (m_db s1)) of
                        None \<Rightarrow> 0 | Some r \<Rightarrow> fst r);
                 account = HOUSE_TEMPLATE_ACCOUNT_MAX - i
             in if i = 0 then (s1, dev, Inl ''Could not save the template.'')
                else if account < HOUSE_TEMPLATE_ACCOUNT_MIN
                then (pexec (sql_delete_template_row i) s1, dev, Inl ''There is no room for another template.'')
                else (case CreateHouse account s1 of
                  (s2, None) \<Rightarrow>
                    (pexec (sql_delete_template_row i) s2, dev,
                     Inl (''Could not create the template'' @ CHR 0x27 # ''s house.''))
                | (s2, Some house) \<Rightarrow>
                    let s3 = pexec (sql_update_template_house i (h_id house)) s2;
                        t = \<lparr>t_id = i, t_name = name, t_houseId = h_id house, t_exit = no_exit,
                             t_savedAt = 0, t_objects = []\<rparr>;
                        s4 = s3\<lparr>m_houseTemplates := sm_put i t (m_houseTemplates s3),
                                m_templateByName := sm_put name i (m_templateByName s3)\<rparr>
                    in GotoTemplate sv (put_house (house\<lparr>h_authorsTemplate := i\<rparr>) s4) dev i))"

definition frozen_now :: "HouseObject \<Rightarrow> HouseObject" where
  "frozen_now ob = ob\<lparr>o_guid := 0, o_houseId := 0, o_source := HOUSE_SOURCE_TEMPLATE\<rparr>"

definition SaveTemplate :: "server \<Rightarrow> HouseMgr \<Rightarrow> player \<Rightarrow> HouseMgr \<times> (u32 \<times> bool) res" where
  "SaveTemplate sv s dev =
     (case GetHouseAt s (Some dev) of
        None \<Rightarrow> (s, Inl ''You are not standing in a template.'')
      | Some house \<Rightarrow>
          if h_authorsTemplate house = 0 then (s, Inl ''You are not standing in a template.'')
          else case GetTemplate s (h_authorsTemplate house) of
            None \<Rightarrow> (s, Inl ''This template no longer exists.'')
          | Some tpl \<Rightarrow>
              let rows = List.map_filter (sm_find (m_objects s)) (h_objects house);
                  s1 = pexec (sql_delete_template_objects (t_id tpl)) s;
                  s2 = fold (\<lambda>ob. pexec (sql_insert_template_object (t_id tpl) (frozen_columns ob))) rows s1;
                  tpl' = tpl\<lparr>t_objects := map frozen_now rows, t_exit := h_exit house,
                             t_savedAt := sv_now sv\<rparr>;
                  s3 = s2\<lparr>m_houseTemplates := sm_put (h_authorsTemplate house) tpl' (m_houseTemplates s2)\<rparr>;
                  s4 = pexec (sql_update_template_saved (t_id tpl) (t_exit tpl') (t_savedAt tpl')) s3
              in (s4, Inr (of_nat (length (t_objects tpl')), x_set (t_exit tpl'))))"

definition swept_out :: "u32 \<Rightarrow> player \<Rightarrow> bool" where
  "swept_out instanceId p \<longleftrightarrow> instanceId \<noteq> 0 \<and> pl_forced p = instanceId"

definition sweep_template :: "u32 \<Rightarrow> player \<Rightarrow> HouseMgr \<Rightarrow> HouseMgr" where
  "sweep_template instanceId p s =
     (if swept_out instanceId p
      then emit (OnPlayer (pl_guid p) Homebind) (say p ''This template is being deleted.'' s)
      else s)"

definition comma_list :: "u32 list \<Rightarrow> string" where
  "comma_list ids = fold (\<lambda>i out. (if out = [] then out else out @ '', '') @ to_string i) ids []"

definition drop_template_house :: "server \<Rightarrow> House \<Rightarrow> HouseMgr \<Rightarrow> HouseMgr" where
  "drop_template_house sv house s =
     (let inst = h_instanceId house;
          s1 = fold (sweep_template inst) (sv_players sv) s;
          s2 = fold (PurgeObject sv (h_id house)) (h_objects house) s1;
          s3 = (if sv_loaded sv inst then DespawnExitPortal sv inst s2 else s2);
          s4 = (if inst \<noteq> 0
                then let t = pexec (sql_delete_instance inst) s3
                     in t\<lparr>m_houseByInstance := sm_erase inst (m_houseByInstance t),
                          m_exitPortals := sm_erase inst (m_exitPortals t)\<rparr>
                else s3);
          s5 = pexec (sql_delete_house (h_id house)) s4
      in s5\<lparr>m_houseByAccount := sm_erase (h_accountId house) (m_houseByAccount s5),
            m_houses := sm_erase (h_id house) (m_houses s5)\<rparr>)"

definition DeleteTemplate ::
  "server \<Rightarrow> HouseMgr \<Rightarrow> player \<Rightarrow> u32 \<Rightarrow> HouseMgr \<times> player list \<times> unit res" where
  "DeleteTemplate sv s dev i =
     (case GetTemplate s i of
        None \<Rightarrow> (s, sv_players sv, Inl ''There is no template with that id.'')
      | Some tpl \<Rightarrow>
          let doors = filter (\<lambda>p. p_templateId p = i) (GetPortals s)
          in if doors \<noteq> []
             then (s, sv_players sv, Inl (''Entrances '' @ comma_list (map p_id doors)
                     @ '' still lead here. Retarget or remove them first.''))
             else
               let house = GetHouseById s (t_houseId tpl)
               in if house \<noteq> None \<and> map_option h_id (GetHouseAt s (Some dev)) = map_option h_id house
                  then (s, sv_players sv, Inl ''Step outside the template first.'')
                  else
                    let s1 = (case house of None \<Rightarrow> s | Some h \<Rightarrow> drop_template_house sv h s);
                        people = (case house of
                                    None \<Rightarrow> sv_players sv
                                  | Some h \<Rightarrow> map (\<lambda>p. if swept_out (h_instanceId h) p
                                                       then p\<lparr>pl_forced := 0\<rparr> else p) (sv_players sv));
                        s2 = pexec (sql_delete_template_objects i) s1;
                        s3 = pexec (sql_delete_template_row i) s2
                    in (s3\<lparr>m_templateByName := sm_erase (t_name tpl) (m_templateByName s3),
                           m_houseTemplates := sm_erase i (m_houseTemplates s3)\<rparr>, people, Inr ()))"

subsection \<open>Stamping\<close>

text \<open>The columns the stamp's INSERT names; \<open>item_entry\<close> and \<open>group_no\<close> take their default, 0.\<close>

definition stamped_columns :: "HouseObject \<Rightarrow> HouseObject" where
  "stamped_columns ob = ob\<lparr>o_itemEntry := 0, o_groupNo := 0\<rparr>"

definition stamp_row :: "server \<Rightarrow> bool \<Rightarrow> House \<Rightarrow> u32 \<Rightarrow> HouseObject \<Rightarrow> HouseMgr \<Rightarrow> HouseMgr" where
  "stamp_row sv live house guid frozen s =
     (let inst = h_instanceId house;
          ob = frozen\<lparr>o_guid := guid, o_houseId := h_id house, o_source := HOUSE_SOURCE_TEMPLATE,
                      o_slot := AllocateSlot s house\<rparr>;
          s1 = pexec (sql_insert_object (stamped_columns ob)) s;
          s2 = (if o_scale ob > 0 then emit (OnObject (SetScale guid (o_scale ob))) s1 else s1);
          s3 = put_house (house\<lparr>h_objects := h_objects house @ [guid]\<rparr>)
                 (s2\<lparr>m_objects := sm_put guid ob (m_objects s2)\<rparr>);
          s4 = RegisterObjectWithMap (if live then inst else 0) ob s3
      in if live then SpawnObjectNow sv inst ob s4 else s4)"

fun stamp_rows :: "server \<Rightarrow> bool \<Rightarrow> u32 \<Rightarrow> HouseObject list \<Rightarrow> HouseMgr \<Rightarrow> HouseMgr" where
  "stamp_rows sv live houseId [] s = s"
| "stamp_rows sv live houseId (frozen # rest) s =
     (case AllocateObjectGuid s of
        (s1, guid) \<Rightarrow>
          if guid = 0 then s1
          else (case GetHouseById s1 houseId of
                  None \<Rightarrow> s1
                | Some house \<Rightarrow> stamp_rows sv live houseId rest (stamp_row sv live house guid frozen s1)))"

definition StampTemplate :: "server \<Rightarrow> u32 \<Rightarrow> HouseTemplate \<Rightarrow> HouseMgr \<Rightarrow> HouseMgr" where
  "StampTemplate sv houseId tpl s =
     (case GetHouseById s houseId of
        None \<Rightarrow> s
      | Some house0 \<Rightarrow>
          let live = (h_instanceId house0 \<noteq> 0 \<and> sv_loaded sv (h_instanceId house0));
              s1 = stamp_rows sv live houseId (t_objects tpl) s
          in (case GetHouseById s1 houseId of
                None \<Rightarrow> s1
              | Some house \<Rightarrow>
                  pexec (sql_update_house_exit houseId (t_exit tpl) (t_id tpl))
                    (put_house (house\<lparr>h_exit := t_exit tpl, h_templateId := t_id tpl\<rparr>) s1)))"

subsection \<open>Claiming, resetting, moving\<close>

definition set_home_door :: "u32 \<Rightarrow> u32 \<Rightarrow> HouseMgr \<Rightarrow> HouseMgr" where
  "set_home_door houseId portalId s =
     (case GetHouseById s houseId of
        None \<Rightarrow> s
      | Some house \<Rightarrow>
          pexec (sql_update_house_portal houseId portalId) (put_house (house\<lparr>h_portalId := portalId\<rparr>) s))"

definition ClaimHouseAt :: "server \<Rightarrow> HouseMgr \<Rightarrow> player \<Rightarrow> u32 \<Rightarrow> HouseMgr \<times> player \<times> unit res" where
  "ClaimHouseAt sv s p portalId =
     (if \<not> m_enabled s then (s, p, Inl ''Housing is not available on this server.'')
      else case GetPortal s portalId of
        None \<Rightarrow> (s, p, Inl ''That entrance is gone.'')
      | Some door \<Rightarrow>
          if pl_combat p then (s, p, Inl ''Not while you are in combat.'')
          else if GetHouseByAccount s (pl_account p) \<noteq> None
          then (s, p, Inl ''You already have a home. Use the move option instead.'')
          else (case CreateHouse (pl_account p) s of
                  (s1, None) \<Rightarrow> (s1, p, Inl ''Could not create your house.'')
                | (s1, Some house) \<Rightarrow>
                    let s2 = (if p_templateId door = 0 then s1
                              else case GetTemplate s1 (p_templateId door) of
                                     None \<Rightarrow> s1 | Some tpl \<Rightarrow> StampTemplate sv (h_id house) tpl s1);
                        s3 = set_home_door (h_id house) portalId s2;
                        s4 = emit (OnPlayer (pl_guid p) Announce)
                               (say p ''A comfy corner of Azeroth is now yours.'' s3);
                        (s5, p1) = (if HOUSE_HOME_PORTAL_SPELL \<notin> set (pl_spells p)
                                    then (case TeachHomePortal s4 p of
                                            (t, q) \<Rightarrow> (say q ''You have learned Portal Home. Cast it anywhere to open a way back here.'' t, q))
                                    else (s4, p))
                    in SendPlayerHome sv (RememberEntrance p1 portalId s5) p1))"

definition RebuildHouse :: "server \<Rightarrow> u32 \<Rightarrow> u32 \<Rightarrow> HouseMgr \<Rightarrow> HouseMgr" where
  "RebuildHouse sv houseId templateId s =
     (case GetHouseById s houseId of
        None \<Rightarrow> s
      | Some house0 \<Rightarrow>
          let inst = h_instanceId house0;
              s1 = fold (PurgeObject sv houseId) (h_objects house0) s;
              s2 = PurgeCritters sv houseId s1;
              s3 = (if sv_loaded sv inst then DespawnExitPortal sv inst s2 else s2)
          in (case GetHouseById s3 houseId of
                None \<Rightarrow> s3
              | Some house \<Rightarrow>
                  let s4 = put_house (house\<lparr>h_exit := no_exit, h_templateId := 0\<rparr>) s3
                  in (case (if templateId \<noteq> 0 then GetTemplate s4 templateId else None) of
                        Some tpl \<Rightarrow> StampTemplate sv houseId tpl s4
                      | None \<Rightarrow> pexec (sql_update_house_exit houseId no_exit 0) s4)))"

definition ResetHouse :: "server \<Rightarrow> HouseMgr \<Rightarrow> player \<Rightarrow> HouseMgr \<times> unit res" where
  "ResetHouse sv s p =
     (if \<not> m_enabled s then (s, Inl ''Housing is not available on this server.'')
      else case CheckOwner s (Some p) of
        Inl e \<Rightarrow> (s, Inl e)
      | Inr house \<Rightarrow>
          let s1 = ClearEdit sv p s
          in if h_authorsTemplate house \<noteq> 0
             then (fold (PurgeObject sv (h_id house)) (h_objects house) s1, Inr ())
             else (case StowHouseFurniture s1 house of
                     (s2, stowed, lost) \<Rightarrow>
                       let templateId = (case GetPortal s2 (h_portalId house) of
                                           None \<Rightarrow> 0 | Some door \<Rightarrow> p_templateId door)
                       in (ReportStowResult (Some p) stowed lost (RebuildHouse sv (h_id house) templateId s2),
                           Inr ())))"

definition MoveHouseTo :: "server \<Rightarrow> HouseMgr \<Rightarrow> player \<Rightarrow> u32 \<Rightarrow> HouseMgr \<times> player \<times> unit res" where
  "MoveHouseTo sv s p portalId =
     (if \<not> m_enabled s then (s, p, Inl ''Housing is not available on this server.'')
      else case GetPortal s portalId of
        None \<Rightarrow> (s, p, Inl ''That entrance is gone.'')
      | Some door \<Rightarrow>
          if pl_combat p then (s, p, Inl ''Not while you are in combat.'')
          else (case GetHouseByAccount s (pl_account p) of
                  None \<Rightarrow> (s, p, Inl ''You do not have a home yet. Claim this one instead.'')
                | Some house \<Rightarrow>
                    if IsHomePortal s house portalId
                    then (s, p, Inl ''This door is already your home.'')
                    else (case StowHouseFurniture s house of
                            (s1, stowed, lost) \<Rightarrow>
                              let s2 = RebuildHouse sv (h_id house) (p_templateId door) s1;
                                  s3 = set_home_door (h_id house) portalId s2;
                                  s4 = say p ''You have moved. The new rooms are yours.'' s3;
                                  s5 = ReportStowResult (Some p) stowed lost s4
                              in SendPlayerHome sv (RememberEntrance p portalId s5) p)))"

subsection \<open>The map comes up\<close>

definition OnHouseMapCreated :: "u32 \<Rightarrow> HouseMgr \<Rightarrow> HouseMgr" where
  "OnHouseMapCreated instanceId s =
     (if \<not> m_enabled s then s
      else case GetHouseByInstance s instanceId of
        None \<Rightarrow> s
      | Some house \<Rightarrow>
          fold (RegisterCritterWithMap instanceId)
            (List.map_filter (sm_find (m_critters s)) (h_critters house))
            (fold (RegisterObjectWithMap instanceId)
               (List.map_filter (sm_find (m_objects s)) (h_objects house)) s))"

end
