(* ===== verification/HouseArrivals.thy ===== *)
theory HouseArrivals
  imports HouseTemplates
begin

section \<open>Arrivals: the ping, the fall watch and the animals' beat\<close>

text \<open>
  Housing/HouseMgr.cpp from \<open>NudgeOccupants\<close> to \<open>OnPlayerArrive\<close>. A player who walks into a house gets
  a row of \<open>m_arrivals\<close>; the map's poll, every half second, counts it down, pings once (puts the
  player on the floor and beats every occupant to every client), then watches for a fall and forgets
  the row. The argument \<open>people\<close> is the map's player list; a teleport takes effect at the client, so
  the poll itself does not move the records.
\<close>

definition on_map :: "player list \<Rightarrow> u32 \<Rightarrow> player option" where
  "on_map people guid = find (\<lambda>p. pl_guid p = guid \<and> pl_inWorld p) people"

definition NudgeOccupants :: "player \<Rightarrow> HouseMgr \<Rightarrow> HouseMgr" where
  "NudgeOccupants p s =
     s\<lparr>m_arrivals := sm_put (pl_guid p)
         \<lparr>a_instanceId = pl_instanceId p,
          a_ticks = ArrivePingTicks (GetSettingAccount s HOUSE_SETTING_GLOBAL_ACCOUNT HOUSE_SETTING_ARRIVE_PING),
          a_x = pl_x p, a_y = pl_y p, a_floorZ = pl_z p - HOUSE_ARRIVE_LIFT,
          a_watchTicks = ArrivePingTicks HOUSE_FALL_WATCH\<rparr> (m_arrivals s)\<rparr>"

definition SettleArrival :: "server \<Rightarrow> player \<Rightarrow> HouseArrival \<Rightarrow> HouseMgr \<Rightarrow> HouseMgr" where
  "SettleArrival sv p a s =
     (if pl_z p \<le> a_floorZ a + 1/10 then s
      else if \<not> IsWithinDist3d sv p (a_x a) (a_y a) (pl_z p) 1 then s
      else emit (OnPlayer (pl_guid p) (NearTeleport (a_x a) (a_y a) (a_floorZ a) (pl_o p))) s)"

definition RescueFall :: "server \<Rightarrow> player \<Rightarrow> HouseArrival \<Rightarrow> HouseMgr \<Rightarrow> HouseMgr" where
  "RescueFall sv p a s =
     (if a_floorZ a < HOUSE_FALL_MIN_FLOOR then s
      else if pl_z p > HOUSE_FALL_PLANE_Z then s
      else if \<not> IsWithinDist2d sv p (a_x a) (a_y a) HOUSE_FALL_RADIUS then s
      else emit (OnPlayer (pl_guid p) (NearTeleport (a_x a) (a_y a) (a_floorZ a) (pl_o p))) s)"

text \<open>One heartbeat packet about \<open>sub\<close>, to everybody with a connection.\<close>

definition broadcast_beat :: "player list \<Rightarrow> player \<Rightarrow> yards \<Rightarrow> HouseMgr \<Rightarrow> HouseMgr" where
  "broadcast_beat people sub z s =
     fold (\<lambda>v t. if pl_session v
                  then emit (OnPlayer (pl_guid v) (HeartBeat (pl_guid sub) (pl_x sub) (pl_y sub) z (pl_o sub))) t
                  else t) people s"

definition beat_subject :: "player list \<Rightarrow> player \<Rightarrow> HouseMgr \<Rightarrow> HouseMgr" where
  "beat_subject people sub s =
     (if pl_inWorld sub
      then broadcast_beat people sub (pl_z sub) (broadcast_beat people sub (pl_z sub + HOUSE_NUDGE_LIFT) s)
      else s)"

definition BeatOccupants :: "player list \<Rightarrow> HouseMgr \<Rightarrow> HouseMgr" where
  "BeatOccupants people s = fold (beat_subject people) people s"

definition beat_animal :: "server \<Rightarrow> u32 \<Rightarrow> HouseMgr \<Rightarrow> HouseMgr" where
  "beat_animal sv guid s =
     (if sm_find (m_critters s) guid = None then s
      else case sv_animal sv guid of
        None \<Rightarrow> s
      | Some c \<Rightarrow>
          if \<not> an_inWorld c then s
          else emit (OnCritter (CritterTeleport guid (an_x c) (an_y c) (an_z c)))
                 (emit (OnCritter (CritterTeleport guid (an_x c) (an_y c) (an_z c + HOUSE_NUDGE_LIFT))) s))"

definition BeatCritters :: "server \<Rightarrow> u32 \<Rightarrow> player list \<Rightarrow> HouseMgr \<Rightarrow> HouseMgr" where
  "BeatCritters sv instanceId people s =
     (case GetHouseByInstance s instanceId of
        None \<Rightarrow> s
      | Some house \<Rightarrow>
          if h_critters house = [] \<or> people = [] then s
          else fold (beat_animal sv) (h_critters house) s)"

definition spend_arrival :: "player option \<Rightarrow> u32 \<Rightarrow> HouseArrival \<Rightarrow> HouseMgr \<Rightarrow> HouseMgr" where
  "spend_arrival here guid a s =
     (if here \<noteq> None \<and> a_watchTicks a \<noteq> 0
      then s\<lparr>m_arrivals := sm_put guid (a\<lparr>a_watchTicks := a_watchTicks a - 1\<rparr>) (m_arrivals s)\<rparr>
      else s\<lparr>m_arrivals := sm_erase guid (m_arrivals s)\<rparr>)"

definition poll_arrival :: "server \<Rightarrow> u32 \<Rightarrow> player list \<Rightarrow> u32 \<times> HouseArrival \<Rightarrow> HouseMgr \<Rightarrow> HouseMgr" where
  "poll_arrival sv instanceId people row s =
     (case row of (guid, a) \<Rightarrow>
        if a_instanceId a \<noteq> instanceId then s
        else
          let here = on_map people guid
          in if a_ticks a \<noteq> 0
             then let a1 = a\<lparr>a_ticks := a_ticks a - 1\<rparr>;
                      s1 = s\<lparr>m_arrivals := sm_put guid a1 (m_arrivals s)\<rparr>
                  in if a_ticks a1 \<noteq> 0 then s1
                     else spend_arrival here guid a1
                            (case here of
                               None \<Rightarrow> s1
                             | Some p \<Rightarrow> BeatCritters sv instanceId people
                                          (BeatOccupants people (SettleArrival sv p a1 s1)))
             else spend_arrival here guid a
                    (case here of None \<Rightarrow> s | Some p \<Rightarrow> RescueFall sv p a s))"

definition poll_critter_beat :: "server \<Rightarrow> u32 \<Rightarrow> player list \<Rightarrow> HouseMgr \<Rightarrow> HouseMgr" where
  "poll_critter_beat sv instanceId people s =
     (case sm_find (m_critterBeats s) instanceId of
        None \<Rightarrow> s
      | Some ticks \<Rightarrow>
          let s1 = s\<lparr>m_critterBeats := sm_put instanceId (ticks - 1) (m_critterBeats s)\<rparr>
          in if ticks - 1 \<noteq> 0 then s1
             else let s2 = BeatCritters sv instanceId people s1
                  in s2\<lparr>m_critterBeats := sm_erase instanceId (m_critterBeats s2)\<rparr>)"

definition RunPendingNudges :: "server \<Rightarrow> u32 \<Rightarrow> player list \<Rightarrow> HouseMgr \<Rightarrow> HouseMgr" where
  "RunPendingNudges sv instanceId people s =
     (if \<not> m_enabled s then s
      else poll_critter_beat sv instanceId people
             (fold (poll_arrival sv instanceId people) (m_arrivals s) s))"

definition OnPlayerArrive :: "HouseMgr \<Rightarrow> player \<Rightarrow> HouseMgr" where
  "OnPlayerArrive s p =
     (if \<not> m_enabled s \<or> pl_mapId p \<noteq> HOUSE_MAP_ID then s
      else
        let s1 = NudgeOccupants p s
        in case GetHouseAt s1 (Some p) of
             None \<Rightarrow> s1
           | Some house \<Rightarrow>
               if h_authorsTemplate house \<noteq> 0
               then (case GetTemplate s1 (h_authorsTemplate house) of
                       None \<Rightarrow> s1
                     | Some tpl \<Rightarrow>
                         say p (''Editing template '' @ CHR 0x22 # t_name tpl @ CHR 0x22
                                # ''. .house template save publishes it.'') s1)
               else if \<not> CanEditHouse (Some p) house then s1
               else
                 let s2 = say p (''Welcome home, '' @ pl_name p @ ''.'') s1
                 in if CountPlayerObjects s2 house = 0
                    then say p (''Type .house to see what you can do in here, or /house to browse furniture.'') s2
                    else s2)"


subsection \<open>What a poll leaves alone\<close>

definition quiet :: "HouseMgr \<Rightarrow> HouseMgr \<Rightarrow> bool" where
  "quiet s t \<longleftrightarrow> m_arrivals t = m_arrivals s \<and> m_enabled t = m_enabled s \<and> m_critterBeats t = m_critterBeats s
     \<and> set (m_trace s) \<subseteq> set (m_trace t)"

lemma quiet_refl [simp]: "quiet s s"
  by (simp add: quiet_def)

lemma quiet_trans: "quiet s t \<Longrightarrow> quiet t u \<Longrightarrow> quiet s u"
  by (auto simp: quiet_def)

lemma quiet_fold: "(\<And>x s. x \<in> set xs \<Longrightarrow> quiet s (f x s)) \<Longrightarrow> quiet s (fold f xs s)"
proof (induction xs arbitrary: s)
  case (Cons x xs)
  have "quiet s (f x s)" by (rule Cons.prems) simp
  moreover have "quiet (f x s) (fold f xs (f x s))" using Cons by simp
  ultimately show ?case by (simp add: quiet_trans)
qed simp

lemma quiet_emit: "quiet s (emit e s)"
  by (auto simp: quiet_def emit_def)

lemma quiet_SettleArrival: "quiet s (SettleArrival sv p a s)"
  by (simp add: SettleArrival_def quiet_emit)

lemma quiet_RescueFall: "quiet s (RescueFall sv p a s)"
  by (simp add: RescueFall_def quiet_emit)

lemma quiet_broadcast_beat: "quiet s (broadcast_beat people sub z s)"
  unfolding broadcast_beat_def by (rule quiet_fold) (simp add: quiet_emit)

lemma quiet_BeatOccupants: "quiet s (BeatOccupants people s)"
  unfolding BeatOccupants_def
proof (rule quiet_fold)
  show "quiet s (beat_subject people sub s)" for sub s
    by (auto simp: beat_subject_def intro: quiet_trans [OF quiet_broadcast_beat quiet_broadcast_beat])
qed

lemma quiet_BeatCritters: "quiet s (BeatCritters sv i people s)"
proof -
  have "quiet s (beat_animal sv g s)" for g s
    by (auto simp: beat_animal_def quiet_def emit_def split: option.split)
  then have "quiet s (fold (beat_animal sv) gs s)" for gs by (rule quiet_fold)
  then show ?thesis by (simp add: BeatCritters_def split: option.split)
qed

lemma poll_critter_beat_same:
  "m_arrivals (poll_critter_beat sv i people s) = m_arrivals s"
  "m_enabled (poll_critter_beat sv i people s) = m_enabled s"
  "set (m_trace s) \<subseteq> set (m_trace (poll_critter_beat sv i people s))"
proof -
  have q: "m_arrivals (BeatCritters sv i people u) = m_arrivals u" "m_enabled (BeatCritters sv i people u) = m_enabled u"
    "set (m_trace u) \<subseteq> set (m_trace (BeatCritters sv i people u))" for u
    using quiet_BeatCritters [of u sv i people] by (simp_all add: quiet_def)
  show "m_arrivals (poll_critter_beat sv i people s) = m_arrivals s"
    and "m_enabled (poll_critter_beat sv i people s) = m_enabled s"
    by (simp_all add: poll_critter_beat_def Let_def q(1,2) split: option.split)
  show "set (m_trace s) \<subseteq> set (m_trace (poll_critter_beat sv i people s))"
    using q(3) [of "s\<lparr>m_critterBeats := b\<rparr>" for b]
    by (simp add: poll_critter_beat_def Let_def split: option.split)
qed

subsection \<open>One row, poll by poll\<close>

definition spent :: "bool \<Rightarrow> HouseArrival \<Rightarrow> HouseArrival option" where
  "spent here a = (if here \<and> a_watchTicks a \<noteq> 0 then Some (a\<lparr>a_watchTicks := a_watchTicks a - 1\<rparr>) else None)"

definition arrival_step :: "bool \<Rightarrow> HouseArrival \<Rightarrow> HouseArrival option" where
  "arrival_step here a =
     (if a_ticks a = 0 then spent here a
      else if a_ticks a - 1 \<noteq> 0 then Some (a\<lparr>a_ticks := a_ticks a - 1\<rparr>)
      else spent here (a\<lparr>a_ticks := a_ticks a - 1\<rparr>))"

lemma spend_arrival_find:
  "sm_find (m_arrivals (spend_arrival here g a s)) k
     = (if k = g then spent (here \<noteq> None) a else sm_find (m_arrivals s) k)"
  "m_enabled (spend_arrival here g a s) = m_enabled s" "m_trace (spend_arrival here g a s) = m_trace s"
  "sm_ok (m_arrivals s) \<Longrightarrow> sm_ok (m_arrivals (spend_arrival here g a s))"
  by (simp_all add: spend_arrival_def spent_def)

definition pinged :: "server \<Rightarrow> u32 \<Rightarrow> player list \<Rightarrow> u32 \<Rightarrow> HouseArrival \<Rightarrow> HouseMgr \<Rightarrow> HouseMgr" where
  "pinged sv i people g a s =
     (case on_map people g of
        None \<Rightarrow> s | Some p \<Rightarrow> BeatCritters sv i people (BeatOccupants people (SettleArrival sv p a s)))"

lemma quiet_pinged: "quiet s (pinged sv i people g a s)"
  unfolding pinged_def
  by (auto split: option.split intro: quiet_trans [OF quiet_trans [OF quiet_SettleArrival quiet_BeatOccupants] quiet_BeatCritters])

lemma poll_arrival_run:
  "poll_arrival sv i people (g, a) s =
     (if a_instanceId a \<noteq> i then s
      else if a_ticks a \<noteq> 0
      then
        let a1 = a\<lparr>a_ticks := a_ticks a - 1\<rparr>; s1 = s\<lparr>m_arrivals := sm_put g a1 (m_arrivals s)\<rparr>
        in if a_ticks a1 \<noteq> 0 then s1
           else spend_arrival (on_map people g) g a1 (pinged sv i people g a1 s1)
      else spend_arrival (on_map people g) g a (case on_map people g of None \<Rightarrow> s | Some p \<Rightarrow> RescueFall sv p a s))"
  by (simp only: poll_arrival_def Let_def pinged_def prod.case)

lemma poll_arrival_find:
  "sm_find (m_arrivals (poll_arrival sv i people (g, a) s)) k =
     (if k = g \<and> a_instanceId a = i then arrival_step (on_map people g \<noteq> None) a else sm_find (m_arrivals s) k)
   \<and> m_enabled (poll_arrival sv i people (g, a) s) = m_enabled s
   \<and> set (m_trace s) \<subseteq> set (m_trace (poll_arrival sv i people (g, a) s))
   \<and> (sm_ok (m_arrivals s) \<longrightarrow> sm_ok (m_arrivals (poll_arrival sv i people (g, a) s)))"
proof -
  have q: "m_arrivals (pinged sv i people g b t) = m_arrivals t" "m_enabled (pinged sv i people g b t) = m_enabled t"
    "set (m_trace t) \<subseteq> set (m_trace (pinged sv i people g b t))" for b t
    using quiet_pinged [of t sv i people g b] by (simp_all add: quiet_def)
  have r: "m_arrivals (RescueFall sv p a s) = m_arrivals s" "m_enabled (RescueFall sv p a s) = m_enabled s"
    "set (m_trace s) \<subseteq> set (m_trace (RescueFall sv p a s))" for p
    using quiet_RescueFall [of s sv p a] by (simp_all add: quiet_def)
  show ?thesis
    using q(3) [where b = "a\<lparr>a_ticks := a_ticks a - 1\<rparr>" and t = "s\<lparr>m_arrivals := sm_put g (a\<lparr>a_ticks := a_ticks a - 1\<rparr>) (m_arrivals s)\<rparr>"]
    by (auto simp: poll_arrival_run Let_def arrival_step_def spend_arrival_find q(1,2) r split: option.split)
qed


lemma poll_fold_find:
  assumes "distinct (map fst rows)"
  shows "sm_find (m_arrivals (fold (poll_arrival sv i people) rows s)) k =
      (case map_of rows k of
         Some a \<Rightarrow> if a_instanceId a = i then arrival_step (on_map people k \<noteq> None) a else sm_find (m_arrivals s) k
       | None \<Rightarrow> sm_find (m_arrivals s) k)
    \<and> m_enabled (fold (poll_arrival sv i people) rows s) = m_enabled s
    \<and> set (m_trace s) \<subseteq> set (m_trace (fold (poll_arrival sv i people) rows s))
    \<and> (sm_ok (m_arrivals s) \<longrightarrow> sm_ok (m_arrivals (fold (poll_arrival sv i people) rows s)))"
  using assms
proof (induction rows arbitrary: s)
  case (Cons row rows)
  obtain g a where row: "row = (g, a)" by (cases row)
  let ?t = "poll_arrival sv i people (g, a) s"
  note one = poll_arrival_find [of sv i people g a s]
  have ih: "sm_find (m_arrivals (fold (poll_arrival sv i people) rows ?t)) k =
      (case map_of rows k of
         Some a \<Rightarrow> if a_instanceId a = i then arrival_step (on_map people k \<noteq> None) a else sm_find (m_arrivals ?t) k
       | None \<Rightarrow> sm_find (m_arrivals ?t) k)
    \<and> m_enabled (fold (poll_arrival sv i people) rows ?t) = m_enabled ?t
    \<and> set (m_trace ?t) \<subseteq> set (m_trace (fold (poll_arrival sv i people) rows ?t))
    \<and> (sm_ok (m_arrivals ?t) \<longrightarrow> sm_ok (m_arrivals (fold (poll_arrival sv i people) rows ?t)))"
    using Cons by simp
  have new: "map_of rows g = None" using Cons.prems row by (simp add: map_of_eq_None_iff)
  have "sm_find (m_arrivals ?t) k = sm_find (m_arrivals s) k" if "k \<noteq> g" using one [of k] that by simp
  then show ?case
    using ih one [of k] poll_arrival_find [of sv i people g a s g] new
    by (cases "k = g") (auto simp: row split: option.splits)
qed simp

lemma RunPendingNudges_find:
  assumes "m_enabled s" and "sm_ok (m_arrivals s)"
  shows "sm_find (m_arrivals (RunPendingNudges sv i people s)) k =
      (case sm_find (m_arrivals s) k of
         Some a \<Rightarrow> if a_instanceId a = i then arrival_step (on_map people k \<noteq> None) a else Some a
       | None \<Rightarrow> None)
    \<and> m_enabled (RunPendingNudges sv i people s)
    \<and> set (m_trace s) \<subseteq> set (m_trace (RunPendingNudges sv i people s))
    \<and> sm_ok (m_arrivals (RunPendingNudges sv i people s))"
proof -
  let ?u = "fold (poll_arrival sv i people) (m_arrivals s) s"
  have run: "RunPendingNudges sv i people s = poll_critter_beat sv i people ?u"
    using assms(1) by (simp add: RunPendingNudges_def)
  note u = poll_fold_find [OF sm_ok_distinct [OF assms(2)], of sv i people s k]
  have "set (m_trace s) \<subseteq> set (m_trace (RunPendingNudges sv i people s))"
    unfolding run by (rule subset_trans [OF _ poll_critter_beat_same(3)]) (use u in blast)
  moreover have "sm_find (m_arrivals (RunPendingNudges sv i people s)) k =
      (case sm_find (m_arrivals s) k of
         Some a \<Rightarrow> if a_instanceId a = i then arrival_step (on_map people k \<noteq> None) a else Some a
       | None \<Rightarrow> None)"
    using u by (auto simp: run poll_critter_beat_same(1) split: option.split)
  moreover have "m_enabled (RunPendingNudges sv i people s)" "sm_ok (m_arrivals (RunPendingNudges sv i people s))"
    using u assms by (simp_all add: run poll_critter_beat_same(1,2))
  ultimately show ?thesis by blast
qed

text \<open>How many polls a row has left, at most.\<close>

definition polls_left :: "HouseArrival \<Rightarrow> nat" where
  "polls_left a = (if a_ticks a \<noteq> 0 then unat (a_ticks a) + unat (a_watchTicks a) else unat (a_watchTicks a) + 1)"

lemma unat_pred: "(n :: u32) \<noteq> 0 \<Longrightarrow> unat (n - 1) = unat n - 1 \<and> 0 < unat n"
  by (metis unat_minus_one unat_gt_0)

lemma arrival_step_left:
  "arrival_step here a = Some b \<Longrightarrow> polls_left b < polls_left a \<and> a_instanceId b = a_instanceId a"
  using unat_pred [of "a_ticks a"] unat_pred [of "a_watchTicks a"]
  by (auto simp: arrival_step_def spent_def polls_left_def split: if_splits)

definition poll_all :: "u32 \<Rightarrow> (server \<times> player list) list \<Rightarrow> HouseMgr \<Rightarrow> HouseMgr" where
  "poll_all i polls s = fold (\<lambda>(sv, people). RunPendingNudges sv i people) polls s"

lemma poll_all_gone:
  assumes "m_enabled s" and "sm_ok (m_arrivals s)"
    and "case sm_find (m_arrivals s) k of None \<Rightarrow> True | Some a \<Rightarrow> a_instanceId a = i \<and> polls_left a \<le> length polls"
  shows "sm_find (m_arrivals (poll_all i polls s)) k = None"
  using assms
proof (induction polls arbitrary: s)
  case Nil
  then show ?case by (auto simp: poll_all_def polls_left_def split: option.splits if_splits) (simp add: unat_eq_zero)
next
  case (Cons poll polls)
  obtain sv people where poll: "poll = (sv, people)" by (cases poll)
  let ?t = "RunPendingNudges sv i people s"
  note run = RunPendingNudges_find [OF Cons.prems(1,2), of sv i people k]
  have "case sm_find (m_arrivals ?t) k of None \<Rightarrow> True | Some b \<Rightarrow> a_instanceId b = i \<and> polls_left b \<le> length polls"
  proof (cases "sm_find (m_arrivals ?t) k")
    case (Some b)
    then obtain a where a: "sm_find (m_arrivals s) k = Some a" using run by (auto split: option.splits)
    then have inst: "a_instanceId a = i" and left: "polls_left a \<le> length (poll # polls)" using Cons.prems(3) by simp_all
    have "arrival_step (on_map people k \<noteq> None) a = Some b" using run a inst Some by simp
    from arrival_step_left [OF this] inst left Some show ?thesis by simp
  qed simp
  with Cons.IH [of ?t] run show ?case by (simp add: poll_all_def poll)
qed


subsection \<open>The ping reaches every client\<close>

lemma fold_sends:
  assumes "x \<in> set xs" and "\<And>t. e \<in> set (m_trace (f x t))" and "\<And>y t. set (m_trace t) \<subseteq> set (m_trace (f y t))"
  shows "e \<in> set (m_trace (fold f xs s))"
proof -
  have grow: "set (m_trace t) \<subseteq> set (m_trace (fold f ys t))" for ys t
  proof (induction ys arbitrary: t)
    case (Cons y ys)
    show ?case unfolding fold_simps comp_apply by (rule subset_trans [OF assms(3) [of t y] Cons.IH])
  qed simp
  obtain ys zs where "xs = ys @ x # zs" using assms(1) by (auto simp: in_set_conv_decomp)
  then show ?thesis using assms(2) [of "fold f ys s"] grow [of "f x (fold f ys s)" zs] by auto
qed

definition heartbeat :: "player \<Rightarrow> player \<Rightarrow> effect" where
  "heartbeat v sub = OnPlayer (pl_guid v) (HeartBeat (pl_guid sub) (pl_x sub) (pl_y sub) (pl_z sub) (pl_o sub))"

lemma quietD: "quiet s t \<Longrightarrow> set (m_trace s) \<subseteq> set (m_trace t)"
  by (simp add: quiet_def)

lemma BeatOccupants_sends:
  assumes "sub \<in> set people" and "v \<in> set people" and "pl_inWorld sub" and "pl_session v"
  shows "heartbeat v sub \<in> set (m_trace (BeatOccupants people s))"
proof -
  have one: "heartbeat v sub \<in> set (m_trace (broadcast_beat people sub (pl_z sub) t))" for t
    unfolding broadcast_beat_def
    by (rule fold_sends [OF assms(2)]) (auto simp: assms(4) emit_def heartbeat_def)
  show ?thesis
    unfolding BeatOccupants_def
  proof (rule fold_sends [OF assms(1)])
    show "heartbeat v sub \<in> set (m_trace (beat_subject people sub t))" for t
      using one by (simp add: beat_subject_def assms(3))
    show "set (m_trace t) \<subseteq> set (m_trace (beat_subject people y t))" for y t
      by (rule quietD) (auto simp: beat_subject_def intro: quiet_trans [OF quiet_broadcast_beat quiet_broadcast_beat])
  qed
qed

lemma ping_sends:
  assumes on: "m_enabled s" and row: "sm_ok (m_arrivals s)" "sm_find (m_arrivals s) g = Some a"
    and a: "a_instanceId a = i" "a_ticks a = 1" and here: "on_map people g \<noteq> None"
    and sub: "sub \<in> set people" "v \<in> set people" "pl_inWorld sub" "pl_session v"
  shows "heartbeat v sub \<in> set (m_trace (RunPendingNudges sv i people s))"
proof -
  obtain p where p: "on_map people g = Some p" using here by blast
  have "heartbeat v sub \<in> set (m_trace (pinged sv i people g b t))" for b t
    using BeatOccupants_sends [OF sub, of "SettleArrival sv p b t"]
      quietD [OF quiet_BeatCritters, of "BeatOccupants people (SettleArrival sv p b t)" sv i people]
    by (auto simp: pinged_def p)
  then have one: "heartbeat v sub \<in> set (m_trace (poll_arrival sv i people (g, a) t))" for t
    by (simp add: poll_arrival_run a Let_def spend_arrival_find)
  have grow: "set (m_trace t) \<subseteq> set (m_trace (poll_arrival sv i people y t))" for y t
    using poll_arrival_find [of sv i people "fst y" "snd y" t] by simp
  have "(g, a) \<in> set (m_arrivals s)" using row by (simp add: sm_find_in)
  then have "heartbeat v sub \<in> set (m_trace (fold (poll_arrival sv i people) (m_arrivals s) s))"
    using one grow by (rule fold_sends)
  then show ?thesis
    using poll_critter_beat_same(3) [of "fold (poll_arrival sv i people) (m_arrivals s) s" sv i people] on
    by (auto simp: RunPendingNudges_def)
qed


lemma poll_all_same:
  assumes "m_enabled s" and "sm_ok (m_arrivals s)"
  shows "m_enabled (poll_all i polls s) \<and> sm_ok (m_arrivals (poll_all i polls s))
    \<and> set (m_trace s) \<subseteq> set (m_trace (poll_all i polls s))"
  using assms
proof (induction polls arbitrary: s)
  case (Cons poll polls)
  obtain sv people where poll: "poll = (sv, people)" by (cases poll)
  note run = RunPendingNudges_find [OF Cons.prems, of sv i people]
  show ?case using Cons.IH [of "RunPendingNudges sv i people s"] run by (auto simp: poll_all_def poll)
qed (simp add: poll_all_def)

lemma poll_all_countdown:
  assumes "m_enabled s" and "sm_ok (m_arrivals s)"
    and "sm_find (m_arrivals s) k = Some a" and "a_instanceId a = i" and "length polls < unat (a_ticks a)"
  shows "sm_find (m_arrivals (poll_all i polls s)) k = Some (a\<lparr>a_ticks := a_ticks a - of_nat (length polls)\<rparr>)"
  using assms
proof (induction polls arbitrary: s a)
  case Nil
  then show ?case by (simp add: poll_all_def)
next
  case (Cons poll polls)
  obtain sv people where poll: "poll = (sv, people)" by (cases poll)
  let ?t = "RunPendingNudges sv i people s"
  note run = RunPendingNudges_find [OF Cons.prems(1,2), of sv i people k]
  have n0: "a_ticks a \<noteq> 0" using Cons.prems(5) by auto
  note pred = unat_pred [OF n0]
  have "a_ticks a - 1 \<noteq> 0" using Cons.prems(5) pred by (auto simp: unat_eq_zero [symmetric])
  then have step: "sm_find (m_arrivals ?t) k = Some (a\<lparr>a_ticks := a_ticks a - 1\<rparr>)"
    using run Cons.prems(3,4) n0 by (simp add: arrival_step_def)
  have "sm_find (m_arrivals (poll_all i polls ?t)) k
      = Some (a\<lparr>a_ticks := a_ticks a - 1\<rparr>\<lparr>a_ticks := a_ticks (a\<lparr>a_ticks := a_ticks a - 1\<rparr>) - of_nat (length polls)\<rparr>)"
    using run step Cons.prems(4,5) pred by (intro Cons.IH) simp_all
  then show ?case by (simp add: poll_all_def poll algebra_simps)
qed

lemma ArrivePingTicks_nonzero: "ArrivePingTicks ms \<noteq> 0"
  by (simp add: ArrivePingTicks_def Let_def)

text \<open>
  C27: every arrival is seen through. Whoever walks into a house is pinged at the poll the setting asks
  for: if he is on the map then, every client there gets a heartbeat of everybody in the world there.
  Whatever happens in between (he may have left), and whoever else is about, the row of his arrival is
  gone after the polls of the delay and of the fall watch.
\<close>

theorem arrival_runs_its_course:
  assumes on: "m_enabled s" and ok: "sm_ok (m_arrivals s)" and map: "pl_mapId p = HOUSE_MAP_ID"
    and t: "t = ArrivePingTicks (GetSettingAccount s HOUSE_SETTING_GLOBAL_ACCOUNT HOUSE_SETTING_ARRIVE_PING)"
    and long: "unat t + unat (ArrivePingTicks HOUSE_FALL_WATCH) \<le> length polls"
  shows "sm_find (m_arrivals (poll_all (pl_instanceId p) polls (OnPlayerArrive s p))) (pl_guid p) = None
    \<and> (case polls ! (unat t - 1) of (sv, people) \<Rightarrow>
         on_map people (pl_guid p) \<noteq> None \<longrightarrow>
         (\<forall>sub \<in> set people. \<forall>v \<in> set people. pl_inWorld sub \<and> pl_session v \<longrightarrow>
            heartbeat v sub \<in> set (m_trace (poll_all (pl_instanceId p) polls (OnPlayerArrive s p)))))"
proof -
  let ?i = "pl_instanceId p" and ?g = "pl_guid p" and ?s = "OnPlayerArrive s p"
  define a where "a = \<lparr>a_instanceId = ?i, a_ticks = t, a_x = pl_x p, a_y = pl_y p,
    a_floorZ = pl_z p - HOUSE_ARRIVE_LIFT, a_watchTicks = ArrivePingTicks HOUSE_FALL_WATCH\<rparr>"
  have arr: "m_arrivals ?s = sm_put ?g a (m_arrivals s)" and on1: "m_enabled ?s"
    using on map by (simp_all add: OnPlayerArrive_def NudgeOccupants_def a_def t Let_def say_def emit_def split: option.split)
  have ok1: "sm_ok (m_arrivals ?s)" using ok by (simp add: arr)
  have row: "sm_find (m_arrivals ?s) ?g = Some a" by (simp add: arr)
  have t0: "t \<noteq> 0" by (simp add: t ArrivePingTicks_nonzero)
  note pred = unat_pred [OF t0]
  have gone: "sm_find (m_arrivals (poll_all ?i polls ?s)) ?g = None"
    by (rule poll_all_gone [OF on1 ok1]) (use row t0 long in \<open>simp add: polls_left_def a_def\<close>)
  have "heartbeat v sub \<in> set (m_trace (poll_all ?i polls ?s))"
    if ping: "polls ! (unat t - 1) = (sv, people)" and here: "on_map people ?g \<noteq> None"
      and sub: "sub \<in> set people" "v \<in> set people" "pl_inWorld sub" "pl_session v" for sv people sub v
  proof -
    have len: "unat t - 1 < length polls" using pred long by linarith
    let ?pre = "take (unat t - 1) polls" and ?post = "drop (Suc (unat t - 1)) polls"
    let ?u = "poll_all ?i ?pre ?s"
    have split: "poll_all ?i polls ?s = poll_all ?i ?post (RunPendingNudges sv ?i people ?u)"
      using id_take_nth_drop [OF len] ping unfolding poll_all_def
      by (metis (no_types, lifting) case_prod_conv comp_apply fold_append fold_simps(2))
    have u: "m_enabled ?u" "sm_ok (m_arrivals ?u)" using poll_all_same [OF on1 ok1] by blast+
    have "length ?pre < unat (a_ticks a)" using len pred by (simp add: a_def)
    from poll_all_countdown [OF on1 ok1 row _ this, of ?i] len pred
    have "sm_find (m_arrivals ?u) ?g = Some (a\<lparr>a_ticks := 1\<rparr>)"
      by (simp add: a_def min_def of_nat_diff)
    then have "heartbeat v sub \<in> set (m_trace (RunPendingNudges sv ?i people ?u))"
      by (intro ping_sends [where a = "a\<lparr>a_ticks := 1\<rparr>", OF u _ _ _ here sub]) (simp_all add: a_def)
    moreover have "m_enabled (RunPendingNudges sv ?i people ?u)" "sm_ok (m_arrivals (RunPendingNudges sv ?i people ?u))"
      using RunPendingNudges_find [OF u, of sv ?i people] by blast+
    ultimately show ?thesis using poll_all_same unfolding split by blast
  qed
  with gone show ?thesis by (auto split: prod.split)
qed

theorem arrival_runs_its_course_witness:
  "sm_find (m_arrivals (poll_all 50 (replicate 26 (plain_server, [plain_player])) (OnPlayerArrive plain_mgr plain_player))) 1 = None
   \<and> heartbeat plain_player plain_player
       \<in> set (m_trace (poll_all 50 (replicate 26 (plain_server, [plain_player])) (OnPlayerArrive plain_mgr plain_player)))"
proof -
  have t: "ArrivePingTicks (GetSettingAccount plain_mgr HOUSE_SETTING_GLOBAL_ACCOUNT HOUSE_SETTING_ARRIVE_PING) = 6"
    by code_simp
  have w: "ArrivePingTicks HOUSE_FALL_WATCH = 20" by code_simp
  have "on_map [plain_player] (pl_guid plain_player) \<noteq> None" by (simp add: on_map_def)
  then show ?thesis
    using arrival_runs_its_course [of plain_mgr plain_player 6 "replicate 26 (plain_server, [plain_player])"]
    by (simp add: t w)
qed

end
