(* ===== verification/HouseEstates.thy ===== *)
theory HouseEstates
  imports HouseTemplates
begin

section \<open>Emptying and stamping a house\<close>

text \<open>
  What emptying, stamping, claiming and moving do to the rows. \<open>estate\<close> forgets everything these steps
  may change (the houses, their rows and numbers, the way out, and what the core forgets); the lemmas
  say that the rest stays, and what becomes of the rows.
\<close>

definition estate :: "HouseMgr \<Rightarrow> HouseMgr" where
  "estate s = (core s)\<lparr>m_objects := [], m_houses := [], m_critters := [], m_nextObjectGuid := 0,
     m_exitPortals := [], m_db := (m_db s)\<lparr>tb_object := [], tb_critter := [], tb_house := []\<rparr>\<rparr>"

lemma estate_core: "core s = core t \<Longrightarrow> estate s = estate t"
  by (simp add: estate_def core_fields(32) [of s t])

lemma estate_fields:
  assumes "estate s = estate t"
  shows "m_enabled s = m_enabled t" and "m_nextCritterGuid s = m_nextCritterGuid t"
    and "m_houseByAccount s = m_houseByAccount t" and "m_houseByInstance s = m_houseByInstance t"
    and "m_storage s = m_storage t" and "m_houseTemplates s = m_houseTemplates t"
    and "m_templateByName s = m_templateByName t" and "m_portals s = m_portals t"
    and "tb_storage (m_db s) = tb_storage (m_db t)" and "tb_nextHouse (m_db s) = tb_nextHouse (m_db t)"
    and "tb_template (m_db s) = tb_template (m_db t)" and "tb_portal (m_db s) = tb_portal (m_db t)"
proof -
  show "m_enabled s = m_enabled t" using arg_cong [OF assms, of m_enabled] by (simp add: estate_def core_def)
  show "m_nextCritterGuid s = m_nextCritterGuid t"
    using arg_cong [OF assms, of m_nextCritterGuid] by (simp add: estate_def core_def)
  show "m_houseByAccount s = m_houseByAccount t"
    using arg_cong [OF assms, of m_houseByAccount] by (simp add: estate_def core_def)
  show "m_houseByInstance s = m_houseByInstance t"
    using arg_cong [OF assms, of m_houseByInstance] by (simp add: estate_def core_def)
  show "m_storage s = m_storage t" using arg_cong [OF assms, of m_storage] by (simp add: estate_def core_def)
  show "m_houseTemplates s = m_houseTemplates t"
    using arg_cong [OF assms, of m_houseTemplates] by (simp add: estate_def core_def)
  show "m_templateByName s = m_templateByName t"
    using arg_cong [OF assms, of m_templateByName] by (simp add: estate_def core_def)
  show "m_portals s = m_portals t" using arg_cong [OF assms, of m_portals] by (simp add: estate_def core_def)
  have db: "(m_db s)\<lparr>tb_object := [], tb_critter := [], tb_house := []\<rparr>
      = (m_db t)\<lparr>tb_object := [], tb_critter := [], tb_house := []\<rparr>"
    using arg_cong [OF assms, of m_db] by (simp add: estate_def)
  show "tb_storage (m_db s) = tb_storage (m_db t)" using arg_cong [OF db, of tb_storage] by simp
  show "tb_nextHouse (m_db s) = tb_nextHouse (m_db t)" using arg_cong [OF db, of tb_nextHouse] by simp
  show "tb_template (m_db s) = tb_template (m_db t)" using arg_cong [OF db, of tb_template] by simp
  show "tb_portal (m_db s) = tb_portal (m_db t)" using arg_cong [OF db, of tb_portal] by simp
qed

lemma estate_updates [simp]:
  "estate (s\<lparr>m_objects := a\<rparr>) = estate s"
  "estate (s\<lparr>m_houses := b\<rparr>) = estate s"
  "estate (s\<lparr>m_critters := c\<rparr>) = estate s"
  "estate (s\<lparr>m_nextObjectGuid := n\<rparr>) = estate s"
  "estate (s\<lparr>m_exitPortals := e\<rparr>) = estate s"
  "estate (put_house h s) = estate s"
  "estate (emit eff s) = estate s"
  "estate (say p msg s) = estate s"
  "estate (pexec (sql_insert_object ob) s) = estate s"
  "estate (pexec (sql_delete_object g) s) = estate s"
  "estate (pexec (sql_delete_critter g) s) = estate s"
  "estate (pexec (sql_update_house_exit i e' t) s) = estate s"
  "estate (pexec (sql_update_house_portal i d) s) = estate s"
  by (simp_all add: estate_def core_def put_house_def emit_def say_def pexec_def sql_defs)

lemma estate_PurgeObject [simp]: "estate (PurgeObject sv i g s) = estate s"
  by (simp add: PurgeObject_def Let_def split: option.split)

lemma estate_PurgeCritter [simp]: "estate (PurgeCritter sv i g s) = estate s"
  by (simp add: PurgeCritter_def Let_def split: option.split)

lemma estate_purge_folds [simp]:
  "estate (fold (PurgeObject sv i) gs s) = estate s"
  "estate (fold (PurgeCritter sv i) gs s) = estate s"
  by (induction gs arbitrary: s) simp_all

lemma estate_PurgeCritters [simp]: "estate (PurgeCritters sv i s) = estate s"
  by (simp add: PurgeCritters_def split: option.split)

lemma estate_DespawnExitPortal [simp]: "estate (DespawnExitPortal sv i s) = estate s"
  by (simp add: DespawnExitPortal_def Let_def split: option.split)

lemma estate_stamp_row [simp]: "estate (stamp_row sv live house g ob s) = estate s"
  by (simp add: stamp_row_def Let_def RegisterObjectWithMap_def SpawnObjectNow_def)

lemma estate_stamp_rows [simp]: "estate (stamp_rows sv live i obs s) = estate s"
  by (induction obs arbitrary: s) (simp_all add: AllocateObjectGuid_def split: option.split)

lemma estate_StampTemplate [simp]: "estate (StampTemplate sv i tpl s) = estate s"
  by (simp add: StampTemplate_def Let_def split: option.split)

lemma estate_RebuildHouse [simp]: "estate (RebuildHouse sv i t s) = estate s"
  by (simp add: RebuildHouse_def Let_def split: option.split)

lemma estate_set_home_door [simp]: "estate (set_home_door i d s) = estate s"
  by (simp add: set_home_door_def split: option.split)

subsection \<open>Emptying\<close>

text \<open>What a step that touches only the furniture of house \<open>i\<close> leaves of the animals and of the house table.\<close>

lemma purge_one:
  fixes sv :: server and s :: HouseMgr and i g :: u32
  assumes inv: "objects_inv s" "critters_inv s" and h: "sm_find (m_houses s) i = Some house"
    and g: "g \<in> set (h_objects house)"
  defines "t \<equiv> PurgeObject sv i g s"
  shows "objects_inv t \<and> critters_inv t \<and> m_critters t = m_critters s
    \<and> tb_critter (m_db t) = tb_critter (m_db s) \<and> tb_house (m_db t) = tb_house (m_db s)
    \<and> m_nextObjectGuid t = m_nextObjectGuid s
    \<and> sm_find (m_houses t) = (sm_find (m_houses s))(i \<mapsto> house\<lparr>h_objects := filter (\<lambda>x. x \<noteq> g) (h_objects house)\<rparr>)
    \<and> sm_find (m_objects t) = (sm_find (m_objects s))(g := None)"
proof -
  have id: "h_id house = i" using objects_inv_house [OF inv(1) h] by blast
  obtain ob where ob: "sm_find (m_objects s) g = Some ob" "o_houseId ob = i"
    using objects_inv_house [OF inv(1) h] g by blast
  have core: "core t = core (delete_row house g s)" unfolding t_def by (rule PurgeObject_core [OF ob(1) h])
  have obinv: "objects_inv t"
    by (rule objects_inv_core [OF delete_row_inv [OF inv(1) _ ob(1)] core]) (simp_all add: h id ob(2))
  have f: "m_objects t = sm_erase g (m_objects s)"
    "m_houses t = sm_put i (house\<lparr>h_objects := filter (\<lambda>x. x \<noteq> g) (h_objects house)\<rparr>) (m_houses s)"
    "m_nextObjectGuid t = m_nextObjectGuid s" "m_critters t = m_critters s"
    "m_db t = sql_delete_object g (m_db s)" "m_nextCritterGuid t = m_nextCritterGuid s"
    using core_fields [OF core] id by (simp_all add: delete_row_def put_house_def pexec_def)
  have "critters_inv t"
    using inv(2) rows_inv_keep_house [of c_guid c_houseId h_critters "m_houses s" "m_critters s" _ i house] h id
    by (simp add: critters_inv_def f sql_delete_object_def)
  with obinv show ?thesis by (simp add: f sql_delete_object_def fun_eq_iff)
qed

lemma purge_all:
  assumes "objects_inv s" "critters_inv s" and "sm_find (m_houses s) i = Some house"
    and "set gs \<subseteq> set (h_objects house)" and "distinct gs"
  shows "objects_inv (fold (PurgeObject sv i) gs s) \<and> critters_inv (fold (PurgeObject sv i) gs s)
    \<and> m_critters (fold (PurgeObject sv i) gs s) = m_critters s
    \<and> tb_critter (m_db (fold (PurgeObject sv i) gs s)) = tb_critter (m_db s)
    \<and> tb_house (m_db (fold (PurgeObject sv i) gs s)) = tb_house (m_db s)
    \<and> m_nextObjectGuid (fold (PurgeObject sv i) gs s) = m_nextObjectGuid s
    \<and> sm_find (m_houses (fold (PurgeObject sv i) gs s))
        = (sm_find (m_houses s))(i \<mapsto> house\<lparr>h_objects := filter (\<lambda>x. x \<notin> set gs) (h_objects house)\<rparr>)
    \<and> sm_find (m_objects (fold (PurgeObject sv i) gs s)) = (\<lambda>g. if g \<in> set gs then None else sm_find (m_objects s) g)"
  using assms
proof (induction gs arbitrary: s house)
  case Nil
  then show ?case by (simp add: fun_upd_idem)
next
  case (Cons g gs)
  let ?t = "PurgeObject sv i g s"
  let ?h = "house\<lparr>h_objects := filter (\<lambda>x. x \<noteq> g) (h_objects house)\<rparr>"
  have mem: "g \<in> set (h_objects house)" using Cons.prems(4) by simp
  note one = purge_one [OF Cons.prems(1-3) mem, of sv]
  have h: "sm_find (m_houses ?t) i = Some ?h" using one by simp
  have sub: "set gs \<subseteq> set (h_objects ?h)" using Cons.prems(4,5) by auto
  have dist: "distinct gs" using Cons.prems(5) by simp
  have filt: "filter (\<lambda>x. x \<notin> set gs) (h_objects ?h) = filter (\<lambda>x. x \<notin> set (g # gs)) (h_objects house)"
    by (auto intro: filter_cong)
  from Cons.IH [OF _ _ h sub dist] one filt show ?case
    by (auto simp: fun_eq_iff)
qed

lemma purge_critter_one:
  fixes sv :: server and s :: HouseMgr and i g :: u32
  assumes inv: "objects_inv s" "critters_inv s" and h: "sm_find (m_houses s) i = Some house"
    and g: "g \<in> set (h_critters house)"
  defines "t \<equiv> PurgeCritter sv i g s"
  shows "objects_inv t \<and> critters_inv t \<and> m_objects t = m_objects s
    \<and> tb_object (m_db t) = tb_object (m_db s) \<and> tb_house (m_db t) = tb_house (m_db s)
    \<and> m_nextObjectGuid t = m_nextObjectGuid s
    \<and> sm_find (m_houses t) = (sm_find (m_houses s))(i \<mapsto> house\<lparr>h_critters := filter (\<lambda>x. x \<noteq> g) (h_critters house)\<rparr>)
    \<and> sm_find (m_critters t) = (sm_find (m_critters s))(g := None)"
proof -
  have rows: "rows_inv c_guid c_houseId h_critters (m_houses s) (m_critters s) (m_nextCritterGuid s)"
    using inv(2) by (simp add: critters_inv_def)
  obtain c where c: "sm_find (m_critters s) g = Some c" "c_houseId c = i"
    using rows_inv_house [OF rows h] g by blast
  have on: "m_nextCritterGuid s \<noteq> 0" using rows_inv_row [OF rows c(1)] by auto
  note run = PurgeCritter_run [OF inv(2) c(1) on, of sv]
  have id: "h_id house = i" using rows_inv_house [OF rows h] by blast
  have f: "m_critters t = sm_erase g (m_critters s)" "m_db t = sql_delete_critter g (m_db s)"
    "m_houses t = sm_put i (house\<lparr>h_critters := filter (\<lambda>x. x \<noteq> g) (h_critters house)\<rparr>) (m_houses s)"
    "critters_inv t"
    using run h unfolding t_def c(2) by auto
  have same: "m_objects t = m_objects s" "m_nextObjectGuid t = m_nextObjectGuid s"
    by (simp_all add: t_def PurgeCritter_def c h GetHouseById_def Let_def pexec_def put_house_def)
  have "objects_inv t"
    using inv(1) rows_inv_keep_house [of o_guid o_houseId h_objects "m_houses s" "m_objects s" _ i house] h id
    by (simp add: objects_inv_rows_inv f(2,3) same sql_delete_critter_def mirrored_def)
  then show ?thesis using f(4) by (simp add: f(1-3) same sql_delete_critter_def fun_eq_iff)
qed

lemma purge_all_critters:
  assumes "objects_inv s" "critters_inv s" and "sm_find (m_houses s) i = Some house"
    and "set gs \<subseteq> set (h_critters house)" and "distinct gs"
  shows "objects_inv (fold (PurgeCritter sv i) gs s) \<and> critters_inv (fold (PurgeCritter sv i) gs s)
    \<and> m_objects (fold (PurgeCritter sv i) gs s) = m_objects s
    \<and> tb_object (m_db (fold (PurgeCritter sv i) gs s)) = tb_object (m_db s)
    \<and> tb_house (m_db (fold (PurgeCritter sv i) gs s)) = tb_house (m_db s)
    \<and> m_nextObjectGuid (fold (PurgeCritter sv i) gs s) = m_nextObjectGuid s
    \<and> sm_find (m_houses (fold (PurgeCritter sv i) gs s))
        = (sm_find (m_houses s))(i \<mapsto> house\<lparr>h_critters := filter (\<lambda>x. x \<notin> set gs) (h_critters house)\<rparr>)
    \<and> sm_find (m_critters (fold (PurgeCritter sv i) gs s)) = (\<lambda>g. if g \<in> set gs then None else sm_find (m_critters s) g)"
  using assms
proof (induction gs arbitrary: s house)
  case Nil
  then show ?case by (simp add: fun_upd_idem)
next
  case (Cons g gs)
  let ?t = "PurgeCritter sv i g s"
  let ?h = "house\<lparr>h_critters := filter (\<lambda>x. x \<noteq> g) (h_critters house)\<rparr>"
  have mem: "g \<in> set (h_critters house)" using Cons.prems(4) by simp
  note one = purge_critter_one [OF Cons.prems(1-3) mem, of sv]
  have h: "sm_find (m_houses ?t) i = Some ?h" using one by simp
  have sub: "set gs \<subseteq> set (h_critters ?h)" using Cons.prems(4,5) by auto
  have dist: "distinct gs" using Cons.prems(5) by simp
  have filt: "filter (\<lambda>x. x \<notin> set gs) (h_critters ?h) = filter (\<lambda>x. x \<notin> set (g # gs)) (h_critters house)"
    by (auto intro: filter_cong)
  from Cons.IH [OF _ _ h sub dist] one filt show ?case
    by (auto simp: fun_eq_iff)
qed

text \<open>Everything out: no pieces, no animals, the rows of other houses as they were.\<close>

definition emptied :: "server \<Rightarrow> u32 \<Rightarrow> House \<Rightarrow> HouseMgr \<Rightarrow> HouseMgr" where
  "emptied sv i house s = PurgeCritters sv i (fold (PurgeObject sv i) (h_objects house) s)"

lemma emptied_house:
  assumes inv: "objects_inv s" "critters_inv s" and h: "sm_find (m_houses s) i = Some house"
  shows "objects_inv (emptied sv i house s) \<and> critters_inv (emptied sv i house s)
    \<and> m_nextObjectGuid (emptied sv i house s) = m_nextObjectGuid s
    \<and> tb_house (m_db (emptied sv i house s)) = tb_house (m_db s)
    \<and> sm_find (m_houses (emptied sv i house s)) = (sm_find (m_houses s))(i \<mapsto> house\<lparr>h_objects := [], h_critters := []\<rparr>)
    \<and> sm_find (m_objects (emptied sv i house s)) = (\<lambda>g. if g \<in> set (h_objects house) then None else sm_find (m_objects s) g)
    \<and> sm_find (m_critters (emptied sv i house s)) = (\<lambda>g. if g \<in> set (h_critters house) then None else sm_find (m_critters s) g)"
proof -
  let ?t = "fold (PurgeObject sv i) (h_objects house) s"
  have dist: "distinct (h_objects house)" using objects_inv_house [OF inv(1) h] by blast
  note one = purge_all [OF inv h subset_refl dist, of sv]
  then have h1: "sm_find (m_houses ?t) i = Some (house\<lparr>h_objects := []\<rparr>)" by simp
  have rows: "rows_inv c_guid c_houseId h_critters (m_houses s) (m_critters s) (m_nextCritterGuid s)"
    using inv(2) by (simp add: critters_inv_def)
  have dist2: "distinct (h_critters (house\<lparr>h_objects := []\<rparr>))" using rows_inv_house [OF rows h] by simp
  have inv1: "objects_inv ?t" "critters_inv ?t" using one by blast+
  have "emptied sv i house s = fold (PurgeCritter sv i) (h_critters (house\<lparr>h_objects := []\<rparr>)) ?t"
    using h1 by (simp add: emptied_def PurgeCritters_def GetHouseById_def)
  with purge_all_critters [OF inv1 h1 subset_refl dist2, of sv] one
  show ?thesis by (auto simp: fun_eq_iff)
qed

subsection \<open>Stamping\<close>

text \<open>The pieces a stamp makes of a frozen list: fresh ids from \<open>n\<close>, numbers from \<open>m\<close>, in the author's order.\<close>

fun stamped :: "u32 \<Rightarrow> u32 \<Rightarrow> u32 \<Rightarrow> HouseObject list \<Rightarrow> (u32 \<times> HouseObject) list" where
  "stamped i n m [] = []"
| "stamped i n m (f # fs) =
     (n, f\<lparr>o_guid := n, o_houseId := i, o_source := HOUSE_SOURCE_TEMPLATE, o_slot := m\<rparr>) # stamped i (n + 1) (m + 1) fs"

definition plain_frozen :: "HouseObject list \<Rightarrow> bool" where
  "plain_frozen obs \<longleftrightarrow> list_all (\<lambda>ob. o_itemEntry ob = 0 \<and> o_groupNo ob = 0) obs"

lemma highest_in_snoc:
  "highest_in num rows (gs @ [g]) =
     (case sm_find rows g of None \<Rightarrow> highest_in num rows gs
      | Some v \<Rightarrow> if num v > highest_in num rows gs then num v else highest_in num rows gs)"
  by (simp add: highest_in_def split: option.split)

lemma highest_in_cong:
  "(\<And>g. g \<in> set gs \<Longrightarrow> sm_find rows g = sm_find rows' g) \<Longrightarrow> highest_in num rows gs = highest_in num rows' gs"
  unfolding highest_in_def by (rule fold_cong) auto

lemma stamp_row_fields:
  "m_objects (stamp_row sv live house g f s)
     = sm_put g (f\<lparr>o_guid := g, o_houseId := h_id house, o_source := HOUSE_SOURCE_TEMPLATE, o_slot := AllocateSlot s house\<rparr>) (m_objects s)"
  "m_houses (stamp_row sv live house g f s)
     = sm_put (h_id house) (house\<lparr>h_objects := h_objects house @ [g]\<rparr>) (m_houses s)"
  "m_db (stamp_row sv live house g f s)
     = sql_insert_object (stamped_columns (f\<lparr>o_guid := g, o_houseId := h_id house,
         o_source := HOUSE_SOURCE_TEMPLATE, o_slot := AllocateSlot s house\<rparr>)) (m_db s)"
  "m_nextObjectGuid (stamp_row sv live house g f s) = m_nextObjectGuid s"
  "m_critters (stamp_row sv live house g f s) = m_critters s"
  "m_nextCritterGuid (stamp_row sv live house g f s) = m_nextCritterGuid s"
  by (simp_all add: stamp_row_def Let_def pexec_def put_house_def)

text \<open>One stamped row keeps the invariants (the table's row lacks the two columns the INSERT omits).\<close>

lemma stamp_row_step:
  fixes sv :: server and live :: bool and f :: HouseObject and s :: HouseMgr and n :: u32
  assumes inv: "rows_inv o_guid o_houseId h_objects (m_houses s) (m_objects s) n" "critters_inv s"
    and h: "sm_find (m_houses s) i = Some house" and n: "n \<noteq> 0" "n < n + 1"
  defines "t \<equiv> stamp_row sv live house n f (s\<lparr>m_nextObjectGuid := n + 1\<rparr>)"
  shows "rows_inv o_guid o_houseId h_objects (m_houses t) (m_objects t) (n + 1) \<and> critters_inv t
    \<and> (AllocateSlot s house \<noteq> 0 \<longrightarrow>
        AllocateSlot t (house\<lparr>h_objects := h_objects house @ [n]\<rparr>) = AllocateSlot s house + 1)"
proof -
  have id: "h_id house = i" using rows_inv_house [OF inv(1) h] by blast
  let ?s = "s\<lparr>m_nextObjectGuid := n + 1\<rparr>"
  let ?ob = "f\<lparr>o_guid := n, o_houseId := i, o_source := HOUSE_SOURCE_TEMPLATE, o_slot := AllocateSlot s house\<rparr>"
  have slot: "AllocateSlot ?s house = AllocateSlot s house" by (simp add: AllocateSlot_def)
  have tf: "m_objects t = sm_put n ?ob (m_objects s)"
    "m_houses t = sm_put i (house\<lparr>h_objects := h_objects house @ [n]\<rparr>) (m_houses s)"
    "m_critters t = m_critters s" "m_nextCritterGuid t = m_nextCritterGuid s"
    "m_db t = sql_insert_object (stamped_columns ?ob) (m_db s)"
    by (simp_all add: t_def stamp_row_fields id slot)
  have "rows_inv o_guid o_houseId h_objects (m_houses t) (m_objects t) (n + 1)"
    unfolding tf using object_rows.add_row [OF inv(1), of ?ob house "n + 1"] h n by simp
  moreover have "critters_inv t"
    using inv(2) rows_inv_keep_house [of c_guid c_houseId h_critters "m_houses s" "m_critters s" _ i house] h id
    by (simp add: critters_inv_def tf sql_insert_object_def)
  moreover have "AllocateSlot t (house\<lparr>h_objects := h_objects house @ [n]\<rparr>) = AllocateSlot s house + 1"
    if "AllocateSlot s house \<noteq> 0"
  proof -
    have fresh: "sm_find (m_objects s) n = None" by (rule rows_inv_fresh [OF inv(1)])
    have notin: "n \<notin> set (h_objects house)" using rows_inv_house [OF inv(1) h] fresh by fastforce
    have "highest_in o_slot (m_objects t) (h_objects house) = highest_in o_slot (m_objects s) (h_objects house)"
      by (rule highest_in_cong) (use notin in \<open>auto simp: tf\<close>)
    moreover have "highest_in o_slot (m_objects s) (h_objects house) < AllocateSlot s house"
      using that unfolding AllocateSlot_def by (rule u32_less_succ)
    ultimately show ?thesis
      by (simp add: AllocateSlot_def highest_in_snoc tf)
  qed
  ultimately show ?thesis by blast
qed

lemma sm_update_same: "sm_find (sm_put k v m) = (sm_find m)(k \<mapsto> v)"
  by (simp add: fun_eq_iff)

lemma stamped_columns_keys [simp]:
  "o_guid (stamped_columns ob) = o_guid ob" "o_houseId (stamped_columns ob) = o_houseId ob"
  by (simp_all add: stamped_columns_def)

lemma stamped_keys:
  "unat n + length obs < 2 ^ 32 \<Longrightarrow> g \<in> fst ` set (stamped i n m obs) \<Longrightarrow> n \<le> g"
proof (induction obs arbitrary: n m)
  case Nil
  then show ?case by simp
next
  case (Cons f obs)
  have suc: "unat (n + 1) = unat n + 1" using Cons.prems(1) by (simp add: unat_word_ariths)
  from Cons.prems(2) consider "g = n" | "g \<in> fst ` set (stamped i (n + 1) (m + 1) obs)" by auto
  then show ?case
  proof cases
    case 2
    have "n + 1 \<le> g" by (rule Cons.IH [OF _ 2]) (use Cons.prems(1) suc in simp)
    moreover have "n \<le> n + 1" using suc by (simp add: word_le_nat_alt)
    ultimately show ?thesis by (rule order_trans [rotated])
  qed simp
qed

lemma stamped_fresh:
  assumes "unat (n :: u32) + 1 + length obs < 2 ^ 32"
  shows "map_of (stamped i (n + 1) m obs) n = None"
    and "map_of (map (map_prod id stamped_columns) (stamped i (n + 1) m obs)) n = None"
proof -
  have suc: "unat (n + 1) = unat n + 1" using assms by (simp add: unat_word_ariths)
  have "n \<notin> fst ` set (stamped i (n + 1) m obs)"
  proof
    assume "n \<in> fst ` set (stamped i (n + 1) m obs)"
    from stamped_keys [OF _ this] assms suc have "n + 1 \<le> n" by simp
    with suc show False by (simp add: word_le_nat_alt)
  qed
  then show "map_of (stamped i (n + 1) m obs) n = None"
    and "map_of (map (map_prod id stamped_columns) (stamped i (n + 1) m obs)) n = None"
    by (simp_all add: map_of_eq_None_iff image_image)
qed

text \<open>The whole list: exactly the pieces \<open>stamped\<close> says, after those the house has.\<close>

lemma stamp_rows_run:
  assumes "rows_inv o_guid o_houseId h_objects (m_houses s) (m_objects s) (m_nextObjectGuid s)" and "critters_inv s"
    and "sm_find (m_houses s) i = Some house" and "m_nextObjectGuid s \<noteq> 0"
    and "unat (m_nextObjectGuid s) + length obs \<le> unat HOUSE_GO_GUID_MAX"
    and "unat (AllocateSlot s house) + length obs < 2 ^ 32" and "AllocateSlot s house \<noteq> 0"
  defines "out \<equiv> stamped i (m_nextObjectGuid s) (AllocateSlot s house) obs"
  shows "rows_inv o_guid o_houseId h_objects (m_houses (stamp_rows sv live i obs s)) (m_objects (stamp_rows sv live i obs s))
        (m_nextObjectGuid (stamp_rows sv live i obs s))
    \<and> critters_inv (stamp_rows sv live i obs s)
    \<and> m_nextObjectGuid (stamp_rows sv live i obs s) = m_nextObjectGuid s + of_nat (length obs)
    \<and> m_critters (stamp_rows sv live i obs s) = m_critters s
    \<and> tb_house (m_db (stamp_rows sv live i obs s)) = tb_house (m_db s)
    \<and> sm_find (m_houses (stamp_rows sv live i obs s))
        = (sm_find (m_houses s))(i \<mapsto> house\<lparr>h_objects := h_objects house @ map fst out\<rparr>)
    \<and> sm_find (m_objects (stamp_rows sv live i obs s)) = sm_find (m_objects s) ++ map_of out
    \<and> sm_find (tb_object (m_db (stamp_rows sv live i obs s)))
        = sm_find (tb_object (m_db s)) ++ map_of (map (map_prod id stamped_columns) out)"
  using assms(1-7) unfolding out_def
proof (induction obs arbitrary: s house)
  case Nil
  then show ?case by (simp add: fun_upd_idem)
next
  case (Cons f obs)
  let ?n = "m_nextObjectGuid s" let ?m = "AllocateSlot s house"
  let ?t = "stamp_row sv live house ?n f (s\<lparr>m_nextObjectGuid := ?n + 1\<rparr>)"
  let ?h = "house\<lparr>h_objects := h_objects house @ [?n]\<rparr>"
  let ?ob = "f\<lparr>o_guid := ?n, o_houseId := i, o_source := HOUSE_SOURCE_TEMPLATE, o_slot := ?m\<rparr>"
  have id: "h_id house = i" using rows_inv_house [OF Cons.prems(1,3)] by blast
  have lt: "?n < HOUSE_GO_GUID_MAX" using Cons.prems(5) by (simp add: word_less_nat_alt)
  have up: "?n < ?n + 1" by (rule u32_succ(2) [OF lt])
  have nsuc: "unat (?n + 1) = unat ?n + 1" by (rule u32_succ(3) [OF lt])
  have mlt: "?m < ?m + 1" using Cons.prems(6) by (intro u32_less_succ) (simp add: unat_eq_zero [symmetric] unat_word_ariths)
  have msuc: "unat (?m + 1) = unat ?m + 1" using Cons.prems(6) by (simp add: unat_word_ariths)
  have alloc: "AllocateObjectGuid s = (s\<lparr>m_nextObjectGuid := ?n + 1\<rparr>, ?n)"
    using leD [OF less_imp_le [OF lt]] lt by (simp add: AllocateObjectGuid_def not_le [symmetric])
  have run: "stamp_rows sv live i (f # obs) s = stamp_rows sv live i obs ?t"
    using Cons.prems(3,4) by (simp add: alloc GetHouseById_def)
  note step = stamp_row_step [OF Cons.prems(1-4) up, of sv live f]
  have tf: "m_objects ?t = sm_put ?n ?ob (m_objects s)" "m_houses ?t = sm_put i ?h (m_houses s)"
    "m_nextObjectGuid ?t = ?n + 1" "m_critters ?t = m_critters s"
    "m_db ?t = sql_insert_object (stamped_columns ?ob) (m_db s)"
    by (simp_all add: stamp_row_fields id AllocateSlot_def)
  have slot: "AllocateSlot ?t ?h = ?m + 1" using step Cons.prems(7) by blast
  have pre: "rows_inv o_guid o_houseId h_objects (m_houses ?t) (m_objects ?t) (m_nextObjectGuid ?t)" "critters_inv ?t"
    "sm_find (m_houses ?t) i = Some ?h" "m_nextObjectGuid ?t \<noteq> 0"
    "unat (m_nextObjectGuid ?t) + length obs \<le> unat HOUSE_GO_GUID_MAX"
    "unat (AllocateSlot ?t ?h) + length obs < 2 ^ 32" "AllocateSlot ?t ?h \<noteq> 0"
    using step Cons.prems(5,6) nsuc msuc up mlt unfolding slot tf(3)
    by (auto simp: tf(2) unat_eq_zero [symmetric])
  have fresh: "map_of (stamped i (?n + 1) (?m + 1) obs) ?n = None
      \<and> map_of (map (map_prod id stamped_columns) (stamped i (?n + 1) (?m + 1) obs)) ?n = None"
    using Cons.prems(5) by (intro conjI stamped_fresh) (simp_all add: HOUSE_GO_GUID_MAX_def)
  define t where "t = ?t"
  note tf = tf [folded t_def] and pre = pre [folded t_def] and slot = slot [folded t_def]
  note ih = Cons.IH [OF pre, unfolded slot tf(3)]
  have len: "?n + 1 + of_nat (length obs) = ?n + of_nat (length (f # obs))" by simp
  let ?X = "stamped i (?n + 1) (?m + 1) obs"
  have out: "stamped i ?n ?m (f # obs) = (?n, ?ob) # ?X" by simp
  have h: "(sm_find (m_houses t))(i \<mapsto> ?h\<lparr>h_objects := h_objects ?h @ map fst ?X\<rparr>)
      = (sm_find (m_houses s))(i \<mapsto> house\<lparr>h_objects := h_objects house @ map fst ((?n, ?ob) # ?X)\<rparr>)"
    by (simp add: tf(2) fun_eq_iff)
  have o: "sm_find (m_objects t) ++ map_of ?X = sm_find (m_objects s) ++ map_of ((?n, ?ob) # ?X)"
    by (rule ext) (use fresh in \<open>simp add: tf(1) map_add_def\<close>)
  have d: "sm_find (tb_object (m_db t)) ++ map_of (map (map_prod id stamped_columns) ?X)
      = sm_find (tb_object (m_db s)) ++ map_of (map (map_prod id stamped_columns) ((?n, ?ob) # ?X))"
    by (rule ext) (use fresh in \<open>simp add: tf(5) map_add_def sql_insert_object_def\<close>)
  have b: "tb_house (m_db t) = tb_house (m_db s)" by (simp add: tf(5) sql_insert_object_def)
  show ?case
    using ih unfolding run t_def [symmetric] len [symmetric] out h o d b tf(4) .
qed

lemma AllocateSlot_empty: "h_objects house = [] \<Longrightarrow> AllocateSlot s house = 1"
  by (simp add: AllocateSlot_def highest_in_def)

lemma StampTemplate_run:
  assumes "rows_inv o_guid o_houseId h_objects (m_houses s) (m_objects s) (m_nextObjectGuid s)" and "critters_inv s"
    and "sm_find (m_houses s) i = Some house" and "h_objects house = []" and "m_nextObjectGuid s \<noteq> 0"
    and "unat (m_nextObjectGuid s) + length (t_objects tpl) \<le> unat HOUSE_GO_GUID_MAX"
  defines "out \<equiv> stamped i (m_nextObjectGuid s) 1 (t_objects tpl)"
  shows "rows_inv o_guid o_houseId h_objects (m_houses (StampTemplate sv i tpl s)) (m_objects (StampTemplate sv i tpl s))
        (m_nextObjectGuid (StampTemplate sv i tpl s))
    \<and> critters_inv (StampTemplate sv i tpl s)
    \<and> m_nextObjectGuid (StampTemplate sv i tpl s) = m_nextObjectGuid s + of_nat (length (t_objects tpl))
    \<and> m_critters (StampTemplate sv i tpl s) = m_critters s
    \<and> tb_house (m_db (StampTemplate sv i tpl s))
        = sm_update i (\<lambda>r. r\<lparr>hr_exit := t_exit tpl, hr_template := t_id tpl\<rparr>) (tb_house (m_db s))
    \<and> sm_find (m_houses (StampTemplate sv i tpl s)) = (sm_find (m_houses s))
        (i \<mapsto> house\<lparr>h_objects := map fst out, h_exit := t_exit tpl, h_templateId := t_id tpl\<rparr>)
    \<and> sm_find (m_objects (StampTemplate sv i tpl s)) = sm_find (m_objects s) ++ map_of out
    \<and> sm_find (tb_object (m_db (StampTemplate sv i tpl s)))
        = sm_find (tb_object (m_db s)) ++ map_of (map (map_prod id stamped_columns) out)"
proof -
  have slot: "AllocateSlot s house = 1" by (rule AllocateSlot_empty [OF assms(4)])
  define live where "live = (h_instanceId house \<noteq> 0 \<and> sv_loaded sv (h_instanceId house))"
  define t where "t = stamp_rows sv live i (t_objects tpl) s"
  have room: "unat (AllocateSlot s house) + length (t_objects tpl) < 2 ^ 32"
  proof -
    have "unat (m_nextObjectGuid s) \<noteq> 0" using assms(5) by (simp add: unat_eq_zero)
    then show ?thesis using assms(6) slot by (simp add: HOUSE_GO_GUID_MAX_def)
  qed
  have run: "rows_inv o_guid o_houseId h_objects (m_houses t) (m_objects t) (m_nextObjectGuid t) \<and> critters_inv t
    \<and> m_nextObjectGuid t = m_nextObjectGuid s + of_nat (length (t_objects tpl))
    \<and> m_critters t = m_critters s \<and> tb_house (m_db t) = tb_house (m_db s)
    \<and> sm_find (m_houses t) = (sm_find (m_houses s))(i \<mapsto> house\<lparr>h_objects := h_objects house @ map fst out\<rparr>)
    \<and> sm_find (m_objects t) = sm_find (m_objects s) ++ map_of out
    \<and> sm_find (tb_object (m_db t)) = sm_find (tb_object (m_db s)) ++ map_of (map (map_prod id stamped_columns) out)"
    using stamp_rows_run [OF assms(1-3,5,6) room, unfolded slot, OF one_neq_zero, of sv live]
    unfolding t_def out_def .
  let ?h = "house\<lparr>h_objects := map fst out\<rparr>"
  have h: "sm_find (m_houses t) i = Some ?h" using run assms(4) by simp
  have id: "h_id house = i" using rows_inv_house [OF assms(1,3)] by blast
  have eq: "StampTemplate sv i tpl s
      = pexec (sql_update_house_exit i (t_exit tpl) (t_id tpl))
          (put_house (?h\<lparr>h_exit := t_exit tpl, h_templateId := t_id tpl\<rparr>) t)"
    using assms(3) h by (simp add: StampTemplate_def GetHouseById_def Let_def live_def [symmetric] t_def [symmetric])
  have f: "m_houses (StampTemplate sv i tpl s) = sm_put i (?h\<lparr>h_exit := t_exit tpl, h_templateId := t_id tpl\<rparr>) (m_houses t)"
    "m_objects (StampTemplate sv i tpl s) = m_objects t" "m_critters (StampTemplate sv i tpl s) = m_critters t"
    "m_nextObjectGuid (StampTemplate sv i tpl s) = m_nextObjectGuid t"
    "m_nextCritterGuid (StampTemplate sv i tpl s) = m_nextCritterGuid t"
    "m_db (StampTemplate sv i tpl s) = sql_update_house_exit i (t_exit tpl) (t_id tpl) (m_db t)"
    by (simp_all add: eq pexec_def put_house_def id)
  have "rows_inv o_guid o_houseId h_objects (m_houses (StampTemplate sv i tpl s)) (m_objects (StampTemplate sv i tpl s))
        (m_nextObjectGuid (StampTemplate sv i tpl s))"
  proof -
    have "rows_inv o_guid o_houseId h_objects (m_houses t) (m_objects t) (m_nextObjectGuid t)" using run by blast
    from rows_inv_keep_house [OF this h] id show ?thesis by (simp add: f(1,2,4))
  qed
  moreover have "critters_inv (StampTemplate sv i tpl s)"
  proof -
    have ct: "critters_inv t" using run by blast
    then have "rows_inv c_guid c_houseId h_critters (m_houses t) (m_critters t) (m_nextCritterGuid t)"
      by (simp add: critters_inv_def)
    from rows_inv_keep_house [OF this h] id ct show ?thesis
      by (simp add: critters_inv_def f sql_update_house_exit_def)
  qed
  moreover have "sm_find (m_houses (StampTemplate sv i tpl s)) = (sm_find (m_houses s))
        (i \<mapsto> house\<lparr>h_objects := map fst out, h_exit := t_exit tpl, h_templateId := t_id tpl\<rparr>)"
    using run by (simp add: f fun_eq_iff)
  moreover have "m_nextObjectGuid (StampTemplate sv i tpl s) = m_nextObjectGuid s + of_nat (length (t_objects tpl))"
    and "m_critters (StampTemplate sv i tpl s) = m_critters s"
    and "tb_house (m_db (StampTemplate sv i tpl s))
        = sm_update i (\<lambda>r. r\<lparr>hr_exit := t_exit tpl, hr_template := t_id tpl\<rparr>) (tb_house (m_db s))"
    and "sm_find (m_objects (StampTemplate sv i tpl s)) = sm_find (m_objects s) ++ map_of out"
    and "sm_find (tb_object (m_db (StampTemplate sv i tpl s)))
        = sm_find (tb_object (m_db s)) ++ map_of (map (map_prod id stamped_columns) out)"
    using run by (elim conjE, simp add: f(2-4,6) sql_update_house_exit_def)+
  ultimately show ?thesis by blast
qed

subsection \<open>A house back to its shell\<close>

definition shell_of :: "HouseMgr \<Rightarrow> u32 \<Rightarrow> HouseTemplate option" where
  "shell_of s templateId = (if templateId \<noteq> 0 then GetTemplate s templateId else None)"

definition shell_rows :: "HouseMgr \<Rightarrow> u32 \<Rightarrow> HouseObject list" where
  "shell_rows s templateId = (case shell_of s templateId of None \<Rightarrow> [] | Some tpl \<Rightarrow> t_objects tpl)"

definition shell_house :: "HouseMgr \<Rightarrow> u32 \<Rightarrow> House \<Rightarrow> House" where
  "shell_house s templateId house =
     (case shell_of s templateId of
        None \<Rightarrow> house\<lparr>h_exit := no_exit, h_templateId := 0\<rparr>
      | Some tpl \<Rightarrow> house\<lparr>h_exit := t_exit tpl, h_templateId := t_id tpl\<rparr>)"

lemma DespawnExitPortal_fields:
  "m_houses (DespawnExitPortal sv i s) = m_houses s" "m_objects (DespawnExitPortal sv i s) = m_objects s"
  "m_critters (DespawnExitPortal sv i s) = m_critters s"
  "m_nextObjectGuid (DespawnExitPortal sv i s) = m_nextObjectGuid s"
  "m_nextCritterGuid (DespawnExitPortal sv i s) = m_nextCritterGuid s" "m_db (DespawnExitPortal sv i s) = m_db s"
  by (simp_all add: DespawnExitPortal_def Let_def split: option.split)

lemma plain_stamped:
  "plain_frozen obs \<Longrightarrow> map (map_prod id stamped_columns) (stamped i n m obs) = stamped i n m obs"
  by (induction obs arbitrary: n m) (simp_all add: plain_frozen_def stamped_columns_def)

lemma RebuildHouse_run:
  fixes sv :: server and s :: HouseMgr and templateId i :: u32
  assumes inv: "objects_inv s" "critters_inv s" and h: "sm_find (m_houses s) i = Some house"
    and room: "unat (m_nextObjectGuid s) + length (shell_rows s templateId) \<le> unat HOUSE_GO_GUID_MAX"
    and plain: "plain_frozen (shell_rows s templateId)"
  defines "out \<equiv> stamped i (m_nextObjectGuid s) 1 (shell_rows s templateId)"
    and "s' \<equiv> RebuildHouse sv i templateId s"
  shows "objects_inv s' \<and> critters_inv s'
    \<and> sm_find (m_houses s') = (sm_find (m_houses s))
        (i \<mapsto> (shell_house s templateId house)\<lparr>h_objects := map fst out, h_critters := []\<rparr>)
    \<and> sm_find (m_objects s') = (\<lambda>g. if g \<in> set (h_objects house) then None else sm_find (m_objects s) g) ++ map_of out
    \<and> sm_find (m_critters s') = (\<lambda>g. if g \<in> set (h_critters house) then None else sm_find (m_critters s) g)
    \<and> estate s' = estate s"
proof -
  let ?inst = "h_instanceId house"
  define t0 where "t0 = emptied sv i house s"
  define t1 where "t1 = (if sv_loaded sv ?inst then DespawnExitPortal sv ?inst t0 else t0)"
  let ?h0 = "house\<lparr>h_objects := [], h_critters := []\<rparr>"
  let ?h1 = "?h0\<lparr>h_exit := no_exit, h_templateId := 0\<rparr>"
  define t2 where "t2 = put_house ?h1 t1"
  note e = emptied_house [OF inv h, of sv, folded t0_def]
  have id: "h_id house = i" using objects_inv_house [OF inv(1) h] by blast
  have t1: "m_houses t1 = m_houses t0" "m_objects t1 = m_objects t0" "m_critters t1 = m_critters t0"
    "m_nextObjectGuid t1 = m_nextObjectGuid t0" "m_nextCritterGuid t1 = m_nextCritterGuid t0" "m_db t1 = m_db t0"
    by (simp_all add: t1_def DespawnExitPortal_fields)
  have h1: "sm_find (m_houses t1) i = Some ?h0" using e by (simp add: t1)
  have t2: "m_houses t2 = sm_put i ?h1 (m_houses t0)" "m_objects t2 = m_objects t0" "m_critters t2 = m_critters t0"
    "m_nextObjectGuid t2 = m_nextObjectGuid s" "m_nextCritterGuid t2 = m_nextCritterGuid t0" "m_db t2 = m_db t0"
    using e by (simp_all add: t2_def put_house_def t1 id)
  have est: "estate t2 = estate s" by (simp add: t2_def t1_def t0_def emptied_def)
  have rows0: "rows_inv o_guid o_houseId h_objects (m_houses t0) (m_objects t0) (m_nextObjectGuid t0)"
    and mir0: "mirrored t0" and low: "HOUSE_GO_GUID_MIN \<le> m_nextObjectGuid s"
    using e inv(1) unfolding objects_inv_rows_inv by blast+
  have crit0: "rows_inv c_guid c_houseId h_critters (m_houses t0) (m_critters t0) (m_nextCritterGuid t0)"
    using e by (simp add: critters_inv_def)
  have h0: "sm_find (m_houses t0) i = Some ?h0" using e by simp
  have rows2: "rows_inv o_guid o_houseId h_objects (m_houses t2) (m_objects t2) (m_nextObjectGuid t2)"
    unfolding t2(1,2) using rows_inv_keep_house [OF rows0 h0, of ?h1] e id by (simp add: t2(4))
  have "m_nextCritterGuid t0 \<noteq> 0 \<longrightarrow> sm_find (m_critters t0) = sm_find (tb_critter (m_db t0))"
    using e unfolding critters_inv_def by blast
  then have crit2: "critters_inv t2"
    using rows_inv_keep_house [OF crit0 h0, of ?h1] id unfolding critters_inv_def t2 by simp
  have h2: "sm_find (m_houses t2) i = Some ?h1" by (simp add: t2)
  have tpl2: "(if templateId \<noteq> 0 then GetTemplate t2 templateId else None) = shell_of s templateId"
    using estate_fields(6) [OF est] by (simp add: shell_of_def GetTemplate_def)
  have PC: "PurgeCritters sv i (fold (PurgeObject sv i) (h_objects house) s) = t0" by (simp add: t0_def emptied_def)
  have run: "s' = (case shell_of s templateId of
        Some tpl \<Rightarrow> StampTemplate sv i tpl t2 | None \<Rightarrow> pexec (sql_update_house_exit i no_exit 0) t2)"
    unfolding s'_def RebuildHouse_def GetHouseById_def h option.case Let_def PC t0_def [symmetric]
      t1_def [symmetric] h1
    unfolding option.case t2_def [symmetric] tpl2 ..
  show ?thesis
  proof (cases "shell_of s templateId")
    case None
    have out: "out = []" by (simp add: out_def shell_rows_def None)
    have f: "s' = pexec (sql_update_house_exit i no_exit 0) t2" using run None by simp
    have "objects_inv s'"
      using rows2 mir0 low by (simp add: objects_inv_rows_inv f pexec_def sql_update_house_exit_def mirrored_def t2)
    moreover have "critters_inv s'"
      using crit2 by (simp add: critters_inv_def f pexec_def sql_update_house_exit_def)
    moreover have "estate s' = estate s" using est by (simp add: f)
    moreover have "sm_find (m_houses s') = (sm_find (m_houses s))(i \<mapsto> (shell_house s templateId house)\<lparr>h_objects := map fst out, h_critters := []\<rparr>)"
      using e by (simp add: f pexec_def t2 out shell_house_def None fun_eq_iff)
    ultimately show ?thesis
      using e by (simp add: f pexec_def t2 out)
  next
    case (Some tpl)
    have rows: "shell_rows s templateId = t_objects tpl" by (simp add: shell_rows_def Some)
    have f: "s' = StampTemplate sv i tpl t2" using run Some by simp
    have n0: "m_nextObjectGuid t2 \<noteq> 0" using objects_inv_bounds [OF inv(1)] by (simp add: t2(4))
    have room2: "unat (m_nextObjectGuid t2) + length (t_objects tpl) \<le> unat HOUSE_GO_GUID_MAX"
      using room by (simp add: rows t2(4))
    have empty: "h_objects ?h1 = []" by simp
    note st = StampTemplate_run [OF rows2 crit2 h2 empty n0 room2, of sv, folded f]
    have out2: "stamped i (m_nextObjectGuid t2) 1 (t_objects tpl) = out" by (simp add: out_def rows t2(4))
    have cols: "map (map_prod id stamped_columns) out = out" using plain by (simp add: out_def plain_stamped)
    note st = st [unfolded out2 cols]
    have "mirrored s'" using st mir0 by (simp add: mirrored_def t2)
    moreover have "HOUSE_GO_GUID_MIN \<le> m_nextObjectGuid s'"
      using st low room2 by (simp add: t2(4) word_le_nat_alt unat_word_ariths HOUSE_GO_GUID_MAX_def unat_of_nat take_bit_eq_mod)
    ultimately have oinv: "objects_inv s'" using st unfolding objects_inv_rows_inv by blast
    have "estate s' = estate s" using est by (simp add: f)
    moreover have "sm_find (m_houses s') = (sm_find (m_houses s))(i \<mapsto> (shell_house s templateId house)\<lparr>h_objects := map fst out, h_critters := []\<rparr>)"
      using st e by (simp add: t2 shell_house_def Some fun_eq_iff)
    ultimately show ?thesis
      using oinv st e by (simp add: t2)
  qed
qed

subsection \<open>What the rest of a move leaves alone\<close>

text \<open>The part of the state the rows of houses live in.\<close>

definition rooms where
  "rooms s = ((m_houses s, m_objects s, m_critters s, m_nextObjectGuid s, m_nextCritterGuid s),
     (m_storage s, m_houseByAccount s, m_houseByInstance s, m_portals s, m_houseTemplates s, m_enabled s),
     (tb_object (m_db s), tb_critter (m_db s), tb_house (m_db s), tb_nextHouse (m_db s)))"

lemma rooms_inv:
  assumes "rooms s = rooms t"
  shows "objects_inv s = objects_inv t" and "critters_inv s = critters_inv t"
  using assms by (simp_all add: rooms_def objects_inv_rows_inv critters_inv_def mirrored_def)

lemma rooms_core: "core s = core t \<Longrightarrow> rooms s = rooms t"
  using core_fields [of s t] by (simp add: rooms_def)

lemma rooms_say [simp]: "rooms (say p msg s) = rooms s" "rooms (emit e s) = rooms s"
  by (rule rooms_core, simp)+

lemma rooms_ReportStowResult [simp]: "rooms (ReportStowResult pl stowed lost s) = rooms s"
  by (simp add: ReportStowResult_def split: option.split)

lemma rooms_RememberEntrance [simp]: "rooms (RememberEntrance p i s) = rooms s"
  by (simp add: RememberEntrance_def Let_def DropReturn_def pexec_def rooms_def sql_delete_return_def)

lemma rooms_TeachHomePortal [simp]: "rooms (fst (TeachHomePortal s p)) = rooms s"
  by (simp add: TeachHomePortal_def)

lemma rooms_ClearEdit [simp]: "rooms (ClearEdit sv p s) = rooms s"
proof -
  have "core (fold (FlashObject sv p) gs t) = core t" for gs t
    by (induction gs arbitrary: t) simp_all
  then show ?thesis by (intro rooms_core) (simp add: ClearEdit_def split: option.split)
qed

text \<open>Stowing fills the shelf and touches nothing else.\<close>

definition no_shelf :: "HouseMgr \<Rightarrow> HouseMgr" where
  "no_shelf s = s\<lparr>m_storage := [], m_db := (m_db s)\<lparr>tb_storage := []\<rparr>\<rparr>"

lemma no_shelf_fold:
  "no_shelf (fst (fold (\<lambda>g. stow_crate a (f g)) gs acc)) = no_shelf (fst acc)"
proof (induction gs arbitrary: acc)
  case (Cons g gs)
  obtain s n st l where acc: "acc = (s, n, st, l)" by (metis prod_cases4)
  have "no_shelf (fst (stow_crate a (f g) acc)) = no_shelf (fst acc)"
    by (cases "f g") (simp_all add: acc Let_def no_shelf_def put_square_def pexec_def sql_defs)
  then show ?case by (simp add: Cons.IH)
qed simp

lemma no_shelf_StowHouseFurniture: "no_shelf (fst (StowHouseFurniture s house)) = no_shelf s"
proof -
  let ?a = "h_accountId house"
  let ?acc = "fold (\<lambda>guid. stow_crate ?a (crate_of_object s guid)) (h_objects house) (open_shelf ?a s, 1, 0, 0)"
  have "fst (StowHouseFurniture s house)
      = fst (fold (\<lambda>guid. stow_crate ?a (crate_of_critter s guid)) (h_critters house) ?acc)"
    by (simp add: StowHouseFurniture_def Let_def split: prod.split)
  then show ?thesis by (simp add: no_shelf_fold) (simp add: no_shelf_def open_shelf_def)
qed

lemma stow_rooms:
  fixes s house
  defines "t \<equiv> fst (StowHouseFurniture s house)"
  shows "m_houses t = m_houses s" and "m_objects t = m_objects s" and "m_critters t = m_critters s"
    and "m_nextObjectGuid t = m_nextObjectGuid s" and "m_nextCritterGuid t = m_nextCritterGuid s"
    and "m_houseByAccount t = m_houseByAccount s" and "m_houseTemplates t = m_houseTemplates s"
    and "m_portals t = m_portals s" and "m_enabled t = m_enabled s"
    and "tb_object (m_db t) = tb_object (m_db s)" and "tb_critter (m_db t) = tb_critter (m_db s)"
    and "tb_house (m_db t) = tb_house (m_db s)"
proof -
  have eq: "no_shelf t = no_shelf s" unfolding t_def by (rule no_shelf_StowHouseFurniture)
  show "m_houses t = m_houses s" using arg_cong [OF eq, of m_houses] by (simp add: no_shelf_def)
  show "m_objects t = m_objects s" using arg_cong [OF eq, of m_objects] by (simp add: no_shelf_def)
  show "m_critters t = m_critters s" using arg_cong [OF eq, of m_critters] by (simp add: no_shelf_def)
  show "m_nextObjectGuid t = m_nextObjectGuid s"
    using arg_cong [OF eq, of m_nextObjectGuid] by (simp add: no_shelf_def)
  show "m_nextCritterGuid t = m_nextCritterGuid s"
    using arg_cong [OF eq, of m_nextCritterGuid] by (simp add: no_shelf_def)
  show "m_houseByAccount t = m_houseByAccount s"
    using arg_cong [OF eq, of m_houseByAccount] by (simp add: no_shelf_def)
  show "m_houseTemplates t = m_houseTemplates s"
    using arg_cong [OF eq, of m_houseTemplates] by (simp add: no_shelf_def)
  show "m_portals t = m_portals s" using arg_cong [OF eq, of m_portals] by (simp add: no_shelf_def)
  show "m_enabled t = m_enabled s" using arg_cong [OF eq, of m_enabled] by (simp add: no_shelf_def)
  have db: "(m_db t)\<lparr>tb_storage := []\<rparr> = (m_db s)\<lparr>tb_storage := []\<rparr>"
    using arg_cong [OF eq, of m_db] by (simp add: no_shelf_def)
  show "tb_object (m_db t) = tb_object (m_db s)" using arg_cong [OF db, of tb_object] by simp
  show "tb_critter (m_db t) = tb_critter (m_db s)" using arg_cong [OF db, of tb_critter] by simp
  show "tb_house (m_db t) = tb_house (m_db s)" using arg_cong [OF db, of tb_house] by simp
qed

text \<open>Being sent home gives the house a copy of the map when it has none.\<close>

lemma PrepareInstance_rooms:
  assumes "sm_find (m_houses s) (h_id house) = Some house"
  shows "\<exists>inst. sm_find (m_houses (fst (PrepareInstance sv house s)))
        = (sm_find (m_houses s))(h_id house \<mapsto> house\<lparr>h_instanceId := inst\<rparr>)"
    and "m_objects (fst (PrepareInstance sv house s)) = m_objects s"
    and "m_critters (fst (PrepareInstance sv house s)) = m_critters s"
    and "m_nextObjectGuid (fst (PrepareInstance sv house s)) = m_nextObjectGuid s"
    and "m_nextCritterGuid (fst (PrepareInstance sv house s)) = m_nextCritterGuid s"
    and "m_storage (fst (PrepareInstance sv house s)) = m_storage s"
    and "m_houseByAccount (fst (PrepareInstance sv house s)) = m_houseByAccount s"
    and "tb_object (m_db (fst (PrepareInstance sv house s))) = tb_object (m_db s)"
    and "tb_critter (m_db (fst (PrepareInstance sv house s))) = tb_critter (m_db s)"
proof -
  have same: "sm_find (m_houses s) = (sm_find (m_houses s))(h_id house \<mapsto> house\<lparr>h_instanceId := h_instanceId house\<rparr>)"
    using assms by (auto simp: fun_eq_iff)
  show "\<exists>inst. sm_find (m_houses (fst (PrepareInstance sv house s)))
        = (sm_find (m_houses s))(h_id house \<mapsto> house\<lparr>h_instanceId := inst\<rparr>)"
  proof (cases "m_houses (fst (PrepareInstance sv house s)) = m_houses s")
    case True
    with same show ?thesis by (intro exI [of _ "h_instanceId house"]) simp
  next
    case False
    then have "m_houses (fst (PrepareInstance sv house s))
        = sm_put (h_id house) (house\<lparr>h_instanceId := sv_newInstance sv\<rparr>) (m_houses s)"
      by (auto simp: PrepareInstance_def Let_def put_house_def pexec_def split: if_splits)
    then show ?thesis by (intro exI [of _ "sv_newInstance sv"]) (simp only: sm_update_same)
  qed
qed (simp_all add: PrepareInstance_def Let_def put_house_def pexec_def sql_defs)

lemma SendPlayerHome_rooms:
  assumes "GetHouseByAccount s (pl_account p) = Some house" and "sm_find (m_houses s) (h_id house) = Some house"
  shows "\<exists>inst. sm_find (m_houses (fst (SendPlayerHome sv s p)))
        = (sm_find (m_houses s))(h_id house \<mapsto> house\<lparr>h_instanceId := inst\<rparr>)"
    and "m_objects (fst (SendPlayerHome sv s p)) = m_objects s"
    and "m_critters (fst (SendPlayerHome sv s p)) = m_critters s"
    and "m_nextObjectGuid (fst (SendPlayerHome sv s p)) = m_nextObjectGuid s"
    and "m_nextCritterGuid (fst (SendPlayerHome sv s p)) = m_nextCritterGuid s"
    and "m_storage (fst (SendPlayerHome sv s p)) = m_storage s"
    and "m_houseByAccount (fst (SendPlayerHome sv s p)) = m_houseByAccount s"
    and "tb_object (m_db (fst (SendPlayerHome sv s p))) = tb_object (m_db s)"
    and "tb_critter (m_db (fst (SendPlayerHome sv s p))) = tb_critter (m_db s)"
proof -
  let ?t = "fst (SendPlayerHome sv s p)"
  have stay: "sm_find (m_houses s) = (sm_find (m_houses s))(h_id house \<mapsto> house\<lparr>h_instanceId := h_instanceId house\<rparr>)"
    using assms(2) by (auto simp: fun_eq_iff)
  obtain s1 h1 ok where prep: "PrepareInstance sv house s = (s1, h1, ok)" by (metis prod_cases3)
  note pr = PrepareInstance_rooms [OF assms(2), of sv, unfolded prep fst_conv]
  have "core ?t = core s \<or> core ?t = core s1"
    using assms(1) by (auto simp: SendPlayerHome_def prep teleport_to_def Let_def split: prod.split)
  then show "\<exists>inst. sm_find (m_houses ?t) = (sm_find (m_houses s))(h_id house \<mapsto> house\<lparr>h_instanceId := inst\<rparr>)"
    and "m_objects ?t = m_objects s" and "m_critters ?t = m_critters s" and "m_nextObjectGuid ?t = m_nextObjectGuid s"
    and "m_nextCritterGuid ?t = m_nextCritterGuid s" and "m_storage ?t = m_storage s"
    and "m_houseByAccount ?t = m_houseByAccount s" and "tb_object (m_db ?t) = tb_object (m_db s)"
    and "tb_critter (m_db ?t) = tb_critter (m_db s)"
    using pr stay core_fields [of ?t s] core_fields [of ?t s1] by metis+
qed

lemma SendPlayerHome_invs:
  assumes inv: "objects_inv s" "critters_inv s"
    and home: "GetHouseByAccount s (pl_account p) = Some house" "sm_find (m_houses s) (h_id house) = Some house"
  shows "objects_inv (fst (SendPlayerHome sv s p)) \<and> critters_inv (fst (SendPlayerHome sv s p))"
proof -
  let ?t = "fst (SendPlayerHome sv s p)"
  note f = SendPlayerHome_rooms [OF home, of sv]
  obtain inst where hs: "sm_find (m_houses ?t) = sm_find (sm_put (h_id house) (house\<lparr>h_instanceId := inst\<rparr>) (m_houses s))"
    using f(1) unfolding sm_update_same by blast
  have "rows_inv o_guid o_houseId h_objects (sm_put (h_id house) (house\<lparr>h_instanceId := inst\<rparr>) (m_houses s))
      (m_objects s) (m_nextObjectGuid s)"
    using inv(1) home(2) by (intro rows_inv_keep_house) (auto simp: objects_inv_rows_inv)
  moreover have "rows_inv c_guid c_houseId h_critters (sm_put (h_id house) (house\<lparr>h_instanceId := inst\<rparr>) (m_houses s))
      (m_critters s) (m_nextCritterGuid s)"
    using inv(2) home(2) by (intro rows_inv_keep_house) (auto simp: critters_inv_def)
  ultimately show ?thesis
    using inv unfolding objects_inv_rows_inv critters_inv_def rows_inv_def mirrored_def hs f(2-5,8,9) by blast
qed

subsection \<open>Moving house\<close>

lemma set_home_door_run:
  assumes "sm_find (m_houses s) i = Some house" and "h_id house = i"
  shows "m_houses (set_home_door i d s) = sm_put i (house\<lparr>h_portalId := d\<rparr>) (m_houses s)"
    and "m_objects (set_home_door i d s) = m_objects s" and "m_critters (set_home_door i d s) = m_critters s"
    and "m_nextObjectGuid (set_home_door i d s) = m_nextObjectGuid s"
    and "m_nextCritterGuid (set_home_door i d s) = m_nextCritterGuid s"
    and "tb_object (m_db (set_home_door i d s)) = tb_object (m_db s)"
    and "tb_critter (m_db (set_home_door i d s)) = tb_critter (m_db s)"
    and "m_houseByAccount (set_home_door i d s) = m_houseByAccount s"
    and "m_storage (set_home_door i d s) = m_storage s"
  using assms by (simp_all add: set_home_door_def GetHouseById_def pexec_def put_house_def sql_update_house_portal_def)

lemma invs_keep_house:
  assumes inv: "objects_inv s" "critters_inv s" and h: "sm_find (m_houses s) i = Some house"
    and same: "h_id h' = i" "h_objects h' = h_objects house" "h_critters h' = h_critters house"
    and t: "sm_find (m_houses t) = sm_find (sm_put i h' (m_houses s))"
      "m_objects t = m_objects s" "m_critters t = m_critters s" "m_nextObjectGuid t = m_nextObjectGuid s"
      "m_nextCritterGuid t = m_nextCritterGuid s" "tb_object (m_db t) = tb_object (m_db s)"
      "tb_critter (m_db t) = tb_critter (m_db s)"
  shows "objects_inv t \<and> critters_inv t"
proof -
  have "rows_inv o_guid o_houseId h_objects (m_houses s) (m_objects s) (m_nextObjectGuid s)"
    using inv(1) unfolding objects_inv_rows_inv by blast
  then have 1: "rows_inv o_guid o_houseId h_objects (sm_put i h' (m_houses s)) (m_objects s) (m_nextObjectGuid s)"
    using h same by (intro rows_inv_keep_house) simp_all
  have "rows_inv c_guid c_houseId h_critters (m_houses s) (m_critters s) (m_nextCritterGuid s)"
    using inv(2) unfolding critters_inv_def by blast
  then have 2: "rows_inv c_guid c_houseId h_critters (sm_put i h' (m_houses s)) (m_critters s) (m_nextCritterGuid s)"
    using h same by (intro rows_inv_keep_house) simp_all
  show ?thesis
    using inv 1 2 unfolding objects_inv_rows_inv critters_inv_def rows_inv_def mirrored_def t by blast
qed

lemma MoveHouseTo_run:
  fixes sv :: server and s :: HouseMgr and p :: player and portalId :: u32
  assumes inv: "objects_inv s" "critters_inv s" and on: "m_enabled s"
    and door: "GetPortal s portalId = Some door" and calm: "\<not> pl_combat p"
    and home: "GetHouseByAccount s (pl_account p) = Some house" and new: "\<not> IsHomePortal s house portalId"
    and room: "unat (m_nextObjectGuid s) + length (shell_rows s (p_templateId door)) \<le> unat HOUSE_GO_GUID_MAX"
    and plain: "plain_frozen (shell_rows s (p_templateId door))"
  shows "case MoveHouseTo sv s p portalId of (t, _, _) \<Rightarrow>
      objects_inv t \<and> critters_inv t
    \<and> (\<exists>inst. sm_find (m_houses t) = (sm_find (m_houses s))(h_id house \<mapsto>
          (shell_house s (p_templateId door) house)
            \<lparr>h_objects := map fst (stamped (h_id house) (m_nextObjectGuid s) 1 (shell_rows s (p_templateId door))),
             h_critters := [], h_portalId := portalId, h_instanceId := inst\<rparr>))
    \<and> sm_find (m_objects t) = (\<lambda>g. if g \<in> set (h_objects house) then None else sm_find (m_objects s) g)
          ++ map_of (stamped (h_id house) (m_nextObjectGuid s) 1 (shell_rows s (p_templateId door)))
    \<and> sm_find (m_critters t) = (\<lambda>g. if g \<in> set (h_critters house) then None else sm_find (m_critters s) g)
    \<and> m_storage t = m_storage (fst (StowHouseFurniture s house))"
proof -
  let ?i = "h_id house" and ?tp = "p_templateId door"
  obtain s1 stowed lost where stow: "StowHouseFurniture s house = (s1, stowed, lost)" by (metis prod_cases3)
  note sr = stow_rooms [of s house, unfolded stow fst_conv]
  obtain k where k: "sm_find (m_houseByAccount s) (pl_account p) = Some k" "sm_find (m_houses s) k = Some house"
    using home by (auto simp: GetHouseByAccount_def GetHouseById_def split: option.splits)
  have ki: "k = ?i" using objects_inv_house [OF inv(1) k(2)] by blast
  then have h: "sm_find (m_houses s) ?i = Some house" using k(2) by simp
  have rows: "shell_rows s1 ?tp = shell_rows s ?tp" "shell_house s1 ?tp = shell_house s ?tp"
    by (simp_all add: shell_rows_def shell_house_def shell_of_def GetTemplate_def sr fun_eq_iff)
  have inv1: "objects_inv s1" "critters_inv s1"
    using inv unfolding objects_inv_rows_inv critters_inv_def mirrored_def sr .
  have h1: "sm_find (m_houses s1) ?i = Some house" using h by (simp add: sr)
  define s2 where "s2 = RebuildHouse sv ?i ?tp s1"
  define out where "out = stamped ?i (m_nextObjectGuid s) 1 (shell_rows s ?tp)"
  define h2 where "h2 = (shell_house s ?tp house)\<lparr>h_objects := map fst out, h_critters := []\<rparr>"
  have run: "objects_inv s2 \<and> critters_inv s2 \<and> sm_find (m_houses s2) = (sm_find (m_houses s))(?i \<mapsto> h2)
      \<and> sm_find (m_objects s2) = (\<lambda>g. if g \<in> set (h_objects house) then None else sm_find (m_objects s) g) ++ map_of out
      \<and> sm_find (m_critters s2) = (\<lambda>g. if g \<in> set (h_critters house) then None else sm_find (m_critters s) g)
      \<and> estate s2 = estate s1"
    using RebuildHouse_run [OF inv1 h1, of ?tp sv] room plain
    unfolding rows sr s2_def [symmetric] out_def [symmetric] h2_def [symmetric] by blast
  then have inv2: "objects_inv s2" "critters_inv s2" and f2: "sm_find (m_houses s2) ?i = Some h2" by simp_all
  have id2: "h_id h2 = ?i" by (simp add: h2_def shell_house_def split: option.split)
  define s3 where "s3 = set_home_door ?i portalId s2"
  let ?h3 = "h2\<lparr>h_portalId := portalId\<rparr>"
  note d = set_home_door_run [OF f2 id2, of portalId, folded s3_def]
  define s6 where "s6 = RememberEntrance p portalId (ReportStowResult (Some p) stowed lost
      (say p ''You have moved. The new rooms are yours.'' s3))"
  have eq: "rooms s6 = rooms s3" by (simp add: s6_def)
  have inv3: "objects_inv s3 \<and> critters_inv s3"
    by (rule invs_keep_house [OF inv2 f2, where h' = ?h3]) (simp_all add: d id2)
  have inv6: "objects_inv s6" "critters_inv s6" using inv3 rooms_inv [OF eq] by simp_all
  have m6: "m_houses s6 = m_houses s3" "m_objects s6 = m_objects s3" "m_critters s6 = m_critters s3"
    "m_storage s6 = m_storage s3" "m_houseByAccount s6 = m_houseByAccount s3" using eq by (simp_all add: rooms_def)
  have est: "estate s2 = estate s1" using run by blast
  have byacc: "m_houseByAccount s6 = m_houseByAccount s" by (simp add: m6 d estate_fields [OF est] sr)
  have h6: "sm_find (m_houses s6) ?i = Some ?h3" by (simp add: m6 d)
  have acc6: "GetHouseByAccount s6 (pl_account p) = Some ?h3"
    using k(1) ki h6 by (simp only: GetHouseByAccount_def GetHouseById_def byacc option.case)
  have id3: "h_id ?h3 = ?i" by (simp add: id2)
  have move: "MoveHouseTo sv s p portalId = SendPlayerHome sv s6 p"
    using on door calm home new by (simp add: MoveHouseTo_def stow s2_def s3_def s6_def)
  note go = SendPlayerHome_rooms [OF acc6 h6 [folded id3], of sv, unfolded id3]
  note goinv = SendPlayerHome_invs [OF inv6 acc6 h6 [folded id3], of sv]
  obtain inst where inst: "sm_find (m_houses (fst (SendPlayerHome sv s6 p)))
      = (sm_find (m_houses s))(?i \<mapsto> ?h3\<lparr>h_instanceId := inst\<rparr>)"
    using go(1) run by (auto simp: m6 d fun_eq_iff)
  have sto: "m_storage (fst (SendPlayerHome sv s6 p)) = m_storage s1"
    by (simp add: go m6 d estate_fields [OF est])
  obtain t p1 r where t: "SendPlayerHome sv s6 p = (t, p1, r)" by (metis prod_cases3)
  show ?thesis
  proof -
    have "objects_inv t \<and> critters_inv t" using goinv by (simp only: t fst_conv)
    moreover have "sm_find (m_objects t) = (\<lambda>g. if g \<in> set (h_objects house) then None else sm_find (m_objects s) g) ++ map_of out"
      and "sm_find (m_critters t) = (\<lambda>g. if g \<in> set (h_critters house) then None else sm_find (m_critters s) g)"
      using run go(2,3) by (simp_all only: t fst_conv m6 d)
    moreover have "m_storage t = m_storage s1" using sto by (simp only: t fst_conv)
    moreover have "\<exists>inst. sm_find (m_houses t) = (sm_find (m_houses s))(?i \<mapsto> ?h3\<lparr>h_instanceId := inst\<rparr>)"
      using inst by (simp only: t fst_conv) blast
    ultimately show ?thesis
      unfolding move t stow fst_conv case_prod_conv out_def [symmetric] by (simp add: h2_def)
  qed
qed

text \<open>
  C22: moving house. An account with a home that picks another door outside combat gets, in the same
  house, exactly the shell of that door's template: every row it had is gone, the template's frozen
  rows stand in it under fresh ids in a row and numbered 1, 2, 3, ..., no animal lives there, the door
  is its door, the exit is the template's; the shelf is what stowing the old furniture made of it, the
  rows of every other house are as they were, and the invariants of furniture and animals hold.
\<close>

theorem move_house_gives_the_shell:
  fixes sv :: server and s :: HouseMgr and p :: player and portalId :: u32
  assumes inv: "objects_inv s" "critters_inv s" and on: "m_enabled s"
    and door: "GetPortal s portalId = Some door" and calm: "\<not> pl_combat p"
    and home: "GetHouseByAccount s (pl_account p) = Some house" and new: "\<not> IsHomePortal s house portalId"
    and room: "unat (m_nextObjectGuid s) + length (shell_rows s (p_templateId door)) \<le> unat HOUSE_GO_GUID_MAX"
    and plain: "plain_frozen (shell_rows s (p_templateId door))"
  shows "case MoveHouseTo sv s p portalId of (t, _, _) \<Rightarrow>
      objects_inv t \<and> critters_inv t
    \<and> (\<exists>inst. sm_find (m_houses t) = (sm_find (m_houses s))(h_id house \<mapsto>
          (shell_house s (p_templateId door) house)
            \<lparr>h_objects := map fst (stamped (h_id house) (m_nextObjectGuid s) 1 (shell_rows s (p_templateId door))),
             h_critters := [], h_portalId := portalId, h_instanceId := inst\<rparr>))
    \<and> sm_find (m_objects t) = (\<lambda>g. if g \<in> set (h_objects house) then None else sm_find (m_objects s) g)
          ++ map_of (stamped (h_id house) (m_nextObjectGuid s) 1 (shell_rows s (p_templateId door)))
    \<and> sm_find (m_critters t) = (\<lambda>g. if g \<in> set (h_critters house) then None else sm_find (m_critters s) g)
    \<and> m_storage t = m_storage (fst (StowHouseFurniture s house))"
  by (rule MoveHouseTo_run [OF inv on door calm home new room plain])

text \<open>The house of one chair, and a door of the template of one bench.\<close>

definition bench :: HouseObject where
  "bench = plain_object\<lparr>o_guid := 0, o_houseId := 0, o_itemEntry := 0, o_source := HOUSE_SOURCE_TEMPLATE\<rparr>"

definition loft :: HouseTemplate where
  "loft = \<lparr>t_id = 2, t_name = ''loft'', t_houseId = 9, t_exit = no_exit, t_savedAt = 0, t_objects = [bench]\<rparr>"

definition moving_mgr :: HouseMgr where
  "moving_mgr = furnished_mgr\<lparr>m_portals := [(4, one_door\<lparr>p_templateId := 2\<rparr>)], m_houseTemplates := [(2, loft)]\<rparr>"

lemma moving_inv: "objects_inv moving_mgr" "critters_inv moving_mgr"
proof -
  show "objects_inv moving_mgr"
    using furnished_inv by (simp add: moving_mgr_def objects_inv_rows_inv mirrored_def)
  show "critters_inv moving_mgr"
    unfolding critters_inv_def
    by (intro conjI rows_invI) (auto simp: moving_mgr_def furnished_mgr_def split: if_splits)
qed

lemma moving_shell: "shell_rows moving_mgr 2 = [bench]"
  by (simp add: shell_rows_def shell_of_def GetTemplate_def moving_mgr_def loft_def)

theorem move_house_gives_the_shell_witness:
  "case MoveHouseTo plain_server moving_mgr plain_player 4 of (t, _, _) \<Rightarrow>
     sm_find (m_objects t) 8000000 = None \<and> map_option o_slot (sm_find (m_objects t) 8000001) = Some 1"
proof -
  have door: "GetPortal moving_mgr 4 = Some (one_door\<lparr>p_templateId := 2\<rparr>)"
    by (simp add: GetPortal_def moving_mgr_def)
  have home: "GetHouseByAccount moving_mgr (pl_account plain_player) = Some furnished_house"
    by (simp add: GetHouseByAccount_def GetHouseById_def moving_mgr_def furnished_mgr_def)
  have new: "\<not> IsHomePortal moving_mgr furnished_house 4"
    by (simp add: IsHomePortal_def door IsHomePortalOf_def)
  have n: "m_nextObjectGuid moving_mgr = 8000001" "m_enabled moving_mgr"
    by (simp_all add: moving_mgr_def furnished_mgr_def)
  have tpl: "p_templateId (one_door\<lparr>p_templateId := 2\<rparr>) = 2" by simp
  have room: "unat (m_nextObjectGuid moving_mgr) + length (shell_rows moving_mgr 2) \<le> unat HOUSE_GO_GUID_MAX"
    by (simp add: n moving_shell HOUSE_GO_GUID_MAX_def)
  have plain: "plain_frozen (shell_rows moving_mgr 2)"
    by (simp add: moving_shell plain_frozen_def bench_def)
  have calm: "\<not> pl_combat plain_player" by simp
  note go = move_house_gives_the_shell [OF moving_inv n(2) door calm home new, unfolded tpl, OF room plain, of plain_server]
  obtain t q r where t: "MoveHouseTo plain_server moving_mgr plain_player 4 = (t, q, r)" by (metis prod_cases3)
  have "sm_find (m_objects t) = (\<lambda>g. if g \<in> set (h_objects furnished_house) then None else sm_find (m_objects moving_mgr) g)
      ++ map_of (stamped (h_id furnished_house) 8000001 1 [bench])"
    using go unfolding t case_prod_conv moving_shell n by blast
  then show ?thesis unfolding t case_prod_conv by (simp add: map_add_def)
qed

end
