(* ===== verification/HouseAuthoring.thy ===== *)
theory HouseAuthoring
  imports HouseEstates
begin

section \<open>Templates on record\<close>

text \<open>
  What a restart reads back of the templates. The frozen rows of a template have no column for the crate
  a piece came from, its group or its number; \<open>as_loaded\<close> is a template without them. \<open>templates_inv\<close>
  says that the templates in memory are those of the two tables, but for these.
\<close>

definition as_loaded :: "HouseTemplate \<Rightarrow> HouseTemplate" where
  "as_loaded t = t\<lparr>t_objects := map frozen_columns (t_objects t)\<rparr>"

definition row_template :: "(u32 \<times> HouseObject) list \<Rightarrow> u32 \<Rightarrow> TemplateRow \<Rightarrow> HouseTemplate" where
  "row_template objs i r =
     \<lparr>t_id = i, t_name = NormalizeTemplateName (tr_name r), t_houseId = tr_house r, t_exit = tr_exit r,
      t_savedAt = tr_savedAt r,
      t_objects = map (frozen_columns \<circ> snd) (filter (\<lambda>p. fst p = i) objs)\<rparr>"

definition templates_inv :: "HouseMgr \<Rightarrow> bool" where
  "templates_inv s \<longleftrightarrow>
     sm_ok (tb_template (m_db s))
     \<and> (\<forall>i. map_option as_loaded (sm_find (m_houseTemplates s) i)
          = map_option (row_template (tb_templateObject (m_db s)) i) (sm_find (tb_template (m_db s)) i))
     \<and> (\<forall>i t. sm_find (m_houseTemplates s) i = Some t \<longrightarrow> sm_find (m_templateByName s) (t_name t) = Some i)
     \<and> (\<forall>n i. sm_find (m_templateByName s) n = Some i \<longrightarrow>
          (\<exists>t. sm_find (m_houseTemplates s) i = Some t \<and> t_name t = n))
     \<and> list_all (\<lambda>p. sm_has (tb_template (m_db s)) (fst p)) (tb_templateObject (m_db s))
     \<and> (\<forall>i. sm_has (tb_template (m_db s)) i \<longrightarrow> i < tb_nextTemplate (m_db s))"

lemma templates_inv_ok: "templates_inv s \<Longrightarrow> sm_ok (tb_template (m_db s))"
  by (simp add: templates_inv_def)

lemma templates_inv_reads:
  "templates_inv s \<Longrightarrow> map_option as_loaded (sm_find (m_houseTemplates s) i)
     = map_option (row_template (tb_templateObject (m_db s)) i) (sm_find (tb_template (m_db s)) i)"
  by (simp add: templates_inv_def)

lemma templates_inv_named:
  "templates_inv s \<Longrightarrow> sm_find (m_houseTemplates s) i = Some t \<Longrightarrow> sm_find (m_templateByName s) (t_name t) = Some i"
  "templates_inv s \<Longrightarrow> sm_find (m_templateByName s) n = Some i \<Longrightarrow>
     \<exists>t. sm_find (m_houseTemplates s) i = Some t \<and> t_name t = n"
  by (simp_all add: templates_inv_def)

lemma templates_inv_below: "templates_inv s \<Longrightarrow> sm_has (tb_template (m_db s)) i \<Longrightarrow> i < tb_nextTemplate (m_db s)"
  by (simp add: templates_inv_def)

lemma as_loaded_fields [simp]:
  "t_id (as_loaded t) = t_id t" "t_name (as_loaded t) = t_name t" "t_houseId (as_loaded t) = t_houseId t"
  by (simp_all add: as_loaded_def)

lemma frozen_columns_twice [simp]: "frozen_columns (frozen_columns ob) = frozen_columns ob"
  by (simp add: frozen_columns_def)

lemma frozen_columns_now [simp]: "frozen_columns (frozen_now ob) = frozen_columns ob"
  by (simp add: frozen_columns_def frozen_now_def)

lemma lower_char_twice [simp]: "lower_char (lower_char c) = lower_char c"
proof (cases "IsUpperAscii c")
  case True
  then have "\<not> IsUpperAscii (char_of (of_char c + (32 :: nat)))"
    by (auto simp: IsUpperAscii_def less_eq_char_def of_char_of)
  then show ?thesis using True by (simp add: lower_char_def)
qed (simp add: lower_char_def)

lemma NormalizeTemplateName_twice [simp]:
  "NormalizeTemplateName (NormalizeTemplateName n) = NormalizeTemplateName n"
  by (simp add: NormalizeTemplateName_def)

subsection \<open>What loading reads\<close>

lemma load_rows_run:
  assumes "distinct (map fst rows)"
  shows "sm_find (m_houseTemplates (fold load_template_row rows s)) i =
      (case map_of rows i of Some r \<Rightarrow> Some (row_template [] i r) | None \<Rightarrow> sm_find (m_houseTemplates s) i)
    \<and> m_db (fold load_template_row rows s) = m_db s"
  using assms
proof (induction rows arbitrary: s)
  case (Cons p rows)
  obtain j r where p: "p = (j, r)" by (cases p)
  have step: "sm_find (m_houseTemplates (load_template_row p s)) i
      = (if i = j then Some (row_template [] j r) else sm_find (m_houseTemplates s) i)"
    and db: "m_db (load_template_row p s) = m_db s"
    by (simp_all add: p load_template_row_def row_template_def Let_def put_house_def split: option.split)
  have "map_of rows j = None" using Cons.prems p by (simp add: map_of_eq_None_iff)
  then show ?case
    using Cons.IH [of "load_template_row p s"] Cons.prems step db by (auto simp: p split: option.split)
qed simp

lemma load_objects_run:
  "sm_find (m_houseTemplates (fold load_template_object objs s)) i =
     map_option (\<lambda>t. t\<lparr>t_objects := t_objects t @ map (frozen_columns \<circ> snd) (filter (\<lambda>p. fst p = i) objs)\<rparr>)
       (sm_find (m_houseTemplates s) i)"
proof (induction objs arbitrary: s)
  case Nil
  then show ?case by (cases "sm_find (m_houseTemplates s) i") simp_all
next
  case (Cons p objs)
  have step: "sm_find (m_houseTemplates (load_template_object p s)) i =
      map_option (\<lambda>t. if fst p = i then t\<lparr>t_objects := t_objects t @ [frozen_columns (snd p)]\<rparr> else t)
        (sm_find (m_houseTemplates s) i)"
    by (cases "sm_find (m_houseTemplates s) (fst p)"; cases "sm_find (m_houseTemplates s) i")
       (auto simp: load_template_object_def)
  show ?case
    unfolding fold_simps comp_apply Cons.IH step by (cases "sm_find (m_houseTemplates s) i") simp_all
qed

lemma LoadTemplates_run:
  assumes "sm_ok (tb_template (m_db s))"
  shows "sm_find (m_houseTemplates (LoadTemplates s)) i =
    map_option (row_template (tb_templateObject (m_db s)) i) (sm_find (tb_template (m_db s)) i)"
proof -
  let ?s = "s\<lparr>m_houseTemplates := [], m_templateByName := []\<rparr>"
  note rows = load_rows_run [OF sm_ok_distinct [OF assms], of ?s i]
  show ?thesis
    using rows by (cases "sm_find (tb_template (m_db s)) i")
      (simp_all add: LoadTemplates_def Let_def load_objects_run row_template_def)
qed

corollary LoadTemplates_reads:
  "templates_inv s \<Longrightarrow>
   sm_find (m_houseTemplates (LoadTemplates s)) i = map_option as_loaded (sm_find (m_houseTemplates s) i)"
  by (simp add: LoadTemplates_run templates_inv_ok templates_inv_reads)

subsection \<open>Steps that leave the templates alone\<close>

definition drafts where
  "drafts s = (m_houseTemplates s, m_templateByName s,
     (tb_template (m_db s), tb_templateObject (m_db s), tb_nextTemplate (m_db s)))"

lemma drafts_inv: "drafts s = drafts t \<Longrightarrow> templates_inv s = templates_inv t"
  by (simp add: drafts_def templates_inv_def)

lemma drafts_steps [simp]:
  "drafts (put_house h s) = drafts s" "drafts (emit e s) = drafts s" "drafts (say p msg s) = drafts s"
  "drafts (s\<lparr>m_objects := a\<rparr>) = drafts s" "drafts (s\<lparr>m_houses := b\<rparr>) = drafts s"
  "drafts (s\<lparr>m_houseByAccount := c\<rparr>) = drafts s" "drafts (s\<lparr>m_houseByInstance := d\<rparr>) = drafts s"
  "drafts (s\<lparr>m_exitPortals := e'\<rparr>) = drafts s" "drafts (s\<lparr>m_selected := f\<rparr>) = drafts s"
  "drafts (pexec (sql_delete_object g) s) = drafts s" "drafts (pexec (sql_insert_house k) s) = drafts s"
  "drafts (pexec (sql_delete_house i) s) = drafts s" "drafts (pexec (sql_delete_instance i) s) = drafts s"
  "drafts (pexec (sql_replace_instance i n) s) = drafts s"
  "drafts (pexec (sql_update_house_instance i j) s) = drafts s"
  by (simp_all add: drafts_def put_house_def emit_def say_def pexec_def sql_defs)

lemma drafts_core: "core s = core t \<Longrightarrow> drafts s = drafts t"
  using core_fields [of s t] by (simp add: drafts_def)

lemma drafts_PurgeObject [simp]: "drafts (PurgeObject sv i g s) = drafts s"
proof -
  have "estate (PurgeObject sv i g s) = estate s" by simp
  from arg_cong [OF this, of m_houseTemplates] arg_cong [OF this, of m_templateByName]
    arg_cong [OF arg_cong [OF this, of m_db], of tb_template]
    arg_cong [OF arg_cong [OF this, of m_db], of tb_templateObject]
    arg_cong [OF arg_cong [OF this, of m_db], of tb_nextTemplate]
  show ?thesis by (simp add: drafts_def estate_def core_def)
qed

lemma drafts_folds [simp]:
  "drafts (fold (PurgeObject sv i) gs s) = drafts s"
  "drafts (fold (sweep_template inst) ps s) = drafts s"
proof -
  show "drafts (fold (PurgeObject sv i) gs s) = drafts s" by (induction gs arbitrary: s) simp_all
  show "drafts (fold (sweep_template inst) ps s) = drafts s"
    by (induction ps arbitrary: s) (simp_all add: sweep_template_def)
qed

lemma drafts_DespawnExitPortal [simp]: "drafts (DespawnExitPortal sv i s) = drafts s"
  by (simp add: DespawnExitPortal_def Let_def split: option.split)

lemma drafts_drop_template_house [simp]: "drafts (drop_template_house sv house s) = drafts s"
  by (simp add: drop_template_house_def Let_def)

lemma drafts_PrepareInstance [simp]: "drafts (fst (PrepareInstance sv house s)) = drafts s"
  by (simp add: PrepareInstance_def Let_def)

lemma drafts_CreateHouse [simp]: "drafts (fst (CreateHouse a s)) = drafts s"
  by (simp add: CreateHouse_def Let_def split: option.split)

lemma drafts_GotoTemplate [simp]: "drafts (fst (GotoTemplate sv s dev i)) = drafts s"
proof -
  have "drafts s1 = drafts s" if "PrepareInstance sv house s = (s1, h1, ok)" for house s1 h1 ok
    using drafts_PrepareInstance [of sv house s] that by simp
  then show ?thesis
    by (auto simp: GotoTemplate_def Let_def teleport_to_def split: option.split prod.split)
qed

subsection \<open>The three authoring operations\<close>

lemma fold_insert_template_objects:
  "m_db (fold (\<lambda>ob. pexec (sql_insert_template_object i (frozen_columns ob))) obs s)
     = (m_db s)\<lparr>tb_templateObject := tb_templateObject (m_db s) @ map (\<lambda>ob. (i, frozen_columns ob)) obs\<rparr>
   \<and> m_houseTemplates (fold (\<lambda>ob. pexec (sql_insert_template_object i (frozen_columns ob))) obs s) = m_houseTemplates s
   \<and> m_templateByName (fold (\<lambda>ob. pexec (sql_insert_template_object i (frozen_columns ob))) obs s) = m_templateByName s"
  by (induction obs arbitrary: s) (simp_all add: pexec_def sql_insert_template_object_def)

lemma SaveTemplate_inv:
  assumes inv: "templates_inv s"
  shows "templates_inv (fst (SaveTemplate sv s dev))"
proof (cases "fst (SaveTemplate sv s dev) = s")
  case False
  then obtain house tpl where h: "GetHouseAt s (Some dev) = Some house" "h_authorsTemplate house \<noteq> 0"
    and tpl: "sm_find (m_houseTemplates s) (h_authorsTemplate house) = Some tpl"
    by (auto simp: SaveTemplate_def GetTemplate_def split: option.splits if_splits)
  let ?i = "h_authorsTemplate house"
  let ?rows = "List.map_filter (sm_find (m_objects s)) (h_objects house)"
  let ?tpl = "tpl\<lparr>t_objects := map frozen_now ?rows, t_exit := h_exit house, t_savedAt := sv_now sv\<rparr>"
  let ?t = "fst (SaveTemplate sv s dev)"
  have reads: "map_option as_loaded (Some tpl)
      = map_option (row_template (tb_templateObject (m_db s)) ?i) (sm_find (tb_template (m_db s)) ?i)"
    using templates_inv_reads [OF inv, of ?i] tpl by simp
  then obtain r where r: "sm_find (tb_template (m_db s)) ?i = Some r"
    and row: "as_loaded tpl = row_template (tb_templateObject (m_db s)) ?i r"
    by (cases "sm_find (tb_template (m_db s)) ?i") auto
  have fields: "t_id tpl = ?i" "t_name tpl = NormalizeTemplateName (tr_name r)" "t_houseId tpl = tr_house r"
    using arg_cong [OF row, of t_id] arg_cong [OF row, of t_name] arg_cong [OF row, of t_houseId]
    by (simp_all add: as_loaded_def row_template_def)
  have f: "m_houseTemplates ?t = sm_put ?i ?tpl (m_houseTemplates s)" "m_templateByName ?t = m_templateByName s"
    "tb_template (m_db ?t)
      = sm_update ?i (\<lambda>r. r\<lparr>tr_exit := h_exit house, tr_savedAt := sv_now sv\<rparr>) (tb_template (m_db s))"
    "tb_templateObject (m_db ?t) = filter (\<lambda>p. fst p \<noteq> ?i) (tb_templateObject (m_db s))
       @ map (\<lambda>ob. (?i, frozen_columns ob)) ?rows"
    "tb_nextTemplate (m_db ?t) = tb_nextTemplate (m_db s)"
    using h tpl by (simp_all add: SaveTemplate_def GetTemplate_def Let_def fold_insert_template_objects pexec_def
        sql_update_template_saved_def sql_delete_template_objects_def fields)
  have has: "sm_has (tb_template (m_db ?t)) j = sm_has (tb_template (m_db s)) j" for j
    by (simp add: f sm_has_def)
  show ?thesis
    unfolding templates_inv_def has f(5)
  proof (intro conjI)
    show "sm_ok (tb_template (m_db ?t))"
      using templates_inv_ok [OF inv] by (simp add: f sm_update_def split: option.split)
    show "\<forall>j. map_option as_loaded (sm_find (m_houseTemplates ?t) j)
        = map_option (row_template (tb_templateObject (m_db ?t)) j) (sm_find (tb_template (m_db ?t)) j)"
    proof
      fix j
      show "map_option as_loaded (sm_find (m_houseTemplates ?t) j)
        = map_option (row_template (tb_templateObject (m_db ?t)) j) (sm_find (tb_template (m_db ?t)) j)"
      proof (cases "j = ?i")
        case True
        then show ?thesis
          by (simp add: f r fields as_loaded_def row_template_def filter_False comp_def filter_map)
      next
        case False
        then have "row_template (tb_templateObject (m_db ?t)) j = row_template (tb_templateObject (m_db s)) j"
          by (auto simp: f(4) row_template_def fun_eq_iff filter_map comp_def intro!: filter_cong arg_cong [of _ _ "map _"])
        then show ?thesis
          using templates_inv_reads [OF inv, of j] False by (simp add: f(1,3))
      qed
    qed
    show "\<forall>j t. sm_find (m_houseTemplates ?t) j = Some t \<longrightarrow> sm_find (m_templateByName ?t) (t_name t) = Some j"
      using templates_inv_named(1) [OF inv] tpl by (auto simp: f)
    show "\<forall>n j. sm_find (m_templateByName ?t) n = Some j \<longrightarrow>
        (\<exists>t. sm_find (m_houseTemplates ?t) j = Some t \<and> t_name t = n)"
      using templates_inv_named(2) [OF inv] tpl by (fastforce simp: f)
    show "list_all (\<lambda>p. sm_has (tb_template (m_db s)) (fst p)) (tb_templateObject (m_db ?t))"
      using inv r by (auto simp: templates_inv_def f list_all_iff sm_has_def)
    show "\<forall>j. sm_has (tb_template (m_db s)) j \<longrightarrow> j < tb_nextTemplate (m_db s)"
      using inv by (simp add: templates_inv_def)
  qed
qed (use inv in simp)

lemma templates_inv_drop:
  assumes inv: "templates_inv s" and i: "sm_find (m_houseTemplates s) i = Some tpl"
    and f: "m_houseTemplates t = sm_erase i (m_houseTemplates s)"
      "m_templateByName t = sm_erase (t_name tpl) (m_templateByName s)"
      "tb_template (m_db t) = sm_erase i (tb_template (m_db s))"
      "tb_templateObject (m_db t) = filter (\<lambda>p. fst p \<noteq> i) (tb_templateObject (m_db s))"
      "tb_nextTemplate (m_db t) = tb_nextTemplate (m_db s)"
  shows "templates_inv t"
  unfolding templates_inv_def
proof (intro conjI)
  show "sm_ok (tb_template (m_db t))" using templates_inv_ok [OF inv] by (simp add: f)
  show "\<forall>j. map_option as_loaded (sm_find (m_houseTemplates t) j)
      = map_option (row_template (tb_templateObject (m_db t)) j) (sm_find (tb_template (m_db t)) j)"
  proof
    fix j
    have "row_template (tb_templateObject (m_db t)) j = row_template (tb_templateObject (m_db s)) j" if "j \<noteq> i"
      using that by (auto simp: f row_template_def fun_eq_iff intro!: filter_cong arg_cong [of _ _ "map _"])
    then show "map_option as_loaded (sm_find (m_houseTemplates t) j)
        = map_option (row_template (tb_templateObject (m_db t)) j) (sm_find (tb_template (m_db t)) j)"
      using templates_inv_reads [OF inv, of j] by (cases "j = i") (simp_all add: f(1,3))
  qed
  show "\<forall>j u. sm_find (m_houseTemplates t) j = Some u \<longrightarrow> sm_find (m_templateByName t) (t_name u) = Some j"
    using templates_inv_named(1) [OF inv] i by (simp add: f) (metis option.inject)
  show "\<forall>n j. sm_find (m_templateByName t) n = Some j \<longrightarrow>
      (\<exists>u. sm_find (m_houseTemplates t) j = Some u \<and> t_name u = n)"
  proof (intro allI impI)
    fix n j
    assume n: "sm_find (m_templateByName t) n = Some j"
    then have "n \<noteq> t_name tpl" "sm_find (m_templateByName s) n = Some j" by (auto simp: f split: if_splits)
    with templates_inv_named(2) [OF inv this(2)] i
    show "\<exists>u. sm_find (m_houseTemplates t) j = Some u \<and> t_name u = n" by (auto simp: f)
  qed
  show "list_all (\<lambda>p. sm_has (tb_template (m_db t)) (fst p)) (tb_templateObject (m_db t))"
    using inv by (auto simp: templates_inv_def f list_all_iff)
  show "\<forall>j. sm_has (tb_template (m_db t)) j \<longrightarrow> j < tb_nextTemplate (m_db t)"
    using inv by (auto simp: templates_inv_def f)
qed

lemma DeleteTemplate_inv:
  assumes inv: "templates_inv s"
  shows "templates_inv (fst (DeleteTemplate sv s dev i))"
proof (cases "fst (DeleteTemplate sv s dev i) = s")
  case False
  let ?t = "fst (DeleteTemplate sv s dev i)"
  obtain tpl s1 where tpl: "sm_find (m_houseTemplates s) i = Some tpl" and d: "drafts s1 = drafts s"
    and t: "?t = (let s3 = pexec (sql_delete_template_row i) (pexec (sql_delete_template_objects i) s1)
        in s3\<lparr>m_templateByName := sm_erase (t_name tpl) (m_templateByName s3),
              m_houseTemplates := sm_erase i (m_houseTemplates s3)\<rparr>)"
  proof -
    from False obtain tpl where tpl: "sm_find (m_houseTemplates s) i = Some tpl"
      by (auto simp: DeleteTemplate_def GetTemplate_def split: option.splits)
    let ?s1 = "case GetHouseById s (t_houseId tpl) of None \<Rightarrow> s | Some h \<Rightarrow> drop_template_house sv h s"
    have "drafts ?s1 = drafts s" by (simp split: option.split)
    moreover have "?t = (let s3 = pexec (sql_delete_template_row i) (pexec (sql_delete_template_objects i) ?s1)
        in s3\<lparr>m_templateByName := sm_erase (t_name tpl) (m_templateByName s3),
              m_houseTemplates := sm_erase i (m_houseTemplates s3)\<rparr>)"
      using False tpl by (auto simp: DeleteTemplate_def GetTemplate_def Let_def split: if_splits)
    ultimately show ?thesis using that tpl by blast
  qed
  show ?thesis
    by (rule templates_inv_drop [OF inv tpl])
       (use d in \<open>simp_all add: t Let_def pexec_def drafts_def sql_delete_template_row_def sql_delete_template_objects_def\<close>)
qed (use inv in simp)

text \<open>A name not yet taken gets the next id, and no row of either table is under it.\<close>

lemma templates_inv_unused:
  assumes inv: "templates_inv s" and new: "\<not> sm_has (m_templateByName s) name"
    and low: "NormalizeTemplateName name = name"
  shows "\<not> (\<exists>r \<in> set (tb_template (m_db s)). tr_name (snd r) = name)"
proof
  assume "\<exists>r \<in> set (tb_template (m_db s)). tr_name (snd r) = name"
  then obtain j r where "(j, r) \<in> set (tb_template (m_db s))" and name: "tr_name r = name" by auto
  then have "sm_find (tb_template (m_db s)) j = Some r" using templates_inv_ok [OF inv] by (simp add: sm_find_in)
  with templates_inv_reads [OF inv, of j] obtain t where "sm_find (m_houseTemplates s) j = Some t"
    and row: "as_loaded t = row_template (tb_templateObject (m_db s)) j r" by auto
  moreover have "t_name t = name"
    using arg_cong [OF row, of t_name] name low by (simp add: row_template_def)
  ultimately show False using templates_inv_named(1) [OF inv, of j t] new by (simp add: sm_has_def)
qed

lemma templates_inv_next:
  assumes inv: "templates_inv s"
  defines "n \<equiv> tb_nextTemplate (m_db s)"
  shows "sm_find (tb_template (m_db s)) n = None" and "sm_find (m_houseTemplates s) n = None"
    and "filter (\<lambda>p. fst p = n) (tb_templateObject (m_db s)) = []"
proof -
  have "\<not> sm_has (tb_template (m_db s)) n" using inv by (auto simp: templates_inv_def n_def)
  then show tb: "sm_find (tb_template (m_db s)) n = None" by (simp add: sm_has_def)
  show "sm_find (m_houseTemplates s) n = None" using templates_inv_reads [OF inv, of n] tb by simp
  show "filter (\<lambda>p. fst p = n) (tb_templateObject (m_db s)) = []"
    using inv tb by (auto simp: templates_inv_def list_all_iff sm_has_def filter_empty_conv)
qed

lemma templates_inv_waste:
  assumes inv: "templates_inv s" and room: "tb_nextTemplate (m_db s) < tb_nextTemplate (m_db s) + 1"
    and f: "m_houseTemplates t = m_houseTemplates s" "m_templateByName t = m_templateByName s"
      "tb_template (m_db t) = sm_erase n (sm_put n r (tb_template (m_db s)))" "n = tb_nextTemplate (m_db s)"
      "tb_templateObject (m_db t) = tb_templateObject (m_db s)"
      "tb_nextTemplate (m_db t) = n + 1"
  shows "templates_inv t"
proof -
  have tb: "sm_find (tb_template (m_db t)) j = sm_find (tb_template (m_db s)) j" for j
    using templates_inv_next(1) [OF inv] by (simp add: f)
  have has: "sm_has (tb_template (m_db t)) j = sm_has (tb_template (m_db s)) j" for j by (simp add: sm_has_def tb)
  have ok: "sm_ok (tb_template (m_db t))" using templates_inv_ok [OF inv] by (simp add: f)
  show ?thesis
    using inv room ok unfolding templates_inv_def f(1,2,5,6) has tb f(4) by (meson order_less_trans)
qed

lemma templates_inv_add:
  assumes inv: "templates_inv s" and room: "tb_nextTemplate (m_db s) < tb_nextTemplate (m_db s) + 1"
    and new: "\<not> sm_has (m_templateByName s) name" and low: "NormalizeTemplateName name = name"
    and n: "n = tb_nextTemplate (m_db s)"
    and f: "m_houseTemplates t = sm_put n \<lparr>t_id = n, t_name = name, t_houseId = k, t_exit = no_exit,
         t_savedAt = 0, t_objects = []\<rparr> (m_houseTemplates s)"
      "m_templateByName t = sm_put name n (m_templateByName s)"
      "tb_template (m_db t) = sm_put n \<lparr>tr_name = name, tr_house = k, tr_exit = no_exit, tr_savedAt = 0\<rparr> (tb_template (m_db s))"
      "tb_templateObject (m_db t) = tb_templateObject (m_db s)" "tb_nextTemplate (m_db t) = n + 1"
  shows "templates_inv t"
  unfolding templates_inv_def f(4,5)
proof (intro conjI)
  note free = templates_inv_next [OF inv, folded n]
  show "sm_ok (tb_template (m_db t))" using templates_inv_ok [OF inv] by (simp add: f)
  show "\<forall>j. map_option as_loaded (sm_find (m_houseTemplates t) j)
      = map_option (row_template (tb_templateObject (m_db s)) j) (sm_find (tb_template (m_db t)) j)"
    using templates_inv_reads [OF inv] free low by (simp add: f as_loaded_def row_template_def)
  show "\<forall>j u. sm_find (m_houseTemplates t) j = Some u \<longrightarrow> sm_find (m_templateByName t) (t_name u) = Some j"
    using templates_inv_named(1) [OF inv] new by (auto simp: f sm_has_def)
  show "\<forall>m j. sm_find (m_templateByName t) m = Some j \<longrightarrow>
      (\<exists>u. sm_find (m_houseTemplates t) j = Some u \<and> t_name u = m)"
  proof (intro allI impI)
    fix m j
    assume m: "sm_find (m_templateByName t) m = Some j"
    show "\<exists>u. sm_find (m_houseTemplates t) j = Some u \<and> t_name u = m"
    proof (cases "m = name")
      case False
      then have "sm_find (m_templateByName s) m = Some j" using m by (simp add: f)
      from templates_inv_named(2) [OF inv this] free(2) show ?thesis by (auto simp: f)
    qed (use m in \<open>simp add: f\<close>)
  qed
  have "list_all (\<lambda>p. sm_has (tb_template (m_db s)) (fst p)) (tb_templateObject (m_db s))"
    using inv by (simp add: templates_inv_def)
  then show "list_all (\<lambda>p. sm_has (tb_template (m_db t)) (fst p)) (tb_templateObject (m_db s))"
    by (rule list.pred_mono_strong) (simp add: f(3))
  show "\<forall>j. sm_has (tb_template (m_db t)) j \<longrightarrow> j < n + 1"
    using templates_inv_below [OF inv] room [folded n] order_less_trans [OF _ room [folded n]]
    by (auto simp: f(3) n [symmetric])
qed

lemma sm_put_twice: "sm_put k v (sm_put k w m) = sm_put k v m"
  by (induction m) auto

lemma find_sm_put:
  assumes "\<not> (\<exists>p \<in> set m. P (snd p))" and "P v" and "sm_find m k = None"
  shows "find (\<lambda>p. P (snd p)) (sm_put k v m) = Some (k, v)"
  using assms
proof (induction m)
  case (Cons p m)
  then show ?case by (cases "k = fst p"; cases "P (snd p)") auto
qed simp

lemma CreateTemplate_inv:
  assumes inv: "templates_inv s" and room: "tb_nextTemplate (m_db s) < tb_nextTemplate (m_db s) + 1"
    and start: "0 < tb_nextTemplate (m_db s)"
  shows "templates_inv (fst (CreateTemplate sv s dev raw))"
proof (cases "fst (CreateTemplate sv s dev raw) = s")
  case False
  let ?name = "NormalizeTemplateName raw" and ?n = "tb_nextTemplate (m_db s)"
  let ?t = "fst (CreateTemplate sv s dev raw)" and ?s1 = "pexec (sql_insert_template (NormalizeTemplateName raw)) s"
  let ?r = "\<lparr>tr_name = ?name, tr_house = 0, tr_exit = no_exit, tr_savedAt = 0\<rparr>"
  have new: "\<not> sm_has (m_templateByName s) ?name"
    using False by (auto simp: CreateTemplate_def Let_def split: if_splits)
  note unused = templates_inv_unused [OF inv new NormalizeTemplateName_twice]
  have s1: "m_db ?s1 = (m_db s)\<lparr>tb_template := sm_put ?n ?r (tb_template (m_db s)), tb_nextTemplate := ?n + 1\<rparr>"
    using unused by (auto simp: pexec_def sql_insert_template_def)
  have found: "find (\<lambda>r. tr_name (snd r) = ?name) (tb_template (m_db ?s1)) = Some (?n, ?r)"
    using find_sm_put [of "tb_template (m_db s)" "\<lambda>r. tr_name r = ?name" ?r ?n] unused templates_inv_next(1) [OF inv]
    by (simp add: s1)
  let ?s2 = "fst (CreateHouse (HOUSE_TEMPLATE_ACCOUNT_MAX - ?n) ?s1)"
  have d: "drafts ?s2 = drafts ?s1" by simp
  consider (full) "?t = pexec (sql_delete_template_row ?n) ?s1"
    | (none) "?t = pexec (sql_delete_template_row ?n) ?s2"
    | (some) k dev' house where "?t = fst (GotoTemplate sv (put_house house
          (let s3 = pexec (sql_update_template_house ?n k) ?s2
           in s3\<lparr>m_houseTemplates := sm_put ?n \<lparr>t_id = ?n, t_name = ?name, t_houseId = k, t_exit = no_exit,
                   t_savedAt = 0, t_objects = []\<rparr> (m_houseTemplates s3),
                 m_templateByName := sm_put ?name ?n (m_templateByName s3)\<rparr>)) dev' ?n)"
    using False new start found
    by (simp add: CreateTemplate_def Let_def split: if_splits option.splits prod.splits)
  then show ?thesis
  proof cases
    case full
    show ?thesis
      by (rule templates_inv_waste [OF inv room, where n = ?n and r = ?r])
         (simp_all add: full pexec_def sql_delete_template_row_def s1 [unfolded pexec_def, simplified])
  next
    case none
    show ?thesis
      by (rule templates_inv_waste [OF inv room, where n = ?n and r = ?r])
         (use d in \<open>simp_all add: none pexec_def sql_delete_template_row_def drafts_def s1 [unfolded pexec_def, simplified]\<close>)
  next
    case some
    let ?u = "let s3 = pexec (sql_update_template_house ?n k) ?s2
           in s3\<lparr>m_houseTemplates := sm_put ?n \<lparr>t_id = ?n, t_name = ?name, t_houseId = k, t_exit = no_exit,
                   t_savedAt = 0, t_objects = []\<rparr> (m_houseTemplates s3),
                 m_templateByName := sm_put ?name ?n (m_templateByName s3)\<rparr>"
    have "templates_inv ?u"
      by (rule templates_inv_add [OF inv room new NormalizeTemplateName_twice, of ?n _ k])
         (use d in \<open>simp_all add: Let_def pexec_def sql_update_template_house_def sm_update_def drafts_def sm_put_twice
            s1 [unfolded pexec_def, simplified]\<close>)
    then show ?thesis using drafts_inv [of ?t ?u] by (simp add: some)
  qed
qed (use inv in simp)

lemma core_sweep [simp]: "core (fold (sweep_template inst) ps s) = core s"
  by (induction ps arbitrary: s) (simp_all add: sweep_template_def)

lemma drop_template_house_run:
  fixes sv :: server and s :: HouseMgr and house :: House and i :: u32
  assumes inv: "objects_inv s" "critters_inv s" and h: "sm_find (m_houses s) i = Some house"
  defines "t \<equiv> drop_template_house sv house s"
  shows "objects_inv t \<and> m_critters t = m_critters s \<and> m_portals t = m_portals s
    \<and> sm_find (m_houses t) = (sm_find (m_houses s))(i := None)
    \<and> sm_find (m_objects t) = (\<lambda>g. if g \<in> set (h_objects house) then None else sm_find (m_objects s) g)"
proof -
  have id: "h_id house = i" and dist: "distinct (h_objects house)" using objects_inv_house [OF inv(1) h] by blast+
  define s1 where "s1 = fold (sweep_template (h_instanceId house)) (sv_players sv) s"
  have c1: "core s1 = core s" by (simp add: s1_def)
  note f1 = core_fields [OF c1]
  have inv1: "objects_inv s1" "critters_inv s1" using objects_inv_core [OF inv(1) c1] critters_inv_core [OF inv(2) c1] .
  have h1: "sm_find (m_houses s1) i = Some house" using h by (simp add: f1)
  define s2 where "s2 = fold (PurgeObject sv i) (h_objects house) s1"
  note p = purge_all [OF inv1 h1 subset_refl dist, of sv, folded s2_def]
  have est: "estate s2 = estate s1" by (simp add: s2_def)
  let ?inst = "h_instanceId house"
  define s3 where "s3 = (if sv_loaded sv ?inst then DespawnExitPortal sv ?inst s2 else s2)"
  have s3: "m_houses s3 = m_houses s2" "m_objects s3 = m_objects s2" "m_critters s3 = m_critters s2"
    "m_nextObjectGuid s3 = m_nextObjectGuid s2" "m_db s3 = m_db s2" "m_portals s3 = m_portals s2"
    by (simp_all add: s3_def DespawnExitPortal_fields) (simp add: DespawnExitPortal_def Let_def split: option.split)
  have t: "m_houses t = sm_erase i (m_houses s3)" "m_objects t = m_objects s3" "m_critters t = m_critters s3"
    "m_nextObjectGuid t = m_nextObjectGuid s3" "tb_object (m_db t) = tb_object (m_db s3)" "m_portals t = m_portals s3"
    unfolding t_def drop_template_house_def Let_def id s1_def [symmetric] s2_def [symmetric] s3_def [symmetric]
    by (simp_all add: pexec_def sql_delete_instance_def sql_delete_house_def)
  have rows: "rows_inv o_guid o_houseId h_objects (m_houses s2) (m_objects s2) (m_nextObjectGuid s2)"
    and mir: "mirrored s2" and low: "HOUSE_GO_GUID_MIN \<le> m_nextObjectGuid s2"
    using p unfolding objects_inv_rows_inv by blast+
  have h2: "sm_find (m_houses s2) i = Some (house\<lparr>h_objects := []\<rparr>)" using p by simp
  have "rows_inv o_guid o_houseId h_objects (m_houses t) (m_objects t) (m_nextObjectGuid t)"
    unfolding t s3 by (rule rows_inv_lose_house [OF rows h2]) simp
  moreover have "mirrored t" using mir by (simp add: mirrored_def t s3)
  ultimately have "objects_inv t" using low unfolding objects_inv_rows_inv t s3 by blast
  moreover have "m_portals t = m_portals s" by (simp add: t s3 estate_fields [OF est] f1)
  moreover have "sm_find (m_houses t) = (sm_find (m_houses s))(i := None)"
    using p by (simp add: t s3 fun_eq_iff f1)
  moreover have "m_critters t = m_critters s" using p by (simp add: t s3 f1)
  moreover have "sm_find (m_objects t) = (\<lambda>g. if g \<in> set (h_objects house) then None else sm_find (m_objects s) g)"
    using p unfolding t s3 f1 by blast
  ultimately show ?thesis by blast
qed

text \<open>A deletion that goes through, step by step.\<close>

lemma DeleteTemplate_cases:
  assumes "DeleteTemplate sv s dev i = (t, people, r)"
  obtains (refused) e where "r = Inl e" "t = s" "people = sv_players sv"
  | (deleted) tpl s1 where "r = Inr ()" "GetTemplate s i = Some tpl"
      "filter (\<lambda>p. p_templateId p = i) (GetPortals s) = []"
      "s1 = (case GetHouseById s (t_houseId tpl) of None \<Rightarrow> s | Some h \<Rightarrow> drop_template_house sv h s)"
      "people = (case GetHouseById s (t_houseId tpl) of None \<Rightarrow> sv_players sv
         | Some h \<Rightarrow> map (\<lambda>p. if swept_out (h_instanceId h) p then p\<lparr>pl_forced := 0\<rparr> else p) (sv_players sv))"
      "t = (let s3 = pexec (sql_delete_template_row i) (pexec (sql_delete_template_objects i) s1)
        in s3\<lparr>m_templateByName := sm_erase (t_name tpl) (m_templateByName s3),
              m_houseTemplates := sm_erase i (m_houseTemplates s3)\<rparr>)"
proof (cases "GetTemplate s i")
  case None
  then show thesis using assms by (auto simp: DeleteTemplate_def intro: refused)
next
  case (Some tpl)
  show thesis
  proof (cases "filter (\<lambda>p. p_templateId p = i) (GetPortals s) = []
      \<and> \<not> (GetHouseById s (t_houseId tpl) \<noteq> None
           \<and> map_option h_id (GetHouseAt s (Some dev)) = map_option h_id (GetHouseById s (t_houseId tpl)))")
    case True
    then show thesis
      using assms Some deleted [OF _ Some] by (simp only: DeleteTemplate_def option.case Let_def prod.inject) simp
  next
    case False
    then show thesis
      using assms Some by (auto simp: DeleteTemplate_def Let_def intro: refused split: if_splits)
  qed
qed

text \<open>
  C33: templates survive a restart. Whatever is authored (a template created, saved or deleted, or the
  attempt refused), what the next start reads back is every template memory has, with its name, its
  authored house, its exit and its pieces in order, but for the crate, group and number of a piece,
  which the table has no column for; and no other template.
\<close>

theorem authoring_survives_restart:
  assumes "templates_inv s" and "0 < tb_nextTemplate (m_db s)"
    and "tb_nextTemplate (m_db s) < tb_nextTemplate (m_db s) + 1"
    and "t \<in> {fst (CreateTemplate sv s dev name), fst (SaveTemplate sv s dev), fst (DeleteTemplate sv s dev i)}"
  shows "templates_inv t
    \<and> sm_find (m_houseTemplates (LoadTemplates t)) j = map_option as_loaded (sm_find (m_houseTemplates t) j)"
proof -
  have "templates_inv t"
    using assms(4) CreateTemplate_inv [OF assms(1,3,2)] SaveTemplate_inv [OF assms(1)] DeleteTemplate_inv [OF assms(1)]
    by blast
  then show ?thesis by (simp add: LoadTemplates_reads)
qed

definition author_mgr :: HouseMgr where
  "author_mgr = plain_mgr\<lparr>m_houses := [(3, plain_house\<lparr>h_objects := [8000000], h_authorsTemplate := 1\<rparr>)],
     m_objects := [(8000000, plain_object)], m_houseTemplates := [(1, \<lparr>t_id = 1, t_name = ''loft'', t_houseId = 3, t_exit = no_exit,
        t_savedAt = 0, t_objects = []\<rparr>)], m_templateByName := [(''loft'', 1)],
     m_db := fresh_tables\<lparr>tb_template := [(1, \<lparr>tr_name = ''loft'', tr_house = 3, tr_exit = no_exit, tr_savedAt = 0\<rparr>)],
        tb_nextTemplate := 2\<rparr>\<rparr>"

lemma author_inv: "templates_inv author_mgr"
proof -
  have "NormalizeTemplateName ''loft'' = ''loft''" by code_simp
  then show ?thesis
    by (auto simp: templates_inv_def author_mgr_def sm_ok_def as_loaded_def row_template_def sm_has_def split: if_splits)
qed

theorem authoring_survives_restart_witness:
  "map_option t_objects (sm_find (m_houseTemplates (LoadTemplates (fst (SaveTemplate plain_server author_mgr plain_player)))) 1)
     = Some [frozen_columns plain_object]"
proof -
  let ?t = "fst (SaveTemplate plain_server author_mgr plain_player)"
  have "map_option t_objects (sm_find (m_houseTemplates ?t) 1) = Some [frozen_now plain_object]"
    by (simp add: SaveTemplate_def GetHouseAt_def GetHouseByInstance_def GetHouseById_def author_mgr_def GetTemplate_def
        Let_def pexec_def)
  moreover have "sm_find (m_houseTemplates (LoadTemplates ?t)) 1 = map_option as_loaded (sm_find (m_houseTemplates ?t) 1)"
    using authoring_survives_restart [OF author_inv, of ?t plain_server plain_player "[]" 0 1] by (simp add: author_mgr_def)
  ultimately show ?thesis by (auto simp: as_loaded_def)
qed

text \<open>
  deleting a template. It is refused, and changes nothing, while a door leads to the template or the
  developer stands in it; otherwise the template, its rows in the table, its authored house and every
  piece in it are gone, nobody is forced into the house any more, and no door leads nowhere that did
  not before.
\<close>

theorem delete_template_leaves_nothing:
  assumes inv: "objects_inv s" "critters_inv s" "templates_inv s"
  shows "case DeleteTemplate sv s dev i of
      (t, people, Inl e) \<Rightarrow> t = s \<and> people = sv_players sv
    | (t, people, Inr _) \<Rightarrow> (\<exists>tpl. GetTemplate s i = Some tpl
        \<and> \<not> (\<exists>d \<in> set (GetPortals s). p_templateId d = i)
        \<and> GetTemplate t i = None \<and> GetTemplateByName t (t_name tpl) = None
        \<and> filter (\<lambda>r. fst r = i) (tb_templateObject (m_db t)) = []
        \<and> GetHouseById t (t_houseId tpl) = None
        \<and> \<not> (\<exists>g ob. sm_find (m_objects t) g = Some ob \<and> o_houseId ob = t_houseId tpl)
        \<and> (case GetHouseById s (t_houseId tpl) of None \<Rightarrow> True
           | Some h \<Rightarrow> h_instanceId h = 0 \<or> \<not> (\<exists>p \<in> set people. pl_forced p = h_instanceId h))
        \<and> objects_inv t \<and> GetPortals t = GetPortals s)"
proof -
  obtain t people r where run: "DeleteTemplate sv s dev i = (t, people, r)" by (metis prod_cases3)
  then show ?thesis
  proof (cases rule: DeleteTemplate_cases)
    case (refused e)
    then show ?thesis by (simp add: run)
  next
    case (deleted tpl s1)
    have f: "m_houses t = m_houses s1" "m_objects t = m_objects s1" "m_portals t = m_portals s1"
      "m_nextObjectGuid t = m_nextObjectGuid s1" "tb_object (m_db t) = tb_object (m_db s1)"
      "tb_templateObject (m_db t) = filter (\<lambda>p. fst p \<noteq> i) (tb_templateObject (m_db s1))"
      by (simp_all add: deleted(6) Let_def pexec_def sql_delete_template_row_def sql_delete_template_objects_def)
    have gone: "objects_inv s1 \<and> m_portals s1 = m_portals s \<and> sm_find (m_houses s1) (t_houseId tpl) = None"
    proof (cases "sm_find (m_houses s) (t_houseId tpl)")
      case None
      then show ?thesis using inv(1) by (simp add: deleted(4) GetHouseById_def)
    next
      case (Some h)
      then show ?thesis using drop_template_house_run [OF inv(1,2) Some, of sv] by (simp add: deleted(4) GetHouseById_def)
    qed
    then have oi: "objects_inv t" by (simp add: objects_inv_rows_inv mirrored_def f)
    have none: "\<not> (\<exists>g ob. sm_find (m_objects t) g = Some ob \<and> o_houseId ob = t_houseId tpl)"
      using objects_inv_row [OF oi] gone by (fastforce simp: f)
    have left: "case GetHouseById s (t_houseId tpl) of None \<Rightarrow> True
        | Some h \<Rightarrow> h_instanceId h = 0 \<or> \<not> (\<exists>p \<in> set people. pl_forced p = h_instanceId h)"
      by (auto simp: deleted(5) swept_out_def split: option.split)
    obtain r where "as_loaded tpl = row_template (tb_templateObject (m_db s)) i r"
      using templates_inv_reads [OF inv(3), of i] deleted(2)
      by (cases "sm_find (tb_template (m_db s)) i") (auto simp: GetTemplate_def)
    from arg_cong [OF this, of t_name] have "NormalizeTemplateName (t_name tpl) = t_name tpl"
      by (simp add: row_template_def)
    then have "GetTemplate t i = None" and "GetTemplateByName t (t_name tpl) = None"
      by (simp_all add: deleted(6) Let_def GetTemplate_def GetTemplateByName_def)
    then show ?thesis
      using gone oi none left deleted(2,3) by (simp add: run deleted(1) f GetHouseById_def GetPortals_def filter_empty_conv)
  qed
qed

text \<open>
  C40: what a deletion leaves behind: the animals of the authored house. Their rows stay, under a
  house that no longer exists.
\<close>

theorem deleted_template_keeps_animals:
  assumes inv: "objects_inv s" "critters_inv s"
    and run: "DeleteTemplate sv s dev i = (t, people, Inr ())" and tpl: "GetTemplate s i = Some tpl"
    and h: "GetHouseById s (t_houseId tpl) = Some house" and c: "c \<in> set (h_critters house)"
  shows "(\<exists>row. sm_find (m_critters t) c = Some row \<and> GetHouseById t (c_houseId row) = None) \<and> \<not> critters_inv t"
proof -
  have rows: "rows_inv c_guid c_houseId h_critters (m_houses s) (m_critters s) (m_nextCritterGuid s)"
    using inv(2) by (simp add: critters_inv_def)
  from rows_inv_house [OF rows h [unfolded GetHouseById_def]] c obtain row where row: "sm_find (m_critters s) c = Some row"
    "c_houseId row = t_houseId tpl" by blast
  from run have t: "m_critters t = m_critters s \<and> sm_find (m_houses t) (t_houseId tpl) = None"
  proof (cases rule: DeleteTemplate_cases)
    case (deleted tpl' s1)
    have "tpl' = tpl" using deleted(2) tpl by simp
    then show ?thesis
      using drop_template_house_run [OF inv h [unfolded GetHouseById_def], of sv] h
      by (simp_all add: deleted(4,6) Let_def pexec_def)
  qed simp_all
  then have "\<not> critters_inv t"
    using row rows_inv_row [of c_guid c_houseId h_critters "m_houses t" "m_critters t" "m_nextCritterGuid t" c row]
    by (auto simp: critters_inv_def)
  with row t show ?thesis by (auto simp: GetHouseById_def)
qed

text \<open>The witnesses: a template of one chair and one rabbit, with the developer outside.\<close>

definition zoo_mgr :: HouseMgr where
  "zoo_mgr = author_mgr\<lparr>m_houses := [(3, plain_house\<lparr>h_objects := [8000000], h_critters := [8000000], h_authorsTemplate := 1\<rparr>)],
     m_critters := [(8000000, rabbit)], m_nextObjectGuid := 8000001, m_nextCritterGuid := 8000001,
     m_db := (m_db author_mgr)\<lparr>tb_object := [(8000000, plain_object)], tb_critter := [(8000000, rabbit)]\<rparr>\<rparr>"

definition outsider :: player where
  "outsider = plain_player\<lparr>pl_mapId := 0\<rparr>"

lemma zoo_inv: "objects_inv zoo_mgr" "critters_inv zoo_mgr" "templates_inv zoo_mgr"
proof -
  show "objects_inv zoo_mgr"
    unfolding objects_inv_rows_inv
    by (intro conjI rows_invI) (auto simp: zoo_mgr_def author_mgr_def mirrored_def HOUSE_GO_GUID_MIN_def split: if_splits)
  show "critters_inv zoo_mgr"
    unfolding critters_inv_def
    by (intro conjI rows_invI) (auto simp: zoo_mgr_def author_mgr_def split: if_splits)
  show "templates_inv zoo_mgr"
    using author_inv by (simp add: templates_inv_def zoo_mgr_def)
qed

lemma zoo_deleted: "snd (snd (DeleteTemplate plain_server zoo_mgr outsider 1)) = Inr ()"
  by (simp add: DeleteTemplate_def GetTemplate_def GetPortals_def GetHouseById_def GetHouseAt_def zoo_mgr_def
      author_mgr_def outsider_def Let_def HOUSE_MAP_ID_def)

theorem delete_template_leaves_nothing_witness:
  "case DeleteTemplate plain_server zoo_mgr outsider 1 of (t, _, _) \<Rightarrow> GetTemplate t 1 = None \<and> GetHouseById t 3 = None"
proof -
  obtain t people where run: "DeleteTemplate plain_server zoo_mgr outsider 1 = (t, people, Inr ())"
    using zoo_deleted by (metis prod.collapse)
  have tpl: "GetTemplate zoo_mgr 1 = Some tpl \<Longrightarrow> t_houseId tpl = 3" for tpl
    by (auto simp: GetTemplate_def zoo_mgr_def author_mgr_def)
  show ?thesis
    using delete_template_leaves_nothing [OF zoo_inv, where sv = plain_server and dev = outsider and i = 1] tpl unfolding run by auto
qed

theorem deleted_template_keeps_animals_witness:
  "\<exists>t people row. DeleteTemplate plain_server zoo_mgr outsider 1 = (t, people, Inr ())
     \<and> sm_find (m_critters t) 8000000 = Some row \<and> GetHouseById t (c_houseId row) = None"
proof -
  obtain t people where run: "DeleteTemplate plain_server zoo_mgr outsider 1 = (t, people, Inr ())"
    using zoo_deleted by (metis prod.collapse)
  define tpl where "tpl = \<lparr>t_id = 1, t_name = ''loft'', t_houseId = 3, t_exit = no_exit, t_savedAt = 0, t_objects = []\<rparr>"
  define house where "house = plain_house\<lparr>h_objects := [8000000], h_critters := [8000000], h_authorsTemplate := 1\<rparr>"
  have tpl: "GetTemplate zoo_mgr 1 = Some tpl" by (simp add: GetTemplate_def zoo_mgr_def author_mgr_def tpl_def)
  have h: "GetHouseById zoo_mgr (t_houseId tpl) = Some house" "8000000 \<in> set (h_critters house)"
    by (simp_all add: GetHouseById_def zoo_mgr_def tpl_def house_def)
  from deleted_template_keeps_animals [OF zoo_inv(1,2) run tpl h] run show ?thesis by blast
qed

end
