(* ===== verification/HouseStartup.thy ===== *)
theory HouseStartup
  imports HouseAuthoring
begin

section \<open>Startup\<close>

text \<open>
  \<open>HouseMgr::LoadFromDB\<close> (Housing/HouseMgr.cpp), what a restart does. The two catalogues of crates come
  from the world database and are arguments; every other table is \<open>m_db\<close>. A row of \<open>house_object\<close>
  with \<open>stowed = 1\<close> does not occur: no statement of the program writes that column. The size of the
  selection glow, which \<open>SetSelectMarkLook\<close> patches into the shared template, is not state of housing;
  its lift is.
\<close>

subsection \<open>The statements\<close>

definition load_house_row :: "u32 \<times> HouseRow \<Rightarrow> HouseMgr \<Rightarrow> HouseMgr" where
  "load_house_row row s =
     (case row of (i, r) \<Rightarrow>
        s\<lparr>m_houses := sm_put i
             \<lparr>h_id = i, h_accountId = hr_account r, h_portalId = hr_portal r, h_instanceId = hr_instance r,
              h_name = hr_name r, h_objects = [], h_critters = [], h_templateId = hr_template r,
              h_authorsTemplate = 0, h_exit = hr_exit r\<rparr> (m_houses s),
          m_houseByAccount := sm_put (hr_account r) i (m_houseByAccount s)\<rparr>)"

definition load_object_row :: "server \<Rightarrow> u32 \<times> HouseObject \<Rightarrow> HouseMgr \<Rightarrow> HouseMgr" where
  "load_object_row sv row s =
     (case row of (guid, ob) \<Rightarrow>
        let s1 = (if o_scale ob > 0 then emit (OnObject (SetScale guid (o_scale ob))) s else s)
        in case GetHouseById s1 (o_houseId ob) of
             None \<Rightarrow> s1
           | Some house \<Rightarrow>
               if sv_go sv (o_goEntry ob) = None then s1
               else if \<not> IsValidMapCoord (o_x ob) (o_y ob) (o_z ob) (o_o ob) then s1
               else
                 let s2 = put_house (house\<lparr>h_objects := h_objects house @ [guid]\<rparr>)
                            (s1\<lparr>m_objects := sm_put guid ob (m_objects s1)\<rparr>)
                 in if guid \<ge> m_nextObjectGuid s2 then s2\<lparr>m_nextObjectGuid := guid + 1\<rparr> else s2)"

definition number_object :: "u32 \<Rightarrow> u32 \<Rightarrow> HouseMgr \<Rightarrow> HouseMgr" where
  "number_object houseId guid s =
     (case (sm_find (m_objects s) guid, GetHouseById s houseId) of
        (Some ob, Some house) \<Rightarrow>
          if o_slot ob \<noteq> 0 then s
          else let n = AllocateSlot s house
               in pexec (sql_update_object_slot guid n)
                    (s\<lparr>m_objects := sm_put guid (ob\<lparr>o_slot := n\<rparr>) (m_objects s)\<rparr>)
      | _ \<Rightarrow> s)"

definition number_objects :: "u32 \<times> House \<Rightarrow> HouseMgr \<Rightarrow> HouseMgr" where
  "number_objects row s = fold (number_object (fst row)) (h_objects (snd row)) s"

definition clear_every_row :: "HouseMgr \<Rightarrow> HouseMgr" where
  "clear_every_row s =
     (let maxId = sm_max_key (tb_object (m_db s))
      in if maxId \<ge> m_nextObjectGuid s then s\<lparr>m_nextObjectGuid := maxId + 1\<rparr> else s)"

definition check_instance :: "u32 \<times> House \<Rightarrow> HouseMgr \<Rightarrow> HouseMgr" where
  "check_instance row s =
     (let h = snd row
      in if h_instanceId h = 0 then s
         else if \<not> sm_has (tb_instance (m_db s)) (h_instanceId h)
         then pexec (sql_update_house_instance (h_id h) 0) (put_house (h\<lparr>h_instanceId := 0\<rparr>) s)
         else s\<lparr>m_houseByInstance := sm_put (h_instanceId h) (h_id h) (m_houseByInstance s)\<rparr>)"

definition LoadHouses :: "server \<Rightarrow> HouseMgr \<Rightarrow> HouseMgr" where
  "LoadHouses sv s =
     (let s1 = s\<lparr>m_houses := [], m_houseByAccount := [], m_houseByInstance := [], m_objects := [],
                 m_nextObjectGuid := HOUSE_GO_GUID_MIN\<rparr>;
          s2 = fold load_house_row (tb_house (m_db s1)) s1;
          s3 = fold (load_object_row sv) (tb_object (m_db s2)) s2;
          s4 = s3\<lparr>m_selectLift := HOUSE_SELECT_MARK_LIFT\<rparr>;
          s5 = fold number_objects (m_houses s4) s4;
          s6 = clear_every_row s5
      in fold check_instance (m_houses s6) s6)"

definition LoadFromDB ::
  "server \<Rightarrow> (u32 \<times> FurnitureItem) list \<Rightarrow> (u32 \<times> CritterItem) list \<Rightarrow> HouseMgr \<Rightarrow> HouseMgr" where
  "LoadFromDB sv furniture animals s =
     (let s0 = s\<lparr>m_enabled := False\<rparr>
      in if \<not> sv_mapEntry sv then s0
         else if sv_firstTempGo sv \<le> HOUSE_GO_GUID_MAX then s0
         else
           let s1 = (LoadTemplates (LoadHouses sv s0))\<lparr>m_enabled := True\<rparr>;
               s2 = SpawnPortals sv (LoadPortals s1);
               s3 = LoadCritterItems sv animals (LoadFurnitureItems sv furniture s2)
           in LoadCritters sv (LoadReturns (LoadSettings (LoadStorage s3))))"


subsection \<open>Filing rows under their houses\<close>

text \<open>
  What the two loading loops have in common: a row is put into the map, its id appended to the list of
  its house, and the counter raised above it. \<open>loaded_rows\<close> extends \<open>house_rows\<close> by what rewriting a
  list twice does, and says what such a loop makes of houses whose lists are empty.
\<close>

definition file_row ::
  "('v \<Rightarrow> u32) \<Rightarrow> (House \<Rightarrow> u32 list) \<Rightarrow> (u32 list \<Rightarrow> House \<Rightarrow> House) \<Rightarrow> u32 \<times> 'v
   \<Rightarrow> (u32, House) smap \<times> (u32, 'v) smap \<times> u32 \<Rightarrow> (u32, House) smap \<times> (u32, 'v) smap \<times> u32" where
  "file_row home listed relist row st =
     (case (row, st) of ((g, v), (houses, rows, n)) \<Rightarrow>
        case sm_find houses (home v) of
          None \<Rightarrow> st
        | Some h \<Rightarrow> (sm_put (home v) (relist (listed h @ [g]) h) houses, sm_put g v rows,
                     if g \<ge> n then g + 1 else n))"

locale loaded_rows = house_rows +
  assumes relist_twice: "relist gs (relist hs h) = relist gs h" and relist_same: "relist (listed h) h = h"
begin

lemma file_rows_run:
  assumes "distinct (map fst todo)"
    and "list_all (\<lambda>r. sm_find houses (home (snd r)) \<noteq> None \<and> fst r < limit) todo" and "n \<le> limit"
  shows "case fold (file_row home listed relist) todo (houses, rows, n) of (houses', rows', n') \<Rightarrow>
      (\<forall>i. sm_find houses' i = map_option
         (\<lambda>h. relist (listed h @ map fst (filter (\<lambda>r. home (snd r) = i) todo)) h) (sm_find houses i))
      \<and> (\<forall>g. sm_find rows' g = (case map_of todo g of None \<Rightarrow> sm_find rows g | Some v \<Rightarrow> Some v))
      \<and> n \<le> n' \<and> n' \<le> limit \<and> (\<forall>r \<in> set todo. fst r < n')"
  using assms
proof (induction todo arbitrary: houses rows n)
  case Nil
  have "map_option (\<lambda>h. h) x = x" for x :: "House option" by (cases x) simp_all
  then show ?case using Nil by (simp add: relist_same)
next
  case (Cons r todo)
  obtain g v where r: "r = (g, v)" by (cases r)
  obtain h where h: "sm_find houses (home v) = Some h" and lt: "g < limit" using Cons.prems(2) r by auto
  let ?houses = "sm_put (home v) (relist (listed h @ [g]) h) houses"
  let ?n = "if g \<ge> n then g + 1 else n"
  have suc: "g < g + 1" "g + 1 \<le> limit"
    using u32_succ(2) [OF lt] lt by (simp_all add: word_less_nat_alt word_le_nat_alt u32_succ(3) [OF lt])
  have n1: "n \<le> ?n" "g < ?n" "?n \<le> limit" using suc Cons.prems(3) by auto
  have ok: "list_all (\<lambda>r. sm_find ?houses (home (snd r)) \<noteq> None \<and> fst r < limit) todo"
    using Cons.prems(2) by (auto simp: list_all_iff)
  have fresh: "map_of todo g = None" using Cons.prems(1) r by (simp add: map_of_eq_None_iff)
  obtain houses' rows' n' where out: "fold (file_row home listed relist) todo (?houses, sm_put g v rows, ?n) = (houses', rows', n')"
    by (metis prod_cases3)
  have ih: "(\<forall>i. sm_find houses' i = map_option
         (\<lambda>h. relist (listed h @ map fst (filter (\<lambda>r. home (snd r) = i) todo)) h) (sm_find ?houses i))
      \<and> (\<forall>g'. sm_find rows' g' = (case map_of todo g' of None \<Rightarrow> sm_find (sm_put g v rows) g' | Some v \<Rightarrow> Some v))
      \<and> ?n \<le> n' \<and> n' \<le> limit \<and> (\<forall>r \<in> set todo. fst r < n')"
    using Cons.IH [OF _ ok n1(3), of "sm_put g v rows"] Cons.prems(1) unfolding out by simp
  have houses: "sm_find houses' i = map_option
      (\<lambda>h. relist (listed h @ map fst (filter (\<lambda>r. home (snd r) = i) (r # todo))) h) (sm_find houses i)" for i
    using ih h by (cases "i = home v") (auto simp: r listed_relist relist_twice)
  have rows: "sm_find rows' g' = (case map_of (r # todo) g' of None \<Rightarrow> sm_find rows g' | Some v \<Rightarrow> Some v)" for g'
    using ih fresh by (cases "g' = g") (auto simp: r split: option.split)
  have n': "n \<le> n'" "\<forall>r' \<in> set (r # todo). fst r' < n'"
    using ih n1(1,2) by (force simp: r intro: order_trans less_le_trans)+
  have run: "fold (file_row home listed relist) (r # todo) (houses, rows, n) = (houses', rows', n')"
    using out by (simp add: r file_row_def h)
  show ?case
    unfolding run case_prod_conv using ih houses rows n' by blast
qed

corollary file_rows_inv:
  assumes "distinct (map fst todo)" and "list_all (\<lambda>r. sm_find houses (home (snd r)) \<noteq> None \<and> fst r < limit) todo"
    and "n \<le> limit" and "list_all (\<lambda>r. key (snd r) = fst r \<and> fst r \<noteq> 0) todo"
    and "\<And>i h. sm_find houses i = Some h \<Longrightarrow> h_id h = i \<and> listed h = []"
    and "fold (file_row home listed relist) todo (houses, [], n) = (houses', rows', n')"
  shows "rows_inv key home listed houses' rows' n' \<and> sm_find rows' = map_of todo"
proof -
  note run = file_rows_run [OF assms(1-3), of "[]", unfolded assms(6) case_prod_conv]
  have rows: "sm_find rows' g = map_of todo g" for g using run by (simp split: option.split)
  have in_todo: "(g, v) \<in> set todo" if "sm_find rows' g = Some v" for g v
    using that rows by (simp add: map_of_SomeD)
  have "rows_inv key home listed houses' rows' n'"
  proof (rule rows_invI)
    fix g v
    assume "sm_find rows' g = Some v"
    then have mem: "(g, v) \<in> set todo" by (rule in_todo)
    then obtain h where h: "sm_find houses (home v) = Some h" using assms(2) by (auto simp: list_all_iff)
    have "g \<in> set (map fst (filter (\<lambda>r. home (snd r) = home v) todo))" using mem by force
    then show "key v = g \<and> g \<noteq> 0 \<and> g < n' \<and> (\<exists>h. sm_find houses' (home v) = Some h \<and> g \<in> set (listed h))"
      using mem h run assms(4) by (auto simp: list_all_iff listed_relist)
  next
    fix i h
    assume "sm_find houses' i = Some h"
    then obtain h0 where h0: "sm_find houses i = Some h0"
      and h: "h = relist (map fst (filter (\<lambda>r. home (snd r) = i) todo)) h0"
      using run assms(5) by auto
    have "distinct (map fst (filter (\<lambda>r. home (snd r) = i) todo))"
      using assms(1) by (simp add: distinct_map_filter)
    moreover have "\<exists>v. sm_find rows' g = Some v \<and> home v = i"
      if "g \<in> set (map fst (filter (\<lambda>r. home (snd r) = i) todo))" for g
      using that assms(1) by (auto simp: rows)
    ultimately show "h_id h = i \<and> distinct (listed h) \<and> (\<forall>g \<in> set (listed h). \<exists>v. sm_find rows' g = Some v \<and> home v = i)"
      using assms(5) [OF h0] by (simp add: h listed_relist id_relist)
  qed
  with rows show ?thesis by auto
qed

end

interpretation loaded_objects: loaded_rows o_guid o_houseId h_objects "\<lambda>gs h. h\<lparr>h_objects := gs\<rparr>"
  by unfold_locales simp_all

interpretation loaded_critters: loaded_rows c_guid c_houseId h_critters "\<lambda>gs h. h\<lparr>h_critters := gs\<rparr>"
  by unfold_locales simp_all

subsection \<open>What a restart keeps\<close>

lemma rows_inv_alike:
  assumes inv: "rows_inv key home listed houses rows n"
    and same: "\<And>i. map_option f (sm_find houses' i) = map_option f (sm_find houses i)"
    and f: "\<And>h. h_id (f h) = h_id h \<and> listed (f h) = listed h"
  shows "rows_inv key home listed houses' rows n"
proof (rule rows_invI)
  fix g v
  assume "sm_find rows g = Some v"
  from rows_inv_row [OF inv this] obtain h where h: "sm_find houses (home v) = Some h" "g \<in> set (listed h)"
    and rest: "key v = g \<and> g \<noteq> 0 \<and> g < n" by blast
  obtain h' where "sm_find houses' (home v) = Some h'" "f h' = f h" using same [of "home v"] h(1) by auto
  with h(2) f [of h] f [of h'] rest
  show "key v = g \<and> g \<noteq> 0 \<and> g < n \<and> (\<exists>h. sm_find houses' (home v) = Some h \<and> g \<in> set (listed h))"
    by metis
next
  fix i h'
  assume "sm_find houses' i = Some h'"
  then obtain h where "sm_find houses i = Some h" "f h' = f h" using same [of i] by (cases "sm_find houses i") auto
  with rows_inv_house [OF inv this(1)] f [of h] f [of h']
  show "h_id h' = i \<and> distinct (listed h') \<and> (\<forall>g \<in> set (listed h'). \<exists>v. sm_find rows g = Some v \<and> home v = i)"
    by metis
qed

definition house_row :: "House \<Rightarrow> HouseRow" where
  "house_row h = \<lparr>hr_account = h_accountId h, hr_instance = h_instanceId h, hr_name = h_name h,
     hr_exit = h_exit h, hr_portal = h_portalId h, hr_template = h_templateId h\<rparr>"

definition houses_mirrored :: "HouseMgr \<Rightarrow> bool" where
  "houses_mirrored s \<longleftrightarrow> sm_ok (tb_house (m_db s))
     \<and> (\<forall>i. map_option house_row (sm_find (m_houses s) i) = sm_find (tb_house (m_db s)) i)"

text \<open>What of a house the loading steps after the rows never touch; and what of it is on record.\<close>

definition unplaced :: "House \<Rightarrow> House" where
  "unplaced h = h\<lparr>h_instanceId := 0, h_authorsTemplate := 0\<rparr>"

definition lasting :: "House \<Rightarrow> House" where
  "lasting h = h\<lparr>h_instanceId := 0, h_authorsTemplate := 0, h_objects := [], h_critters := []\<rparr>"

definition alike :: "HouseMgr \<Rightarrow> HouseMgr \<Rightarrow> bool" where
  "alike s t \<longleftrightarrow> m_objects t = m_objects s \<and> m_nextObjectGuid t = m_nextObjectGuid s
     \<and> tb_object (m_db t) = tb_object (m_db s) \<and> tb_critter (m_db t) = tb_critter (m_db s)
     \<and> (\<forall>i. map_option unplaced (sm_find (m_houses t) i) = map_option unplaced (sm_find (m_houses s) i))"

lemma alike_refl [simp]: "alike s s"
  by (simp add: alike_def)

lemma alike_trans: "alike s t \<Longrightarrow> alike t u \<Longrightarrow> alike s u"
  by (simp add: alike_def)

lemma alike_house:
  assumes "alike s t" and "sm_find (m_houses t) i = Some h"
  obtains h0 where "sm_find (m_houses s) i = Some h0" "unplaced h0 = unplaced h"
proof -
  have "map_option unplaced (sm_find (m_houses t) i) = map_option unplaced (sm_find (m_houses s) i)"
    using assms(1) by (simp add: alike_def)
  with assms(2) show thesis by (cases "sm_find (m_houses s) i") (auto intro: that)
qed

lemma unplaced_fields:
  "unplaced h = unplaced k \<Longrightarrow> h_id h = h_id k \<and> h_objects h = h_objects k \<and> h_critters h = h_critters k"
  by (cases h, cases k) (simp add: unplaced_def)

definition houses_keyed :: "HouseMgr \<Rightarrow> bool" where
  "houses_keyed s \<longleftrightarrow> (\<forall>i h. sm_find (m_houses s) i = Some h \<longrightarrow> h_id h = i)"

lemma alike_houses_keyed: "alike s t \<Longrightarrow> houses_keyed s \<Longrightarrow> houses_keyed t"
  unfolding houses_keyed_def
proof (intro allI impI)
  fix i h
  assume a: "alike s t" and k: "\<forall>i h. sm_find (m_houses s) i = Some h \<longrightarrow> h_id h = i"
    and h: "sm_find (m_houses t) i = Some h"
  from alike_house [OF a h] obtain h0 where "sm_find (m_houses s) i = Some h0" "unplaced h0 = unplaced h" .
  with k unplaced_fields [of h0 h] show "h_id h = i" by auto
qed

lemma alike_put_house:
  assumes "alike s t" and "sm_find (m_houses s) i = Some h0" and "h_id h = i" and "unplaced h = unplaced h0"
  shows "alike s (put_house h t)"
  using assms by (auto simp: alike_def put_house_def)

lemma alike_fold:
  assumes "alike s t" and "\<And>x u. x \<in> set xs \<Longrightarrow> alike s u \<Longrightarrow> alike s (f x u)"
  shows "alike s (fold f xs t)"
  using assms by (induction xs arbitrary: t) auto

lemma alike_check_instance:
  assumes "houses_keyed s" and "alike s t" and "sm_find (m_houses s) i = Some h"
  shows "alike s (check_instance (i, h) t)"
proof -
  have id: "h_id h = i" using assms(1,3) by (simp add: houses_keyed_def)
  have "alike s (put_house (h\<lparr>h_instanceId := 0\<rparr>) t)"
    by (rule alike_put_house [OF assms(2,3)]) (simp_all add: id unplaced_def)
  then have "alike s (pexec (sql_update_house_instance (h_id h) 0) (put_house (h\<lparr>h_instanceId := 0\<rparr>) t))"
    by (simp add: alike_def pexec_def sql_update_house_instance_def)
  moreover have "alike s (t\<lparr>m_houseByInstance := b\<rparr>)" for b using assms(2) by (simp add: alike_def)
  ultimately show ?thesis using assms(2) by (simp add: check_instance_def Let_def)
qed

lemma alike_load_template_row:
  assumes "houses_keyed s" and "alike s t"
  shows "alike s (load_template_row row t)"
proof -
  obtain i r where row: "row = (i, r)" by (cases row)
  have field: "alike s (t'\<lparr>m_templateByName := a, m_houseTemplates := b\<rparr>)" if "alike s t'" for a b t'
    using that by (simp add: alike_def)
  have put: "alike s (put_house (h\<lparr>h_authorsTemplate := i\<rparr>) t)" if h: "sm_find (m_houses t) (tr_house r) = Some h" for h
  proof -
    have id: "h_id h = tr_house r" using alike_houses_keyed [OF assms(2,1)] h by (simp add: houses_keyed_def)
    from alike_house [OF assms(2) h]
    obtain h0 where h0: "sm_find (m_houses s) (tr_house r) = Some h0" "unplaced h0 = unplaced h" .
    have "unplaced (h\<lparr>h_authorsTemplate := i\<rparr>) = unplaced h" by (simp add: unplaced_def)
    then show ?thesis using h0 id by (intro alike_put_house [OF assms(2) h0(1)]) simp_all
  qed
  show ?thesis
    using field put assms(2) by (simp add: row load_template_row_def Let_def GetHouseById_def split: option.split)
qed

lemma alike_load_template_object: "alike s t \<Longrightarrow> alike s (load_template_object row t)"
  by (simp add: load_template_object_def alike_def split: option.split)

lemma alike_LoadTemplates: "houses_keyed s \<Longrightarrow> alike s (LoadTemplates s)"
  unfolding LoadTemplates_def Let_def
  by (intro alike_fold alike_load_template_row alike_load_template_object) (simp_all add: alike_def)


subsection \<open>The loops\<close>

lemma load_houses_run:
  assumes "distinct (map fst rows)"
  shows "sm_find (m_houses (fold load_house_row rows s)) i = (case map_of rows i of
      Some r \<Rightarrow> Some \<lparr>h_id = i, h_accountId = hr_account r, h_portalId = hr_portal r, h_instanceId = hr_instance r,
         h_name = hr_name r, h_objects = [], h_critters = [], h_templateId = hr_template r,
         h_authorsTemplate = 0, h_exit = hr_exit r\<rparr>
    | None \<Rightarrow> sm_find (m_houses s) i)
    \<and> m_objects (fold load_house_row rows s) = m_objects s \<and> m_db (fold load_house_row rows s) = m_db s
    \<and> m_nextObjectGuid (fold load_house_row rows s) = m_nextObjectGuid s"
  using assms
proof (induction rows arbitrary: s)
  case (Cons p rows)
  obtain j r where p: "p = (j, r)" by (cases p)
  have "map_of rows j = None" using Cons.prems p by (simp add: map_of_eq_None_iff)
  then show ?case
    using Cons.IH [of "load_house_row p s"] Cons.prems by (auto simp: p load_house_row_def split: option.split)
qed simp

definition trio :: "HouseMgr \<Rightarrow> (u32, House) smap \<times> (u32, HouseObject) smap \<times> u32" where
  "trio s = (m_houses s, m_objects s, m_nextObjectGuid s)"

definition loadable :: "server \<Rightarrow> HouseObject \<Rightarrow> bool" where
  "loadable sv ob \<longleftrightarrow> sv_go sv (o_goEntry ob) \<noteq> None \<and> IsValidMapCoord (o_x ob) (o_y ob) (o_z ob) (o_o ob)"

lemma load_object_trio:
  assumes "loadable sv ob" and "houses_keyed s"
  shows "trio (load_object_row sv (g, ob) s)
      = file_row o_houseId h_objects (\<lambda>gs h. h\<lparr>h_objects := gs\<rparr>) (g, ob) (trio s)
    \<and> m_db (load_object_row sv (g, ob) s) = m_db s \<and> houses_keyed (load_object_row sv (g, ob) s)"
proof -
  obtain e where e: "sv_go sv (o_goEntry ob) = Some e" using assms(1) by (auto simp: loadable_def)
  show ?thesis
    using assms e
    by (auto simp: loadable_def load_object_row_def file_row_def trio_def Let_def GetHouseById_def houses_keyed_def
        put_house_def split: option.split)
qed

lemma load_objects_trio:
  assumes "list_all (\<lambda>r. loadable sv (snd r)) rows" and "houses_keyed s"
  shows "trio (fold (load_object_row sv) rows s)
      = fold (file_row o_houseId h_objects (\<lambda>gs h. h\<lparr>h_objects := gs\<rparr>)) rows (trio s)
    \<and> m_db (fold (load_object_row sv) rows s) = m_db s \<and> houses_keyed (fold (load_object_row sv) rows s)"
  using assms
proof (induction rows arbitrary: s)
  case (Cons r rows)
  obtain g ob where r: "r = (g, ob)" by (cases r)
  have ok: "loadable sv ob" using Cons.prems(1) r by simp
  note one = load_object_trio [OF ok Cons.prems(2), of g]
  from one have "houses_keyed (load_object_row sv (g, ob) s)" by blast
  from Cons.IH [OF _ this] one Cons.prems(1) show ?case by (simp add: r)
qed simp

lemma number_objects_same:
  assumes "\<And>g ob. sm_find (m_objects s) g = Some ob \<Longrightarrow> o_slot ob \<noteq> 0"
  shows "fold number_objects rows s = s"
proof -
  have "number_object i g s = s" for i g
    using assms by (auto simp: number_object_def split: option.split)
  then have "fold (number_object i) gs s = s" for i gs by (induction gs) simp_all
  then have "number_objects row s = s" for row by (simp add: number_objects_def)
  then show ?thesis by (induction rows) simp_all
qed

lemma lasting_unplaced: "unplaced h = unplaced k \<Longrightarrow> lasting h = lasting k"
  by (cases h, cases k) (simp add: unplaced_def lasting_def)

lemma alike_lasting:
  assumes "alike s t"
  shows "map_option lasting (sm_find (m_houses t) i) = map_option lasting (sm_find (m_houses s) i)"
proof -
  have "map_option unplaced (sm_find (m_houses t) i) = map_option unplaced (sm_find (m_houses s) i)"
    using assms by (simp add: alike_def)
  then show ?thesis
    by (cases "sm_find (m_houses t) i"; cases "sm_find (m_houses s) i") (auto intro: lasting_unplaced)
qed

lemma alike_objects_inv:
  assumes "alike s t" and "objects_inv s"
  shows "objects_inv t"
proof -
  have rows: "rows_inv o_guid o_houseId h_objects (m_houses s) (m_objects s) (m_nextObjectGuid s)"
    and rest: "mirrored s" "HOUSE_GO_GUID_MIN \<le> m_nextObjectGuid s"
    using assms(2) by (simp_all add: objects_inv_rows_inv)
  from rows have "rows_inv o_guid o_houseId h_objects (m_houses t) (m_objects s) (m_nextObjectGuid s)"
    by (rule rows_inv_alike [where f = unplaced]) (use assms(1) in \<open>simp_all add: alike_def unplaced_def\<close>)
  with rest assms(1) show ?thesis by (simp add: objects_inv_rows_inv mirrored_def alike_def)
qed

lemma clear_every_row_same:
  assumes "list_all (\<lambda>r. fst r < m_nextObjectGuid s) (tb_object (m_db s))" and "0 < m_nextObjectGuid s"
  shows "clear_every_row s = s"
proof (cases "tb_object (m_db s) = []")
  case True
  then show ?thesis using assms(2) by (simp add: clear_every_row_def sm_max_key_def Let_def leD)
next
  case False
  then have "fst (last (tb_object (m_db s))) < m_nextObjectGuid s" using assms(1) by (simp add: list_all_iff)
  then show ?thesis using False by (simp add: clear_every_row_def sm_max_key_def Let_def leD)
qed

lemma sm_ok_load_houses: "sm_ok (m_houses s) \<Longrightarrow> sm_ok (m_houses (fold load_house_row rows s))"
  by (induction rows arbitrary: s) (simp_all add: load_house_row_def split: prod.split)

lemma sm_ok_file_rows: "sm_ok (fst st) \<Longrightarrow> sm_ok (fst (fold (file_row home listed relist) rows st))"
proof (induction rows arbitrary: st)
  case (Cons r rows)
  have "sm_ok (fst (file_row home listed relist r st))"
    using Cons.prems by (cases st; cases r) (auto simp: file_row_def split: option.split)
  then show ?case by (simp add: Cons.IH)
qed simp

text \<open>Everything of \<open>LoadHouses\<close> but the last loop.\<close>

lemma LoadHouses_rows:
  fixes sv :: server and s :: HouseMgr
  assumes inv: "objects_inv s" and houses: "houses_mirrored s" and ok: "sm_ok (tb_object (m_db s))"
    and load: "list_all (\<lambda>r. loadable sv (snd r)) (tb_object (m_db s))"
  defines "s2 \<equiv> fold load_house_row (tb_house (m_db s)) (s\<lparr>m_houses := [], m_houseByAccount := [],
        m_houseByInstance := [], m_objects := [], m_nextObjectGuid := HOUSE_GO_GUID_MIN\<rparr>)"
  defines "t \<equiv> fold (load_object_row sv) (tb_object (m_db s)) s2"
  shows "objects_inv t \<and> houses_keyed t \<and> m_db t = m_db s \<and> sm_find (m_objects t) = sm_find (m_objects s)
    \<and> (\<forall>i. map_option lasting (sm_find (m_houses t) i) = map_option lasting (sm_find (m_houses s) i))
    \<and> (\<forall>i h. sm_find (m_houses t) i = Some h \<longrightarrow> h_critters h = [])
    \<and> list_all (\<lambda>r. fst r < m_nextObjectGuid t) (tb_object (m_db t)) \<and> sm_ok (m_houses t)"
proof -
  let ?rows = "tb_object (m_db s)" and ?top = "m_nextObjectGuid s"
  have ids: "h_id h = i" if "sm_find (m_houses s) i = Some h" for i h using objects_inv_house [OF inv that] by blast
  have mir: "sm_find (m_objects s) = sm_find ?rows" using inv by (simp add: objects_inv_rows_inv mirrored_def)
  have s2: "sm_find (m_houses s2) i = map_option
      (\<lambda>h. h\<lparr>h_objects := [], h_critters := [], h_authorsTemplate := 0\<rparr>) (sm_find (m_houses s) i)"
    and s2f: "m_objects s2 = []" "m_db s2 = m_db s" "m_nextObjectGuid s2 = HOUSE_GO_GUID_MIN" for i
  proof -
    note run = load_houses_run [OF sm_ok_distinct, of "tb_house (m_db s)"]
    have sok: "sm_ok (tb_house (m_db s))" using houses by (simp add: houses_mirrored_def)
    show "m_objects s2 = []" "m_db s2 = m_db s" "m_nextObjectGuid s2 = HOUSE_GO_GUID_MIN"
      using run [OF sok] by (simp_all add: s2_def)
    have tb: "sm_find (tb_house (m_db s)) i = map_option house_row (sm_find (m_houses s) i)"
      using houses by (simp add: houses_mirrored_def)
    show "sm_find (m_houses s2) i = map_option
      (\<lambda>h. h\<lparr>h_objects := [], h_critters := [], h_authorsTemplate := 0\<rparr>) (sm_find (m_houses s) i)"
      using run [OF sok] ids [of i] unfolding s2_def
      by (cases "sm_find (m_houses s) i") (simp_all add: tb house_row_def)
  qed
  have keyed2: "houses_keyed s2" by (auto simp: houses_keyed_def s2 ids)
  have row: "sm_find (m_objects s) g = Some ob" if "(g, ob) \<in> set ?rows" for g ob
    using that ok by (simp add: mir sm_find_in)
  have files: "list_all (\<lambda>r. sm_find (m_houses s2) (o_houseId (snd r)) \<noteq> None \<and> fst r < ?top) ?rows"
    and keys: "list_all (\<lambda>r. o_guid (snd r) = fst r \<and> fst r \<noteq> 0) ?rows"
    using objects_inv_row [OF inv row] objects_inv_bounds [OF inv]
    by (fastforce simp: list_all_iff s2)+
  have low: "HOUSE_GO_GUID_MIN \<le> ?top" using inv by (simp add: objects_inv_rows_inv)
  have empty: "h_id h = i \<and> h_objects h = []" if "sm_find (m_houses s2) i = Some h" for i h
    using that ids by (auto simp: s2)
  note run = load_objects_trio [OF load keyed2, folded t_def]
  have fil: "fold (file_row o_houseId h_objects (\<lambda>gs h. h\<lparr>h_objects := gs\<rparr>)) ?rows (m_houses s2, [], HOUSE_GO_GUID_MIN)
      = (m_houses t, m_objects t, m_nextObjectGuid t)"
    using run by (simp add: trio_def s2f)
  note filed = loaded_objects.file_rows_run [OF sm_ok_distinct [OF ok] files low, of "[]", unfolded fil case_prod_conv]
  note frows = loaded_objects.file_rows_inv [OF sm_ok_distinct [OF ok] files low keys empty fil]
  have db: "m_db t = m_db s" using run s2f by simp
  have objs: "sm_find (m_objects t) = sm_find (m_objects s)" using frows mir by simp
  have "objects_inv t"
    using frows filed objs mir unfolding objects_inv_rows_inv by (simp add: mirrored_def db)
  moreover have "map_option lasting (sm_find (m_houses t) i) = map_option lasting (sm_find (m_houses s) i)" for i
    using filed by (cases "sm_find (m_houses s) i") (simp_all add: s2 lasting_def)
  moreover have "\<forall>i h. sm_find (m_houses t) i = Some h \<longrightarrow> h_critters h = []"
    using filed by (auto simp: s2)
  moreover have "list_all (\<lambda>r. fst r < m_nextObjectGuid t) (tb_object (m_db t))"
    using filed by (simp add: db list_all_iff)
  moreover have "sm_ok (m_houses t)"
  proof -
    have "sm_ok (m_houses s2)" unfolding s2_def by (rule sm_ok_load_houses) simp
    then show ?thesis using sm_ok_file_rows [of "(m_houses s2, [], HOUSE_GO_GUID_MIN)"] fil by (metis fst_conv)
  qed
  ultimately show ?thesis using run db objs by blast
qed

lemma LoadHouses_run:
  fixes sv :: server and s :: HouseMgr
  assumes inv: "objects_inv s" and houses: "houses_mirrored s" and ok: "sm_ok (tb_object (m_db s))"
    and load: "list_all (\<lambda>r. loadable sv (snd r) \<and> o_slot (snd r) \<noteq> 0) (tb_object (m_db s))"
  defines "t \<equiv> LoadHouses sv s"
  shows "objects_inv t \<and> houses_keyed t \<and> sm_find (m_objects t) = sm_find (m_objects s)
    \<and> tb_object (m_db t) = tb_object (m_db s) \<and> tb_critter (m_db t) = tb_critter (m_db s)
    \<and> (\<forall>i. map_option lasting (sm_find (m_houses t) i) = map_option lasting (sm_find (m_houses s) i))
    \<and> (\<forall>i h. sm_find (m_houses t) i = Some h \<longrightarrow> h_critters h = [])"
proof -
  let ?s1 = "s\<lparr>m_houses := [], m_houseByAccount := [], m_houseByInstance := [], m_objects := [],
      m_nextObjectGuid := HOUSE_GO_GUID_MIN\<rparr>"
  define s2 where "s2 = fold load_house_row (tb_house (m_db s)) ?s1"
  define s3 where "s3 = fold (load_object_row sv) (tb_object (m_db s)) s2"
  have load1: "list_all (\<lambda>r. loadable sv (snd r)) (tb_object (m_db s))" using load by (simp add: list_all_iff)
  note rows = LoadHouses_rows [OF inv houses ok load1, folded s2_def, folded s3_def]
  have db2: "m_db s2 = m_db s"
    using load_houses_run [OF sm_ok_distinct, of "tb_house (m_db s)" ?s1] houses by (simp add: s2_def houses_mirrored_def)
  define s4 where "s4 = s3\<lparr>m_selectLift := HOUSE_SELECT_MARK_LIFT\<rparr>"
  have slots: "o_slot ob \<noteq> 0" if "sm_find (m_objects s4) g = Some ob" for g ob
  proof -
    have "sm_find (tb_object (m_db s)) g = Some ob"
      using that rows inv by (simp add: s4_def objects_inv_rows_inv mirrored_def)
    then show ?thesis using load ok by (auto simp: list_all_iff sm_find_in)
  qed
  have "0 < m_nextObjectGuid s3" using rows objects_inv_bounds [of s3] by (auto simp: word_gt_0)
  moreover have "list_all (\<lambda>r. fst r < m_nextObjectGuid s4) (tb_object (m_db s4))"
    using rows by (elim conjE) (simp add: s4_def)
  ultimately have "clear_every_row s4 = s4" by (intro clear_every_row_same) (simp_all add: s4_def)
  then have t: "t = fold check_instance (m_houses s4) s4"
    unfolding t_def LoadHouses_def Let_def
    by (simp add: s2_def [symmetric] s3_def [symmetric] s4_def [symmetric] db2 number_objects_same [OF slots])
  have keyed4: "houses_keyed s4" using rows by (simp add: houses_keyed_def s4_def)
  have sok: "sm_ok (m_houses s4)" using rows by (simp add: s4_def)
  have al: "alike s4 t"
    unfolding t
  proof (rule alike_fold)
    show "alike s4 (check_instance x u)" if "x \<in> set (m_houses s4)" "alike s4 u" for x u
      using alike_check_instance [OF keyed4 that(2), of "fst x" "snd x"] that(1) sok by (simp add: sm_find_in)
  qed simp
  have "objects_inv s4" using rows by (simp add: s4_def objects_inv_rows_inv mirrored_def)
  from alike_objects_inv [OF al this] alike_houses_keyed [OF al keyed4] al
  have "objects_inv t \<and> houses_keyed t" by blast
  moreover have "sm_find (m_objects t) = sm_find (m_objects s)" "tb_object (m_db t) = tb_object (m_db s)"
    "tb_critter (m_db t) = tb_critter (m_db s)"
    using al rows by (simp_all add: alike_def s4_def)
  moreover have "map_option lasting (sm_find (m_houses t) i) = map_option lasting (sm_find (m_houses s) i)" for i
    using alike_lasting [OF al, of i] rows by (simp add: s4_def)
  moreover have "h_critters h = []" if "sm_find (m_houses t) i = Some h" for i h
  proof -
    from alike_house [OF al that] obtain h0 where h0: "sm_find (m_houses s4) i = Some h0" "unplaced h0 = unplaced h" .
    have "sm_find (m_houses s3) i = Some h0" using h0(1) by (simp add: s4_def)
    then have "h_critters h0 = []" using rows by blast
    with unplaced_fields [OF h0(2)] show ?thesis by simp
  qed
  ultimately show ?thesis by blast
qed

subsection \<open>Doors, catalogues and animals\<close>

definition ground ::
  "HouseMgr \<Rightarrow> (u32, House) smap \<times> (u32, HouseObject) smap \<times> u32 \<times> tables \<times> bool" where
  "ground s = (m_houses s, m_objects s, m_nextObjectGuid s, m_db s, m_enabled s)"

lemma ground_alike: "ground t = ground u \<Longrightarrow> alike s u \<Longrightarrow> alike s t"
  by (simp add: ground_def alike_def)

lemma ground_fold: "(\<And>x s. ground (f x s) = ground s) \<Longrightarrow> ground (fold f xs s) = ground s"
  by (induction xs arbitrary: s) simp_all

lemma ground_steps [simp]:
  "ground (LoadPortals s) = ground s" "ground (SpawnPortals sv s) = ground s"
  "ground (LoadFurnitureItems sv rows s) = ground s" "ground (LoadCritterItems sv items s) = ground s"
  "ground (LoadStorage s) = ground s" "ground (LoadSettings s) = ground s" "ground (LoadReturns s) = ground s"
proof -
  have "ground (fold load_portal_row rows s) = ground s" for rows s
    by (rule ground_fold) (simp add: load_portal_row_def Let_def ground_def)
  then show "ground (LoadPortals s) = ground s" by (simp add: LoadPortals_def) (simp add: ground_def)
  have "ground (SpawnPortalObject sv p s) = ground s" for p s
    by (simp add: SpawnPortalObject_def Let_def ground_def emit_def)
  then have "ground (fold (\<lambda>r. SpawnPortalObject sv (snd r)) rows s) = ground s"
    for rows :: "(u32 \<times> HousePortal) list" and s by (rule ground_fold)
  then show "ground (SpawnPortals sv s) = ground s" by (simp add: SpawnPortals_def)
  have "ground (fold (load_furniture_row sv) rows s) = ground s" for rows s
    by (rule ground_fold) (simp add: load_furniture_row_def Let_def ground_def split: prod.split)
  then show "ground (LoadFurnitureItems sv rows s) = ground s"
    by (simp add: LoadFurnitureItems_def) (simp add: ground_def)
  have "ground (fold (load_critter_item sv) items s) = ground s" for items s
    by (rule ground_fold) (simp add: load_critter_item_def ground_def split: prod.split)
  then show "ground (LoadCritterItems sv items s) = ground s"
    by (simp add: LoadCritterItems_def) (simp add: ground_def)
  have "ground (fold (\<lambda>r s. s\<lparr>m_returns := sm_put (fst r) (snd r) (m_returns s)\<rparr>) rows s) = ground s"
    for rows :: "(u32 \<times> HouseReturn) list" and s :: HouseMgr
    by (rule ground_fold) (simp add: ground_def)
  then show "ground (LoadReturns s) = ground s" by (simp add: LoadReturns_def) (simp add: ground_def)
qed (simp_all add: ground_def LoadStorage_def LoadSettings_def)

lemma load_critter_trio:
  assumes "sv_creature sv (c_entry c) \<noteq> None" and "houses_keyed s"
  shows "(m_houses (load_critter_row sv (g, c) s), m_critters (load_critter_row sv (g, c) s),
        m_nextCritterGuid (load_critter_row sv (g, c) s))
      = file_row c_houseId h_critters (\<lambda>gs h. h\<lparr>h_critters := gs\<rparr>) (g, c) (m_houses s, m_critters s, m_nextCritterGuid s)
    \<and> m_db (load_critter_row sv (g, c) s) = m_db s \<and> houses_keyed (load_critter_row sv (g, c) s)
    \<and> m_objects (load_critter_row sv (g, c) s) = m_objects s
    \<and> m_nextObjectGuid (load_critter_row sv (g, c) s) = m_nextObjectGuid s
    \<and> m_enabled (load_critter_row sv (g, c) s) = m_enabled s"
  using assms
  by (auto simp: load_critter_row_def file_row_def Let_def GetHouseById_def houses_keyed_def put_house_def split: option.split)

lemma load_critters_trio:
  assumes "list_all (\<lambda>r. sv_creature sv (c_entry (snd r)) \<noteq> None) rows" and "houses_keyed s"
  shows "(m_houses (fold (load_critter_row sv) rows s), m_critters (fold (load_critter_row sv) rows s),
        m_nextCritterGuid (fold (load_critter_row sv) rows s))
      = fold (file_row c_houseId h_critters (\<lambda>gs h. h\<lparr>h_critters := gs\<rparr>)) rows (m_houses s, m_critters s, m_nextCritterGuid s)
    \<and> m_db (fold (load_critter_row sv) rows s) = m_db s
    \<and> m_objects (fold (load_critter_row sv) rows s) = m_objects s
    \<and> m_nextObjectGuid (fold (load_critter_row sv) rows s) = m_nextObjectGuid s
    \<and> m_enabled (fold (load_critter_row sv) rows s) = m_enabled s"
  using assms
proof (induction rows arbitrary: s)
  case (Cons r rows)
  obtain g c where r: "r = (g, c)" by (cases r)
  have ok: "sv_creature sv (c_entry c) \<noteq> None" using Cons.prems(1) r by simp
  note one = load_critter_trio [OF ok Cons.prems(2), of g]
  from one have "houses_keyed (load_critter_row sv (g, c) s)" by blast
  from Cons.IH [OF _ this] one Cons.prems(1) show ?case by (simp add: r)
qed simp

lemma number_critters_same:
  assumes "\<And>g c. sm_find (m_critters s) g = Some c \<Longrightarrow> c_slot c \<noteq> 0"
  shows "fold number_critters rows s = s"
proof -
  have "number_critter i g s = s" for i g
    using assms by (auto simp: number_critter_def split: option.split)
  then have "fold (number_critter i) gs s = s" for i gs by (induction gs) simp_all
  then have "number_critters row s = s" for row by (simp add: number_critters_def)
  then show ?thesis by (induction rows) simp_all
qed

definition animals_enabled :: "server \<Rightarrow> bool" where
  "animals_enabled sv \<longleftrightarrow> HOUSE_CRITTER_GUID_MAX < sv_firstTempCreature sv
     \<and> (if sv_firstTempCreature sv > sv_reserveCreature sv then sv_firstTempCreature sv - sv_reserveCreature sv else 0)
         < HOUSE_CRITTER_GUID_MIN"

text \<open>The rows of the table go back under houses with no animals.\<close>

lemma LoadCritters_run:
  fixes sv :: server and s u :: HouseMgr
  assumes on: "animals_enabled sv" and inv: "critters_inv s" and ok: "sm_ok (tb_critter (m_db s))"
    and load: "list_all (\<lambda>r. sv_creature sv (c_entry (snd r)) \<noteq> None \<and> c_slot (snd r) \<noteq> 0) (tb_critter (m_db s))"
    and low: "HOUSE_CRITTER_GUID_MIN \<le> m_nextCritterGuid s"
    and houses_keyed: "houses_keyed u" and tb: "tb_critter (m_db u) = tb_critter (m_db s)" and o: "objects_inv u"
    and houses: "\<And>i. map_option lasting (sm_find (m_houses u) i) = map_option lasting (sm_find (m_houses s) i)"
    and empty: "\<And>i h. sm_find (m_houses u) i = Some h \<Longrightarrow> h_critters h = []"
  defines "t \<equiv> LoadCritters sv u"
  shows "objects_inv t \<and> critters_inv t \<and> sm_find (m_critters t) = sm_find (m_critters s)
    \<and> m_objects t = m_objects u \<and> m_enabled t = m_enabled u
    \<and> (\<forall>i. map_option lasting (sm_find (m_houses t) i) = map_option lasting (sm_find (m_houses s) i))"
proof -
  let ?rows = "tb_critter (m_db s)" and ?limit = "m_nextCritterGuid s"
  let ?u = "u\<lparr>m_critters := [], m_nextCritterGuid := HOUSE_CRITTER_GUID_MIN\<rparr>"
  define v where "v = fold (load_critter_row sv) ?rows ?u"
  have n0: "?limit \<noteq> 0" using low by (auto simp: HOUSE_CRITTER_GUID_MIN_def)
  have rows: "rows_inv c_guid c_houseId h_critters (m_houses s) (m_critters s) ?limit"
    and mir: "sm_find (m_critters s) = sm_find ?rows"
    using inv n0 by (simp_all add: critters_inv_def)
  have row: "sm_find (m_critters s) g = Some c" if "(g, c) \<in> set ?rows" for g c
    using that ok by (simp add: mir sm_find_in)
  have there: "sm_find (m_houses u) i \<noteq> None" if "sm_find (m_houses s) i \<noteq> None" for i
    using houses [of i] that by (cases "sm_find (m_houses u) i") auto
  have files: "list_all (\<lambda>r. sm_find (m_houses ?u) (c_houseId (snd r)) \<noteq> None \<and> fst r < ?limit) ?rows"
    and keys: "list_all (\<lambda>r. c_guid (snd r) = fst r \<and> fst r \<noteq> 0) ?rows"
    using rows_inv_row [OF rows row] there by (fastforce simp: list_all_iff)+
  have load1: "list_all (\<lambda>r. sv_creature sv (c_entry (snd r)) \<noteq> None) ?rows" using load by (simp add: list_all_iff)
  have keyed1: "houses_keyed ?u" using houses_keyed by (simp add: houses_keyed_def)
  note run = load_critters_trio [OF load1 keyed1, folded v_def]
  have fil: "fold (file_row c_houseId h_critters (\<lambda>gs h. h\<lparr>h_critters := gs\<rparr>)) ?rows (m_houses ?u, [], HOUSE_CRITTER_GUID_MIN)
      = (m_houses v, m_critters v, m_nextCritterGuid v)" using run by simp
  have clean: "h_id h = i \<and> h_critters h = []" if "sm_find (m_houses ?u) i = Some h" for i h
    using that houses_keyed empty by (simp add: houses_keyed_def)
  note filed = loaded_critters.file_rows_run [OF sm_ok_distinct [OF ok] files low, of "[]", unfolded fil case_prod_conv]
  note frows = loaded_critters.file_rows_inv [OF sm_ok_distinct [OF ok] files low keys clean fil]
  have slots: "c_slot c \<noteq> 0" if "sm_find (m_critters v) g = Some c" for g c
    using that frows load ok by (auto simp: list_all_iff sm_find_in)
  have num: "fold number_critters hs v = v" for hs by (rule number_critters_same) (rule slots)
  have db: "m_db v = m_db u" using run by simp
  have "\<not> (tb_critter (m_db v) \<noteq> [] \<and> sm_max_key (tb_critter (m_db v)) \<ge> m_nextCritterGuid v)"
    using filed by (auto simp: db tb sm_max_key_def not_le)
  moreover have "\<not> (sv_firstTempCreature sv \<le> HOUSE_CRITTER_GUID_MAX
      \<or> (if sv_firstTempCreature sv > sv_reserveCreature sv then sv_firstTempCreature sv - sv_reserveCreature sv else 0)
          \<ge> HOUSE_CRITTER_GUID_MIN)"
    using on by (simp add: animals_enabled_def not_le)
  ultimately have t: "t = v"
    unfolding t_def LoadCritters_def Let_def tb v_def [symmetric] num
    by (simp only: if_False)
  have hs: "sm_find (m_houses v) i = map_option (\<lambda>h. h\<lparr>h_critters := h_critters h
      @ map fst (filter (\<lambda>r. c_houseId (snd r) = i) ?rows)\<rparr>) (sm_find (m_houses u) i)" for i
    using filed by simp
  have "objects_inv v"
  proof -
    have "rows_inv o_guid o_houseId h_objects (m_houses u) (m_objects u) (m_nextObjectGuid u)"
      using o by (simp add: objects_inv_rows_inv)
    then have "rows_inv o_guid o_houseId h_objects (m_houses v) (m_objects u) (m_nextObjectGuid u)"
    proof (rule rows_inv_alike [where f = "\<lambda>h. h\<lparr>h_critters := []\<rparr>"])
      show "map_option (\<lambda>h. h\<lparr>h_critters := []\<rparr>) (sm_find (m_houses v) i)
          = map_option (\<lambda>h. h\<lparr>h_critters := []\<rparr>) (sm_find (m_houses u) i)" for i
        by (cases "sm_find (m_houses u) i") (simp_all add: hs)
    qed simp
    then show ?thesis using o run by (simp add: objects_inv_rows_inv mirrored_def)
  qed
  moreover have "critters_inv v"
    using frows by (simp add: critters_inv_def db tb)
  moreover have "sm_find (m_critters v) = sm_find (m_critters s)" using frows mir by simp
  moreover have "map_option lasting (sm_find (m_houses v) i) = map_option lasting (sm_find (m_houses s) i)" for i
    unfolding houses [of i, symmetric] by (cases "sm_find (m_houses u) i") (simp_all add: hs lasting_def)
  moreover have "m_objects v = m_objects u" "m_enabled v = m_enabled u" using run by simp_all
  ultimately show ?thesis unfolding t by blast
qed


definition kept_mgr :: HouseMgr where
  "kept_mgr = zoo_mgr\<lparr>m_db := (m_db zoo_mgr)\<lparr>tb_house := [(3, house_row (plain_house\<lparr>h_authorsTemplate := 1\<rparr>))]\<rparr>\<rparr>"

lemma kept_fields:
  "m_objects kept_mgr = [(8000000, plain_object)]" "m_critters kept_mgr = [(8000000, rabbit)]"
  "m_houses kept_mgr = [(3, plain_house\<lparr>h_objects := [8000000], h_critters := [8000000], h_authorsTemplate := 1\<rparr>)]"
  "tb_object (m_db kept_mgr) = [(8000000, plain_object)]" "tb_critter (m_db kept_mgr) = [(8000000, rabbit)]"
  "tb_house (m_db kept_mgr) = [(3, house_row (plain_house\<lparr>h_authorsTemplate := 1\<rparr>))]"
  "m_nextObjectGuid kept_mgr = 8000001" "m_nextCritterGuid kept_mgr = 8000001"
  by (simp_all add: kept_mgr_def zoo_mgr_def author_mgr_def)

lemma kept_inv: "objects_inv kept_mgr" "critters_inv kept_mgr" "houses_mirrored kept_mgr"
proof -
  show "objects_inv kept_mgr" "critters_inv kept_mgr"
    using zoo_inv by (simp_all add: objects_inv_rows_inv critters_inv_def mirrored_def kept_mgr_def)
  show "houses_mirrored kept_mgr"
    by (simp add: houses_mirrored_def kept_fields sm_ok_def house_row_def)
qed


end
