(* ===== verification/HouseClaims.thy ===== *)
theory HouseClaims
  imports HouseStartup
begin

section \<open>Claiming a house\<close>

text \<open>
  \<open>register_inv\<close>: the house table is the houses in memory, every account is filed under its house, and
  the next id of the table is above all of them.
\<close>

definition register_inv :: "HouseMgr \<Rightarrow> bool" where
  "register_inv s \<longleftrightarrow> houses_mirrored s
     \<and> (\<forall>i. sm_has (tb_house (m_db s)) i \<longrightarrow> i < tb_nextHouse (m_db s))
     \<and> (\<forall>i h. sm_find (m_houses s) i = Some h \<longrightarrow> sm_find (m_houseByAccount s) (h_accountId h) = Some i)"

lemma register_inv_new:
  assumes "register_inv s" and "GetHouseByAccount s a = None"
  shows "\<not> (\<exists>r \<in> set (tb_house (m_db s)). hr_account (snd r) = a)"
    and "sm_find (m_houses s) (tb_nextHouse (m_db s)) = None"
    and "sm_find (tb_house (m_db s)) (tb_nextHouse (m_db s)) = None"
proof -
  have mir: "map_option house_row (sm_find (m_houses s) i) = sm_find (tb_house (m_db s)) i"
    and ok: "sm_ok (tb_house (m_db s))" for i
    using assms(1) by (simp_all add: register_inv_def houses_mirrored_def)
  show "\<not> (\<exists>r \<in> set (tb_house (m_db s)). hr_account (snd r) = a)"
  proof
    assume "\<exists>r \<in> set (tb_house (m_db s)). hr_account (snd r) = a"
    then obtain i r where r: "(i, r) \<in> set (tb_house (m_db s))" "hr_account r = a" by auto
    then have "sm_find (tb_house (m_db s)) i = Some r" using ok by (simp add: sm_find_in)
    with mir [of i] obtain h where h: "sm_find (m_houses s) i = Some h" "house_row h = r" by auto
    then have "sm_find (m_houseByAccount s) a = Some i"
      using assms(1) r(2) by (auto simp: register_inv_def house_row_def)
    then show False using assms(2) h(1) by (simp add: GetHouseByAccount_def GetHouseById_def)
  qed
  have "\<not> sm_has (tb_house (m_db s)) (tb_nextHouse (m_db s))" using assms(1) by (auto simp: register_inv_def)
  then show tb: "sm_find (tb_house (m_db s)) (tb_nextHouse (m_db s)) = None" by (simp add: sm_has_def)
  show "sm_find (m_houses s) (tb_nextHouse (m_db s)) = None"
    using mir [of "tb_nextHouse (m_db s)"] tb by simp
qed

definition new_house :: "u32 \<Rightarrow> u32 \<Rightarrow> House" where
  "new_house i a = \<lparr>h_id = i, h_accountId = a, h_portalId = 0, h_instanceId = 0, h_name = [],
     h_objects = [], h_critters = [], h_templateId = 0, h_authorsTemplate = 0, h_exit = no_exit\<rparr>"

lemma new_house_fields [simp]:
  "h_id (new_house i a) = i" "h_accountId (new_house i a) = a" "h_objects (new_house i a) = []"
  "h_critters (new_house i a) = []" "h_exit (new_house i a) = no_exit" "h_templateId (new_house i a) = 0"
  by (simp_all add: new_house_def)

lemma CreateHouse_run:
  assumes reg: "register_inv s" and none: "GetHouseByAccount s a = None"
  defines "n \<equiv> tb_nextHouse (m_db s)"
  obtains t where "CreateHouse a s = (t, Some (new_house n a))"
    and "m_houses t = sm_put n (new_house n a) (m_houses s)"
    and "m_houseByAccount t = sm_put a n (m_houseByAccount s)"
    and "m_objects t = m_objects s" and "m_critters t = m_critters s" and "m_nextObjectGuid t = m_nextObjectGuid s"
    and "m_nextCritterGuid t = m_nextCritterGuid s" and "m_houseTemplates t = m_houseTemplates s"
    and "m_storage t = m_storage s" and "tb_object (m_db t) = tb_object (m_db s)"
    and "tb_critter (m_db t) = tb_critter (m_db s)"
proof -
  note new = register_inv_new [OF reg none, folded n_def]
  let ?r = "\<lparr>hr_account = a, hr_instance = 0, hr_name = [], hr_exit = no_exit, hr_portal = 0, hr_template = 0\<rparr>"
  have db: "sql_insert_house a (m_db s) = (m_db s)\<lparr>tb_house := sm_put n ?r (tb_house (m_db s)), tb_nextHouse := n + 1\<rparr>"
    using new(1) by (auto simp: sql_insert_house_def n_def)
  have found: "find (\<lambda>r. hr_account (snd r) = a) (sm_put n ?r (tb_house (m_db s))) = Some (n, ?r)"
    using new by (intro find_sm_put) auto
  show thesis
    by (rule that [of "s\<lparr>m_db := sql_insert_house a (m_db s), m_houses := sm_put n (new_house n a) (m_houses s),
          m_houseByAccount := sm_put a n (m_houseByAccount s)\<rparr>"])
       (simp_all add: CreateHouse_def Let_def pexec_def db found new_house_def GetHouseById_def)
qed


text \<open>A new house and the stamp of the door's template, when it has one.\<close>

lemma stamp_new_house:
  fixes sv :: server and s :: HouseMgr and templateId i :: u32
  assumes inv: "objects_inv s" "critters_inv s" and h: "sm_find (m_houses s) i = Some house"
    and empty: "h_objects house = []" "h_exit house = no_exit" "h_templateId house = 0"
    and room: "unat (m_nextObjectGuid s) + length (shell_rows s templateId) \<le> unat HOUSE_GO_GUID_MAX"
    and plain: "plain_frozen (shell_rows s templateId)"
  defines "out \<equiv> stamped i (m_nextObjectGuid s) 1 (shell_rows s templateId)"
    and "t \<equiv> (case shell_of s templateId of None \<Rightarrow> s | Some tpl \<Rightarrow> StampTemplate sv i tpl s)"
  shows "objects_inv t \<and> critters_inv t
    \<and> sm_find (m_houses t) = (sm_find (m_houses s))(i \<mapsto> (shell_house s templateId house)\<lparr>h_objects := map fst out\<rparr>)
    \<and> sm_find (m_objects t) = sm_find (m_objects s) ++ map_of out
    \<and> m_critters t = m_critters s \<and> estate t = estate s"
proof (cases "shell_of s templateId")
  case None
  then have "out = []" "t = s" by (simp_all add: out_def t_def shell_rows_def)
  moreover have "(shell_house s templateId house)\<lparr>h_objects := []\<rparr> = house"
    using empty by (cases house) (simp add: shell_house_def None)
  ultimately show ?thesis using inv h by (simp add: fun_upd_idem)
next
  case (Some tpl)
  have rows: "shell_rows s templateId = t_objects tpl" and t: "t = StampTemplate sv i tpl s"
    by (simp_all add: shell_rows_def t_def Some)
  have rinv: "rows_inv o_guid o_houseId h_objects (m_houses s) (m_objects s) (m_nextObjectGuid s)"
    and mir: "mirrored s" and low: "HOUSE_GO_GUID_MIN \<le> m_nextObjectGuid s"
    using inv(1) by (simp_all add: objects_inv_rows_inv)
  have n0: "m_nextObjectGuid s \<noteq> 0" using objects_inv_bounds [OF inv(1)] by simp
  note st = StampTemplate_run [OF rinv inv(2) h empty(1) n0 room [unfolded rows], of sv, folded t,
      folded rows, folded out_def]
  have cols: "map (map_prod id stamped_columns) out = out" using plain by (simp add: out_def plain_stamped)
  have "mirrored t" using st mir unfolding mirrored_def cols by simp
  moreover have "HOUSE_GO_GUID_MIN \<le> m_nextObjectGuid t"
    using st low room by (simp add: word_le_nat_alt unat_word_ariths HOUSE_GO_GUID_MAX_def unat_of_nat take_bit_eq_mod)
  ultimately have oinv: "objects_inv t" using st unfolding objects_inv_rows_inv by blast
  have "house\<lparr>h_objects := map fst out, h_exit := t_exit tpl, h_templateId := t_id tpl\<rparr>
      = (shell_house s templateId house)\<lparr>h_objects := map fst out\<rparr>"
    by (simp add: shell_house_def Some)
  note st = st [unfolded this]
  then have "sm_find (m_houses t) = (sm_find (m_houses s))
      (i \<mapsto> (shell_house s templateId house)\<lparr>h_objects := map fst out\<rparr>)" by blast
  with oinv st show ?thesis by (simp add: t)
qed

lemma ClaimHouseAt_run:
  fixes sv :: server and s :: HouseMgr and p :: player and portalId :: u32
  assumes inv: "objects_inv s" "critters_inv s" "register_inv s" and on: "m_enabled s"
    and door: "GetPortal s portalId = Some door" and calm: "\<not> pl_combat p"
    and none: "GetHouseByAccount s (pl_account p) = None"
    and room: "unat (m_nextObjectGuid s) + length (shell_rows s (p_templateId door)) \<le> unat HOUSE_GO_GUID_MAX"
    and plain: "plain_frozen (shell_rows s (p_templateId door))"
  shows "case ClaimHouseAt sv s p portalId of (t, _, _) \<Rightarrow>
      objects_inv t \<and> critters_inv t
    \<and> (\<exists>inst. sm_find (m_houses t) = (sm_find (m_houses s))(tb_nextHouse (m_db s) \<mapsto>
          (shell_house s (p_templateId door) (new_house (tb_nextHouse (m_db s)) (pl_account p)))
            \<lparr>h_objects := map fst (stamped (tb_nextHouse (m_db s)) (m_nextObjectGuid s) 1 (shell_rows s (p_templateId door))),
             h_portalId := portalId, h_instanceId := inst\<rparr>))
    \<and> sm_find (m_houseByAccount t) = (sm_find (m_houseByAccount s))(pl_account p \<mapsto> tb_nextHouse (m_db s))
    \<and> sm_find (m_objects t) = sm_find (m_objects s)
          ++ map_of (stamped (tb_nextHouse (m_db s)) (m_nextObjectGuid s) 1 (shell_rows s (p_templateId door)))
    \<and> m_critters t = m_critters s"
proof -
  let ?n = "tb_nextHouse (m_db s)" and ?tp = "p_templateId door" and ?a = "pl_account p"
  let ?new = "new_house ?n ?a"
  obtain s1 where create: "CreateHouse ?a s = (s1, Some ?new)"
    and c: "m_houses s1 = sm_put ?n ?new (m_houses s)" "m_houseByAccount s1 = sm_put ?a ?n (m_houseByAccount s)"
      "m_objects s1 = m_objects s" "m_critters s1 = m_critters s" "m_nextObjectGuid s1 = m_nextObjectGuid s"
      "m_nextCritterGuid s1 = m_nextCritterGuid s" "m_houseTemplates s1 = m_houseTemplates s"
      "m_storage s1 = m_storage s" "tb_object (m_db s1) = tb_object (m_db s)" "tb_critter (m_db s1) = tb_critter (m_db s)"
    by (rule CreateHouse_run [OF inv(3) none]) blast
  have free: "sm_find (m_houses s) ?n = None" by (rule register_inv_new [OF inv(3) none])
  have inv1: "objects_inv s1" "critters_inv s1"
  proof -
    have "rows_inv o_guid o_houseId h_objects (m_houses s) (m_objects s) (m_nextObjectGuid s)"
      using inv(1) by (simp add: objects_inv_rows_inv)
    from rows_inv_new_house [OF this free, of ?new] inv(1) show "objects_inv s1"
      by (simp add: objects_inv_rows_inv mirrored_def c)
    have "rows_inv c_guid c_houseId h_critters (m_houses s) (m_critters s) (m_nextCritterGuid s)"
      using inv(2) by (simp add: critters_inv_def)
    from rows_inv_new_house [OF this free, of ?new] inv(2) show "critters_inv s1"
      by (simp add: critters_inv_def c)
  qed
  have h1: "sm_find (m_houses s1) ?n = Some ?new" by (simp add: c)
  have shell: "shell_of s1 ?tp = shell_of s ?tp" "shell_rows s1 ?tp = shell_rows s ?tp"
    "shell_house s1 ?tp = shell_house s ?tp"
    by (simp_all add: shell_rows_def shell_house_def shell_of_def GetTemplate_def c fun_eq_iff)
  define s2 where "s2 = (case shell_of s1 ?tp of None \<Rightarrow> s1 | Some tpl \<Rightarrow> StampTemplate sv ?n tpl s1)"
  define out where "out = stamped ?n (m_nextObjectGuid s) 1 (shell_rows s ?tp)"
  define h2 where "h2 = (shell_house s ?tp ?new)\<lparr>h_objects := map fst out\<rparr>"
  have run: "objects_inv s2 \<and> critters_inv s2 \<and> sm_find (m_houses s2) = (sm_find (m_houses s1))(?n \<mapsto> h2)
      \<and> sm_find (m_objects s2) = sm_find (m_objects s1) ++ map_of out \<and> m_critters s2 = m_critters s1 \<and> estate s2 = estate s1"
    using stamp_new_house [OF inv1 h1, of ?tp sv] room plain
    unfolding c(5) shell(2,3) s2_def [symmetric] out_def [symmetric] h2_def [symmetric]
    by (simp del: sm_find_put fun_upd_apply)
  then have inv2: "objects_inv s2" "critters_inv s2" and f2: "sm_find (m_houses s2) ?n = Some h2"
    and est: "estate s2 = estate s1" by simp_all
  have id2: "h_id h2 = ?n" by (simp add: h2_def shell_house_def split: option.split)
  define s3 where "s3 = set_home_door ?n portalId s2"
  let ?h3 = "h2\<lparr>h_portalId := portalId\<rparr>"
  note d = set_home_door_run [OF f2 id2, of portalId, folded s3_def]
  have inv3: "objects_inv s3 \<and> critters_inv s3"
    by (rule invs_keep_house [OF inv2 f2, where h' = ?h3]) (simp_all add: d id2)
  obtain s6 p1 where eq: "rooms s6 = rooms s3" and acc: "pl_account p1 = ?a"
    and claim: "ClaimHouseAt sv s p portalId = SendPlayerHome sv s6 p1"
  proof -
    define s4 where "s4 = emit (OnPlayer (pl_guid p) Announce) (say p ''A comfy corner of Azeroth is now yours.'' s3)"
    define taught where "taught = (if HOUSE_HOME_PORTAL_SPELL \<notin> set (pl_spells p)
        then (case TeachHomePortal s4 p of
                (t, q) \<Rightarrow> (say q ''You have learned Portal Home. Cast it anywhere to open a way back here.'' t, q))
        else (s4, p))"
    have "rooms (fst taught) = rooms s3" "pl_account (snd taught) = ?a"
      using rooms_TeachHomePortal [of s4 p] by (auto simp: taught_def s4_def TeachHomePortal_def)
    moreover have tpl2: "(if ?tp = 0 then s1 else case GetTemplate s1 ?tp of None \<Rightarrow> s1
        | Some tpl \<Rightarrow> StampTemplate sv (h_id ?new) tpl s1) = s2"
      by (simp add: s2_def shell_of_def split: option.split)
    have "ClaimHouseAt sv s p portalId
        = SendPlayerHome sv (RememberEntrance (snd taught) portalId (fst taught)) (snd taught)"
      using on door calm none unfolding ClaimHouseAt_def
      by (simp only: create option.case prod.case Let_def tpl2 simp_thms if_False if_True)
         (simp add: s3_def [symmetric] s4_def [symmetric] taught_def case_prod_beta)
    ultimately show thesis using that by (metis rooms_RememberEntrance)
  qed
  have inv6: "objects_inv s6" "critters_inv s6" using inv3 rooms_inv [OF eq] by simp_all
  have m6: "m_houses s6 = m_houses s3" "m_objects s6 = m_objects s3" "m_critters s6 = m_critters s3"
    "m_houseByAccount s6 = m_houseByAccount s3" using eq by (simp_all add: rooms_def)
  have byacc: "m_houseByAccount s6 = sm_put ?a ?n (m_houseByAccount s)" by (simp add: m6 d estate_fields [OF est] c)
  have h6: "sm_find (m_houses s6) ?n = Some ?h3" by (simp add: m6 d)
  have acc6: "GetHouseByAccount s6 (pl_account p1) = Some ?h3"
    using h6 by (simp add: GetHouseByAccount_def GetHouseById_def byacc acc)
  have id3: "h_id ?h3 = ?n" by (simp add: id2)
  note go = SendPlayerHome_rooms [OF acc6 h6 [folded id3], of sv, unfolded id3]
  note goinv = SendPlayerHome_invs [OF inv6 acc6 h6 [folded id3], of sv]
  obtain inst where inst: "sm_find (m_houses (fst (SendPlayerHome sv s6 p1)))
      = (sm_find (m_houses s))(?n \<mapsto> ?h3\<lparr>h_instanceId := inst\<rparr>)"
    using go(1) run by (auto simp: m6 d c fun_eq_iff)
  obtain t q r where t: "SendPlayerHome sv s6 p1 = (t, q, r)" by (metis prod_cases3)
  have "objects_inv t \<and> critters_inv t" using goinv by (simp only: t fst_conv)
  moreover have "sm_find (m_objects t) = sm_find (m_objects s) ++ map_of out" and "m_critters t = m_critters s"
    using run go(2,3) by (simp_all only: t fst_conv m6 d c)
  moreover have "sm_find (m_houseByAccount t) = (sm_find (m_houseByAccount s))(?a \<mapsto> ?n)"
    using go(7) by (simp add: t byacc fun_eq_iff)
  moreover have "\<exists>inst. sm_find (m_houses t) = (sm_find (m_houses s))(?n \<mapsto> ?h3\<lparr>h_instanceId := inst\<rparr>)"
    using inst by (simp only: t fst_conv) blast
  ultimately show ?thesis
    unfolding claim t case_prod_conv out_def [symmetric] by (simp add: h2_def)
qed



text \<open>A town with one door, to the loft, and nobody at home yet.\<close>

definition vacant_mgr :: HouseMgr where
  "vacant_mgr = plain_mgr\<lparr>m_houses := [], m_houseByAccount := [], m_houseByInstance := [],
     m_portals := [(4, one_door\<lparr>p_templateId := 2\<rparr>)], m_houseTemplates := [(2, loft)]\<rparr>"


end
