(* ===== verification/HouseRuns.thy ===== *)
theory HouseRuns
  imports HouseClaims
begin

section \<open>Any sequence of operations\<close>

text \<open>
  The invariants of furniture and animals were proved operation by operation, each for its own rows;
  here they are kept by every operation that touches either, so along any run.
\<close>

definition well_kept :: "HouseMgr \<Rightarrow> bool" where
  "well_kept s \<longleftrightarrow> objects_inv s \<and> critters_inv s"

lemma well_kept_core: "well_kept s \<Longrightarrow> core t = core s \<Longrightarrow> well_kept t"
  unfolding well_kept_def using objects_inv_core critters_inv_core by blast

lemma shell_critters:
  assumes "shell t = shell s"
  shows "m_nextCritterGuid t = m_nextCritterGuid s" and "tb_critter (m_db t) = tb_critter (m_db s)"
proof -
  show "m_nextCritterGuid t = m_nextCritterGuid s"
    using arg_cong [OF assms, of m_nextCritterGuid] by (simp add: shell_def core_def)
  show "tb_critter (m_db t) = tb_critter (m_db s)"
    using arg_cong [OF arg_cong [OF assms, of m_db], of tb_critter] by (simp add: shell_def)
qed

lemma well_kept_rows:
  assumes "well_kept s" and ch: "rows_changed f s t"
    and "\<And>g ob. o_guid (f g ob) = o_guid ob \<and> o_houseId (f g ob) = o_houseId ob"
  shows "well_kept t"
proof -
  have sh: "shell t = shell s" using ch by (simp add: rows_changed_def)
  have "critters_inv t"
    using assms(1) by (simp add: well_kept_def critters_inv_def shell_critters [OF sh] shell_fields [OF sh])
  with objects_inv_rows [OF _ ch assms(3)] assms(1) show ?thesis by (simp add: well_kept_def)
qed

text \<open>A new row, or a row less, in the list of one house is nothing to the rows of the other kind.\<close>

lemma critters_inv_relist:
  assumes "critters_inv s" and "sm_find (m_houses s) i = Some house"
    and "h_id h' = i" and "h_critters h' = h_critters house"
    and "m_houses t = sm_put i h' (m_houses s)" and "m_critters t = m_critters s"
    and "m_nextCritterGuid t = m_nextCritterGuid s" and "tb_critter (m_db t) = tb_critter (m_db s)"
  shows "critters_inv t"
proof -
  have "rows_inv c_guid c_houseId h_critters (m_houses s) (m_critters s) (m_nextCritterGuid s)"
    using assms(1) by (simp add: critters_inv_def)
  from rows_inv_keep_house [OF this assms(2-4)] assms(1) show ?thesis by (simp add: critters_inv_def assms(5-8))
qed

lemma objects_inv_relist:
  assumes "objects_inv s" and "sm_find (m_houses s) i = Some house"
    and "h_id h' = i" and "h_objects h' = h_objects house"
    and "m_houses t = sm_put i h' (m_houses s)" and "m_objects t = m_objects s"
    and "m_nextObjectGuid t = m_nextObjectGuid s" and "tb_object (m_db t) = tb_object (m_db s)"
  shows "objects_inv t"
proof -
  have "rows_inv o_guid o_houseId h_objects (m_houses s) (m_objects s) (m_nextObjectGuid s)"
    using assms(1) by (simp add: objects_inv_rows_inv)
  from rows_inv_keep_house [OF this assms(2-4)] assms(1) show ?thesis
    by (simp add: objects_inv_rows_inv mirrored_def assms(5-8))
qed

lemma objects_inv_same:
  assumes "objects_inv s" and "m_houses t = m_houses s" and "m_objects t = m_objects s"
    and "m_nextObjectGuid t = m_nextObjectGuid s" and "tb_object (m_db t) = tb_object (m_db s)"
  shows "objects_inv t"
  using assms(1) by (simp add: objects_inv_rows_inv mirrored_def assms(2-))

subsection \<open>Furniture\<close>

lemma well_kept_PlaceObject:
  assumes good: "well_kept s"
  shows "well_kept (fst (PlaceObject sv s p goEntry distance itemEntry scale spot))"
proof -
  have oi: "objects_inv s" and ci: "critters_inv s" using good by (simp_all add: well_kept_def)
  show ?thesis
  proof (cases rule: PlaceObject_cases [OF objects_inv_bounds [OF oi], of sv p goEntry distance itemEntry scale spot,
      case_names refused accepted])
    case (refused e s1)
    then have "core s1 = core s" using aim_core by auto
    then show ?thesis using well_kept_core [OF good] refused(1) by simp
  next
    case (accepted house s1 xyz)
    let ?ob = "new_row p house (m_nextObjectGuid s) goEntry xyz itemEntry scale (AllocateSlot s house)"
    have h: "sm_find (m_houses s) (h_id house) = Some house" by (rule CheckOwner_house [OF oi accepted(1)])
    have ob: "o_guid ?ob = m_nextObjectGuid s" "o_houseId ?ob = h_id house" by (cases xyz, simp add: new_row_def)+
    have "objects_inv (insert_row house ?ob s)" by (rule insert_row_inv [OF oi h ob accepted(4)])
    moreover have "critters_inv (insert_row house ?ob s)"
      by (rule critters_inv_relist [OF ci h, where h' = "house\<lparr>h_objects := h_objects house @ [o_guid ?ob]\<rparr>"])
         (simp_all add: insert_row_def put_house_def pexec_def sql_insert_object_def)
    ultimately have "well_kept (insert_row house ?ob s)" by (simp add: well_kept_def)
    then show ?thesis unfolding accepted(7) fst_conv by (rule well_kept_core) (rule placed_core [OF accepted(3)])
  qed
qed

lemma well_kept_RemoveObject:
  assumes good: "well_kept s"
  shows "well_kept (fst (RemoveObject sv s p guid))"
proof -
  have oi: "objects_inv s" and ci: "critters_inv s" using good by (simp_all add: well_kept_def)
  show ?thesis
  proof (cases rule: RemoveObject_cases [of sv s p guid])
    case (refused e)
    then show ?thesis using good by simp
  next
    case (accepted house ob q t)
    have h: "sm_find (m_houses s) (h_id house) = Some house" by (rule CheckOwner_house [OF oi accepted(1)])
    have core: "core t = core (delete_row house guid s)"
      unfolding accepted(7) by (rule RemoveObject_core [OF oi accepted(1,2)])
    have "objects_inv (delete_row house guid s)" by (rule delete_row_inv [OF oi h accepted(2,3)])
    moreover have "critters_inv (delete_row house guid s)"
      by (rule critters_inv_relist [OF ci h, where h' = "house\<lparr>h_objects := filter (\<lambda>g. g \<noteq> guid) (h_objects house)\<rparr>"])
         (simp_all add: delete_row_def put_house_def pexec_def sql_delete_object_def)
    ultimately have "well_kept (delete_row house guid s)" by (simp add: well_kept_def)
    then show ?thesis unfolding accepted(5) fst_conv by (rule well_kept_core) (rule core)
  qed
qed

lemma well_kept_clear: "well_kept s \<Longrightarrow> well_kept (fst (clear_objects sv gs (s, p, r, k, n)))"
proof (induction gs arbitrary: s p r k n)
  case (Cons g gs)
  obtain s1 p1 a where run: "RemoveObject sv s p g = (s1, p1, a)" by (metis prod_cases3)
  then have "well_kept s1" using well_kept_RemoveObject [OF Cons.prems, of sv p g] by simp
  then show ?case using Cons.IH by (simp add: run split: sum.split)
qed simp

lemma well_kept_ClearHouse: "well_kept s \<Longrightarrow> well_kept (fst (ClearHouse sv s p))"
  using well_kept_clear by (auto simp: ClearHouse_def split: sum.split prod.split) (metis fst_conv)

lemma well_kept_finish_placements:
  assumes good: "well_kept s"
  shows "well_kept (fst (finish_placements sv s p qs))"
proof (cases "finish_placements sv s p qs")
  case (Pair t r)
  show ?thesis
  proof (cases r)
    case (Inl e)
    with finish_placements_refused [of sv s p qs t e] Pair have "t = s" by simp
    then show ?thesis using Pair good by simp
  next
    case (Inr u)
    have keyed: "keyed s" using good objects_inv_keyed by (simp add: well_kept_def)
    have t: "t = RefreshSelectionMarker sv p (fold (ApplyPlacement sv p) qs s)"
      using Pair Inr by (auto simp: finish_placements_def PlaceAll_def split: if_splits)
    have "rows_changed (\<lambda>g. fold (\<lambda>q. if g = q_guid q then placed q else (\<lambda>ob. ob)) qs) s (fold (ApplyPlacement sv p) qs s)"
      by (rule rows_changed_fold [OF ApplyPlacement_rows _ keyed]) auto
    moreover have "o_guid (fold (\<lambda>q. if g = q_guid q then placed q else (\<lambda>ob. ob)) qs ob) = o_guid ob
        \<and> o_houseId (fold (\<lambda>q. if g = q_guid q then placed q else (\<lambda>ob. ob)) qs ob) = o_houseId ob" for g ob
      by (induction qs arbitrary: ob) auto
    ultimately have "well_kept (fold (ApplyPlacement sv p) qs s)" by (rule well_kept_rows [OF good])
    then show ?thesis unfolding Pair t fst_conv by (rule well_kept_core) simp
  qed
qed

lemma well_kept_rearranged:
  assumes "well_kept s"
  shows "well_kept (fst (DragObject sv s p g))" and "well_kept (fst (OffsetObject sv s p g dx dy dz))"
    and "well_kept (fst (TurnObject sv s p g degrees faceMe))" and "well_kept (fst (ScaleObject sv s p g factor relative))"
  using well_kept_finish_placements [OF assms] assms
  by (auto simp: DragObject_def OffsetObject_def TurnObject_def ScaleObject_def Let_def split: sum.split)

lemma well_kept_regrouped:
  assumes good: "well_kept s" and step: "\<And>g s. rows_changed (\<lambda>k. if k = g then set_group n else (\<lambda>ob. ob)) s (step g s)"
  shows "well_kept (fold step gs s)"
proof -
  have "keyed s" using good objects_inv_keyed by (simp add: well_kept_def)
  from regroup_rows [OF this step] show ?thesis by (rule well_kept_rows [OF good]) simp
qed

lemma well_kept_groups:
  assumes good: "well_kept s"
  shows "well_kept (fst (JoinGroup sv s p g k))" and "well_kept (fst (LeaveGroup sv s p g))"
proof -
  have "well_kept (RefreshSelectionMarker sv p (fold (write_group sv p n) gs s))" for n gs
    by (rule well_kept_core [OF well_kept_regrouped [OF good write_group_rows]]) simp
  then show "well_kept (fst (JoinGroup sv s p g k))"
    using good by (auto simp: JoinGroup_def Let_def simp del: fold_append map_append split: sum.split)
  have "well_kept (RefreshSelectionMarker sv p (FlashObject sv p g (fold ungroup gs s)))" for gs
    by (rule well_kept_core [OF well_kept_regrouped [OF good ungroup_rows]]) simp
  then show "well_kept (fst (LeaveGroup sv s p g))"
    using good by (auto simp: LeaveGroup_def Let_def split: sum.split)
qed


subsection \<open>Animals\<close>

lemma critters_on: "critters_inv s \<Longrightarrow> sm_find (m_critters s) g = Some c \<Longrightarrow> m_nextCritterGuid s \<noteq> 0"
  unfolding critters_inv_def using rows_inv_row by fastforce

lemma well_kept_PlaceCritter:
  assumes good: "well_kept s"
  shows "well_kept (fst (PlaceCritter sv s p entry wander itemEntry))"
proof -
  have oi: "objects_inv s" and ci: "critters_inv s" using good by (simp_all add: well_kept_def)
  show ?thesis
  proof (cases rule: PlaceCritter_cases [of sv s p entry wander itemEntry])
    case (refused e s1)
    then show ?thesis using well_kept_core [OF good] by simp
  next
    case (accepted house s1 spot used)
    let ?n = "m_nextCritterGuid s"
    let ?c = "new_critter p house ?n (AllocateCritterSlot s house) entry itemEntry wander spot"
    let ?t = "finish_critter sv (s1\<lparr>m_nextCritterGuid := ?n + 1\<rparr>) p house ?c used"
    note same = core_fields [OF accepted(8)]
    have h: "sm_find (m_houses s) (h_id house) = Some house" by (rule CheckOwner_found [OF ci accepted(1)])
    have rows: "rows_inv c_guid c_houseId h_critters (m_houses s) (m_critters s) ?n"
      and table: "sm_find (m_critters s) = sm_find (tb_critter (m_db s))"
      using ci accepted(2) by (simp_all add: critters_inv_def)
    have f: "m_critters ?t = sm_put ?n ?c (m_critters s)"
      "m_houses ?t = sm_put (h_id house) (house\<lparr>h_critters := h_critters house @ [?n]\<rparr>) (m_houses s)"
      "m_db ?t = sql_insert_critter ?c (m_db s)" "m_nextCritterGuid ?t = ?n + 1"
      "m_objects ?t = m_objects s" "m_nextObjectGuid ?t = m_nextObjectGuid s"
      by (simp_all add: finish_critter_fields same)
    have "rows_inv c_guid c_houseId h_critters (m_houses ?t) (m_critters ?t) (?n + 1)"
      unfolding f using critter_rows.add_row [OF rows, of ?c house "?n + 1"] h accepted(2) critter_limit [OF accepted(3)]
      by simp
    moreover have "sm_find (m_critters ?t) = sm_find (tb_critter (m_db ?t))"
      unfolding f sql_insert_critter_def using table by (simp add: fun_eq_iff)
    ultimately have "critters_inv ?t" unfolding critters_inv_def f(4) by simp
    moreover have "objects_inv ?t"
      by (rule objects_inv_relist [OF oi h, where h' = "house\<lparr>h_critters := h_critters house @ [?n]\<rparr>"])
         (simp_all add: f sql_insert_critter_def)
    ultimately show ?thesis unfolding accepted(9) by (simp add: well_kept_def)
  qed
qed

lemma well_kept_RemoveCritter:
  assumes good: "well_kept s"
  shows "well_kept (fst (RemoveCritter sv s p guid))"
proof -
  have oi: "objects_inv s" and ci: "critters_inv s" using good by (simp_all add: well_kept_def)
  show ?thesis
  proof (cases rule: RemoveCritter_cases [of sv s p guid])
    case (accepted house c q)
    have h: "sm_find (m_houses s) (h_id house) = Some house" by (rule CheckOwner_found [OF ci accepted(1)])
    have rows: "rows_inv c_guid c_houseId h_critters (m_houses s) (m_critters s) (m_nextCritterGuid s)"
      using ci by (simp add: critters_inv_def)
    have "guid \<in> set (h_critters house)" using rows_inv_row [OF rows accepted(2)] h accepted(3) by simp
    from purge_critter_one [OF oi ci h this, of sv] show ?thesis unfolding accepted(5) by (simp add: well_kept_def)
  qed (use good in simp)
qed

text \<open>An animal's row rewritten under the same id and house, in memory and table.\<close>

lemma well_kept_rewritten:
  assumes good: "well_kept s" and c: "sm_find (m_critters s) g = Some c"
    and c': "c_guid c' = c_guid c" "c_houseId c' = c_houseId c"
    and t: "m_houses t = m_houses s" "m_objects t = m_objects s" "m_nextObjectGuid t = m_nextObjectGuid s"
      "tb_object (m_db t) = tb_object (m_db s)" "m_nextCritterGuid t = m_nextCritterGuid s"
      "m_critters t = sm_put g c' (m_critters s)"
      "sm_find (tb_critter (m_db t)) = (sm_find (tb_critter (m_db s)))(g := map_option (\<lambda>_. c') (sm_find (tb_critter (m_db s)) g))"
  shows "well_kept t"
proof -
  have oi: "objects_inv s" and ci: "critters_inv s" using good by (simp_all add: well_kept_def)
  have rows: "rows_inv c_guid c_houseId h_critters (m_houses s) (m_critters s) (m_nextCritterGuid s)"
    and table: "sm_find (m_critters s) = sm_find (tb_critter (m_db s))"
    using ci critters_on [OF ci c] by (simp_all add: critters_inv_def)
  have "sm_find (m_critters t) = sm_find (tb_critter (m_db t))"
    using c table by (simp add: t(6,7) fun_eq_iff)
  then have "critters_inv t"
    using rows_inv_rewrite [OF rows c c'] by (simp add: critters_inv_def t(1,5,6))
  with objects_inv_same [OF oi t(1-4)] show ?thesis by (simp add: well_kept_def)
qed

lemma well_kept_MoveCritter:
  assumes good: "well_kept s"
  shows "well_kept (fst (MoveCritter sv s p g drag setWander wander))"
proof (cases "fst (MoveCritter sv s p g drag setWander wander) = s")
  case False
  let ?t = "fst (MoveCritter sv s p g drag setWander wander)"
  let ?c' = "\<lambda>c. moved_critter p drag setWander wander c"
  from False obtain c where c: "sm_find (m_critters s) g = Some c"
    and f: "m_critters ?t = sm_put g (?c' c) (m_critters s)" "m_houses ?t = m_houses s"
      "m_db ?t = sql_update_critter_place g (c_x (?c' c)) (c_y (?c' c)) (c_z (?c' c)) (c_o (?c' c)) (c_wander (?c' c)) (m_db s)"
      "m_nextCritterGuid ?t = m_nextCritterGuid s" "m_objects ?t = m_objects s" "m_nextObjectGuid ?t = m_nextObjectGuid s"
    by (auto simp: MoveCritter_def Let_def pexec_def StartCritterWalk_def split: sum.splits option.splits if_splits)
  have ci: "critters_inv s" using good by (simp add: well_kept_def)
  have table: "sm_find (tb_critter (m_db s)) g = Some c"
    using c ci critters_on [OF ci c] by (simp add: critters_inv_def)
  have same: "c\<lparr>c_x := c_x (?c' c), c_y := c_y (?c' c), c_z := c_z (?c' c), c_o := c_o (?c' c),
      c_wander := c_wander (?c' c)\<rparr> = ?c' c"
    by (cases c) (simp add: moved_critter_def Let_def)
  show ?thesis
    by (rule well_kept_rewritten [OF good c, where c' = "?c' c"])
       (simp_all add: f table same sql_update_critter_place_def fun_eq_iff, simp_all add: moved_critter_def Let_def)
qed (use good in simp)

lemma well_kept_NameCritter:
  assumes good: "well_kept s"
  shows "well_kept (fst (NameCritter sv s p g raw))"
proof (cases "fst (NameCritter sv s p g raw) = s")
  case False
  let ?t = "fst (NameCritter sv s p g raw)" and ?n = "CleanCritterName raw"
  from False obtain c where c: "sm_find (m_critters s) g = Some c"
    and f: "m_critters ?t = sm_put g (c\<lparr>c_customName := ?n\<rparr>) (m_critters s)" "m_houses ?t = m_houses s"
      "m_db ?t = sql_update_critter_name g ?n (m_db s)" "m_nextCritterGuid ?t = m_nextCritterGuid s"
      "m_objects ?t = m_objects s" "m_nextObjectGuid ?t = m_nextObjectGuid s"
    by (auto simp: NameCritter_def Let_def pexec_def split: sum.splits option.splits if_splits)
  have ci: "critters_inv s" using good by (simp add: well_kept_def)
  have table: "sm_find (tb_critter (m_db s)) g = Some c"
    using c ci critters_on [OF ci c] by (simp add: critters_inv_def)
  show ?thesis
    by (rule well_kept_rewritten [OF good c, where c' = "c\<lparr>c_customName := ?n\<rparr>"])
       (simp_all add: f table sql_update_critter_name_def fun_eq_iff)
qed (use good in simp)


subsection \<open>Runs\<close>

text \<open>
  One operation, by any player on any server. Moving and claiming stamp a template: the id block must
  have room for it and its rows be those the table holds (which they are after a restart).
\<close>

inductive house_step :: "HouseMgr \<Rightarrow> HouseMgr \<Rightarrow> bool" where
  place: "house_step s (fst (PlaceObject sv s p goEntry distance itemEntry scale spot))"
| remove: "house_step s (fst (RemoveObject sv s p guid))"
| clear: "house_step s (fst (ClearHouse sv s p))"
| drag: "house_step s (fst (DragObject sv s p guid))"
| offset: "house_step s (fst (OffsetObject sv s p guid dx dy dz))"
| turn: "house_step s (fst (TurnObject sv s p guid degrees faceMe))"
| scale: "house_step s (fst (ScaleObject sv s p guid factor relative))"
| join: "house_step s (fst (JoinGroup sv s p guid withGuid))"
| leave: "house_step s (fst (LeaveGroup sv s p guid))"
| place_animal: "house_step s (fst (PlaceCritter sv s p entry wander itemEntry))"
| remove_animal: "house_step s (fst (RemoveCritter sv s p guid))"
| move_animal: "house_step s (fst (MoveCritter sv s p guid dragged setWander wander))"
| name_animal: "house_step s (fst (NameCritter sv s p guid raw))"
| move_house: "m_enabled s \<Longrightarrow> GetPortal s portalId = Some door \<Longrightarrow> \<not> pl_combat p \<Longrightarrow>
    GetHouseByAccount s (pl_account p) = Some house \<Longrightarrow> \<not> IsHomePortal s house portalId \<Longrightarrow>
    unat (m_nextObjectGuid s) + length (shell_rows s (p_templateId door)) \<le> unat HOUSE_GO_GUID_MAX \<Longrightarrow>
    plain_frozen (shell_rows s (p_templateId door)) \<Longrightarrow>
    house_step s (fst (MoveHouseTo sv s p portalId))"
| claim_house: "m_enabled s \<Longrightarrow> GetPortal s portalId = Some door \<Longrightarrow> \<not> pl_combat p \<Longrightarrow>
    GetHouseByAccount s (pl_account p) = None \<Longrightarrow> register_inv s \<Longrightarrow>
    unat (m_nextObjectGuid s) + length (shell_rows s (p_templateId door)) \<le> unat HOUSE_GO_GUID_MAX \<Longrightarrow>
    plain_frozen (shell_rows s (p_templateId door)) \<Longrightarrow>
    house_step s (fst (ClaimHouseAt sv s p portalId))"

lemma well_kept_step:
  assumes "house_step s t" and "well_kept s"
  shows "well_kept t"
  using assms
proof (induction rule: house_step.induct)
  case (move_house s portalId door p house sv)
  then have "objects_inv s" "critters_inv s" by (simp_all add: well_kept_def)
  from MoveHouseTo_run [OF this move_house(1-7), of sv] show ?case
    by (cases "MoveHouseTo sv s p portalId") (simp add: well_kept_def)
next
  case (claim_house s portalId door p sv)
  then have "objects_inv s" "critters_inv s" by (simp_all add: well_kept_def)
  from ClaimHouseAt_run [OF this claim_house(5,1-4,6,7), of sv] show ?case
    by (cases "ClaimHouseAt sv s p portalId") (simp add: well_kept_def)
qed (simp_all add: well_kept_PlaceObject well_kept_RemoveObject well_kept_ClearHouse well_kept_rearranged
    well_kept_groups well_kept_PlaceCritter well_kept_RemoveCritter well_kept_MoveCritter well_kept_NameCritter)



end
