(* ===== verification/HouseMarket.thy ===== *)
theory HouseMarket
  imports HouseEditing
begin

section \<open>Gold, bags and the repair table\<close>

text \<open>
  What the working objects of a house (Housing/HouseUpgrades.cpp) do to a customer: his gold, the items
  in his bags by position, his quest log. The parts of Objects/Player.cpp they rest on
  (\<open>ModifyMoney\<close>, \<open>GetItemByPos\<close>, \<open>ItemRemovedQuestCheck\<close>, \<open>DestroyItem\<close>, \<open>DurabilityRepair\<close>) are modelled from
  their source; what is looked up elsewhere (item templates, the cost tables, room in the bags, what a
  spell leaves) is the record \<open>market\<close>. A position is a bag and a slot, 255 being the body and backpack.
\<close>

record item_proto =
  ip_name :: string
  ip_class :: u32
  ip_subClass :: u32
  ip_quality :: u32
  ip_itemLevel :: u32
  ip_requiredLevel :: u32
  ip_buyPrice :: u32
  ip_buyCount :: u32
  ip_sellPrice :: u32
  ip_spells :: "(u32 \<times> int) list"

record item =
  i_guid :: u32
  i_entry :: u32
  i_count :: u32
  i_owner :: u32
  i_inTrade :: bool
  i_bag :: "nat option"
  i_charges :: "nat \<Rightarrow> int"
  i_maxDurability :: u32
  i_durability :: u32

type_synonym place = "nat \<times> nat"

type_synonym pack = "place \<Rightarrow> item option"

text \<open>One item objective of a quest in the log: what it asks for, how many, and how many are counted.\<close>

record objective =
  ob_item :: u32
  ob_required :: u32
  ob_have :: u32

datatype shop_effect =
    Said string
  | Notified string
  | AddonWord string string
  | Sound u32
  | Sparks
  | CloseGossip
  | Page u32 "(string \<times> u32) list"
  | NewItem u32 u32
  | LogSold u32
  | IncompleteQuest nat
  | UpdateQuestObjects
  | ApplyMods place
  | ListInventory u32
  | CastBar u32 u32

record customer =
  cu_self :: player
  cu_money :: u32
  cu_level :: u32
  cu_items :: pack
  cu_looting :: u32
  cu_quests :: "objective list list"
  cu_auras :: "(u32, int) smap"
  cu_cooldowns :: "(u32, nat) smap"
  cu_log :: "shop_effect list"

record market =
  mk_now :: nat
  mk_proto :: "u32 \<Rightarrow> item_proto option"
  mk_goType :: "u32 \<Rightarrow> u32 option"
  mk_canStore :: "pack \<Rightarrow> u32 \<Rightarrow> u32 \<Rightarrow> bool"
  mk_store :: "pack \<Rightarrow> u32 \<Rightarrow> u32 \<Rightarrow> pack option"
  mk_dcost :: "u32 \<Rightarrow> (u32 \<Rightarrow> u32) option"
  mk_dquality :: "u32 \<Rightarrow> real option"
  mk_maxDuration :: "u32 \<Rightarrow> int option"
  mk_cast :: "u32 \<Rightarrow> (u32, int) smap \<Rightarrow> (u32, int) smap"
  mk_addAura :: "u32 \<Rightarrow> (u32, int) smap \<Rightarrow> (u32, int) smap"
  mk_reach :: "customer \<Rightarrow> u32 \<Rightarrow> bool"
  mk_vendor :: "u32 \<Rightarrow> u32 \<Rightarrow> u32 option"

definition tell :: "shop_effect \<Rightarrow> customer \<Rightarrow> customer" where
  "tell e c = c\<lparr>cu_log := cu_log c @ [e]\<rparr>"

text \<open>The conversion of a floating point number to \<open>uint32\<close> drops the fraction.\<close>

definition u32_of_real :: "real \<Rightarrow> u32" where
  "u32_of_real x = of_int (if x < 0 then \<lceil>x\<rceil> else \<lfloor>x\<rfloor>)"

unbundle bit_operations_syntax

subsection \<open>Gold\<close>

definition MAX_MONEY_AMOUNT :: u32 where "MAX_MONEY_AMOUNT = 0x7FFFFFFE"

text \<open>The argument is an \<open>int32\<close>, here as the word with the same bits; no script changes the amount.\<close>

definition ModifyMoney :: "u32 \<Rightarrow> customer \<Rightarrow> customer" where
  "ModifyMoney d c =
     (let money = cu_money c
      in c\<lparr>cu_money :=
             (if sint d < 0 then (if money > - d then money + d else 0)
              else if money < MAX_MONEY_AMOUNT - d then money + d else MAX_MONEY_AMOUNT)\<rparr>)"

definition MoneyText :: "u32 \<Rightarrow> string" where
  "MoneyText copper =
     (let gold = copper div 10000; silver = (copper mod 10000) div 100; left = copper mod 100
      in (if gold \<noteq> 0 then to_string gold @ ''g'' else [])
       @ (if silver \<noteq> 0 then (if gold \<noteq> 0 then '' '' else []) @ to_string silver @ ''s'' else [])
       @ (if left \<noteq> 0 \<or> gold = 0 \<and> silver = 0
          then (if gold \<noteq> 0 \<or> silver \<noteq> 0 then '' '' else []) @ to_string left @ ''c'' else []))"

subsection \<open>The bags\<close>

definition INVENTORY_SLOT_BAG_0 :: nat where "INVENTORY_SLOT_BAG_0 = 255"

definition INVENTORY_SLOT_BAG_START :: nat where "INVENTORY_SLOT_BAG_START = 19"

definition INVENTORY_SLOT_BAG_END :: nat where "INVENTORY_SLOT_BAG_END = 23"

definition INVENTORY_SLOT_ITEM_START :: nat where "INVENTORY_SLOT_ITEM_START = 23"

definition INVENTORY_SLOT_ITEM_END :: nat where "INVENTORY_SLOT_ITEM_END = 39"

definition MAX_BAG_SIZE :: nat where "MAX_BAG_SIZE = 36"

lemmas slot_defs = INVENTORY_SLOT_BAG_0_def INVENTORY_SLOT_BAG_START_def INVENTORY_SLOT_BAG_END_def
  INVENTORY_SLOT_ITEM_START_def INVENTORY_SLOT_ITEM_END_def MAX_BAG_SIZE_def

definition GetItemByPos :: "pack \<Rightarrow> place \<Rightarrow> item option" where
  "GetItemByPos items pos =
     (case pos of (bag, slot) \<Rightarrow>
        if bag = INVENTORY_SLOT_BAG_0 \<and> (slot < 69 \<or> 81 \<le> slot \<and> slot < 113) then items pos
        else if INVENTORY_SLOT_BAG_START \<le> bag \<and> bag < INVENTORY_SLOT_BAG_END \<or> 63 \<le> bag \<and> bag < 69
        then (case items (INVENTORY_SLOT_BAG_0, bag) of
                None \<Rightarrow> None
              | Some b \<Rightarrow> if slot < (case i_bag b of None \<Rightarrow> 0 | Some n \<Rightarrow> n) then items pos else None)
        else None)"

definition bag_places :: "nat list \<Rightarrow> nat \<Rightarrow> place list" where
  "bag_places bags slots = concat (map (\<lambda>j. map (Pair j) [0..<slots]) bags)"

definition GetItemCount :: "pack \<Rightarrow> u32 \<Rightarrow> u32" where
  "GetItemCount items entry =
     fold (\<lambda>pos n. case GetItemByPos items pos of
                     None \<Rightarrow> n | Some it \<Rightarrow> if i_entry it = entry then n + i_count it else n)
       (map (Pair INVENTORY_SLOT_BAG_0) ([0..<INVENTORY_SLOT_ITEM_END] @ [81..<113])
        @ bag_places [INVENTORY_SLOT_BAG_START..<INVENTORY_SLOT_BAG_END] MAX_BAG_SIZE) 0"

definition IsEmptyBag :: "pack \<Rightarrow> place \<Rightarrow> nat \<Rightarrow> bool" where
  "IsEmptyBag items pos slots =
     (fst pos = INVENTORY_SLOT_BAG_0 \<longrightarrow> list_all (\<lambda>i. items (snd pos, i) = None) [0..<slots])"

subsection \<open>Items that leave the bags\<close>

definition QUEST_ITEM_COUNT_MASK :: u32 where "QUEST_ITEM_COUNT_MASK = 0xFFFF"

text \<open>
  One quest of the log, each with its item objectives; the first objective for this entry counts, and
  the new count is a \<open>uint16\<close>.
\<close>

definition new_count :: "u32 \<Rightarrow> u32 \<Rightarrow> objective \<Rightarrow> u32" where
  "new_count held count ob =
     (let cur = (if ob_have ob \<ge> ob_required ob then held else ob_have ob)
      in min ((if count > cur then 0 else cur - count) AND QUEST_ITEM_COUNT_MASK)
             (ob_required ob AND QUEST_ITEM_COUNT_MASK))"

definition recount :: "u32 \<Rightarrow> u32 \<Rightarrow> objective \<Rightarrow> objective" where
  "recount held count ob =
     (if new_count held count ob \<noteq> ob_required ob then ob\<lparr>ob_have := new_count held count ob\<rparr> else ob)"

fun recount_quest :: "u32 \<Rightarrow> u32 \<Rightarrow> u32 \<Rightarrow> objective list \<Rightarrow> objective list" where
  "recount_quest held entry count [] = []"
| "recount_quest held entry count (ob # obs) =
     (if ob_item ob = entry then recount held count ob # obs else ob # recount_quest held entry count obs)"

definition falls_short :: "u32 \<Rightarrow> u32 \<Rightarrow> u32 \<Rightarrow> objective list \<Rightarrow> bool" where
  "falls_short held entry count obs =
     (case find (\<lambda>ob. ob_item ob = entry) obs of
        None \<Rightarrow> False | Some ob \<Rightarrow> new_count held count ob \<noteq> ob_required ob)"

definition ItemRemovedQuestCheck :: "u32 \<Rightarrow> u32 \<Rightarrow> customer \<Rightarrow> customer" where
  "ItemRemovedQuestCheck entry count c =
     (let held = GetItemCount (cu_items c) entry;
          short = filter (\<lambda>i. falls_short held entry count (cu_quests c ! i)) [0..<length (cu_quests c)]
      in tell UpdateQuestObjects
           (c\<lparr>cu_quests := map (recount_quest held entry count) (cu_quests c),
              cu_log := cu_log c @ map IncompleteQuest short\<rparr>))"

definition destroy_one :: "place \<Rightarrow> customer \<Rightarrow> customer" where
  "destroy_one pos c =
     (case GetItemByPos (cu_items c) pos of
        None \<Rightarrow> c
      | Some it \<Rightarrow>
          let c1 = ItemRemovedQuestCheck (i_entry it) (i_count it) c;
              c2 = (if fst pos = INVENTORY_SLOT_BAG_0 \<and> snd pos < INVENTORY_SLOT_BAG_END
                    then tell (ApplyMods pos) c1 else c1)
          in c2\<lparr>cu_items := (cu_items c2)(pos := None)\<rparr>)"

definition DestroyItem :: "place \<Rightarrow> customer \<Rightarrow> customer" where
  "DestroyItem pos c =
     (case GetItemByPos (cu_items c) pos of
        None \<Rightarrow> c
      | Some it \<Rightarrow>
          destroy_one pos
            (if i_bag it \<noteq> None \<and> fst pos = INVENTORY_SLOT_BAG_0 \<and> snd pos < INVENTORY_SLOT_BAG_END
             then fold destroy_one (bag_places [snd pos] MAX_BAG_SIZE) c else c))"

subsection \<open>Repair\<close>

definition ItemSubClassToDurabilityMultiplierId :: "u32 \<Rightarrow> u32 \<Rightarrow> u32" where
  "ItemSubClassToDurabilityMultiplierId itemClass subClass =
     (if itemClass = 2 then subClass AND 255 else if itemClass = 4 then (subClass + 21) AND 255 else 0)"

definition RepairCost :: "market \<Rightarrow> item option \<Rightarrow> u32" where
  "RepairCost mk piece =
     (case piece of
        None \<Rightarrow> 0
      | Some it \<Rightarrow>
          if i_maxDurability it = 0 \<or> i_durability it \<ge> i_maxDurability it then 0
          else case mk_proto mk (i_entry it) of
            None \<Rightarrow> 0
          | Some proto \<Rightarrow>
              (case (mk_dcost mk (ip_itemLevel proto), mk_dquality mk ((ip_quality proto + 1) * 2)) of
                 (Some dcost, Some quality) \<Rightarrow>
                   let multiplier = dcost (ItemSubClassToDurabilityMultiplierId (ip_class proto) (ip_subClass proto));
                       costs = u32_of_real (real (unat ((i_maxDurability it - i_durability it) * multiplier)) * quality)
                   in if costs \<noteq> 0 then costs else 1
               | _ \<Rightarrow> 0))"

definition repair_places :: "place list" where
  "repair_places = map (Pair INVENTORY_SLOT_BAG_0) [0..<INVENTORY_SLOT_ITEM_END]
     @ bag_places [INVENTORY_SLOT_BAG_START..<INVENTORY_SLOT_BAG_END] MAX_BAG_SIZE"

definition RepairAllCost :: "market \<Rightarrow> customer \<Rightarrow> u32" where
  "RepairAllCost mk c =
     fold (\<lambda>pos total. total + RepairCost mk (GetItemByPos (cu_items c) pos)) repair_places 0"

definition IsEquipmentPos :: "place \<Rightarrow> bool" where
  "IsEquipmentPos pos \<longleftrightarrow> fst pos = INVENTORY_SLOT_BAG_0 \<and> snd pos < INVENTORY_SLOT_BAG_END"

definition mend :: "place \<Rightarrow> item \<Rightarrow> customer \<Rightarrow> customer" where
  "mend pos it c =
     (let c1 = c\<lparr>cu_items := (cu_items c)(pos \<mapsto> it\<lparr>i_durability := i_maxDurability it\<rparr>)\<rparr>
      in if IsEquipmentPos pos \<and> i_durability it = 0 then tell (ApplyMods pos) c1 else c1)"

text \<open>The sum \<open>DurabilityRepair\<close> returns is 0 on every path, so it is left out.\<close>

definition DurabilityRepair :: "market \<Rightarrow> bool \<Rightarrow> real \<Rightarrow> place \<Rightarrow> customer \<Rightarrow> customer" where
  "DurabilityRepair mk cost discountMod pos c =
     (case GetItemByPos (cu_items c) pos of
        None \<Rightarrow> c
      | Some it \<Rightarrow>
          if i_maxDurability it = 0 then c
          else
            let lost = i_maxDurability it - i_durability it
            in if \<not> cost \<or> lost = 0 then mend pos it c
               else case mk_proto mk (i_entry it) of
                 None \<Rightarrow> c
               | Some proto \<Rightarrow>
                   (case (mk_dcost mk (ip_itemLevel proto), mk_dquality mk ((ip_quality proto + 1) * 2)) of
                      (Some dcost, Some quality) \<Rightarrow>
                        let multiplier = dcost (ItemSubClassToDurabilityMultiplierId (ip_class proto) (ip_subClass proto));
                            listed = u32_of_real (real (unat (lost * multiplier)) * quality);
                            reduced = u32_of_real (real (unat listed) * discountMod);
                            costs = (if reduced = 0 then 1 else reduced)
                        in if cu_money c < costs then c else mend pos it (ModifyMoney (- costs) c)
                    | _ \<Rightarrow> c))"

definition DurabilityRepairAll :: "market \<Rightarrow> bool \<Rightarrow> real \<Rightarrow> customer \<Rightarrow> customer" where
  "DurabilityRepairAll mk cost discountMod = fold (DurabilityRepair mk cost discountMod) repair_places"

definition REPAIR_SENDER :: u32 where "REPAIR_SENDER = 6406"

definition REPAIR_TEXT :: u32 where "REPAIR_TEXT = 6400043"

definition REPAIR_SOUND :: u32 where "REPAIR_SOUND = 4614"

definition ACT_REPAIR_ALL :: u32 where "ACT_REPAIR_ALL = 1"

definition ACT_REPAIR_CLOSE :: u32 where "ACT_REPAIR_CLOSE = 2"

text \<open>A click is answered (\<open>Some\<close>) or left to the core (\<open>None\<close>).\<close>

definition GOHello_go_house_repair :: "market \<Rightarrow> HouseMgr \<Rightarrow> u32 \<Rightarrow> customer \<Rightarrow> customer option" where
  "GOHello_go_house_repair mk s go c =
     (if InEditSession s (cu_self c) go then None
      else
        let cost = RepairAllCost mk c
        in if cost = 0 then Some (tell (Said ''Nothing needs repair.'') c)
           else Some (tell (Page REPAIR_TEXT [(''Repair all: '' @ MoneyText cost, ACT_REPAIR_ALL),
                                              (''Close'', ACT_REPAIR_CLOSE)]) c))"

definition GossipSelect_go_house_repair :: "market \<Rightarrow> u32 \<Rightarrow> u32 \<Rightarrow> customer \<Rightarrow> customer option" where
  "GossipSelect_go_house_repair mk sender action c =
     (if sender \<noteq> REPAIR_SENDER then None
      else
        let c1 = tell CloseGossip c; cost = RepairAllCost mk c1
        in if action \<noteq> ACT_REPAIR_ALL then Some c1
           else if cost = 0 then Some (tell (Said ''Nothing needs repair.'') c1)
           else if cu_money c1 < cost then Some (tell (Said (''You need '' @ MoneyText cost @ ''.'')) c1)
           else Some (tell (Said (''Repaired for '' @ MoneyText cost @ ''.''))
                        (tell (Sound REPAIR_SOUND) (DurabilityRepairAll mk True 1 c1))))"

lemma money_uint: "(d::u32) \<le> MAX_MONEY_AMOUNT \<longleftrightarrow> uint d \<le> 2147483646"
  by (simp add: word_le_def MAX_MONEY_AMOUNT_def)

lemma pos_sint: "(d::u32) \<le> MAX_MONEY_AMOUNT \<Longrightarrow> sint d = uint d"
proof -
  assume "d \<le> MAX_MONEY_AMOUNT"
  then have "uint d < 2 ^ 31" by (simp add: money_uint)
  moreover have "- (2 ^ 31) \<le> uint d" by (rule order_trans [OF _ uint_ge_0]) simp
  ultimately show "sint d = uint d" by (simp add: sint_uint signed_take_bit_int_eq_self_iff)
qed

lemma neg_sint: "(d::u32) \<le> MAX_MONEY_AMOUNT \<Longrightarrow> sint (- d) = - uint d"
proof -
  assume d: "d \<le> MAX_MONEY_AMOUNT"
  then have "- (2 ^ 31) \<le> - uint d" by (simp add: money_uint)
  moreover have "- uint d < 2 ^ 31" by (rule le_less_trans [of _ 0]) simp_all
  ultimately show "sint (- d) = - uint d"
    using pos_sint [OF d] by (simp add: sint_word_ariths signed_take_bit_int_eq_self_iff)
qed

lemma spend:
  assumes "d \<le> cu_money c" and "cu_money c \<le> MAX_MONEY_AMOUNT"
  shows "ModifyMoney (- d) c = c\<lparr>cu_money := cu_money c - d\<rparr>"
proof -
  have d: "d \<le> MAX_MONEY_AMOUNT" using assms by (rule order_trans)
  show ?thesis
  proof (cases "d = 0")
    case True
    then show ?thesis using assms(2) by (auto simp: ModifyMoney_def Let_def)
  next
    case False
    then have "uint d \<noteq> 0" by (simp add: uint_0_iff)
    then have "0 < uint d" using uint_ge_0 [of d] by linarith
    then have "sint (- d) < 0" using neg_sint [OF d] by simp
    then show ?thesis using assms(1) by (cases "cu_money c = d") (simp_all add: ModifyMoney_def Let_def less_le)
  qed
qed

lemma earn:
  assumes "unat (cu_money c) + unat d \<le> unat MAX_MONEY_AMOUNT"
  shows "ModifyMoney d c = c\<lparr>cu_money := cu_money c + d\<rparr>"
proof -
  have d: "d \<le> MAX_MONEY_AMOUNT" using assms by (simp add: word_le_nat_alt)
  have u: "unat (MAX_MONEY_AMOUNT - d) = unat MAX_MONEY_AMOUNT - unat d" using d by (simp add: unat_sub)
  have s: "\<not> sint d < 0" using pos_sint [OF d] by simp
  show ?thesis
  proof (cases "cu_money c < MAX_MONEY_AMOUNT - d")
    case True
    then show ?thesis using s by (simp add: ModifyMoney_def)
  next
    case False
    then have "unat (cu_money c) = unat (MAX_MONEY_AMOUNT - d)" using assms u by (simp add: word_less_nat_alt)
    then have "cu_money c = MAX_MONEY_AMOUNT - d" by (simp add: word_unat_eq_iff)
    then show ?thesis using s by (simp add: ModifyMoney_def)
  qed
qed

subsection \<open>What a price on the screen says\<close>

fun read_money :: "nat \<Rightarrow> nat \<Rightarrow> string \<Rightarrow> nat" where
  "read_money paid n [] = paid"
| "read_money paid n (ch # w) =
     (if ch = CHR ''g'' then read_money (paid + n * 10000) 0 w
      else if ch = CHR ''s'' then read_money (paid + n * 100) 0 w
      else if ch = CHR ''c'' then read_money (paid + n) 0 w
      else if ch = CHR '' '' then read_money paid 0 w
      else read_money paid (n * 10 + (of_char ch - 48)) w)"

lemma read_money_digits:
  assumes "\<forall>ch \<in> set w. is_digit ch"
  shows "read_money paid n (w @ r) = read_money paid (foldl (\<lambda>acc ch. acc * 10 + (of_char ch - 48)) n w) r"
  using assms by (induction w arbitrary: n) (auto simp: is_digit_def)

lemma read_money_dec: "read_money paid 0 (dec_nat n @ r) = read_money paid n r"
  using read_money_digits [OF dec_nat_digits, of paid 0 n r] digits_value_dec [of n] by (simp add: digits_value_def)

lemma read_money_text:
  fixes gold silver left :: u32
  shows "read_money 0 0 ((if gold \<noteq> 0 then to_string gold @ ''g'' else [])
       @ (if silver \<noteq> 0 then (if gold \<noteq> 0 then '' '' else []) @ to_string silver @ ''s'' else [])
       @ (if left \<noteq> 0 \<or> gold = 0 \<and> silver = 0
          then (if gold \<noteq> 0 \<or> silver \<noteq> 0 then '' '' else []) @ to_string left @ ''c'' else []))
     = unat gold * 10000 + unat silver * 100 + unat left"
  by (simp add: to_string_def read_money_dec)

text \<open>
  prices are shown without loss: the line in chat, as "12g 5s 3c", reads back as the very sum, so no
  two sums look alike.
\<close>

theorem money_text_reads_back: "read_money 0 0 (MoneyText copper) = unat copper"
proof -
  let ?n = "unat copper"
  have m: "?n mod 10000 = ?n mod 10000 div 100 * 100 + ?n mod 100"
    using div_mult_mod_eq [of "?n mod 10000" 100] mod_mod_cancel [of 100 10000 ?n] by simp
  have n: "?n div 10000 * 10000 + ?n mod 10000 div 100 * 100 + ?n mod 100 = ?n"
    by (simp only: add.assoc m [symmetric] div_mult_mod_eq)
  show ?thesis
    unfolding MoneyText_def Let_def read_money_text using n by (simp add: unat_div unat_mod)
qed

subsection \<open>The price of a repair and the repair\<close>

lemma GetItemByPos_Some: "GetItemByPos items pos = Some it \<Longrightarrow> items pos = Some it"
  by (auto simp: GetItemByPos_def split: prod.splits if_splits option.splits)

lemma GetItemByPos_upd:
  assumes "GetItemByPos items pos = Some it" and "i_bag it' = i_bag it"
  shows "GetItemByPos (items(pos \<mapsto> it')) q = (if q = pos then Some it' else GetItemByPos items q)"
proof (cases "q = pos")
  case True
  obtain bag slot where pos: "pos = (bag, slot)" by force
  have "items pos = Some it" by (rule GetItemByPos_Some [OF assms(1)])
  then show ?thesis
    using assms True pos by (auto simp: GetItemByPos_def split: if_split_asm option.split_asm)
next
  case False
  obtain bag slot where q: "q = (bag, slot)" by force
  have "items pos = Some it" by (rule GetItemByPos_Some [OF assms(1)])
  then have "case_option d (\<lambda>b. F (i_bag b)) ((items(pos \<mapsto> it')) (INVENTORY_SLOT_BAG_0, bag))
      = case_option d (\<lambda>b. F (i_bag b)) (items (INVENTORY_SLOT_BAG_0, bag))" for d :: "item option" and F
    using assms(2) by simp
  note bag = this [of None "\<lambda>n. if slot < (case n of None \<Rightarrow> 0 | Some n \<Rightarrow> n) then items (bag, slot) else None"]
  have ne: "(items(pos \<mapsto> it')) (bag, slot) = items (bag, slot)" using False q by simp
  show ?thesis
    using False unfolding q by (simp only: GetItemByPos_def prod.case bag ne if_False)
qed

text \<open>An item after a full repair: as new, unless the cost tables do not know it.\<close>

definition mended :: "market \<Rightarrow> item \<Rightarrow> item" where
  "mended mk it =
     (case mk_proto mk (i_entry it) of
        None \<Rightarrow> it
      | Some proto \<Rightarrow>
          if mk_dcost mk (ip_itemLevel proto) = None \<or> mk_dquality mk ((ip_quality proto + 1) * 2) = None
          then it else it\<lparr>i_durability := i_maxDurability it\<rparr>)"

lemma mended_bag [simp]: "i_bag (mended mk it) = i_bag it" "i_entry (mended mk it) = i_entry it"
  "i_maxDurability (mended mk it) = i_maxDurability it"
  by (simp_all add: mended_def split: option.split)

lemma mended_twice [simp]: "mended mk (mended mk it) = mended mk it"
  by (simp add: mended_def split: option.split)

lemma u32_of_real_unat [simp]: "u32_of_real (unsigned n) = n"
proof -
  have "(unsigned n :: real) = of_int (uint n)" by simp
  then show ?thesis unfolding u32_of_real_def by (simp only: floor_of_int ceiling_of_int word_of_int_uint) simp
qed

lemma mend_fields [simp]:
  "cu_items (mend pos it c) = (cu_items c)(pos \<mapsto> it\<lparr>i_durability := i_maxDurability it\<rparr>)"
  "cu_money (mend pos it c) = cu_money c"
  by (simp_all add: mend_def tell_def Let_def)

lemma repaired_cost [simp]: "RepairCost mk (Some (mended mk it)) = 0"
  by (auto simp: RepairCost_def mended_def split: option.split)

lemma repair_one:
  assumes "\<And>it. GetItemByPos (cu_items c) pos = Some it \<Longrightarrow> i_durability it \<le> i_maxDurability it"
    and "RepairCost mk (GetItemByPos (cu_items c) pos) \<le> cu_money c" and "cu_money c \<le> MAX_MONEY_AMOUNT"
  shows "cu_money (DurabilityRepair mk True 1 pos c) = cu_money c - RepairCost mk (GetItemByPos (cu_items c) pos)
    \<and> GetItemByPos (cu_items (DurabilityRepair mk True 1 pos c)) q
        = (if q = pos then map_option (mended mk) (GetItemByPos (cu_items c) pos) else GetItemByPos (cu_items c) q)"
proof (cases "GetItemByPos (cu_items c) pos")
  case None
  then show ?thesis by (simp add: DurabilityRepair_def RepairCost_def)
next
  case (Some it)
  note here = this
  note upd = GetItemByPos_upd [OF Some, of "it\<lparr>i_durability := i_maxDurability it\<rparr>" q]
  have le: "i_durability it \<le> i_maxDurability it" using assms(1) [OF Some] .
  show ?thesis
  proof (cases "i_durability it = i_maxDurability it")
    case True
    then have "mended mk it = it" by (simp add: mended_def split: option.split)
    moreover have "RepairCost mk (Some it) = 0" using True by (simp add: RepairCost_def)
    ultimately show ?thesis using Some True upd by (auto simp: DurabilityRepair_def Let_def)
  next
    case False
    with le have lt: "i_durability it < i_maxDurability it" by simp
    then have nz: "i_maxDurability it \<noteq> 0" "i_maxDurability it - i_durability it \<noteq> 0" by auto
    let ?known = "\<exists>proto dcost quality. mk_proto mk (i_entry it) = Some proto
      \<and> mk_dcost mk (ip_itemLevel proto) = Some dcost \<and> mk_dquality mk ((ip_quality proto + 1) * 2) = Some quality"
    show ?thesis
    proof (cases ?known)
      case False
      then have "mended mk it = it" "RepairCost mk (Some it) = 0" "DurabilityRepair mk True 1 pos c = c"
        using Some lt nz by (auto simp: mended_def RepairCost_def DurabilityRepair_def Let_def split: option.split)
      with Some show ?thesis by simp
    next
      case True
      then obtain proto dcost quality where known: "mk_proto mk (i_entry it) = Some proto"
        "mk_dcost mk (ip_itemLevel proto) = Some dcost" "mk_dquality mk ((ip_quality proto + 1) * 2) = Some quality"
        by blast
      have run: "DurabilityRepair mk True 1 pos c = mend pos it (ModifyMoney (- RepairCost mk (Some it)) c)"
        using assms(2) Some lt nz known by (auto simp: DurabilityRepair_def RepairCost_def Let_def)
      have "ModifyMoney (- RepairCost mk (Some it)) c = c\<lparr>cu_money := cu_money c - RepairCost mk (Some it)\<rparr>"
        using assms(2,3) Some by (intro spend) simp_all
      with run upd known Some show ?thesis by (simp add: mended_def)
    qed
  qed
qed

lemma fold_sum_u32:
  fixes f :: "'a \<Rightarrow> u32"
  assumes "unat t + sum_list (map (unat \<circ> f) xs) < 2 ^ 32"
  shows "unat (fold (\<lambda>x t. t + f x) xs t) = unat t + sum_list (map (unat \<circ> f) xs)"
  using assms
proof (induction xs arbitrary: t)
  case (Cons x xs)
  then have "unat (t + f x) = unat t + unat (f x)" by (simp add: unat_add_lem [symmetric])
  with Cons show ?case by (simp add: add.assoc)
qed simp

lemma repair_each:
  assumes "distinct ps"
    and "\<And>q it. GetItemByPos (cu_items c) q = Some it \<Longrightarrow> i_durability it \<le> i_maxDurability it"
    and "(\<Sum>q \<leftarrow> ps. unat (RepairCost mk (GetItemByPos (cu_items c) q))) \<le> unat (cu_money c)"
    and "cu_money c \<le> MAX_MONEY_AMOUNT"
  shows "unat (cu_money (fold (DurabilityRepair mk True 1) ps c))
      = unat (cu_money c) - (\<Sum>q \<leftarrow> ps. unat (RepairCost mk (GetItemByPos (cu_items c) q)))
    \<and> (\<forall>q. GetItemByPos (cu_items (fold (DurabilityRepair mk True 1) ps c)) q
        = (if q \<in> set ps then map_option (mended mk) (GetItemByPos (cu_items c) q) else GetItemByPos (cu_items c) q))"
  using assms
proof (induction ps arbitrary: c)
  case (Cons pos ps)
  let ?c = "DurabilityRepair mk True 1 pos c" and ?cost = "\<lambda>c q. RepairCost mk (GetItemByPos (cu_items c) q)"
  have pay: "?cost c pos \<le> cu_money c" using Cons.prems(3) by (simp add: word_le_nat_alt)
  note one = repair_one [OF Cons.prems(2) pay Cons.prems(4)]
  have cash: "unat (cu_money ?c) = unat (cu_money c) - unat (?cost c pos)"
    using one pay by (simp add: unat_sub)
  have look: "GetItemByPos (cu_items ?c) q
      = (if q = pos then map_option (mended mk) (GetItemByPos (cu_items c) pos) else GetItemByPos (cu_items c) q)" for q
    using one by simp
  have sane: "i_durability it \<le> i_maxDurability it" if "GetItemByPos (cu_items ?c) q = Some it" for q it
    using that Cons.prems(2) [of q] by (auto simp: look mended_def split: if_split_asm option.split_asm)
  have same: "(\<Sum>q \<leftarrow> ps. unat (?cost ?c q)) = (\<Sum>q \<leftarrow> ps. unat (?cost c q))"
    using Cons.prems(1) by (intro arg_cong [where f = sum_list] map_cong) (auto simp: look)
  have "cu_money ?c \<le> MAX_MONEY_AMOUNT" using cash Cons.prems(4) by (simp add: word_le_nat_alt)
  then have IH: "unat (cu_money (fold (DurabilityRepair mk True 1) ps ?c))
      = unat (cu_money ?c) - (\<Sum>q \<leftarrow> ps. unat (?cost ?c q))
    \<and> (\<forall>q. GetItemByPos (cu_items (fold (DurabilityRepair mk True 1) ps ?c)) q
        = (if q \<in> set ps then map_option (mended mk) (GetItemByPos (cu_items ?c) q) else GetItemByPos (cu_items ?c) q))"
    using Cons.prems(1,3) cash same by (intro Cons.IH sane) auto
  then have "unat (cu_money (fold (DurabilityRepair mk True 1) ps ?c))
      = unat (cu_money c) - (unat (?cost c pos) + (\<Sum>q \<leftarrow> ps. unat (?cost c q)))"
    using cash same by simp
  with IH show ?case using Cons.prems(1) by (auto simp: look)
qed simp

lemma repair_places_distinct: "distinct repair_places"
  by (auto simp: repair_places_def bag_places_def slot_defs distinct_map inj_on_def upt_rec)

lemma RepairAllCost_sum:
  assumes "(\<Sum>q \<leftarrow> repair_places. unat (RepairCost mk (GetItemByPos (cu_items c) q))) < 2 ^ 32"
  shows "unat (RepairAllCost mk c) = (\<Sum>q \<leftarrow> repair_places. unat (RepairCost mk (GetItemByPos (cu_items c) q)))"
  unfolding RepairAllCost_def
  using fold_sum_u32 [of 0 "\<lambda>q. RepairCost mk (GetItemByPos (cu_items c) q)" repair_places] assms by (simp add: comp_def)

lemma repair_places_count: "length repair_places = 183"
  by (simp add: repair_places_def bag_places_def slot_defs length_concat comp_def)

lemma repair_sum_bound:
  assumes "\<And>q. RepairCost mk (GetItemByPos (cu_items c) q) < 2 ^ 24"
  shows "(\<Sum>q \<leftarrow> repair_places. unat (RepairCost mk (GetItemByPos (cu_items c) q))) < 2 ^ 32"
proof -
  have "(\<Sum>q \<leftarrow> ps. unat (RepairCost mk (GetItemByPos (cu_items c) q))) \<le> length ps * 2 ^ 24" for ps
  proof (induction ps)
    case (Cons q ps)
    have "unat (RepairCost mk (GetItemByPos (cu_items c) q)) \<le> 2 ^ 24"
      using assms [of q] by (simp add: word_less_nat_alt)
    with Cons show ?case by simp
  qed simp
  from this [of repair_places] have "(\<Sum>q \<leftarrow> repair_places. unat (RepairCost mk (GetItemByPos (cu_items c) q)))
      \<le> length repair_places * 2 ^ 24" .
  also have "\<dots> < 2 ^ 32" by (simp add: repair_places_count)
  finally show ?thesis .
qed

lemma mended_free:
  assumes "RepairCost mk (Some it) = 0" and "i_durability it \<le> i_maxDurability it"
  shows "mended mk it = it"
  using assms by (auto simp: RepairCost_def mended_def Let_def split: option.splits if_split_asm)

text \<open>
  C34: the repair table charges what it says. Asked for a full repair it refuses, and changes nothing,
  exactly when the gold does not reach the price on its button; otherwise it takes that price to the
  copper and mends every item worn, in the backpack and in the bags that the cost tables know, so that
  nothing is left to repair. It holds while no single item costs 2^24 copper, the range in which the
  price is exact in a \<open>float\<close>.
\<close>

theorem repair_table_charges_its_quote:
  assumes sane: "\<forall>q it. GetItemByPos (cu_items c) q = Some it \<longrightarrow> i_durability it \<le> i_maxDurability it"
    and small: "\<forall>q. RepairCost mk (GetItemByPos (cu_items c) q) < 2 ^ 24" and cap: "cu_money c \<le> MAX_MONEY_AMOUNT"
  shows "case GossipSelect_go_house_repair mk REPAIR_SENDER ACT_REPAIR_ALL c of
      None \<Rightarrow> False
    | Some c' \<Rightarrow>
        if cu_money c < RepairAllCost mk c then cu_money c' = cu_money c \<and> cu_items c' = cu_items c
        else cu_money c' = cu_money c - RepairAllCost mk c \<and> RepairAllCost mk c' = 0
          \<and> (\<forall>q. GetItemByPos (cu_items c') q
              = (if q \<in> set repair_places then map_option (mended mk) (GetItemByPos (cu_items c) q)
                 else GetItemByPos (cu_items c) q))"
proof -
  let ?sum = "\<Sum>q \<leftarrow> repair_places. unat (RepairCost mk (GetItemByPos (cu_items c) q))"
  have total: "unat (RepairAllCost mk c) = ?sum"
    using small by (intro RepairAllCost_sum repair_sum_bound) blast
  have tell: "RepairAllCost mk (tell e c) = RepairAllCost mk c" "cu_money (tell e c) = cu_money c"
    "cu_items (tell e c) = cu_items c" for e c
    by (simp_all add: RepairAllCost_def tell_def)
  consider "cu_money c < RepairAllCost mk c" | "RepairAllCost mk c = 0"
    | "RepairAllCost mk c \<noteq> 0" "RepairAllCost mk c \<le> cu_money c" by force
  then show ?thesis
  proof cases
    case 1
    then have "RepairAllCost mk c \<noteq> 0" by auto
    with 1 show ?thesis by (simp add: GossipSelect_go_house_repair_def ACT_REPAIR_ALL_def Let_def tell)
  next
    case 2
    then have "RepairCost mk (GetItemByPos (cu_items c) q) = 0" if "q \<in> set repair_places" for q
      using total that by (simp add: sum_list_eq_0_iff unat_eq_0)
    then have "map_option (mended mk) (GetItemByPos (cu_items c) q) = GetItemByPos (cu_items c) q"
      if "q \<in> set repair_places" for q
      using that sane mended_free by (cases "GetItemByPos (cu_items c) q") fastforce+
    with 2 show ?thesis by (simp add: GossipSelect_go_house_repair_def ACT_REPAIR_ALL_def Let_def tell)
  next
    case 3
    let ?c = "DurabilityRepairAll mk True 1 (tell CloseGossip c)"
    have "?sum \<le> unat (cu_money c)" using 3(2) total by (simp add: word_le_nat_alt)
    then have run: "unat (cu_money ?c) = unat (cu_money c) - ?sum
      \<and> (\<forall>q. GetItemByPos (cu_items ?c) q
        = (if q \<in> set repair_places then map_option (mended mk) (GetItemByPos (cu_items c) q)
           else GetItemByPos (cu_items c) q))"
      using repair_each [OF repair_places_distinct, of "tell CloseGossip c" mk] sane cap
      by (simp add: DurabilityRepairAll_def tell)
    then have paid: "cu_money ?c = cu_money c - RepairAllCost mk c"
      using 3(2) total by (simp add: word_unat_eq_iff unat_sub)
    have "RepairCost mk (GetItemByPos (cu_items ?c) q) = 0" if "q \<in> set repair_places" for q
      using spec [OF conjunct2 [OF run], of q] that
      by (cases "GetItemByPos (cu_items c) q") (simp_all only: if_True option.map repaired_cost, simp add: RepairCost_def)
    then have none: "(\<Sum>q \<leftarrow> repair_places. unat (RepairCost mk (GetItemByPos (cu_items ?c) q))) = 0"
      by (simp add: sum_list_eq_0_iff)
    have "unat (RepairAllCost mk ?c) = 0"
      by (rule trans [OF RepairAllCost_sum none]) (simp only: none, simp)
    then have "RepairAllCost mk ?c = 0" by (simp only: unat_eq_0)
    with 3 run paid show ?thesis
      by (simp add: GossipSelect_go_house_repair_def ACT_REPAIR_ALL_def Let_def tell)
  qed
qed

definition worn_sword :: item where
  "worn_sword = \<lparr>i_guid = 500, i_entry = 25, i_count = 1, i_owner = 1, i_inTrade = False, i_bag = None,
     i_charges = (\<lambda>_. 0), i_maxDurability = 50, i_durability = 20\<rparr>"

definition plain_market :: market where
  "plain_market =
     \<lparr>mk_now = 1000,
      mk_proto = (\<lambda>_. Some \<lparr>ip_name = ''Rusty Sword'', ip_class = 2, ip_subClass = 7, ip_quality = 0,
        ip_itemLevel = 5, ip_requiredLevel = 1, ip_buyPrice = 500, ip_buyCount = 5, ip_sellPrice = 30,
        ip_spells = []\<rparr>),
      mk_goType = (\<lambda>_. Some 10), mk_canStore = (\<lambda>items entry amount. items (255, 30) = None),
      mk_store = (\<lambda>items entry amount. if items (255, 30) \<noteq> None then None else Some (items((255, 30) \<mapsto> \<lparr>i_guid = 900, i_entry = entry, i_count = amount,
        i_owner = 1, i_inTrade = False, i_bag = None, i_charges = (\<lambda>_. 0), i_maxDurability = 0, i_durability = 0\<rparr>))),
      mk_dcost = (\<lambda>_. Some (\<lambda>_. 3)), mk_dquality = (\<lambda>_. Some 1), mk_maxDuration = (\<lambda>_. Some 3600000),
      mk_cast = (\<lambda>sp auras. sm_put sp 3600000 auras), mk_addAura = (\<lambda>sp auras. sm_put sp 3600000 auras),
      mk_reach = (\<lambda>_ _. True), mk_vendor = (\<lambda>_ _. Some 4000)\<rparr>"

definition plain_customer :: customer where
  "plain_customer =
     \<lparr>cu_self = plain_player, cu_money = 100000, cu_level = 60, cu_items = Map.empty((255, 15) \<mapsto> worn_sword),
      cu_looting = 0, cu_quests = [], cu_auras = [], cu_cooldowns = [], cu_log = []\<rparr>"

lemma plain_customer_pack:
  "GetItemByPos (cu_items plain_customer) q = (if q = (255, 15) then Some worn_sword else None)"
  by (cases q) (simp add: GetItemByPos_def plain_customer_def slot_defs)

lemma worn_sword_cost: "RepairCost plain_market (Some worn_sword) = 90"
  using u32_of_real_unat [of "90 :: u32"] by (simp add: RepairCost_def worn_sword_def plain_market_def Let_def)

theorem repair_table_charges_its_quote_witness:
  "\<exists>c'. GossipSelect_go_house_repair plain_market REPAIR_SENDER ACT_REPAIR_ALL plain_customer = Some c'
     \<and> GetItemByPos (cu_items c') (255, 15) = Some (worn_sword\<lparr>i_durability := 50\<rparr>)"
proof -
  have "RepairAllCost plain_market plain_customer = 90"
    by (simp add: RepairAllCost_def plain_customer_pack worn_sword_cost repair_places_def bag_places_def slot_defs
        upt_rec RepairCost_def [of _ None])
  moreover have "mended plain_market worn_sword = worn_sword\<lparr>i_durability := 50\<rparr>"
    by (simp add: mended_def plain_market_def worn_sword_def)
  moreover have "(255, 15) \<in> set repair_places" by (simp add: repair_places_def slot_defs)
  moreover have "cu_money plain_customer = 100000" by (simp add: plain_customer_def)
  moreover have "case GossipSelect_go_house_repair plain_market REPAIR_SENDER ACT_REPAIR_ALL plain_customer of
      None \<Rightarrow> False
    | Some c' \<Rightarrow>
        if cu_money plain_customer < RepairAllCost plain_market plain_customer
        then cu_money c' = cu_money plain_customer \<and> cu_items c' = cu_items plain_customer
        else cu_money c' = cu_money plain_customer - RepairAllCost plain_market plain_customer
          \<and> RepairAllCost plain_market c' = 0
          \<and> (\<forall>q. GetItemByPos (cu_items c') q
              = (if q \<in> set repair_places
                 then map_option (mended plain_market) (GetItemByPos (cu_items plain_customer) q)
                 else GetItemByPos (cu_items plain_customer) q))"
    by (rule repair_table_charges_its_quote)
      (simp_all add: plain_customer_pack worn_sword_cost RepairCost_def [of _ None] MAX_MONEY_AMOUNT_def
        worn_sword_def [THEN arg_cong [where f = i_durability]] worn_sword_def [THEN arg_cong [where f = i_maxDurability]]
        plain_customer_def [THEN arg_cong [where f = cu_money]])
  ultimately show ?thesis
    by (cases "GossipSelect_go_house_repair plain_market REPAIR_SENDER ACT_REPAIR_ALL plain_customer")
      (simp_all add: plain_customer_pack)
qed

end
