(* ===== verification/HouseUpgrades.thy ===== *)
theory HouseUpgrades
  imports HouseMarket
begin

section \<open>The working objects of a house\<close>

text \<open>
  Housing/HouseUpgrades.cpp: crates bought for gold (\<open>BuyUpgrade\<close>), the pantry, the junk compactor, the
  shops, and the fortunes and potions. Its three static maps, who is compacting where and which house
  buff each player took last, are the record \<open>parlour\<close>; the customer and the market are those of
  HouseMarket. The locks around the maps and the colours of a cast are left out.
\<close>

record parlour =
  pa_compacting :: "(u32, u32) smap"
  pa_lastBuff :: "(u32, u32) smap"

subsection \<open>Crates for gold\<close>

definition GAMEOBJECT_TYPE_MAILBOX :: u32 where "GAMEOBJECT_TYPE_MAILBOX = 19"

definition IsDecorativeType :: "u32 option \<Rightarrow> bool" where
  "IsDecorativeType info = (case info of None \<Rightarrow> False | Some kind \<Rightarrow> kind \<in> {5, 7, 14})"

definition UpgradeItems :: "market \<Rightarrow> HouseMgr \<Rightarrow> u32 list" where
  "UpgradeItems mk s =
     map fst (filter (\<lambda>r. mk_goType mk (fi_goEntry (snd r)) \<noteq> None
                        \<and> \<not> IsDecorativeType (mk_goType mk (fi_goEntry (snd r)))) (m_furnitureItems s))"

definition GetFurnitureGoEntry :: "HouseMgr \<Rightarrow> u32 \<Rightarrow> u32" where
  "GetFurnitureGoEntry s itemEntry =
     (case sm_find (m_furnitureItems s) itemEntry of None \<Rightarrow> 0 | Some fi \<Rightarrow> fi_goEntry fi)"

definition BuyUpgrade :: "market \<Rightarrow> HouseMgr \<Rightarrow> u32 \<Rightarrow> customer \<Rightarrow> customer \<times> unit res" where
  "BuyUpgrade mk s itemEntry c =
     (if itemEntry \<notin> set (UpgradeItems mk s) then (c, Inl ''That is not an upgrade.'')
      else case mk_proto mk itemEntry of
        None \<Rightarrow> (c, Inl ''That is not an upgrade.'')
      | Some proto \<Rightarrow>
          let price = ip_buyPrice proto
          in if cu_money c < price then (c, Inl (''You need '' @ MoneyText price @ ''.''))
             else if \<not> mk_canStore mk (cu_items c) itemEntry 1 then (c, Inl ''Your bags are full.'')
             else (case mk_store mk (cu_items c) itemEntry 1 of
                     None \<Rightarrow> (c, Inl ''Could not put that in your bags.'')
                   | Some items \<Rightarrow>
                       (tell (NewItem itemEntry 1) (ModifyMoney (- price) (c\<lparr>cu_items := items\<rparr>)), Inr ())))"

subsection \<open>The pantry\<close>

definition PANTRY_TEXT :: u32 where "PANTRY_TEXT = 6400044"

definition PANTRY_SENDER :: u32 where "PANTRY_SENDER = 6407"

definition PANTRY_DRINKS :: "u32 list" where "PANTRY_DRINKS = [159, 1179, 1205, 1708, 1645, 8766]"

definition PANTRY_FOOD :: "u32 list" where "PANTRY_FOOD = [4540, 4541, 4542, 4544, 4601, 8950]"

definition ACT_PANTRY_DRINKS :: u32 where "ACT_PANTRY_DRINKS = 1"

definition ACT_PANTRY_FOOD :: u32 where "ACT_PANTRY_FOOD = 2"

definition ACT_PANTRY_MAIN :: u32 where "ACT_PANTRY_MAIN = 3"

definition ACT_PANTRY_CLOSE :: u32 where "ACT_PANTRY_CLOSE = 4"

lemmas pantry_defs = PANTRY_DRINKS_def PANTRY_FOOD_def ACT_PANTRY_DRINKS_def ACT_PANTRY_FOOD_def
  ACT_PANTRY_MAIN_def ACT_PANTRY_CLOSE_def

definition SendPantryMain :: "customer \<Rightarrow> customer" where
  "SendPantryMain c =
     tell (Page PANTRY_TEXT [(''Drinks'', ACT_PANTRY_DRINKS), (''Food'', ACT_PANTRY_FOOD),
                             (''Close'', ACT_PANTRY_CLOSE)]) c"

definition SendPantryPage :: "market \<Rightarrow> u32 list \<Rightarrow> customer \<Rightarrow> customer" where
  "SendPantryPage mk items c =
     tell (Page PANTRY_TEXT
             (List.map_filter (\<lambda>entry. map_option (\<lambda>proto.
                 (ip_name proto @ '' (level '' @ to_string (ip_requiredLevel proto) @ ''): ''
                    @ MoneyText (ip_buyPrice proto), entry)) (mk_proto mk entry)) items
              @ [(''Back'', ACT_PANTRY_MAIN)])) c"

definition BuyPantryItem :: "market \<Rightarrow> u32 \<Rightarrow> customer \<Rightarrow> customer" where
  "BuyPantryItem mk entry c =
     (case mk_proto mk entry of
        None \<Rightarrow> c
      | Some proto \<Rightarrow>
          let amount = (if ip_buyCount proto \<noteq> 0 then ip_buyCount proto else 1)
          in if cu_money c < ip_buyPrice proto
             then tell (Said (''You need '' @ MoneyText (ip_buyPrice proto) @ ''.'')) c
             else if \<not> mk_canStore mk (cu_items c) entry amount then tell (Said ''Your bags are full.'') c
             else (case mk_store mk (cu_items c) entry amount of
                     None \<Rightarrow> c
                   | Some items \<Rightarrow>
                       tell (NewItem entry amount)
                         (ModifyMoney (- ip_buyPrice proto) (c\<lparr>cu_items := items\<rparr>))))"

definition GOHello_go_house_pantry :: "HouseMgr \<Rightarrow> u32 \<Rightarrow> customer \<Rightarrow> customer option" where
  "GOHello_go_house_pantry s go c = (if InEditSession s (cu_self c) go then None else Some (SendPantryMain c))"

definition GossipSelect_go_house_pantry :: "market \<Rightarrow> u32 \<Rightarrow> u32 \<Rightarrow> customer \<Rightarrow> customer option" where
  "GossipSelect_go_house_pantry mk sender action c =
     (if sender \<noteq> PANTRY_SENDER then None
      else if action = ACT_PANTRY_DRINKS then Some (SendPantryPage mk PANTRY_DRINKS c)
      else if action = ACT_PANTRY_FOOD then Some (SendPantryPage mk PANTRY_FOOD c)
      else if action = ACT_PANTRY_MAIN then Some (SendPantryMain c)
      else if action \<in> set PANTRY_DRINKS then Some (SendPantryPage mk PANTRY_DRINKS (BuyPantryItem mk action c))
      else if action \<in> set PANTRY_FOOD then Some (SendPantryPage mk PANTRY_FOOD (BuyPantryItem mk action c))
      else Some (tell CloseGossip c))"

subsection \<open>The junk compactor\<close>

text \<open>A stack used up by charges is worth what is left of them; the first such spell counts.\<close>

fun charge_value :: "(u32 \<times> int) list \<Rightarrow> nat \<Rightarrow> (nat \<Rightarrow> int) \<Rightarrow> u32 \<Rightarrow> u32" where
  "charge_value [] i charges money = money"
| "charge_value ((spell, limit) # rest) i charges money =
     (if spell \<noteq> 0 \<and> limit < 0 then u32_of_real (real (unat money) * real_of_int (charges i) / real_of_int limit)
      else charge_value rest (Suc i) charges money)"

definition MAX_ITEM_PROTO_SPELLS :: nat where "MAX_ITEM_PROTO_SPELLS = 5"

text \<open>The price and the reason: a price of 0 is a refusal.\<close>

definition CompactValue :: "market \<Rightarrow> customer \<Rightarrow> place \<Rightarrow> item \<Rightarrow> u32 \<times> string" where
  "CompactValue mk c pos it =
     (let no = ''No merchant would buy that.''
      in case mk_proto mk (i_entry it) of
           None \<Rightarrow> (0, no)
         | Some proto \<Rightarrow>
             if ip_sellPrice proto = 0 then (0, no)
             else if i_owner it \<noteq> pl_guid (cu_self c) \<or> i_inTrade it \<or> cu_looting c = i_guid it then (0, no)
             else if (case i_bag it of None \<Rightarrow> False | Some n \<Rightarrow> \<not> IsEmptyBag (cu_items c) pos n)
             then (0, ''Empty the bag first.'')
             else
               let money = charge_value (take MAX_ITEM_PROTO_SPELLS (ip_spells proto)) 0 (i_charges it)
                             (ip_sellPrice proto * i_count it)
               in if unat (cu_money c) + unat money > unat MAX_MONEY_AMOUNT
                  then (0, ''You cannot carry more gold.'') else (money, no))"

definition CompactSell :: "place \<Rightarrow> item \<Rightarrow> u32 \<Rightarrow> customer \<Rightarrow> customer" where
  "CompactSell pos it money c =
     ModifyMoney money (DestroyItem pos (ItemRemovedQuestCheck (i_entry it) (i_count it)
       (tell (LogSold (i_entry it)) c)))"

definition COMPACT_SOUND :: u32 where "COMPACT_SOUND = 4902"

definition CompactorSparks :: "customer \<Rightarrow> customer" where
  "CompactorSparks c = tell (Sound COMPACT_SOUND) (tell Sparks c)"

definition COMPACT_PREFIX :: string where "COMPACT_PREFIX = ''CSELL''"

definition StopCompacting :: "customer \<times> parlour \<Rightarrow> customer \<times> parlour" where
  "StopCompacting st =
     (case st of (c, pa) \<Rightarrow>
        (tell (AddonWord COMPACT_PREFIX ''S'') c,
         pa\<lparr>pa_compacting := sm_erase (pl_guid (cu_self c)) (pa_compacting pa)\<rparr>))"

definition ITEM_QUALITY_POOR :: u32 where "ITEM_QUALITY_POOR = 0"

text \<open>One position of the walk over backpack and bags; every item has a template.\<close>

definition consider_grey :: "market \<Rightarrow> place \<Rightarrow> customer \<times> u32 \<times> u32 \<Rightarrow> customer \<times> u32 \<times> u32" where
  "consider_grey mk pos st =
     (case st of (c, sold, gained) \<Rightarrow>
        (case GetItemByPos (cu_items c) pos of
           None \<Rightarrow> (c, sold, gained)
         | Some it \<Rightarrow>
             if map_option ip_quality (mk_proto mk (i_entry it)) \<noteq> Some ITEM_QUALITY_POOR then (c, sold, gained)
             else
               let money = fst (CompactValue mk c pos it)
               in if money \<noteq> 0 then (CompactSell pos it money c, sold + 1, gained + money)
                  else (c, sold, gained)))"

definition grey_places :: "place list" where
  "grey_places = map (Pair INVENTORY_SLOT_BAG_0) [INVENTORY_SLOT_ITEM_START..<INVENTORY_SLOT_ITEM_END]
     @ bag_places [INVENTORY_SLOT_BAG_START..<INVENTORY_SLOT_BAG_END] MAX_BAG_SIZE"

definition SellAllGreys :: "market \<Rightarrow> customer \<Rightarrow> customer" where
  "SellAllGreys mk c =
     (case fold (consider_grey mk) grey_places (c, 0, 0) of
        (c', sold, gained) \<Rightarrow>
          if sold \<noteq> 0
          then tell (Said (''Sold '' @ to_string sold @ '' grey item'' @ (if sold = 1 then [] else ''s'')
                           @ '' for '' @ MoneyText gained @ ''.'')) (CompactorSparks c')
          else tell (Said ''Nothing grey to sell.'') c')"

definition COMPACT_TEXT :: u32 where "COMPACT_TEXT = 6400045"

definition COMPACT_SENDER :: u32 where "COMPACT_SENDER = 6408"

definition ACT_COMPACT_PICK :: u32 where "ACT_COMPACT_PICK = 1"

definition ACT_COMPACT_GREYS :: u32 where "ACT_COMPACT_GREYS = 2"

definition ACT_COMPACT_CLOSE :: u32 where "ACT_COMPACT_CLOSE = 3"

definition GOHello_go_house_compactor :: "HouseMgr \<Rightarrow> u32 \<Rightarrow> customer \<Rightarrow> customer option" where
  "GOHello_go_house_compactor s go c =
     (if InEditSession s (cu_self c) go then None
      else Some (tell (Page COMPACT_TEXT [(''Compact Item'', ACT_COMPACT_PICK),
                        (''Sell all grey items'', ACT_COMPACT_GREYS), (''Close'', ACT_COMPACT_CLOSE)]) c))"

definition GossipSelect_go_house_compactor ::
  "market \<Rightarrow> u32 \<Rightarrow> u32 \<Rightarrow> u32 \<Rightarrow> customer \<times> parlour \<Rightarrow> (customer \<times> parlour) option" where
  "GossipSelect_go_house_compactor mk go sender action st =
     (case st of (c, pa) \<Rightarrow>
        if sender \<noteq> COMPACT_SENDER then None
        else
          let c1 = tell CloseGossip c
          in if action = ACT_COMPACT_PICK
             then Some (tell (AddonWord COMPACT_PREFIX ''P'') c1,
                        pa\<lparr>pa_compacting := sm_put (pl_guid (cu_self c)) go (pa_compacting pa)\<rparr>)
             else if action = ACT_COMPACT_GREYS then Some (SellAllGreys mk c1, pa)
             else Some (c1, pa))"

text \<open>
  The bag and the slot come off the wire; the sum is one of \<open>uint32\<close>, and the slot handed to
  \<open>GetItemByPos\<close> a \<open>uint8\<close>.
\<close>

definition HouseCompactItem :: "market \<Rightarrow> u32 \<Rightarrow> u32 \<Rightarrow> customer \<times> parlour \<Rightarrow> customer \<times> parlour" where
  "HouseCompactItem mk bag slot st =
     (case st of (c, pa) \<Rightarrow>
        if (case sm_find (pa_compacting pa) (pl_guid (cu_self c)) of None \<Rightarrow> True | Some go \<Rightarrow> \<not> mk_reach mk c go)
        then (case StopCompacting (c, pa) of (c1, pa1) \<Rightarrow> (tell (Notified ''Use the Junk Compactor first.'') c1, pa1))
        else if bag > 4 \<or> slot = 0 then (c, pa)
        else
          let serverBag = (if bag \<noteq> 0 then INVENTORY_SLOT_BAG_START + unat bag - 1 else INVENTORY_SLOT_BAG_0);
              serverSlot = (if bag \<noteq> 0 then slot - 1 else of_nat INVENTORY_SLOT_ITEM_START + slot - 1);
              pos = (serverBag, unat (serverSlot AND 255))
          in if bag = 0 \<and> serverSlot \<ge> of_nat INVENTORY_SLOT_ITEM_END then (c, pa)
             else case GetItemByPos (cu_items c) pos of
               None \<Rightarrow> (c, pa)
             | Some it \<Rightarrow>
                 (case CompactValue mk c pos it of
                    (money, why) \<Rightarrow>
                      if money = 0 then (tell (Notified why) c, pa)
                      else
                        let c1 = CompactorSparks (CompactSell pos it money c);
                            name = (case mk_proto mk (i_entry it) of None \<Rightarrow> [] | Some proto \<Rightarrow> ip_name proto)
                        in (tell (Said (''Sold '' @ name
                              @ (if i_count it > 1 then '' x'' @ to_string (i_count it) else [])
                              @ '' for '' @ MoneyText money @ ''.'')) c1, pa)))"

subsection \<open>The shops\<close>

definition HOUSE_SHOPS :: "(u32 \<times> u32) list" where
  "HOUSE_SHOPS = [(100029, 100043), (100030, 100044)]"

definition HouseShopRefusesSales :: "u32 option \<Rightarrow> bool" where
  "HouseShopRefusesSales vendor = (case vendor of None \<Rightarrow> False | Some entry \<Rightarrow> entry \<in> snd ` set HOUSE_SHOPS)"

text \<open>The vendor is found beside the object or summoned there; the market gives its guid, if either works.\<close>

definition GOHello_go_house_shop :: "market \<Rightarrow> HouseMgr \<Rightarrow> u32 \<Rightarrow> u32 \<Rightarrow> customer \<Rightarrow> customer option" where
  "GOHello_go_house_shop mk s go goEntry c =
     (if InEditSession s (cu_self c) go then None
      else case find (\<lambda>r. fst r = goEntry) HOUSE_SHOPS of
        None \<Rightarrow> Some c
      | Some (_, vendorEntry) \<Rightarrow>
          (case mk_vendor mk go vendorEntry of
             None \<Rightarrow> Some (tell (Said ''The shop is closed.'') c)
           | Some vendor \<Rightarrow> Some (tell (ListInventory vendor) c)))"

subsection \<open>Fortunes and potions\<close>

text \<open>The pages of the upgrades menu.\<close>

definition HOUSE_UPGRADE_PAGE_TOOLS :: nat where "HOUSE_UPGRADE_PAGE_TOOLS = 1"

definition HOUSE_UPGRADE_PAGE_MAILBOXES :: nat where "HOUSE_UPGRADE_PAGE_MAILBOXES = 2"

definition HOUSE_UPGRADE_PAGE_FORTUNES :: nat where "HOUSE_UPGRADE_PAGE_FORTUNES = 3"

definition HOUSE_UPGRADE_PAGE_ELIXIRS :: nat where "HOUSE_UPGRADE_PAGE_ELIXIRS = 4"

definition HOUSE_UPGRADE_PAGE_SPELL_ELIXIRS :: nat where "HOUSE_UPGRADE_PAGE_SPELL_ELIXIRS = 5"

definition HOUSE_UPGRADE_PAGE_UTILITY :: nat where "HOUSE_UPGRADE_PAGE_UTILITY = 6"

definition HOUSE_UPGRADE_PAGE_POTIONS :: nat where "HOUSE_UPGRADE_PAGE_POTIONS = 7"

definition HOUSE_UPGRADE_PAGE_FLASKS :: nat where "HOUSE_UPGRADE_PAGE_FLASKS = 8"

lemmas page_defs = HOUSE_UPGRADE_PAGE_TOOLS_def HOUSE_UPGRADE_PAGE_MAILBOXES_def HOUSE_UPGRADE_PAGE_FORTUNES_def HOUSE_UPGRADE_PAGE_ELIXIRS_def HOUSE_UPGRADE_PAGE_SPELL_ELIXIRS_def HOUSE_UPGRADE_PAGE_UTILITY_def HOUSE_UPGRADE_PAGE_POTIONS_def HOUSE_UPGRADE_PAGE_FLASKS_def

record HouseBuff =
  hb_goEntry :: u32
  hb_spellId :: u32
  hb_item :: u32
  hb_page :: nat
  hb_name :: string

definition house_buff :: "u32 \<times> u32 \<times> u32 \<times> nat \<times> string \<Rightarrow> HouseBuff" where
  "house_buff r =
     (case r of (go, spell, itemEntry, page, name) \<Rightarrow>
        \<lparr>hb_goEntry = go, hb_spellId = spell, hb_item = itemEntry, hb_page = page, hb_name = name\<rparr>)"

definition HOUSE_BUFFS :: "HouseBuff list" where
  "HOUSE_BUFFS = map house_buff
     [(100017, 23735, 0, HOUSE_UPGRADE_PAGE_FORTUNES, ''Fortune of Strength''),
      (100018, 23736, 0, HOUSE_UPGRADE_PAGE_FORTUNES, ''Fortune of Agility''),
      (100019, 23737, 0, HOUSE_UPGRADE_PAGE_FORTUNES, ''Fortune of Stamina''),
      (100020, 23738, 0, HOUSE_UPGRADE_PAGE_FORTUNES, ''Fortune of Spirit''),
      (100021, 23766, 0, HOUSE_UPGRADE_PAGE_FORTUNES, ''Fortune of Intellect''),
      (100022, 23767, 0, HOUSE_UPGRADE_PAGE_FORTUNES, ''Fortune of Armor''),
      (100023, 23768, 0, HOUSE_UPGRADE_PAGE_FORTUNES, ''Fortune of Damage''),
      (100024, 23769, 0, HOUSE_UPGRADE_PAGE_FORTUNES, ''Fortune of Resistance''),
      (100040, 2367, 2454, HOUSE_UPGRADE_PAGE_ELIXIRS, ''Elixir of Lion'' @ CHR 0x27 # ''s Strength''),
      (100041, 673, 5997, HOUSE_UPGRADE_PAGE_ELIXIRS, ''Elixir of Minor Defense''),
      (100042, 2374, 2457, HOUSE_UPGRADE_PAGE_ELIXIRS, ''Elixir of Minor Agility''),
      (100043, 2378, 2458, HOUSE_UPGRADE_PAGE_ELIXIRS, ''Elixir of Minor Fortitude''),
      (100044, 3220, 3389, HOUSE_UPGRADE_PAGE_ELIXIRS, ''Elixir of Defense''),
      (100045, 3160, 3390, HOUSE_UPGRADE_PAGE_ELIXIRS, ''Elixir of Lesser Agility''),
      (100046, 3164, 3391, HOUSE_UPGRADE_PAGE_ELIXIRS, ''Elixir of Ogre'' @ CHR 0x27 # ''s Strength''),
      (100047, 3593, 3825, HOUSE_UPGRADE_PAGE_ELIXIRS, ''Elixir of Fortitude''),
      (100048, 11328, 8949, HOUSE_UPGRADE_PAGE_ELIXIRS, ''Elixir of Agility''),
      (100049, 11349, 8951, HOUSE_UPGRADE_PAGE_ELIXIRS, ''Elixir of Greater Defense''),
      (100050, 11396, 9179, HOUSE_UPGRADE_PAGE_ELIXIRS, ''Elixir of Greater Intellect''),
      (100051, 11334, 9187, HOUSE_UPGRADE_PAGE_ELIXIRS, ''Elixir of Greater Agility''),
      (100052, 11405, 9206, HOUSE_UPGRADE_PAGE_ELIXIRS, ''Elixir of Giants''),
      (100053, 11348, 13445, HOUSE_UPGRADE_PAGE_ELIXIRS, ''Elixir of Superior Defense''),
      (100054, 17535, 13447, HOUSE_UPGRADE_PAGE_ELIXIRS, ''Elixir of the Sages''),
      (100055, 17537, 13453, HOUSE_UPGRADE_PAGE_ELIXIRS, ''Elixir of Brute Force''),
      (100056, 17538, 13452, HOUSE_UPGRADE_PAGE_ELIXIRS, ''Elixir of the Mongoose''),
      (100057, 3166, 3383, HOUSE_UPGRADE_PAGE_SPELL_ELIXIRS, ''Elixir of Wisdom''),
      (100058, 7844, 6373, HOUSE_UPGRADE_PAGE_SPELL_ELIXIRS, ''Elixir of Firepower''),
      (100059, 21920, 17708, HOUSE_UPGRADE_PAGE_SPELL_ELIXIRS, ''Elixir of Frost Power''),
      (100060, 11390, 9155, HOUSE_UPGRADE_PAGE_SPELL_ELIXIRS, ''Arcane Elixir''),
      (100061, 26276, 21546, HOUSE_UPGRADE_PAGE_SPELL_ELIXIRS, ''Elixir of Greater Firepower''),
      (100062, 56544, 55046, HOUSE_UPGRADE_PAGE_SPELL_ELIXIRS, ''Elixir of Greater Frost Power''),
      (100063, 56545, 55048, HOUSE_UPGRADE_PAGE_SPELL_ELIXIRS, ''Elixir of Greater Arcane Power''),
      (100064, 11474, 9264, HOUSE_UPGRADE_PAGE_SPELL_ELIXIRS, ''Elixir of Shadow Power''),
      (100065, 17539, 13454, HOUSE_UPGRADE_PAGE_SPELL_ELIXIRS, ''Greater Arcane Elixir''),
      (100066, 45988, 50237, HOUSE_UPGRADE_PAGE_SPELL_ELIXIRS, ''Elixir of Greater Nature Power''),
      (100067, 49010, 42185, HOUSE_UPGRADE_PAGE_SPELL_ELIXIRS, ''Elixir of Mind'' @ CHR 0x27 # ''s Reach''),
      (100068, 7178, 5996, HOUSE_UPGRADE_PAGE_UTILITY, ''Elixir of Water Breathing''),
      (100069, 8212, 6662, HOUSE_UPGRADE_PAGE_UTILITY, ''Elixir of Giant Growth''),
      (100070, 11319, 8827, HOUSE_UPGRADE_PAGE_UTILITY, ''Elixir of Water Walking''),
      (100071, 6512, 3828, HOUSE_UPGRADE_PAGE_UTILITY, ''Elixir of Detect Lesser Invisibility''),
      (100072, 12608, 10592, HOUSE_UPGRADE_PAGE_UTILITY, ''Catseye Elixir''),
      (100073, 22807, 18294, HOUSE_UPGRADE_PAGE_UTILITY, ''Elixir of Greater Water Breathing''),
      (100074, 46102, 56113, HOUSE_UPGRADE_PAGE_UTILITY, ''Elixir of Rapid Growth''),
      (100075, 11389, 9154, HOUSE_UPGRADE_PAGE_UTILITY, ''Elixir of Detect Undead''),
      (100076, 11406, 9224, HOUSE_UPGRADE_PAGE_UTILITY, ''Elixir of Demonslaying''),
      (100077, 11407, 9233, HOUSE_UPGRADE_PAGE_UTILITY, ''Elixir of Detect Demon''),
      (100078, 3219, 3382, HOUSE_UPGRADE_PAGE_POTIONS, ''Weak Troll'' @ CHR 0x27 # ''s Blood Potion''),
      (100079, 7245, 6051, HOUSE_UPGRADE_PAGE_POTIONS, ''Holy Protection Potion''),
      (100080, 3222, 3388, HOUSE_UPGRADE_PAGE_POTIONS, ''Strong Troll'' @ CHR 0x27 # ''s Blood Potion''),
      (100081, 7242, 6048, HOUSE_UPGRADE_PAGE_POTIONS, ''Shadow Protection Potion''),
      (100082, 7233, 6049, HOUSE_UPGRADE_PAGE_POTIONS, ''Fire Protection Potion''),
      (100083, 3223, 3826, HOUSE_UPGRADE_PAGE_POTIONS, ''Mighty Troll'' @ CHR 0x27 # ''s Blood Potion''),
      (100084, 7239, 6050, HOUSE_UPGRADE_PAGE_POTIONS, ''Frost Protection Potion''),
      (100085, 7254, 6052, HOUSE_UPGRADE_PAGE_POTIONS, ''Nature Protection Potion''),
      (100086, 24363, 20007, HOUSE_UPGRADE_PAGE_POTIONS, ''Mageblood Potion''),
      (100087, 17544, 13456, HOUSE_UPGRADE_PAGE_POTIONS, ''Greater Frost Protection Potion''),
      (100088, 17543, 13457, HOUSE_UPGRADE_PAGE_POTIONS, ''Greater Fire Protection Potion''),
      (100089, 17546, 13458, HOUSE_UPGRADE_PAGE_POTIONS, ''Greater Nature Protection Potion''),
      (100090, 17548, 13459, HOUSE_UPGRADE_PAGE_POTIONS, ''Greater Shadow Protection Potion''),
      (100091, 17545, 13460, HOUSE_UPGRADE_PAGE_POTIONS, ''Greater Holy Protection Potion''),
      (100092, 17549, 13461, HOUSE_UPGRADE_PAGE_POTIONS, ''Greater Arcane Protection Potion''),
      (100093, 24361, 20004, HOUSE_UPGRADE_PAGE_POTIONS, ''Major Troll'' @ CHR 0x27 # ''s Blood Potion''),
      (100094, 17626, 13510, HOUSE_UPGRADE_PAGE_FLASKS, ''Flask of the Titans''),
      (100095, 17627, 13511, HOUSE_UPGRADE_PAGE_FLASKS, ''Flask of Distilled Wisdom''),
      (100096, 17628, 13512, HOUSE_UPGRADE_PAGE_FLASKS, ''Flask of Supreme Power''),
      (100097, 17629, 13513, HOUSE_UPGRADE_PAGE_FLASKS, ''Flask of Chromatic Resistance'')]"

definition FindBuff :: "u32 \<Rightarrow> HouseBuff option" where
  "FindBuff goEntry = find (\<lambda>b. hb_goEntry b = goEntry) HOUSE_BUFFS"

definition FindBuffBySpell :: "u32 \<Rightarrow> HouseBuff option" where
  "FindBuffBySpell spellId = find (\<lambda>b. hb_spellId b = spellId) HOUSE_BUFFS"

definition IsFortune :: "HouseBuff \<Rightarrow> bool" where "IsFortune b \<longleftrightarrow> hb_page b = HOUSE_UPGRADE_PAGE_FORTUNES"

definition IsFlask :: "HouseBuff \<Rightarrow> bool" where "IsFlask b \<longleftrightarrow> hb_page b = HOUSE_UPGRADE_PAGE_FLASKS"

definition UpgradePage :: "market \<Rightarrow> HouseMgr \<Rightarrow> u32 \<Rightarrow> nat" where
  "UpgradePage mk s itemEntry =
     (let goEntry = GetFurnitureGoEntry s itemEntry
      in if mk_goType mk goEntry = Some GAMEOBJECT_TYPE_MAILBOX then HOUSE_UPGRADE_PAGE_MAILBOXES
         else case FindBuff goEntry of None \<Rightarrow> HOUSE_UPGRADE_PAGE_TOOLS | Some b \<Rightarrow> hb_page b)"

definition FORTUNE_MS :: int where "FORTUNE_MS = 30 * 60 * 1000"

definition FLASK_TIMER :: u32 where "FLASK_TIMER = 9744"

definition FLASK_COOLDOWN :: nat where "FLASK_COOLDOWN = 12 * 3600"

definition FORTUNE_CAST :: u32 where "FORTUNE_CAST = 5017"

definition POTION_CAST :: u32 where "POTION_CAST = 46200"

definition CAST_PREFIX :: string where "CAST_PREFIX = ''CCAST''"

definition BuffDuration :: "market \<Rightarrow> HouseBuff \<Rightarrow> int" where
  "BuffDuration mk b =
     (if IsFortune b then FORTUNE_MS
      else case mk_maxDuration mk (hb_spellId b) of None \<Rightarrow> 0 | Some ms \<Rightarrow> ms)"

definition DurationText :: "int \<Rightarrow> string" where
  "DurationText ms =
     (let minutes = nat (ms div 60 div 1000)
      in if minutes \<noteq> 0 \<and> minutes mod 60 = 0
         then dec_nat (minutes div 60) @ (if minutes = 60 then '' hour'' else '' hours'')
         else dec_nat minutes @ (if minutes = 1 then '' minute'' else '' minutes''))"

definition HasSpellCooldown :: "market \<Rightarrow> customer \<Rightarrow> u32 \<Rightarrow> bool" where
  "HasSpellCooldown mk c spell =
     (case sm_find (cu_cooldowns c) spell of None \<Rightarrow> False | Some until \<Rightarrow> until > mk_now mk)"

definition GetSpellCooldownDelay :: "market \<Rightarrow> customer \<Rightarrow> u32 \<Rightarrow> nat" where
  "GetSpellCooldownDelay mk c spell =
     (case sm_find (cu_cooldowns c) spell of None \<Rightarrow> 0 | Some until \<Rightarrow> until - mk_now mk)"

definition longer_aura :: "customer \<Rightarrow> u32 \<Rightarrow> int \<Rightarrow> bool" where
  "longer_aura c spell duration =
     (case sm_find (cu_auras c) spell of None \<Rightarrow> False | Some left \<Rightarrow> left > duration)"

definition too_low :: "market \<Rightarrow> customer \<Rightarrow> HouseBuff \<Rightarrow> u32 option" where
  "too_low mk c b =
     (if hb_item b = 0 then None
      else case mk_proto mk (hb_item b) of
        None \<Rightarrow> None
      | Some proto \<Rightarrow> if cu_level c < ip_requiredLevel proto then Some (ip_requiredLevel proto) else None)"

definition RefuseBuff :: "market \<Rightarrow> customer \<Rightarrow> HouseBuff \<Rightarrow> string" where
  "RefuseBuff mk c b =
     (case too_low mk c b of
        Some level \<Rightarrow> ''You must be level '' @ to_string level @ ''.''
      | None \<Rightarrow>
          if IsFlask b \<and> HasSpellCooldown mk c FLASK_TIMER
          then let left = GetSpellCooldownDelay mk c FLASK_TIMER
               in ''You can take another flask in ''
                  @ (if left \<ge> 3600 then dec_nat (left div 3600) @ '' h '' @ dec_nat ((left mod 3600) div 60) @ '' min.''
                     else dec_nat ((left + 59) div 60) @ '' min.'')
          else if longer_aura c (hb_spellId b) (BuffDuration mk b) then ''You already have a longer one.''
          else if IsFortune b \<and> list_ex (\<lambda>f. IsFortune f \<and> longer_aura c (hb_spellId f) FORTUNE_MS) HOUSE_BUFFS
          then ''You already have a longer fortune.''
          else [])"

definition remove_aura :: "u32 \<Rightarrow> customer \<Rightarrow> customer" where
  "remove_aura spell c = c\<lparr>cu_auras := sm_erase spell (cu_auras c)\<rparr>"

definition ApplyBuff :: "market \<Rightarrow> HouseBuff \<Rightarrow> customer \<times> parlour \<Rightarrow> customer \<times> parlour" where
  "ApplyBuff mk b st =
     (case st of (c, pa) \<Rightarrow>
        if RefuseBuff mk c b \<noteq> [] then (tell (Said (RefuseBuff mk c b)) c, pa)
        else
          let self = pl_guid (cu_self c);
              c1 = (case sm_find (pa_lastBuff pa) self of
                      None \<Rightarrow> c | Some spell \<Rightarrow> if spell \<noteq> 0 then remove_aura spell c else c);
              c2 = (if IsFortune b
                    then fold (\<lambda>f. remove_aura (hb_spellId f)) (filter IsFortune HOUSE_BUFFS) c1 else c1);
              c3 = remove_aura (hb_spellId b) c2;
              cast = mk_cast mk (hb_spellId b) (cu_auras c3);
              auras = (if sm_has cast (hb_spellId b) then cast else mk_addAura mk (hb_spellId b) cast);
              c4 = c3\<lparr>cu_auras := auras\<rparr>
          in if \<not> sm_has auras (hb_spellId b) then (tell (Said ''That did not take.'') c4, pa)
             else
               let c5 = (if IsFortune b then c4\<lparr>cu_auras := sm_put (hb_spellId b) FORTUNE_MS auras\<rparr> else c4);
                   c6 = (if IsFlask b
                         then c5\<lparr>cu_cooldowns := sm_put FLASK_TIMER (mk_now mk + FLASK_COOLDOWN) (cu_cooldowns c5)\<rparr>
                         else c5)
               in (tell (Said (hb_name b @ '' for '' @ DurationText (BuffDuration mk b) @ ''.'')) c6,
                   pa\<lparr>pa_lastBuff := sm_put self (hb_spellId b) (pa_lastBuff pa)\<rparr>))"

text \<open>The click starts a cast that carries the spell of the buff; its end looks the buff up again.\<close>

definition StartBuffCast :: "market \<Rightarrow> HouseMgr \<Rightarrow> u32 \<Rightarrow> u32 \<Rightarrow> customer \<Rightarrow> customer option" where
  "StartBuffCast mk s go goEntry c =
     (if InEditSession s (cu_self c) go then None
      else case FindBuff goEntry of
        None \<Rightarrow> Some c
      | Some b \<Rightarrow>
          if RefuseBuff mk c b \<noteq> [] then Some (tell (Said (RefuseBuff mk c b)) c)
          else Some (tell (CastBar (if IsFortune b then FORTUNE_CAST else POTION_CAST) (hb_spellId b))
                       (tell (AddonWord CAST_PREFIX (if IsFortune b then ''Reading'' else ''Drinking'')) c)))"

definition OnSuccessfulFinish :: "market \<Rightarrow> u32 \<Rightarrow> customer \<times> parlour \<Rightarrow> customer \<times> parlour" where
  "OnSuccessfulFinish mk basePoints st =
     (case FindBuffBySpell basePoints of None \<Rightarrow> st | Some b \<Rightarrow> ApplyBuff mk b st)"

end
