(* ===== verification/HouseTrade.thy ===== *)
theory HouseTrade
  imports HouseUpgrades
begin

section \<open>What the working objects take and give\<close>

text \<open>
  Claims about the operations of HouseUpgrades: what a purchase and a sale do to gold and bags, what the
  compactor can be made to sell, what a house buff leaves on a player. A store in the bags and a cast are
  the core's; what it documents of them is \<open>honest_store\<close> and \<open>honest_cast\<close>.
\<close>

subsection \<open>What the trade does to gold and bags\<close>

lemma tell_fields [simp]: "cu_self (tell e c) = cu_self c" "cu_money (tell e c) = cu_money c"
  "cu_items (tell e c) = cu_items c" "cu_quests (tell e c) = cu_quests c" "cu_looting (tell e c) = cu_looting c"
  "cu_auras (tell e c) = cu_auras c" "cu_cooldowns (tell e c) = cu_cooldowns c" "cu_level (tell e c) = cu_level c"
  by (simp_all add: tell_def)

text \<open>What a store of this many items does to the bags, as the core documents it.\<close>

definition honest_store :: "market \<Rightarrow> bool" where
  "honest_store mk \<longleftrightarrow>
     (\<forall>items entry n items'. mk_store mk items entry n = Some items' \<longrightarrow>
        (\<forall>e. GetItemCount items' e = GetItemCount items e + (if e = entry then n else 0)))"

text \<open>One purchase: so much gold for so many of one item, and nothing else.\<close>

definition purchase :: "u32 \<Rightarrow> u32 \<Rightarrow> u32 \<Rightarrow> customer \<Rightarrow> customer \<Rightarrow> bool" where
  "purchase entry amount price c c' \<longleftrightarrow>
     price \<le> cu_money c \<and> cu_money c' = cu_money c - price
     \<and> (\<forall>e. GetItemCount (cu_items c') e = GetItemCount (cu_items c) e + (if e = entry then amount else 0))"

lemma purchaseI:
  assumes "honest_store mk" and "mk_store mk (cu_items c) entry n = Some items"
    and "\<not> cu_money c < price" and "cu_money c \<le> MAX_MONEY_AMOUNT"
  shows "purchase entry n price c (tell e (ModifyMoney (- price) (c\<lparr>cu_items := items\<rparr>)))"
proof -
  have "ModifyMoney (- price) (c\<lparr>cu_items := items\<rparr>) = (c\<lparr>cu_items := items\<rparr>)\<lparr>cu_money := cu_money c - price\<rparr>"
    using assms(3,4) spend [of price "c\<lparr>cu_items := items\<rparr>"] by simp
  then show ?thesis using assms by (auto simp: purchase_def honest_store_def)
qed

text \<open>
  buying an upgrade. It is refused, and changes nothing, unless the crate is an upgrade, the gold
  reaches its price and the bags have room; otherwise exactly the price is taken and exactly one crate
  put in the bags.
\<close>

theorem upgrade_purchase_is_exact:
  assumes "honest_store mk" and "cu_money c \<le> MAX_MONEY_AMOUNT"
  shows "case BuyUpgrade mk s entry c of
      (c', Inl e) \<Rightarrow> c' = c
    | (c', Inr _) \<Rightarrow> entry \<in> set (UpgradeItems mk s)
        \<and> (\<exists>proto. mk_proto mk entry = Some proto \<and> purchase entry 1 (ip_buyPrice proto) c c')"
  using assms by (auto simp: BuyUpgrade_def Let_def intro: purchaseI split: option.splits)

text \<open>
  the pantry. Whatever sender and action arrive off the wire, gold is spent only on an entry of the
  two lists, and then exactly the price of its bundle for exactly that bundle.
\<close>

theorem pantry_sells_only_its_lists:
  assumes "honest_store mk" and "cu_money c \<le> MAX_MONEY_AMOUNT"
  shows "case GossipSelect_go_house_pantry mk sender action c of
      None \<Rightarrow> sender \<noteq> PANTRY_SENDER
    | Some c' \<Rightarrow> sender = PANTRY_SENDER
        \<and> (if cu_money c' = cu_money c \<and> cu_items c' = cu_items c then True
           else action \<in> set PANTRY_DRINKS \<union> set PANTRY_FOOD
             \<and> (\<exists>proto. mk_proto mk action = Some proto
                 \<and> purchase action (if ip_buyCount proto \<noteq> 0 then ip_buyCount proto else 1) (ip_buyPrice proto) c c'))"
proof -
  have page: "cu_money (SendPantryPage mk xs c) = cu_money c" "cu_items (SendPantryPage mk xs c) = cu_items c"
    "cu_money (SendPantryMain c) = cu_money c" "cu_items (SendPantryMain c) = cu_items c" for xs c
    by (simp_all add: SendPantryPage_def SendPantryMain_def)
  have moved: "purchase entry n price c (SendPantryPage mk xs c') = purchase entry n price c c'" for entry n price xs c'
    by (simp add: purchase_def page)
  have buy: "cu_money (BuyPantryItem mk action c) = cu_money c \<and> cu_items (BuyPantryItem mk action c) = cu_items c
    \<or> (\<exists>proto. mk_proto mk action = Some proto
         \<and> purchase action (if ip_buyCount proto \<noteq> 0 then ip_buyCount proto else 1) (ip_buyPrice proto) c
             (BuyPantryItem mk action c))"
  proof (cases "mk_proto mk action")
    case (Some proto)
    let ?n = "if ip_buyCount proto \<noteq> 0 then ip_buyCount proto else 1"
    show ?thesis
    proof (cases "mk_store mk (cu_items c) action ?n")
      case None
      with Some show ?thesis by (simp add: BuyPantryItem_def Let_def)
    next
      case (Some items)
      show ?thesis
      proof (cases "cu_money c < ip_buyPrice proto \<or> \<not> mk_canStore mk (cu_items c) action ?n")
        case True
        then show ?thesis using \<open>mk_proto mk action = Some proto\<close> by (auto simp: BuyPantryItem_def Let_def)
      next
        case False
        then have "BuyPantryItem mk action c
            = tell (NewItem action ?n) (ModifyMoney (- ip_buyPrice proto) (c\<lparr>cu_items := items\<rparr>))"
          using \<open>mk_proto mk action = Some proto\<close> Some by (simp add: BuyPantryItem_def Let_def)
        moreover have "purchase action ?n (ip_buyPrice proto) c
            (tell (NewItem action ?n) (ModifyMoney (- ip_buyPrice proto) (c\<lparr>cu_items := items\<rparr>)))"
          using False by (intro purchaseI [OF assms(1) Some _ assms(2)]) simp
        ultimately show ?thesis using \<open>mk_proto mk action = Some proto\<close> by simp
      qed
    qed
  qed (simp add: BuyPantryItem_def)
  show ?thesis
    using buy unfolding GossipSelect_go_house_pantry_def
    by (auto simp: page moved simp del: set_append)
qed

subsection \<open>What the compactor takes and pays\<close>

lemma ItemRemovedQuestCheck_fields [simp]: "cu_self (ItemRemovedQuestCheck e n c) = cu_self c"
  "cu_money (ItemRemovedQuestCheck e n c) = cu_money c" "cu_items (ItemRemovedQuestCheck e n c) = cu_items c"
  "cu_looting (ItemRemovedQuestCheck e n c) = cu_looting c"
  by (simp_all add: ItemRemovedQuestCheck_def Let_def)

lemma destroy_one_fields [simp]: "cu_self (destroy_one pos c) = cu_self c" "cu_money (destroy_one pos c) = cu_money c"
  "cu_looting (destroy_one pos c) = cu_looting c"
  by (simp_all add: destroy_one_def Let_def split: option.split)

lemma ModifyMoney_fields [simp]: "cu_self (ModifyMoney d c) = cu_self c" "cu_items (ModifyMoney d c) = cu_items c"
  "cu_quests (ModifyMoney d c) = cu_quests c" "cu_looting (ModifyMoney d c) = cu_looting c"
  by (simp_all add: ModifyMoney_def Let_def)

lemma destroy_one_items:
  "GetItemByPos (cu_items c) pos = Some it \<Longrightarrow> cu_items (destroy_one pos c) = (cu_items c)(pos := None)"
  by (simp add: destroy_one_def Let_def)

lemma empty_bag_gone:
  assumes "\<And>p. p \<in> set ps \<Longrightarrow> GetItemByPos (cu_items c) p = None"
  shows "fold destroy_one ps c = c"
  using assms by (induction ps) (simp_all add: destroy_one_def)

lemma IsEmptyBag_holds:
  assumes "IsEmptyBag items (INVENTORY_SLOT_BAG_0, j) n" and "items (INVENTORY_SLOT_BAG_0, j) = Some it"
    and "i_bag it = Some n" and "p \<in> set (bag_places [j] k)" and "j < INVENTORY_SLOT_BAG_END"
  shows "GetItemByPos items p = None"
proof -
  obtain i where "p = (j, i)" using assms(4) by (auto simp: bag_places_def)
  moreover have "j \<noteq> INVENTORY_SLOT_BAG_0" using assms(5) by (simp add: slot_defs)
  ultimately show ?thesis
    using assms(1-3) by (auto simp: GetItemByPos_def IsEmptyBag_def list_all_iff)
qed

text \<open>A sale at a price the compactor named: the item is gone, the price is in the purse.\<close>

lemma CompactSell_run:
  assumes here: "GetItemByPos (cu_items c) pos = Some it" and price: "CompactValue mk c pos it = (money, why)"
    and "money \<noteq> 0"
  shows "cu_items (CompactSell pos it money c) = (cu_items c)(pos := None)"
    and "cu_money (CompactSell pos it money c) = cu_money c + money"
    and "unat (cu_money c) + unat money \<le> unat MAX_MONEY_AMOUNT"
    and "cu_self (CompactSell pos it money c) = cu_self c"
    and "i_owner it = pl_guid (cu_self c)" and "\<not> i_inTrade it"
proof -
  let ?c = "ItemRemovedQuestCheck (i_entry it) (i_count it) (tell (LogSold (i_entry it)) c)"
  from price \<open>money \<noteq> 0\<close> have ok: "unat (cu_money c) + unat money \<le> unat MAX_MONEY_AMOUNT"
    "i_owner it = pl_guid (cu_self c)" "\<not> i_inTrade it"
    and empty: "i_bag it = Some n \<Longrightarrow> IsEmptyBag (cu_items c) pos n" for n
    by (auto simp: CompactValue_def Let_def split: option.split_asm if_split_asm)
  have at: "cu_items c pos = Some it" by (rule GetItemByPos_Some [OF here])
  have bags: "fold destroy_one (bag_places [snd pos] MAX_BAG_SIZE) ?c = ?c"
    if "i_bag it \<noteq> None" "fst pos = INVENTORY_SLOT_BAG_0" "snd pos < INVENTORY_SLOT_BAG_END"
  proof (rule empty_bag_gone)
    fix p assume p: "p \<in> set (bag_places [snd pos] MAX_BAG_SIZE)"
    note bag = that
    obtain n where n: "i_bag it = Some n" using bag(1) by auto
    have pos: "pos = (INVENTORY_SLOT_BAG_0, snd pos)" using bag(2) by (metis prod.collapse)
    have "IsEmptyBag (cu_items c) (INVENTORY_SLOT_BAG_0, snd pos) n" using empty [OF n] pos by simp
    moreover have "cu_items c (INVENTORY_SLOT_BAG_0, snd pos) = Some it" using at pos by simp
    ultimately show "GetItemByPos (cu_items ?c) p = None"
      using IsEmptyBag_holds [OF _ _ n p bag(3)] by simp
  qed
  have destroy: "DestroyItem pos ?c = destroy_one pos ?c"
    unfolding DestroyItem_def using here bags by auto
  have items: "cu_items (destroy_one pos ?c) = (cu_items c)(pos := None)"
    using destroy_one_items [of ?c pos it] here by simp
  show "cu_items (CompactSell pos it money c) = (cu_items c)(pos := None)"
    by (simp add: CompactSell_def destroy items)
  show "cu_money (CompactSell pos it money c) = cu_money c + money"
    using earn [of "destroy_one pos ?c" money] ok(1) by (simp add: CompactSell_def destroy)
  show "cu_self (CompactSell pos it money c) = cu_self c" by (simp add: CompactSell_def destroy)
  show "unat (cu_money c) + unat money \<le> unat MAX_MONEY_AMOUNT" "i_owner it = pl_guid (cu_self c)" "\<not> i_inTrade it"
    by (rule ok)+
qed

definition sold_between :: "customer \<Rightarrow> customer \<Rightarrow> place list \<Rightarrow> place list" where
  "sold_between c c' ps = filter (\<lambda>q. cu_items c q \<noteq> None \<and> cu_items c' q = None) ps"

definition grey :: "market \<Rightarrow> item \<Rightarrow> bool" where
  "grey mk it \<longleftrightarrow> map_option ip_quality (mk_proto mk (i_entry it)) = Some ITEM_QUALITY_POOR"

lemma grey_step:
  assumes "consider_grey mk pos (c, sold, gained) = (c', sold', gained')"
  shows "if (sold', gained', c') = (sold, gained, c) then True
    else \<exists>it money. cu_items c pos = Some it \<and> grey mk it \<and> i_owner it = pl_guid (cu_self c) \<and> \<not> i_inTrade it
      \<and> cu_items c' = (cu_items c)(pos := None) \<and> cu_money c' = cu_money c + money
      \<and> unat (cu_money c) + unat money \<le> unat MAX_MONEY_AMOUNT \<and> cu_self c' = cu_self c
      \<and> sold' = sold + 1 \<and> gained' = gained + money"
proof (cases "GetItemByPos (cu_items c) pos")
  case None
  with assms show ?thesis by (simp add: consider_grey_def)
next
  case (Some it)
  obtain money why where price: "CompactValue mk c pos it = (money, why)" by force
  show ?thesis
  proof (cases "grey mk it \<and> money \<noteq> 0")
    case True
    then have "c' = CompactSell pos it money c \<and> sold' = sold + 1 \<and> gained' = gained + money"
      using assms Some price by (simp add: consider_grey_def grey_def)
    with CompactSell_run [OF Some price] True GetItemByPos_Some [OF Some] show ?thesis by auto
  next
    case False
    then have "(c', sold', gained') = (c, sold, gained)"
      using assms Some price by (cases "grey mk it") (auto simp: consider_grey_def grey_def Let_def split: if_split_asm)
    then show ?thesis by simp
  qed
qed

definition grey_run :: "market \<Rightarrow> place list \<Rightarrow> customer \<Rightarrow> customer \<Rightarrow> u32 \<Rightarrow> u32 \<Rightarrow> bool" where
  "grey_run mk ps c c' sold gained \<longleftrightarrow>
     cu_self c' = cu_self c \<and> sold = of_nat (length (sold_between c c' ps))
     \<and> unat (cu_money c') = unat (cu_money c) + unat gained \<and> cu_money c' \<le> MAX_MONEY_AMOUNT
     \<and> (\<forall>q. if cu_items c' q = cu_items c q then True
          else q \<in> set ps \<and> cu_items c' q = None
            \<and> (\<exists>it. cu_items c q = Some it \<and> grey mk it \<and> i_owner it = pl_guid (cu_self c) \<and> \<not> i_inTrade it))"

lemma grey_fold:
  assumes "distinct (ps @ qs)" and "grey_run mk ps c0 c sold gained"
    and "fold (consider_grey mk) qs (c, sold, gained) = (c', sold', gained')"
  shows "grey_run mk (ps @ qs) c0 c' sold' gained'"
  using assms
proof (induction qs arbitrary: ps c sold gained)
  case (Cons pos qs)
  obtain c1 s1 g1 where step: "consider_grey mk pos (c, sold, gained) = (c1, s1, g1)" by (metis prod_cases3)
  have run: "grey_run mk ps c0 c sold gained" by (rule Cons.prems(2))
  have new: "pos \<notin> set ps" using Cons.prems(1) by simp
  have "if cu_items c pos = cu_items c0 pos then True else pos \<in> set ps"
    using run unfolding grey_run_def by metis
  with new have old: "cu_items c pos = cu_items c0 pos" by (simp split: if_split_asm)
  have same: "sold_between c0 x (ps @ [pos]) = sold_between c0 c ps
      @ (if cu_items c0 pos \<noteq> None \<and> cu_items x pos = None then [pos] else [])"
    if "\<And>q. q \<noteq> pos \<Longrightarrow> cu_items x q = cu_items c q" for x
  proof -
    have "filter (\<lambda>q. cu_items c0 q \<noteq> None \<and> cu_items x q = None) ps
        = filter (\<lambda>q. cu_items c0 q \<noteq> None \<and> cu_items c q = None) ps"
      using that new by (intro filter_cong) metis+
    then show ?thesis by (simp add: sold_between_def)
  qed
  have "grey_run mk (ps @ [pos]) c0 c1 s1 g1"
  proof (cases "(s1, g1, c1) = (sold, gained, c)")
    case True
    then have "sold_between c0 c1 (ps @ [pos]) = sold_between c0 c ps" using same [of c1] old by auto
    with True run show ?thesis by (auto simp: grey_run_def split: if_split_asm)
  next
    case False
    with grey_step [OF step] obtain it money where it: "cu_items c pos = Some it" "grey mk it"
      "i_owner it = pl_guid (cu_self c)" "\<not> i_inTrade it" "cu_items c1 = (cu_items c)(pos := None)"
      "cu_money c1 = cu_money c + money" "unat (cu_money c) + unat money \<le> unat MAX_MONEY_AMOUNT"
      "cu_self c1 = cu_self c" "s1 = sold + 1" "g1 = gained + money" by auto
    have max: "unat MAX_MONEY_AMOUNT = 2147483646" by (simp add: MAX_MONEY_AMOUNT_def)
    have cash: "unat (cu_money c) = unat (cu_money c0) + unat gained" using run by (simp add: grey_run_def)
    have "unat (cu_money c1) = unat (cu_money c) + unat money"
      using it(6,7) max unat_add_lem [of "cu_money c" money] by simp
    moreover have "unat g1 = unat gained + unat money"
      using it(7,10) cash max unat_add_lem [of gained money] by simp
    ultimately have purse: "unat (cu_money c1) = unat (cu_money c0) + unat g1" "cu_money c1 \<le> MAX_MONEY_AMOUNT"
      using cash it(7) by (simp_all add: word_le_nat_alt)
    have "cu_items c0 pos = Some it" using old it(1) by (rule trans [OF sym])
    then have "sold_between c0 c1 (ps @ [pos]) = sold_between c0 c ps @ [pos]" using same [of c1] it(5) by simp
    then have "s1 = of_nat (length (sold_between c0 c1 (ps @ [pos])))" using run it(9) by (simp add: grey_run_def)
    with purse run it old show ?thesis by (auto simp: grey_run_def split: if_split_asm)
  qed
  moreover have "fold (consider_grey mk) qs (c1, s1, g1) = (c', sold', gained')" using Cons.prems(3) step by simp
  ultimately show ?case using Cons.IH [of "ps @ [pos]" c1 s1 g1] Cons.prems(1) by simp
qed simp

lemma grey_places_distinct: "distinct grey_places"
  by (auto simp: grey_places_def bag_places_def slot_defs distinct_map inj_on_def upt_rec)

text \<open>
  selling all greys. Every item that leaves the bags is a grey one of the customer's own, out of
  backpack or bags, never one he wears; everything else stays where it is; and the gold grows, never
  past the cap, by exactly the sum the chat line names, for exactly the number of items it names.
\<close>

theorem grey_sale_accounts:
  assumes "cu_money c \<le> MAX_MONEY_AMOUNT"
  shows "\<exists>gained. grey_run mk grey_places c (SellAllGreys mk c)
        (of_nat (length (sold_between c (SellAllGreys mk c) grey_places))) gained
    \<and> last (cu_log (SellAllGreys mk c)) =
        (let n = length (sold_between c (SellAllGreys mk c) grey_places)
         in Said (if n = 0 then ''Nothing grey to sell.''
                  else ''Sold '' @ dec_nat n @ '' grey item'' @ (if n = 1 then [] else ''s'') @ '' for ''
                    @ MoneyText (cu_money (SellAllGreys mk c) - cu_money c) @ ''.''))"
proof -
  obtain c' sold gained where f: "fold (consider_grey mk) grey_places (c, 0, 0) = (c', sold, gained)"
    by (metis prod_cases3)
  have start: "grey_run mk [] c c 0 0" using assms by (simp add: grey_run_def sold_between_def)
  have run: "grey_run mk grey_places c c' sold gained"
    using grey_fold [OF _ start f] grey_places_distinct by simp
  let ?n = "length (sold_between c c' grey_places)"
  have "?n \<le> length grey_places" unfolding sold_between_def by (rule length_filter_le)
  moreover have "length grey_places = 160"
    by (simp add: grey_places_def bag_places_def slot_defs length_concat comp_def)
  ultimately have n: "unat sold = ?n" using run by (simp add: grey_run_def unat_of_nat)
  have g: "cu_money c' - cu_money c = gained"
    using run by (auto simp: grey_run_def intro: word_unat_eq_iff [THEN iffD2] simp: unat_sub word_le_nat_alt)
  let ?d = "SellAllGreys mk c"
  have d: "cu_items ?d = cu_items c'" "cu_money ?d = cu_money c'" "cu_self ?d = cu_self c'"
    by (simp_all add: SellAllGreys_def f CompactorSparks_def)
  have b: "sold_between c ?d grey_places = sold_between c c' grey_places" by (simp add: sold_between_def d)
  have "sold = of_nat ?n" using run by (simp add: grey_run_def)
  then have r: "grey_run mk grey_places c ?d (of_nat (length (sold_between c ?d grey_places))) gained"
    using run by (simp add: grey_run_def d b)
  have "sold = 0 \<longleftrightarrow> ?n = 0" "sold = 1 \<longleftrightarrow> ?n = 1" using n by (auto simp: unat_eq_0 [symmetric] word_unat_eq_iff)
  then have "last (cu_log ?d) = (let n = ?n
      in Said (if n = 0 then ''Nothing grey to sell.''
                  else ''Sold '' @ dec_nat n @ '' grey item'' @ (if n = 1 then [] else ''s'') @ '' for ''
                    @ MoneyText (cu_money c' - cu_money c) @ ''.''))"
    by (simp add: SellAllGreys_def f tell_def Let_def g to_string_def n)
  with r show ?thesis unfolding b d(2) by blast
qed

lemma count_places_distinct:
  "distinct (map (Pair INVENTORY_SLOT_BAG_0) ([0..<INVENTORY_SLOT_ITEM_END] @ [81..<113])
     @ bag_places [INVENTORY_SLOT_BAG_START..<INVENTORY_SLOT_BAG_END] MAX_BAG_SIZE)"
  by (auto simp: bag_places_def slot_defs distinct_map inj_on_def upt_rec)

definition counted :: "pack \<Rightarrow> u32 \<Rightarrow> place \<Rightarrow> u32" where
  "counted items entry pos =
     (case GetItemByPos items pos of None \<Rightarrow> 0 | Some it \<Rightarrow> if i_entry it = entry then i_count it else 0)"

lemma GetItemCount_sum:
  "GetItemCount items entry = sum_list (map (counted items entry)
     (map (Pair INVENTORY_SLOT_BAG_0) ([0..<INVENTORY_SLOT_ITEM_END] @ [81..<113])
        @ bag_places [INVENTORY_SLOT_BAG_START..<INVENTORY_SLOT_BAG_END] MAX_BAG_SIZE))"
proof -
  have "fold (\<lambda>pos n. case GetItemByPos items pos of
                     None \<Rightarrow> n | Some it \<Rightarrow> if i_entry it = entry then n + i_count it else n) ps n
      = n + sum_list (map (counted items entry) ps)" for ps n
  proof (induction ps arbitrary: n)
    case (Cons p ps)
    then show ?case by (simp add: counted_def split: option.split)
  qed simp
  then show ?thesis by (simp only: GetItemCount_def add_0_left)
qed

lemma GetItemCount_new:
  assumes "items (255, 30) = None" and "i_bag it = None"
  shows "GetItemCount (items((255, 30) \<mapsto> it)) e = GetItemCount items e + (if i_entry it = e then i_count it else 0)"
proof -
  let ?ps = "map (Pair INVENTORY_SLOT_BAG_0) ([0..<INVENTORY_SLOT_ITEM_END] @ [81..<113])
     @ bag_places [INVENTORY_SLOT_BAG_START..<INVENTORY_SLOT_BAG_END] MAX_BAG_SIZE"
  let ?new = "items((255, 30) \<mapsto> it)"
  have "(255, 30) \<in> (Pair INVENTORY_SLOT_BAG_0) ` set ([0..<INVENTORY_SLOT_ITEM_END] @ [81..<113])"
    by (rule image_eqI [where x = 30]) (simp_all add: slot_defs)
  then have at: "(255, 30) \<in> set ?ps" by simp
  have here: "GetItemByPos ?new (255, 30) = Some it" "GetItemByPos items (255, 30) = None"
    using assms by (simp_all add: GetItemByPos_def slot_defs)
  have else_where: "counted ?new e q = counted items e q" if "q \<noteq> (255, 30)" "q \<in> set ?ps" for q
  proof -
    obtain bag slot where q: "q = (bag, slot)" by force
    have "bag \<noteq> 30" using that(2) q by (auto simp: bag_places_def slot_defs)
    then have "GetItemByPos ?new q = GetItemByPos items q"
      using that(1) unfolding q GetItemByPos_def by (auto simp: slot_defs split: option.split)
    then show ?thesis by (simp add: counted_def)
  qed
  have "sum_list (map (counted ?new e) ?ps)
      = counted ?new e (255, 30) + sum_list (map (counted ?new e) (remove1 (255, 30) ?ps))"
    by (rule sum_list_map_remove1 [OF at])
  also have "map (counted ?new e) (remove1 (255, 30) ?ps) = map (counted items e) (remove1 (255, 30) ?ps)"
    using count_places_distinct else_where notin_set_remove1 set_remove1_subset [of "(255, 30)" ?ps]
    by (intro map_cong refl else_where) (auto simp only: set_remove1_eq [OF count_places_distinct])
  also have "counted ?new e (255, 30) + sum_list (map (counted items e) (remove1 (255, 30) ?ps))
      = (if i_entry it = e then i_count it else 0) + sum_list (map (counted items e) ?ps)"
    unfolding sum_list_map_remove1 [OF at, of "counted items e"] using here by (simp add: counted_def)
  finally show ?thesis unfolding GetItemCount_sum by (simp only: add.commute)
qed

lemma plain_market_honest: "honest_store plain_market"
  unfolding honest_store_def
  by (auto simp: plain_market_def GetItemCount_new split: if_split_asm)

definition upgrade_mgr :: HouseMgr where
  "upgrade_mgr = plain_mgr\<lparr>m_furnitureItems := [(910, \<lparr>fi_goEntry = 100016, fi_scale = 0, fi_category = []\<rparr>)]\<rparr>"

lemma upgrade_of_mgr: "910 \<in> set (UpgradeItems plain_market upgrade_mgr)"
  by (simp add: UpgradeItems_def upgrade_mgr_def plain_market_def IsDecorativeType_def)

theorem upgrade_purchase_is_exact_witness:
  "purchase 910 1 500 plain_customer (fst (BuyUpgrade plain_market upgrade_mgr 910 plain_customer))"
proof -
  have run: "\<exists>c'. BuyUpgrade plain_market upgrade_mgr 910 plain_customer = (c', Inr ())"
    using upgrade_of_mgr by (simp add: BuyUpgrade_def plain_market_def plain_customer_def Let_def)
  then show ?thesis
    using upgrade_purchase_is_exact [OF plain_market_honest, where c = plain_customer and s = upgrade_mgr and entry = 910]
    by (auto simp: MAX_MONEY_AMOUNT_def plain_market_def plain_customer_def [THEN arg_cong [where f = cu_money]])
qed

theorem pantry_sells_only_its_lists_witness:
  "\<exists>c'. GossipSelect_go_house_pantry plain_market PANTRY_SENDER 4540 plain_customer = Some c'
     \<and> purchase 4540 5 500 plain_customer c'"
proof -
  have "\<exists>c'. GossipSelect_go_house_pantry plain_market PANTRY_SENDER 4540 plain_customer = Some c'
      \<and> cu_items c' (255, 30) \<noteq> cu_items plain_customer (255, 30)"
    by (simp add: GossipSelect_go_house_pantry_def pantry_defs BuyPantryItem_def SendPantryPage_def plain_market_def
        plain_customer_def Let_def)
  then obtain c' where run: "GossipSelect_go_house_pantry plain_market PANTRY_SENDER 4540 plain_customer = Some c'"
    and moved: "cu_items c' \<noteq> cu_items plain_customer" by fastforce
  then show ?thesis
    using pantry_sells_only_its_lists [OF plain_market_honest, where c = plain_customer and sender = PANTRY_SENDER and action = 4540]
    by (auto simp: MAX_MONEY_AMOUNT_def plain_market_def plain_customer_def [THEN arg_cong [where f = cu_money]]
        split: if_split_asm)
qed

definition grey_customer :: customer where
  "grey_customer = plain_customer\<lparr>cu_items := Map.empty((255, 15) \<mapsto> worn_sword, (255, 23) \<mapsto> worn_sword)\<rparr>"

theorem grey_sale_accounts_witness:
  "\<exists>gained. grey_run plain_market grey_places grey_customer (SellAllGreys plain_market grey_customer)
     (of_nat (length (sold_between grey_customer (SellAllGreys plain_market grey_customer) grey_places))) gained"
  using grey_sale_accounts [of grey_customer plain_market]
  by (auto simp: grey_customer_def plain_customer_def MAX_MONEY_AMOUNT_def)

subsection \<open>Where the compactor goes wrong\<close>

text \<open>
  C37: a slot counted backwards. The slot of \<open>.compact\<close> is any word, and the bound on the backpack is
  checked after 22 is added to it, so a slot near 2^32 wraps to a position the bound lets through: an
  item worn at one of the first 22 positions is sold out of its slot.
\<close>

theorem compact_sells_worn:
  assumes "sm_find (pa_compacting pa) (pl_guid (cu_self c)) = Some go" and "mk_reach mk c go"
    and "k < 22" and "GetItemByPos (cu_items c) (255, k) = Some it" and "fst (CompactValue mk c (255, k) it) \<noteq> 0"
  shows "cu_items (fst (HouseCompactItem mk 0 (of_nat k - 22) (c, pa))) = (cu_items c)((255, k) := None)
    \<and> cu_money (fst (HouseCompactItem mk 0 (of_nat k - 22) (c, pa)))
      = cu_money c + fst (CompactValue mk c (255, k) it)"
proof -
  obtain money why where price: "CompactValue mk c (255, k) it = (money, why)" by force
  have small: "k \<in> set [0..<22]" using assms(3) by simp
  have word: "(of_nat k - 22 :: u32) \<noteq> 0" "(of_nat k :: u32) < 39" "unat ((of_nat k :: u32) AND 255) = k"
    using small by (auto simp: upt_rec)
  have slot: "of_nat INVENTORY_SLOT_ITEM_START + (of_nat k - 22) - 1 = (of_nat k :: u32)" by (simp add: slot_defs)
  note run = CompactSell_run [OF assms(4) price]
  show ?thesis
    using assms price run(1,2) word unfolding HouseCompactItem_def Let_def slot
    by (simp add: slot_defs not_le CompactorSparks_def)
qed

lemma plain_sword_price: "fst (CompactValue plain_market plain_customer (255, 15) worn_sword) = 30"
  by (simp add: CompactValue_def plain_market_def worn_sword_def plain_customer_def plain_player_def MAX_MONEY_AMOUNT_def
      Let_def)

theorem compact_sells_worn_witness:
  "cu_items (fst (HouseCompactItem plain_market 0 (15 - 22)
     (plain_customer, \<lparr>pa_compacting = [(1, 77)], pa_lastBuff = []\<rparr>))) (255, 15) = None"
proof -
  have "cu_items (fst (HouseCompactItem plain_market 0 (of_nat 15 - 22)
      (plain_customer, \<lparr>pa_compacting = [(1, 77)], pa_lastBuff = []\<rparr>)))
      = (cu_items plain_customer)((255, 15) := None)"
    by (rule conjunct1 [OF compact_sells_worn [of _ _ 77 _ 15 worn_sword]])
      (simp_all add: plain_customer_pack plain_sword_price, simp_all add: plain_customer_def plain_player_def plain_market_def)
  then show ?thesis by simp
qed

lemma recount_first:
  assumes "entry \<notin> ob_item ` set pre" and "ob_item ob = entry"
  shows "recount_quest held entry count (pre @ ob # post) = pre @ recount held count ob # post"
  using assms by (induction pre) auto

lemma recount_open:
  assumes "ob_have ob < ob_required ob" and "ob_required ob < 2 ^ 16" and "unat count \<le> unat (ob_have ob)"
  shows "recount held count ob = ob\<lparr>ob_have := ob_have ob - count\<rparr>"
proof -
  have mask: "x AND QUEST_ITEM_COUNT_MASK = x" if "x < 2 ^ 16" for x :: u32
    using less_mask_eq [OF that] by (simp add: QUEST_ITEM_COUNT_MASK_def mask_eq_exp_minus_1)
  have "ob_have ob - count \<le> ob_have ob" using assms(3) by (simp add: word_le_nat_alt unat_sub)
  then have low: "ob_have ob - count < ob_required ob" using assms(1) by (rule le_less_trans)
  have "count \<le> ob_have ob" using assms(3) by (simp add: word_le_nat_alt)
  then have "new_count held count ob = ob_have ob - count"
    using assms(1,2) low mask [of "ob_required ob"] mask [OF less_trans [OF low assms(2)]]
    by (auto simp: new_count_def Let_def)
  with low show ?thesis by (simp add: recount_def)
qed

text \<open>
  a sold item is counted twice. \<open>CompactSell\<close> tells the quest log that the item goes, and
  \<open>DestroyItem\<close> tells it again, so an unfinished objective loses twice the count of the stack.
\<close>

theorem compact_counts_twice:
  assumes "GetItemByPos (cu_items c) pos = Some it" and "i_bag it = None"
    and "q < length (cu_quests c)" and "cu_quests c ! q = pre @ ob # post"
    and "i_entry it \<notin> ob_item ` set pre" and "ob_item ob = i_entry it"
    and "ob_have ob < ob_required ob" and "ob_required ob < 2 ^ 16" and "2 * unat (i_count it) \<le> unat (ob_have ob)"
  shows "cu_quests (CompactSell pos it money c) ! q = pre @ ob\<lparr>ob_have := ob_have ob - 2 * i_count it\<rparr> # post"
proof -
  let ?once = "ob\<lparr>ob_have := ob_have ob - i_count it\<rparr>"
  have le: "i_count it \<le> ob_have ob" using assms(9) by (simp add: word_le_nat_alt)
  have once: "recount held (i_count it) ob = ?once" for held
    using assms(9) by (intro recount_open assms(7,8)) simp
  have "ob_have ?once \<le> ob_have ob" using le by (simp add: word_sub_le)
  then have low: "ob_have ?once < ob_required ?once" using assms(7) by simp
  have "unat (i_count it) \<le> unat (ob_have ?once)" using assms(9) le by (simp add: unat_sub)
  then have twice: "recount held (i_count it) ?once = ob\<lparr>ob_have := ob_have ob - 2 * i_count it\<rparr>" for held
    using recount_open [OF low, of "i_count it" held] assms(8) by (simp add: algebra_simps)
  have quests: "cu_quests (ItemRemovedQuestCheck e n x) = map (recount_quest (GetItemCount (cu_items x) e) e n) (cu_quests x)"
    for e n x by (simp add: ItemRemovedQuestCheck_def Let_def)
  have first: "recount_quest h (i_entry it) (i_count it) (pre @ ob # post) = pre @ ?once # post" for h
    using recount_first [OF assms(5,6), of h "i_count it" post] once by simp
  have second: "recount_quest h (i_entry it) (i_count it) (pre @ ?once # post)
      = pre @ ob\<lparr>ob_have := ob_have ob - 2 * i_count it\<rparr> # post" for h
    using recount_first [OF assms(5), of ?once h "i_count it" post] twice assms(6) by simp
  show ?thesis
    using assms(1-4)
    by (simp add: CompactSell_def DestroyItem_def destroy_one_def Let_def quests first second)
qed

definition trophy :: objective where "trophy = \<lparr>ob_item = 25, ob_required = 10, ob_have = 5\<rparr>"

theorem compact_counts_twice_witness:
  "cu_quests (CompactSell (255, 15) worn_sword 30 (plain_customer\<lparr>cu_quests := [[trophy]]\<rparr>)) ! 0
     = [trophy\<lparr>ob_have := 3\<rparr>]"
proof -
  have "cu_quests (CompactSell (255, 15) worn_sword 30 (plain_customer\<lparr>cu_quests := [[trophy]]\<rparr>)) ! 0
      = [] @ trophy\<lparr>ob_have := ob_have trophy - 2 * i_count worn_sword\<rparr> # []"
    by (rule compact_counts_twice) (simp_all add: plain_customer_pack, simp_all add: trophy_def worn_sword_def)
  then show ?thesis by (simp add: trophy_def worn_sword_def)
qed

subsection \<open>One house buff at a time\<close>

text \<open>What a cast or an added aura may leave: the aura of its own spell, and of what was there.\<close>

definition honest_cast :: "market \<Rightarrow> bool" where
  "honest_cast mk \<longleftrightarrow>
     (\<forall>sp auras x. x \<noteq> sp \<longrightarrow> (sm_has (mk_cast mk sp auras) x \<longrightarrow> sm_has auras x)
        \<and> (sm_has (mk_addAura mk sp auras) x \<longrightarrow> sm_has auras x))"

lemma honest_castD:
  assumes "honest_cast mk" and "x \<noteq> sp"
  shows "sm_has (mk_cast mk sp auras) x \<Longrightarrow> sm_has auras x" and "sm_has (mk_addAura mk sp auras) x \<Longrightarrow> sm_has auras x"
  using assms unfolding honest_cast_def by blast+

lemma remove_aura_has: "sm_has (cu_auras (remove_aura sp c)) x \<Longrightarrow> x \<noteq> sp \<and> sm_has (cu_auras c) x"
  by (auto simp: remove_aura_def sm_has_def split: if_split_asm)

lemma remove_auras_has:
  "sm_has (cu_auras (fold (\<lambda>f. remove_aura (hb_spellId f)) fs c)) x
     \<Longrightarrow> x \<notin> hb_spellId ` set fs \<and> sm_has (cu_auras c) x"
  by (induction fs arbitrary: c) (auto dest: remove_aura_has)


lemma ApplyBuff_refused:
  "RefuseBuff mk c b \<noteq> [] \<Longrightarrow> ApplyBuff mk b (c, pa) = (tell (Said (RefuseBuff mk c b)) c, pa)"
  by (simp add: ApplyBuff_def)

lemma ApplyBuff_cooldowns:
  "cu_cooldowns (fst (ApplyBuff mk b (c, pa))) =
     (if RefuseBuff mk c b = [] \<and> IsFlask b \<and> sm_has (cu_auras (fst (ApplyBuff mk b (c, pa)))) (hb_spellId b)
      then sm_put FLASK_TIMER (mk_now mk + FLASK_COOLDOWN) (cu_cooldowns c) else cu_cooldowns c)"
proof -
  have cool: "cu_cooldowns (remove_aura sp x) = cu_cooldowns x" for sp x by (simp add: remove_aura_def)
  have cools: "cu_cooldowns (fold (\<lambda>f. remove_aura (hb_spellId f)) fs x) = cu_cooldowns x" for fs x
    by (induction fs arbitrary: x) (simp_all add: cool)
  show ?thesis
    by (simp add: ApplyBuff_def Let_def cool cools split: option.split)
qed

text \<open>
  one house buff at a time. A buff taken from a house object leaves no aura on the player but its
  own and those he had, less the last buff a house object gave him and, for a fortune, less every other
  fortune. The last buff is remembered for good: an elixir of the same spell drunk later out of a bag
  goes as well, though the comment on the table says a click must not strip it.
\<close>

theorem one_house_buff:
  assumes "honest_cast mk" and "RefuseBuff mk c b = []"
    and "sm_has (cu_auras (fst (ApplyBuff mk b (c, pa)))) x" and "x \<noteq> hb_spellId b"
  shows "sm_has (cu_auras c) x
    \<and> (case sm_find (pa_lastBuff pa) (pl_guid (cu_self c)) of None \<Rightarrow> True | Some spell \<Rightarrow> spell = 0 \<or> x \<noteq> spell)
    \<and> (IsFortune b \<longrightarrow> x \<notin> hb_spellId ` {f \<in> set HOUSE_BUFFS. IsFortune f})"
proof -
  let ?c1 = "case sm_find (pa_lastBuff pa) (pl_guid (cu_self c)) of
      None \<Rightarrow> c | Some spell \<Rightarrow> if spell \<noteq> 0 then remove_aura spell c else c"
  let ?c2 = "if IsFortune b then fold (\<lambda>f. remove_aura (hb_spellId f)) (filter IsFortune HOUSE_BUFFS) ?c1 else ?c1"
  let ?c3 = "remove_aura (hb_spellId b) ?c2"
  let ?cast = "mk_cast mk (hb_spellId b) (cu_auras ?c3)"
  have "sm_has (if sm_has ?cast (hb_spellId b) then ?cast else mk_addAura mk (hb_spellId b) ?cast) x"
    using assms(2,3) by (simp add: ApplyBuff_def tell_def Let_def split: if_split_asm) (use assms(4) in simp_all)
  then have "sm_has ?cast x \<or> sm_has (mk_addAura mk (hb_spellId b) ?cast) x" by presburger
  then have "sm_has (cu_auras ?c3) x"
    by (elim disjE) (erule honest_castD [OF assms(1,4)], erule honest_castD(1) [OF assms(1,4) honest_castD(2) [OF assms(1,4)]])
  then have two: "sm_has (cu_auras ?c2) x" by (rule conjunct2 [OF remove_aura_has])
  note fortunes = remove_auras_has [of "filter IsFortune HOUSE_BUFFS" ?c1 x]
  have one: "sm_has (cu_auras ?c1) x"
    by (cases "IsFortune b") (use two fortunes in \<open>simp_all only: if_True if_False simp_thms\<close>)
  have "IsFortune b \<Longrightarrow> x \<notin> hb_spellId ` set (filter IsFortune HOUSE_BUFFS)"
    using two fortunes by (simp only: if_True simp_thms)
  moreover have "sm_has (cu_auras c) x
    \<and> (case sm_find (pa_lastBuff pa) (pl_guid (cu_self c)) of None \<Rightarrow> True | Some spell \<Rightarrow> spell = 0 \<or> x \<noteq> spell)"
    using one by (auto dest: remove_aura_has split: option.split_asm option.split if_split_asm)
  ultimately show ?thesis by simp
qed

subsection \<open>Flasks\<close>

lemma flask_refused:
  assumes "IsFlask b" and "sm_find (cu_cooldowns c) FLASK_TIMER = Some until" and "mk_now mk < until"
  shows "RefuseBuff mk c b \<noteq> []"
  using assms by (auto simp: RefuseBuff_def HasSpellCooldown_def Let_def split: option.split)

lemma flask_run:
  assumes "sm_find (cu_cooldowns c) FLASK_TIMER = Some until" and "\<forall>(t, b) \<in> set runs. t < until"
  shows "sm_find (cu_cooldowns (fst (fold (\<lambda>(t, b). ApplyBuff (mk\<lparr>mk_now := t\<rparr>) b) runs (c, pa)))) FLASK_TIMER
    = Some until"
  using assms
proof (induction runs arbitrary: c pa)
  case (Cons r runs)
  obtain t b where r: "r = (t, b)" by force
  obtain c1 pa1 where step: "ApplyBuff (mk\<lparr>mk_now := t\<rparr>) b (c, pa) = (c1, pa1)" by force
  have "RefuseBuff (mk\<lparr>mk_now := t\<rparr>) c b \<noteq> []" if "IsFlask b"
    using flask_refused [OF that Cons.prems(1), of "mk\<lparr>mk_now := t\<rparr>"] Cons.prems(2) r by simp
  then have "cu_cooldowns c1 = cu_cooldowns c"
    using ApplyBuff_cooldowns [of "mk\<lparr>mk_now := t\<rparr>" b c pa] step by (auto split: if_split_asm)
  then show ?case using Cons.IH [of c1 pa1] Cons.prems r step by simp
qed simp

text \<open>
  one flask in twelve hours. Once a flask out of a house object has taken hold, every flask, the
  same or another, is refused until twelve hours later, whatever is clicked in between.
\<close>

theorem flask_once_in_twelve_hours:
  assumes "IsFlask b" and "RefuseBuff mk c b = []"
    and "sm_has (cu_auras (fst (ApplyBuff mk b (c, pa)))) (hb_spellId b)"
    and "\<forall>(t, b') \<in> set runs. t < mk_now mk + FLASK_COOLDOWN"
    and "IsFlask b'" and "t < mk_now mk + FLASK_COOLDOWN"
  shows "let st = fold (\<lambda>(t, b). ApplyBuff (mk\<lparr>mk_now := t\<rparr>) b) runs (ApplyBuff mk b (c, pa));
             st' = ApplyBuff (mk\<lparr>mk_now := t\<rparr>) b' st
         in cu_auras (fst st') = cu_auras (fst st) \<and> cu_cooldowns (fst st') = cu_cooldowns (fst st) \<and> snd st' = snd st"
proof -
  obtain c1 pa1 where first: "ApplyBuff mk b (c, pa) = (c1, pa1)" by force
  have "sm_find (cu_cooldowns c1) FLASK_TIMER = Some (mk_now mk + FLASK_COOLDOWN)"
    using ApplyBuff_cooldowns [of mk b c pa] assms(1-3) first by simp
  then have until: "sm_find (cu_cooldowns (fst (fold (\<lambda>(t, b). ApplyBuff (mk\<lparr>mk_now := t\<rparr>) b) runs (c1, pa1)))) FLASK_TIMER
      = Some (mk_now mk + FLASK_COOLDOWN)"
    by (rule flask_run [OF _ assms(4)])
  obtain c2 pa2 where later: "fold (\<lambda>(t, b). ApplyBuff (mk\<lparr>mk_now := t\<rparr>) b) runs (c1, pa1) = (c2, pa2)" by force
  have "RefuseBuff (mk\<lparr>mk_now := t\<rparr>) c2 b' \<noteq> []"
    using flask_refused [OF assms(5), of c2 _ "mk\<lparr>mk_now := t\<rparr>"] until later assms(6) by simp
  then show ?thesis by (simp add: first later ApplyBuff_refused Let_def)
qed


definition mongoose :: HouseBuff where
  "mongoose = house_buff (100056, 17538, 13452, HOUSE_UPGRADE_PAGE_ELIXIRS, ''Elixir of the Mongoose'')"

definition giants :: HouseBuff where
  "giants = house_buff (100052, 11405, 9206, HOUSE_UPGRADE_PAGE_ELIXIRS, ''Elixir of Giants'')"

definition titans :: HouseBuff where
  "titans = house_buff (100094, 17626, 13510, HOUSE_UPGRADE_PAGE_FLASKS, ''Flask of the Titans'')"

lemma buff_examples [simp]: "hb_spellId mongoose = 17538" "hb_spellId giants = 11405" "hb_spellId titans = 17626"
  "IsFlask titans" "\<not> IsFlask giants" "\<not> IsFortune giants" "\<not> IsFortune titans"
  by (simp_all add: mongoose_def giants_def titans_def house_buff_def IsFlask_def IsFortune_def page_defs)

lemma plain_market_cast: "honest_cast plain_market"
  by (simp add: honest_cast_def plain_market_def)

lemma grown_up: "cu_level c = 60 \<Longrightarrow> too_low plain_market c b = None"
  by (simp add: too_low_def plain_market_def)

theorem one_house_buff_witness:
  "\<not> sm_has (cu_auras (fst (ApplyBuff plain_market giants
       (plain_customer\<lparr>cu_auras := [(hb_spellId mongoose, 3000000)]\<rparr>,
        \<lparr>pa_compacting = [], pa_lastBuff = [(1, hb_spellId mongoose)]\<rparr>)))) (hb_spellId mongoose)"
proof
  let ?c = "plain_customer\<lparr>cu_auras := [(hb_spellId mongoose, 3000000)]\<rparr>"
  assume "sm_has (cu_auras (fst (ApplyBuff plain_market giants
       (?c, \<lparr>pa_compacting = [], pa_lastBuff = [(1, hb_spellId mongoose)]\<rparr>)))) (hb_spellId mongoose)"
  moreover have "RefuseBuff plain_market ?c giants = []"
    by (simp add: RefuseBuff_def grown_up plain_customer_def longer_aura_def)
  ultimately show False
    using one_house_buff [OF plain_market_cast, of ?c giants] by (force simp: plain_customer_def plain_player_def)
qed

theorem flask_once_in_twelve_hours_witness:
  "cu_auras (fst (ApplyBuff (plain_market\<lparr>mk_now := 40000\<rparr>) titans
      (ApplyBuff (plain_market\<lparr>mk_now := 2000\<rparr>) giants
        (ApplyBuff plain_market titans (plain_customer, \<lparr>pa_compacting = [], pa_lastBuff = []\<rparr>)))))
   = cu_auras (fst (ApplyBuff (plain_market\<lparr>mk_now := 2000\<rparr>) giants
        (ApplyBuff plain_market titans (plain_customer, \<lparr>pa_compacting = [], pa_lastBuff = []\<rparr>))))"
proof -
  let ?pa = "\<lparr>pa_compacting = [], pa_lastBuff = []\<rparr> :: parlour"
  have ready: "RefuseBuff plain_market plain_customer titans = []"
    by (simp add: RefuseBuff_def grown_up plain_customer_def longer_aura_def HasSpellCooldown_def)
  have "sm_has (cu_auras (fst (ApplyBuff plain_market titans (plain_customer, ?pa)))) (hb_spellId titans)"
    using ready by (simp add: ApplyBuff_def Let_def plain_market_def)
  then show ?thesis
    using flask_once_in_twelve_hours [of titans plain_market plain_customer ?pa "[(2000, giants)]" titans 40000] ready
    by (simp add: Let_def plain_market_def FLASK_COOLDOWN_def)
qed

end
