(* ===== verification/Invasions.thy ===== *)
theory Invasions
  imports HouseSettings
begin

section \<open>Invasions\<close>

text \<open>
  Invasion/InvasionMgr.cpp and the sigil script that calls it: one player is sent to fight another who
  is flagged for it, and comes home. The singleton \<open>InvasionManager\<close> is a record of its three containers;
  a player as the code reads him is a \<open>fighter\<close>, and everything an operation asks of the server (who is
  online, the settings, the clock, the zone maps, a point behind somebody, a draw) is a record \<open>scene\<close>.
  What it does to a player is a value appended to \<open>im_trace\<close>. Nothing an operation does to a player is
  read again within the operation, so one scene serves each call. Log lines are left out.
\<close>

record WorldLocation =
  wl_mapId :: u32
  wl_x :: yards
  wl_y :: yards
  wl_z :: yards
  wl_o :: real

record fighter =
  ft_guid :: u32
  ft_name :: string
  ft_session :: "u32 option"
  ft_level :: u32
  ft_group :: "u32 option"
  ft_inWorld :: bool
  ft_alive :: bool
  ft_beingTeleported :: bool
  ft_taxi :: bool
  ft_transport :: bool
  ft_gameMaster :: bool
  ft_bot :: bool
  ft_hardcore :: bool
  ft_battleGround :: bool
  ft_instanceable :: "bool option"
  ft_pvp :: bool
  ft_pvpDesired :: bool
  ft_inCombat :: bool
  ft_stealth :: bool
  ft_zone :: u32
  ft_sizeFactor :: yards
  ft_at :: WorldLocation

record zone_map =
  zm_x1 :: yards
  zm_x2 :: yards
  zm_y1 :: yards
  zm_y2 :: yards

record scene =
  sc_now :: nat
  sc_enable :: bool
  sc_minLevel :: u32
  sc_levelRange :: u32
  sc_arriveDistance :: u32
  sc_warn :: u32
  sc_duration :: u32
  sc_return :: u32
  sc_linger :: u32
  sc_revive :: u32
  sc_respite :: u32
  sc_players :: "fighter list"
  sc_draw :: nat
  sc_closePoint :: "fighter \<Rightarrow> yards \<Rightarrow> yards \<times> yards \<times> yards"
  sc_zoneMap :: "u32 \<Rightarrow> zone_map option"

datatype InvasionPhase = PHASE_STALKING | PHASE_FIGHTING | PHASE_LEAVING | PHASE_REVIVING

record Invasion =
  iv_invader :: u32
  iv_defender :: u32
  iv_origin :: WorldLocation
  iv_phase :: InvasionPhase
  iv_timer :: u32
  iv_arena :: WorldLocation
  iv_outInvader :: u32
  iv_outDefender :: u32
  iv_radarMs :: u32
  iv_arrivalFx :: bool
  iv_arrivalLanded :: bool
  iv_keepStealth :: bool
  iv_arrivalFxMs :: u32
  iv_leaveKit :: u32

datatype invasion_effect =
    Told u32 string
  | Warned u32 string
  | Flagged u32
  | ResentFlags u32
  | PlayedKit u32 u32
  | InvadedBy u32 string
  | DotZone u32 yards yards yards yards
  | DotYards u32 int int
  | DotHidden u32
  | Teleported u32 WorldLocation
  | Resurrected u32
  | CorpseToBones u32
  | MatchRow u32 u32 u32

record InvasionManager =
  im_invasions :: "Invasion list"
  im_revives :: "(u32 \<times> WorldLocation) list"
  im_respite :: "(u32, nat) smap"
  im_trace :: "invasion_effect list"

definition shown :: "invasion_effect \<Rightarrow> InvasionManager \<Rightarrow> InvasionManager" where
  "shown e m = m\<lparr>im_trace := im_trace m @ [e]\<rparr>"

definition ARRIVE_KIT :: u32 where "ARRIVE_KIT = 6151"

definition MARK_KIT :: u32 where "MARK_KIT = 225"

definition LEAVE_KIT :: u32 where "LEAVE_KIT = 117"

definition ESCAPE_KIT :: u32 where "ESCAPE_KIT = 6379"

definition DEATH_KIT :: u32 where "DEATH_KIT = 6448"

definition NO_KIT :: u32 where "NO_KIT = 0xFFFFFFFF"

definition WITHDRAW_PULL_MS :: u32 where "WITHDRAW_PULL_MS = 1000"

definition ARRIVE_FX_DELAY_MS :: u32 where "ARRIVE_FX_DELAY_MS = 1500"

definition RADAR_MS :: u32 where "RADAR_MS = 250"

definition ARENA_OUT_YARDS :: yards where "ARENA_OUT_YARDS = 100"

definition ARENA_BACK_YARDS :: yards where "ARENA_BACK_YARDS = 95"

definition ARENA_FORFEIT_MS :: u32 where "ARENA_FORFEIT_MS = 10 * 1000"

subsection \<open>Players\<close>

definition SecondsConfig :: "u32 \<Rightarrow> u32" where "SecondsConfig seconds = seconds * 1000"

definition FindPlayerNotInWorld :: "scene \<Rightarrow> u32 \<Rightarrow> fighter option" where
  "FindPlayerNotInWorld sc guid =
     (if guid = 0 then None else find (\<lambda>f. ft_guid f = guid) (sc_players sc))"

definition FindPlayer :: "scene \<Rightarrow> u32 \<Rightarrow> fighter option" where
  "FindPlayer sc guid =
     (case FindPlayerNotInWorld sc guid of None \<Rightarrow> None | Some f \<Rightarrow> if ft_inWorld f then Some f else None)"

text \<open>A player with an open session can be spoken to.\<close>

definition heard :: "fighter option \<Rightarrow> u32 option" where
  "heard p = (case p of None \<Rightarrow> None | Some f \<Rightarrow> if ft_session f = None then None else Some (ft_guid f))"

definition to_heard :: "(u32 \<Rightarrow> invasion_effect) \<Rightarrow> fighter option \<Rightarrow> InvasionManager \<Rightarrow> InvasionManager" where
  "to_heard e p m = (case heard p of None \<Rightarrow> m | Some guid \<Rightarrow> shown (e guid) m)"

definition Tell :: "fighter option \<Rightarrow> string \<Rightarrow> InvasionManager \<Rightarrow> InvasionManager" where
  "Tell p text = to_heard (\<lambda>guid. Told guid text) p"

definition HideRadar :: "fighter option \<Rightarrow> InvasionManager \<Rightarrow> InvasionManager" where
  "HideRadar = to_heard DotHidden"

definition ResendPlayerFlags :: "fighter option \<Rightarrow> InvasionManager \<Rightarrow> InvasionManager" where
  "ResendPlayerFlags p m =
     (case p of None \<Rightarrow> m | Some f \<Rightarrow> if ft_inWorld f then shown (ResentFlags (ft_guid f)) m else m)"

definition Map2ZoneCoordinates :: "scene \<Rightarrow> yards \<Rightarrow> yards \<Rightarrow> u32 \<Rightarrow> (yards \<times> yards) option" where
  "Map2ZoneCoordinates sc x y zone =
     (case sc_zoneMap sc zone of
        None \<Rightarrow> None
      | Some ma \<Rightarrow>
          if zm_x2 ma = zm_x1 ma \<or> zm_y2 ma = zm_y1 ma then None
          else Some ((y - zm_y1 ma) / ((zm_y2 ma - zm_y1 ma) / 100), (x - zm_x1 ma) / ((zm_x2 ma - zm_x1 ma) / 100)))"

definition int_of_yards :: "yards \<Rightarrow> int" where
  "int_of_yards x = (if x < 0 then \<lceil>x\<rceil> else \<lfloor>x\<rfloor>)"

text \<open>The dot carries the numbers the code prints with five digits.\<close>

definition SendRadar :: "scene \<Rightarrow> fighter \<Rightarrow> fighter option \<Rightarrow> InvasionManager \<Rightarrow> InvasionManager" where
  "SendRadar sc to other m =
     (case other of
        None \<Rightarrow> HideRadar (Some to) m
      | Some other \<Rightarrow>
          if wl_mapId (ft_at other) \<noteq> wl_mapId (ft_at to) then HideRadar (Some to) m
          else
            (case (sc_zoneMap sc (ft_zone to),
                   Map2ZoneCoordinates sc (wl_x (ft_at other)) (wl_y (ft_at other)) (ft_zone to)) of
               (Some ma, Some (mx, my)) \<Rightarrow>
                 to_heard (\<lambda>guid. DotZone guid (mx / 100) (my / 100) \<bar>zm_y2 ma - zm_y1 ma\<bar> \<bar>zm_x2 ma - zm_x1 ma\<bar>) (Some to) m
             | _ \<Rightarrow>
                 to_heard (\<lambda>guid. DotYards guid (int_of_yards (wl_x (ft_at other) - wl_x (ft_at to)))
                                     (int_of_yards (wl_y (ft_at other) - wl_y (ft_at to)))) (Some to) m))"

definition IsAvailableForInvasion :: "fighter \<Rightarrow> bool" where
  "IsAvailableForInvasion f \<longleftrightarrow>
     ft_inWorld f \<and> ft_session f \<noteq> None
     \<and> ft_alive f \<and> \<not> ft_beingTeleported f \<and> \<not> ft_taxi f
     \<and> \<not> ft_transport f \<and> \<not> ft_gameMaster f \<and> \<not> ft_bot f \<and> \<not> ft_hardcore f
     \<and> \<not> ft_battleGround f \<and> ft_instanceable f = Some False"

subsection \<open>Who is in an invasion\<close>

definition involves :: "u32 \<Rightarrow> Invasion \<Rightarrow> bool" where
  "involves guid row \<longleftrightarrow> iv_invader row = guid \<or> iv_defender row = guid"

definition AreFoes :: "InvasionManager \<Rightarrow> u32 \<Rightarrow> u32 \<Rightarrow> bool" where
  "AreFoes m a b =
     list_ex (\<lambda>row. iv_phase row = PHASE_FIGHTING
        \<and> (iv_invader row = a \<and> iv_defender row = b \<or> iv_invader row = b \<and> iv_defender row = a)) (im_invasions m)"

definition IsFighting :: "InvasionManager \<Rightarrow> u32 \<Rightarrow> bool" where
  "IsFighting m guid = list_ex (\<lambda>row. iv_phase row = PHASE_FIGHTING \<and> involves guid row) (im_invasions m)"

definition IsInvading :: "InvasionManager \<Rightarrow> u32 \<Rightarrow> bool" where
  "IsInvading m guid = list_ex (\<lambda>row. iv_invader row = guid) (im_invasions m)"

definition IsInvolved :: "InvasionManager \<Rightarrow> u32 \<Rightarrow> bool" where
  "IsInvolved m guid = list_ex (involves guid) (im_invasions m)"

subsection \<open>Setting out\<close>

definition invade_refusal :: "scene \<Rightarrow> InvasionManager \<Rightarrow> fighter \<Rightarrow> string option" where
  "invade_refusal sc m invader =
     (if \<not> sc_enable sc then Some ''The sigil is cold. Invasions are disabled.''
      else if ft_level invader < sc_minLevel sc
      then Some (''You must be level '' @ to_string (sc_minLevel sc) @ '' to invade.'')
      else if IsInvolved m (ft_guid invader) then Some ''You are already in an invasion.''
      else if ft_inCombat invader then Some ''Not while you are fighting.''
      else if ft_group invader \<noteq> None
        \<and> list_ex (\<lambda>f. ft_group f = ft_group invader \<and> ft_guid f \<noteq> ft_guid invader \<and> ft_bot f) (sc_players sc)
      then Some ''Send your companions home first.''
      else if ft_hardcore invader then Some ''Hardcore characters cannot invade. Losing would be permanent.''
      else if ft_gameMaster invader then Some ''Not in GM mode. Type .gm off first.''
      else if \<not> IsAvailableForInvasion invader then Some ''You cannot invade from here.''
      else None)"

definition CanInvadeFrom :: "scene \<Rightarrow> fighter \<Rightarrow> InvasionManager \<Rightarrow> InvasionManager \<times> bool" where
  "CanInvadeFrom sc invader m =
     (case invade_refusal sc m invader of
        None \<Rightarrow> (m, True)
      | Some why \<Rightarrow> (Tell (Some invader) why m, False))"

definition IsValidDefender :: "scene \<Rightarrow> fighter \<Rightarrow> fighter \<Rightarrow> bool" where
  "IsValidDefender sc invader target \<longleftrightarrow>
     ft_guid target \<noteq> ft_guid invader
     \<and> ft_pvp target
     \<and> \<not> ft_level target + sc_levelRange sc < ft_level invader
     \<and> \<not> ft_level invader + sc_levelRange sc < ft_level target
     \<and> \<not> (ft_group invader \<noteq> None \<and> ft_group invader = ft_group target)
     \<and> \<not> (ft_session invader \<noteq> None \<and> ft_session target \<noteq> None \<and> ft_session invader = ft_session target)
     \<and> IsAvailableForInvasion target"

definition GrantRespite :: "scene \<Rightarrow> u32 \<Rightarrow> InvasionManager \<Rightarrow> InvasionManager" where
  "GrantRespite sc defender m =
     (if sc_respite sc = 0 then m
      else m\<lparr>im_respite := sm_put defender (sc_now sc + unat (sc_respite sc)) (im_respite m)\<rparr>)"

definition HasRespite :: "scene \<Rightarrow> InvasionManager \<Rightarrow> u32 \<Rightarrow> bool" where
  "HasRespite sc m defender =
     (case sm_find (im_respite m) defender of None \<Rightarrow> False | Some until \<Rightarrow> until > sc_now sc)"

definition invasion_candidates :: "scene \<Rightarrow> InvasionManager \<Rightarrow> fighter \<Rightarrow> fighter list" where
  "invasion_candidates sc m invader =
     filter (\<lambda>f. IsValidDefender sc invader f \<and> \<not> IsInvolved m (ft_guid f) \<and> \<not> HasRespite sc m (ft_guid f))
       (sc_players sc)"

text \<open>The draw is any number the generator may give, brought into the range of the candidates.\<close>

definition PickDefender :: "scene \<Rightarrow> InvasionManager \<Rightarrow> fighter \<Rightarrow> fighter option" where
  "PickDefender sc m invader =
     (let candidates = invasion_candidates sc m invader
      in if candidates = [] then None else Some (candidates ! (sc_draw sc mod length candidates)))"

definition prune_respite :: "scene \<Rightarrow> InvasionManager \<Rightarrow> InvasionManager" where
  "prune_respite sc m = m\<lparr>im_respite := filter (\<lambda>r. \<not> snd r \<le> sc_now sc) (im_respite m)\<rparr>"

definition CanBeginInvasion :: "scene \<Rightarrow> fighter \<Rightarrow> InvasionManager \<Rightarrow> InvasionManager \<times> bool" where
  "CanBeginInvasion sc invader m = CanInvadeFrom sc invader (prune_respite sc m)"

definition hold_flag :: "fighter \<Rightarrow> InvasionManager \<Rightarrow> InvasionManager" where
  "hold_flag side m = (if ft_pvpDesired side then m else shown (Flagged (ft_guid side)) m)"

definition no_location :: WorldLocation where
  "no_location = \<lparr>wl_mapId = 0, wl_x = 0, wl_y = 0, wl_z = 0, wl_o = 0\<rparr>"

definition new_invasion :: "scene \<Rightarrow> fighter \<Rightarrow> fighter \<Rightarrow> Invasion" where
  "new_invasion sc invader defender =
     \<lparr>iv_invader = ft_guid invader, iv_defender = ft_guid defender, iv_origin = ft_at invader,
      iv_phase = PHASE_STALKING, iv_timer = SecondsConfig (sc_warn sc), iv_arena = no_location,
      iv_outInvader = 0, iv_outDefender = 0, iv_radarMs = 0, iv_arrivalFx = False, iv_arrivalLanded = False,
      iv_keepStealth = False, iv_arrivalFxMs = 0, iv_leaveKit = 0\<rparr>"

definition BeginInvasion :: "scene \<Rightarrow> fighter \<Rightarrow> InvasionManager \<Rightarrow> InvasionManager \<times> bool" where
  "BeginInvasion sc invader m =
     (case CanBeginInvasion sc invader m of
        (m1, False) \<Rightarrow> (m1, False)
      | (m1, True) \<Rightarrow>
          (case PickDefender sc m1 invader of
             None \<Rightarrow> (Tell (Some invader) ''No soul here is ready to be forgiven.'' m1, False)
           | Some defender \<Rightarrow>
               let m2 = (if ft_pvp invader then m1
                         else Tell (Some invader) ''You are flagged for war.'' (shown (Flagged (ft_guid invader)) m1));
                   m3 = hold_flag defender (hold_flag invader m2);
                   m4 = m3\<lparr>im_invasions := im_invasions m3 @ [new_invasion sc invader defender]\<rparr>
               in (Tell (Some invader) (''You go to forgive '' @ ft_name defender @ ''.'')
                     (Tell (Some defender) ''Something has come to forgive you.'' m4), True)))"

subsection \<open>The end of a match\<close>

definition RecordMatch :: "Invasion \<Rightarrow> u32 \<Rightarrow> InvasionManager \<Rightarrow> InvasionManager" where
  "RecordMatch row winner m =
     (if iv_phase row \<noteq> PHASE_FIGHTING then m
      else shown (MatchRow (iv_invader row) (iv_defender row) winner) m)"

definition tell_line :: "fighter option \<Rightarrow> string option \<Rightarrow> InvasionManager \<Rightarrow> InvasionManager" where
  "tell_line p line m = (case line of None \<Rightarrow> m | Some text \<Rightarrow> Tell p text m)"

definition Conclude ::
  "scene \<Rightarrow> string option \<Rightarrow> string option \<Rightarrow> u32 \<Rightarrow> u32 \<Rightarrow> Invasion \<Rightarrow> InvasionManager \<Rightarrow> Invasion \<times> InvasionManager" where
  "Conclude sc invaderLine defenderLine delayMs winner row m =
     (let invader = FindPlayer sc (iv_invader row); defender = FindPlayer sc (iv_defender row);
          m1 = RecordMatch row winner m;
          m2 = (if iv_phase row = PHASE_FIGHTING then GrantRespite sc (iv_defender row) m1 else m1);
          row' = row\<lparr>iv_phase := PHASE_LEAVING,
                     iv_timer := (if delayMs \<noteq> 0 then delayMs else SecondsConfig (sc_return sc))\<rparr>;
          m3 = ResendPlayerFlags defender (ResendPlayerFlags invader m2);
          m4 = HideRadar defender (HideRadar invader m3)
      in (row', tell_line defender defenderLine (tell_line invader invaderLine m4)))"

definition SendHome :: "Invasion \<Rightarrow> fighter \<Rightarrow> InvasionManager \<Rightarrow> InvasionManager" where
  "SendHome row invader m =
     (if \<not> ft_inWorld invader then m
      else
        let m1 = (if iv_leaveKit row \<noteq> NO_KIT
                  then shown (PlayedKit (ft_guid invader) (if iv_leaveKit row \<noteq> 0 then iv_leaveKit row else LEAVE_KIT)) m
                  else m)
        in shown (Teleported (ft_guid invader) (iv_origin row)) m1)"

text \<open>
  A loop over the rows that acts on the first that meets a test and returns: its body keeps the row or
  erases it.
\<close>

definition at_row ::
  "(Invasion \<Rightarrow> bool) \<Rightarrow> (Invasion \<Rightarrow> InvasionManager \<Rightarrow> Invasion option \<times> InvasionManager) \<Rightarrow> InvasionManager \<Rightarrow> InvasionManager"
where
  "at_row P body m =
     (case List.extract P (im_invasions m) of
        None \<Rightarrow> m
      | Some (before, row, after) \<Rightarrow>
          (case body row m of
             (kept, m1) \<Rightarrow>
               m1\<lparr>im_invasions := before @ (case kept of None \<Rightarrow> [] | Some row' \<Rightarrow> [row']) @ after\<rparr>))"

definition withdraw_row :: "scene \<Rightarrow> fighter \<Rightarrow> Invasion \<Rightarrow> InvasionManager \<Rightarrow> Invasion option \<times> InvasionManager" where
  "withdraw_row sc invader row m =
     (case iv_phase row of
        PHASE_STALKING \<Rightarrow>
          (None, Tell (FindPlayer sc (iv_defender row)) ''The cold passes.''
                   (Tell (Some invader) ''You let them go.'' m))
      | PHASE_FIGHTING \<Rightarrow>
          (case Conclude sc (Some ''You abandon the rite. You forfeit.'')
                  (Some ''Your forgiver withdrew. You remain.'') WITHDRAW_PULL_MS (iv_defender row)
                  (row\<lparr>iv_leaveKit := NO_KIT\<rparr>) (shown (PlayedKit (ft_guid invader) ESCAPE_KIT) m) of
             (row', m1) \<Rightarrow> (Some row', m1))
      | _ \<Rightarrow> (Some row, Tell (Some invader) ''You are already being drawn back.'' m))"

definition Withdraw :: "scene \<Rightarrow> fighter \<Rightarrow> InvasionManager \<Rightarrow> InvasionManager \<times> bool" where
  "Withdraw sc invader m =
     (at_row (\<lambda>row. iv_invader row = ft_guid invader) (withdraw_row sc invader) m, IsInvading m (ft_guid invader))"

text \<open>The killer is the player behind the blow, by hand, pet or totem.\<close>

definition death_row ::
  "scene \<Rightarrow> fighter \<Rightarrow> u32 option \<Rightarrow> Invasion \<Rightarrow> InvasionManager \<Rightarrow> Invasion option \<times> InvasionManager" where
  "death_row sc victim killer row m =
     (if iv_phase row \<noteq> PHASE_FIGHTING
      then
        (if iv_phase row = PHASE_STALKING
         then (case Conclude sc (Some ''Something else forgave them first.'') None 0 0 row m of
                 (row', m1) \<Rightarrow> (Some row', m1))
         else (Some row, m))
      else
        let victimIsInvader = (iv_invader row = ft_guid victim);
            opponent = (if victimIsInvader then iv_defender row else iv_invader row);
            stands = (case FindPlayer sc opponent of None \<Rightarrow> False | Some f \<Rightarrow> ft_alive f);
            winner = (if killer = Some opponent \<and> stands then opponent else 0)
        in if victimIsInvader
           then (case Conclude sc (Some ''You have fallen. Lie still. You will be carried back.'')
                         (Some ''You refused forgiveness. You remain.'') (SecondsConfig (sc_linger sc)) winner row m of
                   (row', m1) \<Rightarrow> (Some row', m1))
           else (case Conclude sc (Some ''They are forgiven.'') (Some ''You have been forgiven.'') 0 winner row m of
                   (row', m1) \<Rightarrow>
                     (Some row',
                      shown (PlayedKit (ft_guid victim) DEATH_KIT)
                        (m1\<lparr>im_revives := im_revives m1 @ [(ft_guid victim, ft_at victim)]\<rparr>))))"

definition OnPlayerDeath :: "scene \<Rightarrow> fighter \<Rightarrow> u32 option \<Rightarrow> InvasionManager \<Rightarrow> InvasionManager" where
  "OnPlayerDeath sc victim killer = at_row (involves (ft_guid victim)) (death_row sc victim killer)"

definition logout_row :: "scene \<Rightarrow> fighter \<Rightarrow> Invasion \<Rightarrow> InvasionManager \<Rightarrow> Invasion option \<times> InvasionManager" where
  "logout_row sc player row m =
     (let defender = FindPlayer sc (iv_defender row)
      in if iv_invader row = ft_guid player
         then (None, ResendPlayerFlags defender (RecordMatch row 0 (HideRadar defender
                       (Tell defender ''Your forgiver has left this world.''
                         (shown (Teleported (ft_guid player) (iv_origin row)) m)))))
         else if iv_phase row \<noteq> PHASE_LEAVING
         then (case Conclude sc (Some ''They left this world before you could forgive them.'') None 0 0
                       (row\<lparr>iv_leaveKit := ESCAPE_KIT\<rparr>) m of
                 (row', m1) \<Rightarrow> (Some row', m1))
         else (Some row, m))"

definition OnPlayerLogout :: "scene \<Rightarrow> fighter \<Rightarrow> InvasionManager \<Rightarrow> InvasionManager \<times> bool" where
  "OnPlayerLogout sc player m =
     (at_row (involves (ft_guid player)) (logout_row sc player) m,
      case List.extract (involves (ft_guid player)) (im_invasions m) of
        None \<Rightarrow> False | Some (_, row, _) \<Rightarrow> iv_invader row = ft_guid player)"

subsection \<open>The dead\<close>

definition UpdateRevives :: "scene \<Rightarrow> InvasionManager \<Rightarrow> InvasionManager" where
  "UpdateRevives sc m =
     m\<lparr>im_revives := filter (\<lambda>r. case FindPlayer sc (fst r) of None \<Rightarrow> False | Some f \<Rightarrow> \<not> ft_alive f)
                       (im_revives m)\<rparr>"

definition OnReleaseSpirit :: "fighter \<Rightarrow> InvasionManager \<Rightarrow> InvasionManager \<times> bool" where
  "OnReleaseSpirit player m =
     (case List.extract (\<lambda>r. fst r = ft_guid player) (im_revives m) of
        None \<Rightarrow> (m, False)
      | Some (before, r, after) \<Rightarrow>
          (Tell (Some player) ''Your spirit lingers over your body.'' (m\<lparr>im_revives := before @ after\<rparr>), True))"

subsection \<open>The clock\<close>

definition count_down :: "u32 \<Rightarrow> u32 \<Rightarrow> u32" where
  "count_down diff ms = (if ms > diff then ms - diff else 0)"

definition fighter_distance :: "fighter \<Rightarrow> WorldLocation \<Rightarrow> yards" where
  "fighter_distance f spot =
     (let dx = wl_x (ft_at f) - wl_x spot; dy = wl_y (ft_at f) - wl_y spot; dz = wl_z (ft_at f) - wl_z spot;
          dist = sqrt (dx * dx + dy * dy + dz * dz) - ft_sizeFactor f
      in if dist > 0 then dist else 0)"

text \<open>One side of the arena: the new clock of that side, and whether it has forfeited.\<close>

definition arena_side ::
  "WorldLocation \<Rightarrow> u32 \<Rightarrow> fighter \<Rightarrow> u32 \<Rightarrow> InvasionManager \<Rightarrow> u32 \<times> bool \<times> InvasionManager" where
  "arena_side arena diff p left m =
     (if ft_beingTeleported p then (left, False, m)
      else
        let dist = (if wl_mapId (ft_at p) = wl_mapId arena then fighter_distance p arena else ARENA_OUT_YARDS * 100)
        in if left = 0
           then
             (if dist > ARENA_OUT_YARDS
              then (ARENA_FORFEIT_MS, False,
                    Tell (Some p) ''You stray from the rite. Return within 10 seconds or forfeit.''
                      (shown (Warned (ft_guid p) ''Return within 10 seconds or forfeit.'') m))
              else (0, False, m))
           else if dist < ARENA_BACK_YARDS then (0, False, Tell (Some p) ''You return to the rite.'' m)
           else if left > diff then (left - diff, False, m)
           else (left, True, m))"

definition ArenaForfeit ::
  "scene \<Rightarrow> u32 \<Rightarrow> fighter \<Rightarrow> fighter \<Rightarrow> Invasion \<Rightarrow> InvasionManager \<Rightarrow> Invasion \<times> bool \<times> InvasionManager" where
  "ArenaForfeit sc diff invader defender row m =
     (case arena_side (iv_arena row) diff invader (iv_outInvader row) m of
        (left, fled, m1) \<Rightarrow>
          let row1 = row\<lparr>iv_outInvader := left\<rparr>
          in if fled
             then (case Conclude sc (Some ''You abandoned the rite. You forfeit.'')
                           (Some ''Your forgiver fled. You remain.'') 0 (iv_defender row1) row1 m1 of
                     (row', m') \<Rightarrow> (row', True, m'))
             else
               (case arena_side (iv_arena row) diff defender (iv_outDefender row) m1 of
                  (left, fled, m2) \<Rightarrow>
                    let row2 = row1\<lparr>iv_outDefender := left\<rparr>
                    in if fled
                       then (case Conclude sc (Some ''They fled their forgiveness.'')
                                     (Some ''You turned away. You forfeit.'') 0 (iv_invader row2)
                                     (row2\<lparr>iv_leaveKit := ESCAPE_KIT\<rparr>) m2 of
                               (row', m') \<Rightarrow> (row', True, m'))
                       else (row2, False, m2)))"

definition Arrive :: "scene \<Rightarrow> fighter \<Rightarrow> fighter \<Rightarrow> Invasion \<Rightarrow> InvasionManager \<Rightarrow> Invasion \<times> InvasionManager" where
  "Arrive sc invader defender row m =
     (case sc_closePoint sc defender (real (unat (sc_arriveDistance sc))) of
        (x, y, z) \<Rightarrow>
          let spot = \<lparr>wl_mapId = wl_mapId (ft_at defender), wl_x = x, wl_y = y, wl_z = z, wl_o = wl_o (ft_at defender)\<rparr>;
              m1 = shown (Teleported (ft_guid invader) spot) m;
              row' = row\<lparr>iv_arena := spot, iv_arrivalFx := True, iv_arrivalLanded := False,
                         iv_arrivalFxMs := ARRIVE_FX_DELAY_MS, iv_outInvader := 0, iv_outDefender := 0,
                         iv_phase := PHASE_FIGHTING, iv_timer := SecondsConfig (sc_duration sc)\<rparr>;
              m2 = ResendPlayerFlags (Some defender) (ResendPlayerFlags (Some invader) m1);
              m3 = GrantRespite sc (iv_defender row) m2;
              m4 = Tell (Some invader) (''You stand behind '' @ ft_name defender @ ''. Forgive them.'') m3;
              m5 = Tell (Some defender) (ft_name invader @ '' has come to forgive you.'') m4
          in (row', shown (InvadedBy (ft_guid defender) (ft_name invader)) m5))"

definition arrival_effect ::
  "u32 \<Rightarrow> fighter \<Rightarrow> fighter \<Rightarrow> Invasion \<Rightarrow> InvasionManager \<Rightarrow> Invasion \<times> InvasionManager" where
  "arrival_effect diff invader defender row m =
     (if \<not> iv_arrivalFx row \<or> ft_beingTeleported invader then (row, m)
      else
        let row1 = (if iv_arrivalLanded row then row
                    else row\<lparr>iv_arrivalLanded := True, iv_keepStealth := ft_stealth invader\<rparr>);
            row2 = row1\<lparr>iv_arrivalFxMs := count_down diff (iv_arrivalFxMs row1)\<rparr>
        in if iv_arrivalFxMs row2 \<noteq> 0 then (row2, m)
           else
             (row2\<lparr>iv_arrivalFx := False\<rparr>,
              shown (PlayedKit (ft_guid defender) MARK_KIT)
                (if iv_keepStealth row2 then m else shown (PlayedKit (ft_guid invader) ARRIVE_KIT) m)))"

definition tick_stalking ::
  "scene \<Rightarrow> fighter \<Rightarrow> fighter option \<Rightarrow> Invasion \<Rightarrow> InvasionManager \<Rightarrow> Invasion option \<times> InvasionManager" where
  "tick_stalking sc invader defender row m =
     (if iv_timer row \<noteq> 0 then (Some row, m)
      else case defender of
        None \<Rightarrow> (None, Tell defender ''The cold passes.'' (Tell (Some invader) ''Their soul slips from your sight.'' m))
      | Some d \<Rightarrow>
          if \<not> IsValidDefender sc invader d \<or> \<not> IsAvailableForInvasion invader
          then (None, Tell defender ''The cold passes.'' (Tell (Some invader) ''Their soul slips from your sight.'' m))
          else (case Arrive sc invader d row m of (row', m') \<Rightarrow> (Some row', m')))"

definition tick_radar :: "scene \<Rightarrow> u32 \<Rightarrow> fighter \<Rightarrow> fighter \<Rightarrow> Invasion \<Rightarrow> InvasionManager \<Rightarrow> Invasion \<times> InvasionManager" where
  "tick_radar sc diff invader defender row m =
     (let left = count_down diff (iv_radarMs row)
      in if left \<noteq> 0 then (row\<lparr>iv_radarMs := left\<rparr>, m)
         else (row\<lparr>iv_radarMs := RADAR_MS\<rparr>,
               SendRadar sc defender (Some invader) (SendRadar sc invader (Some defender) m)))"

definition tick_fighting ::
  "scene \<Rightarrow> u32 \<Rightarrow> fighter \<Rightarrow> fighter option \<Rightarrow> Invasion \<Rightarrow> InvasionManager \<Rightarrow> Invasion \<times> InvasionManager" where
  "tick_fighting sc diff invader defender row m =
     (case defender of
        None \<Rightarrow> Conclude sc (Some ''They are beyond forgiveness, for now.'') None 0 0 (row\<lparr>iv_leaveKit := ESCAPE_KIT\<rparr>) m
      | Some d \<Rightarrow>
          if \<not> ft_inWorld d \<or> ft_instanceable d = Some True
          then Conclude sc (Some ''They are beyond forgiveness, for now.'') None 0 0 (row\<lparr>iv_leaveKit := ESCAPE_KIT\<rparr>) m
          else
            (case arrival_effect diff invader d row m of
               (row1, m1) \<Rightarrow>
                 (case ArenaForfeit sc diff invader d row1 m1 of
                    (row2, forfeit, m2) \<Rightarrow>
                      if forfeit then (row2, m2)
                      else
                        (case tick_radar sc diff invader d row2 m2 of
                           (row3, m3) \<Rightarrow>
                             if iv_timer row3 = 0
                             then Conclude sc (Some ''The rite fades. They remain unforgiven.'')
                                    (Some ''The presence behind you fades.'') 0 0 row3 m3
                             else (row3, m3)))))"

definition tick_leaving ::
  "scene \<Rightarrow> fighter \<Rightarrow> Invasion \<Rightarrow> InvasionManager \<Rightarrow> Invasion option \<times> InvasionManager" where
  "tick_leaving sc invader row m =
     (if iv_timer row \<noteq> 0 then (Some row, m)
      else
        let m1 = SendHome row invader m
        in if ft_alive invader then (None, Tell (Some invader) ''The rite is over. You are drawn back.'' m1)
           else (Some (row\<lparr>iv_phase := PHASE_REVIVING, iv_timer := SecondsConfig (sc_revive sc)\<rparr>), m1))"

definition tick_reviving :: "fighter \<Rightarrow> Invasion \<Rightarrow> InvasionManager \<Rightarrow> Invasion option \<times> InvasionManager" where
  "tick_reviving invader row m =
     (if iv_timer row \<noteq> 0 \<or> ft_beingTeleported invader then (Some row, m)
      else (None, Tell (Some invader) ''You wake where you began.''
                    (shown (CorpseToBones (ft_guid invader)) (shown (Resurrected (ft_guid invader)) m))))"

definition tick :: "scene \<Rightarrow> u32 \<Rightarrow> Invasion \<Rightarrow> InvasionManager \<Rightarrow> Invasion option \<times> InvasionManager" where
  "tick sc diff row m =
     (let defender = FindPlayer sc (iv_defender row)
      in case FindPlayerNotInWorld sc (iv_invader row) of
           None \<Rightarrow> (None, ResendPlayerFlags defender (HideRadar defender m))
         | Some invader \<Rightarrow>
             if \<not> ft_inWorld invader \<and> \<not> ft_beingTeleported invader
             then (None, ResendPlayerFlags defender (HideRadar defender m))
             else if \<not> ft_inWorld invader then (Some row, m)
             else
               let row1 = row\<lparr>iv_timer := count_down diff (iv_timer row)\<rparr>
               in case iv_phase row of
                    PHASE_STALKING \<Rightarrow> tick_stalking sc invader defender row1 m
                  | PHASE_FIGHTING \<Rightarrow> (case tick_fighting sc diff invader defender row1 m of (r, m') \<Rightarrow> (Some r, m'))
                  | PHASE_LEAVING \<Rightarrow> tick_leaving sc invader row1 m
                  | PHASE_REVIVING \<Rightarrow> tick_reviving invader row1 m)"

fun each_row ::
  "(Invasion \<Rightarrow> InvasionManager \<Rightarrow> Invasion option \<times> InvasionManager) \<Rightarrow> Invasion list \<Rightarrow> InvasionManager
     \<Rightarrow> Invasion list \<times> InvasionManager"
where
  "each_row body [] m = ([], m)"
| "each_row body (row # rows) m =
     (case body row m of
        (kept, m1) \<Rightarrow>
          (case each_row body rows m1 of
             (rows', m2) \<Rightarrow> ((case kept of None \<Rightarrow> [] | Some row' \<Rightarrow> [row']) @ rows', m2)))"

definition Update :: "scene \<Rightarrow> u32 \<Rightarrow> InvasionManager \<Rightarrow> InvasionManager" where
  "Update sc diff m =
     (let m1 = UpdateRevives sc m
      in case each_row (tick sc diff) (im_invasions m1) m1 of (rows, m2) \<Rightarrow> m2\<lparr>im_invasions := rows\<rparr>)"

subsection \<open>The sigil\<close>

text \<open>Whether the script answered the use of the item itself, so that no cast follows.\<close>

definition ItemUse_item_invasion_sigil :: "scene \<Rightarrow> fighter \<Rightarrow> InvasionManager \<Rightarrow> InvasionManager \<times> bool" where
  "ItemUse_item_invasion_sigil sc player m =
     (case Withdraw sc player m of
        (m1, True) \<Rightarrow> (m1, True)
      | (m1, False) \<Rightarrow> (case CanBeginInvasion sc player m1 of (m2, can) \<Rightarrow> (m2, \<not> can)))"

end
