(* ===== verification/InvasionRules.thy ===== *)
theory InvasionRules
  imports Invasions
begin

section \<open>What an invasion may do\<close>

text \<open>
  The contract \<open>handled\<close> that every operation on a row of the manager keeps (\<open>tick\<close>, \<open>withdraw_row\<close>,
  \<open>death_row\<close>, \<open>logout_row\<close>), stated once as the locale \<open>match_handler\<close> and interpreted for each of them;
  the steps of the manager (\<open>invasion_step\<close>), and the three things a step can be: a pass over the rows,
  words alone, or a new match.
\<close>

subsection \<open>What one row may do\<close>

definition permitted :: "Invasion \<Rightarrow> invasion_effect \<Rightarrow> bool" where
  "permitted row e =
     (case e of
        Teleported guid spot \<Rightarrow> guid = iv_invader row \<and> (iv_phase row = PHASE_STALKING \<or> spot = iv_origin row)
      | MatchRow a b winner \<Rightarrow>
          iv_phase row = PHASE_FIGHTING \<and> a = iv_invader row \<and> b = iv_defender row \<and> winner \<in> {0, a, b}
      | Resurrected guid \<Rightarrow> guid = iv_invader row \<and> iv_phase row = PHASE_REVIVING
      | _ \<Rightarrow> True)"

lemma permitted_simps [simp]:
  "permitted row (Told g t)" "permitted row (Warned g t)" "permitted row (Flagged g)" "permitted row (ResentFlags g)"
  "permitted row (PlayedKit g kit)" "permitted row (InvadedBy g t)" "permitted row (DotZone g x y k h)"
  "permitted row (DotYards g i j)" "permitted row (DotHidden g)" "permitted row (CorpseToBones g)"
  "permitted row (Teleported g s) \<longleftrightarrow> g = iv_invader row \<and> (iv_phase row = PHASE_STALKING \<or> s = iv_origin row)"
  "permitted row (MatchRow a b w) \<longleftrightarrow> iv_phase row = PHASE_FIGHTING \<and> a = iv_invader row \<and> b = iv_defender row \<and> w \<in> {0, a, b}"
  "permitted row (Resurrected g) \<longleftrightarrow> g = iv_invader row \<and> iv_phase row = PHASE_REVIVING"
  by (simp_all add: permitted_def)

text \<open>
  From one manager to another with nothing but effects of a kind and a respite from now on: the
  contract all helpers of a step share.
\<close>

definition speaks :: "(invasion_effect \<Rightarrow> bool) \<Rightarrow> scene \<Rightarrow> InvasionManager \<Rightarrow> InvasionManager \<Rightarrow> bool" where
  "speaks P sc m m' \<longleftrightarrow>
     im_invasions m' = im_invasions m
     \<and> (\<forall>d. sm_find (im_respite m') d \<in> {sm_find (im_respite m) d, Some (sc_now sc + unat (sc_respite sc))})
     \<and> (\<exists>es. im_trace m' = im_trace m @ es \<and> list_all P es)"

named_theorems speaks_intros \<open>helpers that only speak\<close>

lemma speaks_refl [speaks_intros]: "speaks P sc m m"
  by (simp add: speaks_def)

lemma speaks_trans: "speaks P sc m m1 \<Longrightarrow> speaks P sc m1 m2 \<Longrightarrow> speaks P sc m m2"
  unfolding speaks_def by (elim conjE exE) (intro conjI allI, simp, metis insertE insertCI empty_iff, simp)

lemma speaks_weaken: "speaks P sc m m' \<Longrightarrow> (\<And>e. P e \<Longrightarrow> Q e) \<Longrightarrow> speaks Q sc m m'"
  unfolding speaks_def by (auto simp: list_all_iff)

lemma speaks_shown: "speaks P sc m m' \<Longrightarrow> P e \<Longrightarrow> speaks P sc m (shown e m')"
  by (auto simp: speaks_def shown_def)

lemma speaks_to_heard: "speaks P sc m m' \<Longrightarrow> (\<And>g. P (e g)) \<Longrightarrow> speaks P sc m (to_heard e p m')"
  by (auto simp: to_heard_def intro: speaks_shown split: option.split)

lemma speaks_Tell: "speaks P sc m m' \<Longrightarrow> (\<And>g. P (Told g text)) \<Longrightarrow> speaks P sc m (Tell p text m')"
  unfolding Tell_def by (rule speaks_to_heard)

lemma speaks_HideRadar: "speaks P sc m m' \<Longrightarrow> (\<And>g. P (DotHidden g)) \<Longrightarrow> speaks P sc m (HideRadar p m')"
  unfolding HideRadar_def by (rule speaks_to_heard)

lemma speaks_Resend: "speaks P sc m m' \<Longrightarrow> (\<And>g. P (ResentFlags g)) \<Longrightarrow> speaks P sc m (ResendPlayerFlags p m')"
  by (auto simp: ResendPlayerFlags_def intro: speaks_shown split: option.split)

lemma speaks_Radar:
  assumes "speaks P sc m m'" and "\<And>g. P (DotHidden g)" and "\<And>g x y w h. P (DotZone g x y w h)"
    and "\<And>g i j. P (DotYards g i j)"
  shows "speaks P sc m (SendRadar sc' to p m')"
  using assms unfolding SendRadar_def
  by (auto intro: speaks_to_heard speaks_HideRadar split: option.split)

lemma speaks_respite: "speaks P sc m m' \<Longrightarrow> speaks P sc m (GrantRespite sc d m')"
  by (auto simp: speaks_def GrantRespite_def)

lemma speaks_line: "speaks P sc m m' \<Longrightarrow> (\<And>g t. P (Told g t)) \<Longrightarrow> speaks P sc m (tell_line p line m')"
  by (auto simp: tell_line_def intro: speaks_Tell split: option.split)

lemma speaks_record:
  assumes "speaks P sc m m'" and "iv_phase row = PHASE_FIGHTING \<Longrightarrow> P (MatchRow (iv_invader row) (iv_defender row) w)"
  shows "speaks P sc m (RecordMatch row w m')"
  using assms by (auto simp: RecordMatch_def intro: speaks_shown)

lemmas speaks_rules = speaks_shown speaks_Tell speaks_HideRadar speaks_Resend speaks_Radar speaks_respite
  speaks_line speaks_record

lemma speaks_Conclude:
  assumes "winner \<in> {0, iv_invader row, iv_defender row}"
    and "iv_invader row' = iv_invader row" and "iv_defender row' = iv_defender row" and "iv_phase row' = iv_phase row"
    and "speaks (permitted row) sc m m1"
  shows "speaks (permitted row) sc m (snd (Conclude sc l1 l2 ms winner row' m1))"
  unfolding Conclude_def Let_def using assms
  by (auto intro!: speaks_rules)

lemma Conclude_row [simp]:
  "iv_invader (fst (Conclude sc l1 l2 ms w row m)) = iv_invader row"
  "iv_defender (fst (Conclude sc l1 l2 ms w row m)) = iv_defender row"
  "iv_origin (fst (Conclude sc l1 l2 ms w row m)) = iv_origin row"
  "iv_phase (fst (Conclude sc l1 l2 ms w row m)) = PHASE_LEAVING"
  "iv_timer (fst (Conclude sc l1 l2 ms w row m)) = (if ms \<noteq> 0 then ms else SecondsConfig (sc_return sc))"
  by (simp_all add: Conclude_def Let_def)

subsection \<open>Results on record\<close>

definition results :: "InvasionManager \<Rightarrow> (u32 \<times> u32) list" where
  "results m = List.map_filter (\<lambda>e. case e of MatchRow a b w \<Rightarrow> Some (a, b) | _ \<Rightarrow> None) (im_trace m)"

definition sides :: "Invasion \<Rightarrow> u32 \<times> u32" where "sides row = (iv_invader row, iv_defender row)"

lemma results_shown [simp]:
  "results (shown e m) = results m @ (case e of MatchRow a b w \<Rightarrow> [(a, b)] | _ \<Rightarrow> [])"
  by (simp add: results_def shown_def List.map_filter_def split: invasion_effect.split)

lemma results_update [simp]: "results (m\<lparr>im_invasions := rows\<rparr>) = results m" "results (m\<lparr>im_revives := rs\<rparr>) = results m"
  "results (m\<lparr>im_respite := rp\<rparr>) = results m"
  by (simp_all add: results_def)

lemma results_heard: "(\<And>g. \<nexists>a b w. e g = MatchRow a b w) \<Longrightarrow> results (to_heard e p m) = results m"
  by (auto simp: to_heard_def split: option.split invasion_effect.split)

lemma results_helpers [simp]: "results (Tell p text m) = results m" "results (HideRadar p m) = results m"
  "results (ResendPlayerFlags p m) = results m" "results (SendRadar sc f p m) = results m"
  "results (GrantRespite sc d m) = results m" "results (tell_line p line m) = results m"
  by (auto simp: Tell_def HideRadar_def SendRadar_def ResendPlayerFlags_def GrantRespite_def tell_line_def results_heard
      split: option.split)

lemma results_Record [simp]:
  "results (RecordMatch row w m) = results m @ (if iv_phase row = PHASE_FIGHTING then [sides row] else [])"
  by (simp add: RecordMatch_def sides_def)

lemma results_Conclude [simp]:
  "results (snd (Conclude sc l1 l2 ms w row m)) = results m @ (if iv_phase row = PHASE_FIGHTING then [sides row] else [])"
  by (simp add: Conclude_def Let_def)

lemma sides_update [simp]: "sides (row\<lparr>iv_leaveKit := k\<rparr>) = sides row" "sides (row\<lparr>iv_timer := t\<rparr>) = sides row"
  "sides (row\<lparr>iv_outInvader := t\<rparr>) = sides row" "sides (row\<lparr>iv_outDefender := t\<rparr>) = sides row"
  "sides (row\<lparr>iv_radarMs := t\<rparr>) = sides row" "sides (row\<lparr>iv_phase := ph\<rparr>) = sides row"
  "sides (row\<lparr>iv_arrivalFx := b\<rparr>) = sides row" "sides (row\<lparr>iv_arrivalFxMs := t\<rparr>) = sides row"
  "sides (row\<lparr>iv_arrivalLanded := b\<rparr>) = sides row" "sides (row\<lparr>iv_keepStealth := b\<rparr>) = sides row"
  by (simp_all add: sides_def)

subsection \<open>One tick of a fight\<close>

text \<open>The match goes on under the same names, or it is concluded and its result written.\<close>

definition same_match :: "Invasion \<Rightarrow> Invasion \<Rightarrow> bool" where
  "same_match row row' \<longleftrightarrow> sides row' = sides row \<and> iv_origin row' = iv_origin row"

lemma same_matchD: "same_match row row' \<Longrightarrow> iv_invader row' = iv_invader row" "same_match row row' \<Longrightarrow> iv_defender row' = iv_defender row"
  "same_match row row' \<Longrightarrow> iv_origin row' = iv_origin row" "same_match row row' \<Longrightarrow> sides row' = sides row"
  by (simp_all add: same_match_def sides_def)

definition fights_on :: "scene \<Rightarrow> Invasion \<Rightarrow> Invasion \<Rightarrow> InvasionManager \<Rightarrow> InvasionManager \<Rightarrow> bool" where
  "fights_on sc row row' m m' \<longleftrightarrow>
     same_match row row' \<and> iv_phase row' = PHASE_FIGHTING \<and> iv_timer row' = iv_timer row
     \<and> results m' = results m \<and> speaks (permitted row) sc m m'"

definition granted :: "scene \<Rightarrow> u32 \<Rightarrow> InvasionManager \<Rightarrow> bool" where
  "granted sc d m \<longleftrightarrow> sc_respite sc = 0 \<or> sm_find (im_respite m) d = Some (sc_now sc + unat (sc_respite sc))"

lemma granted_speaks: "granted sc d m \<Longrightarrow> speaks P sc m m' \<Longrightarrow> granted sc d m'"
  unfolding granted_def speaks_def by (metis insertE singletonD)

lemma respite_helpers [simp]: "im_respite (shown e m) = im_respite m" "im_respite (to_heard ef p m) = im_respite m"
  "im_respite (Tell p line m) = im_respite m" "im_respite (HideRadar p m) = im_respite m"
  "im_respite (ResendPlayerFlags p m) = im_respite m" "im_respite (tell_line p l m) = im_respite m"
  "im_respite (RecordMatch row w m) = im_respite m"
  by (simp_all add: shown_def to_heard_def Tell_def HideRadar_def ResendPlayerFlags_def tell_line_def RecordMatch_def
      split: option.split)

lemma granted_cong [simp]: "granted sc d (shown e m) = granted sc d m" "granted sc d (Tell p line m) = granted sc d m"
  "granted sc d (m\<lparr>im_revives := rs\<rparr>) = granted sc d m"
  by (simp_all add: granted_def)

lemma GrantRespite_granted: "granted sc d (GrantRespite sc d m)"
  by (simp add: granted_def GrantRespite_def)

lemma Conclude_granted:
  assumes "iv_phase row = PHASE_FIGHTING"
  shows "granted sc (iv_defender row) (snd (Conclude sc l1 l2 ms w row m))"
  using assms GrantRespite_granted [of sc "iv_defender row"] by (simp add: Conclude_def Let_def granted_def)

definition concluded :: "scene \<Rightarrow> Invasion \<Rightarrow> Invasion \<Rightarrow> InvasionManager \<Rightarrow> InvasionManager \<Rightarrow> bool" where
  "concluded sc row row' m m' \<longleftrightarrow>
     same_match row row' \<and> iv_phase row' = PHASE_LEAVING
     \<and> results m' = results m @ (if iv_phase row = PHASE_FIGHTING then [sides row] else [])
     \<and> (iv_phase row = PHASE_FIGHTING \<longrightarrow> granted sc (iv_defender row) m')
     \<and> speaks (permitted row) sc m m'"

lemma concludedI:
  assumes "same_match row row1" and "iv_phase row1 = iv_phase row" and "results m1 = results m"
    and "speaks (permitted row) sc m m1" and "w \<in> {0, iv_invader row, iv_defender row}"
  shows "concluded sc row (fst (Conclude sc l1 l2 ms w row1 m1)) m (snd (Conclude sc l1 l2 ms w row1 m1))"
  using assms speaks_Conclude [of w row row1 sc m m1 l1 l2 ms] Conclude_granted [of row1 sc l1 l2 ms w m1]
  by (auto simp: concluded_def same_match_def sides_def [of "fst _"]) (simp_all add: sides_def)

lemma arena_side_speaks:
  assumes "speaks P sc m m'" and "\<And>g t. P (Told g t)" and "\<And>g t. P (Warned g t)"
  shows "speaks P sc m (snd (snd (arena_side spot diff p left m')))"
  using assms by (auto simp: arena_side_def Let_def intro!: speaks_shown speaks_Tell)

lemma arena_side_results [simp]: "results (snd (snd (arena_side spot diff p left m))) = results m"
  by (simp add: arena_side_def Let_def)

lemma arrival_effect_step:
  assumes "iv_phase row = PHASE_FIGHTING"
  shows "fights_on sc row (fst (arrival_effect diff f d row m)) m (snd (arrival_effect diff f d row m))"
  using assms
  by (auto simp: arrival_effect_def fights_on_def same_match_def Let_def speaks_refl intro!: speaks_shown)

lemma tick_radar_step:
  assumes "iv_phase row = PHASE_FIGHTING"
  shows "fights_on sc row (fst (tick_radar sc diff f d row m)) m (snd (tick_radar sc diff f d row m))"
  using assms
  by (auto simp: tick_radar_def fights_on_def same_match_def Let_def speaks_refl intro!: speaks_Radar)

lemma permitted_cong: "same_match row row1 \<Longrightarrow> iv_phase row1 = iv_phase row \<Longrightarrow> permitted row1 = permitted row"
  by (rule ext) (simp add: permitted_def same_match_def sides_def split: invasion_effect.split)

lemma fights_on_trans:
  assumes "fights_on sc row row1 m m1" and "fights_on sc row1 row2 m1 m2" and "iv_phase row = PHASE_FIGHTING"
  shows "fights_on sc row row2 m m2"
proof -
  have "permitted row1 = permitted row" using assms by (intro permitted_cong) (simp_all add: fights_on_def)
  then show ?thesis using assms unfolding fights_on_def by (auto simp: same_match_def intro: speaks_trans)
qed

lemma fights_on_concluded:
  assumes "fights_on sc row row1 m m1" and "concluded sc row1 row2 m1 m2" and "iv_phase row = PHASE_FIGHTING"
  shows "concluded sc row row2 m m2"
proof -
  have "permitted row1 = permitted row" using assms by (intro permitted_cong) (simp_all add: fights_on_def)
  moreover have "iv_defender row1 = iv_defender row" using assms(1) by (auto simp: fights_on_def dest: same_matchD)
  ultimately show ?thesis using assms unfolding fights_on_def concluded_def by (auto simp: same_match_def intro: speaks_trans)
qed

lemma ArenaForfeit_step:
  assumes "iv_phase row = PHASE_FIGHTING"
  shows "case ArenaForfeit sc diff f d row m of (row', forfeit, m') \<Rightarrow>
    (if forfeit then concluded sc row row' m m' \<and> iv_timer row' = SecondsConfig (sc_return sc)
     else fights_on sc row row' m m')"
proof -
  obtain l1 b1 m1 where s1: "arena_side (iv_arena row) diff f (iv_outInvader row) m = (l1, b1, m1)" by (metis prod_cases3)
  obtain l2 b2 m2 where s2: "arena_side (iv_arena row) diff d (iv_outDefender row) m1 = (l2, b2, m2)" by (metis prod_cases3)
  have p1: "speaks (permitted row) sc m m1"
    using arena_side_speaks [OF speaks_refl, where P = "permitted row" and m = m and spot = "iv_arena row" and diff = diff
        and p = f and left = "iv_outInvader row"] s1 by simp
  have p2: "speaks (permitted row) sc m m2"
    using arena_side_speaks [OF p1, where spot = "iv_arena row" and diff = diff and p = d and left = "iv_outDefender row"] s2
    by simp
  have r: "results m1 = results m" "results m2 = results m"
    using arena_side_results [of "iv_arena row" diff f "iv_outInvader row" m]
      arena_side_results [of "iv_arena row" diff d "iv_outDefender row" m1] s1 s2 by simp_all
  let ?row1 = "row\<lparr>iv_outInvader := l1\<rparr>" and ?row2 = "row\<lparr>iv_outInvader := l1, iv_outDefender := l2\<rparr>"
  have same: "same_match row ?row1" "same_match row ?row2" "same_match row (?row2\<lparr>iv_leaveKit := ESCAPE_KIT\<rparr>)"
    by (simp_all add: same_match_def)
  note one = concludedI [OF same(1) _ r(1) p1, of "iv_defender row"]
    and two = concludedI [OF same(3) _ r(2) p2, of "iv_invader row"]
  show ?thesis
    using one two r p1 p2 same assms
    by (simp add: ArenaForfeit_def s1 s2 Let_def fights_on_def split: prod.split) (metis Conclude_row(5) fst_conv snd_conv)
qed

subsection \<open>One tick of a row\<close>

definition since :: "InvasionManager \<Rightarrow> InvasionManager \<Rightarrow> invasion_effect list" where
  "since m m' = drop (length (im_trace m)) (im_trace m')"

lemma since_self [simp]: "since m m = []" by (simp add: since_def)

lemma speaks_since:
  assumes "speaks P sc m m'"
  shows "im_trace m' = im_trace m @ since m m'" and "list_all P (since m m')"
  using assms by (auto simp: speaks_def since_def)

lemma since_trans:
  assumes "speaks P sc m m1" and "speaks Q sc m1 m2"
  shows "since m m2 = since m m1 @ since m1 m2"
  using assms by (auto simp: speaks_def since_def)

definition goes_home :: "Invasion \<Rightarrow> invasion_effect list \<Rightarrow> bool" where
  "goes_home row es \<longleftrightarrow> Teleported (iv_invader row) (iv_origin row) \<in> set es"

definition vanished :: "scene \<Rightarrow> Invasion \<Rightarrow> bool" where
  "vanished sc row \<longleftrightarrow>
     (case FindPlayerNotInWorld sc (iv_invader row) of
        None \<Rightarrow> True | Some f \<Rightarrow> \<not> ft_inWorld f \<and> \<not> ft_beingTeleported f)"

text \<open>
  What becomes of a row, whichever operation handles it: an arrived match ends with the invader sent
  home, or without him; its result is written when the fight ends and not again; and the phases only go
  on, but for a defender who logs out. Who is landed behind somebody was let in by the rules at that
  moment, and whoever was fought has a respite.
\<close>

definition handled :: "scene \<Rightarrow> Invasion \<Rightarrow> Invasion option \<Rightarrow> InvasionManager \<Rightarrow> InvasionManager \<Rightarrow> bool" where
  "handled sc row kept m m' \<longleftrightarrow>
     speaks (permitted row) sc m m'
     \<and> (case kept of
          None \<Rightarrow>
            results m' = results m @ (if iv_phase row = PHASE_FIGHTING \<and> \<not> vanished sc row then [sides row] else [])
            \<and> (iv_phase row \<in> {PHASE_FIGHTING, PHASE_LEAVING} \<longrightarrow> vanished sc row \<or> goes_home row (since m m'))
        | Some row' \<Rightarrow> same_match row row'
            \<and> results m' = results m @ (if iv_phase row = PHASE_FIGHTING \<and> iv_phase row' \<noteq> PHASE_FIGHTING then [sides row] else [])
            \<and> (iv_phase row = PHASE_LEAVING \<and> iv_phase row' \<noteq> PHASE_LEAVING \<longrightarrow> goes_home row (since m m'))
            \<and> (iv_phase row = PHASE_FIGHTING \<longrightarrow> iv_phase row' \<in> {PHASE_FIGHTING, PHASE_LEAVING})
            \<and> (iv_phase row' = PHASE_STALKING \<longrightarrow> iv_phase row = PHASE_STALKING)
            \<and> (iv_phase row' = PHASE_FIGHTING \<longrightarrow> iv_phase row \<in> {PHASE_STALKING, PHASE_FIGHTING})
            \<and> (iv_phase row = PHASE_STALKING \<and> iv_phase row' = PHASE_FIGHTING \<longrightarrow>
                 (\<exists>f d. FindPlayer sc (iv_invader row) = Some f \<and> FindPlayer sc (iv_defender row) = Some d
                    \<and> IsValidDefender sc f d \<and> IsAvailableForInvasion f))
            \<and> ((iv_phase row, iv_phase row') \<in> {(PHASE_STALKING, PHASE_FIGHTING), (PHASE_FIGHTING, PHASE_LEAVING)} \<longrightarrow>
                 granted sc (iv_defender row) m'))"

lemma FindPlayerNotInWorld_guid: "FindPlayerNotInWorld sc g = Some f \<Longrightarrow> ft_guid f = g"
  by (auto simp: FindPlayerNotInWorld_def find_Some_iff split: if_split_asm)

lemma FindPlayer_Some: "FindPlayer sc g = Some f \<Longrightarrow> ft_guid f = g \<and> ft_inWorld f"
  by (auto simp: FindPlayer_def dest: FindPlayerNotInWorld_guid split: option.split_asm if_split_asm)

lemma tick_fighting_step:
  assumes "iv_phase row = PHASE_FIGHTING"
  shows "case tick_fighting sc diff f d row m of (row', m') \<Rightarrow>
     concluded sc row row' m m' \<and> iv_timer row' = SecondsConfig (sc_return sc)
     \<or> fights_on sc row row' m m' \<and> iv_timer row \<noteq> 0"
proof -
  have lost: "concluded sc row (fst (Conclude sc l1 l2 0 0 (row\<lparr>iv_leaveKit := k\<rparr>) m)) m
      (snd (Conclude sc l1 l2 0 0 (row\<lparr>iv_leaveKit := k\<rparr>) m))" for l1 l2 k
    by (rule concludedI) (simp_all add: same_match_def speaks_refl)
  show ?thesis
  proof (cases "d = None \<or> (\<exists>x. d = Some x \<and> (\<not> ft_inWorld x \<or> ft_instanceable x = Some True))")
    case True
    then have "tick_fighting sc diff f d row m
        = Conclude sc (Some ''They are beyond forgiveness, for now.'') None 0 0 (row\<lparr>iv_leaveKit := ESCAPE_KIT\<rparr>) m"
      by (auto simp: tick_fighting_def)
    then show ?thesis by (simp add: case_prod_beta lost)
  next
    case False
    then obtain x where x: "d = Some x" "ft_inWorld x" "ft_instanceable x \<noteq> Some True" by (cases d) auto
    obtain row1 m1 where a: "arrival_effect diff f x row m = (row1, m1)" by force
    have one: "fights_on sc row row1 m m1" using arrival_effect_step [OF assms, where sc = sc and diff = diff and f = f and d = x and m = m] a by simp
    then have p1: "iv_phase row1 = PHASE_FIGHTING" by (simp add: fights_on_def)
    obtain row2 fled m2 where b: "ArenaForfeit sc diff f x row1 m1 = (row2, fled, m2)" by (metis prod_cases3)
    note two = ArenaForfeit_step [OF p1, where sc = sc and diff = diff and f = f and d = x and m = m1, unfolded b prod.case]
    show ?thesis
    proof (cases fled)
      case True
      then show ?thesis
        using two fights_on_concluded [OF one _ assms] x a b by (simp add: tick_fighting_def)
    next
      case False
      with two have two: "fights_on sc row1 row2 m1 m2" by simp
      then have p2: "iv_phase row2 = PHASE_FIGHTING" by (simp add: fights_on_def)
      obtain row3 m3 where c: "tick_radar sc diff f x row2 m2 = (row3, m3)" by force
      have three: "fights_on sc row row3 m m3"
        using fights_on_trans [OF fights_on_trans [OF one two assms] _ assms] tick_radar_step [OF p2, where sc = sc and diff = diff and f = f and d = x and m = m2] c
        by simp
      have run: "tick_fighting sc diff f d row m = (if iv_timer row3 = 0
          then Conclude sc (Some ''The rite fades. They remain unforgiven.'') (Some ''The presence behind you fades.'') 0 0 row3 m3
          else (row3, m3))"
        using x a b c False by (simp add: tick_fighting_def)
      have p3: "iv_phase row3 = PHASE_FIGHTING" "iv_timer row3 = iv_timer row" using three by (simp_all add: fights_on_def)
      have "concluded sc row3 (fst (Conclude sc l1 l2 0 0 row3 m3)) m3 (snd (Conclude sc l1 l2 0 0 row3 m3))" for l1 l2
        by (rule concludedI) (simp_all add: same_match_def speaks_refl)
      then have "concluded sc row (fst (Conclude sc l1 l2 0 0 row3 m3)) m (snd (Conclude sc l1 l2 0 0 row3 m3))" for l1 l2
        using fights_on_concluded [OF three _ assms] by blast
      with run three p3 show ?thesis by (simp add: case_prod_beta)
    qed
  qed
qed

lemma Arrive_step:
  assumes "iv_phase row = PHASE_STALKING" and "ft_guid f = iv_invader row"
  shows "same_match row (fst (Arrive sc f d row m))" and "iv_phase (fst (Arrive sc f d row m)) = PHASE_FIGHTING"
    and "iv_timer (fst (Arrive sc f d row m)) = SecondsConfig (sc_duration sc)"
    and "results (snd (Arrive sc f d row m)) = results m" and "granted sc (iv_defender row) (snd (Arrive sc f d row m))"
    and "speaks (permitted row) sc m (snd (Arrive sc f d row m))"
  using assms
  by (auto simp: Arrive_def Let_def same_match_def sides_def speaks_refl case_prod_beta GrantRespite_granted
      intro!: speaks_rules)

lemma tick_step:
  assumes "tick sc diff row m = (kept, m')"
  shows "handled sc row kept m m'"
proof -
  let ?d = "FindPlayer sc (iv_defender row)"
  have gone: "handled sc row None m (ResendPlayerFlags ?d (HideRadar ?d m))" if "vanished sc row"
    using that by (auto simp: handled_def speaks_refl intro!: speaks_rules)
  show ?thesis
  proof (cases "FindPlayerNotInWorld sc (iv_invader row)")
    case None
    with assms gone show ?thesis by (auto simp: tick_def Let_def vanished_def)
  next
    case (Some f)
    have guid: "ft_guid f = iv_invader row" by (rule FindPlayerNotInWorld_guid [OF Some])
    let ?row = "row\<lparr>iv_timer := count_down diff (iv_timer row)\<rparr>"
    have same: "same_match row ?row" "iv_phase ?row = iv_phase row" by (simp_all add: same_match_def)
    have perm: "permitted ?row = permitted row" by (rule permitted_cong [OF same])
    consider "\<not> ft_inWorld f \<and> \<not> ft_beingTeleported f" | "\<not> ft_inWorld f \<and> ft_beingTeleported f" | "ft_inWorld f" by blast
    then show ?thesis
    proof cases
      case 1
      with Some have "vanished sc row" by (simp add: vanished_def)
      with 1 Some assms gone show ?thesis by (auto simp: tick_def Let_def)
    next
      case 2
      with Some assms show ?thesis by (auto simp: tick_def Let_def handled_def speaks_refl same_match_def)
    next
      case 3
      show ?thesis
      proof (cases "iv_phase row")
        case PHASE_STALKING
        then have t: "tick_stalking sc f ?d ?row m = (kept, m')" using assms Some 3 by (simp add: tick_def Let_def)
        have A: "same_match row (fst (Arrive sc f d ?row m))" "iv_phase (fst (Arrive sc f d ?row m)) = PHASE_FIGHTING"
          "results (snd (Arrive sc f d ?row m)) = results m" "granted sc (iv_defender row) (snd (Arrive sc f d ?row m))"
          "speaks (permitted row) sc m (snd (Arrive sc f d ?row m))" for d
          using Arrive_step [of ?row f, where sc = sc and d = d and m = m] PHASE_STALKING guid perm by (simp_all add: same_match_def)
        have here: "FindPlayer sc (iv_invader row) = Some f" using Some 3 by (simp add: FindPlayer_def)
        show ?thesis
          using t PHASE_STALKING A same here
          by (auto simp: tick_stalking_def handled_def case_prod_beta speaks_refl split: option.split_asm if_split_asm
              intro!: speaks_rules)
      next
        case PHASE_FIGHTING
        then obtain row' where r: "tick_fighting sc diff f ?d ?row m = (row', m')" "kept = Some row'"
          using assms Some 3 by (auto simp: tick_def Let_def split: prod.split_asm)
        have "concluded sc ?row row' m m' \<or> fights_on sc ?row row' m m'"
          using tick_fighting_step [of ?row, where sc = sc and diff = diff and f = f and d = ?d and m = m] PHASE_FIGHTING r(1) by auto
        then show ?thesis
          using r(2) PHASE_FIGHTING same perm
          by (auto simp: handled_def concluded_def fights_on_def same_match_def sides_def)
      next
        case PHASE_LEAVING
        then have t: "tick_leaving sc f ?row m = (kept, m')" using assms Some 3 by (simp add: tick_def Let_def)
        have home: "speaks (permitted row) sc m (SendHome ?row f m)"
          using guid 3 by (auto simp: SendHome_def Let_def speaks_refl intro!: speaks_rules)
        have quiet: "results (SendHome ?row f m) = results m" by (simp add: SendHome_def Let_def)
        have homeward: "goes_home row (since m (SendHome ?row f m))"
          using guid 3 by (simp add: SendHome_def Let_def goes_home_def since_def shown_def)
        have told: "speaks (permitted row) sc m (Tell (Some f) line (SendHome ?row f m))" for line
          using home by (intro speaks_rules) simp_all
        have "goes_home row (since m (Tell (Some f) line (SendHome ?row f m)))" for line
        proof -
          have "speaks (permitted row) sc (SendHome ?row f m) (Tell (Some f) line (SendHome ?row f m))"
            by (intro speaks_rules speaks_refl) simp_all
          then show ?thesis using homeward since_trans [OF home] by (simp add: goes_home_def)
        qed
        then show ?thesis
          using t PHASE_LEAVING home quiet homeward told same
          by (auto simp: tick_leaving_def handled_def Let_def speaks_refl same_match_def split: if_split_asm)
      next
        case PHASE_REVIVING
        then have t: "tick_reviving f ?row m = (kept, m')" using assms Some 3 by (simp add: tick_def Let_def)
        show ?thesis
          using t PHASE_REVIVING guid same
          by (auto simp: tick_reviving_def handled_def speaks_refl split: if_split_asm intro!: speaks_rules)
      qed
    qed
  qed
qed

subsection \<open>One pass over the rows\<close>

definition kept_rows :: "Invasion option \<Rightarrow> Invasion list" where
  "kept_rows kept = (case kept of None \<Rightarrow> [] | Some row \<Rightarrow> [row])"

inductive handled_rows ::
  "scene \<Rightarrow> Invasion list \<Rightarrow> Invasion list \<Rightarrow> InvasionManager \<Rightarrow> InvasionManager \<Rightarrow> bool" for sc where
  no_row: "handled_rows sc [] [] m m"
| one_row: "handled sc row kept m m1 \<Longrightarrow> handled_rows sc rows rows' m1 m2
            \<Longrightarrow> handled_rows sc (row # rows) (kept_rows kept @ rows') m m2"

lemma handled_same: "handled sc row (Some row) m m"
  by (cases "iv_phase row") (simp_all add: handled_def speaks_refl same_match_def)

lemma handled_rows_same: "handled_rows sc rows rows m m"
proof (induction rows)
  case (Cons row rows)
  from one_row [OF handled_same Cons] show ?case by (simp add: kept_rows_def)
qed (rule no_row)

lemma handled_rows_append:
  assumes "handled_rows sc rows rows' m m1" and "handled_rows sc tail tail' m1 m2"
  shows "handled_rows sc (rows @ tail) (rows' @ tail') m m2"
  using assms by (induction rule: handled_rows.induct) (auto intro: one_row)

text \<open>The contract of an operation that handles one row, and what follows for a pass over all of them.\<close>

locale match_handler =
  fixes sc :: scene
    and body :: "Invasion \<Rightarrow> InvasionManager \<Rightarrow> Invasion option \<times> InvasionManager"
    and takes :: "Invasion \<Rightarrow> bool"
  assumes contract: "takes row \<Longrightarrow> body row m = (kept, m') \<Longrightarrow> handled sc row kept m m'"
begin

lemma each_row_handles:
  assumes "list_all takes rows" and "each_row body rows m = (rows', m')"
  shows "handled_rows sc rows rows' m m'"
  using assms
proof (induction rows arbitrary: rows' m)
  case (Cons row rows)
  obtain kept m1 where one: "body row m = (kept, m1)" by force
  obtain tail m2 where rest: "each_row body rows m1 = (tail, m2)" by force
  have "handled_rows sc rows tail m1 m2" using Cons one rest by simp
  from one_row [OF contract [OF _ one] this] show ?case
    using Cons.prems one rest by (simp add: kept_rows_def)
qed (simp add: no_row)

lemma at_row_handles:
  "handled_rows sc (im_invasions m) (im_invasions (at_row takes body m)) m
     (at_row takes body m\<lparr>im_invasions := im_invasions m\<rparr>)"
proof (cases "List.extract takes (im_invasions m)")
  case None
  then show ?thesis by (simp add: at_row_def handled_rows_same)
next
  case (Some split)
  obtain before row after' where split: "split = (before, row, after')" by (metis prod_cases3)
  then have rows: "im_invasions m = before @ row # after'" "takes row"
    using Some by (auto simp: extract_Some_iff)
  obtain kept m1 where one: "body row m = (kept, m1)" by force
  have handled: "handled sc row kept m m1" by (rule contract [OF rows(2) one])
  then have "m1\<lparr>im_invasions := im_invasions m\<rparr> = m1" by (simp add: handled_def speaks_def)
  moreover have "handled_rows sc (before @ [row] @ after') (before @ kept_rows kept @ after') m m1"
    using handled_rows_append [OF handled_rows_same one_row [OF handled handled_rows_same]] by simp
  ultimately show ?thesis using Some split one rows(1) by (simp add: at_row_def kept_rows_def)
qed

end

text \<open>Every operation on rows keeps the contract.\<close>

interpretation clock: match_handler sc "tick sc diff" "\<lambda>_. True" for sc diff
  by unfold_locales (rule tick_step)

lemma concluded_handled:
  assumes "concluded sc row row' m m'" and "iv_phase row \<noteq> PHASE_LEAVING"
  shows "handled sc row (Some row') m m'"
  using assms by (auto simp: concluded_def handled_def)

lemma handled_speaks:
  assumes "speaks (permitted row) sc m m'" and "results m' = results m"
  shows "handled sc row (Some row) m m'" and "iv_phase row \<notin> {PHASE_FIGHTING, PHASE_LEAVING} \<Longrightarrow> handled sc row None m m'"
  using assms by (cases "iv_phase row"; simp add: handled_def same_match_def)+

interpretation withdrawal: match_handler sc "withdraw_row sc invader" "\<lambda>row. iv_invader row = ft_guid invader" for sc invader
proof
  fix row m kept m'
  assume run: "withdraw_row sc invader row m = (kept, m')"
  have "concluded sc row (fst (Conclude sc l1 l2 ms (iv_defender row) (row\<lparr>iv_leaveKit := k\<rparr>) (shown (PlayedKit g kit) m))) m
      (snd (Conclude sc l1 l2 ms (iv_defender row) (row\<lparr>iv_leaveKit := k\<rparr>) (shown (PlayedKit g kit) m)))" for l1 l2 ms k g kit
    by (rule concludedI) (simp_all add: same_match_def speaks_refl speaks_shown)
  then have fight: "handled sc row (Some (fst (Conclude sc l1 l2 ms (iv_defender row) (row\<lparr>iv_leaveKit := k\<rparr>) (shown (PlayedKit g kit) m)))) m
      (snd (Conclude sc l1 l2 ms (iv_defender row) (row\<lparr>iv_leaveKit := k\<rparr>) (shown (PlayedKit g kit) m)))"
    if "iv_phase row = PHASE_FIGHTING" for l1 l2 ms k g kit
    using concluded_handled that by simp
  have told: "speaks (permitted row) sc m (Tell p t m)" "speaks (permitted row) sc m (Tell p t (Tell q u m))" for p t q u
    by (simp_all add: speaks_Tell speaks_refl)
  show "handled sc row kept m m'"
    using run
    by (cases "iv_phase row")
      (auto simp: withdraw_row_def case_prod_beta fight handled_speaks told)
qed

interpretation death: match_handler sc "death_row sc victim killer" "involves (ft_guid victim)" for sc victim killer
proof
  fix row m kept m'
  assume "involves (ft_guid victim) row" and run: "death_row sc victim killer row m = (kept, m')"
  have over: "concluded sc row (fst (Conclude sc l1 l2 ms w row m)) m (snd (Conclude sc l1 l2 ms w row m))"
    if "w \<in> {0, iv_invader row, iv_defender row}" for l1 l2 ms w
    by (rule concludedI) (use that in \<open>simp_all add: same_match_def speaks_refl\<close>)
  have moon: "speaks P sc m (shown e (x\<lparr>im_revives := rs\<rparr>))" if "speaks P sc m x" "P e" for P x e rs
    using that by (intro speaks_shown) (simp_all add: speaks_def)
  consider "iv_phase row = PHASE_STALKING" | "iv_phase row = PHASE_FIGHTING" | "iv_phase row \<in> {PHASE_LEAVING, PHASE_REVIVING}"
    by (cases "iv_phase row") auto
  then show "handled sc row kept m m'"
  proof cases
    case 1
    then show ?thesis
      using run over [of 0] concluded_handled by (auto simp: death_row_def case_prod_beta)
  next
    case 2
    let ?opponent = "if iv_invader row = ft_guid victim then iv_defender row else iv_invader row"
    define w where "w = (if killer = Some ?opponent \<and> (case FindPlayer sc ?opponent of None \<Rightarrow> False | Some f \<Rightarrow> ft_alive f)
      then ?opponent else 0)"
    have "w \<in> {0, iv_invader row, iv_defender row}" by (simp add: w_def)
    note won = over [OF this]
    have lit: "handled sc row (Some row') m (shown (PlayedKit g k) (x\<lparr>im_revives := rs\<rparr>))"
      if "concluded sc row row' m x" for row' x g k rs
      using moon that by (intro concluded_handled) (auto simp: concluded_def 2)
    have "death_row sc victim killer row m =
      (if iv_invader row = ft_guid victim
       then (case Conclude sc (Some ''You have fallen. Lie still. You will be carried back.'')
               (Some ''You refused forgiveness. You remain.'') (SecondsConfig (sc_linger sc)) w row m of
               (row', m1) \<Rightarrow> (Some row', m1))
       else (case Conclude sc (Some ''They are forgiven.'') (Some ''You have been forgiven.'') 0 w row m of
               (row', m1) \<Rightarrow> (Some row', shown (PlayedKit (ft_guid victim) DEATH_KIT)
                  (m1\<lparr>im_revives := im_revives m1 @ [(ft_guid victim, ft_at victim)]\<rparr>))))"
      unfolding death_row_def Let_def w_def [symmetric] using 2 by simp
    then show ?thesis
      using run lit [OF won] concluded_handled [OF won] 2 by (simp add: case_prod_beta split: if_split_asm)
  next
    case 3
    then show ?thesis using run by (auto simp: death_row_def handled_same)
  qed
qed

text \<open>A player who logs out is still known to the server.\<close>

definition online :: "scene \<Rightarrow> fighter \<Rightarrow> bool" where
  "online sc f \<longleftrightarrow> FindPlayerNotInWorld sc (ft_guid f) = Some f \<and> (ft_inWorld f \<or> ft_beingTeleported f)"

lemma logout_row_handled:
  assumes "online sc player" and run: "logout_row sc player row m = (kept, m')"
  shows "handled sc row kept m m'"
proof (cases "iv_invader row = ft_guid player")
  case True
  let ?d = "FindPlayer sc (iv_defender row)"
  let ?m1 = "shown (Teleported (ft_guid player) (iv_origin row)) m"
  have kept: "kept = None" "m' = ResendPlayerFlags ?d (RecordMatch row 0 (HideRadar ?d
      (Tell ?d ''Your forgiver has left this world.'' ?m1)))"
    using run True by (simp_all add: logout_row_def Let_def)
  have here: "\<not> vanished sc row" using assms(1) True by (auto simp: vanished_def online_def)
  have sp: "speaks (permitted row) sc m m'" "speaks (permitted row) sc m ?m1" "speaks (permitted row) sc ?m1 m'"
    using True unfolding kept(2) by (auto intro!: speaks_rules speaks_refl)
  have "since m ?m1 = [Teleported (iv_invader row) (iv_origin row)]" using True by (simp add: since_def shown_def)
  then have "goes_home row (since m m')" using since_trans [OF sp(2,3)] by (simp add: goes_home_def)
  moreover have "results m' = results m @ (if iv_phase row = PHASE_FIGHTING then [sides row] else [])"
    by (simp add: kept(2))
  ultimately show ?thesis using sp(1) here kept(1) by (simp add: handled_def)
next
  case False
  have "concluded sc row (fst (Conclude sc l1 l2 0 0 (row\<lparr>iv_leaveKit := k\<rparr>) m)) m
      (snd (Conclude sc l1 l2 0 0 (row\<lparr>iv_leaveKit := k\<rparr>) m))" for l1 l2 k
    by (rule concludedI) (simp_all add: same_match_def speaks_refl)
  with False show ?thesis
    using run concluded_handled by (auto simp: logout_row_def Let_def case_prod_beta handled_same split: if_split_asm)
qed

text \<open>The test of \<open>OnPlayerLogout\<close>, with the player still known.\<close>

definition leaving_players :: "scene \<Rightarrow> fighter \<Rightarrow> Invasion \<Rightarrow> bool" where
  "leaving_players sc player row \<longleftrightarrow> online sc player \<and> involves (ft_guid player) row"

subsection \<open>Steps of the invasions\<close>

inductive invasion_step :: "scene \<Rightarrow> InvasionManager \<Rightarrow> InvasionManager \<Rightarrow> bool" for sc where
  sigil: "ItemUse_item_invasion_sigil sc player m = (m', answered) \<Longrightarrow> invasion_step sc m m'"
| search: "BeginInvasion sc invader m = (m', begun) \<Longrightarrow> invasion_step sc m m'"
| death: "OnPlayerDeath sc victim killer m = m' \<Longrightarrow> invasion_step sc m m'"
| logout: "online sc player \<Longrightarrow> OnPlayerLogout sc player m = (m', moved) \<Longrightarrow> invasion_step sc m m'"
| release: "OnReleaseSpirit player m = (m', stays) \<Longrightarrow> invasion_step sc m m'"
| clock: "Update sc diff m = m' \<Longrightarrow> invasion_step sc m m'"

interpretation logout: match_handler sc "logout_row sc player" "leaving_players sc player" for sc player
  by unfold_locales (auto simp: leaving_players_def intro: logout_row_handled)

text \<open>Effects without a place or a result: words, kits, flags.\<close>

definition words :: "invasion_effect \<Rightarrow> bool" where
  "words e = (case e of Teleported g s \<Rightarrow> False | MatchRow a b w \<Rightarrow> False | Resurrected g \<Rightarrow> False | _ \<Rightarrow> True)"

text \<open>
  What a step can be: a pass over the rows; words alone; or words and a new match at the end, between
  two players in no match.
\<close>

definition row_pass :: "scene \<Rightarrow> InvasionManager \<Rightarrow> InvasionManager \<Rightarrow> bool" where
  "row_pass sc m m' \<longleftrightarrow>
     (\<exists>m0 m1. handled_rows sc (im_invasions m) (im_invasions m') m0 m1
        \<and> im_trace m0 = im_trace m \<and> im_respite m0 = im_respite m
        \<and> im_trace m' = im_trace m1 \<and> im_respite m' = im_respite m1)"

definition only_words :: "scene \<Rightarrow> InvasionManager \<Rightarrow> InvasionManager \<Rightarrow> bool" where
  "only_words sc m m' \<longleftrightarrow>
     im_trace m' = im_trace m @ since m m' \<and> list_all words (since m m')
     \<and> im_respite m' \<in> {im_respite m, im_respite (prune_respite sc m)}"

definition new_match :: "scene \<Rightarrow> Invasion \<Rightarrow> InvasionManager \<Rightarrow> InvasionManager \<Rightarrow> bool" where
  "new_match sc row m m' \<longleftrightarrow>
     only_words sc m m' \<and> im_invasions m' = im_invasions m @ [row] \<and> iv_phase row = PHASE_STALKING
     \<and> iv_invader row \<noteq> iv_defender row \<and> \<not> IsInvolved m (iv_invader row) \<and> \<not> IsInvolved m (iv_defender row)"

lemma speaks_words:
  assumes "speaks words sc m m'" and "im_respite m' = im_respite m"
  shows "only_words sc m m'"
  using speaks_since [OF assms(1)] assms(2) by (simp add: only_words_def)

lemma words_simps [simp]: "words (Told g t)" "words (Flagged g)"
  by (simp_all add: words_def)

lemma shown_fields [simp]: "im_invasions (shown e m) = im_invasions m" "im_respite (shown e m) = im_respite m"
  "im_revives (shown e m) = im_revives m" "im_trace (shown e m) = im_trace m @ [e]"
  by (simp_all add: shown_def)

lemma Tell_fields [simp]: "im_invasions (Tell p t m) = im_invasions m" "im_respite (Tell p t m) = im_respite m"
  by (simp_all add: Tell_def to_heard_def split: option.split)

lemma Tell_words: "\<exists>es. im_trace (Tell p t m) = im_trace m @ es \<and> list_all words es"
  by (simp add: Tell_def to_heard_def split: option.split)

definition talks :: "InvasionManager \<Rightarrow> InvasionManager \<Rightarrow> bool" where
  "talks m m' \<longleftrightarrow> (\<exists>es. im_trace m' = im_trace m @ es \<and> list_all words es)"

lemma talks_rules: "talks m m" "talks m m' \<Longrightarrow> talks m (Tell p t m')" "talks m m' \<Longrightarrow> talks m (shown (Flagged g) m')"
  "talks m m' \<Longrightarrow> talks m (m'\<lparr>im_invasions := rows\<rparr>)" "talks m m' \<Longrightarrow> talks m (m'\<lparr>im_revives := rs\<rparr>)"
  "talks m m' \<Longrightarrow> talks m (m'\<lparr>im_respite := rp\<rparr>)"
  using Tell_words [of p t m'] by (auto simp: talks_def)

lemma talks_words: "talks m m' \<Longrightarrow> im_respite m' \<in> {im_respite m, im_respite (prune_respite sc m)} \<Longrightarrow> only_words sc m m'"
  by (auto simp: talks_def only_words_def since_def)

lemma prune_fields [simp]: "im_invasions (prune_respite sc m) = im_invasions m" "im_trace (prune_respite sc m) = im_trace m"
  "im_revives (prune_respite sc m) = im_revives m"
  by (simp_all add: prune_respite_def)

lemma CanBeginInvasion_talks:
  assumes "CanBeginInvasion sc f m = (m', b)"
  shows "only_words sc m m'" and "im_invasions m' = im_invasions m"
    and "b \<Longrightarrow> m' = prune_respite sc m \<and> invade_refusal sc m f = None"
proof -
  have same: "invade_refusal sc (prune_respite sc m) f = invade_refusal sc m f"
    by (simp add: invade_refusal_def IsInvolved_def)
  have t: "talks m (prune_respite sc m)" "talks m (Tell p t (prune_respite sc m))" for p t
    by (simp_all add: prune_respite_def talks_rules)
  show "only_words sc m m'" "im_invasions m' = im_invasions m"
    and "b \<Longrightarrow> m' = prune_respite sc m \<and> invade_refusal sc m f = None"
    using assms t by (auto simp: CanBeginInvasion_def CanInvadeFrom_def same split: option.split_asm intro!: talks_words)
qed

lemma PickDefender_Some:
  assumes "PickDefender sc m f = Some d"
  shows "d \<in> set (sc_players sc) \<and> IsValidDefender sc f d \<and> \<not> IsInvolved m (ft_guid d) \<and> \<not> HasRespite sc m (ft_guid d)"
proof -
  let ?c = "invasion_candidates sc m f"
  from assms have "?c \<noteq> []" "d = ?c ! (sc_draw sc mod length ?c)"
    by (auto simp: PickDefender_def Let_def split: if_split_asm)
  then have "d \<in> set ?c" by simp
  then show ?thesis by (simp add: invasion_candidates_def)
qed

lemma BeginInvasion_cases:
  assumes "BeginInvasion sc f m = (m', b)"
  shows "\<not> b \<and> only_words sc m m' \<and> im_invasions m' = im_invasions m
    \<or> b \<and> (\<exists>d. PickDefender sc (prune_respite sc m) f = Some d \<and> new_match sc (new_invasion sc f d) m m')"
proof -
  obtain m1 can where ask: "CanBeginInvasion sc f m = (m1, can)" by force
  note quiet = CanBeginInvasion_talks [OF ask]
  show ?thesis
  proof (cases can)
    case False
    with assms ask quiet show ?thesis by (simp add: BeginInvasion_def)
  next
    case True
    then have m1: "m1 = prune_respite sc m" and free: "\<not> IsInvolved m (ft_guid f)"
      using quiet(3) by (auto simp: invade_refusal_def split: if_split_asm)
    have t: "talks m m1" by (simp add: m1 prune_respite_def talks_rules)
    show ?thesis
    proof (cases "PickDefender sc m1 f")
      case None
      then have "m' = Tell (Some f) ''No soul here is ready to be forgiven.'' m1" "\<not> b"
        using assms ask True by (simp_all add: BeginInvasion_def)
      with t m1 show ?thesis by (auto intro!: talks_words talks_rules)
    next
      case (Some d)
      have d: "\<not> IsInvolved m (ft_guid d)" "ft_guid d \<noteq> ft_guid f"
        using PickDefender_Some [OF Some] by (simp_all add: IsInvolved_def m1 IsValidDefender_def)
      have flag: "talks m (hold_flag s x)" "im_respite (hold_flag s x) = im_respite x"
        "im_invasions (hold_flag s x) = im_invasions x" if "talks m x" for s x
        using that by (simp_all add: hold_flag_def talks_rules)
      let ?m2 = "if ft_pvp f then m1 else Tell (Some f) ''You are flagged for war.'' (shown (Flagged (ft_guid f)) m1)"
      have t2: "talks m ?m2" "im_respite ?m2 = im_respite m1" "im_invasions ?m2 = im_invasions m"
        using t by (simp_all add: talks_rules m1)
      have t3: "talks m (hold_flag d (hold_flag f ?m2))" "im_respite (hold_flag d (hold_flag f ?m2)) = im_respite m1"
        "im_invasions (hold_flag d (hold_flag f ?m2)) = im_invasions m"
        using flag(1) [OF flag(1) [OF t2(1)]] flag(2,3) [OF t2(1)] flag(2,3) [OF flag(1) [OF t2(1)]] t2 by simp_all
      have "b" and m': "m' = Tell (Some f) (''You go to forgive '' @ ft_name d @ ''.'')
          (Tell (Some d) ''Something has come to forgive you.''
            ((hold_flag d (hold_flag f ?m2))\<lparr>im_invasions := im_invasions m @ [new_invasion sc f d]\<rparr>))"
        using assms ask True Some t3(3) by (simp_all add: BeginInvasion_def Let_def)
      have "only_words sc m m'"
        unfolding m' using t3(1,2) m1 by (intro talks_words talks_rules) simp_all
      then have "new_match sc (new_invasion sc f d) m m'"
        using d free by (simp add: new_match_def m' new_invasion_def)
      with \<open>b\<close> Some m1 show ?thesis by blast
    qed
  qed
qed

subsection \<open>What follows for every step\<close>

lemma Update_pass: "row_pass sc m (Update sc diff m)"
proof -
  let ?m0 = "UpdateRevives sc m"
  obtain rows m2 where run: "each_row (tick sc diff) (im_invasions m) ?m0 = (rows, m2)" by force
  have "handled_rows sc (im_invasions m) rows ?m0 m2"
    by (rule clock.each_row_handles [OF _ run]) (simp add: list_all_iff)
  moreover have "Update sc diff m = m2\<lparr>im_invasions := rows\<rparr>" using run by (simp add: Update_def UpdateRevives_def)
  moreover have "im_trace ?m0 = im_trace m" "im_respite ?m0 = im_respite m" by (simp_all add: UpdateRevives_def)
  ultimately show ?thesis unfolding row_pass_def by force
qed

context match_handler
begin

lemma at_row_pass: "row_pass sc m (at_row takes body m)"
  using at_row_handles [of m] unfolding row_pass_def by force

end

lemma step_cases:
  assumes "invasion_step sc m m'"
  obtains (pass) "row_pass sc m m'"
    | (quiet) "only_words sc m m'" "im_invasions m' = im_invasions m"
    | (begun) invader d where "new_match sc (new_invasion sc invader d) m m'" "PickDefender sc (prune_respite sc m) invader = Some d"
  using assms
proof cases
  case (sigil player answered)
  obtain m1 used where w: "Withdraw sc player m = (m1, used)" by force
  show ?thesis
  proof (cases used)
    case True
    with sigil w have "m' = at_row (\<lambda>row. iv_invader row = ft_guid player) (withdraw_row sc player) m"
      by (simp add: ItemUse_item_invasion_sigil_def Withdraw_def)
    with withdrawal.at_row_pass show ?thesis by (intro pass) simp
  next
    case False
    then have "List.extract (\<lambda>row. iv_invader row = ft_guid player) (im_invasions m) = None"
      using w by (auto simp: Withdraw_def IsInvading_def list_ex_iff extract_None_iff)
    then have "m1 = m" using w by (simp add: Withdraw_def at_row_def)
    with sigil w False have "\<exists>can. CanBeginInvasion sc player m = (m', can)"
      by (auto simp: ItemUse_item_invasion_sigil_def split: prod.split_asm)
    then show ?thesis using CanBeginInvasion_talks quiet by blast
  qed
next
  case (search invader begun)
  then show ?thesis using BeginInvasion_cases [of sc invader m m' begun] quiet begun by blast
next
  case (death victim killer)
  then show ?thesis using death.at_row_pass [of sc m victim killer] pass by (simp add: OnPlayerDeath_def)
next
  case (logout player moved)
  then have "leaving_players sc player = involves (ft_guid player)" by (simp add: leaving_players_def fun_eq_iff)
  with logout show ?thesis
    using logout.at_row_pass [of sc m player] pass by (simp add: OnPlayerLogout_def)
next
  case (release player stays)
  have "im_invasions m' = im_invasions m" "im_respite m' = im_respite m" "talks m m'"
    using release by (auto simp: OnReleaseSpirit_def talks_rules split: option.split_asm prod.split_asm)
  then show ?thesis using quiet talks_words by simp
next
  case (clock diff)
  then show ?thesis using Update_pass pass by blast
qed

definition players_of :: "Invasion list \<Rightarrow> u32 list" where
  "players_of rows = concat (map (\<lambda>row. [iv_invader row, iv_defender row]) rows)"

lemma players_of_simps [simp]: "players_of [] = []"
  "players_of (row # rows) = iv_invader row # iv_defender row # players_of rows"
  "players_of (rows @ tail) = players_of rows @ players_of tail"
  by (simp_all add: players_of_def)

lemma players_of_involved: "g \<in> set (players_of (im_invasions m)) \<longleftrightarrow> IsInvolved m g"
  by (induction "im_invasions m" arbitrary: m rule: list.induct)
    (auto simp: IsInvolved_def involves_def players_of_def list_ex_iff)

lemma in_players_of: "row \<in> set rows \<Longrightarrow> iv_invader row \<in> set (players_of rows) \<and> iv_defender row \<in> set (players_of rows)"
  by (auto simp: players_of_def)

lemma handled_kept: "handled sc row kept m m' \<Longrightarrow> row' \<in> set (kept_rows kept) \<Longrightarrow> same_match row row'"
  by (auto simp: handled_def kept_rows_def split: option.split_asm)

lemma handled_rows_players:
  assumes "handled_rows sc rows rows' m m'"
  shows "set (players_of rows') \<subseteq> set (players_of rows) \<and> (distinct (players_of rows) \<longrightarrow> distinct (players_of rows'))"
  using assms
proof induction
  case (one_row row kept m m1 rows rows' m2)
  show ?case
  proof (cases kept)
    case None
    then show ?thesis using one_row.IH by (auto simp: kept_rows_def)
  next
    case (Some r)
    have "iv_invader r = iv_invader row" "iv_defender r = iv_defender row"
      using one_row(1) Some by (simp_all add: handled_def same_match_def sides_def)
    with Some show ?thesis using one_row.IH by (auto simp: kept_rows_def)
  qed
qed simp

lemma handled_rows_effects:
  assumes "handled_rows sc rows rows' m m'"
  shows "speaks (\<lambda>e. list_ex (\<lambda>row. permitted row e) rows) sc m m'"
  using assms
proof induction
  case (one_row row kept m m1 rows rows' m2)
  have "speaks (\<lambda>e. list_ex (\<lambda>row. permitted row e) (row # rows)) sc m m1"
    by (rule speaks_weaken [of "permitted row"]) (use one_row(1) in \<open>simp_all add: handled_def\<close>)
  moreover have "speaks (\<lambda>e. list_ex (\<lambda>row. permitted row e) (row # rows)) sc m1 m2"
    using one_row.IH by (rule speaks_weaken) simp
  ultimately show ?case by (rule speaks_trans)
qed (rule speaks_refl)

lemma handled_rows_stem:
  assumes "handled_rows sc rows rows' m m'" and "row' \<in> set rows'"
  obtains row where "row \<in> set rows" "same_match row row'"
    and "iv_phase row' = PHASE_STALKING \<Longrightarrow> iv_phase row = PHASE_STALKING"
    and "iv_phase row' = PHASE_FIGHTING \<Longrightarrow> iv_phase row \<in> {PHASE_STALKING, PHASE_FIGHTING}"
  using assms
proof (induction arbitrary: thesis)
  case (one_row row kept m m1 rows rows' m2)
  show ?case
  proof (cases "row' \<in> set rows'")
    case True
    then show ?thesis using one_row.IH one_row.prems(1) by (metis list.set_intros(2))
  next
    case False
    with one_row.prems(2) have "kept = Some row'" by (auto simp: kept_rows_def split: option.split_asm)
    with one_row(1) show ?thesis by (intro one_row.prems(1) [of row]) (simp_all add: handled_def)
  qed
qed simp

end
