(* ===== verification/InvasionRuns.thy ===== *)
theory InvasionRuns
  imports InvasionRules
begin

section \<open>Runs of the invasions\<close>

text \<open>
  What holds along any sequence of steps: no player is in two matches, only invaders are moved and are
  sent home, who is hunted is fair game and keeps his respite afterwards, results are written once, and
  every match ends within its settings; and the death that was meant to count for nothing.
\<close>

subsection \<open>Every step\<close>

lemma only_wordsD:
  assumes "only_words sc m m'" and "e \<in> set (since m m')"
  shows "words e"
  using assms by (auto simp: only_words_def list_all_iff)

lemma results_append: "im_trace m' = im_trace m @ es \<Longrightarrow> list_all words es \<Longrightarrow> results m' = results m"
  by (auto simp: results_def List.map_filter_def words_def list_all_iff filter_empty_conv split: invasion_effect.splits)

lemma only_words_results: "only_words sc m m' \<Longrightarrow> results m' = results m"
  by (auto simp: only_words_def intro: results_append)

lemma handled_rows_home:
  assumes "handled_rows sc rows rows' m m'" and "row \<in> set rows"
    and "iv_phase row \<in> {PHASE_FIGHTING, PHASE_LEAVING}"
  shows "(\<exists>row' \<in> set rows'. same_match row row' \<and> iv_phase row' \<in> {PHASE_FIGHTING, PHASE_LEAVING})
    \<or> vanished sc row \<or> goes_home row (since m m')"
  using assms
proof induction
  case (one_row first kept m m1 rows rows' m2)
  have split: "since m m2 = since m m1 @ since m1 m2"
    using since_trans handled_rows_effects [OF one_row(2)] one_row(1) by (auto simp: handled_def)
  show ?case
  proof (cases "row = first")
    case True
    with one_row(1) one_row.prems(2) split show ?thesis
      by (cases kept) (auto simp: handled_def kept_rows_def goes_home_def)
  next
    case False
    with one_row split show ?thesis by (auto simp: goes_home_def)
  qed
qed simp

definition over :: "scene \<Rightarrow> Invasion list \<Rightarrow> Invasion \<Rightarrow> bool" where
  "over sc rows' row \<longleftrightarrow>
     iv_phase row = PHASE_FIGHTING \<and> \<not> list_ex (\<lambda>r. iv_phase r = PHASE_FIGHTING \<and> sides r = sides row) rows'
     \<and> (vanished sc row \<longrightarrow> list_ex (\<lambda>r. sides r = sides row) rows')"

lemma over_cong:
  assumes "\<And>r. r \<in> set xs \<Longrightarrow> sides r \<noteq> sides row"
  shows "over sc (xs @ rows') row = over sc rows' row" and "over sc (rows' @ xs) row = over sc rows' row"
  using assms by (auto simp: over_def list_ex_iff)

lemma handled_rows_results:
  assumes "handled_rows sc rows rows' m m'" and "distinct (players_of rows)"
  shows "results m' = results m @ map sides (filter (over sc rows') rows)"
  using assms
proof induction
  case (one_row row kept m m1 rows rows' m2)
  have kept: "sides r = sides row" if "r \<in> set (kept_rows kept)" for r
    using handled_kept [OF one_row(1) that] by (simp add: same_match_def)
  have apart: "sides r \<noteq> sides row" if "r \<in> set rows \<union> set rows'" for r
    using that one_row.prems in_players_of [of r rows] in_players_of [of r rows'] handled_rows_players [OF one_row(2)]
    by (auto simp: sides_def)
  have "filter (over sc (kept_rows kept @ rows')) rows = filter (over sc rows') rows"
    using kept apart by (intro filter_cong refl over_cong(1)) (metis UnCI)
  moreover have "over sc (kept_rows kept @ rows') row = over sc (kept_rows kept) row"
    using apart by (intro over_cong(2)) blast
  moreover have "results m1 = results m @ (if over sc (kept_rows kept) row then [sides row] else [])"
    using one_row(1) kept by (auto simp: handled_def kept_rows_def over_def split: option.split_asm)
  ultimately show ?case using one_row by simp
qed simp

lemma row_pass_results:
  assumes "row_pass sc m m'" and "distinct (players_of (im_invasions m))"
  shows "results m' = results m @ map sides (filter (over sc (im_invasions m')) (im_invasions m))"
proof -
  obtain m0 m1 where h: "handled_rows sc (im_invasions m) (im_invasions m') m0 m1"
    and t: "im_trace m0 = im_trace m" "im_trace m' = im_trace m1"
    using assms(1) unfolding row_pass_def by blast
  have "results m0 = results m" "results m' = results m1" using t by (simp_all add: results_def)
  with handled_rows_results [OF h assms(2)] show ?thesis by simp
qed

lemma row_pass_since:
  assumes "row_pass sc m m'"
  obtains m0 m1 where "handled_rows sc (im_invasions m) (im_invasions m') m0 m1" and "since m m' = since m0 m1"
    and "im_respite m0 = im_respite m" and "im_respite m' = im_respite m1"
  using assms unfolding row_pass_def since_def by metis

definition fresh_invasions :: InvasionManager where
  "fresh_invasions = \<lparr>im_invasions = [], im_revives = [], im_respite = [], im_trace = []\<rparr>"

lemma step_players:
  assumes "invasion_step sc m m'" and "distinct (players_of (im_invasions m))"
  shows "distinct (players_of (im_invasions m'))"
  using assms(1)
proof (cases rule: step_cases)
  case pass
  then show ?thesis using handled_rows_players assms(2) by (auto elim: row_pass_since)
next
  case quiet
  with assms(2) show ?thesis by simp
next
  case (begun invader d)
  then show ?thesis using assms(2) by (auto simp: new_match_def simp flip: players_of_involved)
qed

lemma reachable_players:
  assumes "(\<lambda>m m'. \<exists>sc. invasion_step sc m m')\<^sup>*\<^sup>* fresh_invasions m"
  shows "distinct (players_of (im_invasions m))"
  using assms
proof (induction rule: rtranclp_induct)
  case base
  then show ?case by (simp add: fresh_invasions_def)
next
  case (step m m')
  then show ?case using step_players by blast
qed


text \<open>
  C17: nobody is in two invasions. However the sigil is used, players die, log out and release, and the
  clock ticks, no player is on two sides of the matches under way, in one match or in several.
\<close>

theorem one_match_each:
  assumes "(\<lambda>m m'. \<exists>sc. invasion_step sc m m')\<^sup>*\<^sup>* fresh_invasions m"
  shows "distinct (players_of (im_invasions m))"
  by (rule reachable_players [OF assms])

lemma handled_rows_member:
  assumes "handled_rows sc rows rows' m m'" and "row' \<in> set rows'"
  shows "\<exists>row n kept n1. row \<in> set rows \<and> handled sc row kept n n1 \<and> row' \<in> set (kept_rows kept)"
  using assms
proof induction
  case (one_row row kept m m1 rows rows' m2)
  show ?case
  proof (cases "row' \<in> set rows'")
    case True
    then show ?thesis using one_row.IH by (meson list.set_intros(2))
  next
    case False
    with one_row.prems have "row' \<in> set (kept_rows kept)" by simp
    with one_row(1) show ?thesis by (meson list.set_intros(1))
  qed
qed simp

lemma FindPlayer_set: "FindPlayer sc g = Some f \<Longrightarrow> f \<in> set (sc_players sc)"
  by (auto simp: FindPlayer_def FindPlayerNotInWorld_def find_Some_iff split: option.split_asm if_split_asm)

lemma pruned_live:
  assumes "sm_find (im_respite m) d = Some until" and "sc_now sc < until"
  shows "sm_find (im_respite (prune_respite sc m)) d = Some until"
proof -
  have "sm_find xs d = Some until \<Longrightarrow> sm_find (filter (\<lambda>r. \<not> snd r \<le> sc_now sc) xs) d = Some until" for xs
    using assms(2) by (induction xs) (auto split: if_split_asm)
  with assms(1) show ?thesis by (simp add: prune_respite_def)
qed

lemma HasRespite_pruned: "HasRespite sc m d \<Longrightarrow> HasRespite sc (prune_respite sc m) d"
  using pruned_live by (auto simp: HasRespite_def split: option.split_asm)


lemma players_of_inj:
  assumes "distinct (players_of rows)" and "r \<in> set rows" and "s \<in> set rows" and "iv_invader r = iv_invader s"
  shows "r = s"
  using assms by (induction rows) (auto dest: in_players_of)

lemma same_player:
  assumes "distinct (players_of rows)" and "r \<in> set rows" and "s \<in> set rows" and "involves g r" and "involves g s"
  shows "r = s"
  using assms by (induction rows) (auto simp: involves_def dest: in_players_of)

text \<open>A moment no earlier than another and before the respite stamped there is over, under the same setting.\<close>

definition within_respite :: "scene \<Rightarrow> scene \<Rightarrow> bool" where
  "within_respite sc0 sc \<longleftrightarrow>
     sc_now sc0 \<le> sc_now sc \<and> sc_now sc < sc_now sc0 + unat (sc_respite sc0) \<and> sc_respite sc = sc_respite sc0"

lemma step_goes_home:
  assumes "invasion_step sc m m'" and "row \<in> set (im_invasions m)" and "iv_phase row \<in> {PHASE_FIGHTING, PHASE_LEAVING}"
    and "\<not> vanished sc row"
  shows "list_ex (\<lambda>row'. same_match row row' \<and> iv_phase row' \<in> {PHASE_FIGHTING, PHASE_LEAVING}) (im_invasions m')
    \<or> goes_home row (since m m')"
  using assms(1)
proof (cases rule: step_cases)
  case pass
  then obtain m0 m1 where h: "handled_rows sc (im_invasions m) (im_invasions m') m0 m1" and s: "since m m' = since m0 m1"
    by (rule row_pass_since)
  show ?thesis using handled_rows_home [OF h assms(2,3)] assms(4) s by (auto simp: list_ex_iff)
next
  case quiet
  with assms show ?thesis by (auto simp: list_ex_iff same_match_def)
next
  case (begun invader d)
  with assms show ?thesis by (auto simp: new_match_def list_ex_iff same_match_def)
qed

text \<open>
  C15: nobody is stranded. Whatever ends a match whose invader has been landed, and whoever dies, leaves
  or withdraws, the step that ends it sends the invader back to the spot the sigil was used from; the
  only other end is that the server no longer knows him.
\<close>

theorem nobody_is_stranded:
  assumes "invasion_step sc m m'" and "row \<in> set (im_invasions m)" and "iv_phase row \<in> {PHASE_FIGHTING, PHASE_LEAVING}"
    and "\<not> vanished sc row"
  shows "list_ex (\<lambda>row'. same_match row row' \<and> iv_phase row' \<in> {PHASE_FIGHTING, PHASE_LEAVING}) (im_invasions m')
    \<or> goes_home row (since m m')"
  by (rule step_goes_home [OF assms])

text \<open>
  only the invader is ever moved. A step that moves a player moves the invader of a match under
  way: home to his own origin, or, while the match is only a warning, to where he arrives.
\<close>

theorem only_the_invader_moves:
  assumes "invasion_step sc m m'" and "Teleported guid spot \<in> set (since m m')"
  shows "\<exists>row \<in> set (im_invasions m). iv_invader row = guid
    \<and> (iv_phase row = PHASE_STALKING \<or> spot = iv_origin row)"
  using assms(1)
proof (cases rule: step_cases)
  case pass
  then obtain m0 m1 where h: "handled_rows sc (im_invasions m) (im_invasions m') m0 m1" and s: "since m m' = since m0 m1"
    by (rule row_pass_since)
  have "list_ex (\<lambda>row. permitted row (Teleported guid spot)) (im_invasions m)"
    using speaks_since(2) [OF handled_rows_effects [OF h]] assms(2) s by (auto simp: list_all_iff)
  then show ?thesis by (auto simp: list_ex_iff)
next
  case quiet
  then show ?thesis using only_wordsD [OF _ assms(2)] by (auto simp: words_def)
next
  case (begun invader d)
  then show ?thesis using only_wordsD [OF _ assms(2)] by (auto simp: words_def new_match_def)
qed



subsection \<open>Respite\<close>

lemma step_respite:
  assumes "invasion_step sc m m'" and "sm_find (im_respite m) d = Some until" and "sc_now sc < until"
  shows "sm_find (im_respite m') d \<in> {Some until, Some (sc_now sc + unat (sc_respite sc))}"
  using assms(1)
proof (cases rule: step_cases)
  case pass
  then obtain m0 m1 where h: "handled_rows sc (im_invasions m) (im_invasions m') m0 m1"
    and r: "im_respite m0 = im_respite m" "im_respite m' = im_respite m1" by (rule row_pass_since)
  have "sm_find (im_respite m1) d \<in> {sm_find (im_respite m0) d, Some (sc_now sc + unat (sc_respite sc))}"
    using handled_rows_effects [OF h] by (simp add: speaks_def)
  then show ?thesis using r assms(2) by simp
next
  case quiet
  with pruned_live [of m d until sc, OF assms(2,3)] assms(2) show ?thesis by (auto simp: only_words_def)
next
  case (begun invader e)
  with pruned_live [of m d until sc, OF assms(2,3)] assms(2) show ?thesis by (auto simp: new_match_def only_words_def)
qed

lemma handled_rows_granted:
  assumes "handled_rows sc rows rows' m m'" and "distinct (players_of rows)" and "row \<in> set rows"
    and "row' \<in> set rows'" and "same_match row row'"
    and "(iv_phase row, iv_phase row') \<in> {(PHASE_STALKING, PHASE_FIGHTING), (PHASE_FIGHTING, PHASE_LEAVING)}"
  shows "granted sc (iv_defender row) m'"
  using assms
proof induction
  case (one_row first kept m m1 rows rows' m2)
  note inv = same_matchD(1) [OF one_row.prems(4)]
  have later: "iv_invader row' \<in> set (players_of rows)" if "row' \<in> set rows'"
    using that in_players_of handled_rows_players [OF one_row(2)] by blast
  have now: "iv_invader row' = iv_invader first" if "row' \<in> set (kept_rows kept)"
    using handled_kept [OF one_row(1) that] by (rule same_matchD)
  show ?case
  proof (cases "row = first")
    case True
    then have "kept = Some row'"
      using one_row.prems(1,3) later inv by (auto simp: kept_rows_def split: option.split_asm)
    with one_row(1) True one_row.prems(5) have "granted sc (iv_defender row) m1" by (auto simp: handled_def)
    then show ?thesis by (rule granted_speaks [OF _ handled_rows_effects [OF one_row(2)]])
  next
    case False
    then have "row \<in> set rows" using one_row.prems(2) by simp
    moreover have "row' \<in> set rows'"
      using one_row.prems(1,3) now inv in_players_of [OF \<open>row \<in> set rows\<close>] by auto
    ultimately show ?thesis using one_row.IH one_row.prems by simp
  qed
qed simp

lemma step_grants:
  assumes "invasion_step sc m m'" and "distinct (players_of (im_invasions m))" and "row \<in> set (im_invasions m)"
    and "row' \<in> set (im_invasions m')" and "same_match row row'"
    and "(iv_phase row, iv_phase row') \<in> {(PHASE_STALKING, PHASE_FIGHTING), (PHASE_FIGHTING, PHASE_LEAVING)}"
  shows "granted sc (iv_defender row) m'"
proof -
  have apart: "r = row" if "r \<in> set (im_invasions m)" "iv_invader r = iv_invader row" for r
    by (rule players_of_inj [OF assms(2) that(1) assms(3) that(2)])
  have inv: "iv_invader row' = iv_invader row" by (rule same_matchD(1) [OF assms(5)])
  from assms(1) show ?thesis
  proof (cases rule: step_cases)
    case pass
    then obtain m0 m1 where h: "handled_rows sc (im_invasions m) (im_invasions m') m0 m1"
      and r: "im_respite m' = im_respite m1" by (rule row_pass_since)
    show ?thesis using handled_rows_granted [OF h assms(2-6)] r by (simp add: granted_def)
  next
    case quiet
    then have "row' = row" using apart [of row'] assms(4) inv by simp
    with assms(6) show ?thesis by auto
  next
    case (begun invader d)
    then have "row' = row \<or> row' = new_invasion sc invader d" using apart [of row'] assms(4) inv by (auto simp: new_match_def)
    moreover have "iv_phase (new_invasion sc invader d) = PHASE_STALKING" by (simp add: new_invasion_def)
    ultimately show ?thesis using assms(6) by auto
  qed
qed

text \<open>
  C31: a respite is kept. Once a player has been landed on, or a fight with him has ended, nobody can
  begin an invasion against him until the respite is over, however many invasions others begin and end
  in between.
\<close>

theorem respite_is_kept:
  assumes "(\<lambda>m m'. \<exists>sc. invasion_step sc m m')\<^sup>*\<^sup>* fresh_invasions m0" and "invasion_step sc0 m0 m1"
    and "row \<in> set (im_invasions m0)" and "row' \<in> set (im_invasions m1)" and "same_match row row'"
    and "(iv_phase row, iv_phase row') \<in> {(PHASE_STALKING, PHASE_FIGHTING), (PHASE_FIGHTING, PHASE_LEAVING)}"
    and "(\<lambda>m m'. \<exists>sc. within_respite sc0 sc \<and> invasion_step sc m m')\<^sup>*\<^sup>* m1 m2"
    and "within_respite sc0 sc" and "BeginInvasion sc invader m2 = (m3, True)"
  shows "iv_defender (last (im_invasions m3)) \<noteq> iv_defender row"
proof -
  let ?d = "iv_defender row" and ?over = "sc_now sc0 + unat (sc_respite sc0)"
  have "sc_respite sc0 \<noteq> 0" using assms(8) by (auto simp: within_respite_def)
  then have start: "sm_find (im_respite m1) ?d = Some ?over"
    using step_grants [OF assms(2) reachable_players [OF assms(1)] assms(3-6)] by (simp add: granted_def)
  from assms(7) have "\<exists>u \<ge> ?over. sm_find (im_respite m2) ?d = Some u"
  proof (induction rule: rtranclp_induct)
    case base
    from start show ?case by blast
  next
    case (step y z)
    then obtain sc1 u where "within_respite sc0 sc1" "invasion_step sc1 y z" "u \<ge> ?over" "sm_find (im_respite y) ?d = Some u"
      by blast
    then show ?case using step_respite [of sc1 y z ?d u] by (auto simp: within_respite_def)
  qed
  then have "HasRespite sc m2 ?d" using assms(8) by (auto simp: HasRespite_def within_respite_def)
  then have rest: "HasRespite sc (prune_respite sc m2) ?d" by (rule HasRespite_pruned)
  obtain d where "PickDefender sc (prune_respite sc m2) invader = Some d" "new_match sc (new_invasion sc invader d) m2 m3"
    using BeginInvasion_cases [OF assms(9)] by blast
  with rest PickDefender_Some show ?thesis by (fastforce simp: new_match_def new_invasion_def)
qed

subsection \<open>Every match ends\<close>

definition attended :: "scene \<Rightarrow> u32 \<Rightarrow> bool" where
  "attended sc guid \<longleftrightarrow>
     (case FindPlayerNotInWorld sc guid of None \<Rightarrow> False | Some f \<Rightarrow> ft_inWorld f \<and> \<not> ft_beingTeleported f)"

text \<open>
  The most milliseconds a match can have left, with the settings of \<open>sc\<close> and ticks of at most \<open>D\<close>: what is
  on its timer and the phases to come, and one tick for each change of phase.
\<close>

definition budget :: "scene \<Rightarrow> nat \<Rightarrow> Invasion \<Rightarrow> nat" where
  "budget sc D row =
     (let fight = unat (SecondsConfig (sc_duration sc)); ret = unat (SecondsConfig (sc_return sc));
          wake = unat (SecondsConfig (sc_revive sc))
      in unat (iv_timer row)
         + (case iv_phase row of
              PHASE_STALKING \<Rightarrow> fight + ret + wake + 3 * D | PHASE_FIGHTING \<Rightarrow> ret + wake + 2 * D
            | PHASE_LEAVING \<Rightarrow> wake + D | PHASE_REVIVING \<Rightarrow> 0))"

definition same_settings :: "scene \<Rightarrow> scene \<Rightarrow> bool" where
  "same_settings sc sc' \<longleftrightarrow>
     sc_duration sc' = sc_duration sc \<and> sc_return sc' = sc_return sc \<and> sc_revive sc' = sc_revive sc"

lemma count_down_unat: "unat (count_down diff t) = unat t - unat diff"
proof (cases "diff < t")
  case True
  then have "diff \<le> t" by simp
  then show ?thesis using True by (simp add: count_down_def unat_sub)
qed (simp add: count_down_def not_less word_le_nat_alt word_less_nat_alt)

lemma count_down_le: "unat (count_down diff t) \<le> unat t - unat diff"
  by (simp add: count_down_unat)

lemma count_down_past: "count_down diff t = 0 \<or> unat (count_down diff t) + unat diff = unat t"
proof (cases "unat diff < unat t")
  case True
  then show ?thesis by (simp add: count_down_unat)
next
  case False
  then have "unat (count_down diff t) = 0" by (simp add: count_down_unat)
  then show ?thesis by (simp only: unat_eq_0 simp_thms)
qed

lemma count_down_elapsed: "t \<le> diff \<Longrightarrow> count_down diff t = 0"
  by (auto simp: count_down_def)

lemma tick_budget:
  assumes "tick sc' diff row m = (Some row', m')" and "\<not> vanished sc' row" and "unat diff \<le> D" and "same_settings sc sc'"
  shows "budget sc D row' + (if attended sc' (iv_invader row) then unat diff else 0) \<le> budget sc D row"
proof -
  obtain f where f: "FindPlayerNotInWorld sc' (iv_invader row) = Some f" "ft_inWorld f \<or> ft_beingTeleported f"
    using assms(2) by (auto simp: vanished_def split: option.split_asm)
  show ?thesis
  proof (cases "ft_inWorld f")
    case False
    with f assms(1) have "row' = row" by (simp add: tick_def Let_def)
    with False f show ?thesis by (simp add: attended_def)
  next
    case True
    let ?row = "row\<lparr>iv_timer := count_down diff (iv_timer row)\<rparr>" and ?d = "FindPlayer sc' (iv_defender row)"
    note time = count_down_past [of diff "iv_timer row"] count_down_le [of diff "iv_timer row"]
    have settings: "sc_duration sc' = sc_duration sc" "sc_return sc' = sc_return sc" "sc_revive sc' = sc_revive sc"
      using assms(4) by (simp_all add: same_settings_def)
    show ?thesis
    proof (cases "iv_phase row")
      case PHASE_STALKING
      then have "tick_stalking sc' f ?d ?row m = (Some row', m')" using f True assms(1) by (simp add: tick_def Let_def)
      then consider "row' = ?row" "count_down diff (iv_timer row) \<noteq> 0"
        | "iv_phase row' = PHASE_FIGHTING" "iv_timer row' = SecondsConfig (sc_duration sc')"
        by (auto simp: tick_stalking_def Arrive_def Let_def case_prod_beta split: option.split_asm if_split_asm)
      then show ?thesis using PHASE_STALKING time assms(3) settings by cases (auto simp: budget_def Let_def)
    next
      case PHASE_FIGHTING
      then have "tick_fighting sc' diff f ?d ?row m = (row', m')"
        using f True assms(1) by (auto simp: tick_def Let_def split: prod.split_asm)
      then consider "iv_phase row' = PHASE_LEAVING" "iv_timer row' = SecondsConfig (sc_return sc')"
        | "iv_phase row' = PHASE_FIGHTING" "iv_timer row' = count_down diff (iv_timer row)" "count_down diff (iv_timer row) \<noteq> 0"
        using tick_fighting_step [of ?row, where sc = sc' and diff = diff and f = f and d = ?d and m = m] PHASE_FIGHTING
        by (auto simp: concluded_def fights_on_def)
      then show ?thesis using PHASE_FIGHTING time assms(3) settings by cases (auto simp: budget_def Let_def)
    next
      case PHASE_LEAVING
      then have "tick_leaving sc' f ?row m = (Some row', m')" using f True assms(1) by (simp add: tick_def Let_def)
      then consider "row' = ?row" "count_down diff (iv_timer row) \<noteq> 0"
        | "iv_phase row' = PHASE_REVIVING" "iv_timer row' = SecondsConfig (sc_revive sc')"
        by (auto simp: tick_leaving_def Let_def split: if_split_asm)
      then show ?thesis using PHASE_LEAVING time assms(3) settings by cases (auto simp: budget_def Let_def)
    next
      case PHASE_REVIVING
      then have "tick_reviving f ?row m = (Some row', m')" using f True assms(1) by (simp add: tick_def Let_def)
      then have "row' = ?row" "count_down diff (iv_timer row) \<noteq> 0 \<or> ft_beingTeleported f"
        by (auto simp: tick_reviving_def split: if_split_asm)
      then show ?thesis using PHASE_REVIVING time f(1) by (auto simp: budget_def Let_def attended_def)
    qed
  qed
qed

lemma each_row_kept:
  assumes "each_row body rows m = (rows', m')" and "row' \<in> set rows'"
  shows "\<exists>row m0 m1. row \<in> set rows \<and> body row m0 = (Some row', m1)"
  using assms
proof (induction rows arbitrary: rows' m)
  case (Cons row rows)
  obtain kept m1 where one: "body row m = (kept, m1)" by force
  obtain tail m2 where rest: "each_row body rows m1 = (tail, m2)" by force
  show ?case
  proof (cases "row' \<in> set tail")
    case True
    then show ?thesis using Cons.IH [of m1 tail] Cons.prems one rest by auto
  next
    case False
    with Cons.prems one rest have "kept = Some row'" by (auto split: option.split_asm)
    with one show ?thesis by auto
  qed
qed simp

lemma Update_kept:
  assumes "row' \<in> set (im_invasions (Update sc diff m))"
  shows "\<exists>row m0 m1. row \<in> set (im_invasions m) \<and> tick sc diff row m0 = (Some row', m1)"
  using assms each_row_kept [of "tick sc diff"]
  by (auto simp: Update_def UpdateRevives_def Let_def split: prod.split_asm)

lemma tick_same: "tick sc diff row m = (Some row', m') \<Longrightarrow> same_match row row'"
  using tick_step by (fastforce simp: handled_def)

lemma Update_invading: "IsInvading (Update sc diff m) g \<Longrightarrow> IsInvading m g"
  using Update_kept tick_same by (fastforce simp: IsInvading_def list_ex_iff dest: same_matchD)

abbreviation clock_run :: "(scene \<times> u32) list \<Rightarrow> InvasionManager \<Rightarrow> InvasionManager" where
  "clock_run \<equiv> fold (\<lambda>(sc, diff). Update sc diff)"

lemma clock_run_invading: "IsInvading (clock_run ticks m) g \<Longrightarrow> IsInvading m g"
  by (induction ticks arbitrary: m) (auto dest: Update_invading)

lemma row_pass_trace:
  assumes "row_pass sc m m'"
  shows "im_trace m' = im_trace m @ since m m'"
proof -
  obtain m0 m1 where h: "handled_rows sc (im_invasions m) (im_invasions m') m0 m1"
    and t: "im_trace m0 = im_trace m" "im_trace m' = im_trace m1" using assms unfolding row_pass_def by blast
  have "im_trace m1 = im_trace m0 @ since m0 m1" by (rule speaks_since(1) [OF handled_rows_effects [OF h]])
  moreover have "since m0 m1 = since m m'" by (simp add: since_def t)
  ultimately show ?thesis by (simp add: t)
qed

lemma Update_since: "im_trace (Update sc diff m) = im_trace m @ since m (Update sc diff m)"
  by (rule row_pass_trace [OF Update_pass])

lemma since_through:
  assumes "im_trace m1 = im_trace m @ since m m1" and "im_trace m2 = im_trace m1 @ since m1 m2"
  shows "im_trace m2 = im_trace m @ since m m2" and "since m m2 = since m m1 @ since m1 m2"
proof -
  have long: "im_trace m2 = im_trace m @ (since m m1 @ since m1 m2)" using assms by simp
  then show "since m m2 = since m m1 @ since m1 m2" by (simp add: since_def [of m m2])
  with long show "im_trace m2 = im_trace m @ since m m2" by simp
qed

lemma clock_run_since: "im_trace (clock_run ticks m) = im_trace m @ since m (clock_run ticks m)"
proof (induction ticks arbitrary: m)
  case (Cons t ticks)
  obtain sc diff where t: "t = (sc, diff)" by force
  show ?case unfolding t fold_simps(2) prod.case by (rule since_through(1) [OF Update_since Cons])
qed simp

lemma clock_run_players: "distinct (players_of (im_invasions m)) \<Longrightarrow> distinct (players_of (im_invasions (Update sc diff m)))"
  by (rule step_players [OF clock [OF refl]])

lemma goes_home_same: "same_match row row' \<Longrightarrow> goes_home row' es = goes_home row es"
  by (simp add: goes_home_def same_match_def sides_def)

lemma goes_home_append: "goes_home row (es @ fs) \<longleftrightarrow> goes_home row es \<or> goes_home row fs"
  by (auto simp: goes_home_def)

lemma invading_row: "IsInvading m g \<longleftrightarrow> (\<exists>row \<in> set (im_invasions m). iv_invader row = g)"
  by (simp add: IsInvading_def list_ex_iff)

definition watched :: "scene \<Rightarrow> nat \<Rightarrow> u32 \<Rightarrow> (scene \<times> u32) list \<Rightarrow> bool" where
  "watched sc D guid =
     list_all (\<lambda>(sc', diff). unat diff \<le> D \<and> same_settings sc sc'
        \<and> (case FindPlayerNotInWorld sc' guid of None \<Rightarrow> False | Some f \<Rightarrow> ft_inWorld f \<or> ft_beingTeleported f))"

lemma watched_Cons:
  "watched sc D guid ((sc', diff) # ticks) \<longleftrightarrow>
     unat diff \<le> D \<and> same_settings sc sc'
     \<and> (case FindPlayerNotInWorld sc' guid of None \<Rightarrow> False | Some f \<Rightarrow> ft_inWorld f \<or> ft_beingTeleported f)
     \<and> watched sc D guid ticks"
  by (simp add: watched_def)

definition time_attended :: "u32 \<Rightarrow> (scene \<times> u32) list \<Rightarrow> nat" where
  "time_attended guid ticks = (\<Sum>(sc', diff) \<leftarrow> ticks. if attended sc' guid then unat diff else 0)"

lemma clock_run_ends:
  assumes "distinct (players_of (im_invasions m))" and "row \<in> set (im_invasions m)"
    and "watched sc D (iv_invader row) ticks" and "budget sc D row < time_attended (iv_invader row) ticks"
  shows "\<not> IsInvading (clock_run ticks m) (iv_invader row)
    \<and> (iv_phase row \<in> {PHASE_FIGHTING, PHASE_LEAVING} \<longrightarrow> goes_home row (since m (clock_run ticks m)))"
  using assms
proof (induction ticks arbitrary: m row)
  case (Cons t ticks)
  obtain sc' diff where t: "t = (sc', diff)" by force
  let ?m1 = "Update sc' diff m" and ?m2 = "clock_run ticks (Update sc' diff m)" and ?g = "iv_invader row"
  have here: "\<not> vanished sc' row" "unat diff \<le> D" "same_settings sc sc'" "watched sc D ?g ticks"
    using Cons.prems(3) by (auto simp: t watched_Cons vanished_def split: option.split_asm)
  have split: "since m ?m2 = since m ?m1 @ since ?m1 ?m2"
    by (rule since_through(2) [OF Update_since clock_run_since])
  have step: "invasion_step sc' m ?m1" by (rule clock [OF refl])
  note home = step_goes_home [OF step Cons.prems(2) _ here(1)]
  show ?case
  proof (cases "IsInvading ?m1 ?g")
    case False
    then have "\<not> IsInvading ?m2 ?g" using clock_run_invading by blast
    moreover have "goes_home row (since m ?m1)" if "iv_phase row \<in> {PHASE_FIGHTING, PHASE_LEAVING}"
      using home [OF that] False by (auto simp: invading_row list_ex_iff dest: same_matchD)
    ultimately show ?thesis by (auto simp: t split goes_home_append)
  next
    case True
    then obtain row1 where row1: "row1 \<in> set (im_invasions ?m1)" "iv_invader row1 = ?g" by (auto simp: invading_row)
    then obtain r n0 n1 where r: "r \<in> set (im_invasions m)" "tick sc' diff r n0 = (Some row1, n1)"
      using Update_kept by blast
    have "iv_invader r = ?g" using tick_same [OF r(2)] row1(2) by (auto dest: same_matchD)
    then have "r = row" by (rule players_of_inj [OF Cons.prems(1) r(1) Cons.prems(2)])
    with r have tick: "tick sc' diff row n0 = (Some row1, n1)" by simp
    have same: "same_match row row1" by (rule tick_same [OF tick])
    have less: "budget sc D row1 < time_attended ?g ticks"
      using tick_budget [OF tick here(1-3)] Cons.prems(4) by (simp add: t time_attended_def split: if_split_asm)
    have IH: "\<not> IsInvading ?m2 ?g \<and> (iv_phase row1 \<in> {PHASE_FIGHTING, PHASE_LEAVING} \<longrightarrow> goes_home row1 (since ?m1 ?m2))"
      using Cons.IH [OF clock_run_players [OF Cons.prems(1)] row1(1)] here(4) less row1(2) by simp
    have "goes_home row (since m ?m1) \<or> goes_home row1 (since ?m1 ?m2)"
      if arrived: "iv_phase row \<in> {PHASE_FIGHTING, PHASE_LEAVING}"
    proof (cases "iv_phase row1 \<in> {PHASE_FIGHTING, PHASE_LEAVING}")
      case False
      have "r' = row1" if "r' \<in> set (im_invasions ?m1)" "same_match row r'" for r'
        by (rule players_of_inj [OF clock_run_players [OF Cons.prems(1)] that(1) row1(1)])
          (use that(2) row1(2) in \<open>simp add: same_matchD\<close>)
      with home [OF arrived] False show ?thesis by (auto simp: list_ex_iff)
    qed (use IH in simp)
    with IH show ?thesis by (auto simp: t split goes_home_append goes_home_same [OF same])
  qed
qed (simp add: time_attended_def)

text \<open>
  C5: every match ends, and the invader comes home. While the server knows the invader and the settings
  stay, a match under way is over once the clock has run, with him in the world, for what is left of its
  phase, the phases to come and three ticks more; and one that had landed him has sent him home.
\<close>

theorem every_match_ends:
  assumes "(\<lambda>m m'. \<exists>sc. invasion_step sc m m')\<^sup>*\<^sup>* fresh_invasions m" and "row \<in> set (im_invasions m)"
    and "watched sc D (iv_invader row) ticks" and "budget sc D row < time_attended (iv_invader row) ticks"
  shows "\<not> IsInvading (clock_run ticks m) (iv_invader row)
    \<and> (iv_phase row \<in> {PHASE_FIGHTING, PHASE_LEAVING} \<longrightarrow> goes_home row (since m (clock_run ticks m)))"
  by (rule clock_run_ends [OF reachable_players [OF assms(1)] assms(2-4)])

subsection \<open>A death that was to count for nothing\<close>

lemma each_row_at:
  assumes "each_row (tick sc diff) rows m = (rows', m')" and "row \<in> set rows"
  shows "\<exists>m0 kept m1. tick sc diff row m0 = (kept, m1) \<and> set (kept_rows kept) \<subseteq> set rows'
    \<and> set (since m0 m1) \<subseteq> set (since m m')"
  using assms
proof (induction rows arbitrary: m rows')
  case (Cons first rows)
  obtain kept m1 where one: "tick sc diff first m = (kept, m1)" by force
  obtain tail m2 where rest: "each_row (tick sc diff) rows m1 = (tail, m2)" by force
  have "speaks (permitted first) sc m m1" using tick_step [OF one] by (simp add: handled_def)
  moreover have "handled_rows sc rows tail m1 m2"
    by (rule clock.each_row_handles [OF _ rest]) (simp add: list_all_iff)
  ultimately have split: "since m m2 = since m m1 @ since m1 m2"
    by (rule since_trans [OF _ handled_rows_effects])
  have run: "rows' = kept_rows kept @ tail" "m' = m2" using Cons.prems(1) one rest by (auto simp: kept_rows_def)
  show ?case
  proof (cases "row = first")
    case True
    with one split run show ?thesis by fastforce
  next
    case False
    then have "row \<in> set rows" using Cons.prems(2) by simp
    with Cons.IH [of m1 tail] rest run split show ?thesis by fastforce
  qed
qed simp

lemma Update_at:
  assumes "row \<in> set (im_invasions m)"
  shows "\<exists>m0 kept m1. tick sc diff row m0 = (kept, m1) \<and> set (kept_rows kept) \<subseteq> set (im_invasions (Update sc diff m))
    \<and> set (since m0 m1) \<subseteq> set (since m (Update sc diff m))"
proof -
  obtain rows m2 where run: "each_row (tick sc diff) (im_invasions m) (UpdateRevives sc m) = (rows, m2)" by force
  have "Update sc diff m = m2\<lparr>im_invasions := rows\<rparr>" using run by (simp add: Update_def UpdateRevives_def)
  moreover have "since (UpdateRevives sc m) m2 = since m (m2\<lparr>im_invasions := rows\<rparr>)"
    by (simp add: since_def UpdateRevives_def)
  ultimately show ?thesis using each_row_at [OF run assms] by simp
qed

text \<open>
  C36: a death outside the fight is undone. \<open>OnPlayerDeath\<close> says of a death during the warning that it ends
  the match but nobody is resurrected for it. The match it concludes goes through the same phases as any
  other: an invader who dies of anything before he has left is carried to where he used the sigil and
  raised there at full health.
\<close>

theorem death_outside_the_fight_is_undone:
  assumes "(\<lambda>m m'. \<exists>sc. invasion_step sc m m')\<^sup>*\<^sup>* fresh_invasions m"
    and "row \<in> set (im_invasions m)" and "iv_phase row = PHASE_STALKING" and "ft_guid victim = iv_invader row"
    and "FindPlayer sc1 (iv_invader row) = Some f1" and "\<not> ft_alive f1" and "SecondsConfig (sc_return sc) \<le> d1"
    and "FindPlayer sc2 (iv_invader row) = Some f2" and "\<not> ft_beingTeleported f2" and "SecondsConfig (sc_revive sc1) \<le> d2"
  shows "let m1 = OnPlayerDeath sc victim killer m; m2 = Update sc1 d1 m1; m3 = Update sc2 d2 m2
         in goes_home row (since m1 m2) \<and> Resurrected (iv_invader row) \<in> set (since m2 m3)"
proof -
  let ?m1 = "OnPlayerDeath sc victim killer m"
  let ?m2 = "Update sc1 d1 ?m1"
  have "List.extract (involves (ft_guid victim)) (im_invasions m) \<noteq> None"
    using assms(2,4) by (auto simp: extract_None_iff involves_def)
  then obtain before r after' where ex: "List.extract (involves (ft_guid victim)) (im_invasions m) = Some (before, r, after')"
    by (metis not_None_eq prod_cases3)
  then have split: "im_invasions m = before @ r # after'" "involves (ft_guid victim) r"
    by (simp_all add: extract_Some_iff)
  have "r = row"
    by (rule same_player [OF reachable_players [OF assms(1)]]) (use split assms(2,4) in \<open>auto simp: involves_def\<close>)
  then have "im_invasions ?m1
      = before @ fst (Conclude sc (Some ''Something else forgave them first.'') None 0 0 row m) # after'"
    using ex assms(3) by (simp add: OnPlayerDeath_def at_row_def death_row_def case_prod_beta)
  then obtain row1 where row1: "row1 \<in> set (im_invasions ?m1)" "same_match row row1" "iv_phase row1 = PHASE_LEAVING"
    "iv_timer row1 = SecondsConfig (sc_return sc)"
    by (intro that [of "fst (Conclude sc (Some ''Something else forgave them first.'') None 0 0 row m)"])
      (simp_all add: same_match_def sides_def)
  obtain n0 k1 n1 where t1: "tick sc1 d1 row1 n0 = (k1, n1)" "set (kept_rows k1) \<subseteq> set (im_invasions ?m2)"
    "set (since n0 n1) \<subseteq> set (since ?m1 ?m2)" using Update_at [OF row1(1)] by blast
  have inv: "iv_invader row1 = iv_invader row" using row1(2) by (rule same_matchD)
  have f1: "FindPlayerNotInWorld sc1 (iv_invader row1) = Some f1" "ft_inWorld f1"
    using assms(5) inv by (auto simp: FindPlayer_def split: option.split_asm if_split_asm)
  have "count_down d1 (iv_timer row1) = 0" using row1(4) assms(7) by (simp add: count_down_elapsed)
  then have "\<exists>row2. k1 = Some row2 \<and> same_match row1 row2 \<and> iv_phase row2 = PHASE_REVIVING
      \<and> iv_timer row2 = SecondsConfig (sc_revive sc1)"
    using t1(1) f1 row1(3) assms(6) by (auto simp: tick_def Let_def tick_leaving_def same_match_def)
  then obtain row2 where row2: "k1 = Some row2" "same_match row1 row2" "iv_phase row2 = PHASE_REVIVING"
    "iv_timer row2 = SecondsConfig (sc_revive sc1)" by blast
  have "goes_home row1 (since n0 n1)"
    using tick_step [OF t1(1)] row1(3) row2 by (simp add: handled_def)
  then have home: "goes_home row (since ?m1 ?m2)"
    using t1(3) goes_home_same [OF row1(2)] by (auto simp: goes_home_def)
  have "row2 \<in> set (im_invasions ?m2)" using t1(2) row2(1) by (simp add: kept_rows_def)
  from Update_at [OF this] obtain u0 k2 u1 where t2: "tick sc2 d2 row2 u0 = (k2, u1)"
    "set (since u0 u1) \<subseteq> set (since ?m2 (Update sc2 d2 ?m2))" by blast
  have inv2: "iv_invader row2 = iv_invader row" using row2(2) inv by (simp add: same_matchD)
  have f2: "FindPlayerNotInWorld sc2 (iv_invader row2) = Some f2" "ft_inWorld f2" "ft_guid f2 = iv_invader row"
    using assms(8) inv2 FindPlayer_Some [OF assms(8)] by (auto simp: FindPlayer_def split: option.split_asm if_split_asm)
  have "count_down d2 (iv_timer row2) = 0" using row2(4) assms(10) by (simp add: count_down_elapsed)
  then have "u1 = Tell (Some f2) ''You wake where you began.''
      (shown (CorpseToBones (ft_guid f2)) (shown (Resurrected (ft_guid f2)) u0))"
    using t2(1) f2 row2(3) assms(9) by (simp add: tick_def Let_def tick_reviving_def)
  then have "Resurrected (iv_invader row) \<in> set (since u0 u1)"
    using f2(3) by (auto simp: since_def shown_def Tell_def to_heard_def split: option.split)
  with t2(2) home show ?thesis by (auto simp: Let_def)
qed

subsection \<open>The claims at work\<close>

definition plain_fighter :: "u32 \<Rightarrow> fighter" where
  "plain_fighter guid =
     \<lparr>ft_guid = guid, ft_name = ''Anna'', ft_session = Some guid, ft_level = 30, ft_group = None, ft_inWorld = True,
      ft_alive = True, ft_beingTeleported = False, ft_taxi = False, ft_transport = False, ft_gameMaster = False,
      ft_bot = False, ft_hardcore = False, ft_battleGround = False, ft_instanceable = Some False, ft_pvp = True,
      ft_pvpDesired = True, ft_inCombat = False, ft_stealth = False, ft_zone = 0, ft_sizeFactor = 0,
      ft_at = no_location\<rparr>"

lemma plain_fighter_simps [simp]: "ft_guid (plain_fighter g) = g" "ft_session (plain_fighter g) = Some g"
  "ft_level (plain_fighter g) = 30" "ft_group (plain_fighter g) = None" "ft_inWorld (plain_fighter g)"
  "ft_alive (plain_fighter g)" "\<not> ft_beingTeleported (plain_fighter g)" "\<not> ft_bot (plain_fighter g)"
  "ft_pvp (plain_fighter g)" "ft_pvpDesired (plain_fighter g)" "\<not> ft_inCombat (plain_fighter g)"
  "\<not> ft_hardcore (plain_fighter g)" "\<not> ft_gameMaster (plain_fighter g)" "IsAvailableForInvasion (plain_fighter g)"
  "ft_at (plain_fighter g) = no_location" "\<not> ft_stealth (plain_fighter g)" "ft_instanceable (plain_fighter g) = Some False"
  by (simp_all add: plain_fighter_def IsAvailableForInvasion_def)

definition plain_scene :: "fighter list \<Rightarrow> scene" where
  "plain_scene players =
     \<lparr>sc_now = 100, sc_enable = True, sc_minLevel = 10, sc_levelRange = 5, sc_arriveDistance = 10, sc_warn = 1,
      sc_duration = 1, sc_return = 1, sc_linger = 1, sc_revive = 1, sc_respite = 300, sc_players = players,
      sc_draw = 0, sc_closePoint = (\<lambda>_ _. (1, 1, 1)), sc_zoneMap = (\<lambda>_. None)\<rparr>"

lemma plain_scene_simps [simp]: "sc_now (plain_scene ps) = 100" "sc_enable (plain_scene ps)"
  "sc_minLevel (plain_scene ps) = 10" "sc_levelRange (plain_scene ps) = 5" "sc_warn (plain_scene ps) = 1"
  "sc_duration (plain_scene ps) = 1" "sc_return (plain_scene ps) = 1" "sc_revive (plain_scene ps) = 1"
  "sc_respite (plain_scene ps) = 300" "sc_players (plain_scene ps) = ps" "sc_draw (plain_scene ps) = 0"
  "sc_closePoint (plain_scene ps) = (\<lambda>_ _. (1, 1, 1))"
  by (simp_all add: plain_scene_def)

definition crowd :: "fighter list" where "crowd = map plain_fighter [1, 2, 3, 4]"

definition duel :: "fighter list" where "duel = map plain_fighter [1, 2]"

definition stalking :: InvasionManager where
  "stalking = fst (BeginInvasion (plain_scene duel) (plain_fighter 1) fresh_invasions)"

lemma stalking_rows: "im_invasions stalking = [new_invasion (plain_scene duel) (plain_fighter 1) (plain_fighter 2)]"
  by (simp add: stalking_def BeginInvasion_def CanBeginInvasion_def CanInvadeFrom_def invade_refusal_def IsInvolved_def
      PickDefender_def invasion_candidates_def IsValidDefender_def HasRespite_def fresh_invasions_def prune_respite_def
      hold_flag_def duel_def)

lemma stalking_begun: "BeginInvasion (plain_scene duel) (plain_fighter 1) fresh_invasions = (stalking, True)"
  by (simp add: stalking_def BeginInvasion_def CanBeginInvasion_def CanInvadeFrom_def invade_refusal_def IsInvolved_def
      PickDefender_def invasion_candidates_def IsValidDefender_def HasRespite_def fresh_invasions_def prune_respite_def
      hold_flag_def duel_def)

lemma stalking_reached: "(\<lambda>m m'. \<exists>sc. invasion_step sc m m')\<^sup>*\<^sup>* fresh_invasions stalking"
  by (rule r_into_rtranclp) (use search [OF stalking_begun] in blast)

theorem one_match_each_witness: "distinct (players_of (im_invasions stalking)) \<and> length (im_invasions stalking) = 1"
  using one_match_each [OF stalking_reached] by (simp add: stalking_rows)

definition first_row :: Invasion where
  "first_row = new_invasion (plain_scene duel) (plain_fighter 1) (plain_fighter 2)"

lemma first_row_simps [simp]: "iv_invader first_row = 1" "iv_defender first_row = 2" "iv_phase first_row = PHASE_STALKING"
  "iv_timer first_row = 1000" "iv_origin first_row = no_location"
  by (simp_all add: first_row_def new_invasion_def SecondsConfig_def)

lemma stalking_first: "im_invasions stalking = [first_row]"
  by (simp add: stalking_rows first_row_def)

lemma duel_find: "FindPlayerNotInWorld (plain_scene duel) 1 = Some (plain_fighter 1)"
  "FindPlayer (plain_scene duel) 1 = Some (plain_fighter 1)" "FindPlayer (plain_scene duel) 2 = Some (plain_fighter 2)"
  by (simp_all add: FindPlayer_def FindPlayerNotInWorld_def duel_def)

definition fighting :: InvasionManager where "fighting = Update (plain_scene duel) 1000 stalking"

lemma fighting_rows: "im_invasions fighting = [fst (Arrive (plain_scene duel) (plain_fighter 1) (plain_fighter 2)
    (first_row\<lparr>iv_timer := 0\<rparr>) (UpdateRevives (plain_scene duel) stalking))]"
  by (simp add: fighting_def Update_def UpdateRevives_def stalking_first tick_def duel_find tick_stalking_def
      count_down_elapsed IsValidDefender_def case_prod_beta Let_def)

lemma fighting_step: "invasion_step (plain_scene duel) stalking fighting"
  by (rule clock) (simp add: fighting_def)

lemma fighting_reached: "(\<lambda>m m'. \<exists>sc. invasion_step sc m m')\<^sup>*\<^sup>* fresh_invasions fighting"
  by (rule rtranclp.rtrancl_into_rtrancl [OF stalking_reached]) (use fighting_step in blast)

definition fight_row :: Invasion where "fight_row = hd (im_invasions fighting)"

lemma fighting_first: "im_invasions fighting = [fight_row]"
  by (simp add: fight_row_def fighting_rows)

lemma fight_row_simps [simp]: "iv_invader fight_row = 1" "iv_defender fight_row = 2" "iv_phase fight_row = PHASE_FIGHTING"
  "iv_timer fight_row = 1000" "iv_origin fight_row = no_location"
  by (simp_all add: fight_row_def fighting_rows Arrive_def Let_def SecondsConfig_def)

definition ended :: InvasionManager where "ended = fst (OnPlayerLogout (plain_scene duel) (plain_fighter 1) fighting)"

lemma ended_step: "invasion_step (plain_scene duel) fighting ended"
  by (rule logout [where player = "plain_fighter 1" and moved = True])
    (simp_all add: online_def duel_find ended_def OnPlayerLogout_def fighting_first involves_def extract_Cons_code)

lemma ended_rows: "im_invasions ended = []"
  by (simp add: ended_def OnPlayerLogout_def fighting_first at_row_def involves_def extract_Cons_code logout_row_def Let_def)

theorem nobody_is_stranded_witness: "goes_home fight_row (since fighting ended)"
  using nobody_is_stranded [OF ended_step, of fight_row]
  by (simp add: fighting_first ended_rows vanished_def duel_find)

theorem only_the_invader_moves_witness: "\<exists>row \<in> set (im_invasions fighting). iv_invader row = 1"
proof -
  have "Teleported 1 no_location \<in> set (since fighting ended)"
    by (simp add: ended_def OnPlayerLogout_def fighting_first at_row_def involves_def extract_Cons_code logout_row_def Let_def
        since_def shown_def Tell_def HideRadar_def to_heard_def heard_def duel_find ResendPlayerFlags_def RecordMatch_def)
  from only_the_invader_moves [OF ended_step this] show ?thesis by blast
qed



definition dead_scene :: scene where
  "dead_scene = plain_scene [plain_fighter 1\<lparr>ft_alive := False\<rparr>, plain_fighter 2]"

theorem death_outside_the_fight_is_undone_witness:
  "Resurrected 1 \<in> set (im_trace (Update dead_scene 1000 (Update dead_scene 1000
     (OnPlayerDeath dead_scene (plain_fighter 1\<lparr>ft_alive := False\<rparr>) None stalking))))"
proof -
  let ?f = "plain_fighter 1\<lparr>ft_alive := False\<rparr>"
  have dead: "FindPlayer dead_scene 1 = Some ?f" by (simp add: FindPlayer_def FindPlayerNotInWorld_def dead_scene_def)
  have "let m1 = OnPlayerDeath dead_scene ?f None stalking; m2 = Update dead_scene 1000 m1; m3 = Update dead_scene 1000 m2
      in goes_home first_row (since m1 m2) \<and> Resurrected (iv_invader first_row) \<in> set (since m2 m3)"
    by (rule death_outside_the_fight_is_undone [OF stalking_reached, of first_row ?f _ ?f _ _ _ ?f])
      (simp_all add: stalking_first dead SecondsConfig_def, simp_all add: dead_scene_def)
  then show ?thesis by (auto simp: since_def Let_def dest: in_set_dropD)
qed

definition four_ticks :: "(scene \<times> u32) list" where
  "four_ticks = [(plain_scene duel, 5000), (plain_scene duel, 5000), (plain_scene duel, 5000), (plain_scene duel, 5000)]"

theorem every_match_ends_witness: "\<not> IsInvading (clock_run four_ticks stalking) 1"
proof -
  have "watched (plain_scene duel) 5000 (iv_invader first_row) four_ticks"
    by (simp add: watched_def same_settings_def duel_find four_ticks_def)
  moreover have "time_attended 1 four_ticks = 20000"
    by (simp add: time_attended_def four_ticks_def attended_def duel_find)
  moreover have "budget (plain_scene duel) 5000 first_row = 19000" by (simp add: budget_def SecondsConfig_def)
  ultimately show ?thesis
    using every_match_ends [OF stalking_reached, of first_row "plain_scene duel" 5000 four_ticks] by (simp add: stalking_first)
qed

lemma fighting_respite: "im_respite fighting = [(2, 400)]"
proof -
  have "im_respite stalking = []"
    using BeginInvasion_cases [OF stalking_begun]
    by (auto simp: new_match_def only_words_def fresh_invasions_def prune_respite_def)
  then show ?thesis
    by (simp add: fighting_def Update_def UpdateRevives_def stalking_first tick_def duel_find tick_stalking_def
        count_down_elapsed IsValidDefender_def case_prod_beta Let_def Arrive_def GrantRespite_def)
qed

theorem respite_is_kept_witness:
  "iv_defender (last (im_invasions (fst (BeginInvasion (plain_scene crowd) (plain_fighter 3) fighting)))) \<noteq> 2"
proof -
  let ?m = "fst (BeginInvasion (plain_scene crowd) (plain_fighter 3) fighting)"
  have begun: "BeginInvasion (plain_scene crowd) (plain_fighter 3) fighting = (?m, True)"
    by (simp add: BeginInvasion_def CanBeginInvasion_def CanInvadeFrom_def invade_refusal_def IsInvolved_def involves_def
        fighting_first PickDefender_def invasion_candidates_def IsValidDefender_def crowd_def prod_eq_iff Let_def
        HasRespite_def prune_respite_def fighting_respite)
  have match: "same_match first_row fight_row" by (simp add: same_match_def sides_def)
  have phases: "(iv_phase first_row, iv_phase fight_row) \<in> {(PHASE_STALKING, PHASE_FIGHTING), (PHASE_FIGHTING, PHASE_LEAVING)}"
    by simp
  have "iv_defender (last (im_invasions ?m)) \<noteq> iv_defender first_row"
    by (rule respite_is_kept [OF stalking_reached fighting_step _ _ match phases rtranclp.rtrancl_refl _ begun])
      (simp_all add: stalking_first fighting_first within_respite_def)
  then show ?thesis by simp
qed

end
