(* ===== verification/Companions.thy ===== *)
theory Companions
  imports HouseNames Invasions
begin

section \<open>Companions: who owns a hired bot\<close>

text \<open>
  The registry of companions (CompanionOwnership.cpp) and what the module does with it: the hire and
  the dismissal (RecruitBot.cpp), the manager of the player who hired (PlayerbotMgr.cpp), the party and
  logout hooks (PlayerbotScripts.cpp) and the queue of logins (RandomPlayerbotMgr.cpp). The static
  containers of the namespace are the fields of one record \<open>companions\<close>, which also holds the table
  \<open>companion_owner\<close>, of the table \<open>characters\<close> the guid and the account, of the realm's table \<open>account\<close>
  the id and the name, and the lists the module keeps elsewhere; a \<open>std::set\<close> is an \<open>smap\<close> with no
  values. What the code asks of the rest of the server is a record \<open>companion_env\<close>.
\<close>

subsection \<open>State and environment\<close>

record owner_row =
  or_owner :: u32
  or_account :: u32
  or_created :: u32
  or_parked :: u32

datatype companion_effect =
    Rekeyed u32 string
  | PoolAccountMade u32 string
  | CompanionLine u32 string
  | AddonLine u32 string string
  | Ordered u32 string
  | Revived u32
  | PetRemoved u32
  | SessionDriven u32
  | BotLoggedOut u32
  | BotForgotten u32
  | Untracked u32
  | LoginStarted u32 u32
  | BotArrived u32
  | BotMade u32 u32 string string string bool

text \<open>\<open>DeferredBotLogout\<close>; a master of 0 stands for the manager of the random bots.\<close>

record DeferredBotLogout =
  dl_guid :: u32
  dl_masterGuid :: u32
  dl_allowInstant :: bool
  dl_forDelete :: bool
  dl_isDelete :: bool

record companions =
  s_owner :: "(u32, u32) smap"
  s_accounts :: "(u32, unit) smap"
  s_pendingDismiss :: "(u32, unit) smap"
  s_account :: "(u32, u32) smap"
  s_parked :: "(u32, int) smap"
  s_returning :: "(u32, unit) smap"
  s_aggro :: "(u32, unit) smap"
  s_deferredLogouts :: "DeferredBotLogout list"
  co_managers :: "(u32, bool) smap"
  freeAltBots :: "(u32 \<times> u32) list"
  db_companion_owner :: "(u32, owner_row) smap"
  db_characters :: "(u32, u32) smap"
  db_account :: "(u32, string) smap"
  co_log :: "companion_effect list"

text \<open>
  \<open>co_managers\<close> holds the \<open>PlayerbotMgr\<close> of every player who is online and its flag
  \<open>restoredCompanions\<close>. A bot the server holds in memory is a \<open>bot_body\<close>.
\<close>

record bot_body =
  bb_inWorld :: bool
  bb_teleporting :: bool
  bb_alive :: bool
  bb_pet :: bool
  bb_account :: u32

datatype bot_thread = WorldThread | MapThread | BeforeFirstDrain

datatype party_hook = MemberRemoved u32 | PartyDisbanded "u32 list"

record companion_env =
  ce_enabled :: bool
  ce_now :: int
  ce_parkMinutes :: u32
  ce_thread :: bot_thread
  ce_bot :: "u32 \<Rightarrow> bot_body option"
  ce_driven :: "u32 \<Rightarrow> bot_body option"
  ce_logsOut :: "u32 \<Rightarrow> bool"
  ce_leaves :: "u32 \<Rightarrow> party_hook list"
  ce_party :: "u32 \<Rightarrow> u32 list"
  ce_playerInWorld :: "u32 \<Rightarrow> bool"
  ce_name :: "u32 \<Rightarrow> string option"
  ce_ownName :: "u32 \<Rightarrow> bool"
  ce_changes :: "u32 \<Rightarrow> bool"
  ce_draw :: "u32 \<Rightarrow> nat \<Rightarrow> nat"
  ce_alwaysOnline :: "u32 \<Rightarrow> bool"
  ce_botNpc :: "u32 \<Rightarrow> bool"
  ce_loginAllowed :: bool
  ce_accountMade :: bool
  ce_newAccount :: u32
  ce_newBot :: "(u32 \<times> string) option"
  ce_named :: "string \<Rightarrow> bool"

definition noted :: "companion_effect \<Rightarrow> companions \<Rightarrow> companions" where
  "noted e st = st\<lparr>co_log := co_log st @ [e]\<rparr>"

definition ACCOUNT_PREFIX :: string where "ACCOUNT_PREFIX = ''COMPANION''"

definition MAX_PER_PLAYER :: u32 where "MAX_PER_PLAYER = 2"

subsection \<open>The registry\<close>

definition OwnerOfLocked :: "companions \<Rightarrow> u32 \<Rightarrow> u32" where
  "OwnerOfLocked st companionGuid = (case sm_find (s_owner st) companionGuid of None \<Rightarrow> 0 | Some owner \<Rightarrow> owner)"

definition IsCompanionAccount :: "companions \<Rightarrow> u32 \<Rightarrow> bool" where
  "IsCompanionAccount st accountId = (if accountId = 0 then False else sm_has (s_accounts st) accountId)"

definition NoteAccount :: "u32 \<Rightarrow> companions \<Rightarrow> companions" where
  "NoteAccount accountId st =
     (if accountId = 0 then st else st\<lparr>s_accounts := sm_put accountId () (s_accounts st)\<rparr>)"

definition CHARS :: string where "CHARS = ''ABCDEFGHIJKLMNOPQRSTUVWXYZ0123456789''"

text \<open>\<open>urand(0, 35)\<close> is any number, brought into the range.\<close>

definition RandomPassword :: "(nat \<Rightarrow> nat) \<Rightarrow> string" where
  "RandomPassword draw = map (\<lambda>i. CHARS ! (draw i mod 36)) [0..<16]"

definition Register :: "companion_env \<Rightarrow> u32 \<Rightarrow> u32 \<Rightarrow> u32 \<Rightarrow> companions \<Rightarrow> companions" where
  "Register env ownerGuid companionGuid accountId st =
     (if ownerGuid = 0 \<or> companionGuid = 0 then st
      else
        let st1 = st\<lparr>s_owner := sm_put companionGuid ownerGuid (s_owner st),
                     s_account := sm_put companionGuid accountId (s_account st),
                     s_parked := sm_erase companionGuid (s_parked st)\<rparr>;
            st2 = NoteAccount accountId st1
        in st2\<lparr>db_companion_owner :=
             sm_put companionGuid \<lparr>or_owner = ownerGuid, or_account = accountId, or_created = of_int (ce_now env), or_parked = 0\<rparr>
               (db_companion_owner st2)\<rparr>)"

definition Unregister :: "u32 \<Rightarrow> companions \<Rightarrow> companions" where
  "Unregister companionGuid st =
     (if companionGuid = 0 then st
      else st\<lparr>s_owner := sm_erase companionGuid (s_owner st),
              s_account := sm_erase companionGuid (s_account st),
              s_parked := sm_erase companionGuid (s_parked st),
              s_pendingDismiss := sm_erase companionGuid (s_pendingDismiss st),
              s_returning := sm_erase companionGuid (s_returning st),
              db_companion_owner := sm_erase companionGuid (db_companion_owner st)\<rparr>)"

definition GetOwner :: "companions \<Rightarrow> u32 \<Rightarrow> u32" where
  "GetOwner st companionGuid = OwnerOfLocked st companionGuid"

definition IsCompanion :: "companions \<Rightarrow> u32 \<Rightarrow> bool" where
  "IsCompanion st companionGuid \<longleftrightarrow> GetOwner st companionGuid \<noteq> 0"

definition QueueDismiss :: "u32 \<Rightarrow> companions \<Rightarrow> companions" where
  "QueueDismiss companionGuid st =
     (if companionGuid = 0 then st
      else if OwnerOfLocked st companionGuid \<noteq> 0 \<and> \<not> sm_has (s_parked st) companionGuid
      then st\<lparr>s_pendingDismiss := sm_put companionGuid () (s_pendingDismiss st)\<rparr>
      else st)"

definition ParkAll :: "companion_env \<Rightarrow> u32 \<Rightarrow> companions \<Rightarrow> companions" where
  "ParkAll env ownerGuid st =
     (if ownerGuid = 0 then st
      else
        let mine = filter (\<lambda>entry. snd entry = ownerGuid) (s_owner st);
            st1 = st\<lparr>s_parked := fold (\<lambda>entry. sm_put (fst entry) (ce_now env)) mine (s_parked st)\<rparr>
        in if mine = [] then st1
           else st1\<lparr>db_companion_owner :=
             map (\<lambda>(guid, row). (guid, if or_owner row = ownerGuid then row\<lparr>or_parked := of_int (ce_now env)\<rparr> else row))
               (db_companion_owner st1)\<rparr>)"

definition IsParked :: "companions \<Rightarrow> u32 \<Rightarrow> bool" where
  "IsParked st companionGuid = sm_has (s_parked st) companionGuid"

definition write_parked :: "u32 \<Rightarrow> u32 \<Rightarrow> companions \<Rightarrow> companions" where
  "write_parked stamp companionGuid st = st\<lparr>db_companion_owner :=
     map (\<lambda>(guid, row). (guid, if guid = companionGuid then row\<lparr>or_parked := stamp\<rparr> else row)) (db_companion_owner st)\<rparr>"

definition Unpark :: "u32 \<Rightarrow> companions \<Rightarrow> companions" where
  "Unpark companionGuid st =
     (if \<not> sm_has (s_parked st) companionGuid then st
      else write_parked 0 companionGuid (st\<lparr>s_parked := sm_erase companionGuid (s_parked st)\<rparr>))"

definition MarkReturning :: "u32 \<Rightarrow> companions \<Rightarrow> companions" where
  "MarkReturning companionGuid st =
     (if companionGuid = 0 then st else st\<lparr>s_returning := sm_put companionGuid () (s_returning st)\<rparr>)"

definition TakeReturning :: "u32 \<Rightarrow> companions \<Rightarrow> companions \<times> bool" where
  "TakeReturning companionGuid st =
     (st\<lparr>s_returning := sm_erase companionGuid (s_returning st)\<rparr>, sm_has (s_returning st) companionGuid)"

record Parked =
  pk_companionGuid :: u32
  pk_accountId :: u32
  pk_since :: int

definition ParkedOf :: "companions \<Rightarrow> u32 \<Rightarrow> Parked list" where
  "ParkedOf st ownerGuid =
     sort_key pk_since
       (map (\<lambda>entry. \<lparr>pk_companionGuid = fst entry,
                       pk_accountId = (case sm_find (s_account st) (fst entry) of None \<Rightarrow> 0 | Some acc \<Rightarrow> acc),
                       pk_since = snd entry\<rparr>)
         (filter (\<lambda>entry. OwnerOfLocked st (fst entry) = ownerGuid) (s_parked st)))"

definition SetAggro :: "u32 \<Rightarrow> bool \<Rightarrow> companions \<Rightarrow> companions" where
  "SetAggro playerGuid on st =
     st\<lparr>s_aggro := (if on then sm_put playerGuid () (s_aggro st) else sm_erase playerGuid (s_aggro st))\<rparr>"

definition IsAggro :: "companions \<Rightarrow> u32 \<Rightarrow> bool" where
  "IsAggro st playerGuid = sm_has (s_aggro st) playerGuid"

definition TakeQueuedDismissals :: "u32 \<Rightarrow> companions \<Rightarrow> companions \<times> u32 list" where
  "TakeQueuedDismissals ownerGuid st =
     (let queued = sm_keys (s_pendingDismiss st)
      in (st\<lparr>s_pendingDismiss :=
               filter (\<lambda>entry. OwnerOfLocked st (fst entry) \<noteq> ownerGuid \<and> OwnerOfLocked st (fst entry) \<noteq> 0)
                 (s_pendingDismiss st)\<rparr>,
          filter (\<lambda>guid. OwnerOfLocked st guid = ownerGuid) queued))"

definition CompanionsOf :: "companions \<Rightarrow> u32 \<Rightarrow> u32 list" where
  "CompanionsOf st ownerGuid = map fst (filter (\<lambda>entry. snd entry = ownerGuid) (s_owner st))"

definition CountFor :: "companions \<Rightarrow> u32 \<Rightarrow> u32" where
  "CountFor st ownerGuid = fold (\<lambda>entry n. if snd entry = ownerGuid then n + 1 else n) (s_owner st) 0"

subsection \<open>Party hooks and the end of a character\<close>

definition OnRemoveMember :: "companion_env \<Rightarrow> u32 \<Rightarrow> companions \<Rightarrow> companions" where
  "OnRemoveMember env guid st =
     (if \<not> ce_enabled env then st
      else let st1 = QueueDismiss guid st in fold QueueDismiss (CompanionsOf st1 guid) st1)"

definition OnDisband :: "companion_env \<Rightarrow> u32 list \<Rightarrow> companions \<Rightarrow> companions" where
  "OnDisband env slots st = (if \<not> ce_enabled env then st else fold QueueDismiss slots st)"

definition run_hook :: "companion_env \<Rightarrow> party_hook \<Rightarrow> companions \<Rightarrow> companions" where
  "run_hook env h st =
     (case h of MemberRemoved guid \<Rightarrow> OnRemoveMember env guid st | PartyDisbanded slots \<Rightarrow> OnDisband env slots st)"

text \<open>
  \<open>Player::DeleteFromDB\<close> with \<open>deleteFinally\<close>: the character leaves its party, which fires the hooks of
  the party, and its row goes. Its rows in the other tables are not the registry's business.
\<close>

definition DeleteFromDB :: "companion_env \<Rightarrow> u32 \<Rightarrow> companions \<Rightarrow> companions" where
  "DeleteFromDB env guid st =
     (let st1 = fold (run_hook env) (ce_leaves env guid) st
      in st1\<lparr>db_characters := sm_erase guid (db_characters st1)\<rparr>)"

subsection \<open>Startup\<close>

text \<open>The pattern of the pool, \<open>^COMPANION[0-9]+$\<close>.\<close>

definition is_pool_name :: "string \<Rightarrow> bool" where
  "is_pool_name name \<longleftrightarrow> take (length ACCOUNT_PREFIX) name = ACCOUNT_PREFIX
     \<and> drop (length ACCOUNT_PREFIX) name \<noteq> [] \<and> list_all IsDigitAscii (drop (length ACCOUNT_PREFIX) name)"

definition learn_account :: "companion_env \<Rightarrow> u32 \<times> string \<Rightarrow> companions \<Rightarrow> companions" where
  "learn_account env acc st =
     (if \<not> is_pool_name (snd acc) then st
      else
        let st1 = NoteAccount (fst acc) st
        in if ce_ownName env (fst acc) \<and> ce_changes env (fst acc)
           then noted (Rekeyed (fst acc) (RandomPassword (ce_draw env (fst acc)))) st1 else st1)"

definition park_window :: "companion_env \<Rightarrow> int" where
  "park_window env = uint (ce_parkMinutes env) * 60"

definition purge_row :: "companion_env \<Rightarrow> u32 \<times> owner_row \<Rightarrow> companions \<times> (u32, unit) smap \<Rightarrow> companions \<times> (u32, unit) smap" where
  "purge_row env entry acc =
     (case (entry, acc) of ((companionGuid, row), (st, kept)) \<Rightarrow>
        if \<not> sm_has (db_characters st) companionGuid then (st, kept)
        else
          let ownerExists = sm_has (db_characters st) (or_owner row);
              since = (if or_parked row \<noteq> 0 then uint (or_parked row) else ce_now env)
          in if \<not> ownerExists \<or> ce_now env - since > park_window env
             then (DeleteFromDB env companionGuid st, kept)
             else
               let st1 = st\<lparr>s_owner := sm_put companionGuid (or_owner row) (s_owner st),
                            s_account := sm_put companionGuid (or_account row) (s_account st),
                            s_parked := sm_put companionGuid since (s_parked st)\<rparr>;
                   st2 = NoteAccount (or_account row) st1
               in (if or_parked row = 0 then write_parked (of_int (ce_now env)) companionGuid st2 else st2,
                   sm_put companionGuid () kept))"

definition drop_unkept :: "(u32, unit) smap \<Rightarrow> companions \<Rightarrow> companions" where
  "drop_unkept kept st = st\<lparr>db_companion_owner :=
     (if kept = [] then [] else filter (\<lambda>entry. sm_has kept (fst entry)) (db_companion_owner st))\<rparr>"

definition sweep_account :: "companion_env \<Rightarrow> (u32, unit) smap \<Rightarrow> u32 \<Rightarrow> companions \<Rightarrow> companions" where
  "sweep_account env kept accountId st =
     fold (\<lambda>guid st. if sm_has kept guid then st else DeleteFromDB env guid st)
       (map fst (filter (\<lambda>c. snd c = accountId) (db_characters st))) st"

definition PurgeAtStartup :: "companion_env \<Rightarrow> companions \<Rightarrow> companions" where
  "PurgeAtStartup env st =
     (let st1 = fold (learn_account env) (db_account st) st;
          st2 = st1\<lparr>s_owner := [], s_account := [], s_parked := [], s_pendingDismiss := []\<rparr>;
          (st3, kept) = fold (purge_row env) (db_companion_owner st2) (st2, []);
          st4 = drop_unkept kept st3
      in fold (sweep_account env kept) (sm_keys (s_accounts st4)) st4)"

subsection \<open>Deleting a bot\<close>

datatype bot_holder = RandomManager | ManagerOf u32

definition MasterGuidOf :: "bot_holder \<Rightarrow> u32" where
  "MasterGuidOf holder = (case holder of RandomManager \<Rightarrow> 0 | ManagerOf master \<Rightarrow> master)"

definition MustDeferToWorldThread :: "companion_env \<Rightarrow> bool" where
  "MustDeferToWorldThread env \<longleftrightarrow> ce_thread env = MapThread"

fun requeue :: "DeferredBotLogout \<Rightarrow> DeferredBotLogout list \<Rightarrow> DeferredBotLogout list" where
  "requeue d [] = [d]"
| "requeue d (q # qs) =
     (if dl_guid q \<noteq> dl_guid d then q # requeue d qs
      else (if dl_isDelete d \<and> \<not> dl_isDelete q then d\<lparr>dl_forDelete := True, dl_isDelete := True\<rparr> else q) # qs)"

definition DeferBotLogout :: "bot_holder \<Rightarrow> u32 \<Rightarrow> bool \<Rightarrow> bool \<Rightarrow> bool \<Rightarrow> companions \<Rightarrow> companions" where
  "DeferBotLogout holder guid allowInstant forDelete isDelete st =
     st\<lparr>s_deferredLogouts :=
       requeue \<lparr>dl_guid = guid, dl_masterGuid = MasterGuidOf holder, dl_allowInstant = allowInstant,
                dl_forDelete = forDelete, dl_isDelete = isDelete\<rparr> (s_deferredLogouts st)\<rparr>"

text \<open>
  \<open>PlayerbotMgr::OnBotDeleted\<close>. The random manager's own has to do with the accounts of random bots only.
\<close>

definition OnBotDeleted :: "bot_holder \<Rightarrow> u32 \<Rightarrow> companions \<Rightarrow> companions" where
  "OnBotDeleted holder botGuid st =
     (case holder of RandomManager \<Rightarrow> st | ManagerOf master \<Rightarrow> Unregister botGuid (noted (Untracked botGuid) st))"

definition between_maps :: "companion_env \<Rightarrow> u32 \<Rightarrow> bool" where
  "between_maps env guid = (case ce_bot env guid of None \<Rightarrow> False | Some body \<Rightarrow> \<not> bb_inWorld body)"

definition finish_delete :: "companion_env \<Rightarrow> bot_holder \<Rightarrow> u32 \<Rightarrow> companions \<Rightarrow> companions \<times> bool" where
  "finish_delete env holder guid st =
     (OnBotDeleted holder guid (noted (BotForgotten guid) (DeleteFromDB env guid st)), True)"

definition ready_body :: "u32 \<Rightarrow> bot_body \<Rightarrow> companions \<Rightarrow> companions" where
  "ready_body guid body st =
     (if \<not> bb_inWorld body then st
      else
        let st1 = (if bb_alive body then st else noted (Revived guid) st)
        in if bb_pet body then noted (PetRemoved guid) st1 else st1)"

definition DeleteBot :: "companion_env \<Rightarrow> bot_holder \<Rightarrow> u32 \<Rightarrow> bool \<Rightarrow> companions \<Rightarrow> companions \<times> bool" where
  "DeleteBot env holder guid allowInstant st =
     (if MustDeferToWorldThread env then (DeferBotLogout holder guid allowInstant True True st, True)
      else if between_maps env guid \<and> ce_thread env \<noteq> WorldThread then (st, False)
      else
        let drive = between_maps env guid \<and> bb_teleporting (the (ce_bot env guid));
            st1 = (if drive then noted (SessionDriven guid) st else st)
        in case (if drive then ce_driven env guid else ce_bot env guid) of
             None \<Rightarrow> finish_delete env holder guid st1
           | Some body \<Rightarrow>
               let st2 = noted (BotLoggedOut guid) (ready_body guid body st1)
               in if \<not> ce_logsOut env guid then (st2, False) else finish_delete env holder guid st2)"

text \<open>
  The drain runs on the world thread, after the maps. Driving the sessions of bots that wait for it
  touches no registry and is left out.
\<close>

definition holderOf :: "companion_env \<Rightarrow> companions \<Rightarrow> u32 \<Rightarrow> bot_holder" where
  "holderOf env st masterGuid =
     (if masterGuid \<noteq> 0 \<and> ce_playerInWorld env masterGuid \<and> sm_has (co_managers st) masterGuid
      then ManagerOf masterGuid else RandomManager)"

definition drain_one :: "companion_env \<Rightarrow> DeferredBotLogout \<Rightarrow> companions \<Rightarrow> companions" where
  "drain_one env d st =
     (let holder = holderOf env st (dl_masterGuid d)
      in if \<not> dl_isDelete d then noted (BotLoggedOut (dl_guid d)) st
         else
           let (st1, deleted) = DeleteBot env holder (dl_guid d) (dl_allowInstant d) st
           in if deleted \<and> GetOwner st1 (dl_guid d) \<noteq> 0
              then Unregister (dl_guid d) (noted (Untracked (dl_guid d)) st1) else st1)"

definition DrainDeferredBotWork :: "companion_env \<Rightarrow> companions \<Rightarrow> companions" where
  "DrainDeferredBotWork env st =
     fold (drain_one (env\<lparr>ce_thread := WorldThread\<rparr>)) (s_deferredLogouts st) (st\<lparr>s_deferredLogouts := []\<rparr>)"

subsection \<open>The owner goes and comes back\<close>

text \<open>\<open>OnLogin\<close> makes the manager of a real player, \<open>OnBeforeLogout\<close> parks his companions and drops it.\<close>

definition OnLogin :: "bool \<Rightarrow> u32 \<Rightarrow> companions \<Rightarrow> companions" where
  "OnLogin isBot guid st =
     (if isBot \<or> sm_has (co_managers st) guid then st
      else st\<lparr>co_managers := sm_put guid False (co_managers st)\<rparr>)"

definition OnBeforeLogout :: "companion_env \<Rightarrow> u32 \<Rightarrow> companions \<Rightarrow> companions" where
  "OnBeforeLogout env guid st =
     (let st1 = (if ce_enabled env then ParkAll env guid st else st)
      in st1\<lparr>co_managers := sm_erase guid (co_managers st1)\<rparr>)"

definition OnGiveXP :: "companions \<Rightarrow> u32 \<Rightarrow> bool \<Rightarrow> u32 \<Rightarrow> u32" where
  "OnGiveXP st guid inDungeon amount = (if inDungeon \<and> IsCompanion st guid then 0 else amount)"

definition online_body :: "companion_env \<Rightarrow> u32 \<Rightarrow> bot_body option" where
  "online_body env guid = (case ce_bot env guid of None \<Rightarrow> None | Some body \<Rightarrow> if bb_inWorld body then Some body else None)"

definition restore_one :: "companion_env \<Rightarrow> u32 \<Rightarrow> Parked \<Rightarrow> companions \<Rightarrow> companions" where
  "restore_one env master p st =
     (let guid = pk_companionGuid p;
          name = (case ce_name env guid of None \<Rightarrow> ''A companion'' | Some n \<Rightarrow> n)
      in if ce_now env - pk_since p > park_window env
         then noted (CompanionLine master (name @ '' went home while you were away.''))
                (fst (DeleteBot env (ManagerOf master) guid True st))
         else
           let body = online_body env guid;
               accountId = (case body of Some b \<Rightarrow> if pk_accountId p = 0 then bb_account b else pk_accountId p
                            | None \<Rightarrow> pk_accountId p)
           in if body \<noteq> None \<and> guid \<in> set (ce_party env master) then Unpark guid st
              else if body = None \<and> accountId = 0 then fst (DeleteBot env (ManagerOf master) guid True st)
              else
                let st1 = Unpark guid st;
                    st2 = (if body = None then MarkReturning guid st1 else st1);
                    queued = list_ex (\<lambda>entry. snd entry = guid) (freeAltBots st2);
                    st3 = (if queued then st2 else st2\<lparr>freeAltBots := freeAltBots st2 @ [(accountId, guid)]\<rparr>)
                in noted (CompanionLine master (name @ '' is on the way back.'')) st3)"

definition RestoreParkedCompanions :: "companion_env \<Rightarrow> u32 \<Rightarrow> companions \<Rightarrow> companions" where
  "RestoreParkedCompanions env master st =
     (if \<not> ce_enabled env then st else fold (restore_one env master) (ParkedOf st master) st)"

text \<open>The part of \<open>PlayerbotMgr::UpdateAIInternal\<close> that has to do with companions.\<close>

definition UpdateCompanions :: "companion_env \<Rightarrow> u32 \<Rightarrow> companions \<Rightarrow> companions" where
  "UpdateCompanions env master st =
     (case sm_find (co_managers st) master of
        None \<Rightarrow> st
      | Some restored \<Rightarrow>
          let (st1, gone) = TakeQueuedDismissals master st;
              st2 = fold (\<lambda>guid st. fst (DeleteBot env (ManagerOf master) guid True st)) gone st1
          in if \<not> restored \<and> ce_playerInWorld env master
             then RestoreParkedCompanions env master (st2\<lparr>co_managers := sm_put master True (co_managers st2)\<rparr>)
             else st2)"

text \<open>
  One entry of the list of bots to log in. What happens to a bot that has come into the world (its
  gear, its party, the teleport to its master) is the effect \<open>BotArrived\<close>.
\<close>

definition free_bot ::
  "companion_env \<Rightarrow> u32 \<times> u32 \<Rightarrow> companions \<times> (u32 \<times> u32) list \<times> u32 list \<Rightarrow> companions \<times> (u32 \<times> u32) list \<times> u32 list" where
  "free_bot env entry acc =
     (case (entry, acc) of ((accountId, botGuid), (st, botsToRemove, parkedToLogOut)) \<Rightarrow>
        case ce_bot env botGuid of
          None \<Rightarrow>
            if IsParked st botGuid then (st, botsToRemove @ [entry], parkedToLogOut)
            else (noted (LoginStarted botGuid accountId) st, botsToRemove, parkedToLogOut)
        | Some body \<Rightarrow>
            if IsParked st botGuid \<and> bb_inWorld body \<and> \<not> bb_teleporting body
            then (st, botsToRemove @ [entry], parkedToLogOut @ [botGuid])
            else if bb_teleporting body then acc
            else (noted (BotArrived botGuid) st,
                  if ce_botNpc env botGuid \<or> ce_alwaysOnline env botGuid then botsToRemove else botsToRemove @ [entry],
                  parkedToLogOut))"

definition LoginFreeBots :: "companion_env \<Rightarrow> companions \<Rightarrow> companions" where
  "LoginFreeBots env st =
     (if freeAltBots st = [] \<or> \<not> ce_loginAllowed env then st
      else
        let (st1, botsToRemove, parkedToLogOut) = fold (free_bot env) (freeAltBots st) (st, [], []);
            st2 = st1\<lparr>freeAltBots := filter (\<lambda>entry. entry \<notin> set botsToRemove) (freeAltBots st1)\<rparr>
        in fold (\<lambda>guid. noted (BotLoggedOut guid)) parkedToLogOut st2)"

definition HandleBotDelete :: "companion_env \<Rightarrow> u32 \<Rightarrow> u32 \<Rightarrow> companions \<Rightarrow> (companions \<times> string) option" where
  "HandleBotDelete env master guid st =
     (let companionOwner = GetOwner st guid
      in if companionOwner = 0 then None
         else if master = 0 \<or> master \<noteq> companionOwner then Some (st, ''Not your companion'')
         else Some (fst (DeleteBot env (ManagerOf master) guid True st), ''ok''))"

end
