(* ===== verification/CompanionHires.thy ===== *)
theory CompanionHires
  imports Companions
begin

section \<open>Hiring and dismissing companions\<close>

text \<open>
  RecruitBot.cpp, the part of \<open>PlayerbotHolder::CreateBot\<close> that makes a companion, the walk over the
  account pool, and the chat commands of CompanionOwnership.cpp. The player is a record \<open>hirer\<close>; the
  premade specs of the configuration, with the role each of them plays, the class names and the rolls
  of the class are a record \<open>hire_book\<close>. The string \<open>CreateBot\<close> reads its options from is the record
  \<open>hire_order\<close> of those options, and making the character itself is a field of the environment.
\<close>

unbundle bit_operations_syntax

datatype BotRoles = BOT_ROLE_NONE | BOT_ROLE_TANK | BOT_ROLE_HEALER | BOT_ROLE_DPS

definition SO_RECRUIT_TANK :: u32 where "SO_RECRUIT_TANK = 0"

definition SO_RECRUIT_HEALER :: u32 where "SO_RECRUIT_HEALER = 1"

definition SO_RECRUIT_DPS :: u32 where "SO_RECRUIT_DPS = 2"

definition SO_RECRUIT_DISMISS :: u32 where "SO_RECRUIT_DISMISS = 3"

record hirer =
  hr_guid :: u32
  hr_name :: string
  hr_level :: u32
  hr_group :: "(u32 \<times> bool) option"

record hire_book =
  hb_paths :: "u32 \<Rightarrow> (string \<times> BotRoles) list"
  hb_className :: "u32 \<Rightarrow> string"
  hb_rolls :: "nat \<Rightarrow> u32"

record hire_order =
  ho_level :: u32
  ho_class :: string
  ho_role :: string
  ho_group :: string
  ho_spec :: string
  ho_naked :: bool

subsection \<open>The pool of accounts\<close>

definition GetCharactersCount :: "companions \<Rightarrow> u32 \<Rightarrow> nat" where
  "GetCharactersCount st accountId = length (filter (\<lambda>c. snd c = accountId) (db_characters st))"

definition GetId :: "companions \<Rightarrow> string \<Rightarrow> u32" where
  "GetId st name = (case find (\<lambda>acc. snd acc = name) (db_account st) of None \<Rightarrow> 0 | Some acc \<Rightarrow> fst acc)"

fun walk_accounts :: "companion_env \<Rightarrow> nat \<Rightarrow> nat \<Rightarrow> companions \<Rightarrow> companions \<times> u32 res" where
  "walk_accounts env 0 accountNumber st = (st, Inl ''Failed to find a free companion account.'')"
| "walk_accounts env (Suc left) accountNumber st =
     (let accountName = ACCOUNT_PREFIX @ dec_nat accountNumber;
          found = GetId st accountName
      in if found = 0 \<and> \<not> ce_accountMade env then (st, Inl ''Failed to create a companion account.'')
         else
           let st1 = (if found = 0
                      then st\<lparr>db_account := sm_put (ce_newAccount env) accountName (db_account st)\<rparr> else st);
               accountId = (if found = 0 then ce_newAccount env else found)
           in if accountId = 0 then (st1, Inl ''Failed to create a companion account.'')
              else
                let st2 = (if found = 0 then noted (PoolAccountMade accountId accountName) st1 else st1)
                in if GetCharactersCount st2 accountId < 9 then (NoteAccount accountId st2, Inr accountId)
                   else walk_accounts env left (Suc accountNumber) st2)"

definition GetOrCreateAccount :: "companion_env \<Rightarrow> u32 \<Rightarrow> companions \<Rightarrow> companions \<times> u32 res" where
  "GetOrCreateAccount env master st =
     (if master = 0 then (st, Inl ''Companions need a player to belong to.'') else walk_accounts env 10000 0 st)"

text \<open>
  The companion a manager makes for its master: his limit, an account with room, the character, the row
  of the registry, the queue of logins. The result is the list of messages.
\<close>

definition CreateBot :: "companion_env \<Rightarrow> hirer \<Rightarrow> hire_order \<Rightarrow> companions \<Rightarrow> companions \<times> string list" where
  "CreateBot env master order st =
     (let have = CountFor st (hr_guid master)
      in if have \<ge> MAX_PER_PLAYER
         then (st, [''You already have '' @ to_string have @ '' companion(s). Dismiss one first.''])
         else
           case GetOrCreateAccount env (hr_guid master) st of
             (st1, Inl err) \<Rightarrow> (st1, [err])
           | (st1, Inr accountId) \<Rightarrow>
               if GetCharactersCount st1 accountId \<ge> 9 then (st1, [''Account has max characters''])
               else
                 case ce_newBot env of
                   None \<Rightarrow> (st1, [''Failed to create character''])
                 | Some (botGuid, name) \<Rightarrow>
                     let st2 = st1\<lparr>db_characters := sm_put botGuid accountId (db_characters st1)\<rparr>;
                         lost = (if ho_group order \<noteq> [] \<and> \<not> ce_named env (ho_group order)
                                 then [''No player called '' @ [CHR 0x27] @ ho_group order @ [CHR 0x27] @ '' is online - creating '' @ name @ '' ungrouped.'']
                                 else []);
                         st3 = Register env (hr_guid master) botGuid accountId st2;
                         made = noted (BotMade botGuid (ho_level order) (ho_class order) (ho_role order) (ho_spec order) (ho_naked order));
                         st4 = (made st3)\<lparr>freeAltBots := freeAltBots st3 @ [(accountId, botGuid)]\<rparr>
                     in (st4, lost @ [''Bot created: '' @ name, ''Bot is now online'']))"

subsection \<open>Names of roles and specs\<close>

definition RoleFromScriptOption :: "u32 \<Rightarrow> BotRoles" where
  "RoleFromScriptOption option =
     (if option = SO_RECRUIT_TANK then BOT_ROLE_TANK
      else if option = SO_RECRUIT_HEALER then BOT_ROLE_HEALER else BOT_ROLE_DPS)"

definition RoleName :: "u32 \<Rightarrow> string" where
  "RoleName option =
     (if option = SO_RECRUIT_TANK then ''someone to hold the line''
      else if option = SO_RECRUIT_HEALER then ''a healer'' else ''someone who hits hard'')"

definition formatRole :: "BotRoles \<Rightarrow> string" where
  "formatRole role =
     (case role of BOT_ROLE_HEALER \<Rightarrow> ''healer'' | BOT_ROLE_TANK \<Rightarrow> ''tank'' | BOT_ROLE_DPS \<Rightarrow> ''dps'' | BOT_ROLE_NONE \<Rightarrow> ''none'')"

definition occurs_in :: "string \<Rightarrow> string \<Rightarrow> bool" where
  "occurs_in needle hay \<longleftrightarrow> list_ex (\<lambda>i. take (length needle) (drop i hay) = needle) [0..<Suc (length hay)]"

text \<open>\<open>cls\<close> is a \<open>uint8\<close>; the table is read at what is left of it.\<close>

definition getPremadePaths :: "hire_book \<Rightarrow> u32 \<Rightarrow> string \<Rightarrow> BotRoles \<Rightarrow> string list" where
  "getPremadePaths book cls findName role =
     map fst (filter (\<lambda>path. (findName = [] \<or> occurs_in findName (fst path))
                        \<and> (role = BOT_ROLE_NONE \<or> snd path = role)) (hb_paths book (cls AND 255)))"

definition join_with :: "string \<Rightarrow> string list \<Rightarrow> string" where
  "join_with sep names = fold (\<lambda>name list. list @ (if list = [] then [] else sep) @ name) names []"

definition pick_spec :: "hire_book \<Rightarrow> u32 \<Rightarrow> BotRoles \<Rightarrow> string \<Rightarrow> string" where
  "pick_spec book cls wanted spec =
     (let word = LowerAscii spec;
          paths = getPremadePaths book cls word wanted
      in if word \<in> set paths then word else if length paths = 1 then hd paths else [])"

text \<open>Twenty rolls for a class that can reach the role; 0 when none came up.\<close>

fun roll_class :: "hire_book \<Rightarrow> BotRoles \<Rightarrow> nat \<Rightarrow> nat \<Rightarrow> u32" where
  "roll_class book wanted 0 tries = 0"
| "roll_class book wanted (Suc left) tries =
     (let rolled = hb_rolls book tries AND 255
      in if rolled = 0 \<or> getPremadePaths book rolled [] wanted = [] then roll_class book wanted left (Suc tries)
         else rolled)"

subsection \<open>The hire\<close>

definition hear :: "hirer \<Rightarrow> string \<Rightarrow> companions \<Rightarrow> companions" where
  "hear player line st = noted (CompanionLine (hr_guid player) line) st"

definition DismissAll :: "companion_env \<Rightarrow> hirer \<Rightarrow> companions \<Rightarrow> companions \<times> bool" where
  "DismissAll env player st =
     (if \<not> sm_has (co_managers st) (hr_guid player) then (st, False)
      else
        let mine = CompanionsOf st (hr_guid player)
        in if mine = [] then (hear player ''Nobody is travelling with you.'' st, False)
           else
             let names = map (\<lambda>guid. case ce_name env guid of None \<Rightarrow> [] | Some n \<Rightarrow> n)
                           (filter (\<lambda>guid. online_body env guid \<noteq> None) mine);
                 st1 = fold (\<lambda>guid st. fst (DeleteBot env (ManagerOf (hr_guid player)) guid True st)) mine st
             in (hear player (if length names = 1 then hd names @ '' takes their leave.''
                              else ''Your companions take their leave.'') st1, True))"

definition created_name :: "string list \<Rightarrow> string" where
  "created_name messages =
     fold (\<lambda>line created. if take 13 line = ''Bot created: '' then drop 13 line else created) messages []"

definition hire_class :: "hire_book \<Rightarrow> u32 \<Rightarrow> u32 \<Rightarrow> u32 res" where
  "hire_class book role classId =
     (let wanted = RoleFromScriptOption role
      in if classId \<noteq> 0 \<and> getPremadePaths book classId [] wanted = []
         then Inl (''A '' @ hb_className book (classId AND 255) @ '' is not '' @ RoleName role @ ''.'')
         else
           let named = (if classId \<noteq> 0 then classId AND 255 else 0);
               cls = (if named \<noteq> 0 then named else roll_class book wanted 20 0)
           in if cls = 0 then Inl (''I could not find '' @ RoleName role @ '' for you just now.'') else Inr cls)"

definition hire_spec :: "hire_book \<Rightarrow> u32 \<Rightarrow> u32 \<Rightarrow> string \<Rightarrow> string res" where
  "hire_spec book role cls spec =
     (let wanted = RoleFromScriptOption role; specName = pick_spec book cls wanted spec
      in if spec = [] then Inr []
         else if specName = []
         then Inl (''Specs for a '' @ formatRole wanted @ '' '' @ hb_className book cls @ '': ''
                @ join_with '', '' (getPremadePaths book cls [] wanted) @ ''.'')
         else Inr specName)"

text \<open>Why a player may not hire now, in the order the code asks; nothing said stands for the silent refusal.\<close>

definition hire_refusal :: "InvasionManager \<Rightarrow> hirer \<Rightarrow> companions \<Rightarrow> string option" where
  "hire_refusal invasions player st =
     (if IsInvading invasions (hr_guid player) then Some ''Not while you are invading.''
      else case hr_group player of
             Some (leader, full) \<Rightarrow>
               if leader \<noteq> hr_guid player then Some ''Only the leader of a party can hire companions.''
               else if full then Some ''Your party is already full.''
               else if CountFor st (hr_guid player) \<ge> MAX_PER_PLAYER
               then Some (''You already have '' @ to_string (CountFor st (hr_guid player)) @ '' travelling with you. Send one home first.'')
               else None
           | None \<Rightarrow>
               if CountFor st (hr_guid player) \<ge> MAX_PER_PLAYER
               then Some (''You already have '' @ to_string (CountFor st (hr_guid player)) @ '' travelling with you. Send one home first.'')
               else None)"

definition Playerbot_RecruitBotForPlayer ::
  "companion_env \<Rightarrow> hire_book \<Rightarrow> InvasionManager \<Rightarrow> hirer \<Rightarrow> u32 \<Rightarrow> u32 \<Rightarrow> string \<Rightarrow> companions \<Rightarrow> companions \<times> bool" where
  "Playerbot_RecruitBotForPlayer env book invasions player role classId spec st =
     (if \<not> ce_enabled env then (st, False)
      else if role = SO_RECRUIT_DISMISS then DismissAll env player st
      else
        case hire_refusal invasions player st of
          Some line \<Rightarrow> (hear player line st, False)
        | None \<Rightarrow>
            if \<not> sm_has (co_managers st) (hr_guid player) then (st, False)
            else
              case hire_class book role classId of
                Inl line \<Rightarrow> (hear player line st, False)
              | Inr cls \<Rightarrow>
                  case hire_spec book role cls spec of
                    Inl line \<Rightarrow> (hear player line st, False)
                  | Inr specName \<Rightarrow>
                      let order = \<lparr>ho_level = hr_level player, ho_class = hb_className book cls,
                                   ho_role = formatRole (RoleFromScriptOption role), ho_group = hr_name player,
                                   ho_spec = specName, ho_naked = hr_level player \<ge> 5\<rparr>;
                          (st1, messages) = CreateBot env player order st;
                          created = created_name messages
                      in if created = []
                         then (fold (hear player) (filter (\<lambda>line. \<not> occurs_in ''online'' line) messages) st1, False)
                         else (hear player (created @ '' will be along shortly.'') st1, True))"

definition HIRE_CLASSES :: "u32 list" where
  "HIRE_CLASSES = [1, 2, 3, 4, 5, 7, 8, 9, 11]"

definition Playerbot_HireClasses :: "companion_env \<Rightarrow> hire_book \<Rightarrow> u32 \<Rightarrow> string" where
  "Playerbot_HireClasses env book role =
     (if \<not> ce_enabled env then []
      else join_with '','' (map (hb_className book)
             (filter (\<lambda>cls. getPremadePaths book cls [] (RoleFromScriptOption role) \<noteq> []) HIRE_CLASSES)))"

definition Playerbot_SendCompanionHome :: "companion_env \<Rightarrow> hirer \<Rightarrow> string \<Rightarrow> companions \<Rightarrow> companions \<times> bool" where
  "Playerbot_SendCompanionHome env player name st =
     (if name = [] \<or> \<not> ce_enabled env then (st, False)
      else if \<not> sm_has (co_managers st) (hr_guid player) then (st, False)
      else
        case find (\<lambda>guid. map_option LowerAscii (ce_name env guid) = Some (LowerAscii name))
               (CompanionsOf st (hr_guid player)) of
          None \<Rightarrow> (hear player (name @ '' is not travelling with you.'') st, False)
        | Some guid \<Rightarrow>
            (hear player (the (ce_name env guid) @ '' takes their leave.'')
               (fst (DeleteBot env (ManagerOf (hr_guid player)) guid True st)), True))"

subsection \<open>Chat commands\<close>

definition HandleCompanionsCommand :: "companion_env \<Rightarrow> hirer \<Rightarrow> string \<Rightarrow> companions \<Rightarrow> companions" where
  "HandleCompanionsCommand env me args st =
     (let names = List.map_filter (ce_name env) (CompanionsOf st (hr_guid me))
      in if args = ''sync''
         then noted (AddonLine (hr_guid me) ''CCMODE'' (if IsAggro st (hr_guid me) then ''aggro'' else ''defend''))
                (noted (AddonLine (hr_guid me) ''CCOMP'' (join_with '';'' names)) st)
         else if names = [] then hear me ''No companions out.'' st
         else hear me (''Companions: '' @ join_with '', '' names @ ''.'') st)"

definition trim_blanks :: "string \<Rightarrow> string" where
  "trim_blanks s = (let blank = (\<lambda>c. c = CHR '' '' \<or> c = CHR 0x09)
     in rev (dropWhile blank (rev (dropWhile blank s))))"

text \<open>
  \<open>.cc\<close>: the mode words are the caller's own, any other order goes to his companions. The members of
  the group and the selected player are arguments, with whether each has an AI.
\<close>

definition HandleCompanionOrderCommand ::
  "hirer \<Rightarrow> (u32 \<times> bool) list option \<Rightarrow> (u32 \<times> bool) option \<Rightarrow> string \<Rightarrow> companions \<Rightarrow> companions \<times> bool" where
  "HandleCompanionOrderCommand me party target args st =
     (let order = trim_blanks args; word = LowerAscii order
      in if order = []
         then (hear me ''Syntax: .cc attack | pull | follow | stay | flee | summon | aggro | defend | mode'' st, False)
         else if word \<in> {''aggro'', ''defend'', ''mode''}
         then
           let aggro = (if word = ''mode'' then \<not> IsAggro st (hr_guid me) else word = ''aggro'');
               st1 = SetAggro (hr_guid me) aggro st;
               st2 = noted (AddonLine (hr_guid me) ''CCMODE'' (if aggro then ''aggro'' else ''defend'')) st1
           in (hear me (if aggro then ''Aggro: companions attack when you do.''
                        else ''Defend: companions wait until a mob reaches the group.'') st2, True)
         else
           let mine = (\<lambda>p. fst p \<noteq> hr_guid me \<and> snd p \<and> IsCompanion st (fst p));
               recipients = (case party of Some members \<Rightarrow> filter mine members
                             | None \<Rightarrow> (case target of None \<Rightarrow> [] | Some p \<Rightarrow> filter mine [p]))
           in if recipients = []
              then (hear me (if party \<noteq> None then ''No companion in your group.'' else ''Target a companion, or group with one.'') st, False)
              else (fold (\<lambda>p. noted (Ordered (fst p) order)) recipients st, True))"

end
