(* ===== verification/CompanionRules.thy ===== *)
theory CompanionRules
  imports CompanionHires
begin

section \<open>The registry and its table\<close>

text \<open>
  A companion's seat is its owner, its account and its stamp, 0 while it is out. The maps in memory and
  the table are two stores of seats, paired by the interface \<open>mirror\<close>; \<open>well_registered\<close> says that
  they agree and what else holds at every moment, and one lemma per operation that it stays so.
\<close>

type_synonym seat = "u32 \<times> u32 \<times> u32"

definition mem_look :: "companions \<Rightarrow> u32 \<Rightarrow> seat option" where
  "mem_look st k =
     (case sm_find (s_owner st) k of
        None \<Rightarrow> None
      | Some owner \<Rightarrow>
          Some (owner, (case sm_find (s_account st) k of None \<Rightarrow> 0 | Some acc \<Rightarrow> acc),
                (case sm_find (s_parked st) k of None \<Rightarrow> 0 | Some since \<Rightarrow> of_int since)))"

definition mem_store :: "u32 \<Rightarrow> seat \<Rightarrow> companions \<Rightarrow> companions" where
  "mem_store k seat st =
     st\<lparr>s_owner := sm_put k (fst seat) (s_owner st),
        s_account := sm_put k (fst (snd seat)) (s_account st),
        s_parked := (if snd (snd seat) = 0 then sm_erase k (s_parked st)
                     else sm_put k (uint (snd (snd seat))) (s_parked st))\<rparr>"

definition mem_drop :: "u32 \<Rightarrow> companions \<Rightarrow> companions" where
  "mem_drop k st =
     st\<lparr>s_owner := sm_erase k (s_owner st), s_account := sm_erase k (s_account st),
        s_parked := sm_erase k (s_parked st)\<rparr>"

definition row_seat :: "owner_row \<Rightarrow> seat" where
  "row_seat row = (or_owner row, or_account row, or_parked row)"

definition tab_look :: "companions \<Rightarrow> u32 \<Rightarrow> seat option" where
  "tab_look st k = map_option row_seat (sm_find (db_companion_owner st) k)"

definition tab_store :: "u32 \<Rightarrow> seat \<Rightarrow> companions \<Rightarrow> companions" where
  "tab_store k seat st = st\<lparr>db_companion_owner :=
     sm_put k \<lparr>or_owner = fst seat, or_account = fst (snd seat), or_created = 0, or_parked = snd (snd seat)\<rparr>
       (db_companion_owner st)\<rparr>"

definition tab_drop :: "u32 \<Rightarrow> companions \<Rightarrow> companions" where
  "tab_drop k st = st\<lparr>db_companion_owner := sm_erase k (db_companion_owner st)\<rparr>"

interpretation seats: mirror mem_look mem_store mem_drop tab_look tab_store tab_drop
  by unfold_locales
    (auto simp: mem_look_def mem_store_def mem_drop_def tab_look_def tab_store_def tab_drop_def row_seat_def
       split: option.splits)

subsection \<open>The invariant\<close>

definition followers :: "companions \<Rightarrow> u32 \<Rightarrow> u32 set" where
  "followers st owner = {k. sm_find (s_owner st) k = Some owner}"

definition maps_ok :: "companions \<Rightarrow> bool" where
  "maps_ok st \<longleftrightarrow> sm_ok (s_owner st) \<and> sm_ok (s_account st) \<and> sm_ok (s_parked st) \<and> sm_ok (s_pendingDismiss st)
     \<and> sm_ok (db_companion_owner st) \<and> sm_ok (db_characters st) \<and> sm_ok (s_accounts st)"

definition seat_ok :: "companions \<Rightarrow> u32 \<Rightarrow> bool" where
  "seat_ok st k \<longleftrightarrow>
     (case sm_find (s_owner st) k of
        None \<Rightarrow> \<not> sm_has (s_account st) k \<and> \<not> sm_has (s_parked st) k
      | Some owner \<Rightarrow> k \<noteq> 0 \<and> owner \<noteq> 0 \<and> \<not> sm_has (s_owner st) owner
          \<and> (case sm_find (s_account st) k of None \<Rightarrow> False | Some acc \<Rightarrow> IsCompanionAccount st acc)
          \<and> (case sm_find (s_parked st) k of None \<Rightarrow> True | Some since \<Rightarrow> 0 < since \<and> since < 2 ^ 32))"

definition well_registered :: "companions \<Rightarrow> bool" where
  "well_registered st \<longleftrightarrow> maps_ok st \<and> mem_look st = tab_look st \<and> (\<forall>k. seat_ok st k)
     \<and> (\<forall>owner. card (followers st owner) \<le> 2)"

definition clock_ok :: "companion_env \<Rightarrow> bool" where
  "clock_ok env \<longleftrightarrow> 0 < ce_now env \<and> ce_now env < 2 ^ 32"

named_theorems kept_registered \<open>operations that keep the registry in order\<close>

lemma followers_finite [simp]: "finite (followers st owner)"
proof -
  have "followers st owner \<subseteq> dom (sm_find (s_owner st))" by (auto simp: followers_def)
  then show ?thesis by (rule finite_subset) (rule finite_dom_map_of)
qed

lemma CompanionsOf_set: "sm_ok (s_owner st) \<Longrightarrow> set (CompanionsOf st owner) = followers st owner"
  by (force simp: CompanionsOf_def followers_def sm_find_in)

lemma CompanionsOf_distinct: "sm_ok (s_owner st) \<Longrightarrow> distinct (CompanionsOf st owner)"
  unfolding CompanionsOf_def by (intro distinct_map_filter sm_ok_distinct)

lemma CountFor_length: "CountFor st owner = of_nat (length (CompanionsOf st owner))"
proof -
  have "fold (\<lambda>entry n. if snd entry = owner then n + 1 else n) m n
      = n + of_nat (length (filter (\<lambda>entry. snd entry = owner) m))" for m :: "(u32, u32) smap" and n :: u32
    by (induction m arbitrary: n) auto
  from this [of "s_owner st" 0] show ?thesis by (simp add: CountFor_def CompanionsOf_def)
qed

lemma CountFor_card: "sm_ok (s_owner st) \<Longrightarrow> CountFor st owner = of_nat (card (followers st owner))"
  by (metis CountFor_length CompanionsOf_set CompanionsOf_distinct distinct_card)

lemma well_registeredD:
  assumes "well_registered st"
  shows "maps_ok st" and "mem_look st = tab_look st" and "seat_ok st k" and "card (followers st owner) \<le> 2"
    and "sm_ok (s_owner st)"
  using assms by (auto simp: well_registered_def maps_ok_def)

lemma under_cap:
  assumes "well_registered st" and "CountFor st owner < MAX_PER_PLAYER"
  shows "card (followers st owner) < 2"
proof -
  have "unat (CountFor st owner) < 2"
    using assms(2) by (simp add: MAX_PER_PLAYER_def word_less_nat_alt)
  moreover have "card (followers st owner) < 2 ^ 32" using well_registeredD(4) [OF assms(1), of owner] by simp
  then have "unat (CountFor st owner) = card (followers st owner)"
    by (simp add: CountFor_card [OF well_registeredD(5) [OF assms(1)]] unat_of_nat)
  ultimately show ?thesis by simp
qed

text \<open>An operation on the other fields.\<close>

definition registry_of :: "companions \<Rightarrow> companions" where
  "registry_of st = st\<lparr>s_pendingDismiss := [], s_returning := [], s_aggro := [], s_deferredLogouts := [],
     co_managers := [], freeAltBots := [], db_account := [], co_log := [], db_characters := []\<rparr>"

lemma registry_of_fields:
  assumes "registry_of st' = registry_of st"
  shows "s_owner st' = s_owner st" "s_accounts st' = s_accounts st" "s_account st' = s_account st"
    "s_parked st' = s_parked st" "db_companion_owner st' = db_companion_owner st"
  using assms by (cases st; cases st'; simp add: registry_of_def)+

lemma looks_cong:
  assumes "registry_of st' = registry_of st"
  shows "mem_look st' = mem_look st" and "tab_look st' = tab_look st" and "seat_ok st' = seat_ok st"
    and "followers st' = followers st"
  unfolding fun_eq_iff mem_look_def tab_look_def seat_ok_def followers_def IsCompanionAccount_def
    registry_of_fields [OF assms] by blast+

lemma well_registered_cong:
  assumes "registry_of st' = registry_of st" and "well_registered st"
    and "sm_ok (s_pendingDismiss st')" and "sm_ok (db_characters st')"
  shows "well_registered st'"
  using assms(2-4)
  by (simp add: well_registered_def maps_ok_def looks_cong [OF assms(1)] registry_of_fields [OF assms(1)])

lemma GetOwner_cong:
  assumes "registry_of st' = registry_of st"
  shows "GetOwner st' = GetOwner st"
  by (simp add: fun_eq_iff GetOwner_def OwnerOfLocked_def registry_of_fields(1) [OF assms])

lemma registry_noted [simp]: "registry_of (noted e st) = registry_of st"
  by (simp add: registry_of_def noted_def)

lemma well_registered_noted [kept_registered]: "well_registered st \<Longrightarrow> well_registered (noted e st)"
  by (rule well_registered_cong [OF registry_noted]) (auto simp: noted_def well_registered_def maps_ok_def)

lemma well_registered_hear [kept_registered]: "well_registered st \<Longrightarrow> well_registered (hear p l st)"
  by (simp add: hear_def well_registered_noted)

lemma well_registered_QueueDismiss [kept_registered]: "well_registered st \<Longrightarrow> well_registered (QueueDismiss g st)"
  by (rule well_registered_cong) (auto simp: QueueDismiss_def registry_of_def well_registered_def maps_ok_def)

lemma fold_kept:
  assumes "\<And>x st. P st \<Longrightarrow> P (f x st)" and "P st"
  shows "P (fold f xs st)"
  using assms(2) by (induction xs arbitrary: st) (auto intro: assms(1))

lemma well_registered_hook [kept_registered]: "well_registered st \<Longrightarrow> well_registered (run_hook env h st)"
  by (auto simp: run_hook_def OnRemoveMember_def OnDisband_def Let_def
      intro!: fold_kept [where P = well_registered] well_registered_QueueDismiss split: party_hook.splits)

lemma well_registered_erase_character:
  "well_registered st \<Longrightarrow> well_registered (st\<lparr>db_characters := sm_erase g (db_characters st)\<rparr>)"
  by (rule well_registered_cong) (auto simp: registry_of_def well_registered_def maps_ok_def)

lemma well_registered_DeleteFromDB [kept_registered]: "well_registered st \<Longrightarrow> well_registered (DeleteFromDB env g st)"
  unfolding DeleteFromDB_def Let_def
  by (intro well_registered_erase_character fold_kept [where P = well_registered] well_registered_hook)

subsection \<open>The operations that change a seat\<close>

lemma looks_Unregister:
  "g \<noteq> 0 \<Longrightarrow> mem_look (Unregister g st) = mem_look (mem_drop g st)"
  "g \<noteq> 0 \<Longrightarrow> tab_look (Unregister g st) = tab_look (tab_drop g st)"
  by (auto simp: fun_eq_iff Unregister_def mem_look_def mem_drop_def tab_look_def tab_drop_def split: option.splits)

lemma followers_shrink:
  assumes "\<And>k. sm_find (s_owner st') k = Some owner \<Longrightarrow> sm_find (s_owner st) k = Some owner"
    and "card (followers st owner) \<le> n"
  shows "card (followers st' owner) \<le> n"
  using card_mono [of "followers st owner" "followers st' owner"] assms
  by (fastforce simp: followers_def)

lemma well_registered_Unregister [kept_registered]:
  assumes "well_registered st"
  shows "well_registered (Unregister g st)"
proof (cases "g = 0")
  case True
  then show ?thesis using assms by (simp add: Unregister_def)
next
  case False
  have "seat_ok (Unregister g st) k" for k
    using well_registeredD(3) [OF assms, of k] False
    by (auto simp: seat_ok_def Unregister_def IsCompanionAccount_def split: option.splits if_splits)
  moreover have "card (followers (Unregister g st) owner) \<le> 2" for owner
    by (rule followers_shrink [OF _ well_registeredD(4) [OF assms]])
      (auto simp: Unregister_def split: if_splits)
  ultimately show ?thesis
    using assms False seats.agree_drop [OF well_registeredD(2) [OF assms]]
    by (simp add: well_registered_def looks_Unregister) (simp add: maps_ok_def Unregister_def)
qed

lemma NoteAccount_fields [simp]:
  "s_owner (NoteAccount acc st) = s_owner st" "s_account (NoteAccount acc st) = s_account st"
  "s_parked (NoteAccount acc st) = s_parked st" "s_pendingDismiss (NoteAccount acc st) = s_pendingDismiss st"
  "db_companion_owner (NoteAccount acc st) = db_companion_owner st" "db_characters (NoteAccount acc st) = db_characters st"
  "sm_ok (s_accounts st) \<Longrightarrow> sm_ok (s_accounts (NoteAccount acc st))"
  "sm_has (s_accounts (NoteAccount acc st)) a \<longleftrightarrow> sm_has (s_accounts st) a \<or> a = acc \<and> acc \<noteq> 0"
  by (auto simp: NoteAccount_def)

lemma well_registered_NoteAccount [kept_registered]: "well_registered st \<Longrightarrow> well_registered (NoteAccount acc st)"
proof -
  assume st: "well_registered st"
  have "mem_look (NoteAccount acc st) = mem_look st" "tab_look (NoteAccount acc st) = tab_look st"
    "followers (NoteAccount acc st) = followers st" "maps_ok (NoteAccount acc st)"
    using st
    by (simp_all add: fun_eq_iff mem_look_def tab_look_def followers_def well_registered_def maps_ok_def cong: option.case_cong)
  moreover have "seat_ok (NoteAccount acc st) k" for k
    using well_registeredD(3) [OF st, of k]
    by (auto simp: seat_ok_def IsCompanionAccount_def split: option.splits)
  ultimately show ?thesis using st by (simp add: well_registered_def)
qed

lemma well_registered_Register:
  assumes "well_registered st" and "card (followers st owner) < 2" and "acc \<noteq> 0"
    and "\<not> sm_has (s_owner st) g" and "\<not> sm_has (s_owner st) owner" and "followers st g = {}" and "g \<noteq> owner"
  shows "well_registered (Register env owner g acc st)"
proof (cases "owner = 0 \<or> g = 0")
  case True
  then show ?thesis using assms by (auto simp: Register_def)
next
  case False
  let ?st = "Register env owner g acc st"
  have "mem_look ?st = mem_look (mem_store g (owner, acc, 0) st)" "tab_look ?st = tab_look (tab_store g (owner, acc, 0) st)"
    using False
    by (auto simp: fun_eq_iff Register_def NoteAccount_def Let_def mem_look_def mem_store_def tab_look_def tab_store_def
        row_seat_def split: option.splits)
  moreover have "seat_ok ?st k" for k
    using well_registeredD(3) [OF assms(1), of k] False assms(3-7)
    by (auto simp: seat_ok_def Register_def NoteAccount_def IsCompanionAccount_def Let_def followers_def
        split: option.splits if_splits)
  moreover have "card (followers ?st o') \<le> 2" for o'
  proof (cases "o' = owner")
    case True
    have "followers ?st owner \<subseteq> insert g (followers st owner)"
      using False by (auto simp: followers_def Register_def NoteAccount_def Let_def split: if_splits)
    then have "card (followers ?st owner) \<le> card (insert g (followers st owner))"
      by (intro card_mono) simp_all
    also have "\<dots> \<le> Suc (card (followers st owner))" by (simp add: card_insert_if)
    finally have "card (followers ?st owner) \<le> Suc (card (followers st owner))" .
    then show ?thesis using assms(2) True by simp
  next
    case False
    with \<open>\<not> (owner = 0 \<or> g = 0)\<close> show ?thesis
      by (intro followers_shrink [OF _ well_registeredD(4) [OF assms(1)]])
        (auto simp: Register_def NoteAccount_def Let_def split: if_splits)
  qed
  ultimately show ?thesis
    using assms(1) False seats.agree_store [OF well_registeredD(2) [OF assms(1)]]
    by (simp add: well_registered_def) (simp add: maps_ok_def Register_def NoteAccount_def Let_def)
qed

lemma map_of_map_rows: "sm_find (map (\<lambda>(k, row). (k, f k row)) m) k = map_option (f k) (sm_find m k)"
  by (induction m) auto

lemma sm_ok_map_rows: "sm_ok (map (\<lambda>(k, row). (k, f k row)) m) = sm_ok m"
  by (simp add: sm_ok_def comp_def split_beta)

lemma well_registered_Unpark [kept_registered]:
  assumes "well_registered st"
  shows "well_registered (Unpark g st)"
proof (cases "sm_has (s_parked st) g")
  case False
  then show ?thesis using assms by (simp add: Unpark_def)
next
  case True
  let ?out = "\<lambda>k (seat :: seat). if k = g then (fst seat, fst (snd seat), 0) else seat"
  have "mem_look (Unpark g st) k = map_option (?out k) (mem_look st k)" for k
    using True by (auto simp: Unpark_def write_parked_def mem_look_def split: option.splits)
  moreover have "tab_look (Unpark g st) k = map_option (?out k) (tab_look st k)" for k
    using True
    by (cases "sm_find (db_companion_owner st) k")
      (auto simp: Unpark_def write_parked_def tab_look_def row_seat_def map_of_map_rows)
  ultimately have "mem_look (Unpark g st) = tab_look (Unpark g st)"
    using well_registeredD(2) [OF assms] by (simp add: fun_eq_iff)
  moreover have "seat_ok (Unpark g st) k" for k
    using well_registeredD(3) [OF assms, of k]
    by (auto simp: seat_ok_def Unpark_def write_parked_def IsCompanionAccount_def split: option.splits)
  moreover have "followers (Unpark g st) = followers st"
    by (auto simp: fun_eq_iff followers_def Unpark_def write_parked_def)
  ultimately show ?thesis
    using assms by (simp add: well_registered_def) (simp add: maps_ok_def Unpark_def write_parked_def sm_ok_map_rows)
qed

lemma sm_find_fold_put:
  "sm_find (fold (\<lambda>entry. sm_put (fst entry) v) xs m) k = (if k \<in> fst ` set xs then Some v else sm_find m k)"
  by (induction xs arbitrary: m) auto

lemma sm_ok_fold_put: "sm_ok m \<Longrightarrow> sm_ok (fold (\<lambda>entry. sm_put (fst entry) v) xs m)"
  by (induction xs arbitrary: m) auto

lemma keys_with: "k \<in> fst ` {entry \<in> set m. snd entry = v} \<longleftrightarrow> (k, v) \<in> set m"
  by force

lemma parked_by_owner:
  "sm_ok (s_owner st) \<Longrightarrow> owner \<noteq> 0 \<Longrightarrow> sm_find (s_parked (ParkAll env owner st)) k
    = (if sm_find (s_owner st) k = Some owner then Some (ce_now env) else sm_find (s_parked st) k)"
  by (auto simp: ParkAll_def Let_def sm_find_fold_put sm_find_in keys_with filter_empty_conv)

lemma ParkAll_fields [simp]:
  "s_owner (ParkAll env owner st) = s_owner st" "s_account (ParkAll env owner st) = s_account st"
  "s_accounts (ParkAll env owner st) = s_accounts st" "s_pendingDismiss (ParkAll env owner st) = s_pendingDismiss st"
  "db_characters (ParkAll env owner st) = db_characters st" "co_managers (ParkAll env owner st) = co_managers st"
  by (auto simp: ParkAll_def Let_def)

lemma well_registered_ParkAll:
  assumes "well_registered st" and "clock_ok env"
  shows "well_registered (ParkAll env owner st)"
proof (cases "owner = 0 \<or> filter (\<lambda>entry. snd entry = owner) (s_owner st) = []")
  case True
  then show ?thesis using assms by (auto simp: ParkAll_def Let_def)
next
  case False
  let ?in = "\<lambda>(seat :: seat). if fst seat = owner then (fst seat, fst (snd seat), of_int (ce_now env)) else seat"
  note mem = parked_by_owner [OF well_registeredD(5) [OF assms(1)], of owner env]
  have "mem_look (ParkAll env owner st) k = map_option ?in (mem_look st k)" for k
    using False by (auto simp: mem_look_def mem split: option.splits)
  moreover have "tab_look (ParkAll env owner st) k = map_option ?in (tab_look st k)" for k
    using False
    by (cases "sm_find (db_companion_owner st) k")
      (auto simp: ParkAll_def Let_def tab_look_def row_seat_def map_of_map_rows)
  ultimately have "mem_look (ParkAll env owner st) = tab_look (ParkAll env owner st)"
    using well_registeredD(2) [OF assms(1)] by (simp add: fun_eq_iff)
  moreover have "seat_ok (ParkAll env owner st) k" for k
    using well_registeredD(3) [OF assms(1), of k] assms(2) False
    by (auto simp: seat_ok_def mem IsCompanionAccount_def clock_ok_def sm_has_def split: option.splits)
  moreover have "followers (ParkAll env owner st) = followers st"
    by (auto simp: fun_eq_iff followers_def)
  ultimately show ?thesis
    using assms(1) by (simp add: well_registered_def)
      (auto simp: maps_ok_def ParkAll_def Let_def sm_ok_map_rows sm_ok_fold_put)
qed

end
