(* ===== verification/CompanionLaws.thy ===== *)
theory CompanionLaws
  imports CompanionRules
begin

section \<open>Laws of the registry\<close>

text \<open>
  The interface \<open>registry_law\<close> and its first use: every operation of the module keeps the registry in order.
\<close>

subsection \<open>Interface: a law of the registry\<close>

text \<open>
  What every compound operation does to the registry it does by a few elementary changes. A predicate
  on the state that those keep is kept by all of them; \<open>registry_law\<close> says so once.
\<close>

locale registry_law =
  fixes law :: "companions \<Rightarrow> bool"
  assumes law_noted: "law st \<Longrightarrow> law (noted e st)"
    and law_QueueDismiss: "law st \<Longrightarrow> law (QueueDismiss g st)"
    and law_Unregister: "law st \<Longrightarrow> law (Unregister g st)"
    and law_Unpark: "law st \<Longrightarrow> law (Unpark g st)"
    and law_erase: "law st \<Longrightarrow> law (st\<lparr>db_characters := sm_erase g (db_characters st)\<rparr>)"
    and law_deferred: "law st \<Longrightarrow> law (st\<lparr>s_deferredLogouts := ds\<rparr>)"
    and law_managers: "law st \<Longrightarrow> law (st\<lparr>co_managers := ms\<rparr>)"
    and law_queue: "law st \<Longrightarrow> law (st\<lparr>freeAltBots := qs\<rparr>)"
    and law_pending: "law st \<Longrightarrow> law (st\<lparr>s_pendingDismiss := filter p (s_pendingDismiss st)\<rparr>)"
    and law_returning: "law st \<Longrightarrow> law (st\<lparr>s_returning := rs\<rparr>)"
begin

lemma law_fold: "(\<And>x st. law st \<Longrightarrow> law (f x st)) \<Longrightarrow> law st \<Longrightarrow> law (fold f xs st)"
  by (rule fold_kept)

lemma law_hook: "law st \<Longrightarrow> law (run_hook env h st)"
  by (auto simp: run_hook_def OnRemoveMember_def OnDisband_def Let_def intro!: law_fold law_QueueDismiss
      split: party_hook.splits)

lemma law_DeleteFromDB: "law st \<Longrightarrow> law (DeleteFromDB env g st)"
  unfolding DeleteFromDB_def Let_def by (intro law_erase law_fold law_hook)

lemma law_finish_delete: "law st \<Longrightarrow> law (fst (finish_delete env holder g st))"
  by (cases holder) (auto simp: finish_delete_def OnBotDeleted_def intro!: law_Unregister law_noted law_DeleteFromDB)

lemma law_ready: "law st \<Longrightarrow> law (ready_body g b st)"
  by (auto simp: ready_body_def Let_def intro!: law_noted)

lemma law_DeleteBot: "law st \<Longrightarrow> law (fst (DeleteBot env holder g allow st))"
  by (auto simp: DeleteBot_def DeferBotLogout_def Let_def intro!: law_deferred law_finish_delete law_noted law_ready
      split: option.splits)

lemma law_drain_one: "law st \<Longrightarrow> law (drain_one env d st)"
  using law_DeleteBot [of st env "holderOf env st (dl_masterGuid d)" "dl_guid d" "dl_allowInstant d"]
  by (auto simp: drain_one_def Let_def split_beta intro!: law_noted law_Unregister)

lemma law_drain: "law st \<Longrightarrow> law (DrainDeferredBotWork env st)"
  unfolding DrainDeferredBotWork_def by (intro law_fold law_drain_one law_deferred)

lemma law_MarkReturning: "law st \<Longrightarrow> law (MarkReturning g st)"
  by (simp add: MarkReturning_def law_returning)

lemma law_TakeReturning: "law st \<Longrightarrow> law (fst (TakeReturning g st))"
  by (simp add: TakeReturning_def law_returning)

lemma law_restore_one: "law st \<Longrightarrow> law (restore_one env master p st)"
  unfolding restore_one_def Let_def
  by (auto intro!: law_noted law_DeleteBot law_Unpark law_queue law_MarkReturning)

lemma law_restore: "law st \<Longrightarrow> law (RestoreParkedCompanions env master st)"
  by (simp add: RestoreParkedCompanions_def law_fold law_restore_one)

lemma law_update: "law st \<Longrightarrow> law (UpdateCompanions env master st)"
  by (auto simp: UpdateCompanions_def TakeQueuedDismissals_def Let_def
      intro!: law_restore law_managers law_fold law_DeleteBot law_pending split: option.splits)

lemma law_login: "law st \<Longrightarrow> law (OnLogin isBot g st)"
  by (simp add: OnLogin_def law_managers)

lemma law_free_bot: "law (fst acc) \<Longrightarrow> law (fst (free_bot env entry acc))"
  by (cases acc; cases entry) (auto simp: free_bot_def intro!: law_noted split: option.splits)

lemma law_logins: "law st \<Longrightarrow> law (LoginFreeBots env st)"
proof -
  assume st: "law st"
  have "law (fst (fold (free_bot env) es acc))" if "law (fst acc)" for es acc
    by (rule fold_kept [where P = "\<lambda>acc. law (fst acc)"]) (use that in \<open>simp_all add: law_free_bot\<close>)
  from this [of "(st, [], [])" "freeAltBots st"] show ?thesis
    using st by (auto simp: LoginFreeBots_def Let_def split_beta intro!: law_fold law_noted law_queue)
qed

lemma law_hear: "law st \<Longrightarrow> law (hear p line st)"
  by (simp add: hear_def law_noted)

lemma law_DismissAll: "law st \<Longrightarrow> law (fst (DismissAll env player st))"
  by (auto simp: DismissAll_def Let_def intro!: law_hear law_fold law_DeleteBot)

lemma law_SendHome: "law st \<Longrightarrow> law (fst (Playerbot_SendCompanionHome env player name st))"
  by (auto simp: Playerbot_SendCompanionHome_def intro!: law_hear law_DeleteBot split: option.splits)

lemma law_HandleBotDelete: "law st \<Longrightarrow> HandleBotDelete env master g st = Some (st', r) \<Longrightarrow> law st'"
  by (auto simp: HandleBotDelete_def Let_def intro!: law_DeleteBot split: if_splits)

end

subsection \<open>The registry in order\<close>

text \<open>Every account the registry takes for one of the pool has a name of the pool.\<close>

definition pool_known :: "companions \<Rightarrow> bool" where
  "pool_known st \<longleftrightarrow> sm_ok (db_account st)
     \<and> (\<forall>acc. IsCompanionAccount st acc \<longrightarrow> (case sm_find (db_account st) acc of None \<Rightarrow> False | Some name \<Rightarrow> is_pool_name name))"

definition in_order :: "companions \<Rightarrow> bool" where
  "in_order st \<longleftrightarrow> well_registered st \<and> pool_known st"

lemma pool_known_cong:
  "s_accounts st' = s_accounts st \<Longrightarrow> db_account st' = db_account st \<Longrightarrow> pool_known st \<Longrightarrow> pool_known st'"
  by (simp add: pool_known_def IsCompanionAccount_def)

lemma in_order_frame:
  assumes "registry_of st' = registry_of st" and "db_account st' = db_account st" and "in_order st"
    and "sm_ok (s_pendingDismiss st')" and "sm_ok (db_characters st')"
  shows "in_order st'"
  using assms(3) well_registered_cong [OF assms(1) _ assms(4,5)]
    pool_known_cong [OF registry_of_fields(2) [OF assms(1)] assms(2)]
  by (simp add: in_order_def)

lemma in_order_maps [simp]:
  "in_order st \<Longrightarrow> sm_ok (s_pendingDismiss st)" "in_order st \<Longrightarrow> sm_ok (db_characters st)"
  "in_order st \<Longrightarrow> sm_ok (s_owner st)" "in_order st \<Longrightarrow> sm_ok (s_parked st)"
  "in_order st \<Longrightarrow> sm_ok (db_companion_owner st)" "in_order st \<Longrightarrow> sm_ok (db_account st)"
  by (simp_all add: in_order_def well_registered_def maps_ok_def pool_known_def)

lemma sm_ok_filter: "sm_ok m \<Longrightarrow> sm_ok (filter p m)"
  unfolding sm_ok_def by (induction m) auto

lemma in_order_Unregister: "in_order st \<Longrightarrow> in_order (Unregister g st)"
  unfolding in_order_def
  by (intro conjI well_registered_Unregister pool_known_cong [of "Unregister g st" st]) (simp_all add: Unregister_def)

lemma in_order_Unpark: "in_order st \<Longrightarrow> in_order (Unpark g st)"
  unfolding in_order_def
  by (intro conjI well_registered_Unpark pool_known_cong [of "Unpark g st" st]) (simp_all add: Unpark_def write_parked_def)

interpretation kept: registry_law in_order
proof unfold_locales
  fix st g
  assume "in_order st"
  then show "in_order (QueueDismiss g st)"
    by (rule in_order_frame [rotated 2]) (auto simp: QueueDismiss_def registry_of_def \<open>in_order st\<close>)
qed (auto intro: in_order_Unregister in_order_Unpark in_order_frame [rotated 2]
    simp: registry_of_def noted_def sm_ok_filter)

lemma in_order_ParkAll: "in_order st \<Longrightarrow> clock_ok env \<Longrightarrow> in_order (ParkAll env owner st)"
  using well_registered_ParkAll [of st env owner] pool_known_cong [of "ParkAll env owner st" st]
  by (simp add: in_order_def) (simp add: ParkAll_def Let_def)

lemma in_order_logout: "in_order st \<Longrightarrow> clock_ok env \<Longrightarrow> in_order (OnBeforeLogout env g st)"
  by (auto simp: OnBeforeLogout_def Let_def intro!: kept.law_managers in_order_ParkAll)

lemma in_order_SetAggro: "in_order st \<Longrightarrow> in_order (SetAggro g on st)"
  by (rule in_order_frame [rotated 2]) (auto simp: SetAggro_def registry_of_def)

lemma in_order_order: "in_order st \<Longrightarrow> in_order (fst (HandleCompanionOrderCommand me party target args st))"
  by (auto simp: HandleCompanionOrderCommand_def Let_def
      intro!: kept.law_hear kept.law_noted in_order_SetAggro kept.law_fold)

subsection \<open>The hire\<close>

lemma pool_name_dec: "is_pool_name (ACCOUNT_PREFIX @ dec_nat n)"
  using dec_nat_digits [of n] dec_nat_nonempty [of n]
  by (auto simp: is_pool_name_def list_all_iff IsDigitAscii_def is_digit_def less_eq_char_def)

lemma GetId_row:
  assumes "sm_ok (db_account st)" and "GetId st name = acc" and "acc \<noteq> 0"
  shows "sm_find (db_account st) acc = Some name"
proof -
  obtain p where p: "find (\<lambda>acc. snd acc = name) (db_account st) = Some p" "acc = fst p"
    using assms(2,3) by (auto simp: GetId_def split: option.splits)
  then have "p \<in> set (db_account st)" "snd p = name" by (auto simp: find_Some_iff)
  with p assms(1) show ?thesis by (auto simp: sm_find_in)
qed

lemma in_order_account:
  assumes "in_order st" and "is_pool_name name"
  shows "in_order (st\<lparr>db_account := sm_put acc name (db_account st)\<rparr>)"
proof -
  have "well_registered st" using assms(1) by (simp add: in_order_def)
  then have "well_registered (st\<lparr>db_account := sm_put acc name (db_account st)\<rparr>)"
    by (rule well_registered_cong [rotated]) (use assms(1) in \<open>simp_all add: registry_of_def\<close>)
  moreover have "pool_known st" using assms(1) by (simp add: in_order_def)
  then have "pool_known (st\<lparr>db_account := sm_put acc name (db_account st)\<rparr>)"
    using assms(2) by (auto simp: pool_known_def IsCompanionAccount_def split: option.splits)
  ultimately show ?thesis by (simp add: in_order_def)
qed

lemma in_order_NoteAccount:
  "in_order st \<Longrightarrow> sm_find (db_account st) acc = Some name \<Longrightarrow> is_pool_name name \<Longrightarrow> in_order (NoteAccount acc st)"
  by (simp add: in_order_def well_registered_NoteAccount)
    (auto simp: pool_known_def IsCompanionAccount_def NoteAccount_def)

lemma walk_accounts_run:
  assumes "in_order st" and "walk_accounts env left n st = (st', r)"
  shows "in_order st' \<and> s_owner st' = s_owner st
    \<and> (case r of Inl e \<Rightarrow> True | Inr acc \<Rightarrow> acc \<noteq> 0 \<and> IsCompanionAccount st' acc)"
  using assms
proof (induction env left n st rule: walk_accounts.induct)
  case (1 env n st)
  then show ?case by auto
next
  case (2 env left n st)
  let ?name = "ACCOUNT_PREFIX @ dec_nat n" and ?found = "GetId st (ACCOUNT_PREFIX @ dec_nat n)"
  let ?acc = "if ?found = 0 then ce_newAccount env else ?found"
  let ?st1 = "if ?found = 0 then st\<lparr>db_account := sm_put (ce_newAccount env) ?name (db_account st)\<rparr> else st"
  let ?st2 = "if ?found = 0 then noted (PoolAccountMade ?acc ?name) ?st1 else ?st1"
  show ?case
  proof (cases "?found = 0 \<and> \<not> ce_accountMade env")
    case True
    with 2 show ?thesis by (auto simp: Let_def)
  next
    case False
    have st1: "in_order ?st1" "s_owner ?st1 = s_owner st"
      using 2(2) in_order_account [OF 2(2) pool_name_dec] by auto
    then have st2: "in_order ?st2" "s_owner ?st2 = s_owner st"
      by (auto intro: kept.law_noted) (auto simp: noted_def)
    have row: "?acc \<noteq> 0 \<Longrightarrow> sm_find (db_account ?st2) ?acc = Some ?name"
      using GetId_row [of st ?name ?found] 2(2) by (auto simp: noted_def)
    show ?thesis
    proof (cases "?acc = 0 \<or> GetCharactersCount ?st2 ?acc < 9")
      case True
      have "?acc \<noteq> 0 \<Longrightarrow> in_order (NoteAccount ?acc ?st2)"
        using in_order_NoteAccount [OF st2(1) row pool_name_dec] by blast
      with True st1 st2 2(3) False show ?thesis
        by (auto simp: Let_def IsCompanionAccount_def split: if_splits)
    next
      case walk: False
      then have "walk_accounts env left (Suc n) ?st2 = (st', r)"
        using 2(3) False by (simp add: Let_def)
      with 2(1) [OF refl refl False refl refl _ refl _ st2(1)] walk st2 show ?thesis
        by (simp add: Let_def)
    qed
  qed
qed

text \<open>
  A new guid is nobody's: no character has it, no companion, no owner, and no delete waits for it. The
  player who hires is a character and not himself a companion.
\<close>

definition unused :: "companions \<Rightarrow> u32 \<Rightarrow> bool" where
  "unused st g \<longleftrightarrow> \<not> sm_has (db_characters st) g \<and> \<not> sm_has (s_owner st) g \<and> CompanionsOf st g = []
     \<and> list_all (\<lambda>d. dl_guid d \<noteq> g) (s_deferredLogouts st)"

definition new_guid :: "companion_env \<Rightarrow> companions \<Rightarrow> bool" where
  "new_guid env st \<longleftrightarrow> (case ce_newBot env of None \<Rightarrow> True | Some (g, name) \<Rightarrow> unused st g)"

definition may_hire :: "companions \<Rightarrow> u32 \<Rightarrow> bool" where
  "may_hire st player \<longleftrightarrow> sm_has (db_characters st) player \<and> \<not> sm_has (s_owner st) player"

lemma walk_accounts_fields:
  "walk_accounts env left n st = (st', r) \<Longrightarrow> db_characters st' = db_characters st \<and> s_parked st' = s_parked st
     \<and> db_companion_owner st' = db_companion_owner st \<and> s_pendingDismiss st' = s_pendingDismiss st
     \<and> freeAltBots st' = freeAltBots st \<and> co_managers st' = co_managers st
     \<and> s_deferredLogouts st' = s_deferredLogouts st \<and> s_owner st' = s_owner st"
proof (induction env left n st rule: walk_accounts.induct)
  case (1 env n st)
  then show ?case by simp
next
  case (2 env left n st)
  show ?case
    using 2(2) 2(1) [OF refl refl _ refl refl _ refl]
    by (auto simp: Let_def noted_def NoteAccount_def split: if_splits)
qed

lemma in_order_Register:
  assumes "in_order st" and "card (followers st owner) < 2" and "IsCompanionAccount st acc"
    and "\<not> sm_has (s_owner st) g" and "\<not> sm_has (s_owner st) owner" and "CompanionsOf st g = []" and "g \<noteq> owner"
  shows "in_order (Register env owner g acc st)"
proof -
  have "followers st g = {}"
    using assms(6) CompanionsOf_set [of st g] in_order_maps(3) [OF assms(1)] by simp
  moreover have "acc \<noteq> 0" using assms(3) by (auto simp: IsCompanionAccount_def)
  ultimately have "well_registered (Register env owner g acc st)"
    using assms by (intro well_registered_Register) (simp_all add: in_order_def)
  moreover have "IsCompanionAccount (Register env owner g acc st) a = IsCompanionAccount st a" for a
    using assms(3) by (auto simp: Register_def Let_def NoteAccount_def IsCompanionAccount_def)
  moreover have "db_account (Register env owner g acc st) = db_account st"
    by (simp add: Register_def Let_def NoteAccount_def)
  ultimately show ?thesis
    using assms(1) by (simp add: in_order_def pool_known_def)
qed

lemma in_order_character: "in_order st \<Longrightarrow> in_order (st\<lparr>db_characters := sm_put g acc (db_characters st)\<rparr>)"
  by (rule in_order_frame [rotated 2]) (simp_all add: registry_of_def)

lemma in_order_CreateBot:
  assumes "in_order st" and "new_guid env st" and "may_hire st (hr_guid master)"
  shows "in_order (fst (CreateBot env master order st))"
proof (cases "CountFor st (hr_guid master) \<ge> MAX_PER_PLAYER")
  case True
  then show ?thesis using assms(1) by (simp add: CreateBot_def)
next
  case False
  then have cap: "card (followers st (hr_guid master)) < 2"
    using under_cap assms(1) by (simp add: in_order_def not_le)
  obtain st1 r where acc: "GetOrCreateAccount env (hr_guid master) st = (st1, r)" by force
  have st1: "in_order st1" "s_owner st1 = s_owner st" "db_characters st1 = db_characters st"
    "case r of Inl e \<Rightarrow> True | Inr a \<Rightarrow> a \<noteq> 0 \<and> IsCompanionAccount st1 a"
    using walk_accounts_run [OF assms(1)] walk_accounts_fields acc assms(1)
    by (auto simp: GetOrCreateAccount_def split: if_splits)
  show ?thesis
  proof (cases "\<exists>a g name. r = Inr a \<and> \<not> GetCharactersCount st1 a \<ge> 9 \<and> ce_newBot env = Some (g, name)")
    case False
    then show ?thesis
      using acc st1(1) \<open>\<not> CountFor st (hr_guid master) \<ge> MAX_PER_PLAYER\<close>
      by (auto simp: CreateBot_def Let_def split: sum.splits option.splits)
  next
    case True
    then obtain a g name where r: "r = Inr a" "\<not> GetCharactersCount st1 a \<ge> 9" "ce_newBot env = Some (g, name)" by blast
    let ?st2 = "st1\<lparr>db_characters := sm_put g a (db_characters st1)\<rparr>"
    have "in_order (Register env (hr_guid master) g a ?st2)"
    proof (rule in_order_Register)
      show "in_order ?st2" by (rule in_order_character) (rule st1(1))
      show "card (followers ?st2 (hr_guid master)) < 2" using cap st1(2) by (simp add: followers_def)
      show "IsCompanionAccount ?st2 a" using st1(4) r by (simp add: IsCompanionAccount_def)
      show "\<not> sm_has (s_owner ?st2) g" "\<not> sm_has (s_owner ?st2) (hr_guid master)" "CompanionsOf ?st2 g = []" "g \<noteq> hr_guid master"
        using assms(2,3) r st1(2) by (auto simp: new_guid_def unused_def may_hire_def CompanionsOf_def)
    qed
    then show ?thesis
      using acc r \<open>\<not> CountFor st (hr_guid master) \<ge> MAX_PER_PLAYER\<close>
      by (auto simp: CreateBot_def Let_def intro!: kept.law_queue kept.law_noted)
  qed
qed

lemma in_order_hire:
  assumes "in_order st" and "new_guid env st" and "may_hire st (hr_guid player)"
  shows "in_order (fst (Playerbot_RecruitBotForPlayer env book invasions player role classId spec st))"
  unfolding Playerbot_RecruitBotForPlayer_def
  using assms in_order_CreateBot [OF assms]
  by (auto simp: Let_def split_beta intro!: kept.law_hear kept.law_DismissAll kept.law_fold split: option.splits sum.splits)

end
