(* ===== verification/CompanionRestarts.thy ===== *)
theory CompanionRestarts
  imports CompanionLaws
begin

section \<open>A restart\<close>

text \<open>
  What \<open>PurgeAtStartup\<close> does to the tables, row by row and account by account, and what that comes to for
  the companions there were before the restart.
\<close>

text \<open>
  The process forgets what it holds in memory and reads the tables again. \<open>keeps\<close> is the rule for a
  row of the table, written over the characters there were before the purge.
\<close>

definition forgotten :: "companions \<Rightarrow> companions" where
  "forgotten st = st\<lparr>s_owner := [], s_accounts := [], s_pendingDismiss := [], s_account := [], s_parked := [],
     s_returning := [], s_aggro := [], s_deferredLogouts := [], co_managers := [], freeAltBots := []\<rparr>"

definition since_of :: "companion_env \<Rightarrow> owner_row \<Rightarrow> int" where
  "since_of env row = (if or_parked row \<noteq> 0 then uint (or_parked row) else ce_now env)"

definition keeps :: "companion_env \<Rightarrow> (u32, u32) smap \<Rightarrow> u32 \<times> owner_row \<Rightarrow> bool" where
  "keeps env chars entry \<longleftrightarrow> sm_has chars (fst entry) \<and> sm_has chars (or_owner (snd entry))
     \<and> \<not> ce_now env - since_of env (snd entry) > park_window env"

definition stamped_row :: "companion_env \<Rightarrow> owner_row \<Rightarrow> owner_row" where
  "stamped_row env row = (if or_parked row = 0 then row\<lparr>or_parked := of_int (ce_now env)\<rparr> else row)"

definition kept_row :: "companion_env \<Rightarrow> companions \<Rightarrow> (u32 \<times> owner_row) list \<Rightarrow> u32 \<Rightarrow> owner_row option" where
  "kept_row env st rows = map_of (filter (keeps env (db_characters st)) rows)"

text \<open>The state when the rows \<open>rows\<close> have been gone through, out of \<open>st0\<close>.\<close>

definition purged :: "companion_env \<Rightarrow> companions \<Rightarrow> (u32 \<times> owner_row) list \<Rightarrow> companions \<Rightarrow> (u32, unit) smap \<Rightarrow> bool" where
  "purged env st0 rows st kept \<longleftrightarrow>
     (\<forall>k. sm_find (s_owner st) k = map_option or_owner (kept_row env st0 rows k))
     \<and> (\<forall>k. sm_find (s_account st) k = map_option or_account (kept_row env st0 rows k))
     \<and> (\<forall>k. sm_find (s_parked st) k = map_option (since_of env) (kept_row env st0 rows k))
     \<and> (\<forall>k. sm_find (db_companion_owner st) k
          = (case kept_row env st0 rows k of None \<Rightarrow> sm_find (db_companion_owner st0) k | Some row \<Rightarrow> Some (stamped_row env row)))
     \<and> (\<forall>k. sm_has kept k \<longleftrightarrow> kept_row env st0 rows k \<noteq> None)
     \<and> (\<forall>k. sm_find (db_characters st) k
          = (if k \<in> fst ` set rows \<and> kept_row env st0 rows k = None then None else sm_find (db_characters st0) k))
     \<and> (\<forall>a. sm_has (s_accounts st) a \<longleftrightarrow> sm_has (s_accounts st0) a
          \<or> (a \<noteq> 0 \<and> (\<exists>k row. kept_row env st0 rows k = Some row \<and> or_account row = a)))
     \<and> maps_ok st \<and> sm_ok kept \<and> s_pendingDismiss st = [] \<and> db_account st = db_account st0"

definition rows_sane :: "companions \<Rightarrow> bool" where
  "rows_sane st \<longleftrightarrow> (\<forall>k row. sm_find (db_companion_owner st) k = Some row \<longrightarrow>
     k \<noteq> 0 \<and> or_owner row \<noteq> 0 \<and> or_account row \<noteq> 0 \<and> sm_find (db_companion_owner st) (or_owner row) = None)"

lemma purgedD:
  assumes "purged env st0 rows st kept"
  shows "sm_find (s_owner st) k = map_option or_owner (kept_row env st0 rows k)"
    and "sm_find (s_account st) k = map_option or_account (kept_row env st0 rows k)"
    and "sm_find (s_parked st) k = map_option (since_of env) (kept_row env st0 rows k)"
    and "sm_find (db_companion_owner st) k
      = (case kept_row env st0 rows k of None \<Rightarrow> sm_find (db_companion_owner st0) k | Some row \<Rightarrow> Some (stamped_row env row))"
    and "sm_has kept k \<longleftrightarrow> kept_row env st0 rows k \<noteq> None"
    and "sm_find (db_characters st) k
      = (if k \<in> fst ` set rows \<and> kept_row env st0 rows k = None then None else sm_find (db_characters st0) k)"
    and "sm_has (s_accounts st) a \<longleftrightarrow> sm_has (s_accounts st0) a
      \<or> (a \<noteq> 0 \<and> (\<exists>k row. kept_row env st0 rows k = Some row \<and> or_account row = a))"
    and "maps_ok st" "sm_ok kept" "s_pendingDismiss st = []" "db_account st = db_account st0"
  using assms by (simp_all add: purged_def)

text \<open>While every companion in memory is parked no party hook queues anything.\<close>

definition all_parked :: "companions \<Rightarrow> bool" where
  "all_parked st \<longleftrightarrow> (\<forall>k. sm_has (s_owner st) k \<longrightarrow> sm_has (s_parked st) k)"

lemma QueueDismiss_parked: "all_parked st \<Longrightarrow> QueueDismiss g st = st"
  by (auto simp: QueueDismiss_def all_parked_def OwnerOfLocked_def sm_has_def split: option.splits)

lemma fold_idle: "(\<And>x. f x st = st) \<Longrightarrow> fold f xs st = st"
  by (induction xs) auto

lemma hook_parked: "all_parked st \<Longrightarrow> run_hook env h st = st"
  by (auto simp: run_hook_def OnRemoveMember_def OnDisband_def Let_def QueueDismiss_parked fold_idle split: party_hook.splits)

lemma DeleteFromDB_parked: "all_parked st \<Longrightarrow> DeleteFromDB env g st = st\<lparr>db_characters := sm_erase g (db_characters st)\<rparr>"
  by (simp add: DeleteFromDB_def Let_def fold_idle hook_parked)

lemma purged_parked: "purged env st0 rows st kept \<Longrightarrow> all_parked st"
  by (auto simp: all_parked_def sm_has_def purgedD)

lemma purge_start:
  assumes "maps_ok st0" and "s_owner st0 = []" and "s_account st0 = []" and "s_parked st0 = []" and "s_pendingDismiss st0 = []"
  shows "purged env st0 [] st0 []"
  using assms by (simp add: purged_def kept_row_def sm_has_def)

lemma purge_step:
  assumes p: "purged env st0 rows st kept" and r: "sm_find (db_companion_owner st0) k = Some row"
    and new: "k \<notin> fst ` set rows" and sane: "rows_sane st0"
    and known: "\<forall>e \<in> set rows. sm_find (db_companion_owner st0) (fst e) = Some (snd e)"
  shows "purged env st0 (rows @ [(k, row)]) (fst (purge_row env (k, row) (st, kept))) (snd (purge_row env (k, row) (st, kept)))"
proof -
  have free: "kept_row env st0 rows k = None"
    using new by (force simp: kept_row_def map_of_eq_None_iff)
  have more: "kept_row env st0 (rows @ [(k, row)]) j
      = (if j = k \<and> keeps env (db_characters st0) (k, row) then Some row else kept_row env st0 rows j)" for j
    using free by (auto simp: kept_row_def map_add_def split: option.splits)
  have chars: "sm_has (db_characters st) k = sm_has (db_characters st0) k"
    using purgedD(6) [OF p, of k] new by (simp add: sm_has_def)
  have "sm_find (db_companion_owner st0) (or_owner row) = None" using sane r by (auto simp: rows_sane_def)
  then have "or_owner row \<notin> fst ` set rows" using known by force
  then have owner: "sm_has (db_characters st) (or_owner row) = sm_has (db_characters st0) (or_owner row)"
    using purgedD(6) [OF p, of "or_owner row"] by (simp add: sm_has_def)
  have acc: "or_account row \<noteq> 0" using sane r by (auto simp: rows_sane_def)
  show ?thesis
  proof (cases "keeps env (db_characters st0) (k, row)")
    case True
    have old: "sm_find (db_companion_owner st) k = Some row" using purgedD(4) [OF p, of k] free r by simp
    have ok: "maps_ok st" "sm_ok kept" "s_pendingDismiss st = []" "db_account st = db_account st0"
      using p by (simp_all add: purgedD)
    let ?st2 = "NoteAccount (or_account row) (st\<lparr>s_owner := sm_put k (or_owner row) (s_owner st),
               s_account := sm_put k (or_account row) (s_account st), s_parked := sm_put k (since_of env row) (s_parked st)\<rparr>)"
    define st' where "st' = (if or_parked row = 0 then write_parked (of_int (ce_now env)) k ?st2 else ?st2)"
    have run: "purge_row env (k, row) (st, kept) = (st', sm_put k () kept)"
      using True by (simp add: st'_def purge_row_def keeps_def chars owner since_of_def Let_def)
    have fields: "s_owner st' = sm_put k (or_owner row) (s_owner st)" "s_account st' = sm_put k (or_account row) (s_account st)"
        "s_parked st' = sm_put k (since_of env row) (s_parked st)" "db_characters st' = db_characters st"
        "s_pendingDismiss st' = s_pendingDismiss st" "db_account st' = db_account st"
        "s_accounts st' = sm_put (or_account row) () (s_accounts st)"
        "sm_ok (db_companion_owner st') = sm_ok (db_companion_owner st)"
      using acc by (simp_all add: st'_def write_parked_def NoteAccount_def sm_ok_map_rows)
    have rows: "sm_find (db_companion_owner st') j
          = (if j = k then Some (stamped_row env row) else sm_find (db_companion_owner st) j)" for j
      using old acc
      by (cases "sm_find (db_companion_owner st) j")
        (auto simp: st'_def write_parked_def NoteAccount_def map_of_map_rows stamped_row_def)
    have accs: "sm_has (s_accounts st') a
        \<longleftrightarrow> sm_has (s_accounts st0) a \<or> a \<noteq> 0 \<and> (\<exists>j r. kept_row env st0 (rows @ [(k, row)]) j = Some r \<and> or_account r = a)" for a
      using True free acc by (auto simp: more fields(7) purgedD(7) [OF p]) (metis option.distinct(1))
    have "sm_ok (s_accounts st')" using ok by (simp add: fields(7) maps_ok_def)
    then show ?thesis
      unfolding purged_def run fst_conv snd_conv accs
      by (intro conjI allI)
        (use True ok new in \<open>auto simp: rows more purgedD [OF p] fields(1-6,8) maps_ok_def free\<close>)
  next
    case False
    then have run: "purge_row env (k, row) (st, kept) = (st\<lparr>db_characters := sm_erase k (db_characters st)\<rparr>, kept)"
    proof (cases "sm_has (db_characters st) k")
      case True
      then show ?thesis
        using False by (auto simp: purge_row_def keeps_def chars owner since_of_def Let_def DeleteFromDB_parked [OF purged_parked [OF p]])
    next
      case False
      then have "sm_erase k (db_characters st) = db_characters st" by (intro sm_erase_absent) (simp add: sm_has_def)
      then show ?thesis using False by (simp add: purge_row_def)
    qed
    show ?thesis
      using False p free by (auto simp: run purged_def more maps_ok_def)
  qed
qed

lemma purge_loop:
  assumes "purged env st0 done st kept" and "rows_sane st0"
    and "\<forall>e \<in> set (done @ rows). sm_find (db_companion_owner st0) (fst e) = Some (snd e)" and "distinct (map fst (done @ rows))"
  shows "purged env st0 (done @ rows) (fst (fold (purge_row env) rows (st, kept))) (snd (fold (purge_row env) rows (st, kept)))"
  using assms
proof (induction rows arbitrary: "done" st kept)
  case Nil
  then show ?case by simp
next
  case (Cons e rows)
  obtain k row where e: "e = (k, row)" by (cases e)
  obtain st1 kept1 where run: "purge_row env e (st, kept) = (st1, kept1)" by force
  have "purged env st0 (done @ [e]) st1 kept1"
    using purge_step [OF Cons.prems(1), of k row] Cons.prems(2-4) run by (auto simp: e)
  from Cons.IH [OF this Cons.prems(2)] Cons.prems(3,4) show ?case
    by (simp add: run)
qed

text \<open>The sweep of the pool: on an account of the pool stays whoever was kept.\<close>

lemma sweep_run:
  assumes "all_parked st" and "sm_ok (db_characters st)"
  shows "\<exists>chars. sweep_account env kept acc st = st\<lparr>db_characters := chars\<rparr> \<and> sm_ok chars
    \<and> (\<forall>k. sm_find chars k = (if sm_find (db_characters st) k = Some acc \<and> \<not> sm_has kept k then None else sm_find (db_characters st) k))"
proof -
  let ?f = "\<lambda>guid st. if sm_has kept guid then st else DeleteFromDB env guid st"
  have fold: "\<exists>chars. fold ?f gs st' = st'\<lparr>db_characters := chars\<rparr> \<and> sm_ok chars
      \<and> (\<forall>k. sm_find chars k = (if k \<in> set gs \<and> \<not> sm_has kept k then None else sm_find (db_characters st') k))"
    if "all_parked st'" "sm_ok (db_characters st')" for gs st'
    using that
  proof (induction gs arbitrary: st')
    case Nil
    then show ?case by (intro exI [of _ "db_characters st'"]) simp
  next
    case (Cons g gs)
    let ?st1 = "if sm_has kept g then st' else st'\<lparr>db_characters := sm_erase g (db_characters st')\<rparr>"
    have "all_parked ?st1" "sm_ok (db_characters ?st1)" using Cons.prems by (auto simp: all_parked_def)
    from Cons.IH [OF this] obtain chars where c: "fold ?f gs ?st1 = ?st1\<lparr>db_characters := chars\<rparr>" "sm_ok chars"
      "\<forall>k. sm_find chars k = (if k \<in> set gs \<and> \<not> sm_has kept k then None else sm_find (db_characters ?st1) k)" by blast
    have "?f g st' = ?st1" using DeleteFromDB_parked [OF Cons.prems(1)] by simp
    with c show ?case by (intro exI [of _ chars]) auto
  qed
  have keys: "k \<in> set (map fst (filter (\<lambda>c. snd c = acc) (db_characters st))) \<longleftrightarrow> sm_find (db_characters st) k = Some acc" for k
    using assms(2) by (force simp: sm_find_in)
  show ?thesis
    using fold [OF assms, of "map fst (filter (\<lambda>c. snd c = acc) (db_characters st))"]
    unfolding sweep_account_def keys .
qed

lemma sweep_all:
  assumes "all_parked st" and "sm_ok (db_characters st)"
  shows "\<exists>chars. fold (sweep_account env kept) accs st = st\<lparr>db_characters := chars\<rparr> \<and> sm_ok chars
    \<and> (\<forall>k. sm_find chars k = (case sm_find (db_characters st) k of None \<Rightarrow> None
         | Some acc \<Rightarrow> if acc \<in> set accs \<and> \<not> sm_has kept k then None else Some acc))"
  using assms
proof (induction accs arbitrary: st)
  case Nil
  then show ?case by (intro exI [of _ "db_characters st"]) (auto split: option.splits)
next
  case (Cons a accs)
  obtain chars where c: "sweep_account env kept a st = st\<lparr>db_characters := chars\<rparr>" "sm_ok chars"
    "\<forall>k. sm_find chars k = (if sm_find (db_characters st) k = Some a \<and> \<not> sm_has kept k then None else sm_find (db_characters st) k)"
    using sweep_run [OF Cons.prems] by blast
  have "all_parked (st\<lparr>db_characters := chars\<rparr>)" using Cons.prems(1) by (simp add: all_parked_def)
  from Cons.IH [OF this] c(2) obtain chars' where c': "fold (sweep_account env kept) accs (st\<lparr>db_characters := chars\<rparr>)
      = st\<lparr>db_characters := chars'\<rparr>" "sm_ok chars'"
    "\<forall>k. sm_find chars' k = (case sm_find chars k of None \<Rightarrow> None
         | Some acc \<Rightarrow> if acc \<in> set accs \<and> \<not> sm_has kept k then None else Some acc)" by auto
  show ?case
    by (rule exI [of _ chars']) (use c c' in \<open>auto split: option.splits\<close>)
qed

subsection \<open>What a restart leaves\<close>

lemma learn_fields:
  "db_companion_owner (fold (learn_account env) accs st) = db_companion_owner st
   \<and> db_characters (fold (learn_account env) accs st) = db_characters st
   \<and> db_account (fold (learn_account env) accs st) = db_account st"
  by (rule fold_kept) (simp_all add: learn_account_def NoteAccount_def noted_def Let_def)

lemma learn_accounts:
  "sm_has (s_accounts (fold (learn_account env) accs st)) a
     \<longleftrightarrow> sm_has (s_accounts st) a \<or> a \<noteq> 0 \<and> (\<exists>name. (a, name) \<in> set accs \<and> is_pool_name name)"
  by (induction accs arbitrary: st) (auto simp: learn_account_def NoteAccount_def noted_def Let_def)

lemma learn_ok: "sm_ok (s_accounts st) \<Longrightarrow> sm_ok (s_accounts (fold (learn_account env) accs st))"
  by (induction accs arbitrary: st) (auto simp: learn_account_def NoteAccount_def noted_def Let_def)

definition is_pool_account :: "companions \<Rightarrow> u32 \<Rightarrow> bool" where
  "is_pool_account st acc \<longleftrightarrow> acc \<noteq> 0
     \<and> (case sm_find (db_account st) acc of None \<Rightarrow> False | Some name \<Rightarrow> is_pool_name name)"

lemma pool_account_known:
  assumes "in_order st" and "IsCompanionAccount st acc"
  shows "is_pool_account st acc"
proof -
  have "pool_known st" using assms(1) by (simp add: in_order_def)
  then have "case sm_find (db_account st) acc of None \<Rightarrow> False | Some name \<Rightarrow> is_pool_name name"
    using assms(2) unfolding pool_known_def by blast
  moreover have "acc \<noteq> 0" using assms(2) by (auto simp: IsCompanionAccount_def)
  ultimately show ?thesis by (simp add: is_pool_account_def)
qed

lemma seat_row:
  assumes "well_registered st"
  shows "sm_find (db_companion_owner st) k = None \<longleftrightarrow> sm_find (s_owner st) k = None"
    and "sm_find (db_companion_owner st) k = Some row \<Longrightarrow> sm_find (s_owner st) k = Some (or_owner row)
      \<and> sm_find (s_account st) k = Some (or_account row)
      \<and> sm_find (s_parked st) k = (if or_parked row = 0 then None else Some (uint (or_parked row)))"
proof -
  have same: "mem_look st k = tab_look st k" using well_registeredD(2) [OF assms] by simp
  then show "sm_find (db_companion_owner st) k = None \<longleftrightarrow> sm_find (s_owner st) k = None"
    by (cases "sm_find (db_companion_owner st) k"; cases "sm_find (s_owner st) k") (simp_all add: mem_look_def tab_look_def)
  have seat: "seat_ok st k" by (rule well_registeredD(3) [OF assms])
  assume row: "sm_find (db_companion_owner st) k = Some row"
  have "uint (of_int since :: u32) = since" if "0 < since" "since < 2 ^ 32" for since
    using that by (simp add: take_bit_int_eq_self unsigned_of_int)
  then have "(of_int since :: u32) = w \<Longrightarrow> uint w = since \<and> w \<noteq> 0" if "0 < since" "since < 2 ^ 32" for since and w :: u32
    using that by (metis less_irrefl uint_0_eq)
  then show "sm_find (s_owner st) k = Some (or_owner row) \<and> sm_find (s_account st) k = Some (or_account row)
      \<and> sm_find (s_parked st) k = (if or_parked row = 0 then None else Some (uint (or_parked row)))"
    using same seat row
    by (auto simp: mem_look_def tab_look_def row_seat_def seat_ok_def split: option.splits)
qed

lemma in_order_rows_sane: "in_order st \<Longrightarrow> rows_sane st"
proof -
  assume st: "in_order st"
  have w: "well_registered st" using st by (simp add: in_order_def)
  show ?thesis
    unfolding rows_sane_def
  proof (intro allI impI)
    fix k row
    assume "sm_find (db_companion_owner st) k = Some row"
    note m = seat_row(2) [OF w this]
    have "seat_ok st k" by (rule well_registeredD(3) [OF w])
    then show "k \<noteq> 0 \<and> or_owner row \<noteq> 0 \<and> or_account row \<noteq> 0 \<and> sm_find (db_companion_owner st) (or_owner row) = None"
      using m seat_row(1) [OF w, of "or_owner row"]
      by (auto simp: seat_ok_def IsCompanionAccount_def sm_has_def split: if_splits)
  qed
qed

lemma kept_row_Some:
  "sm_ok (db_companion_owner st) \<Longrightarrow> kept_row env st (db_companion_owner st) k = Some row
     \<longleftrightarrow> sm_find (db_companion_owner st) k = Some row \<and> keeps env (db_characters st) (k, row)"
  by (simp only: kept_row_def sm_find_in sm_ok_filter) auto

lemma purge_run:
  fixes env :: companion_env and st :: companions
  assumes "in_order st"
  defines "kept \<equiv> kept_row env st (db_companion_owner st)" and "st' \<equiv> PurgeAtStartup env (forgotten st)"
  shows "sm_find (s_owner st') k = map_option or_owner (kept k)"
    and "sm_find (s_account st') k = map_option or_account (kept k)"
    and "sm_find (s_parked st') k = map_option (since_of env) (kept k)"
    and "sm_find (db_companion_owner st') k = map_option (stamped_row env) (kept k)"
    and "sm_find (db_characters st') k
      = (if kept k \<noteq> None then sm_find (db_characters st) k
         else if sm_has (db_companion_owner st) k then None
         else case sm_find (db_characters st) k of None \<Rightarrow> None | Some acc \<Rightarrow> if is_pool_account st acc then None else Some acc)"
    and "sm_has (s_accounts st') acc \<longleftrightarrow> is_pool_account st acc"
    and "maps_ok st'" and "db_account st' = db_account st"
proof -
  have w: "well_registered st" using assms(1) by (simp add: in_order_def)
  define st1 where "st1 = fold (learn_account env) (db_account (forgotten st)) (forgotten st)"
  define st2 where "st2 = st1\<lparr>s_owner := [], s_account := [], s_parked := [], s_pendingDismiss := []\<rparr>"
  have f: "db_companion_owner st2 = db_companion_owner st" "db_characters st2 = db_characters st" "db_account st2 = db_account st"
    using learn_fields [of env "db_account (forgotten st)" "forgotten st"] by (simp_all add: st2_def st1_def forgotten_def)
  have accs2: "sm_has (s_accounts st2) a \<longleftrightarrow> is_pool_account st a" for a
  proof -
    have "s_accounts st2 = s_accounts st1" by (simp add: st2_def)
    moreover have "sm_has (s_accounts st1) a
        \<longleftrightarrow> sm_has (s_accounts (forgotten st)) a \<or> a \<noteq> 0 \<and> (\<exists>name. (a, name) \<in> set (db_account (forgotten st)) \<and> is_pool_name name)"
      unfolding st1_def by (rule learn_accounts)
    ultimately have "sm_has (s_accounts st2) a \<longleftrightarrow> a \<noteq> 0 \<and> (\<exists>name. (a, name) \<in> set (db_account st) \<and> is_pool_name name)"
      by (simp add: forgotten_def sm_has_def)
    also have "\<dots> \<longleftrightarrow> a \<noteq> 0 \<and> (\<exists>name. sm_find (db_account st) a = Some name \<and> is_pool_name name)"
      by (simp only: sm_find_in [OF in_order_maps(6) [OF assms(1)]])
    finally show ?thesis by (auto simp: is_pool_account_def split: option.splits)
  qed
  have reset: "s_owner st2 = []" "s_account st2 = []" "s_parked st2 = []" "s_pendingDismiss st2 = []"
    by (simp_all add: st2_def)
  have "sm_ok (s_accounts st1)" unfolding st1_def by (rule learn_ok) (simp add: forgotten_def)
  then have "sm_ok (s_accounts st2)" by (simp add: st2_def)
  then have ok2: "maps_ok st2" using assms(1) by (simp add: maps_ok_def f reset)
  have rows2: "rows_sane st2" using in_order_rows_sane [OF assms(1)] by (simp add: rows_sane_def f)
  obtain st3 kept3 where loop: "fold (purge_row env) (db_companion_owner st2) (st2, []) = (st3, kept3)" by force
  have tab: "sm_ok (db_companion_owner st2)" using assms(1) by (simp add: f)
  have p: "purged env st2 (db_companion_owner st2) st3 kept3"
    using purge_loop [of env st2 "[]" st2 "[]" "db_companion_owner st2"] purge_start [OF ok2 reset] rows2 loop tab
    by (simp add: sm_ok_distinct)
  have kept: "kept_row env st2 (db_companion_owner st) = kept" by (simp add: kept_def kept_row_def f)
  note P = purgedD [OF p, unfolded f kept]
  have drop: "sm_find (filter (\<lambda>e. sm_has kept3 (fst e)) m) j = (if sm_has kept3 j then sm_find m j else None)" for m :: "(u32, owner_row) smap" and j
    by (induction m) auto
  define st4 where "st4 = drop_unkept kept3 st3"
  have db4: "sm_find (db_companion_owner st4) j = map_option (stamped_row env) (kept j)" for j
  proof -
    have "sm_find (db_companion_owner st4) j = (if sm_has kept3 j then sm_find (db_companion_owner st3) j else None)"
      using drop [of "db_companion_owner st3" j] by (auto simp: st4_def drop_unkept_def sm_has_def)
    then show ?thesis using P(4) [of j] P(5) [of j] by (auto split: option.splits)
  qed
  have st4: "s_owner st4 = s_owner st3" "s_account st4 = s_account st3" "s_parked st4 = s_parked st3"
    "s_accounts st4 = s_accounts st3" "db_characters st4 = db_characters st3" "db_account st4 = db_account st"
    "maps_ok st4" "all_parked st4"
    using P(8,11) purged_parked [OF p] sm_ok_filter [of "db_companion_owner st3"]
    by (auto simp: st4_def drop_unkept_def maps_ok_def all_parked_def)
  obtain chars where c: "fold (sweep_account env kept3) (sm_keys (s_accounts st4)) st4 = st4\<lparr>db_characters := chars\<rparr>" "sm_ok chars"
    "\<forall>j. sm_find chars j = (case sm_find (db_characters st4) j of None \<Rightarrow> None
       | Some acc \<Rightarrow> if acc \<in> set (sm_keys (s_accounts st4)) \<and> \<not> sm_has kept3 j then None else Some acc)"
    using sweep_all [of st4 env kept3 "sm_keys (s_accounts st4)"] st4(7,8) by (auto simp: maps_ok_def)
  have run: "st' = st4\<lparr>db_characters := chars\<rparr>"
    unfolding st'_def PurgeAtStartup_def Let_def st1_def [symmetric] st2_def [symmetric] loop prod.case st4_def [symmetric]
    by (rule c(1))
  have accs: "sm_has (s_accounts st3) a \<longleftrightarrow> is_pool_account st a" for a
  proof -
    have "is_pool_account st (or_account row)" if "kept j = Some row" for j row
    proof -
      have "sm_find (db_companion_owner st) j = Some row"
        using that kept_row_Some assms(1) by (simp add: kept_def)
      note m = seat_row(2) [OF w this]
      have "IsCompanionAccount st (or_account row)"
        using well_registeredD(3) [OF w, of j] m by (auto simp: seat_ok_def split: if_splits)
      then show ?thesis
        by (rule pool_account_known [OF assms(1)])
    qed
    then show ?thesis unfolding P(7) accs2 by blast
  qed
  show "sm_find (s_owner st') k = map_option or_owner (kept k)" "sm_find (s_account st') k = map_option or_account (kept k)"
    "sm_find (s_parked st') k = map_option (since_of env) (kept k)"
    "sm_find (db_companion_owner st') k = map_option (stamped_row env) (kept k)"
    "sm_has (s_accounts st') acc \<longleftrightarrow> is_pool_account st acc" "maps_ok st'" "db_account st' = db_account st"
    using P(1-3) accs st4 db4 c(2) by (simp_all add: run maps_ok_def)
  have rows: "k \<in> fst ` set (db_companion_owner st) \<longleftrightarrow> sm_has (db_companion_owner st) k"
    by (simp add: sm_has_keys sm_keys_def)
  show "sm_find (db_characters st') k
      = (if kept k \<noteq> None then sm_find (db_characters st) k
         else if sm_has (db_companion_owner st) k then None
         else case sm_find (db_characters st) k of None \<Rightarrow> None | Some acc \<Rightarrow> if is_pool_account st acc then None else Some acc)"
    using c(3) P(5) [of k] P(6) [of k] accs rows
    by (auto simp: run st4 simp flip: sm_has_keys split: option.splits)
qed

text \<open>Said of the state before the restart: who comes back, and since when he has been waiting.\<close>

definition waiting_since :: "companion_env \<Rightarrow> companions \<Rightarrow> u32 \<Rightarrow> int" where
  "waiting_since env st k = (case sm_find (s_parked st) k of None \<Rightarrow> ce_now env | Some since \<Rightarrow> since)"

definition comes_back :: "companion_env \<Rightarrow> companions \<Rightarrow> u32 \<Rightarrow> bool" where
  "comes_back env st k \<longleftrightarrow> IsCompanion st k \<and> sm_has (db_characters st) k \<and> sm_has (db_characters st) (GetOwner st k)
     \<and> ce_now env - waiting_since env st k \<le> park_window env"

lemma companion_iff: "in_order st \<Longrightarrow> IsCompanion st k \<longleftrightarrow> sm_has (s_owner st) k"
  using well_registeredD(3) [of st k]
  by (auto simp: in_order_def IsCompanion_def GetOwner_def OwnerOfLocked_def sm_has_def seat_ok_def split: option.splits)

lemma kept_memory:
  assumes "in_order st"
  shows "kept_row env st (db_companion_owner st) k
    = (if comes_back env st k then sm_find (db_companion_owner st) k else None)"
    and "comes_back env st k \<Longrightarrow> \<exists>row. sm_find (db_companion_owner st) k = Some row
      \<and> or_owner row = GetOwner st k \<and> since_of env row = waiting_since env st k"
    and "IsCompanion st k \<longleftrightarrow> sm_has (db_companion_owner st) k"
proof -
  have w: "well_registered st" using assms by (simp add: in_order_def)
  have row: "or_owner row = GetOwner st k \<and> since_of env row = waiting_since env st k"
    if "sm_find (db_companion_owner st) k = Some row" for row
    using seat_row(2) [OF w that]
    by (simp add: GetOwner_def OwnerOfLocked_def since_of_def waiting_since_def)
  show comp: "IsCompanion st k \<longleftrightarrow> sm_has (db_companion_owner st) k"
    using companion_iff [OF assms, of k] seat_row(1) [OF w, of k] by (auto simp: sm_has_def)
  have rows: "kept_row env st (db_companion_owner st) k = Some row
      \<longleftrightarrow> sm_find (db_companion_owner st) k = Some row \<and> comes_back env st k" for row
    using kept_row_Some [OF in_order_maps(5) [OF assms], of env k row] row [of row] comp
    by (auto simp: keeps_def comes_back_def sm_has_def)
  show "kept_row env st (db_companion_owner st) k
      = (if comes_back env st k then sm_find (db_companion_owner st) k else None)"
  proof (cases "kept_row env st (db_companion_owner st) k")
    case None
    then have "\<not> (sm_find (db_companion_owner st) k = Some row \<and> comes_back env st k)" for row
      using rows [of row] by simp
    with None show ?thesis by (cases "sm_find (db_companion_owner st) k") simp_all
  next
    case (Some row)
    then show ?thesis using rows [of row] by simp
  qed
  assume "comes_back env st k"
  then have "sm_has (db_companion_owner st) k" using comp by (simp add: comes_back_def)
  then obtain r where "sm_find (db_companion_owner st) k = Some r" by (auto simp: sm_has_def)
  with row show "\<exists>row. sm_find (db_companion_owner st) k = Some row
      \<and> or_owner row = GetOwner st k \<and> since_of env row = waiting_since env st k" by blast
qed

lemma restart_memory:
  assumes "in_order st"
  shows "GetOwner (PurgeAtStartup env (forgotten st)) k = (if comes_back env st k then GetOwner st k else 0)"
    and "sm_find (s_parked (PurgeAtStartup env (forgotten st))) k
      = (if comes_back env st k then Some (waiting_since env st k) else None)"
    and "sm_find (db_characters (PurgeAtStartup env (forgotten st))) k
      = (if comes_back env st k then sm_find (db_characters st) k
         else if IsCompanion st k then None
         else case sm_find (db_characters st) k of None \<Rightarrow> None | Some acc \<Rightarrow> if is_pool_account st acc then None else Some acc)"
  using kept_memory(2) [OF assms, of env k]
  by (auto simp: GetOwner_def [of "PurgeAtStartup env (forgotten st)"] OwnerOfLocked_def purge_run [OF assms]
      kept_memory(1,3) [OF assms])

lemma in_order_restart:
  assumes "in_order st" and "clock_ok env"
  shows "in_order (PurgeAtStartup env (forgotten st))"
proof -
  let ?st = "PurgeAtStartup env (forgotten st)" and ?kept = "kept_row env st (db_companion_owner st)"
  note run = purge_run [OF assms(1), of env]
  have w: "well_registered st" using assms(1) by (simp add: in_order_def)
  have old: "?kept k = Some row \<Longrightarrow> sm_find (db_companion_owner st) k = Some row" for k row
    using kept_memory(1) [OF assms(1), of env k] by (simp split: if_splits)
  have "mem_look ?st k = tab_look ?st k" for k
    by (cases "?kept k") (auto simp: mem_look_def tab_look_def run row_seat_def stamped_row_def since_of_def)
  then have "mem_look ?st = tab_look ?st" by (rule ext)
  moreover have "seat_ok ?st k" for k
  proof (cases "?kept k")
    case None
    then show ?thesis by (simp add: seat_ok_def run sm_has_def)
  next
    case (Some row)
    have "k \<noteq> 0 \<and> or_owner row \<noteq> 0 \<and> or_account row \<noteq> 0 \<and> sm_find (db_companion_owner st) (or_owner row) = None"
      using in_order_rows_sane [OF assms(1)] old [OF Some] by (simp add: rows_sane_def)
    moreover from this have "?kept (or_owner row) = None" using old [of "or_owner row"] by (cases "?kept (or_owner row)") auto
    moreover have "is_pool_account st (or_account row)"
      using seat_row(2) [OF w old [OF Some]] well_registeredD(3) [OF w, of k]
      by (intro pool_account_known [OF assms(1)]) (auto simp: seat_ok_def split: if_splits)
    moreover have "uint (or_parked row) < 2 ^ 32" using uint_bounded [of "or_parked row"] by simp
    then have "0 < since_of env row" "since_of env row < 2 ^ 32"
      using assms(2) uint_ge_0 [of "or_parked row"] by (auto simp: since_of_def clock_ok_def order.order_iff_strict uint_0_iff)
    moreover have "\<not> sm_has (s_owner ?st) (or_owner row)" if "?kept (or_owner row) = None"
      using that by (simp add: sm_has_def run)
    ultimately show ?thesis
      using Some by (simp add: seat_ok_def run IsCompanionAccount_def)
  qed
  moreover have "card (followers ?st owner) \<le> 2" for owner
    by (rule followers_shrink [OF _ well_registeredD(4) [OF w]])
      (use old seat_row(2) [OF w] in \<open>auto simp: run\<close>)
  ultimately have "well_registered ?st" using run(7) by (simp add: well_registered_def)
  moreover have "pool_known ?st"
    using assms(1)
    by (simp add: pool_known_def IsCompanionAccount_def run) (simp add: is_pool_account_def in_order_def pool_known_def)
  ultimately show ?thesis by (simp add: in_order_def)
qed

end
