(* ===== verification/CompanionSteps.thy ===== *)
theory CompanionSteps
  imports CompanionRestarts
begin

section \<open>Runs of the module\<close>

text \<open>
  What each operation may take away (\<open>clears\<close>), the step relation of the module and of the rest of the
  server, and the invariant \<open>sound\<close> of every reachable state.
\<close>

subsection \<open>What an operation may take away\<close>

text \<open>
  \<open>clears D st st'\<close>: from \<open>st\<close> to \<open>st'\<close> no character goes but of \<open>D\<close>, none changes its account, no companion
  changes its owner or loses it while its character is there, and no delete is queued but of \<open>D\<close>.
\<close>

definition clears :: "u32 set \<Rightarrow> companions \<Rightarrow> companions \<Rightarrow> bool" where
  "clears D st st' \<longleftrightarrow>
     (\<forall>k. sm_find (db_characters st') k = sm_find (db_characters st) k \<or> k \<in> D \<and> sm_find (db_characters st') k = None)
     \<and> (\<forall>k. GetOwner st' k = GetOwner st k \<or> GetOwner st' k = 0 \<and> sm_find (db_characters st') k = None)
     \<and> (\<forall>d \<in> set (s_deferredLogouts st'). dl_isDelete d \<longrightarrow> dl_guid d \<in> D
          \<or> (\<exists>d0 \<in> set (s_deferredLogouts st). dl_isDelete d0 \<and> dl_guid d0 = dl_guid d))"

named_theorems clearing \<open>what the operations clear\<close>

lemma clears_refl [clearing]: "clears D st st"
  by (auto simp: clears_def)

lemma clears_mono: "clears D st st' \<Longrightarrow> D \<subseteq> D' \<Longrightarrow> clears D' st st'"
  unfolding clears_def by blast

lemma clears_trans:
  assumes "clears D st0 st1" and "clears D st1 st2"
  shows "clears D st0 st2"
proof -
  have "sm_find (db_characters st2) k = sm_find (db_characters st0) k \<or> k \<in> D \<and> sm_find (db_characters st2) k = None" for k
    using assms unfolding clears_def by metis
  moreover have "GetOwner st2 k = GetOwner st0 k \<or> GetOwner st2 k = 0 \<and> sm_find (db_characters st2) k = None" for k
    using assms unfolding clears_def by metis
  moreover have "dl_guid d \<in> D \<or> (\<exists>d0 \<in> set (s_deferredLogouts st0). dl_isDelete d0 \<and> dl_guid d0 = dl_guid d)"
    if "d \<in> set (s_deferredLogouts st2)" "dl_isDelete d" for d
    using assms that unfolding clears_def by metis
  ultimately show ?thesis by (auto simp: clears_def)
qed

lemma clears_fold:
  assumes "\<And>x st. x \<in> set xs \<Longrightarrow> clears D st (f x st)"
  shows "clears D st (fold f xs st)"
  using assms
proof (induction xs arbitrary: st)
  case Nil
  then show ?case by (simp add: clears_refl)
next
  case (Cons x xs)
  then have "clears D st (f x st)" "clears D (f x st) (fold f xs (f x st))" by simp_all
  then show ?case by (simp add: clears_trans)
qed

lemma clears_frame:
  assumes "db_characters st' = db_characters st" and "s_owner st' = s_owner st" and "s_deferredLogouts st' = s_deferredLogouts st"
  shows "clears D st st'"
  using assms by (auto simp: clears_def GetOwner_def OwnerOfLocked_def)

lemma clears_simple [clearing]:
  "clears D st (noted e st)" "clears D st (QueueDismiss g st)" "clears D st (Unpark g st)" "clears D st (MarkReturning g st)"
  "clears D st (hear p l st)" "clears D st (st\<lparr>co_managers := ms\<rparr>)" "clears D st (st\<lparr>freeAltBots := qs\<rparr>)"
  "clears D st (st\<lparr>s_pendingDismiss := ps\<rparr>)" "clears D st (st\<lparr>s_returning := rs\<rparr>)" "clears D st (st\<lparr>s_aggro := ag\<rparr>)"
  "clears D st (ParkAll env owner st)"
  by (auto intro!: clears_frame simp: noted_def QueueDismiss_def Unpark_def write_parked_def MarkReturning_def hear_def
      ParkAll_def Let_def)

lemma clears_drained [clearing]: "clears D st (st\<lparr>s_deferredLogouts := []\<rparr>)"
  by (simp add: clears_def GetOwner_def OwnerOfLocked_def)

lemma clears_hook [clearing]: "clears D st (run_hook env h st)"
  by (cases h)
    (auto simp: run_hook_def OnRemoveMember_def OnDisband_def Let_def
      intro: clears_refl clears_fold clears_simple clears_trans [OF clears_simple(2) clears_fold [OF clears_simple(2)]])

lemma clears_DeleteFromDB: "clears {g} st (DeleteFromDB env g st)"
proof -
  let ?st = "fold (run_hook env) (ce_leaves env g) st"
  have "clears {g} st ?st" by (rule clears_fold) (rule clears_hook)
  moreover have "clears {g} ?st (?st\<lparr>db_characters := sm_erase g (db_characters ?st)\<rparr>)"
    by (auto simp: clears_def GetOwner_def OwnerOfLocked_def)
  ultimately show ?thesis by (simp add: DeleteFromDB_def Let_def clears_trans)
qed

lemma no_character_left: "sm_find (db_characters (DeleteFromDB env g st)) g = None"
  by (simp add: DeleteFromDB_def Let_def)

lemma clears_Unregister: "sm_find (db_characters st) g = None \<Longrightarrow> clears D st (Unregister g st)"
  by (auto simp: clears_def Unregister_def GetOwner_def OwnerOfLocked_def)

lemma Unregister_characters [simp]: "db_characters (Unregister g st) = db_characters st"
  by (simp add: Unregister_def)

lemma noted_fields [simp]:
  "db_characters (noted e st) = db_characters st" "s_owner (noted e st) = s_owner st"
  "s_deferredLogouts (noted e st) = s_deferredLogouts st" "s_parked (noted e st) = s_parked st"
  "s_pendingDismiss (noted e st) = s_pendingDismiss st" "db_companion_owner (noted e st) = db_companion_owner st"
  "co_managers (noted e st) = co_managers st" "freeAltBots (noted e st) = freeAltBots st" "s_account (noted e st) = s_account st"
  by (simp_all add: noted_def)

lemma finish_delete_clears:
  "clears {g} st (fst (finish_delete env holder g st))"
  "sm_find (db_characters (fst (finish_delete env holder g st))) g = None"
  "snd (finish_delete env holder g st)"
proof -
  let ?st = "noted (BotForgotten g) (DeleteFromDB env g st)"
  have c: "clears {g} st ?st" by (rule clears_trans [OF clears_DeleteFromDB clears_simple(1)])
  have "clears {g} ?st (Unregister g (noted (Untracked g) ?st))"
    by (rule clears_trans [OF clears_simple(1) clears_Unregister]) (simp add: no_character_left)
  with c show "clears {g} st (fst (finish_delete env holder g st))"
    by (cases holder) (auto simp: finish_delete_def OnBotDeleted_def intro: clears_trans)
  show "sm_find (db_characters (fst (finish_delete env holder g st))) g = None" "snd (finish_delete env holder g st)"
    by (cases holder; simp add: finish_delete_def OnBotDeleted_def no_character_left)+
qed

lemma requeue_deletes: "x \<in> set (requeue d qs) \<Longrightarrow> dl_isDelete x \<Longrightarrow> dl_guid x = dl_guid d \<or> x \<in> set qs"
  by (induction d qs rule: requeue.induct) (auto split: if_splits)

lemma clears_ready: "clears D st (ready_body g b st)"
  by (auto simp: ready_body_def Let_def intro: clears_refl clears_simple clears_trans [OF clears_simple(1) clears_simple(1)])

lemma DeleteBot_clears: "clears {g} st (fst (DeleteBot env holder g allow st))"
proof (cases "MustDeferToWorldThread env \<or> between_maps env g \<and> ce_thread env \<noteq> WorldThread")
  case True
  then show ?thesis
    by (auto simp: DeleteBot_def DeferBotLogout_def clears_refl)
      (auto simp: clears_def GetOwner_def OwnerOfLocked_def dest: requeue_deletes)
next
  case False
  define drive where "drive \<longleftrightarrow> between_maps env g \<and> bb_teleporting (the (ce_bot env g))"
  define st1 where "st1 = (if drive then noted (SessionDriven g) st else st)"
  define body where "body = (if drive then ce_driven env g else ce_bot env g)"
  have st1: "clears {g} st st1" by (simp add: st1_def clears_refl clears_simple)
  have run: "DeleteBot env holder g allow st = (case body of None \<Rightarrow> finish_delete env holder g st1
      | Some b \<Rightarrow> let st2 = noted (BotLoggedOut g) (ready_body g b st1)
          in if \<not> ce_logsOut env g then (st2, False) else finish_delete env holder g st2)"
    unfolding DeleteBot_def drive_def [symmetric] Let_def st1_def [symmetric] body_def [symmetric]
    using False by (auto split: option.splits)
  show ?thesis
  proof (cases body)
    case None
    then show ?thesis using clears_trans [OF st1 finish_delete_clears(1)] by (simp add: run)
  next
    case (Some b)
    have "clears {g} st (noted (BotLoggedOut g) (ready_body g b st1))"
      by (rule clears_trans [OF st1 clears_trans [OF clears_ready clears_simple(1)]])
    then show ?thesis using Some clears_trans [OF _ finish_delete_clears(1)] by (simp add: run Let_def)
  qed
qed

lemma DeleteBot_done:
  "snd (DeleteBot env holder g allow st) \<Longrightarrow> \<not> MustDeferToWorldThread env
    \<Longrightarrow> sm_find (db_characters (fst (DeleteBot env holder g allow st))) g = None"
  by (auto simp: DeleteBot_def Let_def finish_delete_clears split: option.splits if_splits)

lemma drain_one_clears:
  assumes "ce_thread env = WorldThread"
  shows "clears (if dl_isDelete d then {dl_guid d} else {}) st (drain_one env d st)"
proof (cases "dl_isDelete d")
  case False
  then show ?thesis by (simp add: drain_one_def clears_simple)
next
  case True
  let ?r = "DeleteBot env (holderOf env st (dl_masterGuid d)) (dl_guid d) (dl_allowInstant d) st"
  have c: "clears {dl_guid d} st (fst ?r)" by (rule DeleteBot_clears)
  show ?thesis
  proof (cases "snd ?r \<and> GetOwner (fst ?r) (dl_guid d) \<noteq> 0")
    case gone: True
    then have "sm_find (db_characters (fst ?r)) (dl_guid d) = None"
      using assms by (intro DeleteBot_done) (simp_all add: MustDeferToWorldThread_def)
    then have "clears {dl_guid d} (fst ?r) (Unregister (dl_guid d) (noted (Untracked (dl_guid d)) (fst ?r)))"
      by (intro clears_trans [OF clears_simple(1) clears_Unregister]) simp
    with c gone True show ?thesis by (simp add: drain_one_def Let_def split_beta clears_trans)
  next
    case False
    with c True show ?thesis by (auto simp: drain_one_def Let_def split_beta)
  qed
qed

lemma drain_clears:
  "clears (dl_guid ` {d \<in> set (s_deferredLogouts st). dl_isDelete d}) st (DrainDeferredBotWork env st)"
  unfolding DrainDeferredBotWork_def
  by (intro clears_trans [OF clears_drained clears_fold] clears_mono [OF drain_one_clears]) auto

lemma restore_one_clears: "clears {pk_companionGuid p} st (restore_one env master p st)"
proof -
  let ?g = "pk_companionGuid p"
  have delete: "clears {?g} st (fst (DeleteBot env (ManagerOf master) ?g True st))" by (rule DeleteBot_clears)
  have "clears {?g} st (Unpark ?g st)" "clears {?g} st (MarkReturning ?g (Unpark ?g st))"
    by (rule clears_simple, rule clears_trans [OF clears_simple(3) clears_simple(4)])
  then show ?thesis
    using delete unfolding restore_one_def Let_def
    by (auto intro!: clears_trans [OF _ clears_simple(1)] clears_trans [OF _ clears_simple(7)])
qed

lemma parked_guid: "p \<in> set (ParkedOf st master) \<Longrightarrow> GetOwner st (pk_companionGuid p) = master"
  by (auto simp: ParkedOf_def GetOwner_def)

lemma restore_clears: "clears {k. GetOwner st k = master} st (RestoreParkedCompanions env master st)"
  by (auto simp: RestoreParkedCompanions_def clears_refl intro!: clears_fold clears_mono [OF restore_one_clears] parked_guid)

lemma clears_owner: "clears D st st' \<Longrightarrow> GetOwner st' k \<noteq> 0 \<Longrightarrow> GetOwner st' k = GetOwner st k"
  unfolding clears_def by metis

lemma update_clears:
  assumes "master \<noteq> 0"
  shows "clears {k. GetOwner st k = master} st (UpdateCompanions env master st)"
proof (cases "sm_find (co_managers st) master")
  case None
  then show ?thesis by (simp add: UpdateCompanions_def clears_refl)
next
  case (Some restored)
  let ?D = "{k. GetOwner st k = master}"
  define st1 where "st1 = fst (TakeQueuedDismissals master st)"
  define gone where "gone = snd (TakeQueuedDismissals master st)"
  define st2 where "st2 = fold (\<lambda>g st. fst (DeleteBot env (ManagerOf master) g True st)) gone st1"
  have "clears ?D st st1" by (auto simp: st1_def TakeQueuedDismissals_def Let_def intro: clears_simple)
  moreover have "clears ?D st1 st2"
    unfolding st2_def
    by (intro clears_fold clears_mono [OF DeleteBot_clears]) (auto simp: gone_def TakeQueuedDismissals_def Let_def GetOwner_def)
  ultimately have c2: "clears ?D st st2" by (rule clears_trans)
  let ?st3 = "st2\<lparr>co_managers := sm_put master True (co_managers st2)\<rparr>"
  have "{k. GetOwner ?st3 k = master} \<subseteq> ?D"
    using clears_owner [OF c2] assms by (auto simp: GetOwner_def OwnerOfLocked_def)
  then have "clears ?D ?st3 (RestoreParkedCompanions env master ?st3)"
    by (rule clears_mono [OF restore_clears])
  then have "clears ?D st (RestoreParkedCompanions env master ?st3)"
    by (intro clears_trans [OF clears_trans [OF c2 clears_simple(6)]])
  with c2 show ?thesis
    by (simp add: UpdateCompanions_def Some st1_def gone_def st2_def Let_def split_beta)
qed

lemma DismissAll_clears:
  assumes "sm_ok (s_owner st)"
  shows "clears {k. GetOwner st k = hr_guid player} st (fst (DismissAll env player st))"
proof -
  let ?D = "{k. GetOwner st k = hr_guid player}"
  have mine: "k \<in> ?D" if "k \<in> set (CompanionsOf st (hr_guid player))" for k
    using that assms by (simp add: CompanionsOf_set followers_def GetOwner_def OwnerOfLocked_def)
  have "clears ?D st (fold (\<lambda>g st. fst (DeleteBot env (ManagerOf (hr_guid player)) g True st)) (CompanionsOf st (hr_guid player)) st)"
    by (intro clears_fold clears_mono [OF DeleteBot_clears]) (use mine in auto)
  then show ?thesis
    by (auto simp: DismissAll_def Let_def intro: clears_refl clears_simple clears_trans [OF _ clears_simple(5)])
qed

lemma SendHome_clears:
  assumes "sm_ok (s_owner st)"
  shows "clears {k. GetOwner st k = hr_guid player} st (fst (Playerbot_SendCompanionHome env player name st))"
proof -
  let ?D = "{k. GetOwner st k = hr_guid player}"
  have "clears ?D st (fst (DeleteBot env (ManagerOf (hr_guid player)) g True st))"
    if "find P (CompanionsOf st (hr_guid player)) = Some g" for g P
  proof (rule clears_mono [OF DeleteBot_clears])
    have "g \<in> set (CompanionsOf st (hr_guid player))" using that by (auto simp: find_Some_iff)
    then show "{g} \<subseteq> ?D" using assms by (simp add: CompanionsOf_set followers_def GetOwner_def OwnerOfLocked_def)
  qed
  then show ?thesis
    by (auto simp: Playerbot_SendCompanionHome_def split: option.splits
        intro: clears_refl clears_simple clears_trans [OF _ clears_simple(5)])
qed

lemma HandleBotDelete_clears:
  "HandleBotDelete env master g st = Some (st', r) \<Longrightarrow> clears {k. GetOwner st k \<noteq> 0} st st'"
  by (auto simp: HandleBotDelete_def Let_def clears_refl intro: clears_mono [OF DeleteBot_clears] split: if_splits)

lemma free_bot_clears: "clears D (fst acc) (fst (free_bot env e acc))"
  by (cases acc; cases e) (auto simp: free_bot_def intro: clears_refl clears_simple split: option.splits)

lemma LoginFreeBots_clears: "clears D st (LoginFreeBots env st)"
proof -
  have "clears D (fst acc) (fst (fold (free_bot env) es acc))" for es acc
  proof (induction es arbitrary: acc)
    case Nil
    then show ?case by (simp add: clears_refl)
  next
    case (Cons e es)
    then show ?case using clears_trans [OF free_bot_clears Cons] by simp
  qed
  from this [of "(st, [], [])" "freeAltBots st"] show ?thesis
    by (auto simp: LoginFreeBots_def Let_def split_beta clears_refl
        intro!: clears_trans [OF _ clears_trans [OF clears_simple(7) clears_fold]] clears_simple)
qed

subsection \<open>Runs\<close>

definition deletes_known :: "companions \<Rightarrow> bool" where
  "deletes_known st \<longleftrightarrow> list_all (\<lambda>d. dl_isDelete d \<longrightarrow> IsCompanion st (dl_guid d) \<or> \<not> sm_has (db_characters st) (dl_guid d))
     (s_deferredLogouts st)"

definition sound :: "companions \<Rightarrow> bool" where
  "sound st \<longleftrightarrow> in_order st \<and> deletes_known st"

text \<open>What the module does, at any moment and in any order.\<close>

inductive module_step :: "companions \<Rightarrow> companions \<Rightarrow> bool" where
  hire: "new_guid env st \<Longrightarrow> may_hire st (hr_guid player) \<Longrightarrow>
    module_step st (fst (Playerbot_RecruitBotForPlayer env book invasions player role classId spec st))"
| send_home: "hr_guid player \<noteq> 0 \<Longrightarrow> module_step st (fst (Playerbot_SendCompanionHome env player name st))"
| party: "module_step st (run_hook env h st)"
| delete: "HandleBotDelete env master g st = Some (st', r) \<Longrightarrow> module_step st st'"
| login: "module_step st (OnLogin isBot g st)"
| logout: "clock_ok env \<Longrightarrow> module_step st (OnBeforeLogout env g st)"
| update: "master \<noteq> 0 \<Longrightarrow> module_step st (UpdateCompanions env master st)"
| drain: "module_step st (DrainDeferredBotWork env st)"
| logins: "module_step st (LoginFreeBots env st)"
| returning: "module_step st (fst (TakeReturning g st))"
| order: "module_step st (fst (HandleCompanionOrderCommand me members target args st))"
| restart: "clock_ok env \<Longrightarrow> module_step st (PurgeAtStartup env (forgotten st))"

text \<open>What the rest of the server does to the tables: characters and accounts come, players delete theirs.\<close>

inductive world_step :: "companions \<Rightarrow> companions \<Rightarrow> bool" where
  made: "unused st g \<Longrightarrow> world_step st (st\<lparr>db_characters := sm_put g acc (db_characters st)\<rparr>)"
| unmade: "\<not> IsCompanion st g \<Longrightarrow> world_step st (DeleteFromDB env g st)"
| account: "\<not> sm_has (db_account st) acc \<Longrightarrow> world_step st (st\<lparr>db_account := sm_put acc name (db_account st)\<rparr>)"

definition fresh_companions :: companions where
  "fresh_companions = \<lparr>s_owner = [], s_accounts = [], s_pendingDismiss = [], s_account = [], s_parked = [], s_returning = [],
     s_aggro = [], s_deferredLogouts = [], co_managers = [], freeAltBots = [], db_companion_owner = [], db_characters = [],
     db_account = [], co_log = []\<rparr>"

abbreviation companion_run :: "companions \<Rightarrow> companions \<Rightarrow> bool" where
  "companion_run \<equiv> (\<lambda>st st'. module_step st st' \<or> world_step st st')\<^sup>*\<^sup>*"

definition doomed :: "companions \<Rightarrow> u32 set" where
  "doomed st = {k. GetOwner st k \<noteq> 0 \<or> sm_find (db_characters st) k = None}"

lemma clears_at:
  "clears D st st' \<Longrightarrow> (sm_find (db_characters st') k = sm_find (db_characters st) k \<or> k \<in> D \<and> sm_find (db_characters st') k = None)
     \<and> (GetOwner st' k = GetOwner st k \<or> GetOwner st' k = 0 \<and> sm_find (db_characters st') k = None)"
  by (simp add: clears_def)

lemma deletes_known_clears:
  assumes "clears D st st'" and "D \<subseteq> doomed st" and "deletes_known st"
  shows "deletes_known st'"
  unfolding deletes_known_def list_all_iff
proof (intro ballI impI)
  fix d
  assume d: "d \<in> set (s_deferredLogouts st')" "dl_isDelete d"
  then have "dl_guid d \<in> D \<or> (\<exists>d0 \<in> set (s_deferredLogouts st). dl_isDelete d0 \<and> dl_guid d0 = dl_guid d)"
    using assms(1) by (simp add: clears_def)
  then have "dl_guid d \<in> doomed st"
    using assms(2,3) by (auto simp: deletes_known_def list_all_iff doomed_def IsCompanion_def sm_has_def)
  then show "IsCompanion st' (dl_guid d) \<or> \<not> sm_has (db_characters st') (dl_guid d)"
    using clears_at [OF assms(1), of "dl_guid d"] by (auto simp: doomed_def IsCompanion_def sm_has_def)
qed

lemma deletes_doomed: "deletes_known st \<Longrightarrow> dl_guid ` {d \<in> set (s_deferredLogouts st). dl_isDelete d} \<subseteq> doomed st"
  by (auto simp: deletes_known_def list_all_iff doomed_def IsCompanion_def sm_has_def)

lemma owned_doomed: "owner \<noteq> 0 \<Longrightarrow> {k. GetOwner st k = owner} \<subseteq> doomed st" "{k. GetOwner st k \<noteq> 0} \<subseteq> doomed st"
  by (auto simp: doomed_def)

lemma CreateBot_cases:
  obtains (refused) "s_owner (fst (CreateBot env master order st)) = s_owner st"
      "db_characters (fst (CreateBot env master order st)) = db_characters st"
      "s_deferredLogouts (fst (CreateBot env master order st)) = s_deferredLogouts st"
  | (made) g name acc s e qs where "ce_newBot env = Some (g, name)" "s_owner s = s_owner st"
      "db_characters s = db_characters st" "s_deferredLogouts s = s_deferredLogouts st"
      "fst (CreateBot env master order st)
        = (noted e (Register env (hr_guid master) g acc (s\<lparr>db_characters := sm_put g acc (db_characters s)\<rparr>)))\<lparr>freeAltBots := qs\<rparr>"
proof -
  obtain st1 r where acc: "GetOrCreateAccount env (hr_guid master) st = (st1, r)" by force
  have st1: "s_owner st1 = s_owner st" "db_characters st1 = db_characters st" "s_deferredLogouts st1 = s_deferredLogouts st"
    using walk_accounts_fields acc by (auto simp: GetOrCreateAccount_def split: if_splits)
  show thesis
  proof (cases "CountFor st (hr_guid master) \<ge> MAX_PER_PLAYER
      \<or> (\<forall>a g name. r = Inr a \<longrightarrow> \<not> GetCharactersCount st1 a \<ge> 9 \<longrightarrow> ce_newBot env \<noteq> Some (g, name))")
    case True
    then have "fst (CreateBot env master order st) \<in> {st, st1}"
      using acc by (auto simp: CreateBot_def Let_def split: sum.splits option.splits)
    with st1 show ?thesis by (intro refused) auto
  next
    case False
    then obtain a g name where r: "r = Inr a" "\<not> GetCharactersCount st1 a \<ge> 9" "ce_newBot env = Some (g, name)"
      "\<not> CountFor st (hr_guid master) \<ge> MAX_PER_PLAYER" by blast
    then show ?thesis using acc st1 by (intro made [where s = st1]) (auto simp: CreateBot_def Let_def)
  qed
qed

lemma CreateBot_news:
  assumes "new_guid env st"
  shows "s_deferredLogouts (fst (CreateBot env master order st)) = s_deferredLogouts st"
    and "sm_find (db_characters (fst (CreateBot env master order st))) k \<noteq> sm_find (db_characters st) k
      \<or> GetOwner (fst (CreateBot env master order st)) k \<noteq> GetOwner st k \<Longrightarrow> unused st k"
  using assms
  by (cases rule: CreateBot_cases [of env master order st];
      auto simp: Register_def NoteAccount_def Let_def GetOwner_def OwnerOfLocked_def new_guid_def split: if_splits)+

lemma hire_cases:
  "clears {} st (fst (Playerbot_RecruitBotForPlayer env book invasions player role classId spec st))
   \<or> fst (Playerbot_RecruitBotForPlayer env book invasions player role classId spec st) = fst (DismissAll env player st)
   \<or> (\<exists>order lines. fst (Playerbot_RecruitBotForPlayer env book invasions player role classId spec st)
        = fold (hear player) lines (fst (CreateBot env player order st)))"
proof -
  have one: "\<exists>order' lines. hear player line (fst (CreateBot env player order st))
      = fold (hear player) lines (fst (CreateBot env player order' st))" for line order
    by (intro exI [of _ order] exI [of _ "[line]"]) simp
  have many: "\<exists>order' lines. fold (hear player) ls (fst (CreateBot env player order st))
      = fold (hear player) lines (fst (CreateBot env player order' st))" for ls order
    by blast
  show ?thesis
    unfolding Playerbot_RecruitBotForPlayer_def
    by (auto simp: Let_def split_beta one many clears_refl clears_simple split: option.split sum.split)
qed

lemma fold_hear_fields:
  "db_characters (fold (hear p) lines st) = db_characters st" "s_owner (fold (hear p) lines st) = s_owner st"
  "s_deferredLogouts (fold (hear p) lines st) = s_deferredLogouts st"
  by (induction lines arbitrary: st) (simp_all add: hear_def)

lemma hire_deletes_known:
  assumes "deletes_known st" and "new_guid env st" and "in_order st" and "may_hire st (hr_guid player)"
  shows "deletes_known (fst (Playerbot_RecruitBotForPlayer env book invasions player role classId spec st))"
  using hire_cases [of st env book invasions player role classId spec]
proof (elim disjE exE)
  let ?st = "fst (Playerbot_RecruitBotForPlayer env book invasions player role classId spec st)"
  assume "clears {} st ?st"
  then show ?thesis by (rule deletes_known_clears) (use assms in simp_all)
next
  assume d: "fst (Playerbot_RecruitBotForPlayer env book invasions player role classId spec st) = fst (DismissAll env player st)"
  show ?thesis
  proof (cases "hr_guid player = 0")
    case False
    then show ?thesis
      unfolding d by (intro deletes_known_clears [OF DismissAll_clears owned_doomed(1)]) (use assms in simp_all)
  next
    case True
    have "k \<notin> followers st 0" for k
      using well_registeredD(3) [of st k] assms(3) by (auto simp: in_order_def followers_def seat_ok_def)
    then have "followers st 0 = {}" by blast
    then have "CompanionsOf st 0 = []"
      using CompanionsOf_set [OF in_order_maps(3) [OF assms(3)], of 0] by simp
    with True assms(1) show ?thesis
      unfolding d by (auto simp: DismissAll_def hear_def deletes_known_def IsCompanion_def GetOwner_def OwnerOfLocked_def)
  qed
next
  fix order lines
  assume h: "fst (Playerbot_RecruitBotForPlayer env book invasions player role classId spec st)
    = fold (hear player) lines (fst (CreateBot env player order st))"
  let ?st = "fst (CreateBot env player order st)"
  note news = CreateBot_news [OF assms(2), of player order]
  have "IsCompanion ?st (dl_guid d) \<or> \<not> sm_has (db_characters ?st) (dl_guid d)"
    if "d \<in> set (s_deferredLogouts st)" "dl_isDelete d" for d
  proof -
    have "\<not> unused st (dl_guid d)" using that(1) by (auto simp: unused_def list_all_iff)
    then have "sm_find (db_characters ?st) (dl_guid d) = sm_find (db_characters st) (dl_guid d)"
      "GetOwner ?st (dl_guid d) = GetOwner st (dl_guid d)"
      using news(2) by blast+
    then show ?thesis
      using assms(1) that by (auto simp: deletes_known_def list_all_iff IsCompanion_def sm_has_def)
  qed
  then show ?thesis
    unfolding h
    by (simp add: deletes_known_def list_all_iff IsCompanion_def GetOwner_def OwnerOfLocked_def fold_hear_fields news(1))
qed

lemma restart_deferred: "s_deferredLogouts (PurgeAtStartup env (forgotten st)) = []"
proof -
  let ?P = "\<lambda>st. s_deferredLogouts st = []"
  have hook: "?P st \<Longrightarrow> ?P (run_hook env h st)" for st h
    by (auto simp: run_hook_def OnRemoveMember_def OnDisband_def Let_def QueueDismiss_def intro!: fold_kept [where P = ?P]
        split: party_hook.splits)
  have del: "?P st \<Longrightarrow> ?P (DeleteFromDB env g st)" for st g
    using fold_kept [where P = ?P, OF hook] by (simp add: DeleteFromDB_def Let_def)
  have learn: "?P st \<Longrightarrow> ?P (fold (learn_account env) accs st)" for st accs
    by (rule fold_kept [where P = ?P]) (auto simp: learn_account_def NoteAccount_def noted_def Let_def)
  have row: "?P (fst acc) \<Longrightarrow> ?P (fst (purge_row env e acc))" for acc e
    by (cases acc; cases e) (auto simp: purge_row_def Let_def NoteAccount_def write_parked_def intro: del)
  have rows: "?P (fst acc) \<Longrightarrow> ?P (fst (fold (purge_row env) es acc))" for acc es
    by (rule fold_kept [where P = "\<lambda>acc. ?P (fst acc)"]) (auto intro: row)
  have sweep: "?P st \<Longrightarrow> ?P (fold (sweep_account env kept) accs st)" for st kept accs
    by (rule fold_kept [where P = ?P]) (auto simp: sweep_account_def intro!: fold_kept [where P = ?P] del)
  show ?thesis
    unfolding PurgeAtStartup_def Let_def split_beta
    by (intro sweep) (simp add: drop_unkept_def rows learn forgotten_def)
qed

lemma sound_clears:
  assumes "sound st" and "clears D st st'" and "D \<subseteq> doomed st" and "in_order st'"
  shows "sound st'"
  using assms deletes_known_clears by (auto simp: sound_def)

lemma sound_module_step:
  assumes "module_step st st'" and "sound st"
  shows "sound st'"
  using assms(1)
proof cases
  case (hire env player book invasions role classId spec)
  then show ?thesis using assms(2) by (auto simp: sound_def intro: in_order_hire hire_deletes_known)
next
  case (send_home player env name)
  show ?thesis
    unfolding send_home(1)
    by (rule sound_clears [OF assms(2) SendHome_clears owned_doomed(1)])
      (use assms(2) send_home(2) in \<open>simp_all add: sound_def kept.law_SendHome\<close>)
next
  case (party env h)
  show ?thesis
    unfolding party
    by (rule sound_clears [OF assms(2) clears_hook [of "{}"]]) (use assms(2) in \<open>simp_all add: sound_def kept.law_hook\<close>)
next
  case (delete env master g r)
  show ?thesis
    by (rule sound_clears [OF assms(2) HandleBotDelete_clears [OF delete] owned_doomed(2)])
      (use assms(2) kept.law_HandleBotDelete [OF _ delete] in \<open>simp add: sound_def\<close>)
next
  case (login isBot g)
  show ?thesis
    unfolding login
    by (rule sound_clears [OF assms(2), of "{}"])
      (use assms(2) in \<open>auto simp: sound_def kept.law_login OnLogin_def clears_refl clears_simple kept.law_managers\<close>)
next
  case (logout env g)
  show ?thesis
    unfolding logout(1)
    by (rule sound_clears [OF assms(2), of "{}"])
      (use assms(2) in_order_logout [OF _ logout(2)] in
        \<open>auto simp: sound_def OnBeforeLogout_def Let_def intro: clears_simple clears_trans [OF clears_simple(11) clears_simple(6)]\<close>)
next
  case (update master env)
  show ?thesis
    unfolding update(1)
    by (rule sound_clears [OF assms(2) update_clears owned_doomed(1)])
      (use assms(2) update(2) in \<open>simp_all add: sound_def kept.law_update\<close>)
next
  case (drain env)
  show ?thesis
    unfolding drain
    by (rule sound_clears [OF assms(2) drain_clears deletes_doomed])
      (use assms(2) in \<open>simp_all add: sound_def kept.law_drain\<close>)
next
  case (logins env)
  show ?thesis
    unfolding logins
    by (rule sound_clears [OF assms(2) LoginFreeBots_clears [of "{}"]]) (use assms(2) in \<open>simp_all add: sound_def kept.law_logins\<close>)
next
  case (returning g)
  show ?thesis
    unfolding returning
    by (rule sound_clears [OF assms(2), of "{}"])
      (use assms(2) in \<open>auto simp: sound_def TakeReturning_def clears_simple kept.law_returning\<close>)
next
  case (order me members target args)
  have "clears {} st (fst (HandleCompanionOrderCommand me members target args st))"
    by (auto simp: HandleCompanionOrderCommand_def SetAggro_def Let_def intro!: clears_fold clears_simple
        clears_trans [OF clears_simple(10) clears_trans [OF clears_simple(1) clears_simple(5)]])
  then show ?thesis
    unfolding order by (rule sound_clears [OF assms(2)]) (use assms(2) in \<open>simp_all add: sound_def in_order_order\<close>)
next
  case (restart env)
  then show ?thesis
    using assms(2) by (auto simp: sound_def in_order_restart deletes_known_def restart_deferred)
qed

lemma DeleteFromDB_owner:
  "s_owner (DeleteFromDB env g st) = s_owner st" "s_deferredLogouts (DeleteFromDB env g st) = s_deferredLogouts st"
proof -
  have "s_owner st' = s_owner st \<and> s_deferredLogouts st' = s_deferredLogouts st \<Longrightarrow>
      s_owner (run_hook env h st') = s_owner st \<and> s_deferredLogouts (run_hook env h st') = s_deferredLogouts st" for h st'
    by (auto simp: run_hook_def OnRemoveMember_def OnDisband_def Let_def QueueDismiss_def
        intro!: fold_kept [where P = "\<lambda>s. s_owner s = s_owner st"] fold_kept [where P = "\<lambda>s. s_deferredLogouts s = s_deferredLogouts st"]
        split: party_hook.splits)
  then have "s_owner (fold (run_hook env) hs st) = s_owner st \<and> s_deferredLogouts (fold (run_hook env) hs st) = s_deferredLogouts st" for hs
    by (rule fold_kept) simp_all
  then show "s_owner (DeleteFromDB env g st) = s_owner st" "s_deferredLogouts (DeleteFromDB env g st) = s_deferredLogouts st"
    by (simp_all add: DeleteFromDB_def Let_def)
qed

lemma sound_world_step:
  assumes "world_step st st'" and "sound st"
  shows "sound st'"
  using assms(1)
proof cases
  case (made g acc)
  then show ?thesis
    using assms(2) in_order_character
    by (auto simp: sound_def deletes_known_def list_all_iff unused_def IsCompanion_def GetOwner_def OwnerOfLocked_def)
next
  case (unmade g env)
  have c: "clears {g} st st'" unfolding unmade(1) by (rule clears_DeleteFromDB)
  have "IsCompanion st' k = IsCompanion st k" for k
    by (simp add: unmade(1) IsCompanion_def GetOwner_def OwnerOfLocked_def DeleteFromDB_owner)
  moreover have "s_deferredLogouts st' = s_deferredLogouts st" by (simp add: unmade(1) DeleteFromDB_owner)
  moreover have "\<not> sm_has (db_characters st') k" if "\<not> sm_has (db_characters st) k" for k
    using clears_at [OF c, of k] that by (auto simp: sm_has_def)
  ultimately have "deletes_known st'"
    using assms(2) unfolding sound_def deletes_known_def list_all_iff by metis
  then show ?thesis using assms(2) by (simp add: unmade(1) sound_def kept.law_DeleteFromDB)
next
  case (account acc name)
  have "in_order st" using assms(2) by (simp add: sound_def)
  then have "well_registered st" by (simp add: in_order_def)
  then have "well_registered st'"
    unfolding account(1) by (rule well_registered_cong [rotated]) (use \<open>in_order st\<close> in \<open>simp_all add: registry_of_def\<close>)
  moreover have "pool_known st'"
    unfolding pool_known_def
  proof (intro conjI allI impI)
    show "sm_ok (db_account st')" using \<open>in_order st\<close> by (simp add: account(1))
    fix a
    assume "IsCompanionAccount st' a"
    then have "IsCompanionAccount st a" by (simp add: account(1) IsCompanionAccount_def split: if_splits)
    from pool_account_known [OF \<open>in_order st\<close> this] account(2)
    show "case sm_find (db_account st') a of None \<Rightarrow> False | Some name \<Rightarrow> is_pool_name name"
      by (auto simp: account(1) is_pool_account_def sm_has_def split: option.splits)
  qed
  ultimately show ?thesis
    using assms(2)
    by (simp add: account(1) sound_def in_order_def deletes_known_def IsCompanion_def GetOwner_def OwnerOfLocked_def)
qed

lemma sound_fresh: "sound fresh_companions"
proof -
  have "mem_look fresh_companions = tab_look fresh_companions"
    by (rule ext) (simp add: mem_look_def tab_look_def fresh_companions_def)
  moreover have "seat_ok fresh_companions k" for k by (simp add: seat_ok_def fresh_companions_def sm_has_def)
  ultimately show ?thesis
    by (simp add: sound_def in_order_def well_registered_def)
      (simp add: maps_ok_def followers_def pool_known_def IsCompanionAccount_def deletes_known_def
        fresh_companions_def sm_has_def)
qed

lemma sound_run:
  assumes "companion_run fresh_companions st"
  shows "sound st"
  using assms
proof induction
  case base
  then show ?case by (rule sound_fresh)
next
  case (step st st')
  then show ?case using sound_module_step sound_world_step by blast
qed

end
