(* ===== verification/CompanionQueues.thy ===== *)
theory CompanionQueues
  imports CompanionSteps
begin

section \<open>Deletes that wait and seats that stay\<close>

text \<open>
  What the properties of the runs rest on: a delete deferred on a map thread is carried out by the next
  drain (\<open>delete_waits\<close>, \<open>gone\<close>), which companions a party hook queues (\<open>hook_names\<close>), and that no operation on
  one companion moves another from its seat (\<open>seat_stays\<close>).
\<close>

subsection \<open>Deletes that wait for the world thread\<close>

definition gone :: "companions \<Rightarrow> u32 \<Rightarrow> bool" where
  "gone st k \<longleftrightarrow> GetOwner st k = 0 \<and> sm_find (db_characters st) k = None"

definition delete_waits :: "companions \<Rightarrow> u32 \<Rightarrow> bool" where
  "delete_waits st k \<longleftrightarrow> list_ex (\<lambda>d. dl_isDelete d \<and> dl_guid d = k) (s_deferredLogouts st)"

lemma gone_clears: "clears D st st' \<Longrightarrow> gone st k \<Longrightarrow> gone st' k"
  using clears_at [of D st st' k] by (auto simp: gone_def)

lemma requeue_keeps:
  "dl_isDelete d \<Longrightarrow> list_ex (\<lambda>x. dl_isDelete x \<and> dl_guid x = dl_guid d) (requeue d qs)"
  "list_ex (\<lambda>x. dl_isDelete x \<and> dl_guid x = k) qs \<Longrightarrow> list_ex (\<lambda>x. dl_isDelete x \<and> dl_guid x = k) (requeue d qs)"
  by (induction d qs rule: requeue.induct) auto

lemma deferred_waits:
  assumes "ce_thread env = MapThread"
  shows "delete_waits (fst (DeleteBot env holder g allow st)) g"
    and "delete_waits st k \<Longrightarrow> delete_waits (fst (DeleteBot env holder g allow st)) k"
  using assms requeue_keeps(1) [of "\<lparr>dl_guid = g, dl_masterGuid = MasterGuidOf holder, dl_allowInstant = allow,
        dl_forDelete = True, dl_isDelete = True\<rparr>" "s_deferredLogouts st"]
    requeue_keeps(2) [of k "s_deferredLogouts st"]
  by (simp_all add: DeleteBot_def MustDeferToWorldThread_def DeferBotLogout_def delete_waits_def)

lemma all_deferred_wait:
  assumes "ce_thread env = MapThread" and "k \<in> set gs \<or> delete_waits st k"
  shows "delete_waits (fold (\<lambda>g st. fst (DeleteBot env holder g allow st)) gs st) k"
  using assms(2)
proof (induction gs arbitrary: st)
  case Nil
  then show ?case by simp
next
  case (Cons g gs)
  then have "k \<in> set gs \<or> delete_waits (fst (DeleteBot env holder g allow st)) k"
    using deferred_waits [OF assms(1)] by auto
  from Cons.IH [OF this] show ?case by simp
qed

lemma delete_waits_cong: "s_deferredLogouts st' = s_deferredLogouts st \<Longrightarrow> delete_waits st' k = delete_waits st k"
  by (simp add: delete_waits_def)

lemma restore_waits:
  assumes "ce_thread env = MapThread" and "delete_waits st k"
  shows "delete_waits (RestoreParkedCompanions env master st) k"
proof -
  have "delete_waits (restore_one env master p st) k" if "delete_waits st k" for p st
    using that deferred_waits(2) [OF assms(1) that]
    by (auto simp: restore_one_def Let_def delete_waits_def noted_def Unpark_def write_parked_def MarkReturning_def)
  then have "delete_waits (fold (restore_one env master) ps st) k" for ps
    using assms(2) by (intro fold_kept [where P = "\<lambda>st. delete_waits st k"])
  with assms(2) show ?thesis by (simp add: RestoreParkedCompanions_def)
qed

lemma drain_one_gone:
  assumes "ce_thread env = WorldThread" and "dl_isDelete d" and "dl_guid d \<noteq> 0" and "ce_logsOut env (dl_guid d)"
  shows "gone (drain_one env d st) (dl_guid d)"
proof -
  let ?r = "DeleteBot env (holderOf env st (dl_masterGuid d)) (dl_guid d) (dl_allowInstant d) st"
  have deleted: "snd ?r"
    using assms by (auto simp: DeleteBot_def MustDeferToWorldThread_def Let_def finish_delete_def split: option.splits)
  then have "sm_find (db_characters (fst ?r)) (dl_guid d) = None"
    using assms by (intro DeleteBot_done) (simp_all add: MustDeferToWorldThread_def)
  then show ?thesis
    using deleted assms(2,3)
    by (auto simp: drain_one_def Let_def split_beta gone_def GetOwner_def OwnerOfLocked_def Unregister_def)
qed

lemma drained_gone:
  assumes "delete_waits st k" and "k \<noteq> 0" and "ce_logsOut env k"
  shows "gone (DrainDeferredBotWork env st) k"
proof -
  let ?env = "env\<lparr>ce_thread := WorldThread\<rparr>"
  obtain d where d: "d \<in> set (s_deferredLogouts st)" "dl_isDelete d" "dl_guid d = k"
    using assms(1) by (auto simp: delete_waits_def list_ex_iff)
  obtain xs ys where ds: "s_deferredLogouts st = xs @ d # ys" using d(1) by (meson split_list)
  have later: "gone (fold (drain_one ?env) ys st') k" if "gone st' k" for st'
    by (rule fold_kept [where P = "\<lambda>st. gone st k"]) (auto intro: that gone_clears [OF drain_one_clears])
  have "gone (drain_one ?env d st') k" for st'
    using drain_one_gone [of ?env d st'] d assms by simp
  then show ?thesis by (simp add: DrainDeferredBotWork_def ds later)
qed

lemma gone_row: "in_order st \<Longrightarrow> gone st k \<Longrightarrow> \<not> IsCompanion st k \<and> sm_find (db_companion_owner st) k = None"
  using companion_iff [of st k] seat_row(1) [of st k]
  by (auto simp: gone_def IsCompanion_def in_order_def sm_has_def)

lemma update_waits:
  assumes "ce_thread env = MapThread" and "sm_has (co_managers st) owner"
    and "sm_has (s_pendingDismiss st) k" and "GetOwner st k = owner"
  shows "delete_waits (UpdateCompanions env owner st) k"
proof -
  obtain restored where m: "sm_find (co_managers st) owner = Some restored" using assms(2) by (auto simp: sm_has_def)
  define st2 where "st2 = fold (\<lambda>g st. fst (DeleteBot env (ManagerOf owner) g True st)) (snd (TakeQueuedDismissals owner st))
    (fst (TakeQueuedDismissals owner st))"
  have "k \<in> set (snd (TakeQueuedDismissals owner st))"
    using assms(3,4) by (simp add: TakeQueuedDismissals_def Let_def GetOwner_def flip: sm_has_keys)
  then have "delete_waits st2 k" unfolding st2_def by (intro all_deferred_wait [OF assms(1)]) simp
  then have "delete_waits (RestoreParkedCompanions env owner (st2\<lparr>co_managers := sm_put owner True (co_managers st2)\<rparr>)) k"
    by (intro restore_waits [OF assms(1)]) (simp add: delete_waits_def)
  with \<open>delete_waits st2 k\<close> show ?thesis
    by (simp add: UpdateCompanions_def m st2_def Let_def split_beta)
qed

lemma QueueDismiss_has:
  "sm_has (s_pendingDismiss (QueueDismiss g st)) k
    \<longleftrightarrow> sm_has (s_pendingDismiss st) k \<or> k = g \<and> g \<noteq> 0 \<and> IsCompanion st g \<and> \<not> IsParked st g"
  by (auto simp: QueueDismiss_def IsCompanion_def GetOwner_def IsParked_def)

lemma QueueDismiss_others [simp]:
  "s_owner (QueueDismiss g st) = s_owner st" "s_parked (QueueDismiss g st) = s_parked st"
  "IsCompanion (QueueDismiss g st) k = IsCompanion st k" "IsParked (QueueDismiss g st) k = IsParked st k"
  "CompanionsOf (QueueDismiss g st) o' = CompanionsOf st o'" "co_managers (QueueDismiss g st) = co_managers st"
  "GetOwner (QueueDismiss g st) k = GetOwner st k"
  by (simp_all add: QueueDismiss_def IsCompanion_def GetOwner_def OwnerOfLocked_def IsParked_def CompanionsOf_def)

lemma fold_QueueDismiss:
  "sm_has (s_pendingDismiss (fold QueueDismiss gs st)) k
    \<longleftrightarrow> sm_has (s_pendingDismiss st) k \<or> k \<in> set gs \<and> k \<noteq> 0 \<and> IsCompanion st k \<and> \<not> IsParked st k"
  by (induction gs arbitrary: st) (auto simp: QueueDismiss_has)

lemma fold_QueueDismiss_others [simp]:
  "s_owner (fold QueueDismiss gs st) = s_owner st" "s_parked (fold QueueDismiss gs st) = s_parked st"
  "co_managers (fold QueueDismiss gs st) = co_managers st" "GetOwner (fold QueueDismiss gs st) k = GetOwner st k"
  by (induction gs arbitrary: st) simp_all

text \<open>Who a hook queues: the member who leaves, and the companions of his.\<close>

definition hook_names :: "companions \<Rightarrow> party_hook \<Rightarrow> u32 \<Rightarrow> bool" where
  "hook_names st h k = (case h of MemberRemoved g \<Rightarrow> k = g \<or> GetOwner st k = g | PartyDisbanded slots \<Rightarrow> k \<in> set slots)"

lemma hook_pending:
  assumes "in_order st" and "ce_enabled env"
  shows "sm_has (s_pendingDismiss (run_hook env h st)) k
    \<longleftrightarrow> sm_has (s_pendingDismiss st) k \<or> hook_names st h k \<and> IsCompanion st k \<and> \<not> IsParked st k"
proof -
  have zero: "IsCompanion st k \<Longrightarrow> k \<noteq> 0"
    using companion_iff [OF assms(1)] well_registeredD(3) [of st k] assms(1)
    by (auto simp: in_order_def seat_ok_def sm_has_def)
  have mine: "k \<in> set (CompanionsOf st g) \<longleftrightarrow> GetOwner st k = g" if "IsCompanion st k" for g
    using that
    by (auto simp: CompanionsOf_set [OF in_order_maps(3) [OF assms(1)]] followers_def GetOwner_def OwnerOfLocked_def IsCompanion_def
        split: option.splits)
  show ?thesis
    using zero mine assms(2)
    by (cases h) (auto simp: run_hook_def OnRemoveMember_def OnDisband_def Let_def fold_QueueDismiss QueueDismiss_has hook_names_def)
qed

lemma hook_others [simp]:
  "s_owner (run_hook env h st) = s_owner st" "s_parked (run_hook env h st) = s_parked st"
  "co_managers (run_hook env h st) = co_managers st" "GetOwner (run_hook env h st) k = GetOwner st k"
  by (cases h; simp add: run_hook_def OnRemoveMember_def OnDisband_def Let_def)+

subsection \<open>An owner comes back\<close>

text \<open>From one state to the next, a companion's seat and character stay, and no login queued is dropped.\<close>

definition seat_stays :: "u32 \<Rightarrow> companions \<Rightarrow> companions \<Rightarrow> bool" where
  "seat_stays k st st' \<longleftrightarrow> sm_find (s_owner st') k = sm_find (s_owner st) k \<and> sm_find (s_account st') k = sm_find (s_account st) k
     \<and> sm_find (s_parked st') k = sm_find (s_parked st) k \<and> sm_find (db_characters st') k = sm_find (db_characters st) k
     \<and> set (freeAltBots st) \<subseteq> set (freeAltBots st')"

lemma seat_stays_refl: "seat_stays k st st"
  by (simp add: seat_stays_def)

lemma seat_stays_trans: "seat_stays k st0 st1 \<Longrightarrow> seat_stays k st1 st2 \<Longrightarrow> seat_stays k st0 st2"
  by (auto simp: seat_stays_def)

lemma seat_stays_fold: "(\<And>x st. x \<in> set xs \<Longrightarrow> seat_stays k st (f x st)) \<Longrightarrow> seat_stays k st (fold f xs st)"
proof (induction xs arbitrary: st)
  case Nil
  then show ?case by (simp add: seat_stays_refl)
next
  case (Cons x xs)
  then have "seat_stays k st (f x st)" "seat_stays k (f x st) (fold f xs (f x st))" by simp_all
  then show ?case by (simp add: seat_stays_trans)
qed

lemma seat_stays_simple:
  "seat_stays k st (noted e st)" "seat_stays k st (QueueDismiss g st)" "seat_stays k st (MarkReturning g st)"
  "seat_stays k st (st\<lparr>co_managers := ms\<rparr>)" "seat_stays k st (st\<lparr>s_pendingDismiss := ps\<rparr>)"
  "seat_stays k st (st\<lparr>s_deferredLogouts := ds\<rparr>)" "set (freeAltBots st) \<subseteq> set qs \<Longrightarrow> seat_stays k st (st\<lparr>freeAltBots := qs\<rparr>)"
  by (simp_all add: seat_stays_def noted_def QueueDismiss_def MarkReturning_def)

lemma seat_stays_erase: "g \<noteq> k \<Longrightarrow> seat_stays k st (st\<lparr>db_characters := sm_erase g (db_characters st)\<rparr>)"
  by (simp add: seat_stays_def)

lemma seat_stays_Unregister: "g \<noteq> k \<Longrightarrow> seat_stays k st (Unregister g st)"
  by (simp add: seat_stays_def Unregister_def)

lemma seat_stays_Unpark: "g \<noteq> k \<Longrightarrow> seat_stays k st (Unpark g st)"
  by (simp add: seat_stays_def Unpark_def write_parked_def)

lemma seat_stays_hook: "seat_stays k st (run_hook env h st)"
proof (cases h)
  case (MemberRemoved g)
  then show ?thesis
    by (auto simp: run_hook_def OnRemoveMember_def Let_def seat_stays_refl
        intro: seat_stays_trans [OF seat_stays_simple(2) seat_stays_fold [OF seat_stays_simple(2)]])
next
  case (PartyDisbanded slots)
  then show ?thesis
    by (auto simp: run_hook_def OnDisband_def seat_stays_refl intro: seat_stays_fold seat_stays_simple)
qed

lemma seat_stays_finish:
  assumes "g \<noteq> k"
  shows "seat_stays k st (fst (finish_delete env holder g st))"
proof -
  have "seat_stays k st (DeleteFromDB env g st)"
    unfolding DeleteFromDB_def Let_def
    by (rule seat_stays_trans [OF seat_stays_fold [OF seat_stays_hook] seat_stays_erase [OF assms]])
  then have "seat_stays k st (noted (BotForgotten g) (DeleteFromDB env g st))"
    by (rule seat_stays_trans [OF _ seat_stays_simple(1)])
  then show ?thesis
    by (cases holder)
      (auto simp: finish_delete_def OnBotDeleted_def
        intro: seat_stays_trans [OF _ seat_stays_trans [OF seat_stays_simple(1) seat_stays_Unregister [OF assms]]])
qed

lemma seat_stays_ready: "seat_stays k st (ready_body g b st)"
  by (auto simp: ready_body_def Let_def seat_stays_refl seat_stays_simple intro: seat_stays_trans [OF seat_stays_simple(1) seat_stays_simple(1)])

lemma seat_stays_DeleteBot:
  assumes "g \<noteq> k"
  shows "seat_stays k st (fst (DeleteBot env holder g allow st))"
proof -
  have out: "seat_stays k st (noted (BotLoggedOut g) (ready_body g b st))" for b st
    by (rule seat_stays_trans [OF seat_stays_ready seat_stays_simple(1)])
  have step: "seat_stays k st (fst (case body of None \<Rightarrow> finish_delete env holder g st
      | Some b \<Rightarrow> let st2 = noted (BotLoggedOut g) (ready_body g b st)
          in if \<not> ce_logsOut env g then (st2, False) else finish_delete env holder g st2))" for body st
    using out seat_stays_finish [OF assms] seat_stays_trans [OF out seat_stays_finish [OF assms]]
    by (simp add: Let_def split: option.split)
  have drive: "seat_stays k st (if c then noted (SessionDriven g) st else st)" for c
    by (simp add: seat_stays_refl seat_stays_simple)
  show ?thesis
  proof (cases "MustDeferToWorldThread env \<or> between_maps env g \<and> ce_thread env \<noteq> WorldThread")
    case True
    then show ?thesis by (auto simp: DeleteBot_def DeferBotLogout_def seat_stays_refl seat_stays_simple)
  next
    case False
    show ?thesis
      unfolding DeleteBot_def Let_def [of "between_maps env g \<and> X" for X] Let_def [of "if c then X else Y" for c X Y]
      using False by (simp only: de_Morgan_disj if_False) (rule seat_stays_trans [OF drive step])
  qed
qed

lemma seat_stays_restore:
  assumes "pk_companionGuid p \<noteq> k"
  shows "seat_stays k st (restore_one env master p st)"
proof -
  note un = seat_stays_Unpark [OF assms]
  note del = seat_stays_DeleteBot [OF assms]
  have mark: "seat_stays k st (MarkReturning g st1)" if "seat_stays k st st1" for g st1
    by (rule seat_stays_trans [OF that seat_stays_simple(3)])
  have queue: "seat_stays k st (st1\<lparr>freeAltBots := freeAltBots st1 @ qs\<rparr>)" if "seat_stays k st st1" for st1 qs
    using that by (auto simp: seat_stays_def)
  have say: "seat_stays k st (noted e st1)" if "seat_stays k st st1" for e st1
    by (rule seat_stays_trans [OF that seat_stays_simple(1)])
  show ?thesis
    unfolding restore_one_def Let_def
    by (auto simp only: split: if_split intro!: say queue mark un del)
qed

end
