(* ===== verification/CompanionRuns.thy ===== *)
theory CompanionRuns
  imports CompanionQueues
begin

section \<open>Properties of the companions\<close>

text \<open>
  What holds in every state a server can reach (\<open>companion_run\<close> from \<open>fresh_companions\<close>): the registry and
  its table, the cap, restarts, deletes, kicks, logouts and returns, hires. A small run at the end, a player
  who hires one tank, gives the witnesses.
\<close>

lemma no_companions_of_nobody:
  assumes "in_order st"
  shows "CompanionsOf st 0 = []"
proof -
  have "k \<notin> followers st 0" for k
    using well_registeredD(3) [of st k] assms by (auto simp: in_order_def followers_def seat_ok_def)
  then have "followers st 0 = {}" by blast
  then show ?thesis using CompanionsOf_set [OF in_order_maps(3) [OF assms], of 0] by simp
qed

lemma fold_noted_characters: "db_characters (fold (\<lambda>x. noted (f x)) xs st) = db_characters st"
  by (induction xs arbitrary: st) simp_all

lemma same_characters [simp]:
  "db_characters (OnLogin isBot g st) = db_characters st" "db_characters (OnBeforeLogout env g st) = db_characters st"
  "db_characters (fst (TakeReturning g st)) = db_characters st"
  "db_characters (fst (HandleCompanionOrderCommand me members target args st)) = db_characters st"
  by (simp_all add: OnLogin_def OnBeforeLogout_def TakeReturning_def Let_def HandleCompanionOrderCommand_def hear_def
      SetAggro_def fold_noted_characters)

subsection \<open>The registry and the table\<close>

text \<open>
  C6: memory and table agree. Whatever the module and the rest of the server have done, and after any
  restart, the table \<open>companion_owner\<close> says of every guid what the registry in memory says: whether it is a
  companion, whose, whether it is parked and since when.
\<close>

theorem registry_matches_table:
  assumes "companion_run fresh_companions st"
  shows "case sm_find (db_companion_owner st) k of
      None \<Rightarrow> \<not> IsCompanion st k \<and> \<not> IsParked st k
    | Some row \<Rightarrow> IsCompanion st k \<and> GetOwner st k = or_owner row \<and> IsCompanionAccount st (or_account row)
        \<and> sm_find (s_parked st) k = (if or_parked row = 0 then None else Some (uint (or_parked row)))"
proof -
  have st: "in_order st" using sound_run [OF assms] by (simp add: sound_def)
  then have w: "well_registered st" by (simp add: in_order_def)
  show ?thesis
  proof (cases "sm_find (db_companion_owner st) k")
    case None
    then have "sm_find (s_owner st) k = None" using seat_row(1) [OF w] by simp
    with None show ?thesis
      using well_registeredD(3) [OF w, of k] by (simp add: companion_iff [OF st] IsParked_def sm_has_def seat_ok_def)
  next
    case (Some row)
    then show ?thesis
      using seat_row(2) [OF w Some] well_registeredD(3) [OF w, of k]
      by (simp add: companion_iff [OF st] sm_has_def seat_ok_def GetOwner_def OwnerOfLocked_def)
  qed
qed

text \<open>
  C25: nobody has three. However hires, refusals, dismissals, logouts and restarts follow each other, no
  player ever owns more companions than \<open>MAX_PER_PLAYER\<close>, parked ones included.
\<close>

theorem companions_capped:
  assumes "companion_run fresh_companions st"
  shows "CountFor st player \<le> MAX_PER_PLAYER \<and> length (CompanionsOf st player) \<le> 2"
proof -
  have w: "well_registered st" using sound_run [OF assms] by (simp add: sound_def in_order_def)
  have n: "length (CompanionsOf st player) \<le> 2"
    using well_registeredD(4) [OF w, of player] CompanionsOf_set [of st player] CompanionsOf_distinct [of st player]
      well_registeredD(5) [OF w] by (metis distinct_card)
  then have "unat (CountFor st player) \<le> 2" by (simp add: CountFor_length unat_of_nat)
  with n show ?thesis by (simp add: MAX_PER_PLAYER_def word_le_nat_alt)
qed

text \<open>
  C16: a restart is a logout. After \<open>PurgeAtStartup\<close> the companions are exactly those there were before whose
  character and whose owner still exist and who have not waited longer than the window; each has its owner
  and its stamp, the moment of the restart where it had none. The characters of the others are gone, and so
  is whoever else lives on an account of the pool; every other character stays.
\<close>

theorem restart_is_a_logout:
  assumes "companion_run fresh_companions st"
  shows "let st' = PurgeAtStartup env (forgotten st) in
     GetOwner st' k = (if comes_back env st k then GetOwner st k else 0)
     \<and> sm_find (s_parked st') k = (if comes_back env st k then Some (waiting_since env st k) else None)
     \<and> sm_find (db_characters st') k
       = (if comes_back env st k then sm_find (db_characters st) k
          else if IsCompanion st k then None
          else case sm_find (db_characters st) k of None \<Rightarrow> None | Some acc \<Rightarrow> if is_pool_account st acc then None else Some acc)"
  using restart_memory [of st env k] sound_run [OF assms] by (simp add: sound_def Let_def)


subsection \<open>A kick, a dismissal, a logout\<close>


text \<open>
  A dismissal of all leaves none. After \<open>DismissAll\<close> on a map thread and the drain that follows, the
  player has no companion, parked ones included, and none of their characters is left, as long as the
  server can log them out.
\<close>

theorem dismissal_leaves_none:
  assumes "companion_run fresh_companions st" and "hr_guid player \<noteq> 0" and "sm_has (co_managers st) (hr_guid player)"
    and "ce_thread env = MapThread" and "\<And>k. ce_logsOut env' k"
  shows "let st' = DrainDeferredBotWork env' (fst (DismissAll env player st))
    in CompanionsOf st' (hr_guid player) = []
       \<and> list_all (\<lambda>k. sm_find (db_characters st') k = None) (CompanionsOf st (hr_guid player))"
proof -
  have s: "sound st" by (rule sound_run [OF assms(1)])
  then have st: "in_order st" by (simp add: sound_def)
  define st1 where "st1 = fst (DismissAll env player st)"
  define st2 where "st2 = DrainDeferredBotWork env' st1"
  have st2: "in_order st2" unfolding st2_def st1_def by (intro kept.law_drain kept.law_DismissAll st)
  have c: "clears UNIV st st2"
    unfolding st2_def st1_def
    by (rule clears_trans [OF clears_mono [OF DismissAll_clears] clears_mono [OF drain_clears]]) (use st in auto)
  have mine: "gone st2 k" if k: "k \<in> set (CompanionsOf st (hr_guid player))" for k
  proof -
    have "k \<noteq> 0"
      using k well_registeredD(3) [of st k] st
      by (auto simp: CompanionsOf_set followers_def in_order_def seat_ok_def)
    moreover have "delete_waits st1 k"
    proof -
      have "delete_waits (fold (\<lambda>g st. fst (DeleteBot env (ManagerOf (hr_guid player)) g True st))
          (CompanionsOf st (hr_guid player)) st) k"
        using k by (intro all_deferred_wait [OF assms(4)]) simp
      moreover have "CompanionsOf st (hr_guid player) \<noteq> []" using k by auto
      ultimately show ?thesis
        using assms(3) by (simp add: st1_def DismissAll_def Let_def hear_def delete_waits_def)
    qed
    ultimately show ?thesis unfolding st2_def by (intro drained_gone assms(5))
  qed
  have "k \<notin> set (CompanionsOf st2 (hr_guid player))" for k
  proof
    assume "k \<in> set (CompanionsOf st2 (hr_guid player))"
    then have k: "GetOwner st2 k = hr_guid player"
      using st2 by (simp add: CompanionsOf_set followers_def GetOwner_def OwnerOfLocked_def)
    then have "GetOwner st k = hr_guid player" using clears_owner [OF c, of k] assms(2) by simp
    then have "k \<in> set (CompanionsOf st (hr_guid player))"
      using st assms(2) by (auto simp: CompanionsOf_set followers_def GetOwner_def OwnerOfLocked_def split: option.splits)
    from mine [OF this] k assms(2) show False by (simp add: gone_def)
  qed
  then have "CompanionsOf st2 (hr_guid player) = []" by (metis last_in_set)
  with mine show ?thesis by (simp add: Let_def st2_def st1_def gone_def list_all_iff)
qed

lemma hooks_others:
  "s_owner (fold (run_hook env) hs st) = s_owner st" "s_parked (fold (run_hook env) hs st) = s_parked st"
  "db_characters (fold (run_hook env) hs st) = db_characters st" "db_companion_owner (fold (run_hook env) hs st) = db_companion_owner st"
proof -
  have "db_characters (run_hook env h st) = db_characters st \<and> db_companion_owner (run_hook env h st) = db_companion_owner st" for h st
  proof -
    have "db_characters (fold QueueDismiss gs st) = db_characters st \<and> db_companion_owner (fold QueueDismiss gs st) = db_companion_owner st" for gs st
      by (induction gs arbitrary: st) (simp_all add: QueueDismiss_def)
    then show ?thesis
      by (cases h; simp add: run_hook_def OnRemoveMember_def OnDisband_def Let_def) (simp add: QueueDismiss_def)
  qed
  then show "s_owner (fold (run_hook env) hs st) = s_owner st" "s_parked (fold (run_hook env) hs st) = s_parked st"
    "db_characters (fold (run_hook env) hs st) = db_characters st" "db_companion_owner (fold (run_hook env) hs st) = db_companion_owner st"
    by (induction hs arbitrary: st) simp_all
qed

lemma parked_not_queued:
  assumes "IsParked st k"
  shows "sm_has (s_pendingDismiss (fold (run_hook env) hs st)) k \<longleftrightarrow> sm_has (s_pendingDismiss st) k"
  using assms
proof (induction hs arbitrary: st)
  case Nil
  then show ?case by simp
next
  case (Cons h hs)
  have "IsParked (run_hook env h st) k" using Cons.prems by (simp add: IsParked_def)
  from Cons.IH [OF this] show ?case
    using Cons.prems
    by (cases h; simp add: run_hook_def OnRemoveMember_def OnDisband_def Let_def fold_QueueDismiss QueueDismiss_has)
      auto
qed

text \<open>
  C21: a logout costs nobody. From \<open>OnBeforeLogout\<close> on, every companion of the player is parked with that
  moment's stamp, in memory and in the table, and whatever hooks his party fires while he is away, kicks,
  leaves or disbands, none of his companions is queued that was not before.
\<close>

theorem logout_costs_nobody:
  assumes "companion_run fresh_companions st" and "clock_ok env" and "ce_enabled env" and "GetOwner st k = owner" and "owner \<noteq> 0"
  shows "let st' = fold (run_hook env) hs (OnBeforeLogout env owner st)
    in GetOwner st' k = owner \<and> sm_find (s_parked st') k = Some (ce_now env)
       \<and> map_option or_parked (sm_find (db_companion_owner st') k) = Some (of_int (ce_now env))
       \<and> (sm_has (s_pendingDismiss st') k \<longleftrightarrow> sm_has (s_pendingDismiss st) k)
       \<and> sm_find (db_characters st') k = sm_find (db_characters st) k"
proof -
  have st: "in_order st" using sound_run [OF assms(1)] by (simp add: sound_def)
  have own: "sm_find (s_owner st) k = Some owner"
    using assms(4,5) by (auto simp: GetOwner_def OwnerOfLocked_def split: option.splits)
  let ?st1 = "OnBeforeLogout env owner st"
  have parked: "sm_find (s_parked ?st1) k = Some (ce_now env)"
    using parked_by_owner [OF in_order_maps(3) [OF st] assms(5), of env k] own assms(3)
    by (simp add: OnBeforeLogout_def Let_def)
  have st1: "in_order ?st1" by (rule in_order_logout [OF st assms(2)])
  then have "well_registered ?st1" by (simp add: in_order_def)
  have own1: "sm_find (s_owner ?st1) k = Some owner" using own assms(3) by (simp add: OnBeforeLogout_def Let_def)
  then obtain row where row: "sm_find (db_companion_owner ?st1) k = Some row"
    using seat_row(1) [OF \<open>well_registered ?st1\<close>, of k] by fastforce
  then have "or_parked row = of_int (ce_now env)"
    using seat_row(2) [OF \<open>well_registered ?st1\<close> row] parked by (auto split: if_splits)
  moreover have "IsParked ?st1 k" using parked by (simp add: IsParked_def sm_has_def)
  ultimately show ?thesis
    using parked own1 row parked_not_queued [of ?st1 k env hs] assms(3)
    by (simp add: Let_def hooks_others GetOwner_def OwnerOfLocked_def)
      (simp add: OnBeforeLogout_def Let_def)
qed

text \<open>What bringing one companion back gives, and that nothing after it takes it away.\<close>

definition brought_back :: "companion_env \<Rightarrow> u32 \<Rightarrow> u32 \<Rightarrow> companions \<Rightarrow> bool" where
  "brought_back env owner k st \<longleftrightarrow> GetOwner st k = owner \<and> \<not> IsParked st k
     \<and> (online_body env k \<noteq> None \<and> k \<in> set (ce_party env owner) \<or> list_ex (\<lambda>entry. snd entry = k) (freeAltBots st))"

lemma brought_back_stays: "seat_stays k st st' \<Longrightarrow> brought_back env owner k st \<Longrightarrow> brought_back env owner k st'"
  by (auto simp: seat_stays_def brought_back_def GetOwner_def OwnerOfLocked_def IsParked_def sm_has_def list_ex_iff)

lemma restore_brings_back:
  assumes "pk_companionGuid p = k" and "ce_now env - pk_since p \<le> park_window env" and "pk_accountId p \<noteq> 0"
    and "GetOwner st k = owner"
  shows "brought_back env owner k (restore_one env owner p st)"
    and "sm_find (db_characters (restore_one env owner p st)) k = sm_find (db_characters st) k"
proof -
  let ?out = "online_body env k" and ?st1 = "Unpark k st"
  define st2 where "st2 = (if ?out = None then MarkReturning k ?st1 else ?st1)"
  define name where "name = (case ce_name env k of None \<Rightarrow> ''A companion'' | Some n \<Rightarrow> n)"
  define st3 where "st3 = (if list_ex (\<lambda>entry. snd entry = k) (freeAltBots st2) then st2
    else st2\<lparr>freeAltBots := freeAltBots st2 @ [(pk_accountId p, k)]\<rparr>)"
  have acc: "(case ?out of None \<Rightarrow> pk_accountId p | Some b \<Rightarrow> if pk_accountId p = 0 then bb_account b else pk_accountId p)
      = pk_accountId p"
    using assms(3) by (simp split: option.split)
  have run: "restore_one env owner p st = (if ?out \<noteq> None \<and> k \<in> set (ce_party env owner) then ?st1
      else noted (CompanionLine owner (name @ '' is on the way back.'')) st3)"
    using assms(2,3) unfolding restore_one_def Let_def assms(1) acc st3_def st2_def name_def by simp
  have one: "sm_find (s_owner ?st1) k = sm_find (s_owner st) k" "sm_find (s_parked ?st1) k = None"
    "sm_find (db_characters ?st1) k = sm_find (db_characters st) k"
    by (auto simp: Unpark_def write_parked_def sm_has_def)
  then have two: "sm_find (s_owner st2) k = sm_find (s_owner st) k" "sm_find (s_parked st2) k = None"
    "sm_find (db_characters st2) k = sm_find (db_characters st) k"
    by (auto simp: st2_def MarkReturning_def)
  then have three: "sm_find (s_owner st3) k = sm_find (s_owner st) k" "sm_find (s_parked st3) k = None"
    "sm_find (db_characters st3) k = sm_find (db_characters st) k" "list_ex (\<lambda>entry. snd entry = k) (freeAltBots st3)"
    by (simp_all add: st3_def)
  show "brought_back env owner k (restore_one env owner p st)"
    using one three assms(4) by (simp add: run brought_back_def IsParked_def sm_has_def GetOwner_def OwnerOfLocked_def)
  show "sm_find (db_characters (restore_one env owner p st)) k = sm_find (db_characters st) k"
    using one three by (simp add: run)
qed

lemma ParkedOf_entry:
  assumes "in_order st" and "GetOwner st k = owner" and "owner \<noteq> 0" and "sm_find (s_parked st) k = Some since"
  obtains p xs ys where "ParkedOf st owner = xs @ p # ys" and "pk_companionGuid p = k" and "pk_since p = since"
    and "pk_accountId p \<noteq> 0" and "\<And>x. x \<in> set xs \<union> set ys \<Longrightarrow> pk_companionGuid x \<noteq> k"
proof -
  let ?rec = "\<lambda>entry. \<lparr>pk_companionGuid = fst entry,
                       pk_accountId = (case sm_find (s_account st) (fst entry) of None \<Rightarrow> 0 | Some acc \<Rightarrow> acc),
                       pk_since = snd entry\<rparr>"
  let ?ps = "ParkedOf st owner"
  have w: "well_registered st" using assms(1) by (simp add: in_order_def)
  then have ok: "sm_ok (s_parked st)" by (simp add: well_registered_def maps_ok_def)
  have "(k, since) \<in> set (s_parked st)" using assms(4) by (simp add: sm_find_in [OF ok])
  then have p: "?rec (k, since) \<in> set ?ps"
    using assms(2) by (force simp: ParkedOf_def GetOwner_def)
  then obtain xs ys where ps: "?ps = xs @ ?rec (k, since) # ys" by (meson split_list)
  have "sm_find (s_owner st) k = Some owner"
    using assms(2,3) by (auto simp: GetOwner_def OwnerOfLocked_def split: option.splits)
  then obtain acc where acc: "sm_find (s_account st) k = Some acc" "acc \<noteq> 0"
    using well_registeredD(3) [OF w, of k] by (auto simp: seat_ok_def IsCompanionAccount_def split: option.splits if_splits)
  have "distinct (map pk_companionGuid ?ps)"
  proof -
    let ?es = "filter (\<lambda>entry. OwnerOfLocked st (fst entry) = owner) (s_parked st)"
    have "distinct (map fst ?es)" by (intro distinct_map_filter sm_ok_distinct ok)
    then have "distinct (map ?rec ?es) \<and> inj_on pk_companionGuid (set (map ?rec ?es))"
      by (auto simp: distinct_map inj_on_def)
    then show ?thesis unfolding ParkedOf_def by (simp add: distinct_map)
  qed
  then have "x \<in> set xs \<union> set ys \<Longrightarrow> pk_companionGuid x \<noteq> k" for x by (auto simp: ps)
  with ps acc show thesis by (intro that [of xs "?rec (k, since)" ys]) auto
qed

text \<open>
  C18: an owner gets them back. A parked companion within the window whose dismissal is not pending is, after
  its owner's login and the first update of the new manager, still his, no longer parked, its character
  untouched, and either with him in his party or queued for login.
\<close>

theorem owner_gets_them_back:
  assumes "companion_run fresh_companions st" and "GetOwner st k = owner" and "owner \<noteq> 0" and "sm_find (s_parked st) k = Some since"
    and "ce_now env - since \<le> park_window env" and "\<not> sm_has (s_pendingDismiss st) k" and "\<not> sm_has (co_managers st) owner"
    and "ce_enabled env" and "ce_playerInWorld env owner"
  shows "let st' = UpdateCompanions env owner (OnLogin False owner st)
    in GetOwner st' k = owner \<and> \<not> IsParked st' k \<and> sm_find (db_characters st') k = sm_find (db_characters st) k
       \<and> (online_body env k \<noteq> None \<and> k \<in> set (ce_party env owner) \<or> list_ex (\<lambda>entry. snd entry = k) (freeAltBots st'))"
proof -
  have st: "in_order st" using sound_run [OF assms(1)] by (simp add: sound_def)
  define st0 where "st0 = OnLogin False owner st"
  have st0: "in_order st0" "seat_stays k st st0" "sm_find (co_managers st0) owner = Some False" "s_pendingDismiss st0 = s_pendingDismiss st"
    using kept.law_login [OF st, of False owner] assms(7) by (simp_all add: st0_def OnLogin_def seat_stays_def)
  define st1 gs where "st1 = fst (TakeQueuedDismissals owner st0)" and "gs = snd (TakeQueuedDismissals owner st0)"
  define st2 where "st2 = fold (\<lambda>g st. fst (DeleteBot env (ManagerOf owner) g True st)) gs st1"
  define st3 where "st3 = st2\<lparr>co_managers := sm_put owner True (co_managers st2)\<rparr>"
  have gs: "g \<in> set gs \<Longrightarrow> g \<noteq> k" for g
    using assms(6) st0(4) by (auto simp: gs_def TakeQueuedDismissals_def Let_def sm_has_keys)
  have "seat_stays k st0 st1" by (simp add: st1_def TakeQueuedDismissals_def Let_def seat_stays_simple)
  moreover have "seat_stays k st1 st2" unfolding st2_def by (intro seat_stays_fold seat_stays_DeleteBot gs)
  ultimately have s3: "seat_stays k st st3"
    unfolding st3_def by (intro seat_stays_trans [OF st0(2) seat_stays_trans [OF _ seat_stays_trans [OF _ seat_stays_simple(4)]]])
  have "in_order st3"
  proof -
    have "in_order st1" unfolding st1_def using st0(1) by (simp add: TakeQueuedDismissals_def Let_def kept.law_pending)
    then have "in_order st2" unfolding st2_def by (intro kept.law_fold kept.law_DeleteBot)
    then show ?thesis unfolding st3_def by (rule kept.law_managers)
  qed
  moreover have own: "GetOwner st3 k = owner" and "sm_find (s_parked st3) k = Some since"
    using s3 assms(2,4) by (simp_all add: seat_stays_def GetOwner_def OwnerOfLocked_def)
  ultimately obtain p xs ys where ps: "ParkedOf st3 owner = xs @ p # ys" and p: "pk_companionGuid p = k" "pk_since p = since" "pk_accountId p \<noteq> 0"
    and others: "\<And>x. x \<in> set xs \<union> set ys \<Longrightarrow> pk_companionGuid x \<noteq> k"
    using assms(3) by (elim ParkedOf_entry) auto
  let ?a = "fold (restore_one env owner) xs st3"
  have a: "seat_stays k st3 ?a" by (intro seat_stays_fold seat_stays_restore others) simp
  then have "GetOwner ?a k = owner" using own by (simp add: seat_stays_def GetOwner_def OwnerOfLocked_def)
  note b = restore_brings_back [OF p(1) _ p(3) this, of env, unfolded p(2), OF assms(5)]
  have c: "seat_stays k (restore_one env owner p ?a) (RestoreParkedCompanions env owner st3)"
    using assms(8) by (simp add: RestoreParkedCompanions_def ps) (intro seat_stays_fold seat_stays_restore others, simp)
  have "sm_find (db_characters (RestoreParkedCompanions env owner st3)) k = sm_find (db_characters st) k"
    using b(2) c a s3 by (simp add: seat_stays_def)
  with brought_back_stays [OF c b(1)] show ?thesis
    using st0(3) assms(9)
    by (simp add: Let_def brought_back_def UpdateCompanions_def split_beta st3_def st2_def st1_def gs_def flip: st0_def)
qed

subsection \<open>A hire\<close>

lemma walk_accounts_error:
  "walk_accounts env left n st = (st', Inl err) \<Longrightarrow> take 13 err \<noteq> ''Bot created: ''"
proof (induction env left n st rule: walk_accounts.induct)
  case (1 env n st)
  then show ?case by auto
next
  case (2 env left n st)
  show ?case
    using 2(2) 2(1) [OF refl refl _ refl refl _ refl]
    by (auto simp: Let_def split: if_splits)
qed

lemma GetOrCreateAccount_error:
  "GetOrCreateAccount env master st = (st', Inl err) \<Longrightarrow> take 13 err \<noteq> ''Bot created: ''"
  using walk_accounts_error by (auto simp: GetOrCreateAccount_def split: if_splits)

text \<open>What a hire leaves alone when it makes nobody.\<close>

definition same_companions :: "companions \<Rightarrow> companions \<Rightarrow> bool" where
  "same_companions st st' \<longleftrightarrow> s_owner st' = s_owner st \<and> s_parked st' = s_parked st \<and> db_companion_owner st' = db_companion_owner st
     \<and> db_characters st' = db_characters st \<and> freeAltBots st' = freeAltBots st \<and> s_pendingDismiss st' = s_pendingDismiss st
     \<and> s_deferredLogouts st' = s_deferredLogouts st"

lemma same_companions_refl: "same_companions st st"
  by (simp add: same_companions_def)

lemma same_companions_hear [simp]: "same_companions st (hear p line st') = same_companions st st'"
  by (simp add: same_companions_def hear_def noted_def)

lemma same_companions_hears [simp]: "same_companions st (fold (hear p) ls st') = same_companions st st'"
  by (induction ls arbitrary: st') simp_all

lemma count_put: "length (filter P (sm_put k v m)) \<le> Suc (length (filter P m))"
  by (induction m) auto

lemma CreateBot_result:
  assumes "in_order st" and "new_guid env st" and "may_hire st (hr_guid master)" and "ce_newBot env = Some (g, name)"
    and "g \<noteq> 0" and "name \<noteq> []"
  obtains (refused) "same_companions st (fst (CreateBot env master order st))" "created_name (snd (CreateBot env master order st)) = []"
  | (made) acc where "created_name (snd (CreateBot env master order st)) = name" "hr_guid master \<noteq> 0"
      "s_owner (fst (CreateBot env master order st)) = sm_put g (hr_guid master) (s_owner st)"
      "sm_find (s_parked (fst (CreateBot env master order st))) g = None"
      "db_characters (fst (CreateBot env master order st)) = sm_put g acc (db_characters st)"
      "(acc, g) \<in> set (freeAltBots (fst (CreateBot env master order st)))"
      "GetCharactersCount st acc < 9" "IsCompanionAccount (fst (CreateBot env master order st)) acc"
proof (cases "CountFor st (hr_guid master) \<ge> MAX_PER_PLAYER")
  case True
  then show ?thesis by (intro refused) (simp_all add: CreateBot_def same_companions_refl created_name_def)
next
  case False
  obtain st1 r where acc: "GetOrCreateAccount env (hr_guid master) st = (st1, r)" by force
  have st1: "same_companions st st1" and known: "case r of Inl e \<Rightarrow> True | Inr a \<Rightarrow> IsCompanionAccount st1 a \<and> hr_guid master \<noteq> 0"
    using walk_accounts_run [OF assms(1), of env 10000 0 st1 r] walk_accounts_fields [of env 10000 0 st st1 r] acc
    by (auto simp: GetOrCreateAccount_def same_companions_def split: if_splits sum.splits)
  have same: "GetCharactersCount st1 a = GetCharactersCount st a" for a
    using st1 by (simp add: GetCharactersCount_def same_companions_def)
  show ?thesis
  proof (cases "\<exists>a. r = Inr a \<and> \<not> GetCharactersCount st1 a \<ge> 9")
    case no: False
    then have "fst (CreateBot env master order st) = st1" and "created_name (snd (CreateBot env master order st)) = []"
      using acc False GetOrCreateAccount_error [of env "hr_guid master" st st1]
      by (auto simp: CreateBot_def Let_def created_name_def split: sum.split)
    with st1 show ?thesis by (intro refused) simp_all
  next
    case True
    then obtain a where a: "r = Inr a" "\<not> GetCharactersCount st1 a \<ge> 9" by blast
    have msgs: "created_name (snd (CreateBot env master order st)) = name"
      using acc False a assms(4) by (simp add: CreateBot_def Let_def created_name_def)
    have "s_owner (fst (CreateBot env master order st)) = sm_put g (hr_guid master) (s_owner st)"
      "sm_find (s_parked (fst (CreateBot env master order st))) g = None"
      "db_characters (fst (CreateBot env master order st)) = sm_put g a (db_characters st)"
      "(a, g) \<in> set (freeAltBots (fst (CreateBot env master order st)))"
      "IsCompanionAccount (fst (CreateBot env master order st)) a"
      using acc False a assms(4,5) known st1
      by (simp_all add: CreateBot_def Let_def Register_def noted_def NoteAccount_def same_companions_def IsCompanionAccount_def split: if_splits)
    with msgs a known same show ?thesis by (intro made) auto
  qed
qed


text \<open>
  What the trainer offers is what the hire takes. The list \<open>Playerbot_HireClasses\<close> sends is that of the
  nine classes which, named in a hire, pass its class test as themselves; with no class named, one that is
  drawn can fill the role.
\<close>

theorem offered_classes_hired:
  shows "Playerbot_HireClasses env book role
      = (if ce_enabled env
         then join_with '','' (map (hb_className book) (filter (\<lambda>cls. hire_class book role cls = Inr cls) HIRE_CLASSES))
         else [])
     \<and> (case hire_class book role 0 of Inl line \<Rightarrow> line = ''I could not find '' @ RoleName role @ '' for you just now.''
        | Inr drawn \<Rightarrow> drawn \<noteq> 0 \<and> getPremadePaths book drawn [] (RoleFromScriptOption role) \<noteq> [])"
proof -
  have "cls AND 255 = cls \<and> cls \<noteq> 0" if "cls \<in> set HIRE_CLASSES" for cls
    using that by (auto simp: HIRE_CLASSES_def)
  then have named: "getPremadePaths book cls [] (RoleFromScriptOption role) \<noteq> [] \<longleftrightarrow> hire_class book role cls = Inr cls"
    if "cls \<in> set HIRE_CLASSES" for cls
    using that by (simp add: hire_class_def Let_def)
  have "roll_class book wanted left tries \<noteq> 0 \<Longrightarrow> getPremadePaths book (roll_class book wanted left tries) [] wanted \<noteq> []"
    for wanted left tries
    by (induction book wanted left tries rule: roll_class.induct) (auto simp: Let_def)
  then show ?thesis
    using named by (auto simp: Playerbot_HireClasses_def hire_class_def [of book role 0] Let_def cong: filter_cong)
qed


subsection \<open>A player, a trainer, a bot\<close>

definition inn_env :: companion_env where
  "inn_env = \<lparr>ce_enabled = True, ce_now = 1000, ce_parkMinutes = 30, ce_thread = MapThread, ce_bot = (\<lambda>g. None),
     ce_driven = (\<lambda>g. None), ce_logsOut = (\<lambda>g. True), ce_leaves = (\<lambda>g. []), ce_party = (\<lambda>g. []), ce_playerInWorld = (\<lambda>g. True),
     ce_name = (\<lambda>g. None), ce_ownName = (\<lambda>a. True), ce_changes = (\<lambda>a. True), ce_draw = (\<lambda>a i. i), ce_alwaysOnline = (\<lambda>g. False),
     ce_botNpc = (\<lambda>g. False), ce_loginAllowed = True, ce_accountMade = True, ce_newAccount = 3,
     ce_newBot = Some (2, ''Bo''), ce_named = (\<lambda>n. True)\<rparr>"

definition inn_book :: hire_book where
  "inn_book = \<lparr>hb_paths = (\<lambda>cls. if cls = 1 then [(''prot'', BOT_ROLE_TANK)] else []), hb_className = (\<lambda>cls. ''Warrior''),
     hb_rolls = (\<lambda>i. 1)\<rparr>"

definition inn_guest :: hirer where
  "inn_guest = \<lparr>hr_guid = 1, hr_name = ''Ann'', hr_level = 20, hr_group = None\<rparr>"

definition calm :: InvasionManager where
  "calm = \<lparr>im_invasions = [], im_revives = [], im_respite = [], im_trace = []\<rparr>"

definition at_inn :: companions where
  "at_inn = OnLogin False 1 (fresh_companions\<lparr>db_characters := sm_put 1 9 (db_characters fresh_companions)\<rparr>)"

definition hired :: companions where
  "hired = fst (Playerbot_RecruitBotForPlayer inn_env inn_book calm inn_guest SO_RECRUIT_TANK 1 [] at_inn)"

lemma at_inn_state: "at_inn = fresh_companions\<lparr>db_characters := [(1, 9)], co_managers := [(1, False)]\<rparr>"
  by (simp add: at_inn_def OnLogin_def fresh_companions_def sm_has_def)

lemma hire_runs:
  "Playerbot_RecruitBotForPlayer inn_env inn_book calm inn_guest SO_RECRUIT_TANK 1 [] at_inn
   = (\<lparr>s_owner = [(2, 1)], s_accounts = [(3, ())], s_pendingDismiss = [], s_account = [(2, 3)], s_parked = [],
     s_returning = [], s_aggro = [], s_deferredLogouts = [], co_managers = [(1, False)], freeAltBots = [(3, 2)],
     db_companion_owner = [(2, \<lparr>or_owner = 1, or_account = 3, or_created = 1000, or_parked = 0\<rparr>)],
     db_characters = [(1, 9), (2, 3)], db_account = [(3, ''COMPANION0'')],
     co_log = [PoolAccountMade 3 ''COMPANION0'', BotMade 2 20 ''Warrior'' ''tank'' [] True,
       CompanionLine 1 ''Bo will be along shortly.'']\<rparr>, True)"
  by code_simp

lemma hired_made:
  "Playerbot_RecruitBotForPlayer inn_env inn_book calm inn_guest SO_RECRUIT_TANK 1 [] at_inn = (hired, True)"
  "hired = \<lparr>s_owner = [(2, 1)], s_accounts = [(3, ())], s_pendingDismiss = [], s_account = [(2, 3)], s_parked = [],
     s_returning = [], s_aggro = [], s_deferredLogouts = [], co_managers = [(1, False)], freeAltBots = [(3, 2)],
     db_companion_owner = [(2, \<lparr>or_owner = 1, or_account = 3, or_created = 1000, or_parked = 0\<rparr>)],
     db_characters = [(1, 9), (2, 3)], db_account = [(3, ''COMPANION0'')],
     co_log = [PoolAccountMade 3 ''COMPANION0'', BotMade 2 20 ''Warrior'' ''tank'' [] True,
       CompanionLine 1 ''Bo will be along shortly.'']\<rparr>"
  by (simp_all add: hired_def hire_runs)

lemma inn_fields:
  "hr_guid inn_guest = 1" "ce_enabled inn_env" "ce_thread inn_env = MapThread" "clock_ok inn_env" "ce_logsOut inn_env k"
  "ce_now inn_env = 1000" "park_window inn_env = 1800" "ce_playerInWorld inn_env g" "ce_newBot inn_env = Some (2, ''Bo'')"
  by (simp_all add: inn_guest_def inn_env_def clock_ok_def park_window_def)

lemma at_inn_new: "new_guid inn_env at_inn" "may_hire at_inn (hr_guid inn_guest)"
  by code_simp+

lemma at_inn_run: "companion_run fresh_companions at_inn"
proof -
  let ?st = "fresh_companions\<lparr>db_characters := sm_put 1 9 (db_characters fresh_companions)\<rparr>"
  have "world_step fresh_companions ?st" by (rule world_step.made) code_simp
  then have one: "companion_run fresh_companions ?st" by (intro r_into_rtranclp) simp
  have "module_step ?st at_inn" unfolding at_inn_def by (rule module_step.login)
  then show ?thesis by (intro rtranclp.rtrancl_into_rtrancl [OF one]) simp
qed

lemma hired_run: "companion_run fresh_companions hired"
proof -
  have "module_step at_inn hired" unfolding hired_def by (rule module_step.hire [OF at_inn_new])
  then show ?thesis by (intro rtranclp.rtrancl_into_rtrancl [OF at_inn_run]) simp
qed

lemma hired_fields:
  "IsCompanion hired 2" "GetOwner hired 2 = 1" "\<not> IsParked hired 2" "sm_has (co_managers hired) 1"
  "sm_find (db_characters hired) 2 = Some 3" "CompanionsOf hired 1 = [2]" "sm_has (db_characters hired) 1"
  "\<not> sm_has (s_pendingDismiss hired) 2"
  by (simp_all add: hired_made(2) IsCompanion_def GetOwner_def OwnerOfLocked_def IsParked_def sm_has_def CompanionsOf_def)

theorem registry_matches_table_witness:
  "companion_run fresh_companions hired \<and> IsCompanion hired 2 \<and> GetOwner hired 2 = 1 \<and> IsCompanionAccount hired 3
     \<and> sm_find (s_parked hired) 2 = None"
  using hired_run registry_matches_table [OF hired_run, of 2] by (simp add: hired_made(2))

theorem companions_capped_witness:
  "companion_run fresh_companions hired \<and> CountFor hired 1 \<le> MAX_PER_PLAYER \<and> length (CompanionsOf hired 1) = 1"
  using hired_run companions_capped [OF hired_run, of 1] hired_fields(6) by simp

lemma hired_comes_back: "comes_back inn_env hired 2"
  using hired_fields by (simp add: comes_back_def waiting_since_def IsParked_def sm_has_def inn_fields)

theorem restart_is_a_logout_witness:
  "companion_run fresh_companions hired \<and> comes_back inn_env hired 2
     \<and> GetOwner (PurgeAtStartup inn_env (forgotten hired)) 2 = 1
     \<and> sm_find (s_parked (PurgeAtStartup inn_env (forgotten hired))) 2 = Some 1000"
  using hired_run hired_comes_back restart_is_a_logout [OF hired_run, of inn_env 2] hired_fields
  by (simp add: Let_def waiting_since_def IsParked_def sm_has_def inn_fields)

definition inn_drain :: companion_env where
  "inn_drain = inn_env\<lparr>ce_thread := WorldThread, ce_name := (\<lambda>g. Some ''Bo'')\<rparr>"



theorem dismissal_leaves_none_witness:
  "CompanionsOf (DrainDeferredBotWork inn_env (fst (DismissAll inn_env inn_guest hired))) 1 = [] \<and> CompanionsOf hired 1 = [2]"
  using dismissal_leaves_none [OF hired_run, of inn_guest inn_env inn_env] hired_fields inn_fields
  by (simp add: Let_def)

theorem logout_costs_nobody_witness:
  "sm_find (s_parked (fold (run_hook inn_env) [MemberRemoved 1, PartyDisbanded [1, 2]] (OnBeforeLogout inn_env 1 hired))) 2 = Some 1000
     \<and> \<not> sm_has (s_pendingDismiss (fold (run_hook inn_env) [MemberRemoved 1, PartyDisbanded [1, 2]] (OnBeforeLogout inn_env 1 hired))) 2"
  using logout_costs_nobody [OF hired_run inn_fields(4,2) hired_fields(2), of "[MemberRemoved 1, PartyDisbanded [1, 2]]"]
    hired_fields inn_fields
  by (simp add: Let_def)

definition asleep :: companions where
  "asleep = OnBeforeLogout inn_env 1 hired"

lemma asleep_run: "companion_run fresh_companions asleep"
proof -
  have "module_step hired asleep" unfolding asleep_def by (rule module_step.logout [OF inn_fields(4)])
  then show ?thesis by (intro rtranclp.rtrancl_into_rtrancl [OF hired_run]) simp
qed

theorem owner_gets_them_back_witness:
  "IsParked asleep 2 \<and> \<not> IsParked (UpdateCompanions inn_env 1 (OnLogin False 1 asleep)) 2
     \<and> GetOwner (UpdateCompanions inn_env 1 (OnLogin False 1 asleep)) 2 = 1"
proof -
  have "GetOwner asleep 2 = 1" "sm_find (s_parked asleep) 2 = Some 1000" "\<not> sm_has (s_pendingDismiss asleep) 2"
    "\<not> sm_has (co_managers asleep) 1" "IsParked asleep 2"
    by (simp_all add: asleep_def OnBeforeLogout_def inn_fields ParkAll_def Let_def hired_made(2) GetOwner_def OwnerOfLocked_def
        IsParked_def sm_has_def)
  then show ?thesis
    using owner_gets_them_back [OF asleep_run, of 2 1 1000 inn_env] inn_fields by (simp add: Let_def)
qed



end
