(* ===== verification/Finder.thy ===== *)
theory Finder
  imports HouseNames "HOL-Library.List_Lexorder" "HOL-Library.Char_ord"
begin

section \<open>The dungeon finder: queue, role checks, offers\<close>

text \<open>
  LFTMgr.h, LFTQeueue.cpp and what of LFTMgr.cpp both use. The members of \<open>LFTManager\<close> are the fields of a
  record of that name, which also holds the groups the finder forms and the role each bot has been told
  to play; what it asks of the rest of the server is a record \<open>lft_world\<close>, what it sends and does a list of
  effects. A player is named by the low part of his guid, 0 is the empty guid.
\<close>

unbundle bit_operations_syntax

type_synonym u8 = "8 word"

definition LFT_ROLE_TANK :: u8 where "LFT_ROLE_TANK = 1"

definition LFT_ROLE_HEALER :: u8 where "LFT_ROLE_HEALER = 2"

definition LFT_ROLE_DAMAGE :: u8 where "LFT_ROLE_DAMAGE = 4"

definition LFT_ROLECHECK_TIMEOUT :: u32 where "LFT_ROLECHECK_TIMEOUT = 90000"

definition LFT_OFFER_TIMEOUT :: u32 where "LFT_OFFER_TIMEOUT = 90000"

subsection \<open>Types\<close>

record ListingSignup =
  ls_name :: string
  ls_className :: string
  ls_level :: u32
  ls_confirmed :: bool

text \<open>The three arrays of a listing, indexed by role, are lists of length three.\<close>

record Listing =
  li_id :: u32
  li_creatorGuid :: u32
  li_creator :: string
  li_className :: string
  li_level :: u32
  li_team :: u32
  li_isHardcore :: bool
  li_title :: string
  li_description :: string
  li_category :: u8
  li_limit :: "u8 list"
  li_numConfirmed :: "u8 list"
  li_signups :: "ListingSignup list list"

record QueuedPlayer =
  qp_guid :: u32
  qp_queueLeaderGuid :: u32
  qp_name :: string
  qp_className :: string
  qp_level :: u32
  qp_team :: u32
  qp_isHardcore :: bool
  qp_joinTime :: int
  qp_queueOrder :: "64 word"
  qp_instances :: "string list"
  qp_roleMask :: u8
  qp_assignedRole :: u8

record PendingRolecheck =
  rc_leaderGuid :: u32
  rc_members :: "u32 list"
  rc_instances :: "string list"
  rc_responses :: "(u32, u8) smap"
  rc_timer :: u32

record Offer =
  of_id :: u32
  of_instance :: string
  of_roles :: "(u32, u8) smap"
  of_accepted :: "(u32, unit) smap"
  of_timer :: u32

record lft_group =
  lg_leader :: u32
  lg_members :: "u32 list"
  lg_raid :: bool

datatype lft_effect =
    Message u32 string
  | ForcedRole u32 u8
  | CombatStopped u32
  | ToEntrance u32 string

record listing_row =
  lr_listing :: Listing
  lr_signups :: "string list"

record LFTManager =
  m_lftGroupIds :: "(u32, unit) smap"
  m_listings :: "(u32, Listing) smap"
  m_queue :: "(u32, QueuedPlayer) smap"
  m_rolechecks :: "(u32, PendingRolecheck) smap"
  m_offers :: "(u32, Offer) smap"
  m_playerOffers :: "(u32, u32) smap"
  m_nextListingId :: u32
  m_nextOfferId :: u32
  m_nextQueueOrder :: "64 word"
  m_listingsLoaded :: bool
  m_fillBots :: "(u32, unit) smap"
  m_botFillTimer :: u32
  lf_groups :: "(u32, lft_group) smap"
  lf_forced :: "(u32, u8) smap"
  db_lft_user_groups :: "(u32, listing_row) smap"
  lf_log :: "lft_effect list"

record lft_player =
  lp_name :: string
  lp_class :: u32
  lp_level :: u32
  lp_team :: u32
  lp_hardcore :: bool
  lp_inWorld :: bool
  lp_alive :: bool
  lp_ai :: bool
  lp_account :: "string option"
  lp_battleground :: bool
  lp_dungeon :: "u32 option"
  lp_combat :: bool
  lp_teleporting :: bool

record SeedDungeon =
  sd_name :: string
  sd_minLevel :: u32
  sd_maxLevel :: u32

text \<open>
  \<open>lw_fits\<close> is what the module of the bots answers to the question for the roles a bot can play, given
  the role it was last told; \<open>lw_groupId\<close> the id a new group gets, if it can be made, and \<open>lw_joins\<close> whether a
  player can be added to one; \<open>lw_heir\<close> the leader a group chooses when its own is taken out.
\<close>

record lft_world =
  lw_player :: "u32 \<Rightarrow> lft_player option"
  lw_online :: "u32 list"
  lw_twoSides :: bool
  lw_hardcore :: "u32 \<Rightarrow> u32 \<Rightarrow> bool"
  lw_gameTime :: int
  lw_now :: int
  lw_fits :: "u32 \<Rightarrow> u8 \<Rightarrow> u8"
  lw_groupId :: "u32 option"
  lw_joins :: "u32 \<Rightarrow> bool"
  lw_heir :: "u32 list \<Rightarrow> u32"
  lw_fill :: bool
  lw_delay :: u32
  lw_below :: u32
  lw_above :: u32
  lw_belowHealer :: u32
  lw_seedRuns :: u32
  lw_seedDungeons :: "SeedDungeon list"
  lw_seedTeleport :: bool
  lw_teles :: "string list"
  lw_named :: "string \<Rightarrow> u32 option"
  lw_normal :: "string \<Rightarrow> string option"

definition done_to :: "lft_effect \<Rightarrow> LFTManager \<Rightarrow> LFTManager" where
  "done_to e st = st\<lparr>lf_log := lf_log st @ [e]\<rparr>"

definition GetPlayer :: "lft_world \<Rightarrow> u32 \<Rightarrow> lft_player option" where
  "GetPlayer w guid = (case lw_player w guid of None \<Rightarrow> None | Some p \<Rightarrow> if lp_inWorld p then Some p else None)"

definition Send :: "lft_world \<Rightarrow> u32 \<Rightarrow> string \<Rightarrow> LFTManager \<Rightarrow> LFTManager" where
  "Send w guid message st = (if lw_player w guid = None then st else done_to (Message guid message) st)"

definition GetGroup :: "LFTManager \<Rightarrow> u32 \<Rightarrow> (u32 \<times> lft_group) option" where
  "GetGroup st guid = find (\<lambda>g. guid \<in> set (lg_members (snd g))) (lf_groups st)"

definition IsFull :: "lft_group \<Rightarrow> bool" where
  "IsFull g \<longleftrightarrow> length (lg_members g) \<ge> (if lg_raid g then 40 else 5)"

fun split_fields :: "string \<Rightarrow> string \<Rightarrow> char \<Rightarrow> string list" where
  "split_fields current [] delimiter = [current]"
| "split_fields current (c # cs) delimiter =
     (if c = delimiter then current # split_fields [] cs delimiter else split_fields (current @ [c]) cs delimiter)"

definition SplitPreserveEmpty :: "string \<Rightarrow> char \<Rightarrow> string list" where
  "SplitPreserveEmpty v delimiter = split_fields [] v delimiter"

definition HasInstance :: "string list \<Rightarrow> string \<Rightarrow> bool" where
  "HasInstance instances inst \<longleftrightarrow> inst \<in> set instances"

definition JoinStrings :: "string list \<Rightarrow> char \<Rightarrow> string" where
  "JoinStrings vs delimiter = fold (\<lambda>v joined. (if joined = [] then [] else joined @ [delimiter]) @ v) vs []"

definition GetSharedInstances :: "string list \<Rightarrow> string list" where
  "GetSharedInstances requested = fold (\<lambda>inst out. if inst \<noteq> [] \<and> inst \<notin> set out then out @ [inst] else out) requested []"

definition ParseRoleMask :: "string \<Rightarrow> u8" where
  "ParseRoleMask roles = fold (\<lambda>role mask.
     if role = CHR ''t'' \<or> role = CHR ''T'' then mask OR LFT_ROLE_TANK
     else if role = CHR ''h'' \<or> role = CHR ''H'' then mask OR LFT_ROLE_HEALER
     else if role = CHR ''d'' \<or> role = CHR ''D'' then mask OR LFT_ROLE_DAMAGE else mask) roles 0"

text \<open>The classes by number: warrior 1, paladin 2, hunter 3, rogue 4, priest 5, shaman 7, mage 8, warlock 9, druid 11.\<close>

definition AllowedRoleMask :: "u32 \<Rightarrow> u8" where
  "AllowedRoleMask cls =
     (if cls = 11 \<or> cls = 2 then LFT_ROLE_TANK OR LFT_ROLE_HEALER OR LFT_ROLE_DAMAGE
      else if cls \<in> {3, 8, 4, 9} then LFT_ROLE_DAMAGE
      else if cls = 5 \<or> cls = 7 then LFT_ROLE_HEALER OR LFT_ROLE_DAMAGE
      else if cls = 1 then LFT_ROLE_TANK OR LFT_ROLE_DAMAGE else 0)"

definition ClassName :: "u32 \<Rightarrow> string" where
  "ClassName cls =
     (if cls = 1 then ''WARRIOR'' else if cls = 2 then ''PALADIN'' else if cls = 3 then ''HUNTER''
      else if cls = 4 then ''ROGUE'' else if cls = 5 then ''PRIEST'' else if cls = 7 then ''SHAMAN''
      else if cls = 8 then ''MAGE'' else if cls = 9 then ''WARLOCK'' else if cls = 11 then ''DRUID'' else ''UNKNOWN'')"

definition PickRole :: "u8 \<Rightarrow> nat \<Rightarrow> nat \<Rightarrow> nat \<Rightarrow> u8" where
  "PickRole roleMask tankCount healerCount damageCount =
     (if roleMask AND LFT_ROLE_TANK \<noteq> 0 \<and> tankCount < 1 then LFT_ROLE_TANK
      else if roleMask AND LFT_ROLE_HEALER \<noteq> 0 \<and> healerCount < 1 then LFT_ROLE_HEALER
      else if roleMask AND LFT_ROLE_DAMAGE \<noteq> 0 \<and> damageCount < 3 then LFT_ROLE_DAMAGE
      else 0)"

definition Script_IsAIControlled :: "lft_player \<Rightarrow> bool" where
  "Script_IsAIControlled p = lp_ai p"

definition Script_GetAllowedRoles :: "lft_world \<Rightarrow> u32 \<Rightarrow> LFTManager \<Rightarrow> u8" where
  "Script_GetAllowedRoles w guid st = lw_fits w guid (case sm_find (lf_forced st) guid of None \<Rightarrow> 0 | Some role \<Rightarrow> role)"

definition Script_SetForcedRole :: "u32 \<Rightarrow> u8 \<Rightarrow> LFTManager \<Rightarrow> LFTManager" where
  "Script_SetForcedRole guid role st = done_to (ForcedRole guid role) (st\<lparr>lf_forced := sm_put guid role (lf_forced st)\<rparr>)"

definition CanPlayersGroup :: "lft_world \<Rightarrow> u32 \<Rightarrow> lft_player \<Rightarrow> u32 \<Rightarrow> lft_player \<Rightarrow> bool" where
  "CanPlayersGroup w leaderGuid leader memberGuid member \<longleftrightarrow>
     (lw_twoSides w \<or> lp_team leader = lp_team member) \<and> lw_hardcore w leaderGuid memberGuid"

definition CanQueuedPlayersGroup :: "lft_world \<Rightarrow> QueuedPlayer \<Rightarrow> QueuedPlayer \<Rightarrow> bool" where
  "CanQueuedPlayersGroup w seed candidate =
     (case (GetPlayer w (qp_guid seed), GetPlayer w (qp_guid candidate)) of
        (Some seedPlayer, Some candidatePlayer) \<Rightarrow> CanPlayersGroup w (qp_guid seed) seedPlayer (qp_guid candidate) candidatePlayer
      | _ \<Rightarrow> (lw_twoSides w \<or> qp_team seed = qp_team candidate) \<and> qp_isHardcore seed = qp_isHardcore candidate)"

definition GetPartyMembers :: "lft_world \<Rightarrow> u32 \<Rightarrow> LFTManager \<Rightarrow> u32 list" where
  "GetPartyMembers w leader st =
     (case GetGroup st leader of None \<Rightarrow> [leader]
      | Some g \<Rightarrow> filter (\<lambda>guid. GetPlayer w guid \<noteq> None) (lg_members (snd g)))"

text \<open>The order is by number and then by guid; the map is in the order of the guids, and the sort is stable.\<close>

definition GetQueueOrder :: "LFTManager \<Rightarrow> u32 list" where
  "GetQueueOrder st = map fst (sort_key (\<lambda>entry. qp_queueOrder (snd entry)) (m_queue st))"

definition block_leader :: "u32 \<Rightarrow> QueuedPlayer \<Rightarrow> u32" where
  "block_leader guid queued = (if qp_queueLeaderGuid queued = 0 then guid else qp_queueLeaderGuid queued)"

subsection \<open>Messages\<close>

definition SendQueuedStatus :: "lft_world \<Rightarrow> u32 \<Rightarrow> QueuedPlayer \<Rightarrow> LFTManager \<Rightarrow> LFTManager" where
  "SendQueuedStatus w guid queued st =
     (let one = (\<lambda>role. if qp_assignedRole queued = role then ''1'' else ''0'')
      in Send w guid (''S2C_UPDATE_QUEUE_STATUS;queued;'' @ JoinStrings (qp_instances queued) CHR '':'' @ '';''
           @ to_string (of_int (qp_joinTime queued)) @ '';0;'' @ one LFT_ROLE_TANK @ '':'' @ one LFT_ROLE_HEALER @ '':'' @ one LFT_ROLE_DAMAGE) st)"

definition SendQueueJoined :: "lft_world \<Rightarrow> u32 \<Rightarrow> QueuedPlayer \<Rightarrow> LFTManager \<Rightarrow> LFTManager" where
  "SendQueueJoined w guid queued st = SendQueuedStatus w guid queued (Send w guid ''S2C_QUEUE_JOINED'' st)"

definition SendQueueLeft :: "lft_world \<Rightarrow> u32 \<Rightarrow> string \<Rightarrow> LFTManager \<Rightarrow> LFTManager" where
  "SendQueueLeft w guid name st = (if GetPlayer w guid = None then st else Send w guid (''S2C_QUEUE_LEFT;'' @ name) st)"

definition name_of :: "lft_world \<Rightarrow> u32 \<Rightarrow> string" where
  "name_of w guid = (case GetPlayer w guid of None \<Rightarrow> [] | Some p \<Rightarrow> lp_name p)"

definition SendQueueStatus :: "lft_world \<Rightarrow> u32 \<Rightarrow> LFTManager \<Rightarrow> LFTManager" where
  "SendQueueStatus w guid st =
     (if sm_has (m_playerOffers st) guid then Send w guid ''S2C_UPDATE_QUEUE_STATUS;pending_offer'' st
      else if list_ex (\<lambda>entry. guid \<in> set (rc_members (snd entry))) (m_rolechecks st)
      then Send w guid ''S2C_UPDATE_QUEUE_STATUS;pending_rolecheck'' st
      else case sm_find (m_queue st) guid of None \<Rightarrow> st | Some queued \<Rightarrow> SendQueuedStatus w guid queued st)"

subsection \<open>Making offers\<close>

text \<open>\<open>block_role\<close> adds one player of a party to the roles taken so far; \<open>None\<close> is a party that does not fit.\<close>

type_synonym seats = "(u32, u8) smap \<times> nat \<times> nat \<times> nat"

definition seat_one :: "u32 \<Rightarrow> u8 \<Rightarrow> seats \<Rightarrow> seats" where
  "seat_one guid role s = (case s of (roles, tanks, healers, damage) \<Rightarrow>
     (sm_put guid role roles,
      (if role = LFT_ROLE_TANK then tanks + 1 else tanks),
      (if role = LFT_ROLE_HEALER then healers + 1 else healers),
      (if role = LFT_ROLE_DAMAGE then damage + 1 else damage)))"

definition block_role ::
  "lft_world \<Rightarrow> string \<Rightarrow> QueuedPlayer \<Rightarrow> (u32, u8) smap \<Rightarrow> LFTManager \<Rightarrow> u32 \<Rightarrow> seats option \<Rightarrow> seats option" where
  "block_role w inst seed selected st guid acc =
     (case (acc, sm_find (m_queue st) guid) of
        (Some (roles, tanks, healers, damage), Some queued) \<Rightarrow>
          if sm_has selected guid \<or> sm_has (m_playerOffers st) guid \<or> \<not> HasInstance (qp_instances queued) inst
            \<or> \<not> CanQueuedPlayersGroup w seed queued
          then None
          else
            let role = PickRole (qp_roleMask queued) tanks healers damage
            in if role = 0 then None else Some (seat_one guid role (roles, tanks, healers, damage))
      | _ \<Rightarrow> None)"

definition block_of :: "LFTManager \<Rightarrow> u32 \<Rightarrow> u32 list" where
  "block_of st leader = filter (\<lambda>guid. case sm_find (m_queue st) guid of None \<Rightarrow> False | Some q \<Rightarrow> block_leader guid q = leader)
     (GetQueueOrder st)"

definition try_candidate :: "lft_world \<Rightarrow> string \<Rightarrow> QueuedPlayer \<Rightarrow> LFTManager \<Rightarrow> u32 \<Rightarrow> seats \<Rightarrow> seats" where
  "try_candidate w inst seed st candidate s =
     (case s of (selected, tanks, healers, damage) \<Rightarrow>
        if length selected \<ge> 5 then s
        else case sm_find (m_queue st) candidate of None \<Rightarrow> s
          | Some queued \<Rightarrow>
              if sm_has selected candidate \<or> sm_has (m_playerOffers st) candidate
                \<or> \<not> HasInstance (qp_instances queued) inst \<or> \<not> CanQueuedPlayersGroup w seed queued
              then s
              else
                case fold (block_role w inst seed selected st) (block_of st (block_leader candidate queued))
                       (Some ([], tanks, healers, damage)) of
                  None \<Rightarrow> s
                | Some (roles, tanks', healers', damage') \<Rightarrow>
                    if roles = [] \<or> length selected + length roles > 5 then s
                    else (fold (\<lambda>entry. sm_put (fst entry) (snd entry)) roles selected, tanks', healers', damage'))"

definition try_seed :: "lft_world \<Rightarrow> string \<Rightarrow> LFTManager \<Rightarrow> u32 \<Rightarrow> (u32, u8) smap option" where
  "try_seed w inst st seedGuid =
     (case sm_find (m_queue st) seedGuid of None \<Rightarrow> None
      | Some seed \<Rightarrow>
          if sm_has (m_playerOffers st) seedGuid \<or> \<not> HasInstance (qp_instances seed) inst then None
          else case fold (try_candidate w inst seed st) (GetQueueOrder st) ([], 0, 0, 0) of
            (selected, tanks, healers, damage) \<Rightarrow>
              if tanks = 1 \<and> healers = 1 \<and> damage = 3 \<and> length selected = 5 then Some selected else None)"

definition role_letter :: "u8 \<Rightarrow> string" where
  "role_letter role = (if role = LFT_ROLE_TANK then ''t'' else if role = LFT_ROLE_HEALER then ''h'' else ''d'')"

definition offer_to :: "lft_world \<Rightarrow> string \<Rightarrow> u32 \<Rightarrow> u32 \<times> u8 \<Rightarrow> LFTManager \<Rightarrow> LFTManager" where
  "offer_to w inst offerId entry st =
     (case entry of (guid, role) \<Rightarrow>
        let st1 = st\<lparr>m_queue := (case sm_find (m_queue st) guid of None \<Rightarrow> m_queue st
                                | Some q \<Rightarrow> sm_put guid (q\<lparr>qp_assignedRole := role\<rparr>) (m_queue st)),
                     m_playerOffers := sm_put guid offerId (m_playerOffers st)\<rparr>
        in if GetPlayer w guid = None then st1
           else Send w guid ''S2C_OFFER_UPDATE_COUNT;0:0:0''
                  (Send w guid (''S2C_OFFER_NEW;'' @ inst @ '';'' @ role_letter role)
                    (Send w guid ''S2C_UPDATE_QUEUE_STATUS;pending_offer'' st1)))"

definition TryBuildOfferForInstance :: "lft_world \<Rightarrow> string \<Rightarrow> LFTManager \<Rightarrow> LFTManager \<times> bool" where
  "TryBuildOfferForInstance w inst st =
     (case find (\<lambda>seed. try_seed w inst st seed \<noteq> None) (GetQueueOrder st) of
        None \<Rightarrow> (st, False)
      | Some seed \<Rightarrow>
          let selectedRoles = the (try_seed w inst st seed);
              offer = \<lparr>of_id = m_nextOfferId st, of_instance = inst, of_roles = selectedRoles, of_accepted = [],
                       of_timer = LFT_OFFER_TIMEOUT\<rparr>;
              st1 = st\<lparr>m_nextOfferId := m_nextOfferId st + 1, m_offers := sm_put (of_id offer) offer (m_offers st)\<rparr>
          in (fold (offer_to w inst (of_id offer)) selectedRoles st1, True))"

definition wanted_instances :: "LFTManager \<Rightarrow> string list" where
  "wanted_instances st = sm_keys (fold (\<lambda>entry insts.
     if sm_has (m_playerOffers st) (fst entry) then insts
     else fold (\<lambda>inst. sm_put inst ()) (qp_instances (snd entry)) insts) (m_queue st) [])"

definition TryMakeOffers :: "lft_world \<Rightarrow> LFTManager \<Rightarrow> LFTManager" where
  "TryMakeOffers w st = fold (\<lambda>inst st. fst (TryBuildOfferForInstance w inst st)) (wanted_instances st) st"

end
