(* ===== verification/FinderQueue.thy ===== *)
theory FinderQueue
  imports Finder
begin

section \<open>The dungeon finder: joining, leaving, accepting\<close>

text \<open>
  The handlers of LFTQeueue.cpp: a role check answers into queue entries, an offer is accepted by all five
  and becomes a party, or is cancelled.
\<close>

subsection \<open>The party\<close>

definition AddPlayerToGroup ::
  "lft_world \<Rightarrow> u32 option \<Rightarrow> u32 \<Rightarrow> u32 \<Rightarrow> LFTManager \<Rightarrow> LFTManager \<times> u32 option \<times> bool" where
  "AddPlayerToGroup w grp leaderGuid memberGuid st =
     (case GetPlayer w memberGuid of None \<Rightarrow> (st, grp, False)
      | Some member \<Rightarrow>
          let (st1, grp1) =
            (case grp of Some gid \<Rightarrow> (st, grp)
             | None \<Rightarrow>
                 if GetPlayer w leaderGuid = None then (st, None)
                 else case GetGroup st leaderGuid of Some g \<Rightarrow> (st, Some (fst g))
                   | None \<Rightarrow>
                       (case lw_groupId w of None \<Rightarrow> (st, None)
                        | Some gid \<Rightarrow> (st\<lparr>lf_groups := sm_put gid \<lparr>lg_leader = leaderGuid, lg_members = [leaderGuid], lg_raid = False\<rparr>
                                              (lf_groups st)\<rparr>, Some gid)))
          in case grp1 of None \<Rightarrow> (st1, None, False)
             | Some gid \<Rightarrow>
                 let st2 = st1\<lparr>m_lftGroupIds := sm_put gid () (m_lftGroupIds st1)\<rparr>
                 in case sm_find (lf_groups st2) gid of None \<Rightarrow> (st2, grp1, False)
                    | Some g \<Rightarrow>
                        if memberGuid \<in> set (lg_members g) then (st2, grp1, True)
                        else if GetGroup st2 memberGuid \<noteq> None then (st2, grp1, False)
                        else if (case GetPlayer w leaderGuid of None \<Rightarrow> False
                                 | Some leader \<Rightarrow> \<not> CanPlayersGroup w leaderGuid leader memberGuid member) then (st2, grp1, False)
                        else if IsFull g \<or> \<not> lw_joins w memberGuid then (st2, grp1, False)
                        else (st2\<lparr>lf_groups := sm_put gid (g\<lparr>lg_members := lg_members g @ [memberGuid]\<rparr>) (lf_groups st2)\<rparr>, grp1, True))"

subsection \<open>The way to the door\<close>

definition SquashInstanceName :: "string \<Rightarrow> string" where
  "SquashInstanceName name =
     (let out = LowerAscii (filter (\<lambda>c. IsAlphaAscii c \<or> IsDigitAscii c) name)
      in if take 3 out = ''the'' \<and> length out > 3 then drop 3 out else out)"

definition FindInstanceEntrance :: "lft_world \<Rightarrow> string \<Rightarrow> string option" where
  "FindInstanceEntrance w inst =
     fst (fold (\<lambda>name best.
            let candidate = SquashInstanceName name
            in if length candidate < 5 \<or> length candidate \<le> snd best then best
               else if take (length candidate) (SquashInstanceName inst) = candidate then (Some name, length candidate) else best)
          (lw_teles w) (None, 0))"

definition TeleportBotGroupToInstance :: "lft_world \<Rightarrow> Offer \<Rightarrow> LFTManager \<Rightarrow> LFTManager" where
  "TeleportBotGroupToInstance w offer st =
     (if \<not> lw_seedTeleport w
        \<or> list_ex (\<lambda>entry. case GetPlayer w (fst entry) of None \<Rightarrow> True | Some p \<Rightarrow> \<not> Script_IsAIControlled p) (of_roles offer)
      then st
      else case FindInstanceEntrance w (of_instance offer) of None \<Rightarrow> st
        | Some entrance \<Rightarrow>
            fold (\<lambda>entry st. case GetPlayer w (fst entry) of None \<Rightarrow> st
                    | Some p \<Rightarrow> if lp_teleporting p then st
                        else done_to (ToEntrance (fst entry) entrance)
                               (if lp_combat p then done_to (CombatStopped (fst entry)) st else st))
              (of_roles offer) st)"

subsection \<open>The end of an offer\<close>

definition cancel_one ::
  "lft_world \<Rightarrow> Offer \<Rightarrow> bool \<Rightarrow> u32 \<Rightarrow> bool \<Rightarrow> u32 \<Rightarrow> LFTManager \<Rightarrow> LFTManager" where
  "cancel_one w offer requeueAccepted removeGuid requeueOthers guid st =
     (let st1 = st\<lparr>m_playerOffers := sm_erase guid (m_playerOffers st)\<rparr>;
          keepQueued = requeueAccepted \<and> guid \<noteq> removeGuid \<and> (requeueOthers \<or> sm_has (of_accepted offer) guid);
          dropped = SendQueueLeft w guid (name_of w guid) (st1\<lparr>m_queue := sm_erase guid (m_queue st1)\<rparr>)
      in case sm_find (m_queue st1) guid of None \<Rightarrow> dropped
         | Some queued \<Rightarrow>
             if \<not> keepQueued then dropped
             else
               let queued' = queued\<lparr>qp_assignedRole := PickRole (qp_roleMask queued) 0 0 0\<rparr>;
                   st2 = st1\<lparr>m_queue := sm_put guid queued' (m_queue st1)\<rparr>
               in if GetPlayer w guid = None then st2 else SendQueueJoined w guid queued' st2)"

definition CancelOffer :: "lft_world \<Rightarrow> u32 \<Rightarrow> bool \<Rightarrow> u32 \<Rightarrow> bool \<Rightarrow> LFTManager \<Rightarrow> LFTManager" where
  "CancelOffer w offerId requeueAccepted removeGuid requeueOthers st =
     (case sm_find (m_offers st) offerId of None \<Rightarrow> st
      | Some offer \<Rightarrow>
          let st1 = fold (cancel_one w offer requeueAccepted removeGuid requeueOthers) (sm_keys (of_roles offer)) st
          in st1\<lparr>m_offers := sm_erase offerId (m_offers st1)\<rparr>)"

definition offer_leader :: "Offer \<Rightarrow> LFTManager \<Rightarrow> u32" where
  "offer_leader offer st =
     (case List.map_filter (\<lambda>entry. case sm_find (m_queue st) (fst entry) of None \<Rightarrow> None
               | Some q \<Rightarrow> if qp_queueLeaderGuid q = 0 then None else Some (qp_queueLeaderGuid q)) (of_roles offer) of
        leader # _ \<Rightarrow> leader
      | [] \<Rightarrow> (case find (\<lambda>entry. snd entry = LFT_ROLE_TANK) (of_roles offer) of Some entry \<Rightarrow> fst entry
               | None \<Rightarrow> (case of_roles offer of entry # _ \<Rightarrow> fst entry | [] \<Rightarrow> 0)))"

fun add_all :: "lft_world \<Rightarrow> u32 \<Rightarrow> u32 list \<Rightarrow> u32 option \<Rightarrow> LFTManager \<Rightarrow> LFTManager \<times> bool" where
  "add_all w leader [] grp st = (st, True)"
| "add_all w leader (guid # guids) grp st =
     (case AddPlayerToGroup w grp leader guid st of (st1, grp1, ok) \<Rightarrow>
        if ok then add_all w leader guids grp1 st1 else (st1, False))"

definition completed :: "lft_world \<Rightarrow> u32 \<Rightarrow> LFTManager \<Rightarrow> LFTManager" where
  "completed w guid st =
     (let st1 = st\<lparr>m_queue := sm_erase guid (m_queue st), m_playerOffers := sm_erase guid (m_playerOffers st)\<rparr>
      in if GetPlayer w guid = None then st1 else Send w guid ''S2C_OFFER_COMPLETE'' st1)"

definition CompleteOffer :: "lft_world \<Rightarrow> u32 \<Rightarrow> LFTManager \<Rightarrow> LFTManager \<times> bool" where
  "CompleteOffer w offerId st =
     (case sm_find (m_offers st) offerId of None \<Rightarrow> (st, False)
      | Some offer \<Rightarrow>
          (case add_all w (offer_leader offer st) (sm_keys (of_roles offer)) None st of
             (st1, False) \<Rightarrow> (CancelOffer w offerId False 0 False st1, False)
           | (st1, True) \<Rightarrow>
               let st2 = TeleportBotGroupToInstance w offer (fold (completed w) (sm_keys (of_roles offer)) st1)
               in (st2\<lparr>m_offers := sm_erase offerId (m_offers st2)\<rparr>, True)))"

definition count_role :: "u8 \<Rightarrow> Offer \<Rightarrow> nat" where
  "count_role role offer = length (filter (\<lambda>guid. sm_find (of_roles offer) guid = Some role) (sm_keys (of_accepted offer)))"

definition HandleOfferAccept :: "lft_world \<Rightarrow> u32 \<Rightarrow> LFTManager \<Rightarrow> LFTManager" where
  "HandleOfferAccept w me st =
     (case sm_find (m_playerOffers st) me of None \<Rightarrow> st
      | Some offerId \<Rightarrow>
          (case sm_find (m_offers st) offerId of None \<Rightarrow> st
           | Some offer0 \<Rightarrow>
               let offer = offer0\<lparr>of_accepted := sm_put me () (of_accepted offer0)\<rparr>;
                   st1 = st\<lparr>m_offers := sm_put offerId offer (m_offers st)\<rparr>;
                   line = ''S2C_OFFER_UPDATE_COUNT;'' @ dec_nat (count_role LFT_ROLE_TANK offer) @ '':''
                     @ dec_nat (count_role LFT_ROLE_HEALER offer) @ '':'' @ dec_nat (count_role LFT_ROLE_DAMAGE offer);
                   st2 = fold (\<lambda>guid st. if GetPlayer w guid = None then st else Send w guid line st) (sm_keys (of_roles offer)) st1
               in if length (of_accepted offer) = length (of_roles offer) then fst (CompleteOffer w offerId st2) else st2))"

subsection \<open>The role check\<close>

definition EnqueuePlayer :: "lft_world \<Rightarrow> u32 \<Rightarrow> u32 \<Rightarrow> string list \<Rightarrow> u8 \<Rightarrow> LFTManager \<Rightarrow> LFTManager" where
  "EnqueuePlayer w guid leaderGuid instances roleMask st =
     (case lw_player w guid of None \<Rightarrow> st
      | Some p \<Rightarrow>
          let queued = \<lparr>qp_guid = guid, qp_queueLeaderGuid = leaderGuid, qp_name = lp_name p, qp_className = ClassName (lp_class p),
                        qp_level = lp_level p, qp_team = lp_team p, qp_isHardcore = lp_hardcore p, qp_joinTime = lw_gameTime w,
                        qp_queueOrder = m_nextQueueOrder st, qp_instances = instances, qp_roleMask = roleMask,
                        qp_assignedRole = PickRole roleMask 0 0 0\<rparr>
          in SendQueueJoined w guid queued
               (st\<lparr>m_nextQueueOrder := m_nextQueueOrder st + 1, m_queue := sm_put guid queued (m_queue st)\<rparr>))"

definition EnqueueRolecheck :: "lft_world \<Rightarrow> PendingRolecheck \<Rightarrow> LFTManager \<Rightarrow> LFTManager" where
  "EnqueueRolecheck w rolecheck st =
     TryMakeOffers w (fold (\<lambda>guid st.
         if GetPlayer w guid = None then st
         else case sm_find (rc_responses rolecheck) guid of None \<Rightarrow> st
           | Some roleMask \<Rightarrow> EnqueuePlayer w guid (rc_leaderGuid rolecheck) (rc_instances rolecheck) roleMask st)
       (rc_members rolecheck) st)"

definition bot_answer :: "lft_world \<Rightarrow> LFTManager \<Rightarrow> u32 \<Rightarrow> (u32, u8) smap \<Rightarrow> (u32, u8) smap" where
  "bot_answer w st guid responses =
     (case GetPlayer w guid of None \<Rightarrow> responses
      | Some member \<Rightarrow>
          if \<not> Script_IsAIControlled member then responses
          else
            let roleMask = AllowedRoleMask (lp_class member) AND Script_GetAllowedRoles w guid st
            in sm_put guid (if roleMask \<noteq> 0 then roleMask else AllowedRoleMask (lp_class member)) responses)"

definition StartRolecheck :: "lft_world \<Rightarrow> u32 \<Rightarrow> string list \<Rightarrow> LFTManager \<Rightarrow> LFTManager" where
  "StartRolecheck w leader instances st =
     (let members = GetPartyMembers w leader st;
          rolecheck = \<lparr>rc_leaderGuid = leader, rc_members = members, rc_instances = instances,
                       rc_responses = fold (bot_answer w st) members [], rc_timer = LFT_ROLECHECK_TIMEOUT\<rparr>
      in if length (rc_responses rolecheck) = length members then EnqueueRolecheck w rolecheck st
         else
           fold (\<lambda>guid st.
               if sm_has (rc_responses rolecheck) guid \<or> GetPlayer w guid = None then st
               else Send w guid ''S2C_UPDATE_QUEUE_STATUS;pending_rolecheck''
                      (Send w guid (''S2C_ROLECHECK_START;'' @ JoinStrings instances CHR '':'') st))
             members (st\<lparr>m_rolechecks := sm_put leader rolecheck (m_rolechecks st)\<rparr>))"

definition CancelRolecheck :: "lft_world \<Rightarrow> u32 \<Rightarrow> LFTManager \<Rightarrow> LFTManager" where
  "CancelRolecheck w key st =
     (case sm_find (m_rolechecks st) key of None \<Rightarrow> st
      | Some rolecheck \<Rightarrow>
          let st1 = fold (\<lambda>guid. SendQueueLeft w guid (name_of w guid)) (rc_members rolecheck) st
          in st1\<lparr>m_rolechecks := sm_erase key (m_rolechecks st1)\<rparr>)"

definition rolecheck_with :: "u32 \<Rightarrow> LFTManager \<Rightarrow> (u32 \<times> PendingRolecheck) option" where
  "rolecheck_with guid st = find (\<lambda>entry. guid \<in> set (rc_members (snd entry))) (m_rolechecks st)"

definition HandleRolecheckResponse :: "lft_world \<Rightarrow> u32 \<Rightarrow> string list \<Rightarrow> LFTManager \<Rightarrow> LFTManager" where
  "HandleRolecheckResponse w me parts st =
     (if length parts < 2 then st
      else case lw_player w me of None \<Rightarrow> st
        | Some player \<Rightarrow>
            let roleMask = ParseRoleMask (parts ! 1) AND AllowedRoleMask (lp_class player)
            in if roleMask = 0 then st
               else case rolecheck_with me st of None \<Rightarrow> st
                 | Some (key, rolecheck0) \<Rightarrow>
                     let rolecheck = rolecheck0\<lparr>rc_responses := sm_put me roleMask (rc_responses rolecheck0)\<rparr>;
                         st1 = st\<lparr>m_rolechecks := sm_put key rolecheck (m_rolechecks st)\<rparr>;
                         line = ''S2C_ROLECHECK_INFO;'' @ lp_name player @ '';'' @ parts ! 1;
                         st2 = fold (\<lambda>guid st. if GetPlayer w guid = None then st else Send w guid line st) (rc_members rolecheck) st1
                     in if length (rc_responses rolecheck) = length (rc_members rolecheck)
                        then EnqueueRolecheck w rolecheck (st2\<lparr>m_rolechecks := sm_erase key (m_rolechecks st2)\<rparr>)
                        else st2)"

subsection \<open>Joining and leaving\<close>

definition CleanupPlayer :: "lft_world \<Rightarrow> u32 \<Rightarrow> LFTManager \<Rightarrow> LFTManager" where
  "CleanupPlayer w guid st =
     (let st1 = st\<lparr>m_queue := sm_erase guid (m_queue st)\<rparr>;
          st2 = (case sm_find (m_playerOffers st1) guid of None \<Rightarrow> st1 | Some offerId \<Rightarrow> CancelOffer w offerId True guid True st1)
      in fold (\<lambda>entry st. if guid \<in> set (rc_members (snd entry)) then CancelRolecheck w (fst entry) st else st)
           (m_rolechecks st2) st2)"

definition HandleQueueJoin :: "lft_world \<Rightarrow> u32 \<Rightarrow> string list \<Rightarrow> LFTManager \<Rightarrow> LFTManager" where
  "HandleQueueJoin w me parts st =
     (if length parts < 3 then st
      else case lw_player w me of None \<Rightarrow> st
        | Some player \<Rightarrow>
            if (case GetGroup st me of None \<Rightarrow> False | Some g \<Rightarrow> lg_raid (snd g)) then Send w me ''S2C_QUEUE_ERROR;raid'' st
            else if (case GetGroup st me of None \<Rightarrow> False | Some g \<Rightarrow> lg_leader (snd g) \<noteq> me)
            then Send w me ''S2C_QUEUE_ERROR;not_leader'' st
            else
              let instances = GetSharedInstances (SplitPreserveEmpty (parts ! 1) CHR '':'');
                  roleMask = ParseRoleMask (parts ! 2) AND AllowedRoleMask (lp_class player)
              in if instances = [] \<or> roleMask = 0 then Send w me ''S2C_QUEUE_ERROR;invalid'' st
                 else StartRolecheck w me instances (CleanupPlayer w me st))"

definition StoneInstances :: "(u32 \<times> string \<times> u32) list" where
  "StoneInstances =
     [(133, ''gnomer'', 28), (209, ''sfk'', 20), (491, ''rfk'', 29), (717, ''stocks'', 23), (718, ''wc'', 16), (719, ''bfd'', 22),
      (722, ''rfd'', 35), (796, ''smgy'', 30), (796, ''smlib'', 32), (796, ''smarmory'', 34), (796, ''smcath'', 35), (978, ''zf'', 42),
      (1477, ''st'', 49), (1517, ''ulda'', 41), (1581, ''dm'', 16), (1583, ''lbrs'', 55), (1584, ''brd'', 54), (1584, ''brdarena'', 50),
      (1584, ''brdemp'', 54), (1941, ''cotbm'', 60), (2017, ''stratud'', 58), (2017, ''stratlive'', 58), (2057, ''scholo'', 58),
      (2100, ''maraorange'', 43), (2100, ''marapurple'', 45), (2100, ''maraprincess'', 46), (2437, ''rfc'', 13), (2557, ''dme'', 55),
      (2557, ''dmn'', 57), (2557, ''dmw'', 57), (2557, ''dmt'', 57), (5077, ''tcg'', 33), (5086, ''kc'', 60), (5087, ''swv'', 60),
      (5103, ''hfq'', 51), (5208, ''gilneas'', 43), (5601, ''dmr'', 26), (5628, ''swc'', 32), (5628, ''swd'', 35),
      (5641, ''windhorn'', 25), (5735, ''fmh'', 13)]"

definition JoinFromMeetingStone :: "lft_world \<Rightarrow> u32 \<Rightarrow> u32 \<Rightarrow> LFTManager \<Rightarrow> LFTManager" where
  "JoinFromMeetingStone w me areaId st =
     (case lw_player w me of None \<Rightarrow> st
      | Some player \<Rightarrow>
          let level = fold (\<lambda>guid level. case GetPlayer w guid of None \<Rightarrow> level | Some p \<Rightarrow> min level (lp_level p))
                        (GetPartyMembers w me st) (lp_level player);
              stones = filter (\<lambda>stone. fst stone = areaId) StoneInstances;
              instances = map (fst \<circ> snd) (filter (\<lambda>stone. snd (snd stone) \<le> level) stones)
          in if stones = [] then Send w me ''S2C_QUEUE_ERROR;invalid'' st
             else if instances = [] then Send w me ''S2C_QUEUE_ERROR;requirements_level'' st
             else StartRolecheck w me instances (CleanupPlayer w me st))"

definition leave_queue :: "lft_world \<Rightarrow> u32 \<Rightarrow> LFTManager \<Rightarrow> LFTManager" where
  "leave_queue w guid st =
     (let name = (case sm_find (m_queue st) guid of None \<Rightarrow> [] | Some q \<Rightarrow> qp_name q)
      in SendQueueLeft w guid name (st\<lparr>m_queue := sm_erase guid (m_queue st)\<rparr>))"

definition HandleQueueLeave :: "lft_world \<Rightarrow> u32 \<Rightarrow> LFTManager \<Rightarrow> LFTManager" where
  "HandleQueueLeave w me st =
     (case rolecheck_with me st of Some entry \<Rightarrow> CancelRolecheck w (fst entry) st
      | None \<Rightarrow>
          (case sm_find (m_playerOffers st) me of Some offerId \<Rightarrow> TryMakeOffers w (CancelOffer w offerId True me True st)
           | None \<Rightarrow>
               (case sm_find (m_queue st) me of None \<Rightarrow> st
                | Some queued \<Rightarrow>
                    fold (leave_queue w)
                      (sm_keys (filter (\<lambda>entry. block_leader (fst entry) (snd entry) = block_leader me queued) (m_queue st))) st)))"

end
