(* ===== verification/FinderFill.thy ===== *)
theory FinderFill
  imports FinderQueue
begin

section \<open>The dungeon finder: bots that fill a party\<close>

text \<open>
  LFTBotFill.cpp: bots are put into the queue beside a player who has waited long enough, taken out again
  when nobody waits, and accept for themselves. The order in which the server lists its players is the
  list \<open>lw_online\<close>; the parsed setting \<open>LFT.BotFill.SeedDungeons\<close> is an argument.
\<close>

definition IsRandomBotAccount :: "lft_player \<Rightarrow> bool" where
  "IsRandomBotAccount p =
     (case lp_account p of None \<Rightarrow> False | Some name \<Rightarrow> take 6 (LowerAscii name) = ''rndbot'')"

definition IsFillBot :: "LFTManager \<Rightarrow> u32 \<Rightarrow> bool" where
  "IsFillBot st guid = sm_has (m_fillBots st) guid"

text \<open>Since when the one who waits longest has waited, if anybody does who is no fill bot.\<close>

definition RealPlayerWaitsFor :: "LFTManager \<Rightarrow> string \<Rightarrow> int option" where
  "RealPlayerWaitsFor st inst =
     fold (\<lambda>entry oldest.
         if IsFillBot st (fst entry) \<or> \<not> HasInstance (qp_instances (snd entry)) inst then oldest
         else (case oldest of None \<Rightarrow> Some (qp_joinTime (snd entry)) | Some t \<Rightarrow> Some (min t (qp_joinTime (snd entry)))))
       (m_queue st) None"

definition drop_fill_bot :: "lft_world \<Rightarrow> u32 \<Rightarrow> LFTManager \<Rightarrow> LFTManager" where
  "drop_fill_bot w guid st =
     (if sm_has (m_playerOffers st) guid then st
      else if (case sm_find (m_queue st) guid of None \<Rightarrow> False
               | Some queued \<Rightarrow> list_ex (\<lambda>inst. RealPlayerWaitsFor st inst \<noteq> None) (qp_instances queued)) then st
      else
        let st1 = (if GetPlayer w guid = None then st else Script_SetForcedRole guid 0 st);
            st2 = (case sm_find (m_queue st1) guid of None \<Rightarrow> st1
                   | Some queued \<Rightarrow> SendQueueLeft w guid (qp_name queued) (st1\<lparr>m_queue := sm_erase guid (m_queue st1)\<rparr>))
        in st2\<lparr>m_fillBots := sm_erase guid (m_fillBots st2)\<rparr>)"

definition DropUnneededFillBots :: "lft_world \<Rightarrow> LFTManager \<Rightarrow> LFTManager" where
  "DropUnneededFillBots w st = fold (drop_fill_bot w) (sm_keys (m_fillBots st)) st"

subsection \<open>The seed\<close>

definition loose_bot :: "lft_world \<Rightarrow> LFTManager \<Rightarrow> u32 \<Rightarrow> lft_player \<Rightarrow> bool" where
  "loose_bot w st guid p \<longleftrightarrow> lp_inWorld p \<and> lp_alive p \<and> Script_IsAIControlled p \<and> IsRandomBotAccount p
     \<and> GetGroup st guid = None \<and> \<not> lp_battleground p"

definition seed_dungeon :: "lft_world \<Rightarrow> LFTManager \<Rightarrow> u32 \<Rightarrow> SeedDungeon option" where
  "seed_dungeon w st guid =
     (case lw_player w guid of None \<Rightarrow> None
      | Some p \<Rightarrow>
          if loose_bot w st guid p \<and> lp_dungeon p = None \<and> AllowedRoleMask (lp_class p) \<noteq> 0
          then find (\<lambda>d. \<not> (lp_level p < sd_minLevel d \<or> lp_level p > sd_maxLevel d)) (lw_seedDungeons w)
          else None)"

definition occupied_dungeons :: "lft_world \<Rightarrow> u32 list" where
  "occupied_dungeons w = remdups (List.map_filter
     (\<lambda>guid. case GetPlayer w guid of None \<Rightarrow> None | Some p \<Rightarrow> lp_dungeon p) (lw_online w))"

definition SeedBotOnlyQueue :: "lft_world \<Rightarrow> LFTManager \<Rightarrow> LFTManager" where
  "SeedBotOnlyQueue w st =
     (if lw_seedRuns w = 0 \<or> m_queue st \<noteq> [] \<or> lw_seedDungeons w = []
        \<or> length (occupied_dungeons w) \<ge> unat (lw_seedRuns w) then st
      else case find (\<lambda>guid. seed_dungeon w st guid \<noteq> None) (lw_online w) of None \<Rightarrow> st
        | Some guid \<Rightarrow>
            (case (lw_player w guid, seed_dungeon w st guid) of
               (Some p, Some d) \<Rightarrow> EnqueuePlayer w guid guid [sd_name d] (AllowedRoleMask (lp_class p)) st
             | _ \<Rightarrow> st))"

subsection \<open>Finding a bot for a role\<close>

definition level_fits :: "u32 \<Rightarrow> u32 \<Rightarrow> u32 \<Rightarrow> u32 \<Rightarrow> bool" where
  "level_fits botLevel waiterLevel lower upper \<longleftrightarrow> \<not> (botLevel + lower < waiterLevel \<or> waiterLevel + upper < botLevel)"

definition may_fill :: "QueuedPlayer \<Rightarrow> u8 \<Rightarrow> u32 \<Rightarrow> u32 \<Rightarrow> LFTManager \<Rightarrow> u32 \<Rightarrow> lft_player \<Rightarrow> bool" where
  "may_fill waiter wanted lower upper st guid p \<longleftrightarrow> \<not> sm_has (m_queue st) guid \<and> lp_team p = qp_team waiter
     \<and> level_fits (lp_level p) (qp_level waiter) lower upper \<and> AllowedRoleMask (lp_class p) AND wanted \<noteq> 0"

definition free_bot_for :: "lft_world \<Rightarrow> u8 \<Rightarrow> QueuedPlayer \<Rightarrow> u32 \<Rightarrow> u32 \<Rightarrow> LFTManager \<Rightarrow> u32 \<Rightarrow> bool" where
  "free_bot_for w wanted waiter lower upper st guid =
     (case lw_player w guid of None \<Rightarrow> False
      | Some p \<Rightarrow> loose_bot w st guid p \<and> may_fill waiter wanted lower upper st guid p
          \<and> Script_GetAllowedRoles w guid st AND wanted \<noteq> 0)"

definition RemoveFromGroup :: "lft_world \<Rightarrow> u32 \<Rightarrow> LFTManager \<Rightarrow> LFTManager" where
  "RemoveFromGroup w guid st =
     (case GetGroup st guid of None \<Rightarrow> st
      | Some (gid, g) \<Rightarrow>
          if length (lg_members g) > 2
          then
            let members = filter (\<lambda>m. m \<noteq> guid) (lg_members g)
            in st\<lparr>lf_groups := sm_put gid (g\<lparr>lg_members := members,
                   lg_leader := (if lg_leader g = guid then lw_heir w members else lg_leader g)\<rparr>) (lf_groups st)\<rparr>
          else st\<lparr>lf_groups := sm_erase gid (lf_groups st)\<rparr>)"

definition bot_only_member :: "lft_world \<Rightarrow> LFTManager \<Rightarrow> u32 \<Rightarrow> bool" where
  "bot_only_member w st guid \<longleftrightarrow> \<not> sm_has (m_playerOffers st) guid
     \<and> (case GetPlayer w guid of None \<Rightarrow> False | Some p \<Rightarrow> Script_IsAIControlled p \<and> IsRandomBotAccount p)"

definition spare_bot_for :: "lft_world \<Rightarrow> u8 \<Rightarrow> QueuedPlayer \<Rightarrow> u32 \<Rightarrow> u32 \<Rightarrow> LFTManager \<Rightarrow> u32 \<Rightarrow> bool" where
  "spare_bot_for w wanted waiter lower upper st guid =
     (case (lw_player w guid, GetGroup st guid) of
        (Some p, Some (gid, g)) \<Rightarrow>
          lp_inWorld p \<and> lp_alive p \<and> Script_IsAIControlled p \<and> IsRandomBotAccount p \<and> \<not> lp_battleground p
          \<and> sm_has (m_lftGroupIds st) gid \<and> may_fill waiter wanted lower upper st guid p
          \<and> Script_GetAllowedRoles w guid st AND wanted \<noteq> 0 \<and> list_all (bot_only_member w st) (lg_members g)
      | _ \<Rightarrow> False)"

definition TakeFromBotOnlyGroup ::
  "lft_world \<Rightarrow> u8 \<Rightarrow> QueuedPlayer \<Rightarrow> u32 \<Rightarrow> u32 \<Rightarrow> LFTManager \<Rightarrow> LFTManager \<times> u32 option" where
  "TakeFromBotOnlyGroup w wanted waiter lower upper st =
     (case find (spare_bot_for w wanted waiter lower upper st) (lw_online w) of None \<Rightarrow> (st, None)
      | Some guid \<Rightarrow> (RemoveFromGroup w guid st, Some guid))"

text \<open>The bots are tried one by one; each that is asked has been told the role, also if it then refuses.\<close>

definition respec_candidate :: "lft_world \<Rightarrow> u8 \<Rightarrow> QueuedPlayer \<Rightarrow> u32 \<Rightarrow> u32 \<Rightarrow> LFTManager \<Rightarrow> u32 \<Rightarrow> bool" where
  "respec_candidate w wanted waiter lower upper st guid =
     (case lw_player w guid of None \<Rightarrow> False
      | Some p \<Rightarrow> loose_bot w st guid p \<and> may_fill waiter wanted lower upper st guid p \<and> lp_level p \<ge> 10
          \<and> Script_GetAllowedRoles w guid st AND wanted = 0)"

fun respec_first ::
  "lft_world \<Rightarrow> u8 \<Rightarrow> QueuedPlayer \<Rightarrow> u32 \<Rightarrow> u32 \<Rightarrow> u32 list \<Rightarrow> LFTManager \<Rightarrow> LFTManager \<times> u32 option" where
  "respec_first w wanted waiter lower upper [] st = (st, None)"
| "respec_first w wanted waiter lower upper (guid # guids) st =
     (if \<not> respec_candidate w wanted waiter lower upper st guid then respec_first w wanted waiter lower upper guids st
      else
        let st1 = Script_SetForcedRole guid wanted st
        in if Script_GetAllowedRoles w guid st1 AND wanted \<noteq> 0 then (st1, Some guid)
           else respec_first w wanted waiter lower upper guids st1)"

definition TakeBotAndRespecFor ::
  "lft_world \<Rightarrow> u8 \<Rightarrow> QueuedPlayer \<Rightarrow> u32 \<Rightarrow> u32 \<Rightarrow> LFTManager \<Rightarrow> LFTManager \<times> u32 option" where
  "TakeBotAndRespecFor w wanted waiter lower upper st = respec_first w wanted waiter lower upper (lw_online w) st"

definition choose_bot :: "lft_world \<Rightarrow> u8 \<Rightarrow> QueuedPlayer \<Rightarrow> LFTManager \<Rightarrow> LFTManager \<times> u32 option" where
  "choose_bot w wanted waiter st =
     (let lower = (if wanted = LFT_ROLE_HEALER then lw_belowHealer w else lw_below w); upper = lw_above w
      in case find (free_bot_for w wanted waiter lower upper st) (lw_online w) of Some guid \<Rightarrow> (st, Some guid)
         | None \<Rightarrow>
             (case TakeFromBotOnlyGroup w wanted waiter lower upper st of (st1, Some guid) \<Rightarrow> (st1, Some guid)
              | (st1, None) \<Rightarrow>
                  if wanted = LFT_ROLE_TANK \<or> wanted = LFT_ROLE_HEALER
                  then TakeBotAndRespecFor w wanted waiter lower upper st1 else (st1, None)))"

subsection \<open>Filling one instance\<close>

definition wanted_role :: "nat \<Rightarrow> nat \<Rightarrow> nat \<Rightarrow> u8" where
  "wanted_role tanks healers damage =
     (if tanks < 1 then LFT_ROLE_TANK else if healers < 1 then LFT_ROLE_HEALER
      else if damage < 3 then LFT_ROLE_DAMAGE else 0)"

definition enqueue_fill :: "lft_world \<Rightarrow> string \<Rightarrow> u32 \<Rightarrow> u8 \<Rightarrow> LFTManager \<Rightarrow> LFTManager" where
  "enqueue_fill w inst guid wanted st =
     (let st1 = EnqueuePlayer w guid 0 [inst] wanted st in st1\<lparr>m_fillBots := sm_put guid () (m_fillBots st1)\<rparr>)"

text \<open>
  One turn of the loop, \<open>None\<close> when it is over. A turn covers the tank, covers the healer or adds an entry
  to at most five, so \<open>fill_turns\<close> turns are enough, eight at most (proved in FinderRuns).
\<close>

type_synonym covered = "nat \<times> nat \<times> nat \<times> nat"

definition fill_turn :: "lft_world \<Rightarrow> string \<Rightarrow> QueuedPlayer \<Rightarrow> covered \<Rightarrow> LFTManager \<Rightarrow> (covered \<times> LFTManager) option" where
  "fill_turn w inst waiter covered st =
     (case covered of (tanks, healers, damage, inQueue) \<Rightarrow>
        let wanted = wanted_role tanks healers damage
        in if inQueue \<ge> 5 \<or> wanted = 0 then None
           else
             case choose_bot w wanted waiter st of
               (st1, None) \<Rightarrow>
                 if wanted = LFT_ROLE_TANK then Some ((1, healers, damage, inQueue), st1)
                 else if wanted = LFT_ROLE_HEALER then Some ((tanks, 1, damage, inQueue), st1)
                 else Some ((tanks, healers, 3, inQueue), st1)
             | (st1, Some guid) \<Rightarrow>
                 Some ((if wanted = LFT_ROLE_TANK then (tanks + 1, healers, damage, inQueue + 1)
                        else if wanted = LFT_ROLE_HEALER then (tanks, healers + 1, damage, inQueue + 1)
                        else (tanks, healers, damage + 1, inQueue + 1)),
                       enqueue_fill w inst guid wanted st1))"

definition fill_turns :: "covered \<Rightarrow> nat" where
  "fill_turns covered = (case covered of (tanks, healers, damage, inQueue) \<Rightarrow>
     (5 - inQueue) + (1 - tanks) + (1 - healers) + (if damage < 3 then 1 else 0))"

fun fill_loop :: "lft_world \<Rightarrow> string \<Rightarrow> QueuedPlayer \<Rightarrow> nat \<Rightarrow> covered \<Rightarrow> LFTManager \<Rightarrow> LFTManager" where
  "fill_loop w inst waiter 0 covered st = st"
| "fill_loop w inst waiter (Suc turns) covered st =
     (case fill_turn w inst waiter covered st of None \<Rightarrow> st
      | Some (covered', st') \<Rightarrow> fill_loop w inst waiter turns covered' st')"

definition cover_one :: "lft_world \<Rightarrow> string \<Rightarrow> QueuedPlayer \<Rightarrow> LFTManager \<Rightarrow> u32 \<Rightarrow> covered \<Rightarrow> covered" where
  "cover_one w inst waiter st guid acc =
     (case (acc, sm_find (m_queue st) guid) of
        ((tanks, healers, damage, inQueue), Some queued) \<Rightarrow>
          if \<not> HasInstance (qp_instances queued) inst \<or> \<not> CanQueuedPlayersGroup w waiter queued then acc
          else if qp_roleMask queued AND LFT_ROLE_TANK \<noteq> 0 \<and> tanks < 1 then (tanks + 1, healers, damage, inQueue + 1)
          else if qp_roleMask queued AND LFT_ROLE_HEALER \<noteq> 0 \<and> healers < 1 then (tanks, healers + 1, damage, inQueue + 1)
          else if qp_roleMask queued AND LFT_ROLE_DAMAGE \<noteq> 0 \<and> damage < 3 then (tanks, healers, damage + 1, inQueue + 1)
          else (tanks, healers, damage, inQueue + 1)
      | _ \<Rightarrow> acc)"

definition FillInstanceWithBots :: "lft_world \<Rightarrow> string \<Rightarrow> QueuedPlayer \<Rightarrow> LFTManager \<Rightarrow> LFTManager" where
  "FillInstanceWithBots w inst waiter st =
     (let covered = fold (cover_one w inst waiter st) (GetQueueOrder st) (0, 0, 0, 0)
      in fill_loop w inst waiter (fill_turns covered) covered st)"

subsection \<open>The update\<close>

fun accept_bots :: "lft_world \<Rightarrow> u32 \<Rightarrow> (u32 \<times> u8) list \<Rightarrow> LFTManager \<Rightarrow> LFTManager" where
  "accept_bots w offerId [] st = st"
| "accept_bots w offerId (entry # roles) st =
     (case sm_find (m_offers st) offerId of None \<Rightarrow> st
      | Some offer \<Rightarrow>
          if sm_has (of_accepted offer) (fst entry)
            \<or> (case GetPlayer w (fst entry) of None \<Rightarrow> True | Some p \<Rightarrow> \<not> Script_IsAIControlled p)
          then accept_bots w offerId roles st
          else accept_bots w offerId roles (HandleOfferAccept w (fst entry) (Script_SetForcedRole (fst entry) (snd entry) st)))"

definition AcceptOffersForFillBots :: "lft_world \<Rightarrow> LFTManager \<Rightarrow> LFTManager" where
  "AcceptOffersForFillBots w st =
     fold (\<lambda>offerId st. case sm_find (m_offers st) offerId of None \<Rightarrow> st | Some offer \<Rightarrow> accept_bots w offerId (of_roles offer) st)
       (sm_keys (m_offers st)) st"

definition pending_fills :: "lft_world \<Rightarrow> LFTManager \<Rightarrow> (string \<times> QueuedPlayer) list" where
  "pending_fills w st = concat (map (\<lambda>entry. map (\<lambda>inst. (inst, snd entry)) (qp_instances (snd entry)))
     (filter (\<lambda>entry. \<not> IsFillBot st (fst entry) \<and> \<not> sm_has (m_playerOffers st) (fst entry)
         \<and> \<not> (of_int (lw_now w - qp_joinTime (snd entry)) :: u32) < lw_delay w) (m_queue st)))"

definition UpdateBotFill :: "lft_world \<Rightarrow> u32 \<Rightarrow> LFTManager \<Rightarrow> LFTManager" where
  "UpdateBotFill w diff st =
     (let st1 = AcceptOffersForFillBots w st
      in if \<not> lw_fill w then (if m_fillBots st1 \<noteq> [] then DropUnneededFillBots w st1 else st1)
         else if m_botFillTimer st1 > diff then st1\<lparr>m_botFillTimer := m_botFillTimer st1 - diff\<rparr>
         else
           let st2 = SeedBotOnlyQueue w (DropUnneededFillBots w (st1\<lparr>m_botFillTimer := 5000\<rparr>))
           in fold (\<lambda>entry. FillInstanceWithBots w (fst entry) (snd entry)) (pending_fills w st2) st2)"

end
