(* ===== verification/FinderBoard.thy ===== *)
theory FinderBoard
  imports FinderFill
begin

section \<open>The dungeon finder: the board, and the doors in\<close>

text \<open>
  LFTUserGroups.cpp, the board of groups players advertise, written through to \<open>lft_user_groups\<close>, and from
  LFTMgr.cpp what comes in: the addon message, the update, the logout. A row of the table is the listing
  without its signups and the three columns they are serialized to. Whom the server lists is \<open>lw_online\<close>.
\<close>

subsection \<open>Text\<close>

definition JsonEscape :: "string \<Rightarrow> string" where
  "JsonEscape v = concat (map (\<lambda>c.
     if c = CHR 0x5C then [CHR 0x5C, CHR 0x5C] else if c = CHR 0x22 then [CHR 0x5C, CHR 0x22]
     else if c = CHR 0x08 then [CHR 0x5C, CHR ''b''] else if c = CHR 0x0C then [CHR 0x5C, CHR ''f'']
     else if c = CHR 0x0A then [CHR 0x5C, CHR ''n''] else if c = CHR 0x0D then [CHR 0x5C, CHR ''r'']
     else if c = CHR 0x09 then [CHR 0x5C, CHR ''t''] else [c]) v)"

definition EscapeListingField :: "string \<Rightarrow> string" where
  "EscapeListingField v = concat (map (\<lambda>c.
     if c = CHR 0x5C \<or> c = CHR ''|'' \<or> c = CHR '';'' then [CHR 0x5C, c] else [c]) v)"

fun split_escaped :: "string \<Rightarrow> bool \<Rightarrow> string \<Rightarrow> char \<Rightarrow> string list" where
  "split_escaped current escaped [] delimiter = [if escaped then current @ [CHR 0x5C] else current]"
| "split_escaped current escaped (c # cs) delimiter =
     (if escaped then split_escaped (current @ [c]) False cs delimiter
      else if c = CHR 0x5C then split_escaped current True cs delimiter
      else if c = delimiter then current # split_escaped [] False cs delimiter
      else split_escaped (current @ [c]) False cs delimiter)"

definition SplitEscaped :: "string \<Rightarrow> char \<Rightarrow> string list" where
  "SplitEscaped v delimiter = split_escaped [] False v delimiter"

definition ParseConfirmedRoleIndex :: "string \<Rightarrow> nat" where
  "ParseConfirmedRoleIndex v =
     (if v \<in> {''1'', ''t'', ''T''} then 1 else if v \<in> {''2'', ''h'', ''H''} then 2
      else if v \<in> {''3'', ''0'', ''d'', ''D''} then 3 else 0)"

text \<open>\<open>strtoul\<close> in base ten: blanks, a sign, digits, and the largest value where they are too many.\<close>

definition strtoul :: "string \<Rightarrow> 64 word" where
  "strtoul v =
     (let t = dropWhile (\<lambda>c. c = CHR '' '' \<or> CHR 0x09 \<le> c \<and> c \<le> CHR 0x0D) v;
          minus = (take 1 t = ''-'');
          ds = takeWhile is_digit (if take 1 t = ''-'' \<or> take 1 t = ''+'' then drop 1 t else t);
          n = digits_value ds
      in if n \<ge> 2 ^ 64 then - 1 else if minus then - of_nat n else of_nat n)"

definition ParseRoleCounts :: "string \<Rightarrow> u8 list" where
  "ParseRoleCounts roles =
     (let parts = SplitPreserveEmpty roles CHR '':''
      in map (\<lambda>i. if i < length parts then ucast (strtoul (parts ! i)) else 0) [0..<3])"

definition signup_row :: "ListingSignup \<Rightarrow> string" where
  "signup_row s = EscapeListingField (ls_name s) @ ''|'' @ EscapeListingField (ls_className s) @ ''|''
     @ to_string (ls_level s) @ ''|'' @ (if ls_confirmed s then ''1'' else ''0'')"

definition SerializeSignups :: "ListingSignup list \<Rightarrow> string" where
  "SerializeSignups signups = fold (\<lambda>s out. (if out = [] then [] else out @ '';'') @ signup_row s) signups []"

definition read_signup :: "string \<Rightarrow> ListingSignup option" where
  "read_signup row =
     (let parts = SplitEscaped row CHR ''|''
      in if row = [] \<or> length parts < 4 then None
         else Some \<lparr>ls_name = parts ! 0, ls_className = parts ! 1, ls_level = ucast (strtoul (parts ! 2)),
                    ls_confirmed = (parts ! 3 = ''1'')\<rparr>)"

definition DeserializeSignups :: "string \<Rightarrow> ListingSignup list" where
  "DeserializeSignups v = (if v = [] then [] else List.map_filter read_signup (SplitEscaped v CHR '';''))"

definition joined_by :: "string \<Rightarrow> string list \<Rightarrow> string" where
  "joined_by sep vs = concat (case vs of [] \<Rightarrow> [] | v # rest \<Rightarrow> v # map (\<lambda>x. sep @ x) rest)"

definition json_field :: "string \<Rightarrow> string \<Rightarrow> string" where
  "json_field name v = [CHR 0x22] @ name @ [CHR 0x22] @ '':'' @ v"

definition json_string :: "string \<Rightarrow> string" where
  "json_string v = [CHR 0x22] @ JsonEscape v @ [CHR 0x22]"

definition counts_text :: "u8 list \<Rightarrow> string" where
  "counts_text ns = ''['' @ joined_by '','' (map (\<lambda>n. dec_nat (unat n)) ns) @ '']''"

definition BuildListingJson :: "Listing \<Rightarrow> string" where
  "BuildListingJson l = ''{'' @ joined_by '',''
     [json_field ''id'' (to_string (li_id l)), json_field ''creator'' (json_string (li_creator l)),
      json_field ''class'' (json_string (li_className l)), json_field ''level'' (to_string (li_level l)),
      json_field ''title'' (json_string (li_title l)), json_field ''description'' (json_string (li_description l)),
      json_field ''category'' (dec_nat (unat (li_category l))), json_field ''limit'' (counts_text (li_limit l)),
      json_field ''numConfirmed'' (counts_text (li_numConfirmed l))] @ ''}''"

definition BuildSignupJson :: "ListingSignup \<Rightarrow> string" where
  "BuildSignupJson s = ''{'' @ joined_by '',''
     [json_field ''name'' (json_string (ls_name s)), json_field ''class'' (json_string (ls_className s)),
      json_field ''level'' (to_string (ls_level s)), json_field ''confirmed'' (if ls_confirmed s then ''true'' else ''false'')] @ ''}''"

subsection \<open>Sending the board\<close>

definition CanPlayerSeeListing :: "lft_world \<Rightarrow> u32 \<Rightarrow> Listing \<Rightarrow> bool" where
  "CanPlayerSeeListing w guid l =
     (case lw_player w guid of None \<Rightarrow> False
      | Some p \<Rightarrow>
          if \<not> lw_twoSides w \<and> lp_team p \<noteq> li_team l then False
          else case GetPlayer w (li_creatorGuid l) of
              Some creator \<Rightarrow> CanPlayersGroup w guid p (li_creatorGuid l) creator
            | None \<Rightarrow> lp_hardcore p = li_isHardcore l)"

definition SendGroupsList :: "lft_world \<Rightarrow> u32 \<Rightarrow> LFTManager \<Rightarrow> LFTManager" where
  "SendGroupsList w guid st =
     Send w guid ''S2C_GROUPS_LIST_UPDATE;end''
       (fold (\<lambda>entry st. if CanPlayerSeeListing w guid (snd entry)
                         then Send w guid (''S2C_GROUPS_LIST_UPDATE;'' @ BuildListingJson (snd entry)) st else st)
         (m_listings st) (Send w guid ''S2C_GROUPS_LIST_UPDATE;start'' st))"

definition SendGroupDetails :: "lft_world \<Rightarrow> u32 \<Rightarrow> Listing \<Rightarrow> LFTManager \<Rightarrow> LFTManager" where
  "SendGroupDetails w guid l st =
     (let head = ''S2C_UPDATE_GROUP;'' @ to_string (li_id l);
          lines = concat (map (\<lambda>(i, signups). map (\<lambda>s. head @ '';'' @ dec_nat (Suc i) @ '';'' @ BuildSignupJson s) signups)
                    (enumerate 0 (li_signups l)))
      in fold (Send w guid) ([head @ '';start;'' @ BuildListingJson l] @ lines @ [head @ '';end'']) st)"

subsection \<open>The table\<close>

definition save_row :: "Listing \<Rightarrow> listing_row" where
  "save_row l = \<lparr>lr_listing = l\<lparr>li_signups := []\<rparr>, lr_signups = map SerializeSignups (li_signups l)\<rparr>"

text \<open>A row that is there already keeps its \<open>creatorGuid\<close>: the update of the statement does not name it.\<close>

definition SaveListingToDB :: "Listing \<Rightarrow> LFTManager \<Rightarrow> LFTManager" where
  "SaveListingToDB l st =
     (let row = save_row l;
          row' = (case sm_find (db_lft_user_groups st) (li_id l) of None \<Rightarrow> row
                  | Some old \<Rightarrow> row\<lparr>lr_listing := (lr_listing row)\<lparr>li_creatorGuid := li_creatorGuid (lr_listing old)\<rparr>\<rparr>)
      in st\<lparr>db_lft_user_groups := sm_put (li_id l) row' (db_lft_user_groups st)\<rparr>)"

definition DeleteListingFromDB :: "u32 \<Rightarrow> LFTManager \<Rightarrow> LFTManager" where
  "DeleteListingFromDB lid st = st\<lparr>db_lft_user_groups := sm_erase lid (db_lft_user_groups st)\<rparr>"

definition RecountListing :: "Listing \<Rightarrow> Listing" where
  "RecountListing l = l\<lparr>li_numConfirmed := map (\<lambda>signups. of_nat (length signups)) (li_signups l)\<rparr>"

definition load_listing :: "lft_world \<Rightarrow> u32 \<times> listing_row \<Rightarrow> LFTManager \<Rightarrow> LFTManager" where
  "load_listing w entry st =
     (case entry of (lid, row) \<Rightarrow>
        if GetPlayer w (li_creatorGuid (lr_listing row)) = None then DeleteListingFromDB lid st
        else
          let l = RecountListing ((lr_listing row)\<lparr>li_id := lid, li_signups := map DeserializeSignups (lr_signups row)\<rparr>)
          in st\<lparr>m_nextListingId := max (m_nextListingId st) (lid + 1), m_listings := sm_put lid l (m_listings st)\<rparr>)"

definition LoadListingsFromDB :: "lft_world \<Rightarrow> LFTManager \<Rightarrow> LFTManager" where
  "LoadListingsFromDB w st =
     fold (load_listing w) (db_lft_user_groups st) (st\<lparr>m_listings := [], m_nextListingId := 1\<rparr>)"

definition EnsureListingsLoaded :: "lft_world \<Rightarrow> LFTManager \<Rightarrow> LFTManager" where
  "EnsureListingsLoaded w st =
     (if m_listingsLoaded st then st else (LoadListingsFromDB w st)\<lparr>m_listingsLoaded := True\<rparr>)"

definition BroadcastGroupsList :: "lft_world \<Rightarrow> LFTManager \<Rightarrow> LFTManager" where
  "BroadcastGroupsList w st = fold (SendGroupsList w) (lw_online w) (EnsureListingsLoaded w st)"

subsection \<open>Signups\<close>

definition RemoveListingSignup :: "lft_world \<Rightarrow> string \<Rightarrow> Listing \<Rightarrow> Listing" where
  "RemoveListingSignup w name l =
     (case lw_normal w name of None \<Rightarrow> l
      | Some normalized \<Rightarrow> l\<lparr>li_signups := map (filter (\<lambda>s. lw_normal w (ls_name s) \<noteq> Some normalized)) (li_signups l)\<rparr>)"

definition add_signup :: "nat \<Rightarrow> ListingSignup \<Rightarrow> Listing \<Rightarrow> Listing" where
  "add_signup roleIdx s l = l\<lparr>li_signups := (li_signups l)[roleIdx - 1 := li_signups l ! (roleIdx - 1) @ [s]]\<rparr>"

definition SetListingSignupRole :: "lft_world \<Rightarrow> u32 \<Rightarrow> nat \<Rightarrow> Listing \<Rightarrow> Listing" where
  "SetListingSignupRole w guid roleIdx l =
     (case lw_player w guid of None \<Rightarrow> l
      | Some p \<Rightarrow>
          if roleIdx < 1 \<or> roleIdx > 3 then l
          else add_signup roleIdx
                 \<lparr>ls_name = lp_name p, ls_className = ClassName (lp_class p), ls_level = lp_level p, ls_confirmed = True\<rparr>
                 (RemoveListingSignup w (lp_name p) l))"

definition signup_stays :: "lft_world \<Rightarrow> LFTManager \<Rightarrow> u32 \<Rightarrow> ListingSignup \<Rightarrow> bool" where
  "signup_stays w st creator s =
     (case lw_normal w (ls_name s) of None \<Rightarrow> False
      | Some name \<Rightarrow>
          (case lw_named w name of None \<Rightarrow> False
           | Some guid \<Rightarrow> guid = creator
               \<or> (case GetGroup st creator of None \<Rightarrow> False | Some g \<Rightarrow> guid \<in> set (lg_members (snd g)))))"

definition PruneListingSignups :: "lft_world \<Rightarrow> LFTManager \<Rightarrow> Listing \<Rightarrow> Listing" where
  "PruneListingSignups w st l =
     (if GetPlayer w (li_creatorGuid l) = None then l
      else l\<lparr>li_signups := map (filter (signup_stays w st (li_creatorGuid l))) (li_signups l)\<rparr>)"

definition GetListingForGroupMember :: "lft_world \<Rightarrow> u32 \<Rightarrow> LFTManager \<Rightarrow> Listing option" where
  "GetListingForGroupMember w guid st =
     map_option snd (find (\<lambda>entry. GetPlayer w (li_creatorGuid (snd entry)) \<noteq> None
         \<and> (li_creatorGuid (snd entry) = guid
            \<or> (case GetGroup st (li_creatorGuid (snd entry)) of None \<Rightarrow> False | Some g \<Rightarrow> guid \<in> set (lg_members (snd g)))))
       (m_listings st))"

subsection \<open>The handlers of the board\<close>

definition HandleGetGroupDetails :: "lft_world \<Rightarrow> u32 \<Rightarrow> string list \<Rightarrow> LFTManager \<Rightarrow> LFTManager" where
  "HandleGetGroupDetails w me parts st =
     (if length parts < 2 then st
      else case sm_find (m_listings st) (ucast (strtoul (parts ! 1))) of
          None \<Rightarrow> Send w me (''S2C_UPDATE_GROUP;'' @ parts ! 1 @ '';invalid'') st
        | Some l \<Rightarrow> if CanPlayerSeeListing w me l then SendGroupDetails w me l st else st)"

definition drop_listings_of :: "u32 \<Rightarrow> LFTManager \<Rightarrow> LFTManager" where
  "drop_listings_of creator st =
     fold (\<lambda>entry st. if li_creatorGuid (snd entry) = creator
             then (DeleteListingFromDB (li_id (snd entry)) st)\<lparr>m_listings := sm_erase (fst entry) (m_listings st)\<rparr> else st)
       (m_listings st) st"

definition HandleNewGroup :: "lft_world \<Rightarrow> u32 \<Rightarrow> string list \<Rightarrow> LFTManager \<Rightarrow> LFTManager" where
  "HandleNewGroup w me parts st =
     (if length parts < 5 then st
      else case lw_player w me of None \<Rightarrow> st
        | Some p \<Rightarrow>
            if (case GetGroup st me of None \<Rightarrow> False | Some g \<Rightarrow> lg_leader (snd g) \<noteq> me)
            then Send w me ''S2C_QUEUE_ERROR;not_leader'' st
            else
              let st1 = drop_listings_of me st;
                  category = ucast (strtoul (parts ! 3)) :: u8;
                  l = \<lparr>li_id = m_nextListingId st1, li_creatorGuid = me, li_creator = lp_name p, li_className = ClassName (lp_class p),
                       li_level = lp_level p, li_team = lp_team p, li_isHardcore = lp_hardcore p, li_title = parts ! 1,
                       li_description = parts ! 2, li_category = (if category < 1 \<or> category > 4 then 4 else category),
                       li_limit = ParseRoleCounts (parts ! 4), li_numConfirmed = [0, 0, 0], li_signups = [[], [], []]\<rparr>;
                  st2 = SaveListingToDB l (st1\<lparr>m_nextListingId := m_nextListingId st1 + 1, m_listings := sm_put (li_id l) l (m_listings st1)\<rparr>)
              in SendGroupDetails w me l (BroadcastGroupsList w st2))"

text \<open>One confirmed player of the update, \<open>name:role\<close>.\<close>

definition confirm_one :: "lft_world \<Rightarrow> string \<Rightarrow> Listing \<Rightarrow> Listing" where
  "confirm_one w confirmed l =
     (let ps = SplitPreserveEmpty confirmed CHR '':'' ; roleIdx = ParseConfirmedRoleIndex (ps ! 1)
      in if confirmed = [] \<or> length ps < 2 \<or> ps ! 0 = [] \<or> roleIdx = 0 then l
         else case lw_normal w (ps ! 0) of None \<Rightarrow> l
           | Some name \<Rightarrow>
               (case lw_named w name of Some guid \<Rightarrow> SetListingSignupRole w guid roleIdx l
                | None \<Rightarrow> add_signup roleIdx \<lparr>ls_name = name, ls_className = ''UNKNOWN'', ls_level = 0, ls_confirmed = True\<rparr>
                            (RemoveListingSignup w name l)))"

definition store_listing :: "lft_world \<Rightarrow> Listing \<Rightarrow> LFTManager \<Rightarrow> LFTManager" where
  "store_listing w l st = BroadcastGroupsList w (SaveListingToDB l (st\<lparr>m_listings := sm_put (li_id l) l (m_listings st)\<rparr>))"

definition HandleUpdateGroup :: "lft_world \<Rightarrow> u32 \<Rightarrow> string list \<Rightarrow> LFTManager \<Rightarrow> LFTManager" where
  "HandleUpdateGroup w me parts st =
     (if length parts < 5 then st
      else case sm_find (m_listings st) (ucast (strtoul (parts ! 1))) of None \<Rightarrow> st
        | Some l0 \<Rightarrow>
            if li_creatorGuid l0 \<noteq> me then st
            else
              let l1 = l0\<lparr>li_title := parts ! 2, li_description := parts ! 3, li_limit := ParseRoleCounts (parts ! 4)\<rparr>;
                  l2 = (if length parts \<ge> 6 then fold (confirm_one w) (drop 5 parts) (PruneListingSignups w st l1)
                        else l1\<lparr>li_signups := map (\<lambda>signups. []) (li_signups l1)\<rparr>);
                  l3 = RecountListing (PruneListingSignups w st l2)
              in SendGroupDetails w me l3 (store_listing w l3 st))"

definition HandleDeleteGroup :: "lft_world \<Rightarrow> u32 \<Rightarrow> string list \<Rightarrow> LFTManager \<Rightarrow> LFTManager" where
  "HandleDeleteGroup w me parts st =
     (if length parts < 2 then st
      else
        let lid = ucast (strtoul (parts ! 1))
        in case sm_find (m_listings st) lid of None \<Rightarrow> st
           | Some l \<Rightarrow>
               if li_creatorGuid l \<noteq> me then st
               else BroadcastGroupsList w ((DeleteListingFromDB (li_id l) st)\<lparr>m_listings := sm_erase lid (m_listings st)\<rparr>))"

definition HandleSignup :: "lft_world \<Rightarrow> u32 \<Rightarrow> string list \<Rightarrow> LFTManager \<Rightarrow> LFTManager" where
  "HandleSignup w me parts st =
     (if length parts < 3 then st
      else case sm_find (m_listings st) (ucast (strtoul (parts ! 2))) of None \<Rightarrow> st
        | Some l \<Rightarrow>
            if \<not> CanPlayerSeeListing w me l then st
            else
              let st1 = SendGroupDetails w me l st
              in if GetPlayer w (li_creatorGuid l) = None then st1 else SendGroupDetails w (li_creatorGuid l) l st1)"

definition HandleManualRolecheckResponse :: "lft_world \<Rightarrow> u32 \<Rightarrow> string list \<Rightarrow> LFTManager \<Rightarrow> LFTManager" where
  "HandleManualRolecheckResponse w me parts st =
     (if length parts < 2 then st
      else case (lw_player w me, GetListingForGroupMember w me st) of
          (Some p, Some l) \<Rightarrow>
            let roleIdx = ParseConfirmedRoleIndex (parts ! 1);
                l1 = (if roleIdx \<noteq> 0 then SetListingSignupRole w me roleIdx l else RemoveListingSignup w (lp_name p) l)
            in store_listing w (RecountListing (PruneListingSignups w st l1)) st
        | _ \<Rightarrow> st)"

subsection \<open>What comes in\<close>

definition CHAT_MSG_GUILD :: u32 where "CHAT_MSG_GUILD = 3"

definition LFT_PREFIX :: string where "LFT_PREFIX = ''TW_LFG''"

definition HandleAddonMessage :: "lft_world \<Rightarrow> u32 \<Rightarrow> u32 \<Rightarrow> string \<Rightarrow> LFTManager \<Rightarrow> LFTManager \<times> bool" where
  "HandleAddonMessage w me msgType rawMessage st =
     (let prefix = LFT_PREFIX @ [CHR 0x09];
          parts = SplitPreserveEmpty (drop (length prefix) rawMessage) CHR '';'';
          st1 = EnsureListingsLoaded w st;
          word = hd parts
      in if lw_player w me = None \<or> take (length prefix) rawMessage \<noteq> prefix then (st, False)
         else if word = [] then (st, True)
         else if word = ''C2C_ROLECHECK_RESPONSE'' then (HandleManualRolecheckResponse w me parts st1, False)
         else if msgType \<noteq> CHAT_MSG_GUILD then (st1, False)
         else
           ((if word = ''C2S_GET_GROUPS_STATUS'' then Send w me ''S2C_GROUPS_STATUS;1'' st1
             else if word = ''C2S_GET_GROUPS_LIST'' then SendGroupsList w me st1
             else if word = ''C2S_GET_GROUP_DETAILS'' then HandleGetGroupDetails w me parts st1
             else if word = ''C2S_NEW_GROUP'' then HandleNewGroup w me parts st1
             else if word = ''C2S_UPDATE_GROUP'' then HandleUpdateGroup w me parts st1
             else if word = ''C2S_DELETE_GROUP'' then HandleDeleteGroup w me parts st1
             else if word = ''C2S_SIGNUP'' then HandleSignup w me parts st1
             else if word = ''C2S_QUEUE_JOIN'' then HandleQueueJoin w me parts st1
             else if word = ''C2S_QUEUE_LEAVE'' then HandleQueueLeave w me st1
             else if word = ''C2S_GET_QUEUE_STATUS'' then SendQueueStatus w me st1
             else if word = ''C2S_ROLECHECK_RESPONSE'' then HandleRolecheckResponse w me parts st1
             else if word = ''C2S_OFFER_ACCEPT'' then HandleOfferAccept w me st1
             else st1), True))"

definition tick_rolecheck :: "lft_world \<Rightarrow> u32 \<Rightarrow> u32 \<Rightarrow> LFTManager \<Rightarrow> LFTManager" where
  "tick_rolecheck w diff key st =
     (case sm_find (m_rolechecks st) key of None \<Rightarrow> st
      | Some rc \<Rightarrow>
          if rc_timer rc \<le> diff then CancelRolecheck w key st
          else st\<lparr>m_rolechecks := sm_put key (rc\<lparr>rc_timer := rc_timer rc - diff\<rparr>) (m_rolechecks st)\<rparr>)"

definition tick_offer :: "lft_world \<Rightarrow> u32 \<Rightarrow> u32 \<Rightarrow> LFTManager \<Rightarrow> LFTManager" where
  "tick_offer w diff offerId st =
     (case sm_find (m_offers st) offerId of None \<Rightarrow> st
      | Some offer \<Rightarrow>
          if of_timer offer \<le> diff then CancelOffer w offerId True 0 False st
          else st\<lparr>m_offers := sm_put offerId (offer\<lparr>of_timer := of_timer offer - diff\<rparr>) (m_offers st)\<rparr>)"

definition Update_lft :: "lft_world \<Rightarrow> u32 \<Rightarrow> LFTManager \<Rightarrow> LFTManager" where
  "Update_lft w diff st =
     (let st1 = UpdateBotFill w diff st;
          st2 = st1\<lparr>m_queue := filter (\<lambda>entry. GetPlayer w (fst entry) \<noteq> None) (m_queue st1)\<rparr>;
          st3 = fold (tick_rolecheck w diff) (sm_keys (m_rolechecks st2)) st2;
          st4 = fold (tick_offer w diff) (sm_keys (m_offers st3)) st3
      in TryMakeOffers w st4)"

definition OnPlayerLogout_lft :: "lft_world \<Rightarrow> u32 \<Rightarrow> LFTManager \<Rightarrow> LFTManager" where
  "OnPlayerLogout_lft w guid st =
     (let st1 = CleanupPlayer w guid (EnsureListingsLoaded w st);
          st2 = drop_listings_of guid st1
      in if list_ex (\<lambda>entry. li_creatorGuid (snd entry) = guid) (m_listings st1) then BroadcastGroupsList w st2 else st2)"

end
