(* ===== verification/FinderRules.thy ===== *)
theory FinderRules
  imports FinderBoard
begin

section \<open>The dungeon finder: what holds of queue and offers\<close>

text \<open>
  What messages leave alone, what a seed of the matcher collects, and the invariant \<open>lft_ok\<close>: roles within the class, offers
  of five in one tank, one healer and three damage dealers, and the map from players to offers as their exact inverse.
\<close>

subsection \<open>What messages leave alone\<close>

lemma done_to_fields [simp]:
  "m_queue (done_to e st) = m_queue st" "m_offers (done_to e st) = m_offers st" "m_playerOffers (done_to e st) = m_playerOffers st"
  "m_rolechecks (done_to e st) = m_rolechecks st" "m_nextOfferId (done_to e st) = m_nextOfferId st"
  "m_fillBots (done_to e st) = m_fillBots st" "lf_groups (done_to e st) = lf_groups st" "lf_forced (done_to e st) = lf_forced st"
  "m_listings (done_to e st) = m_listings st" "db_lft_user_groups (done_to e st) = db_lft_user_groups st"
  "m_nextListingId (done_to e st) = m_nextListingId st" "m_listingsLoaded (done_to e st) = m_listingsLoaded st"
  "m_lftGroupIds (done_to e st) = m_lftGroupIds st" "m_nextQueueOrder (done_to e st) = m_nextQueueOrder st"
  by (simp_all add: done_to_def)

lemma Send_fields [simp]:
  "m_queue (Send w g m st) = m_queue st" "m_offers (Send w g m st) = m_offers st" "m_playerOffers (Send w g m st) = m_playerOffers st"
  "m_rolechecks (Send w g m st) = m_rolechecks st" "m_nextOfferId (Send w g m st) = m_nextOfferId st"
  "m_fillBots (Send w g m st) = m_fillBots st" "lf_groups (Send w g m st) = lf_groups st" "lf_forced (Send w g m st) = lf_forced st"
  "m_listings (Send w g m st) = m_listings st" "db_lft_user_groups (Send w g m st) = db_lft_user_groups st"
  "m_nextListingId (Send w g m st) = m_nextListingId st" "m_listingsLoaded (Send w g m st) = m_listingsLoaded st"
  "m_lftGroupIds (Send w g m st) = m_lftGroupIds st" "m_nextQueueOrder (Send w g m st) = m_nextQueueOrder st"
  by (simp_all add: Send_def)

lemma SendQueueJoined_fields [simp]:
  "m_queue (SendQueueJoined w g q st) = m_queue st" "m_offers (SendQueueJoined w g q st) = m_offers st"
  "m_playerOffers (SendQueueJoined w g q st) = m_playerOffers st" "m_rolechecks (SendQueueJoined w g q st) = m_rolechecks st"
  "m_nextOfferId (SendQueueJoined w g q st) = m_nextOfferId st" "m_fillBots (SendQueueJoined w g q st) = m_fillBots st"
  "lf_groups (SendQueueJoined w g q st) = lf_groups st" "lf_forced (SendQueueJoined w g q st) = lf_forced st"
  "m_listings (SendQueueJoined w g q st) = m_listings st" "db_lft_user_groups (SendQueueJoined w g q st) = db_lft_user_groups st"
  "m_nextListingId (SendQueueJoined w g q st) = m_nextListingId st" "m_listingsLoaded (SendQueueJoined w g q st) = m_listingsLoaded st"
  by (simp_all add: SendQueueJoined_def SendQueuedStatus_def Let_def)

lemma SendQueueLeft_fields [simp]:
  "m_queue (SendQueueLeft w g n st) = m_queue st" "m_offers (SendQueueLeft w g n st) = m_offers st"
  "m_playerOffers (SendQueueLeft w g n st) = m_playerOffers st" "m_rolechecks (SendQueueLeft w g n st) = m_rolechecks st"
  "m_nextOfferId (SendQueueLeft w g n st) = m_nextOfferId st" "m_fillBots (SendQueueLeft w g n st) = m_fillBots st"
  "lf_groups (SendQueueLeft w g n st) = lf_groups st" "lf_forced (SendQueueLeft w g n st) = lf_forced st"
  "m_listings (SendQueueLeft w g n st) = m_listings st" "db_lft_user_groups (SendQueueLeft w g n st) = db_lft_user_groups st"
  "m_nextListingId (SendQueueLeft w g n st) = m_nextListingId st" "m_listingsLoaded (SendQueueLeft w g n st) = m_listingsLoaded st"
  by (simp_all add: SendQueueLeft_def)

lemma SetForcedRole_fields [simp]:
  "m_queue (Script_SetForcedRole g r st) = m_queue st" "m_offers (Script_SetForcedRole g r st) = m_offers st"
  "m_playerOffers (Script_SetForcedRole g r st) = m_playerOffers st" "m_rolechecks (Script_SetForcedRole g r st) = m_rolechecks st"
  "m_nextOfferId (Script_SetForcedRole g r st) = m_nextOfferId st" "m_fillBots (Script_SetForcedRole g r st) = m_fillBots st"
  "lf_groups (Script_SetForcedRole g r st) = lf_groups st"
  "m_listings (Script_SetForcedRole g r st) = m_listings st" "db_lft_user_groups (Script_SetForcedRole g r st) = db_lft_user_groups st"
  "m_nextListingId (Script_SetForcedRole g r st) = m_nextListingId st" "m_listingsLoaded (Script_SetForcedRole g r st) = m_listingsLoaded st"
  by (simp_all add: Script_SetForcedRole_def)

text \<open>A fold keeps what each of its steps keeps.\<close>

lemma fold_keeps: "(\<And>x st. x \<in> set xs \<Longrightarrow> P st \<Longrightarrow> P (f x st)) \<Longrightarrow> P st \<Longrightarrow> P (fold f xs st)"
  by (induction xs arbitrary: st) auto

lemma fold_field: "(\<And>x st. x \<in> set xs \<Longrightarrow> g (f x st) = g st) \<Longrightarrow> g (fold f xs st) = g st"
  by (induction xs arbitrary: st) auto

subsection \<open>Roles\<close>

definition role_ok :: "u8 \<Rightarrow> bool" where
  "role_ok role \<longleftrightarrow> role = LFT_ROLE_TANK \<or> role = LFT_ROLE_HEALER \<or> role = LFT_ROLE_DAMAGE"

lemma roles_distinct [simp]:
  "LFT_ROLE_TANK \<noteq> LFT_ROLE_HEALER" "LFT_ROLE_TANK \<noteq> LFT_ROLE_DAMAGE" "LFT_ROLE_HEALER \<noteq> LFT_ROLE_DAMAGE"
  "LFT_ROLE_HEALER \<noteq> LFT_ROLE_TANK" "LFT_ROLE_DAMAGE \<noteq> LFT_ROLE_TANK" "LFT_ROLE_DAMAGE \<noteq> LFT_ROLE_HEALER"
  "LFT_ROLE_TANK \<noteq> 0" "LFT_ROLE_HEALER \<noteq> 0" "LFT_ROLE_DAMAGE \<noteq> 0"
  by (simp_all add: LFT_ROLE_TANK_def LFT_ROLE_HEALER_def LFT_ROLE_DAMAGE_def)

lemma PickRole_ok: "PickRole rm t h d \<noteq> 0 \<Longrightarrow> role_ok (PickRole rm t h d) \<and> rm AND PickRole rm t h d \<noteq> 0"
  by (simp add: PickRole_def role_ok_def split: if_splits)

lemma mask_within: "(rm :: u8) AND allowed = rm \<Longrightarrow> rm AND role \<noteq> 0 \<Longrightarrow> allowed AND role \<noteq> 0"
  by (metis and.assoc and.commute and_zero_eq)

definition cnt :: "u8 \<Rightarrow> (u32, u8) smap \<Rightarrow> nat" where
  "cnt role m = length (filter (\<lambda>entry. snd entry = role) m)"

lemma cnt_Nil [simp]: "cnt role [] = 0"
  by (simp add: cnt_def)

lemma cnt_put: "\<not> sm_has m k \<Longrightarrow> cnt role (sm_put k v m) = cnt role m + (if v = role then 1 else 0)"
  by (induction m) (auto simp: cnt_def sm_has_def split: if_splits)

lemma cnt_all: "list_all (\<lambda>entry. role_ok (snd entry)) m \<Longrightarrow> length m = cnt LFT_ROLE_TANK m + cnt LFT_ROLE_HEALER m + cnt LFT_ROLE_DAMAGE m"
  by (induction m) (auto simp: cnt_def role_ok_def)

lemma union_seats:
  assumes "distinct (map fst roles)" and "\<And>k. k \<in> set (map fst roles) \<Longrightarrow> \<not> sm_has selected k" and "sm_ok selected"
  shows "sm_ok (fold (\<lambda>entry. sm_put (fst entry) (snd entry)) roles selected)
    \<and> sm_find (fold (\<lambda>entry. sm_put (fst entry) (snd entry)) roles selected) k
        = (case sm_find roles k of None \<Rightarrow> sm_find selected k | Some r \<Rightarrow> Some r)
    \<and> cnt r (fold (\<lambda>entry. sm_put (fst entry) (snd entry)) roles selected) = cnt r selected + cnt r roles"
  using assms
proof (induction roles arbitrary: selected)
  case Nil
  then show ?case by simp
next
  case (Cons e roles)
  let ?sel = "sm_put (fst e) (snd e) selected"
  have IH: "sm_ok (fold (\<lambda>entry. sm_put (fst entry) (snd entry)) roles ?sel)
    \<and> sm_find (fold (\<lambda>entry. sm_put (fst entry) (snd entry)) roles ?sel) k
        = (case sm_find roles k of None \<Rightarrow> sm_find ?sel k | Some r \<Rightarrow> Some r)
    \<and> cnt r (fold (\<lambda>entry. sm_put (fst entry) (snd entry)) roles ?sel) = cnt r ?sel + cnt r roles"
    by (rule Cons.IH) (use Cons.prems in \<open>force+\<close>)
  have "sm_find roles (fst e) = None" using Cons.prems(1) by (simp add: map_of_eq_None_iff)
  moreover have "cnt r (e # roles) = cnt r roles + (if snd e = r then 1 else 0)" by (simp add: cnt_def)
  moreover have "\<not> sm_has selected (fst e)" using Cons.prems(2) by simp
  ultimately show ?case using IH by (cases e) (auto simp: cnt_put split: option.splits)
qed

subsection \<open>What a seed collects\<close>

text \<open>A player with a role as the matcher seats him: waiting, for this instance, in no other offer, with the seed.\<close>

definition seatable :: "lft_world \<Rightarrow> string \<Rightarrow> QueuedPlayer \<Rightarrow> LFTManager \<Rightarrow> u32 \<Rightarrow> u8 \<Rightarrow> bool" where
  "seatable w inst seed st g role \<longleftrightarrow> role_ok role \<and> \<not> sm_has (m_playerOffers st) g
     \<and> (case sm_find (m_queue st) g of None \<Rightarrow> False
        | Some q \<Rightarrow> HasInstance (qp_instances q) inst \<and> CanQueuedPlayersGroup w seed q \<and> qp_roleMask q AND role \<noteq> 0)"

definition seats_ok :: "lft_world \<Rightarrow> string \<Rightarrow> QueuedPlayer \<Rightarrow> LFTManager \<Rightarrow> (u32, u8) smap \<Rightarrow> bool" where
  "seats_ok w inst seed st roles \<longleftrightarrow> sm_ok roles \<and> list_all (\<lambda>entry. seatable w inst seed st (fst entry) (snd entry)) roles"

definition counted_in :: "(u32, u8) smap \<Rightarrow> (u32, u8) smap \<Rightarrow> nat \<Rightarrow> nat \<Rightarrow> nat \<Rightarrow> bool" where
  "counted_in selected roles tanks healers damage \<longleftrightarrow> tanks = cnt LFT_ROLE_TANK selected + cnt LFT_ROLE_TANK roles
     \<and> healers = cnt LFT_ROLE_HEALER selected + cnt LFT_ROLE_HEALER roles
     \<and> damage = cnt LFT_ROLE_DAMAGE selected + cnt LFT_ROLE_DAMAGE roles"

lemma block_fails: "fold (block_role w inst seed selected st) gs None = None"
  by (induction gs) (simp_all add: block_role_def)

lemma list_all_put: "list_all P (sm_put k v m) \<longleftrightarrow> P (k, v) \<and> list_all P (filter (\<lambda>e. fst e \<noteq> k) m)" if "sm_ok m"
  using that
proof (induction m)
  case Nil
  then show ?case by simp
next
  case (Cons e m)
  have "k < fst e \<Longrightarrow> filter (\<lambda>x. fst x \<noteq> k) m = m" and "k = fst e \<Longrightarrow> filter (\<lambda>x. fst x \<noteq> k) m = m"
    using Cons.prems by (auto simp: sm_ok_def filter_id_conv)
  moreover have "sm_ok m" using Cons.prems by (simp add: sm_ok_def)
  ultimately show ?case using Cons.IH by (cases e) auto
qed

lemma list_all_put_intro: "sm_ok m \<Longrightarrow> P (k, v) \<Longrightarrow> list_all P m \<Longrightarrow> list_all P (sm_put k v m)"
  by (simp add: list_all_put) (simp add: list_all_iff)

lemma block_run:
  assumes "fold (block_role w inst seed selected st) gs (Some (roles0, t0, h0, d0)) = Some (roles, t, h, d)"
    and "distinct gs" and "set gs \<inter> set (sm_keys roles0) = {}" and "seats_ok w inst seed st roles0" and "counted_in selected roles0 t0 h0 d0"
    and "\<And>k. k \<in> set (sm_keys roles0) \<Longrightarrow> \<not> sm_has selected k"
  shows "seats_ok w inst seed st roles \<and> counted_in selected roles t h d \<and> set (sm_keys roles) = set (sm_keys roles0) \<union> set gs
    \<and> (\<forall>k \<in> set (sm_keys roles). \<not> sm_has selected k)"
  using assms
proof (induction gs arbitrary: roles0 t0 h0 d0)
  case Nil
  then show ?case by simp
next
  case (Cons g gs)
  have "block_role w inst seed selected st g (Some (roles0, t0, h0, d0)) \<noteq> None"
    using Cons.prems(1) block_fails [of w inst seed selected st gs] by (cases "block_role w inst seed selected st g (Some (roles0, t0, h0, d0))") auto
  then obtain q where q: "sm_find (m_queue st) g = Some q" "\<not> sm_has selected g" "\<not> sm_has (m_playerOffers st) g"
      "HasInstance (qp_instances q) inst" "CanQueuedPlayersGroup w seed q" "PickRole (qp_roleMask q) t0 h0 d0 \<noteq> 0"
    by (auto simp: block_role_def Let_def split: option.splits if_splits)
  let ?r = "PickRole (qp_roleMask q) t0 h0 d0"
  have step: "block_role w inst seed selected st g (Some (roles0, t0, h0, d0)) = Some (sm_put g ?r roles0,
      (if ?r = LFT_ROLE_TANK then t0 + 1 else t0), (if ?r = LFT_ROLE_HEALER then h0 + 1 else h0), (if ?r = LFT_ROLE_DAMAGE then d0 + 1 else d0))"
    using q by (simp add: block_role_def Let_def seat_one_def)
  have new: "\<not> sm_has roles0 g" using Cons.prems(3) by (simp add: sm_has_keys)
  have r: "role_ok ?r" "qp_roleMask q AND ?r \<noteq> 0" using PickRole_ok [OF q(6)] by blast+
  have "seatable w inst seed st g ?r" using q r by (simp add: seatable_def)
  then have "seats_ok w inst seed st (sm_put g ?r roles0)"
    using Cons.prems(4) by (simp add: seats_ok_def list_all_put_intro)
  moreover have "counted_in selected (sm_put g ?r roles0)
      (if ?r = LFT_ROLE_TANK then t0 + 1 else t0) (if ?r = LFT_ROLE_HEALER then h0 + 1 else h0) (if ?r = LFT_ROLE_DAMAGE then d0 + 1 else d0)"
    using Cons.prems(5) new by (simp add: counted_in_def cnt_put)
  moreover have "fold (block_role w inst seed selected st) gs (Some (sm_put g ?r roles0,
      (if ?r = LFT_ROLE_TANK then t0 + 1 else t0), (if ?r = LFT_ROLE_HEALER then h0 + 1 else h0),
      (if ?r = LFT_ROLE_DAMAGE then d0 + 1 else d0))) = Some (roles, t, h, d)"
    using Cons.prems(1) by (simp only: fold_simps step)
  moreover have "set gs \<inter> set (sm_keys (sm_put g ?r roles0)) = {}" using Cons.prems(2,3) by auto
  moreover have "\<And>k. k \<in> set (sm_keys (sm_put g ?r roles0)) \<Longrightarrow> \<not> sm_has selected k" using Cons.prems(6) q(2) by auto
  moreover have "distinct gs" using Cons.prems(2) by simp
  ultimately have "seats_ok w inst seed st roles \<and> counted_in selected roles t h d
      \<and> set (sm_keys roles) = set (sm_keys (sm_put g ?r roles0)) \<union> set gs \<and> (\<forall>k \<in> set (sm_keys roles). \<not> sm_has selected k)"
    by (intro Cons.IH)
  then show ?case by auto
qed

definition collected :: "lft_world \<Rightarrow> string \<Rightarrow> QueuedPlayer \<Rightarrow> LFTManager \<Rightarrow> seats \<Rightarrow> bool" where
  "collected w inst seed st s = (case s of (selected, tanks, healers, damage) \<Rightarrow>
     seats_ok w inst seed st selected \<and> counted_in [] selected tanks healers damage
     \<and> (\<forall>k \<in> set (sm_keys selected). \<forall>q. sm_find (m_queue st) k = Some q
          \<longrightarrow> set (block_of st (block_leader k q)) \<subseteq> set (sm_keys selected)))"

lemma distinct_order: "sm_ok (m_queue st) \<Longrightarrow> distinct (GetQueueOrder st)"
  using sm_ok_distinct [of "m_queue st"] by (simp add: GetQueueOrder_def distinct_map)

lemma block_of_member: "g \<in> set (block_of st l) \<longleftrightarrow> (\<exists>q. sm_find (m_queue st) g = Some q \<and> block_leader g q = l)"
proof -
  have "sm_find (m_queue st) g = Some q \<Longrightarrow> g \<in> set (GetQueueOrder st)" for q
    by (force simp: GetQueueOrder_def dest: map_of_SomeD)
  then show ?thesis by (auto simp: block_of_def split: option.splits)
qed

lemma try_candidate_collected:
  assumes "sm_ok (m_queue st)" and "collected w inst seed st s"
  shows "collected w inst seed st (try_candidate w inst seed st g s)"
proof -
  obtain selected t h d where s: "s = (selected, t, h, d)" by (cases s) auto
  show ?thesis
  proof (cases "try_candidate w inst seed st g s = s")
    case True
    then show ?thesis using assms(2) by simp
  next
    case False
    then obtain q roles t' h' d' where q: "sm_find (m_queue st) g = Some q"
      and block: "fold (block_role w inst seed selected st) (block_of st (block_leader g q)) (Some ([], t, h, d)) = Some (roles, t', h', d')"
      and new: "try_candidate w inst seed st g s = (fold (\<lambda>entry. sm_put (fst entry) (snd entry)) roles selected, t', h', d')"
      unfolding s try_candidate_def by (auto split: option.splits if_splits)
    have sel: "seats_ok w inst seed st selected" "counted_in [] selected t h d"
      "\<And>k q. k \<in> set (sm_keys selected) \<Longrightarrow> sm_find (m_queue st) k = Some q \<Longrightarrow> set (block_of st (block_leader k q)) \<subseteq> set (sm_keys selected)"
      using assms(2) by (auto simp: s collected_def)
    have "seats_ok w inst seed st roles \<and> counted_in selected roles t' h' d'
      \<and> set (sm_keys roles) = {} \<union> set (block_of st (block_leader g q))
      \<and> (\<forall>k \<in> set (sm_keys roles). \<not> sm_has selected k)"
    proof (rule block_run [OF block, unfolded sm_keys_def, simplified list.map set_simps, folded sm_keys_def])
      show "distinct (block_of st (block_leader g q))" by (simp add: block_of_def distinct_order [OF assms(1)])
      show "counted_in selected [] t h d" using sel(2) by (simp add: counted_in_def)
    qed (simp_all add: sm_keys_def seats_ok_def)
    then have run: "seats_ok w inst seed st roles" "counted_in selected roles t' h' d'" "set (sm_keys roles) = set (block_of st (block_leader g q))"
      "\<forall>k \<in> set (sm_keys roles). \<not> sm_has selected k" by blast+
    let ?all = "fold (\<lambda>entry. sm_put (fst entry) (snd entry)) roles selected"
    have u: "sm_ok ?all" "sm_find ?all k = (case sm_find roles k of None \<Rightarrow> sm_find selected k | Some r \<Rightarrow> Some r)"
      "cnt r ?all = cnt r selected + cnt r roles" for k r
      using union_seats [of roles selected k r] run(1,4) sel(1)
      by (auto simp: seats_ok_def sm_ok_distinct sm_keys_def)
    have "list_all (\<lambda>entry. seatable w inst seed st (fst entry) (snd entry)) ?all"
    proof (unfold list_all_iff, rule ballI)
      fix entry
      assume "entry \<in> set ?all"
      then have "sm_find ?all (fst entry) = Some (snd entry)" using sm_find_in [OF u(1)] by simp
      then have "entry \<in> set roles \<or> entry \<in> set selected"
        using u(2) [of "fst entry"] by (cases entry) (auto split: option.splits dest: map_of_SomeD map_of_SomeD [OF sym])
      then show "seatable w inst seed st (fst entry) (snd entry)" using run(1) sel(1) by (auto simp: seats_ok_def list_all_iff)
    qed
    moreover have keys: "set (sm_keys ?all) = set (sm_keys selected) \<union> set (sm_keys roles)"
      using u(2) by (auto simp: sm_has_keys [symmetric] sm_has_def split: option.splits)
    moreover have "set (block_of st (block_leader k q')) \<subseteq> set (sm_keys ?all)"
      if "k \<in> set (sm_keys ?all)" "sm_find (m_queue st) k = Some q'" for k q'
      using that keys sel(3) run(3) block_of_member [of k st "block_leader g q"] by auto
    ultimately show ?thesis
      using u(1,3) run(2) by (auto simp: new collected_def seats_ok_def counted_in_def)
  qed
qed

text \<open>What \<open>TryBuildOfferForInstance\<close> offers, when it does.\<close>

definition full_party :: "(u32, u8) smap \<Rightarrow> bool" where
  "full_party roles \<longleftrightarrow> sm_ok roles \<and> length roles = 5 \<and> cnt LFT_ROLE_TANK roles = 1 \<and> cnt LFT_ROLE_HEALER roles = 1
     \<and> cnt LFT_ROLE_DAMAGE roles = 3 \<and> list_all (\<lambda>entry. role_ok (snd entry)) roles"

lemma try_seed_sound:
  assumes "sm_ok (m_queue st)" and "try_seed w inst st seedGuid = Some roles"
  obtains seed where "sm_find (m_queue st) seedGuid = Some seed" and "full_party roles" and "seats_ok w inst seed st roles"
    and "\<And>k q. sm_has roles k \<Longrightarrow> sm_find (m_queue st) k = Some q \<Longrightarrow> set (block_of st (block_leader k q)) \<subseteq> set (sm_keys roles)"
proof -
  obtain seed t h d where seed: "sm_find (m_queue st) seedGuid = Some seed"
    and run: "fold (try_candidate w inst seed st) (GetQueueOrder st) ([], 0, 0, 0) = (roles, t, h, d)"
    and full: "t = 1" "h = 1" "d = 3" "length roles = 5"
    using assms(2) by (auto simp: try_seed_def split: option.splits if_splits prod.splits)
  have "collected w inst seed st (fold (try_candidate w inst seed st) gs s)" if "collected w inst seed st s" for gs s
    using that try_candidate_collected [OF assms(1)] by (induction gs arbitrary: s) auto
  moreover have "collected w inst seed st ([], 0, 0, 0)" by (simp add: collected_def seats_ok_def counted_in_def sm_keys_def)
  ultimately have "collected w inst seed st (roles, t, h, d)" using run by metis
  with seed full show thesis
    by (intro that [of seed]) (auto simp: collected_def full_party_def seats_ok_def counted_in_def list_all_iff seatable_def sm_has_keys)
qed

subsection \<open>The invariant\<close>

text \<open>\<open>cls\<close> is the class of each character, which never changes.\<close>

definition allowed :: "(u32 \<Rightarrow> u32) \<Rightarrow> u32 \<Rightarrow> u8 \<Rightarrow> bool" where
  "allowed cls g roles \<longleftrightarrow> roles AND AllowedRoleMask (cls g) = roles"

definition queue_ok :: "(u32 \<Rightarrow> u32) \<Rightarrow> (u32, QueuedPlayer) smap \<Rightarrow> bool" where
  "queue_ok cls queue \<longleftrightarrow> sm_ok queue \<and> list_all (\<lambda>entry. allowed cls (fst entry) (qp_roleMask (snd entry))) queue"

definition check_ok :: "(u32 \<Rightarrow> u32) \<Rightarrow> PendingRolecheck \<Rightarrow> bool" where
  "check_ok cls rc \<longleftrightarrow> list_all (\<lambda>entry. allowed cls (fst entry) (snd entry)) (rc_responses rc) \<and> sm_ok (rc_responses rc)
     \<and> rc_timer rc \<le> LFT_ROLECHECK_TIMEOUT"

definition checks_ok :: "(u32 \<Rightarrow> u32) \<Rightarrow> (u32, PendingRolecheck) smap \<Rightarrow> bool" where
  "checks_ok cls rcs \<longleftrightarrow> sm_ok rcs \<and> list_all (\<lambda>entry. check_ok cls (snd entry)) rcs"

definition offer_ok :: "(u32 \<Rightarrow> u32) \<Rightarrow> Offer \<Rightarrow> bool" where
  "offer_ok cls o1 \<longleftrightarrow> 0 < of_timer o1 \<and> of_timer o1 \<le> LFT_OFFER_TIMEOUT \<and> full_party (of_roles o1) \<and> sm_ok (of_accepted o1)
     \<and> list_all (\<lambda>entry. sm_has (of_roles o1) (fst entry)) (of_accepted o1)
     \<and> list_all (\<lambda>entry. AllowedRoleMask (cls (fst entry)) AND snd entry \<noteq> 0) (of_roles o1)"

definition offers_ok :: "(u32 \<Rightarrow> u32) \<Rightarrow> u32 \<Rightarrow> (u32, Offer) smap \<Rightarrow> (u32, u32) smap \<Rightarrow> bool" where
  "offers_ok cls next offers players \<longleftrightarrow> sm_ok offers \<and> sm_ok players
     \<and> list_all (\<lambda>entry. of_id (snd entry) = fst entry \<and> fst entry < next \<and> offer_ok cls (snd entry)) offers
     \<and> (\<forall>g i. sm_find players g = Some i \<longleftrightarrow> (case sm_find offers i of None \<Rightarrow> False | Some o1 \<Rightarrow> sm_has (of_roles o1) g))"

definition lft_ok :: "(u32 \<Rightarrow> u32) \<Rightarrow> LFTManager \<Rightarrow> bool" where
  "lft_ok cls st \<longleftrightarrow> queue_ok cls (m_queue st) \<and> checks_ok cls (m_rolechecks st)
     \<and> offers_ok cls (m_nextOfferId st) (m_offers st) (m_playerOffers st)"

text \<open>The classes the server tells are those.\<close>

definition knows :: "(u32 \<Rightarrow> u32) \<Rightarrow> lft_world \<Rightarrow> bool" where
  "knows cls w \<longleftrightarrow> (\<forall>g. case lw_player w g of None \<Rightarrow> True | Some p \<Rightarrow> lp_class p = cls g)"

lemma knowsD: "knows cls w \<Longrightarrow> lw_player w g = Some p \<Longrightarrow> lp_class p = cls g"
  by (simp add: knows_def split: option.splits)

lemma GetPlayer_some: "GetPlayer w g = Some p \<Longrightarrow> lw_player w g = Some p"
  by (simp add: GetPlayer_def split: option.splits if_splits)

lemma queue_okD: "queue_ok cls q \<Longrightarrow> sm_find q g = Some e \<Longrightarrow> allowed cls g (qp_roleMask e)"
  by (auto simp: queue_ok_def list_all_iff sm_find_in)

lemma queue_ok_put [intro]: "queue_ok cls q \<Longrightarrow> allowed cls g (qp_roleMask e) \<Longrightarrow> queue_ok cls (sm_put g e q)"
  by (simp add: queue_ok_def list_all_put_intro)

lemma queue_ok_erase [intro]: "queue_ok cls q \<Longrightarrow> queue_ok cls (sm_erase g q)"
  by (simp add: queue_ok_def) (simp add: list_all_iff sm_erase_def)

lemma sm_ok_filtered: "sm_ok m \<Longrightarrow> sm_ok (filter P m)"
  by (induction m) (auto simp: sm_ok_def)

lemma queue_ok_filter [intro]: "queue_ok cls q \<Longrightarrow> queue_ok cls (filter P q)"
  by (simp add: queue_ok_def sm_ok_filtered) (simp add: list_all_iff)

lemma checks_okD: "checks_ok cls rcs \<Longrightarrow> sm_find rcs k = Some rc \<Longrightarrow> check_ok cls rc"
  by (auto simp: checks_ok_def list_all_iff sm_find_in)

lemma checks_ok_put [intro]: "checks_ok cls rcs \<Longrightarrow> check_ok cls rc \<Longrightarrow> checks_ok cls (sm_put k rc rcs)"
  by (simp add: checks_ok_def list_all_put_intro)

lemma checks_ok_erase [intro]: "checks_ok cls rcs \<Longrightarrow> checks_ok cls (sm_erase k rcs)"
  by (simp add: checks_ok_def) (simp add: list_all_iff sm_erase_def)

lemma offers_okD:
  assumes "offers_ok cls n offers players" and "sm_find offers i = Some o1"
  shows "of_id o1 = i" and "i < n" and "offer_ok cls o1" and "sm_find players g = Some i \<longleftrightarrow> sm_has (of_roles o1) g"
proof -
  have "(i, o1) \<in> set offers" by (rule map_of_SomeD [OF assms(2)])
  then show "of_id o1 = i" "i < n" "offer_ok cls o1" using assms(1) by (auto simp: offers_ok_def list_all_iff)
  show "sm_find players g = Some i \<longleftrightarrow> sm_has (of_roles o1) g" using assms by (simp add: offers_ok_def)
qed

lemma lft_okD:
  assumes "lft_ok cls st"
  shows "queue_ok cls (m_queue st)" and "checks_ok cls (m_rolechecks st)"
    and "offers_ok cls (m_nextOfferId st) (m_offers st) (m_playerOffers st)"
    and "sm_ok (m_queue st)" and "sm_ok (m_offers st)" and "sm_ok (m_playerOffers st)"
  using assms by (auto simp: lft_ok_def queue_ok_def offers_ok_def)

definition finder_core where
  "finder_core st = (m_queue st, m_rolechecks st, m_offers st, m_playerOffers st, m_nextOfferId st)"

lemma finder_coreI:
  "m_queue st' = m_queue st \<Longrightarrow> m_rolechecks st' = m_rolechecks st \<Longrightarrow> m_offers st' = m_offers st
   \<Longrightarrow> m_playerOffers st' = m_playerOffers st \<Longrightarrow> m_nextOfferId st' = m_nextOfferId st \<Longrightarrow> finder_core st' = finder_core st"
  by (simp add: finder_core_def)

subsection \<open>A new offer\<close>

lemma offer_to_fields:
  "m_offers (offer_to w inst i e st) = m_offers st" "m_rolechecks (offer_to w inst i e st) = m_rolechecks st"
  "m_nextOfferId (offer_to w inst i e st) = m_nextOfferId st"
  "m_playerOffers (offer_to w inst i e st) = sm_put (fst e) i (m_playerOffers st)"
  "queue_ok cls (m_queue st) \<Longrightarrow> queue_ok cls (m_queue (offer_to w inst i e st))"
  using queue_okD [of cls "m_queue st" "fst e"]
  by (cases e; auto simp: offer_to_def Let_def split: option.splits)+

lemma offers_out:
  fixes w inst i es st
  defines "st' \<equiv> fold (offer_to w inst i) es st"
  shows "m_offers st' = m_offers st" and "m_rolechecks st' = m_rolechecks st" and "m_nextOfferId st' = m_nextOfferId st"
    and "sm_find (m_playerOffers st') g = (if g \<in> fst ` set es then Some i else sm_find (m_playerOffers st) g)"
    and "sm_ok (m_playerOffers st) \<Longrightarrow> sm_ok (m_playerOffers st')"
    and "queue_ok cls (m_queue st) \<Longrightarrow> queue_ok cls (m_queue st')"
    and "distinct (map fst es) \<Longrightarrow> \<forall>k \<in> fst ` set es. \<not> sm_has (m_playerOffers st) k
      \<Longrightarrow> length (m_playerOffers st') = length (m_playerOffers st) + length es"
proof -
  have "m_offers (fold (offer_to w inst i) es st) = m_offers st \<and> m_rolechecks (fold (offer_to w inst i) es st) = m_rolechecks st
    \<and> m_nextOfferId (fold (offer_to w inst i) es st) = m_nextOfferId st
    \<and> sm_find (m_playerOffers (fold (offer_to w inst i) es st)) g = (if g \<in> fst ` set es then Some i else sm_find (m_playerOffers st) g)
    \<and> (sm_ok (m_playerOffers st) \<longrightarrow> sm_ok (m_playerOffers (fold (offer_to w inst i) es st)))
    \<and> (queue_ok cls (m_queue st) \<longrightarrow> queue_ok cls (m_queue (fold (offer_to w inst i) es st)))"
    by (induction es arbitrary: st) (auto simp: offer_to_fields)
  then show "m_offers st' = m_offers st" "m_rolechecks st' = m_rolechecks st" "m_nextOfferId st' = m_nextOfferId st"
    "sm_find (m_playerOffers st') g = (if g \<in> fst ` set es then Some i else sm_find (m_playerOffers st) g)"
    "sm_ok (m_playerOffers st) \<Longrightarrow> sm_ok (m_playerOffers st')" "queue_ok cls (m_queue st) \<Longrightarrow> queue_ok cls (m_queue st')"
    by (simp_all add: st'_def)
  show "length (m_playerOffers st') = length (m_playerOffers st) + length es"
    if "distinct (map fst es)" "\<forall>k \<in> fst ` set es. \<not> sm_has (m_playerOffers st) k"
    unfolding st'_def using that
  proof (induction es arbitrary: st)
    case Nil
    then show ?case by simp
  next
    case (Cons e es)
    have "fst e \<notin> fst ` set es" using Cons.prems(1) by simp
    with Cons.prems(2) have "\<forall>k \<in> fst ` set es. \<not> sm_has (m_playerOffers (offer_to w inst i e st)) k"
      by (simp add: offer_to_fields) (metis image_eqI)
    with Cons show ?case by (simp add: offer_to_fields length_sm_put_fresh)
  qed
qed

text \<open>What one attempt at an instance does: nothing, or one offer more, to five who had none.\<close>

lemma build_cases:
  assumes "lft_ok cls st"
  obtains (none) "TryBuildOfferForInstance w inst st = (st, False)"
  | (made) seed roles st' where "TryBuildOfferForInstance w inst st = (st', True)" "try_seed w inst st seed = Some roles"
      "full_party roles" "m_nextOfferId st' = m_nextOfferId st + 1" "m_rolechecks st' = m_rolechecks st"
      "m_offers st' = sm_put (m_nextOfferId st) \<lparr>of_id = m_nextOfferId st, of_instance = inst, of_roles = roles, of_accepted = [],
         of_timer = LFT_OFFER_TIMEOUT\<rparr> (m_offers st)"
      "\<And>g. sm_find (m_playerOffers st') g = (if sm_has roles g then Some (m_nextOfferId st) else sm_find (m_playerOffers st) g)"
      "sm_ok (m_playerOffers st')" "queue_ok cls (m_queue st')" "length (m_playerOffers st') = length (m_playerOffers st) + 5"
      "\<And>g r. sm_find roles g = Some r \<Longrightarrow> \<not> sm_has (m_playerOffers st) g \<and> AllowedRoleMask (cls g) AND r \<noteq> 0"
proof (cases "find (\<lambda>seed. try_seed w inst st seed \<noteq> None) (GetQueueOrder st)")
  case None
  then show ?thesis by (intro none) (simp add: TryBuildOfferForInstance_def)
next
  case (Some seed)
  then obtain roles where roles: "try_seed w inst st seed = Some roles" by (auto simp: find_Some_iff)
  obtain sq where party: "full_party roles" and seats: "seats_ok w inst sq st roles"
    using try_seed_sound [OF lft_okD(4) [OF assms] roles] by metis
  let ?o = "\<lparr>of_id = m_nextOfferId st, of_instance = inst, of_roles = roles, of_accepted = [], of_timer = LFT_OFFER_TIMEOUT\<rparr>"
  let ?st1 = "st\<lparr>m_nextOfferId := m_nextOfferId st + 1, m_offers := sm_put (m_nextOfferId st) ?o (m_offers st)\<rparr>"
  let ?st' = "fold (offer_to w inst (m_nextOfferId st)) roles ?st1"
  have run: "TryBuildOfferForInstance w inst st = (?st', True)"
    using Some roles by (simp add: TryBuildOfferForInstance_def Let_def)
  have ok: "sm_ok roles" "length roles = 5" using party by (auto simp: full_party_def)
  have seat: "seatable w inst sq st g r" if "sm_find roles g = Some r" for g r
    using seats map_of_SomeD [OF that] by (auto simp: seats_ok_def list_all_iff)
  have fresh: "\<forall>k \<in> fst ` set roles. \<not> sm_has (m_playerOffers ?st1) k"
    using seats by (auto simp: seats_ok_def list_all_iff seatable_def)
  have may: "AllowedRoleMask (cls g) AND r \<noteq> 0" if "sm_find roles g = Some r" for g r
  proof -
    have "seatable w inst sq st g r" by (rule seat [OF that])
    then obtain q where q: "sm_find (m_queue st) g = Some q" "qp_roleMask q AND r \<noteq> 0"
      by (auto simp: seatable_def split: option.splits)
    have "allowed cls g (qp_roleMask q)" by (rule queue_okD [OF lft_okD(1) [OF assms] q(1)])
    then show ?thesis using mask_within q(2) by (simp add: allowed_def)
  qed
  have keys: "g \<in> fst ` set roles \<longleftrightarrow> sm_has roles g" for g by (simp add: sm_has_keys sm_keys_def)
  note out = offers_out [where w = w and inst = inst and i = "m_nextOfferId st" and es = roles and st = ?st1]
  show ?thesis
  proof (rule made [OF run roles party])
    show "sm_find (m_playerOffers ?st') g = (if sm_has roles g then Some (m_nextOfferId st) else sm_find (m_playerOffers st) g)" for g
      by (simp add: out(4) keys)
    show "sm_ok (m_playerOffers ?st')" using out(5) lft_okD(6) [OF assms] by simp
    show "queue_ok cls (m_queue ?st')" using out(6) lft_okD(1) [OF assms] by simp
    show "length (m_playerOffers ?st') = length (m_playerOffers st) + 5"
      using out(7) sm_ok_distinct [OF ok(1)] fresh ok(2) by simp
    show "\<not> sm_has (m_playerOffers st) g \<and> AllowedRoleMask (cls g) AND r \<noteq> 0" if "sm_find roles g = Some r" for g r
      using seat [OF that] may [OF that] by (simp add: seatable_def)
  qed (simp_all add: out)
qed

lemma lft_ok_build:
  assumes "lft_ok cls st" and "m_nextOfferId st + 1 \<noteq> 0"
  shows "lft_ok cls (fst (TryBuildOfferForInstance w inst st))"
  using assms(1)
proof (cases rule: build_cases [where w = w and inst = inst])
  case none
  then show ?thesis using assms(1) by simp
next
  case (made seed roles st')
  have old: "offers_ok cls (m_nextOfferId st) (m_offers st) (m_playerOffers st)" by (rule lft_okD(3) [OF assms(1)])
  have less: "m_nextOfferId st < m_nextOfferId st + 1" by (rule u32_less_succ [OF assms(2)])
  let ?o = "\<lparr>of_id = m_nextOfferId st, of_instance = inst, of_roles = roles, of_accepted = [], of_timer = LFT_OFFER_TIMEOUT\<rparr>"
  have no: "sm_find (m_offers st) (m_nextOfferId st) = None"
    using offers_okD(2) [OF old] by (cases "sm_find (m_offers st) (m_nextOfferId st)") auto
  have new: "offer_ok cls ?o"
    using made(3,11) by (auto simp: offer_ok_def LFT_OFFER_TIMEOUT_def list_all_iff full_party_def sm_find_in [symmetric])
  have "list_all (\<lambda>entry. of_id (snd entry) = fst entry \<and> fst entry < m_nextOfferId st + 1 \<and> offer_ok cls (snd entry)) (m_offers st')"
    unfolding made(6) using old new less
    by (intro list_all_put_intro) (auto simp: offers_ok_def list_all_iff)
  moreover have "sm_find (m_playerOffers st') g = Some i
      \<longleftrightarrow> (case sm_find (m_offers st') i of None \<Rightarrow> False | Some o1 \<Rightarrow> sm_has (of_roles o1) g)" for g i
  proof (cases "sm_has roles g")
    case True
    then have "sm_find (m_playerOffers st) g = None" using made(11) by (auto simp: sm_has_def)
    moreover have "sm_find (m_playerOffers st) g = Some i
        \<longleftrightarrow> (case sm_find (m_offers st) i of None \<Rightarrow> False | Some o1 \<Rightarrow> sm_has (of_roles o1) g)"
      using old by (simp add: offers_ok_def)
    ultimately have "\<not> (case sm_find (m_offers st) i of None \<Rightarrow> False | Some o1 \<Rightarrow> sm_has (of_roles o1) g)" by simp
    with True show ?thesis by (auto simp: made(6,7))
  next
    case False
    have "sm_find (m_playerOffers st) g = Some i \<longleftrightarrow> (case sm_find (m_offers st) i of None \<Rightarrow> False | Some o1 \<Rightarrow> sm_has (of_roles o1) g)"
      using old by (simp add: offers_ok_def)
    with False no show ?thesis by (auto simp: made(6,7))
  qed
  ultimately have "offers_ok cls (m_nextOfferId st') (m_offers st') (m_playerOffers st')"
    using made(4,6,8) lft_okD(5) [OF assms(1)] by (simp add: offers_ok_def)
  then show ?thesis
    using made(1,5,9) lft_okD(2) [OF assms(1)] by (simp add: lft_ok_def)
qed

end
