(* ===== verification/FinderLaws.thy ===== *)
theory FinderLaws
  imports FinderRules
begin

section \<open>The dungeon finder: what every operation keeps\<close>

text \<open>
  The interfaces \<open>finder_base\<close> and \<open>finder_law\<close>: a law that survives the few ways in which an operation changes the queue,
  the role checks and the offers survives every operation. Interpreted for the invariant, for the number of the next offer,
  and for the offers of an earlier state and their clocks.
\<close>

subsection \<open>Laws every operation keeps\<close>

text \<open>
  An operation that makes no offer changes the queue, the role checks and the offers in these ways only. A law
  kept by each of them is kept by all such operations (\<open>finder_base\<close>); one that a new offer keeps too, by all.
\<close>

definition drop_offer :: "u32 \<Rightarrow> LFTManager \<Rightarrow> LFTManager" where
  "drop_offer i st = st\<lparr>m_offers := sm_erase i (m_offers st), m_playerOffers := filter (\<lambda>entry. snd entry \<noteq> i) (m_playerOffers st)\<rparr>"

locale finder_base =
  fixes cls :: "u32 \<Rightarrow> u32" and law :: "LFTManager \<Rightarrow> bool"
  assumes law_core: "law st \<Longrightarrow> finder_core st' = finder_core st \<Longrightarrow> law st'"
    and law_ok: "law st \<Longrightarrow> lft_ok cls st"
    and law_queue: "law st \<Longrightarrow> queue_ok cls q \<Longrightarrow> law (st\<lparr>m_queue := q\<rparr>)"
    and law_checks: "law st \<Longrightarrow> checks_ok cls rcs \<Longrightarrow> law (st\<lparr>m_rolechecks := rcs\<rparr>)"
    and law_drop: "law st \<Longrightarrow> sm_find (m_offers st) i = Some o1 \<Longrightarrow> law (drop_offer i st)"
    and law_accept: "law st \<Longrightarrow> sm_find (m_offers st) i = Some o1 \<Longrightarrow> sm_has (of_roles o1) g
      \<Longrightarrow> law (st\<lparr>m_offers := sm_put i (o1\<lparr>of_accepted := sm_put g () (of_accepted o1)\<rparr>) (m_offers st)\<rparr>)"
    and law_tick: "law st \<Longrightarrow> sm_find (m_offers st) i = Some o1 \<Longrightarrow> d < of_timer o1
      \<Longrightarrow> law (st\<lparr>m_offers := sm_put i (o1\<lparr>of_timer := of_timer o1 - d\<rparr>) (m_offers st)\<rparr>)"

locale finder_law = finder_base +
  assumes law_build: "law st \<Longrightarrow> m_nextOfferId st + 1 \<noteq> 0 \<Longrightarrow> law (fst (TryBuildOfferForInstance w inst st))"

text \<open>What an operation leaves in the fields of the core, where it is only a message or a matter of the group.\<close>

lemma finder_core_simps [simp]:
  "finder_core (done_to e st) = finder_core st" "finder_core (Send w g m st) = finder_core st"
  "finder_core (SendQueueLeft w g n st) = finder_core st" "finder_core (SendQueueJoined w g q st) = finder_core st"
  "finder_core (SendQueuedStatus w g q st) = finder_core st" "finder_core (SendQueueStatus w g st) = finder_core st"
  "finder_core (Script_SetForcedRole g r st) = finder_core st"
  "finder_core (st\<lparr>m_fillBots := fb\<rparr>) = finder_core st" "finder_core (st\<lparr>lf_groups := gs\<rparr>) = finder_core st"
  "finder_core (st\<lparr>m_nextQueueOrder := qn\<rparr>) = finder_core st" "finder_core (st\<lparr>m_lftGroupIds := ids\<rparr>) = finder_core st"
  "finder_core (st\<lparr>m_botFillTimer := t\<rparr>) = finder_core st" "finder_core (st\<lparr>m_listings := ls\<rparr>) = finder_core st"
  "finder_core (st\<lparr>db_lft_user_groups := db\<rparr>) = finder_core st" "finder_core (st\<lparr>m_nextListingId := lid\<rparr>) = finder_core st"
  "finder_core (st\<lparr>m_listingsLoaded := loaded\<rparr>) = finder_core st"
  by (simp_all add: finder_core_def SendQueuedStatus_def SendQueueStatus_def Let_def split: option.split)

lemma core_fold: "(\<And>x st. x \<in> set xs \<Longrightarrow> finder_core (f x st) = finder_core st) \<Longrightarrow> finder_core (fold f xs st) = finder_core st"
  by (rule fold_field)

lemma AddPlayerToGroup_core: "AddPlayerToGroup w grp leader g st = (st', grp', ok) \<Longrightarrow> finder_core st' = finder_core st"
  by (auto simp: AddPlayerToGroup_def Let_def split: option.splits if_splits)

lemma add_all_core: "add_all w leader gs grp st = (st', ok) \<Longrightarrow> finder_core st' = finder_core st"
  by (induction gs arbitrary: grp st) (auto split: prod.splits if_splits dest: AddPlayerToGroup_core)

lemma Teleport_core: "finder_core (TeleportBotGroupToInstance w offer st) = finder_core st"
  by (auto simp: TeleportBotGroupToInstance_def split: option.splits intro!: core_fold)

lemma finder_fields: "finder_core st' = finder_core st \<longleftrightarrow> m_queue st' = m_queue st \<and> m_rolechecks st' = m_rolechecks st
    \<and> m_offers st' = m_offers st \<and> m_playerOffers st' = m_playerOffers st \<and> m_nextOfferId st' = m_nextOfferId st"
  by (simp add: finder_core_def)

text \<open>Taking the five out of the offers is taking the offer's entries out.\<close>

lemma erase_all: "fold sm_erase ks m = filter (\<lambda>entry. fst entry \<notin> set ks) m"
  by (induction ks arbitrary: m) (auto simp: sm_erase_def intro: filter_cong)

lemma offer_entries:
  assumes "lft_ok cls st" and "sm_find (m_offers st) i = Some o1"
  shows "filter (\<lambda>entry. fst entry \<notin> set (sm_keys (of_roles o1))) (m_playerOffers st)
    = filter (\<lambda>entry. snd entry \<noteq> i) (m_playerOffers st)"
proof (rule filter_cong [OF refl])
  fix entry
  assume "entry \<in> set (m_playerOffers st)"
  then have "sm_find (m_playerOffers st) (fst entry) = Some (snd entry)"
    using sm_find_in [OF lft_okD(6) [OF assms(1)]] by simp
  then show "fst entry \<notin> set (sm_keys (of_roles o1)) \<longleftrightarrow> snd entry \<noteq> i"
    using offers_okD(4) [OF lft_okD(3) [OF assms(1)] assms(2), of "fst entry"] by (auto simp: sm_has_keys)
qed

lemma cancel_one_fields:
  "m_offers (cancel_one w o1 ra rg ro g st) = m_offers st" "m_rolechecks (cancel_one w o1 ra rg ro g st) = m_rolechecks st"
  "m_nextOfferId (cancel_one w o1 ra rg ro g st) = m_nextOfferId st"
  "m_playerOffers (cancel_one w o1 ra rg ro g st) = sm_erase g (m_playerOffers st)"
  by (auto simp: cancel_one_def Let_def split: option.splits)

lemma cancel_one_queue: "queue_ok cls (m_queue st) \<Longrightarrow> queue_ok cls (m_queue (cancel_one w o1 ra rg ro g st))"
  by (auto simp: cancel_one_def Let_def queue_okD split: option.splits)

lemma cancel_all_fields:
  fixes w o1 ra rg ro gs st
  defines "st' \<equiv> fold (cancel_one w o1 ra rg ro) gs st"
  shows "m_offers st' = m_offers st" and "m_rolechecks st' = m_rolechecks st" and "m_nextOfferId st' = m_nextOfferId st"
    and "m_playerOffers st' = fold sm_erase gs (m_playerOffers st)" and "queue_ok cls (m_queue st) \<Longrightarrow> queue_ok cls (m_queue st')"
proof -
  have "m_offers st' = m_offers st \<and> m_rolechecks st' = m_rolechecks st \<and> m_nextOfferId st' = m_nextOfferId st
    \<and> m_playerOffers st' = fold sm_erase gs (m_playerOffers st) \<and> (queue_ok cls (m_queue st) \<longrightarrow> queue_ok cls (m_queue st'))"
    unfolding st'_def by (induction gs arbitrary: st) (auto simp: cancel_one_fields intro: cancel_one_queue)
  then show "m_offers st' = m_offers st" "m_rolechecks st' = m_rolechecks st" "m_nextOfferId st' = m_nextOfferId st"
    "m_playerOffers st' = fold sm_erase gs (m_playerOffers st)" "queue_ok cls (m_queue st) \<Longrightarrow> queue_ok cls (m_queue st')" by simp_all
qed

lemma CancelOffer_core:
  assumes "lft_ok cls st" and "sm_find (m_offers st) i = Some o1"
  shows "finder_core (CancelOffer w i ra rg ro st) = finder_core ((drop_offer i st)\<lparr>m_queue := m_queue (CancelOffer w i ra rg ro st)\<rparr>)"
    and "queue_ok cls (m_queue (CancelOffer w i ra rg ro st))"
  using assms(2) lft_okD(1) [OF assms(1)]
  by (simp_all add: CancelOffer_def Let_def finder_fields drop_offer_def cancel_all_fields erase_all offer_entries [OF assms])

lemma completed_all:
  "m_offers (fold (completed w) gs st) = m_offers st \<and> m_rolechecks (fold (completed w) gs st) = m_rolechecks st
    \<and> m_nextOfferId (fold (completed w) gs st) = m_nextOfferId st
    \<and> m_playerOffers (fold (completed w) gs st) = fold sm_erase gs (m_playerOffers st)
    \<and> m_queue (fold (completed w) gs st) = fold sm_erase gs (m_queue st)"
  by (induction gs arbitrary: st) (simp_all add: completed_def Let_def)

subsection \<open>The operations of the queue\<close>

text \<open>Only board and messages: none of these touches the core.\<close>

lemma Ensure_core [simp]: "finder_core (EnsureListingsLoaded w st) = finder_core st"
  by (auto simp: EnsureListingsLoaded_def LoadListingsFromDB_def load_listing_def DeleteListingFromDB_def Let_def intro: trans [OF core_fold]
        split: prod.splits)

lemma SendGroups_core [simp]: "finder_core (SendGroupsList w g st) = finder_core st"
proof -
  have "finder_core (fold (\<lambda>entry st. if CanPlayerSeeListing w g (snd entry)
      then Send w g (''S2C_GROUPS_LIST_UPDATE;'' @ BuildListingJson (snd entry)) st else st) (m_listings st) st') = finder_core st'" for st'
    by (rule core_fold) simp
  then show ?thesis by (simp add: SendGroupsList_def)
qed

lemma Broadcast_core [simp]: "finder_core (BroadcastGroupsList w st) = finder_core st"
  by (simp add: BroadcastGroupsList_def core_fold)

lemma Details_core [simp]: "finder_core (SendGroupDetails w g l st) = finder_core st"
  unfolding SendGroupDetails_def Let_def by (rule core_fold) simp

lemma Save_core [simp]: "finder_core (SaveListingToDB l st) = finder_core st" "finder_core (DeleteListingFromDB lid st) = finder_core st"
  by (simp_all add: SaveListingToDB_def DeleteListingFromDB_def Let_def)

lemma drop_listings_core [simp]: "finder_core (drop_listings_of g st) = finder_core st"
  unfolding drop_listings_of_def by (rule core_fold) simp

lemma store_core [simp]: "finder_core (store_listing w l st) = finder_core st"
  by (simp add: store_listing_def)

lemma board_core:
  "finder_core (HandleGetGroupDetails w g ps st) = finder_core st" "finder_core (HandleNewGroup w g ps st) = finder_core st"
  "finder_core (HandleUpdateGroup w g ps st) = finder_core st" "finder_core (HandleDeleteGroup w g ps st) = finder_core st"
  "finder_core (HandleSignup w g ps st) = finder_core st" "finder_core (HandleManualRolecheckResponse w g ps st) = finder_core st"
  by (simp_all add: HandleGetGroupDetails_def HandleNewGroup_def HandleUpdateGroup_def HandleDeleteGroup_def HandleSignup_def
        HandleManualRolecheckResponse_def Let_def split: option.splits)

lemma RemoveFromGroup_core: "finder_core (RemoveFromGroup w g st) = finder_core st"
  by (simp add: RemoveFromGroup_def Let_def split: option.splits)

definition enqueue_checked :: "lft_world \<Rightarrow> PendingRolecheck \<Rightarrow> LFTManager \<Rightarrow> LFTManager" where
  "enqueue_checked w rc = fold (\<lambda>guid st.
         if GetPlayer w guid = None then st
         else case sm_find (rc_responses rc) guid of None \<Rightarrow> st
           | Some roleMask \<Rightarrow> EnqueuePlayer w guid (rc_leaderGuid rc) (rc_instances rc) roleMask st) (rc_members rc)"

lemma EnqueueRolecheck_checked: "EnqueueRolecheck w rc st = TryMakeOffers w (enqueue_checked w rc st)"
  by (simp add: EnqueueRolecheck_def enqueue_checked_def)

lemma allowed_and: "allowed cls g (x AND AllowedRoleMask (cls g))" "allowed cls g (AllowedRoleMask (cls g) AND x)" "allowed cls g (AllowedRoleMask (cls g))"
  by (simp_all add: allowed_def ac_simps)

lemma bot_answers:
  assumes "knows cls w" and "list_all (\<lambda>entry. allowed cls (fst entry) (snd entry)) rs \<and> sm_ok rs"
  shows "list_all (\<lambda>entry. allowed cls (fst entry) (snd entry)) (fold (bot_answer w st) gs rs) \<and> sm_ok (fold (bot_answer w st) gs rs)"
proof (rule fold_keeps [where P = "\<lambda>rs. list_all (\<lambda>entry. allowed cls (fst entry) (snd entry)) rs \<and> sm_ok rs", OF _ assms(2)])
  fix g rs
  assume ok: "list_all (\<lambda>entry. allowed cls (fst entry) (snd entry)) rs \<and> sm_ok rs"
  show "list_all (\<lambda>entry. allowed cls (fst entry) (snd entry)) (bot_answer w st g rs) \<and> sm_ok (bot_answer w st g rs)"
  proof (cases "GetPlayer w g")
    case None
    then show ?thesis using ok by (simp add: bot_answer_def)
  next
    case (Some p)
    then have "lp_class p = cls g" using knowsD [OF assms(1)] GetPlayer_some by metis
    with Some ok show ?thesis by (auto simp: bot_answer_def Let_def allowed_and intro: list_all_put_intro)
  qed
qed

context finder_base
begin

lemma law_queue_core: "law st \<Longrightarrow> queue_ok cls (m_queue st') \<Longrightarrow> finder_core st' = finder_core (st\<lparr>m_queue := m_queue st'\<rparr>) \<Longrightarrow> law st'"
  by (rule law_core [OF law_queue])

lemma law_queue_ok: "law st \<Longrightarrow> queue_ok cls (m_queue st)"
  by (rule lft_okD(1) [OF law_ok])

lemma law_cancel: "law (CancelOffer w i ra rg ro st)" if "law st"
proof (cases "sm_find (m_offers st) i")
  case None
  then show ?thesis using that by (simp add: CancelOffer_def)
next
  case (Some o1)
  show ?thesis
    by (rule law_queue_core [OF law_drop [OF that Some] CancelOffer_core(2,1) [OF law_ok [OF that] Some]])
qed

lemma law_complete: "law (fst (CompleteOffer w i st))" if "law st"
proof (cases "sm_find (m_offers st) i")
  case None
  then show ?thesis using that by (simp add: CompleteOffer_def)
next
  case (Some o1)
  obtain st1 ok where added: "add_all w (offer_leader o1 st) (sm_keys (of_roles o1)) None st = (st1, ok)" by fastforce
  note core = add_all_core [OF added]
  have st1: "law st1" by (rule law_core [OF that core])
  show ?thesis
  proof (cases ok)
    case False
    with Some added show ?thesis by (simp add: CompleteOffer_def law_cancel [OF st1])
  next
    case True
    have off: "sm_find (m_offers st1) i = Some o1" using Some core by (simp add: finder_fields)
    let ?st3 = "fold (completed w) (sm_keys (of_roles o1)) st1"
    let ?st4 = "TeleportBotGroupToInstance w o1 ?st3"
    have q: "queue_ok cls (fold sm_erase (sm_keys (of_roles o1)) (m_queue st1))"
      using law_queue_ok [OF st1] by (simp add: erase_all queue_ok_filter)
    have "finder_core (?st4\<lparr>m_offers := sm_erase i (m_offers ?st4)\<rparr>)
        = finder_core ((drop_offer i st1)\<lparr>m_queue := fold sm_erase (sm_keys (of_roles o1)) (m_queue st1)\<rparr>)"
      using Teleport_core [of w o1 ?st3] completed_all [of w "sm_keys (of_roles o1)" st1] offer_entries [OF law_ok [OF st1] off]
      by (simp add: finder_fields drop_offer_def erase_all)
    then have "law (?st4\<lparr>m_offers := sm_erase i (m_offers ?st4)\<rparr>)"
      by (rule law_core [OF law_queue [OF law_drop [OF st1 off] q]])
    with Some added True show ?thesis by (simp add: CompleteOffer_def Let_def)
  qed
qed

lemma law_fold: "(\<And>x st. x \<in> set xs \<Longrightarrow> law st \<Longrightarrow> law (f x st)) \<Longrightarrow> law st \<Longrightarrow> law (fold f xs st)"
  by (rule fold_keeps)

lemma law_handle_accept: "law (HandleOfferAccept w me st)" if "law st"
proof (cases "sm_find (m_playerOffers st) me")
  case None
  then show ?thesis using that by (simp add: HandleOfferAccept_def)
next
  case (Some i)
  note players = Some
  show ?thesis
  proof (cases "sm_find (m_offers st) i")
    case None
    with players show ?thesis using that by (simp add: HandleOfferAccept_def)
  next
    case (Some o1)
    have "sm_has (of_roles o1) me" using offers_okD(4) [OF lft_okD(3) [OF law_ok [OF that]] Some] players by blast
    note acc = law_accept [OF that Some this]
    have "law (fold (\<lambda>guid st. if GetPlayer w guid = None then st else Send w guid line st) gs st1)" if "law st1" for line gs st1
      by (rule law_core [OF that]) (auto intro!: core_fold)
    note sent = this [OF acc]
    show ?thesis
      using players Some sent law_complete [OF sent] by (simp add: HandleOfferAccept_def Let_def)
  qed
qed

lemma law_enqueue:
  assumes "law st" and "allowed cls g rm"
  shows "law (EnqueuePlayer w g l insts rm st)"
proof (cases "lw_player w g")
  case None
  then show ?thesis using assms(1) by (simp add: EnqueuePlayer_def)
next
  case (Some p)
  then have "queue_ok cls (m_queue (EnqueuePlayer w g l insts rm st))"
    using assms law_queue_ok by (simp add: EnqueuePlayer_def Let_def queue_ok_put)
  then show ?thesis
    by (rule law_queue_core [OF assms(1)]) (simp add: EnqueuePlayer_def Let_def Some finder_fields)
qed

lemma law_enqueue_checked: "law st \<Longrightarrow> check_ok cls rc \<Longrightarrow> law (enqueue_checked w rc st)"
  unfolding enqueue_checked_def
  by (rule law_fold) (auto simp: check_ok_def list_all_iff split: option.splits dest!: map_of_SomeD intro!: law_enqueue)

lemma law_cancel_check: "law (CancelRolecheck w key st)" if "law st"
proof (cases "sm_find (m_rolechecks st) key")
  case None
  then show ?thesis using that by (simp add: CancelRolecheck_def)
next
  case (Some rc)
  let ?st1 = "fold (\<lambda>guid. SendQueueLeft w guid (name_of w guid)) (rc_members rc) st"
  have st1: "law ?st1" by (rule law_core [OF that]) (auto intro!: core_fold)
  show ?thesis
    using law_checks [OF st1 checks_ok_erase [OF lft_okD(2) [OF law_ok [OF st1]]], of key] Some by (simp add: CancelRolecheck_def Let_def)
qed

lemma law_cleanup: "law (CleanupPlayer w g st)" if "law st"
proof -
  let ?st1 = "st\<lparr>m_queue := sm_erase g (m_queue st)\<rparr>"
  have "law ?st1" by (rule law_queue [OF that queue_ok_erase [OF law_queue_ok [OF that]]])
  then have "law (case sm_find (m_playerOffers ?st1) g of None \<Rightarrow> ?st1 | Some i \<Rightarrow> CancelOffer w i True g True ?st1)"
    by (simp add: law_cancel split: option.split)
  then show ?thesis by (auto simp: CleanupPlayer_def Let_def intro!: law_fold law_cancel_check)
qed

lemma law_leave: "law (leave_queue w g st)" if "law st"
  by (rule law_core [OF law_queue [OF that queue_ok_erase [OF law_queue_ok [OF that]]]]) (simp add: leave_queue_def Let_def finder_fields)

lemma law_asked:
  assumes "law st" and "knows cls w"
    and "rc = \<lparr>rc_leaderGuid = l, rc_members = gs, rc_instances = insts, rc_responses = fold (bot_answer w st') gs [], rc_timer = LFT_ROLECHECK_TIMEOUT\<rparr>"
  shows "check_ok cls rc"
    and "law (fold (\<lambda>guid st. if sm_has (rc_responses rc) guid \<or> GetPlayer w guid = None then st
        else Send w guid ''S2C_UPDATE_QUEUE_STATUS;pending_rolecheck'' (Send w guid line st)) gs
      (st\<lparr>m_rolechecks := sm_put l rc (m_rolechecks st)\<rparr>))"
proof -
  show rc: "check_ok cls rc"
    using bot_answers [OF assms(2), of "[]" st' gs] by (simp add: assms(3) check_ok_def)
  have "law (st\<lparr>m_rolechecks := sm_put l rc (m_rolechecks st)\<rparr>)"
    by (rule law_checks [OF assms(1) checks_ok_put [OF lft_okD(2) [OF law_ok [OF assms(1)]] rc]])
  then show "law (fold (\<lambda>guid st. if sm_has (rc_responses rc) guid \<or> GetPlayer w guid = None then st
        else Send w guid ''S2C_UPDATE_QUEUE_STATUS;pending_rolecheck'' (Send w guid line st)) gs
      (st\<lparr>m_rolechecks := sm_put l rc (m_rolechecks st)\<rparr>))"
    by (rule law_core) (auto intro!: core_fold)
qed

end

subsection \<open>The bots that fill\<close>

text \<open>What is always true of the bot chosen for a role, however it was found.\<close>

definition fit_bot :: "lft_world \<Rightarrow> u8 \<Rightarrow> QueuedPlayer \<Rightarrow> LFTManager \<Rightarrow> u32 \<Rightarrow> bool" where
  "fit_bot w wanted waiter st g = (case lw_player w g of None \<Rightarrow> False
     | Some p \<Rightarrow> lp_inWorld p \<and> lp_alive p \<and> Script_IsAIControlled p \<and> IsRandomBotAccount p \<and> \<not> lp_battleground p
         \<and> may_fill waiter wanted (if wanted = LFT_ROLE_HEALER then lw_belowHealer w else lw_below w) (lw_above w) st g p)"

lemma may_fill_core: "m_queue st' = m_queue st \<Longrightarrow> may_fill q wanted lower upper st' g p = may_fill q wanted lower upper st g p"
  by (simp add: may_fill_def)

lemma respec_first_fit:
  assumes "respec_first w wanted waiter (if wanted = LFT_ROLE_HEALER then lw_belowHealer w else lw_below w) (lw_above w) gs st = (st', found)"
  shows "finder_core st' = finder_core st \<and> (case found of None \<Rightarrow> True | Some g \<Rightarrow> fit_bot w wanted waiter st g)"
  using assms
proof (induction gs arbitrary: st)
  case Nil
  then show ?case by simp
next
  case (Cons g gs)
  let ?lower = "if wanted = LFT_ROLE_HEALER then lw_belowHealer w else lw_below w"
  show ?case
  proof (cases "respec_candidate w wanted waiter ?lower (lw_above w) st g")
    case False
    then show ?thesis using Cons by simp
  next
    case True
    then have fit: "fit_bot w wanted waiter st g"
      by (auto simp: respec_candidate_def fit_bot_def loose_bot_def split: option.splits)
    let ?st1 = "Script_SetForcedRole g wanted st"
    have same: "fit_bot w wanted waiter ?st1 g' = fit_bot w wanted waiter st g'" for g'
      by (simp add: fit_bot_def may_fill_def split: option.split)
    show ?thesis
    proof (cases "Script_GetAllowedRoles w g ?st1 AND wanted \<noteq> 0")
      case True': True
      then have "(?st1, Some g) = (st', found)" using Cons.prems True by simp
      then have "st' = ?st1" "found = Some g" by simp_all
      then show ?thesis using fit by simp
    next
      case False
      then have "respec_first w wanted waiter ?lower (lw_above w) gs ?st1 = (st', found)" using Cons.prems True by simp
      from Cons.IH [OF this] show ?thesis by (cases found) (simp_all add: same)
    qed
  qed
qed

lemma choose_bot_fit:
  assumes "choose_bot w wanted waiter st = (st', found)"
  shows "finder_core st' = finder_core st" and "case found of None \<Rightarrow> True | Some g \<Rightarrow> fit_bot w wanted waiter st g"
proof -
  let ?lower = "if wanted = LFT_ROLE_HEALER then lw_belowHealer w else lw_below w"
  have "finder_core st' = finder_core st \<and> (case found of None \<Rightarrow> True | Some g \<Rightarrow> fit_bot w wanted waiter st g)"
  proof (cases "find (free_bot_for w wanted waiter ?lower (lw_above w) st) (lw_online w)")
    case (Some g)
    then have "free_bot_for w wanted waiter ?lower (lw_above w) st g" by (auto simp: find_Some_iff)
    then have "fit_bot w wanted waiter st g" by (auto simp: free_bot_for_def fit_bot_def loose_bot_def split: option.splits)
    moreover have "(st, Some g) = (st', found)" using assms Some by (simp add: choose_bot_def)
    then have "st' = st" "found = Some g" by simp_all
    ultimately show ?thesis by simp
  next
    case none: None
    show ?thesis
    proof (cases "find (spare_bot_for w wanted waiter ?lower (lw_above w) st) (lw_online w)")
      case (Some g)
      then have "spare_bot_for w wanted waiter ?lower (lw_above w) st g" by (auto simp: find_Some_iff)
      then have "fit_bot w wanted waiter st g" by (auto simp: spare_bot_for_def fit_bot_def split: option.splits)
      moreover have "(RemoveFromGroup w g st, Some g) = (st', found)"
        using assms none Some by (simp add: choose_bot_def TakeFromBotOnlyGroup_def)
      then have "st' = RemoveFromGroup w g st" "found = Some g" by simp_all
      ultimately show ?thesis by (simp add: RemoveFromGroup_core)
    next
      case None
      then show ?thesis
        using assms none respec_first_fit [of w wanted waiter "lw_online w" st st' found]
        by (auto simp: choose_bot_def TakeFromBotOnlyGroup_def TakeBotAndRespecFor_def split: if_splits)
    qed
  qed
  then show "finder_core st' = finder_core st" "case found of None \<Rightarrow> True | Some g \<Rightarrow> fit_bot w wanted waiter st g" by simp_all
qed

lemma wanted_role_ok: "wanted_role t h d \<noteq> 0 \<Longrightarrow> role_ok (wanted_role t h d)"
  by (simp add: wanted_role_def role_ok_def split: if_splits)

lemma role_ok_roles [simp]: "role_ok LFT_ROLE_TANK" "role_ok LFT_ROLE_HEALER" "role_ok LFT_ROLE_DAMAGE"
  by (simp_all add: role_ok_def)

lemma single_role:
  assumes "role_ok role" and "allowedMask AND role \<noteq> 0"
  shows "role AND allowedMask = role"
proof -
  have "\<exists>n. role = push_bit n 1"
    using assms(1) by (auto simp: role_ok_def LFT_ROLE_TANK_def LFT_ROLE_HEALER_def LFT_ROLE_DAMAGE_def intro: exI [of _ 0] exI [of _ 1] exI [of _ 2])
  then obtain n where n: "role = push_bit n 1" ..
  then have "bit allowedMask n" using assms(2) by (auto simp: and_exp_eq_0_iff_not_bit push_bit_eq_mult ac_simps)
  then show ?thesis
    by (simp add: n bit_eq_iff) (auto simp: bit_simps)
qed

lemma fit_bot_allowed: "knows cls w \<Longrightarrow> role_ok wanted \<Longrightarrow> fit_bot w wanted waiter st g \<Longrightarrow> allowed cls g wanted"
  by (auto simp: fit_bot_def may_fill_def allowed_def knowsD intro: single_role split: option.splits)

context finder_base
begin

lemma law_drop_bot:
  assumes "law st"
  shows "law (drop_fill_bot w g st)"
proof (rule law_core [OF law_queue [OF assms]])
  show "queue_ok cls (m_queue (drop_fill_bot w g st))"
    using queue_ok_erase [OF law_queue_ok [OF assms]] law_queue_ok [OF assms]
    by (simp add: drop_fill_bot_def Let_def split: option.split)
  show "finder_core (drop_fill_bot w g st) = finder_core (st\<lparr>m_queue := m_queue (drop_fill_bot w g st)\<rparr>)"
    by (simp add: drop_fill_bot_def Let_def finder_fields split: option.split)
qed

lemma law_drop_bots: "law st \<Longrightarrow> law (DropUnneededFillBots w st)"
  by (auto simp: DropUnneededFillBots_def intro: law_fold law_drop_bot)

lemma law_seed:
  assumes "law st" and "knows cls w"
  shows "law (SeedBotOnlyQueue w st)"
proof -
  have "allowed cls g (AllowedRoleMask (lp_class p))" if "lw_player w g = Some p" for g p
    using knowsD [OF assms(2) that] by (simp add: allowed_and)
  then show ?thesis
    using assms(1) by (auto simp: SeedBotOnlyQueue_def intro!: law_enqueue split: option.split)
qed

lemma law_fill_turn:
  assumes "law st" and "knows cls w" and "fill_turn w inst waiter covered st = Some (covered', st')"
  shows "law st'"
proof -
  obtain t h d n where c: "covered = (t, h, d, n)" by (cases covered) auto
  let ?wanted = "wanted_role t h d"
  obtain st1 found where chosen: "choose_bot w ?wanted waiter st = (st1, found)" by fastforce
  have st1: "law st1" by (rule law_core [OF assms(1) choose_bot_fit(1) [OF chosen]])
  have role: "role_ok ?wanted" using assms(3) by (auto simp: c fill_turn_def Let_def intro: wanted_role_ok split: if_splits)
  show ?thesis
  proof (cases found)
    case None
    then have "st' = st1" using assms(3) chosen by (auto simp: c fill_turn_def Let_def split: if_splits)
    then show ?thesis using st1 by simp
  next
    case (Some g)
    have "fit_bot w ?wanted waiter st g" using choose_bot_fit(2) [OF chosen] Some by simp
    then have "allowed cls g ?wanted" by (rule fit_bot_allowed [OF assms(2) role])
    from law_enqueue [OF st1 this] have "law (EnqueuePlayer w g 0 [inst] ?wanted st1)" .
    then have "law (enqueue_fill w inst g ?wanted st1)" by (rule law_core) (simp add: enqueue_fill_def Let_def)
    moreover have "st' = enqueue_fill w inst g ?wanted st1"
      using assms(3) chosen Some by (auto simp: c fill_turn_def Let_def split: if_splits)
    ultimately show ?thesis by simp
  qed
qed

lemma law_fill_loop: "law st \<Longrightarrow> knows cls w \<Longrightarrow> law (fill_loop w inst waiter n covered st)"
  by (induction n arbitrary: covered st) (auto split: option.split prod.splits dest: law_fill_turn)

lemma law_fill_instance: "law st \<Longrightarrow> knows cls w \<Longrightarrow> law (FillInstanceWithBots w inst waiter st)"
  by (simp add: FillInstanceWithBots_def Let_def law_fill_loop)

lemma law_accept_bots: "law st \<Longrightarrow> law (accept_bots w i roles st)"
proof (induction roles arbitrary: st)
  case (Cons e roles)
  have "law (HandleOfferAccept w (fst e) (Script_SetForcedRole (fst e) (snd e) st))"
    by (rule law_handle_accept, rule law_core [OF Cons.prems]) simp
  with Cons show ?case by (simp split: option.split)
qed simp

lemma law_fill_accepts: "law st \<Longrightarrow> law (AcceptOffersForFillBots w st)"
  by (auto simp: AcceptOffersForFillBots_def intro!: law_fold law_accept_bots split: option.split)

lemma law_fill:
  assumes "law st" and "knows cls w"
  shows "law (UpdateBotFill w diff st)"
proof -
  note a = law_fill_accepts [OF assms(1), of w]
  have timed: "law ((AcceptOffersForFillBots w st)\<lparr>m_botFillTimer := t\<rparr>)" for t by (rule law_core [OF a]) simp
  note s = law_seed [OF law_drop_bots [OF timed] assms(2)]
  have "law (fold (\<lambda>entry. FillInstanceWithBots w (fst entry) (snd entry)) es
      (SeedBotOnlyQueue w (DropUnneededFillBots w ((AcceptOffersForFillBots w st)\<lparr>m_botFillTimer := 5000\<rparr>))))" for es
    by (rule law_fold [OF _ s]) (rule law_fill_instance [OF _ assms(2)])
  then show ?thesis
    using a law_drop_bots [OF a] timed by (simp add: UpdateBotFill_def Let_def)
qed

lemma law_tick_check:
  assumes "law st"
  shows "law (tick_rolecheck w diff key st)"
proof (cases "sm_find (m_rolechecks st) key")
  case None
  then show ?thesis using assms by (simp add: tick_rolecheck_def)
next
  case (Some rc)
  note ok = lft_okD(2) [OF law_ok [OF assms]]
  have "check_ok cls (rc\<lparr>rc_timer := rc_timer rc - diff\<rparr>)" if "\<not> rc_timer rc \<le> diff"
  proof -
    have "rc_timer rc - diff \<le> rc_timer rc" using that by (simp add: word_sub_le)
    then show ?thesis using checks_okD [OF ok Some] by (auto simp: check_ok_def)
  qed
  then show ?thesis
    using Some assms by (simp add: tick_rolecheck_def law_cancel_check law_checks checks_ok_put ok)
qed

lemma law_tick_offer: "law st \<Longrightarrow> law (tick_offer w diff i st)"
  by (simp add: tick_offer_def law_cancel law_tick not_le split: option.split)

end

subsection \<open>The invariant is a law\<close>

lemma offers_ok_same_put:
  assumes "offers_ok cls n offers players" and "sm_find offers i = Some o1"
    and "of_id o2 = of_id o1" and "of_roles o2 = of_roles o1" and "offer_ok cls o2"
  shows "offers_ok cls n (sm_put i o2 offers) players"
proof -
  have "list_all (\<lambda>entry. of_id (snd entry) = fst entry \<and> fst entry < n \<and> offer_ok cls (snd entry)) (sm_put i o2 offers)"
    using assms offers_okD [OF assms(1,2)] by (intro list_all_put_intro) (auto simp: offers_ok_def)
  then show ?thesis using assms by (auto simp: offers_ok_def)
qed

lemma offers_ok_drop:
  assumes "offers_ok cls n offers players"
  shows "offers_ok cls n (sm_erase i offers) (filter (\<lambda>entry. snd entry \<noteq> i) players)"
proof -
  have ok: "sm_ok offers" "sm_ok players" using assms by (simp_all add: offers_ok_def)
  have find: "sm_find (filter (\<lambda>entry. snd entry \<noteq> i) players) g = Some j \<longleftrightarrow> sm_find players g = Some j \<and> j \<noteq> i" for g j
    using sm_find_in [OF ok(2), of g j] sm_find_in [OF sm_ok_filtered [OF ok(2), of "\<lambda>entry. snd entry \<noteq> i"], of g j] by auto
  have "list_all (\<lambda>entry. of_id (snd entry) = fst entry \<and> fst entry < n \<and> offer_ok cls (snd entry)) (sm_erase i offers)"
    using assms by (simp add: offers_ok_def) (simp add: list_all_iff sm_erase_def)
  then show ?thesis
    using assms ok by (simp add: offers_ok_def find sm_ok_filtered)
qed

interpretation ok: finder_base cls "lft_ok cls" for cls
proof (unfold_locales, goal_cases)
  case (1 st st')
  then show ?case by (simp add: lft_ok_def finder_fields)
next
  case (3 st q)
  then show ?case by (simp add: lft_ok_def)
next
  case (4 st rcs)
  then show ?case by (simp add: lft_ok_def)
next
  case (5 st i o1)
  then show ?case by (simp add: lft_ok_def drop_offer_def offers_ok_drop)
next
  case (6 st i o1 g)
  note o1 = offers_okD [OF lft_okD(3) [OF 6(1)] 6(2)]
  then have "offer_ok cls (o1\<lparr>of_accepted := sm_put g () (of_accepted o1)\<rparr>)"
    using 6(3) by (simp add: offer_ok_def list_all_put_intro)
  then show ?case using 6(1) offers_ok_same_put [OF lft_okD(3) [OF 6(1)] 6(2)] by (simp add: lft_ok_def)
next
  case (7 st i o1 d)
  note o1 = offers_okD [OF lft_okD(3) [OF 7(1)] 7(2)]
  have "of_timer o1 - d \<le> of_timer o1" "0 < of_timer o1 - d" using 7(3) by (auto simp: word_sub_le word_greater_zero_iff)
  then have "offer_ok cls (o1\<lparr>of_timer := of_timer o1 - d\<rparr>)"
    using o1(3) by (auto simp: offer_ok_def)
  then show ?case using 7(1) offers_ok_same_put [OF lft_okD(3) [OF 7(1)] 7(2)] by (simp add: lft_ok_def)
qed

interpretation ok: finder_law cls "lft_ok cls" for cls
  by unfold_locales (rule lft_ok_build)

text \<open>An operation that makes no offer takes no number for one.\<close>

interpretation steady: finder_base cls "\<lambda>st. lft_ok cls st \<and> m_nextOfferId st = n" for cls n
  by unfold_locales (auto simp: finder_fields drop_offer_def intro: ok.law_core ok.law_queue ok.law_checks ok.law_accept ok.law_tick
      ok.law_drop [unfolded drop_offer_def])

subsection \<open>Every offer ends\<close>

text \<open>What became of the offers there were: gone, or the same five, one of them nearer its end.\<close>

definition aged :: "Offer \<Rightarrow> Offer \<Rightarrow> bool" where
  "aged o0 o1 \<longleftrightarrow> of_roles o1 = of_roles o0 \<and> of_timer o1 \<le> of_timer o0"

definition old_offers :: "u32 \<Rightarrow> (u32, Offer) smap \<Rightarrow> (u32, Offer) smap \<Rightarrow> bool" where
  "old_offers n offers0 offers \<longleftrightarrow> (\<forall>i o1. sm_find offers i = Some o1 \<and> i < n
     \<longrightarrow> (case sm_find offers0 i of None \<Rightarrow> False | Some o0 \<Rightarrow> aged o0 o1))"

definition age_law :: "(u32 \<Rightarrow> u32) \<Rightarrow> LFTManager \<Rightarrow> LFTManager \<Rightarrow> bool" where
  "age_law cls st0 st \<longleftrightarrow> lft_ok cls st \<and> m_nextOfferId st0 \<le> m_nextOfferId st
     \<and> old_offers (m_nextOfferId st0) (m_offers st0) (m_offers st)"

lemma aged_refl [simp]: "aged o1 o1"
  by (simp add: aged_def)

lemma aged_trans: "aged o0 o1 \<Longrightarrow> aged o1 o2 \<Longrightarrow> aged o0 o2"
  by (auto simp: aged_def)

lemma old_offersD: "old_offers n offers0 offers \<Longrightarrow> sm_find offers i = Some o1 \<Longrightarrow> i < n
    \<Longrightarrow> \<exists>o0. sm_find offers0 i = Some o0 \<and> aged o0 o1"
  unfolding old_offers_def by (drule spec [of _ i], drule spec [of _ o1]) (simp split: option.splits)

lemma old_offersI:
  "(\<And>i o1. sm_find offers i = Some o1 \<Longrightarrow> i < n \<Longrightarrow> \<exists>o0. sm_find offers0 i = Some o0 \<and> aged o0 o1) \<Longrightarrow> old_offers n offers0 offers"
  by (fastforce simp: old_offers_def split: option.split)

lemma age_law_refl: "lft_ok cls st \<Longrightarrow> age_law cls st st"
  by (simp add: age_law_def old_offersI)

lemma old_offers_put:
  assumes "old_offers n offers0 offers" and "sm_find offers i = Some o1" and "aged o1 o2"
  shows "old_offers n offers0 (sm_put i o2 offers)"
proof (rule old_offersI)
  fix j o3
  assume j: "sm_find (sm_put i o2 offers) j = Some o3" "j < n"
  show "\<exists>o0. sm_find offers0 j = Some o0 \<and> aged o0 o3"
  proof (cases "j = i")
    case True
    then show ?thesis using j old_offersD [OF assms(1,2)] aged_trans [OF _ assms(3)] by auto
  next
    case False
    then show ?thesis using j old_offersD [OF assms(1)] by simp
  qed
qed

lemma old_offers_erase: "old_offers n offers0 offers \<Longrightarrow> old_offers n offers0 (sm_erase i offers)"
  by (rule old_offersI) (auto dest: old_offersD split: if_splits)

lemma old_offers_new: "old_offers n offers0 offers \<Longrightarrow> n \<le> i \<Longrightarrow> old_offers n offers0 (sm_put i o1 offers)"
  by (rule old_offersI) (auto dest: old_offersD split: if_splits)

interpretation age: finder_base cls "age_law cls st0" for cls st0
proof (unfold_locales, goal_cases)
  case (1 st st')
  then show ?case using ok.law_core [of cls st st'] by (simp add: age_law_def finder_fields)
next
  case (6 st i o1 g)
  then show ?case
    using ok.law_accept [of cls st i o1 g] old_offers_put [OF _ 6(2)] by (simp add: age_law_def aged_def)
next
  case (7 st i o1 d)
  then have "of_timer o1 - d \<le> of_timer o1" by (simp add: word_sub_le)
  with 7 show ?case
    using ok.law_tick [of cls st i o1 d] old_offers_put [OF _ 7(2)] by (simp add: age_law_def aged_def)
next
  case (5 st i o1)
  then show ?case using ok.law_drop [of cls st i o1] by (simp add: age_law_def drop_offer_def old_offers_erase)
qed (simp_all add: age_law_def ok.law_queue ok.law_checks)

interpretation age: finder_law cls "age_law cls st0" for cls st0
proof
  fix st w inst
  assume age: "age_law cls st0 st" and n: "m_nextOfferId st + 1 \<noteq> 0"
  have okst: "lft_ok cls st" using age by (simp add: age_law_def)
  show "age_law cls st0 (fst (TryBuildOfferForInstance w inst st))"
    using okst
  proof (cases rule: build_cases [where w = w and inst = inst])
    case none
    then show ?thesis using age by simp
  next
    case (made seed roles st')
    have "m_nextOfferId st < m_nextOfferId st'" using made(4) u32_less_succ [OF n] by simp
    moreover have "m_nextOfferId st0 \<le> m_nextOfferId st" using age by (simp add: age_law_def)
    ultimately have "m_nextOfferId st0 \<le> m_nextOfferId st'" by (rule order.strict_implies_order [OF le_less_trans, rotated])
    then show ?thesis
      using age made(1,6) lft_ok_build [OF okst n, of w inst] by (simp add: age_law_def old_offers_new)
  qed
qed

subsection \<open>Making offers\<close>

text \<open>An offer takes five players who had none, so one round makes less than \<open>2 ^ 30\<close> of them.\<close>

definition offer_bound :: "LFTManager \<Rightarrow> bool" where
  "offer_bound st \<longleftrightarrow> unat (m_nextOfferId st) < 3 * 2 ^ 30"

lemma sm_ok_length: "length (m :: (u32, 'v) smap) \<le> 2 ^ 32" if "sm_ok m"
proof -
  have "length m = card (set (sm_keys m))" using distinct_card [of "sm_keys m"] sm_ok_distinct [OF that] by (simp add: sm_keys_def)
  also have "\<dots> \<le> card (UNIV :: u32 set)" by (rule card_mono) simp_all
  finally show ?thesis by (simp add: card_word)
qed

context finder_law
begin

lemma law_build_all:
  assumes "law st" and "unat (m_nextOfferId st) + (2 ^ 32 - length (m_playerOffers st)) div 5 < 2 ^ 32 - 1"
  shows "law (fold (\<lambda>inst st. fst (TryBuildOfferForInstance w inst st)) insts st)"
  using assms
proof (induction insts arbitrary: st)
  case Nil
  then show ?case by simp
next
  case (Cons inst insts)
  let ?st1 = "fst (TryBuildOfferForInstance w inst st)"
  have small: "unat (m_nextOfferId st) < 2 ^ 32 - 1" using Cons.prems(2) by linarith
  have n: "m_nextOfferId st + 1 \<noteq> 0"
  proof
    assume "m_nextOfferId st + 1 = 0"
    then have "m_nextOfferId st = - 1" by (simp add: eq_neg_iff_add_eq_0)
    with small show False by (simp add: unsigned_minus_1_eq_mask mask_eq_exp_minus_1)
  qed
  note st1 = law_build [OF Cons.prems(1) n, of w inst]
  have "unat (m_nextOfferId ?st1) + (2 ^ 32 - length (m_playerOffers ?st1)) div 5 < 2 ^ 32 - 1"
    using law_ok [OF Cons.prems(1)]
  proof (cases rule: build_cases [where w = w and inst = inst])
    case none
    then show ?thesis using Cons.prems(2) by simp
  next
    case (made seed roles st')
    have "length (m_playerOffers st') \<le> 2 ^ 32" by (rule sm_ok_length [OF made(8)])
    moreover have "unat (m_nextOfferId st') = unat (m_nextOfferId st) + 1"
      using small made(4) by (simp add: unat_word_ariths)
    ultimately show ?thesis using Cons.prems(2) made(1,10) by simp
  qed
  from Cons.IH [OF st1 this] show ?case by simp
qed

lemma law_try_make: "law st \<Longrightarrow> offer_bound st \<Longrightarrow> law (TryMakeOffers w st)"
  unfolding TryMakeOffers_def by (rule law_build_all) (auto simp: offer_bound_def)

end

lemma bound_core: "finder_core st' = finder_core st \<Longrightarrow> offer_bound st \<Longrightarrow> offer_bound st'"
  by (simp add: finder_fields offer_bound_def)

lemma bound_steady: "lft_ok cls st' \<and> m_nextOfferId st' = m_nextOfferId st \<Longrightarrow> offer_bound st \<Longrightarrow> offer_bound st'"
  by (simp add: offer_bound_def)

definition update_before :: "lft_world \<Rightarrow> u32 \<Rightarrow> LFTManager \<Rightarrow> LFTManager" where
  "update_before w diff st =
     (let st1 = UpdateBotFill w diff st;
          st2 = st1\<lparr>m_queue := filter (\<lambda>entry. GetPlayer w (fst entry) \<noteq> None) (m_queue st1)\<rparr>;
          st3 = fold (tick_rolecheck w diff) (sm_keys (m_rolechecks st2)) st2
      in fold (tick_offer w diff) (sm_keys (m_offers st3)) st3)"

lemma Update_split: "Update_lft w diff st = TryMakeOffers w (update_before w diff st)"
  by (simp add: Update_lft_def update_before_def Let_def)

context finder_base
begin

lemma law_update_before: "law (update_before w diff st)" if "law st" and "knows cls w"
proof -
  note a = law_fill [OF that, of diff]
  note b = law_queue [OF a queue_ok_filter [OF law_queue_ok [OF a]], of "\<lambda>entry. GetPlayer w (fst entry) \<noteq> None"]
  have c: "law (fold (tick_rolecheck w diff) ks ((UpdateBotFill w diff st)\<lparr>m_queue :=
      filter (\<lambda>entry. GetPlayer w (fst entry) \<noteq> None) (m_queue (UpdateBotFill w diff st))\<rparr>))" for ks
    by (rule law_fold [OF law_tick_check b])
  show ?thesis unfolding update_before_def Let_def by (rule law_fold [OF law_tick_offer]) (simp_all add: c del: not_None_eq)
qed

end

context finder_law
begin

lemma law_enqueue_rolecheck:
  assumes "law st" and "offer_bound st" and "check_ok cls rc"
  shows "law (EnqueueRolecheck w rc st)"
proof -
  have "offer_bound (enqueue_checked w rc st)"
    using bound_steady [OF steady.law_enqueue_checked [of cls st "m_nextOfferId st" rc w] assms(2)] law_ok [OF assms(1)] assms(3) by simp
  then show ?thesis
    unfolding EnqueueRolecheck_checked by (rule law_try_make [OF law_enqueue_checked [OF assms(1,3)]])
qed

lemma law_start:
  assumes "law st" and "offer_bound st" and "knows cls w"
  shows "law (StartRolecheck w l insts st)"
  using law_enqueue_rolecheck [OF assms(1,2) law_asked(1) [OF assms(1,3) refl]] law_asked(2) [OF assms(1,3) refl]
  by (simp add: StartRolecheck_def Let_def)

lemma law_cleanup_start:
  assumes "law st" and "offer_bound st" and "knows cls w"
  shows "law (StartRolecheck w l insts (CleanupPlayer w g st))"
proof (rule law_start [OF law_cleanup [OF assms(1)] _ assms(3)])
  show "offer_bound (CleanupPlayer w g st)"
    using bound_steady [OF steady.law_cleanup [of cls st "m_nextOfferId st" w g] assms(2)] law_ok [OF assms(1)] by simp
qed

lemma law_sent: "law st \<Longrightarrow> law (Send w g m st)"
  by (erule law_core) simp

lemma law_queue_join: "law st \<Longrightarrow> offer_bound st \<Longrightarrow> knows cls w \<Longrightarrow> law (HandleQueueJoin w me ps st)"
  by (simp add: HandleQueueJoin_def Let_def law_sent law_cleanup_start split: option.split)

lemma law_stone: "law st \<Longrightarrow> offer_bound st \<Longrightarrow> knows cls w \<Longrightarrow> law (JoinFromMeetingStone w me area st)"
  by (simp add: JoinFromMeetingStone_def Let_def law_sent law_cleanup_start split: option.split)

lemma law_queue_leave:
  assumes "law st" and "offer_bound st"
  shows "law (HandleQueueLeave w me st)"
proof -
  have "offer_bound (CancelOffer w i ra rg ro st)" for i ra rg ro
    using bound_steady [OF steady.law_cancel [of cls st "m_nextOfferId st" w i ra rg ro] assms(2)] law_ok [OF assms(1)] by simp
  then show ?thesis
    using assms(1) by (auto simp: HandleQueueLeave_def law_cancel_check law_cancel intro: law_try_make law_fold law_leave split: option.split)
qed

lemma law_response:
  assumes "law st" and "offer_bound st" and "knows cls w"
  shows "law (HandleRolecheckResponse w me ps st)"
proof (cases "length ps < 2 \<or> rolecheck_with me st = None")
  case True
  then show ?thesis using assms(1) by (auto simp: HandleRolecheckResponse_def Let_def split: option.split)
next
  case False
  then obtain key rc0 where rc0: "rolecheck_with me st = Some (key, rc0)" and len: "\<not> length ps < 2" by auto
  show ?thesis
  proof (cases "lw_player w me")
    case None
    then show ?thesis using assms(1) by (simp add: HandleRolecheckResponse_def)
  next
    case (Some p)
    let ?mask = "ParseRoleMask (ps ! 1) AND AllowedRoleMask (lp_class p)"
    let ?rc = "rc0\<lparr>rc_responses := sm_put me ?mask (rc_responses rc0)\<rparr>"
    let ?st1 = "st\<lparr>m_rolechecks := sm_put key ?rc (m_rolechecks st)\<rparr>"
    note ok = lft_okD(2) [OF law_ok [OF assms(1)]]
    have "(key, rc0) \<in> set (m_rolechecks st)" using rc0 by (auto simp: rolecheck_with_def find_Some_iff)
    then have "check_ok cls rc0" using ok by (auto simp: checks_ok_def list_all_iff)
    moreover have "allowed cls me ?mask" using knowsD [OF assms(3) Some] by (simp add: allowed_and)
    ultimately have rc: "check_ok cls ?rc" by (simp add: check_ok_def list_all_put_intro)
    have st1: "law ?st1" by (rule law_checks [OF assms(1) checks_ok_put [OF ok rc]])
    have sent: "finder_core (fold (\<lambda>guid st. if GetPlayer w guid = None then st else Send w guid line st) gs st') = finder_core st'" for line gs st'
      by (rule core_fold) simp
    have st2: "law (fold (\<lambda>guid st. if GetPlayer w guid = None then st else Send w guid line st) gs ?st1)" for line gs
      by (rule law_core [OF st1 sent])
    have gone: "law ((fold (\<lambda>guid st. if GetPlayer w guid = None then st else Send w guid line st) gs ?st1)\<lparr>m_rolechecks :=
        sm_erase key (m_rolechecks (fold (\<lambda>guid st. if GetPlayer w guid = None then st else Send w guid line st) gs ?st1))\<rparr>)" for line gs
      by (rule law_checks [OF st2 checks_ok_erase [OF lft_okD(2) [OF law_ok [OF st2]]]])
    have bound: "offer_bound ((fold (\<lambda>guid st. if GetPlayer w guid = None then st else Send w guid line st) gs ?st1)\<lparr>m_rolechecks := rcs\<rparr>)"
      for line gs rcs using assms(2) sent [of _ gs ?st1] by (simp add: offer_bound_def finder_fields)
    show ?thesis
      using len rc0 Some st2 law_enqueue_rolecheck [OF gone bound rc] assms(1) by (simp add: HandleRolecheckResponse_def Let_def)
  qed
qed

lemma law_addon:
  assumes "law st" and "offer_bound st" and "knows cls w"
  shows "law (fst (HandleAddonMessage w me ty raw st))"
proof -
  let ?st1 = "EnsureListingsLoaded w st"
  have st1: "law ?st1" "offer_bound ?st1" by (auto intro: law_core [OF assms(1)] bound_core [OF _ assms(2)])
  have board: "law st'" if "finder_core st' = finder_core ?st1" for st' by (rule law_core [OF st1(1) that])
  show ?thesis
    using assms(1) st1 board [OF refl]
    by (simp add: HandleAddonMessage_def Let_def board board_core law_queue_join law_queue_leave law_response law_handle_accept assms(3))
qed

lemma law_update:
  assumes "law st" and "offer_bound st" and "knows cls w"
  shows "law (Update_lft w diff st)"
proof -
  have "offer_bound (update_before w diff st)"
    using bound_steady [OF steady.law_update_before [of cls st "m_nextOfferId st" w diff] assms(2)] law_ok [OF assms(1)] assms(3) by simp
  then show ?thesis unfolding Update_split by (rule law_try_make [OF law_update_before [OF assms(1,3)]])
qed

lemma law_logout: "law (OnPlayerLogout_lft w g st)" if "law st"
proof -
  have "law (CleanupPlayer w g (EnsureListingsLoaded w st))" by (rule law_cleanup, rule law_core [OF that]) simp
  then show ?thesis by (rule law_core) (simp add: OnPlayerLogout_lft_def Let_def)
qed

end

end
