(* ===== verification/FinderOffers.thy ===== *)
theory FinderOffers
  imports FinderLaws
begin

section \<open>The dungeon finder: from start to end\<close>

text \<open>
  The steps of the manager and its runs from a start, the clock of an offer, what a cancelled offer and a logout leave, whom the
  fill puts into the queue, the signups of a listing in the table, and a party among strangers.
\<close>

subsection \<open>What happens to the manager\<close>

definition fresh_lft :: "(u32, listing_row) smap \<Rightarrow> (u32, lft_group) smap \<Rightarrow> (u32, u8) smap \<Rightarrow> LFTManager" where
  "fresh_lft table gs forced =
     \<lparr>m_lftGroupIds = [], m_listings = [], m_queue = [], m_rolechecks = [], m_offers = [], m_playerOffers = [], m_nextListingId = 1,
      m_nextOfferId = 1, m_nextQueueOrder = 1, m_listingsLoaded = False, m_fillBots = [], m_botFillTimer = 0,
      lf_groups = gs, lf_forced = forced, db_lft_user_groups = table, lf_log = []\<rparr>"

text \<open>
  One step and the milliseconds it takes: a message of a player, a meeting stone, the update, a logout, or the rest
  of the server at work on groups and bots. The clients of players are free to send what they like.
\<close>

inductive finder_step :: "(u32 \<Rightarrow> u32) \<Rightarrow> nat \<Rightarrow> LFTManager \<Rightarrow> LFTManager \<Rightarrow> bool" for cls where
  message: "knows cls w \<Longrightarrow> offer_bound st \<Longrightarrow> finder_step cls 0 st (fst (HandleAddonMessage w me ty raw st))"
| stone: "knows cls w \<Longrightarrow> offer_bound st \<Longrightarrow> finder_step cls 0 st (JoinFromMeetingStone w me area st)"
| update: "knows cls w \<Longrightarrow> offer_bound st \<Longrightarrow> finder_step cls (unat diff) st (Update_lft w diff st)"
| logout: "finder_step cls 0 st (OnPlayerLogout_lft w g st)"
| elsewhere: "finder_step cls 0 st (st\<lparr>lf_groups := gs, lf_forced := forced\<rparr>)"

inductive finder_path :: "(u32 \<Rightarrow> u32) \<Rightarrow> nat \<Rightarrow> LFTManager \<Rightarrow> LFTManager \<Rightarrow> bool" for cls where
  here: "finder_path cls 0 st st"
| further: "finder_path cls ms st st1 \<Longrightarrow> finder_step cls d st1 st2 \<Longrightarrow> finder_path cls (ms + d) st st2"

inductive_cases finder_stepE: "finder_step cls ms st st'"

lemma elsewhere_core: "finder_core (st\<lparr>lf_groups := gs, lf_forced := forced\<rparr>) = finder_core st"
  by (simp add: finder_core_def)

context finder_law
begin

lemma law_step: "finder_step cls ms st st' \<Longrightarrow> law st \<Longrightarrow> law st'"
  by (induction rule: finder_step.induct) (auto intro: law_addon law_stone law_update law_logout law_core elsewhere_core)

lemma law_path: "finder_path cls ms st st' \<Longrightarrow> law st \<Longrightarrow> law st'"
  by (induction rule: finder_path.induct) (auto intro: law_step)

end

lemma fresh_ok: "lft_ok cls (fresh_lft table gs forced)"
  by (simp add: lft_ok_def fresh_lft_def queue_ok_def checks_ok_def offers_ok_def)

lemma path_ok: "finder_path cls ms (fresh_lft table gs forced) st \<Longrightarrow> lft_ok cls st"
  by (rule ok.law_path [OF _ fresh_ok])

subsection \<open>The clock of an offer\<close>

definition ticked :: "u32 \<Rightarrow> Offer option \<Rightarrow> Offer option" where
  "ticked d found = (case found of None \<Rightarrow> None | Some o1 \<Rightarrow> if of_timer o1 \<le> d then None else Some (o1\<lparr>of_timer := of_timer o1 - d\<rparr>))"

lemma CancelOffer_offers: "m_offers (CancelOffer w i ra rg ro st) = sm_erase i (m_offers st)"
proof (cases "sm_find (m_offers st) i")
  case None
  then have "sm_erase i (m_offers st) = m_offers st" by (auto simp: sm_erase_def filter_id_conv map_of_eq_None_iff)
  with None show ?thesis by (simp add: CancelOffer_def)
qed (simp add: CancelOffer_def Let_def cancel_all_fields)

lemma tick_offer_find: "sm_find (m_offers (tick_offer w d j st)) i
    = (if i = j then ticked d (sm_find (m_offers st) i) else sm_find (m_offers st) i)"
  by (simp add: tick_offer_def ticked_def CancelOffer_offers split: option.split)

lemma tick_all_find: "distinct js \<Longrightarrow> sm_find (m_offers (fold (tick_offer w d) js st)) i
    = (if i \<in> set js then ticked d (sm_find (m_offers st) i) else sm_find (m_offers st) i)"
  by (induction js arbitrary: st) (auto simp: tick_offer_find)

lemma age_lawD:
  assumes "age_law cls st0 st" and "sm_find (m_offers st) i = Some o1" and "i < m_nextOfferId st0"
  obtains o0 where "sm_find (m_offers st0) i = Some o0" and "of_timer o1 \<le> of_timer o0"
  using assms old_offersD by (fastforce simp: age_law_def aged_def)

lemma update_ages:
  assumes "lft_ok cls st" and "offer_bound st" and "knows cls w"
    and "sm_find (m_offers (Update_lft w d st)) i = Some o2" and "i < m_nextOfferId st"
  obtains o0 where "sm_find (m_offers st) i = Some o0" and "unat (of_timer o2) + unat d \<le> unat (of_timer o0)"
proof -
  let ?st1 = "UpdateBotFill w d st"
  let ?st2 = "?st1\<lparr>m_queue := filter (\<lambda>entry. GetPlayer w (fst entry) \<noteq> None) (m_queue ?st1)\<rparr>"
  let ?st3 = "fold (tick_rolecheck w d) (sm_keys (m_rolechecks ?st2)) ?st2"
  let ?st4 = "fold (tick_offer w d) (sm_keys (m_offers ?st3)) ?st3"
  have four: "?st4 = update_before w d st" by (simp only: update_before_def Let_def)
  have base: "lft_ok cls st \<and> m_nextOfferId st = m_nextOfferId st" using assms(1) by simp
  have st1: "age_law cls st ?st1" by (rule age.law_fill [OF age_law_refl [OF assms(1)] assms(3)])
  have st2: "age_law cls st ?st2" by (rule age.law_queue [OF st1 queue_ok_filter [OF age.law_queue_ok [OF st1]]])
  have st3: "age_law cls st ?st3" by (rule age.law_fold [OF age.law_tick_check st2])
  have next4: "lft_ok cls ?st4 \<and> m_nextOfferId ?st4 = m_nextOfferId st"
    unfolding four by (rule steady.law_update_before [OF base assms(3)])
  have bound4: "offer_bound ?st4" by (rule bound_steady [OF next4 assms(2)])
  have "age_law cls ?st4 (TryMakeOffers w ?st4)"
    by (rule age.law_try_make [OF age_law_refl [OF conjunct1 [OF next4]] bound4])
  moreover have "sm_find (m_offers (TryMakeOffers w ?st4)) i = Some o2" using assms(4) unfolding Update_split four .
  moreover have "i < m_nextOfferId ?st4" using assms(5) next4 by simp
  ultimately obtain o1 where o1: "sm_find (m_offers ?st4) i = Some o1" "of_timer o2 \<le> of_timer o1" by (rule age_lawD)
  have "sm_ok (m_offers ?st3)" by (rule lft_okD(5) [OF age.law_ok [OF st3]])
  then have "distinct (sm_keys (m_offers ?st3))" by (simp add: sm_ok_distinct sm_keys_def)
  then have "sm_find (m_offers ?st4) i = (if sm_has (m_offers ?st3) i then ticked d (sm_find (m_offers ?st3) i) else sm_find (m_offers ?st3) i)"
    by (simp add: tick_all_find sm_has_keys)
  with o1(1) obtain o3 where o3: "sm_find (m_offers ?st3) i = Some o3" "\<not> of_timer o3 \<le> d" "of_timer o1 = of_timer o3 - d"
    by (auto simp: ticked_def sm_has_def split: option.splits if_splits)
  obtain o0 where o0: "sm_find (m_offers st) i = Some o0" "of_timer o3 \<le> of_timer o0" by (rule age_lawD [OF st3 o3(1) assms(5)])
  have "unat (of_timer o3 - d) = unat (of_timer o3) - unat d" using o3(2) by (intro unat_sub) simp
  moreover have "unat d < unat (of_timer o3)" using o3(2) by (simp add: not_le word_less_nat_alt)
  ultimately have "unat (of_timer o2) + unat d \<le> unat (of_timer o0)"
    using o0(2) o1(2) o3(3) by (simp add: word_le_nat_alt)
  with o0(1) show thesis by (rule that)
qed

lemma step_ages:
  assumes "finder_step cls ms st st'" and "lft_ok cls st" and "sm_find (m_offers st') i = Some o2" and "i < m_nextOfferId st"
  obtains o0 where "sm_find (m_offers st) i = Some o0" and "unat (of_timer o2) + ms \<le> unat (of_timer o0)"
proof (cases "\<exists>w d. st' = Update_lft w d st \<and> ms = unat d \<and> knows cls w \<and> offer_bound st")
  case True
  then obtain w d where "st' = Update_lft w d st" "ms = unat d" "knows cls w" "offer_bound st" by blast
  then show thesis using update_ages [OF assms(2) _ _ _ assms(4)] assms(3) that by metis
next
  case False
  then have "ms = 0" using assms(1) by (auto elim!: finder_stepE)
  moreover have "age_law cls st st'" by (rule age.law_step [OF assms(1) age_law_refl [OF assms(2)]])
  ultimately show thesis using age_lawD [OF _ assms(3,4)] that by (metis add_0_right word_le_nat_alt)
qed

lemma path_ages:
  assumes "finder_path cls ms st st'" and "lft_ok cls st" and "sm_find (m_offers st') i = Some o2" and "i < m_nextOfferId st"
  shows "\<exists>o0. sm_find (m_offers st) i = Some o0 \<and> unat (of_timer o2) + ms \<le> unat (of_timer o0)"
  using assms
proof (induction arbitrary: o2 rule: finder_path.induct)
  case (here st)
  then show ?case by simp
next
  case (further ms st st1 d st2)
  have age: "age_law cls st st1" by (rule age.law_path [OF further.hyps(1) age_law_refl [OF further.prems(1)]])
  then have "lft_ok cls st1" "i < m_nextOfferId st1" using further.prems(3) by (auto simp: age_law_def)
  then obtain o1 where o1: "sm_find (m_offers st1) i = Some o1" "unat (of_timer o2) + d \<le> unat (of_timer o1)"
    using step_ages [OF further.hyps(2) _ further.prems(2)] by metis
  from further.IH [OF further.prems(1) o1(1) further.prems(3)] o1(2) show ?case by fastforce
qed

subsection \<open>Whom a cancelled offer leaves in the queue\<close>

definition stays_queued :: "Offer \<Rightarrow> bool \<Rightarrow> u32 \<Rightarrow> bool \<Rightarrow> u32 \<Rightarrow> bool" where
  "stays_queued o1 requeueAccepted removeGuid requeueOthers g \<longleftrightarrow>
     requeueAccepted \<and> g \<noteq> removeGuid \<and> (requeueOthers \<or> sm_has (of_accepted o1) g)"

definition unassigned :: "QueuedPlayer \<Rightarrow> QueuedPlayer" where
  "unassigned q = q\<lparr>qp_assignedRole := PickRole (qp_roleMask q) 0 0 0\<rparr>"

lemma cancel_one_find: "sm_find (m_queue (cancel_one w o1 ra rg ro g st)) k
    = (if k \<noteq> g then sm_find (m_queue st) k
       else if stays_queued o1 ra rg ro g then map_option unassigned (sm_find (m_queue st) g) else None)"
  by (auto simp: cancel_one_def Let_def stays_queued_def unassigned_def split: option.splits)

lemma cancel_all_find: "distinct gs \<Longrightarrow> sm_find (m_queue (fold (cancel_one w o1 ra rg ro) gs st)) k
    = (if k \<notin> set gs then sm_find (m_queue st) k
       else if stays_queued o1 ra rg ro k then map_option unassigned (sm_find (m_queue st) k) else None)"
  by (induction gs arbitrary: st) (auto simp: cancel_one_find)

lemma CancelOffer_fields: "m_rolechecks (CancelOffer w i ra rg ro st) = m_rolechecks st"
  by (simp add: CancelOffer_def Let_def cancel_all_fields split: option.split)

lemma CancelOffer_find:
  assumes "lft_ok cls st" and "sm_find (m_offers st) i = Some o1"
  shows "sm_find (m_queue (CancelOffer w i ra rg ro st)) g
      = (if \<not> sm_has (of_roles o1) g then sm_find (m_queue st) g
         else if stays_queued o1 ra rg ro g then map_option unassigned (sm_find (m_queue st) g) else None)"
    and "sm_find (m_playerOffers (CancelOffer w i ra rg ro st)) g
      = (if sm_has (of_roles o1) g then None else sm_find (m_playerOffers st) g)"
proof -
  have "sm_ok (of_roles o1)"
    using offers_okD(3) [OF lft_okD(3) [OF assms(1)] assms(2)] by (simp add: offer_ok_def full_party_def)
  then have "distinct (sm_keys (of_roles o1))" by (simp add: sm_ok_distinct sm_keys_def)
  then show "sm_find (m_queue (CancelOffer w i ra rg ro st)) g
      = (if \<not> sm_has (of_roles o1) g then sm_find (m_queue st) g
         else if stays_queued o1 ra rg ro g then map_option unassigned (sm_find (m_queue st) g) else None)"
    using assms(2) by (simp add: CancelOffer_def Let_def cancel_all_find sm_has_keys)
  have "sm_find (fold sm_erase ks m) g = (if g \<in> set ks then None else sm_find m g)" for ks and m :: "(u32, u32) smap"
    by (induction ks arbitrary: m) auto
  then show "sm_find (m_playerOffers (CancelOffer w i ra rg ro st)) g
      = (if sm_has (of_roles o1) g then None else sm_find (m_playerOffers st) g)"
    using assms(2) by (simp add: CancelOffer_def Let_def cancel_all_fields sm_has_keys)
qed

subsection \<open>A logout\<close>

lemma CancelRolecheck_checks: "m_rolechecks (CancelRolecheck w k st) = sm_erase k (m_rolechecks st)"
proof (cases "sm_find (m_rolechecks st) k")
  case None
  then have "sm_erase k (m_rolechecks st) = m_rolechecks st" by (auto simp: sm_erase_def filter_id_conv map_of_eq_None_iff)
  with None show ?thesis by (simp add: CancelRolecheck_def)
next
  case (Some rc)
  have "m_rolechecks (fold (\<lambda>guid. SendQueueLeft w guid (name_of w guid)) gs st) = m_rolechecks st" for gs
    by (rule fold_field) simp
  with Some show ?thesis by (simp add: CancelRolecheck_def Let_def)
qed

lemma CancelRolecheck_fields: "m_queue (CancelRolecheck w k st) = m_queue st" "m_playerOffers (CancelRolecheck w k st) = m_playerOffers st"
  "m_offers (CancelRolecheck w k st) = m_offers st" "m_listingsLoaded (CancelRolecheck w k st) = m_listingsLoaded st"
proof -
  have "m_queue (fold (\<lambda>guid. SendQueueLeft w guid (name_of w guid)) gs st) = m_queue st"
    "m_playerOffers (fold (\<lambda>guid. SendQueueLeft w guid (name_of w guid)) gs st) = m_playerOffers st"
    "m_offers (fold (\<lambda>guid. SendQueueLeft w guid (name_of w guid)) gs st) = m_offers st"
    "m_listingsLoaded (fold (\<lambda>guid. SendQueueLeft w guid (name_of w guid)) gs st) = m_listingsLoaded st" for gs
    by (rule fold_field, simp)+
  then show "m_queue (CancelRolecheck w k st) = m_queue st" "m_playerOffers (CancelRolecheck w k st) = m_playerOffers st"
    "m_offers (CancelRolecheck w k st) = m_offers st" "m_listingsLoaded (CancelRolecheck w k st) = m_listingsLoaded st"
    by (simp_all add: CancelRolecheck_def Let_def split: option.split)
qed

lemma checks_dropped:
  "m_rolechecks (fold (\<lambda>e st. if g \<in> set (rc_members (snd e)) then CancelRolecheck w (fst e) st else st) es st)
    = filter (\<lambda>e. fst e \<notin> fst ` {x \<in> set es. g \<in> set (rc_members (snd x))}) (m_rolechecks st)"
  by (induction es arbitrary: st) (auto simp: CancelRolecheck_checks sm_erase_def intro!: filter_cong)

lemma checks_dropped_fields:
  fixes w g es st
  defines "st' \<equiv> fold (\<lambda>e st. if g \<in> set (rc_members (snd e)) then CancelRolecheck w (fst e) st else st) es st"
  shows "m_queue st' = m_queue st" and "m_playerOffers st' = m_playerOffers st" and "m_offers st' = m_offers st"
    and "m_listingsLoaded st' = m_listingsLoaded st"
  unfolding st'_def by (rule fold_field, simp add: CancelRolecheck_fields)+

lemma kept_by: "list_all (\<lambda>e. \<not> Q e) (filter (\<lambda>e. fst e \<notin> fst ` {x \<in> set es. Q x}) es)"
  by (force simp: list_all_iff)

lemma Cleanup_clears:
  assumes "lft_ok cls st"
  shows "sm_find (m_queue (CleanupPlayer w g st)) g = None" and "sm_find (m_playerOffers (CleanupPlayer w g st)) g = None"
    and "list_all (\<lambda>e. g \<notin> set (rc_members (snd e))) (m_rolechecks (CleanupPlayer w g st))"
    and "m_listingsLoaded (CleanupPlayer w g st) = m_listingsLoaded st"
proof -
  let ?st1 = "st\<lparr>m_queue := sm_erase g (m_queue st)\<rparr>"
  let ?st2 = "case sm_find (m_playerOffers ?st1) g of None \<Rightarrow> ?st1 | Some i \<Rightarrow> CancelOffer w i True g True ?st1"
  have run: "CleanupPlayer w g st = fold (\<lambda>e st. if g \<in> set (rc_members (snd e)) then CancelRolecheck w (fst e) st else st) (m_rolechecks ?st2) ?st2"
    by (simp add: CleanupPlayer_def Let_def)
  have ok1: "lft_ok cls ?st1" by (rule ok.law_queue [OF assms queue_ok_erase [OF lft_okD(1) [OF assms]]])
  have "sm_find (m_queue ?st2) g = None \<and> sm_find (m_playerOffers ?st2) g = None"
  proof (cases "sm_find (m_playerOffers ?st1) g")
    case None
    then show ?thesis by simp
  next
    case (Some i)
    then obtain o1 where o1: "sm_find (m_offers ?st1) i = Some o1" "sm_has (of_roles o1) g"
      using lft_okD(3) [OF ok1] by (auto simp: offers_ok_def split: option.splits)
    with Some show ?thesis by (simp only: option.case CancelOffer_find [OF ok1 o1(1)]) simp
  qed
  then show "sm_find (m_queue (CleanupPlayer w g st)) g = None" "sm_find (m_playerOffers (CleanupPlayer w g st)) g = None"
    by (simp_all only: run checks_dropped_fields)
  show "list_all (\<lambda>e. g \<notin> set (rc_members (snd e))) (m_rolechecks (CleanupPlayer w g st))"
    unfolding run checks_dropped by (rule kept_by)
  have "m_listingsLoaded (fold (cancel_one w o1 ra rg ro) gs st') = m_listingsLoaded st'" for o1 ra rg ro gs st'
    by (rule fold_field) (simp add: cancel_one_def Let_def split: option.split)
  then have "m_listingsLoaded (CancelOffer w i ra rg ro st') = m_listingsLoaded st'" for i ra rg ro st'
    by (simp add: CancelOffer_def Let_def split: option.split)
  then have "m_listingsLoaded ?st2 = m_listingsLoaded st" by (simp split: option.split)
  then show "m_listingsLoaded (CleanupPlayer w g st) = m_listingsLoaded st" by (simp only: run checks_dropped_fields)
qed

lemma listings_dropped:
  "m_listings (fold (\<lambda>e st. if li_creatorGuid (snd e) = g
      then (DeleteListingFromDB (li_id (snd e)) st)\<lparr>m_listings := sm_erase (fst e) (m_listings st)\<rparr> else st) es st)
    = filter (\<lambda>e. fst e \<notin> fst ` {x \<in> set es. li_creatorGuid (snd x) = g}) (m_listings st)"
  by (induction es arbitrary: st) (auto simp: sm_erase_def intro!: filter_cong)

lemma drop_listings_clears: "list_all (\<lambda>e. li_creatorGuid (snd e) \<noteq> g) (m_listings (drop_listings_of g st))"
  unfolding drop_listings_of_def listings_dropped by (rule kept_by)

lemma Broadcast_listings: "m_listingsLoaded st \<Longrightarrow> m_listings (BroadcastGroupsList w st) = m_listings st"
proof -
  have "m_listings (fold (\<lambda>entry st. if CanPlayerSeeListing w g (snd entry)
      then Send w g (''S2C_GROUPS_LIST_UPDATE;'' @ BuildListingJson (snd entry)) st else st) ls st') = m_listings st'"
    for g and ls :: "(u32, Listing) smap" and st' by (rule fold_field) simp
  then have "m_listings (SendGroupsList w g st') = m_listings st'" for g st' by (simp add: SendGroupsList_def)
  then have "m_listings (fold (SendGroupsList w) gs st') = m_listings st'" for gs st' by (rule fold_field)
  then show "m_listingsLoaded st \<Longrightarrow> m_listings (BroadcastGroupsList w st) = m_listings st"
    by (simp add: BroadcastGroupsList_def EnsureListingsLoaded_def)
qed

lemma drop_listings_loaded: "m_listingsLoaded (drop_listings_of g st) = m_listingsLoaded st"
  unfolding drop_listings_of_def by (rule fold_field) (simp add: DeleteListingFromDB_def)

lemma logout_cleared:
  assumes "lft_ok cls st"
  shows "\<not> sm_has (m_queue (OnPlayerLogout_lft w g st)) g" and "\<not> sm_has (m_playerOffers (OnPlayerLogout_lft w g st)) g"
    and "list_all (\<lambda>e. \<not> sm_has (of_roles (snd e)) g) (m_offers (OnPlayerLogout_lft w g st))"
    and "list_all (\<lambda>e. g \<notin> set (rc_members (snd e))) (m_rolechecks (OnPlayerLogout_lft w g st))"
    and "list_all (\<lambda>e. li_creatorGuid (snd e) \<noteq> g) (m_listings (OnPlayerLogout_lft w g st))"
proof -
  let ?loaded = "EnsureListingsLoaded w st"
  let ?st1 = "CleanupPlayer w g ?loaded"
  let ?st2 = "drop_listings_of g ?st1"
  let ?st = "OnPlayerLogout_lft w g st"
  have ok0: "lft_ok cls ?loaded" by (rule ok.law_core [OF assms]) simp
  have core: "finder_core ?st = finder_core ?st1" by (simp add: OnPlayerLogout_lft_def Let_def)
  note clear = Cleanup_clears [OF ok0, where w = w and g = g]
  show "\<not> sm_has (m_queue ?st) g" "\<not> sm_has (m_playerOffers ?st) g"
    "list_all (\<lambda>e. g \<notin> set (rc_members (snd e))) (m_rolechecks ?st)"
    using clear core by (simp_all add: sm_has_def finder_fields)
  have ok: "lft_ok cls ?st" by (rule ok.law_logout [OF assms])
  show "list_all (\<lambda>e. \<not> sm_has (of_roles (snd e)) g) (m_offers ?st)"
  proof (unfold list_all_iff, intro ballI notI)
    fix e
    assume e: "e \<in> set (m_offers ?st)" "sm_has (of_roles (snd e)) g"
    then have "sm_find (m_offers ?st) (fst e) = Some (snd e)" using sm_find_in [OF lft_okD(5) [OF ok]] by simp
    then have "sm_find (m_playerOffers ?st) g = Some (fst e)" using offers_okD(4) [OF lft_okD(3) [OF ok]] e(2) by blast
    then show False using clear(2) core by (simp add: finder_fields)
  qed
  have "m_listingsLoaded ?loaded" by (simp add: EnsureListingsLoaded_def)
  then have "m_listingsLoaded ?st2" using clear(4) by (simp add: drop_listings_loaded)
  then have "m_listings ?st = m_listings ?st2" by (simp add: OnPlayerLogout_lft_def Let_def Broadcast_listings)
  then show "list_all (\<lambda>e. li_creatorGuid (snd e) \<noteq> g) (m_listings ?st)" by (simp add: drop_listings_clears)
qed

subsection \<open>Filling ends\<close>

lemma fill_turn_less: "fill_turn w inst waiter covered st = Some (covered', st') \<Longrightarrow> fill_turns covered' < fill_turns covered"
  by (cases covered) (auto simp: fill_turn_def fill_turns_def wanted_role_def Let_def split: if_splits option.splits prod.splits)

lemma fill_loop_enough:
  "fill_turns covered \<le> n \<Longrightarrow> fill_loop w inst waiter n covered st = fill_loop w inst waiter (fill_turns covered) covered st"
proof (induction n arbitrary: covered st rule: less_induct)
  case (less n)
  show ?case
  proof (cases "fill_turn w inst waiter covered st")
    case None
    then show ?thesis by (cases n; cases "fill_turns covered") simp_all
  next
    case (Some r)
    obtain covered' st' where r: "r = (covered', st')" by (cases r)
    have lt: "fill_turns covered' < fill_turns covered" by (rule fill_turn_less [OF Some [unfolded r]])
    then obtain k m where k: "fill_turns covered = Suc k" "n = Suc m" using less.prems by (metis Suc_le_D less_imp_Suc_add)
    have "fill_loop w inst waiter m covered' st' = fill_loop w inst waiter (fill_turns covered') covered' st'"
      using lt k less.prems by (intro less.IH) auto
    moreover have "fill_loop w inst waiter k covered' st' = fill_loop w inst waiter (fill_turns covered') covered' st'"
      using lt k less.prems by (cases "k = n") (auto intro!: less.IH)
    ultimately show ?thesis by (simp add: k Some r)
  qed
qed

subsection \<open>Who fills\<close>

text \<open>A queue entry that was put there to fill the party of \<open>waiter\<close>.\<close>

definition filler :: "lft_world \<Rightarrow> string \<Rightarrow> QueuedPlayer \<Rightarrow> u32 \<Rightarrow> QueuedPlayer \<Rightarrow> bool" where
  "filler w inst waiter g q = (qp_instances q = [inst] \<and> qp_queueLeaderGuid q = 0 \<and> role_ok (qp_roleMask q)
     \<and> (case lw_player w g of None \<Rightarrow> False
        | Some p \<Rightarrow> lp_inWorld p \<and> lp_alive p \<and> Script_IsAIControlled p \<and> IsRandomBotAccount p \<and> \<not> lp_battleground p
            \<and> lp_team p = qp_team waiter \<and> AllowedRoleMask (lp_class p) AND qp_roleMask q \<noteq> 0
            \<and> level_fits (lp_level p) (qp_level waiter)
                (if qp_roleMask q = LFT_ROLE_HEALER then lw_belowHealer w else lw_below w) (lw_above w)))"

definition filled_from :: "lft_world \<Rightarrow> string \<Rightarrow> QueuedPlayer \<Rightarrow> LFTManager \<Rightarrow> LFTManager \<Rightarrow> bool" where
  "filled_from w inst waiter st0 st \<longleftrightarrow> (\<forall>g. if sm_has (m_queue st0) g then sm_find (m_queue st) g = sm_find (m_queue st0) g
     else case sm_find (m_queue st) g of None \<Rightarrow> True | Some q \<Rightarrow> filler w inst waiter g q \<and> IsFillBot st g)"

lemma filled_fromD:
  assumes "filled_from w inst waiter st0 st"
  shows "sm_has (m_queue st0) g \<Longrightarrow> sm_find (m_queue st) g = sm_find (m_queue st0) g"
    and "\<not> sm_has (m_queue st0) g \<Longrightarrow> sm_find (m_queue st) g = Some q \<Longrightarrow> filler w inst waiter g q \<and> IsFillBot st g"
  using spec [OF assms [unfolded filled_from_def], of g] by simp_all

lemma choose_bot_fillBots:
  assumes "choose_bot w wanted waiter st = (st', found)"
  shows "m_fillBots st' = m_fillBots st"
proof -
  have respec: "m_fillBots (fst (respec_first w wanted waiter lower upper gs st)) = m_fillBots st" for wanted lower upper gs st
    by (induction gs arbitrary: st) (simp_all add: Let_def)
  have "m_fillBots (RemoveFromGroup w g st) = m_fillBots st" for g
    by (simp add: RemoveFromGroup_def Let_def split: option.split)
  then have "m_fillBots (fst (choose_bot w wanted waiter st)) = m_fillBots st"
    by (simp add: choose_bot_def TakeFromBotOnlyGroup_def TakeBotAndRespecFor_def respec Let_def split: option.split)
  with assms show ?thesis by simp
qed

lemma fill_turn_filled:
  assumes "filled_from w inst waiter st0 st" and "fill_turn w inst waiter covered st = Some (covered', st')"
  shows "filled_from w inst waiter st0 st'"
proof -
  obtain t h d n where c: "covered = (t, h, d, n)" by (cases covered) auto
  let ?wanted = "wanted_role t h d"
  obtain st1 found where chosen: "choose_bot w ?wanted waiter st = (st1, found)" by fastforce
  have same: "m_queue st1 = m_queue st" "m_fillBots st1 = m_fillBots st"
    using choose_bot_fit(1) [OF chosen] choose_bot_fillBots [OF chosen] by (simp_all add: finder_fields)
  then have st1: "filled_from w inst waiter st0 st1" using assms(1) by (simp only: filled_from_def IsFillBot_def same)
  have role: "role_ok ?wanted" using assms(2) by (auto simp: c fill_turn_def Let_def intro: wanted_role_ok split: if_splits)
  show ?thesis
  proof (cases found)
    case None
    then have "st' = st1" using assms(2) chosen by (auto simp: c fill_turn_def Let_def split: if_splits)
    then show ?thesis using st1 by simp
  next
    case (Some g)
    have fit: "fit_bot w ?wanted waiter st g" using choose_bot_fit(2) [OF chosen] Some by simp
    then obtain p where p: "lw_player w g = Some p" "\<not> sm_has (m_queue st) g" by (auto simp: fit_bot_def may_fill_def split: option.splits)
    have new: "\<not> sm_has (m_queue st0) g"
    proof
      assume "sm_has (m_queue st0) g"
      with filled_fromD(1) [OF assms(1) this] p(2) show False by (simp add: sm_has_def)
    qed
    have st': "st' = enqueue_fill w inst g ?wanted st1"
      using assms(2) chosen Some by (auto simp: c fill_turn_def Let_def split: if_splits)
    obtain q where q: "m_queue st' = sm_put g q (m_queue st1)" "filler w inst waiter g q"
      using fit role p(1) by (auto simp: st' enqueue_fill_def EnqueuePlayer_def Let_def filler_def fit_bot_def may_fill_def)
    have bots: "IsFillBot st' k \<longleftrightarrow> k = g \<or> IsFillBot st1 k" for k
      using p(1) by (simp add: st' enqueue_fill_def EnqueuePlayer_def Let_def IsFillBot_def)
    show ?thesis
      unfolding filled_from_def
    proof
      fix k
      show "if sm_has (m_queue st0) k then sm_find (m_queue st') k = sm_find (m_queue st0) k
        else case sm_find (m_queue st') k of None \<Rightarrow> True | Some q \<Rightarrow> filler w inst waiter k q \<and> IsFillBot st' k"
        using new q bots filled_fromD [OF st1, of k] by (cases "k = g") (auto split: option.split)
    qed
  qed
qed

lemma fill_loop_filled: "filled_from w inst waiter st0 st \<Longrightarrow> filled_from w inst waiter st0 (fill_loop w inst waiter n covered st)"
  by (induction n arbitrary: covered st) (auto split: option.split prod.splits dest: fill_turn_filled)

lemma fill_filled: "filled_from w inst waiter st (FillInstanceWithBots w inst waiter st)"
  unfolding FillInstanceWithBots_def Let_def
  by (rule fill_loop_filled) (simp add: filled_from_def sm_has_def split: option.split)

subsection \<open>A party whose leader has left\<close>

lemma no_leader_fails:
  assumes "sm_find (m_offers st) i = Some o1" and "of_roles o1 \<noteq> []" and "GetPlayer w (offer_leader o1 st) = None"
  shows "CompleteOffer w i st = (CancelOffer w i False 0 False st, False)"
proof -
  obtain g gs where "sm_keys (of_roles o1) = g # gs" using assms(2) by (cases "of_roles o1") (auto simp: sm_keys_def)
  moreover have "AddPlayerToGroup w None (offer_leader o1 st) g st = (st, None, False)"
    using assms(3) by (simp add: AddPlayerToGroup_def split: option.split)
  ultimately have "add_all w (offer_leader o1 st) (sm_keys (of_roles o1)) None st = (st, False)" by simp
  then show ?thesis using assms(1) by (simp add: CompleteOffer_def)
qed

lemma CancelOffer_groups: "lf_groups (CancelOffer w i ra rg ro st) = lf_groups st"
proof -
  have "lf_groups (fold (cancel_one w o1 ra rg ro) gs st) = lf_groups st" for o1 gs
    by (rule fold_field) (simp add: cancel_one_def Let_def split: option.split)
  then show ?thesis by (simp add: CancelOffer_def Let_def split: option.split)
qed

subsection \<open>A bot whose party is complete\<close>

lemma drop_fill_bot_fields:
  "m_playerOffers (drop_fill_bot w k st) = m_playerOffers st"
  "\<not> sm_has (m_queue st) g \<Longrightarrow> \<not> sm_has (m_queue (drop_fill_bot w k st)) g"
  "k \<noteq> g \<Longrightarrow> sm_find (lf_forced (drop_fill_bot w k st)) g = sm_find (lf_forced st) g"
  "sm_find (lf_forced st) g = Some 0 \<Longrightarrow> sm_find (lf_forced (drop_fill_bot w k st)) g = Some 0"
  by (auto simp: drop_fill_bot_def Let_def Script_SetForcedRole_def sm_has_def split: option.split)

lemma fill_bots_reset:
  assumes "\<not> sm_has (m_queue st) g" and "\<not> sm_has (m_playerOffers st) g" and "GetPlayer w g \<noteq> None"
    and "g \<in> set ks \<or> sm_find (lf_forced st) g = Some 0"
  shows "sm_find (lf_forced (fold (drop_fill_bot w) ks st)) g = Some 0"
  using assms
proof (induction ks arbitrary: st)
  case Nil
  then show ?case by simp
next
  case (Cons k ks)
  have "sm_find (lf_forced (drop_fill_bot w g st)) g = Some 0"
    using Cons.prems(1-3) by (auto simp: drop_fill_bot_def Let_def Script_SetForcedRole_def sm_has_def split: option.split)
  then have "g \<in> set ks \<or> sm_find (lf_forced (drop_fill_bot w k st)) g = Some 0"
    using Cons.prems(4) drop_fill_bot_fields(4) by auto
  from Cons.IH [OF drop_fill_bot_fields(2) [OF Cons.prems(1)] _ Cons.prems(3) this] show ?case
    using Cons.prems(2) by (simp add: drop_fill_bot_fields(1))
qed

subsection \<open>The signups of a listing in the table\<close>

definition plain_field :: "string \<Rightarrow> bool" where
  "plain_field v \<longleftrightarrow> CHR ''|'' \<notin> set v \<and> CHR '';'' \<notin> set v \<and> CHR 0x5C \<notin> set v"

definition plain_signup :: "ListingSignup \<Rightarrow> bool" where
  "plain_signup s \<longleftrightarrow> plain_field (ls_name s) \<and> plain_field (ls_className s)"

lemma Escape_plain: "plain_field v \<Longrightarrow> EscapeListingField v = v"
  by (induction v) (auto simp: EscapeListingField_def plain_field_def)

lemma split_piece: "CHR 0x5C \<notin> set v \<Longrightarrow> d \<notin> set v \<Longrightarrow> d \<noteq> CHR 0x5C
    \<Longrightarrow> split_escaped cur False (v @ d # rest) d = (cur @ v) # split_escaped [] False rest d"
  by (induction v arbitrary: cur) auto

lemma split_last: "CHR 0x5C \<notin> set v \<Longrightarrow> d \<notin> set v \<Longrightarrow> split_escaped cur False v d = [cur @ v]"
  by (induction v arbitrary: cur) auto

lemma dec_digit: "c \<in> set (dec_nat n) \<Longrightarrow> is_digit c"
  using dec_nat_digits [of n] by (auto simp: list_all_iff)

lemma digit_not: "is_digit c \<Longrightarrow> c \<notin> {CHR ''|'', CHR '';'', CHR 0x5C, CHR '' '', CHR ''-'', CHR ''+''} \<and> \<not> (CHR 0x09 \<le> c \<and> c \<le> CHR 0x0D)"
  by (auto simp: is_digit_def less_eq_char_def)

lemma to_string_plain: "plain_field (to_string n)"
  using digit_not [OF dec_digit] by (fastforce simp: plain_field_def to_string_def)

lemma strtoul_to_string: "(ucast (strtoul (to_string (n :: u32))) :: u32) = n"
proof -
  let ?v = "dec_nat (unat n)"
  have digits: "is_digit c" if "c \<in> set ?v" for c using dec_digit that .
  have ne: "?v \<noteq> []" by (simp add: dec_nat.simps)
  then have hd: "is_digit (hd ?v)" using digits by simp
  then have blank: "dropWhile (\<lambda>c. c = CHR '' '' \<or> CHR 0x09 \<le> c \<and> c \<le> CHR 0x0D) ?v = ?v"
    using ne digit_not [OF hd] by (cases ?v) auto
  have all: "takeWhile is_digit ?v = ?v" using digits by (simp add: takeWhile_eq_all_conv)
  have sign: "take 1 ?v \<noteq> ''-''" "take 1 ?v \<noteq> ''+''" using ne digit_not [OF hd] by (cases ?v; auto)+
  have "unat n < 2 ^ 64" by (rule order_less_le_trans [OF unsigned_less]) simp
  then have "strtoul ?v = of_nat (unat n)"
    using sign by (simp add: strtoul_def Let_def digits_value_dec blank all)
  moreover have "(ucast (ucast n :: 64 word) :: u32) = n" by (rule bit_word_eqI) (simp add: bit_simps)
  ultimately show ?thesis by (simp add: to_string_def)
qed

lemma row_plain: "plain_signup s \<Longrightarrow> CHR '';'' \<notin> set (signup_row s) \<and> CHR 0x5C \<notin> set (signup_row s) \<and> signup_row s \<noteq> []"
  using to_string_plain [of "ls_level s"] by (auto simp: signup_row_def Escape_plain plain_signup_def plain_field_def)

lemma read_row: "plain_signup s \<Longrightarrow> read_signup (signup_row s) = Some s"
proof -
  assume plain: "plain_signup s"
  then have "SplitEscaped (signup_row s) CHR ''|'' = [ls_name s, ls_className s, to_string (ls_level s), if ls_confirmed s then ''1'' else ''0'']"
    using to_string_plain [of "ls_level s"]
    by (simp add: signup_row_def SplitEscaped_def Escape_plain plain_signup_def plain_field_def split_piece split_last)
  then show ?thesis using row_plain [OF plain] by (simp add: read_signup_def Let_def strtoul_to_string)
qed

lemma serialize_more: "out \<noteq> [] \<Longrightarrow> fold (\<lambda>s out. (if out = [] then [] else out @ '';'') @ signup_row s) xs out
    = out @ concat (map (\<lambda>s. CHR '';'' # signup_row s) xs)"
  by (induction xs arbitrary: out) auto

lemma split_rows: "list_all plain_signup (s # xs) \<Longrightarrow>
    split_escaped [] False (signup_row s @ concat (map (\<lambda>s. CHR '';'' # signup_row s) xs)) CHR '';'' = map signup_row (s # xs)"
  by (induction xs arbitrary: s) (simp_all add: row_plain split_last split_piece)

lemma signups_back: "list_all plain_signup xs \<Longrightarrow> DeserializeSignups (SerializeSignups xs) = xs"
proof (cases xs)
  case (Cons s ys)
  assume "list_all plain_signup xs"
  then have plain: "list_all plain_signup (s # ys)" by (simp add: Cons)
  then have "SerializeSignups xs = signup_row s @ concat (map (\<lambda>s. CHR '';'' # signup_row s) ys)"
    using serialize_more [of "signup_row s" ys] row_plain [of s] by (simp add: SerializeSignups_def Cons)
  moreover have "List.map_filter read_signup (map signup_row zs) = zs" if "list_all plain_signup zs" for zs
    using that by (induction zs) (simp_all add: read_row map_filter_simps)
  ultimately show ?thesis
    using split_rows [OF plain] plain row_plain [of s] read_row [of s] by (simp add: DeserializeSignups_def SplitEscaped_def Cons)
qed (simp add: SerializeSignups_def DeserializeSignups_def)

subsection \<open>A party among strangers\<close>

text \<open>\<open>g\<close> belongs to another group than \<open>gid\<close>.\<close>

definition other_group :: "LFTManager \<Rightarrow> u32 \<Rightarrow> u32 \<Rightarrow> bool" where
  "other_group st gid g \<longleftrightarrow> (\<exists>k grp. sm_find (lf_groups st) k = Some grp \<and> k \<noteq> gid \<and> g \<in> set (lg_members grp))
     \<and> (case sm_find (lf_groups st) gid of None \<Rightarrow> True | Some grp \<Rightarrow> g \<notin> set (lg_members grp))"

lemma GetGroup_none: "GetGroup st g = None \<Longrightarrow> sm_find (lf_groups st) k = Some grp \<Longrightarrow> g \<notin> set (lg_members grp)"
  by (force simp: GetGroup_def find_None_iff dest: map_of_SomeD)

lemma GetGroup_some: "GetGroup st g = Some (k, grp) \<Longrightarrow> sm_ok (lf_groups st) \<Longrightarrow> sm_find (lf_groups st) k = Some grp \<and> g \<in> set (lg_members grp)"
proof -
  assume some: "GetGroup st g = Some (k, grp)" and ok: "sm_ok (lf_groups st)"
  have "(k, grp) \<in> set (lf_groups st) \<and> g \<in> set (lg_members grp)"
    using some unfolding GetGroup_def find_Some_iff by (metis nth_mem snd_conv)
  then show ?thesis using sm_find_in [OF ok] by simp
qed

lemma Add_known:
  assumes "AddPlayerToGroup w (Some gid) l m st = (st1, grp1, ok)" and "other_group st gid g"
  shows "grp1 = Some gid \<and> other_group st1 gid g \<and> (ok \<longrightarrow> m \<noteq> g)"
proof -
  obtain k gr where k: "sm_find (lf_groups st) k = Some gr" "k \<noteq> gid" "g \<in> set (lg_members gr)" using assms(2) by (auto simp: other_group_def)
  let ?st2 = "st\<lparr>m_lftGroupIds := sm_put gid () (m_lftGroupIds st)\<rparr>"
  have taken: "GetGroup ?st2 g \<noteq> None"
  proof
    assume "GetGroup ?st2 g = None"
    from GetGroup_none [OF this, of k gr] k show False by simp
  qed
  have outcome: "grp1 = Some gid \<and> (lf_groups st1 = lf_groups st \<and> (ok \<longrightarrow> m \<noteq> g)
      \<or> (m \<noteq> g \<and> (\<exists>gr1. sm_find (lf_groups st) gid = Some gr1 \<and> g \<notin> set (lg_members gr1)
           \<and> lf_groups st1 = sm_put gid (gr1\<lparr>lg_members := lg_members gr1 @ [m]\<rparr>) (lf_groups st))))"
  proof (cases "sm_find (lf_groups st) gid")
    case None
    then show ?thesis using assms(1) by (cases "GetPlayer w m") (auto simp: AddPlayerToGroup_def Let_def)
  next
    case (Some gr1)
    then have no: "g \<notin> set (lg_members gr1)" using assms(2) by (simp add: other_group_def)
    show ?thesis
    proof (cases "GetPlayer w m = None \<or> m \<in> set (lg_members gr1) \<or> GetGroup ?st2 m \<noteq> None")
      case True
      then show ?thesis
        using assms(1) Some no by (cases "GetPlayer w m"; cases "m \<in> set (lg_members gr1)") (auto simp: AddPlayerToGroup_def Let_def)
    next
      case False
      then have "m \<noteq> g" using taken by auto
      with False show ?thesis
        using assms(1) Some no by (auto simp: AddPlayerToGroup_def Let_def split: if_splits)
    qed
  qed
  moreover have "other_group st1 gid g" if "lf_groups st1 = lf_groups st" using assms(2) that by (simp add: other_group_def)
  moreover have "other_group st1 gid g" if "m \<noteq> g" "g \<notin> set (lg_members gr1)"
      "lf_groups st1 = sm_put gid (gr1\<lparr>lg_members := lg_members gr1 @ [m]\<rparr>) (lf_groups st)" for gr1
    using that k by (auto simp: other_group_def)
  ultimately show ?thesis by blast
qed

lemma add_all_known:
  "other_group st gid g \<Longrightarrow> g \<in> set ms \<Longrightarrow> snd (add_all w l ms (Some gid) st) = False"
proof (induction ms arbitrary: st)
  case Nil
  then show ?case by simp
next
  case (Cons m ms)
  obtain st1 grp1 ok where step: "AddPlayerToGroup w (Some gid) l m st = (st1, grp1, ok)" by (cases "AddPlayerToGroup w (Some gid) l m st") auto
  from Add_known [OF step Cons.prems(1)] have "grp1 = Some gid" "other_group st1 gid g" "ok \<Longrightarrow> m \<noteq> g" by auto
  with Cons step show ?case by auto
qed

text \<open>The group the leader is in, or gets, is not the one \<open>g\<close> is in.\<close>

definition strangers :: "lft_world \<Rightarrow> LFTManager \<Rightarrow> u32 \<Rightarrow> u32 \<Rightarrow> bool" where
  "strangers w st l g \<longleftrightarrow> sm_ok (lf_groups st) \<and> GetGroup st g \<noteq> None
     \<and> (case GetGroup st l of Some (k, grp) \<Rightarrow> g \<notin> set (lg_members grp)
        | None \<Rightarrow> (case lw_groupId w of None \<Rightarrow> True | Some gid \<Rightarrow> \<not> sm_has (lf_groups st) gid))"

lemma add_all_strangers:
  assumes "strangers w st l g" and "g \<in> set ms"
  shows "snd (add_all w l ms None st) = False"
proof -
  obtain k gr where g: "sm_find (lf_groups st) k = Some gr" "g \<in> set (lg_members gr)"
    using assms(1) GetGroup_some [of st g] by (auto simp: strangers_def)
  obtain m rest where ms: "ms = m # rest" using assms(2) by (cases ms) auto
  show ?thesis
  proof (cases "GetPlayer w m = None \<or> GetPlayer w l = None")
    case True
    then show ?thesis by (auto simp: ms AddPlayerToGroup_def split: option.splits prod.splits)
  next
    case False
    then obtain p lp where p: "GetPlayer w m = Some p" "GetPlayer w l = Some lp" by auto
    show ?thesis
    proof (cases "GetGroup st l")
      case (Some e)
      obtain k1 gr1 where e: "e = (k1, gr1)" by (cases e)
      have k1: "sm_find (lf_groups st) k1 = Some gr1" "g \<notin> set (lg_members gr1)"
        using GetGroup_some [of st l k1 gr1] Some assms(1) by (auto simp: strangers_def e)
      then have "k \<noteq> k1" using g by auto
      then have og: "other_group st k1 g" using g k1 unfolding other_group_def by auto
      have "AddPlayerToGroup w None l m st = AddPlayerToGroup w (Some k1) l m st"
        using p Some by (simp add: AddPlayerToGroup_def e)
      then have "add_all w l ms None st = add_all w l ms (Some k1) st" by (simp add: ms)
      then show ?thesis using add_all_known [OF og assms(2)] by simp
    next
      case None
      show ?thesis
      proof (cases "lw_groupId w")
        case None': None
        then show ?thesis using p None by (simp add: ms AddPlayerToGroup_def)
      next
        case (Some gid)
        let ?st = "st\<lparr>lf_groups := sm_put gid \<lparr>lg_leader = l, lg_members = [l], lg_raid = False\<rparr> (lf_groups st)\<rparr>"
        have fresh: "sm_find (lf_groups st) gid = None" using assms(1) None Some by (simp add: strangers_def sm_has_def)
        have "l \<noteq> g" using GetGroup_none [OF None g(1)] g(2) by auto
        moreover have "k \<noteq> gid" using fresh g(1) by auto
        ultimately have og: "other_group ?st gid g" using g by (auto simp: other_group_def)
        have "AddPlayerToGroup w None l m st = AddPlayerToGroup w (Some gid) l m ?st"
          using p None Some by (simp add: AddPlayerToGroup_def)
        then have "add_all w l ms None st = add_all w l ms (Some gid) ?st" by (simp add: ms)
        then show ?thesis using add_all_known [OF og assms(2)] by simp
      qed
    qed
  qed
qed

lemma strangers_fail:
  assumes "lft_ok cls st" and "sm_find (m_offers st) i = Some o1" and "sm_has (of_roles o1) g" and "strangers w st (offer_leader o1 st) g"
    and "sm_has (of_roles o1) m"
  shows "snd (CompleteOffer w i st) = False" and "sm_find (m_queue (fst (CompleteOffer w i st))) m = None"
    and "sm_find (m_playerOffers (fst (CompleteOffer w i st))) m = None" and "sm_find (m_offers (fst (CompleteOffer w i st))) i = None"
proof -
  obtain st1 ok where run: "add_all w (offer_leader o1 st) (sm_keys (of_roles o1)) None st = (st1, ok)" by fastforce
  then have "ok = False" using add_all_strangers [OF assms(4), of "sm_keys (of_roles o1)"] assms(3) by (simp add: sm_has_keys)
  with run assms(2) have complete: "CompleteOffer w i st = (CancelOffer w i False 0 False st1, False)" by (simp add: CompleteOffer_def)
  note core = add_all_core [OF run]
  have ok1: "lft_ok cls st1" by (rule ok.law_core [OF assms(1) core])
  have o1: "sm_find (m_offers st1) i = Some o1" using core assms(2) by (simp add: finder_fields)
  show "snd (CompleteOffer w i st) = False" "sm_find (m_queue (fst (CompleteOffer w i st))) m = None"
    "sm_find (m_playerOffers (fst (CompleteOffer w i st))) m = None" "sm_find (m_offers (fst (CompleteOffer w i st))) i = None"
    using assms(5) by (simp_all add: complete CancelOffer_find [OF ok1 o1] stays_queued_def CancelOffer_offers)
qed

end
