(* ===== verification/FinderRuns.thy ===== *)
theory FinderRuns
  imports FinderOffers
begin

section \<open>The dungeon finder: properties\<close>

text \<open>The properties of the finder over whole runs, and a run of five players they are tried on.\<close>

subsection \<open>A run: a party of two among three strangers\<close>

definition folk_class :: "u32 \<Rightarrow> u32" where
  "folk_class g = (if g = 1 then 1 else if g = 2 then 5 else 8)"

text \<open>Six players, of whom the sixth is nobody's bot.\<close>

definition folk :: "u32 \<Rightarrow> lft_player option" where
  "folk g = (if g = 0 \<or> g > 6 then None
     else Some \<lparr>lp_name = ''Player'' @ to_string g, lp_class = folk_class g, lp_level = 20, lp_team = 469, lp_hardcore = False,
            lp_inWorld = True, lp_alive = True, lp_ai = (g \<noteq> 6), lp_account = Some ''RNDBOT1'', lp_battleground = False,
            lp_dungeon = None, lp_combat = False, lp_teleporting = False\<rparr>)"

definition folk_world :: lft_world where
  "folk_world = \<lparr>lw_player = folk, lw_online = [1, 2, 3, 4, 5, 6], lw_twoSides = False,
     lw_hardcore = (\<lambda>a b. True), lw_gameTime = 1000, lw_now = 1000, lw_fits = (\<lambda>g role. 7), lw_groupId = Some 10,
     lw_joins = (\<lambda>g. True), lw_heir = (\<lambda>gs. hd gs), lw_fill = False, lw_delay = 30, lw_below = 3, lw_above = 3, lw_belowHealer = 5,
     lw_seedRuns = 0, lw_seedDungeons = [], lw_seedTeleport = False, lw_teles = [], lw_named = (\<lambda>name. None),
     lw_normal = (\<lambda>name. Some name)\<rparr>"

definition says :: "u32 \<Rightarrow> string \<Rightarrow> LFTManager \<Rightarrow> LFTManager" where
  "says me line st = fst (HandleAddonMessage folk_world me 3 (LFT_PREFIX @ [CHR 0x09] @ line) st)"

definition party_formed :: LFTManager where
  "party_formed = fresh_lft [] [(9, \<lparr>lg_leader = 6, lg_members = [6, 5], lg_raid = False\<rparr>)] []"

definition party_asked :: LFTManager where
  "party_asked = says 6 ''C2S_QUEUE_JOIN;rfc;d'' party_formed"

definition party_queued :: LFTManager where
  "party_queued = says 6 ''C2S_ROLECHECK_RESPONSE;d'' party_asked"

definition tank_joined :: LFTManager where
  "tank_joined = says 1 ''C2S_QUEUE_JOIN;rfc;t'' party_queued"

definition healer_joined :: LFTManager where
  "healer_joined = says 2 ''C2S_QUEUE_JOIN;rfc;h'' tank_joined"

definition five_offered :: LFTManager where
  "five_offered = says 3 ''C2S_QUEUE_JOIN;rfc;d'' healer_joined"

lemma folk_known: "knows folk_class folk_world"
  by (simp add: knows_def folk_world_def folk_def)

lemma says_step: "m_nextOfferId st = n \<Longrightarrow> unat n < 3 * 2 ^ 30 \<Longrightarrow> finder_step folk_class 0 st (says me line st)"
  unfolding says_def by (rule finder_step.message [OF folk_known]) (simp add: offer_bound_def)

lemma run_asked: "m_nextOfferId party_asked = 1"
  by code_simp

lemma run_queued: "m_nextOfferId party_queued = 1"
  by code_simp

lemma run_tank: "m_nextOfferId tank_joined = 1"
  by code_simp

lemma run_healer: "m_nextOfferId healer_joined = 1"
  by code_simp

definition run_queue :: "(u32, QueuedPlayer) smap" where
  "run_queue =
    [(1, \<lparr>qp_guid = 1, qp_queueLeaderGuid = 1, qp_name = ''Player1'', qp_className = ''WARRIOR'',
        qp_level = 20, qp_team = 469, qp_isHardcore = False, qp_joinTime = 1000, qp_queueOrder = 3, qp_instances = [''rfc''],
        qp_roleMask = 5, qp_assignedRole = 1\<rparr>),
     (2, \<lparr>qp_guid = 2, qp_queueLeaderGuid = 2, qp_name = ''Player2'', qp_className = ''PRIEST'',
        qp_level = 20, qp_team = 469, qp_isHardcore = False, qp_joinTime = 1000, qp_queueOrder = 4, qp_instances = [''rfc''],
        qp_roleMask = 6, qp_assignedRole = 2\<rparr>),
     (3, \<lparr>qp_guid = 3, qp_queueLeaderGuid = 3, qp_name = ''Player3'', qp_className = ''MAGE'',
        qp_level = 20, qp_team = 469, qp_isHardcore = False, qp_joinTime = 1000, qp_queueOrder = 5, qp_instances = [''rfc''],
        qp_roleMask = 4, qp_assignedRole = 4\<rparr>),
     (5, \<lparr>qp_guid = 5, qp_queueLeaderGuid = 6, qp_name = ''Player5'', qp_className = ''MAGE'',
        qp_level = 20, qp_team = 469, qp_isHardcore = False, qp_joinTime = 1000, qp_queueOrder = 2, qp_instances = [''rfc''],
        qp_roleMask = 4, qp_assignedRole = 4\<rparr>),
     (6, \<lparr>qp_guid = 6, qp_queueLeaderGuid = 6, qp_name = ''Player6'', qp_className = ''MAGE'',
        qp_level = 20, qp_team = 469, qp_isHardcore = False, qp_joinTime = 1000, qp_queueOrder = 1, qp_instances = [''rfc''],
        qp_roleMask = 4, qp_assignedRole = 4\<rparr>)]"

definition run_offer :: Offer where
  "run_offer = \<lparr>of_id = 1, of_instance = ''rfc'', of_roles = [(1, 1), (2, 2), (3, 4), (5, 4), (6, 4)], of_accepted = [], of_timer = 90000\<rparr>"

definition finder_view :: "LFTManager \<Rightarrow> (u32, QueuedPlayer) smap \<times> (u32, Offer) smap \<times> u32 \<times> (u32, lft_group) smap" where
  "finder_view st = (m_queue st, m_offers st, m_nextOfferId st, lf_groups st)"

lemma run_end: "finder_view five_offered
    = (run_queue, [(1, run_offer)], 2, [(9, \<lparr>lg_leader = 6, lg_members = [6, 5], lg_raid = False\<rparr>)])"
  by code_simp

lemma run_fields: "m_queue five_offered = run_queue" "m_offers five_offered = [(1, run_offer)]" "m_nextOfferId five_offered = 2"
  "lf_groups five_offered = [(9, \<lparr>lg_leader = 6, lg_members = [6, 5], lg_raid = False\<rparr>)]"
  using run_end by (simp_all add: finder_view_def)

lemma says_path: "finder_path folk_class 0 st0 st \<Longrightarrow> m_nextOfferId st = 1 \<Longrightarrow> finder_path folk_class 0 st0 (says me line st)"
  using finder_path.further [OF _ says_step, of 0 st0 st 1] by simp

lemma offered_path: "finder_path folk_class 0 (fresh_lft [] [(9, \<lparr>lg_leader = 6, lg_members = [6, 5], lg_raid = False\<rparr>)] []) five_offered"
proof -
  have "finder_path folk_class 0 party_formed party_formed" by (rule finder_path.here)
  moreover have "m_nextOfferId party_formed = 1" by (simp add: party_formed_def fresh_lft_def)
  ultimately have "finder_path folk_class 0 party_formed party_asked" unfolding party_asked_def by (rule says_path)
  then have "finder_path folk_class 0 party_formed party_queued" unfolding party_queued_def by (rule says_path [OF _ run_asked])
  then have "finder_path folk_class 0 party_formed tank_joined" unfolding tank_joined_def by (rule says_path [OF _ run_queued])
  then have "finder_path folk_class 0 party_formed healer_joined" unfolding healer_joined_def by (rule says_path [OF _ run_tank])
  then have "finder_path folk_class 0 party_formed five_offered" unfolding five_offered_def by (rule says_path [OF _ run_healer])
  then show ?thesis by (simp only: party_formed_def)
qed

lemma run_offers: "sm_find (m_offers five_offered) 1 = Some run_offer"
  by (simp add: run_fields)

lemma run_strangers: "strangers folk_world five_offered (offer_leader run_offer five_offered) 6"
proof -
  have "offer_leader run_offer five_offered = 1" unfolding offer_leader_def run_fields by code_simp
  then show ?thesis unfolding strangers_def GetGroup_def by (simp add: run_fields folk_world_def sm_ok_def sm_has_def)
qed

text \<open>
  C7: However long the finder runs and whatever the clients send, an offer is always for five players, one tank,
  one healer and three damage dealers, each in a role his class allows; each of the five has this offer and no other;
  and only they have accepted it.\<close>
lemma offers_are_parties:
  assumes "finder_path cls ms (fresh_lft table gs forced) st" and "sm_find (m_offers st) i = Some o1"
  shows "full_party (of_roles o1) \<and> list_all (\<lambda>e. AllowedRoleMask (cls (fst e)) AND snd e \<noteq> 0) (of_roles o1)
    \<and> (sm_find (m_playerOffers st) g = Some i \<longleftrightarrow> sm_has (of_roles o1) g)
    \<and> list_all (\<lambda>e. sm_has (of_roles o1) (fst e)) (of_accepted o1)"
  using offers_okD(3,4) [OF lft_okD(3) [OF path_ok [OF assms(1)]] assms(2)] by (simp add: offer_ok_def)

lemma offers_are_parties_witness: "sm_find (m_offers five_offered) 1 = Some run_offer \<and> full_party (of_roles run_offer)
    \<and> sm_find (m_playerOffers five_offered) 6 = Some 1"
  using offers_are_parties [OF offered_path run_offers, of 6] run_offers by (simp add: run_offer_def sm_has_def)

text \<open>
  C9: Every offer ends: once ninety seconds of updates have gone by since it was there, it is not there any more,
  whatever else happened.\<close>
lemma offers_end:
  assumes "finder_path cls ms0 (fresh_lft table gs forced) st" and "sm_find (m_offers st) i = Some o1"
    and "finder_path cls ms st st'" and "90000 \<le> ms"
  shows "sm_find (m_offers st') i = None"
proof (rule ccontr)
  note ok = path_ok [OF assms(1)]
  assume "sm_find (m_offers st') i \<noteq> None"
  then obtain o2 where o2: "sm_find (m_offers st') i = Some o2" by auto
  have "i < m_nextOfferId st" by (rule offers_okD(2) [OF lft_okD(3) [OF ok] assms(2)])
  then obtain o0 where o0: "sm_find (m_offers st) i = Some o0" "unat (of_timer o2) + ms \<le> unat (of_timer o0)"
    using path_ages [OF assms(3) ok o2] by auto
  have "0 < of_timer o2" using offers_okD(3) [OF lft_okD(3) [OF ok.law_path [OF assms(3) ok]] o2] by (simp add: offer_ok_def)
  moreover have "of_timer o0 \<le> 90000"
    using offers_okD(3) [OF lft_okD(3) [OF ok] o0(1)] by (simp add: offer_ok_def LFT_OFFER_TIMEOUT_def)
  ultimately have "0 < unat (of_timer o2)" "unat (of_timer o0) \<le> 90000" by (simp_all add: word_less_nat_alt word_le_nat_alt)
  with o0(2) assms(4) show False by simp
qed

lemma offers_end_witness: "sm_find (m_offers (Update_lft folk_world 90000 five_offered)) 1 = None"
proof (rule offers_end [OF offered_path run_offers])
  have "finder_step folk_class (unat (90000 :: u32)) five_offered (Update_lft folk_world 90000 five_offered)"
    by (rule finder_step.update [OF folk_known]) (simp add: offer_bound_def run_fields)
  from finder_path.further [OF finder_path.here this]
  show "finder_path folk_class (0 + unat (90000 :: u32)) five_offered (Update_lft folk_world 90000 five_offered)" .
qed simp

text \<open>
  C10: What an attempt at an instance offers: five who wait for it, in a role each of them asked for and with no other
  offer, all of whom may be in a group with the one the search began at, and of each party that queued together either
  everybody or nobody.\<close>
lemma offers_keep_parties:
  assumes "sm_ok (m_queue st)" and "snd (TryBuildOfferForInstance w inst st)"
  shows "\<exists>o1 seed. m_offers (fst (TryBuildOfferForInstance w inst st)) = sm_put (m_nextOfferId st) o1 (m_offers st)
    \<and> of_instance o1 = inst \<and> full_party (of_roles o1) \<and> seats_ok w inst seed st (of_roles o1)
    \<and> list_all (\<lambda>e. case sm_find (m_queue st) (fst e) of None \<Rightarrow> False
         | Some q \<Rightarrow> list_all (sm_has (of_roles o1)) (block_of st (block_leader (fst e) q))) (of_roles o1)"
proof -
  obtain seed where "find (\<lambda>seed. try_seed w inst st seed \<noteq> None) (GetQueueOrder st) = Some seed"
    using assms(2) by (auto simp: TryBuildOfferForInstance_def split: option.splits)
  moreover from this obtain roles where roles: "try_seed w inst st seed = Some roles" by (auto simp: find_Some_iff)
  ultimately obtain o1 where offers: "m_offers (fst (TryBuildOfferForInstance w inst st)) = sm_put (m_nextOfferId st) o1 (m_offers st)"
    and o1: "of_instance o1 = inst" "of_roles o1 = roles"
    by (simp add: TryBuildOfferForInstance_def Let_def offers_out)
  obtain sq where seats: "full_party roles" "seats_ok w inst sq st roles"
    and whole: "\<And>k q. sm_has roles k \<Longrightarrow> sm_find (m_queue st) k = Some q \<Longrightarrow> set (block_of st (block_leader k q)) \<subseteq> set (sm_keys roles)"
    using try_seed_sound [OF assms(1) roles] by metis
  have "list_all (\<lambda>e. case sm_find (m_queue st) (fst e) of None \<Rightarrow> False
      | Some q \<Rightarrow> list_all (sm_has roles) (block_of st (block_leader (fst e) q))) roles"
    unfolding list_all_iff
  proof
    fix e
    assume e: "e \<in> set roles"
    then obtain q where "sm_find (m_queue st) (fst e) = Some q"
      using seats by (auto simp: seats_ok_def list_all_iff seatable_def split: option.splits)
    moreover have "sm_has roles (fst e)" using e by (simp add: sm_has_keys sm_keys_def)
    ultimately show "case sm_find (m_queue st) (fst e) of None \<Rightarrow> False
        | Some q \<Rightarrow> \<forall>x \<in> set (block_of st (block_leader (fst e) q)). sm_has roles x"
      using whole by (auto simp: sm_has_keys)
  qed
  with offers o1(1) seats show ?thesis unfolding o1(2) [symmetric] by blast
qed

lemma offers_keep_parties_witness: "\<exists>o1. m_offers (fst (TryBuildOfferForInstance folk_world ''rfc'' (party_formed\<lparr>m_queue := run_queue\<rparr>)))
    = sm_put 1 o1 [] \<and> full_party (of_roles o1)"
proof -
  let ?st = "party_formed\<lparr>m_queue := run_queue\<rparr>"
  have ok: "sm_ok (m_queue ?st)" by (simp add: run_queue_def sm_ok_def)
  have made: "snd (TryBuildOfferForInstance folk_world ''rfc'' ?st)" by code_simp
  obtain o1 where o1: "m_offers (fst (TryBuildOfferForInstance folk_world ''rfc'' ?st)) = sm_put (m_nextOfferId ?st) o1 (m_offers ?st)"
      "full_party (of_roles o1)"
    using offers_keep_parties [OF ok made] by blast
  have "m_nextOfferId ?st = 1" "m_offers ?st = []" by (simp_all add: party_formed_def fresh_lft_def)
  with o1 show ?thesis by (intro exI [of _ o1]) (simp only: simp_thms)
qed

text \<open>
  C11: Whom a cancelled offer leaves in the queue: of the five those the call lets stay, which for an offer that ran out
  of time is those who had accepted, with the role they are looking for chosen anew; everybody else as he was. None of the
  five has an offer afterwards, and the offer is gone.\<close>
lemma cancel_keeps_accepters:
  assumes "finder_path cls ms (fresh_lft table gs forced) st" and "sm_find (m_offers st) i = Some o1"
  shows "sm_find (m_queue (CancelOffer w i ra rg ro st)) g
      = (if \<not> sm_has (of_roles o1) g then sm_find (m_queue st) g
         else if ra \<and> g \<noteq> rg \<and> (ro \<or> sm_has (of_accepted o1) g) then map_option unassigned (sm_find (m_queue st) g) else None)
    \<and> sm_find (m_playerOffers (CancelOffer w i ra rg ro st)) g
      = (if sm_has (of_roles o1) g then None else sm_find (m_playerOffers st) g)
    \<and> m_offers (CancelOffer w i ra rg ro st) = sm_erase i (m_offers st)"
  using CancelOffer_find [OF path_ok [OF assms(1)] assms(2)] by (simp add: CancelOffer_offers stays_queued_def)

lemma cancel_keeps_accepters_witness: "sm_find (m_queue (CancelOffer folk_world 1 True 1 True five_offered)) 1 = None
    \<and> sm_has (m_queue (CancelOffer folk_world 1 True 1 True five_offered)) 6"
  using cancel_keeps_accepters [OF offered_path run_offers, of folk_world True 1 True 1]
    cancel_keeps_accepters [OF offered_path run_offers, of folk_world True 1 True 6]
  by (simp add: run_fields run_offer_def run_queue_def sm_has_def)



text \<open>
  C8: A party that is offered a run with strangers never gets it: where one of the five is in a group already and the
  leader the offer picks is not in that group, the offer fails when all have accepted, and all five, who had done
  everything asked of them, are out of the queue and without a party.\<close>
lemma party_among_strangers:
  assumes "finder_path cls ms (fresh_lft table gs forced) st" and "sm_find (m_offers st) i = Some o1"
    and "sm_has (of_roles o1) g" and "strangers w st (offer_leader o1 st) g" and "sm_has (of_roles o1) m"
  shows "snd (CompleteOffer w i st) = False \<and> sm_find (m_queue (fst (CompleteOffer w i st))) m = None
    \<and> sm_find (m_playerOffers (fst (CompleteOffer w i st))) m = None \<and> sm_find (m_offers (fst (CompleteOffer w i st))) i = None"
  using strangers_fail [OF path_ok [OF assms(1)] assms(2-5)] by simp

lemma party_among_strangers_witness: "snd (CompleteOffer folk_world 1 five_offered) = False
    \<and> sm_find (m_queue (fst (CompleteOffer folk_world 1 five_offered))) 1 = None"
  using party_among_strangers [OF offered_path run_offers _ run_strangers, of 1] by (simp add: run_offer_def sm_has_def)


text \<open>
  C14: The loop that fills a party ends: the number of turns \<open>FillInstanceWithBots\<close> is run with is enough, more change
  nothing, and it is at most eight.\<close>
lemma fill_loop_ends:
  "fill_loop w inst waiter (fill_turns covered + n) covered st = fill_loop w inst waiter (fill_turns covered) covered st
    \<and> fill_turns covered \<le> 8"
proof
  show "fill_loop w inst waiter (fill_turns covered + n) covered st = fill_loop w inst waiter (fill_turns covered) covered st"
    by (rule fill_loop_enough) simp
  show "fill_turns covered \<le> 8" by (cases covered) (simp add: fill_turns_def, arith)
qed

text \<open>
  A signup written to the table is read back from it as it was, where no name in it has one of the three characters the
  format gives a meaning.\<close>
lemma signups_roundtrip: "list_all plain_signup signups \<Longrightarrow> DeserializeSignups (SerializeSignups signups) = signups"
  by (rule signups_back)

lemma signups_roundtrip_witness:
  "DeserializeSignups (SerializeSignups [\<lparr>ls_name = ''Anna'', ls_className = ''MAGE'', ls_level = 60, ls_confirmed = True\<rparr>])
    = [\<lparr>ls_name = ''Anna'', ls_className = ''MAGE'', ls_level = 60, ls_confirmed = True\<rparr>]"
  by (rule signups_roundtrip) (simp add: plain_signup_def plain_field_def)

text \<open>
  A bot that was put in to fill a party and is in it now, so that it is neither in the queue nor in an offer, is told to
  forget its role the next time the finder looks for bots it does not need.\<close>
lemma fill_bot_loses_role:
  assumes "sm_has (m_fillBots st) g" and "\<not> sm_has (m_queue st) g" and "\<not> sm_has (m_playerOffers st) g" and "GetPlayer w g \<noteq> None"
  shows "sm_find (lf_forced (DropUnneededFillBots w st)) g = Some 0"
  unfolding DropUnneededFillBots_def using fill_bots_reset [OF assms(2-4), of "sm_keys (m_fillBots st)"] assms(1) by (simp add: sm_has_keys)

lemma fill_bot_loses_role_witness: "sm_find (lf_forced (DropUnneededFillBots folk_world (party_formed\<lparr>m_fillBots := [(1, ())]\<rparr>))) 1 = Some 0"
  by (rule fill_bot_loses_role) (simp_all add: party_formed_def fresh_lft_def sm_has_def GetPlayer_def folk_world_def folk_def)

end
