(* ===== verification/Spec2Isabelle.thy ===== *)
theory Spec2Isabelle
  imports HouseNames HouseTrips HouseWalks HouseArrivals HouseAuthoring HouseStartup HouseRuns
    HouseTrade InvasionRuns CompanionRuns FinderRuns
begin

text \<open>
  A verification library of what this game server adds to its core: player housing, the singleton
  \<open>HouseMgr\<close> and its hooks in \<open>src/source/src/game/Housing\<close>, invasions, the singleton
  \<open>InvasionManager\<close> in \<open>src/source/src/game/Invasion\<close>, companions, the bots a player hires, in
  \<open>src/source/src/modules/PlayerBots/playerbot\<close>, and the dungeon finder, the singleton \<open>LFTManager\<close> in
  \<open>src/source/src/game/LFT\<close>. A house is a row of the table \<open>house\<close> and a private copy of one
  map; it holds furniture (\<open>house_object\<close>) and animals (\<open>house_critter\<close>), both of which come out of crates
  and go back into them; an account has one shelf of crates; doors out in the world lead to it, and a
  template says what a newly claimed house looks like. Everything lives twice, in the maps of the
  manager and in the tables, and the code writes both at every step.

  The theories, in the order the code has its parts. The names of definitions are those of the code.

  \<^item> HousePrelude: machine words, the sorted association list \<open>smap\<close> that stands for \<open>std::map\<close> and for
    a table with a primary key (interfaces \<open>row_store\<close> and \<open>mirror\<close>), and the lemma collections.
  \<^item> HouseTypes, HouseState (HouseMgr.h): structs, enums and constants; the manager as one record
    \<open>HouseMgr\<close>, with the tables in \<open>m_db\<close> and everything the code asks of the rest of the server in a record
    \<open>server\<close>, an argument of the definitions: templates of the world database, who is online, whether a
    teleport or a store in the bags goes through. What an operation does to the world (spawn, teleport,
    chat) is a value appended to \<open>m_trace\<close>. A statement of the code is \<open>pexec\<close> of a table update.
  \<^item> HouseSettings, HouseLookup, HouseStorage, HouseNames, HouseMarks (HouseMgr.cpp): settings, finding a
    house and who may change it, the shelf, names of pieces, selection and chalk mark.
  \<^item> HouseEditing (HouseHandle.cpp): edit sessions. HouseObjects (HouseMgr.cpp): every operation on
    furniture, from \<open>PlaceObject\<close> to \<open>ClearHouse\<close>.
  \<^item> HouseDoors, HouseVisits (HousePortal.cpp, HouseMgr.cpp): entrances and the way out; going home,
    visiting, knocking, being put out, the portal home. HouseTrips: all of these in any order.
  \<^item> HouseCritters, HouseWalks (HouseCritter.cpp): animals, and the orders to walk over.
  \<^item> HouseTemplates (HouseMgr.cpp): authoring, claiming, resetting and moving; what they do is proved in
    HouseEstates (emptying, stamping, moving), HouseClaims and HouseAuthoring.
  \<^item> HouseStartup: \<open>LoadFromDB\<close>. HouseArrivals: the late ping, the fall watch, the beat of the animals.
  \<^item> HouseRows: the interface \<open>house_rows\<close> of rows filed under houses, interpreted for furniture and for
    animals. HouseRuns: the invariants along any sequence of operations.
  \<^item> HouseMarket, HouseUpgrades, HouseTrade (HouseUpgrades.cpp, and of Player.cpp what they rest on): the
    shop, and the objects of a house that work when they are clicked: pantry, repair table, compactor,
    elixirs, flasks and fortunes. A player is here a record \<open>customer\<close> of gold, bags, auras, cooldowns and
    quest log; prototypes, cost tables, a store in the bags and a cast are fields of a record \<open>market\<close>.
  \<^item> Invasions (InvasionMgr.cpp, item_invasion_sigil.cpp): the manager with its rows, respites and results,
    and one definition per hook: sigil, tick, withdrawal, death, release, logout. What a hook asks of the
    world (who is online, where, alive, flagged; the settings; the draw) is a record \<open>scene\<close>, what it does
    to it a value of \<open>invasion_effect\<close>. InvasionRules: the contract \<open>handled\<close> that every hook keeps for each
    match, as the locale \<open>match_handler\<close>, interpreted on the four hooks that end matches, and the step
    relation. InvasionRuns: what holds along any run.
  \<^item> Companions (CompanionOwnership.cpp, PlayerbotMgr.cpp, PlayerbotScripts.cpp, RandomPlayerbotMgr.cpp):
    who owns a hired bot. The containers of the namespace, the queue of deferred deletes, the list of logins
    and the three tables they are checked against are one record \<open>companions\<close>; the clock, the thread a call
    runs on, the bots in memory and what a logout does to them are a record \<open>companion_env\<close>. CompanionHires
    (RecruitBot.cpp): hire, dismissal, account pool, chat commands; a hire asks the \<open>InvasionManager\<close> whether
    the player invades. CompanionRules: memory and table as two stores of seats (interface \<open>mirror\<close>) and the
    invariant. CompanionLaws: the locale \<open>registry_law\<close>, a law every primitive keeps is kept by every
    operation, interpreted on the invariant. CompanionRestarts: the startup purge, loop by loop.
    CompanionSteps: what each operation may take away, and the step relation of the module and of the rest
    of the server. CompanionQueues, CompanionRuns: what holds along any run.
  \<^item> Finder, FinderQueue (LFTMgr.h, LFTQeueue.cpp), FinderFill (LFTBotFill.cpp), FinderBoard
    (LFTUserGroups.cpp, LFTMgr.cpp): the manager as one record \<open>LFTManager\<close>, which also keeps the groups it
    forms, the role each bot was told to play, the table \<open>lft_user_groups\<close> and what was sent; players, clock,
    settings and what the bots' module answers are a record \<open>lft_world\<close>. A player queues, alone or with his
    party after a role check; the matcher makes offers to five; accepted by all, an offer becomes a party.
    Bots stand in for those who are missing. The board is apart from this: groups that players advertise.
    FinderRules: the matcher and the invariant \<open>lft_ok\<close>. FinderLaws: the locale \<open>finder_base\<close> of laws that
    survive what an operation does to queue, role checks and offers, its extension \<open>finder_law\<close> by a new offer,
    and their interpretations. FinderOffers: the step relation, the clock of an offer, logout, fill, a party
    among strangers. FinderRuns: the properties.

  What the lemmas show. Each operation has a lemma for what it does on every branch (a refusal leaves
  the rows as they were; an error message of the code is an \<open>Inl\<close>), and each kind of data an invariant:
  \<open>objects_inv\<close>, \<open>critters_inv\<close> (every row filed under its own id, listed once by the house it names, below
  the next id, and mirrored in its table), \<open>storage_inv\<close>, \<open>settings_inv\<close>, \<open>portals_inv\<close>, \<open>templates_inv\<close>,
  \<open>one_way_back\<close>. The invariants are what makes a restart exact: the loaders read back what the running
  server wrote. On top stand the claims about players: crates are neither lost nor made, nobody enters
  a house he was not let into, a visitor finds his way back, a move gives exactly the shell of the door; gold
  leaves a purse for exactly what was quoted; nobody is in two invasions, and every invader comes home; a companion survives a
  logout and a restart within the window, goes when it is sent away, and no other character is deleted;
  an offer of the finder is a full party in roles its players can play, and it ends.

  Loops and fuel. Loops over a list are folds or structural recursion. \<open>next_free\<close>, the search for a free
  square, ends because the shelf ends at \<open>HOUSE_STORAGE_MAX\<close>. What the code spreads over polls of the
  instance script is one call per poll in the model; the number of polls is part of the claim: 41 for an
  animal called over (\<open>HOUSE_CRITTER_WALK_TICKS\<close> and the closing one), the delay setting and the fall watch
  for an arrival, the time left of its phases for an invasion. Runs are reflexive transitive closures of inductive step relations.

  The walk over the account pool has the 10000 steps of the code as its fuel, the draw of a class its 20. The loop that
  fills a party with bots has \<open>fill_turns\<close> turns, at most eight: each turn covers a role or adds one of at most
  five entries, and further turns change nothing.

  Hypotheses. Ids are 32-bit words that can run out; a claim that needs fresh ids says how many. The
  claims on stamping take frozen rows without crate and group (\<open>plain_frozen\<close>): \<open>SaveTemplate\<close> keeps both in
  memory though the table has no column for them, and no operation shows the difference on a piece that
  belongs to the house. A companion's claims take the clock within 32 bits (\<open>clock_ok\<close>) and, of the server,
  that a new character gets a guid nobody holds (\<open>new_guid\<close>); those that a delete is carried out say that the
  server can log the bot out. The finder's claims take that fewer than three times \<open>2 ^ 30\<close> offers have been made
  since the start (\<open>offer_bound\<close>, so that no number of an offer comes back) and that a character keeps his class.

  Not modelled. Coordinates, sizes and distances are reals, not floats, so rounding is not; text of log
  lines is not; asynchronous database workers are not, a statement takes effect when it is queued; the
  column \<open>stowed\<close>, which no statement writes, and table collation are not. The rest of housing is glue over
  the modelled operations: the gears drawn over doors and the knobs for their looks (HousePortal.cpp),
  menus and the addon protocol (HouseHandle.cpp, HousePortal.cpp, HouseVendor.cpp), chat
  commands (HouseCommands.cpp), and the throttle of the instance script. Of the bots, what one does once it
  is in the world and the making of its character are parameters; the lock of the registry is not modelled,
  each call is one step, and bots \<open>std::sort\<close> leaves in either order come in that of their guids. Of groups the finder's
  model has members, leader and size; whether the server lets a player join and whom it makes leader are parameters,
  as are the parser of the seed dungeons and the spelling of names. Other subsystems of the server
  are outside this library; housing sees them through the record \<open>server\<close>.
\<close>

end
